(* ===== verification/Prelude.thy ===== *)
theory Prelude
  imports Main "HOL-Library.Char_ord" "HOL-Library.List_Lexorder"
begin

text \<open>
  Shared ground of the development: the fixed-width integers, the string operations of Rust's
  \<^verbatim>\<open>str\<close>, results with an early return, and the ordered maps (\<^verbatim>\<open>BTreeMap\<close>, which also backs
  \<^verbatim>\<open>serde_json::Map\<close>) that the components use.

  Strings are lists of HOL characters, read as the Unicode code points 0 to 255: one HOL character
  is one Rust \<^verbatim>\<open>char\<close>, and \<open>str_len\<close> counts the UTF-8 bytes \<^verbatim>\<open>str::len\<close> counts.  The order on
  strings is the lexicographic order on code points, which is the byte order of their UTF-8 forms.
\<close>

named_theorems wrap_simps \<open>fixed-width arithmetic inside its range\<close>
named_theorems str_simps \<open>string operations on concrete and composed strings\<close>
named_theorems result_simps \<open>results and early returns\<close>

section \<open>Fixed-width integers\<close>

text \<open>Rust's \<^verbatim>\<open>i64\<close>, \<^verbatim>\<open>u64\<close> and \<^verbatim>\<open>u32\<close> are \<open>int\<close> and \<open>nat\<close> with the wrap-around of a release
  build written at every arithmetic step that can leave the range.\<close>

definition wrap_i64 :: "int \<Rightarrow> int" where
  "wrap_i64 x = (x + 2 ^ 63) mod 2 ^ 64 - 2 ^ 63"

definition wrap_u64 :: "nat \<Rightarrow> nat" where
  "wrap_u64 x = x mod 2 ^ 64"

definition wrap_u32 :: "nat \<Rightarrow> nat" where
  "wrap_u32 x = x mod 2 ^ 32"

definition u64_max :: nat where
  "u64_max = 2 ^ 64 - 1"

lemma wrap_i64_id [wrap_simps]: "- (2 ^ 63) \<le> x \<Longrightarrow> x < 2 ^ 63 \<Longrightarrow> wrap_i64 x = x"
  by (simp add: wrap_i64_def)

lemma wrap_i64_range: "- (2 ^ 63) \<le> wrap_i64 x \<and> wrap_i64 x < 2 ^ 63"
  by (simp add: wrap_i64_def)

lemma wrap_u64_id [wrap_simps]: "x < 2 ^ 64 \<Longrightarrow> wrap_u64 x = x"
  by (simp add: wrap_u64_def)

lemma wrap_u32_id [wrap_simps]: "x < 2 ^ 32 \<Longrightarrow> wrap_u32 x = x"
  by (simp add: wrap_u32_def)

lemma wrap_u32_le: "wrap_u32 x \<le> x"
  by (simp add: wrap_u32_def)

lemma wrap_u64_le: "wrap_u64 x \<le> x"
  by (simp add: wrap_u64_def)

section \<open>Results\<close>

text \<open>A Rust \<^verbatim>\<open>Result<T, E>\<close> is \<open>'e + 'a\<close>, \<open>Inl\<close> the error.\<close>

definition and_then :: "'e + 'a \<Rightarrow> ('a \<Rightarrow> 'e + 'b) \<Rightarrow> 'e + 'b" where
  "and_then r f = (case r of Inl e \<Rightarrow> Inl e | Inr x \<Rightarrow> f x)"

definition ok_or :: "'e \<Rightarrow> 'a option \<Rightarrow> 'e + 'a" where
  "ok_or e x = (case x of None \<Rightarrow> Inl e | Some y \<Rightarrow> Inr y)"

definition is_ok :: "'e + 'a \<Rightarrow> bool" where
  "is_ok r = (case r of Inl _ \<Rightarrow> False | Inr _ \<Rightarrow> True)"

text \<open>A \<^verbatim>\<open>for\<close> loop whose body checks one element and returns the first error.\<close>

fun check_all :: "('a \<Rightarrow> 'e + unit) \<Rightarrow> 'a list \<Rightarrow> 'e + unit" where
  "check_all f [] = Inr ()"
| "check_all f (x # xs) = and_then (f x) (\<lambda>_. check_all f xs)"

lemma and_then_Inl [simp]: "and_then (Inl e) f = Inl e"
  by (simp add: and_then_def)

lemma and_then_Inr [simp]: "and_then (Inr x) f = f x"
  by (simp add: and_then_def)

lemma and_then_eq_Inr [result_simps]:
  "and_then r f = Inr y \<longleftrightarrow> (\<exists>x. r = Inr x \<and> f x = Inr y)"
  by (cases r) auto

lemma and_then_eq_Inl [result_simps]:
  "and_then r f = Inl e \<longleftrightarrow> r = Inl e \<or> (\<exists>x. r = Inr x \<and> f x = Inl e)"
  by (cases r) auto

lemma ok_or_simps [simp]: "ok_or e None = Inl e" "ok_or e (Some x) = Inr x"
  by (simp_all add: ok_or_def)

lemma ok_or_eq_Inr [result_simps]: "ok_or e x = Inr y \<longleftrightarrow> x = Some y"
  by (cases x) auto

lemma is_ok_simps [simp]: "is_ok (Inl e) = False" "is_ok (Inr x) = True"
  by (simp_all add: is_ok_def)

lemma is_ok_and_then [result_simps]:
  "is_ok (and_then r f) \<longleftrightarrow> (\<exists>x. r = Inr x \<and> is_ok (f x))"
  by (cases r) auto

lemma check_all_ok [result_simps]:
  "check_all f xs = Inr u \<longleftrightarrow> (\<forall>x \<in> set xs. is_ok (f x))"
proof (induction xs)
  case Nil
  show ?case by simp
next
  case (Cons x xs)
  then show ?case by (cases "f x") auto
qed

lemma check_all_okD: "check_all f xs = Inr u \<Longrightarrow> x \<in> set xs \<Longrightarrow> is_ok (f x)"
  by (simp add: check_all_ok)

lemma is_ok_check_all [result_simps]: "is_ok (check_all f xs) \<longleftrightarrow> (\<forall>x \<in> set xs. is_ok (f x))"
  using check_all_ok [of f xs "()"] by (cases "check_all f xs") auto

lemma check_all_Inl:
  "check_all f xs = Inl e \<Longrightarrow> \<exists>x \<in> set xs. f x = Inl e"
proof (induction xs)
  case Nil
  then show ?case by simp
next
  case (Cons x xs)
  then show ?case by (cases "f x") auto
qed

lemma fold_and_then_Inl [simp]: "fold (\<lambda>x acc. and_then acc (f x)) xs (Inl e) = Inl e"
  by (induction xs) auto

text \<open>A loop whose body may fail keeps what every turn of its body keeps.\<close>

lemma fold_and_then_invariant:
  assumes "fold (\<lambda>x acc. and_then acc (f x)) xs (Inr s) = Inr s'"
    and "\<And>x s s'. x \<in> set xs \<Longrightarrow> f x s = Inr s' \<Longrightarrow> R s s'" and "\<And>s. R s s" and "\<And>s t u. R s t \<Longrightarrow> R t u \<Longrightarrow> R s u"
  shows "R s s'"
  using assms(1,2)
proof (induction xs arbitrary: s)
  case Nil
  then show ?case using assms(3) by simp
next
  case (Cons x xs)
  then obtain t where t: "f x s = Inr t" by (cases "f x s") auto
  then have "R s t" "R t s'" using Cons by auto
  then show ?case using assms(4) by blast
qed

section \<open>Strings\<close>

definition str_len :: "string \<Rightarrow> nat" where
  "str_len s = (\<Sum>c \<leftarrow> s. if of_char c < (128 :: nat) then 1 else 2)"

text \<open>\<^verbatim>\<open>str::split(c)\<close>: always at least one piece.\<close>

fun split_on :: "char \<Rightarrow> string \<Rightarrow> string list" where
  "split_on c [] = [[]]"
| "split_on c (x # xs) =
     (if x = c then [] # split_on c xs
      else (case split_on c xs of [] \<Rightarrow> [[x]] | w # ws \<Rightarrow> (x # w) # ws))"

definition strip_prefix :: "string \<Rightarrow> string \<Rightarrow> string option" where
  "strip_prefix p s = (if take (length p) s = p then Some (drop (length p) s) else None)"

text \<open>\<^verbatim>\<open>str::split_once(c)\<close>: around the first occurrence.\<close>

definition split_once :: "char \<Rightarrow> string \<Rightarrow> (string \<times> string) option" where
  "split_once c s = (if c \<in> set s
     then Some (takeWhile (\<lambda>x. x \<noteq> c) s, drop 1 (dropWhile (\<lambda>x. x \<noteq> c) s))
     else None)"

text \<open>\<^verbatim>\<open>s.rsplit(seps).next()\<close>: what follows the last separator.\<close>

definition rsplit_last :: "char list \<Rightarrow> string \<Rightarrow> string" where
  "rsplit_last seps s = rev (takeWhile (\<lambda>c. c \<notin> set seps) (rev s))"

text \<open>\<^verbatim>\<open>char::is_whitespace\<close> on the code points 0 to 255.\<close>

definition is_whitespace :: "char \<Rightarrow> bool" where
  "is_whitespace c = (let n = (of_char c :: nat) in (9 \<le> n \<and> n \<le> 13) \<or> n = 32 \<or> n = 133 \<or> n = 160)"

definition trim :: "string \<Rightarrow> string" where
  "trim s = rev (dropWhile is_whitespace (rev (dropWhile is_whitespace s)))"

definition is_ascii_digit :: "char \<Rightarrow> bool" where
  "is_ascii_digit c = (let n = (of_char c :: nat) in 48 \<le> n \<and> n \<le> 57)"

definition ascii_lower :: "char \<Rightarrow> char" where
  "ascii_lower c = (let n = (of_char c :: nat) in if 65 \<le> n \<and> n \<le> 90 then char_of (n + 32) else c)"

definition is_ascii_alphanumeric :: "char \<Rightarrow> bool" where
  "is_ascii_alphanumeric c = (let n = (of_char c :: nat) in
     (48 \<le> n \<and> n \<le> 57) \<or> (65 \<le> n \<and> n \<le> 90) \<or> (97 \<le> n \<and> n \<le> 122))"

text \<open>\<^verbatim>\<open>str::parse\<close> for an unsigned integer type with the given largest value: an optional \<^verbatim>\<open>+\<close>, then
  at least one digit, and no overflow.\<close>

fun parse_digits :: "nat \<Rightarrow> nat \<Rightarrow> string \<Rightarrow> nat option" where
  "parse_digits lim acc [] = Some acc"
| "parse_digits lim acc (c # cs) =
     (if is_ascii_digit c
      then (let acc' = acc * 10 + (of_char c - 48) in
            if acc' \<le> lim then parse_digits lim acc' cs else None)
      else None)"

definition parse_unsigned :: "nat \<Rightarrow> string \<Rightarrow> nat option" where
  "parse_unsigned lim s = (case s of
     [] \<Rightarrow> None
   | c # cs \<Rightarrow> if c = CHR ''+'' then (if cs = [] then None else parse_digits lim 0 cs)
              else parse_digits lim 0 s)"

lemma split_on_not_Nil [simp]: "split_on c s \<noteq> []"
  by (induction s) (auto split: list.splits)

lemma split_on_no_sep: "w \<in> set (split_on c s) \<Longrightarrow> c \<notin> set w"
  by (induction s arbitrary: w) (auto split: if_splits list.splits)

lemma split_on_id: "c \<notin> set s \<Longrightarrow> split_on c s = [s]"
  by (induction s) auto

lemma strip_prefix_append [simp]: "strip_prefix p (p @ s) = Some s"
  by (simp add: strip_prefix_def)

lemma strip_prefix_Some: "strip_prefix p s = Some r \<longleftrightarrow> s = p @ r"
  by (auto simp: strip_prefix_def split: if_splits) (metis append_take_drop_id)

lemma split_once_Some:
  "split_once c s = Some (a, b) \<longleftrightarrow> s = a @ c # b \<and> c \<notin> set a"
proof
  assume a: "split_once c s = Some (a, b)"
  then have c: "c \<in> set s" by (simp add: split_once_def split: if_splits)
  have "dropWhile (\<lambda>x. x \<noteq> c) s \<noteq> []" using c by (auto simp: dropWhile_eq_Nil_conv)
  moreover have "hd (dropWhile (\<lambda>x. x \<noteq> c) s) = c" using hd_dropWhile [OF calculation] by simp
  ultimately have d: "dropWhile (\<lambda>x. x \<noteq> c) s = c # drop 1 (dropWhile (\<lambda>x. x \<noteq> c) s)"
    by (cases "dropWhile (\<lambda>x. x \<noteq> c) s") auto
  have "s = takeWhile (\<lambda>x. x \<noteq> c) s @ dropWhile (\<lambda>x. x \<noteq> c) s" by simp
  then have "s = takeWhile (\<lambda>x. x \<noteq> c) s @ c # drop 1 (dropWhile (\<lambda>x. x \<noteq> c) s)" using d by metis
  moreover have "c \<notin> set (takeWhile (\<lambda>x. x \<noteq> c) s)" by (auto dest: set_takeWhileD)
  ultimately show "s = a @ c # b \<and> c \<notin> set a" using a c by (simp add: split_once_def)
next
  assume "s = a @ c # b \<and> c \<notin> set a"
  then show "split_once c s = Some (a, b)" by (auto simp: split_once_def takeWhile_append dropWhile_append)
qed

lemma rsplit_last_no_sep: "c \<in> set seps \<Longrightarrow> c \<notin> set (rsplit_last seps s)"
  by (auto simp: rsplit_last_def dest: set_takeWhileD)

lemma dropWhile_hd_id: "s = [] \<or> \<not> P (hd s) \<Longrightarrow> dropWhile P s = s"
  by (cases s) auto

lemma trim_Nil [simp]: "trim [] = []"
  by (simp add: trim_def)

lemma trim_id: "s = [] \<or> (\<not> is_whitespace (hd s) \<and> \<not> is_whitespace (last s)) \<Longrightarrow> trim s = s"
  by (auto simp: trim_def dropWhile_hd_id hd_rev)

lemma parse_digits_bound: "parse_digits lim acc s = Some n \<Longrightarrow> acc \<le> lim \<Longrightarrow> n \<le> lim"
  by (induction lim acc s rule: parse_digits.induct) (auto simp: Let_def split: if_splits)

lemma parse_unsigned_bound: "parse_unsigned lim s = Some n \<Longrightarrow> n \<le> lim"
  by (auto simp: parse_unsigned_def Let_def split: list.splits if_splits dest: parse_digits_bound)

end
