(* ===== verification/Ordered_Map.thy ===== *)
theory Ordered_Map
  imports Prelude
begin

text \<open>
  \<^verbatim>\<open>BTreeMap<K, V>\<close> (and \<^verbatim>\<open>serde_json::Map\<close>, which is one in this build) as a list of entries in
  strictly ascending key order.  The interface the clients rely on is the locale \<open>ordered_map\<close>:
  what a lookup returns after an insertion or a removal, and that two maps in order with the same
  lookups are equal.  The algebraic laws of insertion and removal are proved once inside it.
\<close>

fun bt_insert :: "'k::linorder \<Rightarrow> 'v \<Rightarrow> ('k \<times> 'v) list \<Rightarrow> ('k \<times> 'v) list" where
  "bt_insert k v [] = [(k, v)]"
| "bt_insert k v ((a, b) # m) =
     (if k < a then (k, v) # (a, b) # m
      else if k = a then (k, v) # m
      else (a, b) # bt_insert k v m)"

fun bt_remove :: "'k::linorder \<Rightarrow> ('k \<times> 'v) list \<Rightarrow> ('k \<times> 'v) list" where
  "bt_remove k [] = []"
| "bt_remove k ((a, b) # m) = (if k = a then m else (a, b) # bt_remove k m)"

fun bt_get :: "('k::linorder \<times> 'v) list \<Rightarrow> 'k \<Rightarrow> 'v option" where
  "bt_get [] k = None"
| "bt_get ((a, b) # m) k = (if k = a then Some b else bt_get m k)"

definition bt_ordered :: "('k::linorder \<times> 'v) list \<Rightarrow> bool" where
  "bt_ordered m = sorted_wrt (<) (map fst m)"

text \<open>\<^verbatim>\<open>values_mut\<close>: every value changed in place, the keys kept.\<close>

definition bt_map_values :: "('v \<Rightarrow> 'w) \<Rightarrow> ('k \<times> 'v) list \<Rightarrow> ('k \<times> 'w) list" where
  "bt_map_values f m = map (\<lambda>(k, v). (k, f v)) m"

section \<open>The interface\<close>

locale ordered_map =
  fixes nothing :: 'm
    and put :: "'k \<Rightarrow> 'v \<Rightarrow> 'm \<Rightarrow> 'm"
    and del :: "'k \<Rightarrow> 'm \<Rightarrow> 'm"
    and look :: "'m \<Rightarrow> 'k \<Rightarrow> 'v option"
    and good :: "'m \<Rightarrow> bool"
  assumes good_nothing: "good nothing"
    and good_put: "good m \<Longrightarrow> good (put k v m)"
    and good_del: "good m \<Longrightarrow> good (del k m)"
    and look_nothing: "look nothing k = None"
    and look_put: "good m \<Longrightarrow> look (put k v m) j = (if j = k then Some v else look m j)"
    and look_del: "good m \<Longrightarrow> look (del k m) j = (if j = k then None else look m j)"
    and ext: "good m \<Longrightarrow> good m' \<Longrightarrow> (\<And>k. look m k = look m' k) \<Longrightarrow> m = m'"
begin

lemma put_put: "good m \<Longrightarrow> put k v (put k w m) = put k v m"
  by (rule ext) (simp_all add: good_put look_put)

lemma put_commute: "good m \<Longrightarrow> k \<noteq> j \<Longrightarrow> put k v (put j w m) = put j w (put k v m)"
  by (rule ext) (auto simp: good_put look_put)

lemma put_same: "good m \<Longrightarrow> look m k = Some v \<Longrightarrow> put k v m = m"
  by (rule ext) (auto simp: good_put look_put)

lemma del_put: "good m \<Longrightarrow> del k (put k v m) = del k m"
  by (rule ext) (auto simp: good_put good_del look_put look_del)

lemma put_del: "good m \<Longrightarrow> put k v (del k m) = put k v m"
  by (rule ext) (auto simp: good_put good_del look_put look_del)

lemma del_put_commute: "good m \<Longrightarrow> k \<noteq> j \<Longrightarrow> del k (put j v m) = put j v (del k m)"
  by (rule ext) (auto simp: good_put good_del look_put look_del)

lemma del_del: "good m \<Longrightarrow> del k (del k m) = del k m"
  by (rule ext) (auto simp: good_del look_del)

lemma del_commute: "good m \<Longrightarrow> del k (del j m) = del j (del k m)"
  by (rule ext) (auto simp: good_del look_del)

lemma del_absent: "good m \<Longrightarrow> look m k = None \<Longrightarrow> del k m = m"
  by (rule ext) (auto simp: good_del look_del)

end

section \<open>The entry list implements it\<close>

lemma bt_ordered_Nil [simp]: "bt_ordered []"
  by (simp add: bt_ordered_def)

lemma bt_ordered_Cons [simp]:
  "bt_ordered ((k, v) # m) \<longleftrightarrow> (\<forall>j \<in> fst ` set m. k < j) \<and> bt_ordered m"
  by (auto simp: bt_ordered_def)

lemma fst_bt_insert [simp]: "fst ` set (bt_insert k v m) = insert k (fst ` set m)"
  by (induction k v m rule: bt_insert.induct) auto

lemma set_bt_remove_subset: "set (bt_remove k m) \<subseteq> set m"
  by (induction k m rule: bt_remove.induct) auto

lemma set_bt_insert_subset: "set (bt_insert k v m) \<subseteq> insert (k, v) (set m)"
  by (induction k v m rule: bt_insert.induct) auto

lemma bt_ordered_insert [simp]: "bt_ordered m \<Longrightarrow> bt_ordered (bt_insert k v m)"
  by (induction k v m rule: bt_insert.induct) auto

lemma bt_ordered_remove [simp]: "bt_ordered m \<Longrightarrow> bt_ordered (bt_remove k m)"
proof (induction k m rule: bt_remove.induct)
  case (2 k a b m)
  then show ?case using set_bt_remove_subset [of k m] by force
qed simp

lemma bt_get_None: "bt_get m k = None \<longleftrightarrow> k \<notin> fst ` set m"
  by (induction m k rule: bt_get.induct) auto

lemma bt_get_SomeD: "bt_get m k = Some v \<Longrightarrow> (k, v) \<in> set m"
  by (induction m k rule: bt_get.induct) (auto split: if_splits)

lemma bt_get_Some: "bt_ordered m \<Longrightarrow> bt_get m k = Some v \<longleftrightarrow> (k, v) \<in> set m"
proof (induction m k rule: bt_get.induct)
  case (2 a b m k)
  then show ?case by (auto simp: image_iff)
qed simp

lemma bt_get_insert: "bt_get (bt_insert k v m) j = (if j = k then Some v else bt_get m j)"
  by (induction k v m rule: bt_insert.induct) auto

lemma bt_get_remove:
  "bt_ordered m \<Longrightarrow> bt_get (bt_remove k m) j = (if j = k then None else bt_get m j)"
proof (induction k m rule: bt_remove.induct)
  case (2 k a b m)
  have "k = a \<Longrightarrow> bt_get m k = None" using "2.prems" by (auto simp: bt_get_None)
  then show ?case using 2 by auto
qed simp

lemma bt_ordered_eq_set: "bt_ordered m \<Longrightarrow> bt_ordered m' \<Longrightarrow> set m = set m' \<Longrightarrow> m = m'"
proof (induction m arbitrary: m')
  case Nil
  then show ?case by simp
next
  case (Cons e m)
  obtain k v where e: "e = (k, v)" by (cases e)
  obtain k' v' n where m': "m' = (k', v') # n" using Cons.prems(3) by (cases m') auto
  have eq: "(k, v) = (k', v')"
    using Cons.prems unfolding e m' by (auto simp: set_eq_iff) (metis fst_conv image_eqI less_asym')+
  have "set m = set n"
    using Cons.prems unfolding e m' eq by (auto simp: set_eq_iff) (metis fst_conv image_eqI less_irrefl)+
  then show ?case using Cons unfolding e m' eq by simp
qed

lemma bt_ext:
  assumes "bt_ordered m" "bt_ordered m'" "\<And>k. bt_get m k = bt_get m' k"
  shows "m = m'"
proof (rule bt_ordered_eq_set [OF assms(1,2)])
  show "set m = set m'" using assms by (auto simp: bt_get_Some [symmetric])
qed

interpretation bt: ordered_map "[]" bt_insert bt_remove bt_get bt_ordered
  by unfold_locales (auto simp: bt_get_insert bt_get_remove intro: bt_ext)

lemmas bt_specs = bt_get_insert bt_get_remove bt_ordered_insert bt_ordered_remove

lemma fst_bt_map_values [simp]: "map fst (bt_map_values f m) = map fst m"
  by (auto simp: bt_map_values_def)

lemma bt_ordered_map_values [simp]: "bt_ordered (bt_map_values f m) = bt_ordered m"
  by (simp add: bt_ordered_def)

lemma bt_get_map_values: "bt_get (bt_map_values f m) k = map_option f (bt_get m k)"
  by (induction m k rule: bt_get.induct) (auto simp: bt_map_values_def)

lemma bt_map_values_Cons [simp]: "bt_map_values f ((k, v) # m) = (k, f v) # bt_map_values f m"
  and bt_map_values_Nil [simp]: "bt_map_values f [] = []"
  by (simp_all add: bt_map_values_def)

end
