(* ===== verification/Float64.thy ===== *)
theory Float64
  imports Prelude "HOL-Library.Log_Nat"
begin

text \<open>
  Rust's \<^verbatim>\<open>f64\<close>: not-a-number, the two infinities, and the finite values, each the rational it
  stands for (so \<^verbatim>\<open>-0.0\<close> and \<^verbatim>\<open>0.0\<close>, which compare equal, are one value).  Comparisons are
  false as soon as one side is NaN; addition rounds the exact sum to the nearest double, ties to even.
\<close>

datatype f64 = NaN | Infinite bool | Finite rat

text \<open>The exponent of the leading bit: the \<open>e\<close> with \<open>2 ^ e \<le> r < 2 ^ (e + 1)\<close>.\<close>

definition ilog2 :: "rat \<Rightarrow> int" where
  "ilog2 r = (let (p, q) = quotient_of r; k = int (floorlog 2 (nat p)) - int (floorlog 2 (nat q))
              in if 2 powi k \<le> r then k else k - 1)"

definition round_half_even :: "rat \<Rightarrow> int" where
  "round_half_even x = (let f = floor x; d = x - of_int f in
     if d < 1 / 2 \<or> (d = 1 / 2 \<and> even f) then f else f + 1)"

definition round_f64 :: "rat \<Rightarrow> f64" where
  "round_f64 r = (if r = 0 then Finite 0 else
     (let e = max (ilog2 \<bar>r\<bar>) (- 1022); u = 2 powi (e - 52); v = of_int (round_half_even (r / u)) * u
      in if 2 ^ 1024 \<le> \<bar>v\<bar> then Infinite (r < 0) else Finite v))"

fun f64_add :: "f64 \<Rightarrow> f64 \<Rightarrow> f64" where
  "f64_add (Finite a) (Finite b) = round_f64 (a + b)"
| "f64_add (Infinite s) (Infinite t) = (if s = t then Infinite s else NaN)"
| "f64_add (Infinite s) (Finite _) = Infinite s"
| "f64_add (Finite _) (Infinite s) = Infinite s"
| "f64_add _ _ = NaN"

fun f64_lt :: "f64 \<Rightarrow> f64 \<Rightarrow> bool" where
  "f64_lt (Finite a) (Finite b) = (a < b)"
| "f64_lt (Infinite s) (Infinite t) = (s \<and> \<not> t)"
| "f64_lt (Infinite s) (Finite _) = s"
| "f64_lt (Finite _) (Infinite s) = (\<not> s)"
| "f64_lt _ _ = False"

fun f64_eq :: "f64 \<Rightarrow> f64 \<Rightarrow> bool" where
  "f64_eq NaN _ = False"
| "f64_eq x y = (x = y)"

definition f64_ge :: "f64 \<Rightarrow> f64 \<Rightarrow> bool" where
  "f64_ge x y = (f64_lt y x \<or> f64_eq x y)"

definition is_nan :: "f64 \<Rightarrow> bool" where
  "is_nan x = (x = NaN)"

text \<open>\<^verbatim>\<open>n as f64\<close> for an integer.\<close>

definition f64_of_int :: "int \<Rightarrow> f64" where
  "f64_of_int n = round_f64 (of_int n)"

lemma f64_lt_NaN [simp]: "\<not> f64_lt NaN x" "\<not> f64_lt x NaN"
  by (cases x; simp)+

lemma f64_ge_NaN [simp]: "\<not> f64_ge NaN x" "\<not> f64_ge x NaN"
  by (cases x; simp add: f64_ge_def)+

lemma f64_add_NaN [simp]: "f64_add NaN x = NaN" "f64_add x NaN = NaN"
  by (cases x; simp)+

lemma f64_total: "x \<noteq> NaN \<Longrightarrow> y \<noteq> NaN \<Longrightarrow> f64_lt x y \<or> f64_ge x y"
  by (cases x; cases y) (auto simp: f64_ge_def)

lemma f64_ge_not_lt: "f64_ge x y \<Longrightarrow> \<not> f64_lt x y"
  by (cases x; cases y) (auto simp: f64_ge_def)

section \<open>Rounding keeps a nonzero integer nonzero\<close>

lemma floorlog_bounds: "0 < n \<Longrightarrow> 2 ^ (floorlog 2 n - 1) \<le> n \<and> n < 2 ^ floorlog 2 n"
  using floorlog_bounds [of n 2] by simp

lemma two_powi_ilog2_le:
  assumes "0 < r"
  shows "2 powi ilog2 r \<le> r"
proof -
  obtain p q where pq: "quotient_of r = (p, q)" by (cases "quotient_of r")
  have q: "0 < q" and r: "r = of_int p / of_int q"
    using quotient_of_denom_pos [OF pq] quotient_of_div [OF pq] by simp_all
  have p: "0 < p" using assms r q by (simp add: zero_less_divide_iff)
  define a b where "a = floorlog 2 (nat p)" and "b = floorlog 2 (nat q)"
  have lo: "2 ^ (a - 1) \<le> nat p" and hi: "nat q < 2 ^ b"
    using floorlog_bounds [of "nat p"] floorlog_bounds [of "nat q"] p q by (simp_all add: a_def b_def)
  have a1: "1 \<le> a" using p by (simp add: a_def floorlog_def)
  have lo': "(2::rat) powi (int a - 1) \<le> of_int p"
  proof -
    have "(2::rat) powi (int a - 1) = of_nat (2 ^ (a - 1))"
      using a1 by (simp add: power_int_def nat_diff_distrib)
    also have "\<dots> \<le> of_nat (nat p)" using lo by (rule of_nat_mono)
    finally show ?thesis using p by simp
  qed
  have hi': "of_int q \<le> (2::rat) powi int b"
  proof -
    have "(of_int q :: rat) = of_nat (nat q)" using q by simp
    also have "\<dots> \<le> of_nat (2 ^ b)" using hi by (intro of_nat_mono) simp
    finally show ?thesis by simp
  qed
  have "2 powi (int a - int b - 1) = (2::rat) powi (int a - 1) / 2 powi int b"
    by (simp add: power_int_diff power_int_add algebra_simps)
  also have "\<dots> \<le> of_int p / of_int q"
    using lo' hi' p q by (intro frac_le) simp_all
  finally have "2 powi (int a - int b - 1) \<le> r" using r by simp
  then show ?thesis using pq by (simp add: ilog2_def Let_def a_def b_def)
qed

lemma round_half_even_ge: "of_int n \<le> x \<Longrightarrow> n \<le> round_half_even x"
  using le_floor_iff [of n x] by (auto simp: round_half_even_def Let_def)

lemma round_half_even_le:
  assumes "x \<le> of_int n"
  shows "round_half_even x \<le> n"
proof (cases "x = of_int n")
  case True
  then show ?thesis by (simp add: round_half_even_def)
next
  case False
  then have "floor x < n" using assms by (simp add: floor_less_iff)
  then show ?thesis by (simp add: round_half_even_def Let_def)
qed

lemma round_half_even_pos: "1 \<le> x \<Longrightarrow> round_half_even x \<noteq> 0"
  using round_half_even_ge [of 1 x] by auto

lemma round_half_even_neg: "x \<le> - 1 \<Longrightarrow> round_half_even x \<noteq> 0"
  using round_half_even_le [of x "- 1"] by auto

lemma round_f64_nonzero:
  assumes "1 \<le> \<bar>r\<bar>"
  shows "round_f64 r \<noteq> Finite 0"
proof -
  define e where "e = max (ilog2 \<bar>r\<bar>) (- 1022)"
  define u :: rat where "u = 2 powi (e - 52)"
  have u: "0 < u" by (simp add: u_def)
  have "u \<le> \<bar>r\<bar>"
  proof (cases "ilog2 \<bar>r\<bar> \<ge> - 1022")
    case True
    then have "u \<le> 2 powi (ilog2 \<bar>r\<bar>)" unfolding u_def e_def by (intro power_int_increasing) auto
    also have "\<dots> \<le> \<bar>r\<bar>" using assms by (intro two_powi_ilog2_le) simp
    finally show ?thesis .
  next
    case False
    then have "u \<le> 2 powi 0" unfolding u_def e_def by (intro power_int_increasing) auto
    then show ?thesis using assms by simp
  qed
  then have "1 \<le> r / u \<or> r / u \<le> - 1" using u by (auto simp: field_simps abs_if split: if_splits)
  then have "round_half_even (r / u) \<noteq> 0" using round_half_even_pos round_half_even_neg by blast
  then show ?thesis using assms u
    by (auto simp: round_f64_def Let_def e_def [symmetric] u_def [symmetric])
qed

lemma f64_of_int_zero: "f64_of_int n = Finite 0 \<longleftrightarrow> n = 0"
proof (cases "n = 0")
  case True
  then show ?thesis by (simp add: f64_of_int_def round_f64_def)
next
  case False
  then have "1 \<le> \<bar>of_int n :: rat\<bar>" by (metis abs_ge_zero linorder_not_less of_int_1 of_int_abs of_int_le_iff zero_less_abs_iff zless_imp_add1_zle add_0)
  then show ?thesis using False by (simp add: f64_of_int_def round_f64_nonzero)
qed

end
