(* ===== verification/Json.thy ===== *)
theory Json
  imports Ordered_Map Float64
begin

text \<open>
  \<^verbatim>\<open>serde_json::Value\<close>: the value type every payload, state and event body is made of, with the
  accessors the components call.  An object's members are an ordered map (\<open>Ordered_Map\<close>); a value is
  well formed when every object inside it is in key order, which the parser and every operation here
  guarantee.  A number is an unsigned or a negative integer or a finite double, and the three are
  never equal to each other, as in \<^verbatim>\<open>serde_json::Number\<close>.
\<close>

datatype json_number = PosInt nat | NegInt int | Float f64

datatype json =
    JNull
  | JBool bool
  | JNumber json_number
  | JString string
  | JArray "json list"
  | JObject "(string \<times> json) list"

type_synonym json_members = "(string \<times> json) list"

definition is_null :: "json \<Rightarrow> bool" where
  "is_null v = (v = JNull)"

fun as_object :: "json \<Rightarrow> json_members option" where
  "as_object (JObject m) = Some m"
| "as_object _ = None"

fun as_array :: "json \<Rightarrow> json list option" where
  "as_array (JArray xs) = Some xs"
| "as_array _ = None"

fun as_str :: "json \<Rightarrow> string option" where
  "as_str (JString s) = Some s"
| "as_str _ = None"

fun as_u64 :: "json \<Rightarrow> nat option" where
  "as_u64 (JNumber (PosInt n)) = Some n"
| "as_u64 _ = None"

text \<open>\<^verbatim>\<open>Value::get(key)\<close>: \<open>None\<close> for every value that is not an object.\<close>

definition json_get :: "json \<Rightarrow> string \<Rightarrow> json option" where
  "json_get v k = (case v of JObject m \<Rightarrow> bt_get m k | _ \<Rightarrow> None)"

text \<open>\<^verbatim>\<open>Number::as_f64\<close>.\<close>

fun num_as_f64 :: "json_number \<Rightarrow> f64" where
  "num_as_f64 (PosInt n) = f64_of_int (int n)"
| "num_as_f64 (NegInt i) = f64_of_int i"
| "num_as_f64 (Float x) = x"

text \<open>The invariant of \<^verbatim>\<open>Number\<close>: a \<open>NegInt\<close> is negative and a \<open>Float\<close> finite.\<close>

fun num_wf :: "json_number \<Rightarrow> bool" where
  "num_wf (PosInt n) = (n < 2 ^ 64)"
| "num_wf (NegInt i) = (- (2 ^ 63) \<le> i \<and> i < 0)"
| "num_wf (Float x) = (\<exists>r. x = Finite r)"

fun json_wf :: "json \<Rightarrow> bool" where
  "json_wf (JNumber n) = num_wf n"
| "json_wf (JArray xs) = (\<forall>x \<in> set xs. json_wf x)"
| "json_wf (JObject m) = (bt_ordered m \<and> (\<forall>e \<in> set m. json_wf (snd e)))"
| "json_wf _ = True"

text \<open>\<^verbatim>\<open>Value::from(Option<..>)\<close> as \<^verbatim>\<open>json!\<close> writes it.\<close>

fun opt_json :: "('a \<Rightarrow> json) \<Rightarrow> 'a option \<Rightarrow> json" where
  "opt_json f None = JNull"
| "opt_json f (Some x) = f x"

text \<open>\<^verbatim>\<open>json!({..})\<close>: the members inserted in the order they are written.\<close>

definition json_object :: "(string \<times> json) list \<Rightarrow> json" where
  "json_object es = JObject (fold (\<lambda>(k, v). bt_insert k v) es [])"

lemma json_get_JObject [simp]: "json_get (JObject m) k = bt_get m k"
  by (simp add: json_get_def)

lemma json_get_SomeD: "json_get v k = Some w \<Longrightarrow> \<exists>m. v = JObject m \<and> bt_get m k = Some w"
  by (cases v) (auto simp: json_get_def)

lemma as_object_Some [simp]: "as_object v = Some m \<longleftrightarrow> v = JObject m"
  by (cases v) auto

lemma as_array_Some [simp]: "as_array v = Some xs \<longleftrightarrow> v = JArray xs"
  by (cases v) auto

lemma as_str_Some [simp]: "as_str v = Some s \<longleftrightarrow> v = JString s"
  by (cases v) auto

lemma json_wf_get: "json_wf v \<Longrightarrow> json_get v k = Some w \<Longrightarrow> json_wf w"
  by (fastforce dest!: json_get_SomeD bt_get_SomeD)

lemma json_wf_bt_get: "json_wf (JObject m) \<Longrightarrow> bt_get m k = Some w \<Longrightarrow> json_wf w"
  by (fastforce dest!: bt_get_SomeD)

lemma json_wf_insert: "json_wf (JObject m) \<Longrightarrow> json_wf v \<Longrightarrow> json_wf (JObject (bt_insert k v m))"
  using set_bt_insert_subset [of k v m] by auto

lemma json_wf_remove: "json_wf (JObject m) \<Longrightarrow> json_wf (JObject (bt_remove k m))"
  using set_bt_remove_subset [of k m] by auto

lemma json_wf_fold_insert:
  "json_wf (JObject m) \<Longrightarrow> (\<forall>e \<in> set es. json_wf (snd e)) \<Longrightarrow>
   json_wf (JObject (fold (\<lambda>(k, v). bt_insert k v) es m))"
proof (induction es arbitrary: m)
  case Nil
  then show ?case by simp
next
  case (Cons e es)
  obtain k v where e: "e = (k, v)" by (cases e)
  have "json_wf (JObject (bt_insert k v m))"
    using Cons.prems by (intro json_wf_insert) (simp_all add: e)
  then show ?case using Cons.IH [of "bt_insert k v m"] Cons.prems(2) by (simp add: e)
qed

lemma json_wf_object: "(\<forall>e \<in> set es. json_wf (snd e)) \<Longrightarrow> json_wf (json_object es)"
  using json_wf_fold_insert [of "[]" es] by (simp add: json_object_def)

lemma json_size_member: "(k, v) \<in> set m \<Longrightarrow> size v < size (JObject m)"
  by (induction m) auto

lemma num_as_f64_zero:
  "num_wf n \<Longrightarrow> num_as_f64 n = Finite 0 \<longleftrightarrow> n = PosInt 0 \<or> n = Float (Finite 0)"
  by (cases n) (auto simp: f64_of_int_zero)

end
