(* ===== verification/Core_Types.thy ===== *)
theory Core_Types
  imports Json
begin

text \<open>
  The types the engine shares, after \<^verbatim>\<open>runtime/core\<close>: execution and node status
  (\<^verbatim>\<open>workflow.rs\<close>, \<^verbatim>\<open>node.rs\<close>), node kinds and the queues they route to, and retry policies
  (\<^verbatim>\<open>retry.rs\<close>).  A \<^verbatim>\<open>Uuid\<close> and an \<^verbatim>\<open>ExecutionId\<close> are strings, a \<^verbatim>\<open>DateTime<Utc>\<close> is the
  number of milliseconds since the epoch, a \<^verbatim>\<open>Duration\<close> a number of nanoseconds.  Shown: the status
  machine never leaves a terminal status, queue names round-trip, and the bounds of the retry delay.
\<close>

type_synonym uuid = string
type_synonym execution_id = string
type_synonym node_id = string
type_synonym timestamp = int
type_synonym str_map = "(string \<times> string) list"

section \<open>Status\<close>

datatype workflow_status =
    WfPending | WfRunning | WfPaused | WfCompleted | WfFailed | WfCancelled | WfLimitExceeded

fun is_terminal :: "workflow_status \<Rightarrow> bool" where
  "is_terminal WfCompleted = True"
| "is_terminal WfFailed = True"
| "is_terminal WfCancelled = True"
| "is_terminal WfLimitExceeded = True"
| "is_terminal _ = False"

fun is_active :: "workflow_status \<Rightarrow> bool" where
  "is_active WfPending = True"
| "is_active WfRunning = True"
| "is_active WfPaused = True"
| "is_active _ = False"

datatype core_error = InvalidTransition workflow_status workflow_status

fun valid_transition :: "workflow_status \<Rightarrow> workflow_status \<Rightarrow> bool" where
  "valid_transition WfPending WfRunning = True"
| "valid_transition WfRunning WfPaused = True"
| "valid_transition WfRunning WfCompleted = True"
| "valid_transition WfRunning WfFailed = True"
| "valid_transition WfRunning WfCancelled = True"
| "valid_transition WfRunning WfLimitExceeded = True"
| "valid_transition WfPaused WfRunning = True"
| "valid_transition WfPaused WfCancelled = True"
| "valid_transition _ _ = False"

definition validate_transition :: "workflow_status \<Rightarrow> workflow_status \<Rightarrow> core_error + unit" where
  "validate_transition cur nxt =
     (if valid_transition cur nxt then Inr () else Inl (InvalidTransition cur nxt))"

datatype node_status =
    NodePending | NodeScheduledS | NodeRunning | NodeCompletedS | NodeFailedS | NodeSkippedS | NodeCancelledS

fun node_is_terminal :: "node_status \<Rightarrow> bool" where
  "node_is_terminal NodeCompletedS = True"
| "node_is_terminal NodeFailedS = True"
| "node_is_terminal NodeSkippedS = True"
| "node_is_terminal NodeCancelledS = True"
| "node_is_terminal _ = False"

datatype session_type = Stateless | Resumable | PersistentGoverned | Ephemeral | ApprovalGated

record workflow_execution =
  we_execution_id :: execution_id
  we_workflow_id :: string
  we_workflow_version :: string
  we_status :: workflow_status
  we_initial_input :: json
  we_current_state :: json
  we_started_at :: timestamp
  we_updated_at :: timestamp
  we_completed_at :: "timestamp option"
  we_session_type :: "session_type option"
  we_parent_execution_id :: "execution_id option"
  we_segment_number :: nat

section \<open>Node kinds and queues\<close>

record conditional_branch =
  cb_condition :: "string option"
  cb_target :: node_id

datatype merge_strategy = Collect | First | CustomMerge string

datatype wait_condition = Timer | ExternalEvent | Either

datatype violation_action = FailOnViolation | BranchOnViolation node_id | WarnOnViolation

datatype finalizer_trigger = OnSuccess | OnFailure | OnAlways

datatype eval_scorer =
    LlmJudge string string nat
  | Assertion "string list"
  | Latency nat
  | Cost f64
  | CustomScorer string json

datatype eval_on_fail = RetryWithFeedback | Escalate | Halt | LogAndContinue

record coordinator_budget =
  cbg_max_cost_usd :: "f64 option"
  cbg_max_latency_ms :: "nat option"

record tiebreaker_config =
  tb_model :: string
  tb_threshold :: f64
  tb_max_candidates :: nat

record dimension_weights =
  dw_capability_fit :: f64
  dw_cost_fit :: f64
  dw_latency_fit :: f64
  dw_trust_compatibility :: f64
  dw_historical_performance :: f64

datatype agent_target = ExplicitAgent string | AutoAgent

datatype agent_tool_mode = SyncMode | StreamingMode | ConversationalMode nat "nat option"

record agent_tool_budget =
  atb_max_cost_usd :: "f64 option"
  atb_max_tokens :: "nat option"

datatype node_kind =
    ModelNode string string string "string option" "json list"
  | ToolNode string str_map string
  | PythonFn string string string bool
  | JavaFn string string string bool
  | ExternalFn string string string
  | ConditionNode "conditional_branch list"
  | ParallelNode "node_id list"
  | JoinNode "node_id list" merge_strategy
  | HumanApproval string "nat option" "node_id option"
  | WaitNode wait_condition "string option" "nat option"
  | Subgraph string "string option" str_map str_map
  | MemoryRetrieval string string string
  | PolicyNode string violation_action
  | Finalizer string finalizer_trigger
  | AgentNode string str_map string
  | McpTool string string str_map string
  | A2aTask string string str_map string bool "node_id option" "nat option"
  | AgentDiscovery string "string option" string
  | Coordinator string "string list" "string list" "string option" "coordinator_budget option"
      "tiebreaker_config option" string dimension_weights str_map string
  | AgentTool agent_target agent_tool_mode str_map string "nat option" "agent_tool_budget option"
  | EvalNode "eval_scorer list" eval_on_fail nat "string option"
  | LimitExceededNode

datatype queue_type =
    QModel | QTool | QPythonTool | QJavaTool | QRetrieval | QPrivileged | QGeneral | QNamed string

fun node_queue_type :: "node_kind \<Rightarrow> queue_type" where
  "node_queue_type (ModelNode _ _ _ _ _) = QModel"
| "node_queue_type (ToolNode _ _ _) = QTool"
| "node_queue_type (Finalizer _ _) = QTool"
| "node_queue_type (PythonFn _ _ _ _) = QPythonTool"
| "node_queue_type (JavaFn _ _ _ _) = QJavaTool"
| "node_queue_type (ExternalFn q _ _) = QNamed q"
| "node_queue_type (MemoryRetrieval _ _ _) = QRetrieval"
| "node_queue_type (McpTool _ _ _ _) = QTool"
| "node_queue_type (A2aTask _ _ _ _ _ _ _) = QTool"
| "node_queue_type _ = QGeneral"

fun is_durable :: "node_kind \<Rightarrow> bool" where
  "is_durable (ConditionNode _) = False"
| "is_durable (AgentDiscovery _ _ _) = False"
| "is_durable _ = True"

fun queue_as_str :: "queue_type \<Rightarrow> string" where
  "queue_as_str QModel = ''model''"
| "queue_as_str QTool = ''tool''"
| "queue_as_str QPythonTool = ''python_tool''"
| "queue_as_str QJavaTool = ''java_tool''"
| "queue_as_str QRetrieval = ''retrieval''"
| "queue_as_str QPrivileged = ''privileged''"
| "queue_as_str QGeneral = ''general''"
| "queue_as_str (QNamed name) = name"

definition queue_from_name :: "string \<Rightarrow> queue_type" where
  "queue_from_name name =
     (if name = ''model'' then QModel
      else if name = ''tool'' then QTool
      else if name = ''python_tool'' then QPythonTool
      else if name = ''java_tool'' then QJavaTool
      else if name = ''retrieval'' then QRetrieval
      else if name = ''privileged'' then QPrivileged
      else if name = ''general'' then QGeneral
      else QNamed name)"

section \<open>Retry policies\<close>

datatype backoff_strategy = Fixed | Linear | Exponential

datatype error_class =
    IoError | TimeoutError | RateLimit | ServerError | ConnectionReset | CustomError string

text \<open>Durations in nanoseconds; \<^verbatim>\<open>Duration::MAX\<close> bounds them.\<close>

definition duration_max :: nat where
  "duration_max = (2 ^ 64 - 1) * 10 ^ 9 + 999999999"

definition from_secs :: "nat \<Rightarrow> nat" where
  "from_secs s = s * 10 ^ 9"

record retry_policy =
  rp_max_attempts :: nat
  rp_backoff :: backoff_strategy
  rp_initial_delay :: nat
  rp_max_delay :: nat
  rp_jitter :: bool
  rp_retryable_on :: "error_class list"

definition io_default :: retry_policy where
  "io_default = \<lparr>rp_max_attempts = 3, rp_backoff = Exponential, rp_initial_delay = from_secs 1,
     rp_max_delay = from_secs 30, rp_jitter = True, rp_retryable_on = [IoError, TimeoutError, ConnectionReset]\<rparr>"

definition llm_default :: retry_policy where
  "llm_default = \<lparr>rp_max_attempts = 3, rp_backoff = Exponential, rp_initial_delay = from_secs 2,
     rp_max_delay = from_secs 60, rp_jitter = True, rp_retryable_on = [RateLimit, TimeoutError, ServerError]\<rparr>"

definition no_retry :: retry_policy where
  "no_retry = \<lparr>rp_max_attempts = 1, rp_backoff = Fixed, rp_initial_delay = 0,
     rp_max_delay = 0, rp_jitter = False, rp_retryable_on = []\<rparr>"

definition saturating_pow2 :: "nat \<Rightarrow> nat" where
  "saturating_pow2 n = min (2 ^ n) u64_max"

definition duration_saturating_mul :: "nat \<Rightarrow> nat \<Rightarrow> nat" where
  "duration_saturating_mul d n = min (d * n) duration_max"

text \<open>\<open>None\<close> is the panic of \<^verbatim>\<open>Duration * u32\<close> on overflow.\<close>

definition delay_for_attempt :: "retry_policy \<Rightarrow> nat \<Rightarrow> nat option" where
  "delay_for_attempt p attempt =
     (if attempt = 0 then Some 0
      else map_option (\<lambda>base. min base (rp_max_delay p))
        (case rp_backoff p of
           Fixed \<Rightarrow> Some (rp_initial_delay p)
         | Linear \<Rightarrow> (if rp_initial_delay p * attempt \<le> duration_max
                     then Some (rp_initial_delay p * attempt) else None)
         | Exponential \<Rightarrow>
             (let factor = saturating_pow2 (attempt - 1)
              in Some (duration_saturating_mul (rp_initial_delay p) (wrap_u32 factor)))))"

section \<open>Properties\<close>

inductive status_steps :: "workflow_status \<Rightarrow> workflow_status \<Rightarrow> bool" where
  status_refl: "status_steps s s"
| status_step: "status_steps s t \<Longrightarrow> validate_transition t u = Inr () \<Longrightarrow> status_steps s u"

lemma validate_transition_ok [simp]: "validate_transition s t = Inr () \<longleftrightarrow> valid_transition s t"
  by (simp add: validate_transition_def)

lemma valid_transition_from_terminal: "is_terminal s \<Longrightarrow> \<not> valid_transition s t"
  by (cases s; cases t) auto

lemma terminal_not_active: "is_terminal s \<longleftrightarrow> \<not> is_active s"
  by (cases s) auto

text \<open>the status machine.  A transition is accepted only out of a non-terminal status, so no
  sequence of accepted transitions leaves a terminal one; and from every status that is not terminal
  a terminal one can be reached.\<close>

theorem terminal_status_is_final:
  "(is_terminal s \<longrightarrow> status_steps s t \<longrightarrow> t = s) \<and>
   (\<not> is_terminal s \<longrightarrow> (\<exists>t. status_steps s t \<and> is_terminal t))"
proof (intro conjI impI)
  assume t: "is_terminal s" and "status_steps s t"
  from this(2,1) show "t = s"
    by (induction rule: status_steps.induct) (auto simp: valid_transition_from_terminal)
next
  assume "\<not> is_terminal s"
  moreover have run: "status_steps WfPending WfRunning" "status_steps WfPaused WfCancelled"
    by (auto intro: status_steps.intros status_step [OF status_refl])
  moreover have "status_steps WfRunning WfCompleted" "status_steps WfPending WfCompleted"
    using status_step [OF status_refl, of WfRunning WfCompleted] status_step [OF run(1), of WfCompleted] by auto
  ultimately show "\<exists>t. status_steps s t \<and> is_terminal t"
    by (cases s) (auto intro: exI [of _ WfCompleted] exI [of _ WfCancelled])
qed

theorem terminal_status_is_final_witness:
  "\<not> status_steps WfCancelled WfRunning"
  using terminal_status_is_final [of WfCancelled WfRunning] by auto

text \<open>queue names.  Reading back the name of a queue gives the queue, for every queue but a
  \<open>QNamed\<close> that carries a built-in name; and every name is the name of the queue it reads as.\<close>

theorem queue_name_roundtrip:
  "queue_as_str (queue_from_name name) = name \<and>
   (queue_from_name (queue_as_str q) = q \<longleftrightarrow>
      (\<forall>n. q = QNamed n \<longrightarrow>
         n \<notin> {''model'', ''tool'', ''python_tool'', ''java_tool'', ''retrieval'', ''privileged'', ''general''}))"
  by (cases q) (auto simp: queue_from_name_def)

theorem queue_name_roundtrip_witness:
  "queue_from_name (queue_as_str (QNamed ''pas-control'')) = QNamed ''pas-control''"
  using queue_name_roundtrip [of "''x''" "QNamed ''pas-control''"] by simp

text \<open>the retry delay never exceeds the policy's cap, and for exponential backoff the delays of
  attempts 1 to 32 are the doubling sequence cut at the cap.\<close>

theorem delay_bounded_and_doubling:
  "(delay_for_attempt p n = Some d \<longrightarrow> d \<le> rp_max_delay p) \<and>
   (rp_backoff p = Exponential \<and> 1 \<le> n \<and> n \<le> 32 \<and> rp_max_delay p \<le> duration_max \<longrightarrow>
      delay_for_attempt p n = Some (min (rp_initial_delay p * 2 ^ (n - 1)) (rp_max_delay p)))"
proof (intro conjI impI)
  assume "delay_for_attempt p n = Some d"
  then show "d \<le> rp_max_delay p" by (auto simp: delay_for_attempt_def split: if_splits)
next
  assume a: "rp_backoff p = Exponential \<and> 1 \<le> n \<and> n \<le> 32 \<and> rp_max_delay p \<le> duration_max"
  then have lt: "(2::nat) ^ (n - 1) < 2 ^ 32" by (intro power_strict_increasing) auto
  then have "saturating_pow2 (n - 1) = 2 ^ (n - 1)" by (simp add: saturating_pow2_def u64_max_def)
  moreover have "wrap_u32 (2 ^ (n - 1)) = 2 ^ (n - 1)" using lt by (rule wrap_u32_id)
  ultimately show "delay_for_attempt p n = Some (min (rp_initial_delay p * 2 ^ (n - 1)) (rp_max_delay p))"
    using a by (auto simp: delay_for_attempt_def duration_saturating_mul_def)
qed

theorem delay_bounded_and_doubling_witness:
  "delay_for_attempt io_default 3 = Some (from_secs 4)"
  using delay_bounded_and_doubling [of io_default 3 0]
  by (simp add: io_default_def duration_max_def from_secs_def)

text \<open>from attempt 33 to attempt 64 the factor \<open>2 ^ (n - 1)\<close> is a multiple of \<open>2 ^ 32\<close>, so its
  conversion to 32 bits is zero and the exponential policy retries with no delay at all.\<close>

theorem exponential_delay_collapses:
  assumes "rp_backoff p = Exponential" and "33 \<le> n" and "n \<le> 64"
  shows "delay_for_attempt p n = Some 0"
proof -
  have "(2::nat) ^ (n - 1) \<le> 2 ^ 63" using assms(3) by (intro power_increasing) auto
  then have "saturating_pow2 (n - 1) = 2 ^ (n - 1)" by (simp add: saturating_pow2_def u64_max_def)
  moreover have "n - 1 = 32 + (n - 33)" using assms(2) by simp
  then have "(2::nat) ^ (n - 1) = 2 ^ 32 * 2 ^ (n - 33)" by (metis power_add)
  then have "wrap_u32 (2 ^ (n - 1)) = 0" by (simp add: wrap_u32_def)
  ultimately show ?thesis
    using assms by (simp add: delay_for_attempt_def duration_saturating_mul_def)
qed

theorem exponential_delay_collapses_witness:
  "delay_for_attempt llm_default 33 = Some 0 \<and> delay_for_attempt llm_default 32 = Some (from_secs 60)"
  using exponential_delay_collapses [of llm_default 33]
  by (simp add: llm_default_def) (simp add: delay_for_attempt_def saturating_pow2_def u64_max_def
      wrap_u32_def duration_saturating_mul_def duration_max_def from_secs_def)

end
