(* ===== verification/Condition.thy ===== *)
theory Condition
  imports Json
begin

text \<open>
  The evaluator of \<^verbatim>\<open>Condition\<close> branch expressions and its registration-time check, after
  \<^verbatim>\<open>runtime/core/src/condition.rs\<close>.  The parser of JSON literals, \<^verbatim>\<open>serde_json::from_str\<close>, is the
  parameter \<open>from_str\<close>.  Shown: what an expression written from a path and a literal evaluates to,
  that the check accepts every such expression, and how far an expression the check refuses
  evaluates to false.
\<close>

section \<open>Paths\<close>

text \<open>The loop of \<^verbatim>\<open>resolve_path\<close> over the segments that remain.\<close>

fun resolve_segments :: "json \<Rightarrow> string list \<Rightarrow> json option" where
  "resolve_segments cur [] = Some cur"
| "resolve_segments cur (seg # segs) =
     (if seg = [] then None
      else (case cur of
              JObject m \<Rightarrow> (case bt_get m seg of None \<Rightarrow> None | Some v \<Rightarrow> resolve_segments v segs)
            | JArray xs \<Rightarrow> (case parse_unsigned u64_max seg of
                None \<Rightarrow> None
              | Some i \<Rightarrow> if i < length xs then resolve_segments (xs ! i) segs else None)
            | _ \<Rightarrow> None))"

definition resolve_path :: "json \<Rightarrow> string \<Rightarrow> json option" where
  "resolve_path doc p = resolve_segments doc (split_on CHR ''.'' p)"

fun is_truthy :: "json option \<Rightarrow> bool" where
  "is_truthy None = False"
| "is_truthy (Some JNull) = False"
| "is_truthy (Some (JBool b)) = b"
| "is_truthy (Some (JNumber n)) = (\<not> f64_eq (num_as_f64 n) (Finite 0))"
| "is_truthy (Some (JString s)) = (s \<noteq> [])"
| "is_truthy (Some (JArray a)) = (a \<noteq> [])"
| "is_truthy (Some (JObject m)) = (m \<noteq> [])"

fun values_equal :: "json option \<Rightarrow> json \<Rightarrow> bool" where
  "values_equal None rhs = (rhs = JNull)"
| "values_equal (Some v) rhs = (v = rhs)"

section \<open>Expressions\<close>

fun find_first_op :: "string \<Rightarrow> (nat \<times> string) option" where
  "find_first_op (a # b # s) =
     (if a = CHR ''!'' \<and> b = CHR ''='' then Some (0, ''!='')
      else if a = CHR ''='' \<and> b = CHR ''='' then Some (0, ''=='')
      else map_option (\<lambda>(i, op). (Suc i, op)) (find_first_op (b # s)))"
| "find_first_op _ = None"

definition eval_comparison :: "(string \<Rightarrow> json option) \<Rightarrow> string \<Rightarrow> json \<Rightarrow> nat \<Rightarrow> string \<Rightarrow> bool" where
  "eval_comparison from_str expr st op_pos op =
     (let lhs = trim (take op_pos expr); rhs = trim (drop (op_pos + 2) expr)
      in (case strip_prefix ''state.'' lhs of
            None \<Rightarrow> False
          | Some p \<Rightarrow>
              if p = [] then False
              else (case from_str rhs of
                      None \<Rightarrow> False
                    | Some rhs_val \<Rightarrow>
                        let equal = values_equal (resolve_path st p) rhs_val
                        in if op = ''=='' then equal else if op = ''!='' then \<not> equal else False)))"

definition eval_truthiness :: "string \<Rightarrow> json \<Rightarrow> bool" where
  "eval_truthiness expr st =
     (case strip_prefix ''state.'' expr of
        None \<Rightarrow> False
      | Some p \<Rightarrow> if p = [] then False else is_truthy (resolve_path st p))"

definition eval_condition :: "(string \<Rightarrow> json option) \<Rightarrow> string \<Rightarrow> json \<Rightarrow> bool" where
  "eval_condition from_str expr0 st =
     (let expr = trim expr0
      in if expr = [] then False
         else (case find_first_op expr of
                 Some (op_pos, op) \<Rightarrow> eval_comparison from_str expr st op_pos op
               | None \<Rightarrow> eval_truthiness expr st))"

definition not_a_state_path :: "string \<Rightarrow> string" where
  "not_a_state_path lhs = ''left-hand side `'' @ lhs @ ''` must be a `state.<path>` reference''"

definition not_a_literal :: "string \<Rightarrow> string" where
  "not_a_literal rhs = ''right-hand side `'' @ rhs @ ''` is not a literal (use a double-quoted string, a number, true, false or null)''"

definition require_state_path :: "string \<Rightarrow> string + unit" where
  "require_state_path lhs =
     (case strip_prefix ''state.'' lhs of
        Some p \<Rightarrow> if p \<noteq> [] \<and> list_all (\<lambda>seg. seg \<noteq> []) (split_on CHR ''.'' p) then Inr ()
                 else Inl (not_a_state_path lhs)
      | None \<Rightarrow> Inl (not_a_state_path lhs))"

definition validate_expression :: "(string \<Rightarrow> json option) \<Rightarrow> string \<Rightarrow> string + unit" where
  "validate_expression from_str expr0 =
     (let expr = trim expr0
      in if expr = [] then Inl ''expression is empty''
         else (case find_first_op expr of
                 Some (op_pos, _) \<Rightarrow>
                   (let lhs = trim (take op_pos expr); rhs = trim (drop (op_pos + 2) expr)
                    in and_then (require_state_path lhs) (\<lambda>_.
                         if from_str rhs = None
                         then Inl (not_a_literal rhs)
                         else Inr ()))
               | None \<Rightarrow> require_state_path expr))"

section \<open>Splitting an expression at its operator\<close>

lemma find_first_op_Some:
  "find_first_op s = Some (i, op) \<Longrightarrow> (op = ''=='' \<or> op = ''!='') \<and> i + 2 \<le> length s \<and> take 2 (drop i s) = op"
proof (induction s arbitrary: i rule: find_first_op.induct)
  case (1 a b s)
  then show ?case by (auto split: if_splits)
qed auto

lemma find_first_op_None_Cons:
  "c \<noteq> CHR ''='' \<Longrightarrow> c \<noteq> CHR ''!'' \<Longrightarrow>
   find_first_op (c # s) = map_option (\<lambda>(i, op). (Suc i, op)) (find_first_op s)"
  by (cases s) auto

definition no_op_chars :: "string \<Rightarrow> bool" where
  "no_op_chars s = list_all (\<lambda>c. c \<noteq> CHR ''='' \<and> c \<noteq> CHR ''!'') s"

lemma find_first_op_append:
  "no_op_chars s \<Longrightarrow>
   find_first_op (s @ t) = map_option (\<lambda>(i, op). (length s + i, op)) (find_first_op t)"
proof (induction s)
  case Nil
  then show ?case by (cases "find_first_op t") auto
next
  case (Cons c s)
  then have "find_first_op (c # (s @ t)) = map_option (\<lambda>(i, op). (Suc i, op)) (find_first_op (s @ t))"
    by (intro find_first_op_None_Cons) (simp_all add: no_op_chars_def)
  then show ?case using Cons by (cases "find_first_op t") (auto simp: no_op_chars_def)
qed

lemma find_first_op_none: "no_op_chars s \<Longrightarrow> find_first_op s = None"
  using find_first_op_append [of s "[]"] by simp

section \<open>Expressions written from a path and a literal\<close>

fun join_dots :: "string list \<Rightarrow> string" where
  "join_dots [] = []"
| "join_dots [w] = w"
| "join_dots (w # ws) = w @ CHR ''.'' # join_dots ws"

definition path_char :: "char \<Rightarrow> bool" where
  "path_char c = (c \<noteq> CHR ''.'' \<and> c \<noteq> CHR ''='' \<and> c \<noteq> CHR ''!'' \<and> \<not> is_whitespace c)"

definition path_wf :: "string list \<Rightarrow> bool" where
  "path_wf segs = (segs \<noteq> [] \<and> list_all (\<lambda>w. w \<noteq> [] \<and> list_all path_char w) segs)"

definition state_path :: "string list \<Rightarrow> string" where
  "state_path segs = ''state.'' @ join_dots segs"

definition compare_expr :: "string list \<Rightarrow> string \<Rightarrow> string \<Rightarrow> string" where
  "compare_expr segs op lit = state_path segs @ '' '' @ op @ '' '' @ lit"

lemma split_on_append_sep: "c \<notin> set w \<Longrightarrow> split_on c (w @ c # s) = w # split_on c s"
  by (induction w) auto

lemma split_on_join_dots:
  "segs \<noteq> [] \<Longrightarrow> (\<forall>w \<in> set segs. CHR ''.'' \<notin> set w) \<Longrightarrow> split_on CHR ''.'' (join_dots segs) = segs"
  by (induction segs rule: join_dots.induct) (auto simp: split_on_id split_on_append_sep)

lemma join_dots_chars:
  "list_all P (join_dots segs) \<longleftrightarrow> list_all (list_all P) segs \<and> (2 \<le> length segs \<longrightarrow> P CHR ''.'')"
  by (induction segs rule: join_dots.induct) auto

lemma join_dots_Nil: "path_wf segs \<Longrightarrow> join_dots segs \<noteq> []"
  by (cases segs rule: join_dots.cases) (auto simp: path_wf_def)

lemma path_wf_split: "path_wf segs \<Longrightarrow> split_on CHR ''.'' (join_dots segs) = segs"
  by (intro split_on_join_dots) (auto simp: path_wf_def list_all_iff path_char_def)

lemma path_wf_chars:
  assumes "path_wf segs" "\<And>c. path_char c \<Longrightarrow> P c" "P CHR ''.''"
  shows "list_all P (join_dots segs)"
  unfolding join_dots_chars using assms by (auto simp: path_wf_def list_all_iff)

lemma path_wf_no_op: "path_wf segs \<Longrightarrow> no_op_chars (state_path segs)"
  using path_wf_chars [of segs "\<lambda>c. c \<noteq> CHR ''='' \<and> c \<noteq> CHR ''!''"]
  by (simp add: no_op_chars_def state_path_def path_char_def)

lemma path_wf_no_ws: "path_wf segs \<Longrightarrow> list_all (\<lambda>c. \<not> is_whitespace c) (state_path segs)"
  using path_wf_chars [of segs "\<lambda>c. \<not> is_whitespace c"]
  by (simp add: state_path_def path_char_def is_whitespace_def)

lemma trim_no_ws: "list_all (\<lambda>c. \<not> is_whitespace c) s \<Longrightarrow> trim s = s"
  by (rule trim_id) (auto simp: list_all_iff)

lemma state_path_hd [simp]: "state_path segs \<noteq> []" "hd (state_path segs) = CHR ''s''"
  by (simp_all add: state_path_def)

lemma not_ws_s [simp]: "\<not> is_whitespace CHR ''s''" "is_whitespace CHR '' ''"
  by (simp_all add: is_whitespace_def)

lemma trim_snoc_space: "trim (s @ '' '') = trim s"
  by (auto simp: trim_def dropWhile_append dropWhile_eq_Nil_conv [THEN iffD2])

lemma strip_state_path: "strip_prefix ''state.'' (state_path segs) = Some (join_dots segs)"
  unfolding state_path_def by (rule strip_prefix_append)

lemma require_state_path_ok: "path_wf segs \<Longrightarrow> require_state_path (state_path segs) = Inr ()"
  by (simp add: require_state_path_def strip_state_path path_wf_split join_dots_Nil)
     (auto simp: path_wf_def list_all_iff)

lemma compare_expr_split:
  assumes "path_wf segs" "op = ''=='' \<or> op = ''!=''" "lit \<noteq> []" "\<not> is_whitespace (hd lit)" "\<not> is_whitespace (last lit)"
  shows "trim (compare_expr segs op lit) = compare_expr segs op lit"
    and "find_first_op (compare_expr segs op lit) = Some (Suc (length (state_path segs)), op)"
    and "trim (take (Suc (length (state_path segs))) (compare_expr segs op lit)) = state_path segs"
    and "trim (drop (Suc (length (state_path segs)) + 2) (compare_expr segs op lit)) = lit"
proof -
  show "trim (compare_expr segs op lit) = compare_expr segs op lit"
    using assms by (intro trim_id) (auto simp: compare_expr_def)
  have "find_first_op ('' '' @ op @ '' '' @ lit) = Some (1, op)" using assms(2) by auto
  then show "find_first_op (compare_expr segs op lit) = Some (Suc (length (state_path segs)), op)"
    unfolding compare_expr_def using path_wf_no_op [OF assms(1)] by (simp add: find_first_op_append)
  have "take (Suc (length (state_path segs))) (compare_expr segs op lit) = state_path segs @ '' ''"
    by (simp add: compare_expr_def)
  then show "trim (take (Suc (length (state_path segs))) (compare_expr segs op lit)) = state_path segs"
    using trim_no_ws [OF path_wf_no_ws [OF assms(1)]] by (simp only: trim_snoc_space)
  have "drop (Suc (length (state_path segs)) + 2) (compare_expr segs op lit) = CHR '' '' # lit"
    using assms(2) by (auto simp: compare_expr_def)
  then show "trim (drop (Suc (length (state_path segs)) + 2) (compare_expr segs op lit)) = lit"
    using assms(3-5) trim_id [of lit] by (simp add: trim_def)
qed

lemma eval_compare_expr:
  assumes "path_wf segs" "op = ''=='' \<or> op = ''!=''" "lit \<noteq> []" "\<not> is_whitespace (hd lit)" "\<not> is_whitespace (last lit)"
    and "from_str lit = Some v"
  shows "validate_expression from_str (compare_expr segs op lit) = Inr ()"
    and "eval_condition from_str (compare_expr segs op lit) st =
         (values_equal (resolve_segments st segs) v = (op = ''==''))"
proof -
  note sp = compare_expr_split [OF assms(1-5)]
  have ne: "compare_expr segs op lit \<noteq> []" by (simp add: compare_expr_def)
  show "validate_expression from_str (compare_expr segs op lit) = Inr ()"
    using ne assms(6) by (simp add: validate_expression_def Let_def sp(1,2,3) sp(4) [simplified] require_state_path_ok [OF assms(1)])
  have "eval_condition from_str (compare_expr segs op lit) st =
        eval_comparison from_str (compare_expr segs op lit) st (Suc (length (state_path segs))) op"
    using ne by (simp add: eval_condition_def Let_def sp(1,2))
  then show "eval_condition from_str (compare_expr segs op lit) st =
         (values_equal (resolve_segments st segs) v = (op = ''==''))"
    using assms(2,6) join_dots_Nil [OF assms(1)]
    by (auto simp: eval_comparison_def Let_def sp(3) sp(4) [simplified] strip_state_path resolve_path_def path_wf_split [OF assms(1)])
qed

section \<open>Properties\<close>

text \<open>an expression built from a path of plain segments and a JSON literal passes the
  registration check; \<^verbatim>\<open>==\<close> holds exactly when the value at the path equals the literal, a missing path
  counting as null; \<^verbatim>\<open>!=\<close> is its negation.\<close>

theorem comparison_meaning:
  assumes "path_wf segs" and "from_str lit = Some v"
    and "lit \<noteq> []" and "\<not> is_whitespace (hd lit)" and "\<not> is_whitespace (last lit)"
  shows "validate_expression from_str (compare_expr segs ''=='' lit) = Inr () \<and>
         validate_expression from_str (compare_expr segs ''!='' lit) = Inr () \<and>
         eval_condition from_str (compare_expr segs ''=='' lit) st =
           ((case resolve_segments st segs of None \<Rightarrow> JNull | Some w \<Rightarrow> w) = v) \<and>
         eval_condition from_str (compare_expr segs ''!='' lit) st =
           ((case resolve_segments st segs of None \<Rightarrow> JNull | Some w \<Rightarrow> w) \<noteq> v)"
proof -
  have ve: "values_equal r v = ((case r of None \<Rightarrow> JNull | Some w \<Rightarrow> w) = v)" for r
    by (cases r) auto
  note e = eval_compare_expr [OF assms(1) _ assms(3-5), of _ from_str, OF _ assms(2)]
  show ?thesis using e(1) [of "''==''"] e(1) [of "''!=''"] e(2) [of "''==''"] e(2) [of "''!=''"] by (simp add: ve)
qed

definition null_parser :: "string \<Rightarrow> json option" where
  "null_parser s = (if s = ''null'' then Some JNull else if s = ''true'' then Some (JBool True) else None)"

theorem comparison_meaning_witness:
  "eval_condition null_parser (compare_expr [''flags'', ''0''] ''=='' ''true'')
     (JObject [(''flags'', JArray [JBool True])])"
proof -
  have wf: "path_wf [''flags'', ''0'']" by (simp add: path_wf_def path_char_def is_whitespace_def)
  show ?thesis
    using comparison_meaning [OF wf, of null_parser "''true''" "JBool True" "JObject [(''flags'', JArray [JBool True])]"]
    by (simp add: null_parser_def is_whitespace_def parse_unsigned_def is_ascii_digit_def)
qed

text \<open>the truthiness form.  A bare path is accepted and holds unless the path is missing or the
  value there is null, false, zero, or an empty string, array or object.\<close>

theorem truthiness_meaning:
  assumes "path_wf segs" and "json_wf st"
  shows "validate_expression from_str (state_path segs) = Inr () \<and>
    eval_condition from_str (state_path segs) st =
      (\<exists>v. resolve_segments st segs = Some v \<and>
           v \<notin> {JNull, JBool False, JNumber (PosInt 0), JNumber (Float (Finite 0)), JString [], JArray [], JObject []})"
proof -
  have tr: "trim (state_path segs) = state_path segs" using path_wf_no_ws [OF assms(1)] by (rule trim_no_ws)
  have op: "find_first_op (state_path segs) = None" using path_wf_no_op [OF assms(1)] by (rule find_first_op_none)
  have wf: "resolve_segments u ws = Some v \<Longrightarrow> json_wf u \<Longrightarrow> json_wf v" for u ws v
    by (induction u ws rule: resolve_segments.induct)
       (auto split: json.splits option.splits if_splits dest: json_wf_bt_get simp: json_wf_bt_get nth_mem)
  have truthy: "json_wf v \<Longrightarrow> is_truthy (Some v) =
      (v \<notin> {JNull, JBool False, JNumber (PosInt 0), JNumber (Float (Finite 0)), JString [], JArray [], JObject []})" for v
  proof (cases v)
    case (JNumber n)
    moreover assume "json_wf v"
    ultimately have "num_wf n" by simp
    moreover have "f64_eq (num_as_f64 n) (Finite 0) = (num_as_f64 n = Finite 0)"
      by (cases "num_as_f64 n") auto
    ultimately show ?thesis using JNumber num_as_f64_zero [of n] by simp
  qed auto
  have "eval_condition from_str (state_path segs) st = is_truthy (resolve_segments st segs)"
    using join_dots_Nil [OF assms(1)]
    by (simp add: eval_condition_def Let_def tr op eval_truthiness_def strip_state_path resolve_path_def
        path_wf_split [OF assms(1)])
  also have "\<dots> = (\<exists>v. resolve_segments st segs = Some v \<and> is_truthy (Some v))"
    by (cases "resolve_segments st segs") auto
  finally show ?thesis using wf [OF _ assms(2)] truthy tr op
    by (auto simp: validate_expression_def Let_def require_state_path_ok [OF assms(1)])
qed

theorem truthiness_meaning_witness:
  "\<not> eval_condition null_parser (state_path [''count'']) (JObject [(''count'', JNumber (PosInt 0))])"
proof -
  have wf: "path_wf [''count'']" by (simp add: path_wf_def path_char_def is_whitespace_def)
  show ?thesis
    using truthiness_meaning [OF wf, of "JObject [(''count'', JNumber (PosInt 0))]" null_parser] by simp
qed

text \<open>fail closed.  An expression the registration check refuses evaluates to false, unless it is
  a comparison whose left side is a \<^verbatim>\<open>state.\<close> path with an empty segment; such a path resolves to
  nothing, which the comparison reads as null.\<close>

theorem refused_evaluates_false:
  assumes "validate_expression from_str expr = Inl reason" and "eval_condition from_str expr st"
  shows "\<exists>i op p. find_first_op (trim expr) = Some (i, op) \<and>
           strip_prefix ''state.'' (trim (take i (trim expr))) = Some p \<and>
           [] \<in> set (split_on CHR ''.'' p) \<and> resolve_path st p = None"
proof -
  have empty_seg: "[] \<in> set ws \<Longrightarrow> resolve_segments u ws = None" for u ws
    by (induction u ws rule: resolve_segments.induct) (auto split: json.splits option.splits)
  have lhs: "require_state_path l = Inl r \<Longrightarrow> strip_prefix ''state.'' l = Some p \<Longrightarrow> p \<noteq> [] \<Longrightarrow>
      [] \<in> set (split_on CHR ''.'' p)" for l r p
    by (auto simp: require_state_path_def list_all_iff split: if_splits)
  have ne: "trim expr \<noteq> []" using assms(2) by (auto simp: eval_condition_def)
  show ?thesis
  proof (cases "find_first_op (trim expr)")
    case None
    then have "require_state_path (trim expr) = Inl reason" and "eval_truthiness (trim expr) st"
      using assms ne by (simp_all add: validate_expression_def eval_condition_def Let_def)
    then show ?thesis using lhs empty_seg
      by (auto simp: eval_truthiness_def resolve_path_def split: option.splits if_splits)
  next
    case (Some r)
    obtain i op where r: "r = (i, op)" by (cases r)
    have "eval_comparison from_str (trim expr) st i op"
      using assms(2) ne Some r by (simp add: eval_condition_def Let_def)
    then obtain p where p: "strip_prefix ''state.'' (trim (take i (trim expr))) = Some p" "p \<noteq> []"
      and lit: "from_str (trim (drop (i + 2) (trim expr))) \<noteq> None"
      by (auto simp: eval_comparison_def Let_def split: option.splits if_splits)
    have "require_state_path (trim (take i (trim expr))) = Inl reason"
      using assms(1) ne Some r lit
      by (auto simp: validate_expression_def Let_def and_then_def split: sum.splits if_splits)
    then have "[] \<in> set (split_on CHR ''.'' p)" using lhs p by blast
    then show ?thesis using Some r p empty_seg by (auto simp: resolve_path_def)
  qed
qed

theorem refused_evaluates_false_witness:
  "[] \<in> set (split_on CHR ''.'' ''a..b'') \<and>
   (\<exists>i op p. find_first_op (trim ''state.a..b == null'') = Some (i, op) \<and>
      strip_prefix ''state.'' (trim (take i (trim ''state.a..b == null''))) = Some p \<and>
      [] \<in> set (split_on CHR ''.'' p) \<and> resolve_path (JObject []) p = None)"
proof -
  have refused: "validate_expression null_parser ''state.a..b == null'' = Inl (not_a_state_path ''state.a..b'')"
    by code_simp
  have holds: "eval_condition null_parser ''state.a..b == null'' (JObject [])"
    by code_simp
  show ?thesis using refused_evaluates_false [OF refused holds] by simp
qed

end
