(* ===== verification/Ir.thy ===== *)
theory Ir
  imports Core_Types Condition
begin

text \<open>
  The workflow intermediate representation (\<^verbatim>\<open>runtime/ir/src/workflow.rs\<close>), the approval deadlines
  a policy chain resolves to, and the validator every compiled workflow goes through
  (\<^verbatim>\<open>runtime/ir/src/validate.rs\<close>).  A \<^verbatim>\<open>HashMap\<close> of the IR is the list of its entries in the order
  an iteration visits them, with distinct keys; which order that is is not fixed, and no theorem
  depends on it.  Shown: the deadline of a chain is the shortest any level sets and never longer than
  the tenant's; a validated workflow has every node reachable from its start node, no dangling edge or
  branch, and only evaluable branch expressions; the reachability walk decides graph reachability.
\<close>

section \<open>Policies and deadlines\<close>

record policy_set =
  ps_blocked_tools :: "string list"
  ps_require_approval_for :: "string list"
  ps_model_allowlist :: "string list"
  ps_approval_timeout_secs :: "nat option"
  ps_escalate_after_secs :: "nat option"

definition policy_set_default :: policy_set where
  "policy_set_default = \<lparr>ps_blocked_tools = [], ps_require_approval_for = [], ps_model_allowlist = [],
     ps_approval_timeout_secs = None, ps_escalate_after_secs = None\<rparr>"

definition max_approval_timeout_secs :: nat where
  "max_approval_timeout_secs = 365 * 24 * 60 * 60"

record approval_deadline =
  ad_timeout_secs :: nat
  ad_escalate_after_secs :: "nat option"

datatype deadline_error = EscalationWithoutTimeout | TimeoutOutOfRange nat | EscalationOutOfRange nat nat

definition validate_approval_deadline :: "policy_set \<Rightarrow> deadline_error + unit" where
  "validate_approval_deadline p =
     (case (ps_approval_timeout_secs p, ps_escalate_after_secs p) of
        (None, None) \<Rightarrow> Inr ()
      | (None, Some _) \<Rightarrow> Inl EscalationWithoutTimeout
      | (Some t, esc) \<Rightarrow>
          if \<not> (1 \<le> t \<and> t \<le> max_approval_timeout_secs) then Inl (TimeoutOutOfRange t)
          else (case esc of
                  Some e \<Rightarrow> if \<not> (1 \<le> e \<and> e < t) then Inl (EscalationOutOfRange t e) else Inr ()
                | None \<Rightarrow> Inr ()))"

record deadline_resolution =
  dr_deadline :: "approval_deadline option"
  dr_dropped_escalation_secs :: "nat option"

text \<open>\<^verbatim>\<open>iter().filter_map(f).min()\<close>.\<close>

fun min_opt :: "nat list \<Rightarrow> nat option" where
  "min_opt [] = None"
| "min_opt (x # xs) = (case min_opt xs of None \<Rightarrow> Some x | Some y \<Rightarrow> Some (min x y))"

definition filter_map :: "('a \<Rightarrow> 'b option) \<Rightarrow> 'a list \<Rightarrow> 'b list" where
  "filter_map f xs = map the (filter (\<lambda>y. y \<noteq> None) (map f xs))"

definition resolve_deadline :: "policy_set list \<Rightarrow> deadline_error + deadline_resolution" where
  "resolve_deadline sets =
     and_then (check_all validate_approval_deadline sets) (\<lambda>_.
       (case min_opt (filter_map ps_approval_timeout_secs sets) of
          None \<Rightarrow> Inr \<lparr>dr_deadline = None, dr_dropped_escalation_secs = None\<rparr>
        | Some timeout \<Rightarrow>
            (let (esc, dropped) =
               (case min_opt (filter_map ps_escalate_after_secs sets) of
                  Some e \<Rightarrow> if e < timeout then (Some e, None) else (None, Some e)
                | None \<Rightarrow> (None, None))
             in Inr \<lparr>dr_deadline = Some \<lparr>ad_timeout_secs = timeout, ad_escalate_after_secs = esc\<rparr>,
                     dr_dropped_escalation_secs = dropped\<rparr>)))"

section \<open>The workflow\<close>

record token_budget_ir =
  tbi_input_tokens :: "nat option"
  tbi_output_tokens :: "nat option"
  tbi_total_tokens :: "nat option"

record data_policy_ir =
  dp_pii_fields :: "string list"
  dp_pii_detectors :: "string list"
  dp_redaction_mode :: string
  dp_retain_prompts :: bool
  dp_retain_outputs :: bool
  dp_retention_days :: "nat option"

record node_def =
  nd_id :: string
  nd_kind :: node_kind
  nd_retry_policy :: "string option"
  nd_node_timeout_secs :: "nat option"
  nd_description :: "string option"
  nd_labels :: str_map
  nd_policy :: "policy_set option"
  nd_data_policy :: "data_policy_ir option"
  nd_agent_ref :: "string option"

record edge_def =
  ed_from :: string
  ed_to :: string
  ed_condition :: "string option"

record model_config =
  mc_provider :: string
  mc_model :: string
  mc_timeout_secs :: "nat option"
  mc_retry_policy :: "string option"
  mc_temperature :: "f64 option"
  mc_max_tokens :: "nat option"

text \<open>The named tool and MCP server configurations are represented by their names and the remote agents by name
  and URL: the engine reads nothing else of them here.\<close>

record workflow_ir =
  ir_workflow_id :: string
  ir_version :: string
  ir_start_node :: string
  ir_nodes :: "(string \<times> node_def) list"
  ir_edges :: "edge_def list"
  ir_models :: "(string \<times> model_config) list"
  ir_tools :: "string list"
  ir_mcp_servers :: "string list"
  ir_remote_agents :: "(string \<times> string) list"
  ir_policy :: "policy_set option"
  ir_token_budget :: "token_budget_ir option"
  ir_cost_budget_usd :: "f64 option"
  ir_on_budget_exceeded :: "string option"
  ir_continue_as_new :: bool
  ir_data_policy :: "data_policy_ir option"
  ir_agent_ref :: "string option"

definition ir_node :: "workflow_ir \<Rightarrow> string \<Rightarrow> node_def option" where
  "ir_node ir i = map_of (ir_nodes ir) i"

definition has_node :: "workflow_ir \<Rightarrow> string \<Rightarrow> bool" where
  "has_node ir i = (i \<in> fst ` set (ir_nodes ir))"

definition edges_from :: "workflow_ir \<Rightarrow> string \<Rightarrow> edge_def list" where
  "edges_from ir i = filter (\<lambda>e. ed_from e = i) (ir_edges ir)"

definition successors :: "workflow_ir \<Rightarrow> string \<Rightarrow> string list" where
  "successors ir i = map ed_to (edges_from ir i)"

section \<open>The validator\<close>

datatype ir_error =
    UnknownToolRef string string
  | UnknownModelRef string string
  | UnknownMcpServer string string
  | UnknownRemoteAgent string string
  | UnknownEdgeTarget string string
  | InvalidConditionExpression string string string
  | InvalidQueueName string string string
  | UnknownBranchTarget string string
  | BranchTargetMissingOutEdge string string
  | UnmarkedAgentToolDispatch string
  | InvalidApprovalDeadline string deadline_error
  | RetiredApprovalTimeout
  | InvalidNodeId string
  | NodeIdMismatch string string
  | MisplacedAgentToolDispatch string string
  | UnreachableNode string
  | NoStartNode
  | InvalidVersion string
  | DuplicateNodeId string

definition validate_metadata :: "workflow_ir \<Rightarrow> ir_error + unit" where
  "validate_metadata ir =
     (if ir_workflow_id ir = [] then Inl (InvalidVersion ''workflow_id is empty'')
      else (let parts = split_on CHR ''.'' (ir_version ir)
            in if length parts \<noteq> 3 \<or> list_ex (\<lambda>p. parse_unsigned (2 ^ 32 - 1) p = None) parts
               then Inl (InvalidVersion (ir_version ir)) else Inr ()))"

definition validate_no_duplicate_nodes :: "workflow_ir \<Rightarrow> ir_error + unit" where
  "validate_no_duplicate_nodes ir =
     check_all (\<lambda>(key, node). if key \<noteq> nd_id node then Inl (DuplicateNodeId (nd_id node)) else Inr ()) (ir_nodes ir)"

definition validate_start_node :: "workflow_ir \<Rightarrow> ir_error + unit" where
  "validate_start_node ir =
     (if ir_start_node ir = [] then Inl NoStartNode
      else if \<not> has_node ir (ir_start_node ir) then Inl (UnreachableNode (ir_start_node ir))
      else Inr ())"

definition validate_edges :: "workflow_ir \<Rightarrow> ir_error + unit" where
  "validate_edges ir =
     check_all (\<lambda>e. if \<not> has_node ir (ed_to e) \<and> ed_to e \<noteq> ''end''
                    then Inl (UnknownEdgeTarget (ed_from e) (ed_to e)) else Inr ()) (ir_edges ir)"

definition validate_branch_targets :: "workflow_ir \<Rightarrow> ir_error + unit" where
  "validate_branch_targets ir =
     check_all (\<lambda>(i, node). case nd_kind node of
         ConditionNode branches \<Rightarrow>
           (let out_targets = successors ir i in
            check_all (\<lambda>b. if cb_target b \<noteq> ''end'' \<and> \<not> has_node ir (cb_target b)
                           then Inl (UnknownBranchTarget i (cb_target b))
                           else if cb_target b \<notin> set out_targets
                           then Inl (BranchTargetMissingOutEdge i (cb_target b))
                           else Inr ()) branches)
       | _ \<Rightarrow> Inr ()) (ir_nodes ir)"

text \<open>One pass of the inner loop of the reachability walk: the edges out of the current node.\<close>

fun visit_edges :: "string list \<Rightarrow> string list \<Rightarrow> string list \<Rightarrow> string list \<times> string list" where
  "visit_edges [] visited queue = (visited, queue)"
| "visit_edges (nxt # rest) visited queue =
     (if nxt \<noteq> ''end'' \<and> nxt \<notin> set visited
      then visit_edges rest (nxt # visited) (queue @ [nxt])
      else visit_edges rest visited queue)"

text \<open>The walk itself, breadth first.  Every step takes one node off the queue, and a node enters the
  queue at most once, when it is first visited; \<open>bfs\<close> counts down the edges' targets not visited yet
  and the queue's length.\<close>

lemma visit_edges_new:
  "\<exists>new. visit_edges ns visited queue = (rev new @ visited, queue @ new) \<and> distinct new \<and>
     set new = {n \<in> set ns. n \<noteq> ''end'' \<and> n \<notin> set visited}"
proof (induction ns visited queue rule: visit_edges.induct)
  case (2 nxt rest visited queue)
  show ?case
  proof (cases "nxt \<noteq> ''end'' \<and> nxt \<notin> set visited")
    case True
    then obtain new where "visit_edges rest (nxt # visited) (queue @ [nxt]) = (rev new @ nxt # visited, (queue @ [nxt]) @ new)"
      and "distinct new" and "set new = {n \<in> set rest. n \<noteq> ''end'' \<and> n \<notin> set (nxt # visited)}"
      using 2 by blast
    then show ?thesis using True by (intro exI [of _ "nxt # new"]) auto
  next
    case False
    then obtain new where "visit_edges rest visited queue = (rev new @ visited, queue @ new)"
      and "distinct new" and "set new = {n \<in> set rest. n \<noteq> ''end'' \<and> n \<notin> set visited}"
      using 2 by blast
    then show ?thesis using False by (intro exI [of _ new]) auto
  qed
qed simp

lemma set_successors: "set (successors ir i) = {t. \<exists>e \<in> set (ir_edges ir). ed_from e = i \<and> ed_to e = t}"
  by (auto simp: successors_def edges_from_def)

definition edge_targets :: "workflow_ir \<Rightarrow> string set" where
  "edge_targets ir = set (map ed_to (ir_edges ir))"

lemma finite_edge_targets [simp]: "finite (edge_targets ir)"
  by (simp add: edge_targets_def)

lemma visit_edges_decreases:
  assumes "visit_edges (successors ir c) visited queue = (visited', queue')"
  shows "2 * card (edge_targets ir - set visited') + length queue' \<le> 2 * card (edge_targets ir - set visited) + length queue"
proof -
  obtain new where new: "visited' = rev new @ visited" "queue' = queue @ new" "distinct new"
      "set new = {n \<in> set (successors ir c). n \<noteq> ''end'' \<and> n \<notin> set visited}"
    using visit_edges_new [of "successors ir c" visited queue] assms by auto
  have sub: "set new \<subseteq> edge_targets ir - set visited"
    using new(4) by (auto simp: edge_targets_def set_successors)
  have "edge_targets ir - set visited' = edge_targets ir - set visited - set new"
    using new(1) by auto
  then have "card (edge_targets ir - set visited') = card (edge_targets ir - set visited) - length new"
    using sub new(3) by (simp add: card_Diff_subset distinct_card)
  moreover have "length new \<le> card (edge_targets ir - set visited)"
    using card_mono [OF _ sub] new(3) by (simp add: distinct_card)
  ultimately show ?thesis using new(2) by simp
qed

function bfs :: "workflow_ir \<Rightarrow> string list \<Rightarrow> string list \<Rightarrow> string list" where
  "bfs ir visited [] = visited"
| "bfs ir visited (current # queue) =
     (let (visited', queue') = visit_edges (successors ir current) visited queue in bfs ir visited' queue')"
  by pat_completeness auto
termination
proof (relation "measure (\<lambda>(ir, visited, queue). 2 * card (edge_targets ir - set visited) + length queue)")
  fix ir visited current queue x visited' queue'
  assume "x = visit_edges (successors ir current) visited queue" and "(visited', queue') = x"
  then have "visit_edges (successors ir current) visited queue = (visited', queue')" by simp
  then show "((ir, visited', queue'), ir, visited, current # queue) \<in>
      measure (\<lambda>(ir, visited, queue). 2 * card (edge_targets ir - set visited) + length queue)"
    using visit_edges_decreases [of ir current visited queue visited' queue'] by (simp add: less_Suc_eq_le)
qed simp

declare bfs.simps(2) [simp del]

definition validate_reachability :: "workflow_ir \<Rightarrow> ir_error + unit" where
  "validate_reachability ir =
     (let visited = bfs ir [ir_start_node ir] [ir_start_node ir] in
      check_all (\<lambda>i. if i \<notin> set visited then Inl (UnreachableNode i) else Inr ()) (map fst (ir_nodes ir)))"

definition validate_refs :: "workflow_ir \<Rightarrow> ir_error + unit" where
  "validate_refs ir =
     check_all (\<lambda>(i, node). case nd_kind node of
         ToolNode tool_ref _ _ \<Rightarrow> if tool_ref \<notin> set (ir_tools ir) then Inl (UnknownToolRef i tool_ref) else Inr ()
       | ModelNode model_ref _ _ _ _ \<Rightarrow> if model_ref \<notin> fst ` set (ir_models ir) then Inl (UnknownModelRef i model_ref) else Inr ()
       | McpTool server _ _ _ \<Rightarrow> if server \<notin> set (ir_mcp_servers ir) then Inl (UnknownMcpServer i server) else Inr ()
       | A2aTask remote_agent _ _ _ _ _ _ \<Rightarrow>
           if remote_agent \<notin> fst ` set (ir_remote_agents ir) then Inl (UnknownRemoteAgent i remote_agent) else Inr ()
       | _ \<Rightarrow> Inr ()) (ir_nodes ir)"

definition adk_dispatch_module :: string where
  "adk_dispatch_module = ''jamjet.agents.tool_runtime''"

definition adk_dispatch_function :: string where
  "adk_dispatch_function = ''dispatch_tool_calls''"

definition is_adk_dispatch_coordinates :: "string \<Rightarrow> string \<Rightarrow> bool" where
  "is_adk_dispatch_coordinates pmod fname = (pmod = adk_dispatch_module \<and> fname = adk_dispatch_function)"

definition validate_agent_tool_dispatch :: "workflow_ir \<Rightarrow> ir_error + unit" where
  "validate_agent_tool_dispatch ir =
     check_all (\<lambda>(i, node). case nd_kind node of
         PythonFn pmod fname _ marked \<Rightarrow>
           (let is_dispatcher = is_adk_dispatch_coordinates pmod fname in
            if is_dispatcher \<and> \<not> marked then Inl (UnmarkedAgentToolDispatch i)
            else if marked \<and> \<not> is_dispatcher
            then Inl (MisplacedAgentToolDispatch i (''python_fn '' @ pmod @ '':'' @ fname))
            else Inr ())
       | JavaFn class_name method _ True \<Rightarrow>
           Inl (MisplacedAgentToolDispatch i (''java_fn '' @ class_name @ ''/'' @ method))
       | _ \<Rightarrow> Inr ()) (ir_nodes ir)"

definition validate_condition_expressions :: "(string \<Rightarrow> json option) \<Rightarrow> workflow_ir \<Rightarrow> ir_error + unit" where
  "validate_condition_expressions from_str ir =
     check_all (\<lambda>(i, node). case nd_kind node of
         ConditionNode branches \<Rightarrow>
           check_all (\<lambda>b. case cb_condition b of
               None \<Rightarrow> Inr ()
             | Some expr \<Rightarrow> (case validate_expression from_str expr of
                 Inl reason \<Rightarrow> Inl (InvalidConditionExpression i expr reason)
               | Inr _ \<Rightarrow> Inr ())) branches
       | _ \<Rightarrow> Inr ()) (ir_nodes ir)"

definition max_queue_name_len :: nat where
  "max_queue_name_len = 64"

definition queue_name_problem :: "string \<Rightarrow> string option" where
  "queue_name_problem queue =
     (if queue = [] then Some ''the queue name is empty''
      else if str_len queue > max_queue_name_len
      then Some ''the queue name is longer than 64 characters''
      else if \<not> list_all (\<lambda>c. is_ascii_alphanumeric c \<or> c \<in> {CHR ''-'', CHR ''_'', CHR ''.''}) queue
      then Some (''use only ASCII letters, digits, '-', '_' and '.'' @ [CHR 0x27])
      else (case queue_from_name queue of
              QNamed _ \<Rightarrow> None
            | _ \<Rightarrow> Some ''that is a built-in queue; name a queue of your own''))"

definition validate_external_queues :: "workflow_ir \<Rightarrow> ir_error + unit" where
  "validate_external_queues ir =
     check_all (\<lambda>(i, node). case nd_kind node of
         ExternalFn queue _ _ \<Rightarrow>
           (case queue_name_problem queue of
              Some reason \<Rightarrow> Inl (InvalidQueueName i queue reason)
            | None \<Rightarrow> Inr ())
       | _ \<Rightarrow> Inr ()) (ir_nodes ir)"

definition max_node_id_len :: nat where
  "max_node_id_len = 128"

definition valid_node_id :: "string \<Rightarrow> bool" where
  "valid_node_id i = (i \<noteq> [] \<and> str_len i \<le> max_node_id_len \<and>
     list_all (\<lambda>c. is_ascii_alphanumeric c \<or> c \<in> {CHR ''_'', CHR ''.'', CHR ''-''}) i)"

definition validate_node_ids :: "workflow_ir \<Rightarrow> ir_error + unit" where
  "validate_node_ids ir =
     check_all (\<lambda>(key, node).
       and_then (check_all (\<lambda>i. if \<not> valid_node_id i then Inl (InvalidNodeId i) else Inr ()) [key, nd_id node])
         (\<lambda>_. if key \<noteq> nd_id node then Inl (NodeIdMismatch key (nd_id node)) else Inr ())) (ir_nodes ir)"

definition map_err :: "('e \<Rightarrow> 'f) \<Rightarrow> 'e + 'a \<Rightarrow> 'f + 'a" where
  "map_err f r = (case r of Inl e \<Rightarrow> Inl (f e) | Inr x \<Rightarrow> Inr x)"

definition validate_approval_deadlines :: "workflow_ir \<Rightarrow> ir_error + unit" where
  "validate_approval_deadlines ir =
     and_then (case ir_policy ir of
         Some p \<Rightarrow> map_err (InvalidApprovalDeadline ''workflow'') (validate_approval_deadline p)
       | None \<Rightarrow> Inr ())
       (\<lambda>_. check_all (\<lambda>i. case ir_node ir i of
           None \<Rightarrow> Inr ()
         | Some node \<Rightarrow> (case nd_policy node of
             Some p \<Rightarrow> map_err (InvalidApprovalDeadline (''node '' @ [CHR 0x27] @ i @ [CHR 0x27])) (validate_approval_deadline p)
           | None \<Rightarrow> Inr ())) (sort (map fst (ir_nodes ir))))"

definition validate_workflow :: "(string \<Rightarrow> json option) \<Rightarrow> workflow_ir \<Rightarrow> ir_error + unit" where
  "validate_workflow from_str ir =
     and_then (validate_metadata ir) (\<lambda>_.
     and_then (validate_no_duplicate_nodes ir) (\<lambda>_.
     and_then (validate_start_node ir) (\<lambda>_.
     and_then (validate_edges ir) (\<lambda>_.
     and_then (validate_branch_targets ir) (\<lambda>_.
     and_then (validate_reachability ir) (\<lambda>_.
     and_then (validate_refs ir) (\<lambda>_.
     and_then (validate_agent_tool_dispatch ir) (\<lambda>_.
     and_then (validate_condition_expressions from_str ir) (\<lambda>_.
     and_then (validate_external_queues ir) (\<lambda>_.
     and_then (validate_node_ids ir) (\<lambda>_.
     validate_approval_deadlines ir)))))))))))"

definition refuse_retired_timeouts :: "json \<Rightarrow> ir_error + unit" where
  "refuse_retired_timeouts raw =
     (case Option.bind (json_get raw ''timeouts'') (\<lambda>t. json_get t ''approval_timeout'') of
        None \<Rightarrow> Inr ()
      | Some v \<Rightarrow> if v = JNull then Inr () else Inl RetiredApprovalTimeout)"

section \<open>Deadlines\<close>

lemma min_opt_None: "min_opt xs = None \<longleftrightarrow> xs = []"
  by (cases xs) (auto split: option.splits)

lemma min_opt_Some: "min_opt xs = Some m \<longleftrightarrow> m \<in> set xs \<and> (\<forall>x \<in> set xs. m \<le> x)"
proof (induction xs arbitrary: m)
  case Nil
  then show ?case by simp
next
  case (Cons x xs)
  show ?case
  proof (cases "min_opt xs")
    case None
    then show ?thesis by (auto simp: min_opt_None)
  next
    case (Some y)
    then have y: "y \<in> set xs" "\<forall>x \<in> set xs. y \<le> x" using Cons by auto
    then have "min x y \<in> set (x # xs)" "\<forall>z \<in> set (x # xs). min x y \<le> z"
      by (auto simp: min_def)
    then show ?thesis using Some by (auto intro: antisym)
  qed
qed

lemma set_filter_map [simp]: "set (filter_map f xs) = {y. \<exists>x \<in> set xs. f x = Some y}"
  by (force simp: filter_map_def)

lemma filter_map_append: "filter_map f (xs @ ys) = filter_map f xs @ filter_map f ys"
  by (simp add: filter_map_def)

lemma filter_map_Nil: "filter_map f xs = [] \<longleftrightarrow> (\<forall>x \<in> set xs. f x = None)"
  by (auto simp: filter_map_def filter_empty_conv)

lemma valid_deadline_range:
  "is_ok (validate_approval_deadline p) \<Longrightarrow> ps_approval_timeout_secs p = Some t \<Longrightarrow>
   1 \<le> t \<and> t \<le> max_approval_timeout_secs"
  by (auto simp: validate_approval_deadline_def split: if_splits option.splits)

lemma valid_deadline_escalation:
  "is_ok (validate_approval_deadline p) \<Longrightarrow> ps_escalate_after_secs p = Some e \<Longrightarrow>
   1 \<le> e \<and> (\<exists>t. ps_approval_timeout_secs p = Some t \<and> e < t)"
  by (auto simp: validate_approval_deadline_def split: if_splits option.splits)

lemma resolve_deadline_Inr:
  assumes "resolve_deadline sets = Inr r"
  shows "(\<forall>p \<in> set sets. is_ok (validate_approval_deadline p)) \<and>
    (dr_deadline r = None \<longleftrightarrow> (\<forall>p \<in> set sets. ps_approval_timeout_secs p = None)) \<and>
    (\<forall>d. dr_deadline r = Some d \<longrightarrow>
       min_opt (filter_map ps_approval_timeout_secs sets) = Some (ad_timeout_secs d) \<and>
       (\<forall>e. ad_escalate_after_secs d = Some e \<longrightarrow>
          e < ad_timeout_secs d \<and> min_opt (filter_map ps_escalate_after_secs sets) = Some e))"
proof -
  have ok: "\<forall>p \<in> set sets. is_ok (validate_approval_deadline p)"
    using assms by (auto simp: resolve_deadline_def result_simps)
  then have ck: "check_all validate_approval_deadline sets = Inr ()" by (simp add: result_simps)
  show ?thesis
  proof (cases "min_opt (filter_map ps_approval_timeout_secs sets)")
    case None
    then have "\<forall>p \<in> set sets. ps_approval_timeout_secs p = None" by (simp add: min_opt_None filter_map_Nil)
    then show ?thesis using assms ok ck None by (auto simp: resolve_deadline_def)
  next
    case (Some t)
    then have "\<not> (\<forall>p \<in> set sets. ps_approval_timeout_secs p = None)"
      using min_opt_None [of "filter_map ps_approval_timeout_secs sets"] by (simp add: filter_map_Nil)
    then show ?thesis using assms ok ck Some by (auto simp: resolve_deadline_def split: option.splits if_splits)
  qed
qed

text \<open>the deadline of a policy chain.  When every level is valid the chain resolves; the result
  carries a deadline exactly when some level sets a timeout, its timeout is one a level sets and no
  longer than any level's, lies between one second and one year, and an escalation, when kept, comes
  before it; adding a level never lengthens it.\<close>

theorem deadline_is_shortest:
  assumes "resolve_deadline sets = Inr r"
  shows "(dr_deadline r = None \<longleftrightarrow> (\<forall>p \<in> set sets. ps_approval_timeout_secs p = None)) \<and>
    (\<forall>d. dr_deadline r = Some d \<longrightarrow>
       (\<exists>p \<in> set sets. ps_approval_timeout_secs p = Some (ad_timeout_secs d)) \<and>
       (\<forall>p \<in> set sets. \<forall>t. ps_approval_timeout_secs p = Some t \<longrightarrow> ad_timeout_secs d \<le> t) \<and>
       1 \<le> ad_timeout_secs d \<and> ad_timeout_secs d \<le> max_approval_timeout_secs \<and>
       (\<forall>e. ad_escalate_after_secs d = Some e \<longrightarrow> 1 \<le> e \<and> e < ad_timeout_secs d)) \<and>
    (\<forall>more r'. resolve_deadline (sets @ more) = Inr r' \<longrightarrow>
       (\<forall>d. dr_deadline r = Some d \<longrightarrow>
          (\<exists>d'. dr_deadline r' = Some d' \<and> ad_timeout_secs d' \<le> ad_timeout_secs d)))"
proof (intro conjI allI impI)
  note base = resolve_deadline_Inr [OF assms]
  show "dr_deadline r = None \<longleftrightarrow> (\<forall>p \<in> set sets. ps_approval_timeout_secs p = None)" using base by blast
  fix d assume d: "dr_deadline r = Some d"
  then have m: "min_opt (filter_map ps_approval_timeout_secs sets) = Some (ad_timeout_secs d)" using base by blast
  then show lo: "\<exists>p \<in> set sets. ps_approval_timeout_secs p = Some (ad_timeout_secs d)"
    and "\<forall>p \<in> set sets. \<forall>t. ps_approval_timeout_secs p = Some t \<longrightarrow> ad_timeout_secs d \<le> t"
    unfolding min_opt_Some by auto
  then show "1 \<le> ad_timeout_secs d" "ad_timeout_secs d \<le> max_approval_timeout_secs"
    using base valid_deadline_range by blast+
  fix e assume "ad_escalate_after_secs d = Some e"
  then have e: "e < ad_timeout_secs d" "min_opt (filter_map ps_escalate_after_secs sets) = Some e"
    using base d by blast+
  show "1 \<le> e" using e(2) base valid_deadline_escalation unfolding min_opt_Some by auto
  show "e < ad_timeout_secs d" by (rule e(1))
next
  fix more r' d assume r': "resolve_deadline (sets @ more) = Inr r'" and d: "dr_deadline r = Some d"
  have m: "ad_timeout_secs d \<in> set (filter_map ps_approval_timeout_secs (sets @ more))"
    using resolve_deadline_Inr [OF assms] d unfolding min_opt_Some by auto
  then have "dr_deadline r' \<noteq> None" using resolve_deadline_Inr [OF r'] by auto
  then obtain d' where d': "dr_deadline r' = Some d'" by blast
  then have "min_opt (filter_map ps_approval_timeout_secs (sets @ more)) = Some (ad_timeout_secs d')"
    using resolve_deadline_Inr [OF r'] by blast
  then show "\<exists>d'. dr_deadline r' = Some d' \<and> ad_timeout_secs d' \<le> ad_timeout_secs d"
    using d' m unfolding min_opt_Some by blast
qed

theorem deadline_is_shortest_witness:
  "resolve_deadline [policy_set_default\<lparr>ps_approval_timeout_secs := Some 3600\<rparr>,
      policy_set_default\<lparr>ps_approval_timeout_secs := Some 60, ps_escalate_after_secs := Some 30\<rparr>] =
     Inr \<lparr>dr_deadline = Some \<lparr>ad_timeout_secs = 60, ad_escalate_after_secs = Some 30\<rparr>,
          dr_dropped_escalation_secs = None\<rparr> \<and> (60::nat) \<le> max_approval_timeout_secs"
proof -
  have r: "resolve_deadline [policy_set_default\<lparr>ps_approval_timeout_secs := Some 3600\<rparr>,
      policy_set_default\<lparr>ps_approval_timeout_secs := Some 60, ps_escalate_after_secs := Some 30\<rparr>] =
     Inr \<lparr>dr_deadline = Some \<lparr>ad_timeout_secs = 60, ad_escalate_after_secs = Some 30\<rparr>,
          dr_dropped_escalation_secs = None\<rparr>"
    by (simp add: resolve_deadline_def validate_approval_deadline_def policy_set_default_def
        max_approval_timeout_secs_def filter_map_def)
  show ?thesis using deadline_is_shortest [OF r] r by simp
qed

section \<open>Reachability\<close>

definition edge_step :: "workflow_ir \<Rightarrow> (string \<times> string) set" where
  "edge_step ir = {(a, b). \<exists>e \<in> set (ir_edges ir). ed_from e = a \<and> ed_to e = b \<and> b \<noteq> ''end''}"

lemma bfs_closure:
  assumes "set queue \<subseteq> set visited"
    and "\<forall>v \<in> set visited - set queue. edge_step ir `` {v} \<subseteq> set visited"
  shows "set visited \<subseteq> set (bfs ir visited queue) \<and>
         set (bfs ir visited queue) \<subseteq> (edge_step ir)\<^sup>* `` set visited \<and>
         edge_step ir `` set (bfs ir visited queue) \<subseteq> set (bfs ir visited queue)"
  using assms
proof (induction ir visited queue rule: bfs.induct)
  case (1 ir visited)
  then show ?case by auto
next
  case (2 ir visited current queue)
  obtain new where new: "visit_edges (successors ir current) visited queue = (rev new @ visited, queue @ new)"
      "set new = {n \<in> set (successors ir current). n \<noteq> ''end'' \<and> n \<notin> set visited}"
    using visit_edges_new by blast
  have succ: "edge_step ir `` {current} \<subseteq> set (rev new @ visited)" "set new \<subseteq> edge_step ir `` {current}"
    using new(2) by (auto simp: edge_step_def set_successors)
  have pre: "set (queue @ new) \<subseteq> set (rev new @ visited)"
      "\<forall>v \<in> set (rev new @ visited) - set (queue @ new). edge_step ir `` {v} \<subseteq> set (rev new @ visited)"
    using "2.prems" succ(1) by auto
  have IH: "set (rev new @ visited) \<subseteq> set (bfs ir (rev new @ visited) (queue @ new)) \<and>
         set (bfs ir (rev new @ visited) (queue @ new)) \<subseteq> (edge_step ir)\<^sup>* `` set (rev new @ visited) \<and>
         edge_step ir `` set (bfs ir (rev new @ visited) (queue @ new)) \<subseteq> set (bfs ir (rev new @ visited) (queue @ new))"
    using "2.IH" [OF new(1) [symmetric] refl pre] .
  have "set (rev new @ visited) \<subseteq> (edge_step ir)\<^sup>* `` set visited"
    using succ(2) "2.prems"(1) by auto
  then have "(edge_step ir)\<^sup>* `` set (rev new @ visited) \<subseteq> (edge_step ir)\<^sup>* `` set visited"
    by (auto dest!: subsetD intro: rtrancl_trans)
  then show ?case using IH new(1) by (auto simp: bfs.simps(2))
qed

lemma bfs_reach_set:
  "set (bfs ir [ir_start_node ir] [ir_start_node ir]) = {n. (ir_start_node ir, n) \<in> (edge_step ir)\<^sup>*}"
proof -
  let ?V = "set (bfs ir [ir_start_node ir] [ir_start_node ir])"
  have c: "ir_start_node ir \<in> ?V" "?V \<subseteq> (edge_step ir)\<^sup>* `` {ir_start_node ir}" "edge_step ir `` ?V \<subseteq> ?V"
    using bfs_closure [of "[ir_start_node ir]" "[ir_start_node ir]" ir] by simp_all
  have "(ir_start_node ir, n) \<in> (edge_step ir)\<^sup>* \<Longrightarrow> n \<in> ?V" for n
    by (induction rule: rtrancl_induct) (use c in auto)
  then show ?thesis using c(2) by auto
qed

lemma validate_reachability_iff:
  "validate_reachability ir = Inr () \<longleftrightarrow>
   (\<forall>n \<in> fst ` set (ir_nodes ir). (ir_start_node ir, n) \<in> (edge_step ir)\<^sup>*)"
  by (auto simp: validate_reachability_def Let_def result_simps bfs_reach_set)

text \<open>the reachability check decides reachability in the workflow graph.  It passes exactly when
  every node is reached from the start node along edges that do not end in the marker \<^verbatim>\<open>end\<close>, and the
  node it names in a refusal is one that is not.\<close>

theorem reachability_check_decides:
  "(validate_reachability ir = Inr () \<longleftrightarrow>
      (\<forall>n \<in> fst ` set (ir_nodes ir). (ir_start_node ir, n) \<in> (edge_step ir)\<^sup>*)) \<and>
   (\<forall>err. validate_reachability ir = Inl err \<longrightarrow>
      (\<exists>n \<in> fst ` set (ir_nodes ir). err = UnreachableNode n \<and> (ir_start_node ir, n) \<notin> (edge_step ir)\<^sup>*))"
proof (intro conjI allI impI)
  show "validate_reachability ir = Inr () \<longleftrightarrow>
      (\<forall>n \<in> fst ` set (ir_nodes ir). (ir_start_node ir, n) \<in> (edge_step ir)\<^sup>*)"
    by (rule validate_reachability_iff)
  fix err assume "validate_reachability ir = Inl err"
  then show "\<exists>n \<in> fst ` set (ir_nodes ir). err = UnreachableNode n \<and> (ir_start_node ir, n) \<notin> (edge_step ir)\<^sup>*"
    by (force simp: validate_reachability_def Let_def bfs_reach_set dest!: check_all_Inl split: if_splits)
qed

definition plain_node :: "string \<Rightarrow> node_kind \<Rightarrow> node_def" where
  "plain_node i k = \<lparr>nd_id = i, nd_kind = k, nd_retry_policy = None, nd_node_timeout_secs = None,
     nd_description = None, nd_labels = [], nd_policy = None, nd_data_policy = None, nd_agent_ref = None\<rparr>"

definition sample_ir :: workflow_ir where
  "sample_ir = \<lparr>ir_workflow_id = ''w'', ir_version = ''1.0.0'', ir_start_node = ''a'',
     ir_nodes = [(''a'', plain_node ''a'' (ConditionNode [\<lparr>cb_condition = Some ''state.ok'', cb_target = ''b''\<rparr>])),
                 (''b'', plain_node ''b'' (ExternalFn ''gpu'' ''run'' ''s''))],
     ir_edges = [\<lparr>ed_from = ''a'', ed_to = ''b'', ed_condition = None\<rparr>,
                 \<lparr>ed_from = ''b'', ed_to = ''end'', ed_condition = None\<rparr>],
     ir_models = [], ir_tools = [], ir_mcp_servers = [], ir_remote_agents = [], ir_policy = None,
     ir_token_budget = None, ir_cost_budget_usd = None, ir_on_budget_exceeded = None,
     ir_continue_as_new = False, ir_data_policy = None, ir_agent_ref = None\<rparr>"

lemmas sample_simps = sample_ir_def plain_node_def has_node_def successors_def edges_from_def Let_def

lemma sample_ir_metadata: "validate_metadata sample_ir = Inr ()"
  by (simp add: validate_metadata_def sample_simps parse_unsigned_def is_ascii_digit_def)

lemma sample_ir_graph:
  "validate_no_duplicate_nodes sample_ir = Inr ()" "validate_start_node sample_ir = Inr ()"
  "validate_edges sample_ir = Inr ()" "validate_branch_targets sample_ir = Inr ()"
  "validate_reachability sample_ir = Inr ()"
  by (simp_all add: validate_no_duplicate_nodes_def validate_start_node_def validate_edges_def
      validate_branch_targets_def validate_reachability_def sample_simps bfs.simps)

lemma sample_ir_nodes:
  "validate_refs sample_ir = Inr ()" "validate_agent_tool_dispatch sample_ir = Inr ()"
  "validate_external_queues sample_ir = Inr ()" "validate_node_ids sample_ir = Inr ()"
  "validate_approval_deadlines sample_ir = Inr ()"
  by (simp_all add: validate_refs_def validate_agent_tool_dispatch_def validate_external_queues_def
      validate_node_ids_def validate_approval_deadlines_def queue_name_problem_def queue_from_name_def
      valid_node_id_def str_len_def max_queue_name_len_def max_node_id_len_def is_ascii_alphanumeric_def
      ir_node_def sample_simps)

lemma sample_ir_condition: "validate_condition_expressions null_parser sample_ir = Inr ()"
proof -
  have "path_wf [''ok'']" by (simp add: path_wf_def path_char_def is_whitespace_def)
  then have "require_state_path ''state.ok'' = Inr ()"
    using require_state_path_ok [of "[''ok'']"] by (simp add: state_path_def)
  then have "validate_expression null_parser ''state.ok'' = Inr ()"
    by (simp add: validate_expression_def trim_def is_whitespace_def)
  then show ?thesis by (simp add: validate_condition_expressions_def sample_simps)
qed

lemma sample_ir_valid: "validate_workflow null_parser sample_ir = Inr ()"
  by (simp add: validate_workflow_def sample_ir_metadata sample_ir_graph sample_ir_nodes sample_ir_condition)

theorem reachability_check_decides_witness:
  "(ir_start_node sample_ir, ''b'') \<in> (edge_step sample_ir)\<^sup>*"
proof -
  have "validate_reachability sample_ir = Inr ()" by (rule sample_ir_graph)
  moreover have "''b'' \<in> fst ` set (ir_nodes sample_ir)" by (simp add: sample_ir_def)
  ultimately show ?thesis using reachability_check_decides [of sample_ir] by blast
qed

section \<open>What a validated workflow has\<close>

lemma validated_ids:
  assumes "validate_node_ids ir = Inr ()" and "(i, node) \<in> set (ir_nodes ir)"
  shows "nd_id node = i" and "valid_node_id i"
  using check_all_okD [OF assms(1) [unfolded validate_node_ids_def] assms(2)]
  by (auto simp: result_simps split: if_splits)

lemma validated_branch:
  assumes "validate_branch_targets ir = Inr ()" and "validate_condition_expressions from_str ir = Inr ()"
    and "(i, node) \<in> set (ir_nodes ir)" and "nd_kind node = ConditionNode branches" and "b \<in> set branches"
  shows "(has_node ir (cb_target b) \<or> cb_target b = ''end'') \<and>
    (\<exists>e \<in> set (ir_edges ir). ed_from e = i \<and> ed_to e = cb_target b) \<and>
    (\<forall>expr. cb_condition b = Some expr \<longrightarrow> validate_expression from_str expr = Inr ())"
proof -
  have "\<forall>b \<in> set branches. is_ok (if cb_target b \<noteq> ''end'' \<and> \<not> has_node ir (cb_target b)
           then Inl (UnknownBranchTarget i (cb_target b))
           else if cb_target b \<notin> set (successors ir i) then Inl (BranchTargetMissingOutEdge i (cb_target b)) else Inr ())"
    using check_all_okD [OF assms(1) [unfolded validate_branch_targets_def] assms(3)] assms(4) by (simp add: is_ok_check_all Let_def)
  moreover have "\<forall>b \<in> set branches. is_ok (case cb_condition b of None \<Rightarrow> Inr ()
           | Some expr \<Rightarrow> (case validate_expression from_str expr of
               Inl reason \<Rightarrow> Inl (InvalidConditionExpression i expr reason) | Inr _ \<Rightarrow> Inr ()))"
    using check_all_okD [OF assms(2) [unfolded validate_condition_expressions_def] assms(3)] assms(4) by (simp add: is_ok_check_all)
  ultimately show ?thesis using assms(5)
    by (fastforce simp: set_successors split: if_splits option.splits sum.splits)
qed

lemma validated_refs:
  assumes "validate_refs ir = Inr ()" and "(i, node) \<in> set (ir_nodes ir)"
  shows "case nd_kind node of
      ToolNode tool _ _ \<Rightarrow> tool \<in> set (ir_tools ir)
    | ModelNode model _ _ _ _ \<Rightarrow> model \<in> fst ` set (ir_models ir)
    | McpTool server _ _ _ \<Rightarrow> server \<in> set (ir_mcp_servers ir)
    | A2aTask remote _ _ _ _ _ _ \<Rightarrow> remote \<in> fst ` set (ir_remote_agents ir)
    | _ \<Rightarrow> True"
  using check_all_okD [OF assms(1) [unfolded validate_refs_def] assms(2)]
  by (auto split: node_kind.split if_splits)

lemma validated_queue:
  assumes "validate_external_queues ir = Inr ()" and "(i, node) \<in> set (ir_nodes ir)" and "nd_kind node = ExternalFn q h sch"
  shows "queue_from_name q = QNamed q \<and> q \<noteq> [] \<and> str_len q \<le> max_queue_name_len"
proof -
  have "queue_name_problem q = None"
    using check_all_okD [OF assms(1) [unfolded validate_external_queues_def] assms(2)] assms(3) by (auto split: option.splits)
  then show ?thesis by (auto simp: queue_name_problem_def queue_from_name_def split: if_splits queue_type.splits)
qed

lemma is_ok_map_err [simp]: "is_ok (map_err f r) = is_ok r"
  by (cases r) (simp_all add: map_err_def)

lemma validated_deadlines:
  assumes "validate_approval_deadlines ir = Inr ()"
    and "ir_policy ir = Some p \<or> ir_node ir i = Some node \<and> nd_policy node = Some p"
  shows "is_ok (validate_approval_deadline p)"
  using assms(2)
proof
  assume "ir_policy ir = Some p"
  then show ?thesis using assms(1) is_ok_map_err [of "InvalidApprovalDeadline ''workflow''" "validate_approval_deadline p"]
    by (auto simp: validate_approval_deadlines_def result_simps simp del: is_ok_map_err)
next
  assume n: "ir_node ir i = Some node \<and> nd_policy node = Some p"
  then have "i \<in> set (sort (map fst (ir_nodes ir)))" by (auto simp: ir_node_def dest: map_of_SomeD intro: rev_image_eqI)
  moreover have "check_all (\<lambda>i. case ir_node ir i of None \<Rightarrow> Inr ()
      | Some node \<Rightarrow> (case nd_policy node of
          Some p \<Rightarrow> map_err (InvalidApprovalDeadline (''node '' @ [CHR 0x27] @ i @ [CHR 0x27])) (validate_approval_deadline p)
        | None \<Rightarrow> Inr ())) (sort (map fst (ir_nodes ir))) = Inr ()"
    using assms(1) by (simp add: validate_approval_deadlines_def result_simps)
  ultimately show ?thesis using n by (fastforce dest!: check_all_okD [where x = i])
qed

definition deadlines_in_range :: "policy_set \<Rightarrow> bool" where
  "deadlines_in_range p =
     ((\<forall>t. ps_approval_timeout_secs p = Some t \<longrightarrow> 1 \<le> t \<and> t \<le> 365 * 24 * 60 * 60) \<and>
      (\<forall>e. ps_escalate_after_secs p = Some e \<longrightarrow> (\<exists>t. ps_approval_timeout_secs p = Some t \<and> 1 \<le> e \<and> e < t)))"

lemma deadlines_checked: "is_ok (validate_approval_deadline p) \<Longrightarrow> deadlines_in_range p"
  using valid_deadline_range [of p] valid_deadline_escalation [of p]
  by (auto simp: deadlines_in_range_def max_approval_timeout_secs_def)

text \<open>C37: a workflow that passes validation and one of its nodes.  The workflow has an id and a version of three
  numbers; its start node exists; every edge and every branch of a condition node leads to a node of the workflow or
  to \<^verbatim>\<open>end\<close>; every branch has a matching edge and a condition the evaluator accepts; the node can be reached from
  the start node, carries its own id, which is well formed, and the tool, model, server or remote agent it names is
  declared; the tool-dispatch marker of a Python node sits exactly on the dispatcher coordinates and a Java node has
  none; an external queue carries a name of its own, within the length bound; and the approval deadlines of the
  workflow and of the node are in range: a timeout is between a second and a year, and an escalation comes with a
  timeout and earlier than it.\<close>

theorem validated_workflow_sound:
  assumes "validate_workflow from_str ir = Inr ()" and "ir_node ir i = Some node"
  shows "ir_workflow_id ir \<noteq> [] \<and> length (split_on CHR ''.'' (ir_version ir)) = 3 \<and>
    (\<forall>part \<in> set (split_on CHR ''.'' (ir_version ir)). parse_unsigned (2 ^ 32 - 1) part \<noteq> None) \<and>
    has_node ir (ir_start_node ir) \<and> nd_id node = i \<and> valid_node_id i \<and>
    (ir_start_node ir, i) \<in> (edge_step ir)\<^sup>* \<and>
    (\<forall>e \<in> set (ir_edges ir). has_node ir (ed_to e) \<or> ed_to e = ''end'') \<and>
    (case nd_kind node of
        ToolNode tool _ _ \<Rightarrow> tool \<in> set (ir_tools ir)
      | ModelNode model _ _ _ _ \<Rightarrow> model \<in> fst ` set (ir_models ir)
      | McpTool server _ _ _ \<Rightarrow> server \<in> set (ir_mcp_servers ir)
      | A2aTask remote _ _ _ _ _ _ \<Rightarrow> remote \<in> fst ` set (ir_remote_agents ir)
      | _ \<Rightarrow> True) \<and>
    (\<forall>branches b. nd_kind node = ConditionNode branches \<longrightarrow> b \<in> set branches \<longrightarrow>
       (has_node ir (cb_target b) \<or> cb_target b = ''end'') \<and>
       (\<exists>e \<in> set (ir_edges ir). ed_from e = i \<and> ed_to e = cb_target b) \<and>
       (\<forall>expr. cb_condition b = Some expr \<longrightarrow> validate_expression from_str expr = Inr ())) \<and>
    (\<forall>m f sch marked. nd_kind node = PythonFn m f sch marked \<longrightarrow>
       marked = is_adk_dispatch_coordinates m f) \<and>
    (\<forall>c m sch marked. nd_kind node = JavaFn c m sch marked \<longrightarrow> \<not> marked) \<and>
    (\<forall>q h sch. nd_kind node = ExternalFn q h sch \<longrightarrow>
       queue_from_name q = QNamed q \<and> q \<noteq> [] \<and> str_len q \<le> max_queue_name_len) \<and>
    (\<forall>p. ir_policy ir = Some p \<or> nd_policy node = Some p \<longrightarrow> deadlines_in_range p)"
proof -
  have v: "validate_metadata ir = Inr ()" "validate_start_node ir = Inr ()" "validate_edges ir = Inr ()"
      "validate_branch_targets ir = Inr ()" "validate_reachability ir = Inr ()" "validate_refs ir = Inr ()"
      "validate_agent_tool_dispatch ir = Inr ()" "validate_condition_expressions from_str ir = Inr ()"
      "validate_external_queues ir = Inr ()" "validate_node_ids ir = Inr ()" "validate_approval_deadlines ir = Inr ()"
    using assms(1) by (auto simp: validate_workflow_def result_simps)
  have m: "(i, node) \<in> set (ir_nodes ir)" using assms(2) by (simp add: ir_node_def map_of_SomeD)
  have meta: "ir_workflow_id ir \<noteq> []" "length (split_on CHR ''.'' (ir_version ir)) = 3"
      "\<forall>part \<in> set (split_on CHR ''.'' (ir_version ir)). parse_unsigned (2 ^ 32 - 1) part \<noteq> None"
    using v(1) by (auto simp: validate_metadata_def Let_def list_ex_iff split: if_splits)
  have reach: "(ir_start_node ir, i) \<in> (edge_step ir)\<^sup>*"
    using v(5) m unfolding validate_reachability_iff by force
  have start: "has_node ir (ir_start_node ir)" using v(2) by (auto simp: validate_start_node_def split: if_splits)
  have edges: "\<forall>e \<in> set (ir_edges ir). has_node ir (ed_to e) \<or> ed_to e = ''end''"
    using v(3) by (auto simp: validate_edges_def check_all_ok split: if_splits)
  have py: "marked = is_adk_dispatch_coordinates m f" if "nd_kind node = PythonFn m f sch marked" for m f sch marked
    using check_all_okD [OF v(7) [unfolded validate_agent_tool_dispatch_def] m] that
    by (auto simp: Let_def split: if_splits)
  have java: "\<not> marked" if "nd_kind node = JavaFn c m sch marked" for c m sch marked
    using check_all_okD [OF v(7) [unfolded validate_agent_tool_dispatch_def] m] that
    by (auto split: if_splits bool.splits)
  have dl: "deadlines_in_range p" if "ir_policy ir = Some p \<or> nd_policy node = Some p" for p
    using validated_deadlines [OF v(11)] assms(2) that by (blast intro: deadlines_checked)
  note parts = validated_branch [OF v(4,8) m] py java validated_queue [OF v(9) m]
  show ?thesis
    by (intro conjI allI impI; (fact meta start validated_ids [OF v(10) m] reach edges validated_refs [OF v(6) m])?)
      ((blast dest: parts) | (erule dl))+
qed

theorem validated_workflow_sound_witness:
  "has_node sample_ir (ir_start_node sample_ir) \<and> queue_from_name ''gpu'' = QNamed ''gpu''"
proof -
  have m: "ir_node sample_ir ''b'' = Some (plain_node ''b'' (ExternalFn ''gpu'' ''run'' ''s''))"
    by (simp add: ir_node_def sample_ir_def)
  have k: "nd_kind (plain_node ''b'' (ExternalFn ''gpu'' ''run'' ''s'')) = ExternalFn ''gpu'' ''run'' ''s''"
    by (simp add: plain_node_def)
  show ?thesis using validated_workflow_sound [OF sample_ir_valid m] k by blast
qed

end
