(* ===== verification/Events.thy ===== *)
theory Events
  imports Ir
begin

text \<open>
  The event log's vocabulary (\<^verbatim>\<open>runtime/state/src/event.rs\<close>): the event kinds with their fields in the
  order of the source, the envelope, and the node an event is about.  The fields of a completed node are
  a record of their own.
\<close>

type_synonym event_sequence = int

record provenance_metadata =
  pm_model_id :: "string option"
  pm_model_version :: "string option"
  pm_confidence :: "f64 option"
  pm_verified :: bool
  pm_source :: "string option"
  pm_trust_domain :: "string option"
  pm_evidence_refs :: "string list"

record node_completed =
  nc_node_id :: node_id
  nc_output :: json
  nc_state_patch :: json
  nc_duration_ms :: nat
  nc_gen_ai_system :: "string option"
  nc_gen_ai_model :: "string option"
  nc_input_tokens :: "nat option"
  nc_output_tokens :: "nat option"
  nc_finish_reason :: "string option"
  nc_cost_usd :: "f64 option"
  nc_provenance :: "provenance_metadata option"
  nc_idempotency_key :: "string option"

datatype approval_decision = Approved | Rejected

record approval_received =
  ar_node_id :: node_id
  ar_user_id :: string
  ar_decision :: approval_decision
  ar_comment :: "string option"
  ar_state_patch :: "json option"
  ar_principal :: "string option"
  ar_approved_digest :: "string option"
  ar_request_sequence :: "event_sequence option"

datatype (plugins only: code) event_kind =
    WorkflowStarted string string json "string option"
  | WorkflowCompleted json
  | WorkflowFailed string
  | WorkflowCancelled "string option"
  | NodeScheduled node_id string
  | NodeStarted node_id string nat
  | NodeCompleted node_completed
  | NodeFailed node_id string nat bool
  | NodeParked node_id nat string
  | NodeSkipped node_id string
  | NodeCancelled node_id
  | RetryScheduled node_id nat nat
  | InterruptRaised node_id string json
  | ApprovalReceived approval_received
  | TimerCreated node_id timestamp "string option"
  | TimerFired node_id "string option"
  | ExternalEventReceived string json
  | ChildWorkflowStarted node_id string string
  | ChildWorkflowCompleted node_id string json
  | ChildWorkflowFailed node_id string string
  | BudgetExceeded node_id string nat nat
  | TokenBudgetExceeded node_id string nat nat
  | CostBudgetExceeded node_id f64 f64
  | AutonomyLimitReached node_id string string json json
  | CircuitBreakerTripped node_id string nat nat
  | AgentStepAdmitted node_id "uuid option" "string list" nat "event_sequence option"
  | EscalationRequired node_id string string string
  | PolicyViolation node_id string string string
  | ToolApprovalRequired node_id string string json
  | ApprovalExpired node_id event_sequence timestamp string
  | ApprovalEscalated node_id event_sequence timestamp timestamp
  | AuditSealFailed uuid event_sequence string string
  | RunStalled string
  | StrategyStarted string json
  | PlanGenerated "string list"
  | IterationStarted nat
  | ToolCalled node_id string
  | CriticVerdict node_id f64 bool "string option"
  | IterationCompleted nat "f64 option" nat nat
  | StrategyLimitHit string json json
  | StrategyCompleted nat "f64 option"
  | CoordinatorDiscovery node_id "string list" "string option" "json list" "json list"
  | CoordinatorScoring node_id "json list" f64 json
  | CoordinatorDecision node_id "string option" string "string option" f64 "json list" "json option" "f64 option"
  | AgentToolInvoked node_id string string string string
  | AgentToolProgress node_id nat string
  | AgentToolTurn node_id nat string string nat f64
  | AgentToolCompleted node_id json "json option" f64 nat "nat option"
  | AgentToolTerminated node_id string nat "json option" f64
  | AgentToolFailed node_id string string bool
  | SegmentBoundary nat string
  | Unknown

record event =
  ev_id :: uuid
  ev_execution_id :: execution_id
  ev_sequence :: event_sequence
  ev_kind :: event_kind
  ev_created_at :: timestamp

definition deadline_principal :: string where
  "deadline_principal = ''system:deadline''"

text \<open>\<^verbatim>\<open>EventKind::node_id\<close>.\<close>

definition event_node_id :: "event_kind \<Rightarrow> string option" where
  "event_node_id kind =
     (case kind of
        NodeScheduled i _ \<Rightarrow> Some i
      | NodeStarted i _ _ \<Rightarrow> Some i
      | NodeCompleted nc \<Rightarrow> Some (nc_node_id nc)
      | NodeFailed i _ _ _ \<Rightarrow> Some i
      | NodeParked i _ _ \<Rightarrow> Some i
      | NodeSkipped i _ \<Rightarrow> Some i
      | NodeCancelled i \<Rightarrow> Some i
      | RetryScheduled i _ _ \<Rightarrow> Some i
      | InterruptRaised i _ _ \<Rightarrow> Some i
      | ApprovalReceived ar \<Rightarrow> Some (ar_node_id ar)
      | TimerCreated i _ _ \<Rightarrow> Some i
      | TimerFired i _ \<Rightarrow> Some i
      | BudgetExceeded i _ _ _ \<Rightarrow> Some i
      | TokenBudgetExceeded i _ _ _ \<Rightarrow> Some i
      | CostBudgetExceeded i _ _ \<Rightarrow> Some i
      | AutonomyLimitReached i _ _ _ _ \<Rightarrow> Some i
      | CircuitBreakerTripped i _ _ _ \<Rightarrow> Some i
      | AgentStepAdmitted i _ _ _ _ \<Rightarrow> Some i
      | EscalationRequired i _ _ _ \<Rightarrow> Some i
      | PolicyViolation i _ _ _ \<Rightarrow> Some i
      | ToolApprovalRequired i _ _ _ \<Rightarrow> Some i
      | ApprovalExpired i _ _ _ \<Rightarrow> Some i
      | ApprovalEscalated i _ _ _ \<Rightarrow> Some i
      | ChildWorkflowStarted i _ _ \<Rightarrow> Some i
      | ChildWorkflowCompleted i _ _ \<Rightarrow> Some i
      | ChildWorkflowFailed i _ _ \<Rightarrow> Some i
      | CoordinatorDiscovery i _ _ _ _ \<Rightarrow> Some i
      | CoordinatorScoring i _ _ _ \<Rightarrow> Some i
      | CoordinatorDecision i _ _ _ _ _ _ _ \<Rightarrow> Some i
      | AgentToolInvoked i _ _ _ _ \<Rightarrow> Some i
      | AgentToolProgress i _ _ \<Rightarrow> Some i
      | AgentToolTurn i _ _ _ _ _ \<Rightarrow> Some i
      | AgentToolCompleted i _ _ _ _ _ \<Rightarrow> Some i
      | AgentToolTerminated i _ _ _ _ \<Rightarrow> Some i
      | AgentToolFailed i _ _ _ \<Rightarrow> Some i
      | _ \<Rightarrow> None)"

text \<open>\<^verbatim>\<open>Event::new\<close>, with the fresh id and the clock as arguments.\<close>

definition event_new :: "uuid \<Rightarrow> timestamp \<Rightarrow> execution_id \<Rightarrow> event_sequence \<Rightarrow> event_kind \<Rightarrow> event" where
  "event_new i now e s k = \<lparr>ev_id = i, ev_execution_id = e, ev_sequence = s, ev_kind = k, ev_created_at = now\<rparr>"

end
