(* ===== verification/Materializer.thy ===== *)
theory Materializer
  imports Events
begin

text \<open>
  The state of a run as a fold of its event log (\<^verbatim>\<open>runtime/state/src/materializer.rs\<close>) and the
  snapshots that cut the fold short (\<^verbatim>\<open>snapshot.rs\<close>).  The interface is the locale
  \<open>sequenced_fold\<close>: a fold step that tracks the highest sequence seen.  Shown: a snapshot and the
  events after it give the state of the whole log, the merge patch has the member-wise meaning of RFC
  7396 and is idempotent, and a completed node is never forgotten.
\<close>

section \<open>The merge patch\<close>

text \<open>\<^verbatim>\<open>json_merge_patch\<close> and its loop over the members of an object patch.\<close>

function json_merge_patch :: "json \<Rightarrow> json \<Rightarrow> json"
  and merge_members :: "json_members \<Rightarrow> json_members \<Rightarrow> json_members" where
  "json_merge_patch target patch =
     (case patch of
        JObject patch_map \<Rightarrow> JObject (merge_members (case target of JObject m \<Rightarrow> m | _ \<Rightarrow> []) patch_map)
      | JNull \<Rightarrow> target
      | other \<Rightarrow> other)"
| "merge_members target_map [] = target_map"
| "merge_members target_map ((key, val) # rest) =
     merge_members
       (if is_null val then bt_remove key target_map
        else bt_insert key
               (json_merge_patch (case bt_get target_map key of Some e \<Rightarrow> e | None \<Rightarrow> JNull) val) target_map)
       rest"
  by pat_completeness auto

termination
  by (relation "measure (case_sum (\<lambda>(t, p). size p) (\<lambda>(t, ps). size_list (size_prod (\<lambda>_. 0) size) ps))") auto

section \<open>The materialized state\<close>

record materialized_state =
  ms_current_state :: json
  ms_status :: workflow_status
  ms_completed_nodes :: "string \<rightharpoonup> json"
  ms_active_nodes :: "string set"
  ms_last_sequence :: event_sequence

record snapshot =
  sn_id :: uuid
  sn_execution_id :: execution_id
  sn_at_sequence :: event_sequence
  sn_state :: json
  sn_status :: workflow_status
  sn_completed_nodes :: "string \<rightharpoonup> json"
  sn_active_nodes :: "string set"
  sn_last_sequence :: event_sequence
  sn_created_at :: timestamp

definition snapshot_new :: "uuid \<Rightarrow> timestamp \<Rightarrow> execution_id \<Rightarrow> event_sequence \<Rightarrow> json \<Rightarrow> snapshot" where
  "snapshot_new i now e at_seq state =
     \<lparr>sn_id = i, sn_execution_id = e, sn_at_sequence = at_seq, sn_state = state, sn_status = WfPending,
      sn_completed_nodes = Map.empty, sn_active_nodes = {}, sn_last_sequence = at_seq, sn_created_at = now\<rparr>"

definition seed_for_segment :: "uuid \<Rightarrow> timestamp \<Rightarrow> execution_id \<Rightarrow> json \<Rightarrow> snapshot" where
  "seed_for_segment i now e state =
     \<lparr>sn_id = i, sn_execution_id = e, sn_at_sequence = 0, sn_state = state, sn_status = WfRunning,
      sn_completed_nodes = Map.empty, sn_active_nodes = {}, sn_last_sequence = 0, sn_created_at = now\<rparr>"

definition from_materialized :: "uuid \<Rightarrow> timestamp \<Rightarrow> execution_id \<Rightarrow> materialized_state \<Rightarrow> snapshot" where
  "from_materialized i now e mat =
     \<lparr>sn_id = i, sn_execution_id = e, sn_at_sequence = ms_last_sequence mat, sn_state = ms_current_state mat,
      sn_status = ms_status mat, sn_completed_nodes = ms_completed_nodes mat,
      sn_active_nodes = ms_active_nodes mat, sn_last_sequence = ms_last_sequence mat, sn_created_at = now\<rparr>"

definition of_snapshot :: "snapshot \<Rightarrow> materialized_state" where
  "of_snapshot snap =
     \<lparr>ms_current_state = sn_state snap, ms_status = sn_status snap, ms_completed_nodes = sn_completed_nodes snap,
      ms_active_nodes = sn_active_nodes snap, ms_last_sequence = sn_last_sequence snap\<rparr>"

definition origin_state :: "json \<Rightarrow> materialized_state" where
  "origin_state input =
     \<lparr>ms_current_state = input, ms_status = WfPending, ms_completed_nodes = Map.empty,
      ms_active_nodes = {}, ms_last_sequence = 0\<rparr>"

text \<open>The body of the loop of \<^verbatim>\<open>apply_events_seeded\<close>.\<close>

definition apply_kind :: "event_kind \<Rightarrow> materialized_state \<Rightarrow> materialized_state" where
  "apply_kind kind base =
     (case kind of
        WorkflowStarted _ _ _ _ \<Rightarrow> base\<lparr>ms_status := WfRunning\<rparr>
      | WorkflowCompleted final_state \<Rightarrow> base\<lparr>ms_current_state := final_state, ms_status := WfCompleted\<rparr>
      | WorkflowFailed _ \<Rightarrow> base\<lparr>ms_status := WfFailed\<rparr>
      | WorkflowCancelled _ \<Rightarrow> base\<lparr>ms_status := WfCancelled\<rparr>
      | StrategyLimitHit _ _ _ \<Rightarrow> base\<lparr>ms_status := WfLimitExceeded\<rparr>
      | NodeScheduled i _ \<Rightarrow> base\<lparr>ms_active_nodes := insert i (ms_active_nodes base)\<rparr>
      | NodeStarted i _ _ \<Rightarrow> base\<lparr>ms_active_nodes := insert i (ms_active_nodes base)\<rparr>
      | NodeCompleted nc \<Rightarrow>
          base\<lparr>ms_active_nodes := ms_active_nodes base - {nc_node_id nc},
               ms_completed_nodes := (ms_completed_nodes base)(nc_node_id nc \<mapsto> nc_output nc),
               ms_current_state := json_merge_patch (ms_current_state base) (nc_state_patch nc)\<rparr>
      | NodeFailed i _ _ _ \<Rightarrow> base\<lparr>ms_active_nodes := ms_active_nodes base - {i}\<rparr>
      | NodeSkipped i _ \<Rightarrow> base\<lparr>ms_active_nodes := ms_active_nodes base - {i}\<rparr>
      | NodeCancelled i \<Rightarrow> base\<lparr>ms_active_nodes := ms_active_nodes base - {i}\<rparr>
      | NodeParked _ _ _ \<Rightarrow> base
      | InterruptRaised _ _ _ \<Rightarrow>
          (if ms_status base = WfRunning then base\<lparr>ms_status := WfPaused\<rparr> else base)
      | ApprovalReceived ar \<Rightarrow>
          (case ar_state_patch ar of
             Some patch \<Rightarrow> base\<lparr>ms_current_state := json_merge_patch (ms_current_state base) patch, ms_status := WfRunning\<rparr>
           | None \<Rightarrow> base\<lparr>ms_status := WfRunning\<rparr>)
      | SegmentBoundary _ _ \<Rightarrow> base
      | _ \<Rightarrow> base)"

definition apply_event :: "event \<Rightarrow> materialized_state \<Rightarrow> materialized_state" where
  "apply_event event base =
     apply_kind (ev_kind event) (base\<lparr>ms_last_sequence := max (ms_last_sequence base) (ev_sequence event)\<rparr>)"

definition apply_events_seeded :: "materialized_state \<Rightarrow> event list \<Rightarrow> materialized_state" where
  "apply_events_seeded base events = fold apply_event events base"

definition apply_events :: "json \<Rightarrow> event list \<Rightarrow> materialized_state" where
  "apply_events current_state events = apply_events_seeded (origin_state current_state) events"

definition default_snapshot_interval :: int where
  "default_snapshot_interval = 50"

definition should_snapshot :: "int \<Rightarrow> bool" where
  "should_snapshot events_since_snapshot = (events_since_snapshot \<ge> default_snapshot_interval)"

text \<open>\<^verbatim>\<open>materialize\<close> over what the backend returns: the execution's input, its latest snapshot and the
  query \<^verbatim>\<open>get_events_since\<close>.\<close>

definition materialize_from :: "json \<Rightarrow> snapshot option \<Rightarrow> (event_sequence \<Rightarrow> event list) \<Rightarrow> materialized_state" where
  "materialize_from initial_input latest since =
     (case latest of
        Some snap \<Rightarrow> apply_events_seeded (of_snapshot snap) (since (sn_at_sequence snap))
      | None \<Rightarrow> apply_events_seeded (origin_state initial_input) (since 0))"

section \<open>Folds that track the sequence\<close>

locale sequenced_fold =
  fixes step :: "'e \<Rightarrow> 's \<Rightarrow> 's"
    and seq_of :: "'e \<Rightarrow> int"
    and seen :: "'s \<Rightarrow> int"
  assumes seen_step: "seen (step e s) = max (seen s) (seq_of e)"
begin

lemma seen_fold: "seen (fold step es s) = fold (\<lambda>e m. max m (seq_of e)) es (seen s)"
  by (induction es arbitrary: s) (simp_all add: seen_step)

lemma seen_ge: "e \<in> set es \<Longrightarrow> seq_of e \<le> seen (fold step es s)" and seen_mono: "seen s \<le> seen (fold step es s)"
proof -
  show mono: "seen s \<le> seen (fold step es s)" for es s
  proof (induction es arbitrary: s)
    case (Cons e es)
    show ?case using Cons [of "step e s"] by (simp add: seen_step)
  qed simp
  show "e \<in> set es \<Longrightarrow> seq_of e \<le> seen (fold step es s)"
  proof (induction es arbitrary: s)
    case (Cons a es)
    then show ?case using mono [of "step a s" es] by (auto simp: seen_step)
  qed simp
qed

lemma seen_cases: "seen (fold step es s) = seen s \<or> (\<exists>e \<in> set es. seen (fold step es s) = seq_of e)"
proof (induction es arbitrary: s)
  case (Cons a es)
  show ?case using Cons [of "step a s"] by (auto simp: seen_step max_def split: if_splits)
qed simp

text \<open>Resuming from the state a prefix reached, with the events the query returns after the sequence it
  has seen, is the fold of the whole log.\<close>

lemma resume:
  assumes "sorted_wrt (\<lambda>a b. seq_of a < seq_of b) (pre @ post)" and "\<forall>e \<in> set post. seen s < seq_of e"
  shows "fold step (filter (\<lambda>e. seq_of e > seen (fold step pre s)) (pre @ post)) (fold step pre s)
         = fold step (pre @ post) s"
proof -
  have "filter (\<lambda>e. seq_of e > seen (fold step pre s)) pre = []"
    using seen_ge [of _ pre s] by (auto simp: filter_empty_conv not_less)
  moreover have "filter (\<lambda>e. seq_of e > seen (fold step pre s)) post = post"
    using seen_cases [of pre s] assms by (auto simp: filter_id_conv sorted_wrt_append)
  ultimately show ?thesis by simp
qed

end

lemma last_sequence_apply_kind [simp]: "ms_last_sequence (apply_kind k s) = ms_last_sequence s"
  by (cases k) (auto simp: apply_kind_def split: option.splits)

interpretation mat: sequenced_fold apply_event ev_sequence ms_last_sequence
  by unfold_locales (simp add: apply_event_def)

section \<open>Properties of the fold\<close>

lemma of_snapshot_from_materialized [simp]: "of_snapshot (from_materialized i now e mat) = mat"
  by (simp add: of_snapshot_def from_materialized_def)

lemma sn_at_from_materialized [simp]: "sn_at_sequence (from_materialized i now e mat) = ms_last_sequence mat"
  by (simp add: from_materialized_def)

text \<open>materializing from a snapshot taken at any earlier point of the log gives the state a replay of
  the whole log gives, so a snapshot loses no completed node and repeats no patch.\<close>

theorem snapshot_resume_is_replay:
  assumes "sorted_wrt (\<lambda>a b. ev_sequence a < ev_sequence b) (pre @ post)" and "\<forall>e \<in> set post. 0 < ev_sequence e"
  shows "materialize_from input (Some (from_materialized i now x (apply_events input pre)))
           (\<lambda>since. filter (\<lambda>e. ev_sequence e > since) (pre @ post))
         = apply_events input (pre @ post)"
  using mat.resume [OF assms(1), of "origin_state input"] assms(2)
  unfolding materialize_from_def apply_events_def apply_events_seeded_def option.case
    of_snapshot_from_materialized sn_at_from_materialized
  by (simp only: origin_state_def materialized_state.simps)

definition sample_completed :: "node_id \<Rightarrow> json \<Rightarrow> event_kind" where
  "sample_completed i patch = NodeCompleted \<lparr>nc_node_id = i, nc_output = JNull, nc_state_patch = patch, nc_duration_ms = 1,
     nc_gen_ai_system = None, nc_gen_ai_model = None, nc_input_tokens = None, nc_output_tokens = None,
     nc_finish_reason = None, nc_cost_usd = None, nc_provenance = None, nc_idempotency_key = None\<rparr>"

definition sample_event :: "event_sequence \<Rightarrow> event_kind \<Rightarrow> event" where
  "sample_event s k = event_new ''e'' 0 ''x'' s k"

theorem snapshot_resume_is_replay_witness:
  "materialize_from JNull (Some (from_materialized ''s'' 0 ''x'' (apply_events JNull [sample_event 1 (NodeScheduled ''a'' ''tool'')])))
     (\<lambda>since. filter (\<lambda>e. ev_sequence e > since)
        ([sample_event 1 (NodeScheduled ''a'' ''tool'')] @ [sample_event 2 (sample_completed ''a'' JNull)]))
   = apply_events JNull ([sample_event 1 (NodeScheduled ''a'' ''tool'')] @ [sample_event 2 (sample_completed ''a'' JNull)])"
  by (rule snapshot_resume_is_replay) (simp_all add: sample_event_def event_new_def)

lemma completed_apply_kind: "dom (ms_completed_nodes s) \<subseteq> dom (ms_completed_nodes (apply_kind k s))"
  by (cases k) (auto simp: apply_kind_def split: option.splits)

lemma completed_apply_event: "dom (ms_completed_nodes s) \<subseteq> dom (ms_completed_nodes (apply_event e s))"
  using completed_apply_kind [of "s\<lparr>ms_last_sequence := max (ms_last_sequence s) (ev_sequence e)\<rparr>" "ev_kind e"]
  by (simp add: apply_event_def)

section \<open>Properties of the merge patch\<close>

declare json_merge_patch.simps [simp del]

lemma merge_patch_object [simp]:
  "json_merge_patch t (JObject m) = JObject (merge_members (case t of JObject tm \<Rightarrow> tm | _ \<Rightarrow> []) m)"
  by (simp add: json_merge_patch.simps)

lemma merge_patch_other: "(\<And>m. p \<noteq> JObject m) \<Longrightarrow> json_merge_patch t p = (if p = JNull then t else p)"
  by (cases p) (auto simp: json_merge_patch.simps)

lemma merge_members_skip:
  "k \<notin> fst ` set ps \<Longrightarrow> bt_ordered t \<Longrightarrow> bt_get (merge_members t ps) k = bt_get t k"
proof (induction ps arbitrary: t)
  case (Cons p ps)
  obtain j v where p: "p = (j, v)" by (cases p)
  show ?case using Cons by (simp add: p bt_specs)
qed simp

lemma merge_members_ordered: "bt_ordered t \<Longrightarrow> bt_ordered (merge_members t ps)"
proof (induction ps arbitrary: t)
  case (Cons p ps)
  obtain j v where p: "p = (j, v)" by (cases p)
  show ?case using Cons by (simp add: p)
qed simp

text \<open>What the loop leaves under each name.\<close>

definition patched_member :: "json option \<Rightarrow> json option \<Rightarrow> json option" where
  "patched_member old change =
     (case change of
        None \<Rightarrow> old
      | Some v \<Rightarrow> if is_null v then None else Some (json_merge_patch (case old of Some e \<Rightarrow> e | None \<Rightarrow> JNull) v))"

lemma merge_members_get:
  assumes "bt_ordered ps"
  shows "bt_ordered t \<Longrightarrow> bt_get (merge_members t ps) k = patched_member (bt_get t k) (bt_get ps k)"
  using assms
proof (induction ps arbitrary: t)
  case Nil
  then show ?case by (simp add: patched_member_def)
next
  case (Cons p ps)
  obtain j v where p: "p = (j, v)" by (cases p)
  have j: "j \<notin> fst ` set ps" and ord: "bt_ordered ps" using Cons.prems by (auto simp: p)
  show ?case
  proof (cases "k = j")
    case True
    then show ?thesis using Cons.prems j by (simp add: p bt_specs merge_members_skip patched_member_def)
  next
    case False
    then show ?thesis using Cons.IH [OF _ ord] Cons.prems by (simp add: p bt_specs)
  qed
qed

definition members_of :: "json \<Rightarrow> json_members" where
  "members_of v = (case v of JObject m \<Rightarrow> m | _ \<Rightarrow> [])"

lemma members_of_wf: "json_wf v \<Longrightarrow> bt_ordered (members_of v)"
  and bt_get_members_of: "bt_get (members_of v) k = json_get v k"
  by (cases v; simp add: members_of_def json_get_def)+

text \<open>an object patch leaves under each name what RFC 7396 says: a name the patch does not mention is
  kept, a null member removes its name, any other member is merged into what was there; a patch that is
  neither an object nor null replaces the target.  A null patch is the one departure from the RFC: it
  leaves the target as it is.\<close>

theorem merge_patch_meaning:
  assumes "json_wf target" and "json_wf (JObject m)"
  shows "json_get (json_merge_patch target (JObject m)) k =
           (case bt_get m k of
              None \<Rightarrow> json_get target k
            | Some v \<Rightarrow> if v = JNull then None
                        else Some (json_merge_patch (case json_get target k of Some e \<Rightarrow> e | None \<Rightarrow> JNull) v)) \<and>
         json_merge_patch target JNull = target \<and>
         (\<forall>p. p \<noteq> JNull \<and> as_object p = None \<longrightarrow> json_merge_patch target p = p)"
proof (intro conjI)
  have ord: "bt_ordered m" using assms(2) by simp
  have null: "is_null v \<longleftrightarrow> v = JNull" for v by (simp add: is_null_def)
  show "json_get (json_merge_patch target (JObject m)) k =
           (case bt_get m k of
              None \<Rightarrow> json_get target k
            | Some v \<Rightarrow> if v = JNull then None
                        else Some (json_merge_patch (case json_get target k of Some e \<Rightarrow> e | None \<Rightarrow> JNull) v))"
    using merge_members_get [OF ord members_of_wf [OF assms(1)], of k]
    by (simp add: members_of_def [symmetric] bt_get_members_of patched_member_def null split: option.split)
  show "json_merge_patch target JNull = target" by (simp add: merge_patch_other)
  show "\<forall>p. p \<noteq> JNull \<and> as_object p = None \<longrightarrow> json_merge_patch target p = p"
  proof (intro allI impI)
    fix p assume "p \<noteq> JNull \<and> as_object p = None"
    then show "json_merge_patch target p = p" by (cases p) (simp_all add: json_merge_patch.simps)
  qed
qed

theorem merge_patch_meaning_witness:
  "json_get (json_merge_patch (json_object [(''a'', JNull), (''b'', JBool True)]) (JObject [(''b'', JNull)])) ''b'' = None"
proof -
  have wf: "json_wf (json_object [(''a'', JNull), (''b'', JBool True)])" by (rule json_wf_object) simp
  have "json_wf (JObject [(''b'', JNull)])" by simp
  from merge_patch_meaning [OF wf this, of "''b''"] show ?thesis by simp
qed

lemma merge_patch_wf: "json_wf t \<Longrightarrow> json_wf p \<Longrightarrow> json_wf (json_merge_patch t p)"
  and merge_members_wf: "json_wf (JObject tm) \<Longrightarrow> (\<forall>e \<in> set ps. json_wf (snd e)) \<Longrightarrow> json_wf (JObject (merge_members tm ps))"
proof (induction t p and tm ps rule: json_merge_patch_merge_members.induct)
  case (1 t p)
  show ?case
  proof (cases p)
    case (JObject m)
    have "json_wf (JObject (case t of JObject tm \<Rightarrow> tm | _ \<Rightarrow> []))" using 1 by (cases t) simp_all
    moreover have "\<forall>e \<in> set m. json_wf (snd e)" using 1 JObject by simp
    ultimately show ?thesis using "1.IH" [OF JObject] JObject by (simp del: json_wf.simps)
  qed (use 1 in \<open>simp_all add: merge_patch_other\<close>)
next
  case (2 tm)
  then show ?case by simp
next
  case (3 tm k v rest)
  let ?old = "case bt_get tm k of Some e \<Rightarrow> e | None \<Rightarrow> JNull"
  have "json_wf ?old" using json_wf_bt_get [OF "3.prems"(1)] by (simp split: option.split)
  then have "json_wf (JObject (if is_null v then bt_remove k tm else bt_insert k (json_merge_patch ?old v) tm))"
    using 3 json_wf_remove [OF "3.prems"(1)] json_wf_insert [OF "3.prems"(1)] by (simp del: json_wf.simps)
  then show ?case using "3.IH"(2) "3.prems"(2) by (simp del: json_wf.simps)
qed

lemma merge_patch_idem:
  "json_wf t \<Longrightarrow> json_wf p \<Longrightarrow> json_merge_patch (json_merge_patch t p) p = json_merge_patch t p"
proof (induction "size p" arbitrary: t p rule: less_induct)
  case less
  show ?case
  proof (cases "\<exists>m. p = JObject m")
    case False
    then show ?thesis by (simp add: merge_patch_other)
  next
    case True
    then obtain m where p: "p = JObject m" by blast
    let ?t = "members_of t"
    have ord: "bt_ordered m" "bt_ordered ?t" using less.prems members_of_wf p by auto
    have once: "bt_ordered (merge_members ?t m)" by (rule merge_members_ordered [OF ord(2)])
    have old: "json_wf (case bt_get ?t k of Some e \<Rightarrow> e | None \<Rightarrow> JNull)" for k
      using less.prems(1) json_wf_get [of t k] by (simp add: bt_get_members_of split: option.split)
    have mem: "patched_member (patched_member (bt_get ?t k) (bt_get m k)) (bt_get m k)
        = patched_member (bt_get ?t k) (bt_get m k)" for k
    proof (cases "bt_get m k")
      case None
      then show ?thesis by (simp add: patched_member_def)
    next
      case (Some v)
      have "size v < size p" "json_wf v"
        using Some json_size_member [OF bt_get_SomeD [OF Some]] json_wf_bt_get less.prems(2) p by auto
      then show ?thesis using less.hyps [of v] old [of k] Some by (simp add: patched_member_def)
    qed
    have "merge_members (merge_members ?t m) m = merge_members ?t m"
      by (rule bt_ext) (simp_all add: merge_members_ordered once merge_members_get [OF ord(1)] ord mem)
    then show ?thesis by (simp add: p members_of_def)
  qed
qed

text \<open>applying the same patch twice is applying it once, so a patch that is delivered again changes
  nothing, and a well-formed state stays well-formed.\<close>

theorem merge_patch_idempotent:
  assumes "json_wf target" and "json_wf patch"
  shows "json_merge_patch (json_merge_patch target patch) patch = json_merge_patch target patch \<and>
         json_wf (json_merge_patch target patch)"
  using merge_patch_idem [OF assms] merge_patch_wf [OF assms] by simp

theorem merge_patch_idempotent_witness:
  "json_merge_patch (json_merge_patch (JBool True) (JObject [(''a'', JObject [(''b'', JNull)])])) (JObject [(''a'', JObject [(''b'', JNull)])])
   = json_merge_patch (JBool True) (JObject [(''a'', JObject [(''b'', JNull)])])"
  using merge_patch_idempotent [of "JBool True" "JObject [(''a'', JObject [(''b'', JNull)])]"] by simp

lemma completed_fold: "dom (ms_completed_nodes s) \<subseteq> dom (ms_completed_nodes (fold apply_event es s))"
proof (induction es arbitrary: s)
  case (Cons e es)
  show ?case using completed_apply_event [of s e] Cons [of "apply_event e s"] by auto
qed simp

text \<open>the fold never forgets a completed node, and records the output of its last completion.\<close>

theorem completed_nodes_kept:
  assumes "ev_kind e = NodeCompleted nc"
  shows "nc_node_id nc \<in> dom (ms_completed_nodes (apply_events_seeded s (pre @ e # post))) \<and>
    ((\<forall>e' \<in> set post. \<forall>nc'. ev_kind e' = NodeCompleted nc' \<longrightarrow> nc_node_id nc' \<noteq> nc_node_id nc) \<longrightarrow>
       ms_completed_nodes (apply_events_seeded s (pre @ e # post)) (nc_node_id nc) = Some (nc_output nc))"
proof (intro conjI impI)
  let ?s = "apply_event e (fold apply_event pre s)"
  have hit: "ms_completed_nodes ?s (nc_node_id nc) = Some (nc_output nc)"
    using assms by (simp add: apply_event_def apply_kind_def)
  then show "nc_node_id nc \<in> dom (ms_completed_nodes (apply_events_seeded s (pre @ e # post)))"
    using completed_fold [of ?s post] by (auto simp: apply_events_seeded_def)
  have keep: "(\<forall>e' \<in> set post. \<forall>nc'. ev_kind e' = NodeCompleted nc' \<longrightarrow> nc_node_id nc' \<noteq> i) \<Longrightarrow>
      ms_completed_nodes (fold apply_event post t) i = ms_completed_nodes t i" for t i
  proof (induction post arbitrary: t)
    case (Cons a post)
    have "ms_completed_nodes (apply_event a t) i = ms_completed_nodes t i"
      using Cons.prems by (cases "ev_kind a") (auto simp: apply_event_def apply_kind_def split: option.splits)
    then show ?case using Cons by simp
  qed simp
  assume "\<forall>e' \<in> set post. \<forall>nc'. ev_kind e' = NodeCompleted nc' \<longrightarrow> nc_node_id nc' \<noteq> nc_node_id nc"
  from keep [OF this] show "ms_completed_nodes (apply_events_seeded s (pre @ e # post)) (nc_node_id nc) = Some (nc_output nc)"
    using hit by (simp add: apply_events_seeded_def)
qed

theorem completed_nodes_kept_witness:
  "''a'' \<in> dom (ms_completed_nodes (apply_events_seeded (origin_state JNull)
     ([] @ sample_event 1 (sample_completed ''a'' JNull) # [sample_event 2 (NodeScheduled ''a'' ''tool'')])))"
  using completed_nodes_kept [of "sample_event 1 (sample_completed ''a'' JNull)" _ "origin_state JNull" "[]"
      "[sample_event 2 (NodeScheduled ''a'' ''tool'')]"]
  by (simp add: sample_event_def event_new_def sample_completed_def)

end
