(* ===== verification/Hashing.thy ===== *)
theory Hashing
  imports Json "HOL-Library.Countable"
begin

text \<open>
  Canonical JSON and the hashes over it (\<^verbatim>\<open>runtime/state/src/hashing.rs\<close>).  The display of a JSON value
  (serde\_json), SHA-256 (sha2) and the reading and writing of times (chrono) are the fields of the record
  \<open>externals\<close>.  Shown: the canonical text determines the value, so two values with the same text are
  the same value, for every display of scalars that is self-delimiting the way JSON's is.
\<close>

record externals =
  x_display_json :: "json \<Rightarrow> string"
  x_sha256 :: "nat list \<Rightarrow> nat list"
  x_to_rfc3339 :: "int \<Rightarrow> string"
  x_parse_rfc3339 :: "string \<Rightarrow> int option"
  x_max_utc :: int

text \<open>The pieces of a list with a separator between them.\<close>

fun intercalate :: "char \<Rightarrow> string list \<Rightarrow> string" where
  "intercalate c [] = []"
| "intercalate c [s] = s"
| "intercalate c (s # t # ss) = s @ c # intercalate c (t # ss)"

lemma size_json_item: "v \<in> set xs \<Longrightarrow> size v < Suc (size_list size xs)"
  by (induction xs) auto

function (sequential) canonical_json :: "externals \<Rightarrow> json \<Rightarrow> string" where
  "canonical_json x (JObject m) =
     ''{'' @ intercalate CHR '','' (map (\<lambda>(k, v). x_display_json x (JString k) @ '':'' @ canonical_json x v) (sort_key fst m)) @ ''}''"
| "canonical_json x (JArray items) = ''['' @ intercalate CHR '','' (map (canonical_json x) items) @ '']''"
| "canonical_json x other = x_display_json x other"
  by pat_completeness auto

termination
  by (relation "measure (\<lambda>(x, v). size v)") (auto simp: size_json_item dest: json_size_member)

text \<open>The UTF-8 bytes of a string of code points below 256, and the two lowercase hex digits of a byte.\<close>

definition utf8_char :: "char \<Rightarrow> nat list" where
  "utf8_char c = (let n = of_char c in if n < 128 then [n] else [192 + n div 64, 128 + n mod 64])"

definition utf8 :: "string \<Rightarrow> nat list" where
  "utf8 s = concat (map utf8_char s)"

definition hex_digit :: "nat \<Rightarrow> char" where
  "hex_digit n = ''0123456789abcdef'' ! n"

definition hex_byte :: "nat \<Rightarrow> string" where
  "hex_byte b = [hex_digit (b div 16), hex_digit (b mod 16)]"

definition sha256_hex :: "externals \<Rightarrow> nat list \<Rightarrow> string" where
  "sha256_hex x bytes = concat (map hex_byte (x_sha256 x bytes))"

definition content_hash :: "externals \<Rightarrow> json \<Rightarrow> string" where
  "content_hash x v = sha256_hex x (utf8 (canonical_json x v))"

definition json_nat :: "nat \<Rightarrow> json" where
  "json_nat n = JNumber (PosInt n)"

definition idempotency_key :: "externals \<Rightarrow> string \<Rightarrow> nat \<Rightarrow> nat \<Rightarrow> string \<Rightarrow> string \<Rightarrow> string" where
  "idempotency_key x run segment step node input_hash =
     content_hash x (json_object
       [(''run'', JString run), (''segment'', json_nat segment), (''step'', json_nat step),
        (''node'', JString node), (''input'', JString input_hash)])"

section \<open>The canonical text determines the value\<close>

definition is_scalar :: "json \<Rightarrow> bool" where
  "is_scalar v = (as_object v = None \<and> as_array v = None)"

definition delimiters :: "char set" where
  "delimiters = {CHR '','', CHR '':'', CHR '']'', CHR ''}''}"

definition delimited :: "string \<Rightarrow> bool" where
  "delimited r = (r = [] \<or> hd r \<in> delimiters)"

text \<open>What the display of scalars promises: it is not empty, does not open a composite value or start
  with a delimiter, and is determined by any text that goes on with a delimiter.\<close>

definition self_delimiting :: "externals \<Rightarrow> bool" where
  "self_delimiting x =
     ((\<forall>v. is_scalar v \<longrightarrow> x_display_json x v \<noteq> [] \<and>
         hd (x_display_json x v) \<notin> delimiters \<union> {CHR ''['', CHR ''{''}) \<and>
      (\<forall>v w r s. is_scalar v \<longrightarrow> is_scalar w \<longrightarrow> delimited r \<longrightarrow> delimited s \<longrightarrow>
         x_display_json x v @ r = x_display_json x w @ s \<longrightarrow> v = w))"

lemma scalar_head: "self_delimiting x \<Longrightarrow> is_scalar v \<Longrightarrow>
    x_display_json x v \<noteq> [] \<and> hd (x_display_json x v) \<notin> delimiters \<union> {CHR ''['', CHR ''{''}"
  by (simp add: self_delimiting_def)

lemma scalar_cancel:
  "self_delimiting x \<Longrightarrow> is_scalar v \<Longrightarrow> is_scalar w \<Longrightarrow> delimited r \<Longrightarrow> delimited s \<Longrightarrow>
   x_display_json x v @ r = x_display_json x w @ s \<Longrightarrow> v = w \<and> r = s"
  unfolding self_delimiting_def by (metis same_append_eq)

lemma canonical_scalar: "is_scalar v \<Longrightarrow> canonical_json x v = x_display_json x v"
  by (cases v) (simp_all add: is_scalar_def)

lemma canonical_head:
  "self_delimiting x \<Longrightarrow> canonical_json x v \<noteq> [] \<and> hd (canonical_json x v) \<notin> delimiters"
  using scalar_head [of x v] by (cases v) (auto simp: is_scalar_def delimiters_def)

definition cancels :: "('a \<Rightarrow> string) \<Rightarrow> 'a \<Rightarrow> 'a \<Rightarrow> bool" where
  "cancels f a b = (\<forall>r s. delimited r \<longrightarrow> delimited s \<longrightarrow> f a @ r = f b @ s \<longrightarrow> a = b \<and> r = s)"

lemma cancelsD: "cancels f a b \<Longrightarrow> delimited r \<Longrightarrow> delimited s \<Longrightarrow> f a @ r = f b @ s \<Longrightarrow> a = b \<and> r = s"
  by (simp add: cancels_def)

lemma intercalate_Cons: "intercalate c (s # ss) = s @ (if ss = [] then [] else c # intercalate c ss)"
  by (cases ss) simp_all

lemma intercalate_cancel:
  assumes "\<forall>a \<in> set xs. \<forall>b \<in> set ys. cancels f a b"
    and "\<forall>a \<in> set xs \<union> set ys. f a \<noteq> [] \<and> hd (f a) \<notin> delimiters"
    and "c \<in> {CHR '']'', CHR ''}''}"
    and "intercalate CHR '','' (map f xs) @ c # r = intercalate CHR '','' (map f ys) @ c # s"
  shows "xs = ys \<and> r = s"
  using assms
proof (induction xs arbitrary: ys)
  case Nil
  show ?case
  proof (cases ys)
    case (Cons b ys')
    then have "f b \<noteq> []" "hd (f b) \<notin> delimiters" using Nil.prems(2) by auto
    moreover have "c # r = f b @ (if ys' = [] then [] else CHR '','' # intercalate CHR '','' (map f ys')) @ c # s"
      using Nil.prems(4) Cons by (simp add: intercalate_Cons)
    ultimately have "c \<notin> delimiters" by (metis append_Cons hd_Cons_tl list.sel(1))
    then show ?thesis using Nil.prems(3) by (auto simp: delimiters_def)
  qed (use Nil.prems in simp)
next
  case (Cons a xs)
  show ?case
  proof (cases ys)
    case Nil
    have "f a \<noteq> []" "hd (f a) \<notin> delimiters" using Cons.prems(2) by auto
    moreover have "c # s = f a @ (if xs = [] then [] else CHR '','' # intercalate CHR '','' (map f xs)) @ c # r"
      using Cons.prems(4) Nil by (simp add: intercalate_Cons)
    ultimately have "c \<notin> delimiters" by (metis append_Cons hd_Cons_tl list.sel(1))
    then show ?thesis using Cons.prems(3) by (auto simp: delimiters_def)
  next
    case ys: (Cons b ys')
    let ?ta = "(if xs = [] then [] else CHR '','' # intercalate CHR '','' (map f xs)) @ c # r"
    let ?tb = "(if ys' = [] then [] else CHR '','' # intercalate CHR '','' (map f ys')) @ c # s"
    have eq: "f a @ ?ta = f b @ ?tb" using Cons.prems(4) ys by (simp add: intercalate_Cons)
    have "delimited ?ta" "delimited ?tb" using Cons.prems(3) by (auto simp: delimited_def delimiters_def)
    moreover have "cancels f a b" using Cons.prems(1) ys by simp
    ultimately have ab: "a = b" and tails: "?ta = ?tb" using cancelsD [of f a b ?ta ?tb] eq by blast+
    have "intercalate CHR '','' (map f xs) @ c # r = intercalate CHR '','' (map f ys') @ c # s"
      using tails Cons.prems(3) by (auto split: if_splits)
    then have "xs = ys' \<and> r = s" using Cons.IH [of ys'] Cons.prems ys by auto
    then show ?thesis using ab ys by simp
  qed
qed

lemma delimited_Cons [simp]: "delimited (c # r) \<longleftrightarrow> c \<in> delimiters"
  by (simp add: delimited_def)

lemma sort_key_ordered: "bt_ordered m \<Longrightarrow> sort_key fst m = m"
  by (rule sort_key_id_if_sorted) (auto simp: bt_ordered_def intro: sorted_wrt_mono_rel [of _ "(<)"])

text \<open>The text of one member of an object.\<close>

definition member_text :: "externals \<Rightarrow> string \<times> json \<Rightarrow> string" where
  "member_text x e = x_display_json x (JString (fst e)) @ '':'' @ canonical_json x (snd e)"

lemma canonical_object:
  "bt_ordered m \<Longrightarrow> canonical_json x (JObject m) = CHR ''{'' # intercalate CHR '','' (map (member_text x) m) @ ''}''"
  by (simp add: sort_key_ordered member_text_def [abs_def] case_prod_beta')

lemma member_cancels:
  assumes "self_delimiting x" and "cancels (canonical_json x) (snd e) (snd d)"
  shows "cancels (member_text x) e d"
  unfolding cancels_def
proof (intro allI impI)
  fix r s assume r: "delimited r" "delimited s" and "member_text x e @ r = member_text x d @ s"
  then have eq: "x_display_json x (JString (fst e)) @ CHR '':'' # canonical_json x (snd e) @ r =
      x_display_json x (JString (fst d)) @ CHR '':'' # canonical_json x (snd d) @ s"
    by (simp add: member_text_def)
  have "JString (fst e) = JString (fst d) \<and>
      CHR '':'' # canonical_json x (snd e) @ r = CHR '':'' # canonical_json x (snd d) @ s"
    by (rule scalar_cancel [OF assms(1) _ _ _ _ eq]) (simp_all add: is_scalar_def delimiters_def)
  then show "e = d \<and> r = s"
    using cancelsD [OF assms(2) r] by (auto simp: prod_eq_iff)
qed

lemma member_head: "self_delimiting x \<Longrightarrow> member_text x e \<noteq> [] \<and> hd (member_text x e) \<notin> delimiters"
  using scalar_head [of x "JString (fst e)"] by (auto simp: member_text_def is_scalar_def)

lemma not_scalar_cases: "\<not> is_scalar v \<Longrightarrow> (\<exists>m. v = JObject m) \<or> (\<exists>xs. v = JArray xs)"
  by (cases v) (auto simp: is_scalar_def)

lemma canonical_kind:
  assumes "self_delimiting x" and "canonical_json x v @ r = canonical_json x w @ s"
  shows "is_scalar v = is_scalar w" and "(\<exists>m. v = JObject m) \<longleftrightarrow> (\<exists>m. w = JObject m)"
proof -
  have hd_eq: "hd (canonical_json x v) = hd (canonical_json x w)"
    using assms canonical_head [OF assms(1)] by (metis hd_append2)
  have kind: "(hd (canonical_json x u) = CHR ''{'' \<longleftrightarrow> (\<exists>m. u = JObject m)) \<and>
      (hd (canonical_json x u) = CHR ''['' \<longleftrightarrow> (\<exists>xs. u = JArray xs))" for u
    using scalar_head [OF assms(1), of u] by (cases u) (auto simp: is_scalar_def)
  show "(\<exists>m. v = JObject m) \<longleftrightarrow> (\<exists>m. w = JObject m)" using kind [of v] kind [of w] hd_eq by auto
  have "is_scalar u \<longleftrightarrow> \<not> (\<exists>m. u = JObject m) \<and> \<not> (\<exists>xs. u = JArray xs)" for u
    by (cases u) (auto simp: is_scalar_def)
  then show "is_scalar v = is_scalar w" using kind [of v] kind [of w] hd_eq by auto
qed

lemma canonical_cancels:
  assumes "self_delimiting x"
  shows "json_wf v \<Longrightarrow> json_wf w \<Longrightarrow> cancels (canonical_json x) v w"
proof (induction "size v" arbitrary: v w rule: less_induct)
  case less
  note heads = canonical_head [OF assms]
  show ?case
    unfolding cancels_def
  proof (intro allI impI)
    fix r s assume d: "delimited r" "delimited s" and eq: "canonical_json x v @ r = canonical_json x w @ s"
    consider "is_scalar v" | xs where "v = JArray xs" | m where "v = JObject m" using not_scalar_cases by blast
    then show "v = w \<and> r = s"
    proof cases
      case 1
      moreover have "is_scalar w" using 1 canonical_kind(1) [OF assms eq] by simp
      ultimately show ?thesis using scalar_cancel [OF assms _ _ d] eq by (simp add: canonical_scalar)
    next
      case (2 xs)
      then have "\<not> is_scalar w" "\<nexists>m. w = JObject m"
        using canonical_kind [OF assms eq] by (auto simp: is_scalar_def)
      then obtain ys where w: "w = JArray ys" using not_scalar_cases by blast
      have "cancels (canonical_json x) a b" if "a \<in> set xs" "b \<in> set ys" for a b
        using less.hyps [of a b] less.prems that size_json_item [of a xs] by (simp add: 2 w)
      then show ?thesis
        using intercalate_cancel [of xs ys "canonical_json x" "CHR '']''" r s] heads eq by (simp add: 2 w)
    next
      case (3 m)
      then obtain n where w: "w = JObject n" using canonical_kind(2) [OF assms eq] by auto
      have ord: "bt_ordered m" "bt_ordered n" using less.prems by (simp_all add: 3 w)
      have "cancels (member_text x) a b" if "a \<in> set m" "b \<in> set n" for a b
      proof (rule member_cancels [OF assms])
        have "size (snd a) < size v" using json_size_member [of "fst a" "snd a" m] that 3 by simp
        then show "cancels (canonical_json x) (snd a) (snd b)" using less that by (simp add: 3 w)
      qed
      moreover have "intercalate CHR '','' (map (member_text x) m) @ CHR ''}'' # r =
          intercalate CHR '','' (map (member_text x) n) @ CHR ''}'' # s"
        using eq by (simp add: 3 w canonical_object ord del: canonical_json.simps)
      ultimately show ?thesis
        using intercalate_cancel [of m n "member_text x" "CHR ''}''" r s] member_head [OF assms] by (simp add: 3 w)
    qed
  qed
qed

lemma canonical_json_inj:
  assumes "self_delimiting x" "json_wf v" "json_wf w" "canonical_json x v = canonical_json x w"
  shows "v = w"
  using cancelsD [OF canonical_cancels [OF assms(1-3)], of "[]" "[]"] assms(4) by (simp add: delimited_def)

section \<open>What a hash identifies\<close>

definition byte_valued :: "externals \<Rightarrow> bool" where
  "byte_valued x = (\<forall>bytes. \<forall>b \<in> set (x_sha256 x bytes). b < 256)"

text \<open>Two texts SHA-256 does not confuse.\<close>

definition distinct_digests :: "externals \<Rightarrow> string \<Rightarrow> string \<Rightarrow> bool" where
  "distinct_digests x a b = (x_sha256 x (utf8 a) = x_sha256 x (utf8 b) \<longrightarrow> utf8 a = utf8 b)"

lemma hex_digit_inj: "i < 16 \<Longrightarrow> j < 16 \<Longrightarrow> hex_digit i = hex_digit j \<Longrightarrow> i = j"
proof -
  have d: "distinct ''0123456789abcdef''" by simp
  show "i < 16 \<Longrightarrow> j < 16 \<Longrightarrow> hex_digit i = hex_digit j \<Longrightarrow> i = j"
    using nth_eq_iff_index_eq [OF d, of i j] by (simp add: hex_digit_def)
qed

lemma hex_byte_inj: "b < 256 \<Longrightarrow> c < 256 \<Longrightarrow> hex_byte b = hex_byte c \<Longrightarrow> b = c"
proof -
  assume "b < 256" "c < 256" and "hex_byte b = hex_byte c"
  then have "b div 16 = c div 16" "b mod 16 = c mod 16"
    using hex_digit_inj by (simp_all add: hex_byte_def)
  then show "b = c" by (metis div_mult_mod_eq)
qed

lemma hex_inj:
  "\<forall>b \<in> set bs. b < 256 \<Longrightarrow> \<forall>c \<in> set cs. c < 256 \<Longrightarrow>
   concat (map hex_byte bs) = concat (map hex_byte cs) \<Longrightarrow> bs = cs"
proof (induction bs arbitrary: cs)
  case Nil
  then show ?case by (cases cs) (auto simp: hex_byte_def)
next
  case (Cons b bs)
  then obtain c cs' where cs: "cs = c # cs'" by (cases cs) (auto simp: hex_byte_def)
  have "hex_byte b = hex_byte c" "concat (map hex_byte bs) = concat (map hex_byte cs')"
    using Cons.prems(3) by (simp_all add: cs hex_byte_def [of b] hex_byte_def [of c])
  moreover have "b < 256" "c < 256" "\<forall>b \<in> set bs. b < 256" "\<forall>c \<in> set cs'. c < 256" using Cons.prems(1,2) by (simp_all add: cs)
  ultimately have "b = c" "bs = cs'" using Cons.IH hex_byte_inj by blast+
  then show ?case by (simp add: cs)
qed

lemma utf8_inj: "utf8 s = utf8 t \<Longrightarrow> s = t"
proof (induction s arbitrary: t)
  case Nil
  then show ?case by (cases t) (auto simp: utf8_def utf8_char_def Let_def split: if_splits)
next
  case (Cons c s)
  obtain d t' where t: "t = d # t'" using Cons.prems by (cases t) (auto simp: utf8_def utf8_char_def Let_def split: if_splits)
  have lt: "(of_char c :: nat) < 256" "(of_char d :: nat) < 256" by simp_all
  have eq: "utf8_char c @ utf8 s = utf8_char d @ utf8 t'" using Cons.prems by (simp add: t utf8_def)
  have split: "(of_char c :: nat) div 64 = of_char d div 64 \<Longrightarrow> (of_char c :: nat) mod 64 = of_char d mod 64 \<Longrightarrow> c = d"
    by (metis div_mult_mod_eq of_char_eq_iff)
  have "c = d \<and> utf8 s = utf8 t'"
    using eq lt split by (auto simp: utf8_char_def Let_def split: if_splits)
  then show ?case using Cons.IH [of t'] by (simp add: t)
qed

lemma content_hash_inj:
  assumes "self_delimiting x" "byte_valued x" "json_wf v" "json_wf w"
    and "distinct_digests x (canonical_json x v) (canonical_json x w)"
    and "content_hash x v = content_hash x w"
  shows "v = w"
proof -
  have "x_sha256 x (utf8 (canonical_json x v)) = x_sha256 x (utf8 (canonical_json x w))"
    using assms(2,6) by (intro hex_inj) (simp_all add: byte_valued_def content_hash_def sha256_hex_def)
  then have "canonical_json x v = canonical_json x w"
    using assms(5) utf8_inj by (simp add: distinct_digests_def)
  then show ?thesis using canonical_json_inj assms(1,3,4) by blast
qed

lemma json_get_object:
  "json_get (json_object es) k = map_of (rev es) k"
proof -
  have "bt_get (fold (\<lambda>(k, v). bt_insert k v) es m) k = (case map_of (rev es) k of Some v \<Rightarrow> Some v | None \<Rightarrow> bt_get m k)" for m
  proof (induction es arbitrary: m)
    case (Cons e es)
    obtain j v where e: "e = (j, v)" by (cases e)
    show ?case using Cons [of "bt_insert j v m"]
      by (auto simp: e bt_get_insert map_add_def split: option.split)
  qed simp
  then show ?thesis by (simp add: json_object_def split: option.split)
qed

lemma json_wf_nat [simp]: "json_wf (json_nat n) \<longleftrightarrow> n < 2 ^ 64"
  by (simp add: json_nat_def)

text \<open>The value an idempotency key hashes.\<close>

definition key_value :: "string \<Rightarrow> nat \<Rightarrow> nat \<Rightarrow> string \<Rightarrow> string \<Rightarrow> json" where
  "key_value run segment step node input_hash = json_object
     [(''run'', JString run), (''segment'', json_nat segment), (''step'', json_nat step),
      (''node'', JString node), (''input'', JString input_hash)]"

lemma key_value_inj:
  "key_value r g t n i = key_value r' g' t' n' i' \<Longrightarrow> r = r' \<and> g = g' \<and> t = t' \<and> n = n' \<and> i = i'"
proof -
  assume eq: "key_value r g t n i = key_value r' g' t' n' i'"
  have "json_get (key_value r g t n i) k = json_get (key_value r' g' t' n' i') k" for k by (simp add: eq)
  from this [of "''run''"] this [of "''segment''"] this [of "''step''"] this [of "''node''"] this [of "''input''"]
  show ?thesis unfolding key_value_def json_get_object by (simp add: json_nat_def)
qed

text \<open>an idempotency key identifies one occurrence of one node: two keys are equal only if run,
  segment, step, node and input hash all are, for a display of scalars that is self-delimiting and a
  SHA-256 that does not confuse the two texts.\<close>

theorem idempotency_key_identifies:
  assumes "self_delimiting x" and "byte_valued x"
    and "segment < 2 ^ 64" "step < 2 ^ 64" "segment' < 2 ^ 64" "step' < 2 ^ 64"
    and "distinct_digests x (canonical_json x (key_value run segment step node input))
           (canonical_json x (key_value run' segment' step' node' input'))"
    and "idempotency_key x run segment step node input = idempotency_key x run' segment' step' node' input'"
  shows "run = run' \<and> segment = segment' \<and> step = step' \<and> node = node' \<and> input = input'"
proof -
  have wf: "json_wf (key_value r g t n i)" if "g < 2 ^ 64" "t < 2 ^ 64" for r g t n i
    unfolding key_value_def using that by (intro json_wf_object) simp
  show ?thesis
    using content_hash_inj [OF assms(1,2) wf wf assms(7)] assms(3-6,8) key_value_inj
    by (fastforce simp: idempotency_key_def key_value_def)
qed

text \<open>A display and a digest that keep the promises.\<close>

fun scalar_code :: "json \<Rightarrow> nat" where
  "scalar_code JNull = prod_encode (0, 0)"
| "scalar_code (JBool b) = prod_encode (1, if b then 1 else 0)"
| "scalar_code (JString s) = prod_encode (2, list_encode (map of_char s))"
| "scalar_code (JNumber (PosInt n)) = prod_encode (3, n)"
| "scalar_code (JNumber (NegInt i)) = prod_encode (4, int_encode i)"
| "scalar_code (JNumber (Float NaN)) = prod_encode (5, 0)"
| "scalar_code (JNumber (Float (Infinite b))) = prod_encode (6, if b then 1 else 0)"
| "scalar_code (JNumber (Float (Finite r))) =
     prod_encode (7, prod_encode (int_encode (fst (quotient_of r)), int_encode (snd (quotient_of r))))"
| "scalar_code _ = 0"

definition sample_externals :: externals where
  "sample_externals = \<lparr>x_display_json = (\<lambda>v. CHR ''#'' # replicate (scalar_code v) CHR ''1''),
     x_sha256 = map (\<lambda>b. b mod 256), x_to_rfc3339 = (\<lambda>t. if t < 0 then CHR ''-'' # replicate (nat (- t)) CHR ''1'' else replicate (nat t) CHR ''1''),
     x_parse_rfc3339 = (\<lambda>s. Some (case s of [] \<Rightarrow> 0 | c # r \<Rightarrow> if c = CHR ''-'' then - int (length r) else int (length s))),
     x_max_utc = 2 ^ 53\<rparr>"

lemma scalar_code_inj: "is_scalar v \<Longrightarrow> is_scalar w \<Longrightarrow> scalar_code v = scalar_code w \<Longrightarrow> v = w"
proof -
  have q: "fst (quotient_of r) = fst (quotient_of s) \<Longrightarrow> snd (quotient_of r) = snd (quotient_of s) \<Longrightarrow> r = s" for r s
    by (metis prod_eq_iff quotient_of_inject)
  have m: "map of_char s = (map of_char t :: nat list) \<Longrightarrow> s = t" for s t by (simp add: inj_map_eq_map inj_def)
  show "is_scalar v \<Longrightarrow> is_scalar w \<Longrightarrow> scalar_code v = scalar_code w \<Longrightarrow> v = w"
    by (cases v rule: scalar_code.cases; cases w rule: scalar_code.cases)
      (auto simp: is_scalar_def list_encode_eq inj_eq [OF inj_int_encode] intro: q m split: if_splits)
qed

lemma replicate_cancel:
  "delimited r \<Longrightarrow> delimited s \<Longrightarrow> replicate n CHR ''1'' @ r = replicate m CHR ''1'' @ s \<Longrightarrow> n = m"
proof (induction n arbitrary: m)
  case 0
  then show ?case by (cases m) (auto simp: delimited_def delimiters_def)
next
  case (Suc n)
  then show ?case by (cases m) (auto simp: delimited_def delimiters_def)
qed

lemma sample_externals_ok: "self_delimiting sample_externals" "byte_valued sample_externals"
proof -
  have "v = w" if "is_scalar v" "is_scalar w" "delimited r" "delimited s"
    "replicate (scalar_code v) CHR ''1'' @ r = replicate (scalar_code w) CHR ''1'' @ s" for v w r s
    using scalar_code_inj replicate_cancel that by blast
  then show "self_delimiting sample_externals"
    unfolding self_delimiting_def by (auto simp: sample_externals_def delimiters_def)
  show "byte_valued sample_externals" by (auto simp: byte_valued_def sample_externals_def)
qed

lemma utf8_bytes: "b \<in> set (utf8 s) \<Longrightarrow> b < 256"
proof -
  have "b < 256" if "b \<in> set (utf8_char c)" for b c
  proof -
    have "(of_char c :: nat) < 256" by simp
    then have "(of_char c :: nat) < 64 * 64" by linarith
    then have "(of_char c :: nat) div 64 < 64" by (rule less_mult_imp_div_less)
    then show ?thesis using that by (auto simp: utf8_char_def Let_def split: if_splits)
  qed
  then show "b \<in> set (utf8 s) \<Longrightarrow> b < 256" by (auto simp: utf8_def)
qed

lemma sample_distinct: "distinct_digests sample_externals a b"
proof -
  have "map (\<lambda>b. b mod 256) (utf8 s) = utf8 s" for s by (rule map_idI) (simp add: utf8_bytes)
  then show ?thesis by (simp add: distinct_digests_def sample_externals_def)
qed

theorem idempotency_key_identifies_witness:
  "idempotency_key sample_externals ''r'' 0 1 ''n'' ''h'' \<noteq> idempotency_key sample_externals ''r'' 0 2 ''n'' ''h''"
  using idempotency_key_identifies [OF sample_externals_ok, of 0 1 0 2 "''r''" "''n''" "''h''" "''r''" "''n''" "''h''"] sample_distinct
  by auto

end
