(* ===== verification/Approvals.thy ===== *)
theory Approvals
  imports Materializer Hashing
begin

text \<open>
  Approval state as a fold of the event log (\<^verbatim>\<open>runtime/state/src/approvals.rs\<close>): the status of one
  node, the pending requests of a run, deadlines and what a deadline sweep records, the part of a
  payload an approval binds.  Shown: the two
  folds agree, an approval is always a decision on the latest request of its node, a log with an event
  this build cannot read approves nothing, a request is resolved once, and a decision is never accepted
  once its deadline has passed.
\<close>

section \<open>Requests and deadlines\<close>

record pending_approval =
  pa_node_id :: node_id
  pa_tool_name :: string
  pa_approver :: string
  pa_context :: json
  pa_sequence :: event_sequence
  pa_expires_at :: "string option"
  pa_escalate_at :: "string option"

definition expires_at_key :: string where "expires_at_key = ''expires_at''"

definition escalate_at_key :: string where "escalate_at_key = ''escalate_at''"

definition action_digest_key :: string where "action_digest_key = ''action_digest''"

definition calls_hash_key :: string where "calls_hash_key = ''calls_hash''"

definition from_request :: "externals \<Rightarrow> node_id \<Rightarrow> string \<Rightarrow> string \<Rightarrow> json \<Rightarrow> event_sequence \<Rightarrow> pending_approval" where
  "from_request x node tool approver context sequence =
     (let shown = (\<lambda>key. map_option (\<lambda>v. case as_str v of Some s \<Rightarrow> s | None \<Rightarrow> x_display_json x v) (json_get context key))
      in \<lparr>pa_node_id = node, pa_tool_name = tool, pa_approver = approver, pa_context = context,
          pa_sequence = sequence, pa_expires_at = shown expires_at_key, pa_escalate_at = shown escalate_at_key\<rparr>)"

definition request_digest :: "pending_approval \<Rightarrow> string option" where
  "request_digest p = Option.bind (json_get (pa_context p) action_digest_key) as_str"

definition request_binding :: "pending_approval \<Rightarrow> string option" where
  "request_binding p =
     (case request_digest p of Some d \<Rightarrow> Some d | None \<Rightarrow> Option.bind (json_get (pa_context p) calls_hash_key) as_str)"

datatype deadline_time = Unset | At timestamp | Unreadable

definition read_deadline :: "externals \<Rightarrow> json \<Rightarrow> string \<Rightarrow> deadline_time" where
  "read_deadline x context key =
     (case json_get context key of
        None \<Rightarrow> Unset
      | Some v \<Rightarrow> (case Option.bind (as_str v) (x_parse_rfc3339 x) of Some t \<Rightarrow> At t | None \<Rightarrow> Unreadable))"

fun passed :: "deadline_time \<Rightarrow> timestamp \<Rightarrow> bool" where
  "passed Unset now = False"
| "passed (At t) now = (now \<ge> t)"
| "passed Unreadable now = True"

record request_deadline =
  rd_expires_at :: deadline_time
  rd_escalate_at :: deadline_time

definition deadline_of :: "externals \<Rightarrow> json \<Rightarrow> request_deadline" where
  "deadline_of x context =
     \<lparr>rd_expires_at = read_deadline x context expires_at_key, rd_escalate_at = read_deadline x context escalate_at_key\<rparr>"

definition expired :: "request_deadline \<Rightarrow> timestamp \<Rightarrow> bool" where
  "expired d now = passed (rd_expires_at d) now"

definition request_deadline :: "externals \<Rightarrow> pending_approval \<Rightarrow> request_deadline" where
  "request_deadline x p = deadline_of x (pa_context p)"

text \<open>\<^verbatim>\<open>stamp_deadline\<close>: \<^verbatim>\<open>i64::try_from\<close>, \<^verbatim>\<open>Duration::try_seconds\<close> (the seconds must fit an \<^verbatim>\<open>i64\<close> of
  milliseconds) and \<^verbatim>\<open>checked_add_signed\<close>, each of which refuses.\<close>

definition after_secs :: "externals \<Rightarrow> timestamp \<Rightarrow> nat \<Rightarrow> string + timestamp" where
  "after_secs x now secs =
     (if int secs \<le> (2 ^ 63 - 1) div 1000 \<and> now + int secs * 1000 \<le> x_max_utc x
      then Inr (now + int secs * 1000)
      else Inl ''approval deadline cannot be represented'')"

definition stamp_deadline :: "externals \<Rightarrow> json_members \<Rightarrow> approval_deadline \<Rightarrow> timestamp \<Rightarrow> string + json_members" where
  "stamp_deadline x context deadline now =
     and_then (after_secs x now (ad_timeout_secs deadline)) (\<lambda>expires_at.
       let context = bt_insert expires_at_key (JString (x_to_rfc3339 x expires_at)) context
       in (case ad_escalate_after_secs deadline of
             None \<Rightarrow> Inr context
           | Some secs \<Rightarrow>
               and_then (after_secs x now secs) (\<lambda>escalate_at.
                 Inr (bt_insert escalate_at_key (JString (x_to_rfc3339 x escalate_at)) context))))"

section \<open>The status of a node\<close>

datatype node_approval_status =
    NotRequested
  | Pending pending_approval
  | NodeApproved string event_sequence "string option"
  | NodeRejected string "string option" event_sequence
  | Indeterminate

definition expiry_comment :: "externals \<Rightarrow> timestamp \<Rightarrow> string" where
  "expiry_comment x expires_at = ''approval request expired undecided at its deadline '' @ x_to_rfc3339 x expires_at"

text \<open>One step of the fold of \<^verbatim>\<open>node_approval_status\<close> for a readable event.\<close>

definition status_step :: "externals \<Rightarrow> node_id \<Rightarrow> event \<Rightarrow> node_approval_status \<Rightarrow> node_approval_status" where
  "status_step x node event status =
     (case ev_kind event of
        ToolApprovalRequired n tool approver context \<Rightarrow>
          if n = node then Pending (from_request x n tool approver context (ev_sequence event)) else status
      | ApprovalReceived ar \<Rightarrow>
          if ar_node_id ar = node
          then (case status of
                  Pending _ \<Rightarrow>
                    (case ar_decision ar of
                       Approved \<Rightarrow> NodeApproved (ar_user_id ar) (ev_sequence event) (ar_approved_digest ar)
                     | Rejected \<Rightarrow> NodeRejected (ar_user_id ar) (ar_comment ar) (ev_sequence event))
                | _ \<Rightarrow> status)
          else status
      | ApprovalExpired n request_sequence expires_at _ \<Rightarrow>
          if n = node
          then (case status of
                  Pending p \<Rightarrow>
                    if pa_sequence p = request_sequence
                    then NodeRejected deadline_principal (Some (expiry_comment x expires_at)) (ev_sequence event)
                    else status
                | _ \<Rightarrow> status)
          else status
      | _ \<Rightarrow> status)"

definition has_unreadable_events :: "event list \<Rightarrow> bool" where
  "has_unreadable_events events = list_ex (\<lambda>e. case ev_kind e of Unknown \<Rightarrow> True | _ \<Rightarrow> False) events"

definition node_approval_status :: "externals \<Rightarrow> event list \<Rightarrow> node_id \<Rightarrow> node_approval_status" where
  "node_approval_status x events node =
     (if has_unreadable_events events then Indeterminate else fold (status_step x node) events NotRequested)"

definition request_of :: "externals \<Rightarrow> node_id \<Rightarrow> event \<Rightarrow> pending_approval option" where
  "request_of x node e =
     (case ev_kind e of
        ToolApprovalRequired n tool approver context \<Rightarrow>
          if n = node then Some (from_request x n tool approver context (ev_sequence e)) else None
      | _ \<Rightarrow> None)"

fun find_map :: "('a \<Rightarrow> 'b option) \<Rightarrow> 'a list \<Rightarrow> 'b option" where
  "find_map f [] = None"
| "find_map f (y # ys) = (case f y of Some z \<Rightarrow> Some z | None \<Rightarrow> find_map f ys)"

definition answered_request :: "externals \<Rightarrow> event list \<Rightarrow> node_id \<Rightarrow> pending_approval option" where
  "answered_request x events node =
     (case node_approval_status x events node of
        NodeApproved _ _ _ \<Rightarrow> find_map (request_of x node) (rev events)
      | NodeRejected _ _ _ \<Rightarrow> find_map (request_of x node) (rev events)
      | _ \<Rightarrow> None)"

fun approval_covers :: "node_approval_status \<Rightarrow> string \<Rightarrow> bool" where
  "approval_covers (NodeApproved _ _ (Some d)) current = (d = current)"
| "approval_covers _ current = False"

definition run_initiator :: "event list \<Rightarrow> string option" where
  "run_initiator events =
     Option.bind (find_map (\<lambda>e. case ev_kind e of WorkflowStarted _ _ _ by \<Rightarrow> Some by | _ \<Rightarrow> None) events) (\<lambda>by. by)"

section \<open>The pending requests of a run\<close>

definition pending_step :: "externals \<Rightarrow> event \<Rightarrow> (node_id \<times> pending_approval option) list \<Rightarrow> (node_id \<times> pending_approval option) list" where
  "pending_step x event by_node =
     (case ev_kind event of
        ToolApprovalRequired n tool approver context \<Rightarrow>
          bt_insert n (Some (from_request x n tool approver context (ev_sequence event))) by_node
      | ApprovalExpired n request_sequence _ _ \<Rightarrow>
          (case bt_get by_node n of
             Some slot \<Rightarrow> if map_option pa_sequence slot = Some request_sequence then bt_insert n None by_node else by_node
           | None \<Rightarrow> by_node)
      | ApprovalReceived ar \<Rightarrow>
          (case bt_get by_node (ar_node_id ar) of
             Some _ \<Rightarrow> bt_insert (ar_node_id ar) None by_node
           | None \<Rightarrow> by_node)
      | _ \<Rightarrow> by_node)"

definition pending_approvals :: "externals \<Rightarrow> event list \<Rightarrow> pending_approval list" where
  "pending_approvals x events = filter_map snd (fold (pending_step x) events [])"

section \<open>Deadlines\<close>

datatype deadline_action =
    Expire node_id event_sequence timestamp
  | EscalateRequest node_id event_sequence timestamp timestamp

definition not_escalated :: "event list \<Rightarrow> node_id \<Rightarrow> event_sequence \<Rightarrow> bool" where
  "not_escalated events node request_sequence =
     (\<not> list_ex (\<lambda>e. case ev_kind e of
                      ApprovalEscalated n r _ _ \<Rightarrow> n = node \<and> r = request_sequence | _ \<Rightarrow> False) events)"

definition due_action :: "externals \<Rightarrow> event list \<Rightarrow> timestamp \<Rightarrow> pending_approval \<Rightarrow> deadline_action option" where
  "due_action x events now p =
     (let d = request_deadline x p
      in if expired d now
         then Some (Expire (pa_node_id p) (pa_sequence p) (case rd_expires_at d of At t \<Rightarrow> t | _ \<Rightarrow> now))
         else (case rd_expires_at d of
                 At expires_at \<Rightarrow>
                   if passed (rd_escalate_at d) now \<and> not_escalated events (pa_node_id p) (pa_sequence p)
                   then Some (EscalateRequest (pa_node_id p) (pa_sequence p)
                                (case rd_escalate_at d of At t \<Rightarrow> t | _ \<Rightarrow> now) expires_at)
                   else None
               | _ \<Rightarrow> None))"

definition due_deadline_actions :: "externals \<Rightarrow> event list \<Rightarrow> timestamp \<Rightarrow> deadline_action list" where
  "due_deadline_actions x events now = filter_map (due_action x events now) (pending_approvals x events)"

definition still_pending :: "externals \<Rightarrow> event list \<Rightarrow> node_id \<Rightarrow> event_sequence \<Rightarrow> bool" where
  "still_pending x events node request_sequence =
     (case node_approval_status x events node of Pending p \<Rightarrow> pa_sequence p = request_sequence | _ \<Rightarrow> False)"

definition still_open :: "externals \<Rightarrow> event list \<Rightarrow> node_id \<Rightarrow> event_sequence \<Rightarrow> timestamp \<Rightarrow> bool" where
  "still_open x events node request_sequence now =
     (case node_approval_status x events node of
        Pending p \<Rightarrow> pa_sequence p = request_sequence \<and> \<not> expired (request_deadline x p) now
      | _ \<Rightarrow> False)"

definition pending_but_expired :: "externals \<Rightarrow> event list \<Rightarrow> node_id \<Rightarrow> timestamp \<Rightarrow> bool" where
  "pending_but_expired x events node now =
     (case node_approval_status x events node of Pending p \<Rightarrow> expired (request_deadline x p) now | _ \<Rightarrow> False)"

definition expired_by_deadline :: "externals \<Rightarrow> event list \<Rightarrow> node_id \<Rightarrow> bool" where
  "expired_by_deadline x events node =
     (case answered_request x events node of
        None \<Rightarrow> False
      | Some request \<Rightarrow>
          list_ex (\<lambda>e. case ev_kind e of
                         ApprovalExpired n r _ _ \<Rightarrow> n = node \<and> r = pa_sequence request | _ \<Rightarrow> False) events)"

section \<open>The action an approval binds\<close>

definition engine_state_keys :: "string list" where
  "engine_state_keys = [''__budget'']"

definition action_state :: "json \<Rightarrow> json" where
  "action_state state = (case state of JObject m \<Rightarrow> JObject (fold bt_remove engine_state_keys m) | _ \<Rightarrow> state)"

definition update_member :: "(json \<Rightarrow> json) \<Rightarrow> string \<Rightarrow> json_members \<Rightarrow> json_members" where
  "update_member f key m = (case bt_get m key of Some v \<Rightarrow> bt_insert key (f v) m | None \<Rightarrow> m)"

definition action_payload :: "json \<Rightarrow> json" where
  "action_payload payload =
     (case payload of
        JObject m \<Rightarrow> JObject (fold (update_member action_state) [''input'', ''state''] m)
      | _ \<Rightarrow> payload)"

definition action_digest :: "externals \<Rightarrow> string \<Rightarrow> nat \<Rightarrow> node_id \<Rightarrow> string \<Rightarrow> json \<Rightarrow> string" where
  "action_digest x run step node defn payload =
     content_hash x (json_object
       [(''domain'', JString ''jamjet.approval.action.v3''), (''run'', JString run), (''step'', json_nat step),
        (''node'', JString node), (''definition'', JString defn), (''payload'', JString (content_hash x payload))])"

definition definition_hash :: "externals \<Rightarrow> json \<Rightarrow> string" where
  "definition_hash x node_def =
     content_hash x (json_object [(''domain'', JString ''jamjet.approval.node.v1''), (''node'', node_def)])"

record action_basis =
  ab_run :: string
  ab_step :: nat
  ab_definition :: string
  ab_payload :: json

definition basis_digest :: "externals \<Rightarrow> action_basis \<Rightarrow> node_id \<Rightarrow> string" where
  "basis_digest x b node = action_digest x (ab_run b) (ab_step b) node (ab_definition b) (ab_payload b)"

section \<open>How an event bears on the folds\<close>

definition decides :: "node_id \<Rightarrow> event \<Rightarrow> bool" where
  "decides node e = (case ev_kind e of ApprovalReceived ar \<Rightarrow> ar_node_id ar = node | _ \<Rightarrow> False)"

definition expires :: "node_id \<Rightarrow> event_sequence \<Rightarrow> event \<Rightarrow> bool" where
  "expires node r e = (case ev_kind e of ApprovalExpired n s _ _ \<Rightarrow> n = node \<and> s = r | _ \<Rightarrow> False)"

text \<open>An event that leaves a pending request pending.\<close>

definition quiet :: "externals \<Rightarrow> node_id \<Rightarrow> event_sequence \<Rightarrow> event \<Rightarrow> bool" where
  "quiet x node r e = (request_of x node e = None \<and> \<not> decides node e \<and> \<not> expires node r e)"

lemma event_cases:
  obtains (request) n tool approver ctx where "ev_kind e = ToolApprovalRequired n tool approver ctx"
  | (decision) ar where "ev_kind e = ApprovalReceived ar"
  | (expiry) n r t pr where "ev_kind e = ApprovalExpired n r t pr"
  | (other) "\<And>n st. status_step x n e st = st" "\<And>m. pending_step x e m = m" "\<And>n. request_of x n e = None"
      "\<And>n. \<not> decides n e" "\<And>n r. \<not> expires n r e" "\<And>ar. ev_kind e \<noteq> ApprovalReceived ar"
proof (cases "ev_kind e")
  case ToolApprovalRequired
  then show ?thesis by (rule request)
next
  case ApprovalReceived
  then show ?thesis by (rule decision)
next
  case ApprovalExpired
  then show ?thesis by (rule expiry)
qed (rule other; simp add: status_step_def pending_step_def request_of_def decides_def expires_def)+

lemma status_step_quiet: "quiet x n (pa_sequence p) e \<Longrightarrow> status_step x n e (Pending p) = Pending p"
  by (cases e rule: event_cases [where x = x])
    (auto simp: quiet_def status_step_def request_of_def decides_def expires_def split: if_splits)

lemma status_step_Pending:
  "status_step x n e st = Pending p \<longleftrightarrow> request_of x n e = Some p \<or> (st = Pending p \<and> quiet x n (pa_sequence p) e)"
  by (cases e rule: event_cases [where x = x])
    (auto simp: quiet_def status_step_def request_of_def decides_def expires_def
      split: if_splits node_approval_status.splits approval_decision.splits)

lemma status_step_Approved:
  "status_step x n e st = NodeApproved u s d \<longleftrightarrow>
     (st = NodeApproved u s d \<and> request_of x n e = None) \<or>
     (\<exists>p ar. st = Pending p \<and> ev_kind e = ApprovalReceived ar \<and> ar_node_id ar = n \<and> ar_decision ar = Approved \<and>
        u = ar_user_id ar \<and> s = ev_sequence e \<and> d = ar_approved_digest ar)"
  by (cases e rule: event_cases [where x = x])
    (auto simp: status_step_def request_of_def split: if_splits node_approval_status.splits approval_decision.splits)

lemma status_Pending_split:
  "fold (status_step x n) es NotRequested = Pending p \<longleftrightarrow>
     (\<exists>pre req mid. es = pre @ req # mid \<and> request_of x n req = Some p \<and> (\<forall>e \<in> set mid. quiet x n (pa_sequence p) e))"
proof (induction es rule: rev_induct)
  case Nil
  then show ?case by simp
next
  case (snoc e es)
  show ?case
  proof
    assume "fold (status_step x n) (es @ [e]) NotRequested = Pending p"
    then consider "request_of x n e = Some p"
      | "fold (status_step x n) es NotRequested = Pending p" "quiet x n (pa_sequence p) e"
      by (auto simp: status_step_Pending)
    then show "\<exists>pre req mid. es @ [e] = pre @ req # mid \<and> request_of x n req = Some p \<and>
        (\<forall>e \<in> set mid. quiet x n (pa_sequence p) e)"
    proof cases
      case 1
      then show ?thesis by (intro exI [of _ es] exI [of _ e] exI [of _ "[]"]) simp
    next
      case 2
      then obtain pre req mid where "es = pre @ req # mid" "request_of x n req = Some p"
        "\<forall>e \<in> set mid. quiet x n (pa_sequence p) e" using snoc by blast
      then show ?thesis using 2 by (intro exI [of _ pre] exI [of _ req] exI [of _ "mid @ [e]"]) auto
    qed
  next
    assume "\<exists>pre req mid. es @ [e] = pre @ req # mid \<and> request_of x n req = Some p \<and>
        (\<forall>e \<in> set mid. quiet x n (pa_sequence p) e)"
    then obtain pre req mid where s: "es @ [e] = pre @ req # mid" "request_of x n req = Some p"
      "\<forall>e \<in> set mid. quiet x n (pa_sequence p) e" by blast
    show "fold (status_step x n) (es @ [e]) NotRequested = Pending p"
    proof (cases mid rule: rev_cases)
      case Nil
      then show ?thesis using s by (simp add: status_step_Pending)
    next
      case (snoc mid' z)
      then have "es = pre @ req # mid'" "z = e" using s(1) by auto
      then show ?thesis using snoc.IH s(2,3) snoc by (auto simp: status_step_Pending)
    qed
  qed
qed

lemma unreadable_append [simp]:
  "has_unreadable_events (es @ fs) \<longleftrightarrow> has_unreadable_events es \<or> has_unreadable_events fs"
  by (simp add: has_unreadable_events_def)

lemma status_readable:
  "\<not> has_unreadable_events es \<Longrightarrow> node_approval_status x es n = fold (status_step x n) es NotRequested"
  by (simp add: node_approval_status_def)

lemma status_unreadable: "has_unreadable_events es \<Longrightarrow> node_approval_status x es n = Indeterminate"
  by (simp add: node_approval_status_def)

lemma request_of_seq: "request_of x n e = Some p \<Longrightarrow> pa_sequence p = ev_sequence e \<and> pa_node_id p = n"
  by (cases e rule: event_cases [where x = x]) (auto simp: request_of_def from_request_def Let_def split: if_splits)

section \<open>The two folds agree\<close>

lemma pending_fold_ordered: "bt_ordered m \<Longrightarrow> bt_ordered (pending_step x e m)"
  by (cases e rule: event_cases [where x = x]) (auto simp: pending_step_def split: option.splits)

lemma folds_agree:
  "bt_ordered (fold (pending_step x) es []) \<and>
   (\<forall>n p. bt_get (fold (pending_step x) es []) n = Some (Some p) \<longleftrightarrow> fold (status_step x n) es NotRequested = Pending p)"
proof (induction es rule: rev_induct)
  case Nil
  then show ?case by simp
next
  case (snoc e es)
  let ?m = "fold (pending_step x) es []"
  have ord: "bt_ordered ?m" and ih: "\<And>n p. bt_get ?m n = Some (Some p) \<longleftrightarrow> fold (status_step x n) es NotRequested = Pending p"
    using snoc by auto
  have "bt_get (pending_step x e ?m) n = Some (Some p) \<longleftrightarrow>
      request_of x n e = Some p \<or> (bt_get ?m n = Some (Some p) \<and> quiet x n (pa_sequence p) e)" for n p
    by (cases e rule: event_cases [where x = x])
      (auto simp: pending_step_def request_of_def quiet_def decides_def expires_def bt_get_insert split: option.splits if_splits)
  then show ?case using pending_fold_ordered [OF ord] by (simp add: status_step_Pending ih)
qed

lemma pending_approvals_iff:
  "p \<in> set (pending_approvals x es) \<longleftrightarrow> fold (status_step x (pa_node_id p)) es NotRequested = Pending p"
proof -
  let ?m = "fold (pending_step x) es []"
  have "p \<in> set (pending_approvals x es) \<longleftrightarrow> (\<exists>n. (n, Some p) \<in> set ?m)"
    by (force simp: pending_approvals_def set_filter_map)
  also have "\<dots> \<longleftrightarrow> (\<exists>n. fold (status_step x n) es NotRequested = Pending p)"
    using folds_agree [of x es] bt_get_Some [of ?m] by auto
  also have "\<dots> \<longleftrightarrow> fold (status_step x (pa_node_id p)) es NotRequested = Pending p"
    using status_Pending_split [of x _ es p] request_of_seq by metis
  finally show ?thesis .
qed

text \<open>the list of pending requests and the status of a node are two readings of one state: on a log
  this build can read, a request is listed exactly when the status of its node is pending on it.\<close>

theorem pending_list_is_status:
  assumes "\<not> has_unreadable_events events"
  shows "p \<in> set (pending_approvals x events) \<longleftrightarrow> node_approval_status x events (pa_node_id p) = Pending p"
  using assms by (simp add: pending_approvals_iff status_readable)

definition sample_request :: "event_sequence \<Rightarrow> event" where
  "sample_request s = sample_event s (ToolApprovalRequired ''pay'' ''wire'' ''human'' (json_object []))"

theorem pending_list_is_status_witness:
  "from_request sample_externals ''pay'' ''wire'' ''human'' (json_object []) 3 \<in> set (pending_approvals sample_externals [sample_request 3])"
proof -
  have "\<not> has_unreadable_events [sample_request 3]"
    by (simp add: has_unreadable_events_def sample_request_def sample_event_def event_new_def)
  from pending_list_is_status [OF this] show ?thesis
    by (simp add: sample_request_def sample_event_def event_new_def node_approval_status_def has_unreadable_events_def
        status_step_def from_request_def Let_def)
qed

section \<open>What an approval rests on\<close>

lemma status_Approved_split:
  "fold (status_step x n) es NotRequested = NodeApproved u s d \<Longrightarrow>
   \<exists>pre req mid dec post p ar. es = pre @ req # mid @ dec # post \<and> request_of x n req = Some p \<and>
     (\<forall>e \<in> set mid. quiet x n (pa_sequence p) e) \<and> ev_kind dec = ApprovalReceived ar \<and> ar_node_id ar = n \<and>
     ar_decision ar = Approved \<and> u = ar_user_id ar \<and> s = ev_sequence dec \<and> d = ar_approved_digest ar \<and>
     (\<forall>e \<in> set post. request_of x n e = None)"
proof (induction es rule: rev_induct)
  case Nil
  then show ?case by simp
next
  case (snoc e es)
  then consider "fold (status_step x n) es NotRequested = NodeApproved u s d" "request_of x n e = None"
    | p ar where "fold (status_step x n) es NotRequested = Pending p" "ev_kind e = ApprovalReceived ar" "ar_node_id ar = n"
      "ar_decision ar = Approved" "u = ar_user_id ar" "s = ev_sequence e" "d = ar_approved_digest ar"
    by (auto simp: status_step_Approved)
  then show ?case
  proof cases
    case 1
    then obtain pre req mid dec post p ar where h: "es = pre @ req # mid @ dec # post" "request_of x n req = Some p"
      "\<forall>e \<in> set mid. quiet x n (pa_sequence p) e" "ev_kind dec = ApprovalReceived ar" "ar_node_id ar = n"
      "ar_decision ar = Approved" "u = ar_user_id ar" "s = ev_sequence dec" "d = ar_approved_digest ar"
      "\<forall>e \<in> set post. request_of x n e = None" using snoc.IH by blast
    have "es @ [e] = pre @ req # mid @ dec # (post @ [e])" using h(1) by simp
    moreover have "\<forall>e \<in> set (post @ [e]). request_of x n e = None" using h(10) 1 by simp
    ultimately show ?thesis using h(2-9) by blast
  next
    case 2
    obtain pre req mid where h: "es = pre @ req # mid" "request_of x n req = Some p"
      "\<forall>e \<in> set mid. quiet x n (pa_sequence p) e" using 2(1) unfolding status_Pending_split by blast
    have "es @ [e] = pre @ req # mid @ e # []" using h(1) by simp
    then show ?thesis using h(2,3) 2(2-7) by (metis empty_iff list.set(1))
  qed
qed

text \<open>a node counts as approved only on the strength of a decision: the log holds a request for the
  node, then no other decision and no expiry of that request, then an approving decision with the
  recorded user and digest, and no newer request after it; so no sweep and no decision that came before
  its request ever releases a node.\<close>

theorem approval_rests_on_decision:
  assumes "node_approval_status x events n = NodeApproved u s d"
  shows "\<exists>pre req mid dec post p ar. events = pre @ req # mid @ dec # post \<and> request_of x n req = Some p \<and>
     (\<forall>e \<in> set mid. \<not> decides n e \<and> \<not> expires n (pa_sequence p) e \<and> request_of x n e = None) \<and>
     ev_kind dec = ApprovalReceived ar \<and> ar_node_id ar = n \<and> ar_decision ar = Approved \<and>
     u = ar_user_id ar \<and> s = ev_sequence dec \<and> d = ar_approved_digest ar \<and>
     (\<forall>e \<in> set post. request_of x n e = None)"
proof -
  have "fold (status_step x n) events NotRequested = NodeApproved u s d"
    using assms by (simp add: node_approval_status_def split: if_splits)
  from status_Approved_split [OF this] show ?thesis unfolding quiet_def by blast
qed

definition sample_approval :: "event_sequence \<Rightarrow> string \<Rightarrow> event" where
  "sample_approval s d = sample_event s (ApprovalReceived \<lparr>ar_node_id = ''pay'', ar_user_id = ''ann'', ar_decision = Approved,
     ar_comment = None, ar_state_patch = None, ar_principal = None, ar_approved_digest = Some d, ar_request_sequence = Some 3\<rparr>)"

lemmas sample_log_simps = sample_request_def sample_approval_def sample_event_def event_new_def
  node_approval_status_def has_unreadable_events_def status_step_def from_request_def Let_def

theorem approval_rests_on_decision_witness:
  "\<exists>pre req mid dec post ar. [sample_request 3, sample_approval 4 ''d''] = pre @ req # mid @ dec # post \<and>
     ev_kind dec = ApprovalReceived ar \<and> ar_decision ar = Approved"
proof -
  have "node_approval_status sample_externals [sample_request 3, sample_approval 4 ''d''] ''pay'' = NodeApproved ''ann'' 4 (Some ''d'')"
    by (simp add: sample_log_simps)
  from approval_rests_on_decision [OF this] show ?thesis by blast
qed

text \<open>a log that holds an event this build cannot read approves nothing and accepts no decision, for
  any node, whatever is appended to it; only a covering digest of an approved status releases an action.\<close>

theorem unreadable_log_fails_closed:
  assumes "has_unreadable_events events"
  shows "node_approval_status x (events @ later) n = Indeterminate \<and>
    \<not> approval_covers (node_approval_status x (events @ later) n) digest \<and>
    \<not> still_pending x (events @ later) n r \<and> \<not> still_open x (events @ later) n r now \<and>
    answered_request x (events @ later) n = None"
  using assms by (simp add: status_unreadable still_pending_def still_open_def answered_request_def)

theorem unreadable_log_fails_closed_witness:
  "\<not> approval_covers (node_approval_status sample_externals
      ([sample_event 1 Unknown] @ [sample_request 3, sample_approval 4 ''d'']) ''pay'') ''d''"
  using unreadable_log_fails_closed [of "[sample_event 1 Unknown]" sample_externals "[sample_request 3, sample_approval 4 ''d'']"]
  by (simp add: has_unreadable_events_def sample_event_def event_new_def)

section \<open>A request is resolved once\<close>

lemma sequences_distinct:
  "sorted_wrt (\<lambda>a b. ev_sequence a < ev_sequence b) es \<Longrightarrow> a \<in> set es \<Longrightarrow> b \<in> set es \<Longrightarrow>
   ev_sequence a = ev_sequence b \<Longrightarrow> a = b"
  by (metis in_set_conv_nth linorder_neqE_nat order_less_irrefl sorted_wrt_nth_less)

lemma resolved_stays_resolved:
  assumes ord: "sorted_wrt (\<lambda>a b. ev_sequence a < ev_sequence b) (es @ e # post)"
    and pend: "still_pending x es n r" and e: "decides n e \<or> expires n r e"
  shows "\<not> still_pending x (es @ e # post) n r"
proof
  assume "still_pending x (es @ e # post) n r"
  then obtain p where p: "fold (status_step x n) (es @ e # post) NotRequested = Pending p" "pa_sequence p = r"
    by (auto simp: still_pending_def node_approval_status_def split: node_approval_status.splits if_splits)
  then obtain pre req mid where s: "es @ e # post = pre @ req # mid" "request_of x n req = Some p"
    "\<forall>e \<in> set mid. quiet x n r e" using status_Pending_split by metis
  obtain q where q: "fold (status_step x n) es NotRequested = Pending q" "pa_sequence q = r"
    using pend by (auto simp: still_pending_def node_approval_status_def split: node_approval_status.splits if_splits)
  then obtain pre' req' mid' where s': "es = pre' @ req' # mid'" "request_of x n req' = Some q"
    using status_Pending_split by metis
  have "req' = req"
    using sequences_distinct [OF ord, of req' req] s s' p(2) q(2) request_of_seq
    by (metis Un_iff list.set_intros(1) set_append)
  then have "req \<in> set es" using s'(1) by simp
  moreover have "e \<notin> set mid" using s(3) e by (auto simp: quiet_def)
  moreover have "e \<in> set (pre @ req # mid)" by (simp flip: s(1))
  moreover have "sorted_wrt (\<lambda>a b. ev_sequence a < ev_sequence b) (pre @ req # mid)" using ord s(1) by simp
  moreover have "\<forall>a \<in> set es. ev_sequence a < ev_sequence e" using ord by (simp add: sorted_wrt_append)
  ultimately show False by (fastforce simp: sorted_wrt_append)
qed

text \<open>in a log in sequence order a request is resolved at most once: after a decision of its node, or
  an expiry that names it, lands while it is pending, it is never pending again, so the condition every
  resolving append is made under refuses each later one; and an expiry leaves the node rejected by the
  deadline principal.\<close>

theorem request_resolved_once:
  assumes "sorted_wrt (\<lambda>a b. ev_sequence a < ev_sequence b) (events @ e # later)"
    and "still_pending x events n r" and "decides n e \<or> expires n r e"
  shows "\<not> still_pending x (events @ e # later) n r \<and> \<not> still_open x (events @ e # later) n r now \<and>
    (expires n r e \<longrightarrow> (\<exists>c. node_approval_status x (events @ [e]) n = NodeRejected deadline_principal c (ev_sequence e)))"
proof (intro conjI impI)
  show not_pending: "\<not> still_pending x (events @ e # later) n r" by (rule resolved_stays_resolved [OF assms])
  then show "\<not> still_open x (events @ e # later) n r now"
    by (auto simp: still_open_def still_pending_def split: node_approval_status.splits)
  assume e: "expires n r e"
  then obtain t pr where k: "ev_kind e = ApprovalExpired n r t pr"
    by (cases e rule: event_cases [where x = x]) (auto simp: expires_def)
  obtain p where p: "\<not> has_unreadable_events events" "fold (status_step x n) events NotRequested = Pending p" "pa_sequence p = r"
    using assms(2) by (auto simp: still_pending_def node_approval_status_def split: node_approval_status.splits if_splits)
  then have "\<not> has_unreadable_events (events @ [e])" using k by (simp add: has_unreadable_events_def)
  then show "\<exists>c. node_approval_status x (events @ [e]) n = NodeRejected deadline_principal c (ev_sequence e)"
    using p k by (simp add: status_readable) (simp add: status_step_def)
qed

theorem request_resolved_once_witness:
  "\<not> still_pending sample_externals ([sample_request 3] @ sample_approval 4 ''d'' # [sample_event 5 (RunStalled [])]) ''pay'' 3"
proof -
  have "sorted_wrt (\<lambda>a b. ev_sequence a < ev_sequence b)
      ([sample_request 3] @ sample_approval 4 ''d'' # [sample_event 5 (RunStalled [])])"
    by (simp add: sample_log_simps)
  moreover have "still_pending sample_externals [sample_request 3] ''pay'' 3"
    by (simp add: still_pending_def sample_log_simps)
  moreover have "decides ''pay'' (sample_approval 4 ''d'')" by (simp add: decides_def sample_log_simps)
  ultimately show ?thesis using request_resolved_once by blast
qed

section \<open>Deadlines\<close>

lemma due_action_Expire:
  "due_action x es now p = Some (Expire n r t) \<longleftrightarrow>
     expired (request_deadline x p) now \<and> n = pa_node_id p \<and> r = pa_sequence p \<and>
     t = (case rd_expires_at (request_deadline x p) of At t \<Rightarrow> t | _ \<Rightarrow> now)"
  by (auto simp: due_action_def Let_def split: deadline_time.splits)

lemma due_action_Escalate:
  "due_action x es now p = Some (EscalateRequest n r t t') \<Longrightarrow>
     \<not> expired (request_deadline x p) now \<and> n = pa_node_id p \<and> r = pa_sequence p \<and> not_escalated es n r \<and>
     rd_expires_at (request_deadline x p) = At t' \<and> passed (rd_escalate_at (request_deadline x p)) now"
  by (auto simp: due_action_def Let_def split: deadline_time.splits if_splits)

text \<open>at any instant a pending request is either open for a decision or due to expire, and never both:
  the instant of the deadline itself already belongs to the expiry, and a deadline nobody can read has
  passed.  The sweep asks for an expiry or an escalation of a pending request only, and for an escalation
  at most once and never past the deadline.\<close>

theorem open_or_expired:
  assumes "\<not> has_unreadable_events events"
  shows "(still_pending x events n r \<longrightarrow>
            (still_open x events n r now \<longleftrightarrow> (\<forall>t. Expire n r t \<notin> set (due_deadline_actions x events now)))) \<and>
         (\<forall>t. Expire n r t \<in> set (due_deadline_actions x events now) \<longrightarrow> still_pending x events n r \<and> \<not> still_open x events n r now) \<and>
         (\<forall>t t'. EscalateRequest n r t t' \<in> set (due_deadline_actions x events now) \<longrightarrow>
            still_open x events n r now \<and> not_escalated events n r \<and> now < t')"
proof -
  have st: "node_approval_status x events n = Pending p \<longleftrightarrow> p \<in> set (pending_approvals x events) \<and> pa_node_id p = n" for p
    using assms pending_approvals_iff [of p x events] status_Pending_split [of x n events p] request_of_seq
    by (auto simp: status_readable)
  have due: "a \<in> set (due_deadline_actions x events now) \<longleftrightarrow> (\<exists>p \<in> set (pending_approvals x events). due_action x events now p = Some a)" for a
    by (simp add: due_deadline_actions_def set_filter_map)
  have sp: "still_pending x events n r \<longleftrightarrow> (\<exists>p. node_approval_status x events n = Pending p \<and> pa_sequence p = r)"
    by (auto simp: still_pending_def split: node_approval_status.splits)
  have so: "still_open x events n r now \<longleftrightarrow>
      (\<exists>p. node_approval_status x events n = Pending p \<and> pa_sequence p = r \<and> \<not> expired (request_deadline x p) now)"
    by (auto simp: still_open_def split: node_approval_status.splits)
  have ex: "(\<exists>t. Expire n r t \<in> set (due_deadline_actions x events now)) \<longleftrightarrow>
      (\<exists>p. node_approval_status x events n = Pending p \<and> pa_sequence p = r \<and> expired (request_deadline x p) now)"
    unfolding due st by (auto simp: due_action_Expire)
  have es: "EscalateRequest n r t t' \<in> set (due_deadline_actions x events now) \<Longrightarrow>
      still_open x events n r now \<and> not_escalated events n r \<and> now < t'" for t t'
  proof -
    assume "EscalateRequest n r t t' \<in> set (due_deadline_actions x events now)"
    then obtain p where p: "p \<in> set (pending_approvals x events)" "due_action x events now p = Some (EscalateRequest n r t t')"
      unfolding due by blast
    note d = due_action_Escalate [OF p(2)]
    have "node_approval_status x events n = Pending p" unfolding st using p(1) d by simp
    then have "still_open x events n r now" unfolding so using d by blast
    then show ?thesis using d by (auto simp: expired_def)
  qed
  show ?thesis using sp so ex es by (metis node_approval_status.inject(1))
qed

theorem open_or_expired_witness:
  "still_open sample_externals [sample_request 3] ''pay'' 3 100 \<longleftrightarrow>
   (\<forall>t. Expire ''pay'' 3 t \<notin> set (due_deadline_actions sample_externals [sample_request 3] 100))"
proof -
  have "\<not> has_unreadable_events [sample_request 3]" by (simp add: sample_log_simps)
  moreover have "still_pending sample_externals [sample_request 3] ''pay'' 3"
    by (simp add: still_pending_def sample_log_simps)
  ultimately show ?thesis using open_or_expired by blast
qed

section \<open>What a digest binds\<close>

lemma json_get_action_state: "json_wf v \<Longrightarrow> json_get (action_state v) j = (if j = ''__budget'' then None else json_get v j)"
  by (cases v) (auto simp: action_state_def engine_state_keys_def json_get_def bt_get_remove)

lemma json_get_update_member:
  "bt_get (update_member f key m) k = (if k = key then map_option f (bt_get m k) else bt_get m k)"
  by (auto simp: update_member_def bt_get_insert split: option.split)

lemma action_state_wf: "json_wf v \<Longrightarrow> json_wf (action_state v)"
  using json_wf_remove by (cases v) (simp_all add: action_state_def engine_state_keys_def del: json_wf.simps(3))

lemma update_member_wf:
  assumes "json_wf (JObject m)" and "\<And>v. json_wf v \<Longrightarrow> json_wf (f v)"
  shows "json_wf (JObject (update_member f key m))"
proof (cases "bt_get m key")
  case None
  then show ?thesis using assms(1) by (simp add: update_member_def)
next
  case (Some v)
  have "json_wf (f v)" using assms json_wf_bt_get [OF assms(1) Some] by blast
  then show ?thesis using json_wf_insert [OF assms(1)] Some by (simp add: update_member_def del: json_wf.simps)
qed

lemma action_payload_wf: "json_wf p \<Longrightarrow> json_wf (action_payload p)"
  by (cases p) (auto simp: action_payload_def update_member_wf action_state_wf simp del: json_wf.simps)

text \<open>The value an approval digest hashes.\<close>

definition action_value :: "externals \<Rightarrow> string \<Rightarrow> nat \<Rightarrow> node_id \<Rightarrow> string \<Rightarrow> json \<Rightarrow> json" where
  "action_value x run step node defn payload = json_object
     [(''domain'', JString ''jamjet.approval.action.v3''), (''run'', JString run), (''step'', json_nat step),
      (''node'', JString node), (''definition'', JString defn), (''payload'', JString (content_hash x payload))]"

lemma action_value_inj:
  assumes "action_value x r t n d p = action_value x r' t' n' d' p'"
  shows "r = r' \<and> t = t' \<and> n = n' \<and> d = d' \<and> content_hash x p = content_hash x p'"
proof -
  have "json_get (action_value x r t n d p) k = json_get (action_value x r' t' n' d' p') k" for k by (simp add: assms)
  from this [of "''run''"] this [of "''step''"] this [of "''node''"] this [of "''definition''"] this [of "''payload''"]
  show ?thesis unfolding action_value_def json_get_object by (simp add: json_nat_def)
qed

text \<open>C31: an approval that covers an action covers that action only: if the digest recorded for one
  occurrence of a node covers another, then run, step, node, definition and the payload's bound part are
  the same, for a hash that does not confuse the two actions; and the bound part is the payload itself,
  less the engine's bookkeeping key in the state it carries.\<close>

theorem approval_binds_the_action:
  assumes "self_delimiting x" and "byte_valued x" and "step < 2 ^ 64" and "step' < 2 ^ 64"
    and "json_wf payload" and "json_wf payload'"
    and "distinct_digests x (canonical_json x (action_value x run step node defn (action_payload payload)))
           (canonical_json x (action_value x run' step' node' defn' (action_payload payload')))"
    and "distinct_digests x (canonical_json x (action_payload payload)) (canonical_json x (action_payload payload'))"
    and "approval_covers (NodeApproved u s (Some (action_digest x run step node defn (action_payload payload))))
           (action_digest x run' step' node' defn' (action_payload payload'))"
  shows "run = run' \<and> step = step' \<and> node = node' \<and> defn = defn' \<and>
    (\<forall>k. k \<notin> {''input'', ''state''} \<longrightarrow> json_get payload k = json_get payload' k) \<and>
    (\<forall>k \<in> {''input'', ''state''}. map_option action_state (json_get payload k) = map_option action_state (json_get payload' k))"
proof -
  have wf: "json_wf (action_value x r t n d p)" if "t < 2 ^ 64" for r t n d p
    unfolding action_value_def using that by (intro json_wf_object) simp
  have "content_hash x (action_value x run step node defn (action_payload payload)) =
      content_hash x (action_value x run' step' node' defn' (action_payload payload'))"
    using assms(9) by (simp add: action_digest_def action_value_def)
  then have eq: "run = run' \<and> step = step' \<and> node = node' \<and> defn = defn'"
    and h: "content_hash x (action_payload payload) = content_hash x (action_payload payload')"
    using action_value_inj [OF content_hash_inj [OF assms(1,2) wf [OF assms(3)] wf [OF assms(4)] assms(7)]] by blast+
  have p: "action_payload payload = action_payload payload'"
    by (rule content_hash_inj [OF assms(1,2) action_payload_wf [OF assms(5)] action_payload_wf [OF assms(6)] assms(8) h])
  have get: "json_get (action_payload q) k =
      (if k \<in> {''input'', ''state''} then map_option action_state (json_get q k) else json_get q k)" for q k
    by (cases q) (auto simp: action_payload_def json_get_def json_get_update_member)
  show ?thesis using eq get [of payload] get [of payload'] p by (metis (no_types, lifting))
qed

theorem approval_binds_the_action_witness:
  "\<not> approval_covers (NodeApproved ''ann'' 4 (Some (action_digest sample_externals ''r'' 0 ''pay'' ''d'' (action_payload JNull))))
      (action_digest sample_externals ''r'' 1 ''pay'' ''d'' (action_payload JNull))"
  using approval_binds_the_action [OF sample_externals_ok, of 0 1 JNull JNull "''r''" "''pay''" "''d''" "''r''" "''pay''" "''d''" "''ann''" 4]
    sample_distinct by auto

end
