(* ===== verification/Memory_Backend.thy ===== *)
theory Memory_Backend
  imports Approvals
begin

text \<open>
  The state backend: the records and helpers of \<^verbatim>\<open>runtime/state/src/backend.rs\<close> and the operations of the
  in-memory implementation \<^verbatim>\<open>runtime/state/src/memory.rs\<close>, each one atomic step on an explicit store.  The
  clock is the argument \<open>now\<close>; fresh ids come from \<open>fresh\<close>, indexed by the event sequence they go with;
  the order in which a \<^verbatim>\<open>DashMap\<close> is iterated is the argument \<open>ids\<close>, a list of its keys.  Times are
  milliseconds; a time past the range of chrono is not modelled.
\<close>

section \<open>Records\<close>

type_synonym work_item_id = uuid

record approval_projection_row =
  pr_execution_id :: execution_id
  pr_node_id :: string
  pr_status :: string
  pr_user_id :: "string option"
  pr_comment :: "string option"
  pr_last_sequence :: event_sequence
  pr_tool_name :: "string option"
  pr_approver :: "string option"
  pr_context :: "json option"

record workflow_definition =
  wd_workflow_id :: string
  wd_version :: string
  wd_ir :: json
  wd_created_at :: timestamp
  wd_tenant_id :: string

datatype backend_error =
    NotFound string
  | SequenceConflict string
  | FenceLost string
  | DatabaseError string
  | VersionConflict string
  | Serialization string

record api_token =
  tk_id :: string
  tk_name :: string
  tk_role :: string
  tk_created_at :: timestamp
  tk_expires_at :: "timestamp option"
  tk_tenant_id :: string

record work_item =
  wi_id :: work_item_id
  wi_execution_id :: execution_id
  wi_node_id :: string
  wi_queue_type :: string
  wi_payload :: json
  wi_attempt :: nat
  wi_max_attempts :: nat
  wi_created_at :: timestamp
  wi_lease_expires_at :: "timestamp option"
  wi_worker_id :: "string option"
  wi_lease_fence :: int
  wi_tenant_id :: string

definition default_tenant :: string where
  "default_tenant = ''default''"

datatype tenant_status = TenantActive | TenantSuspended | TenantArchived

record tenant_limits =
  tl_max_concurrent_executions :: "nat option"
  tl_max_workflows :: "nat option"
  tl_max_tokens_per_month :: "nat option"
  tl_max_cost_per_month_usd :: "f64 option"

record tenant =
  tn_id :: string
  tn_name :: string
  tn_status :: tenant_status
  tn_policy :: "json option"
  tn_limits :: "tenant_limits option"
  tn_created_at :: timestamp
  tn_updated_at :: timestamp

definition default_lease_secs :: nat where "default_lease_secs = 30"

definition min_lease_secs :: nat where "min_lease_secs = 5"

definition max_lease_secs :: nat where "max_lease_secs = 3600"

definition granted_lease_secs :: "nat option \<Rightarrow> nat" where
  "granted_lease_secs requested =
     (case requested of None \<Rightarrow> default_lease_secs | Some s \<Rightarrow> max min_lease_secs (min s max_lease_secs))"

definition fence_epoch :: "int \<Rightarrow> int" where
  "fence_epoch lease_fence = lease_fence mod 2 ^ 32"

definition epoch_after_expiry_of :: "int \<Rightarrow> int" where
  "epoch_after_expiry_of lost_fence = fence_epoch lost_fence + 1"

datatype execution_finish = Finished event_sequence | AlreadyTerminal workflow_status

datatype conditional_append = Appended event_sequence | Refused | RunTerminal workflow_status

datatype turn_commit = Committed event_sequence | CommitTerminal workflow_status

record lease_renewal =
  lr_lease_fence :: int
  lr_reattached :: bool

record reclaim_result =
  rr_retryable :: "work_item list"
  rr_exhausted :: "work_item list"

datatype reserve_outcome = Acquired | Held string string

datatype fail_outcome = Retryable work_item nat | Exhausted work_item

record artifact_ref =
  art_hash :: string
  art_size :: nat
  art_media_type :: "string option"

record in_memory_backend =
  mb_workflows :: "(string \<times> string) \<rightharpoonup> workflow_definition"
  mb_executions :: "execution_id \<rightharpoonup> workflow_execution"
  mb_events :: "execution_id \<rightharpoonup> event list"
  mb_snapshots :: "execution_id \<rightharpoonup> snapshot list"
  mb_work_items :: "work_item_id \<rightharpoonup> work_item"
  mb_dead_letter :: "work_item_id \<rightharpoonup> work_item"
  mb_tokens :: "string \<rightharpoonup> api_token"
  mb_tenants :: "string \<rightharpoonup> tenant"
  mb_next_sequence :: int
  mb_lease_epochs :: "work_item_id \<rightharpoonup> int"
  mb_store_term :: int
  mb_tool_effects :: "string \<rightharpoonup> json"
  mb_tool_reservations :: "string \<rightharpoonup> string \<times> int \<times> timestamp"
  mb_proj_approvals :: "(execution_id \<times> string) \<rightharpoonup> approval_projection_row"
  mb_projector_checkpoints :: "(string \<times> execution_id) \<rightharpoonup> int"
  mb_artifacts :: "(string \<times> string) \<rightharpoonup> nat list \<times> string option"
  mb_lease_secs :: "work_item_id \<rightharpoonup> nat"
  mb_last_lease :: "work_item_id \<rightharpoonup> string \<times> int"

definition backend_new :: in_memory_backend where
  "backend_new =
     \<lparr>mb_workflows = Map.empty, mb_executions = Map.empty, mb_events = Map.empty, mb_snapshots = Map.empty,
      mb_work_items = Map.empty, mb_dead_letter = Map.empty, mb_tokens = Map.empty, mb_tenants = Map.empty,
      mb_next_sequence = 1, mb_lease_epochs = Map.empty, mb_store_term = 0, mb_tool_effects = Map.empty,
      mb_tool_reservations = Map.empty, mb_proj_approvals = Map.empty, mb_projector_checkpoints = Map.empty,
      mb_artifacts = Map.empty, mb_lease_secs = Map.empty, mb_last_lease = Map.empty\<rparr>"

text \<open>\<^verbatim>\<open>ExecutionId\<close>'s display: the id without its hyphens.\<close>

definition exec_label :: "execution_id \<Rightarrow> string" where
  "exec_label i = ''exec_'' @ filter (\<lambda>c. c \<noteq> CHR ''-'') i"

definition bump_store_term :: "in_memory_backend \<Rightarrow> in_memory_backend \<times> int" where
  "bump_store_term s =
     (let term' = wrap_i64 (mb_store_term s + 1) in (s\<lparr>mb_store_term := term'\<rparr>, term'))"

definition set_store_term_at_least :: "int \<Rightarrow> in_memory_backend \<Rightarrow> in_memory_backend \<times> int" where
  "set_store_term_at_least t s =
     (let term' = max (mb_store_term s) t in (s\<lparr>mb_store_term := term'\<rparr>, term'))"

section \<open>The event log\<close>

definition log_of :: "in_memory_backend \<Rightarrow> execution_id \<Rightarrow> event list" where
  "log_of s e = (case mb_events s e of Some l \<Rightarrow> l | None \<Rightarrow> [])"

definition push_event :: "event \<Rightarrow> in_memory_backend \<Rightarrow> in_memory_backend \<times> event_sequence" where
  "push_event event s =
     (let e = ev_execution_id event; seq = mb_next_sequence s
      in (s\<lparr>mb_events := (mb_events s)(e \<mapsto> log_of s e @ [event\<lparr>ev_sequence := seq\<rparr>]),
            mb_next_sequence := wrap_i64 (seq + 1)\<rparr>, seq))"

definition append_event :: "event \<Rightarrow> in_memory_backend \<Rightarrow> in_memory_backend \<times> event_sequence" where
  "append_event event s = push_event event s"

definition get_events :: "execution_id \<Rightarrow> in_memory_backend \<Rightarrow> event list" where
  "get_events e s = log_of s e"

definition get_events_since :: "execution_id \<Rightarrow> event_sequence \<Rightarrow> in_memory_backend \<Rightarrow> event list" where
  "get_events_since e since s = filter (\<lambda>ev. ev_sequence ev > since) (log_of s e)"

definition latest_sequence :: "execution_id \<Rightarrow> in_memory_backend \<Rightarrow> event_sequence" where
  "latest_sequence e s = (case log_of s e of [] \<Rightarrow> 0 | l \<Rightarrow> ev_sequence (last l))"

definition finish_execution ::
    "timestamp \<Rightarrow> event \<Rightarrow> workflow_status \<Rightarrow> in_memory_backend \<Rightarrow> in_memory_backend \<times> (backend_error + execution_finish)" where
  "finish_execution now event status s =
     (if \<not> is_terminal status then (s, Inl (DatabaseError ''finish_execution requires a terminal status''))
      else (case mb_executions s (ev_execution_id event) of
        None \<Rightarrow> (s, Inl (NotFound (exec_label (ev_execution_id event))))
      | Some entry \<Rightarrow>
          if is_terminal (we_status entry) then (s, Inr (AlreadyTerminal (we_status entry)))
          else (let s = s\<lparr>mb_executions := (mb_executions s)(ev_execution_id event \<mapsto>
                            entry\<lparr>we_status := status, we_updated_at := now\<rparr>)\<rparr>;
                    (s, seq) = push_event event s
                in (s, Inr (Finished seq)))))"

definition append_event_if ::
    "event \<Rightarrow> (event list \<Rightarrow> bool) \<Rightarrow> in_memory_backend \<Rightarrow> in_memory_backend \<times> (backend_error + conditional_append)" where
  "append_event_if event cond s =
     (case mb_executions s (ev_execution_id event) of
        None \<Rightarrow> (s, Inl (NotFound (exec_label (ev_execution_id event))))
      | Some entry \<Rightarrow>
          if is_terminal (we_status entry) then (s, Inr (RunTerminal (we_status entry)))
          else if \<not> cond (log_of s (ev_execution_id event))
          then (s\<lparr>mb_events := (mb_events s)(ev_execution_id event \<mapsto> log_of s (ev_execution_id event))\<rparr>, Inr Refused)
          else (let (s, seq) = push_event event s in (s, Inr (Appended seq))))"

text \<open>\<^verbatim>\<open>lease_expiry_events\<close> of \<^verbatim>\<open>sqlite.rs\<close>.\<close>

definition lease_expiry_events :: "work_item \<Rightarrow> event_kind list" where
  "lease_expiry_events item =
     [NodeFailed (wi_node_id item) ''lease expired: worker presumed dead'' (wi_attempt item) True,
      RetryScheduled (wi_node_id item) (wrap_u32 (wi_attempt item + 1)) 0]"

section \<open>Executions, definitions and snapshots\<close>

definition same_definition :: "externals \<Rightarrow> json \<Rightarrow> json \<Rightarrow> bool" where
  "same_definition x a b = (content_hash x a = content_hash x b)"

definition version_conflict :: "string \<Rightarrow> string \<Rightarrow> backend_error" where
  "version_conflict workflow_id version =
     VersionConflict (workflow_id @ '' v'' @ version @ ''; register a new version instead'')"

definition store_workflow :: "externals \<Rightarrow> workflow_definition \<Rightarrow> in_memory_backend \<Rightarrow> in_memory_backend \<times> (backend_error + unit)" where
  "store_workflow x def s =
     (let key = (wd_workflow_id def, wd_version def)
      in (case mb_workflows s key of
            Some existing \<Rightarrow>
              if same_definition x (wd_ir existing) (wd_ir def) then (s, Inr ())
              else (s, Inl (version_conflict (wd_workflow_id def) (wd_version def)))
          | None \<Rightarrow> (s\<lparr>mb_workflows := (mb_workflows s)(key \<mapsto> def)\<rparr>, Inr ())))"

definition get_workflow :: "string \<Rightarrow> string \<Rightarrow> in_memory_backend \<Rightarrow> workflow_definition option" where
  "get_workflow workflow_id version s = mb_workflows s (workflow_id, version)"

definition create_execution :: "workflow_execution \<Rightarrow> in_memory_backend \<Rightarrow> in_memory_backend" where
  "create_execution execution s =
     s\<lparr>mb_executions := (mb_executions s)(we_execution_id execution \<mapsto> execution)\<rparr>"

definition get_execution :: "execution_id \<Rightarrow> in_memory_backend \<Rightarrow> workflow_execution option" where
  "get_execution i s = mb_executions s i"

definition execution_tenant :: "execution_id \<Rightarrow> in_memory_backend \<Rightarrow> string option" where
  "execution_tenant i s = (if mb_executions s i \<noteq> None then Some default_tenant else None)"

definition update_execution ::
    "execution_id \<Rightarrow> (workflow_execution \<Rightarrow> workflow_execution) \<Rightarrow> in_memory_backend \<Rightarrow> in_memory_backend \<times> (backend_error + unit)" where
  "update_execution i f s =
     (case mb_executions s i of
        Some entry \<Rightarrow> (s\<lparr>mb_executions := (mb_executions s)(i \<mapsto> f entry)\<rparr>, Inr ())
      | None \<Rightarrow> (s, Inl (NotFound (exec_label i))))"

definition update_execution_status ::
    "timestamp \<Rightarrow> execution_id \<Rightarrow> workflow_status \<Rightarrow> in_memory_backend \<Rightarrow> in_memory_backend \<times> (backend_error + unit)" where
  "update_execution_status now i status s =
     update_execution i (\<lambda>entry. entry\<lparr>we_status := status, we_updated_at := now\<rparr>) s"

definition update_execution_current_state ::
    "timestamp \<Rightarrow> execution_id \<Rightarrow> json \<Rightarrow> in_memory_backend \<Rightarrow> in_memory_backend \<times> (backend_error + unit)" where
  "update_execution_current_state now i current_state s =
     update_execution i (\<lambda>entry. entry\<lparr>we_current_state := current_state, we_updated_at := now\<rparr>) s"

definition append_to_array :: "string \<Rightarrow> json \<Rightarrow> json \<Rightarrow> json" where
  "append_to_array key v state =
     (case state of
        JObject m \<Rightarrow>
          (let arr = (case bt_get m key of Some a \<Rightarrow> a | None \<Rightarrow> JArray [])
           in JObject (bt_insert key (case arr of JArray a \<Rightarrow> JArray (a @ [v]) | _ \<Rightarrow> arr) m))
      | _ \<Rightarrow> state)"

definition patch_append_array ::
    "timestamp \<Rightarrow> execution_id \<Rightarrow> string \<Rightarrow> json \<Rightarrow> in_memory_backend \<Rightarrow> in_memory_backend \<times> (backend_error + unit)" where
  "patch_append_array now i key v s =
     update_execution i
       (\<lambda>entry. entry\<lparr>we_current_state := append_to_array key v (we_current_state entry), we_updated_at := now\<rparr>) s"

definition list_executions ::
    "execution_id list \<Rightarrow> workflow_status option \<Rightarrow> nat \<Rightarrow> nat \<Rightarrow> in_memory_backend \<Rightarrow> workflow_execution list" where
  "list_executions ids status limit offset s =
     take limit (drop offset (sort_key (\<lambda>e. - we_started_at e)
       (filter (\<lambda>e. case status of Some st \<Rightarrow> we_status e = st | None \<Rightarrow> True) (filter_map (mb_executions s) ids))))"

definition write_snapshot :: "snapshot \<Rightarrow> in_memory_backend \<Rightarrow> in_memory_backend" where
  "write_snapshot snap s =
     s\<lparr>mb_snapshots := (mb_snapshots s)(sn_execution_id snap \<mapsto>
         (case mb_snapshots s (sn_execution_id snap) of Some l \<Rightarrow> l | None \<Rightarrow> []) @ [snap])\<rparr>"

text \<open>\<^verbatim>\<open>Iterator::max_by_key\<close>: the last of the greatest.\<close>

definition max_by_at_sequence :: "snapshot list \<Rightarrow> snapshot option" where
  "max_by_at_sequence l =
     fold (\<lambda>snap best. case best of
             None \<Rightarrow> Some snap
           | Some b \<Rightarrow> if sn_at_sequence snap \<ge> sn_at_sequence b then Some snap else Some b) l None"

definition latest_snapshot :: "execution_id \<Rightarrow> in_memory_backend \<Rightarrow> snapshot option" where
  "latest_snapshot e s = Option.bind (mb_snapshots s e) max_by_at_sequence"

definition materialize :: "execution_id \<Rightarrow> in_memory_backend \<Rightarrow> backend_error + materialized_state" where
  "materialize e s =
     and_then (ok_or (NotFound (exec_label e)) (get_execution e s)) (\<lambda>execution.
       Inr (materialize_from (we_initial_input execution) (latest_snapshot e s) (\<lambda>since. get_events_since e since s)))"

definition create_run ::
    "(event_sequence \<Rightarrow> uuid) \<Rightarrow> timestamp \<Rightarrow> workflow_execution \<Rightarrow> snapshot option \<Rightarrow> event_kind \<Rightarrow> event_kind \<Rightarrow> work_item \<Rightarrow>
     in_memory_backend \<Rightarrow> in_memory_backend" where
  "create_run fresh now execution seed_snapshot started_event scheduled_event work_item s =
     (let e = we_execution_id execution;
          s = (case seed_snapshot of
                 Some snap \<Rightarrow>
                   s\<lparr>mb_snapshots := (mb_snapshots s)(e \<mapsto> (case mb_snapshots s e of Some l \<Rightarrow> l | None \<Rightarrow> []) @ [snap])\<rparr>
               | None \<Rightarrow> s);
          s = fold (\<lambda>kind s. fst (push_event (event_new (fresh (mb_next_sequence s)) now e 0 kind) s))
                [started_event, scheduled_event] s
      in s\<lparr>mb_executions := (mb_executions s)(e \<mapsto> execution),
           mb_work_items := (mb_work_items s)(wi_id work_item \<mapsto> work_item)\<rparr>)"

definition create_segment_atomic where
  "create_segment_atomic fresh now execution seed_snapshot started_event scheduled_event work_item s =
     create_run fresh now execution (Some seed_snapshot) started_event scheduled_event work_item s"

definition start_execution_atomic where
  "start_execution_atomic fresh now execution started_event scheduled_event work_item s =
     create_run fresh now execution None started_event scheduled_event work_item s"

section \<open>Effects and artifacts\<close>

definition get_tool_effect :: "string \<Rightarrow> in_memory_backend \<Rightarrow> json option" where
  "get_tool_effect key s = mb_tool_effects s key"

definition release_tool_reservation :: "string \<Rightarrow> string \<Rightarrow> int \<Rightarrow> in_memory_backend \<Rightarrow> in_memory_backend" where
  "release_tool_reservation key owner lease_fence s =
     (case mb_tool_reservations s key of
        Some (holder, fence, _) \<Rightarrow>
          if holder = owner \<and> fence = lease_fence
          then s\<lparr>mb_tool_reservations := (mb_tool_reservations s)(key := None)\<rparr> else s
      | None \<Rightarrow> s)"

text \<open>\<^verbatim>\<open>Duration::from_std\<close> refuses a time past \<^verbatim>\<open>i64\<close> milliseconds; five minutes stand in for it.\<close>

definition reservation_expiry :: "timestamp \<Rightarrow> nat \<Rightarrow> timestamp" where
  "reservation_expiry now ttl_ms = now + (if int ttl_ms \<le> 2 ^ 63 - 1 then int ttl_ms else 300000)"

definition reserve_tool_effect ::
    "externals \<Rightarrow> timestamp \<Rightarrow> string \<Rightarrow> string \<Rightarrow> int \<Rightarrow> nat \<Rightarrow> in_memory_backend \<Rightarrow> in_memory_backend \<times> reserve_outcome" where
  "reserve_tool_effect x now key owner lease_fence ttl_ms s =
     (let mine = (owner, lease_fence, reservation_expiry now ttl_ms)
      in (case mb_tool_reservations s key of
            None \<Rightarrow> (s\<lparr>mb_tool_reservations := (mb_tool_reservations s)(key \<mapsto> mine)\<rparr>, Acquired)
          | Some (holder, _, holder_expiry) \<Rightarrow>
              if holder = owner \<or> holder_expiry \<le> now
              then (s\<lparr>mb_tool_reservations := (mb_tool_reservations s)(key \<mapsto> mine)\<rparr>, Acquired)
              else (s, Held holder (x_to_rfc3339 x holder_expiry))))"

definition put_artifact ::
    "externals \<Rightarrow> nat list \<Rightarrow> string option \<Rightarrow> in_memory_backend \<Rightarrow> in_memory_backend \<times> artifact_ref" where
  "put_artifact x bytes media_type s =
     (let hash = sha256_hex x bytes; key = (default_tenant, hash);
          stored = (case mb_artifacts s key of Some e \<Rightarrow> e | None \<Rightarrow> (bytes, media_type))
      in (s\<lparr>mb_artifacts := (mb_artifacts s)(key \<mapsto> stored)\<rparr>,
          \<lparr>art_hash = hash, art_size = length bytes, art_media_type = snd stored\<rparr>))"

definition get_artifact :: "string \<Rightarrow> in_memory_backend \<Rightarrow> nat list option" where
  "get_artifact hash s = map_option fst (mb_artifacts s (default_tenant, hash))"

section \<open>The work queue\<close>

definition epoch_of :: "in_memory_backend \<Rightarrow> work_item_id \<Rightarrow> int" where
  "epoch_of s i = (case mb_lease_epochs s i of Some e \<Rightarrow> e | None \<Rightarrow> 0)"

definition next_epoch :: "in_memory_backend \<Rightarrow> work_item_id \<Rightarrow> int" where
  "next_epoch s i = wrap_i64 (epoch_of s i + 1)"

definition mint_fence :: "in_memory_backend \<Rightarrow> int \<Rightarrow> int" where
  "mint_fence s epoch = wrap_i64 (mb_store_term s * 4294967296 + epoch)"

definition enqueue_work_item :: "work_item \<Rightarrow> in_memory_backend \<Rightarrow> in_memory_backend \<times> work_item_id" where
  "enqueue_work_item item s = (s\<lparr>mb_work_items := (mb_work_items s)(wi_id item \<mapsto> item)\<rparr>, wi_id item)"

definition run_is_terminal :: "in_memory_backend \<Rightarrow> execution_id \<Rightarrow> bool" where
  "run_is_terminal s e = (case mb_executions s e of Some entry \<Rightarrow> is_terminal (we_status entry) | None \<Rightarrow> False)"

definition lapsed :: "timestamp \<Rightarrow> work_item \<Rightarrow> bool" where
  "lapsed now item = ((case wi_lease_expires_at item of Some t \<Rightarrow> t < now | None \<Rightarrow> False) \<and> wi_worker_id item \<noteq> None)"

definition holder_of :: "work_item \<Rightarrow> string \<times> int" where
  "holder_of item = ((case wi_worker_id item of Some w \<Rightarrow> w | None \<Rightarrow> []), wi_lease_fence item)"

text \<open>The body of the reclaim loop of a claim: an item of a terminal run is withdrawn, one with attempts
  left is re-queued, remembering its holder and moving its epoch on.\<close>

definition expire_item ::
    "timestamp \<Rightarrow> work_item_id \<Rightarrow> in_memory_backend \<times> work_item list \<times> work_item_id list \<Rightarrow>
     in_memory_backend \<times> work_item list \<times> work_item_id list" where
  "expire_item now i acc =
     (case acc of (s, lost, withdrawn) \<Rightarrow>
       (case mb_work_items s i of
          None \<Rightarrow> acc
        | Some item \<Rightarrow>
            if \<not> lapsed now item then acc
            else if run_is_terminal s (wi_execution_id item) then (s, lost, withdrawn @ [wi_id item])
            else if wrap_u32 (wi_attempt item + 1) < wi_max_attempts item
            then (s\<lparr>mb_last_lease := (mb_last_lease s)(wi_id item \<mapsto> holder_of item),
                    mb_lease_epochs := (mb_lease_epochs s)(wi_id item \<mapsto> next_epoch s (wi_id item)),
                    mb_work_items := (mb_work_items s)(i \<mapsto>
                      item\<lparr>wi_worker_id := None, wi_lease_expires_at := None, wi_lease_fence := 0,
                           wi_attempt := wrap_u32 (wi_attempt item + 1)\<rparr>)\<rparr>,
                  lost @ [item], withdrawn)
            else acc))"

definition remove_item :: "work_item_id \<Rightarrow> in_memory_backend \<Rightarrow> in_memory_backend" where
  "remove_item i s = s\<lparr>mb_work_items := (mb_work_items s)(i := None)\<rparr>"

definition record_expiry :: "(event_sequence \<Rightarrow> uuid) \<Rightarrow> timestamp \<Rightarrow> work_item \<Rightarrow> in_memory_backend \<Rightarrow> in_memory_backend" where
  "record_expiry fresh now item s =
     fold (\<lambda>kind s. fst (append_event (event_new (fresh (mb_next_sequence s)) now (wi_execution_id item)
                            (wrap_i64 (latest_sequence (wi_execution_id item) s + 1)) kind) s))
       (lease_expiry_events item) s"

definition expire_leases ::
    "(event_sequence \<Rightarrow> uuid) \<Rightarrow> timestamp \<Rightarrow> work_item_id list \<Rightarrow> in_memory_backend \<Rightarrow> in_memory_backend" where
  "expire_leases fresh now ids s =
     (case fold (expire_item now) ids (s, [], []) of (s, lost, withdrawn) \<Rightarrow>
        fold (record_expiry fresh now) lost (fold remove_item withdrawn s))"

definition claimable :: "string list \<Rightarrow> in_memory_backend \<Rightarrow> work_item_id \<Rightarrow> bool" where
  "claimable queue_types s i =
     (case mb_work_items s i of
        Some item \<Rightarrow> wi_worker_id item = None \<and> wi_queue_type item \<in> set queue_types
      | None \<Rightarrow> False)"

definition grant :: "timestamp \<Rightarrow> string \<Rightarrow> nat \<Rightarrow> int \<Rightarrow> work_item \<Rightarrow> work_item" where
  "grant now worker lease_len fence item =
     item\<lparr>wi_worker_id := Some worker, wi_lease_expires_at := Some (now + int lease_len * 1000), wi_lease_fence := fence\<rparr>"

definition take_lease :: "timestamp \<Rightarrow> string \<Rightarrow> nat \<Rightarrow> work_item_id \<Rightarrow> work_item \<Rightarrow> in_memory_backend \<Rightarrow> in_memory_backend \<times> work_item" where
  "take_lease now worker lease_len key item s =
     (let i = wi_id item; new_epoch = next_epoch s i;
          item = grant now worker lease_len (mint_fence s new_epoch) item
      in (s\<lparr>mb_lease_epochs := (mb_lease_epochs s)(i \<mapsto> new_epoch),
            mb_work_items := (mb_work_items s)(key \<mapsto> item),
            mb_lease_secs := (mb_lease_secs s)(i \<mapsto> lease_len),
            mb_last_lease := (mb_last_lease s)(i := None)\<rparr>, item))"

definition claim_work_item_with_lease ::
    "(event_sequence \<Rightarrow> uuid) \<Rightarrow> timestamp \<Rightarrow> work_item_id list \<Rightarrow> string \<Rightarrow> string list \<Rightarrow> nat option \<Rightarrow>
     in_memory_backend \<Rightarrow> in_memory_backend \<times> work_item option" where
  "claim_work_item_with_lease fresh now ids worker queue_types lease_secs s =
     (let s = expire_leases fresh now ids s
      in (case List.find (claimable queue_types s) ids of
            None \<Rightarrow> (s, None)
          | Some i \<Rightarrow>
              (case mb_work_items s i of
                 None \<Rightarrow> (s, None)
               | Some item \<Rightarrow>
                   (let (s, item) = take_lease now worker (granted_lease_secs lease_secs) i item s in (s, Some item)))))"

definition claim_work_item where
  "claim_work_item fresh now ids worker queue_types s =
     claim_work_item_with_lease fresh now ids worker queue_types None s"

definition lease_len_of :: "in_memory_backend \<Rightarrow> work_item_id \<Rightarrow> nat" where
  "lease_len_of s i = (case mb_lease_secs s i of Some l \<Rightarrow> l | None \<Rightarrow> default_lease_secs)"

definition renew_lease ::
    "timestamp \<Rightarrow> work_item_id \<Rightarrow> string \<Rightarrow> int \<Rightarrow> in_memory_backend \<Rightarrow> in_memory_backend \<times> (backend_error + unit)" where
  "renew_lease now i worker lease_fence s =
     (case mb_work_items s i of
        None \<Rightarrow> (s, Inl (NotFound i))
      | Some entry \<Rightarrow>
          if wi_worker_id entry \<noteq> Some worker then (s, Inl (FenceLost (''lease not held by '' @ worker)))
          else if wi_lease_fence entry \<noteq> lease_fence then (s, Inl (FenceLost i))
          else (s\<lparr>mb_work_items := (mb_work_items s)(i \<mapsto>
                     entry\<lparr>wi_lease_expires_at := Some (now + int (lease_len_of s i) * 1000)\<rparr>)\<rparr>, Inr ()))"

definition reattach ::
    "timestamp \<Rightarrow> work_item_id \<Rightarrow> string \<Rightarrow> int \<Rightarrow> in_memory_backend \<Rightarrow> in_memory_backend \<times> (backend_error + lease_renewal)" where
  "reattach now i worker lease_fence s =
     (case mb_last_lease s i of
        None \<Rightarrow> (s, Inl (FenceLost i))
      | Some (last_worker, last_fence) \<Rightarrow>
          if last_worker \<noteq> worker \<or> last_fence \<noteq> lease_fence then (s, Inl (FenceLost i))
          else (case mb_work_items s i of
            None \<Rightarrow> (s, Inl (NotFound i))
          | Some entry \<Rightarrow>
              if wi_worker_id entry \<noteq> None \<or> epoch_of s i \<noteq> epoch_after_expiry_of lease_fence
              then (s, Inl (FenceLost i))
              else
                (let new_epoch = wrap_i64 (epoch_of s i + 1); fence = mint_fence s new_epoch;
                     entry = (grant now worker (lease_len_of s i) fence entry)\<lparr>wi_attempt := wi_attempt entry - 1\<rparr>
                 in (s\<lparr>mb_lease_epochs := (mb_lease_epochs s)(i \<mapsto> new_epoch),
                       mb_work_items := (mb_work_items s)(i \<mapsto> entry),
                       mb_last_lease := (mb_last_lease s)(i := None)\<rparr>,
                     Inr \<lparr>lr_lease_fence = fence, lr_reattached = True\<rparr>))))"

definition heartbeat_lease ::
    "timestamp \<Rightarrow> work_item_id \<Rightarrow> string \<Rightarrow> int \<Rightarrow> in_memory_backend \<Rightarrow> in_memory_backend \<times> (backend_error + lease_renewal)" where
  "heartbeat_lease now i worker lease_fence s =
     (case renew_lease now i worker lease_fence s of
        (s, Inr _) \<Rightarrow> (s, Inr \<lparr>lr_lease_fence = lease_fence, lr_reattached = False\<rparr>)
      | (s, Inl (FenceLost _)) \<Rightarrow> reattach now i worker lease_fence s
      | (s, Inl e) \<Rightarrow> (s, Inl e))"

definition get_work_item :: "work_item_id \<Rightarrow> in_memory_backend \<Rightarrow> work_item option" where
  "get_work_item i s = mb_work_items s i"

definition complete_work_item :: "work_item_id \<Rightarrow> in_memory_backend \<Rightarrow> in_memory_backend" where
  "complete_work_item i s = remove_item i s"

text \<open>Claimed under this fence: the guard of the fenced settles.\<close>

definition held_under :: "in_memory_backend \<Rightarrow> work_item_id \<Rightarrow> int \<Rightarrow> bool" where
  "held_under s i lease_fence =
     (case mb_work_items s i of
        Some entry \<Rightarrow> wi_worker_id entry \<noteq> None \<and> wi_lease_fence entry = lease_fence
      | None \<Rightarrow> False)"

definition complete_work_item_fenced :: "work_item_id \<Rightarrow> int \<Rightarrow> in_memory_backend \<Rightarrow> in_memory_backend \<times> bool" where
  "complete_work_item_fenced i lease_fence s =
     (if held_under s i lease_fence then (remove_item i s, True) else (s, False))"

definition withdraw_work_item_fenced :: "work_item_id \<Rightarrow> int \<Rightarrow> in_memory_backend \<Rightarrow> in_memory_backend \<times> bool" where
  "withdraw_work_item_fenced i lease_fence s =
     (if held_under s i lease_fence then (remove_item i s, True) else (s, False))"

text \<open>The guard \<^verbatim>\<open>commit_turn\<close>, \<^verbatim>\<open>park_work_item\<close> and \<^verbatim>\<open>finalize_rollover_fenced\<close> use: the stored fence alone.\<close>

definition fence_matches :: "in_memory_backend \<Rightarrow> work_item_id \<Rightarrow> int \<Rightarrow> bool" where
  "fence_matches s i lease_fence =
     (case mb_work_items s i of Some entry \<Rightarrow> wi_lease_fence entry = lease_fence | None \<Rightarrow> False)"

definition fail_work_item :: "work_item_id \<Rightarrow> in_memory_backend \<Rightarrow> in_memory_backend \<times> (backend_error + unit)" where
  "fail_work_item i s =
     (case mb_work_items s i of Some _ \<Rightarrow> (remove_item i s, Inr ()) | None \<Rightarrow> (s, Inl (NotFound i)))"

definition with_last_error :: "string \<Rightarrow> json \<Rightarrow> json" where
  "with_last_error error payload =
     (case payload of JObject m \<Rightarrow> JObject (bt_insert ''last_error'' (JString error) m) | _ \<Rightarrow> payload)"

definition fail_work_item_fenced ::
    "work_item_id \<Rightarrow> int \<Rightarrow> string \<Rightarrow> in_memory_backend \<Rightarrow> in_memory_backend \<times> fail_outcome option" where
  "fail_work_item_fenced i lease_fence error s =
     (case mb_work_items s i of
        None \<Rightarrow> (s, None)
      | Some entry \<Rightarrow>
          if wi_worker_id entry = None \<or> wi_lease_fence entry \<noteq> lease_fence then (s, None)
          else
            (let new_attempt = wrap_u32 (wi_attempt entry + 1);
                 item = entry\<lparr>wi_attempt := new_attempt, wi_worker_id := None, wi_lease_expires_at := None,
                              wi_payload := with_last_error error (wi_payload entry)\<rparr>;
                 s = s\<lparr>mb_work_items := (mb_work_items s)(i \<mapsto> item),
                       mb_lease_epochs := (mb_lease_epochs s)(i \<mapsto> next_epoch s i)\<rparr>
             in if new_attempt \<ge> wi_max_attempts item then (remove_item i s, Some (Exhausted item))
                else (s, Some (Retryable item (2 ^ min new_attempt 6 * 1000)))))"

section \<open>Turns\<close>

definition effect_json :: "node_completed \<Rightarrow> json" where
  "effect_json nc = json_object
     [(''output'', nc_output nc), (''state_patch'', nc_state_patch nc), (''duration_ms'', json_nat (nc_duration_ms nc)),
      (''gen_ai_system'', opt_json JString (nc_gen_ai_system nc)), (''gen_ai_model'', opt_json JString (nc_gen_ai_model nc)),
      (''input_tokens'', opt_json json_nat (nc_input_tokens nc)), (''output_tokens'', opt_json json_nat (nc_output_tokens nc)),
      (''finish_reason'', opt_json JString (nc_finish_reason nc))]"

definition is_turn_end :: "event_kind \<Rightarrow> bool" where
  "is_turn_end kind = (case kind of NodeCompleted _ \<Rightarrow> True | NodeFailed _ _ _ _ \<Rightarrow> True | _ \<Rightarrow> False)"

text \<open>\<^verbatim>\<open>INSERT OR IGNORE\<close>: the first result recorded under a key stays.\<close>

definition record_effect :: "event_kind \<Rightarrow> in_memory_backend \<Rightarrow> in_memory_backend" where
  "record_effect kind s =
     (case kind of
        NodeCompleted nc \<Rightarrow>
          (case nc_idempotency_key nc of
             Some key \<Rightarrow>
               (case mb_tool_effects s key of
                  None \<Rightarrow> s\<lparr>mb_tool_effects := (mb_tool_effects s)(key \<mapsto> effect_json nc)\<rparr>
                | Some _ \<Rightarrow> s)
           | None \<Rightarrow> s)
      | _ \<Rightarrow> s)"

definition snapshot_turn :: "(event_sequence \<Rightarrow> uuid) \<Rightarrow> timestamp \<Rightarrow> execution_id \<Rightarrow> in_memory_backend \<Rightarrow> in_memory_backend" where
  "snapshot_turn fresh now e s =
     (let (base, base_sequence) =
            (case latest_snapshot e s of
               Some snap \<Rightarrow> (of_snapshot snap, sn_at_sequence snap)
             | None \<Rightarrow> (origin_state (case mb_executions s e of Some entry \<Rightarrow> we_initial_input entry | None \<Rightarrow> JObject []), 0));
          mat = apply_events_seeded base (get_events_since e base_sequence s)
      in write_snapshot (from_materialized (fresh (mb_next_sequence s)) now e mat) s)"

definition commit_turn ::
    "(event_sequence \<Rightarrow> uuid) \<Rightarrow> timestamp \<Rightarrow> work_item_id \<Rightarrow> int \<Rightarrow> event \<Rightarrow> bool \<Rightarrow>
     in_memory_backend \<Rightarrow> in_memory_backend \<times> (backend_error + event_sequence)" where
  "commit_turn fresh now i lease_fence terminal_event do_snapshot s =
     (if \<not> is_turn_end (ev_kind terminal_event)
      then (s, Inl (DatabaseError ''commit_turn requires a terminal event (NodeCompleted/NodeFailed)''))
      else if \<not> fence_matches s i lease_fence then (s, Inl (FenceLost i))
      else
        (let s = remove_item i s;
             (s, seq) = push_event terminal_event s;
             s = record_effect (ev_kind terminal_event) s;
             s = (if do_snapshot then snapshot_turn fresh now (ev_execution_id terminal_event) s else s)
         in (s, Inr seq)))"

definition commit_turn_unless_terminal ::
    "(event_sequence \<Rightarrow> uuid) \<Rightarrow> timestamp \<Rightarrow> work_item_id \<Rightarrow> int \<Rightarrow> event \<Rightarrow> bool \<Rightarrow>
     in_memory_backend \<Rightarrow> in_memory_backend \<times> (backend_error + turn_commit)" where
  "commit_turn_unless_terminal fresh now i lease_fence terminal_event do_snapshot s =
     (case Option.bind (mb_executions s (ev_execution_id terminal_event))
             (\<lambda>entry. if is_terminal (we_status entry) then Some (we_status entry) else None) of
        Some status \<Rightarrow>
          (case withdraw_work_item_fenced i lease_fence s of
             (s, True) \<Rightarrow> (s, Inr (CommitTerminal status))
           | (s, False) \<Rightarrow> (s, Inl (FenceLost i)))
      | None \<Rightarrow>
          (case commit_turn fresh now i lease_fence terminal_event do_snapshot s of
             (s, Inr seq) \<Rightarrow> (s, Inr (Committed seq))
           | (s, Inl e) \<Rightarrow> (s, Inl e)))"

definition park_work_item :: "work_item_id \<Rightarrow> int \<Rightarrow> nat \<Rightarrow> in_memory_backend \<Rightarrow> in_memory_backend \<times> bool" where
  "park_work_item i lease_fence next_attempt s =
     (case mb_work_items s i of
        None \<Rightarrow> (s, False)
      | Some entry \<Rightarrow>
          if wi_lease_fence entry \<noteq> lease_fence then (s, False)
          else (s\<lparr>mb_lease_epochs := (mb_lease_epochs s)(i \<mapsto> next_epoch s i),
                  mb_work_items := (mb_work_items s)(i \<mapsto>
                    entry\<lparr>wi_attempt := next_attempt, wi_worker_id := None, wi_lease_expires_at := None,
                          wi_lease_fence := 0\<rparr>)\<rparr>, True))"

definition finalize_rollover_fenced ::
    "timestamp \<Rightarrow> execution_id \<Rightarrow> work_item_id \<Rightarrow> int \<Rightarrow> in_memory_backend \<Rightarrow> in_memory_backend \<times> bool" where
  "finalize_rollover_fenced now e i lease_fence s =
     (if \<not> fence_matches s i lease_fence then (s, False)
      else
        (let s = remove_item i s
         in (case mb_executions s e of
               Some entry \<Rightarrow>
                 if \<not> is_terminal (we_status entry)
                 then (s\<lparr>mb_executions := (mb_executions s)(e \<mapsto>
                            entry\<lparr>we_status := WfLimitExceeded, we_updated_at := now\<rparr>)\<rparr>, True)
                 else (s, True)
             | None \<Rightarrow> (s, True))))"

section \<open>Reclaiming expired leases\<close>

text \<open>The body of the loop of \<^verbatim>\<open>reclaim_expired_leases\<close>; the last component collects the items to
  dead-letter.\<close>

definition reclaim_item ::
    "timestamp \<Rightarrow> work_item_id \<Rightarrow> in_memory_backend \<times> work_item list \<times> work_item list \<Rightarrow>
     in_memory_backend \<times> work_item list \<times> work_item list" where
  "reclaim_item now i acc =
     (case acc of (s, retryable, dead) \<Rightarrow>
       (case mb_work_items s i of
          None \<Rightarrow> acc
        | Some item \<Rightarrow>
            if \<not> lapsed now item then acc
            else
              (let item = item\<lparr>wi_attempt := wrap_u32 (wi_attempt item + 1)\<rparr>
               in if wi_attempt item < wi_max_attempts item
                  then (let freed = item\<lparr>wi_worker_id := None, wi_lease_expires_at := None\<rparr>
                        in (s\<lparr>mb_last_lease := (mb_last_lease s)(wi_id item \<mapsto> holder_of item),
                              mb_work_items := (mb_work_items s)(i \<mapsto> freed),
                              mb_lease_epochs := (mb_lease_epochs s)(wi_id item \<mapsto> next_epoch s (wi_id item))\<rparr>,
                            retryable @ [freed], dead))
                  else (s\<lparr>mb_work_items := (mb_work_items s)(i \<mapsto> item)\<rparr>, retryable, dead @ [item]))))"

definition dead_letter_item :: "work_item \<Rightarrow> in_memory_backend \<Rightarrow> in_memory_backend" where
  "dead_letter_item item s =
     (remove_item (wi_id item) s)\<lparr>mb_dead_letter := (mb_dead_letter s)(wi_id item \<mapsto> item)\<rparr>"

definition reclaim_expired_leases ::
    "timestamp \<Rightarrow> work_item_id list \<Rightarrow> in_memory_backend \<Rightarrow> in_memory_backend \<times> reclaim_result" where
  "reclaim_expired_leases now ids s =
     (case fold (reclaim_item now) ids (s, [], []) of (s, retryable, dead) \<Rightarrow>
        (fold dead_letter_item dead s, \<lparr>rr_retryable = retryable, rr_exhausted = dead\<rparr>))"

definition move_to_dead_letter :: "work_item_id \<Rightarrow> in_memory_backend \<Rightarrow> in_memory_backend" where
  "move_to_dead_letter i s =
     (case mb_work_items s i of
        Some item \<Rightarrow> (remove_item i s)\<lparr>mb_dead_letter := (mb_dead_letter s)(i \<mapsto> item)\<rparr>
      | None \<Rightarrow> s)"

section \<open>Tokens, projections and tenants\<close>

definition create_token ::
    "string \<Rightarrow> string \<Rightarrow> timestamp \<Rightarrow> string \<Rightarrow> string \<Rightarrow> in_memory_backend \<Rightarrow> in_memory_backend \<times> string \<times> api_token" where
  "create_token secret i now name role s =
     (let plaintext = ''jj_'' @ filter (\<lambda>c. c \<noteq> CHR ''-'') secret;
          token = \<lparr>tk_id = i, tk_name = name, tk_role = role, tk_created_at = now, tk_expires_at = None,
                   tk_tenant_id = default_tenant\<rparr>
      in (s\<lparr>mb_tokens := (mb_tokens s)(plaintext \<mapsto> token)\<rparr>, plaintext, token))"

definition validate_token :: "string \<Rightarrow> in_memory_backend \<Rightarrow> api_token option" where
  "validate_token token s = mb_tokens s token"

definition put_row :: "approval_projection_row \<Rightarrow> in_memory_backend \<Rightarrow> in_memory_backend" where
  "put_row row s = s\<lparr>mb_proj_approvals := (mb_proj_approvals s)((pr_execution_id row, pr_node_id row) \<mapsto> row)\<rparr>"

definition set_projector_checkpoint :: "string \<Rightarrow> execution_id \<Rightarrow> int \<Rightarrow> in_memory_backend \<Rightarrow> in_memory_backend" where
  "set_projector_checkpoint projection e new_checkpoint s =
     s\<lparr>mb_projector_checkpoints := (mb_projector_checkpoints s)((projection, e) \<mapsto> new_checkpoint)\<rparr>"

definition apply_approval_projection :: "approval_projection_row \<Rightarrow> string \<Rightarrow> int \<Rightarrow> in_memory_backend \<Rightarrow> in_memory_backend" where
  "apply_approval_projection row projection new_checkpoint s =
     set_projector_checkpoint projection (pr_execution_id row) new_checkpoint (put_row row s)"

definition apply_approval_projection_batch ::
    "approval_projection_row list \<Rightarrow> string \<Rightarrow> execution_id \<Rightarrow> int \<Rightarrow> in_memory_backend \<Rightarrow> in_memory_backend" where
  "apply_approval_projection_batch rows projection e new_checkpoint s =
     set_projector_checkpoint projection e new_checkpoint (fold put_row rows s)"

definition get_approval_projection :: "(execution_id \<times> string) list \<Rightarrow> execution_id \<Rightarrow> in_memory_backend \<Rightarrow> approval_projection_row list" where
  "get_approval_projection ids e s =
     sort_key pr_node_id (filter_map (\<lambda>k. if fst k = e then mb_proj_approvals s k else None) ids)"

definition get_projector_checkpoint :: "string \<Rightarrow> execution_id \<Rightarrow> in_memory_backend \<Rightarrow> int" where
  "get_projector_checkpoint projection e s =
     (case mb_projector_checkpoints s (projection, e) of Some c \<Rightarrow> c | None \<Rightarrow> 0)"

definition create_tenant :: "tenant \<Rightarrow> in_memory_backend \<Rightarrow> in_memory_backend" where
  "create_tenant t s = s\<lparr>mb_tenants := (mb_tenants s)(tn_id t \<mapsto> t)\<rparr>"

definition get_tenant :: "string \<Rightarrow> in_memory_backend \<Rightarrow> tenant option" where
  "get_tenant i s = mb_tenants s i"

definition list_tenants :: "string list \<Rightarrow> in_memory_backend \<Rightarrow> tenant list" where
  "list_tenants ids s = filter_map (mb_tenants s) ids"

definition update_tenant :: "tenant \<Rightarrow> in_memory_backend \<Rightarrow> in_memory_backend" where
  "update_tenant t s = s\<lparr>mb_tenants := (mb_tenants s)(tn_id t \<mapsto> t)\<rparr>"

section \<open>Keys and digests read from the store\<close>

definition is_completion_of :: "node_id \<Rightarrow> event \<Rightarrow> bool" where
  "is_completion_of node e = (case ev_kind e of NodeCompleted nc \<Rightarrow> nc_node_id nc = node | _ \<Rightarrow> False)"

definition count_node_completions :: "execution_id \<Rightarrow> node_id \<Rightarrow> in_memory_backend \<Rightarrow> nat" where
  "count_node_completions e node s = length (filter (is_completion_of node) (get_events e s))"

definition derive_idempotency_key :: "externals \<Rightarrow> execution_id \<Rightarrow> node_id \<Rightarrow> in_memory_backend \<Rightarrow> string" where
  "derive_idempotency_key x e node s =
     idempotency_key x (exec_label e) 0 (count_node_completions e node s) node
       (content_hash x (case get_execution e s of Some entry \<Rightarrow> we_current_state entry | None \<Rightarrow> JObject []))"

definition read_action_basis :: "execution_id \<Rightarrow> node_id \<Rightarrow> string \<Rightarrow> json \<Rightarrow> in_memory_backend \<Rightarrow> action_basis" where
  "read_action_basis e node defn payload s =
     \<lparr>ab_run = exec_label e, ab_step = count_node_completions e node s, ab_definition = defn,
      ab_payload = action_payload payload\<rparr>"

definition derive_action_digest :: "externals \<Rightarrow> execution_id \<Rightarrow> node_id \<Rightarrow> string \<Rightarrow> json \<Rightarrow> in_memory_backend \<Rightarrow> string" where
  "derive_action_digest x e node defn payload s = basis_digest x (read_action_basis e node defn payload s) node"

end
