(* ===== verification/Backend_Steps.thy ===== *)
theory Backend_Steps
  imports Memory_Backend
begin

text \<open>
  The backend as a transition system: every operation of the in-memory backend that changes its state is
  one rule of \<open>backend_step\<close>, in any interleaving, with the contract of its callers as the rule's
  premises (fresh ids for what is created, counters inside their width).  A step that hands out a lease
  is labelled with the item and the fence.  The frame lemmas say which part of the store an operation
  leaves alone.
\<close>

section \<open>The transition system\<close>

type_synonym grant_label = "(work_item_id \<times> int) option"

text \<open>Counters far enough from the end of their width for one more operation: the sequence counter below
  \<open>2 ^ 62\<close> and every lease epoch below \<open>2 ^ 32 - 2\<close>, which a claim moves on by at most two, under a store
  term below \<open>2 ^ 31 - 1\<close>.\<close>

definition in_range :: "in_memory_backend \<Rightarrow> bool" where
  "in_range s =
     (mb_next_sequence s < 2 ^ 62 \<and> (\<forall>i. epoch_of s i < 2 ^ 32 - 2) \<and> mb_store_term s < 2 ^ 31 - 1)"

text \<open>An item as the engine creates it: never used before, unclaimed, under no fence.\<close>

definition fresh_item :: "in_memory_backend \<Rightarrow> work_item \<Rightarrow> bool" where
  "fresh_item s item =
     (mb_work_items s (wi_id item) = None \<and> mb_lease_epochs s (wi_id item) = None \<and> wi_worker_id item = None \<and>
      wi_lease_expires_at item = None \<and> wi_lease_fence item = 0)"

definition fresh_run :: "in_memory_backend \<Rightarrow> execution_id \<Rightarrow> bool" where
  "fresh_run s e = (mb_executions s e = None \<and> log_of s e = [] \<and> mb_snapshots s e = None)"

inductive backend_op ::
    "externals \<Rightarrow> (event_sequence \<Rightarrow> uuid) \<Rightarrow> in_memory_backend \<Rightarrow> grant_label \<Rightarrow> in_memory_backend \<Rightarrow> bool"
  for x fresh where
  op_store_workflow: "backend_op x fresh s None (fst (store_workflow x def s))"
| op_create_execution: "fresh_run s (we_execution_id ex) \<Longrightarrow> backend_op x fresh s None (create_execution ex s)"
| op_update_status: "backend_op x fresh s None (fst (update_execution_status now e st s))"
| op_update_state: "backend_op x fresh s None (fst (update_execution_current_state now e v s))"
| op_patch_array: "backend_op x fresh s None (fst (patch_append_array now e k v s))"
| op_finish: "backend_op x fresh s None (fst (finish_execution now ev st s))"
| op_append_if: "backend_op x fresh s None (fst (append_event_if ev cond s))"
| op_append: "backend_op x fresh s None (fst (append_event ev s))"
| op_snapshot:
    "materialize e s = Inr mat \<Longrightarrow> backend_op x fresh s None (write_snapshot (from_materialized i now e mat) s)"
| op_create_segment:
    "fresh_run s (we_execution_id ex) \<Longrightarrow> fresh_item s item \<Longrightarrow> sn_execution_id seed = we_execution_id ex \<Longrightarrow>
     sn_at_sequence seed = 0 \<Longrightarrow> sn_last_sequence seed = 0 \<Longrightarrow>
     backend_op x fresh s None (create_segment_atomic fresh now ex seed k1 k2 item s)"
| op_start:
    "fresh_run s (we_execution_id ex) \<Longrightarrow> fresh_item s item \<Longrightarrow>
     backend_op x fresh s None (start_execution_atomic fresh now ex k1 k2 item s)"
| op_reserve: "backend_op x fresh s None (fst (reserve_tool_effect x now key owner f ttl s))"
| op_release: "backend_op x fresh s None (release_tool_reservation key owner f s)"
| op_put_artifact: "backend_op x fresh s None (fst (put_artifact x bytes mt s))"
| op_enqueue: "fresh_item s item \<Longrightarrow> backend_op x fresh s None (fst (enqueue_work_item item s))"
| op_claim:
    "claim_work_item_with_lease fresh now ids w qs ls s = (s', r) \<Longrightarrow> distinct ids \<Longrightarrow> length ids < 2 ^ 60 \<Longrightarrow>
     backend_op x fresh s (map_option (\<lambda>item. (wi_id item, wi_lease_fence item)) r) s'"
| op_renew: "backend_op x fresh s None (fst (renew_lease now i w f s))"
| op_heartbeat:
    "heartbeat_lease now i w f s = (s', r) \<Longrightarrow>
     backend_op x fresh s (case r of Inr lr \<Rightarrow> if lr_reattached lr then Some (i, lr_lease_fence lr) else None | Inl _ \<Rightarrow> None) s'"
| op_complete: "backend_op x fresh s None (complete_work_item i s)"
| op_complete_fenced: "backend_op x fresh s None (fst (complete_work_item_fenced i f s))"
| op_withdraw: "backend_op x fresh s None (fst (withdraw_work_item_fenced i f s))"
| op_commit: "backend_op x fresh s None (fst (commit_turn fresh now i f ev snap s))"
| op_commit_unless: "backend_op x fresh s None (fst (commit_turn_unless_terminal fresh now i f ev snap s))"
| op_fail: "backend_op x fresh s None (fst (fail_work_item i s))"
| op_fail_fenced: "backend_op x fresh s None (fst (fail_work_item_fenced i f err s))"
| op_park: "backend_op x fresh s None (fst (park_work_item i f att s))"
| op_finalize: "backend_op x fresh s None (fst (finalize_rollover_fenced now e i f s))"
| op_reclaim: "distinct ids \<Longrightarrow> backend_op x fresh s None (fst (reclaim_expired_leases now ids s))"
| op_dead_letter: "backend_op x fresh s None (move_to_dead_letter i s)"
| op_token: "backend_op x fresh s None (fst (create_token secret i now nm role s))"
| op_project: "backend_op x fresh s None (apply_approval_projection row pn c s)"
| op_project_batch: "backend_op x fresh s None (apply_approval_projection_batch rows pn e c s)"
| op_checkpoint: "backend_op x fresh s None (set_projector_checkpoint pn e c s)"
| op_create_tenant: "backend_op x fresh s None (create_tenant t s)"
| op_update_tenant: "backend_op x fresh s None (update_tenant t s)"
| op_bump_term: "backend_op x fresh s None (fst (bump_store_term s))"
| op_set_term: "t < 2 ^ 31 - 1 \<Longrightarrow> backend_op x fresh s None (fst (set_store_term_at_least t s))"

definition backend_step where
  "backend_step x fresh s l s' = (in_range s \<and> backend_op x fresh s l s')"

inductive backend_trace ::
    "externals \<Rightarrow> (event_sequence \<Rightarrow> uuid) \<Rightarrow> in_memory_backend \<Rightarrow> grant_label list \<Rightarrow> in_memory_backend \<Rightarrow> bool"
  for x fresh where
  trace_nil: "backend_trace x fresh s [] s"
| trace_snoc: "backend_trace x fresh s ls s' \<Longrightarrow> backend_step x fresh s' l s'' \<Longrightarrow> backend_trace x fresh s (ls @ [l]) s''"

inductive_cases backend_trace_nilE: "backend_trace x fresh s [] s'"

section \<open>What an operation leaves alone\<close>

definition queue_part ::
    "in_memory_backend \<Rightarrow> (work_item_id \<rightharpoonup> work_item) \<times> (work_item_id \<rightharpoonup> int) \<times> int \<times> (work_item_id \<rightharpoonup> string \<times> int)" where
  "queue_part s = (mb_work_items s, mb_lease_epochs s, mb_store_term s, mb_last_lease s)"

named_theorems frame \<open>parts of the store an operation leaves alone\<close>

lemma push_event_frame [frame]:
  "queue_part (fst (push_event ev s)) = queue_part s" "mb_work_items (fst (push_event ev s)) = mb_work_items s"
  "mb_lease_epochs (fst (push_event ev s)) = mb_lease_epochs s" "mb_store_term (fst (push_event ev s)) = mb_store_term s"
  "mb_executions (fst (push_event ev s)) = mb_executions s" "mb_snapshots (fst (push_event ev s)) = mb_snapshots s"
  "mb_tool_effects (fst (push_event ev s)) = mb_tool_effects s" "mb_workflows (fst (push_event ev s)) = mb_workflows s"
  "mb_artifacts (fst (push_event ev s)) = mb_artifacts s" "mb_last_lease (fst (push_event ev s)) = mb_last_lease s"
  by (simp_all add: push_event_def Let_def queue_part_def)

lemma snd_push_event [simp]: "snd (push_event ev s) = mb_next_sequence s"
  by (simp add: push_event_def Let_def)

lemma snd_append_event [simp]: "snd (append_event ev s) = mb_next_sequence s"
  by (simp add: append_event_def)

lemma append_event_fst: "fst (append_event ev s) = fst (push_event ev s)"
  by (simp add: append_event_def)

text \<open>A property kept by every push is kept by the loops that push.\<close>

lemma fold_push_keeps:
  assumes "\<And>ev s. part (fst (push_event ev s)) = part s"
  shows "part (fold (\<lambda>kind s. fst (push_event (mk kind s) s)) ks s) = part s"
  by (induction ks arbitrary: s) (simp_all add: assms)

lemma record_expiry_keeps:
  assumes "\<And>ev s. part (fst (push_event ev s)) = part s"
  shows "part (record_expiry fresh now item s) = part s"
  unfolding record_expiry_def append_event_fst by (rule fold_push_keeps) (rule assms)

lemma fold_record_expiry_keeps:
  assumes "\<And>ev s. part (fst (push_event ev s)) = part s"
  shows "part (fold (record_expiry fresh now) items s) = part s"
  by (induction items arbitrary: s) (simp_all add: record_expiry_keeps [OF assms])

lemma create_run_push:
  "create_run fresh now ex seed k1 k2 item s =
     (let s1 = (case seed of
                  Some snap \<Rightarrow> s\<lparr>mb_snapshots := (mb_snapshots s)(we_execution_id ex \<mapsto>
                      (case mb_snapshots s (we_execution_id ex) of Some l \<Rightarrow> l | None \<Rightarrow> []) @ [snap])\<rparr>
                | None \<Rightarrow> s);
          s2 = fst (push_event (event_new (fresh (mb_next_sequence s1)) now (we_execution_id ex) 0 k1) s1);
          s3 = fst (push_event (event_new (fresh (mb_next_sequence s2)) now (we_execution_id ex) 0 k2) s2)
      in s3\<lparr>mb_executions := (mb_executions s3)(we_execution_id ex \<mapsto> ex),
            mb_work_items := (mb_work_items s3)(wi_id item \<mapsto> item)\<rparr>)"
  by (simp add: create_run_def Let_def)

text \<open>What \<^verbatim>\<open>commit_turn\<close> does once its guards have passed.\<close>

definition settle_turn where
  "settle_turn fresh now i ev snap s =
     (let s = record_effect (ev_kind ev) (fst (push_event ev (remove_item i s)))
      in if snap then snapshot_turn fresh now (ev_execution_id ev) s else s)"

lemma commit_turn_cases:
  "fst (commit_turn fresh now i f ev snap s) =
     (if is_turn_end (ev_kind ev) \<and> fence_matches s i f then settle_turn fresh now i ev snap s else s)"
  by (simp add: commit_turn_def settle_turn_def Let_def split_beta)

lemma commit_turn_ok:
  "snd (commit_turn fresh now i f ev snap s) =
     (if \<not> is_turn_end (ev_kind ev)
      then Inl (DatabaseError ''commit_turn requires a terminal event (NodeCompleted/NodeFailed)'')
      else if \<not> fence_matches s i f then Inl (FenceLost i) else Inr (mb_next_sequence s))"
  by (simp add: commit_turn_def Let_def split_beta remove_item_def)

lemma commit_unless_cases:
  "fst (commit_turn_unless_terminal fresh now i f ev snap s) =
     (if run_is_terminal s (ev_execution_id ev) then fst (withdraw_work_item_fenced i f s)
      else fst (commit_turn fresh now i f ev snap s))"
  by (auto simp: commit_turn_unless_terminal_def run_is_terminal_def split_beta split: option.split bool.split sum.split)

lemma snapshot_turn_frame [frame]:
  "queue_part (snapshot_turn fresh now e s) = queue_part s" "log_of (snapshot_turn fresh now e s) = log_of s"
  "mb_next_sequence (snapshot_turn fresh now e s) = mb_next_sequence s"
  "mb_executions (snapshot_turn fresh now e s) = mb_executions s"
  "mb_tool_effects (snapshot_turn fresh now e s) = mb_tool_effects s"
  "mb_workflows (snapshot_turn fresh now e s) = mb_workflows s"
  "mb_artifacts (snapshot_turn fresh now e s) = mb_artifacts s"
  by (simp_all add: snapshot_turn_def write_snapshot_def queue_part_def Let_def split_beta log_of_def [abs_def])

lemma record_effect_frame [frame]:
  "queue_part (record_effect k s) = queue_part s" "log_of (record_effect k s) = log_of s"
  "mb_next_sequence (record_effect k s) = mb_next_sequence s" "mb_executions (record_effect k s) = mb_executions s"
  "mb_snapshots (record_effect k s) = mb_snapshots s" "mb_workflows (record_effect k s) = mb_workflows s"
  "mb_artifacts (record_effect k s) = mb_artifacts s"
  by (cases k; simp add: record_effect_def queue_part_def log_of_def [abs_def] split: option.split)+

lemma remove_item_frame [frame]:
  "log_of (remove_item i s) = log_of s" "mb_next_sequence (remove_item i s) = mb_next_sequence s"
  "mb_executions (remove_item i s) = mb_executions s" "mb_snapshots (remove_item i s) = mb_snapshots s"
  "mb_tool_effects (remove_item i s) = mb_tool_effects s" "mb_workflows (remove_item i s) = mb_workflows s"
  "mb_artifacts (remove_item i s) = mb_artifacts s"
  by (simp_all add: remove_item_def log_of_def [abs_def])

end
