(* ===== verification/Backend_Fences.thy ===== *)
theory Backend_Fences
  imports Backend_Steps
begin

text \<open>
  Leases and fences.  The interface a fenced work queue promises is the locale \<open>fenced_queue\<close>: a grant
  is above every fence granted before, and what a holder presents is accepted only if it is the latest
  grant.  The loops that sweep expired leases share the locale \<open>lease_sweep\<close>.  Both are interpreted on
  the operations of the in-memory backend.
\<close>

section \<open>Fenced queues\<close>

locale fenced_queue =
  fixes step :: "'s \<Rightarrow> ('i \<times> int) option \<Rightarrow> 's \<Rightarrow> bool"
    and ok :: "'s \<Rightarrow> bool"
    and bound :: "'s \<Rightarrow> 'i \<Rightarrow> int"
    and accepts :: "'s \<Rightarrow> 'i \<Rightarrow> int \<Rightarrow> bool"
    and remembers :: "'s \<Rightarrow> 'i \<Rightarrow> int \<Rightarrow> bool"
  assumes ok_step: "ok s \<Longrightarrow> step s l s' \<Longrightarrow> ok s'"
    and bound_step: "ok s \<Longrightarrow> step s l s' \<Longrightarrow> bound s i \<le> bound s' i"
    and grant_above: "ok s \<Longrightarrow> step s (Some (i, f)) s' \<Longrightarrow> bound s i < f \<and> f \<le> bound s' i \<and> accepts s' i f"
    and accepts_step: "ok s \<Longrightarrow> step s l s' \<Longrightarrow> accepts s' i f \<Longrightarrow> l = Some (i, f) \<or> accepts s i f"
    and accepts_unique: "accepts s i f \<Longrightarrow> accepts s i g \<Longrightarrow> f = g"
    and remembers_step: "ok s \<Longrightarrow> step s l s' \<Longrightarrow> remembers s' i f \<Longrightarrow> remembers s i f \<or> accepts s i f"
    and grant_forgets: "ok s \<Longrightarrow> step s (Some (i, f)) s' \<Longrightarrow> \<not> remembers s' i g"
begin

inductive run :: "'s \<Rightarrow> ('i \<times> int) option list \<Rightarrow> 's \<Rightarrow> bool" where
  run_nil: "run s [] s"
| run_snoc: "run s ls s' \<Longrightarrow> step s' l s'' \<Longrightarrow> run s (ls @ [l]) s''"

text \<open>The fences granted for an item, in order.\<close>

definition granted :: "'i \<Rightarrow> ('i \<times> int) option list \<Rightarrow> int list" where
  "granted i ls = concat (map (\<lambda>l. case l of Some (j, f) \<Rightarrow> if j = i then [f] else [] | None \<Rightarrow> []) ls)"

lemma granted_snoc:
  "granted i (ls @ [l]) = granted i ls @ (case l of Some (j, f) \<Rightarrow> if j = i then [f] else [] | None \<Rightarrow> [])"
  by (simp add: granted_def)

lemma run_ok: "run s ls s' \<Longrightarrow> ok s \<Longrightarrow> ok s'"
  by (induction rule: run.induct) (auto intro: ok_step)

lemma granted_bounded:
  "run s ls s' \<Longrightarrow> ok s \<Longrightarrow>
     sorted_wrt (<) (granted i ls) \<and> (\<forall>f \<in> set (granted i ls). bound s i < f \<and> f \<le> bound s' i) \<and> bound s i \<le> bound s' i"
proof (induction rule: run.induct)
  case (run_nil s)
  then show ?case by (simp add: granted_def)
next
  case (run_snoc s ls s' l s'')
  have ok: "ok s'" using run_ok run_snoc by blast
  have mono: "bound s' i \<le> bound s'' i" using bound_step [OF ok run_snoc.hyps(2)] .
  show ?case
  proof (cases "\<exists>f. l = Some (i, f)")
    case True
    then obtain f where l: "l = Some (i, f)" by blast
    have "bound s' i < f \<and> f \<le> bound s'' i" using grant_above [OF ok] run_snoc.hyps(2) l by blast
    then show ?thesis using run_snoc mono l by (fastforce simp: granted_snoc sorted_wrt_append)
  next
    case False
    then have "granted i (ls @ [l]) = granted i ls" by (auto simp: granted_snoc split: option.split prod.split)
    then show ?thesis using run_snoc mono by fastforce
  qed
qed

lemma accepted_is_latest:
  "run s ls s' \<Longrightarrow> ok s \<Longrightarrow> granted i ls \<noteq> [] \<Longrightarrow> accepts s' i f \<Longrightarrow> f = last (granted i ls)"
proof (induction arbitrary: f rule: run.induct)
  case (run_nil s)
  then show ?case by (simp add: granted_def)
next
  case (run_snoc s ls s' l s'')
  have ok: "ok s'" using run_ok run_snoc by blast
  show ?case
  proof (cases "\<exists>g. l = Some (i, g)")
    case True
    then obtain g where l: "l = Some (i, g)" by blast
    then have "accepts s'' i g" using grant_above [OF ok] run_snoc.hyps(2) by blast
    then show ?thesis using accepts_unique run_snoc.prems(3) l by (auto simp: granted_snoc)
  next
    case False
    then have g: "granted i (ls @ [l]) = granted i ls" by (auto simp: granted_snoc split: option.split prod.split)
    have "accepts s' i f" using accepts_step [OF ok run_snoc.hyps(2) run_snoc.prems(3)] False by blast
    then show ?thesis using run_snoc.IH run_snoc.prems g by simp
  qed
qed

lemma remembered_is_latest:
  "run s ls s' \<Longrightarrow> ok s \<Longrightarrow> granted i ls \<noteq> [] \<Longrightarrow> remembers s' i f \<Longrightarrow> f = last (granted i ls)"
proof (induction arbitrary: f rule: run.induct)
  case (run_nil s)
  then show ?case by (simp add: granted_def)
next
  case (run_snoc s ls s' l s'')
  have ok: "ok s'" using run_ok run_snoc by blast
  have no: "\<nexists>g. l = Some (i, g)" using grant_forgets [OF ok] run_snoc.hyps(2) run_snoc.prems(3) by blast
  then have g: "granted i (ls @ [l]) = granted i ls" by (auto simp: granted_snoc split: option.split prod.split)
  have "remembers s' i f \<or> accepts s' i f" using remembers_step [OF ok run_snoc.hyps(2) run_snoc.prems(3)] .
  then show ?case
    using run_snoc.IH accepted_is_latest [OF run_snoc.hyps(1)] run_snoc.prems(1,2) g by auto
qed

lemma superseded_rejected:
  assumes "run s ls s'" "ok s" "f \<in> set (granted i ls)" "f \<noteq> last (granted i ls)"
  shows "\<not> accepts s' i f" and "\<not> remembers s' i f"
proof -
  have "granted i ls \<noteq> []" using assms(3) by auto
  then show "\<not> accepts s' i f" and "\<not> remembers s' i f"
    using accepted_is_latest [OF assms(1,2)] remembered_is_latest [OF assms(1,2)] assms(4) by blast+
qed

end

section \<open>What a step does to the queue\<close>

definition fence_bound :: "in_memory_backend \<Rightarrow> work_item_id \<Rightarrow> int" where
  "fence_bound s i = mb_store_term s * 4294967296 + epoch_of s i"

text \<open>The fence a settle under it would be accepted for; zero marks an item under no lease.\<close>

definition accepted :: "in_memory_backend \<Rightarrow> work_item_id \<Rightarrow> int \<Rightarrow> bool" where
  "accepted s i f = (f \<noteq> 0 \<and> fence_matches s i f)"

text \<open>The fence of the lease an item lost last, which its holder may re-attach under.\<close>

definition remembered :: "in_memory_backend \<Rightarrow> work_item_id \<Rightarrow> int \<Rightarrow> bool" where
  "remembered s i f = (\<exists>w. mb_last_lease s i = Some (w, f))"

definition item_ok :: "work_item_id \<Rightarrow> work_item \<Rightarrow> bool" where
  "item_ok i item = (wi_id item = i \<and> (wi_worker_id item \<noteq> None \<longrightarrow> wi_lease_fence item \<noteq> 0))"

definition queue_ok :: "in_memory_backend \<Rightarrow> bool" where
  "queue_ok s =
     (0 \<le> mb_store_term s \<and> (\<forall>i. 0 \<le> epoch_of s i) \<and> (\<forall>i item. mb_work_items s i = Some item \<longrightarrow> item_ok i item))"

definition evolves :: "in_memory_backend \<Rightarrow> in_memory_backend \<Rightarrow> bool" where
  "evolves s s' =
     ((queue_ok s \<longrightarrow> queue_ok s') \<and> mb_store_term s \<le> mb_store_term s' \<and> (\<forall>i. epoch_of s i \<le> epoch_of s' i) \<and>
      (\<forall>i f. accepted s' i f \<longrightarrow> accepted s i f) \<and> (\<forall>i f. remembered s' i f \<longrightarrow> remembered s i f \<or> accepted s i f))"

lemma evolves_refl [simp, intro]: "evolves s s"
  by (simp add: evolves_def)

lemma evolves_trans: "evolves s t \<Longrightarrow> evolves t u \<Longrightarrow> evolves s u"
  unfolding evolves_def by (meson order_trans)

lemma queue_part_eqs:
  assumes "queue_part s' = queue_part s"
  shows "mb_work_items s' = mb_work_items s" "mb_store_term s' = mb_store_term s" "epoch_of s' = epoch_of s"
    "accepted s' = accepted s" "remembered s' = remembered s" "queue_ok s' = queue_ok s"
proof -
  show p: "mb_work_items s' = mb_work_items s" "mb_store_term s' = mb_store_term s" "epoch_of s' = epoch_of s"
    using assms by (simp_all add: queue_part_def epoch_of_def [abs_def])
  show "remembered s' = remembered s" using assms by (simp add: queue_part_def remembered_def [abs_def])
  show "accepted s' = accepted s" by (intro ext) (simp add: accepted_def fence_matches_def p)
  show "queue_ok s' = queue_ok s" by (simp add: queue_ok_def p)
qed

lemma evolves_same:
  assumes "queue_part s' = queue_part s"
  shows "evolves s s'"
  by (simp add: evolves_def queue_part_eqs [OF assms])

lemma evolves_remove: "evolves s (remove_item i s)"
  by (auto simp: evolves_def queue_ok_def accepted_def fence_matches_def remembered_def remove_item_def epoch_of_def
      split: if_splits option.splits)

lemma next_epoch_in_range:
  assumes "queue_ok s" "epoch_of s i < 2 ^ 32"
  shows "next_epoch s i = epoch_of s i + 1"
proof -
  have "0 \<le> epoch_of s i" using assms(1) by (simp add: queue_ok_def)
  then show ?thesis unfolding next_epoch_def using assms(2) by (intro wrap_i64_id) simp_all
qed

text \<open>Freeing an item: its epoch moves on, and the fence it keeps is the one it had, or none.\<close>

lemma evolves_free:
  assumes ok: "queue_ok s" and item: "mb_work_items s i = Some item"
    and range: "epoch_of s i < 2 ^ 32" and free: "item_ok i freed" "wi_lease_fence freed \<in> {wi_lease_fence item, 0}"
    and s': "mb_work_items s' = (mb_work_items s)(i \<mapsto> freed)" "mb_lease_epochs s' = (mb_lease_epochs s)(i \<mapsto> next_epoch s i)"
      "mb_store_term s' = mb_store_term s"
      "\<forall>j g. remembered s' j g \<longrightarrow> remembered s j g \<or> accepted s j g"
  shows "evolves s s' \<and> (\<forall>j. j \<noteq> i \<longrightarrow> epoch_of s' j = epoch_of s j) \<and> epoch_of s' i = epoch_of s i + 1"
proof -
  have e: "epoch_of s' j = (if j = i then epoch_of s i + 1 else epoch_of s j)" for j
    using next_epoch_in_range [OF ok range] by (simp add: epoch_of_def s')
  have "accepted s' j f \<Longrightarrow> accepted s j f" for j f
    using free item by (auto simp: accepted_def fence_matches_def s' split: if_splits)
  moreover have "queue_ok s'" using ok free(1) e by (auto simp: queue_ok_def s' split: if_splits)
  ultimately show ?thesis using e s'(4) by (simp add: evolves_def s'(1-3))
qed

section \<open>Sweeps\<close>

text \<open>What a sweep does at one item: the queue evolves, no other epoch moves, and its own by at most one.\<close>

definition bumps :: "in_memory_backend \<Rightarrow> work_item_id \<Rightarrow> in_memory_backend \<Rightarrow> bool" where
  "bumps s i s' = (evolves s s' \<and> (\<forall>j. j \<noteq> i \<longrightarrow> epoch_of s' j = epoch_of s j) \<and> epoch_of s' i \<le> epoch_of s i + 1)"

locale lease_sweep =
  fixes body :: "work_item_id \<Rightarrow> in_memory_backend \<times> 'acc \<Rightarrow> in_memory_backend \<times> 'acc"
  assumes body_bumps: "queue_ok (fst acc) \<Longrightarrow> epoch_of (fst acc) i < 2 ^ 32 \<Longrightarrow> bumps (fst acc) i (fst (body i acc))"
begin

lemma sweep_evolves:
  "distinct ids \<Longrightarrow> queue_ok (fst acc) \<Longrightarrow> (\<forall>i \<in> set ids. epoch_of (fst acc) i < 2 ^ 32) \<Longrightarrow>
   evolves (fst acc) (fst (fold body ids acc)) \<and> (\<forall>j. j \<notin> set ids \<longrightarrow> epoch_of (fst (fold body ids acc)) j = epoch_of (fst acc) j) \<and>
   (\<forall>j. epoch_of (fst (fold body ids acc)) j \<le> epoch_of (fst acc) j + 1)"
proof (induction ids arbitrary: acc)
  case Nil
  then show ?case by simp
next
  case (Cons i ids)
  let ?a = "body i acc"
  have b: "bumps (fst acc) i (fst ?a)" using body_bumps Cons.prems by simp
  have ok: "queue_ok (fst ?a)" using b Cons.prems(2) by (simp add: bumps_def evolves_def)
  have same: "epoch_of (fst ?a) j = epoch_of (fst acc) j" if "j \<noteq> i" for j using b that by (simp add: bumps_def)
  have "\<forall>j \<in> set ids. epoch_of (fst ?a) j < 2 ^ 32"
  proof
    fix j assume "j \<in> set ids"
    then have "j \<noteq> i" "epoch_of (fst acc) j < 2 ^ 32" using Cons.prems by auto
    then show "epoch_of (fst ?a) j < 2 ^ 32" using same by metis
  qed
  from Cons.IH [OF _ ok this] have ih: "evolves (fst ?a) (fst (fold body ids ?a))"
    "\<And>j. j \<notin> set ids \<Longrightarrow> epoch_of (fst (fold body ids ?a)) j = epoch_of (fst ?a) j"
    "\<And>j. epoch_of (fst (fold body ids ?a)) j \<le> epoch_of (fst ?a) j + 1" using Cons.prems(1) by auto
  have "epoch_of (fst (fold body ids ?a)) j \<le> epoch_of (fst acc) j + 1" for j
    using ih(2,3) [of j] same [of j] b Cons.prems(1) by (cases "j = i") (auto simp: bumps_def)
  moreover have "evolves (fst acc) (fst (fold body ids ?a))" using evolves_trans [OF _ ih(1)] b by (simp add: bumps_def)
  moreover have "epoch_of (fst (fold body ids ?a)) j = epoch_of (fst acc) j" if "j \<notin> set (i # ids)" for j
    using ih(2) [of j] same [of j] that by simp
  ultimately show ?case by simp
qed

end

lemma bumps_refl [simp]: "bumps s i s"
  by (simp add: bumps_def)

lemma wi_id_key: "queue_ok s \<Longrightarrow> mb_work_items s i = Some item \<Longrightarrow> wi_id item = i"
  by (simp add: queue_ok_def item_ok_def)

lemma held_accepted:
  "queue_ok s \<Longrightarrow> mb_work_items s i = Some item \<Longrightarrow> wi_worker_id item \<noteq> None \<Longrightarrow> accepted s i (wi_lease_fence item)"
  by (simp add: queue_ok_def item_ok_def accepted_def fence_matches_def)

lemma remembered_same: "mb_last_lease s' = mb_last_lease s \<Longrightarrow> \<forall>j g. remembered s' j g \<longrightarrow> remembered s j g \<or> accepted s j g"
  by (simp add: remembered_def)

lemma remembered_holder:
  assumes "queue_ok s" "mb_work_items s i = Some item" "lapsed now item"
    "mb_last_lease s' = (mb_last_lease s)(i \<mapsto> holder_of item)"
  shows "\<forall>j g. remembered s' j g \<longrightarrow> remembered s j g \<or> accepted s j g"
proof (intro allI impI)
  fix j g assume r: "remembered s' j g"
  have "wi_worker_id item \<noteq> None" using assms(3) by (simp add: lapsed_def)
  then have "accepted s i (wi_lease_fence item)" using held_accepted assms(1,2) by blast
  then show "remembered s j g \<or> accepted s j g"
    using r assms(4) by (auto simp: remembered_def holder_of_def split: if_splits)
qed

lemma bumps_free:
  assumes "queue_ok s" "mb_work_items s i = Some item" "epoch_of s i < 2 ^ 32" "item_ok i freed"
    "wi_lease_fence freed \<in> {wi_lease_fence item, 0}" "mb_work_items s' = (mb_work_items s)(i \<mapsto> freed)"
    "mb_lease_epochs s' = (mb_lease_epochs s)(i \<mapsto> next_epoch s i)" "mb_store_term s' = mb_store_term s"
    "\<forall>j g. remembered s' j g \<longrightarrow> remembered s j g \<or> accepted s j g"
  shows "bumps s i s'"
  using evolves_free [OF assms] by (simp add: bumps_def)

text \<open>Changing an item in place without touching its lease.\<close>

lemma bumps_touch:
  assumes "queue_ok s" "mb_work_items s i = Some item" "item_ok i item'" "wi_lease_fence item' = wi_lease_fence item"
    "mb_work_items s' = (mb_work_items s)(i \<mapsto> item')" "mb_lease_epochs s' = mb_lease_epochs s" "mb_store_term s' = mb_store_term s"
    "mb_last_lease s' = mb_last_lease s"
  shows "bumps s i s'"
proof -
  have e: "epoch_of s' = epoch_of s" by (intro ext) (simp add: epoch_of_def assms(6))
  have "accepted s' j f = accepted s j f" for j f using assms(2,4,5) by (simp add: accepted_def fence_matches_def)
  moreover have "queue_ok s'" using assms(1,3,5,7) e by (auto simp: queue_ok_def)
  moreover have "remembered s' = remembered s" by (simp add: remembered_def [abs_def] assms(8))
  ultimately show ?thesis by (simp add: bumps_def evolves_def e assms(7))
qed

interpretation expire: lease_sweep "expire_item now"
proof
  fix acc :: "in_memory_backend \<times> work_item list \<times> work_item_id list" and i
  obtain s lost wd where acc: "acc = (s, lost, wd)" by (cases acc)
  assume "queue_ok (fst acc)" and "epoch_of (fst acc) i < 2 ^ 32"
  then have ok: "queue_ok s" and r: "epoch_of s i < 2 ^ 32" by (simp_all add: acc)
  show "bumps (fst acc) i (fst (expire_item now i acc))"
  proof (cases "\<exists>item. mb_work_items s i = Some item \<and> lapsed now item \<and> \<not> run_is_terminal s (wi_execution_id item) \<and>
      wrap_u32 (wi_attempt item + 1) < wi_max_attempts item")
    case True
    then obtain item where item: "mb_work_items s i = Some item" "lapsed now item" "\<not> run_is_terminal s (wi_execution_id item)"
      "wrap_u32 (wi_attempt item + 1) < wi_max_attempts item" by blast
    have i: "wi_id item = i" using wi_id_key ok item(1) by simp
    have rem: "\<forall>j g. remembered (fst (expire_item now i acc)) j g \<longrightarrow> remembered s j g \<or> accepted s j g"
      by (rule remembered_holder [OF ok item(1,2)]) (use item i in \<open>simp add: acc expire_item_def\<close>)
    show ?thesis
      by (rule bumps_free [where item = item and freed = "item\<lparr>wi_worker_id := None, wi_lease_expires_at := None,
            wi_lease_fence := 0, wi_attempt := wrap_u32 (wi_attempt item + 1)\<rparr>"])
        (use ok r item i rem in \<open>simp_all add: acc expire_item_def item_ok_def\<close>)
  next
    case False
    then have "fst (expire_item now i acc) = s" by (auto simp: acc expire_item_def split: option.split)
    then show ?thesis by (simp add: acc)
  qed
qed

interpretation reclaim: lease_sweep "reclaim_item now"
proof
  fix acc :: "in_memory_backend \<times> work_item list \<times> work_item list" and i
  obtain s lost wd where acc: "acc = (s, lost, wd)" by (cases acc)
  assume "queue_ok (fst acc)" and "epoch_of (fst acc) i < 2 ^ 32"
  then have ok: "queue_ok s" and r: "epoch_of s i < 2 ^ 32" by (simp_all add: acc)
  show "bumps (fst acc) i (fst (reclaim_item now i acc))"
  proof (cases "\<exists>item. mb_work_items s i = Some item \<and> lapsed now item")
    case True
    then obtain item where item: "mb_work_items s i = Some item" "lapsed now item" by blast
    have i: "wi_id item = i" using wi_id_key ok item(1) by simp
    let ?item = "item\<lparr>wi_attempt := wrap_u32 (wi_attempt item + 1)\<rparr>"
    show ?thesis
    proof (cases "wi_attempt ?item < wi_max_attempts item")
      case True
      have rem: "\<forall>j g. remembered (fst (reclaim_item now i acc)) j g \<longrightarrow> remembered s j g \<or> accepted s j g"
        by (rule remembered_holder [OF ok item]) (use item i True in \<open>simp add: acc reclaim_item_def Let_def holder_of_def\<close>)
      show ?thesis
        by (rule bumps_free [where item = item and freed = "?item\<lparr>wi_worker_id := None, wi_lease_expires_at := None\<rparr>"])
          (use ok r item i True rem in \<open>simp_all add: acc reclaim_item_def item_ok_def Let_def\<close>)
    next
      case False
      show ?thesis
        by (rule bumps_touch [where item = item and item' = ?item])
          (use ok item i False held_accepted [OF ok item(1)] in \<open>simp_all add: acc reclaim_item_def item_ok_def Let_def accepted_def\<close>)
    qed
  next
    case False
    then have "fst (reclaim_item now i acc) = s" by (auto simp: acc reclaim_item_def split: option.split)
    then show ?thesis by (simp add: acc)
  qed
qed

section \<open>Every operation\<close>

definition grants :: "in_memory_backend \<Rightarrow> work_item_id \<Rightarrow> int \<Rightarrow> in_memory_backend \<Rightarrow> bool" where
  "grants s i f s' =
     (queue_ok s' \<and> mb_store_term s \<le> mb_store_term s' \<and> (\<forall>j. epoch_of s j \<le> epoch_of s' j) \<and>
      fence_bound s i < f \<and> f \<le> fence_bound s' i \<and> accepted s' i f \<and>
      (\<forall>j g. accepted s' j g \<longrightarrow> (j, g) = (i, f) \<or> accepted s j g) \<and>
      (\<forall>g. \<not> remembered s' i g) \<and> (\<forall>j g. remembered s' j g \<longrightarrow> remembered s j g \<or> accepted s j g))"

lemma evolves_grants:
  assumes "queue_ok s" "evolves s t" "grants t i f u"
  shows "grants s i f u"
proof -
  have "fence_bound s i \<le> fence_bound t i"
    using assms(2) by (auto simp: evolves_def fence_bound_def intro: add_mono)
  then have "fence_bound s i < f" using assms(3) by (auto simp: grants_def)
  moreover have "epoch_of s j \<le> epoch_of u j" for j
    using assms(2,3) order_trans [of "epoch_of s j" "epoch_of t j" "epoch_of u j"] by (simp add: evolves_def grants_def)
  moreover have "mb_store_term s \<le> mb_store_term u" using assms(2,3) by (auto simp: evolves_def grants_def)
  moreover have "accepted u j g \<Longrightarrow> (j, g) = (i, f) \<or> accepted s j g" for j g
    using assms(2,3) unfolding evolves_def grants_def by blast
  moreover have "remembered u j g \<Longrightarrow> remembered s j g \<or> accepted s j g" for j g
    using assms(2,3) unfolding evolves_def grants_def by blast
  ultimately show ?thesis using assms(3) unfolding grants_def by blast
qed

lemma mint_fence_in_range:
  assumes "queue_ok s" "mb_store_term s < 2 ^ 31 - 1" "0 \<le> e" "e < 2 ^ 32"
  shows "mint_fence s e = mb_store_term s * 4294967296 + e"
proof -
  have "0 \<le> mb_store_term s" using assms(1) by (simp add: queue_ok_def)
  moreover have "mb_store_term s * 4294967296 \<le> (2 ^ 31 - 2) * 4294967296" using assms(2) by (intro mult_right_mono) auto
  ultimately show ?thesis unfolding mint_fence_def using assms(3,4) by (intro wrap_i64_id) auto
qed

text \<open>Writing a lease at the next epoch grants its fence.\<close>

lemma grants_write:
  assumes ok: "queue_ok s" and "mb_store_term s < 2 ^ 31 - 1" and "epoch_of s i < 2 ^ 32 - 1"
    and s': "mb_store_term s' = mb_store_term s" "mb_lease_epochs s' = (mb_lease_epochs s)(i \<mapsto> next_epoch s i)"
      "mb_work_items s' = (mb_work_items s)(i \<mapsto> item)" "mb_last_lease s' = (mb_last_lease s)(i := None)"
    and item: "wi_id item = i" "wi_lease_fence item = mint_fence s (next_epoch s i)"
  shows "grants s i (mint_fence s (next_epoch s i)) s'"
proof -
  have pos: "0 \<le> epoch_of s i" "0 \<le> mb_store_term s" using ok by (simp_all add: queue_ok_def)
  have n: "next_epoch s i = epoch_of s i + 1" using next_epoch_in_range [OF ok] assms(3) by simp
  have f: "mint_fence s (next_epoch s i) = mb_store_term s * 4294967296 + (epoch_of s i + 1)"
    unfolding n by (rule mint_fence_in_range [OF ok assms(2)]) (use pos assms(3) in auto)
  have e: "epoch_of s' j = (if j = i then epoch_of s i + 1 else epoch_of s j)" for j
    using n by (simp add: epoch_of_def s')
  have "0 \<le> mb_store_term s * 4294967296" using pos by simp
  then have "wi_lease_fence item \<noteq> 0" using item(2) f pos by linarith
  then have "queue_ok s'" using ok e pos item(1) by (auto simp: queue_ok_def item_ok_def s' split: if_splits)
  moreover have "remembered s' j g \<Longrightarrow> j \<noteq> i \<and> remembered s j g" for j g by (auto simp: remembered_def s' split: if_splits)
  moreover have "accepted s' i (mint_fence s (next_epoch s i))"
    using item(2) f pos by (auto simp: accepted_def fence_matches_def s')
  moreover have "accepted s' j g \<Longrightarrow> (j, g) = (i, mint_fence s (next_epoch s i)) \<or> accepted s j g" for j g
    using item(2) by (auto simp: accepted_def fence_matches_def s' split: if_splits)
  ultimately show ?thesis using f e by (auto simp: grants_def fence_bound_def s')
qed

lemma evolves_fold_remove: "evolves s (fold remove_item is s)"
  by (induction "is" arbitrary: s) (auto intro: evolves_trans evolves_remove)

lemma evolves_dead_letter: "evolves s (dead_letter_item item s)"
  by (rule evolves_trans [OF evolves_remove evolves_same]) (simp add: dead_letter_item_def queue_part_def)

lemma evolves_fold_dead_letter: "evolves s (fold dead_letter_item items s)"
  by (induction items arbitrary: s) (auto intro: evolves_trans evolves_dead_letter)

lemma epoch_of_fold_remove [simp]: "epoch_of (fold remove_item is s) = epoch_of s"
  by (induction "is" arbitrary: s) (simp_all add: epoch_of_def [abs_def] remove_item_def)

lemma queue_part_record_expiry: "queue_part (fold (record_expiry fresh now) items s) = queue_part s"
  by (rule fold_record_expiry_keeps) (rule push_event_frame)

lemma expire_leases_evolves:
  assumes "queue_ok s" "distinct ids" "\<forall>i. epoch_of s i < 2 ^ 32 - 2"
  shows "evolves s (expire_leases fresh now ids s) \<and> (\<forall>j. epoch_of (expire_leases fresh now ids s) j \<le> epoch_of s j + 1)"
proof -
  obtain t lost wd where t: "fold (expire_item now) ids (s, [], []) = (t, lost, wd)" by (cases "fold (expire_item now) ids (s, [], [])")
  have "\<forall>i \<in> set ids. epoch_of s i < 2 ^ 32" using assms(3) by (auto intro: less_trans)
  from expire.sweep_evolves [where now = now and ids = ids and acc = "(s, [], [])"] assms(1,2) this
  have sweep: "evolves s t" "\<forall>j. epoch_of t j \<le> epoch_of s j + 1" by (simp_all add: t)
  let ?u = "fold remove_item wd t"
  have q: "queue_part (fold (record_expiry fresh now) lost ?u) = queue_part ?u" by (rule queue_part_record_expiry)
  have "evolves s (fold (record_expiry fresh now) lost ?u)"
    using evolves_trans [OF evolves_trans [OF sweep(1) evolves_fold_remove] evolves_same [OF q]] .
  then show ?thesis using sweep(2) queue_part_eqs(3) [OF q] by (simp add: expire_leases_def t)
qed

lemma claim_grants:
  assumes c: "claim_work_item_with_lease fresh now ids w qs ls s = (s', r)" and ok: "queue_ok s" "in_range s" "distinct ids"
  shows "case r of None \<Rightarrow> evolves s s' | Some item \<Rightarrow> grants s (wi_id item) (wi_lease_fence item) s'"
proof -
  let ?t = "expire_leases fresh now ids s"
  have ev: "evolves s ?t" "\<And>j. epoch_of ?t j \<le> epoch_of s j + 1"
    using expire_leases_evolves ok by (auto simp: in_range_def)
  have tok: "queue_ok ?t" using ev(1) ok(1) by (simp add: evolves_def)
  show ?thesis
  proof (cases "\<exists>i item. List.find (claimable qs ?t) ids = Some i \<and> mb_work_items ?t i = Some item")
    case True
    then obtain i item where f: "List.find (claimable qs ?t) ids = Some i" "mb_work_items ?t i = Some item" by blast
    have i: "wi_id item = i" using wi_id_key tok f(2) by blast
    have "epoch_of s i < 2 ^ 32 - 2" using ok(2) by (simp only: in_range_def)
    then have range: "epoch_of ?t i < 2 ^ 32 - 1" using ev(2) [of i] by linarith
    have st: "mb_store_term ?t = mb_store_term s"
    proof -
      have "mb_store_term (fst (fold (expire_item now) ids acc)) = mb_store_term (fst acc)" for acc
        by (induction ids arbitrary: acc) (auto simp: expire_item_def split: prod.split option.split)
      moreover have "mb_store_term (fold remove_item is u) = mb_store_term u" for "is" u
        by (induction "is" arbitrary: u) (simp_all add: remove_item_def)
      ultimately show ?thesis
        using fold_record_expiry_keeps [of mb_store_term] push_event_frame(4)
        by (simp add: expire_leases_def split: prod.split) (metis fst_conv)
    qed
    obtain u it where u: "take_lease now w (granted_lease_secs ls) i item ?t = (u, it)" by fastforce
    have r: "s' = u" "r = Some it" using c f u by (simp_all add: claim_work_item_with_lease_def)
    have it: "it = grant now w (granted_lease_secs ls) (mint_fence ?t (next_epoch ?t i)) item"
      "mb_store_term u = mb_store_term ?t" "mb_lease_epochs u = (mb_lease_epochs ?t)(i \<mapsto> next_epoch ?t i)"
      "mb_work_items u = (mb_work_items ?t)(i \<mapsto> it)" "mb_last_lease u = (mb_last_lease ?t)(i := None)" using u i by (auto simp: take_lease_def Let_def)
    have "grants ?t i (mint_fence ?t (next_epoch ?t i)) u"
      by (rule grants_write [OF tok _ range it(2,3,4,5)]) (use ok(2) st i it(1) in \<open>simp_all add: in_range_def grant_def\<close>)
    from evolves_grants [OF ok(1) ev(1) this] show ?thesis using r it(1) i by (simp add: grant_def)
  next
    case False
    then have "claim_work_item_with_lease fresh now ids w qs ls s = (?t, None)"
      by (cases "List.find (claimable qs ?t) ids") (auto simp: claim_work_item_with_lease_def Let_def)
    then show ?thesis using ev(1) c by simp
  qed
qed

lemma renew_evolves: "queue_ok s \<Longrightarrow> evolves s (fst (renew_lease now i w f s))"
proof (cases "mb_work_items s i")
  case (Some item)
  assume ok: "queue_ok s"
  let ?s' = "s\<lparr>mb_work_items := (mb_work_items s)(i \<mapsto> item\<lparr>wi_lease_expires_at := Some (now + int (lease_len_of s i) * 1000)\<rparr>)\<rparr>"
  have "bumps s i ?s'"
    by (rule bumps_touch [OF ok Some]) (use ok Some in \<open>simp_all add: queue_ok_def item_ok_def\<close>)
  then show ?thesis using Some by (simp add: renew_lease_def bumps_def)
qed (simp add: renew_lease_def)

lemma reattach_ok:
  assumes "reattach now i w f s = (s', Inr lr)"
  obtains entry where "mb_work_items s i = Some entry"
    and "lr = \<lparr>lr_lease_fence = mint_fence s (next_epoch s i), lr_reattached = True\<rparr>"
    and "s' = s\<lparr>mb_lease_epochs := (mb_lease_epochs s)(i \<mapsto> next_epoch s i),
            mb_work_items := (mb_work_items s)(i \<mapsto>
              (grant now w (lease_len_of s i) (mint_fence s (next_epoch s i)) entry)\<lparr>wi_attempt := wi_attempt entry - 1\<rparr>),
            mb_last_lease := (mb_last_lease s)(i := None)\<rparr>"
proof -
  obtain lw lf where l: "mb_last_lease s i = Some (lw, lf)" using assms by (cases "mb_last_lease s i") (auto simp: reattach_def)
  have g: "\<not> (lw \<noteq> w \<or> lf \<noteq> f)" using assms l by (auto simp: reattach_def split: if_splits)
  obtain entry where e: "mb_work_items s i = Some entry" using assms l g by (cases "mb_work_items s i") (auto simp: reattach_def)
  have h: "\<not> (wi_worker_id entry \<noteq> None \<or> epoch_of s i \<noteq> epoch_after_expiry_of f)"
    using assms l g e by (auto simp: reattach_def split: if_splits)
  show thesis
    by (rule that [OF e]) (use assms l g e h in \<open>simp_all add: reattach_def next_epoch_def Let_def\<close>)
qed

lemma heartbeat_grants:
  assumes h: "heartbeat_lease now i w f s = (s', r)" and ok: "queue_ok s" "in_range s"
  shows "case r of Inr lr \<Rightarrow> if lr_reattached lr then grants s i (lr_lease_fence lr) s' else evolves s s' | Inl _ \<Rightarrow> evolves s s'"
proof -
  obtain t q where t: "renew_lease now i w f s = (t, q)" by fastforce
  have ev: "evolves s t" using renew_evolves [OF ok(1), of now i w f] t by simp
  have lost: "q = Inl e \<Longrightarrow> t = s" for e using t by (auto simp: renew_lease_def split: option.splits if_splits)
  show ?thesis
  proof (cases "\<exists>m. q = Inl (FenceLost m)")
    case False
    show ?thesis
    proof (cases q)
      case (Inr u)
      then have "s' = t" "r = Inr \<lparr>lr_lease_fence = f, lr_reattached = False\<rparr>" using h t by (simp_all add: heartbeat_lease_def)
      then show ?thesis using ev by simp
    next
      case (Inl e)
      then have "s' = t \<and> r = Inl e" using h t False by (cases e) (simp_all add: heartbeat_lease_def)
      then show ?thesis using ev by simp
    qed
  next
    case True
    then have ra: "reattach now i w f s = (s', r)" using h t lost by (auto simp: heartbeat_lease_def)
    show ?thesis
    proof (cases r)
      case (Inl e)
      then have "s' = s" using ra by (auto simp: reattach_def Let_def split: option.splits prod.splits if_splits)
      then show ?thesis using Inl by simp
    next
      case (Inr lr)
      then have ra: "reattach now i w f s = (s', Inr lr)" using ra by simp
      obtain entry where e: "mb_work_items s i = Some entry"
        and lr: "lr = \<lparr>lr_lease_fence = mint_fence s (next_epoch s i), lr_reattached = True\<rparr>"
        and s': "s' = s\<lparr>mb_lease_epochs := (mb_lease_epochs s)(i \<mapsto> next_epoch s i),
            mb_work_items := (mb_work_items s)(i \<mapsto>
              (grant now w (lease_len_of s i) (mint_fence s (next_epoch s i)) entry)\<lparr>wi_attempt := wi_attempt entry - 1\<rparr>),
            mb_last_lease := (mb_last_lease s)(i := None)\<rparr>"
        by (rule reattach_ok [OF ra])
      have range: "mb_store_term s < 2 ^ 31 - 1" "epoch_of s i < 2 ^ 32 - 2" using ok(2) by (simp_all only: in_range_def)
      then have "epoch_of s i < 2 ^ 32 - 1" by linarith
      then have "grants s i (mint_fence s (next_epoch s i)) s'"
        by (rule grants_write [OF ok(1) range(1), where item = "(grant now w (lease_len_of s i) (mint_fence s (next_epoch s i)) entry)\<lparr>wi_attempt := wi_attempt entry - 1\<rparr>"])
          (use wi_id_key [OF ok(1) e] in \<open>simp_all add: s' grant_def\<close>)
      then show ?thesis by (simp add: Inr lr)
    qed
  qed
qed

lemma evolves_new_item: "fresh_item s item \<Longrightarrow> mb_work_items s' = (mb_work_items s)(wi_id item \<mapsto> item) \<Longrightarrow>
    mb_lease_epochs s' = mb_lease_epochs s \<Longrightarrow> mb_store_term s' = mb_store_term s \<Longrightarrow> mb_last_lease s' = mb_last_lease s \<Longrightarrow> evolves s s'"
  by (auto simp: fresh_item_def evolves_def queue_ok_def item_ok_def remembered_def accepted_def fence_matches_def epoch_of_def
      split: if_splits)

lemma create_run_evolves:
  assumes "fresh_item s item"
  shows "evolves s (create_run fresh now ex seed k1 k2 item s)"
  by (rule evolves_new_item [OF assms]) (simp_all add: create_run_push frame Let_def split: option.split)

lemma fail_fenced_evolves:
  assumes ok: "queue_ok s" "in_range s"
  shows "evolves s (fst (fail_work_item_fenced i f err s))"
proof (cases "\<exists>entry. mb_work_items s i = Some entry \<and> wi_worker_id entry \<noteq> None \<and> wi_lease_fence entry = f")
  case False
  then have "fst (fail_work_item_fenced i f err s) = s" by (auto simp: fail_work_item_fenced_def split: option.split)
  then show ?thesis by simp
next
  case True
  then obtain entry where e: "mb_work_items s i = Some entry" "wi_worker_id entry \<noteq> None" "wi_lease_fence entry = f" by blast
  let ?item = "entry\<lparr>wi_attempt := wrap_u32 (wi_attempt entry + 1), wi_worker_id := None, wi_lease_expires_at := None,
                  wi_payload := with_last_error err (wi_payload entry)\<rparr>"
  let ?t = "s\<lparr>mb_work_items := (mb_work_items s)(i \<mapsto> ?item), mb_lease_epochs := (mb_lease_epochs s)(i \<mapsto> next_epoch s i)\<rparr>"
  have "epoch_of s i < 2 ^ 32 - 2" using ok(2) by (simp only: in_range_def)
  then have "epoch_of s i < 2 ^ 32" by linarith
  then have "bumps s i ?t"
    by (rule bumps_free [OF ok(1) e(1)]) (use wi_id_key [OF ok(1) e(1)] in \<open>simp_all add: item_ok_def remembered_def\<close>)
  then have t: "evolves s ?t" by (simp add: bumps_def)
  have "fst (fail_work_item_fenced i f err s) =
      (if wi_attempt ?item \<ge> wi_max_attempts ?item then remove_item i ?t else ?t)"
    using e by (auto simp: fail_work_item_fenced_def Let_def)
  then show ?thesis using t evolves_trans [OF t evolves_remove] by simp
qed

lemma park_evolves:
  assumes ok: "queue_ok s" "in_range s"
  shows "evolves s (fst (park_work_item i f att s))"
proof (cases "\<exists>entry. mb_work_items s i = Some entry \<and> wi_lease_fence entry = f")
  case False
  then have "fst (park_work_item i f att s) = s" by (auto simp: park_work_item_def split: option.split)
  then show ?thesis by simp
next
  case True
  then obtain entry where e: "mb_work_items s i = Some entry" "wi_lease_fence entry = f" by blast
  have "epoch_of s i < 2 ^ 32 - 2" using ok(2) by (simp only: in_range_def)
  then have r: "epoch_of s i < 2 ^ 32" by linarith
  have "bumps s i (fst (park_work_item i f att s))"
    by (rule bumps_free [OF ok(1) e(1) r, of "entry\<lparr>wi_attempt := att, wi_worker_id := None, wi_lease_expires_at := None, wi_lease_fence := 0\<rparr>"])
      (use e wi_id_key [OF ok(1) e(1)] in \<open>simp_all add: park_work_item_def item_ok_def remembered_def\<close>)
  then show ?thesis by (simp add: bumps_def)
qed

lemma reclaim_evolves:
  assumes "queue_ok s" "in_range s" "distinct ids"
  shows "evolves s (fst (reclaim_expired_leases now ids s))"
proof -
  obtain t re dead where t: "fold (reclaim_item now) ids (s, [], []) = (t, re, dead)" by (cases "fold (reclaim_item now) ids (s, [], [])")
  have "epoch_of s i < 2 ^ 32" for i
  proof -
    have "epoch_of s i < 2 ^ 32 - 2" using assms(2) by (simp only: in_range_def)
    then show ?thesis by linarith
  qed
  then have "evolves s t"
    using reclaim.sweep_evolves [where now = now and ids = ids and acc = "(s, [], [])"] assms(1,3) by (simp add: t)
  from evolves_trans [OF this evolves_fold_dead_letter] show ?thesis by (simp add: reclaim_expired_leases_def t)
qed

lemma settle_turn_evolves: "evolves s (settle_turn fresh now i ev snap s)"
  by (rule evolves_trans [OF evolves_remove evolves_same]) (simp add: settle_turn_def frame Let_def)

lemma commit_turn_evolves: "evolves s (fst (commit_turn fresh now i f ev snap s))"
  by (simp add: commit_turn_cases settle_turn_evolves)

lemma withdraw_evolves: "evolves s (fst (withdraw_work_item_fenced i f s))"
  by (simp add: withdraw_work_item_fenced_def evolves_remove)

lemma evolves_term:
  assumes "mb_store_term s \<le> t"
  shows "evolves s (s\<lparr>mb_store_term := t\<rparr>)"
  using assms by (auto simp: evolves_def queue_ok_def accepted_def fence_matches_def remembered_def epoch_of_def)

text \<open>The operations that leave the queue alone.\<close>

lemma queue_part_others:
  "queue_part (fst (store_workflow x def s)) = queue_part s" "queue_part (create_execution ex s) = queue_part s"
  "queue_part (fst (update_execution_status now e st s)) = queue_part s"
  "queue_part (fst (update_execution_current_state now e v s)) = queue_part s"
  "queue_part (fst (patch_append_array now e k v s)) = queue_part s"
  "queue_part (fst (finish_execution now ev st s)) = queue_part s"
  "queue_part (fst (append_event_if ev cond s)) = queue_part s" "queue_part (fst (append_event ev s)) = queue_part s"
  "queue_part (fst (reserve_tool_effect x now key owner f ttl s)) = queue_part s"
  "queue_part (release_tool_reservation key owner f s) = queue_part s" "queue_part (fst (put_artifact x bytes mt s)) = queue_part s"
  "queue_part (fst (create_token secret i now nm role s)) = queue_part s"
  "queue_part (apply_approval_projection row pn c s) = queue_part s"
  "queue_part (set_projector_checkpoint pn e c s) = queue_part s"
  "queue_part (create_tenant t s) = queue_part s" "queue_part (update_tenant t s) = queue_part s"
  "queue_part (write_snapshot snap s) = queue_part s"
  by (simp_all add: store_workflow_def create_execution_def update_execution_status_def update_execution_current_state_def
      patch_append_array_def update_execution_def finish_execution_def append_event_if_def append_event_def
      reserve_tool_effect_def release_tool_reservation_def put_artifact_def create_token_def apply_approval_projection_def
      put_row_def set_projector_checkpoint_def create_tenant_def update_tenant_def write_snapshot_def push_event_def queue_part_def Let_def
      split: option.split prod.split)

lemma queue_part_batch: "queue_part (apply_approval_projection_batch rows pn e c s) = queue_part s"
proof -
  have "queue_part (fold put_row rows s) = queue_part s"
    by (induction rows arbitrary: s) (simp_all add: put_row_def queue_part_def)
  then show ?thesis by (simp add: apply_approval_projection_batch_def set_projector_checkpoint_def queue_part_def)
qed

lemma op_evolves:
  assumes "backend_op x fresh s l s'" and "queue_ok s" and "in_range s"
  shows "case l of None \<Rightarrow> evolves s s' | Some (i, f) \<Rightarrow> grants s i f s'"
  using assms
proof (cases rule: backend_op.cases)
  case (op_claim now ids w qs ls r)
  then show ?thesis using claim_grants [OF op_claim(2) assms(2,3)] by (auto split: option.splits)
next
  case (op_heartbeat now i w f r)
  then show ?thesis using heartbeat_grants [OF op_heartbeat(2) assms(2,3)] by (auto split: sum.splits if_splits)
next
  case op_complete
  then show ?thesis by (simp add: complete_work_item_def evolves_remove)
next
  case op_complete_fenced
  then show ?thesis by (simp add: complete_work_item_fenced_def evolves_remove)
next
  case op_commit_unless
  then show ?thesis by (simp add: commit_unless_cases commit_turn_evolves withdraw_evolves)
next
  case op_fail
  then show ?thesis by (simp add: fail_work_item_def evolves_remove split: option.split)
next
  case (op_finalize now e i f)
  have "queue_part (fst (finalize_rollover_fenced now e i f s)) =
      queue_part (if fence_matches s i f then remove_item i s else s)"
    by (simp add: finalize_rollover_fenced_def Let_def queue_part_def split: option.split)
  from evolves_same [OF this] show ?thesis
    using op_finalize evolves_trans [OF evolves_remove] by (auto split: if_splits)
next
  case (op_dead_letter i)
  have "queue_part (move_to_dead_letter i s) = queue_part (if mb_work_items s i = None then s else remove_item i s)"
    by (simp add: move_to_dead_letter_def queue_part_def split: option.split)
  from evolves_same [OF this] show ?thesis
    using op_dead_letter evolves_trans [OF evolves_remove] by (auto split: if_splits)
next
  case op_bump_term
  have "wrap_i64 (mb_store_term s + 1) = mb_store_term s + 1"
    using assms(2,3) by (intro wrap_i64_id) (auto simp: queue_ok_def in_range_def)
  then show ?thesis using op_bump_term evolves_term [of s "mb_store_term s + 1"] by (simp add: bump_store_term_def Let_def)
next
  case (op_set_term t)
  then show ?thesis using evolves_term [of s "max (mb_store_term s) t"] by (simp add: set_store_term_at_least_def Let_def)
next
  case (op_enqueue item)
  then show ?thesis using evolves_new_item [of s item s'] by (simp add: enqueue_work_item_def)
qed (simp_all add: evolves_same queue_part_others queue_part_batch create_segment_atomic_def start_execution_atomic_def
    create_run_evolves renew_evolves withdraw_evolves commit_turn_evolves fail_fenced_evolves park_evolves reclaim_evolves)

interpretation mq: fenced_queue "backend_step x fresh" queue_ok fence_bound accepted remembered
proof
  fix s l s' i f
  assume ok: "queue_ok s" and st: "backend_step x fresh s l s'"
  then have op: "case l of None \<Rightarrow> evolves s s' | Some (i, f) \<Rightarrow> grants s i f s'"
    using op_evolves unfolding backend_step_def by blast
  show "queue_ok s'" using op ok by (auto simp: evolves_def grants_def split: option.splits)
  have "mb_store_term s \<le> mb_store_term s'" "epoch_of s i \<le> epoch_of s' i"
    using op by (auto simp: evolves_def grants_def split: option.splits)
  then show "fence_bound s i \<le> fence_bound s' i" by (simp add: fence_bound_def)
  show "accepted s' i f \<Longrightarrow> l = Some (i, f) \<or> accepted s i f"
    and "remembered s' i f \<Longrightarrow> remembered s i f \<or> accepted s i f"
    using op by (auto simp: evolves_def grants_def split: option.splits)
next
  fix s i f s' g
  assume "queue_ok s" and "backend_step x fresh s (Some (i, f)) s'"
  then show "fence_bound s i < f \<and> f \<le> fence_bound s' i \<and> accepted s' i f" and "\<not> remembered s' i g"
    using op_evolves [of x fresh s "Some (i, f)" s'] by (simp_all add: backend_step_def grants_def)
next
  fix s i f g
  assume "accepted s i f" "accepted s i g"
  then show "f = g" by (auto simp: accepted_def fence_matches_def split: option.splits)
qed

section \<open>Properties\<close>

definition granted_fences :: "work_item_id \<Rightarrow> grant_label list \<Rightarrow> int list" where
  "granted_fences i ls = concat (map (\<lambda>l. case l of Some (j, f) \<Rightarrow> if j = i then [f] else [] | None \<Rightarrow> []) ls)"

lemma trace_run: "backend_trace x fresh s ls s' \<Longrightarrow> fenced_queue.run (backend_step x fresh) s ls s'"
  by (induction rule: backend_trace.induct) (auto intro: mq.run.intros)

lemma granted_fences_eq: "fenced_queue.granted i ls = granted_fences i ls"
  by (simp add: granted_fences_def mq.granted_def)

lemma new_queue_ok: "queue_ok backend_new"
  by (simp add: queue_ok_def backend_new_def epoch_of_def)

lemma granted_positive:
  assumes "backend_trace x fresh backend_new ls s" and "f \<in> set (granted_fences i ls)"
  shows "0 < f"
proof -
  have "fence_bound backend_new i < f"
    using mq.granted_bounded [OF trace_run [OF assms(1)] new_queue_ok, of i] assms(2) by (simp add: granted_fences_eq)
  then show ?thesis by (simp add: fence_bound_def backend_new_def epoch_of_def)
qed

text \<open>over every history of the backend, in any interleaving of its operations and across failovers of
  the store, the fences handed out for one work item are positive and strictly increasing.\<close>

theorem fences_strictly_increase:
  assumes "backend_trace x fresh backend_new ls s"
  shows "sorted_wrt (<) (granted_fences i ls) \<and> (\<forall>f \<in> set (granted_fences i ls). 0 < f)"
  using mq.granted_bounded [OF trace_run [OF assms] new_queue_ok, of i] granted_positive [OF assms]
  by (simp add: granted_fences_eq)

definition sample_item :: work_item where
  "sample_item = \<lparr>wi_id = ''w'', wi_execution_id = ''x'', wi_node_id = ''pay'', wi_queue_type = ''tool'', wi_payload = JNull,
     wi_attempt = 0, wi_max_attempts = 3, wi_created_at = 0, wi_lease_expires_at = None, wi_worker_id = None,
     wi_lease_fence = 0, wi_tenant_id = default_tenant\<rparr>"

definition enqueued :: in_memory_backend where
  "enqueued = fst (enqueue_work_item sample_item backend_new)"

definition claimed_at :: "timestamp \<Rightarrow> in_memory_backend \<Rightarrow> in_memory_backend \<times> work_item option" where
  "claimed_at now s = claim_work_item_with_lease (\<lambda>_. ''e'') now [''w''] ''ann'' [''tool''] None s"

lemma in_range_new: "in_range backend_new"
  by (simp add: in_range_def backend_new_def epoch_of_def)

lemma enqueued_trace: "backend_trace x fresh backend_new [None] enqueued"
proof -
  have "backend_step x fresh backend_new None enqueued"
    unfolding backend_step_def enqueued_def using in_range_new
    by (auto intro!: op_enqueue simp: fresh_item_def sample_item_def backend_new_def)
  from trace_snoc [OF trace_nil this] show ?thesis by simp
qed

lemmas backend_eval = enqueued_def claimed_at_def enqueue_work_item_def sample_item_def backend_new_def
  claim_work_item_with_lease_def expire_leases_def expire_item_def claimable_def take_lease_def grant_def mint_fence_def
  next_epoch_def epoch_of_def lapsed_def granted_lease_secs_def default_lease_secs_def wrap_i64_def Let_def

lemma claimed_item: "\<exists>s. claimed_at 0 enqueued = (s, Some (sample_item\<lparr>wi_worker_id := Some ''ann'', wi_lease_expires_at := Some 30000,
    wi_lease_fence := 1\<rparr>))"
  by (simp add: backend_eval)

lemma claimed_trace: "backend_trace x (\<lambda>_. ''e'') backend_new [None, Some (''w'', 1)] (fst (claimed_at 0 enqueued))"
proof -
  obtain s where s: "claimed_at 0 enqueued = (s, Some (sample_item\<lparr>wi_worker_id := Some ''ann'', wi_lease_expires_at := Some 30000,
      wi_lease_fence := 1\<rparr>))" using claimed_item by blast
  have "in_range enqueued" by (simp add: in_range_def enqueued_def enqueue_work_item_def backend_new_def epoch_of_def)
  then have "backend_step x (\<lambda>_. ''e'') enqueued (Some (''w'', 1)) s"
    using op_claim [OF s [unfolded claimed_at_def], of x] by (simp add: backend_step_def sample_item_def)
  from trace_snoc [OF enqueued_trace this] show ?thesis by (simp add: s)
qed

theorem fences_strictly_increase_witness:
  "sorted_wrt (<) (granted_fences ''w'' [None, Some (''w'', 1)]) \<and> granted_fences ''w'' [None, Some (''w'', 1)] = [1]"
  using fences_strictly_increase [OF claimed_trace [of sample_externals], of "''w''"] by (simp add: granted_fences_def)

lemma not_accepted_rejected:
  assumes "f \<noteq> 0" and "\<not> accepted s i f" and "\<not> remembered s i f"
  shows "\<not> fence_matches s i f" and "\<not> held_under s i f" and "fst (heartbeat_lease now i w f s) = s"
    and "\<exists>e. snd (heartbeat_lease now i w f s) = Inl e"
proof -
  show nf: "\<not> fence_matches s i f" using assms(1,2) by (simp add: accepted_def)
  then show "\<not> held_under s i f" by (auto simp: fence_matches_def held_under_def split: option.splits)
  have "\<exists>e. reattach now i w f s = (s, Inl e)"
  proof (cases "mb_last_lease s i")
    case (Some l)
    then show ?thesis using assms(3) by (cases l) (auto simp: reattach_def remembered_def)
  qed (simp add: reattach_def)
  moreover have "\<exists>e. renew_lease now i w f s = (s, Inl e)"
    using nf by (auto simp: renew_lease_def fence_matches_def split: option.splits)
  ultimately have "\<exists>e. heartbeat_lease now i w f s = (s, Inl e)"
    by (auto simp: heartbeat_lease_def split: backend_error.split)
  then show "fst (heartbeat_lease now i w f s) = s" and "\<exists>e. snd (heartbeat_lease now i w f s) = Inl e" by auto
qed

lemma superseded_not_accepted:
  assumes "backend_trace x fresh backend_new ls s" and "f \<in> set (granted_fences i ls)" and "f \<noteq> last (granted_fences i ls)"
  shows "f \<noteq> 0" and "\<not> accepted s i f" and "\<not> remembered s i f"
  using granted_positive [OF assms(1,2)] mq.superseded_rejected [OF trace_run [OF assms(1)] new_queue_ok, of f i] assms(2,3)
  by (simp_all add: granted_fences_eq)

text \<open>once a newer lease of an item has been handed out, whatever happened since, a worker that
  presents an older fence is refused by every fenced operation and changes nothing: it cannot complete,
  commit, fail, park, withdraw or roll over the item, renew its lease or re-attach to it.\<close>

theorem superseded_fence_rejected:
  assumes "backend_trace x fresh backend_new ls s" and "f \<in> set (granted_fences i ls)"
    and "f \<noteq> last (granted_fences i ls)"
  shows "complete_work_item_fenced i f s = (s, False) \<and> withdraw_work_item_fenced i f s = (s, False) \<and>
    fail_work_item_fenced i f err s = (s, None) \<and> park_work_item i f att s = (s, False) \<and>
    finalize_rollover_fenced now e i f s = (s, False) \<and>
    fst (commit_turn fresh now i f ev snap s) = s \<and> (\<exists>er. snd (commit_turn fresh now i f ev snap s) = Inl er) \<and>
    fst (heartbeat_lease now i w f s) = s \<and> (\<exists>er. snd (heartbeat_lease now i w f s) = Inl er)"
proof -
  note rej = not_accepted_rejected [OF superseded_not_accepted [OF assms]]
  have "fail_work_item_fenced i f err s = (s, None)" "park_work_item i f att s = (s, False)"
    using rej(1,2) by (auto simp: fail_work_item_fenced_def park_work_item_def fence_matches_def held_under_def split: option.splits)
  then show ?thesis
    using rej by (simp add: complete_work_item_fenced_def withdraw_work_item_fenced_def finalize_rollover_fenced_def
        commit_turn_cases commit_turn_ok)
qed

definition first_claim :: in_memory_backend where
  "first_claim = fst (claimed_at 0 enqueued)"

lemma first_claim_eq:
  "first_claim = backend_new\<lparr>mb_work_items := [''w'' \<mapsto> sample_item\<lparr>wi_worker_id := Some ''ann'',
       wi_lease_expires_at := Some 30000, wi_lease_fence := 1\<rparr>], mb_lease_epochs := [''w'' \<mapsto> 1],
     mb_lease_secs := [''w'' \<mapsto> 30]\<rparr>"
  by (simp add: first_claim_def backend_eval)

lemma expired_queue:
  "queue_part (expire_leases fresh 60000 [''w''] first_claim) =
     ([''w'' \<mapsto> sample_item\<lparr>wi_attempt := 1, wi_lease_fence := 0\<rparr>], [''w'' \<mapsto> 2], 0, [''w'' \<mapsto> (''ann'', 1)])"
proof -
  have "queue_part (expire_leases fresh 60000 [''w''] first_claim) = queue_part (fst (expire_item 60000 ''w'' (first_claim, [], [])))"
    unfolding first_claim_eq
    by (simp add: expire_leases_def expire_item_def split_beta record_expiry_keeps [of queue_part, OF push_event_frame(1)] lapsed_def run_is_terminal_def
        backend_new_def sample_item_def wrap_u32_def)
  also have "\<dots> = ([''w'' \<mapsto> sample_item\<lparr>wi_attempt := 1, wi_lease_fence := 0\<rparr>], [''w'' \<mapsto> 2], 0, [''w'' \<mapsto> (''ann'', 1)])"
    unfolding first_claim_eq
    by (simp add: queue_part_def expire_item_def lapsed_def run_is_terminal_def holder_of_def next_epoch_def epoch_of_def
        backend_new_def sample_item_def wrap_u32_def wrap_i64_def)
  finally show ?thesis .
qed

lemma second_claim:
  "\<exists>s it. claimed_at 60000 first_claim = (s, Some it) \<and> wi_id it = ''w'' \<and> wi_lease_fence it = 3"
proof -
  define t where "t = expire_leases (\<lambda>_. ''e'') 60000 [''w''] first_claim"
  have q: "mb_work_items t = [''w'' \<mapsto> sample_item\<lparr>wi_attempt := 1, wi_lease_fence := 0\<rparr>]" "mb_lease_epochs t = [''w'' \<mapsto> 2]"
    "mb_store_term t = 0" using expired_queue [of "\<lambda>_. ''e''"] by (simp_all add: queue_part_def t_def)
  then have "claimable [''tool''] t ''w''" by (simp add: claimable_def sample_item_def)
  then show ?thesis
    using q by (simp add: claimed_at_def claim_work_item_with_lease_def t_def [symmetric] take_lease_def grant_def
        mint_fence_def next_epoch_def epoch_of_def wrap_i64_def sample_item_def Let_def)
qed

lemma second_trace:
  "\<exists>s. backend_trace x (\<lambda>_. ''e'') backend_new [None, Some (''w'', 1), Some (''w'', 3)] s"
proof -
  obtain s it where s: "claimed_at 60000 first_claim = (s, Some it)" "wi_id it = ''w''" "wi_lease_fence it = 3"
    using second_claim by blast
  have "in_range first_claim" unfolding first_claim_eq by (simp add: in_range_def backend_new_def epoch_of_def)
  then have "backend_step x (\<lambda>_. ''e'') first_claim (Some (''w'', 3)) s"
    using op_claim [OF s(1) [unfolded claimed_at_def], of x] s(2,3) by (simp add: backend_step_def)
  from trace_snoc [OF claimed_trace [folded first_claim_def] this] show ?thesis by auto
qed

theorem superseded_fence_rejected_witness:
  "\<exists>s. backend_trace sample_externals (\<lambda>_. ''e'') backend_new [None, Some (''w'', 1), Some (''w'', 3)] s \<and>
       complete_work_item_fenced ''w'' 1 s = (s, False)"
proof -
  obtain s where "backend_trace sample_externals (\<lambda>_. ''e'') backend_new [None, Some (''w'', 1), Some (''w'', 3)] s"
    using second_trace by blast
  then show ?thesis using superseded_fence_rejected [of sample_externals "\<lambda>_. ''e''" "[None, Some (''w'', 1), Some (''w'', 3)]" s 1 "''w''"]
    by (auto simp: granted_fences_def)
qed

section \<open>A live lease is exclusive\<close>

lemma expire_item_live:
  assumes "queue_ok (fst acc)" "mb_work_items (fst acc) i = Some item" "\<not> lapsed now item" "i \<notin> set (snd (snd acc))"
  shows "mb_work_items (fst (expire_item now j acc)) i = Some item" and "i \<notin> set (snd (snd (expire_item now j acc)))"
proof -
  obtain s lost wd where acc: "acc = (s, lost, wd)" by (cases acc)
  have ok: "mb_work_items s j = Some it \<Longrightarrow> wi_id it = j" for it using wi_id_key assms(1) by (simp add: acc)
  show "mb_work_items (fst (expire_item now j acc)) i = Some item" and "i \<notin> set (snd (snd (expire_item now j acc)))"
    using assms(2-4) ok by (auto simp: acc expire_item_def split: option.splits)
qed

lemma expire_fold_live:
  "distinct ids \<Longrightarrow> queue_ok (fst acc) \<Longrightarrow> (\<forall>j \<in> set ids. epoch_of (fst acc) j < 2 ^ 32) \<Longrightarrow> mb_work_items (fst acc) i = Some item \<Longrightarrow>
   \<not> lapsed now item \<Longrightarrow> i \<notin> set (snd (snd acc)) \<Longrightarrow>
   mb_work_items (fst (fold (expire_item now) ids acc)) i = Some item \<and> i \<notin> set (snd (snd (fold (expire_item now) ids acc)))"
proof (induction ids arbitrary: acc)
  case Nil
  then show ?case by simp
next
  case (Cons j ids)
  let ?a = "expire_item now j acc"
  have b: "bumps (fst acc) j (fst ?a)" using expire.body_bumps [of acc j now] Cons.prems(2,3) by simp
  have ok: "queue_ok (fst ?a)" using b Cons.prems(2) by (simp add: bumps_def evolves_def)
  have "\<forall>k \<in> set ids. epoch_of (fst ?a) k < 2 ^ 32"
  proof
    fix k assume "k \<in> set ids"
    then have "epoch_of (fst ?a) k = epoch_of (fst acc) k" "epoch_of (fst acc) k < 2 ^ 32"
      using b Cons.prems(1,3) by (auto simp: bumps_def)
    then show "epoch_of (fst ?a) k < 2 ^ 32" by metis
  qed
  then show ?case using Cons.IH [OF _ ok] expire_item_live [OF Cons.prems(2,4,5,6)] Cons.prems(1,5) by simp
qed

lemma fold_remove_other: "i \<notin> set is \<Longrightarrow> mb_work_items (fold remove_item is s) i = mb_work_items s i"
  by (induction "is" arbitrary: s) (simp_all add: remove_item_def)

lemma expire_leases_live:
  assumes "queue_ok s" "in_range s" "distinct ids" "mb_work_items s i = Some item" "\<not> lapsed now item"
  shows "mb_work_items (expire_leases fresh now ids s) i = Some item"
proof -
  obtain t lost wd where t: "fold (expire_item now) ids (s, [], []) = (t, lost, wd)" by (cases "fold (expire_item now) ids (s, [], [])")
  have "epoch_of s j < 2 ^ 32" for j
  proof -
    have "epoch_of s j < 2 ^ 32 - 2" using assms(2) by (simp only: in_range_def)
    then show ?thesis by linarith
  qed
  then have "mb_work_items t i = Some item \<and> i \<notin> set wd"
    using expire_fold_live [of ids "(s, [], [])" i item now] assms by (simp add: t)
  then show ?thesis
    using fold_record_expiry_keeps [of mb_work_items, OF push_event_frame(2)] by (simp add: expire_leases_def t fold_remove_other)
qed

text \<open>a lease that has not lapsed is exclusive: whatever other workers claim, in any order of the
  queue, the item stays with its holder, under the same fence, and is never handed out.\<close>

theorem live_lease_is_exclusive:
  assumes "queue_ok s" and "in_range s" and "distinct ids"
    and "mb_work_items s i = Some item" and "wi_worker_id item = Some holder" and "\<not> lapsed now item"
    and "claim_work_item_with_lease fresh now ids worker queues lease s = (s', r)"
  shows "mb_work_items s' i = Some item \<and> (\<forall>got. r = Some got \<longrightarrow> wi_id got \<noteq> i)"
proof -
  let ?t = "expire_leases fresh now ids s"
  have live: "mb_work_items ?t i = Some item" by (rule expire_leases_live [OF assms(1-4,6)])
  have "\<forall>j. epoch_of s j < 2 ^ 32 - 2" using assms(2) unfolding in_range_def by blast
  then have ok: "queue_ok ?t" using expire_leases_evolves [OF assms(1,3)] assms(1) by (simp add: evolves_def)
  show ?thesis
  proof (cases "List.find (claimable queues ?t) ids")
    case None
    then show ?thesis using assms(7) live by (auto simp: claim_work_item_with_lease_def)
  next
    case (Some j)
    then have c: "claimable queues ?t j" by (auto simp: find_Some_iff)
    then obtain it where it: "mb_work_items ?t j = Some it" "wi_worker_id it = None" by (auto simp: claimable_def split: option.splits)
    then have "j \<noteq> i" "wi_id it = j" using live assms(5) wi_id_key [OF ok it(1)] by auto
    then show ?thesis
      using assms(7) Some it live by (auto simp: claim_work_item_with_lease_def take_lease_def grant_def Let_def)
  qed
qed

lemma first_claim_ok: "queue_ok first_claim" "in_range first_claim"
  unfolding first_claim_eq
  by (auto simp: queue_ok_def item_ok_def in_range_def backend_new_def epoch_of_def sample_item_def split: if_splits)

theorem live_lease_is_exclusive_witness:
  "mb_work_items (fst (claimed_at 29000 first_claim)) ''w'' =
     Some (sample_item\<lparr>wi_worker_id := Some ''ann'', wi_lease_expires_at := Some 30000, wi_lease_fence := 1\<rparr>)"
proof -
  obtain s' r where c: "claimed_at 29000 first_claim = (s', r)" by fastforce
  have "mb_work_items first_claim ''w'' =
      Some (sample_item\<lparr>wi_worker_id := Some ''ann'', wi_lease_expires_at := Some 30000, wi_lease_fence := 1\<rparr>)"
    unfolding first_claim_eq by simp
  from live_lease_is_exclusive [OF first_claim_ok _ this _ _ c [unfolded claimed_at_def]] show ?thesis
    by (simp add: c lapsed_def)
qed

section \<open>Where the in-memory backend is weaker than its contract\<close>

definition swept :: in_memory_backend where
  "swept = fst (reclaim_expired_leases 60000 [''w''] first_claim)"

text \<open>after the sweep has taken an expired lease away from a worker, and before anybody claims the item
  again, the fence the worker lost still commits a turn: \<^verbatim>\<open>reclaim_expired_leases\<close> leaves the fence in
  the item and \<^verbatim>\<open>commit_turn\<close> of the in-memory backend compares the fence alone, although the item is
  no longer claimed and the fenced completion refuses it.\<close>

theorem reclaimed_fence_still_commits:
  "\<not> held_under swept ''w'' 1 \<and> complete_work_item_fenced ''w'' 1 swept = (swept, False) \<and>
   snd (commit_turn fresh now ''w'' 1 (sample_event 0 (sample_completed ''pay'' JNull)) False swept) = Inr 1"
proof -
  have w: "mb_work_items swept ''w'' = Some (sample_item\<lparr>wi_attempt := 1, wi_lease_fence := 1\<rparr>)" "mb_next_sequence swept = 1"
    unfolding swept_def first_claim_eq
    by (simp_all add: reclaim_expired_leases_def reclaim_item_def sample_item_def backend_new_def lapsed_def wrap_u32_def Let_def)
  then have h: "\<not> held_under swept ''w'' 1" by (simp add: held_under_def sample_item_def)
  have "is_turn_end (ev_kind (sample_event 0 (sample_completed ''pay'' JNull)))"
    by (simp add: is_turn_end_def sample_event_def event_new_def sample_completed_def)
  then show ?thesis using w h by (simp add: commit_turn_ok fence_matches_def complete_work_item_fenced_def)
qed

end
