(* ===== verification/Backend_Log.thy ===== *)
theory Backend_Log
  imports Backend_Steps
begin

text \<open>
  The event log of the backend.  The interface is the locale \<open>append_only_log\<close>: a store whose steps only
  append, under sequence numbers taken from one counter.  It is interpreted on the operations of the
  in-memory backend; on top of it, the state a run materializes to is shown to be the replay of its whole
  log in every reachable state, whatever snapshots were taken on the way.
\<close>

section \<open>Append-only logs\<close>

definition appends_only :: "('s \<Rightarrow> 'k \<Rightarrow> 'e list) \<Rightarrow> ('e \<Rightarrow> int) \<Rightarrow> ('e \<Rightarrow> 'k) \<Rightarrow> ('s \<Rightarrow> int) \<Rightarrow> 's \<Rightarrow> 's \<Rightarrow> bool" where
  "appends_only entries seq key counter s s' =
     (counter s \<le> counter s' \<and>
      (\<forall>k. \<exists>new. entries s' k = entries s k @ new \<and> sorted_wrt (<) (map seq new) \<and>
                 (\<forall>e \<in> set new. counter s \<le> seq e \<and> seq e < counter s' \<and> key e = k)))"

definition well_sequenced :: "('s \<Rightarrow> 'k \<Rightarrow> 'e list) \<Rightarrow> ('e \<Rightarrow> int) \<Rightarrow> ('e \<Rightarrow> 'k) \<Rightarrow> ('s \<Rightarrow> int) \<Rightarrow> 's \<Rightarrow> bool" where
  "well_sequenced entries seq key counter s =
     (0 < counter s \<and> (\<forall>k. sorted_wrt (<) (map seq (entries s k)) \<and>
                            (\<forall>e \<in> set (entries s k). 0 < seq e \<and> seq e < counter s \<and> key e = k)))"

lemma appends_same: "entries s' = entries s \<Longrightarrow> counter s' = counter s \<Longrightarrow> appends_only entries seq key counter s s'"
  by (simp add: appends_only_def)

lemma appends_refl [simp]: "appends_only entries seq key counter s s"
  by (simp add: appends_same)

lemma appends_obtain:
  assumes "appends_only entries seq key counter s s'"
  obtains new where "entries s' k = entries s k @ new" "sorted_wrt (<) (map seq new)"
    "\<forall>e \<in> set new. counter s \<le> seq e \<and> seq e < counter s' \<and> key e = k"
  using assms unfolding appends_only_def by blast

lemma appends_trans:
  assumes "appends_only entries seq key counter s t" and "appends_only entries seq key counter t u"
  shows "appends_only entries seq key counter s u"
proof -
  have mono: "counter s \<le> counter t" "counter t \<le> counter u" using assms by (simp_all add: appends_only_def)
  have "\<exists>new. entries u k = entries s k @ new \<and> sorted_wrt (<) (map seq new) \<and>
          (\<forall>e \<in> set new. counter s \<le> seq e \<and> seq e < counter u \<and> key e = k)" for k
  proof -
    obtain m where m: "entries t k = entries s k @ m" "sorted_wrt (<) (map seq m)"
      "\<forall>e \<in> set m. counter s \<le> seq e \<and> seq e < counter t \<and> key e = k" using appends_obtain [OF assms(1)] by blast
    obtain n where n: "entries u k = entries t k @ n" "sorted_wrt (<) (map seq n)"
      "\<forall>e \<in> set n. counter t \<le> seq e \<and> seq e < counter u \<and> key e = k" using appends_obtain [OF assms(2)] by blast
    have "entries u k = entries s k @ (m @ n)" using m(1) n(1) by simp
    moreover have "sorted_wrt (<) (map seq (m @ n))" using m n by (fastforce simp: sorted_wrt_append)
    moreover have "\<forall>e \<in> set (m @ n). counter s \<le> seq e \<and> seq e < counter u \<and> key e = k"
      using m(3) n(3) mono by fastforce
    ultimately show ?thesis by blast
  qed
  then show ?thesis using mono by (simp add: appends_only_def)
qed

lemma appends_sequenced:
  assumes "appends_only entries seq key counter s s'" and "well_sequenced entries seq key counter s"
  shows "well_sequenced entries seq key counter s'"
proof -
  have mono: "counter s \<le> counter s'" "0 < counter s" using assms by (simp_all add: appends_only_def well_sequenced_def)
  have "sorted_wrt (<) (map seq (entries s' k)) \<and> (\<forall>e \<in> set (entries s' k). 0 < seq e \<and> seq e < counter s' \<and> key e = k)" for k
  proof -
    obtain new where new: "entries s' k = entries s k @ new" "sorted_wrt (<) (map seq new)"
      "\<forall>e \<in> set new. counter s \<le> seq e \<and> seq e < counter s' \<and> key e = k" using appends_obtain [OF assms(1)] by blast
    have old: "sorted_wrt (<) (map seq (entries s k))" "\<forall>e \<in> set (entries s k). 0 < seq e \<and> seq e < counter s \<and> key e = k"
      using assms(2) by (simp_all add: well_sequenced_def)
    show ?thesis using new old mono by (fastforce simp: sorted_wrt_append)
  qed
  then show ?thesis using mono by (simp add: well_sequenced_def)
qed

locale append_only_log =
  fixes step :: "'s \<Rightarrow> 's \<Rightarrow> bool"
    and entries :: "'s \<Rightarrow> 'k \<Rightarrow> 'e list"
    and seq :: "'e \<Rightarrow> int"
    and key :: "'e \<Rightarrow> 'k"
    and counter :: "'s \<Rightarrow> int"
  assumes step_appends: "0 < counter s \<Longrightarrow> step s s' \<Longrightarrow> appends_only entries seq key counter s s'"
begin

abbreviation sequenced :: "'s \<Rightarrow> bool" where
  "sequenced \<equiv> well_sequenced entries seq key counter"

lemma runs_append:
  "step\<^sup>*\<^sup>* s s' \<Longrightarrow> sequenced s \<Longrightarrow> appends_only entries seq key counter s s' \<and> sequenced s'"
proof (induction rule: rtranclp_induct)
  case (step t u)
  then have t: "appends_only entries seq key counter s t" "sequenced t" by auto
  then have "appends_only entries seq key counter t u" using step_appends step(2) by (simp add: well_sequenced_def)
  then show ?case using appends_trans [OF t(1)] appends_sequenced [OF _ t(2)] by simp
qed simp

text \<open>A reader that has seen the entries up to a cursor and asks for what is above it gets exactly what was
  appended in the meantime.\<close>

lemma read_above:
  assumes "step\<^sup>*\<^sup>* s s'" "sequenced s" "\<forall>e \<in> set (entries s k). seq e \<le> c" "c < counter s"
  shows "entries s' k = entries s k @ filter (\<lambda>e. seq e > c) (entries s' k)"
proof -
  obtain new where new: "entries s' k = entries s k @ new" "sorted_wrt (<) (map seq new)"
      "\<forall>e \<in> set new. counter s \<le> seq e \<and> seq e < counter s' \<and> key e = k"
    by (rule appends_obtain [OF conjunct1 [OF runs_append [OF assms(1,2)]]])
  have "filter (\<lambda>e. seq e > c) (entries s k) = []" using assms(3) by (auto simp: filter_empty_conv)
  moreover have "filter (\<lambda>e. seq e > c) new = new" using new(3) assms(4) by (auto simp: filter_id_conv)
  ultimately show ?thesis using new(1) by simp
qed

end

section \<open>Every operation of the backend only appends\<close>

abbreviation grows :: "in_memory_backend \<Rightarrow> in_memory_backend \<Rightarrow> bool" where
  "grows \<equiv> appends_only log_of ev_sequence ev_execution_id mb_next_sequence"

abbreviation log_ok :: "in_memory_backend \<Rightarrow> bool" where
  "log_ok \<equiv> well_sequenced log_of ev_sequence ev_execution_id mb_next_sequence"

lemmas grows_trans = appends_trans [of log_of ev_sequence ev_execution_id mb_next_sequence]

lemma wrap_next: "0 < n \<Longrightarrow> n < 2 ^ 63 - 1 \<Longrightarrow> wrap_i64 (n + 1) = n + 1"
  by (rule wrap_i64_id) auto

lemma log_of_push:
  "log_of (fst (push_event ev s)) e =
     log_of s e @ (if e = ev_execution_id ev then [ev\<lparr>ev_sequence := mb_next_sequence s\<rparr>] else [])"
  and next_of_push: "mb_next_sequence (fst (push_event ev s)) = wrap_i64 (mb_next_sequence s + 1)"
  by (simp_all add: push_event_def Let_def log_of_def)

lemma push_grows:
  assumes "0 < mb_next_sequence s" "mb_next_sequence s < 2 ^ 63 - 1"
  shows "grows s (fst (push_event ev s)) \<and> mb_next_sequence (fst (push_event ev s)) = mb_next_sequence s + 1"
proof -
  have w: "wrap_i64 (mb_next_sequence s + 1) = mb_next_sequence s + 1" using wrap_next assms .
  show ?thesis unfolding appends_only_def by (auto simp: log_of_push next_of_push w)
qed

lemma fold_push_grows:
  assumes "0 < mb_next_sequence s" "mb_next_sequence s + int (length ks) < 2 ^ 63"
  shows "grows s (fold (\<lambda>kind s. fst (push_event (mk kind s) s)) ks s) \<and>
    mb_next_sequence (fold (\<lambda>kind s. fst (push_event (mk kind s) s)) ks s) = mb_next_sequence s + int (length ks)"
  using assms
proof (induction ks arbitrary: s)
  case (Cons k ks)
  let ?t = "fst (push_event (mk k s) s)"
  have t: "grows s ?t" "mb_next_sequence ?t = mb_next_sequence s + 1" using push_grows [of s "mk k s"] Cons.prems by auto
  then show ?case using Cons.IH [of ?t] Cons.prems appends_trans [OF t(1)] by auto
qed simp

lemma record_expiry_grows:
  assumes "0 < mb_next_sequence s" "mb_next_sequence s + 2 * int (length items) < 2 ^ 63"
  shows "grows s (fold (record_expiry fresh now) items s)"
  using assms
proof (induction items arbitrary: s)
  case (Cons item items)
  let ?t = "record_expiry fresh now item s"
  have "length (lease_expiry_events item) = 2" by (simp add: lease_expiry_events_def)
  then have t: "grows s ?t" "mb_next_sequence ?t = mb_next_sequence s + 2"
    using fold_push_grows [of s "lease_expiry_events item"] Cons.prems
    by (simp_all add: record_expiry_def append_event_fst)
  then show ?case using Cons.IH [of ?t] Cons.prems appends_trans [OF t(1)] by auto
qed simp

lemma expire_item_log:
  "log_of (fst (expire_item now i acc)) = log_of (fst acc)"
  "mb_next_sequence (fst (expire_item now i acc)) = mb_next_sequence (fst acc)"
  "length (fst (snd (expire_item now i acc))) \<le> Suc (length (fst (snd acc)))"
  by (auto simp: expire_item_def split_beta log_of_def [abs_def] split: option.split)

lemma expire_fold_log:
  "log_of (fst (fold (expire_item now) ids acc)) = log_of (fst acc) \<and>
   mb_next_sequence (fst (fold (expire_item now) ids acc)) = mb_next_sequence (fst acc) \<and>
   length (fst (snd (fold (expire_item now) ids acc))) \<le> length ids + length (fst (snd acc))"
proof (induction ids arbitrary: acc)
  case (Cons i ids)
  show ?case using Cons.IH [of "expire_item now i acc"] expire_item_log [of now i acc] by auto
qed simp

lemma fold_remove_log: "log_of (fold remove_item is s) = log_of s" "mb_next_sequence (fold remove_item is s) = mb_next_sequence s"
  by (induction "is" arbitrary: s) (simp_all add: remove_item_frame)

lemma expire_leases_grows:
  assumes "0 < mb_next_sequence s" "mb_next_sequence s < 2 ^ 62" "length ids < 2 ^ 60"
  shows "grows s (expire_leases fresh now ids s)"
proof -
  obtain t lost wd where t: "fold (expire_item now) ids (s, [], []) = (t, lost, wd)" by (cases "fold (expire_item now) ids (s, [], [])")
  let ?u = "fold remove_item wd t"
  have u: "log_of ?u = log_of s" "mb_next_sequence ?u = mb_next_sequence s" "length lost \<le> length ids"
    using expire_fold_log [of now ids "(s, [], [])"] by (simp_all add: t fold_remove_log)
  have "mb_next_sequence ?u + 2 * int (length lost) < 2 ^ 63" using u assms by simp
  then have "grows ?u (fold (record_expiry fresh now) lost ?u)" using record_expiry_grows u assms(1) by simp
  then show ?thesis using appends_trans [OF appends_same [OF u(1,2)]] by (simp add: expire_leases_def t)
qed

lemma take_lease_log:
  "log_of (fst (take_lease now w len k item s)) = log_of s" "mb_next_sequence (fst (take_lease now w len k item s)) = mb_next_sequence s"
  by (simp_all add: take_lease_def Let_def log_of_def [abs_def])

lemma claim_grows:
  assumes "claim_work_item_with_lease fresh now ids w qs ls s = (s', r)"
    and "0 < mb_next_sequence s" "mb_next_sequence s < 2 ^ 62" "length ids < 2 ^ 60"
  shows "grows s s'"
proof -
  let ?t = "expire_leases fresh now ids s"
  have "log_of s' = log_of ?t" "mb_next_sequence s' = mb_next_sequence ?t"
    using assms(1) take_lease_log
    by (auto simp: claim_work_item_with_lease_def Let_def split_beta split: option.splits)
  from appends_trans [OF expire_leases_grows [OF assms(2-4)] appends_same [OF this]] show ?thesis .
qed

text \<open>The operations that leave every log alone.\<close>

definition log_part :: "in_memory_backend \<Rightarrow> (execution_id \<Rightarrow> event list) \<times> int" where
  "log_part s = (log_of s, mb_next_sequence s)"

lemma grows_same: "log_part s' = log_part s \<Longrightarrow> grows s s'"
  by (rule appends_same) (simp_all add: log_part_def)

lemma log_part_others:
  "log_part (fst (store_workflow x def s)) = log_part s" "log_part (create_execution ex s) = log_part s"
  "log_part (fst (update_execution_status now e st s)) = log_part s"
  "log_part (fst (update_execution_current_state now e v s)) = log_part s"
  "log_part (fst (patch_append_array now e k v s)) = log_part s" "log_part (write_snapshot snap s) = log_part s"
  "log_part (fst (reserve_tool_effect x now key owner f ttl s)) = log_part s"
  "log_part (release_tool_reservation key owner f s) = log_part s" "log_part (fst (put_artifact x bytes mt s)) = log_part s"
  "log_part (fst (create_token secret i now nm role s)) = log_part s"
  "log_part (apply_approval_projection row pn c s) = log_part s" "log_part (set_projector_checkpoint pn e c s) = log_part s"
  "log_part (create_tenant t s) = log_part s" "log_part (update_tenant t s) = log_part s"
  "log_part (fst (bump_store_term s)) = log_part s" "log_part (fst (set_store_term_at_least n s)) = log_part s"
  by (simp_all add: store_workflow_def create_execution_def update_execution_status_def update_execution_current_state_def
      patch_append_array_def update_execution_def write_snapshot_def reserve_tool_effect_def release_tool_reservation_def
      put_artifact_def create_token_def apply_approval_projection_def put_row_def set_projector_checkpoint_def create_tenant_def
      update_tenant_def bump_store_term_def set_store_term_at_least_def log_part_def log_of_def [abs_def] Let_def
      split: option.split prod.split)

lemma log_part_queue:
  "log_part (fst (enqueue_work_item item s)) = log_part s" "log_part (fst (renew_lease now i w f s)) = log_part s"
  "log_part (fst (reattach now i w f s)) = log_part s" "log_part (remove_item i s) = log_part s"
  "log_part (fst (fail_work_item_fenced i f err s)) = log_part s" "log_part (fst (park_work_item i f att s)) = log_part s"
  "log_part (fst (finalize_rollover_fenced now e i f s)) = log_part s" "log_part (move_to_dead_letter i s) = log_part s"
  "log_part (dead_letter_item item s) = log_part s" "log_part (fst (reclaim_item now i acc)) = log_part (fst acc)"
  by (auto simp: enqueue_work_item_def renew_lease_def reattach_def remove_item_def fail_work_item_fenced_def park_work_item_def
      finalize_rollover_fenced_def move_to_dead_letter_def dead_letter_item_def reclaim_item_def log_part_def log_of_def [abs_def]
      Let_def split_beta split: option.split)

lemma log_part_folds:
  "log_part (fold put_row rows s) = log_part s" "log_part (fold dead_letter_item items s) = log_part s"
  "log_part (fst (fold (reclaim_item now) ids acc)) = log_part (fst acc)"
proof -
  show "log_part (fold put_row rows s) = log_part s"
    by (induction rows arbitrary: s) (simp_all add: put_row_def log_part_def log_of_def [abs_def])
  show "log_part (fold dead_letter_item items s) = log_part s"
    by (induction items arbitrary: s) (simp_all add: log_part_queue)
  show "log_part (fst (fold (reclaim_item now) ids acc)) = log_part (fst acc)"
    by (induction ids arbitrary: acc) (simp_all add: log_part_queue)
qed

lemma log_part_composed:
  "log_part (apply_approval_projection_batch rows pn e c s) = log_part s"
  "log_part (fst (reclaim_expired_leases now ids s)) = log_part s" "log_part (fst (heartbeat_lease now i w f s)) = log_part s"
  "log_part (complete_work_item i s) = log_part s" "log_part (fst (complete_work_item_fenced i f s)) = log_part s"
  "log_part (fst (withdraw_work_item_fenced i f s)) = log_part s" "log_part (fst (fail_work_item i s)) = log_part s"
proof -
  show "log_part (fst (reclaim_expired_leases now ids s)) = log_part s"
    using log_part_folds(3) [of now ids "(s, [], [])"] by (simp add: reclaim_expired_leases_def split_beta log_part_folds(2))
  have "log_part (fst r) = log_part s" if "renew_lease now i w f s = r" for r using log_part_queue(2) that by blast
  then show "log_part (fst (heartbeat_lease now i w f s)) = log_part s"
    using log_part_queue(3) [of now i w f] by (auto simp: heartbeat_lease_def split: prod.split sum.split backend_error.split)
qed (simp_all add: apply_approval_projection_batch_def log_part_others log_part_folds complete_work_item_def
    complete_work_item_fenced_def withdraw_work_item_fenced_def fail_work_item_def log_part_queue split: option.split)

section \<open>The operations that append\<close>

lemma grows_push_between:
  assumes "0 < mb_next_sequence s" "mb_next_sequence s < 2 ^ 63 - 1" "log_part t = log_part s"
    "log_part u = log_part (fst (push_event ev t))"
  shows "grows s u"
proof -
  have t: "0 < mb_next_sequence t" "mb_next_sequence t < 2 ^ 63 - 1" using assms(1-3) by (simp_all add: log_part_def)
  have "grows s t" "grows t (fst (push_event ev t))" "grows (fst (push_event ev t)) u"
    using grows_same assms(3,4) push_grows [OF t] by auto
  then show ?thesis using grows_trans by blast
qed

lemma log_part_push: "log_part (s\<lparr>mb_executions := v\<rparr>) = log_part s" "log_part (record_effect k s) = log_part s"
  "log_part (snapshot_turn fresh now e s) = log_part s"
proof -
  show "log_part (s\<lparr>mb_executions := v\<rparr>) = log_part s" by (simp add: log_part_def log_of_def [abs_def])
qed (simp_all add: log_part_def record_effect_frame snapshot_turn_frame)

lemma finish_grows:
  assumes "0 < mb_next_sequence s" "mb_next_sequence s < 2 ^ 63 - 1"
  shows "grows s (fst (finish_execution now ev st s))"
proof -
  have "grows s (fst (push_event ev (s\<lparr>mb_executions := v\<rparr>)))" for v
    by (rule grows_push_between [OF assms log_part_push(1) refl])
  then show ?thesis by (simp add: finish_execution_def Let_def split_beta split: option.split)
qed

lemma append_if_grows:
  assumes "0 < mb_next_sequence s" "mb_next_sequence s < 2 ^ 63 - 1"
  shows "grows s (fst (append_event_if ev cond s))"
proof -
  have "log_part (s\<lparr>mb_events := (mb_events s)(e \<mapsto> log_of s e)\<rparr>) = log_part s" for e
    by (rule prod_eqI) (auto simp: log_part_def log_of_def)
  from grows_same [OF this] show ?thesis
    using push_grows [OF assms] by (simp add: append_event_if_def split_beta split: option.split)
qed

lemma settle_turn_grows:
  assumes "0 < mb_next_sequence s" "mb_next_sequence s < 2 ^ 63 - 1"
  shows "grows s (settle_turn fresh now i ev snap s)"
  by (rule grows_push_between [OF assms log_part_queue(4)]) (simp add: settle_turn_def Let_def log_part_push)

lemma commit_grows:
  assumes "0 < mb_next_sequence s" "mb_next_sequence s < 2 ^ 63 - 1"
  shows "grows s (fst (commit_turn fresh now i f ev snap s))" and "grows s (fst (commit_turn_unless_terminal fresh now i f ev snap s))"
proof -
  show c: "grows s (fst (commit_turn fresh now i f ev snap s))" using settle_turn_grows [OF assms] by (simp add: commit_turn_cases)
  then show "grows s (fst (commit_turn_unless_terminal fresh now i f ev snap s))"
    using grows_same [OF log_part_composed(6)] by (simp add: commit_unless_cases)
qed

lemma create_run_grows:
  assumes "0 < mb_next_sequence s" "mb_next_sequence s < 2 ^ 62"
  shows "grows s (create_run fresh now ex seed k1 k2 item s)"
proof -
  define s1 where "s1 = (case seed of
      Some snap \<Rightarrow> s\<lparr>mb_snapshots := (mb_snapshots s)(we_execution_id ex \<mapsto>
          (case mb_snapshots s (we_execution_id ex) of Some l \<Rightarrow> l | None \<Rightarrow> []) @ [snap])\<rparr>
    | None \<Rightarrow> s)"
  let ?f = "fold (\<lambda>kind s. fst (push_event (event_new (fresh (mb_next_sequence s)) now (we_execution_id ex) 0 kind) s)) [k1, k2]"
  have 1: "log_part s1 = log_part s" by (simp add: s1_def log_part_def log_of_def [abs_def] split: option.split)
  have "grows s1 (?f s1)"
    by (rule conjunct1 [OF fold_push_grows]) (use 1 assms in \<open>auto simp: log_part_def\<close>)
  moreover have "log_part (create_run fresh now ex seed k1 k2 item s) = log_part (?f s1)"
    by (simp add: create_run_def s1_def [symmetric] Let_def log_part_def log_of_def [abs_def])
  ultimately show ?thesis using grows_trans [OF grows_trans [OF grows_same [OF 1]] grows_same] by blast
qed

lemma op_grows:
  assumes "backend_op x fresh s l s'" and "0 < mb_next_sequence s" and "in_range s"
  shows "grows s s'"
proof -
  have r: "mb_next_sequence s < 2 ^ 62" using assms(3) unfolding in_range_def by blast
  then have r': "mb_next_sequence s < 2 ^ 63 - 1" by simp
  note g = finish_grows [OF assms(2) r'] append_if_grows [OF assms(2) r'] commit_grows [OF assms(2) r']
    create_run_grows [OF assms(2) r] conjunct1 [OF push_grows [OF assms(2) r']]
  note p = log_part_others log_part_queue log_part_composed
  show ?thesis using assms(1)
  proof (cases rule: backend_op.cases)
    case op_claim
    then show ?thesis using claim_grows assms(2) r by blast
  next
    case op_heartbeat
    then show ?thesis using grows_same [OF log_part_composed(3)] by (metis fst_conv)
  qed (simp_all add: g p grows_same append_event_fst create_segment_atomic_def start_execution_atomic_def)
qed

interpretation mlog: append_only_log "\<lambda>s s'. \<exists>l. backend_step x fresh s l s'" log_of ev_sequence ev_execution_id mb_next_sequence
  by unfold_locales (auto simp: backend_step_def intro: op_grows)

lemma trace_steps: "backend_trace x fresh s ls s' \<Longrightarrow> (\<lambda>s s'. \<exists>l. backend_step x fresh s l s')\<^sup>*\<^sup>* s s'"
  by (induction rule: backend_trace.induct) (auto intro: rtranclp.rtrancl_into_rtrancl)

lemma log_ok_new: "log_ok backend_new"
  by (simp add: well_sequenced_def backend_new_def log_of_def)

lemma reachable_log_ok: "backend_trace x fresh backend_new ls s \<Longrightarrow> log_ok s"
  using mlog.runs_append [OF trace_steps log_ok_new] by blast

lemma log_ok_latest:
  assumes "log_ok s"
  shows "\<forall>ev \<in> set (log_of s e). ev_sequence ev \<le> latest_sequence e s" and "latest_sequence e s < mb_next_sequence s"
proof -
  have w: "sorted_wrt (<) (map ev_sequence (log_of s e))" "\<forall>ev \<in> set (log_of s e). 0 < ev_sequence ev \<and> ev_sequence ev < mb_next_sequence s"
    "0 < mb_next_sequence s" using assms by (simp_all add: well_sequenced_def)
  show "latest_sequence e s < mb_next_sequence s" using w(2,3) by (cases "log_of s e") (simp_all add: latest_sequence_def)
  show "\<forall>ev \<in> set (log_of s e). ev_sequence ev \<le> latest_sequence e s"
  proof (cases "log_of s e" rule: rev_cases)
    case (snoc l a)
    then have "latest_sequence e s = ev_sequence a" by (cases l) (simp_all add: latest_sequence_def)
    then show ?thesis using w(1) snoc by (auto simp: sorted_wrt_append)
  qed simp
qed

text \<open>C20: the log of a run is append-only and strictly sequenced under every interleaving of the
  backend's operations: what was read once stays, in place, every event carries its run and a sequence
  above the ones before it, and a reader that polls from the last sequence it has seen gets exactly the
  events appended since, none twice and none missed.\<close>

theorem log_is_append_only:
  assumes "backend_trace x fresh backend_new ls s" and "backend_trace x fresh s ls' s'"
  shows "get_events e s' = get_events e s @ get_events_since e (latest_sequence e s) s' \<and>
         sorted_wrt (<) (map ev_sequence (get_events e s')) \<and>
         (\<forall>ev \<in> set (get_events e s'). 0 < ev_sequence ev \<and> ev_execution_id ev = e)"
proof -
  have ok: "log_ok s" using reachable_log_ok [OF assms(1)] .
  then have ok': "log_ok s'" using mlog.runs_append [OF trace_steps [OF assms(2)]] by blast
  have "log_of s' e = log_of s e @ filter (\<lambda>ev. ev_sequence ev > latest_sequence e s) (log_of s' e)"
    by (rule mlog.read_above [OF trace_steps [OF assms(2)] ok log_ok_latest [OF ok]])
  then show ?thesis using ok' by (simp add: get_events_def get_events_since_def well_sequenced_def)
qed

definition one_event :: in_memory_backend where
  "one_event = fst (append_event (sample_event 0 (NodeScheduled ''a'' ''tool'')) backend_new)"

lemma one_event_trace: "backend_trace x fresh backend_new [None] one_event"
  and two_events_trace: "backend_trace x fresh one_event [None] (fst (append_event ev one_event))"
proof -
  have "in_range backend_new" "in_range one_event"
    by (simp_all add: in_range_def one_event_def append_event_def push_event_def Let_def backend_new_def epoch_of_def wrap_i64_def)
  then have "backend_step x fresh backend_new None one_event" "backend_step x fresh one_event None (fst (append_event ev one_event))"
    by (simp_all add: backend_step_def one_event_def op_append)
  then show "backend_trace x fresh backend_new [None] one_event" "backend_trace x fresh one_event [None] (fst (append_event ev one_event))"
    using trace_snoc [OF trace_nil] by fastforce+
qed

theorem log_is_append_only_witness:
  "get_events ''x'' (fst (append_event (sample_event 9 (NodeCancelled ''a'')) one_event)) =
     get_events ''x'' one_event @ [sample_event 2 (NodeCancelled ''a'')] \<and> length (get_events ''x'' one_event) = 1"
  using log_is_append_only [OF one_event_trace [of sample_externals "\<lambda>_. ''e''"] two_events_trace, of "''x''" "sample_event 9 (NodeCancelled ''a'')"]
  by (simp add: one_event_def get_events_def get_events_since_def latest_sequence_def append_event_def push_event_def log_of_def
      Let_def backend_new_def sample_event_def event_new_def wrap_i64_def)

section \<open>Snapshots and replay\<close>

definition run_input :: "in_memory_backend \<Rightarrow> execution_id \<Rightarrow> json" where
  "run_input s e = (case mb_executions s e of Some entry \<Rightarrow> we_initial_input entry | None \<Rightarrow> JObject [])"

text \<open>What a run materializes to, and where its replay starts: from the seed of its segment, if it has
  one, or from its input.\<close>

definition replayed :: "in_memory_backend \<Rightarrow> execution_id \<Rightarrow> materialized_state" where
  "replayed s e = materialize_from (run_input s e) (latest_snapshot e s) (\<lambda>since. get_events_since e since s)"

definition run_base :: "in_memory_backend \<Rightarrow> execution_id \<Rightarrow> materialized_state" where
  "run_base s e =
     (case mb_snapshots s e of
        Some (snap # _) \<Rightarrow> if sn_at_sequence snap = 0 then of_snapshot snap else origin_state (run_input s e)
      | _ \<Rightarrow> origin_state (run_input s e))"

text \<open>Every snapshot is the replay of the log up to its sequence.\<close>

definition snapshot_ok :: "in_memory_backend \<Rightarrow> execution_id \<Rightarrow> snapshot \<Rightarrow> bool" where
  "snapshot_ok s e snap =
     (sn_at_sequence snap < mb_next_sequence s \<and> 0 \<le> sn_at_sequence snap \<and>
      of_snapshot snap = fold apply_event (filter (\<lambda>ev. ev_sequence ev \<le> sn_at_sequence snap) (log_of s e)) (run_base s e))"

definition snapshots_ok :: "in_memory_backend \<Rightarrow> bool" where
  "snapshots_ok s =
     (\<forall>e. ms_last_sequence (run_base s e) = 0 \<and> (\<forall>snaps. mb_snapshots s e = Some snaps \<longrightarrow> (\<forall>snap \<in> set snaps. snapshot_ok s e snap)))"

lemma materialize_replayed:
  "materialize e s = (if mb_executions s e = None then Inl (NotFound (exec_label e)) else Inr (replayed s e))"
  by (auto simp: materialize_def replayed_def run_input_def get_execution_def and_then_def ok_or_def split: option.split)

lemma snapshot_turn_replayed:
  "snapshot_turn fresh now e s = write_snapshot (from_materialized (fresh (mb_next_sequence s)) now e (replayed s e)) s"
  by (simp add: snapshot_turn_def replayed_def materialize_from_def run_input_def split: option.split)

lemma max_by_member: "max_by_at_sequence l = Some snap \<Longrightarrow> snap \<in> set l" and max_by_none: "max_by_at_sequence l = None \<Longrightarrow> l = []"
proof -
  let ?f = "\<lambda>snap best. case best of None \<Rightarrow> Some snap
             | Some b \<Rightarrow> if sn_at_sequence snap \<ge> sn_at_sequence b then Some snap else Some b"
  have f: "\<exists>snap. fold ?f l (Some b) = Some snap \<and> snap \<in> insert b (set l)" for l b
  proof (induction l arbitrary: b)
    case (Cons a l)
    show ?case using Cons [of a] Cons [of b] by auto
  qed simp
  show "max_by_at_sequence l = Some snap \<Longrightarrow> snap \<in> set l" and "max_by_at_sequence l = None \<Longrightarrow> l = []"
    using f [of "tl l" "hd l"] by (cases l; auto simp: max_by_at_sequence_def)+
qed

lemma split_at_sequence:
  "sorted_wrt (<) (map ev_sequence l) \<Longrightarrow>
     filter (\<lambda>ev. ev_sequence ev \<le> c) l @ filter (\<lambda>ev. ev_sequence ev > c) l = l"
proof (induction l)
  case (Cons a l)
  show ?case
  proof (cases "ev_sequence a \<le> c")
    case False
    then have "filter (\<lambda>ev. ev_sequence ev \<le> c) l = []" "filter (\<lambda>ev. ev_sequence ev > c) l = l"
      using Cons.prems by (auto simp: filter_empty_conv filter_id_conv)
    then show ?thesis using False by simp
  qed (use Cons in simp)
qed simp

lemma replayed_is_replay:
  assumes "log_ok s" "snapshots_ok s"
  shows "replayed s e = apply_events_seeded (run_base s e) (get_events e s)"
proof -
  have w: "sorted_wrt (<) (map ev_sequence (log_of s e))" "\<forall>ev \<in> set (log_of s e). 0 < ev_sequence ev"
    using assms(1) by (simp_all add: well_sequenced_def)
  show ?thesis
  proof (cases "latest_snapshot e s")
    case None
    then have "mb_snapshots s e = None \<or> mb_snapshots s e = Some []"
      using max_by_none by (cases "mb_snapshots s e") (auto simp: latest_snapshot_def)
    then have "run_base s e = origin_state (run_input s e)" by (auto simp: run_base_def)
    moreover have "filter (\<lambda>ev. ev_sequence ev > 0) (log_of s e) = log_of s e" using w(2) by (simp add: filter_id_conv)
    ultimately show ?thesis using None by (simp add: replayed_def materialize_from_def get_events_since_def get_events_def)
  next
    case (Some snap)
    then have "snapshot_ok s e snap"
      using assms(2) max_by_member by (auto simp: latest_snapshot_def snapshots_ok_def split: bind_splits)
    then have "of_snapshot snap = fold apply_event (filter (\<lambda>ev. ev_sequence ev \<le> sn_at_sequence snap) (log_of s e)) (run_base s e)"
      by (simp add: snapshot_ok_def)
    then have "replayed s e = fold apply_event (filter (\<lambda>ev. ev_sequence ev \<le> sn_at_sequence snap) (log_of s e) @
        filter (\<lambda>ev. ev_sequence ev > sn_at_sequence snap) (log_of s e)) (run_base s e)"
      using Some by (simp add: replayed_def materialize_from_def get_events_since_def apply_events_seeded_def)
    then show ?thesis using split_at_sequence [OF w(1)] by (simp add: apply_events_seeded_def get_events_def)
  qed
qed

section \<open>Every operation keeps the snapshots right\<close>

definition base_part :: "in_memory_backend \<Rightarrow> (execution_id \<rightharpoonup> snapshot list) \<times> (execution_id \<Rightarrow> json) \<times> execution_id set" where
  "base_part s = (mb_snapshots s, run_input s, dom (mb_executions s))"

lemma base_part_eqs:
  "base_part s' = base_part s \<Longrightarrow> mb_snapshots s' = mb_snapshots s"
  "base_part s' = base_part s \<Longrightarrow> run_base s' = run_base s"
  "base_part s' = base_part s \<Longrightarrow> dom (mb_executions s') = dom (mb_executions s)"
  by (auto simp: base_part_def run_base_def [abs_def] cong: option.case_cong list.case_cong if_cong)

lemma base_part_same: "mb_snapshots s' = mb_snapshots s \<Longrightarrow> mb_executions s' = mb_executions s \<Longrightarrow> base_part s' = base_part s"
  by (simp add: base_part_def run_input_def [abs_def])

text \<open>A step the replay survives: the snapshots stay right and the base of a known run stays put.\<close>

definition replay_step :: "in_memory_backend \<Rightarrow> in_memory_backend \<Rightarrow> bool" where
  "replay_step s s' =
     (snapshots_ok s' \<and> (\<forall>e \<in> dom (mb_executions s). e \<in> dom (mb_executions s') \<and> run_base s' e = run_base s e))"

lemma grown_snapshots_ok:
  assumes "snapshots_ok s" "grows s s'" "mb_snapshots s' = mb_snapshots s"
    and "\<forall>e. mb_snapshots s e \<noteq> None \<longrightarrow> run_base s' e = run_base s e"
  shows "snapshots_ok s'"
  unfolding snapshots_ok_def
proof (intro allI conjI impI ballI)
  fix e
  show "ms_last_sequence (run_base s' e) = 0"
  proof (cases "mb_snapshots s e")
    case None
    then show ?thesis using assms(3) by (simp add: run_base_def origin_state_def)
  qed (use assms(1,4) in \<open>simp add: snapshots_ok_def\<close>)
  fix snaps snap assume m: "mb_snapshots s' e = Some snaps" "snap \<in> set snaps"
  then have ok: "snapshot_ok s e snap" using assms(1,3) by (simp add: snapshots_ok_def)
  obtain new where new: "log_of s' e = log_of s e @ new" "sorted_wrt (<) (map ev_sequence new)"
    "\<forall>ev \<in> set new. mb_next_sequence s \<le> ev_sequence ev \<and> ev_sequence ev < mb_next_sequence s' \<and> ev_execution_id ev = e"
    by (rule appends_obtain [OF assms(2)])
  have "filter (\<lambda>ev. ev_sequence ev \<le> sn_at_sequence snap) new = []" using new(3) ok by (auto simp: filter_empty_conv snapshot_ok_def)
  moreover have "mb_next_sequence s \<le> mb_next_sequence s'" using assms(2) by (simp add: appends_only_def)
  ultimately show "snapshot_ok s' e snap" using ok m assms(3,4) new(1) by (simp add: snapshot_ok_def)
qed

lemma replay_step_same: "snapshots_ok s \<Longrightarrow> grows s s' \<Longrightarrow> base_part s' = base_part s \<Longrightarrow> replay_step s s'"
  using grown_snapshots_ok [of s s'] base_part_eqs [of s' s] by (simp add: replay_step_def)

lemma replay_step_trans: "replay_step s t \<Longrightarrow> replay_step t u \<Longrightarrow> replay_step s u"
  by (simp add: replay_step_def)

lemma write_snapshot_replay_step:
  assumes "log_ok s" "snapshots_ok s"
  shows "replay_step s (write_snapshot (from_materialized i now e (replayed s e)) s)"
proof -
  let ?at = "ms_last_sequence (replayed s e)"
  define snap where "snap = from_materialized i now e (replayed s e)"
  define t where "t = write_snapshot snap s"
  have snap: "of_snapshot snap = replayed s e" "sn_at_sequence snap = ?at" "sn_execution_id snap = e"
    by (simp_all add: snap_def) (simp add: from_materialized_def)
  have r: "replayed s e = fold apply_event (log_of s e) (run_base s e)"
    using replayed_is_replay [OF assms] by (simp add: apply_events_seeded_def get_events_def)
  have base0: "ms_last_sequence (run_base s e) = 0" using assms(2) by (simp add: snapshots_ok_def)
  have w: "\<forall>ev \<in> set (log_of s e). 0 < ev_sequence ev \<and> ev_sequence ev < mb_next_sequence s" "0 < mb_next_sequence s"
    using assms(1) by (simp_all add: well_sequenced_def)
  have upto: "\<forall>ev \<in> set (log_of s e). ev_sequence ev \<le> ?at" using mat.seen_ge r by auto
  have at_seq: "0 \<le> ?at" "?at < mb_next_sequence s"
    using mat.seen_cases [of "log_of s e" "run_base s e"] w base0 r by auto
  have snaps: "mb_snapshots t = (mb_snapshots s)(e \<mapsto> (case mb_snapshots s e of Some l \<Rightarrow> l | None \<Rightarrow> []) @ [snap])"
    "log_of t = log_of s" "mb_next_sequence t = mb_next_sequence s" "mb_executions t = mb_executions s"
    by (simp_all add: t_def write_snapshot_def snap log_of_def [abs_def])
  have input: "run_input t = run_input s" by (simp add: run_input_def [abs_def] snaps)
  have zero: "?at = 0 \<Longrightarrow> replayed s e = run_base s e" using upto w(1) r by (cases "log_of s e") force+
  have base: "run_base t k = run_base s k" for k
    using zero snap by (auto simp: run_base_def snaps(1) input split: option.split list.split)
  have new: "snapshot_ok t e snap" using upto at_seq r by (simp add: snapshot_ok_def snap snaps base filter_True)
  have old: "snapshot_ok t k sn \<longleftrightarrow> snapshot_ok s k sn" for k sn by (simp add: snapshot_ok_def snaps base)
  have "snapshots_ok t"
    unfolding snapshots_ok_def
  proof (intro allI conjI impI ballI)
    fix k snaps' sn
    show "ms_last_sequence (run_base t k) = 0" using assms(2) by (simp add: base snapshots_ok_def)
    assume "mb_snapshots t k = Some snaps'" "sn \<in> set snaps'"
    then have "sn = snap \<and> k = e \<or> (\<exists>l. mb_snapshots s k = Some l \<and> sn \<in> set l)"
      by (auto simp: snaps(1) split: if_splits option.splits)
    then show "snapshot_ok t k sn" using new old assms(2) by (auto simp: snapshots_ok_def)
  qed
  then show ?thesis by (simp add: replay_step_def snaps(4) base snap_def [symmetric] t_def [symmetric])
qed

text \<open>The data of the runs, which neither the queue nor the tokens, tenants and projections touch.\<close>

definition run_data where
  "run_data s = (mb_executions s, mb_snapshots s, mb_workflows s, mb_tool_effects s, mb_artifacts s, mb_tool_reservations s)"

lemma run_data_base: "run_data s' = run_data s \<Longrightarrow> base_part s' = base_part s"
  by (rule base_part_same) (simp_all add: run_data_def)

lemma run_data_others:
  "run_data (fst (create_token secret i now nm role s)) = run_data s"
  "run_data (apply_approval_projection row pn c s) = run_data s" "run_data (set_projector_checkpoint pn e c s) = run_data s"
  "run_data (create_tenant t s) = run_data s" "run_data (update_tenant t s) = run_data s"
  "run_data (fst (bump_store_term s)) = run_data s" "run_data (fst (set_store_term_at_least n s)) = run_data s"
  by (simp_all add: run_data_def create_token_def apply_approval_projection_def put_row_def set_projector_checkpoint_def
      create_tenant_def update_tenant_def bump_store_term_def set_store_term_at_least_def Let_def)

lemma run_data_appends:
  "run_data (fst (push_event ev s)) = run_data s" "run_data (fst (append_event_if ev cond s)) = run_data s"
  "run_data (fst (append_event ev s)) = run_data s"
proof -
  show p: "run_data (fst (push_event ev s)) = run_data s" by (simp add: run_data_def push_event_def Let_def)
  have "run_data (s\<lparr>mb_events := v\<rparr>) = run_data s" for v by (simp add: run_data_def)
  then show "run_data (fst (append_event_if ev cond s)) = run_data s"
    using p by (simp add: append_event_if_def split_beta split: option.split)
  show "run_data (fst (append_event ev s)) = run_data s" using p by (simp add: append_event_def)
qed

lemma base_part_others:
  "base_part (fst (store_workflow x def s)) = base_part s" "base_part (fst (reserve_tool_effect x now key owner f ttl s)) = base_part s"
  "base_part (release_tool_reservation key owner f s) = base_part s" "base_part (fst (put_artifact x bytes mt s)) = base_part s"
  "base_part (record_effect kind s) = base_part s"
  by (rule base_part_same; simp add: store_workflow_def reserve_tool_effect_def release_tool_reservation_def
      put_artifact_def record_effect_frame Let_def split: option.split prod.split)+

lemma run_data_queue:
  "run_data (fst (enqueue_work_item item s)) = run_data s" "run_data (fst (renew_lease now i w f s)) = run_data s"
  "run_data (fst (reattach now i w f s)) = run_data s" "run_data (remove_item i s) = run_data s"
  "run_data (fst (fail_work_item_fenced i f err s)) = run_data s" "run_data (fst (park_work_item i f att s)) = run_data s"
  "run_data (move_to_dead_letter i s) = run_data s" "run_data (dead_letter_item item s) = run_data s"
  "run_data (fst (reclaim_item now i acc)) = run_data (fst acc)" "run_data (fst (expire_item now i acc')) = run_data (fst acc')"
  "run_data (fst (take_lease now w len k item s)) = run_data s" "run_data (put_row row s) = run_data s"
  by (auto simp: run_data_def enqueue_work_item_def renew_lease_def reattach_def remove_item_def fail_work_item_fenced_def
      park_work_item_def move_to_dead_letter_def dead_letter_item_def reclaim_item_def expire_item_def take_lease_def put_row_def
      Let_def split_beta split: option.split)

lemma run_data_folds:
  "run_data (fold put_row rows s) = run_data s" "run_data (fold dead_letter_item items s) = run_data s"
  "run_data (fst (fold (reclaim_item now) ids acc)) = run_data (fst acc)"
  "run_data (fst (fold (expire_item now) ids acc')) = run_data (fst acc')" "run_data (fold remove_item is s) = run_data s"
proof -
  show "run_data (fold put_row rows s) = run_data s" by (induction rows arbitrary: s) (simp_all add: run_data_queue)
  show "run_data (fold dead_letter_item items s) = run_data s" by (induction items arbitrary: s) (simp_all add: run_data_queue)
  show "run_data (fst (fold (reclaim_item now) ids acc)) = run_data (fst acc)"
    by (induction ids arbitrary: acc) (simp_all add: run_data_queue)
  show "run_data (fst (fold (expire_item now) ids acc')) = run_data (fst acc')"
    by (induction ids arbitrary: acc') (simp_all add: run_data_queue)
  show "run_data (fold remove_item is s) = run_data s" by (induction "is" arbitrary: s) (simp_all add: run_data_queue)
qed

lemma run_data_expire_leases: "run_data (expire_leases fresh now ids s) = run_data s"
  using run_data_folds(4) [of now ids "(s, [], [])"]
  by (simp add: expire_leases_def split_beta fold_record_expiry_keeps [of run_data, OF run_data_appends(1)] run_data_folds(5))

lemma run_data_claim:
  "claim_work_item_with_lease fresh now ids w qs ls s = (s', r) \<Longrightarrow> run_data s' = run_data s"
  using run_data_queue(11)
  by (auto simp: claim_work_item_with_lease_def Let_def split_beta run_data_expire_leases split: option.splits)

lemma run_data_composed:
  "run_data (apply_approval_projection_batch rows pn e c s) = run_data s"
  "run_data (fst (reclaim_expired_leases now ids s)) = run_data s" "run_data (fst (heartbeat_lease now i w f s)) = run_data s"
  "run_data (complete_work_item i s) = run_data s" "run_data (fst (complete_work_item_fenced i f s)) = run_data s"
  "run_data (fst (withdraw_work_item_fenced i f s)) = run_data s" "run_data (fst (fail_work_item i s)) = run_data s"
proof -
  show "run_data (fst (reclaim_expired_leases now ids s)) = run_data s"
    using run_data_folds(3) [of now ids "(s, [], [])"] by (simp add: reclaim_expired_leases_def split_beta run_data_folds(2))
  have "run_data (fst r) = run_data s" if "renew_lease now i w f s = r" for r using run_data_queue(2) that by blast
  then show "run_data (fst (heartbeat_lease now i w f s)) = run_data s"
    using run_data_queue(3) [of now i w f] by (auto simp: heartbeat_lease_def split: prod.split sum.split backend_error.split)
qed (simp_all add: apply_approval_projection_batch_def run_data_others run_data_folds complete_work_item_def
    complete_work_item_fenced_def withdraw_work_item_fenced_def fail_work_item_def run_data_queue split: option.split)

lemmas base_part_queue = run_data_others [THEN run_data_base] run_data_appends [THEN run_data_base] run_data_queue [THEN run_data_base]
  run_data_composed [THEN run_data_base]

text \<open>Updating an execution keeps its input.\<close>

lemma base_part_update:
  assumes "mb_executions s e = Some entry" "we_initial_input entry' = we_initial_input entry"
  shows "base_part (s\<lparr>mb_executions := (mb_executions s)(e \<mapsto> entry')\<rparr>) = base_part s"
  using assms by (auto simp: base_part_def run_input_def fun_eq_iff)

lemma base_part_executions:
  "base_part (fst (update_execution_status now e st s)) = base_part s"
  "base_part (fst (update_execution_current_state now e v s)) = base_part s"
  "base_part (fst (patch_append_array now e k v s)) = base_part s"
  "base_part (fst (finish_execution now ev st s)) = base_part s"
  "base_part (fst (finalize_rollover_fenced now e i f s)) = base_part s"
proof -
  show "base_part (fst (finalize_rollover_fenced now e i f s)) = base_part s"
    using run_data_base [OF run_data_queue(4) [of i s]]
    by (auto simp: finalize_rollover_fenced_def Let_def base_part_update split: option.split)
qed (auto simp: update_execution_status_def update_execution_current_state_def patch_append_array_def update_execution_def
    finish_execution_def Let_def split_beta base_part_update run_data_base [OF run_data_appends(1)] split: option.split)

lemma settle_replay_step:
  assumes "log_ok s" "snapshots_ok s" "mb_next_sequence s < 2 ^ 62"
  shows "replay_step s (settle_turn fresh now i ev snap s)"
proof -
  define t where "t = record_effect (ev_kind ev) (fst (push_event ev (remove_item i s)))"
  have n: "0 < mb_next_sequence s" "mb_next_sequence s < 2 ^ 63 - 1" using assms by (simp_all add: well_sequenced_def)
  have g: "grows s t" using settle_turn_grows [OF n, of fresh now i ev False] by (simp add: settle_turn_def t_def)
  have t: "replay_step s t" by (rule replay_step_same [OF assms(2) g]) (simp add: t_def base_part_others base_part_queue)
  have "log_ok t" by (rule appends_sequenced [OF g assms(1)])
  moreover have "snapshots_ok t" using t by (simp add: replay_step_def)
  ultimately have "replay_step t (snapshot_turn fresh now (ev_execution_id ev) t)"
    unfolding snapshot_turn_replayed by (rule write_snapshot_replay_step)
  then show ?thesis using t replay_step_trans by (auto simp: settle_turn_def t_def [symmetric] Let_def)
qed

lemma commit_replay_step:
  assumes "log_ok s" "snapshots_ok s" "mb_next_sequence s < 2 ^ 62"
  shows "replay_step s (fst (commit_turn fresh now i f ev snap s))"
    and "replay_step s (fst (commit_turn_unless_terminal fresh now i f ev snap s))"
proof -
  have id_step: "replay_step s s" using assms(2) by (simp add: replay_step_def)
  show c: "replay_step s (fst (commit_turn fresh now i f ev snap s))"
    using settle_replay_step [OF assms] id_step by (simp add: commit_turn_cases)
  then show "replay_step s (fst (commit_turn_unless_terminal fresh now i f ev snap s))"
    using replay_step_same [OF assms(2) grows_same [OF log_part_composed(6)] run_data_base [OF run_data_composed(6)]]
    by (simp add: commit_unless_cases)
qed

lemma fresh_run_base:
  assumes "snapshots_ok s" "fresh_run s e" "mb_snapshots s1 = mb_snapshots s \<or> sn_at_sequence seed = 0 \<and> sn_last_sequence seed = 0 \<and> mb_snapshots s1 = (mb_snapshots s)(e \<mapsto> [seed])"
    "mb_executions s1 = (mb_executions s)(e \<mapsto> ex)" "log_of s1 = log_of s" "mb_next_sequence s1 = mb_next_sequence s" "0 < mb_next_sequence s"
  shows "replay_step s s1"
proof -
  have none: "mb_snapshots s e = None" "log_of s e = []" "mb_executions s e = None" using assms(2) by (simp_all add: fresh_run_def)
  have other: "run_base s1 k = run_base s k" if "k \<noteq> e" for k
  proof -
    have "run_input s1 k = run_input s k" "mb_snapshots s1 k = mb_snapshots s k" using that assms(3,4) by (auto simp: run_input_def)
    then show ?thesis by (simp add: run_base_def cong: option.case_cong list.case_cong if_cong)
  qed
  have ok: "snapshot_ok s1 k snap \<longleftrightarrow> snapshot_ok s k snap" if "k \<noteq> e" for k snap
    using other [OF that] assms(5,6) by (simp add: snapshot_ok_def)
  have "ms_last_sequence (run_base s1 k) = 0 \<and> (\<forall>snaps. mb_snapshots s1 k = Some snaps \<longrightarrow> (\<forall>snap \<in> set snaps. snapshot_ok s1 k snap))" for k
  proof (cases "k = e")
    case True
    then show ?thesis using assms(3,5-7) none
      by (auto simp: run_base_def origin_state_def of_snapshot_def snapshot_ok_def)
  next
    case False
    have "mb_snapshots s1 k = mb_snapshots s k" using False assms(3) by auto
    then show ?thesis using ok [OF False] other [OF False] assms(1) by (simp add: snapshots_ok_def)
  qed
  then have "snapshots_ok s1" by (simp add: snapshots_ok_def)
  moreover have "run_base s1 k = run_base s k" if "k \<in> dom (mb_executions s)" for k
    by (rule other) (use that none(3) in auto)
  ultimately show ?thesis using assms(4) by (auto simp: replay_step_def)
qed

lemma create_run_replay_step:
  assumes "log_ok s" "snapshots_ok s" "mb_next_sequence s < 2 ^ 62" "fresh_run s (we_execution_id ex)"
    and "case seed of None \<Rightarrow> True | Some snap \<Rightarrow> sn_at_sequence snap = 0 \<and> sn_last_sequence snap = 0"
  shows "replay_step s (create_run fresh now ex seed k1 k2 item s)"
proof -
  let ?e = "we_execution_id ex"
  let ?f = "fold (\<lambda>kind s. fst (push_event (event_new (fresh (mb_next_sequence s)) now ?e 0 kind) s)) [k1, k2]"
  define s0 where "s0 = (case seed of
      Some snap \<Rightarrow> s\<lparr>mb_snapshots := (mb_snapshots s)(?e \<mapsto> (case mb_snapshots s ?e of Some l \<Rightarrow> l | None \<Rightarrow> []) @ [snap])\<rparr>
    | None \<Rightarrow> s)"
  define s1 where "s1 = s0\<lparr>mb_executions := (mb_executions s0)(?e \<mapsto> ex)\<rparr>"
  have n: "0 < mb_next_sequence s" using assms(1) by (simp add: well_sequenced_def)
  have 0: "log_of s0 = log_of s" "mb_next_sequence s0 = mb_next_sequence s" "mb_executions s0 = mb_executions s"
    "mb_snapshots s0 = mb_snapshots s \<or> (\<exists>sd. seed = Some sd \<and> mb_snapshots s0 = (mb_snapshots s)(?e \<mapsto> [sd]))"
    using assms(4) by (auto simp: s0_def fresh_run_def log_of_def [abs_def] split: option.split)
  have 1: "replay_step s s1"
    by (rule fresh_run_base [OF assms(2,4) _ _ _ _ n, of s1 "the seed" ex])
      (use 0 assms(5) in \<open>auto simp: s1_def log_of_def [abs_def] split: option.splits\<close>)
  have g: "grows s1 (?f s1)"
    by (rule conjunct1 [OF fold_push_grows]) (use 0 n assms(3) in \<open>simp_all add: s1_def\<close>)
  have "replay_step s1 (?f s1)"
    by (rule replay_step_same [OF _ g]) (use 1 in \<open>simp_all add: replay_step_def base_part_queue\<close>)
  then have 2: "replay_step s (?f s1)" by (rule replay_step_trans [OF 1])
  let ?r = "create_run fresh now ex seed k1 k2 item s"
  have b: "base_part ?r = base_part (?f s1)"
    by (rule base_part_same) (simp_all add: create_run_def s0_def [symmetric] s1_def Let_def push_event_frame)
  have "log_part ?r = log_part (?f s0)"
    by (simp add: create_run_def s0_def [symmetric] Let_def log_part_def log_of_def [abs_def])
  also have "\<dots> = log_part (?f s1)"
    by (rule prod_eqI, rule ext) (simp_all add: s1_def log_part_def log_of_push next_of_push, simp_all add: log_of_def)
  finally have l: "log_part ?r = log_part (?f s1)" .
  have "replay_step (?f s1) ?r"
    by (rule replay_step_same [OF _ grows_same [OF l] b]) (use 2 in \<open>simp add: replay_step_def\<close>)
  then show ?thesis by (rule replay_step_trans [OF 2])
qed

lemma create_execution_replay_step:
  assumes "log_ok s" "snapshots_ok s" "fresh_run s (we_execution_id ex)"
  shows "replay_step s (create_execution ex s)"
  by (rule fresh_run_base [OF assms(2,3), of _ undefined ex])
    (use assms(1) in \<open>simp_all add: create_execution_def log_of_def [abs_def] well_sequenced_def\<close>)

lemma op_replay_step:
  assumes "backend_op x fresh s l s'" and "log_ok s" and "snapshots_ok s" and "in_range s"
  shows "replay_step s s'"
proof -
  have r: "mb_next_sequence s < 2 ^ 62" using assms(4) unfolding in_range_def by blast
  have "0 < mb_next_sequence s" using assms(2) by (simp add: well_sequenced_def)
  then have g: "grows s s'" using op_grows assms(1,4) by blast
  note same = replay_step_same [OF assms(3) g]
  note p = base_part_others base_part_executions base_part_queue
  show ?thesis using assms(1)
  proof (cases rule: backend_op.cases)
    case op_claim
    then show ?thesis using same run_data_base [OF run_data_claim] by blast
  next
    case (op_heartbeat now i w f r)
    then have "base_part s' = base_part s" using run_data_base [OF run_data_composed(3) [of now i w f s]] by simp
    then show ?thesis by (rule same)
  next
    case (op_snapshot e mat i now)
    then have "mat = replayed s e" by (simp add: materialize_replayed split: if_splits)
    then show ?thesis using op_snapshot write_snapshot_replay_step [OF assms(2,3)] by simp
  next
    case op_create_execution
    then show ?thesis using create_execution_replay_step [OF assms(2,3)] by simp
  next
    case op_create_segment
    then show ?thesis using create_run_replay_step [OF assms(2,3) r] by (simp add: create_segment_atomic_def)
  next
    case op_start
    then show ?thesis using create_run_replay_step [OF assms(2,3) r] by (simp add: start_execution_atomic_def)
  next
    case op_commit
    then show ?thesis using commit_replay_step [OF assms(2,3) r] by simp
  next
    case op_commit_unless
    then show ?thesis using commit_replay_step [OF assms(2,3) r] by simp
  qed (rule same, simp add: p)+
qed

lemma trace_replay:
  "backend_trace x fresh s ls s' \<Longrightarrow> log_ok s \<Longrightarrow> snapshots_ok s \<Longrightarrow> replay_step s s' \<and> log_ok s'"
proof (induction rule: backend_trace.induct)
  case (trace_nil s)
  then show ?case by (simp add: replay_step_def)
next
  case (trace_snoc s ls s' l s'')
  then have t: "replay_step s s'" "log_ok s'" "snapshots_ok s'" by (auto simp: replay_step_def)
  have op: "backend_op x fresh s' l s''" "in_range s'" using trace_snoc.hyps(2) by (simp_all add: backend_step_def)
  have "grows s' s''" using op_grows [OF op(1) _ op(2)] t(2) by (simp add: well_sequenced_def)
  then have "log_ok s''" using t(2) by (rule appends_sequenced)
  then show ?case using replay_step_trans [OF t(1)] op_replay_step [OF op(1) t(2,3) op(2)] by blast
qed

lemma snapshots_ok_new: "snapshots_ok backend_new"
  by (simp add: snapshots_ok_def run_base_def backend_new_def origin_state_def)

text \<open>C19: in every reachable state, whatever snapshots were written on the way and wherever, materializing
  a run gives the replay of its whole log, from the seed of its segment or from its input, and as the log
  grows the materialized state moves on by exactly the new events: the fold is never restarted from
  another base.\<close>

theorem materialize_is_replay:
  assumes "backend_trace x fresh backend_new ls s" and "backend_trace x fresh s ls' s'" and "mb_executions s e \<noteq> None"
  shows "materialize e s = Inr (apply_events_seeded (run_base s e) (get_events e s)) \<and>
    materialize e s' = Inr (apply_events_seeded (apply_events_seeded (run_base s e) (get_events e s))
                            (get_events_since e (latest_sequence e s) s'))"
proof -
  have s: "log_ok s" "snapshots_ok s" using trace_replay [OF assms(1) log_ok_new snapshots_ok_new] by (simp_all add: replay_step_def)
  then have s': "replay_step s s'" "log_ok s'" using trace_replay [OF assms(2)] by simp_all
  then have base: "run_base s' e = run_base s e" "mb_executions s' e \<noteq> None" "snapshots_ok s'"
    using assms(3) by (auto simp: replay_step_def)
  have "log_of s' e = log_of s e @ get_events_since e (latest_sequence e s) s'"
    using mlog.read_above [OF trace_steps [OF assms(2)] s(1) log_ok_latest [OF s(1)]] by (simp add: get_events_since_def)
  then have "replayed s' e = apply_events_seeded (replayed s e) (get_events_since e (latest_sequence e s) s')"
    using replayed_is_replay [OF s, of e] replayed_is_replay [OF s'(2) base(3), of e] base(1)
    by (simp add: apply_events_seeded_def get_events_def)
  then show ?thesis using replayed_is_replay [OF s] assms(3) base(2) by (simp add: materialize_replayed)
qed

definition sample_execution :: workflow_execution where
  "sample_execution = \<lparr>we_execution_id = ''x'', we_workflow_id = ''wf'', we_workflow_version = ''1'', we_status = WfRunning,
     we_initial_input = JObject [], we_current_state = JObject [], we_started_at = 0, we_updated_at = 0, we_completed_at = None,
     we_session_type = None, we_parent_execution_id = None, we_segment_number = 0\<rparr>"

definition started :: in_memory_backend where
  "started = create_execution sample_execution backend_new"

lemma started_trace: "backend_trace x fresh backend_new [None] started"
  and started_step: "backend_trace x fresh started [None] (fst (append_event ev started))"
proof -
  have "in_range backend_new" "in_range started"
    by (simp_all add: in_range_def started_def create_execution_def backend_new_def epoch_of_def)
  then have "backend_step x fresh backend_new None started" "backend_step x fresh started None (fst (append_event ev started))"
    by (simp_all add: backend_step_def started_def op_append op_create_execution fresh_run_def backend_new_def log_of_def)
  then show "backend_trace x fresh backend_new [None] started" "backend_trace x fresh started [None] (fst (append_event ev started))"
    using trace_snoc [OF trace_nil] by fastforce+
qed

theorem materialize_is_replay_witness:
  "materialize ''x'' (fst (append_event (sample_event 0 (NodeScheduled ''a'' ''tool'')) started)) =
     Inr ((origin_state (JObject []))\<lparr>ms_active_nodes := {''a''}, ms_last_sequence := 1\<rparr>)"
proof -
  have "mb_executions started ''x'' \<noteq> None" by (simp add: started_def create_execution_def sample_execution_def)
  note m = conjunct2 [OF materialize_is_replay [OF started_trace [of sample_externals "\<lambda>_. ''e''"] started_step this,
        of "sample_event 0 (NodeScheduled ''a'' ''tool'')"]]
  show ?thesis
    unfolding m
    by (simp add: started_def create_execution_def backend_new_def run_base_def run_input_def get_events_def
        get_events_since_def latest_sequence_def log_of_def append_event_def push_event_def Let_def sample_event_def event_new_def
        apply_events_seeded_def apply_event_def apply_kind_def origin_state_def sample_execution_def)
qed

end
