(* ===== verification/Backend_Runs.thy ===== *)
theory Backend_Runs
  imports Backend_Log
begin

text \<open>
  What the backend promises about a run and what it stores for it: a run that has ended stays ended and
  its log is closed to the guarded writers; definitions, effects and artifacts are written once; a
  reservation of a tool effect is exclusive.
\<close>

section \<open>The end of a run\<close>

lemma run_is_terminalD: "run_is_terminal s e \<Longrightarrow> \<exists>entry. mb_executions s e = Some entry \<and> is_terminal (we_status entry)"
  by (simp add: run_is_terminal_def split: option.splits)

lemma executions_frame:
  "mb_executions (fst (store_workflow x def s)) = mb_executions s"
  "mb_executions (fst (reserve_tool_effect x now key owner f ttl s)) = mb_executions s"
  "mb_executions (release_tool_reservation key owner f s) = mb_executions s"
  "mb_executions (fst (put_artifact x bytes mt s)) = mb_executions s"
  "mb_executions (write_snapshot snap s) = mb_executions s"
  "mb_executions (settle_turn fresh now i ev b s) = mb_executions s"
  by (simp_all add: store_workflow_def reserve_tool_effect_def release_tool_reservation_def put_artifact_def write_snapshot_def
      settle_turn_def Let_def snapshot_turn_frame record_effect_frame push_event_frame remove_item_frame split: option.split prod.split)

lemma executions_create_run:
  "mb_executions (create_run fresh now ex seed k1 k2 item s) = (mb_executions s)(we_execution_id ex \<mapsto> ex)"
  by (simp add: create_run_push Let_def push_event_frame split: option.split)

text \<open>The status of a run as the store has it.\<close>

definition status_of :: "in_memory_backend \<Rightarrow> execution_id \<Rightarrow> workflow_status option" where
  "status_of s e = map_option we_status (mb_executions s e)"

lemma status_frame: "mb_executions s' = mb_executions s \<Longrightarrow> status_of s' e = status_of s e"
  by (simp add: status_of_def)

lemma run_data_status: "run_data s' = run_data s \<Longrightarrow> status_of s' e = status_of s e"
  by (rule status_frame) (simp add: run_data_def)

lemma status_updates:
  "status_of (fst (update_execution_current_state now i v s)) e = status_of s e"
  "status_of (fst (patch_append_array now i k v s)) e = status_of s e"
  "i \<noteq> e \<Longrightarrow> status_of (fst (update_execution_status now i st s)) e = status_of s e"
  by (auto simp: update_execution_current_state_def patch_append_array_def update_execution_status_def update_execution_def status_of_def
      split: option.split)

lemma status_guarded:
  assumes "status_of s e = Some st" "is_terminal st"
  shows "status_of (fst (finish_execution now ev st' s)) e = Some st"
    and "status_of (fst (finalize_rollover_fenced now i w f s)) e = Some st"
  using assms by (auto simp: finish_execution_def finalize_rollover_fenced_def status_of_def push_event_frame remove_item_frame
      Let_def split_beta split: option.split)

lemma fresh_run_status: "fresh_run s i \<Longrightarrow> status_of s e = Some st \<Longrightarrow> e \<noteq> i"
  by (auto simp: fresh_run_def status_of_def)

lemmas run_data_same = run_data_others run_data_appends run_data_queue run_data_composed

text \<open>a run that has ended stays ended, with the status it ended with, whatever operation runs next and
  whoever calls it; the one exception is \<^verbatim>\<open>update_execution_status\<close>, which sets the status it is given.\<close>

theorem terminal_status_sticky:
  assumes "backend_step x fresh s l s'" and "status_of s e = Some st" and "is_terminal st"
  shows "status_of s' e = Some st \<or> (\<exists>now st'. s' = fst (update_execution_status now e st' s))"
proof -
  have op: "backend_op x fresh s l s'" using assms(1) by (simp add: backend_step_def)
  have keep: "run_data s' = run_data s \<Longrightarrow> ?thesis" using run_data_status [of s' s e] assms(2) by simp
  have ex: "mb_executions s' = mb_executions s \<Longrightarrow> ?thesis" using status_frame [of s' s e] assms(2) by simp
  show ?thesis using op
  proof (cases rule: backend_op.cases)
    case (op_update_status now i st')
    then show ?thesis using status_updates(3) [of i e] assms(2) by (cases "i = e") auto
  next
    case op_update_state
    then show ?thesis using status_updates assms(2) by simp
  next
    case op_patch_array
    then show ?thesis using status_updates assms(2) by simp
  next
    case op_finish
    then show ?thesis using status_guarded [OF assms(2,3)] by simp
  next
    case op_finalize
    then show ?thesis using status_guarded [OF assms(2,3)] by simp
  next
    case op_create_execution
    then show ?thesis using fresh_run_status [OF _ assms(2)] assms(2) by (auto simp: status_of_def create_execution_def)
  next
    case op_create_segment
    then show ?thesis using fresh_run_status [OF _ assms(2)] assms(2)
      by (auto simp: status_of_def create_segment_atomic_def executions_create_run)
  next
    case op_start
    then show ?thesis using fresh_run_status [OF _ assms(2)] assms(2)
      by (auto simp: status_of_def start_execution_atomic_def executions_create_run)
  next
    case op_claim
    then show ?thesis using keep run_data_claim by blast
  next
    case (op_heartbeat now i w f r)
    then have "run_data s' = run_data s" using run_data_composed(3) [of now i w f s] by simp
    then show ?thesis by (rule keep)
  next
    case op_commit
    then show ?thesis by (intro ex) (simp add: commit_turn_cases executions_frame)
  next
    case op_commit_unless
    then show ?thesis
      by (intro ex) (simp add: commit_unless_cases commit_turn_cases executions_frame withdraw_work_item_fenced_def remove_item_frame)
  qed (rule ex, simp add: executions_frame; fail | rule keep, simp add: run_data_same; fail)+
qed

definition ended :: in_memory_backend where
  "ended = create_execution (sample_execution\<lparr>we_status := WfCompleted\<rparr>) backend_new"

lemma ended_status: "status_of ended ''x'' = Some WfCompleted" "run_is_terminal ended ''x''" "in_range ended" "is_terminal WfCompleted"
  by (simp_all add: ended_def create_execution_def status_of_def run_is_terminal_def sample_execution_def in_range_def
      backend_new_def epoch_of_def)

theorem terminal_status_sticky_witness:
  "status_of (fst (append_event (sample_event 0 (NodeCancelled ''a'')) ended)) ''x'' = Some WfCompleted"
proof -
  have step: "backend_step sample_externals (\<lambda>_. ''e'') ended None (fst (append_event (sample_event 0 (NodeCancelled ''a'')) ended))"
    using ended_status(3) by (simp add: backend_step_def op_append)
  have "mb_events (fst (append_event ev ended)) \<noteq> mb_events (fst (update_execution_status now e st ended))" for ev now e st
    by (simp add: append_event_def push_event_def Let_def update_execution_status_def update_execution_def ended_def create_execution_def
        backend_new_def fun_eq_iff split: option.split)
  then show ?thesis using terminal_status_sticky [OF step ended_status(1,4)] by metis
qed

section \<open>The log of an ended run\<close>

lemma expire_item_lost:
  "(\<forall>item \<in> set (fst (snd acc)). \<not> run_is_terminal s (wi_execution_id item)) \<Longrightarrow> mb_executions (fst acc) = mb_executions s \<Longrightarrow>
   \<forall>item \<in> set (fst (snd (expire_item now i acc))). \<not> run_is_terminal s (wi_execution_id item)"
  by (auto simp: expire_item_def split_beta run_is_terminal_def split: option.split)

lemma expire_fold_lost:
  "(\<forall>item \<in> set (fst (snd acc)). \<not> run_is_terminal s (wi_execution_id item)) \<Longrightarrow> mb_executions (fst acc) = mb_executions s \<Longrightarrow>
   \<forall>item \<in> set (fst (snd (fold (expire_item now) ids acc))). \<not> run_is_terminal s (wi_execution_id item)"
proof (induction ids arbitrary: acc)
  case (Cons i ids)
  have "mb_executions (fst (expire_item now i acc)) = mb_executions s"
    using run_data_queue(10) [of now i acc] Cons.prems(2) by (simp add: run_data_def)
  then show ?case using Cons.IH [OF expire_item_lost [OF Cons.prems]] by simp
qed simp

lemma record_expiry_other: "wi_execution_id item \<noteq> e \<Longrightarrow> log_of (record_expiry fresh now item s) e = log_of s e"
  by (simp add: record_expiry_def lease_expiry_events_def append_event_fst log_of_push event_new_def)

lemma fold_record_expiry_other:
  "\<forall>item \<in> set items. wi_execution_id item \<noteq> e \<Longrightarrow> log_of (fold (record_expiry fresh now) items s) e = log_of s e"
  by (induction items arbitrary: s) (simp_all add: record_expiry_other)

lemma claim_log_of_ended:
  assumes "run_is_terminal s e" "claim_work_item_with_lease fresh now ids w qs ls s = (s', r)"
  shows "log_of s' e = log_of s e"
proof -
  obtain t lost wd where t: "fold (expire_item now) ids (s, [], []) = (t, lost, wd)" by (cases "fold (expire_item now) ids (s, [], [])")
  have "\<forall>item \<in> set lost. \<not> run_is_terminal s (wi_execution_id item)"
    using expire_fold_lost [of "(s, [], [])" s now ids] by (simp add: t)
  then have "\<forall>item \<in> set lost. wi_execution_id item \<noteq> e" using assms(1) by auto
  moreover have "log_of t = log_of s" using expire_fold_log [of now ids "(s, [], [])"] by (simp add: t)
  ultimately have "log_of (expire_leases fresh now ids s) e = log_of s e"
    by (simp add: expire_leases_def t fold_record_expiry_other fold_remove_log)
  then show ?thesis
    using assms(2) take_lease_log(1) by (auto simp: claim_work_item_with_lease_def Let_def split_beta split: option.splits)
qed

text \<open>the log of an ended run is closed to every guarded writer: finishing it again and appending under
  a condition change nothing and report its status, a worker's turn is not committed, its item being
  withdrawn if it still holds it, and the sweep of a claim records no expired lease for it.\<close>

theorem ended_run_is_closed:
  assumes "status_of s (ev_execution_id ev) = Some st" and "is_terminal st"
  shows "(is_terminal st' \<longrightarrow> finish_execution now ev st' s = (s, Inr (AlreadyTerminal st))) \<and>
    append_event_if ev cond s = (s, Inr (RunTerminal st)) \<and>
    commit_turn_unless_terminal fresh now i f ev snap s =
      (if held_under s i f then (remove_item i s, Inr (CommitTerminal st)) else (s, Inl (FenceLost i))) \<and>
    log_of (fst (claim_work_item_with_lease fresh now ids w qs ls s)) (ev_execution_id ev) = log_of s (ev_execution_id ev)"
proof -
  obtain entry where entry: "mb_executions s (ev_execution_id ev) = Some entry" "we_status entry = st"
    using assms(1) by (auto simp: status_of_def)
  have "run_is_terminal s (ev_execution_id ev)" using entry assms(2) by (simp add: run_is_terminal_def)
  note claim = claim_log_of_ended [OF this, of fresh now ids w qs ls]
  show ?thesis
    using entry assms(2) claim [OF surjective_pairing]
    by (simp add: finish_execution_def append_event_if_def commit_turn_unless_terminal_def withdraw_work_item_fenced_def)
qed

theorem ended_run_is_closed_witness:
  "append_event_if (sample_event 0 (NodeCancelled ''a'')) (\<lambda>_. True) ended = (ended, Inr (RunTerminal WfCompleted))"
  using ended_run_is_closed [of ended "sample_event 0 (NodeCancelled ''a'')" WfCompleted] ended_status(1,4)
  by (simp add: sample_event_def event_new_def)

text \<open>finishing a running run is one atomic step: the status and the event that explains it land together,
  and from then on every other finish of the run loses, whatever it asks for.\<close>

theorem finish_is_atomic:
  assumes "status_of s (ev_execution_id ev) = Some st0" and "\<not> is_terminal st0" and "is_terminal st"
  shows "case finish_execution now ev st s of (s', r) \<Rightarrow>
    r = Inr (Finished (mb_next_sequence s)) \<and> status_of s' (ev_execution_id ev) = Some st \<and>
    log_of s' (ev_execution_id ev) = log_of s (ev_execution_id ev) @ [ev\<lparr>ev_sequence := mb_next_sequence s\<rparr>] \<and>
    (\<forall>now' ev' st'. ev_execution_id ev' = ev_execution_id ev \<and> is_terminal st' \<longrightarrow>
       finish_execution now' ev' st' s' = (s', Inr (AlreadyTerminal st)))"
proof -
  obtain entry where entry: "mb_executions s (ev_execution_id ev) = Some entry" "we_status entry = st0"
    using assms(1) by (auto simp: status_of_def)
  let ?t = "s\<lparr>mb_executions := (mb_executions s)(ev_execution_id ev \<mapsto> entry\<lparr>we_status := st, we_updated_at := now\<rparr>)\<rparr>"
  have f: "finish_execution now ev st s = (fst (push_event ev ?t), Inr (Finished (mb_next_sequence s)))"
    using entry assms(2,3) by (simp add: finish_execution_def Let_def split_beta)
  have l: "log_of (fst (push_event ev ?t)) (ev_execution_id ev) =
      log_of s (ev_execution_id ev) @ [ev\<lparr>ev_sequence := mb_next_sequence s\<rparr>]"
    unfolding log_of_push by (simp add: log_of_def)
  have e: "mb_executions (fst (push_event ev ?t)) (ev_execution_id ev) = Some (entry\<lparr>we_status := st, we_updated_at := now\<rparr>)"
    by (simp add: push_event_frame)
  show ?thesis unfolding f using l e assms(3) by (simp add: status_of_def finish_execution_def [of _ _ _ "fst (push_event ev _)"])
qed

theorem finish_is_atomic_witness:
  "snd (finish_execution 1 (sample_event 0 (WorkflowFailed ''late'')) WfFailed
     (fst (finish_execution 0 (sample_event 0 (WorkflowCompleted JNull)) WfCompleted started))) = Inr (AlreadyTerminal WfCompleted)"
proof -
  have "status_of started (ev_execution_id (sample_event 0 (WorkflowCompleted JNull))) = Some WfRunning"
    by (simp add: status_of_def started_def create_execution_def sample_execution_def sample_event_def event_new_def)
  from finish_is_atomic [OF this, of WfCompleted 0] show ?thesis
    by (simp add: split_beta sample_event_def event_new_def)
qed

section \<open>What is stored once stays\<close>

definition keeps_stored :: "in_memory_backend \<Rightarrow> in_memory_backend \<Rightarrow> bool" where
  "keeps_stored s s' =
     (mb_workflows s \<subseteq>\<^sub>m mb_workflows s' \<and> mb_tool_effects s \<subseteq>\<^sub>m mb_tool_effects s' \<and> mb_artifacts s \<subseteq>\<^sub>m mb_artifacts s')"

lemma keeps_stored_same:
  "mb_workflows s' = mb_workflows s \<Longrightarrow> mb_tool_effects s' = mb_tool_effects s \<Longrightarrow> mb_artifacts s' = mb_artifacts s \<Longrightarrow> keeps_stored s s'"
  by (simp add: keeps_stored_def)

lemma keeps_stored_trans: "keeps_stored s t \<Longrightarrow> keeps_stored t u \<Longrightarrow> keeps_stored s u"
  unfolding keeps_stored_def by (auto intro: map_le_trans)

lemma run_data_keeps: "run_data s' = run_data s \<Longrightarrow> keeps_stored s s'"
  by (rule keeps_stored_same) (simp_all add: run_data_def)

lemma map_le_new: "m k = None \<Longrightarrow> m \<subseteq>\<^sub>m m(k \<mapsto> v)"
  by (auto simp: map_le_def)

lemma map_le_SomeD: "m \<subseteq>\<^sub>m m' \<Longrightarrow> m a = Some c \<Longrightarrow> m' a = Some c"
  by (metis domI map_le_def)

lemma record_effect_keeps: "keeps_stored s (record_effect kind s)"
  by (cases kind) (auto simp: record_effect_def keeps_stored_def map_le_new split: option.split)

lemma settle_keeps: "keeps_stored s (settle_turn fresh now i ev snap s)"
proof -
  let ?t = "fst (push_event ev (remove_item i s))"
  have 1: "keeps_stored s ?t" by (rule keeps_stored_same) (simp_all add: push_event_frame remove_item_frame)
  have 2: "keeps_stored ?t (record_effect (ev_kind ev) ?t)" by (rule record_effect_keeps)
  have "keeps_stored (record_effect (ev_kind ev) ?t) (settle_turn fresh now i ev snap s)"
    by (rule keeps_stored_same) (simp_all add: settle_turn_def Let_def snapshot_turn_frame)
  then show ?thesis using keeps_stored_trans [OF keeps_stored_trans [OF 1 2]] by blast
qed

lemma store_keeps: "keeps_stored s (fst (store_workflow x def s))" "keeps_stored s (fst (put_artifact x bytes mt s))"
  by (auto simp: store_workflow_def put_artifact_def keeps_stored_def map_le_new Let_def map_le_def split: option.split)

lemma create_run_keeps: "keeps_stored s (create_run fresh now ex seed k1 k2 item s)"
  by (rule keeps_stored_same) (simp_all add: create_run_push Let_def push_event_frame split: option.split)

lemma executions_keep:
  "keeps_stored s (create_execution ex s)" "keeps_stored s (fst (update_execution_status now e st s))"
  "keeps_stored s (fst (update_execution_current_state now e v s))" "keeps_stored s (fst (patch_append_array now e k v s))"
  "keeps_stored s (fst (finish_execution now ev st s))" "keeps_stored s (fst (finalize_rollover_fenced now e i f s))"
  "keeps_stored s (write_snapshot snap s)" "keeps_stored s (fst (reserve_tool_effect x now key owner f ttl s))"
  "keeps_stored s (release_tool_reservation key owner f s)"
  by (rule keeps_stored_same; simp add: create_execution_def update_execution_status_def update_execution_current_state_def
      patch_append_array_def update_execution_def finish_execution_def finalize_rollover_fenced_def write_snapshot_def
      reserve_tool_effect_def release_tool_reservation_def push_event_frame remove_item_frame Let_def split_beta split: option.split prod.split)+

lemma op_keeps_stored:
  assumes "backend_op x fresh s l s'"
  shows "keeps_stored s s'"
  using assms
proof (cases rule: backend_op.cases)
  case op_claim
  then show ?thesis using run_data_keeps [OF run_data_claim] by blast
next
  case (op_heartbeat now i w f r)
  then have "run_data s' = run_data s" using run_data_composed(3) [of now i w f s] by simp
  then show ?thesis by (rule run_data_keeps)
qed (simp_all add: executions_keep store_keeps create_segment_atomic_def start_execution_atomic_def create_run_keeps
    commit_turn_cases commit_unless_cases settle_keeps run_data_same [THEN run_data_keeps] keeps_stored_same)

lemma trace_keeps_stored: "backend_trace x fresh s ls s' \<Longrightarrow> keeps_stored s s'"
proof (induction rule: backend_trace.induct)
  case (trace_snoc s ls s' l s'')
  then show ?case using keeps_stored_trans op_keeps_stored unfolding backend_step_def by blast
qed (simp add: keeps_stored_same)

text \<open>what is stored once is never changed, under any interleaving: a registered workflow version keeps
  its definition (registering another one under the same version is refused and changes nothing), the
  first result recorded under an idempotency key stays the result every later attempt reads, and an
  artifact keeps its bytes.\<close>

theorem stored_stays_stored:
  assumes "backend_trace x fresh s ls s'"
  shows "(get_workflow wid v s = Some d \<longrightarrow> get_workflow wid v s' = Some d \<and>
            (\<not> same_definition x (wd_ir d) (wd_ir d') \<and> wd_workflow_id d' = wid \<and> wd_version d' = v \<longrightarrow>
               store_workflow x d' s' = (s', Inl (version_conflict wid v)))) \<and>
         (get_tool_effect key s = Some r \<longrightarrow> get_tool_effect key s' = Some r) \<and>
         (get_artifact h s = Some b \<longrightarrow> get_artifact h s' = Some b)"
proof -
  have k: "keeps_stored s s'" by (rule trace_keeps_stored [OF assms])
  have "get_workflow wid v s = Some d \<Longrightarrow> get_workflow wid v s' = Some d"
    "get_tool_effect key s = Some r \<Longrightarrow> get_tool_effect key s' = Some r"
    using k map_le_SomeD by (auto simp: keeps_stored_def get_workflow_def get_tool_effect_def)
  moreover have "get_artifact h s = Some b \<Longrightarrow> get_artifact h s' = Some b"
    using k map_le_SomeD by (fastforce simp: keeps_stored_def get_artifact_def)
  ultimately show ?thesis by (auto simp: get_workflow_def store_workflow_def Let_def)
qed

definition sample_definition :: "json \<Rightarrow> workflow_definition" where
  "sample_definition ir = \<lparr>wd_workflow_id = ''wf'', wd_version = ''1'', wd_ir = ir, wd_created_at = 0, wd_tenant_id = default_tenant\<rparr>"

definition registered :: in_memory_backend where
  "registered = fst (store_workflow sample_externals (sample_definition (JBool True)) backend_new)"

lemma registered_eq: "registered = backend_new\<lparr>mb_workflows := [(''wf'', ''1'') \<mapsto> sample_definition (JBool True)]\<rparr>"
  by (simp add: registered_def store_workflow_def sample_definition_def backend_new_def Let_def)

theorem stored_stays_stored_witness:
  "store_workflow sample_externals (sample_definition (JBool False)) registered = (registered, Inl (version_conflict ''wf'' ''1''))"
proof -
  have "content_hash sample_externals (JBool True) = content_hash sample_externals (JBool False) \<Longrightarrow> JBool True = JBool False"
    by (rule content_hash_inj [OF sample_externals_ok _ _ sample_distinct]) simp_all
  then have "\<not> same_definition sample_externals (JBool True) (JBool False)" by (auto simp: same_definition_def)
  then show ?thesis
    using stored_stays_stored [OF trace_nil [of sample_externals "\<lambda>_. ''e''" registered], of "''wf''" "''1''" "sample_definition (JBool True)"
        "sample_definition (JBool False)"]
    by (simp add: get_workflow_def registered_eq sample_definition_def)
qed

section \<open>Artifacts\<close>

definition artifacts_ok :: "externals \<Rightarrow> in_memory_backend \<Rightarrow> bool" where
  "artifacts_ok x s = (\<forall>t h b mt. mb_artifacts s (t, h) = Some (b, mt) \<longrightarrow> h = sha256_hex x b)"

lemma artifacts_frame:
  "mb_artifacts (create_execution ex s) = mb_artifacts s" "mb_artifacts (fst (update_execution_status now e st s)) = mb_artifacts s"
  "mb_artifacts (fst (update_execution_current_state now e v s)) = mb_artifacts s"
  "mb_artifacts (fst (patch_append_array now e k v s)) = mb_artifacts s" "mb_artifacts (fst (store_workflow x def s)) = mb_artifacts s"
  "mb_artifacts (fst (finish_execution now ev st s)) = mb_artifacts s"
  "mb_artifacts (fst (finalize_rollover_fenced now e i f s)) = mb_artifacts s" "mb_artifacts (write_snapshot snap s) = mb_artifacts s"
  "mb_artifacts (fst (reserve_tool_effect x now key owner f ttl s)) = mb_artifacts s"
  "mb_artifacts (release_tool_reservation key owner f s) = mb_artifacts s"
  "mb_artifacts (settle_turn fresh now i ev b s) = mb_artifacts s"
  "mb_artifacts (create_run fresh now ex seed k1 k2 item s) = mb_artifacts s"
  by (simp_all add: create_execution_def update_execution_status_def update_execution_current_state_def store_workflow_def
      patch_append_array_def update_execution_def finish_execution_def finalize_rollover_fenced_def write_snapshot_def settle_turn_def
      reserve_tool_effect_def release_tool_reservation_def push_event_frame remove_item_frame record_effect_frame snapshot_turn_frame
      create_run_push Let_def split_beta split: option.split prod.split)

lemma run_data_artifacts: "run_data s' = run_data s \<Longrightarrow> mb_artifacts s' = mb_artifacts s"
  by (simp add: run_data_def)

lemma put_artifact_ok: "artifacts_ok x s \<Longrightarrow> artifacts_ok x (fst (put_artifact x bytes mt s))"
  by (auto simp: artifacts_ok_def put_artifact_def Let_def split: option.splits if_splits)

lemma op_artifacts_ok:
  assumes "backend_op x fresh s l s'" "artifacts_ok x s"
  shows "artifacts_ok x s'"
proof -
  have same: "mb_artifacts s' = mb_artifacts s \<Longrightarrow> ?thesis" using assms(2) by (simp add: artifacts_ok_def)
  show ?thesis using assms(1)
  proof (cases rule: backend_op.cases)
    case op_claim
    then show ?thesis using same run_data_artifacts [OF run_data_claim] by blast
  next
    case (op_heartbeat now i w f r)
    then show ?thesis using same run_data_artifacts [OF run_data_composed(3) [of now i w f s]] by simp
  next
    case op_put_artifact
    then show ?thesis using put_artifact_ok [OF assms(2)] by simp
  qed (rule same, simp add: artifacts_frame create_segment_atomic_def start_execution_atomic_def commit_turn_cases commit_unless_cases
      run_data_same [THEN run_data_artifacts])+
qed

lemma trace_artifacts_ok: "backend_trace x fresh s ls s' \<Longrightarrow> artifacts_ok x s \<Longrightarrow> artifacts_ok x s'"
  by (induction rule: backend_trace.induct) (auto simp: backend_step_def intro: op_artifacts_ok)

text \<open>an artifact comes back byte for byte under the hash its reference carries, at any later time,
  unless SHA-256 confuses it with an artifact stored before.\<close>

theorem artifact_roundtrip:
  assumes "backend_trace x fresh backend_new ls s" and "put_artifact x bytes mt s = (s1, r)" and "backend_trace x fresh s1 ls' s'"
    and "\<forall>b m. mb_artifacts s (default_tenant, sha256_hex x bytes) = Some (b, m) \<longrightarrow>
                 sha256_hex x b = sha256_hex x bytes \<longrightarrow> b = bytes"
  shows "get_artifact (art_hash r) s' = Some bytes \<and> art_hash r = sha256_hex x bytes \<and> art_size r = length bytes"
proof -
  have "artifacts_ok x s" using trace_artifacts_ok [OF assms(1)] by (simp add: artifacts_ok_def backend_new_def)
  then have "\<forall>b m. mb_artifacts s (default_tenant, sha256_hex x bytes) = Some (b, m) \<longrightarrow> b = bytes"
    using assms(4) by (simp add: artifacts_ok_def)
  then have r: "\<exists>m. mb_artifacts s1 (default_tenant, sha256_hex x bytes) = Some (bytes, m)" "art_hash r = sha256_hex x bytes"
    "art_size r = length bytes" using assms(2) by (auto simp: put_artifact_def Let_def split: option.splits)
  have "mb_artifacts s1 \<subseteq>\<^sub>m mb_artifacts s'" using trace_keeps_stored [OF assms(3)] by (simp add: keeps_stored_def)
  then show ?thesis using r map_le_SomeD by (fastforce simp: get_artifact_def)
qed

theorem artifact_roundtrip_witness:
  "get_artifact (art_hash (snd (put_artifact sample_externals [1, 2, 3] None backend_new)))
     (fst (put_artifact sample_externals [1, 2, 3] None backend_new)) = Some [1, 2, 3]"
proof -
  have "\<forall>b m. mb_artifacts backend_new (default_tenant, sha256_hex sample_externals [1, 2, 3]) = Some (b, m) \<longrightarrow>
          sha256_hex sample_externals b = sha256_hex sample_externals [1, 2, 3] \<longrightarrow> b = [1, 2, 3]"
    by (simp add: backend_new_def)
  from artifact_roundtrip [OF trace_nil surjective_pairing trace_nil this] show ?thesis by blast
qed

section \<open>Reservations\<close>

lemma reservations_frame:
  "mb_tool_reservations (create_execution ex s) = mb_tool_reservations s"
  "mb_tool_reservations (fst (update_execution_status now e st s)) = mb_tool_reservations s"
  "mb_tool_reservations (fst (update_execution_current_state now e v s)) = mb_tool_reservations s"
  "mb_tool_reservations (fst (patch_append_array now e k v s)) = mb_tool_reservations s"
  "mb_tool_reservations (fst (store_workflow x def s)) = mb_tool_reservations s"
  "mb_tool_reservations (fst (finish_execution now ev st s)) = mb_tool_reservations s"
  "mb_tool_reservations (fst (finalize_rollover_fenced now e i f s)) = mb_tool_reservations s"
  "mb_tool_reservations (write_snapshot snap s) = mb_tool_reservations s"
  "mb_tool_reservations (fst (put_artifact x bytes mt s)) = mb_tool_reservations s"
  by (simp_all add: create_execution_def update_execution_status_def update_execution_current_state_def store_workflow_def
      patch_append_array_def update_execution_def finish_execution_def finalize_rollover_fenced_def write_snapshot_def
      put_artifact_def push_event_def remove_item_def Let_def split_beta split: option.split prod.split)

lemma reservations_settle: "mb_tool_reservations (settle_turn fresh now i ev b s) = mb_tool_reservations s"
  by (cases "ev_kind ev") (simp_all add: settle_turn_def snapshot_turn_def write_snapshot_def record_effect_def push_event_def
      remove_item_def Let_def split_beta split: option.split)

lemma reservations_create_run: "mb_tool_reservations (create_run fresh now ex seed k1 k2 item s) = mb_tool_reservations s"
  by (simp add: create_run_push Let_def push_event_def split: option.split)

lemma run_data_reservations: "run_data s' = run_data s \<Longrightarrow> mb_tool_reservations s' = mb_tool_reservations s"
  by (simp add: run_data_def)

text \<open>a reservation of a tool effect is exclusive: while it is live, another owner's attempt reports the
  holder and changes nothing, and no operation takes it away but a reservation by its own owner, one made
  after it has lapsed, or a release under its own owner and fence.\<close>

theorem reservation_is_exclusive:
  assumes "backend_step x fresh s l s'" and "mb_tool_reservations s key = Some (owner, f, until)"
  shows "(mb_tool_reservations s' key = Some (owner, f, until) \<or>
          (\<exists>now o' f' ttl. s' = fst (reserve_tool_effect x now key o' f' ttl s) \<and> (o' = owner \<or> until \<le> now)) \<or>
          s' = release_tool_reservation key owner f s) \<and>
    (\<forall>now o' f' ttl. o' \<noteq> owner \<and> now < until \<longrightarrow>
       reserve_tool_effect x now key o' f' ttl s = (s, Held owner (x_to_rfc3339 x until)))"
    (is "?kept \<and> ?held")
proof
  show ?held using assms(2) by (auto simp: reserve_tool_effect_def)
  have op: "backend_op x fresh s l s'" using assms(1) by (simp add: backend_step_def)
  have same: "mb_tool_reservations s' = mb_tool_reservations s \<Longrightarrow> ?kept" using assms(2) by simp
  show ?kept using op
  proof (cases rule: backend_op.cases)
    case op_claim
    then show ?thesis using same run_data_reservations [OF run_data_claim] by blast
  next
    case (op_heartbeat now i w f r)
    then have "mb_tool_reservations s' = mb_tool_reservations s"
      using run_data_reservations [OF run_data_composed(3) [of now i w f s]] by simp
    then show ?thesis by (rule same)
  next
    case (op_reserve now k o' f' ttl)
    show ?thesis
    proof (cases "k = key \<and> (o' = owner \<or> until \<le> now)")
      case True
      then show ?thesis using op_reserve by blast
    next
      case False
      then have "mb_tool_reservations s' key = Some (owner, f, until)"
        using op_reserve assms(2) by (auto simp: reserve_tool_effect_def Let_def split: option.split)
      then show ?thesis by blast
    qed
  next
    case (op_release k o' f')
    then show ?thesis using assms(2) by (cases "k = key") (auto simp: release_tool_reservation_def split: option.split)
  qed (rule same, simp add: reservations_frame create_segment_atomic_def start_execution_atomic_def commit_turn_cases commit_unless_cases
      reservations_settle reservations_create_run run_data_same [THEN run_data_reservations])+
qed

definition reserved :: in_memory_backend where
  "reserved = fst (reserve_tool_effect sample_externals 0 ''k'' ''ann'' 1 1000 backend_new)"

theorem reservation_is_exclusive_witness:
  "snd (reserve_tool_effect sample_externals 5 ''k'' ''bob'' 2 1000 reserved) = Held ''ann'' (x_to_rfc3339 sample_externals 1000)"
proof -
  have r: "mb_tool_reservations reserved ''k'' = Some (''ann'', 1, 1000)"
    by (simp add: reserved_def reserve_tool_effect_def reservation_expiry_def backend_new_def Let_def)
  have "in_range reserved"
    by (simp add: reserved_def reserve_tool_effect_def backend_new_def in_range_def epoch_of_def Let_def)
  then have "backend_step sample_externals (\<lambda>_. ''e'') reserved None (fst (bump_store_term reserved))"
    by (simp add: backend_step_def op_bump_term)
  from reservation_is_exclusive [OF this r] show ?thesis by simp
qed

end
