(* ===== verification/Progress.thy ===== *)
theory Progress
  imports Approvals
begin

text \<open>
  What the scheduler knows of a run (\<^verbatim>\<open>ExecProgress\<close> of \<^verbatim>\<open>runtime/scheduler/src/runner.rs\<close>): the fold of the
  run's events, the edges that can no longer enable their target, and the nodes that can run.  A
  \<^verbatim>\<open>HashSet\<close> of nodes is a set and a \<^verbatim>\<open>HashMap\<close> a map.  Shown: a settled node is never scheduled again.
\<close>

section \<open>The fold\<close>

record exec_progress =
  ep_completed :: "node_id set"
  ep_scheduled :: "node_id set"
  ep_terminal_failed :: "node_id set"
  ep_final_state :: json_members
  ep_last_sequence :: event_sequence
  ep_held :: "node_id set"
  ep_held_request :: "node_id \<rightharpoonup> event_sequence"
  ep_deadline_requests :: "node_id set"
  ep_unreadable :: bool
  ep_stall_recorded :: bool
  ep_rejected :: "node_id \<rightharpoonup> string"
  ep_routes :: "node_id \<rightharpoonup> node_id"
  ep_skipped :: "node_id set"

definition progress_default :: exec_progress where
  "progress_default =
     \<lparr>ep_completed = {}, ep_scheduled = {}, ep_terminal_failed = {}, ep_final_state = [], ep_last_sequence = 0,
      ep_held = {}, ep_held_request = Map.empty, ep_deadline_requests = {}, ep_unreadable = False,
      ep_stall_recorded = False, ep_rejected = Map.empty, ep_routes = Map.empty, ep_skipped = {}\<rparr>"

definition insert_members :: "json_members \<Rightarrow> json_members \<Rightarrow> json_members" where
  "insert_members patch m = fold (\<lambda>(k, v). bt_insert k v) patch m"

definition chosen_target :: "json \<Rightarrow> node_id option" where
  "chosen_target output = Option.bind (json_get output ''chosen_target'') as_str"

text \<open>A start or a retry of a node that has already reached an outcome is ignored.\<close>

definition mark_scheduled :: "node_id \<Rightarrow> exec_progress \<Rightarrow> exec_progress" where
  "mark_scheduled i p =
     (if i \<notin> ep_completed p \<and> i \<notin> ep_terminal_failed p then p\<lparr>ep_scheduled := insert i (ep_scheduled p)\<rparr> else p)"

definition rejection_reason :: "string \<Rightarrow> string option \<Rightarrow> string" where
  "rejection_reason user_id comment =
     ''approval rejected by '' @ user_id @ (case comment of Some c \<Rightarrow> '': '' @ c | None \<Rightarrow> [])"

definition progress_kind :: "externals \<Rightarrow> event_sequence \<Rightarrow> event_kind \<Rightarrow> exec_progress \<Rightarrow> exec_progress" where
  "progress_kind x seq kind p =
     (case kind of
        NodeCompleted nc \<Rightarrow>
          (let i = nc_node_id nc
           in p\<lparr>ep_completed := insert i (ep_completed p), ep_scheduled := ep_scheduled p - {i}, ep_held := ep_held p - {i},
                ep_routes := (case chosen_target (nc_output nc) of
                                Some t \<Rightarrow> (ep_routes p)(i \<mapsto> t) | None \<Rightarrow> ep_routes p),
                ep_final_state := (case nc_state_patch nc of
                                     JObject patch \<Rightarrow> insert_members patch (ep_final_state p) | _ \<Rightarrow> ep_final_state p)\<rparr>)
      | NodeSkipped i _ \<Rightarrow>
          p\<lparr>ep_completed := insert i (ep_completed p), ep_skipped := insert i (ep_skipped p),
            ep_scheduled := ep_scheduled p - {i}, ep_held := ep_held p - {i}\<rparr>
      | NodeScheduled i _ \<Rightarrow> mark_scheduled i p
      | NodeStarted i _ _ \<Rightarrow> mark_scheduled i p
      | NodeCancelled i \<Rightarrow>
          p\<lparr>ep_completed := insert i (ep_completed p), ep_scheduled := ep_scheduled p - {i}, ep_held := ep_held p - {i},
            ep_rejected := (ep_rejected p)(i := None)\<rparr>
      | NodeFailed i _ _ retryable \<Rightarrow>
          if retryable then p\<lparr>ep_scheduled := ep_scheduled p - {i}\<rparr>
          else p\<lparr>ep_terminal_failed := insert i (ep_terminal_failed p), ep_scheduled := ep_scheduled p - {i},
                 ep_rejected := (ep_rejected p)(i := None), ep_held := ep_held p - {i}\<rparr>
      | RetryScheduled i _ _ \<Rightarrow> mark_scheduled i p
      | ToolApprovalRequired i _ _ ctx \<Rightarrow>
          p\<lparr>ep_held := insert i (ep_held p), ep_held_request := (ep_held_request p)(i \<mapsto> seq),
            ep_deadline_requests :=
              (if json_get ctx expires_at_key \<noteq> None \<or> json_get ctx escalate_at_key \<noteq> None
               then insert i (ep_deadline_requests p) else ep_deadline_requests p - {i})\<rparr>
      | ApprovalReceived ar \<Rightarrow>
          (let i = ar_node_id ar
           in if i \<in> ep_held p
              then (let p = p\<lparr>ep_held := ep_held p - {i}\<rparr>
                    in (case ar_decision ar of
                          Approved \<Rightarrow> p\<lparr>ep_scheduled := ep_scheduled p - {i}\<rparr>
                        | Rejected \<Rightarrow>
                            p\<lparr>ep_rejected := (ep_rejected p)(i \<mapsto> rejection_reason (ar_user_id ar) (ar_comment ar))\<rparr>))
              else p)
      | Unknown \<Rightarrow> p\<lparr>ep_unreadable := True\<rparr>
      | RunStalled _ \<Rightarrow> p\<lparr>ep_stall_recorded := True\<rparr>
      | ApprovalExpired i request_sequence expires_at who \<Rightarrow>
          if ep_held_request p i = Some request_sequence \<and> i \<in> ep_held p
          then p\<lparr>ep_held := ep_held p - {i},
                 ep_rejected := (ep_rejected p)(i \<mapsto> rejection_reason who (Some (expiry_comment x expires_at)))\<rparr>
          else p
      | WorkflowStarted _ _ initial_input _ \<Rightarrow>
          (case initial_input of
             JObject input \<Rightarrow> p\<lparr>ep_final_state := insert_members input (ep_final_state p)\<rparr>
           | _ \<Rightarrow> p)
      | _ \<Rightarrow> p)"

definition progress_apply :: "externals \<Rightarrow> event \<Rightarrow> exec_progress \<Rightarrow> exec_progress" where
  "progress_apply x event p =
     (progress_kind x (ev_sequence event) (ev_kind event) p)\<lparr>ep_last_sequence := max (ep_last_sequence p) (ev_sequence event)\<rparr>"

section \<open>Edges and runnable nodes\<close>

definition edge_dead ::
    "node_id \<Rightarrow> node_id \<Rightarrow> workflow_ir \<Rightarrow> node_id set \<Rightarrow> node_id set \<Rightarrow> (node_id \<rightharpoonup> node_id) \<Rightarrow> bool" where
  "edge_dead src dst ir completed skipped routes =
     (if src \<in> skipped then True
      else (case ir_node ir src of
              Some node \<Rightarrow>
                (case nd_kind node of
                   ConditionNode branches \<Rightarrow>
                     if branches \<noteq> [] \<and> src \<in> completed then routes src \<noteq> Some dst else False
                 | _ \<Rightarrow> False)
            | None \<Rightarrow> False))"

definition edges_into :: "workflow_ir \<Rightarrow> node_id \<Rightarrow> edge_def list" where
  "edges_into ir i = filter (\<lambda>e. ed_to e = i) (ir_edges ir)"

definition is_runnable ::
    "node_id \<Rightarrow> workflow_ir \<Rightarrow> node_id set \<Rightarrow> node_id set \<Rightarrow> node_id set \<Rightarrow> (node_id \<rightharpoonup> node_id) \<Rightarrow> bool" where
  "is_runnable i ir completed scheduled skipped routes =
     (if i \<in> scheduled \<or> i \<in> completed \<or> i \<in> skipped then False
      else
        (let live = filter (\<lambda>e. \<not> edge_dead (ed_from e) i ir completed skipped routes) (edges_into ir i)
         in if edges_into ir i = [] then True
            else live \<noteq> [] \<and> list_all (\<lambda>e. ed_from e \<in> completed) live))"

abbreviation runnable_in :: "workflow_ir \<Rightarrow> exec_progress \<Rightarrow> node_id \<Rightarrow> bool" where
  "runnable_in ir p i \<equiv> is_runnable i ir (ep_completed p) (ep_scheduled p) (ep_skipped p) (ep_routes p)"

abbreviation dead_in :: "workflow_ir \<Rightarrow> exec_progress \<Rightarrow> node_id \<Rightarrow> node_id \<Rightarrow> bool" where
  "dead_in ir p src dst \<equiv> edge_dead src dst ir (ep_completed p) (ep_skipped p) (ep_routes p)"

text \<open>The body of the skip cascade: the nodes all of whose in-edges are dead, in sorted order.\<close>

definition skippable :: "workflow_ir \<Rightarrow> exec_progress \<Rightarrow> node_id \<Rightarrow> bool" where
  "skippable ir p i =
     (i \<notin> ep_completed p \<and> i \<notin> ep_scheduled p \<and> i \<notin> ep_skipped p \<and> i \<notin> ep_terminal_failed p \<and>
      edges_into ir i \<noteq> [] \<and> list_all (\<lambda>e. dead_in ir p (ed_from e) i) (edges_into ir i))"

definition newly_skippable :: "workflow_ir \<Rightarrow> exec_progress \<Rightarrow> node_id list" where
  "newly_skippable ir p = sort (filter (skippable ir p) (map fst (ir_nodes ir)))"

section \<open>Settled nodes\<close>

definition progress_ok :: "exec_progress \<Rightarrow> bool" where
  "progress_ok p =
     (ep_scheduled p \<inter> (ep_completed p \<union> ep_terminal_failed p) = {} \<and> ep_skipped p \<subseteq> ep_completed p)"

lemma progress_ok_default [simp]: "progress_ok progress_default"
  by (simp add: progress_ok_def progress_default_def)

lemma progress_ok_kind: "progress_ok p \<Longrightarrow> progress_ok (progress_kind x seq k p)"
  by (cases k) (auto simp: progress_ok_def progress_kind_def mark_scheduled_def Let_def
      split: json.split approval_decision.split)

lemma progress_ok_apply: "progress_ok p \<Longrightarrow> progress_ok (progress_apply x ev p)"
  using progress_ok_kind [of p x "ev_sequence ev" "ev_kind ev"] by (simp add: progress_ok_def progress_apply_def)

lemma progress_ok_fold: "progress_ok p \<Longrightarrow> progress_ok (fold (progress_apply x) es p)"
  by (induction es arbitrary: p) (simp_all add: progress_ok_apply)

lemma settled_kind:
  "ep_completed p \<subseteq> ep_completed (progress_kind x seq k p) \<and> ep_terminal_failed p \<subseteq> ep_terminal_failed (progress_kind x seq k p) \<and>
   ep_skipped p \<subseteq> ep_skipped (progress_kind x seq k p)"
  by (cases k) (auto simp: progress_kind_def mark_scheduled_def Let_def split: json.split approval_decision.split)

lemma settled_fold:
  "ep_completed p \<subseteq> ep_completed (fold (progress_apply x) es p) \<and>
   ep_terminal_failed p \<subseteq> ep_terminal_failed (fold (progress_apply x) es p) \<and> ep_skipped p \<subseteq> ep_skipped (fold (progress_apply x) es p)"
proof (induction es arbitrary: p)
  case (Cons e es)
  show ?case using Cons [of "progress_apply x e p"] settled_kind [of p x "ev_sequence e" "ev_kind e"]
    by (auto simp: progress_apply_def)
qed simp

text \<open>whatever events follow, in any order, a node that completed, was skipped, was cancelled or failed
  for good stays settled: it is never counted as in flight again, so a start or a retry recorded late by
  a worker that lost its lease cannot resurrect it or wedge the run.\<close>

theorem settled_is_final:
  assumes "i \<in> ep_completed (fold (progress_apply x) es progress_default) \<union>
               ep_terminal_failed (fold (progress_apply x) es progress_default)"
  shows "i \<in> ep_completed (fold (progress_apply x) (es @ later) progress_default) \<union>
             ep_terminal_failed (fold (progress_apply x) (es @ later) progress_default) \<and>
         i \<notin> ep_scheduled (fold (progress_apply x) (es @ later) progress_default)"
proof -
  let ?p = "fold (progress_apply x) es progress_default" and ?q = "fold (progress_apply x) (es @ later) progress_default"
  have "i \<in> ep_completed ?q \<union> ep_terminal_failed ?q" using assms settled_fold [of ?p x later] by auto
  moreover have "progress_ok ?q" by (rule progress_ok_fold) simp
  ultimately show ?thesis by (auto simp: progress_ok_def)
qed

theorem settled_is_final_witness:
  "''a'' \<notin> ep_scheduled (fold (progress_apply sample_externals)
     ([sample_event 1 (sample_completed ''a'' JNull)] @ [sample_event 2 (NodeStarted ''a'' ''zombie'' 0)]) progress_default)"
  using settled_is_final [of "''a''" sample_externals "[sample_event 1 (sample_completed ''a'' JNull)]"
      "[sample_event 2 (NodeStarted ''a'' ''zombie'' 0)]"]
  by (simp add: sample_event_def event_new_def sample_completed_def progress_apply_def progress_kind_def progress_default_def Let_def)

end
