(* ===== verification/Scheduler.thy ===== *)
theory Scheduler
  imports Backend_Runs Progress
begin

text \<open>
  The scheduler (\<^verbatim>\<open>runtime/scheduler/src/runner.rs\<close>) and the payload of the work it hands out
  (\<^verbatim>\<open>payload.rs\<close>), over the in-memory backend.  What the scheduler is given is the record \<open>sched_env\<close>:
  the parser of stored workflow definitions and the audit sealer, which are parameters, fresh ids, and
  the order in which a \<^verbatim>\<open>HashMap\<close> of the run is iterated.  A tick is the sequence of its backend
  operations; each is one step of the backend, and other components may act in between.
\<close>

section \<open>Payloads\<close>

definition model_id_of :: "workflow_ir \<Rightarrow> string \<Rightarrow> string" where
  "model_id_of ir model_ref =
     (case map_of (ir_models ir) model_ref of
        Some cfg \<Rightarrow> if mc_provider cfg = [] then mc_model cfg else mc_provider cfg @ ''/'' @ mc_model cfg
      | None \<Rightarrow> model_ref)"

definition branch_json :: "conditional_branch \<Rightarrow> json" where
  "branch_json b = json_object [(''condition'', opt_json JString (cb_condition b)), (''target'', JString (cb_target b))]"

text \<open>The members a node kind adds, in the order they are inserted.\<close>

definition payload_members :: "workflow_ir \<Rightarrow> node_kind \<Rightarrow> json_members \<Rightarrow> (string \<times> json) list" where
  "payload_members ir kind state =
     (case kind of
        PythonFn m f _ _ \<Rightarrow> [(''module'', JString m), (''function'', JString f), (''input'', JObject state)]
      | JavaFn c m _ _ \<Rightarrow> [(''class'', JString c), (''method'', JString m), (''input'', JObject state)]
      | ExternalFn _ h _ \<Rightarrow> [(''handler'', JString h), (''input'', JObject state)]
      | ModelNode model_ref _ _ system_prompt tools \<Rightarrow>
          [(''model'', JString (model_id_of ir model_ref))] @
          (case map_of (ir_models ir) model_ref of
             Some cfg \<Rightarrow>
               (case mc_temperature cfg of Some t \<Rightarrow> [(''temperature'', JNumber (Float t))] | None \<Rightarrow> []) @
               (case mc_max_tokens cfg of Some n \<Rightarrow> [(''max_tokens'', json_nat n)] | None \<Rightarrow> [])
           | None \<Rightarrow> []) @
          (case system_prompt of Some sp \<Rightarrow> [(''system_prompt'', JString sp)] | None \<Rightarrow> []) @
          (if tools \<noteq> [] then [(''tools'', JArray tools)] else []) @
          (case bt_get state ''messages'' of Some ms \<Rightarrow> [(''messages'', ms)] | None \<Rightarrow> [])
      | ConditionNode branches \<Rightarrow>
          if branches \<noteq> [] then [(''branches'', JArray (map branch_json branches)), (''state'', JObject state)] else []
      | _ \<Rightarrow> [])"

definition build_work_item_payload :: "workflow_ir \<Rightarrow> node_id \<Rightarrow> node_def \<Rightarrow> json_members \<Rightarrow> string \<Rightarrow> string \<Rightarrow> json" where
  "build_work_item_payload ir i node state workflow_id workflow_version =
     json_object ([(''workflow_id'', JString workflow_id), (''workflow_version'', JString workflow_version), (''node_id'', JString i)] @
                  payload_members ir (nd_kind node) state)"

definition max_attempts_for :: "string option \<Rightarrow> nat" where
  "max_attempts_for retry_policy =
     (if retry_policy = Some ''no_retry'' then 1 else if retry_policy = Some ''io_default'' then 5
      else if retry_policy = Some ''llm_default'' then 3 else 3)"

section \<open>The scheduler's state and environment\<close>

record scheduler_config =
  sc_poll_interval_ms :: nat
  sc_max_concurrent_nodes_per_execution :: nat
  sc_max_dispatch_per_tick :: nat

definition scheduler_config_default :: scheduler_config where
  "scheduler_config_default =
     \<lparr>sc_poll_interval_ms = 500, sc_max_concurrent_nodes_per_execution = 16, sc_max_dispatch_per_tick = 8\<rparr>"

record scheduler =
  sd_ir_cache :: "(string \<times> string) \<rightharpoonup> workflow_ir"
  sd_progress :: "execution_id \<rightharpoonup> exec_progress"

text \<open>The sealer answers \<open>Some error\<close> when no audit entry was written.\<close>

record sched_env =
  se_x :: externals
  se_parse_ir :: "json \<Rightarrow> string + workflow_ir"
  se_sealer :: "(event \<Rightarrow> string \<Rightarrow> string option) option"
  se_config :: scheduler_config
  se_fresh :: "event_sequence \<Rightarrow> uuid"
  se_item_id :: "event_sequence \<Rightarrow> work_item_id"
  se_rejected_order :: "node_id list"
  se_item_order :: "work_item_id list"
  se_execution_order :: "execution_id list"

datatype sched_error = SchedBackend backend_error | IrUnreadable string

text \<open>An append under the sequence the run's log is thought to be at; the backend assigns its own.\<close>

definition next_event :: "sched_env \<Rightarrow> timestamp \<Rightarrow> execution_id \<Rightarrow> event_kind \<Rightarrow> in_memory_backend \<Rightarrow> event" where
  "next_event env now e kind s =
     event_new (se_fresh env (mb_next_sequence s)) now e (wrap_i64 (latest_sequence e s + 1)) kind"

definition append_next :: "sched_env \<Rightarrow> timestamp \<Rightarrow> execution_id \<Rightarrow> event_kind \<Rightarrow> in_memory_backend \<Rightarrow> in_memory_backend" where
  "append_next env now e kind s = fst (append_event (next_event env now e kind s) s)"

fun show_nat :: "nat \<Rightarrow> string" where
  "show_nat n = (if n < 10 then [char_of (48 + n)] else show_nat (n div 10) @ [char_of (48 + n mod 10)])"

declare show_nat.simps [simp del]

section \<open>Sealing\<close>

text \<open>The \<^verbatim>\<open>type\<close> tag serde writes for a kind.\<close>

definition kind_tag :: "event_kind \<Rightarrow> string" where
  "kind_tag kind =
     (case kind of
        WorkflowStarted _ _ _ _ \<Rightarrow> ''workflow_started''
      | WorkflowCompleted _ \<Rightarrow> ''workflow_completed''
      | WorkflowFailed _ \<Rightarrow> ''workflow_failed''
      | WorkflowCancelled _ \<Rightarrow> ''workflow_cancelled''
      | NodeScheduled _ _ \<Rightarrow> ''node_scheduled''
      | NodeStarted _ _ _ \<Rightarrow> ''node_started''
      | NodeCompleted _ \<Rightarrow> ''node_completed''
      | NodeFailed _ _ _ _ \<Rightarrow> ''node_failed''
      | NodeParked _ _ _ \<Rightarrow> ''node_parked''
      | NodeSkipped _ _ \<Rightarrow> ''node_skipped''
      | NodeCancelled _ \<Rightarrow> ''node_cancelled''
      | RetryScheduled _ _ _ \<Rightarrow> ''retry_scheduled''
      | InterruptRaised _ _ _ \<Rightarrow> ''interrupt_raised''
      | ApprovalReceived _ \<Rightarrow> ''approval_received''
      | TimerCreated _ _ _ \<Rightarrow> ''timer_created''
      | TimerFired _ _ \<Rightarrow> ''timer_fired''
      | ExternalEventReceived _ _ \<Rightarrow> ''external_event_received''
      | ChildWorkflowStarted _ _ _ \<Rightarrow> ''child_workflow_started''
      | ChildWorkflowCompleted _ _ _ \<Rightarrow> ''child_workflow_completed''
      | ChildWorkflowFailed _ _ _ \<Rightarrow> ''child_workflow_failed''
      | BudgetExceeded _ _ _ _ \<Rightarrow> ''budget_exceeded''
      | TokenBudgetExceeded _ _ _ _ \<Rightarrow> ''token_budget_exceeded''
      | CostBudgetExceeded _ _ _ \<Rightarrow> ''cost_budget_exceeded''
      | AutonomyLimitReached _ _ _ _ _ \<Rightarrow> ''autonomy_limit_reached''
      | CircuitBreakerTripped _ _ _ _ \<Rightarrow> ''circuit_breaker_tripped''
      | AgentStepAdmitted _ _ _ _ _ \<Rightarrow> ''agent_step_admitted''
      | EscalationRequired _ _ _ _ \<Rightarrow> ''escalation_required''
      | PolicyViolation _ _ _ _ \<Rightarrow> ''policy_violation''
      | ToolApprovalRequired _ _ _ _ \<Rightarrow> ''tool_approval_required''
      | ApprovalExpired _ _ _ _ \<Rightarrow> ''approval_expired''
      | ApprovalEscalated _ _ _ _ \<Rightarrow> ''approval_escalated''
      | AuditSealFailed _ _ _ _ \<Rightarrow> ''audit_seal_failed''
      | RunStalled _ \<Rightarrow> ''run_stalled''
      | StrategyStarted _ _ \<Rightarrow> ''strategy_started''
      | PlanGenerated _ \<Rightarrow> ''plan_generated''
      | IterationStarted _ \<Rightarrow> ''iteration_started''
      | ToolCalled _ _ \<Rightarrow> ''tool_called''
      | CriticVerdict _ _ _ _ \<Rightarrow> ''critic_verdict''
      | IterationCompleted _ _ _ _ \<Rightarrow> ''iteration_completed''
      | StrategyLimitHit _ _ _ \<Rightarrow> ''strategy_limit_hit''
      | StrategyCompleted _ _ \<Rightarrow> ''strategy_completed''
      | CoordinatorDiscovery _ _ _ _ _ \<Rightarrow> ''coordinator_discovery''
      | CoordinatorScoring _ _ _ _ \<Rightarrow> ''coordinator_scoring''
      | CoordinatorDecision _ _ _ _ _ _ _ _ \<Rightarrow> ''coordinator_decision''
      | AgentToolInvoked _ _ _ _ _ \<Rightarrow> ''agent_tool_invoked''
      | AgentToolProgress _ _ _ \<Rightarrow> ''agent_tool_progress''
      | AgentToolTurn _ _ _ _ _ _ \<Rightarrow> ''agent_tool_turn''
      | AgentToolCompleted _ _ _ _ _ _ \<Rightarrow> ''agent_tool_completed''
      | AgentToolTerminated _ _ _ _ _ \<Rightarrow> ''agent_tool_terminated''
      | AgentToolFailed _ _ _ _ \<Rightarrow> ''agent_tool_failed''
      | SegmentBoundary _ _ \<Rightarrow> ''segment_boundary''
      | Unknown \<Rightarrow> ''unknown'')"

definition record_seal_gap :: "sched_env \<Rightarrow> timestamp \<Rightarrow> event \<Rightarrow> string \<Rightarrow> in_memory_backend \<Rightarrow> in_memory_backend" where
  "record_seal_gap env now event err s =
     fst (append_event (event_new (se_fresh env (mb_next_sequence s)) now (ev_execution_id event) 0
                          (AuditSealFailed (ev_id event) (ev_sequence event) (kind_tag (ev_kind event)) err)) s)"

definition seal_appended :: "sched_env \<Rightarrow> timestamp \<Rightarrow> event \<Rightarrow> event_sequence \<Rightarrow> string \<Rightarrow> in_memory_backend \<Rightarrow> in_memory_backend" where
  "seal_appended env now event appended tenant s =
     (case se_sealer env of
        None \<Rightarrow> s
      | Some sealer \<Rightarrow>
          (case sealer (event\<lparr>ev_sequence := appended\<rparr>) tenant of
             None \<Rightarrow> s
           | Some err \<Rightarrow> record_seal_gap env now (event\<lparr>ev_sequence := appended\<rparr>) err s))"

definition seal :: "sched_env \<Rightarrow> timestamp \<Rightarrow> event \<Rightarrow> event_sequence \<Rightarrow> in_memory_backend \<Rightarrow> in_memory_backend" where
  "seal env now event appended s =
     (case se_sealer env of
        None \<Rightarrow> s
      | Some _ \<Rightarrow>
          (case execution_tenant (ev_execution_id event) s of
             Some tenant \<Rightarrow> seal_appended env now event appended tenant s
           | None \<Rightarrow> record_seal_gap env now (event\<lparr>ev_sequence := appended\<rparr>)
                       ''the run's tenant could not be read (Ok(None))'' s))"

section \<open>Deadlines\<close>

record deadline_sweep =
  dw_expired :: "node_id list"
  dw_escalated :: "node_id list"

text \<open>The event of a due action and the condition it is appended under.\<close>

definition deadline_event :: "deadline_action \<Rightarrow> event_kind" where
  "deadline_event action =
     (case action of
        Expire i r expires_at \<Rightarrow> ApprovalExpired i r expires_at deadline_principal
      | EscalateRequest i r escalate_at expires_at \<Rightarrow> ApprovalEscalated i r escalate_at expires_at)"

definition deadline_condition :: "externals \<Rightarrow> deadline_action \<Rightarrow> event list \<Rightarrow> bool" where
  "deadline_condition x action events =
     (case action of
        Expire i r _ \<Rightarrow> still_pending x events i r
      | EscalateRequest i r _ _ \<Rightarrow> still_pending x events i r \<and> not_escalated events i r)"

definition note_action :: "deadline_action \<Rightarrow> deadline_sweep \<Rightarrow> deadline_sweep" where
  "note_action action sweep =
     (case action of
        Expire i _ _ \<Rightarrow> sweep\<lparr>dw_expired := dw_expired sweep @ [i]\<rparr>
      | EscalateRequest i _ _ _ \<Rightarrow> sweep\<lparr>dw_escalated := dw_escalated sweep @ [i]\<rparr>)"

text \<open>The loop of the sweep; \<open>clock\<close> is the wall clock of the records it writes, \<open>now\<close> the sweep's.\<close>

fun sweep_actions ::
    "sched_env \<Rightarrow> timestamp \<Rightarrow> execution_id \<Rightarrow> deadline_action list \<Rightarrow> deadline_sweep \<Rightarrow> in_memory_backend \<Rightarrow>
     in_memory_backend \<times> (backend_error + deadline_sweep)" where
  "sweep_actions env clock e [] sweep s = (s, Inr sweep)"
| "sweep_actions env clock e (action # rest) sweep s =
     (let event = event_new (se_fresh env (mb_next_sequence s)) clock e 0 (deadline_event action)
      in (case append_event_if event (deadline_condition (se_x env) action) s of
            (s, Inl err) \<Rightarrow> (s, Inl err)
          | (s, Inr (Appended seq)) \<Rightarrow> sweep_actions env clock e rest (note_action action sweep) (seal env clock event seq s)
          | (s, Inr _) \<Rightarrow> sweep_actions env clock e rest sweep s))"

definition sweep_approval_deadlines ::
    "sched_env \<Rightarrow> timestamp \<Rightarrow> execution_id \<Rightarrow> timestamp \<Rightarrow> in_memory_backend \<Rightarrow> in_memory_backend \<times> (backend_error + deadline_sweep)" where
  "sweep_approval_deadlines env clock e now s =
     sweep_actions env clock e (due_deadline_actions (se_x env) (get_events e s) now) \<lparr>dw_expired = [], dw_escalated = []\<rparr> s"

section \<open>Expired leases\<close>

definition report_retryable :: "sched_env \<Rightarrow> timestamp \<Rightarrow> work_item \<Rightarrow> in_memory_backend \<Rightarrow> in_memory_backend" where
  "report_retryable env now item s =
     append_next env now (wi_execution_id item)
       (RetryScheduled (wi_node_id item) (wi_attempt item) (2 ^ min (wi_attempt item) 6 * 1000))
       (append_next env now (wi_execution_id item)
          (NodeFailed (wi_node_id item) ''lease expired: worker presumed dead'' (wi_attempt item - 1) True) s)"

definition report_exhausted :: "sched_env \<Rightarrow> timestamp \<Rightarrow> work_item \<Rightarrow> in_memory_backend \<Rightarrow> in_memory_backend" where
  "report_exhausted env now item s =
     append_next env now (wi_execution_id item)
       (NodeFailed (wi_node_id item) (''exhausted '' @ show_nat (wi_max_attempts item) @ '' attempts: lease expired'')
          (wi_attempt item) False) s"

definition sched_reclaim_expired_leases :: "sched_env \<Rightarrow> timestamp \<Rightarrow> in_memory_backend \<Rightarrow> in_memory_backend" where
  "sched_reclaim_expired_leases env now s =
     (let (s, reclaimed) = reclaim_expired_leases now (se_item_order env) s
      in fold (report_exhausted env now) (rr_exhausted reclaimed) (fold (report_retryable env now) (rr_retryable reclaimed) s))"

section \<open>Scheduling one run\<close>

definition load_ir :: "sched_env \<Rightarrow> string \<Rightarrow> string \<Rightarrow> in_memory_backend \<Rightarrow> scheduler \<Rightarrow> scheduler \<times> (sched_error + workflow_ir option)" where
  "load_ir env workflow_id workflow_version s sch =
     (case sd_ir_cache sch (workflow_id, workflow_version) of
        Some ir \<Rightarrow> (sch, Inr (Some ir))
      | None \<Rightarrow>
          (case get_workflow workflow_id workflow_version s of
             None \<Rightarrow> (sch, Inr None)
           | Some def \<Rightarrow>
               (case se_parse_ir env (wd_ir def) of
                  Inl err \<Rightarrow> (sch, Inl (IrUnreadable err))
                | Inr ir \<Rightarrow>
                    (sch\<lparr>sd_ir_cache := (sd_ir_cache sch)((workflow_id, workflow_version) \<mapsto> ir)\<rparr>, Inr (Some ir)))))"

definition fold_delta :: "sched_env \<Rightarrow> execution_id \<Rightarrow> in_memory_backend \<Rightarrow> scheduler \<Rightarrow> exec_progress" where
  "fold_delta env e s sch =
     (let p = (case sd_progress sch e of Some p \<Rightarrow> p | None \<Rightarrow> progress_default)
      in fold (progress_apply (se_x env)) (get_events_since e (ep_last_sequence p) s) p)"

definition save_progress :: "execution_id \<Rightarrow> exec_progress \<Rightarrow> scheduler \<Rightarrow> scheduler" where
  "save_progress e p sch = sch\<lparr>sd_progress := (sd_progress sch)(e \<mapsto> p)\<rparr>"

definition unreadable_log_reason :: string where
  "unreadable_log_reason = ''the run's event log contains event kinds this build cannot read (written by a newer release); approval state cannot be determined, so nothing is released or decided; upgrade the engine''"

definition no_stall_recorded :: "event list \<Rightarrow> bool" where
  "no_stall_recorded events = (\<not> list_ex (\<lambda>ev. case ev_kind ev of RunStalled _ \<Rightarrow> True | _ \<Rightarrow> False) events)"

definition record_stall ::
    "sched_env \<Rightarrow> timestamp \<Rightarrow> execution_id \<Rightarrow> exec_progress \<Rightarrow> in_memory_backend \<Rightarrow> in_memory_backend \<times> (sched_error + unit)" where
  "record_stall env now e p s =
     (if ep_stall_recorded p then (s, Inr ())
      else (case append_event_if (event_new (se_fresh env (mb_next_sequence s)) now e 0 (RunStalled unreadable_log_reason)) no_stall_recorded s of
              (s, Inl err) \<Rightarrow> (s, Inl (SchedBackend err))
            | (s, Inr _) \<Rightarrow> (s, Inr ())))"

definition sweep_if_due :: "sched_env \<Rightarrow> timestamp \<Rightarrow> execution_id \<Rightarrow> exec_progress \<Rightarrow> in_memory_backend \<Rightarrow> in_memory_backend" where
  "sweep_if_due env now e p s =
     (if ep_held p \<inter> ep_deadline_requests p \<noteq> {} then fst (sweep_approval_deadlines env now e now s) else s)"

definition fail_rejected_node :: "sched_env \<Rightarrow> timestamp \<Rightarrow> execution_id \<Rightarrow> exec_progress \<Rightarrow> node_id \<Rightarrow> in_memory_backend \<Rightarrow> in_memory_backend" where
  "fail_rejected_node env now e p i s =
     (case ep_rejected p i of
        Some reason \<Rightarrow> if i \<notin> ep_terminal_failed p then append_next env now e (NodeFailed i reason 0 False) s else s
      | None \<Rightarrow> s)"

definition fail_rejected :: "sched_env \<Rightarrow> timestamp \<Rightarrow> execution_id \<Rightarrow> exec_progress \<Rightarrow> in_memory_backend \<Rightarrow> in_memory_backend" where
  "fail_rejected env now e p s = fold (fail_rejected_node env now e p) (se_rejected_order env) s"

definition emit_skip ::
    "sched_env \<Rightarrow> timestamp \<Rightarrow> execution_id \<Rightarrow> node_id \<Rightarrow> in_memory_backend \<times> exec_progress \<Rightarrow> in_memory_backend \<times> exec_progress" where
  "emit_skip env now e i sp =
     (let skip_event = next_event env now e (NodeSkipped i ''branch not taken'') (fst sp)
      in (fst (append_event skip_event (fst sp)), progress_apply (se_x env) skip_event (snd sp)))"

text \<open>The loop of the skip cascade, one unit of fuel for each of its \<^verbatim>\<open>max_passes\<close>.\<close>

fun skip_cascade ::
    "sched_env \<Rightarrow> timestamp \<Rightarrow> execution_id \<Rightarrow> workflow_ir \<Rightarrow> nat \<Rightarrow> in_memory_backend \<times> exec_progress \<Rightarrow> in_memory_backend \<times> exec_progress" where
  "skip_cascade env now e ir 0 sp = sp"
| "skip_cascade env now e ir (Suc passes) sp =
     (let ns = newly_skippable ir (snd sp)
      in if ns = [] then sp else skip_cascade env now e ir passes (fold (emit_skip env now e) ns sp))"

definition max_passes :: "workflow_ir \<Rightarrow> nat" where
  "max_passes ir = length (ir_nodes ir) + 1"

definition dispatch_node ::
    "sched_env \<Rightarrow> timestamp \<Rightarrow> execution_id \<Rightarrow> workflow_ir \<Rightarrow> string \<Rightarrow> string \<Rightarrow> exec_progress \<Rightarrow> node_id \<Rightarrow> node_def \<Rightarrow>
     in_memory_backend \<Rightarrow> in_memory_backend" where
  "dispatch_node env now e ir workflow_id workflow_version p i node s =
     (let queue = queue_as_str (node_queue_type (nd_kind node));
          item_id = se_item_id env (mb_next_sequence s);
          s = append_next env now e (NodeScheduled i queue) s;
          item = \<lparr>wi_id = item_id, wi_execution_id = e, wi_node_id = i, wi_queue_type = queue,
                  wi_payload = build_work_item_payload ir i node (ep_final_state p) workflow_id workflow_version,
                  wi_attempt = 0, wi_max_attempts = max_attempts_for (nd_retry_policy node), wi_created_at = now,
                  wi_lease_expires_at = None, wi_worker_id = None, wi_lease_fence = 0, wi_tenant_id = default_tenant\<rparr>
      in fst (enqueue_work_item item s))"

text \<open>The dispatch loop; the second component counts what was enqueued.\<close>

fun dispatch_loop ::
    "sched_env \<Rightarrow> timestamp \<Rightarrow> execution_id \<Rightarrow> workflow_ir \<Rightarrow> string \<Rightarrow> string \<Rightarrow> exec_progress \<Rightarrow> (node_id \<times> node_def) list \<Rightarrow>
     in_memory_backend \<times> nat \<Rightarrow> in_memory_backend \<times> nat" where
  "dispatch_loop env now e ir wid ver p [] acc = acc"
| "dispatch_loop env now e ir wid ver p ((i, node) # rest) (s, enqueued) =
     (if enqueued \<ge> sc_max_dispatch_per_tick (se_config env) then (s, enqueued)
      else if card (ep_scheduled p) + enqueued \<ge> sc_max_concurrent_nodes_per_execution (se_config env) then (s, enqueued)
      else if i \<in> ep_terminal_failed p then dispatch_loop env now e ir wid ver p rest (s, enqueued)
      else if runnable_in ir p i
      then dispatch_loop env now e ir wid ver p rest (dispatch_node env now e ir wid ver p i node s, enqueued + 1)
      else dispatch_loop env now e ir wid ver p rest (s, enqueued))"

fun join_names :: "string list \<Rightarrow> string" where
  "join_names [] = []"
| "join_names [n] = n"
| "join_names (n # ns) = n @ '', '' @ join_names ns"

definition terminal_outcome :: "exec_progress \<Rightarrow> workflow_status \<times> event_kind" where
  "terminal_outcome p =
     (if ep_terminal_failed p = {} then (WfCompleted, WorkflowCompleted (JObject (ep_final_state p)))
      else (WfFailed, WorkflowFailed (''node(s) failed terminally: '' @ join_names (sorted_list_of_set (ep_terminal_failed p)))))"

definition complete_run ::
    "sched_env \<Rightarrow> timestamp \<Rightarrow> execution_id \<Rightarrow> exec_progress \<Rightarrow> in_memory_backend \<times> scheduler \<Rightarrow>
     (in_memory_backend \<times> scheduler) \<times> (sched_error + unit)" where
  "complete_run env now e p st =
     (case st of (s, sch) \<Rightarrow>
        (case finish_execution now (event_new (se_fresh env (mb_next_sequence s)) now e 0 (snd (terminal_outcome p))) (fst (terminal_outcome p)) s of
           (s, Inl err) \<Rightarrow> ((s, sch), Inl (SchedBackend err))
         | (s, Inr _) \<Rightarrow> ((s, sch\<lparr>sd_progress := (sd_progress sch)(e := None)\<rparr>), Inr ())))"

text \<open>What follows the fold of the delta, for a readable log.\<close>

definition advance_run ::
    "sched_env \<Rightarrow> timestamp \<Rightarrow> execution_id \<Rightarrow> workflow_ir \<Rightarrow> string \<Rightarrow> string \<Rightarrow> exec_progress \<Rightarrow> in_memory_backend \<times> scheduler \<Rightarrow>
     (in_memory_backend \<times> scheduler) \<times> (sched_error + unit)" where
  "advance_run env now e ir workflow_id workflow_version p st =
     (case st of (s, sch) \<Rightarrow>
        (let s = sweep_if_due env now e p s;
             s = fail_rejected env now e p s;
             (s, p) = skip_cascade env now e ir (max_passes ir) (s, p);
             sch = save_progress e p sch
         in if card (ep_scheduled p) \<ge> sc_max_concurrent_nodes_per_execution (se_config env) then ((s, sch), Inr ())
            else
              (let (s, enqueued) = dispatch_loop env now e ir workflow_id workflow_version p (ir_nodes ir) (s, 0)
               in if enqueued = 0 \<and> ep_scheduled p = {} then complete_run env now e p (s, sch) else ((s, sch), Inr ()))))"

definition schedule_runnable_nodes ::
    "sched_env \<Rightarrow> timestamp \<Rightarrow> execution_id \<Rightarrow> string \<Rightarrow> string \<Rightarrow> in_memory_backend \<times> scheduler \<Rightarrow>
     (in_memory_backend \<times> scheduler) \<times> (sched_error + unit)" where
  "schedule_runnable_nodes env now e workflow_id workflow_version st =
     (case st of (s, sch) \<Rightarrow>
        (case load_ir env workflow_id workflow_version s sch of
           (sch, Inl err) \<Rightarrow> ((s, sch), Inl err)
         | (sch, Inr None) \<Rightarrow> ((s, sch), Inr ())
         | (sch, Inr (Some ir)) \<Rightarrow>
             (let p = fold_delta env e s sch;
                  sch = save_progress e p sch
              in if ep_unreadable p
                 then (case record_stall env now e p s of (s, r) \<Rightarrow> ((s, sch), r))
                 else advance_run env now e ir workflow_id workflow_version p (s, sch))))"

definition tick :: "sched_env \<Rightarrow> timestamp \<Rightarrow> in_memory_backend \<times> scheduler \<Rightarrow> in_memory_backend \<times> scheduler" where
  "tick env now st =
     (case st of (s, sch) \<Rightarrow>
        (let s = sched_reclaim_expired_leases env now s;
             running = list_executions (se_execution_order env) (Some WfRunning) 100 0 s
         in fold (\<lambda>ex st. fst (schedule_runnable_nodes env now (we_execution_id ex) (we_workflow_id ex) (we_workflow_version ex) st))
              running (s, sch)))"

end
