(* ===== verification/Scheduling.thy ===== *)
theory Scheduling
  imports Scheduler
begin

text \<open>
  What the scheduler does to a run: the skip cascade reaches its fixpoint and skips exactly the nodes that
  can no longer be enabled, the dispatch loop takes the first runnable nodes within its limits, the cached
  progress is the fold of the whole log, and on an acyclic graph whose edges come from nodes a run it
  completes has settled every node.
\<close>

section \<open>The skip cascade\<close>

text \<open>A node that can never be enabled: every edge into it is dead or comes from such a node.\<close>

inductive doomed :: "workflow_ir \<Rightarrow> exec_progress \<Rightarrow> node_id \<Rightarrow> bool" for ir p where
  doomedI: "has_node ir i \<Longrightarrow>
     i \<notin> ep_completed p \<union> ep_scheduled p \<union> ep_skipped p \<union> ep_terminal_failed p \<Longrightarrow> edges_into ir i \<noteq> [] \<Longrightarrow>
     (\<And>e. e \<in> set (edges_into ir i) \<Longrightarrow> dead_in ir p (ed_from e) i \<or> doomed ir p (ed_from e)) \<Longrightarrow> doomed ir p i"

definition skips_to :: "exec_progress \<Rightarrow> node_id set \<Rightarrow> exec_progress \<Rightarrow> bool" where
  "skips_to p D q =
     (ep_completed q = ep_completed p \<union> D \<and> ep_skipped q = ep_skipped p \<union> D \<and> ep_scheduled q = ep_scheduled p - D \<and>
      ep_terminal_failed q = ep_terminal_failed p \<and> ep_routes q = ep_routes p)"

lemma skips_to_refl [simp]: "skips_to p {} p"
  by (simp add: skips_to_def)

lemma skips_to_trans: "skips_to p A q \<Longrightarrow> skips_to q B r \<Longrightarrow> skips_to p (A \<union> B) r"
  by (auto simp: skips_to_def)

lemma emit_skip_marks: "skips_to (snd sp) {i} (snd (emit_skip env now e i sp))"
  by (simp add: skips_to_def emit_skip_def next_event_def event_new_def progress_apply_def progress_kind_def Let_def)

lemma fold_emit_marks: "skips_to (snd sp) (set ns) (snd (fold (emit_skip env now e) ns sp))"
proof (induction ns arbitrary: sp)
  case (Cons i ns)
  show ?case using skips_to_trans [OF emit_skip_marks Cons.IH, of sp i env now e] by simp
qed simp

lemma dead_after_skip: "skips_to p D q \<Longrightarrow> dead_in ir q a b \<longleftrightarrow> dead_in ir p a b \<or> a \<in> D"
  by (auto simp: skips_to_def edge_dead_def split: option.split node_kind.split)

lemma set_newly_skippable: "set (newly_skippable ir p) = {i. has_node ir i \<and> skippable ir p i}"
  by (auto simp: newly_skippable_def has_node_def)

lemma newly_skippable_doomed:
  assumes "skips_to p D q" "D \<subseteq> {i. doomed ir p i}"
  shows "set (newly_skippable ir q) \<subseteq> {i. doomed ir p i}"
proof
  fix i assume "i \<in> set (newly_skippable ir q)"
  then have i: "has_node ir i" "skippable ir q i" by (simp_all add: set_newly_skippable)
  then have "i \<notin> ep_completed p \<union> ep_scheduled p \<union> ep_skipped p \<union> ep_terminal_failed p"
    using assms(1) by (auto simp: skippable_def skips_to_def)
  moreover have "dead_in ir p (ed_from e) i \<or> doomed ir p (ed_from e)" if "e \<in> set (edges_into ir i)" for e
    using i(2) that assms(2) dead_after_skip [OF assms(1)] by (auto simp: skippable_def list_all_iff)
  ultimately have "doomed ir p i" using i doomedI [of ir i p] by (simp add: skippable_def)
  then show "i \<in> {i. doomed ir p i}" by simp
qed

lemma cascade_sound:
  "skips_to p D (snd sp) \<Longrightarrow> D \<subseteq> {i. doomed ir p i} \<Longrightarrow>
   \<exists>D'. D \<subseteq> D' \<and> D' \<subseteq> {i. doomed ir p i} \<and> skips_to p D' (snd (skip_cascade env now e ir n sp))"
proof (induction n arbitrary: sp D)
  case (Suc n)
  let ?ns = "newly_skippable ir (snd sp)"
  show ?case
  proof (cases "?ns = []")
    case False
    let ?sp = "fold (emit_skip env now e) ?ns sp"
    have "skips_to p (D \<union> set ?ns) (snd ?sp)" by (rule skips_to_trans [OF Suc.prems(1) fold_emit_marks])
    moreover have "D \<union> set ?ns \<subseteq> {i. doomed ir p i}" using newly_skippable_doomed [OF Suc.prems] Suc.prems(2) by blast
    ultimately obtain D' where D': "D \<union> set ?ns \<subseteq> D'" "D' \<subseteq> {i. doomed ir p i}"
      "skips_to p D' (snd (skip_cascade env now e ir n ?sp))" using Suc.IH [of "D \<union> set ?ns" ?sp] by auto
    show ?thesis by (rule exI [of _ D']) (use D' False in \<open>simp add: Let_def\<close>)
  next
    case True
    then show ?thesis using Suc.prems by (intro exI [of _ D]) (simp add: Let_def)
  qed
next
  case 0
  then show ?case by (intro exI [of _ D]) simp
qed

text \<open>Every pass but the last skips a node, so the passes suffice.\<close>

definition unskipped :: "workflow_ir \<Rightarrow> exec_progress \<Rightarrow> nat" where
  "unskipped ir p = card {i \<in> fst ` set (ir_nodes ir). i \<notin> ep_skipped p}"

lemma pass_decreases:
  assumes "newly_skippable ir (snd sp) \<noteq> []"
  shows "unskipped ir (snd (fold (emit_skip env now e) (newly_skippable ir (snd sp)) sp)) < unskipped ir (snd sp)"
proof -
  let ?ns = "newly_skippable ir (snd sp)"
  have m: "ep_skipped (snd (fold (emit_skip env now e) ?ns sp)) = ep_skipped (snd sp) \<union> set ?ns"
    using fold_emit_marks [of sp ?ns env now e] by (simp add: skips_to_def)
  obtain i where "i \<in> set ?ns" using assms by (meson last_in_set)
  then have "i \<in> fst ` set (ir_nodes ir)" "i \<notin> ep_skipped (snd sp)"
    by (auto simp: set_newly_skippable has_node_def skippable_def)
  then show ?thesis unfolding unskipped_def m using \<open>i \<in> set ?ns\<close> by (intro psubset_card_mono) auto
qed

lemma cascade_complete:
  "unskipped ir (snd sp) < n \<Longrightarrow> newly_skippable ir (snd (skip_cascade env now e ir n sp)) = []"
proof (induction n arbitrary: sp)
  case (Suc n)
  show ?case
  proof (cases "newly_skippable ir (snd sp) = []")
    case False
    then have "unskipped ir (snd (fold (emit_skip env now e) (newly_skippable ir (snd sp)) sp)) < n"
      using pass_decreases [OF False, of env now e] Suc.prems by linarith
    from Suc.IH [OF this] show ?thesis using False by (simp add: Let_def)
  qed (simp add: Let_def)
qed simp

lemma unskipped_bound: "unskipped ir p < max_passes ir"
proof -
  have "unskipped ir p \<le> card (fst ` set (ir_nodes ir))" unfolding unskipped_def by (rule card_mono) auto
  also have "\<dots> \<le> length (ir_nodes ir)" using card_image_le card_length le_trans by blast
  finally show ?thesis by (simp add: max_passes_def)
qed

lemma cascade_exact:
  fixes ir p env now e s
  defines "q \<equiv> snd (skip_cascade env now e ir (max_passes ir) (s, p))"
  shows "newly_skippable ir q = []" and "skips_to p {i. doomed ir p i} q"
proof -
  show fix_q: "newly_skippable ir q = []" unfolding q_def by (rule cascade_complete) (simp add: unskipped_bound)
  obtain D where D: "D \<subseteq> {i. doomed ir p i}" "skips_to p D q"
    using cascade_sound [of p "{}" "(s, p)" ir env now e "max_passes ir"] by (auto simp: q_def)
  have "i \<in> D" if "doomed ir p i" for i
    using that
  proof (induction rule: doomed.induct)
    case (doomedI i)
    show ?case
    proof (rule ccontr)
      assume "i \<notin> D"
      have "dead_in ir q (ed_from e) i" if "e \<in> set (edges_into ir i)" for e
        using doomedI(4) [OF that] dead_after_skip [OF D(2)] by auto
      then have "skippable ir q i"
        using doomedI(2,3) \<open>i \<notin> D\<close> D(2) by (auto simp: skippable_def skips_to_def list_all_iff)
      then show False using fix_q doomedI(1) set_newly_skippable [of ir q] by auto
    qed
  qed
  then have "D = {i. doomed ir p i}" using D(1) by blast
  then show "skips_to p {i. doomed ir p i} q" using D(2) by simp
qed

text \<open>C27: within its passes the skip cascade reaches the fixpoint and decides exactly: the nodes it skips are
  the nodes every path into which is dead, no node that can still be enabled is skipped, and nothing is
  left to skip.\<close>

theorem skip_cascade_decides:
  "ep_skipped (snd (skip_cascade env now e ir (max_passes ir) (s, p))) = ep_skipped p \<union> {i. doomed ir p i} \<and>
   ep_completed (snd (skip_cascade env now e ir (max_passes ir) (s, p))) = ep_completed p \<union> {i. doomed ir p i} \<and>
   newly_skippable ir (snd (skip_cascade env now e ir (max_passes ir) (s, p))) = []"
  using cascade_exact [where ir = ir and p = p and env = env and now = now and e = e and s = s] by (simp add: skips_to_def)

section \<open>Dispatch\<close>

definition dispatchable :: "workflow_ir \<Rightarrow> exec_progress \<Rightarrow> (node_id \<times> node_def) list" where
  "dispatchable ir p = filter (\<lambda>n. fst n \<notin> ep_terminal_failed p \<and> runnable_in ir p (fst n)) (ir_nodes ir)"

definition dispatch_room :: "sched_env \<Rightarrow> exec_progress \<Rightarrow> nat \<Rightarrow> nat" where
  "dispatch_room env p enqueued =
     min (sc_max_dispatch_per_tick (se_config env)) (sc_max_concurrent_nodes_per_execution (se_config env) - card (ep_scheduled p)) - enqueued"

lemma dispatch_loop_take:
  "dispatch_loop env now e ir wid ver p nodes (s, k) =
     (let ds = take (dispatch_room env p k) (filter (\<lambda>n. fst n \<notin> ep_terminal_failed p \<and> runnable_in ir p (fst n)) nodes)
      in (fold (\<lambda>n. dispatch_node env now e ir wid ver p (fst n) (snd n)) ds s, k + length ds))"
proof (induction nodes arbitrary: s k)
  case (Cons n nodes)
  obtain i node where n: "n = (i, node)" by (cases n)
  show ?case
  proof (cases "dispatch_room env p k")
    case 0
    then show ?thesis by (auto simp: n dispatch_room_def Let_def)
  next
    case (Suc r)
    then have room: "\<not> k \<ge> sc_max_dispatch_per_tick (se_config env)"
      "\<not> card (ep_scheduled p) + k \<ge> sc_max_concurrent_nodes_per_execution (se_config env)" "dispatch_room env p (k + 1) = r"
      by (auto simp: dispatch_room_def)
    show ?thesis using room Suc by (simp add: n Cons.IH Let_def)
  qed
qed simp

text \<open>the dispatch loop hands out the first nodes that are runnable and have not failed for good, in the
  order of the workflow's nodes, as many as fit: never more than a tick may dispatch, and never so many
  that the run has more nodes in flight than it may.\<close>

theorem dispatch_within_limits:
  assumes "dispatch_loop env now e ir wid ver p (ir_nodes ir) (s, 0) = (s', k)"
    and "card (ep_scheduled p) < sc_max_concurrent_nodes_per_execution (se_config env)"
  shows "\<exists>ds. ds = take k (dispatchable ir p) \<and> length ds = k \<and>
    s' = fold (\<lambda>n. dispatch_node env now e ir wid ver p (fst n) (snd n)) ds s \<and>
    k \<le> sc_max_dispatch_per_tick (se_config env) \<and>
    card (ep_scheduled p) + k \<le> sc_max_concurrent_nodes_per_execution (se_config env) \<and>
    (k < length (dispatchable ir p) \<longrightarrow>
       k = sc_max_dispatch_per_tick (se_config env) \<or>
       card (ep_scheduled p) + k = sc_max_concurrent_nodes_per_execution (se_config env))"
proof -
  let ?r = "dispatch_room env p 0" and ?d = "dispatchable ir p"
  have "s' = fold (\<lambda>n. dispatch_node env now e ir wid ver p (fst n) (snd n)) (take ?r ?d) s" "k = length (take ?r ?d)"
    using assms(1) unfolding dispatch_loop_take dispatchable_def Let_def by simp_all
  moreover have "take k ?d = take ?r ?d" using calculation(2) by (simp add: min_def)
  ultimately show ?thesis using assms(2) by (auto simp: dispatch_room_def min_def split: if_splits)
qed

definition sample_env :: sched_env where
  "sample_env = \<lparr>se_x = sample_externals, se_parse_ir = (\<lambda>_. Inl []), se_sealer = None, se_config = scheduler_config_default,
     se_fresh = (\<lambda>_. ''e''), se_item_id = (\<lambda>_. ''i''), se_rejected_order = [], se_item_order = [], se_execution_order = []\<rparr>"

lemma sample_caps: "sc_max_dispatch_per_tick (se_config sample_env) = 8" "sc_max_concurrent_nodes_per_execution (se_config sample_env) = 16"
  "ep_scheduled progress_default = {}"
  by (simp_all add: sample_env_def scheduler_config_default_def progress_default_def)

theorem dispatch_within_limits_witness:
  "\<exists>s'. dispatch_loop sample_env 0 ''x'' sample_ir ''w'' ''1'' progress_default (ir_nodes sample_ir) (backend_new, 0) = (s', 1)"
proof -
  obtain s' k where l: "dispatch_loop sample_env 0 ''x'' sample_ir ''w'' ''1'' progress_default (ir_nodes sample_ir) (backend_new, 0) = (s', k)"
    by fastforce
  have d: "length (dispatchable sample_ir progress_default) = 1"
    by (simp add: dispatchable_def is_runnable_def edges_into_def edge_dead_def ir_node_def sample_ir_def plain_node_def progress_default_def)
  have room: "card (ep_scheduled progress_default) < sc_max_concurrent_nodes_per_execution (se_config sample_env)" by (simp add: sample_caps)
  from dispatch_within_limits [OF l this]
  have "length (take k (dispatchable sample_ir progress_default)) = k" "k < 1 \<longrightarrow> k = 8 \<or> k = 16"
    unfolding d sample_caps by auto
  then have "k = 1" using d by auto
  then show ?thesis using l by blast
qed

section \<open>The cached progress\<close>

interpretation prog: sequenced_fold "progress_apply x" ev_sequence ep_last_sequence
  by unfold_locales (simp add: progress_apply_def)

text \<open>the progress the scheduler caches and advances by the events it has not seen is the fold of the whole
  log of the run: reading only the delta loses nothing and applies nothing twice.\<close>

theorem cached_progress_is_fold:
  assumes "log_ok s" and "get_events e s = seen @ new"
    and "sd_progress sch e = Some (fold (progress_apply (se_x env)) seen progress_default) \<or> sd_progress sch e = None \<and> seen = []"
  shows "fold_delta env e s sch = fold (progress_apply (se_x env)) (get_events e s) progress_default"
proof -
  let ?p = "fold (progress_apply (se_x env)) seen progress_default"
  have "sorted_wrt (<) (map ev_sequence (seen @ new))" "\<forall>ev \<in> set (seen @ new). 0 < ev_sequence ev"
    using assms(1,2) by (auto simp: well_sequenced_def get_events_def dest: spec [of _ e])
  then have w: "sorted_wrt (\<lambda>a b. ev_sequence a < ev_sequence b) (seen @ new)" "\<forall>ev \<in> set (seen @ new). 0 < ev_sequence ev"
    unfolding sorted_wrt_map by simp_all
  have "fold_delta env e s sch =
      fold (progress_apply (se_x env)) (filter (\<lambda>ev. ev_sequence ev > ep_last_sequence ?p) (seen @ new)) ?p"
    using assms(2,3) by (auto simp: fold_delta_def get_events_since_def get_events_def Let_def)
  also have "\<dots> = fold (progress_apply (se_x env)) (seen @ new) progress_default"
    by (rule prog.resume) (use w in \<open>simp_all add: progress_default_def\<close>)
  finally show ?thesis using assms(2) by simp
qed

theorem cached_progress_is_fold_witness:
  "fold_delta sample_env ''x'' one_event \<lparr>sd_ir_cache = Map.empty, sd_progress = Map.empty\<rparr> =
   fold (progress_apply (se_x sample_env)) (get_events ''x'' one_event) progress_default"
  using cached_progress_is_fold [OF reachable_log_ok [OF one_event_trace [of sample_externals "\<lambda>_. ''e''"]], of "''x''" "[]"] by simp

text \<open>the skip cascade breaks that when another component appends in between: the skip is folded under the
  sequence after the latest one in the store, so an event that landed since the delta was read is stepped
  over, and no later tick ever reads it.  A completion lost this way leaves its node in flight for good.\<close>

theorem concurrent_event_never_folded:
  assumes "log_ok s" and "mb_next_sequence s < 2 ^ 62" and "ev_execution_id ev = e"
    and "emit_skip env now e i (fst (append_event ev s), p) = (s2, p2)" and "backend_trace x fresh s2 ls s3"
  shows "\<exists>ev' \<in> set (get_events e s3). ev_kind ev' = ev_kind ev \<and> ev_sequence ev' = mb_next_sequence s \<and>
    ev' \<notin> set (get_events_since e (ep_last_sequence p2) s3)"
proof -
  let ?s1 = "fst (append_event ev s)" and ?ev = "ev\<lparr>ev_sequence := mb_next_sequence s\<rparr>"
  have n: "0 < mb_next_sequence s" using assms(1) by (simp add: well_sequenced_def)
  have l1: "log_of ?s1 e = log_of s e @ [?ev]" using assms(3) by (simp add: append_event_def log_of_push)
  have g1: "grows s ?s1" "mb_next_sequence ?s1 = mb_next_sequence s + 1"
    using push_grows [OF n] assms(2) by (simp_all add: append_event_def)
  have "latest_sequence e ?s1 = mb_next_sequence s"
    using l1 by (cases "log_of s e") (simp_all add: latest_sequence_def)
  then have "ev_sequence (next_event env now e k ?s1) = mb_next_sequence s + 1" for k
    using n assms(2) wrap_next [of "mb_next_sequence s"] by (simp add: next_event_def event_new_def)
  then have p2: "ep_last_sequence p2 > mb_next_sequence s" and s2: "s2 = fst (append_event (next_event env now e (NodeSkipped i ''branch not taken'') ?s1) ?s1)"
    using assms(4) by (auto simp: emit_skip_def Let_def progress_apply_def)
  have "0 < mb_next_sequence ?s1" "mb_next_sequence ?s1 < 2 ^ 63 - 1" using g1(2) n assms(2) by auto
  from push_grows [OF this] have "grows ?s1 s2" unfolding s2 append_event_fst by blast
  then have g2: "grows s s2" using grows_trans [OF g1(1)] by blast
  have ok2: "log_ok s2" by (rule appends_sequenced [OF g2 assms(1)])
  have "grows s2 s3" using mlog.runs_append [OF trace_steps [OF assms(5)] ok2] by blast
  then have "grows ?s1 s3" using grows_trans [OF \<open>grows ?s1 s2\<close>] by blast
  then obtain more where "log_of s3 e = log_of ?s1 e @ more" by (rule appends_obtain)
  then have "?ev \<in> set (get_events e s3)" using l1 by (simp add: get_events_def)
  moreover have "?ev \<notin> set (get_events_since e (ep_last_sequence p2) s3)" using p2 by (simp add: get_events_since_def)
  ultimately show ?thesis by (intro bexI [of _ ?ev]) simp_all
qed

section \<open>Completion\<close>

definition graph_edges :: "workflow_ir \<Rightarrow> (node_id \<times> node_id) set" where
  "graph_edges ir = (\<lambda>e. (ed_from e, ed_to e)) ` set (ir_edges ir)"

lemma runnable_iff:
  "runnable_in ir q i \<longleftrightarrow>
     i \<notin> ep_scheduled q \<and> i \<notin> ep_completed q \<and> i \<notin> ep_skipped q \<and>
     (edges_into ir i = [] \<or>
      (\<exists>e \<in> set (edges_into ir i). \<not> dead_in ir q (ed_from e) i) \<and>
      (\<forall>e \<in> set (edges_into ir i). \<not> dead_in ir q (ed_from e) i \<longrightarrow> ed_from e \<in> ep_completed q))"
  by (auto simp: is_runnable_def Let_def list_all_iff filter_empty_conv)

lemma quiet_run_settled:
  assumes "ep_skipped q \<subseteq> ep_completed q" "newly_skippable ir q = []" "ep_scheduled q = {}" "ep_terminal_failed q = {}"
    and "\<And>i. has_node ir i \<Longrightarrow> \<not> runnable_in ir q i"
    and "acyclic (graph_edges ir)" and "\<forall>e \<in> set (ir_edges ir). has_node ir (ed_from e)"
  shows "has_node ir i \<Longrightarrow> i \<in> ep_completed q"
proof (induction i rule: wf_induct_rule [OF finite_acyclic_wf [of "graph_edges ir"]])
  case 1
  show ?case by (simp add: graph_edges_def)
next
  case 2
  show ?case by (rule assms(6))
next
  case (3 i)
  have from_done: "ed_from e \<in> ep_completed q" if "e \<in> set (edges_into ir i)" for e
    using that "3.IH" [of "ed_from e"] assms(7) by (auto simp: edges_into_def graph_edges_def)
  show ?case
  proof (rule ccontr)
    assume "i \<notin> ep_completed q"
    then have un: "i \<notin> ep_scheduled q" "i \<notin> ep_completed q" "i \<notin> ep_skipped q" "i \<notin> ep_terminal_failed q"
      using assms(1,3,4) by auto
    then have "edges_into ir i \<noteq> []" "\<forall>e \<in> set (edges_into ir i). dead_in ir q (ed_from e) i"
      using assms(5) [OF "3.prems"] from_done unfolding runnable_iff by auto
    then have "skippable ir q i" using un by (simp add: skippable_def list_all_iff)
    then show False using assms(2) "3.prems" set_newly_skippable [of ir q] by auto
  qed
qed

lemma run_data_seal: "run_data (seal env now ev q s) = run_data s"
  by (auto simp: seal_def seal_appended_def record_seal_gap_def run_data_appends split: option.split)

lemma run_data_append_next: "run_data (append_next env now e k s) = run_data s"
  by (simp add: append_next_def run_data_appends)

lemma run_data_sweep_actions: "run_data (fst (sweep_actions env clock e acts sw s)) = run_data s"
proof (induction acts arbitrary: sw s)
  case (Cons a acts)
  let ?ev = "event_new (se_fresh env (mb_next_sequence s)) clock e 0 (deadline_event a)"
  obtain t r where t: "append_event_if ?ev (deadline_condition (se_x env) a) s = (t, r)" by fastforce
  then have "run_data t = run_data s" using run_data_appends(2) [of ?ev "deadline_condition (se_x env) a" s] by simp
  then show ?case using Cons by (simp add: t Let_def run_data_seal split: sum.split conditional_append.split)
qed simp

lemma run_data_sweep: "run_data (sweep_if_due env now e p s) = run_data s"
  by (simp add: sweep_if_due_def sweep_approval_deadlines_def run_data_sweep_actions)

lemma run_data_fail_rejected: "run_data (fail_rejected env now e p s) = run_data s"
proof -
  have "run_data (fail_rejected_node env now e p i s) = run_data s" for i s
    by (simp add: fail_rejected_node_def run_data_append_next split: option.split)
  then have "run_data (fold (fail_rejected_node env now e p) is s) = run_data s" for "is" s
    by (induction "is" arbitrary: s) simp_all
  then show ?thesis by (simp add: fail_rejected_def)
qed

lemma run_data_cascade: "run_data (fst (skip_cascade env now e ir n sp)) = run_data (fst sp)"
proof -
  have "run_data (fst (emit_skip env now e i sp)) = run_data (fst sp)" for i sp
    by (simp add: emit_skip_def Let_def run_data_appends)
  then have f: "run_data (fst (fold (emit_skip env now e) ns sp)) = run_data (fst sp)" for ns sp
    by (induction ns arbitrary: sp) simp_all
  show ?thesis by (induction n arbitrary: sp) (simp_all add: Let_def f)
qed

lemma run_data_dispatch_node: "run_data (dispatch_node env now e ir wid ver p i node s) = run_data s"
  by (simp add: dispatch_node_def Let_def run_data_queue(1) run_data_append_next)

lemma run_data_dispatch: "run_data (fst (dispatch_loop env now e ir wid ver p nodes (s, k))) = run_data s"
proof -
  have "run_data (fold (\<lambda>n. dispatch_node env now e ir wid ver p (fst n) (snd n)) ds s) = run_data s" for ds
    by (induction ds arbitrary: s) (simp_all add: run_data_dispatch_node)
  then show ?thesis by (simp add: dispatch_loop_take Let_def)
qed

text \<open>The parts of a scheduling step, named.\<close>

lemma advance_run_parts:
  fixes env now e ir wid ver p s sch
  defines "s1 \<equiv> fail_rejected env now e p (sweep_if_due env now e p s)"
  defines "sq \<equiv> skip_cascade env now e ir (max_passes ir) (s1, p)"
  defines "q \<equiv> snd sq"
  defines "d \<equiv> dispatch_loop env now e ir wid ver q (ir_nodes ir) (fst sq, 0)"
  defines "sch1 \<equiv> save_progress e q sch"
  shows "advance_run env now e ir wid ver p (s, sch) =
    (if card (ep_scheduled q) \<ge> sc_max_concurrent_nodes_per_execution (se_config env) then ((fst sq, sch1), Inr ())
     else if snd d = 0 \<and> ep_scheduled q = {} then complete_run env now e q (fst d, sch1) else ((fst d, sch1), Inr ()))"
    and "run_data (fst d) = run_data s" and "run_data (fst sq) = run_data s"
proof -
  show sq: "run_data (fst sq) = run_data s" by (simp add: sq_def s1_def run_data_cascade run_data_fail_rejected run_data_sweep)
  then show "run_data (fst d) = run_data s" by (simp add: d_def run_data_dispatch)
  show "advance_run env now e ir wid ver p (s, sch) =
    (if card (ep_scheduled q) \<ge> sc_max_concurrent_nodes_per_execution (se_config env) then ((fst sq, sch1), Inr ())
     else if snd d = 0 \<and> ep_scheduled q = {} then complete_run env now e q (fst d, sch1) else ((fst d, sch1), Inr ()))"
    unfolding sch1_def d_def q_def sq_def s1_def by (simp add: advance_run_def Let_def split_beta)
qed

lemma complete_run_status:
  assumes "status_of s e = Some WfRunning"
  shows "status_of (fst (fst (complete_run env now e q (s, sch)))) e = Some (fst (terminal_outcome q))"
proof -
  obtain entry where entry: "mb_executions s e = Some entry" "we_status entry = WfRunning"
    using assms by (auto simp: status_of_def)
  have "is_terminal (fst (terminal_outcome q))" by (simp add: terminal_outcome_def)
  then show ?thesis using entry
    by (simp add: complete_run_def finish_execution_def Let_def split_beta event_new_def status_of_def push_event_frame)
qed

lemma nothing_dispatchable_settled:
  assumes "progress_ok p" "acyclic (graph_edges ir)" "\<forall>e \<in> set (ir_edges ir). has_node ir (ed_from e)"
    and "newly_skippable ir q = []" "skips_to p {i. doomed ir p i} q" "ep_scheduled q = {}" "ep_terminal_failed q = {}"
    and "dispatchable ir q = []" "has_node ir i"
  shows "i \<in> ep_completed p \<or> doomed ir p i"
proof -
  have quiet: "\<not> runnable_in ir q j" if "has_node ir j" for j
    using that assms(7,8) by (auto simp: dispatchable_def filter_empty_conv has_node_def)
  have skip_ok: "ep_skipped q \<subseteq> ep_completed q" using assms(1,5) by (auto simp: progress_ok_def skips_to_def)
  from quiet_run_settled [OF skip_ok assms(4,6,7) quiet assms(2,3,9)] show ?thesis
    using assms(5) by (simp add: skips_to_def)
qed

text \<open>C29: On an acyclic graph all of whose edges come from a node, with room to dispatch, a run that a scheduling step
  marks completed has settled every node of its workflow: each has completed or can no longer be enabled.  The validator
  checks neither of the two conditions on the graph, and without either the claim is false (\<open>cyclic_run_completes_early\<close>,
  \<open>unknown_source_completes_early\<close>).\<close>

theorem completed_run_left_nothing:
  assumes "progress_ok p" and "acyclic (graph_edges ir)" and "\<forall>e \<in> set (ir_edges ir). has_node ir (ed_from e)"
    and "0 < sc_max_dispatch_per_tick (se_config env)"
    and "status_of s e = Some WfRunning"
    and "status_of (fst (fst (advance_run env now e ir wid ver p (s, sch)))) e = Some WfCompleted"
    and "has_node ir i"
  shows "i \<in> ep_completed p \<or> doomed ir p i"
proof -
  define sq where "sq = skip_cascade env now e ir (max_passes ir) (fail_rejected env now e p (sweep_if_due env now e p s), p)"
  define q where "q = snd sq"
  define d where "d = dispatch_loop env now e ir wid ver q (ir_nodes ir) (fst sq, 0)"
  note step = advance_run_parts(1) [where env = env and now = now and e = e and ir = ir and wid = wid and ver = ver and p = p and s = s
      and sch = sch, folded sq_def, folded q_def, folded d_def]
  have "run_data (fst sq) = run_data s" "run_data (fst d) = run_data s"
    unfolding d_def q_def sq_def by (rule advance_run_parts(3) advance_run_parts(2))+
  then have run: "status_of (fst sq) e = Some WfRunning" "status_of (fst d) e = Some WfRunning"
    using run_data_status assms(5) by metis+
  have fin: "card (ep_scheduled q) < sc_max_concurrent_nodes_per_execution (se_config env)" "snd d = 0" "ep_scheduled q = {}"
    "fst (terminal_outcome q) = WfCompleted"
    using assms(6) run complete_run_status [OF run(2)] unfolding step by (auto split: if_splits)
  have marks: "newly_skippable ir q = []" "skips_to p {i. doomed ir p i} q"
    unfolding q_def sq_def by (rule cascade_exact)+
  have failed: "ep_terminal_failed q = {}" using fin(4) by (simp add: terminal_outcome_def split: if_splits)
  have "dispatch_room env q 0 > 0" using fin(1) assms(4) by (simp add: dispatch_room_def)
  moreover have "take (dispatch_room env q 0) (dispatchable ir q) = []"
    using fin(2) unfolding d_def dispatch_loop_take dispatchable_def by (auto simp: Let_def min_def split: if_splits)
  ultimately have "dispatchable ir q = []" by simp
  from nothing_dispatchable_settled [OF assms(1-3) marks fin(3) failed this assms(7)] show ?thesis .
qed

definition ran :: "node_id list \<Rightarrow> exec_progress" where
  "ran ns = progress_default\<lparr>ep_completed := set ns, ep_routes := [''a'' \<mapsto> ''b'']\<rparr>"

lemma advance_run_plain:
  assumes "ep_scheduled p = {}" "ep_held p = {}" "newly_skippable ir p = []" "dispatchable ir p = []" "ep_terminal_failed p = {}"
    and "status_of s e = Some WfRunning"
  shows "status_of (fst (fst (advance_run sample_env now e ir wid ver p (s, sch)))) e = Some WfCompleted"
proof -
  have c: "skip_cascade sample_env now e ir (max_passes ir) (s, p) = (s, p)" using assms(3) by (simp add: max_passes_def)
  have d: "dispatch_loop sample_env now e ir wid ver p (ir_nodes ir) (s, 0) = (s, 0)"
    using assms(4) by (simp add: dispatch_loop_take dispatchable_def)
  have "fail_rejected sample_env now e p (sweep_if_due sample_env now e p s) = s"
    using assms(2) by (simp add: fail_rejected_def sweep_if_due_def sample_env_def)
  then have "advance_run sample_env now e ir wid ver p (s, sch) = complete_run sample_env now e p (s, save_progress e p sch)"
    using c d assms(1) by (simp add: advance_run_def Let_def sample_env_def scheduler_config_default_def)
  then show ?thesis using complete_run_status [OF assms(6)] assms(5) by (simp add: terminal_outcome_def)
qed

lemma started_running: "status_of started ''x'' = Some WfRunning"
  by (simp add: status_of_def started_def create_execution_def sample_execution_def)

lemma sample_acyclic: "acyclic (graph_edges sample_ir)" "\<forall>e \<in> set (ir_edges sample_ir). has_node sample_ir (ed_from e)"
proof -
  have "graph_edges sample_ir = {(''a'', ''b''), (''b'', ''end'')}" by (auto simp: graph_edges_def sample_ir_def)
  then have "graph_edges sample_ir \<subseteq> measure (\<lambda>n. if n = ''a'' then 0 else if n = ''b'' then 1 else 2)" by auto
  then show "acyclic (graph_edges sample_ir)" using acyclic_subset wf_acyclic [OF wf_measure] by blast
  show "\<forall>e \<in> set (ir_edges sample_ir). has_node sample_ir (ed_from e)" by (simp add: sample_ir_def has_node_def)
qed

theorem completed_run_left_nothing_witness: "''b'' \<in> ep_completed (ran [''a'', ''b'']) \<or> doomed sample_ir (ran [''a'', ''b'']) ''b''"
proof (rule completed_run_left_nothing)
  show "progress_ok (ran [''a'', ''b''])" by (simp add: progress_ok_def ran_def progress_default_def)
  show "acyclic (graph_edges sample_ir)" "\<forall>e \<in> set (ir_edges sample_ir). has_node sample_ir (ed_from e)" by (rule sample_acyclic)+
  show "0 < sc_max_dispatch_per_tick (se_config sample_env)" by (simp add: sample_env_def scheduler_config_default_def)
  show "status_of started ''x'' = Some WfRunning" by (rule started_running)
  show "has_node sample_ir ''b''" by (simp add: sample_ir_def has_node_def)
  show "status_of (fst (fst (advance_run sample_env 0 ''x'' sample_ir ''wf'' ''1'' (ran [''a'', ''b'']) (started, \<lparr>sd_ir_cache = Map.empty,
      sd_progress = Map.empty\<rparr>)))) ''x'' = Some WfCompleted"
    by (rule advance_run_plain [OF _ _ _ _ _ started_running])
      (simp_all add: ran_def progress_default_def newly_skippable_def skippable_def dispatchable_def is_runnable_def sample_ir_def)
qed

text \<open>A workflow with a cycle the start node is not part of.\<close>

definition cyclic_ir :: workflow_ir where
  "cyclic_ir = sample_ir\<lparr>ir_start_node := ''s'',
     ir_nodes := [(''s'', plain_node ''s'' (ExternalFn ''gpu'' ''run'' ''o'')), (''a'', plain_node ''a'' (ExternalFn ''gpu'' ''run'' ''o'')),
                  (''b'', plain_node ''b'' (ExternalFn ''gpu'' ''run'' ''o''))],
     ir_edges := [\<lparr>ed_from = ''s'', ed_to = ''a'', ed_condition = None\<rparr>, \<lparr>ed_from = ''a'', ed_to = ''b'', ed_condition = None\<rparr>,
                  \<lparr>ed_from = ''b'', ed_to = ''a'', ed_condition = None\<rparr>]\<rparr>"

lemma cyclic_ir_valid: "validate_workflow null_parser cyclic_ir = Inr ()"
proof -
  have "validate_metadata cyclic_ir = Inr ()"
    by (simp add: validate_metadata_def cyclic_ir_def sample_simps parse_unsigned_def is_ascii_digit_def)
  moreover have "validate_no_duplicate_nodes cyclic_ir = Inr ()" "validate_start_node cyclic_ir = Inr ()"
    "validate_edges cyclic_ir = Inr ()" "validate_branch_targets cyclic_ir = Inr ()" "validate_reachability cyclic_ir = Inr ()"
    by (simp_all add: validate_no_duplicate_nodes_def validate_start_node_def validate_edges_def cyclic_ir_def
        validate_branch_targets_def validate_reachability_def sample_simps bfs.simps)
  moreover have "validate_refs cyclic_ir = Inr ()" "validate_agent_tool_dispatch cyclic_ir = Inr ()"
    "validate_external_queues cyclic_ir = Inr ()" "validate_node_ids cyclic_ir = Inr ()" "validate_approval_deadlines cyclic_ir = Inr ()"
    by (simp_all add: validate_refs_def validate_agent_tool_dispatch_def validate_external_queues_def cyclic_ir_def
        validate_node_ids_def validate_approval_deadlines_def queue_name_problem_def queue_from_name_def
        valid_node_id_def str_len_def max_queue_name_len_def max_node_id_len_def is_ascii_alphanumeric_def ir_node_def sample_simps)
  moreover have "validate_condition_expressions null_parser cyclic_ir = Inr ()"
    by (simp add: validate_condition_expressions_def cyclic_ir_def sample_simps)
  ultimately show ?thesis by (simp add: validate_workflow_def)
qed

lemma dispatch_node_item:
  "\<exists>item. mb_work_items (dispatch_node env now e ir wid ver p i node s) (wi_id item) = Some item \<and> wi_execution_id item = e \<and>
     wi_node_id item = i \<and> wi_worker_id item = None"
  by (simp add: dispatch_node_def Let_def enqueue_work_item_def)
    (metis work_item.select_convs(1,2,3,10))

text \<open>What the skip cascade makes of an edge: it is dead afterwards when it was dead before or its source was skipped.\<close>

lemma dead_after_skips:
  assumes "skips_to p D q"
  shows "dead_in ir q src j \<Longrightarrow> dead_in ir p src j \<or> src \<in> D"
    and "\<not> dead_in ir q src j \<Longrightarrow> \<not> dead_in ir p src j \<and> src \<notin> D"
  using assms by (auto simp: edge_dead_def skips_to_def split: if_splits option.splits node_kind.splits)

text \<open>C28: A run is never stuck.  On an acyclic graph all of whose edges come from a node, with room to dispatch, when nothing is
  in flight and nothing has failed, and some node of the workflow has neither completed nor lost every way to be enabled,
  the next scheduling step puts an unclaimed work item of the run on the queue, for a node that may run: every edge
  into it either comes from a completed node and is alive, or can no longer enable it, and one is of the first kind
  unless the node has no edge into it.\<close>

theorem idle_run_advances:
  assumes "progress_ok p" and "acyclic (graph_edges ir)" and "\<forall>e \<in> set (ir_edges ir). has_node ir (ed_from e)"
    and "0 < sc_max_dispatch_per_tick (se_config env)" and "0 < sc_max_concurrent_nodes_per_execution (se_config env)"
    and "ep_scheduled p = {}" and "ep_terminal_failed p = {}"
    and "has_node ir i" and "i \<notin> ep_completed p" and "\<not> doomed ir p i"
  shows "\<exists>j item. has_node ir j \<and> j \<notin> ep_completed p \<and> \<not> doomed ir p j \<and>
    (edges_into ir j = [] \<or> (\<exists>c \<in> set (edges_into ir j). ed_from c \<in> ep_completed p \<and> \<not> dead_in ir p (ed_from c) j)) \<and>
    (\<forall>c \<in> set (edges_into ir j). ed_from c \<in> ep_completed p \<and> \<not> dead_in ir p (ed_from c) j \<or>
       dead_in ir p (ed_from c) j \<or> doomed ir p (ed_from c)) \<and>
    mb_work_items (fst (fst (advance_run env now e ir wid ver p (s, sch)))) (wi_id item) = Some item \<and>
    wi_execution_id item = e \<and> wi_node_id item = j \<and> wi_worker_id item = None"
proof -
  define sq where "sq = skip_cascade env now e ir (max_passes ir) (fail_rejected env now e p (sweep_if_due env now e p s), p)"
  define q where "q = snd sq"
  define d where "d = dispatch_loop env now e ir wid ver q (ir_nodes ir) (fst sq, 0)"
  note step = advance_run_parts(1) [where env = env and now = now and e = e and ir = ir and wid = wid and ver = ver and p = p and s = s
      and sch = sch, folded sq_def, folded q_def, folded d_def]
  have marks: "newly_skippable ir q = []" "skips_to p {i. doomed ir p i} q"
    unfolding q_def sq_def by (rule cascade_exact)+
  then have empty: "ep_scheduled q = {}" "ep_terminal_failed q = {}" using assms(6,7) by (auto simp: skips_to_def)
  have "dispatchable ir q \<noteq> []" using nothing_dispatchable_settled [OF assms(1-3) marks empty _ assms(8)] assms(9,10) by blast
  moreover have "dispatch_room env q 0 > 0" using empty(1) assms(4,5) by (simp add: dispatch_room_def)
  ultimately obtain ds n where ds: "take (dispatch_room env q 0) (dispatchable ir q) = ds @ [n]"
    by (metis append_butlast_last_id gr_implies_not_zero take_eq_Nil)
  then have d: "fst d = dispatch_node env now e ir wid ver q (fst n) (snd n)
      (fold (\<lambda>n. dispatch_node env now e ir wid ver q (fst n) (snd n)) ds (fst sq))" "snd d \<noteq> 0"
    unfolding d_def dispatch_loop_take dispatchable_def [symmetric] by (simp_all add: Let_def)
  have "n \<in> set (dispatchable ir q)" using ds by (metis in_set_takeD in_set_conv_decomp)
  then have n: "has_node ir (fst n)" and run: "runnable_in ir q (fst n)" by (auto simp: dispatchable_def has_node_def)
  from run have "fst n \<notin> ep_completed q" by (simp add: runnable_iff)
  then have free: "fst n \<notin> ep_completed p" "\<not> doomed ir p (fst n)" using marks(2) by (auto simp: skips_to_def)
  note dead = dead_after_skips [OF marks(2)]
  have on: "ed_from c \<in> ep_completed p \<and> \<not> dead_in ir p (ed_from c) (fst n)"
    if "c \<in> set (edges_into ir (fst n))" "\<not> dead_in ir q (ed_from c) (fst n)" for c
    using that run dead(2) [OF that(2)] marks(2) unfolding runnable_iff by (auto simp: skips_to_def)
  have some: "edges_into ir (fst n) = [] \<or> (\<exists>c \<in> set (edges_into ir (fst n)). ed_from c \<in> ep_completed p \<and> \<not> dead_in ir p (ed_from c) (fst n))"
    using run on unfolding runnable_iff by blast
  have all: "\<forall>c \<in> set (edges_into ir (fst n)). ed_from c \<in> ep_completed p \<and> \<not> dead_in ir p (ed_from c) (fst n) \<or>
      dead_in ir p (ed_from c) (fst n) \<or> doomed ir p (ed_from c)"
    using on dead(1) by blast
  have s': "fst (fst (advance_run env now e ir wid ver p (s, sch))) = fst d" unfolding step using d(2) assms(5) empty(1) by simp
  obtain item where "mb_work_items (fst d) (wi_id item) = Some item" "wi_execution_id item = e" "wi_node_id item = fst n" "wi_worker_id item = None"
    unfolding d(1) using dispatch_node_item by blast
  then show ?thesis unfolding s' using n free some all by blast
qed

theorem idle_run_advances_witness:
  "\<exists>j item. has_node sample_ir j \<and> mb_work_items (fst (fst (advance_run sample_env 0 ''x'' sample_ir ''wf'' ''1'' progress_default
     (started, \<lparr>sd_ir_cache = Map.empty, sd_progress = Map.empty\<rparr>)))) (wi_id item) =
     Some item \<and> wi_node_id item = j"
proof -
  have edges: "edges_into sample_ir ''a'' = []" by (simp add: sample_ir_def edges_into_def)
  have node: "has_node sample_ir ''a''" by (simp add: sample_ir_def has_node_def)
  have enabled: "\<not> doomed sample_ir progress_default ''a''" using edges by (simp add: doomed.simps [of _ _ "''a''"])
  have caps: "0 < sc_max_dispatch_per_tick (se_config sample_env)" "0 < sc_max_concurrent_nodes_per_execution (se_config sample_env)"
    by (simp_all add: sample_caps)
  have p: "ep_scheduled progress_default = {}" "ep_terminal_failed progress_default = {}" "''a'' \<notin> ep_completed progress_default"
    by (simp_all add: progress_default_def)
  show ?thesis using idle_run_advances [OF progress_ok_default sample_acyclic caps p(1,2) node p(3) enabled] by blast
qed

text \<open>acyclicity is needed, and nothing checks it: the workflow s, a, b with the edges s to a, a to b and b
  to a passes the validator, and once its start node has completed the scheduler marks the run completed
  although neither a nor b ever ran or was skipped.\<close>

theorem cyclic_run_completes_early:
  "validate_workflow null_parser cyclic_ir = Inr () \<and>
   status_of (fst (fst (advance_run sample_env 0 ''x'' cyclic_ir ''wf'' ''1'' (ran [''s'']) (started, sch)))) ''x'' = Some WfCompleted \<and>
   ''a'' \<notin> ep_completed (snd (skip_cascade sample_env 0 ''x'' cyclic_ir (max_passes cyclic_ir) (started, ran [''s'']))) \<and>
   ''b'' \<notin> ep_completed (snd (skip_cascade sample_env 0 ''x'' cyclic_ir (max_passes cyclic_ir) (started, ran [''s''])))"
proof (intro conjI)
  show "validate_workflow null_parser cyclic_ir = Inr ()" by (rule cyclic_ir_valid)
  have n: "newly_skippable cyclic_ir (ran [''s'']) = []" "dispatchable cyclic_ir (ran [''s'']) = []"
    by (simp_all add: ran_def progress_default_def newly_skippable_def skippable_def dispatchable_def is_runnable_def edges_into_def
        edge_dead_def ir_node_def cyclic_ir_def plain_node_def)
  show "status_of (fst (fst (advance_run sample_env 0 ''x'' cyclic_ir ''wf'' ''1'' (ran [''s'']) (started, sch)))) ''x'' = Some WfCompleted"
    by (rule advance_run_plain [OF _ _ n _ started_running]) (simp_all add: ran_def progress_default_def)
  show "''a'' \<notin> ep_completed (snd (skip_cascade sample_env 0 ''x'' cyclic_ir (max_passes cyclic_ir) (started, ran [''s''])))"
    and "''b'' \<notin> ep_completed (snd (skip_cascade sample_env 0 ''x'' cyclic_ir (max_passes cyclic_ir) (started, ran [''s''])))"
    using n(1) by (simp_all add: max_passes_def ran_def)
qed

text \<open>An acyclic workflow with an edge from a node that does not exist: from s to n, and from g to n.\<close>

definition dangling_ir :: workflow_ir where
  "dangling_ir = sample_ir\<lparr>ir_start_node := ''s'',
     ir_nodes := [(''s'', plain_node ''s'' (ExternalFn ''gpu'' ''run'' ''o'')), (''n'', plain_node ''n'' (ExternalFn ''gpu'' ''run'' ''o''))],
     ir_edges := [\<lparr>ed_from = ''s'', ed_to = ''n'', ed_condition = None\<rparr>, \<lparr>ed_from = ''g'', ed_to = ''n'', ed_condition = None\<rparr>]\<rparr>"

lemma dangling_ir_valid: "validate_workflow null_parser dangling_ir = Inr ()"
proof -
  have "validate_metadata dangling_ir = Inr ()"
    by (simp add: validate_metadata_def dangling_ir_def sample_simps parse_unsigned_def is_ascii_digit_def)
  moreover have "validate_no_duplicate_nodes dangling_ir = Inr ()" "validate_start_node dangling_ir = Inr ()"
    "validate_edges dangling_ir = Inr ()" "validate_branch_targets dangling_ir = Inr ()" "validate_reachability dangling_ir = Inr ()"
    by (simp_all add: validate_no_duplicate_nodes_def validate_start_node_def validate_edges_def dangling_ir_def
        validate_branch_targets_def validate_reachability_def sample_simps bfs.simps)
  moreover have "validate_refs dangling_ir = Inr ()" "validate_agent_tool_dispatch dangling_ir = Inr ()"
    "validate_external_queues dangling_ir = Inr ()" "validate_node_ids dangling_ir = Inr ()" "validate_approval_deadlines dangling_ir = Inr ()"
    by (simp_all add: validate_refs_def validate_agent_tool_dispatch_def validate_external_queues_def dangling_ir_def
        validate_node_ids_def validate_approval_deadlines_def queue_name_problem_def queue_from_name_def
        valid_node_id_def str_len_def max_queue_name_len_def max_node_id_len_def is_ascii_alphanumeric_def ir_node_def sample_simps)
  moreover have "validate_condition_expressions null_parser dangling_ir = Inr ()"
    by (simp add: validate_condition_expressions_def dangling_ir_def sample_simps)
  ultimately show ?thesis by (simp add: validate_workflow_def)
qed

text \<open>That edges come from a node is needed, and nothing checks it: this workflow passes the validator, and once its start node
  has completed the scheduler marks the run completed although its other node neither ran nor was skipped.\<close>

theorem unknown_source_completes_early:
  "validate_workflow null_parser dangling_ir = Inr () \<and> acyclic (graph_edges dangling_ir) \<and>
   status_of (fst (fst (advance_run sample_env 0 ''x'' dangling_ir ''wf'' ''1'' (ran [''s'']) (started, sch)))) ''x'' = Some WfCompleted \<and>
   ''n'' \<notin> ep_completed (snd (skip_cascade sample_env 0 ''x'' dangling_ir (max_passes dangling_ir) (started, ran [''s''])))"
proof (intro conjI)
  show "validate_workflow null_parser dangling_ir = Inr ()" by (rule dangling_ir_valid)
  have "graph_edges dangling_ir \<subseteq> measure (\<lambda>n. if n = ''n'' then 1 else 0)" by (auto simp: graph_edges_def dangling_ir_def)
  then show "acyclic (graph_edges dangling_ir)" using acyclic_subset wf_acyclic [OF wf_measure] by blast
  have n: "newly_skippable dangling_ir (ran [''s'']) = []" "dispatchable dangling_ir (ran [''s'']) = []"
    by (simp_all add: ran_def progress_default_def newly_skippable_def skippable_def dispatchable_def is_runnable_def edges_into_def
        edge_dead_def ir_node_def dangling_ir_def plain_node_def)
  show "status_of (fst (fst (advance_run sample_env 0 ''x'' dangling_ir ''wf'' ''1'' (ran [''s'']) (started, sch)))) ''x'' = Some WfCompleted"
    by (rule advance_run_plain [OF _ _ n _ started_running]) (simp_all add: ran_def progress_default_def)
  show "''n'' \<notin> ep_completed (snd (skip_cascade sample_env 0 ''x'' dangling_ir (max_passes dangling_ir) (started, ran [''s''])))"
    using n(1) by (simp_all add: max_passes_def ran_def)
qed

theorem concurrent_event_never_folded_witness:
  "\<exists>ev' \<in> set (get_events ''x'' (fst (emit_skip sample_env 0 ''x'' ''c'' (fst (append_event (sample_event 0 (sample_completed ''b'' JNull)) one_event), progress_default)))).
     ev_kind ev' = sample_completed ''b'' JNull \<and> ev_sequence ev' = mb_next_sequence one_event"
proof -
  have "ev_execution_id (sample_event 0 (sample_completed ''b'' JNull)) = ''x''" by (simp add: sample_event_def event_new_def)
  moreover have "mb_next_sequence one_event < 2 ^ 62"
    by (simp add: one_event_def append_event_def push_event_def Let_def backend_new_def wrap_i64_def)
  ultimately show ?thesis
    using concurrent_event_never_folded [OF reachable_log_ok [OF one_event_trace [of sample_externals "\<lambda>_. ''e''"]] _ _ surjective_pairing trace_nil,
        of "sample_event 0 (sample_completed ''b'' JNull)" "''x''" sample_env 0 "''c''" progress_default]
    by (auto simp: sample_event_def event_new_def)
qed

end
