(* ===== verification/Run_State.thy ===== *)
theory Run_State
  imports Scheduling
begin

text \<open>
  Two readers of one log: the state the scheduler accumulates for the payloads it dispatches and for the
  \<^verbatim>\<open>WorkflowCompleted\<close> event (\<^verbatim>\<open>ExecProgress::final_state\<close>), and the state the materializer persists.  They
  agree on logs of flat patches.  They part where the materializer merges and the scheduler overwrites,
  and on the patches of approvers, which the scheduler does not read: completing the run replaces the
  materialized state by the scheduler's, so such a patch is lost.
\<close>

section \<open>Where the two agree\<close>

definition is_object :: "json \<Rightarrow> bool" where
  "is_object v = (case v of JObject _ \<Rightarrow> True | _ \<Rightarrow> False)"

text \<open>A patch whose merge is a plain overwrite of members.\<close>

definition flat_patch :: "json \<Rightarrow> bool" where
  "flat_patch p =
     (case p of
        JNull \<Rightarrow> True
      | JObject m \<Rightarrow> list_all (\<lambda>(k, v). \<not> is_null v \<and> \<not> is_object v) m
      | _ \<Rightarrow> False)"

definition flat_event :: "event \<Rightarrow> bool" where
  "flat_event ev =
     (case ev_kind ev of
        NodeCompleted nc \<Rightarrow> flat_patch (nc_state_patch nc)
      | ApprovalReceived ar \<Rightarrow> ar_state_patch ar = None
      | WorkflowStarted _ _ _ _ \<Rightarrow> False
      | WorkflowCompleted _ \<Rightarrow> False
      | _ \<Rightarrow> True)"

lemma merge_flat_member: "\<not> is_null v \<Longrightarrow> \<not> is_object v \<Longrightarrow> json_merge_patch t v = v"
  by (cases v) (simp_all add: is_object_def is_null_def merge_patch_other)

lemma merge_flat_members: "list_all (\<lambda>(k, v). \<not> is_null v \<and> \<not> is_object v) m \<Longrightarrow> merge_members t m = insert_members m t"
  by (induction m arbitrary: t) (auto simp: insert_members_def merge_flat_member)

lemma merge_flat:
  "flat_patch p \<Longrightarrow> json_merge_patch (JObject t) p = JObject (case p of JObject m \<Rightarrow> insert_members m t | _ \<Rightarrow> t)"
  by (cases p) (simp_all add: flat_patch_def merge_flat_members merge_patch_other)

lemma final_state_kind:
  "ep_final_state (progress_kind x seq k p) =
     (case k of
        NodeCompleted nc \<Rightarrow> (case nc_state_patch nc of JObject m \<Rightarrow> insert_members m (ep_final_state p) | _ \<Rightarrow> ep_final_state p)
      | WorkflowStarted _ _ (JObject m) _ \<Rightarrow> insert_members m (ep_final_state p)
      | _ \<Rightarrow> ep_final_state p)"
  by (cases k) (simp_all add: progress_kind_def mark_scheduled_def Let_def split: json.split approval_decision.split)

lemma state_kind:
  "ms_current_state (apply_kind k ms) =
     (case k of
        NodeCompleted nc \<Rightarrow> json_merge_patch (ms_current_state ms) (nc_state_patch nc)
      | WorkflowCompleted v \<Rightarrow> v
      | ApprovalReceived ar \<Rightarrow>
          (case ar_state_patch ar of Some patch \<Rightarrow> json_merge_patch (ms_current_state ms) patch | None \<Rightarrow> ms_current_state ms)
      | _ \<Rightarrow> ms_current_state ms)"
  by (cases k) (simp_all add: apply_kind_def split: option.split)

lemma flat_step:
  assumes "flat_event ev" "ms_current_state ms = JObject (ep_final_state p)"
  shows "ms_current_state (apply_event ev ms) = JObject (ep_final_state (progress_apply x ev p))"
proof (cases "ev_kind ev")
  case (NodeCompleted nc)
  then show ?thesis using assms merge_flat
    by (auto simp: flat_event_def apply_event_def progress_apply_def state_kind final_state_kind
        split: json.split)
qed (use assms in \<open>simp_all add: flat_event_def apply_event_def progress_apply_def state_kind final_state_kind\<close>)

lemma flat_fold:
  "\<forall>ev \<in> set es. flat_event ev \<Longrightarrow> ms_current_state ms = JObject (ep_final_state p) \<Longrightarrow>
   ms_current_state (fold apply_event es ms) = JObject (ep_final_state (fold (progress_apply x) es p))"
proof (induction es arbitrary: ms p)
  case (Cons ev es)
  then show ?case using flat_step [of ev ms p x] by simp
qed simp

lemma insert_members_get:
  "bt_get (insert_members m t) k = (case map_of (rev m) k of Some v \<Rightarrow> Some v | None \<Rightarrow> bt_get t k)"
  by (induction m arbitrary: t) (auto simp: insert_members_def bt_get_insert map_add_def split: option.split)

lemma insert_members_ordered: "bt_ordered t \<Longrightarrow> bt_ordered (insert_members m t)"
  by (induction m arbitrary: t) (auto simp: insert_members_def)

lemma insert_members_self:
  assumes "bt_ordered m"
  shows "insert_members m [] = m"
proof (rule bt_ext)
  fix k
  have d: "distinct (map fst m)" using assms by (metis bt_ordered_def strict_sorted_iff)
  have "map_of (rev m) = map_of m" using d by (intro map_of_inject_set [THEN iffD2]) (auto simp: rev_map [symmetric])
  moreover have "map_of m k = bt_get m k" by (induction m) auto
  ultimately show "bt_get (insert_members m []) k = bt_get m k" by (simp add: insert_members_get split: option.split)
qed (simp_all add: assms insert_members_ordered)

text \<open>C38: on a log whose first event starts the run with an object as its input, the input of the run, and
  after it neither starts the run again nor completes it, whose approvers patch nothing, and whose nodes patch with
  null or with objects of which no member is null or an object, the state the scheduler dispatches with is the
  state the materializer persists.\<close>

theorem dispatched_state_is_materialized:
  assumes "ev_kind start = WorkflowStarted w v (JObject input) by_whom" and "bt_ordered input" and "\<forall>ev \<in> set rest. flat_event ev"
  shows "ms_current_state (apply_events (JObject input) (start # rest)) =
    JObject (ep_final_state (fold (progress_apply x) (start # rest) progress_default))"
proof -
  have "ms_current_state (apply_event start (origin_state (JObject input))) = JObject (ep_final_state (progress_apply x start progress_default))"
    using assms(1) insert_members_self [OF assms(2)]
    by (simp add: apply_event_def progress_apply_def state_kind final_state_kind origin_state_def progress_default_def)
  from flat_fold [OF assms(3) this] show ?thesis by (simp add: apply_events_def apply_events_seeded_def)
qed

theorem dispatched_state_is_materialized_witness:
  "ms_current_state (apply_events (JObject [(''q'', JBool True)])
     [sample_event 1 (WorkflowStarted ''w'' ''1'' (JObject [(''q'', JBool True)]) None), sample_event 2 (sample_completed ''a'' (JObject [(''r'', JBool False)]))]) =
   JObject (ep_final_state (fold (progress_apply sample_externals)
     [sample_event 1 (WorkflowStarted ''w'' ''1'' (JObject [(''q'', JBool True)]) None), sample_event 2 (sample_completed ''a'' (JObject [(''r'', JBool False)]))]
     progress_default))"
  using dispatched_state_is_materialized [of "sample_event 1 (WorkflowStarted ''w'' ''1'' (JObject [(''q'', JBool True)]) None)"
      "''w''" "''1''" "[(''q'', JBool True)]" None "[sample_event 2 (sample_completed ''a'' (JObject [(''r'', JBool False)]))]" sample_externals]
  by (simp add: sample_event_def event_new_def sample_completed_def flat_event_def flat_patch_def is_object_def is_null_def)

section \<open>Where they part\<close>

text \<open>The event without what its approver patched.\<close>

definition without_patch :: "event \<Rightarrow> event" where
  "without_patch ev =
     (case ev_kind ev of
        ApprovalReceived ar \<Rightarrow> ev\<lparr>ev_kind := ApprovalReceived (ar\<lparr>ar_state_patch := None\<rparr>)\<rparr>
      | _ \<Rightarrow> ev)"

lemma progress_without_patch: "progress_apply x (without_patch ev) p = progress_apply x ev p"
  by (cases "ev_kind ev") (simp_all add: without_patch_def progress_apply_def progress_kind_def Let_def split: approval_decision.split)

lemma fold_without_patch: "fold (progress_apply x) (map without_patch es) p = fold (progress_apply x) es p"
  by (induction es arbitrary: p) (simp_all add: progress_without_patch)

text \<open>completing a run drops what its approvers patched: the state the run ends in, once the scheduler's
  terminal event is folded, is the one of the same log with every approver's patch taken out.\<close>

theorem completion_drops_approver_patch:
  assumes "ep_terminal_failed (fold (progress_apply x) es progress_default) = {}"
    and "ev_kind finish = snd (terminal_outcome (fold (progress_apply x) es progress_default))"
  shows "ms_current_state (apply_events input (es @ [finish])) =
    JObject (ep_final_state (fold (progress_apply x) (map without_patch es) progress_default))"
  using assms by (simp add: apply_events_def apply_events_seeded_def apply_event_def state_kind terminal_outcome_def fold_without_patch)

definition patched_log :: "event list" where
  "patched_log = [sample_request 1, sample_event 2 (ApprovalReceived
     \<lparr>ar_node_id = ''pay'', ar_user_id = ''ann'', ar_decision = Approved, ar_comment = None,
      ar_state_patch = Some (JObject [(''limit'', JBool True)]), ar_principal = None, ar_approved_digest = None,
      ar_request_sequence = Some 1\<rparr>)]"

theorem completion_drops_approver_patch_witness:
  "ms_current_state (apply_events (JObject []) patched_log) = JObject [(''limit'', JBool True)] \<and>
   ms_current_state (apply_events (JObject []) (patched_log @ [sample_event 3 (WorkflowCompleted (JObject []))])) = JObject []"
proof -
  note defs = patched_log_def sample_request_def sample_event_def event_new_def progress_apply_def progress_kind_def
    progress_default_def json_object_def Let_def
  have p: "ep_terminal_failed (fold (progress_apply sample_externals) patched_log progress_default) = {}"
    "ep_final_state (fold (progress_apply sample_externals) patched_log progress_default) = []" by (simp_all add: defs)
  have "ms_current_state (apply_events (JObject []) patched_log) = JObject [(''limit'', JBool True)]"
    by (simp add: patched_log_def sample_request_def sample_event_def event_new_def apply_events_def apply_events_seeded_def
        apply_event_def state_kind origin_state_def is_null_def merge_patch_other)
  moreover have "ev_kind (sample_event 3 (WorkflowCompleted (JObject []))) =
      snd (terminal_outcome (fold (progress_apply sample_externals) patched_log progress_default))"
    using p by (simp add: terminal_outcome_def sample_event_def event_new_def)
  ultimately show ?thesis
    using completion_drops_approver_patch [OF p(1), of "sample_event 3 (WorkflowCompleted (JObject []))" "JObject []"] p(2)
    by (simp add: fold_without_patch)
qed

end
