(* ===== verification/Projector.thy ===== *)
theory Projector
  imports Backend_Log
begin

text \<open>
  The approval projector (\<^verbatim>\<open>runtime/scheduler/src/projector.rs\<close>): a read model of the approvals of every
  running execution, kept as rows in the store next to a checkpoint.  Its specification is
  \<open>node_approval_status\<close>: read through \<open>row_status\<close>, the rows after a pass are the status of every node in the log the pass read.  The
  calls of the backend a pass makes are steps of their own: what the others do between them is an argument.
  The contract a read model rests on is the locale \<open>projection_fold\<close>; the pages of a tick cover every
  running execution once.  The order in which a \<^verbatim>\<open>DashMap\<close> is iterated is an argument.
\<close>

section \<open>One pass over one execution\<close>

type_synonym node_rows = "string \<rightharpoonup> approval_projection_row"

definition pending_row :: "execution_id \<Rightarrow> node_id \<Rightarrow> string \<Rightarrow> string \<Rightarrow> json \<Rightarrow> event_sequence \<Rightarrow> approval_projection_row" where
  "pending_row e n tool approver ctx seq =
     \<lparr>pr_execution_id = e, pr_node_id = n, pr_status = ''pending'', pr_user_id = None, pr_comment = None,
      pr_last_sequence = seq, pr_tool_name = Some tool, pr_approver = Some approver, pr_context = Some ctx\<rparr>"

definition decided_row :: "execution_id \<Rightarrow> approval_received \<Rightarrow> event_sequence \<Rightarrow> approval_projection_row" where
  "decided_row e ar seq =
     \<lparr>pr_execution_id = e, pr_node_id = ar_node_id ar,
      pr_status = (case ar_decision ar of Approved \<Rightarrow> ''approved'' | Rejected \<Rightarrow> ''rejected''),
      pr_user_id = Some (ar_user_id ar), pr_comment = ar_comment ar, pr_last_sequence = seq,
      pr_tool_name = None, pr_approver = None,
      pr_context = map_option (\<lambda>d. json_object [(''approved_digest'', JString d)]) (ar_approved_digest ar)\<rparr>"

definition expired_row :: "externals \<Rightarrow> execution_id \<Rightarrow> node_id \<Rightarrow> timestamp \<Rightarrow> string \<Rightarrow> event_sequence \<Rightarrow> approval_projection_row" where
  "expired_row x e n expires_at who seq =
     \<lparr>pr_execution_id = e, pr_node_id = n, pr_status = ''rejected'', pr_user_id = Some who,
      pr_comment = Some (expiry_comment x expires_at), pr_last_sequence = seq, pr_tool_name = None,
      pr_approver = None, pr_context = None\<rparr>"

text \<open>The body of the loop: the rows and the nodes touched so far.\<close>

definition project_event :: "externals \<Rightarrow> execution_id \<Rightarrow> event \<Rightarrow> node_rows \<times> node_id list \<Rightarrow> node_rows \<times> node_id list" where
  "project_event x e event acc =
     (case acc of (node_map, touched) \<Rightarrow>
       (case ev_kind event of
          ToolApprovalRequired n tool approver ctx \<Rightarrow>
            (node_map(n \<mapsto> pending_row e n tool approver ctx (ev_sequence event)), List.insert n touched)
        | ApprovalReceived ar \<Rightarrow>
            (let n = ar_node_id ar;
                 currently_pending = (case node_map n of Some r \<Rightarrow> pr_status r = ''pending'' | None \<Rightarrow> False)
             in if currently_pending then (node_map(n \<mapsto> decided_row e ar (ev_sequence event)), List.insert n touched)
                else acc)
        | ApprovalExpired n request_sequence expires_at who \<Rightarrow>
            (let pending_on_it =
                   (case node_map n of
                      Some r \<Rightarrow> pr_status r = ''pending'' \<and> pr_last_sequence r = request_sequence
                    | None \<Rightarrow> False)
             in if pending_on_it
                then (node_map(n \<mapsto> expired_row x e n expires_at who (ev_sequence event)), List.insert n touched)
                else acc)
        | _ \<Rightarrow> acc))"

definition node_map_of :: "approval_projection_row list \<Rightarrow> node_rows" where
  "node_map_of existing = fold (\<lambda>r m. m(pr_node_id r \<mapsto> r)) existing Map.empty"

text \<open>The calls of the backend are separate: \<open>others n\<close> is what the other components do after the n-th of them.\<close>

definition project_execution ::
    "externals \<Rightarrow> (execution_id \<times> string) list \<Rightarrow> (nat \<Rightarrow> in_memory_backend \<Rightarrow> in_memory_backend) \<Rightarrow> execution_id \<Rightarrow> in_memory_backend \<Rightarrow>
     in_memory_backend \<times> nat" where
  "project_execution x ids others e s =
     (let cp = get_projector_checkpoint ''approvals'' e s;
          s = others 0 s;
          events = sort_key ev_sequence (get_events_since e cp s);
          s = others 1 s
      in if events = [] then (s, 0)
         else
           (let batch_max = Max (set (map ev_sequence events));
                existing = get_approval_projection ids e s;
                s = others 2 s;
                (node_map, touched) = fold (project_event x e) events (node_map_of existing, []);
                rows_to_write = filter_map node_map touched
            in if rows_to_write \<noteq> []
               then (apply_approval_projection_batch rows_to_write ''approvals'' e batch_max s, length rows_to_write)
               else (set_projector_checkpoint ''approvals'' e batch_max s, 0)))"

section \<open>A tick\<close>

definition page_size :: nat where "page_size = 100"

type_synonym interference = "execution_id \<Rightarrow> nat \<Rightarrow> in_memory_backend \<Rightarrow> in_memory_backend"

definition project_all ::
    "externals \<Rightarrow> (execution_id \<times> string) list \<Rightarrow> interference \<Rightarrow> workflow_execution list \<Rightarrow> in_memory_backend \<times> nat \<Rightarrow> in_memory_backend \<times> nat" where
  "project_all x ids others page st =
     fold (\<lambda>ex (s, sum). let e = we_execution_id ex; (s, n) = project_execution x ids (others e) e s in (others e 3 s, sum + n)) page st"

text \<open>The loop over the pages, with one unit of fuel a page; the offset is a \<^verbatim>\<open>u32\<close>.\<close>

fun tick_loop ::
    "externals \<Rightarrow> (execution_id \<times> string) list \<Rightarrow> interference \<Rightarrow> execution_id list \<Rightarrow> nat \<Rightarrow> nat \<Rightarrow> in_memory_backend \<times> nat \<Rightarrow>
     (in_memory_backend \<times> nat) option" where
  "tick_loop x ids others order 0 offset st = None"
| "tick_loop x ids others order (Suc fuel) offset st =
     (let page = list_executions order (Some WfRunning) page_size offset (fst st);
          st = project_all x ids others page st
      in if length page < page_size then Some st
         else tick_loop x ids others order fuel (wrap_u32 (offset + length page)) st)"

definition projector_tick ::
    "externals \<Rightarrow> (execution_id \<times> string) list \<Rightarrow> interference \<Rightarrow> execution_id list \<Rightarrow> nat \<Rightarrow> in_memory_backend \<Rightarrow> (in_memory_backend \<times> nat) option" where
  "projector_tick x ids others order fuel s = tick_loop x ids others order fuel 0 (s, 0)"

section \<open>Read models kept by a checkpoint\<close>

text \<open>The contract: one step of the read model simulates one step of what it projects, under an
  abstraction of its rows, for the events it is used on.\<close>

locale projection_fold =
  fixes step :: "'e \<Rightarrow> 'r \<Rightarrow> 'r"
    and spec :: "'e \<Rightarrow> 'a \<Rightarrow> 'a"
    and view :: "'r \<Rightarrow> 'a"
    and allowed :: "'e \<Rightarrow> bool"
    and rows_ok :: "'r \<Rightarrow> bool"
  assumes simulates: "allowed e \<Longrightarrow> rows_ok r \<Longrightarrow> view (step e r) = spec e (view r)"
    and keeps_ok: "rows_ok r \<Longrightarrow> rows_ok (step e r)"
begin

lemma fold_simulates: "\<forall>e \<in> set es. allowed e \<Longrightarrow> rows_ok r \<Longrightarrow> view (fold step es r) = fold spec es (view r)"
  by (induction es arbitrary: r) (simp_all add: simulates keeps_ok)

lemma fold_keeps_ok: "rows_ok r \<Longrightarrow> rows_ok (fold step es r)"
  by (induction es arbitrary: r) (simp_all add: keeps_ok)

text \<open>Projecting a log in two batches, cut at a checkpoint, is projecting it at once.\<close>

lemma batches:
  "sorted_wrt (\<lambda>a b. (q a :: int) < q b) es \<Longrightarrow>
   fold step (filter (\<lambda>e. q e > c) es) (fold step (filter (\<lambda>e. q e \<le> c) es) r) = fold step es r"
proof -
  assume s: "sorted_wrt (\<lambda>a b. (q a :: int) < q b) es"
  have "filter (\<lambda>e. q e \<le> c) es @ filter (\<lambda>e. q e > c) es = es"
    using s
  proof (induction es)
    case (Cons a es)
    then have "filter (\<lambda>e. q e \<le> c) es = []" if "c < q a" using that by (fastforce simp: filter_empty_conv)
    then show ?case using Cons by auto
  qed simp
  then show ?thesis by (metis comp_apply fold_append)
qed

end

section \<open>Rows and statuses\<close>

text \<open>The status a row stands for.\<close>

definition row_status :: "externals \<Rightarrow> approval_projection_row option \<Rightarrow> node_approval_status" where
  "row_status x row =
     (case row of
        None \<Rightarrow> NotRequested
      | Some r \<Rightarrow>
          if pr_status r = ''pending''
          then Pending (from_request x (pr_node_id r) (the (pr_tool_name r)) (the (pr_approver r)) (the (pr_context r)) (pr_last_sequence r))
          else if pr_status r = ''approved''
          then NodeApproved (the (pr_user_id r)) (pr_last_sequence r)
                 (Option.bind (Option.bind (pr_context r) (\<lambda>v. json_get v ''approved_digest'')) as_str)
          else NodeRejected (the (pr_user_id r)) (pr_comment r) (pr_last_sequence r))"

text \<open>The projector repeats the principal an expiry names, the status fold the deadline principal; the
  sweep writes no other.\<close>

definition deadline_stamped :: "event \<Rightarrow> bool" where
  "deadline_stamped ev = (case ev_kind ev of ApprovalExpired _ _ _ who \<Rightarrow> who = deadline_principal | _ \<Rightarrow> True)"

definition rows_keyed :: "execution_id \<Rightarrow> node_rows \<Rightarrow> bool" where
  "rows_keyed e m = (\<forall>n r. m n = Some r \<longrightarrow> pr_node_id r = n \<and> pr_execution_id r = e)"

definition row_view :: "externals \<Rightarrow> node_rows \<Rightarrow> node_id \<Rightarrow> node_approval_status" where
  "row_view x m n = row_status x (m n)"

definition project_row :: "externals \<Rightarrow> execution_id \<Rightarrow> event \<Rightarrow> node_rows \<Rightarrow> node_rows" where
  "project_row x e ev m = fst (project_event x e ev (m, []))"

lemma project_event_fst [simp]: "fst (project_event x e ev (m, touched)) = project_row x e ev m"
  by (cases "ev_kind ev") (auto simp: project_event_def project_row_def Let_def split: option.split)

lemma row_status_rows [simp]:
  "row_status x None = NotRequested"
  "row_status x (Some (pending_row e n tool approver ctx seq)) = Pending (from_request x n tool approver ctx seq)"
  "row_status x (Some (expired_row x e n t who seq)) = NodeRejected who (Some (expiry_comment x t)) seq"
  "row_status x (Some (decided_row e ar seq)) =
     (case ar_decision ar of
        Approved \<Rightarrow> NodeApproved (ar_user_id ar) seq (ar_approved_digest ar)
      | Rejected \<Rightarrow> NodeRejected (ar_user_id ar) (ar_comment ar) seq)"
  by (cases "ar_approved_digest ar"; simp add: row_status_def pending_row_def expired_row_def decided_row_def json_object_def
      split: approval_decision.split)+

lemma row_case:
  "(case row_status x row of Pending p \<Rightarrow> f p | _ \<Rightarrow> row_status x row) =
     (case row of
        Some r \<Rightarrow>
          if pr_status r = ''pending''
          then f (from_request x (pr_node_id r) (the (pr_tool_name r)) (the (pr_approver r)) (the (pr_context r)) (pr_last_sequence r))
          else row_status x row
      | None \<Rightarrow> NotRequested)"
  by (auto simp: row_status_def split: option.split)

lemma from_request_sequence [simp]: "pa_sequence (from_request x n tool approver ctx seq) = seq"
  by (simp add: from_request_def Let_def)

lemma project_row_status:
  assumes "deadline_stamped ev"
  shows "row_view x (project_row x e ev m) = (\<lambda>n. status_step x n ev (row_view x m n))"
proof
  fix n
  show "row_view x (project_row x e ev m) n = status_step x n ev (row_view x m n)"
  proof (cases "ev_kind ev")
    case (ToolApprovalRequired k tool approver ctx)
    then show ?thesis by (simp add: row_view_def project_row_def project_event_def status_step_def)
  next
    case (ApprovalReceived ar)
    then show ?thesis
      by (auto simp: row_view_def project_row_def project_event_def status_step_def Let_def row_case
          split: option.split approval_decision.split)
  next
    case (ApprovalExpired k r t who)
    then have "who = deadline_principal" using assms by (simp add: deadline_stamped_def)
    then show ?thesis using ApprovalExpired
      by (auto simp: row_view_def project_row_def project_event_def status_step_def Let_def row_case
          split: option.split)
  qed (simp_all add: row_view_def project_row_def project_event_def status_step_def)
qed

lemma project_row_keyed: "rows_keyed e m \<Longrightarrow> rows_keyed e (project_row x e ev m)"
  by (cases "ev_kind ev")
    (auto simp: rows_keyed_def project_row_def project_event_def pending_row_def decided_row_def expired_row_def Let_def
      split: option.split)

interpretation rows: projection_fold "project_row x e" "\<lambda>ev st n. status_step x n ev (st n)" "row_view x" deadline_stamped "rows_keyed e"
  by unfold_locales (simp_all add: project_row_status project_row_keyed)

section \<open>A pass brings the rows up to date\<close>

lemma fold_project_fst: "fst (fold (project_event x e) es (m, touched)) = fold (project_row x e) es m"
proof (induction es arbitrary: m touched)
  case (Cons ev es)
  obtain m' t' where "project_event x e ev (m, touched) = (m', t')" by (cases "project_event x e ev (m, touched)")
  moreover from this have "m' = project_row x e ev m" using project_event_fst [of x e ev m touched] by simp
  ultimately show ?case using Cons by simp
qed simp

text \<open>Only touched nodes change, and a touched node has a row.\<close>

lemma project_event_touched:
  assumes "project_event x e ev (m, touched) = (m', touched')"
  shows "distinct touched \<Longrightarrow> distinct touched'" and "set touched \<subseteq> set touched'"
    and "n \<notin> set touched' \<Longrightarrow> m' n = m n" and "\<forall>k \<in> set touched. m k \<noteq> None \<Longrightarrow> \<forall>k \<in> set touched'. m' k \<noteq> None"
  using assms by (cases "ev_kind ev"; auto simp: project_event_def Let_def distinct_insert split: if_splits)+

lemma fold_project_touched:
  "fold (project_event x e) es (m, touched) = (m', touched') \<Longrightarrow> distinct touched \<Longrightarrow> \<forall>k \<in> set touched. m k \<noteq> None \<Longrightarrow>
   distinct touched' \<and> set touched \<subseteq> set touched' \<and> (\<forall>n. n \<notin> set touched' \<longrightarrow> m' n = m n) \<and> (\<forall>k \<in> set touched'. m' k \<noteq> None)"
proof (induction es arbitrary: m touched)
  case (Cons ev es)
  obtain m1 t1 where 1: "project_event x e ev (m, touched) = (m1, t1)" by (cases "project_event x e ev (m, touched)")
  note t = project_event_touched [OF 1]
  have "distinct t1" "\<forall>k \<in> set t1. m1 k \<noteq> None" using t Cons.prems by auto
  then show ?case using Cons.IH [of m1 t1] Cons.prems(1) 1 t(2,3) by fastforce
qed simp

lemma filter_map_Cons: "filter_map f (y # ys) = (case f y of Some z \<Rightarrow> z # filter_map f ys | None \<Rightarrow> filter_map f ys)"
  by (simp add: filter_map_def split: option.split)

lemma fold_put_row:
  "mb_proj_approvals (fold put_row rows s) = fold (\<lambda>r m. m((pr_execution_id r, pr_node_id r) \<mapsto> r)) rows (mb_proj_approvals s)"
  by (induction rows arbitrary: s) (simp_all add: put_row_def)

lemma fold_upd_rows:
  assumes "rows_keyed e m" "distinct touched" "\<forall>k \<in> set touched. m k \<noteq> None"
  shows "fold (\<lambda>r f. f((pr_execution_id r, pr_node_id r) \<mapsto> r)) (filter_map m touched) f (e', n) =
    (if e' = e \<and> n \<in> set touched then m n else f (e', n))"
  using assms(2,3)
proof (induction touched arbitrary: f)
  case (Cons k touched)
  then obtain r where r: "m k = Some r" "pr_node_id r = k" "pr_execution_id r = e" using assms(1) by (fastforce simp: rows_keyed_def)
  show ?case using Cons r by (auto simp: filter_map_Cons)
qed (simp add: filter_map_def)

definition rows_of :: "externals \<Rightarrow> execution_id \<Rightarrow> event list \<Rightarrow> node_rows" where
  "rows_of x e es = fold (project_row x e) es Map.empty"

abbreviation checkpoint :: "execution_id \<Rightarrow> in_memory_backend \<Rightarrow> int" where
  "checkpoint e s \<equiv> get_projector_checkpoint ''approvals'' e s"

abbreviation stored_rows :: "execution_id \<Rightarrow> in_memory_backend \<Rightarrow> node_rows" where
  "stored_rows e s \<equiv> \<lambda>n. mb_proj_approvals s (e, n)"

text \<open>The invariant: the rows of a run are the projection of its log up to the checkpoint.\<close>

definition projected_upto_checkpoint :: "externals \<Rightarrow> execution_id \<Rightarrow> in_memory_backend \<Rightarrow> bool" where
  "projected_upto_checkpoint x e s =
     (stored_rows e s = rows_of x e (filter (\<lambda>ev. ev_sequence ev \<le> checkpoint e s) (log_of s e)) \<and> checkpoint e s < mb_next_sequence s)"

definition covers_rows :: "(execution_id \<times> string) list \<Rightarrow> execution_id \<Rightarrow> in_memory_backend \<Rightarrow> bool" where
  "covers_rows ids e s = (\<forall>n. mb_proj_approvals s (e, n) \<noteq> None \<longrightarrow> (e, n) \<in> set ids)"

lemma rows_of_keyed: "rows_keyed e (rows_of x e es)"
  unfolding rows_of_def by (rule rows.fold_keeps_ok) (simp add: rows_keyed_def)

lemma node_map_of_rows:
  assumes "\<forall>r \<in> set rows. m (pr_node_id r) = Some r"
  shows "node_map_of rows n = (if n \<in> pr_node_id ` set rows then m n else None)"
proof -
  have "fold (\<lambda>r f. f(pr_node_id r \<mapsto> r)) rows f n = (if n \<in> pr_node_id ` set rows then m n else f n)" for f
    using assms by (induction rows arbitrary: f) auto
  then show ?thesis by (simp add: node_map_of_def)
qed

lemma stored_node_map:
  assumes "rows_keyed e (stored_rows e s)" "covers_rows ids e s"
  shows "node_map_of (get_approval_projection ids e s) = stored_rows e s"
proof
  fix n
  let ?rows = "get_approval_projection ids e s"
  have rows: "set ?rows = {r. \<exists>k. (e, k) \<in> set ids \<and> mb_proj_approvals s (e, k) = Some r}"
    by (force simp: get_approval_projection_def split: if_splits)
  have "node_map_of ?rows n = (if n \<in> pr_node_id ` set ?rows then stored_rows e s n else None)"
    using assms(1) rows by (intro node_map_of_rows) (auto simp: rows_keyed_def)
  moreover have "n \<in> pr_node_id ` set ?rows \<longleftrightarrow> stored_rows e s n \<noteq> None"
    using assms unfolding rows by (force simp: rows_keyed_def covers_rows_def)
  ultimately show "node_map_of ?rows n = stored_rows e s n" by auto
qed

lemma log_ok_sorted: "log_ok s \<Longrightarrow> sorted_wrt (\<lambda>a b. ev_sequence a < ev_sequence b) (log_of s e)"
  by (simp add: well_sequenced_def sorted_wrt_map)

lemma events_since_sorted:
  assumes "log_ok s"
  shows "sort_key ev_sequence (get_events_since e c s) = filter (\<lambda>ev. ev_sequence ev > c) (log_of s e)"
proof -
  have "sorted_wrt (\<lambda>a b. ev_sequence a < ev_sequence b) (filter (\<lambda>ev. ev_sequence ev > c) (log_of s e))"
    by (rule sorted_wrt_filter [OF log_ok_sorted [OF assms]])
  then have "sorted (map ev_sequence (filter (\<lambda>ev. ev_sequence ev > c) (log_of s e)))"
    by (metis sorted_wrt_map strict_sorted_imp_sorted)
  then have s: "sort_key ev_sequence (filter (\<lambda>ev. ev_sequence ev > c) (log_of s e)) = filter (\<lambda>ev. ev_sequence ev > c) (log_of s e)"
    by (rule sort_key_id_if_sorted)
  show ?thesis using s by (simp add: get_events_since_def)
qed

lemma mb_put_rows [simp]: "log_of (fold put_row rows s) = log_of s" "mb_next_sequence (fold put_row rows s) = mb_next_sequence s"
  "mb_projector_checkpoints (fold put_row rows s) = mb_projector_checkpoints s" "mb_executions (fold put_row rows s) = mb_executions s"
  by (induction rows arbitrary: s) (simp_all add: put_row_def log_of_def [abs_def])

text \<open>What a pass changes beside what the others do, for a batch that is not empty: \<open>v\<close> is the state whose log it reads, \<open>w\<close> the one whose
  rows, and \<open>u\<close> the one it writes to.\<close>

lemma project_execution_rows:
  assumes "rows_keyed e (stored_rows e w)" "covers_rows ids e w" "log_ok v"
    and "filter (\<lambda>ev. ev_sequence ev > checkpoint e s) (log_of v e) = batch" "batch \<noteq> []"
    and "fst (project_execution x ids others e s) = s'" and "others 0 s = v" "others 1 v = w" "others 2 w = u"
    and "mb_proj_approvals u = mb_proj_approvals w"
  shows "stored_rows e s' = fold (project_row x e) batch (stored_rows e w)"
    and "checkpoint e s' = Max (set (map ev_sequence batch))" and "e' \<noteq> e \<Longrightarrow> stored_rows e' s' = stored_rows e' u"
    and "e' \<noteq> e \<Longrightarrow> checkpoint e' s' = checkpoint e' u" and "log_part s' = log_part u"
proof -
  obtain m touched where f: "fold (project_event x e) batch (stored_rows e w, []) = (m, touched)"
    by (cases "fold (project_event x e) batch (stored_rows e w, [])")
  have m: "m = fold (project_row x e) batch (stored_rows e w)" using fold_project_fst [of x e batch "stored_rows e w" "[]"] f by simp
  have t: "distinct touched" "\<forall>n. n \<notin> set touched \<longrightarrow> m n = stored_rows e w n" "\<forall>k \<in> set touched. m k \<noteq> None"
    using fold_project_touched [OF f] by auto
  have keyed: "rows_keyed e m" unfolding m by (rule rows.fold_keeps_ok [OF assms(1)])
  have s': "s' = set_projector_checkpoint ''approvals'' e (Max (set (map ev_sequence batch))) (fold put_row (filter_map m touched) u)"
    using assms(5,6) f
    unfolding project_execution_def Let_def assms(7-9) events_since_sorted [OF assms(3)] stored_node_map [OF assms(1,2)] assms(4)
    by (auto simp: apply_approval_projection_batch_def split: if_splits)
  have rows: "mb_proj_approvals s' (e', n) = (if e' = e \<and> n \<in> set touched then m n else mb_proj_approvals w (e', n))" for e' n
    unfolding s' using fold_upd_rows [OF keyed t(1,3)] by (simp add: set_projector_checkpoint_def fold_put_row assms(10))
  show "stored_rows e s' = fold (project_row x e) batch (stored_rows e w)" using rows t(2) by (auto simp: fun_eq_iff m)
  show "e' \<noteq> e \<Longrightarrow> stored_rows e' s' = stored_rows e' u" by (simp add: rows assms(10))
  show "checkpoint e s' = Max (set (map ev_sequence batch))" "e' \<noteq> e \<Longrightarrow> checkpoint e' s' = checkpoint e' u" "log_part s' = log_part u"
    by (simp_all add: s' set_projector_checkpoint_def get_projector_checkpoint_def log_part_def log_of_def [abs_def] mb_put_rows [unfolded log_of_def [abs_def]])
qed

lemma project_execution_executions:
  "(\<And>n s. mb_executions (others n s) = mb_executions s) \<Longrightarrow> mb_executions (fst (project_execution x ids others e s)) = mb_executions s"
  by (simp add: project_execution_def Let_def split_beta apply_approval_projection_batch_def set_projector_checkpoint_def)

section \<open>The projector beside the other components\<close>

text \<open>The others act through the backend and leave the projection to the one projector there is.\<close>

definition beside :: "externals \<Rightarrow> (event_sequence \<Rightarrow> uuid) \<Rightarrow> in_memory_backend \<Rightarrow> in_memory_backend \<Rightarrow> bool" where
  "beside x fresh s s' =
     ((\<exists>l. backend_step x fresh s l s') \<and> mb_proj_approvals s' = mb_proj_approvals s \<and> mb_projector_checkpoints s' = mb_projector_checkpoints s)"

lemma beside_grows:
  assumes "(beside x fresh)\<^sup>*\<^sup>* s s'" and "log_ok s"
  shows "grows s s' \<and> log_ok s' \<and> mb_proj_approvals s' = mb_proj_approvals s \<and> mb_projector_checkpoints s' = mb_projector_checkpoints s"
  using assms(1)
proof (induction rule: rtranclp_induct)
  case base
  then show ?case using assms(2) by simp
next
  case (step t u)
  then have "grows t u" using op_grows [of x fresh t _ u] by (auto simp: beside_def backend_step_def well_sequenced_def)
  then show ?case using step grows_trans appends_sequenced [of log_of ev_sequence ev_execution_id mb_next_sequence] by (metis beside_def)
qed

text \<open>What was projected up to the checkpoint is so after the others have acted.\<close>

lemma growth_keeps_projection:
  assumes "grows s s'" "mb_proj_approvals s' = mb_proj_approvals s" "mb_projector_checkpoints s' = mb_projector_checkpoints s"
    and "projected_upto_checkpoint x e s"
  shows "projected_upto_checkpoint x e s'"
proof -
  obtain new where new: "log_of s' e = log_of s e @ new" "\<forall>ev \<in> set new. mb_next_sequence s \<le> ev_sequence ev \<and> ev_sequence ev < mb_next_sequence s' \<and> ev_execution_id ev = e"
    by (rule appends_obtain [OF assms(1)])
  have c: "checkpoint e s' = checkpoint e s" "checkpoint e s < mb_next_sequence s" "mb_next_sequence s \<le> mb_next_sequence s'"
    using assms by (simp_all add: get_projector_checkpoint_def projected_upto_checkpoint_def appends_only_def)
  then have "filter (\<lambda>ev. ev_sequence ev \<le> checkpoint e s) new = []" using new(2) by (auto simp: filter_empty_conv)
  then show ?thesis using assms(2,4) c new(1) by (simp add: projected_upto_checkpoint_def)
qed

text \<open>A pass: the rows are the projection of the log as it was when the pass read it, and the checkpoint is the end of that log.  What
  the others have appended since is above the checkpoint.\<close>

lemma project_execution_current:
  assumes "log_ok s" "projected_upto_checkpoint x e s" "covers_rows ids e s" and others: "\<And>n s. (beside x fresh)\<^sup>*\<^sup>* s (others n s)"
  defines "v \<equiv> others 0 s" and "s' \<equiv> fst (project_execution x ids others e s)"
  shows "stored_rows e s' = rows_of x e (log_of v e)" and "\<forall>ev \<in> set (log_of v e). ev_sequence ev \<le> checkpoint e s'"
    and "checkpoint e s' < mb_next_sequence v" and "grows v s'" and "log_ok s'" and "log_ok v"
    and "e' \<noteq> e \<Longrightarrow> projected_upto_checkpoint x e' s \<Longrightarrow> projected_upto_checkpoint x e' s'"
proof -
  define w u where wu: "w = others 1 v" "u = others 2 w"
  have v: "grows s v" "log_ok v" "mb_proj_approvals v = mb_proj_approvals s" "mb_projector_checkpoints v = mb_projector_checkpoints s"
    using beside_grows [OF others assms(1)] by (simp_all add: v_def)
  have w: "grows v w" "log_ok w" "mb_proj_approvals w = mb_proj_approvals v" "mb_projector_checkpoints w = mb_projector_checkpoints v"
    using beside_grows [OF others v(2)] by (simp_all add: wu)
  have u: "grows w u" "log_ok u" "mb_proj_approvals u = mb_proj_approvals w" "mb_projector_checkpoints u = mb_projector_checkpoints w"
    using beside_grows [OF others w(2)] by (simp_all add: wu)
  show "log_ok v" by (rule v(2))
  have at_v: "projected_upto_checkpoint x i v" if "projected_upto_checkpoint x i s" for i by (rule growth_keeps_projection [OF v(1,3,4) that])
  let ?c = "checkpoint e s"
  let ?old = "filter (\<lambda>ev. ev_sequence ev \<le> ?c) (log_of v e)" and ?batch = "filter (\<lambda>ev. ev_sequence ev > ?c) (log_of v e)"
  have c: "checkpoint e v = ?c" using v(4) by (simp add: get_projector_checkpoint_def)
  have inv: "stored_rows e w = rows_of x e ?old" "?c < mb_next_sequence v"
    using at_v [OF assms(2)] w(3) by (simp_all add: projected_upto_checkpoint_def c)
  have split: "fold (project_row x e) ?batch (rows_of x e ?old) = rows_of x e (log_of v e)"
    unfolding rows_of_def by (rule rows.batches [OF log_ok_sorted [OF v(2)]])
  have bound: "\<forall>ev \<in> set (log_of v e). ev_sequence ev < mb_next_sequence v" using v(2) by (simp add: well_sequenced_def)
  have keyed: "rows_keyed e (stored_rows e w)" unfolding inv(1) by (rule rows_of_keyed)
  have covers: "covers_rows ids e w" using assms(3) v(3) w(3) by (simp add: covers_rows_def)
  define t where "t = (if ?batch = [] then w else u)"
  have "stored_rows e s' = rows_of x e (log_of v e) \<and> (\<forall>ev \<in> set (log_of v e). ev_sequence ev \<le> checkpoint e s') \<and>
      checkpoint e s' < mb_next_sequence v \<and> log_part s' = log_part t \<and>
      (\<forall>e'. e' \<noteq> e \<longrightarrow> stored_rows e' s' = stored_rows e' s \<and> checkpoint e' s' = checkpoint e' s)"
  proof (cases "?batch = []")
    case True
    then have "s' = w" by (simp add: s'_def project_execution_def events_since_sorted [OF v(2), folded v_def] Let_def wu v_def [symmetric])
    moreover have "?old = log_of v e" using True by (simp add: filter_empty_conv filter_id_conv not_less)
    ultimately show ?thesis using inv True v(3,4) w(3,4) by (simp add: filter_empty_conv not_less t_def get_projector_checkpoint_def)
  next
    case False
    note r = project_execution_rows [OF keyed covers v(2) refl False s'_def [symmetric, THEN meta_eq_to_obj_eq] v_def [symmetric, THEN meta_eq_to_obj_eq]
        wu [symmetric] u(3)]
    have c: "checkpoint e s' \<in> ev_sequence ` set ?batch" and top: "\<forall>ev \<in> set ?batch. ev_sequence ev \<le> checkpoint e s'"
      unfolding r(2) using Max_in [of "set (map ev_sequence ?batch)"] False by (simp_all del: set_filter)
    have rest: "stored_rows i s' = stored_rows i s" "checkpoint i s' = checkpoint i s" if "i \<noteq> e" for i
      using r(3,4) [OF that] v(3,4) w(3,4) u(3,4) by (simp_all add: get_projector_checkpoint_def)
    have 1: "stored_rows e s' = rows_of x e (log_of v e)" unfolding r(1) inv(1) by (rule split)
    have 2: "ev_sequence ev \<le> checkpoint e s'" if "ev \<in> set (log_of v e)" for ev
    proof (cases "ev_sequence ev > ?c")
      case True
      then show ?thesis using top that by simp
    next
      case less: False
      have "?c < checkpoint e s'" using c by auto
      then show ?thesis using less by simp
    qed
    have 3: "checkpoint e s' < mb_next_sequence v" using c bound by auto
    show ?thesis using 1 2 3 r(5) rest False by (simp add: t_def)
  qed
  note main = this
  have grow: "grows v t" "log_ok t" using w(1,2) grows_trans [OF w(1) u(1)] u(2) by (simp_all add: t_def)
  have "grows t s'" using main grows_same by blast
  then show g: "grows v s'" using grow(1) grows_trans by blast
  show "log_ok s'" using appends_sequenced [OF g v(2)] .
  show "stored_rows e s' = rows_of x e (log_of v e)" "\<forall>ev \<in> set (log_of v e). ev_sequence ev \<le> checkpoint e s'"
    "checkpoint e s' < mb_next_sequence v"
    using main by simp_all
  show "projected_upto_checkpoint x e' s'" if "e' \<noteq> e" "projected_upto_checkpoint x e' s"
  proof -
    have "projected_upto_checkpoint x e' t"
      using growth_keeps_projection [OF grow(1) _ _ at_v [OF that(2)]] w(3,4) u(3,4) by (simp add: t_def)
    then show ?thesis using main that(1) v(3,4) w(3,4) u(3,4)
      by (simp add: projected_upto_checkpoint_def log_part_def t_def get_projector_checkpoint_def split: if_splits)
  qed
qed

text \<open>Any run of the backend in which only the projector writes the projection, one pass after the other, with the others between its calls.\<close>

inductive projecting :: "externals \<Rightarrow> (event_sequence \<Rightarrow> uuid) \<Rightarrow> in_memory_backend \<Rightarrow> bool" for x fresh where
  proj_start: "projecting x fresh backend_new"
| proj_other: "projecting x fresh s \<Longrightarrow> beside x fresh s s' \<Longrightarrow> projecting x fresh s'"
| proj_pass:
    "projecting x fresh s \<Longrightarrow> covers_rows ids e s \<Longrightarrow> (\<And>n s. (beside x fresh)\<^sup>*\<^sup>* s (others n s)) \<Longrightarrow>
     projecting x fresh (fst (project_execution x ids others e s))"

text \<open>After a pass, what the others appended during it is above the checkpoint.\<close>

lemma pass_cut:
  assumes "log_ok s" "projected_upto_checkpoint x e s" "covers_rows ids e s" and others: "\<And>n s. (beside x fresh)\<^sup>*\<^sup>* s (others n s)"
  defines "s' \<equiv> fst (project_execution x ids others e s)"
  shows "filter (\<lambda>ev. ev_sequence ev \<le> checkpoint e s') (log_of s' e) = log_of (others 0 s) e"
    and "log_of s' e = log_of (others 0 s) e @ filter (\<lambda>ev. checkpoint e s' < ev_sequence ev) (log_of s' e)"
proof -
  note r = project_execution_current [where others = others and fresh = fresh, OF assms(1-3) others, folded s'_def]
  obtain new where new: "log_of s' e = log_of (others 0 s) e @ new"
      "\<forall>ev \<in> set new. mb_next_sequence (others 0 s) \<le> ev_sequence ev \<and> ev_sequence ev < mb_next_sequence s' \<and> ev_execution_id ev = e"
    by (rule appends_obtain [OF r(4)])
  have "\<forall>ev \<in> set new. checkpoint e s' < ev_sequence ev" using new(2) r(3) by force
  then have "filter (\<lambda>ev. ev_sequence ev \<le> checkpoint e s') new = []" "filter (\<lambda>ev. checkpoint e s' < ev_sequence ev) new = new"
    by (auto simp: filter_empty_conv filter_id_conv)
  moreover have "filter (\<lambda>ev. ev_sequence ev \<le> checkpoint e s') (log_of (others 0 s) e) = log_of (others 0 s) e"
      "filter (\<lambda>ev. checkpoint e s' < ev_sequence ev) (log_of (others 0 s) e) = []"
    using r(2) by (auto simp: filter_id_conv filter_empty_conv)
  ultimately show "filter (\<lambda>ev. ev_sequence ev \<le> checkpoint e s') (log_of s' e) = log_of (others 0 s) e"
    and "log_of s' e = log_of (others 0 s) e @ filter (\<lambda>ev. checkpoint e s' < ev_sequence ev) (log_of s' e)"
    unfolding new(1) by simp_all
qed

lemma projecting_invariant: "projecting x fresh s \<Longrightarrow> log_ok s \<and> (\<forall>e. projected_upto_checkpoint x e s)"
proof (induction rule: projecting.induct)
  case proj_start
  have "projected_upto_checkpoint x e backend_new" for e
    by (simp add: projected_upto_checkpoint_def backend_new_def rows_of_def log_of_def get_projector_checkpoint_def)
  then show ?case using log_ok_new by blast
next
  case (proj_other s s')
  then have "(beside x fresh)\<^sup>*\<^sup>* s s'" and ok: "log_ok s" by auto
  note g = beside_grows [OF this]
  then have "projected_upto_checkpoint x e s'" for e using growth_keeps_projection [of s s' x e] proj_other.IH by simp
  then show ?case using g by blast
next
  case (proj_pass s ids e others)
  have inv: "log_ok s" "projected_upto_checkpoint x e s" using proj_pass.IH by auto
  note r = project_execution_current [where others = others and fresh = fresh, OF inv proj_pass(2,3)]
  note cut = pass_cut(1) [where others = others and fresh = fresh, OF inv proj_pass(2,3)]
  have "mb_next_sequence (others 0 s) \<le> mb_next_sequence (fst (project_execution x ids others e s))" using r(4) by (simp add: appends_only_def)
  then have "projected_upto_checkpoint x e (fst (project_execution x ids others e s))"
    using r(1,3) unfolding projected_upto_checkpoint_def cut by simp
  then have "projected_upto_checkpoint x e' (fst (project_execution x ids others e s))" for e'
    using r(7) proj_pass.IH by (cases "e' = e") auto
  then show ?case using r(5) by blast
qed

text \<open>C26: The read model refines the status.  In any run in which only the projector writes the projection, whatever the other
  components do before a pass over a run and between the four calls of the backend it makes: after the pass the row of every
  node, read as a status, is the approval status of the node in the log as it was when the pass read it, and what was
  appended to the log since, and only that, is above the checkpoint, for the next pass.  The log it read must hold no
  event this build cannot read, and every expiry in it be stamped with the principal of the deadline, as the engine stamps them.\<close>

theorem projection_refines_status:
  assumes "projecting x fresh s" and "covers_rows ids e s" and "\<And>n s. (beside x fresh)\<^sup>*\<^sup>* s (others n s)"
    and "\<not> has_unreadable_events (get_events e (others 0 s))" and "\<forall>ev \<in> set (get_events e (others 0 s)). deadline_stamped ev"
    and "s' = fst (project_execution x ids others e s)"
  shows "row_status x (mb_proj_approvals s' (e, n)) = node_approval_status x (get_events e (others 0 s)) n \<and>
    get_events e s' = get_events e (others 0 s) @ get_events_since e (get_projector_checkpoint ''approvals'' e s') s'"
proof -
  have inv: "log_ok s" "projected_upto_checkpoint x e s" using projecting_invariant [OF assms(1)] by auto
  note r = project_execution_current [where others = others and fresh = fresh, OF inv assms(2,3), folded assms(6)]
  note cut = pass_cut(2) [where others = others and fresh = fresh, OF inv assms(2,3), folded assms(6)]
  have spec: "fold (\<lambda>ev st n. status_step x n ev (st n)) es st n = fold (status_step x n) es (st n)" for es st
    by (induction es arbitrary: st) simp_all
  have "row_view x (rows_of x e (log_of (others 0 s) e)) n = fold (status_step x n) (log_of (others 0 s) e) NotRequested"
    using rows.fold_simulates [of "log_of (others 0 s) e" e Map.empty x] assms(5)
    by (simp add: rows_of_def spec rows_keyed_def get_events_def) (simp add: row_view_def)
  then have rows: "row_status x (mb_proj_approvals s' (e, n)) = node_approval_status x (get_events e (others 0 s)) n"
    using assms(4) by (simp add: fun_cong [OF r(1)] row_view_def node_approval_status_def get_events_def)
  then show ?thesis using cut by (simp add: get_events_def get_events_since_def)
qed

definition requested :: in_memory_backend where
  "requested = fst (append_event (sample_request 0) backend_new)"

lemma requested_beside: "beside x fresh backend_new requested"
proof -
  have "in_range backend_new" by (simp add: in_range_def backend_new_def epoch_of_def)
  then have "backend_step x fresh backend_new None requested" unfolding requested_def backend_step_def by (blast intro: op_append)
  then show ?thesis unfolding beside_def by (auto simp: requested_def append_event_def push_event_def Let_def)
qed

text \<open>The request is appended while the pass is between its first two calls.\<close>

definition request_comes :: "nat \<Rightarrow> in_memory_backend \<Rightarrow> in_memory_backend" where
  "request_comes n s = (if n = 0 \<and> s = backend_new then requested else s)"

theorem projection_refines_status_witness:
  "row_status sample_externals (mb_proj_approvals (fst (project_execution sample_externals [] request_comes ''x'' backend_new)) (''x'', ''pay'')) =
     node_approval_status sample_externals (get_events ''x'' requested) ''pay''"
proof -
  have comes: "request_comes 0 backend_new = requested" by (simp add: request_comes_def)
  have log: "get_events ''x'' requested = [(sample_request 0)\<lparr>ev_sequence := 1\<rparr>]"
    by (simp add: requested_def append_event_def push_event_def Let_def backend_new_def get_events_def log_of_def sample_log_simps)
  have "covers_rows [] ''x'' backend_new" by (simp add: covers_rows_def backend_new_def)
  moreover have "(beside sample_externals (\<lambda>_. ''e''))\<^sup>*\<^sup>* s (request_comes n s)" for n s using requested_beside by (auto simp: request_comes_def)
  moreover have "\<not> has_unreadable_events (get_events ''x'' (request_comes 0 backend_new))"
      "\<forall>ev \<in> set (get_events ''x'' (request_comes 0 backend_new)). deadline_stamped ev"
    unfolding comes log by (simp_all add: sample_log_simps deadline_stamped_def)
  ultimately have "row_status sample_externals (mb_proj_approvals (fst (project_execution sample_externals [] request_comes ''x'' backend_new)) (''x'', ''pay'')) =
      node_approval_status sample_externals (get_events ''x'' (request_comes 0 backend_new)) ''pay''"
    using projection_refines_status [OF proj_start _ _ _ _ refl] by blast
  then show ?thesis unfolding comes .
qed

section \<open>A tick covers every running execution\<close>

definition all_running :: "execution_id list \<Rightarrow> in_memory_backend \<Rightarrow> workflow_execution list" where
  "all_running order s = list_executions order (Some WfRunning) (length order) 0 s"

lemma page_of_all: "list_executions order (Some WfRunning) k off s = take k (drop off (all_running order s))"
proof -
  have "length (filter p (filter_map f order)) \<le> length order" for p :: "workflow_execution \<Rightarrow> bool" and f :: "execution_id \<Rightarrow> workflow_execution option"
    using length_filter_le [of p "filter_map f order"] length_filter_le [of "\<lambda>y. y \<noteq> None" "map f order"] by (simp add: filter_map_def)
  then show ?thesis by (simp add: all_running_def list_executions_def)
qed

lemma project_all_executions:
  assumes "\<And>i n s. mb_executions (others i n s) = mb_executions s"
  shows "mb_executions (fst (project_all x ids others page st)) = mb_executions (fst st)"
proof (induction page arbitrary: st)
  case (Cons ex page)
  let ?e = "we_execution_id ex"
  show ?case using Cons [of "let (s, n) = project_execution x ids (others ?e) ?e (fst st) in (others ?e 3 s, snd st + n)"]
      project_execution_executions [of "others ?e" x ids ?e "fst st"] assms
    by (simp add: project_all_def split_beta Let_def)
qed (simp add: project_all_def)

lemma project_all_append: "project_all x ids others (p @ q) st = project_all x ids others q (project_all x ids others p st)"
  by (simp add: project_all_def)

lemma tick_loop_covers:
  assumes others: "\<And>i n s. mb_executions (others i n s) = mb_executions s" and "mb_executions (fst st) = mb_executions s" and "offset \<le> length (all_running order s)"
    and "length (all_running order s) + page_size < 2 ^ 32" and "(length (all_running order s) - offset) div page_size < fuel"
  shows "tick_loop x ids others order fuel offset st = Some (project_all x ids others (drop offset (all_running order s)) st)"
  using assms(2-)
proof (induction fuel arbitrary: offset st)
  case (Suc fuel)
  let ?all = "all_running order s"
  let ?page = "take page_size (drop offset ?all)"
  have page: "list_executions order (Some WfRunning) page_size offset (fst st) = ?page"
    using Suc.prems(1) page_of_all [of order page_size offset "fst st"] by (simp add: all_running_def list_executions_def)
  show ?case
  proof (cases "length ?page < page_size")
    case True
    then have "?page = drop offset ?all" by simp
    then show ?thesis using True by (simp add: page)
  next
    case False
    then have len: "offset + page_size \<le> length ?all" "length ?page = page_size" using Suc.prems(2) by auto
    let ?st = "project_all x ids others ?page st"
    have "(length ?all - (offset + page_size)) div page_size < fuel"
      using Suc.prems(4) len(1) le_div_geq [of page_size "length ?all - offset"] by (simp add: page_size_def)
    then have "tick_loop x ids others order fuel (offset + page_size) ?st = Some (project_all x ids others (drop (offset + page_size) ?all) ?st)"
      using Suc.IH [of ?st "offset + page_size"] Suc.prems(1,3) len(1) by (simp add: project_all_executions [OF others])
    moreover have "project_all x ids others (drop offset ?all) st = project_all x ids others (drop (offset + page_size) ?all) ?st"
      using project_all_append [of x ids others ?page "drop (offset + page_size) ?all" st] append_take_drop_id [of page_size "drop offset ?all"]
      by (simp add: add.commute)
    ultimately show ?thesis using False len Suc.prems(3) by (simp add: page wrap_u32_id)
  qed
qed simp

text \<open>A tick of the projector ends, within one page more than the full pages of running executions, and
  passes over every running execution once, however many pages they fill, if the others start and end no run meanwhile.\<close>

theorem projector_tick_covers:
  assumes "\<And>i n s. mb_executions (others i n s) = mb_executions s"
    and "length (all_running order s) + page_size < 2 ^ 32" and "length (all_running order s) div page_size < fuel"
  shows "projector_tick x ids others order fuel s = Some (project_all x ids others (all_running order s) (s, 0))"
  using tick_loop_covers [of others "(s, 0)" s 0 order fuel x ids] assms by (simp add: projector_tick_def)

theorem projector_tick_covers_witness:
  "projector_tick sample_externals [] (\<lambda>_ _ s. s) [''x''] 1 started = Some (project_all sample_externals [] (\<lambda>_ _ s. s) (all_running [''x''] started) (started, 0))"
proof -
  have "length (all_running [''x''] started) \<le> 1" by (simp add: all_running_def list_executions_def)
  then have "length (all_running [''x''] started) + page_size < 2 ^ 32" "length (all_running [''x''] started) div page_size < 1"
    by (simp_all add: page_size_def)
  then show ?thesis by (intro projector_tick_covers) simp_all
qed

end
