(* ===== verification/Approval_Api.thy ===== *)
theory Approval_Api
  imports Scheduler
begin

text \<open>
  Deciding an approval request (\<^verbatim>\<open>runtime/api/src/approvals.rs\<close>), the one path the REST route and the MCP
  bridge share.  A submission reads the run, checks, and appends under a condition; it is no transaction,
  so what other components do between its reads and its writes is an argument: a function on the store
  between the checks and the append, and one after the append.  \<^verbatim>\<open>Utc::now()\<close> is read twice, and so is
  the clock here.
\<close>

section \<open>Submissions\<close>

record approval_submission =
  sub_node_id :: "string option"
  sub_user_id :: string
  sub_principal :: "string option"
  sub_decision :: approval_decision
  sub_comment :: "string option"
  sub_state_patch :: "json option"
  sub_action_digest :: "string option"
  sub_dev_mode :: bool

record approval_policy =
  po_allow_self_approval :: bool

definition policy_from_env :: "string option \<Rightarrow> approval_policy" where
  "policy_from_env var =
     \<lparr>po_allow_self_approval = (case var of Some v \<Rightarrow> v = ''1'' \<or> map ascii_lower v = ''true'' | None \<Rightarrow> False)\<rparr>"

datatype submit_error =
    NoPending
  | MultiplePending "string list"
  | NodeNotPending string
  | ExecutionTerminal workflow_status
  | SelfApproval
  | InitiatorUnknown
  | StaleDigest
  | DigestRequired
  | PrincipalMissing
  | EditsUnsupported
  | ExpiredRequest string
  | UnreadableLog
  | Superseded string
  | SubmitBackend backend_error

section \<open>The checks\<close>

definition latest_requested_node :: "event list \<Rightarrow> string option" where
  "latest_requested_node events =
     find_map (\<lambda>e. case ev_kind e of ToolApprovalRequired n _ _ _ \<Rightarrow> Some n | _ \<Rightarrow> None) (rev events)"

definition carries_edit :: "approval_submission \<Rightarrow> bool" where
  "carries_edit sub = (case sub_state_patch sub of Some p \<Rightarrow> \<not> is_null p | None \<Rightarrow> False)"

text \<open>The status read: an error for a run that has ended, else whether the run is paused.\<close>

definition read_paused :: "execution_id \<Rightarrow> in_memory_backend \<Rightarrow> submit_error + bool" where
  "read_paused e s =
     (case get_execution e s of
        Some ex \<Rightarrow> if is_terminal (we_status ex) then Inl (ExecutionTerminal (we_status ex)) else Inr (we_status ex = WfPaused)
      | None \<Rightarrow> Inr False)"

definition choose_node :: "externals \<Rightarrow> string option \<Rightarrow> event list \<Rightarrow> submit_error + string" where
  "choose_node x node events =
     (let pending = pending_approvals x events
      in (case node of
            Some (c # cs) \<Rightarrow>
              (let n = c # cs
               in if list_ex (\<lambda>p. pa_node_id p = n) pending then Inr n
                  else if expired_by_deadline x events n then Inl (ExpiredRequest n) else Inl (NodeNotPending n))
          | _ \<Rightarrow>
              (case pending of
                 [] \<Rightarrow>
                   Inl (case latest_requested_node events of
                          Some n \<Rightarrow> if expired_by_deadline x events n then ExpiredRequest n else NoPending
                        | None \<Rightarrow> NoPending)
               | [only] \<Rightarrow> Inr (pa_node_id only)
               | many \<Rightarrow> Inl (MultiplePending (map pa_node_id many)))))"

definition check_identity :: "approval_submission \<Rightarrow> submit_error + unit" where
  "check_identity sub = (if \<not> sub_dev_mode sub \<and> sub_principal sub = None then Inl PrincipalMissing else Inr ())"

definition check_duties :: "approval_submission \<Rightarrow> approval_policy \<Rightarrow> event list \<Rightarrow> submit_error + unit" where
  "check_duties sub policy events =
     (if sub_decision sub = Approved \<and> \<not> po_allow_self_approval policy
      then (case (run_initiator events, sub_principal sub) of
              (Some initiator, Some prin) \<Rightarrow> if initiator = prin then Inl SelfApproval else Inr ()
            | (None, _) \<Rightarrow> if \<not> sub_dev_mode sub then Inl InitiatorUnknown else Inr ()
            | _ \<Rightarrow> Inr ())
      else Inr ())"

definition check_binding :: "approval_submission \<Rightarrow> pending_approval \<Rightarrow> submit_error + unit" where
  "check_binding sub request =
     (let binding = request_binding request
      in if \<not> sub_dev_mode sub \<and> sub_decision sub = Approved \<and> binding \<noteq> None \<and> sub_action_digest sub = None
         then Inl DigestRequired
         else (case sub_action_digest sub of
                 Some echoed \<Rightarrow> if binding \<noteq> Some echoed then Inl StaleDigest else Inr ()
               | None \<Rightarrow> Inr ()))"

definition check_deadline :: "externals \<Rightarrow> timestamp \<Rightarrow> string \<Rightarrow> pending_approval \<Rightarrow> submit_error + unit" where
  "check_deadline x now n request =
     (if expired (request_deadline x request) now then Inl (ExpiredRequest n) else Inr ())"

definition decision_event :: "approval_submission \<Rightarrow> string \<Rightarrow> pending_approval \<Rightarrow> approval_received" where
  "decision_event sub n request =
     \<lparr>ar_node_id = n, ar_user_id = sub_user_id sub, ar_decision = sub_decision sub, ar_comment = sub_comment sub,
      ar_state_patch = None, ar_principal = sub_principal sub,
      ar_approved_digest = (if sub_decision sub = Approved then request_digest request else None),
      ar_request_sequence = Some (pa_sequence request)\<rparr>"

text \<open>Everything up to the append: the request answered and whether the run was paused.\<close>

definition plan_approval ::
    "externals \<Rightarrow> timestamp \<Rightarrow> execution_id \<Rightarrow> approval_submission \<Rightarrow> approval_policy \<Rightarrow> in_memory_backend \<Rightarrow>
     submit_error + (string \<times> pending_approval \<times> bool)" where
  "plan_approval x now e sub policy s =
     (if carries_edit sub then Inl EditsUnsupported
      else and_then (read_paused e s) (\<lambda>was_paused.
        let events = get_events e s
        in if has_unreadable_events events then Inl UnreadableLog
           else and_then (choose_node x (sub_node_id sub) events) (\<lambda>n.
                and_then (check_identity sub) (\<lambda>_.
                and_then (check_duties sub policy events) (\<lambda>_.
                and_then (ok_or (NodeNotPending n) (find (\<lambda>p. pa_node_id p = n) (pending_approvals x events))) (\<lambda>request.
                and_then (check_deadline x now n request) (\<lambda>_.
                and_then (check_binding sub request) (\<lambda>_. Inr (n, request, was_paused)))))))))"

section \<open>Landing a decision\<close>

text \<open>The append, under the condition that the request is still the open one at the clock of the append.\<close>

definition land_approval ::
    "externals \<Rightarrow> uuid \<Rightarrow> timestamp \<Rightarrow> execution_id \<Rightarrow> approval_submission \<Rightarrow> string \<Rightarrow> pending_approval \<Rightarrow> in_memory_backend \<Rightarrow>
     in_memory_backend \<times> (backend_error + conditional_append)" where
  "land_approval x i now e sub n request s =
     append_event_if (event_new i now e 0 (ApprovalReceived (decision_event sub n request)))
       (\<lambda>events. still_open x events n (pa_sequence request) now) s"

definition submit_approval ::
    "externals \<Rightarrow> uuid \<Rightarrow> timestamp \<Rightarrow> timestamp \<Rightarrow> (in_memory_backend \<Rightarrow> in_memory_backend) \<Rightarrow> (in_memory_backend \<Rightarrow> in_memory_backend) \<Rightarrow>
     execution_id \<Rightarrow> approval_submission \<Rightarrow> approval_policy \<Rightarrow> in_memory_backend \<Rightarrow>
     in_memory_backend \<times> (submit_error + (string \<times> event))" where
  "submit_approval x i now now' meanwhile after e sub policy s =
     (case plan_approval x now e sub policy s of
        Inl err \<Rightarrow> (s, Inl err)
      | Inr (n, request, was_paused) \<Rightarrow>
          (case land_approval x i now' e sub n request (meanwhile s) of
             (s, Inl err) \<Rightarrow> (s, Inl (SubmitBackend err))
           | (s, Inr (Appended seq)) \<Rightarrow>
               (let event = event_new i now' e seq (ApprovalReceived (decision_event sub n request));
                    s = after s
                in if was_paused
                   then (case update_execution_status now' e WfRunning s of
                           (s, Inl err) \<Rightarrow> (s, Inl (SubmitBackend err))
                         | (s, Inr _) \<Rightarrow> (s, Inr (n, event)))
                   else (s, Inr (n, event)))
           | (s, Inr Refused) \<Rightarrow>
               (let s = after s; latest = get_events e s
                in (s, Inl (if expired_by_deadline x latest n \<or> pending_but_expired x latest n now'
                            then ExpiredRequest n else Superseded n)))
           | (s, Inr (RunTerminal status)) \<Rightarrow> (s, Inl (ExecutionTerminal status))))"

section \<open>The listing\<close>

definition requested_nodes :: "event list \<Rightarrow> string list" where
  "requested_nodes events =
     remdups_adj (sort (filter_map (\<lambda>e. case ev_kind e of ToolApprovalRequired n _ _ _ \<Rightarrow> Some n | _ \<Rightarrow> None) events))"

definition json_int :: "int \<Rightarrow> json" where
  "json_int i = JNumber (if 0 \<le> i then PosInt (nat i) else NegInt i)"

definition decided_json :: "externals \<Rightarrow> event list \<Rightarrow> string \<Rightarrow> json" where
  "decided_json x events n =
     (case node_approval_status x events n of
        NodeApproved user_id seq approved_digest \<Rightarrow>
          json_object [(''node_id'', JString n), (''status'', JString ''approved''), (''user_id'', JString user_id),
                       (''sequence'', json_int seq), (''approved_digest'', opt_json JString approved_digest)]
      | NodeRejected user_id comment seq \<Rightarrow>
          json_object [(''node_id'', JString n), (''status'', JString ''rejected''), (''user_id'', JString user_id),
                       (''comment'', opt_json JString comment), (''sequence'', json_int seq)]
      | _ \<Rightarrow> json_object [(''node_id'', JString n), (''status'', JString ''unknown'')])"

definition approvals_view :: "externals \<Rightarrow> event list \<Rightarrow> pending_approval list \<times> json list" where
  "approvals_view x events =
     (let pending = pending_approvals x events
      in (pending, map (decided_json x events) (filter (\<lambda>n. \<not> list_ex (\<lambda>p. pa_node_id p = n) pending) (requested_nodes events))))"

section \<open>What an accepted decision rests on\<close>

lemma plan_approval_ok:
  assumes "plan_approval x now e sub policy s = Inr (n, request, was_paused)"
  shows "request \<in> set (pending_approvals x (get_events e s))" and "pa_node_id request = n"
    and "\<not> has_unreadable_events (get_events e s)" and "read_paused e s = Inr was_paused"
    and "check_identity sub = Inr ()" and "check_duties sub policy (get_events e s) = Inr ()" and "check_binding sub request = Inr ()"
  using assms
  by (auto simp: plan_approval_def Let_def and_then_eq_Inr ok_or_eq_Inr find_Some_iff split: if_splits)

lemma find_map_append: "find_map f (ys @ zs) = (case find_map f ys of Some y \<Rightarrow> Some y | None \<Rightarrow> find_map f zs)"
  by (induction ys) (auto split: option.split)

lemma run_initiator_append: "run_initiator events = Some who \<Longrightarrow> run_initiator (events @ later) = Some who"
  by (auto simp: run_initiator_def find_map_append bind_eq_Some_conv)

text \<open>A request is known by its sequence: the one pending later under it is the one that was pending.\<close>

lemma same_request:
  assumes "sorted_wrt (\<lambda>a b. ev_sequence a < ev_sequence b) (es @ later)"
    and "fold (status_step x n) es NotRequested = Pending p" and "fold (status_step x n) (es @ later) NotRequested = Pending q"
    and "pa_sequence q = pa_sequence p"
  shows "q = p"
proof -
  obtain a where a: "a \<in> set es" "request_of x n a = Some p" using assms(2) unfolding status_Pending_split by (metis in_set_conv_decomp)
  obtain b where b: "b \<in> set (es @ later)" "request_of x n b = Some q" using assms(3) unfolding status_Pending_split by (metis in_set_conv_decomp)
  have "a = b" using sequences_distinct [OF assms(1), of a b] a b request_of_seq assms(4) by (metis Un_iff set_append)
  then show ?thesis using a b by simp
qed

lemma still_open_pending:
  "still_open x events n r now \<longleftrightarrow>
     (\<exists>p. node_approval_status x events n = Pending p \<and> pa_sequence p = r \<and> \<not> expired (request_deadline x p) now)"
  by (auto simp: still_open_def split: node_approval_status.splits)

lemma land_approval_ok:
  assumes "land_approval x i now e sub n request s = (s', Inr (Appended seq))"
  shows "still_open x (get_events e s) n (pa_sequence request) now"
    and "get_events e s' = get_events e s @ [event_new i now e seq (ApprovalReceived (decision_event sub n request))]"
    and "seq = mb_next_sequence s"
  using assms
  by (auto simp: land_approval_def append_event_if_def event_new_def get_events_def log_of_push split_beta split: option.splits if_splits)

lemma submit_accepted:
  assumes "submit_approval x i now now' meanwhile after e sub policy s = (s', Inr (n, ev))"
  obtains request was_paused t seq where "plan_approval x now e sub policy s = Inr (n, request, was_paused)"
    "land_approval x i now' e sub n request (meanwhile s) = (t, Inr (Appended seq))"
    "ev = event_new i now' e seq (ApprovalReceived (decision_event sub n request))"
    "s' = (if was_paused then fst (update_execution_status now' e WfRunning (after t)) else after t)"
  using assms
  by (auto simp: submit_approval_def Let_def split: sum.splits prod.splits conditional_append.splits if_splits)

text \<open>C1: whatever other components do while a decision is being made, a decision that is accepted answers the
  request that is pending, and not past its deadline, at the moment it is recorded.  It is recorded as
  the decision on that request, with no edit of the state and, for an approval, the digest of that
  request.  Outside dev mode it carries a principal; an approval comes, unless the install allows it, from
  a principal other than the one that started the run, and echoes what the request binds.\<close>

theorem accepted_decision_is_authorised:
  assumes "log_ok s" and "backend_trace x fresh s ls (meanwhile s)"
    and "submit_approval x i now now' meanwhile after e sub policy s = (s', Inr (n, ev))"
  shows "\<exists>p. node_approval_status x (get_events e (meanwhile s)) n = Pending p \<and> \<not> expired (request_deadline x p) now' \<and>
    ev_kind ev = ApprovalReceived (decision_event sub n p) \<and>
    (sub_dev_mode sub \<or>
      sub_principal sub \<noteq> None \<and>
      (sub_decision sub = Approved \<longrightarrow>
        (po_allow_self_approval policy \<or>
          (\<exists>who. run_initiator (get_events e (meanwhile s)) = Some who \<and> sub_principal sub \<noteq> Some who)) \<and>
        (request_binding p \<noteq> None \<longrightarrow> sub_action_digest sub = request_binding p)))"
proof -
  obtain request was_paused t seq where r: "plan_approval x now e sub policy s = Inr (n, request, was_paused)"
    "land_approval x i now' e sub n request (meanwhile s) = (t, Inr (Appended seq))"
    "ev = event_new i now' e seq (ApprovalReceived (decision_event sub n request))"
    using submit_accepted [OF assms(3)] by metis
  note plan = plan_approval_ok [OF r(1)]
  have g: "grows s (meanwhile s)" "log_ok (meanwhile s)" using mlog.runs_append [OF trace_steps [OF assms(2)] assms(1)] by blast+
  obtain later where later: "get_events e (meanwhile s) = get_events e s @ later"
    using appends_obtain [OF g(1)] unfolding get_events_def by metis
  obtain q where q: "node_approval_status x (get_events e (meanwhile s)) n = Pending q" "pa_sequence q = pa_sequence request"
    "\<not> expired (request_deadline x q) now'" using land_approval_ok(1) [OF r(2)] unfolding still_open_pending by blast
  have "fold (status_step x n) (get_events e s) NotRequested = Pending request"
    using plan(1,2) by (simp add: pending_approvals_iff)
  moreover have "fold (status_step x n) (get_events e s @ later) NotRequested = Pending q"
    using q(1) later by (simp add: node_approval_status_def split: if_splits)
  moreover have "sorted_wrt (\<lambda>a b. ev_sequence a < ev_sequence b) (get_events e s @ later)"
    using g(2) unfolding later [symmetric] by (simp add: well_sequenced_def get_events_def sorted_wrt_map)
  ultimately have same: "q = request" using same_request q(2) by blast
  have duties: "sub_dev_mode sub \<or> sub_principal sub \<noteq> None" "sub_decision sub = Approved \<Longrightarrow> \<not> sub_dev_mode sub \<Longrightarrow>
      po_allow_self_approval policy \<or> (\<exists>who. run_initiator (get_events e s) = Some who \<and> sub_principal sub \<noteq> Some who)"
    using plan(5,6) by (auto simp: check_identity_def check_duties_def split: if_splits option.splits)
  have echo: "sub_decision sub = Approved \<Longrightarrow> \<not> sub_dev_mode sub \<Longrightarrow> request_binding request \<noteq> None \<Longrightarrow>
      sub_action_digest sub = request_binding request"
    using plan(7) by (auto simp: check_binding_def Let_def split: if_splits option.splits)
  show ?thesis
    using q(1,3) r(3) duties echo run_initiator_append [of "get_events e s" _ later] unfolding same later
    by (intro exI [of _ request]) (auto simp: event_new_def)
qed

definition awaiting :: in_memory_backend where
  "awaiting = fst (append_event (sample_request 0)
     (fst (append_event (sample_event 0 (WorkflowStarted ''wf'' ''1'' (JObject []) (Some ''token:1''))) started)))"

definition sample_submission :: approval_submission where
  "sample_submission = \<lparr>sub_node_id = None, sub_user_id = ''ann'', sub_principal = Some ''token:2'', sub_decision = Approved,
     sub_comment = None, sub_state_patch = None, sub_action_digest = None, sub_dev_mode = False\<rparr>"

definition strict_policy :: approval_policy where
  "strict_policy = \<lparr>po_allow_self_approval = False\<rparr>"

lemma awaiting_trace: "backend_trace x fresh backend_new [None, None, None] awaiting" "in_range awaiting"
proof -
  let ?s = "fst (append_event (sample_event 0 (WorkflowStarted ''wf'' ''1'' (JObject []) (Some ''token:1''))) started)"
  show "in_range awaiting"
    by (simp add: in_range_def awaiting_def append_event_def push_event_def Let_def started_def create_execution_def backend_new_def
        epoch_of_def wrap_i64_def)
  have "in_range started" "in_range ?s"
    by (simp_all add: in_range_def append_event_def push_event_def Let_def started_def create_execution_def backend_new_def
        epoch_of_def wrap_i64_def)
  then have "backend_step x fresh started None ?s" "backend_step x fresh ?s None awaiting"
    unfolding awaiting_def backend_step_def by (blast intro: op_append)+
  then show "backend_trace x fresh backend_new [None, None, None] awaiting"
    using trace_snoc [OF trace_snoc [OF started_trace [of x fresh]]] by fastforce
qed

lemma awaiting_log:
  "get_events ''x'' awaiting = [sample_event 1 (WorkflowStarted ''wf'' ''1'' (JObject []) (Some ''token:1'')), sample_request 2]"
  "mb_executions awaiting ''x'' = Some sample_execution" "mb_next_sequence awaiting = 3"
  by (simp_all add: awaiting_def append_event_def push_event_def Let_def started_def create_execution_def backend_new_def
      get_events_def log_of_def sample_event_def sample_request_def event_new_def wrap_i64_def sample_execution_def)

definition the_request :: pending_approval where
  "the_request = from_request sample_externals ''pay'' ''wire'' ''human'' (json_object []) 2"

lemma awaiting_status: "node_approval_status sample_externals (get_events ''x'' awaiting) ''pay'' = Pending the_request"
  "pending_approvals sample_externals (get_events ''x'' awaiting) = [the_request]"
  "\<not> has_unreadable_events (get_events ''x'' awaiting)" "run_initiator (get_events ''x'' awaiting) = Some ''token:1''"
  "request_deadline sample_externals the_request = \<lparr>rd_expires_at = Unset, rd_escalate_at = Unset\<rparr>"
  by (simp_all add: awaiting_log sample_log_simps pending_approvals_def pending_step_def filter_map_def run_initiator_def
      request_deadline_def deadline_of_def read_deadline_def the_request_def json_object_def)

lemma sample_planned:
  assumes "get_events ''x'' s = get_events ''x'' awaiting" "read_paused ''x'' s = Inr b"
  shows "plan_approval sample_externals 0 ''x'' sample_submission strict_policy s = Inr (''pay'', the_request, b)"
  by (simp add: plan_approval_def carries_edit_def sample_submission_def assms awaiting_status
      choose_node_def check_identity_def check_duties_def strict_policy_def check_deadline_def expired_def
      check_binding_def request_binding_def request_digest_def Let_def)
    (simp add: the_request_def from_request_def json_object_def Let_def)

lemma awaiting_planned:
  "plan_approval sample_externals 0 ''x'' sample_submission strict_policy awaiting = Inr (''pay'', the_request, False)"
  by (rule sample_planned) (simp_all add: read_paused_def get_execution_def awaiting_log(2) sample_execution_def)

lemma awaiting_landed:
  "snd (land_approval sample_externals ''e'' 0 ''x'' sample_submission ''pay'' the_request awaiting) = Inr (Appended 3)"
  by (simp add: land_approval_def append_event_if_def event_new_def awaiting_log sample_execution_def still_open_def split_beta
      awaiting_status [unfolded get_events_def] expired_def)

lemma awaiting_accepted:
  "snd (submit_approval sample_externals ''e'' 0 0 id id ''x'' sample_submission strict_policy awaiting) =
     Inr (''pay'', event_new ''e'' 0 ''x'' 3 (ApprovalReceived (decision_event sample_submission ''pay'' the_request)))"
  using awaiting_landed by (auto simp: submit_approval_def awaiting_planned Let_def split: prod.split)

theorem accepted_decision_is_authorised_witness:
  "\<exists>p. node_approval_status sample_externals (get_events ''x'' awaiting) ''pay'' = Pending p \<and>
     sub_principal sample_submission \<noteq> run_initiator (get_events ''x'' awaiting)"
proof -
  obtain s' where "submit_approval sample_externals ''e'' 0 0 id id ''x'' sample_submission strict_policy awaiting =
      (s', Inr (''pay'', event_new ''e'' 0 ''x'' 3 (ApprovalReceived (decision_event sample_submission ''pay'' the_request))))"
    using awaiting_accepted by (metis prod.collapse)
  from accepted_decision_is_authorised [OF reachable_log_ok [OF awaiting_trace(1)] _ this, of "\<lambda>_. ''e''" "[]"]
  show ?thesis by (auto simp: trace_nil sample_submission_def strict_policy_def)
qed

section \<open>What a decision changes\<close>

text \<open>an accepted decision is recorded once, right after the log it was checked against, and at that
  point the status of its node is that decision: approved under the digest of the request, or rejected
  with the comment.\<close>

theorem accepted_decision_resolves:
  assumes "submit_approval x i now now' meanwhile after e sub policy s = (s', Inr (n, ev))"
  shows "\<exists>t. get_events e t = get_events e (meanwhile s) @ [ev] \<and> get_events e s' = get_events e (after t) \<and>
    (\<exists>d. node_approval_status x (get_events e t) n =
       (case sub_decision sub of
          Approved \<Rightarrow> NodeApproved (sub_user_id sub) (ev_sequence ev) d
        | Rejected \<Rightarrow> NodeRejected (sub_user_id sub) (sub_comment sub) (ev_sequence ev)) \<and>
       (\<forall>p. node_approval_status x (get_events e s) n = Pending p \<and> sub_decision sub = Approved \<longrightarrow> d = request_digest p))"
proof -
  obtain request was_paused t seq where r: "plan_approval x now e sub policy s = Inr (n, request, was_paused)"
    "land_approval x i now' e sub n request (meanwhile s) = (t, Inr (Appended seq))"
    "ev = event_new i now' e seq (ApprovalReceived (decision_event sub n request))"
    "s' = (if was_paused then fst (update_execution_status now' e WfRunning (after t)) else after t)"
    using submit_accepted [OF assms] by metis
  note plan = plan_approval_ok [OF r(1)] and land = land_approval_ok [OF r(2)]
  obtain p where p: "\<not> has_unreadable_events (get_events e (meanwhile s))"
    "fold (status_step x n) (get_events e (meanwhile s)) NotRequested = Pending p"
    using land(1) by (auto simp: still_open_pending node_approval_status_def split: if_splits)
  have "fold (status_step x n) (get_events e s) NotRequested = Pending request" using plan(1,2) by (simp add: pending_approvals_iff)
  then have req: "node_approval_status x (get_events e s) n = Pending request" using plan(3) by (simp add: status_readable)
  have log: "get_events e t = get_events e (meanwhile s) @ [ev]" using land(2) r(3) by simp
  have "\<not> has_unreadable_events [ev]" by (simp add: has_unreadable_events_def r(3) event_new_def)
  then have "node_approval_status x (get_events e t) n = status_step x n ev (Pending p)" using p log by (simp add: status_readable)
  moreover have "get_events e s' = get_events e (after t)"
    by (simp add: r(4) update_execution_status_def update_execution_def get_events_def log_of_def split: option.split)
  ultimately show ?thesis
    using log req by (intro exI [of _ t]) (auto simp: r(3) status_step_def event_new_def decision_event_def split: approval_decision.split)
qed

theorem accepted_decision_resolves_witness:
  "\<exists>t. length (get_events ''x'' t) = 3 \<and> (\<exists>d. node_approval_status sample_externals (get_events ''x'' t) ''pay'' = NodeApproved ''ann'' 3 d)"
proof -
  obtain s' where "submit_approval sample_externals ''e'' 0 0 id id ''x'' sample_submission strict_policy awaiting =
      (s', Inr (''pay'', event_new ''e'' 0 ''x'' 3 (ApprovalReceived (decision_event sample_submission ''pay'' the_request))))"
    using awaiting_accepted by (metis prod.collapse)
  from accepted_decision_resolves [OF this] obtain t where t: "get_events ''x'' t = get_events ''x'' awaiting @
      [event_new ''e'' 0 ''x'' 3 (ApprovalReceived (decision_event sample_submission ''pay'' the_request))]"
    "\<exists>d. node_approval_status sample_externals (get_events ''x'' t) ''pay'' = NodeApproved ''ann'' 3 d"
    by (auto simp: sample_submission_def event_new_def)
  moreover have "length (get_events ''x'' t) = 3" unfolding t(1) awaiting_log(1) by simp
  ultimately show ?thesis by blast
qed

text \<open>a submission that is refused leaves every log and every run as it was.\<close>

theorem refused_submission_records_nothing:
  assumes "submit_approval x i now now' id id e sub policy s = (s', Inl err)"
  shows "get_events e' s' = get_events e' s \<and> mb_executions s' = mb_executions s"
proof (cases "plan_approval x now e sub policy s")
  case (Inl err')
  then show ?thesis using assms by (simp add: submit_approval_def)
next
  case (Inr plan)
  obtain n request was_paused where plan: "plan = (n, request, was_paused)" by (cases plan)
  let ?ev = "event_new i now' e 0 (ApprovalReceived (decision_event sub n request))"
  have same: "log_of (s\<lparr>mb_events := (mb_events s)(e \<mapsto> log_of s e)\<rparr>) e' = log_of s e'" by (simp add: log_of_def)
  have "mb_executions (fst (push_event ?ev s)) = mb_executions s" by (simp add: frame)
  then show ?thesis
    using assms Inr plan same
    by (auto simp: submit_approval_def land_approval_def append_event_if_def get_events_def Let_def split_beta event_new_def
        update_execution_status_def update_execution_def split: option.splits if_splits)
qed

theorem refused_submission_records_nothing_witness:
  "get_events ''x'' (fst (submit_approval sample_externals ''e'' 0 0 id id ''x''
     (sample_submission\<lparr>sub_principal := Some ''token:1''\<rparr>) strict_policy awaiting)) = get_events ''x'' awaiting"
proof -
  have "plan_approval sample_externals 0 ''x'' (sample_submission\<lparr>sub_principal := Some ''token:1''\<rparr>) strict_policy awaiting = Inl SelfApproval"
    by (simp add: plan_approval_def carries_edit_def sample_submission_def read_paused_def get_execution_def awaiting_log(2) awaiting_status
        sample_execution_def choose_node_def check_identity_def check_duties_def strict_policy_def Let_def)
  then obtain s' where "submit_approval sample_externals ''e'' 0 0 id id ''x'' (sample_submission\<lparr>sub_principal := Some ''token:1''\<rparr>)
      strict_policy awaiting = (s', Inl SelfApproval)" by (simp add: submit_approval_def)
  then show ?thesis using refused_submission_records_nothing [of sample_externals "''e''" 0 0 "''x''"] by simp
qed

text \<open>the flip of a paused run to running comes after the decision has landed and is conditional on the
  status read before it: whatever the run has become in between, ended included, it is running again.\<close>

theorem late_resume_revives_run:
  assumes "submit_approval x i now now' meanwhile after e sub policy s = (s', Inr (n, ev))" and "status_of s e = Some WfPaused"
  shows "status_of s' e = Some WfRunning"
proof -
  obtain request was_paused t seq where r: "plan_approval x now e sub policy s = Inr (n, request, was_paused)"
    "s' = (if was_paused then fst (update_execution_status now' e WfRunning (after t)) else after t)"
    "land_approval x i now' e sub n request (meanwhile s) = (t, Inr (Appended seq))"
    using submit_accepted [OF assms(1)] by metis
  have paused: "was_paused" using plan_approval_ok(4) [OF r(1)] assms(2)
    by (auto simp: read_paused_def get_execution_def status_of_def split: option.splits if_splits)
  then have "mb_executions (after t) e \<noteq> None"
    using assms(1) r(1,3) by (auto simp: submit_approval_def Let_def update_execution_status_def update_execution_def split: option.splits)
  then show ?thesis using r(2) paused by (auto simp: status_of_def update_execution_status_def update_execution_def)
qed

definition paused_run :: in_memory_backend where
  "paused_run = fst (update_execution_status 0 ''x'' WfPaused awaiting)"

definition cancel :: "in_memory_backend \<Rightarrow> in_memory_backend" where
  "cancel s = fst (finish_execution 0 (sample_event 0 (WorkflowCancelled None)) WfCancelled s)"

lemma paused_run_log: "get_events ''x'' paused_run = get_events ''x'' awaiting" "mb_next_sequence paused_run = 3"
  "mb_executions paused_run ''x'' = Some (sample_execution\<lparr>we_status := WfPaused, we_updated_at := 0\<rparr>)"
  by (simp_all add: paused_run_def update_execution_status_def update_execution_def awaiting_log get_events_def log_of_def)

lemma cancelled_status: "mb_executions s ''x'' = Some ex \<Longrightarrow> \<not> is_terminal (we_status ex) \<Longrightarrow> status_of (cancel s) ''x'' = Some WfCancelled"
  by (simp add: cancel_def finish_execution_def sample_event_def event_new_def status_of_def split_beta Let_def push_event_def)

theorem late_resume_revives_run_witness:
  "\<exists>s' ev. submit_approval sample_externals ''e'' 0 0 id cancel ''x'' sample_submission strict_policy paused_run = (s', Inr (''pay'', ev)) \<and>
     status_of (cancel (fst (land_approval sample_externals ''e'' 0 ''x'' sample_submission ''pay'' the_request paused_run))) ''x'' = Some WfCancelled \<and>
     status_of s' ''x'' = Some WfRunning"
proof -
  let ?r = "land_approval sample_externals ''e'' 0 ''x'' sample_submission ''pay'' the_request paused_run"
  have plan: "plan_approval sample_externals 0 ''x'' sample_submission strict_policy paused_run = Inr (''pay'', the_request, True)"
    by (rule sample_planned) (simp_all add: paused_run_log read_paused_def get_execution_def)
  have land: "snd ?r = Inr (Appended 3)" "mb_executions (fst ?r) ''x'' = Some (sample_execution\<lparr>we_status := WfPaused, we_updated_at := 0\<rparr>)"
    using awaiting_status(1) paused_run_log(1)
    by (simp_all add: land_approval_def append_event_if_def event_new_def paused_run_log still_open_def split_beta expired_def frame
        get_events_def awaiting_status(5) Let_def)
  then have cancelled: "status_of (cancel (fst ?r)) ''x'' = Some WfCancelled" using cancelled_status by simp
  then have ex: "mb_executions (cancel (fst ?r)) ''x'' \<noteq> None" by (auto simp: status_of_def)
  obtain s' ev where sub: "submit_approval sample_externals ''e'' 0 0 id cancel ''x'' sample_submission strict_policy paused_run = (s', Inr (''pay'', ev))"
    using land(1) ex by (cases ?r) (auto simp: submit_approval_def plan Let_def update_execution_status_def update_execution_def)
  have "status_of paused_run ''x'' = Some WfPaused" by (simp add: status_of_def paused_run_log)
  from late_resume_revives_run [OF sub this] show ?thesis using sub cancelled by blast
qed

end
