(* ===== verification/Audit_Signer.thy ===== *)
theory Audit_Signer
  imports Hashing
begin

text \<open>
  Signatures of audit entries (\<^verbatim>\<open>runtime/audit/src/signer.rs\<close>): the HMAC and the Ed25519 mode, and the
  signer the environment configures.  SHA-256, HMAC, Ed25519, the file system and the JSON writer are the
  fields of \<open>audit_externals\<close>; keys, tags and signatures are lists of bytes.  What is signed is always an
  entry hash, a string, so the branch for bytes that are not UTF-8 does not arise.  Shown: a signature
  verifies, under the public key alone in the Ed25519 mode; the two modes never accept each other's
  signatures; and the configuration fails closed.
\<close>

section \<open>Hexadecimal\<close>

definition hex_encode :: "nat list \<Rightarrow> string" where
  "hex_encode bytes = concat (map hex_byte bytes)"

definition hex_value :: "char \<Rightarrow> nat option" where
  "hex_value c =
     (let n = (of_char c :: nat)
      in if 48 \<le> n \<and> n \<le> 57 then Some (n - 48)
         else if 97 \<le> n \<and> n \<le> 102 then Some (n - 87)
         else if 65 \<le> n \<and> n \<le> 70 then Some (n - 55) else None)"

fun hex_decode :: "string \<Rightarrow> nat list option" where
  "hex_decode [] = Some []"
| "hex_decode [_] = None"
| "hex_decode (a # b # rest) =
     (case (hex_value a, hex_value b, hex_decode rest) of
        (Some i, Some j, Some bs) \<Rightarrow> Some ((16 * i + j) # bs)
      | _ \<Rightarrow> None)"

lemma hex_value_digit: "i < 16 \<Longrightarrow> hex_value (hex_digit i) = Some i"
proof -
  have "\<forall>i \<in> {0..<16}. hex_value (hex_digit i) = Some i" by (simp add: atLeastLessThan_nat_numeral hex_value_def hex_digit_def Let_def)
  then show "i < 16 \<Longrightarrow> hex_value (hex_digit i) = Some i" by simp
qed

lemma hex_roundtrip: "\<forall>b \<in> set bytes. b < 256 \<Longrightarrow> hex_decode (hex_encode bytes) = Some bytes"
proof (induction bytes)
  case (Cons b bytes)
  then have "b div 16 < 16" "16 * (b div 16) + b mod 16 = b" by auto
  then show ?case using Cons by (simp add: hex_encode_def hex_byte_def hex_value_digit)
qed (simp add: hex_encode_def)

lemma hex_decode_chars: "hex_decode s = Some bs \<Longrightarrow> \<forall>c \<in> set s. hex_value c \<noteq> None"
  by (induction s arbitrary: bs rule: hex_decode.induct) (auto split: option.splits)

lemma hex_encode_chars: "\<forall>b \<in> set bytes. b < 256 \<Longrightarrow> c \<in> set (hex_encode bytes) \<Longrightarrow> hex_value c \<noteq> None"
  using hex_decode_chars [OF hex_roundtrip] by blast

lemma colon_no_hex: "hex_value CHR '':'' = None"
  by (simp add: hex_value_def)

section \<open>Keys\<close>

record audit_externals =
  ax_sha256 :: "nat list \<Rightarrow> nat list"
  ax_hmac :: "nat list \<Rightarrow> nat list \<Rightarrow> nat list"
  ax_ed_public :: "nat list \<Rightarrow> nat list"
  ax_ed_sign :: "nat list \<Rightarrow> nat list \<Rightarrow> nat list"
  ax_ed_verify :: "nat list \<Rightarrow> nat list \<Rightarrow> nat list \<Rightarrow> bool"
  ax_ed_usable :: "nat list \<Rightarrow> bool"
  ax_read_file :: "string \<Rightarrow> string + string"
  ax_json_text :: "json \<Rightarrow> string"
  ax_uuid_bytes :: "string \<Rightarrow> nat list"
  ax_rfc3339 :: "int \<Rightarrow> string"

datatype key_error =
    MalformedSeed string
  | Ambiguous
  | MissingKey
  | UnreadableKey string
  | BadPublicKey

datatype audit_key =
    NoKey
  | HmacKey "nat list"
  | Ed25519Signing "nat list" string
  | Ed25519Verifying "nat list" string

record audit_signer =
  as_key :: audit_key
  as_is_dev_key :: bool

definition signing_key_env :: string where "signing_key_env = ''JAMJET_AUDIT_SIGNING_KEY''"

definition allow_insecure_key_env :: string where "allow_insecure_key_env = ''JAMJET_AUDIT_ALLOW_INSECURE_KEY''"

definition signing_mode_env :: string where "signing_mode_env = ''JAMJET_AUDIT_SIGNING_MODE''"

definition ed25519_key_env :: string where "ed25519_key_env = ''JAMJET_AUDIT_ED25519_KEY''"

definition ed25519_key_file_env :: string where "ed25519_key_file_env = ''JAMJET_AUDIT_ED25519_KEY_FILE''"

definition ed25519_sig_spec :: string where "ed25519_sig_spec = ''jamjet.audit.entry/v1''"

definition ed25519_sig_prefix :: string where "ed25519_sig_prefix = ''ed25519:''"

definition dev_default_key :: string where
  "dev_default_key = ''jamjet-insecure-dev-audit-signing-key-set-JAMJET_AUDIT_SIGNING_KEY-in-prod''"

definition ed25519_kid :: "audit_externals \<Rightarrow> nat list \<Rightarrow> string" where
  "ed25519_kid ax public_key = take 16 (hex_encode (ax_sha256 ax public_key))"

definition ed25519_statement :: "audit_externals \<Rightarrow> string \<Rightarrow> string \<Rightarrow> nat list" where
  "ed25519_statement ax entry_hash kid =
     utf8 (ax_json_text ax (json_object
       [(''alg'', JString ''Ed25519''), (''entry_hash'', JString entry_hash), (''kid'', JString kid),
        (''spec'', JString ed25519_sig_spec)]))"

definition parse_seed :: "string \<Rightarrow> string \<Rightarrow> key_error + nat list" where
  "parse_seed text source =
     (let text = trim text
      in if str_len text \<noteq> 64 then Inl (MalformedSeed source)
         else (case hex_decode text of Some bytes \<Rightarrow> Inr bytes | None \<Rightarrow> Inl (MalformedSeed source)))"

definition signer_new :: "nat list \<Rightarrow> audit_signer" where
  "signer_new key = \<lparr>as_key = HmacKey key, as_is_dev_key = False\<rparr>"

definition unsigned_signer :: audit_signer where
  "unsigned_signer = \<lparr>as_key = NoKey, as_is_dev_key = False\<rparr>"

definition ed25519_signer :: "audit_externals \<Rightarrow> nat list \<Rightarrow> audit_signer" where
  "ed25519_signer ax seed = \<lparr>as_key = Ed25519Signing seed (ed25519_kid ax (ax_ed_public ax seed)), as_is_dev_key = False\<rparr>"

definition ed25519_from_hex :: "audit_externals \<Rightarrow> string \<Rightarrow> key_error + audit_signer" where
  "ed25519_from_hex ax seed_hex = and_then (parse_seed seed_hex ed25519_key_env) (\<lambda>seed. Inr (ed25519_signer ax seed))"

definition ed25519_verifier :: "audit_externals \<Rightarrow> nat list \<Rightarrow> key_error + audit_signer" where
  "ed25519_verifier ax public_key =
     (if length public_key \<noteq> 32 \<or> \<not> ax_ed_usable ax public_key then Inl BadPublicKey
      else Inr \<lparr>as_key = Ed25519Verifying public_key (ed25519_kid ax public_key), as_is_dev_key = False\<rparr>)"

section \<open>Configuration\<close>

text \<open>\<open>vars\<close> reads an environment variable.\<close>

definition nonempty_var :: "(string \<rightharpoonup> string) \<Rightarrow> string \<Rightarrow> string option" where
  "nonempty_var vars name = (case vars name of Some v \<Rightarrow> if v = [] then None else Some v | None \<Rightarrow> None)"

definition hmac_from_env :: "(string \<rightharpoonup> string) \<Rightarrow> audit_signer" where
  "hmac_from_env vars =
     (case nonempty_var vars signing_key_env of
        Some key \<Rightarrow> signer_new (utf8 key)
      | None \<Rightarrow>
          if nonempty_var vars allow_insecure_key_env \<noteq> None
          then \<lparr>as_key = HmacKey (utf8 dev_default_key), as_is_dev_key = True\<rparr>
          else unsigned_signer)"

definition ed25519_from_env :: "audit_externals \<Rightarrow> (string \<rightharpoonup> string) \<Rightarrow> key_error + audit_signer" where
  "ed25519_from_env ax vars =
     and_then
       (case (nonempty_var vars ed25519_key_env, nonempty_var vars ed25519_key_file_env) of
          (Some _, Some _) \<Rightarrow> Inl Ambiguous
        | (None, None) \<Rightarrow> Inl MissingKey
        | (Some text, None) \<Rightarrow> parse_seed text ed25519_key_env
        | (None, Some path) \<Rightarrow>
            (case ax_read_file ax path of
               Inl err \<Rightarrow> Inl (UnreadableKey (path @ '': '' @ err))
             | Inr text \<Rightarrow> parse_seed text ed25519_key_file_env))
       (\<lambda>seed. Inr (ed25519_signer ax seed))"

definition signer_from_env :: "audit_externals \<Rightarrow> (string \<rightharpoonup> string) \<Rightarrow> audit_signer" where
  "signer_from_env ax vars =
     (let mode = map ascii_lower (trim (case vars signing_mode_env of Some v \<Rightarrow> v | None \<Rightarrow> []))
      in if mode = [] \<or> mode = ''hmac'' then hmac_from_env vars
         else if mode = ''ed25519''
         then (case ed25519_from_env ax vars of Inr signer \<Rightarrow> signer | Inl _ \<Rightarrow> unsigned_signer)
         else unsigned_signer)"

section \<open>Signing and verifying\<close>

definition signer_mode :: "audit_signer \<Rightarrow> string" where
  "signer_mode signer =
     (case as_key signer of
        NoKey \<Rightarrow> ''unsigned'' | HmacKey _ \<Rightarrow> ''hmac'' | Ed25519Signing _ _ \<Rightarrow> ''ed25519'' | Ed25519Verifying _ _ \<Rightarrow> ''ed25519'')"

definition can_sign :: "audit_signer \<Rightarrow> bool" where
  "can_sign signer = (case as_key signer of HmacKey _ \<Rightarrow> True | Ed25519Signing _ _ \<Rightarrow> True | _ \<Rightarrow> False)"

definition public_key :: "audit_externals \<Rightarrow> audit_signer \<Rightarrow> nat list option" where
  "public_key ax signer =
     (case as_key signer of
        Ed25519Signing key _ \<Rightarrow> Some (ax_ed_public ax key) | Ed25519Verifying key _ \<Rightarrow> Some key | _ \<Rightarrow> None)"

definition signer_kid :: "audit_signer \<Rightarrow> string option" where
  "signer_kid signer =
     (case as_key signer of Ed25519Signing _ kid \<Rightarrow> Some kid | Ed25519Verifying _ kid \<Rightarrow> Some kid | _ \<Rightarrow> None)"

definition sign :: "audit_externals \<Rightarrow> audit_signer \<Rightarrow> string \<Rightarrow> string option" where
  "sign ax signer entry_hash =
     (case as_key signer of
        NoKey \<Rightarrow> None
      | Ed25519Verifying _ _ \<Rightarrow> None
      | HmacKey key \<Rightarrow> Some (hex_encode (ax_hmac ax key (utf8 entry_hash)))
      | Ed25519Signing key kid \<Rightarrow>
          Some (ed25519_sig_prefix @ kid @ '':'' @ hex_encode (ax_ed_sign ax key (ed25519_statement ax entry_hash kid))))"

definition verify_ed25519 :: "audit_externals \<Rightarrow> nat list \<Rightarrow> string \<Rightarrow> string \<Rightarrow> string \<Rightarrow> bool" where
  "verify_ed25519 ax key kid entry_hash signature =
     (case strip_prefix ed25519_sig_prefix signature of
        None \<Rightarrow> False
      | Some rest \<Rightarrow>
          (case split_once CHR '':'' rest of
             None \<Rightarrow> False
           | Some (sig_kid, sig_hex) \<Rightarrow>
               if sig_kid \<noteq> kid then False
               else (case hex_decode sig_hex of
                       None \<Rightarrow> False
                     | Some raw \<Rightarrow> length raw = 64 \<and> ax_ed_verify ax key (ed25519_statement ax entry_hash kid) raw)))"

definition verify :: "audit_externals \<Rightarrow> audit_signer \<Rightarrow> string \<Rightarrow> string \<Rightarrow> bool" where
  "verify ax signer entry_hash signature =
     (case as_key signer of
        NoKey \<Rightarrow> False
      | HmacKey key \<Rightarrow>
          (case hex_decode signature of
             None \<Rightarrow> False
           | Some expected \<Rightarrow> ax_hmac ax key (utf8 entry_hash) = expected)
      | Ed25519Signing key kid \<Rightarrow> verify_ed25519 ax (ax_ed_public ax key) kid entry_hash signature
      | Ed25519Verifying key kid \<Rightarrow> verify_ed25519 ax key kid entry_hash signature)"

section \<open>Properties\<close>

text \<open>What the cryptographic crates document: tags and signatures are bytes, an Ed25519 signature is 64 of
  them and verifies under the public key of its seed, whose key is 32 bytes, and a digest is bytes.\<close>

definition crypto_ok :: "audit_externals \<Rightarrow> bool" where
  "crypto_ok ax =
     ((\<forall>k m. \<forall>b \<in> set (ax_hmac ax k m). b < 256) \<and> (\<forall>k m. \<forall>b \<in> set (ax_ed_sign ax k m). b < 256) \<and>
      (\<forall>k m. length (ax_ed_sign ax k m) = 64) \<and> (\<forall>k m. ax_ed_verify ax (ax_ed_public ax k) m (ax_ed_sign ax k m)) \<and>
      (\<forall>m. \<forall>b \<in> set (ax_sha256 ax m). b < 256))"

definition signer_ok :: "audit_externals \<Rightarrow> audit_signer \<Rightarrow> bool" where
  "signer_ok ax signer =
     (case as_key signer of Ed25519Signing key kid \<Rightarrow> kid = ed25519_kid ax (ax_ed_public ax key) | _ \<Rightarrow> True)"

lemma kid_no_colon: "crypto_ok ax \<Longrightarrow> CHR '':'' \<notin> set (ed25519_kid ax key)"
  using hex_encode_chars [of "ax_sha256 ax key" "CHR '':''"] colon_no_hex
  by (auto simp: ed25519_kid_def crypto_ok_def dest: in_set_takeD)

lemma verify_own_ed25519:
  assumes "crypto_ok ax" and "CHR '':'' \<notin> set kid"
  shows "verify_ed25519 ax (ax_ed_public ax key) kid h
    (ed25519_sig_prefix @ kid @ '':'' @ hex_encode (ax_ed_sign ax key (ed25519_statement ax h kid)))"
proof -
  have "split_once CHR '':'' (kid @ '':'' @ y) = Some (kid, y)" for y using assms(2) by (simp add: split_once_Some)
  moreover have "hex_decode (hex_encode (ax_ed_sign ax key m)) = Some (ax_ed_sign ax key m)" for m
    using assms(1) by (intro hex_roundtrip) (simp add: crypto_ok_def)
  ultimately show ?thesis using assms(1) by (simp add: verify_ed25519_def crypto_ok_def)
qed

lemma own_signature_verifies:
  assumes "crypto_ok ax" and "signer_ok ax signer" and "can_sign signer"
  shows "\<exists>sig. sign ax signer h = Some sig \<and> verify ax signer h sig"
proof (cases "as_key signer")
  case (HmacKey key)
  have "hex_decode (hex_encode (ax_hmac ax key m)) = Some (ax_hmac ax key m)" for m
    using assms(1) by (intro hex_roundtrip) (simp add: crypto_ok_def)
  then show ?thesis using HmacKey by (simp add: sign_def verify_def)
next
  case (Ed25519Signing key kid)
  then have kid: "kid = ed25519_kid ax (ax_ed_public ax key)" using assms(2) by (simp add: signer_ok_def)
  show ?thesis using Ed25519Signing verify_own_ed25519 [OF assms(1) kid_no_colon [OF assms(1)]] by (simp add: sign_def verify_def kid)
qed (use assms(3) in \<open>simp_all add: can_sign_def\<close>)

lemma verifier_accepts_same:
  assumes "signer_ok ax signer" and "public_key ax signer = Some k" and "ed25519_verifier ax k = Inr verifier" and "can_sign signer"
  shows "verify ax verifier h sig = verify ax signer h sig"
  using assms by (auto simp: verify_def can_sign_def public_key_def ed25519_verifier_def signer_ok_def split: if_splits audit_key.splits)

text \<open>What a signer signs, it verifies, in both modes; in the Ed25519 mode so does whoever holds the public
  key and nothing else; and a signer that cannot sign produces nothing and, without a key, accepts
  nothing.\<close>

theorem sign_verify_roundtrip:
  assumes "crypto_ok ax" and "signer_ok ax signer"
  shows "(can_sign signer \<longrightarrow> (\<exists>sig. sign ax signer h = Some sig \<and> verify ax signer h sig \<and>
            (\<forall>k verifier. public_key ax signer = Some k \<and> ed25519_verifier ax k = Inr verifier \<longrightarrow> verify ax verifier h sig))) \<and>
    (\<not> can_sign signer \<longrightarrow> sign ax signer h = None) \<and> (as_key signer = NoKey \<longrightarrow> \<not> verify ax signer h sig')"
proof (intro conjI impI)
  assume "can_sign signer"
  moreover from own_signature_verifies [OF assms this] obtain sig where "sign ax signer h = Some sig" "verify ax signer h sig" by blast
  ultimately show "\<exists>sig. sign ax signer h = Some sig \<and> verify ax signer h sig \<and>
      (\<forall>k verifier. public_key ax signer = Some k \<and> ed25519_verifier ax k = Inr verifier \<longrightarrow> verify ax verifier h sig)"
    using verifier_accepts_same [OF assms(2)] by blast
qed (auto simp: sign_def verify_def can_sign_def split: audit_key.splits)

definition sample_ax :: audit_externals where
  "sample_ax = \<lparr>ax_sha256 = map (\<lambda>b. b mod 256), ax_hmac = (\<lambda>k m. map (\<lambda>b. b mod 256) (k @ m)), ax_ed_public = id,
     ax_ed_sign = (\<lambda>k m. replicate 64 7), ax_ed_verify = (\<lambda>k m sig. sig = replicate 64 7), ax_ed_usable = (\<lambda>_. True),
     ax_read_file = (\<lambda>_. Inl []), ax_json_text = canonical_json sample_externals,
     ax_uuid_bytes = (\<lambda>s. (if s = ''a'' then 1 else if s = ''b'' then 2 else 3) # replicate 15 0),
     ax_rfc3339 = (\<lambda>t. CHR ''T'' # x_to_rfc3339 sample_externals t)\<rparr>"

lemma sample_crypto_ok: "crypto_ok sample_ax"
  by (auto simp: crypto_ok_def sample_ax_def)

theorem sign_verify_roundtrip_witness:
  "\<exists>sig. sign sample_ax (signer_new [1, 2]) ''ab'' = Some sig \<and> verify sample_ax (signer_new [1, 2]) ''ab'' sig"
  using sign_verify_roundtrip [OF sample_crypto_ok, of "signer_new [1, 2]" "''ab''"]
  by (auto simp: signer_ok_def can_sign_def signer_new_def)

text \<open>The two modes never accept each other's signatures: no signature an Ed25519 signer writes passes an HMAC
  signer, and no HMAC tag passes an Ed25519 one.\<close>

theorem signing_modes_are_disjoint:
  assumes "crypto_ok ax" and "as_key hmac = HmacKey key" and "signer_mode ed = ''ed25519''"
  shows "(sign ax ed h = Some sig \<longrightarrow> \<not> verify ax hmac h' sig) \<and> (sign ax hmac h = Some tag \<longrightarrow> \<not> verify ax ed h' tag)"
proof (intro conjI impI)
  assume "sign ax ed h = Some sig"
  then have "CHR '':'' \<in> set sig"
    using assms(3) by (auto simp: sign_def signer_mode_def ed25519_sig_prefix_def split: audit_key.splits)
  then have "hex_decode sig = None" using hex_decode_chars [of sig] colon_no_hex by (cases "hex_decode sig") auto
  then show "\<not> verify ax hmac h' sig" using assms(2) by (simp add: verify_def)
next
  assume "sign ax hmac h = Some tag"
  then have tag: "tag = hex_encode (ax_hmac ax key (utf8 h))" using assms(2) by (simp add: sign_def)
  have "CHR '':'' \<notin> set tag"
    unfolding tag using hex_encode_chars [of "ax_hmac ax key (utf8 h)" "CHR '':''"] colon_no_hex assms(1) by (auto simp: crypto_ok_def)
  then have "strip_prefix ed25519_sig_prefix tag = None"
    using strip_prefix_Some [of ed25519_sig_prefix tag] by (cases "strip_prefix ed25519_sig_prefix tag") (auto simp: ed25519_sig_prefix_def)
  then show "\<not> verify ax ed h' tag"
    using assms(3) by (auto simp: verify_def verify_ed25519_def signer_mode_def split: audit_key.splits)
qed

theorem signing_modes_are_disjoint_witness:
  "\<not> verify sample_ax (ed25519_signer sample_ax [3]) ''ab'' (hex_encode (ax_hmac sample_ax [1, 2] (utf8 ''ab'')))"
  using signing_modes_are_disjoint [OF sample_crypto_ok, of "signer_new [1, 2]" "[1, 2]" "ed25519_signer sample_ax [3]" "''ab''" _ "''ab''"]
  by (auto simp: signer_new_def ed25519_signer_def signer_mode_def sign_def)

text \<open>The configuration fails closed: the publicly known key signs only when the insecure opt-in is set and the
  HMAC mode is on with no key of its own; in the Ed25519 mode nothing is ever signed with HMAC; and an
  unknown mode signs nothing.\<close>

theorem signer_config_fails_closed:
  "(as_is_dev_key (signer_from_env ax vars) \<longrightarrow>
      nonempty_var vars allow_insecure_key_env \<noteq> None \<and> nonempty_var vars signing_key_env = None) \<and>
   (can_sign (signer_from_env ax vars) \<longrightarrow>
      (case as_key (signer_from_env ax vars) of
         HmacKey k \<Rightarrow>
           map ascii_lower (trim (case vars signing_mode_env of Some v \<Rightarrow> v | None \<Rightarrow> [])) \<in> {[], ''hmac''} \<and>
           (\<exists>v. k = utf8 v \<and> (nonempty_var vars signing_key_env = Some v \<or> as_is_dev_key (signer_from_env ax vars) \<and> v = dev_default_key))
       | Ed25519Signing seed kid \<Rightarrow>
           map ascii_lower (trim (case vars signing_mode_env of Some v \<Rightarrow> v | None \<Rightarrow> [])) = ''ed25519'' \<and>
           kid = ed25519_kid ax (ax_ed_public ax seed) \<and>
           (nonempty_var vars ed25519_key_env = None) \<noteq> (nonempty_var vars ed25519_key_file_env = None)
       | _ \<Rightarrow> False))"
  by (auto simp: signer_from_env_def hmac_from_env_def ed25519_from_env_def signer_new_def unsigned_signer_def ed25519_signer_def
      can_sign_def Let_def and_then_def split: option.splits sum.splits if_splits)

theorem signer_config_fails_closed_witness:
  "\<not> can_sign (signer_from_env sample_ax Map.empty)"
proof -
  have "nonempty_var Map.empty v = None" for v by (simp add: nonempty_var_def)
  then show ?thesis using signer_config_fails_closed [of sample_ax Map.empty] by (auto split: audit_key.splits)
qed

end
