(* ===== verification/Audit_Log.thy ===== *)
theory Audit_Log
  imports Audit_Signer Scheduler
begin

text \<open>
  The audit log (\<^verbatim>\<open>runtime/audit/src/entry.rs\<close>, \<^verbatim>\<open>chain.rs\<close>, \<^verbatim>\<open>enricher.rs\<close>, \<^verbatim>\<open>sqlite.rs\<close>): entries derived
  from events, sealed into a hash chain, stored in one table and verified.  The table is the list of its
  rows in the order they were inserted; whether an insert succeeds is an argument.  The serialization of
  events and the redactor are parameters.  Shown: the log an enricher writes verifies, a verified chain is
  determined by its last hash, and where the chain breaks: a restart after entries that were created in
  another order than they were sealed, a purge, and a query whose filter is not quoted.
\<close>

section \<open>Entries\<close>

datatype actor_type = Human | Agent | System

fun actor_type_as_str :: "actor_type \<Rightarrow> string" where
  "actor_type_as_str Human = ''human''"
| "actor_type_as_str Agent = ''agent''"
| "actor_type_as_str System = ''system''"

definition parse_actor_type :: "string \<Rightarrow> actor_type" where
  "parse_actor_type s = (if s = ''human'' then Human else if s = ''agent'' then Agent else System)"

record audit_log_entry =
  al_id :: uuid
  al_event_id :: uuid
  al_execution_id :: string
  al_sequence :: int
  al_event_type :: string
  al_actor_id :: string
  al_actor_type :: actor_type
  al_tool_call_hash :: "string option"
  al_policy_decision :: "string option"
  al_http_request_id :: "string option"
  al_http_method :: "string option"
  al_http_path :: "string option"
  al_ip_address :: "string option"
  al_created_at :: timestamp
  al_raw_event :: json
  al_tenant_id :: string
  al_expires_at :: "timestamp option"
  al_redacted :: bool
  al_prev_hash :: "string option"
  al_entry_hash :: "string option"
  al_signature :: "string option"

definition audit_entry_new ::
    "uuid \<Rightarrow> timestamp \<Rightarrow> uuid \<Rightarrow> string \<Rightarrow> int \<Rightarrow> string \<Rightarrow> string \<Rightarrow> actor_type \<Rightarrow> json \<Rightarrow> audit_log_entry" where
  "audit_entry_new i now event_id e seq event_type actor_id actor_type raw_event =
     \<lparr>al_id = i, al_event_id = event_id, al_execution_id = e, al_sequence = seq, al_event_type = event_type,
      al_actor_id = actor_id, al_actor_type = actor_type, al_tool_call_hash = None, al_policy_decision = None,
      al_http_request_id = None, al_http_method = None, al_http_path = None, al_ip_address = None,
      al_created_at = now, al_raw_event = raw_event, al_tenant_id = ''default'', al_expires_at = None,
      al_redacted = False, al_prev_hash = None, al_entry_hash = None, al_signature = None\<rparr>"

definition field_sep :: nat where "field_sep = 31"

definition to_le_bytes :: "int \<Rightarrow> nat list" where
  "to_le_bytes i = map (\<lambda>k. nat (i div 256 ^ k mod 256)) [0..<8]"

abbreviation or_empty :: "string option \<Rightarrow> string" where
  "or_empty v \<equiv> (case v of Some s \<Rightarrow> s | None \<Rightarrow> [])"

text \<open>The fields in the order they are hashed, and the bytes: each field followed by the separator.\<close>

definition entry_fields :: "audit_externals \<Rightarrow> audit_log_entry \<Rightarrow> string option \<Rightarrow> nat list list" where
  "entry_fields ax en prev_hash =
     [ax_uuid_bytes ax (al_id en), ax_uuid_bytes ax (al_event_id en), utf8 (al_execution_id en), to_le_bytes (al_sequence en),
      utf8 (al_event_type en), utf8 (al_actor_id en), utf8 (actor_type_as_str (al_actor_type en)), utf8 (or_empty (al_tool_call_hash en)),
      utf8 (or_empty (al_policy_decision en)), utf8 (or_empty (al_http_request_id en)), utf8 (or_empty (al_http_method en)),
      utf8 (or_empty (al_http_path en)), utf8 (or_empty (al_ip_address en)), utf8 (ax_rfc3339 ax (al_created_at en)),
      utf8 (ax_json_text ax (al_raw_event en)), utf8 (al_tenant_id en), utf8 (or_empty (map_option (ax_rfc3339 ax) (al_expires_at en))),
      [if al_redacted en then 1 else 0], utf8 (or_empty prev_hash)]"

definition separated :: "nat list list \<Rightarrow> nat list" where
  "separated fs = concat (map (\<lambda>f. f @ [field_sep]) fs)"

definition entry_content_hash :: "audit_externals \<Rightarrow> audit_log_entry \<Rightarrow> string option \<Rightarrow> string" where
  "entry_content_hash ax en prev_hash = hex_encode (ax_sha256 ax (separated (entry_fields ax en prev_hash)))"

definition seal_chain :: "audit_externals \<Rightarrow> audit_signer \<Rightarrow> string option \<Rightarrow> audit_log_entry \<Rightarrow> audit_log_entry" where
  "seal_chain ax signer prev_hash en =
     (let hash = entry_content_hash ax en prev_hash
      in en\<lparr>al_signature := sign ax signer hash, al_entry_hash := Some hash, al_prev_hash := prev_hash\<rparr>)"

section \<open>Verification\<close>

datatype chain_error =
    Unsealed nat
  | Unsigned nat
  | BrokenLink nat
  | HashMismatch nat
  | BadSignature nat

fun chain_error_index :: "chain_error \<Rightarrow> nat" where
  "chain_error_index (Unsealed i) = i"
| "chain_error_index (Unsigned i) = i"
| "chain_error_index (BrokenLink i) = i"
| "chain_error_index (HashMismatch i) = i"
| "chain_error_index (BadSignature i) = i"

definition verify_entry :: "audit_externals \<Rightarrow> audit_signer \<Rightarrow> audit_log_entry \<Rightarrow> chain_error + unit" where
  "verify_entry ax signer en =
     (case al_entry_hash en of
        None \<Rightarrow> Inl (Unsealed 0)
      | Some entry_hash \<Rightarrow>
          (case al_signature en of
             None \<Rightarrow> Inl (Unsigned 0)
           | Some signature \<Rightarrow>
               if entry_content_hash ax en (al_prev_hash en) \<noteq> entry_hash then Inl (HashMismatch 0)
               else if \<not> verify ax signer entry_hash signature then Inl (BadSignature 0)
               else Inr ()))"

text \<open>The loop of \<^verbatim>\<open>verify_chain\<close>, from an index and the hash of the entry before it.\<close>

fun verify_from :: "audit_externals \<Rightarrow> audit_signer \<Rightarrow> nat \<Rightarrow> string option \<Rightarrow> audit_log_entry list \<Rightarrow> chain_error + unit" where
  "verify_from ax signer index prev [] = Inr ()"
| "verify_from ax signer index prev (en # rest) =
     (case al_entry_hash en of
        None \<Rightarrow> Inl (Unsealed index)
      | Some entry_hash \<Rightarrow>
          (case al_signature en of
             None \<Rightarrow> Inl (Unsigned index)
           | Some signature \<Rightarrow>
               if al_prev_hash en \<noteq> prev then Inl (BrokenLink index)
               else if entry_content_hash ax en (al_prev_hash en) \<noteq> entry_hash then Inl (HashMismatch index)
               else if \<not> verify ax signer entry_hash signature then Inl (BadSignature index)
               else verify_from ax signer (Suc index) (Some entry_hash) rest))"

definition verify_chain :: "audit_externals \<Rightarrow> audit_signer \<Rightarrow> audit_log_entry list \<Rightarrow> chain_error + unit" where
  "verify_chain ax signer entries = verify_from ax signer 0 None entries"

section \<open>Deriving an entry from an event\<close>

record request_context =
  rc_request_id :: "string option"
  rc_method :: "string option"
  rc_path :: "string option"
  rc_ip :: "string option"
  rc_actor_id :: string
  rc_actor_type :: actor_type
  rc_tenant_id :: string
  rc_data_policy :: "data_policy_ir option"

definition system_for_tenant :: "string \<Rightarrow> string \<Rightarrow> request_context" where
  "system_for_tenant worker_id tenant_id =
     \<lparr>rc_request_id = None, rc_method = None, rc_path = None, rc_ip = None, rc_actor_id = worker_id,
      rc_actor_type = System, rc_tenant_id = tenant_id, rc_data_policy = None\<rparr>"

definition system_context :: "string \<Rightarrow> request_context" where
  "system_context worker_id = system_for_tenant worker_id ''default''"

definition derive_actor_id :: "event_kind \<Rightarrow> string \<Rightarrow> string" where
  "derive_actor_id kind dflt =
     (case kind of
        ApprovalReceived ar \<Rightarrow> (case ar_principal ar of Some p \<Rightarrow> p | None \<Rightarrow> ar_user_id ar)
      | ApprovalExpired _ _ _ who \<Rightarrow> who
      | NodeStarted _ worker _ \<Rightarrow> worker
      | _ \<Rightarrow> dflt)"

definition derive_actor_type :: "event_kind \<Rightarrow> actor_type \<Rightarrow> actor_type" where
  "derive_actor_type kind dflt =
     (case kind of
        ApprovalReceived _ \<Rightarrow> Human
      | NodeStarted _ _ _ \<Rightarrow> System | NodeCompleted _ \<Rightarrow> System | NodeFailed _ _ _ _ \<Rightarrow> System | NodeScheduled _ _ \<Rightarrow> System
      | PolicyViolation _ _ _ _ \<Rightarrow> System | ToolApprovalRequired _ _ _ _ \<Rightarrow> System | ApprovalExpired _ _ _ _ \<Rightarrow> System
      | ApprovalEscalated _ _ _ _ \<Rightarrow> System | AutonomyLimitReached _ _ _ _ _ \<Rightarrow> System | CircuitBreakerTripped _ _ _ _ \<Rightarrow> System
      | EscalationRequired _ _ _ _ \<Rightarrow> System | TokenBudgetExceeded _ _ _ _ \<Rightarrow> System | CostBudgetExceeded _ _ _ \<Rightarrow> System
      | _ \<Rightarrow> dflt)"

definition tool_call_digest :: "audit_externals \<Rightarrow> string \<Rightarrow> string \<Rightarrow> string" where
  "tool_call_digest ax tool input = hex_encode (ax_sha256 ax (utf8 tool @ utf8 '':'' @ utf8 input))"

definition extract_tool_call_hash :: "audit_externals \<Rightarrow> event_kind \<Rightarrow> string option" where
  "extract_tool_call_hash ax kind =
     (case kind of
        ToolCalled _ tool \<Rightarrow> Some (tool_call_digest ax tool ''{}'')
      | ToolApprovalRequired _ tool _ ctx \<Rightarrow> Some (tool_call_digest ax tool (ax_json_text ax ctx))
      | _ \<Rightarrow> None)"

definition extract_policy_decision :: "event_kind \<Rightarrow> string option" where
  "extract_policy_decision kind =
     (case kind of
        PolicyViolation _ _ decision _ \<Rightarrow> Some decision
      | ToolApprovalRequired _ _ _ _ \<Rightarrow> Some ''require_approval''
      | _ \<Rightarrow> None)"

definition remove_members :: "string list \<Rightarrow> json \<Rightarrow> json" where
  "remove_members keys raw = (case raw of JObject m \<Rightarrow> JObject (fold bt_remove keys m) | _ \<Rightarrow> raw)"

definition strip_prompts :: "json \<Rightarrow> json" where
  "strip_prompts raw = remove_members [''prompt'', ''system_prompt'', ''input_messages''] raw"

definition strip_outputs :: "json \<Rightarrow> json" where
  "strip_outputs raw = remove_members [''output'', ''completion'', ''response''] raw"

text \<open>\<open>av_redactor\<close> is the redactor of a policy, when it has anything to redact.\<close>

record audit_env =
  av_ax :: audit_externals
  av_event_json :: "event_kind \<Rightarrow> json"
  av_redactor :: "data_policy_ir \<Rightarrow> (json \<Rightarrow> json) option"

definition apply_data_policy :: "audit_env \<Rightarrow> data_policy_ir \<Rightarrow> audit_log_entry \<Rightarrow> audit_log_entry" where
  "apply_data_policy av policy en =
     (let en = (case av_redactor av policy of
                  Some redact \<Rightarrow> en\<lparr>al_raw_event := redact (al_raw_event en), al_redacted := True\<rparr>
                | None \<Rightarrow> en);
          en = (case dp_retention_days policy of
                  Some days \<Rightarrow> en\<lparr>al_expires_at := Some (al_created_at en + int days * 86400000)\<rparr>
                | None \<Rightarrow> en);
          en = (if \<not> dp_retain_prompts policy then en\<lparr>al_raw_event := strip_prompts (al_raw_event en)\<rparr> else en)
      in if \<not> dp_retain_outputs policy then en\<lparr>al_raw_event := strip_outputs (al_raw_event en)\<rparr> else en)"

definition derive_entry :: "audit_env \<Rightarrow> uuid \<Rightarrow> timestamp \<Rightarrow> event \<Rightarrow> request_context \<Rightarrow> audit_log_entry" where
  "derive_entry av i now event ctx =
     (let kind = ev_kind event;
          en = audit_entry_new i now (ev_id event) (exec_label (ev_execution_id event)) (ev_sequence event) (kind_tag kind)
                 (derive_actor_id kind (rc_actor_id ctx)) (derive_actor_type kind (rc_actor_type ctx)) (av_event_json av kind);
          en = en\<lparr>al_http_request_id := rc_request_id ctx, al_http_method := rc_method ctx, al_http_path := rc_path ctx,
                  al_ip_address := rc_ip ctx, al_tool_call_hash := extract_tool_call_hash (av_ax av) kind,
                  al_policy_decision := extract_policy_decision kind, al_tenant_id := rc_tenant_id ctx\<rparr>
      in (case rc_data_policy ctx of Some policy \<Rightarrow> apply_data_policy av policy en | None \<Rightarrow> en))"

section \<open>The enricher and its table\<close>

record audit_enricher =
  en_signer :: audit_signer
  en_seeded :: bool
  en_head :: "string option"
  en_seal_failures :: nat

definition enricher_with_signer :: "audit_signer \<Rightarrow> audit_enricher" where
  "enricher_with_signer signer = \<lparr>en_signer = signer, en_seeded = False, en_head = None, en_seal_failures = 0\<rparr>"

text \<open>\<^verbatim>\<open>INSERT OR IGNORE\<close> on the primary key.\<close>

definition append_row :: "audit_log_entry \<Rightarrow> audit_log_entry list \<Rightarrow> audit_log_entry list" where
  "append_row en rows = (if al_id en \<in> al_id ` set rows then rows else rows @ [en])"

text \<open>\<^verbatim>\<open>ORDER BY created_at DESC LIMIT 1\<close>: a row with the greatest time of creation; SQL leaves the order of
  equal times open, here the row inserted last comes first.\<close>

definition newest_row :: "audit_log_entry list \<Rightarrow> audit_log_entry option" where
  "newest_row rows =
     fold (\<lambda>r best. case best of
                      Some b \<Rightarrow> if al_created_at r \<ge> al_created_at b then Some r else best
                    | None \<Rightarrow> Some r) rows None"

definition latest_entry_hash :: "audit_log_entry list \<Rightarrow> string option" where
  "latest_entry_hash rows = Option.bind (newest_row rows) al_entry_hash"

text \<open>\<open>reads\<close> and \<open>writes\<close> say whether the database answers the query and takes the insert.\<close>

definition seal_entry ::
    "audit_env \<Rightarrow> uuid \<Rightarrow> timestamp \<Rightarrow> event \<Rightarrow> request_context option \<Rightarrow> bool \<Rightarrow> bool \<Rightarrow>
     audit_enricher \<times> audit_log_entry list \<Rightarrow> (audit_enricher \<times> audit_log_entry list) \<times> (string + unit)" where
  "seal_entry av i now event ctx reads writes st =
     (case st of (enr, rows) \<Rightarrow>
        (let ctx = (case ctx of Some c \<Rightarrow> c | None \<Rightarrow> system_context ''system'');
             enr = (if \<not> en_seeded enr
                    then enr\<lparr>en_head := (if reads then latest_entry_hash rows else None), en_seeded := True\<rparr> else enr);
             en = seal_chain (av_ax av) (en_signer enr) (en_head enr) (derive_entry av i now event ctx)
         in if writes then ((enr\<lparr>en_head := al_entry_hash en\<rparr>, append_row en rows), Inr ())
            else ((enr, rows), Inl ''audit log write failed'')))"

definition try_enrich_and_append ::
    "audit_env \<Rightarrow> uuid \<Rightarrow> timestamp \<Rightarrow> event \<Rightarrow> request_context option \<Rightarrow> bool \<Rightarrow> bool \<Rightarrow>
     audit_enricher \<times> audit_log_entry list \<Rightarrow> (audit_enricher \<times> audit_log_entry list) \<times> (string + unit)" where
  "try_enrich_and_append av i now event ctx reads writes st =
     (case seal_entry av i now event ctx reads writes st of
        ((enr, rows), Inl err) \<Rightarrow> ((enr\<lparr>en_seal_failures := wrap_u64 (en_seal_failures enr + 1)\<rparr>, rows), Inl err)
      | (st, Inr u) \<Rightarrow> (st, Inr u))"

definition seal_approval_record ::
    "audit_env \<Rightarrow> uuid \<Rightarrow> timestamp \<Rightarrow> event \<Rightarrow> string \<Rightarrow> bool \<Rightarrow> bool \<Rightarrow>
     audit_enricher \<times> audit_log_entry list \<Rightarrow> (audit_enricher \<times> audit_log_entry list) \<times> (string + unit)" where
  "seal_approval_record av i now event tenant_id reads writes st =
     try_enrich_and_append av i now event (Some (system_for_tenant ''system'' tenant_id)) reads writes st"

definition purge_expired :: "timestamp \<Rightarrow> audit_log_entry list \<Rightarrow> audit_log_entry list" where
  "purge_expired now rows = filter (\<lambda>r. case al_expires_at r of Some t \<Rightarrow> \<not> t < now | None \<Rightarrow> True) rows"

section \<open>The text of a query\<close>

record audit_query =
  aq_from :: "timestamp option"
  aq_to :: "timestamp option"
  aq_actor_id :: "string option"
  aq_event_type :: "string option"
  aq_execution_id :: "string option"
  aq_tenant_id :: "string option"
  aq_limit :: nat
  aq_offset :: nat

definition sql_quote :: char where "sql_quote = CHR 0x27"

definition quoted :: "string \<Rightarrow> string \<Rightarrow> string" where
  "quoted test v = test @ [sql_quote] @ v @ [sql_quote]"

fun join_with :: "string \<Rightarrow> string list \<Rightarrow> string" where
  "join_with sep [] = []"
| "join_with sep [s] = s"
| "join_with sep (s # t # ss) = s @ sep @ join_with sep (t # ss)"

definition where_clause :: "audit_externals \<Rightarrow> audit_query \<Rightarrow> string" where
  "where_clause ax q =
     join_with '' AND ''
       ([''1=1''] @
        (case aq_from q of Some t \<Rightarrow> [quoted ''created_at >= '' (ax_rfc3339 ax t)] | None \<Rightarrow> []) @
        (case aq_to q of Some t \<Rightarrow> [quoted ''created_at <= '' (ax_rfc3339 ax t)] | None \<Rightarrow> []) @
        (case aq_actor_id q of Some a \<Rightarrow> [quoted ''actor_id = '' a] | None \<Rightarrow> []) @
        (case aq_event_type q of Some a \<Rightarrow> [quoted ''event_type = '' a] | None \<Rightarrow> []) @
        (case aq_execution_id q of Some a \<Rightarrow> [quoted ''execution_id = '' a] | None \<Rightarrow> []) @
        (case aq_tenant_id q of Some a \<Rightarrow> [quoted ''tenant_id = '' a] | None \<Rightarrow> []))"

definition query_sql :: "audit_externals \<Rightarrow> audit_query \<Rightarrow> string" where
  "query_sql ax q =
     ''SELECT * FROM audit_log WHERE '' @ where_clause ax q @ '' ORDER BY created_at DESC LIMIT '' @ show_nat (aq_limit q) @
     '' OFFSET '' @ show_nat (aq_offset q)"

definition count_sql :: "audit_externals \<Rightarrow> audit_query \<Rightarrow> string" where
  "count_sql ax q = ''SELECT COUNT(*) FROM audit_log WHERE '' @ where_clause ax q"

section \<open>The chain an enricher writes\<close>

definition link_ok :: "audit_externals \<Rightarrow> audit_signer \<Rightarrow> string option \<Rightarrow> audit_log_entry \<Rightarrow> bool" where
  "link_ok ax signer prev en =
     (al_prev_hash en = prev \<and> al_entry_hash en = Some (entry_content_hash ax en prev) \<and>
      (\<exists>sig. al_signature en = Some sig \<and> verify ax signer (entry_content_hash ax en prev) sig))"

fun linked :: "audit_externals \<Rightarrow> audit_signer \<Rightarrow> string option \<Rightarrow> audit_log_entry list \<Rightarrow> bool" where
  "linked ax signer prev [] = True"
| "linked ax signer prev (en # rest) = (link_ok ax signer prev en \<and> linked ax signer (al_entry_hash en) rest)"

definition chain_end :: "string option \<Rightarrow> audit_log_entry list \<Rightarrow> string option" where
  "chain_end prev rows = (if rows = [] then prev else al_entry_hash (last rows))"

lemma verify_from_linked: "verify_from ax signer k prev rows = Inr () \<longleftrightarrow> linked ax signer prev rows"
proof (induction rows arbitrary: k prev)
  case (Cons en rows)
  then show ?case by (auto simp: link_ok_def split: option.splits)
qed simp

lemma verify_chain_linked: "verify_chain ax signer rows = Inr () \<longleftrightarrow> linked ax signer None rows"
  by (simp add: verify_chain_def verify_from_linked)

lemma linked_append: "linked ax signer prev (xs @ ys) \<longleftrightarrow> linked ax signer prev xs \<and> linked ax signer (chain_end prev xs) ys"
  by (induction xs arbitrary: prev) (auto simp: chain_end_def)

lemma verify_from_append:
  "linked ax signer prev xs \<Longrightarrow> verify_from ax signer k prev (xs @ ys) = verify_from ax signer (k + length xs) (chain_end prev xs) ys"
proof (induction xs arbitrary: k prev)
  case (Cons en xs)
  then have "link_ok ax signer prev en" "linked ax signer (al_entry_hash en) xs" by simp_all
  moreover have "chain_end prev (en # xs) = chain_end (al_entry_hash en) xs" by (simp add: chain_end_def)
  ultimately show ?case using Cons.IH by (auto simp: link_ok_def)
qed (simp add: chain_end_def)

lemma newest_row_Nil [simp]: "newest_row [] = None"
  by (simp add: newest_row_def)

lemma newest_row_snoc:
  "newest_row (rows @ [r]) =
     (case newest_row rows of Some b \<Rightarrow> if al_created_at r \<ge> al_created_at b then Some r else Some b | None \<Rightarrow> Some r)"
  by (simp add: newest_row_def split: option.splits)

lemma newest_row_in: "newest_row rows = Some r \<Longrightarrow> r \<in> set rows"
  by (induction rows arbitrary: r rule: rev_induct) (auto simp: newest_row_snoc split: option.splits if_splits)

lemma newest_row_last: "\<forall>r \<in> set rows. al_created_at r \<le> al_created_at en \<Longrightarrow> newest_row (rows @ [en]) = Some en"
  using newest_row_in [of rows] by (auto simp: newest_row_snoc split: option.splits)

lemma entry_content_hash_sealed [simp]:
  "entry_content_hash ax (en\<lparr>al_signature := s, al_entry_hash := h, al_prev_hash := p\<rparr>) prev = entry_content_hash ax en prev"
  by (simp add: entry_content_hash_def entry_fields_def)

lemma derive_entry_simps [simp]:
  "al_id (derive_entry av i now event ctx) = i" "al_created_at (derive_entry av i now event ctx) = now"
  by (simp_all add: derive_entry_def audit_entry_new_def apply_data_policy_def Let_def split: option.splits)

lemma seal_chain_simps [simp]:
  "al_id (seal_chain ax signer p en) = al_id en" "al_created_at (seal_chain ax signer p en) = al_created_at en"
  "al_prev_hash (seal_chain ax signer p en) = p" "al_entry_hash (seal_chain ax signer p en) = Some (entry_content_hash ax en p)"
  by (simp_all add: seal_chain_def Let_def)

lemma sealed_link:
  assumes "crypto_ok ax" and "signer_ok ax signer" and "can_sign signer"
  shows "link_ok ax signer p (seal_chain ax signer p en)"
  using own_signature_verifies [OF assms, of "entry_content_hash ax en p"]
  by (auto simp: link_ok_def seal_chain_def Let_def)

text \<open>The states a process that seals entries goes through: sealing, failed or not, and restarts.\<close>

inductive audit_history :: "audit_env \<Rightarrow> audit_signer \<Rightarrow> audit_enricher \<times> audit_log_entry list \<Rightarrow> bool"
  for av signer where
  start: "audit_history av signer (enricher_with_signer signer, [])"
| sealing: "audit_history av signer (enr, rows) \<Longrightarrow> i \<notin> al_id ` set rows \<Longrightarrow> \<forall>r \<in> set rows. al_created_at r \<le> now \<Longrightarrow>
    en_seeded enr \<or> reads \<or> rows = [] \<Longrightarrow>
    audit_history av signer (fst (try_enrich_and_append av i now event ctx reads writes (enr, rows)))"
| restart: "audit_history av signer (enr, rows) \<Longrightarrow> audit_history av signer (enricher_with_signer signer, rows)"

definition head_ok :: "audit_externals \<Rightarrow> audit_signer \<Rightarrow> audit_enricher \<times> audit_log_entry list \<Rightarrow> bool" where
  "head_ok ax signer st =
     (case st of (enr, rows) \<Rightarrow>
        en_signer enr = signer \<and> linked ax signer None rows \<and> latest_entry_hash rows = chain_end None rows \<and>
        (en_seeded enr \<longrightarrow> en_head enr = chain_end None rows))"

lemma sealing_keeps_head:
  assumes keys: "crypto_ok (av_ax av)" "signer_ok (av_ax av) signer" "can_sign signer"
    and ok: "head_ok (av_ax av) signer (enr, rows)" and fresh: "i \<notin> al_id ` set rows"
    and times: "\<forall>r \<in> set rows. al_created_at r \<le> now" and reads: "en_seeded enr \<or> reads \<or> rows = []"
  shows "head_ok (av_ax av) signer (fst (try_enrich_and_append av i now event ctx reads writes (enr, rows)))"
proof -
  define h where "h = chain_end None rows"
  define enr' where "enr' = (if \<not> en_seeded enr
      then enr\<lparr>en_head := (if reads then latest_entry_hash rows else None), en_seeded := True\<rparr> else enr)"
  define en where "en = seal_chain (av_ax av) signer h
      (derive_entry av i now event (case ctx of Some c \<Rightarrow> c | None \<Rightarrow> system_context ''system''))"
  have lk: "linked (av_ax av) signer None rows" and lh: "latest_entry_hash rows = h" and sg: "en_signer enr = signer"
    using ok by (simp_all add: head_ok_def h_def)
  have e': "en_head enr' = h" "en_signer enr' = signer" "en_seeded enr'"
    using ok reads sg lh by (auto simp: enr'_def head_ok_def h_def chain_end_def)
  have "linked (av_ax av) signer None (rows @ [en])"
    using lk sealed_link [OF keys] by (simp add: linked_append h_def en_def)
  moreover have "latest_entry_hash (rows @ [en]) = al_entry_hash en"
    using newest_row_last [of rows en] times by (simp add: latest_entry_hash_def en_def)
  moreover have "append_row en rows = rows @ [en]" using fresh by (simp add: append_row_def en_def)
  moreover have "seal_entry av i now event ctx reads writes (enr, rows) =
      (if writes then ((enr'\<lparr>en_head := al_entry_hash en\<rparr>, append_row en rows), Inr ())
       else ((enr', rows), Inl ''audit log write failed''))"
    unfolding seal_entry_def Let_def prod.case enr'_def [symmetric] e' en_def [symmetric] ..
  ultimately show ?thesis
    using lk lh e' by (simp add: try_enrich_and_append_def head_ok_def h_def chain_end_def)
qed

lemma audit_history_head:
  assumes "crypto_ok (av_ax av)" and "signer_ok (av_ax av) signer" and "can_sign signer"
  shows "audit_history av signer st \<Longrightarrow> head_ok (av_ax av) signer st"
proof (induction rule: audit_history.induct)
  case start
  show ?case by (simp add: head_ok_def enricher_with_signer_def latest_entry_hash_def chain_end_def)
next
  case (restart enr rows)
  then show ?case by (simp add: head_ok_def enricher_with_signer_def)
qed (rule sealing_keeps_head [OF assms])

definition sample_av :: audit_env where
  "sample_av = \<lparr>av_ax = sample_ax\<lparr>ax_sha256 := (\<lambda>m. 0 # map (\<lambda>b. b mod 256) m), ax_json_text := (\<lambda>_. ''null'')\<rparr>, av_event_json = (\<lambda>_. JNull), av_redactor = (\<lambda>_. None)\<rparr>"

definition sample_sealed :: "string option \<Rightarrow> uuid \<Rightarrow> timestamp \<Rightarrow> timestamp option \<Rightarrow> audit_log_entry" where
  "sample_sealed prev i now t =
     seal_chain (av_ax sample_av) (signer_new [1, 2]) prev
       ((audit_entry_new i now ''c'' ''exec_1'' 1 ''workflow_started'' ''system'' System JNull)\<lparr>al_expires_at := t\<rparr>)"

lemma sample_keys: "crypto_ok (av_ax sample_av)" "signer_ok (av_ax sample_av) (signer_new k)" "can_sign (signer_new k)"
  using sample_crypto_ok by (simp_all add: crypto_ok_def sample_av_def signer_ok_def signer_new_def can_sign_def)

lemma sample_pair_verifies:
  "verify_chain (av_ax sample_av) (signer_new [1, 2])
     [sample_sealed None ''a'' t u, sample_sealed (al_entry_hash (sample_sealed None ''a'' t u)) ''b'' t' u'] = Inr ()"
  by (simp add: verify_chain_linked sample_sealed_def del: seal_chain_simps add: sealed_link [OF sample_keys])

text \<open>C35: The log one process after another writes verifies: however many entries are sealed, fail to be written,
  or are preceded by a restart, the whole table passes \<^verbatim>\<open>verify_chain\<close>, as long as all of them use one signer
  and it holds a key that can sign, ids are new, no entry is created before one already stored, and the first
  query after a restart is answered.  Without \<^verbatim>\<open>JAMJET_AUDIT_SIGNING_KEY\<close>, which is the default, entries stay
  unsigned and \<^verbatim>\<open>verify_chain\<close> says so.  The hash and signature functions are assumed to yield bytes, a signature
  of Ed25519 to have 64 of them and to verify, and the id of an Ed25519 key to be derived from it.\<close>

theorem sealed_log_verifies:
  assumes "crypto_ok (av_ax av)" and "signer_ok (av_ax av) signer" and "can_sign signer"
    and "audit_history av signer (enr, rows)"
  shows "verify_chain (av_ax av) signer rows = Inr ()"
  using audit_history_head [OF assms] by (simp add: head_ok_def verify_chain_linked)

definition sample_audit_event :: event where
  "sample_audit_event = \<lparr>ev_id = ''b'', ev_execution_id = ''1'', ev_sequence = 1, ev_kind = WorkflowCancelled None, ev_created_at = 5\<rparr>"

theorem sealed_log_verifies_witness:
  "verify_chain (av_ax sample_av) (signer_new [1, 2])
     (snd (fst (try_enrich_and_append sample_av ''a'' 5 sample_audit_event None True True (enricher_with_signer (signer_new [1, 2]), [])))) = Inr ()"
proof -
  have "audit_history sample_av (signer_new [1, 2])
      (fst (try_enrich_and_append sample_av ''a'' 5 sample_audit_event None True True (enricher_with_signer (signer_new [1, 2]), [])))"
    by (rule audit_history.sealing [OF audit_history.start]) simp_all
  then show ?thesis using sealed_log_verifies [OF sample_keys] by (metis prod.collapse)
qed

text \<open>Where those conditions matter: the first entry after a restart continues a verified log if the query for
  the latest hash was answered with the hash of the row inserted last.  The row the query returns is the
  one created last, which need not be the one sealed last: the time is taken before the chain is locked.
  Otherwise the log no longer verifies from that entry on.\<close>

theorem restart_resumes_chain:
  assumes "crypto_ok (av_ax av)" and "signer_ok (av_ax av) signer" and "can_sign signer"
    and "verify_chain (av_ax av) signer rows = Inr ()" and "rows \<noteq> []" and "i \<notin> al_id ` set rows"
  shows "verify_chain (av_ax av) signer
      (snd (fst (seal_entry av i now event ctx reads True (enricher_with_signer signer, rows)))) =
    (if reads \<and> latest_entry_hash rows = al_entry_hash (last rows) then Inr () else Inl (BrokenLink (length rows)))"
proof -
  define h where "h = (if reads then latest_entry_hash rows else None)"
  define en where "en = seal_chain (av_ax av) signer h
      (derive_entry av i now event (case ctx of Some c \<Rightarrow> c | None \<Rightarrow> system_context ''system''))"
  have lk: "linked (av_ax av) signer None rows" using assms(4) by (simp add: verify_chain_linked)
  have "snd (fst (seal_entry av i now event ctx reads True (enricher_with_signer signer, rows))) = rows @ [en]"
    using assms(6) by (simp add: seal_entry_def enricher_with_signer_def append_row_def en_def h_def Let_def)
  then have "verify_chain (av_ax av) signer
      (snd (fst (seal_entry av i now event ctx reads True (enricher_with_signer signer, rows)))) =
      verify_from (av_ax av) signer (length rows) (al_entry_hash (last rows)) [en]"
    using lk assms(5) by (simp add: verify_chain_def verify_from_append chain_end_def)
  moreover have lo: "link_ok (av_ax av) signer h en" unfolding en_def by (rule sealed_link [OF assms(1-3)])
  then have "verify_from (av_ax av) signer (length rows) (al_entry_hash (last rows)) [en] =
      (if h = al_entry_hash (last rows) then Inr () else Inl (BrokenLink (length rows)))"
    by (auto simp: link_ok_def)
  moreover have "al_entry_hash (last rows) \<noteq> None"
    using lk assms(5) linked_append [of "av_ax av" signer None "butlast rows" "[last rows]"] by (simp add: link_ok_def)
  then have "h = al_entry_hash (last rows) \<longleftrightarrow> reads \<and> latest_entry_hash rows = al_entry_hash (last rows)"
    by (auto simp: h_def)
  ultimately show ?thesis by simp
qed

theorem restart_resumes_chain_witness:
  "verify_chain (av_ax sample_av) (signer_new [1, 2])
     (snd (fst (seal_entry sample_av ''d'' 7 sample_audit_event
        None True True (enricher_with_signer (signer_new [1, 2]),
          [sample_sealed None ''a'' 5 None, sample_sealed (al_entry_hash (sample_sealed None ''a'' 5 None)) ''b'' 4 None])))) = Inl (BrokenLink 2)"
proof -
  let ?a = "sample_sealed None ''a'' 5 None" let ?b = "sample_sealed (al_entry_hash ?a) ''b'' 4 None"
  have "latest_entry_hash [?a, ?b] = al_entry_hash ?a"
    by (simp add: latest_entry_hash_def newest_row_def sample_sealed_def audit_entry_new_def)
  moreover have "al_entry_hash ?a \<noteq> al_entry_hash ?b"
    by (simp add: sample_sealed_def entry_content_hash_def entry_fields_def separated_def hex_encode_def hex_byte_def hex_digit_def
        sample_av_def sample_ax_def audit_entry_new_def)
  moreover have "''d'' \<notin> al_id ` set [?a, ?b]" by (simp add: sample_sealed_def audit_entry_new_def)
  ultimately show ?thesis using restart_resumes_chain [OF sample_keys sample_pair_verifies, where i = "''d''"] by simp
qed

lemma linked_has_prev: "linked ax signer (Some h) rows \<Longrightarrow> f \<in> set rows \<Longrightarrow> \<exists>p. link_ok ax signer (Some p) f"
  by (induction rows arbitrary: h) (auto simp: link_ok_def)

text \<open>A retention purge that removes the first row and keeps a later one leaves a log that does not verify:
  the rows that are kept still name the hash of a row that is gone.\<close>

theorem purge_breaks_chain:
  assumes "verify_chain ax signer (en # rows) = Inr ()" and "al_expires_at en = Some t" and "t < now"
    and "purge_expired now rows \<noteq> []"
  shows "verify_chain ax signer (purge_expired now (en # rows)) = Inl (BrokenLink 0)"
proof -
  obtain f rest where f: "purge_expired now rows = f # rest" using assms(4) by (cases "purge_expired now rows") auto
  then have "f \<in> set (purge_expired now rows)" by simp
  then have "f \<in> set rows" by (auto simp: purge_expired_def)
  moreover have "linked ax signer (Some (entry_content_hash ax en None)) rows"
    using assms(1) by (auto simp: verify_chain_linked link_ok_def)
  ultimately obtain p where "link_ok ax signer (Some p) f" using linked_has_prev by blast
  moreover have "purge_expired now (en # rows) = f # rest" using assms(2,3) f by (simp add: purge_expired_def)
  ultimately show ?thesis by (auto simp: verify_chain_def link_ok_def)
qed

theorem purge_breaks_chain_witness:
  "verify_chain (av_ax sample_av) (signer_new [1, 2])
     (purge_expired 9 [sample_sealed None ''a'' 5 (Some 8), sample_sealed (al_entry_hash (sample_sealed None ''a'' 5 (Some 8))) ''b'' 6 None]) =
   Inl (BrokenLink 0)"
  by (rule purge_breaks_chain [OF sample_pair_verifies, where t = 8]) (simp_all add: sample_sealed_def seal_chain_def purge_expired_def audit_entry_new_def Let_def)

section \<open>Tamper evidence\<close>

definition no_sep :: "string \<Rightarrow> bool" where "no_sep s = (CHR 0x1F \<notin> set s)"

lemma no_sep_utf8: "no_sep s \<Longrightarrow> field_sep \<notin> set (utf8 s)"
proof
  assume "no_sep s" and "field_sep \<in> set (utf8 s)"
  then obtain c where "c \<in> set s" and "field_sep \<in> set (utf8_char c)" by (auto simp: utf8_def)
  then have "of_char c = (31 :: nat)" by (auto simp: utf8_char_def field_sep_def Let_def split: if_splits)
  then have "of_char c = (of_char CHR 0x1F :: nat)" by simp
  then have "c = CHR 0x1F" by (rule of_char_eq_iff [THEN iffD1])
  then show False using \<open>no_sep s\<close> \<open>c \<in> set s\<close> by (simp add: no_sep_def)
qed

lemma utf8_eq_iff: "utf8 s = utf8 t \<longleftrightarrow> s = t"
  using utf8_inj by blast

lemma sep_cut: "field_sep \<notin> set f \<Longrightarrow> field_sep \<notin> set g \<Longrightarrow> f @ field_sep # r = g @ field_sep # t \<Longrightarrow> f = g \<and> r = t"
proof (induction f arbitrary: g)
  case Nil
  then show ?case by (cases g) auto
next
  case (Cons b f)
  then show ?case by (cases g) auto
qed

lemma separated_inj:
  "list_all2 (\<lambda>f g. length f = length g \<or> field_sep \<notin> set f \<and> field_sep \<notin> set g) fs gs \<Longrightarrow>
   separated fs = separated gs \<Longrightarrow> fs = gs"
proof (induction rule: list_all2_induct)
  case (Cons f fs g gs)
  then have "f @ field_sep # separated fs = g @ field_sep # separated gs" by (simp add: separated_def)
  then have "f = g \<and> separated fs = separated gs" using Cons.hyps(1) sep_cut [of f g] by (elim disjE) simp_all
  then show ?case using Cons.IH by simp
qed simp

lemma to_le_bytes_mod: "map (\<lambda>k. nat (i div 256 ^ k mod 256)) [0..<n] = map (\<lambda>k. nat (j div 256 ^ k mod 256)) [0..<n] \<Longrightarrow>
   i mod 256 ^ n = j mod (256 ^ n :: int)"
proof (induction n)
  case (Suc n)
  then have "nat (i div 256 ^ n mod 256) = nat (j div 256 ^ n mod 256)" and IH: "i mod 256 ^ n = j mod 256 ^ n" by simp_all
  then have "i div 256 ^ n mod 256 = j div 256 ^ n mod 256" by (simp add: nat_eq_iff)
  then show ?case using IH by (simp add: mult.commute [of "256 :: int"] zmod_zmult2_eq)
qed simp

lemma to_le_bytes_inj:
  assumes "to_le_bytes i = to_le_bytes j" and "- (2 ^ 63) \<le> i" "i < 2 ^ 63" and "- (2 ^ 63) \<le> j" "j < 2 ^ 63"
  shows "i = j"
proof -
  have "i mod 256 ^ 8 = j mod (256 ^ 8 :: int)" by (rule to_le_bytes_mod) (use assms(1) in \<open>simp add: to_le_bytes_def\<close>)
  then have "(i + 2 ^ 63) mod 2 ^ 64 = (j + 2 ^ 63) mod (2 ^ 64 :: int)" by (auto intro: mod_add_cong)
  then show ?thesis using assms(2-5) by simp
qed

text \<open>What the hash tells apart: an absent text and an empty one are the same to it, and the signature is not
  part of it.\<close>

definition entry_view :: "audit_log_entry \<Rightarrow> audit_log_entry" where
  "entry_view en =
     en\<lparr>al_tool_call_hash := Some (or_empty (al_tool_call_hash en)), al_policy_decision := Some (or_empty (al_policy_decision en)),
        al_http_request_id := Some (or_empty (al_http_request_id en)), al_http_method := Some (or_empty (al_http_method en)),
        al_http_path := Some (or_empty (al_http_path en)), al_ip_address := Some (or_empty (al_ip_address en)),
        al_signature := None\<rparr>"

text \<open>The texts hold no separator, ids are 16 bytes, the sequence is a 64 bit integer and a time has a text.\<close>

definition entry_text_ok :: "audit_externals \<Rightarrow> audit_log_entry \<Rightarrow> bool" where
  "entry_text_ok ax en =
     (length (ax_uuid_bytes ax (al_id en)) = 16 \<and> length (ax_uuid_bytes ax (al_event_id en)) = 16 \<and>
      no_sep (al_execution_id en) \<and> no_sep (al_event_type en) \<and> no_sep (al_actor_id en) \<and> no_sep (or_empty (al_tool_call_hash en)) \<and>
      no_sep (or_empty (al_policy_decision en)) \<and> no_sep (or_empty (al_http_request_id en)) \<and> no_sep (or_empty (al_http_method en)) \<and>
      no_sep (or_empty (al_http_path en)) \<and> no_sep (or_empty (al_ip_address en)) \<and> no_sep (ax_rfc3339 ax (al_created_at en)) \<and>
      no_sep (ax_json_text ax (al_raw_event en)) \<and> no_sep (al_tenant_id en) \<and>
      (case al_expires_at en of None \<Rightarrow> True | Some t \<Rightarrow> no_sep (ax_rfc3339 ax t) \<and> ax_rfc3339 ax t \<noteq> []) \<and>
      - (2 ^ 63) \<le> al_sequence en \<and> al_sequence en < 2 ^ 63)"

text \<open>Ids, times and JSON values have distinct texts among the entries of a set, and SHA-256 has no collision
  among their contents.\<close>

definition encodings_distinct :: "audit_externals \<Rightarrow> audit_log_entry set \<Rightarrow> bool" where
  "encodings_distinct ax E =
     (inj_on (ax_uuid_bytes ax) (al_id ` E \<union> al_event_id ` E) \<and> inj_on (ax_json_text ax) (al_raw_event ` E) \<and>
      inj_on (ax_rfc3339 ax) (al_created_at ` E \<union> {t. \<exists>en \<in> E. al_expires_at en = Some t}) \<and>
      inj_on (ax_sha256 ax) ((\<lambda>en. separated (entry_fields ax en (al_prev_hash en))) ` E) \<and> (\<forall>m. ax_sha256 ax m \<noteq> []))"

lemma entry_fields_view:
  assumes eq: "entry_fields ax en p = entry_fields ax en' p'" and ok: "entry_text_ok ax en" "entry_text_ok ax en'"
    and E: "encodings_distinct ax E" "en \<in> E" "en' \<in> E" and h: "al_entry_hash en = al_entry_hash en'"
    and p: "al_prev_hash en = al_prev_hash en'"
  shows "entry_view en = entry_view en'"
proof -
  have uu: "ax_uuid_bytes ax (al_id en) = ax_uuid_bytes ax (al_id en')" "ax_uuid_bytes ax (al_event_id en) = ax_uuid_bytes ax (al_event_id en')"
    using eq by (simp_all add: entry_fields_def)
  have jt: "ax_json_text ax (al_raw_event en) = ax_json_text ax (al_raw_event en')" "ax_rfc3339 ax (al_created_at en) = ax_rfc3339 ax (al_created_at en')"
    using eq by (simp_all add: entry_fields_def utf8_eq_iff)
  have inj: "inj_on (ax_uuid_bytes ax) (al_id ` E \<union> al_event_id ` E)" "inj_on (ax_json_text ax) (al_raw_event ` E)"
    "inj_on (ax_rfc3339 ax) (al_created_at ` E \<union> {t. \<exists>en \<in> E. al_expires_at en = Some t})"
    using E(1) by (simp_all add: encodings_distinct_def)
  have "al_id en = al_id en'" by (rule inj_onD [OF inj(1) uu(1)]) (use E in simp_all)
  moreover have "al_event_id en = al_event_id en'" by (rule inj_onD [OF inj(1) uu(2)]) (use E in simp_all)
  moreover have "al_raw_event en = al_raw_event en'" by (rule inj_onD [OF inj(2) jt(1)]) (use E in simp_all)
  moreover have "al_created_at en = al_created_at en'" by (rule inj_onD [OF inj(3) jt(2)]) (use E in simp_all)
  moreover have "al_sequence en = al_sequence en'"
    using eq ok by (auto simp: entry_fields_def entry_text_ok_def intro: to_le_bytes_inj)
  moreover have "utf8 (actor_type_as_str (al_actor_type en)) = utf8 (actor_type_as_str (al_actor_type en'))"
    using eq by (simp add: entry_fields_def)
  then have "al_actor_type en = al_actor_type en'" by (cases "al_actor_type en"; cases "al_actor_type en'") (auto simp: utf8_eq_iff)
  moreover have ex: "or_empty (map_option (ax_rfc3339 ax) (al_expires_at en)) = or_empty (map_option (ax_rfc3339 ax) (al_expires_at en'))"
    using eq by (simp add: entry_fields_def utf8_eq_iff)
  then have "al_expires_at en = al_expires_at en'"
  proof (cases "al_expires_at en")
    case None
    then show ?thesis using ex ok(2) by (cases "al_expires_at en'") (auto simp: entry_text_ok_def)
  next
    case (Some t)
    then obtain u where u: "al_expires_at en' = Some u" "ax_rfc3339 ax t = ax_rfc3339 ax u"
      using ex ok(1) by (cases "al_expires_at en'") (auto simp: entry_text_ok_def)
    have "t = u" by (rule inj_onD [OF inj(3) u(2)]) (use E(2,3) Some u(1) in blast)+
    then show ?thesis using Some u by simp
  qed
  moreover have "al_redacted en = al_redacted en'" using eq by (simp add: entry_fields_def split: if_splits)
  ultimately show ?thesis
    using eq h p by (simp add: entry_view_def entry_fields_def utf8_eq_iff)
qed

lemma linked_prev_hex:
  assumes "linked ax signer None rows"
  shows "chain_end None rows = None \<or> (\<exists>m. chain_end None rows = Some (hex_encode (ax_sha256 ax m)))"
  using assms by (cases rows rule: rev_cases) (auto simp: chain_end_def linked_append link_ok_def entry_content_hash_def)

lemma prev_no_sep:
  assumes "linked ax signer None rows" and "crypto_ok ax"
  shows "no_sep (or_empty (chain_end None rows))"
  using linked_prev_hex [OF assms(1)]
proof
  assume "\<exists>m. chain_end None rows = Some (hex_encode (ax_sha256 ax m))"
  then obtain m where m: "chain_end None rows = Some (hex_encode (ax_sha256 ax m))" ..
  have "hex_value CHR 0x1F = None" by (simp add: hex_value_def)
  then have "CHR 0x1F \<notin> set (hex_encode (ax_sha256 ax m))"
    using hex_encode_chars [of "ax_sha256 ax m" "CHR 0x1F"] assms(2) by (auto simp: crypto_ok_def)
  then show ?thesis by (simp add: m no_sep_def)
qed (simp add: no_sep_def)

lemma prev_eq:
  assumes "linked ax signer None xs" and "linked ax signer' None ys" and "\<forall>m. ax_sha256 ax m \<noteq> []"
    and "or_empty (chain_end None xs) = or_empty (chain_end None ys)"
  shows "chain_end None xs = chain_end None ys"
proof -
  have "hex_encode (ax_sha256 ax m) \<noteq> []" for m
    using assms(3) by (cases "ax_sha256 ax m") (auto simp: hex_encode_def hex_byte_def)
  then have "hex_encode (ax_sha256 ax m) = [] \<longleftrightarrow> False" "[] = hex_encode (ax_sha256 ax m) \<longleftrightarrow> False" for m by (metis+)
  then show ?thesis using linked_prev_hex [OF assms(1)] linked_prev_hex [OF assms(2)] assms(4) by auto
qed

lemma same_shape:
  assumes "entry_text_ok ax x" and "entry_text_ok ax y" and "no_sep (or_empty p)" and "no_sep (or_empty q)"
  shows "list_all2 (\<lambda>f g. length f = length g \<or> field_sep \<notin> set f \<and> field_sep \<notin> set g) (entry_fields ax x p) (entry_fields ax y q)"
proof -
  have ex: "no_sep (or_empty (map_option (ax_rfc3339 ax) (al_expires_at z)))" if "entry_text_ok ax z" for z
    using that by (cases "al_expires_at z") (simp_all add: entry_text_ok_def no_sep_def)
  have ty: "no_sep (actor_type_as_str a)" for a by (cases a) (simp_all add: no_sep_def)
  have len: "length (to_le_bytes i) = 8" for i by (simp add: to_le_bytes_def)
  show ?thesis
    using assms ex [OF assms(1)] ex [OF assms(2)] by (simp add: entry_fields_def entry_text_ok_def no_sep_utf8 ty len)
qed

text \<open>Two last entries with one hash are the same entry, linked to the same hash.\<close>

lemma same_hash_same_entry:
  assumes keys: "crypto_ok ax" and xs: "linked ax signer None (xs @ [x])" and ys: "linked ax signer' None (ys @ [y])"
    and h: "al_entry_hash x = al_entry_hash y" and ok: "entry_text_ok ax x" "entry_text_ok ax y"
    and E: "encodings_distinct ax E" "x \<in> E" "y \<in> E"
  shows "entry_view x = entry_view y \<and> chain_end None xs = chain_end None ys"
proof -
  define p q where "p = chain_end None xs" and "q = chain_end None ys"
  have lx: "linked ax signer None xs" "link_ok ax signer p x" and ly: "linked ax signer' None ys" "link_ok ax signer' q y"
    using xs ys by (simp_all add: linked_append p_def q_def)
  have prev: "al_prev_hash x = p" "al_prev_hash y = q" using lx(2) ly(2) by (simp_all add: link_ok_def)
  have bytes: "\<forall>b \<in> set (ax_sha256 ax m). b < 256" for m using keys by (simp add: crypto_ok_def)
  have "hex_encode (ax_sha256 ax (separated (entry_fields ax x p))) = hex_encode (ax_sha256 ax (separated (entry_fields ax y q)))"
    using h lx(2) ly(2) by (simp add: link_ok_def entry_content_hash_def)
  then have sha: "ax_sha256 ax (separated (entry_fields ax x p)) = ax_sha256 ax (separated (entry_fields ax y q))"
    using hex_roundtrip [OF bytes] by (metis option.inject)
  have "inj_on (ax_sha256 ax) ((\<lambda>en. separated (entry_fields ax en (al_prev_hash en))) ` E)"
    using E(1) by (simp add: encodings_distinct_def)
  from inj_onD [OF this sha] have "separated (entry_fields ax x p) = separated (entry_fields ax y q)"
    using E(2,3) prev by auto
  moreover have "no_sep (or_empty p)" "no_sep (or_empty q)"
    using prev_no_sep [OF lx(1) keys] prev_no_sep [OF ly(1) keys] by (simp_all add: p_def q_def)
  then have "list_all2 (\<lambda>f g. length f = length g \<or> field_sep \<notin> set f \<and> field_sep \<notin> set g) (entry_fields ax x p) (entry_fields ax y q)"
    by (rule same_shape [OF ok])
  ultimately have eq: "entry_fields ax x p = entry_fields ax y q" using separated_inj by blast
  then have "or_empty p = or_empty q" by (simp add: entry_fields_def utf8_eq_iff)
  then have pq: "p = q" using prev_eq [OF lx(1) ly(1)] E(1) by (simp add: p_def q_def encodings_distinct_def)
  with entry_fields_view [OF eq ok E h] prev show ?thesis by (simp add: p_def q_def)
qed

text \<open>The last hash commits to the whole log: two logs that verify, whose texts hold no separator byte and
  between which SHA-256 has no collision, are the same log entry by entry if their last entries have the
  same hash, whoever signed them.\<close>

theorem head_determines_chain:
  assumes "crypto_ok ax" and "verify_chain ax signer xs = Inr ()" and "verify_chain ax signer' ys = Inr ()"
    and "\<forall>en \<in> set xs \<union> set ys. entry_text_ok ax en" and "encodings_distinct ax (set xs \<union> set ys)"
    and "chain_end None xs = chain_end None ys"
  shows "map entry_view xs = map entry_view ys"
proof -
  define E where "E = set xs \<union> set ys"
  have "encodings_distinct ax E" "\<forall>en \<in> E. entry_text_ok ax en" using assms(4,5) by (simp_all add: E_def)
  then have "set xs \<subseteq> E \<Longrightarrow> set ys \<subseteq> E \<Longrightarrow> linked ax signer None xs \<Longrightarrow> linked ax signer' None ys \<Longrightarrow>
      chain_end None xs = chain_end None ys \<Longrightarrow> map entry_view xs = map entry_view ys"
  proof (induction xs arbitrary: ys rule: rev_induct)
    case Nil
    then show ?case by (cases ys rule: rev_cases) (auto simp: chain_end_def linked_append link_ok_def)
  next
    case (snoc x xs)
    then obtain y ys' where ys: "ys = ys' @ [y]" by (cases ys rule: rev_cases) (auto simp: chain_end_def linked_append link_ok_def)
    have h: "al_entry_hash x = al_entry_hash y" using snoc.prems by (simp add: ys chain_end_def)
    have "entry_view x = entry_view y \<and> chain_end None xs = chain_end None ys'"
      using snoc.prems same_hash_same_entry [OF assms(1) _ _ h, of signer xs signer' ys' E] by (simp add: ys)
    then show ?case using snoc.IH [of ys'] snoc.prems by (simp add: ys linked_append)
  qed
  then show ?thesis using assms(2,3,6) by (simp add: verify_chain_linked E_def)
qed

definition sample_entry :: audit_log_entry where
  "sample_entry = audit_entry_new ''a'' 5 ''c'' ''exec_1'' 1 ''workflow_started'' ''system'' System JNull"

theorem head_determines_chain_witness:
  "map entry_view [seal_chain (av_ax sample_av) (signer_new [3]) None sample_entry] =
   map entry_view [seal_chain (av_ax sample_av) (signer_new [4]) None (sample_entry\<lparr>al_tool_call_hash := Some []\<rparr>)]"
proof -
  let ?x = "seal_chain (av_ax sample_av) (signer_new [3]) None sample_entry"
  let ?y = "seal_chain (av_ax sample_av) (signer_new [4]) None (sample_entry\<lparr>al_tool_call_hash := Some []\<rparr>)"
  have fs: "entry_fields (av_ax sample_av) (sample_entry\<lparr>al_tool_call_hash := Some []\<rparr>) None = entry_fields (av_ax sample_av) sample_entry None"
    by (simp add: entry_fields_def sample_entry_def audit_entry_new_def)
  have v: "verify_chain (av_ax sample_av) (signer_new [3]) [?x] = Inr ()" "verify_chain (av_ax sample_av) (signer_new [4]) [?y] = Inr ()"
    by (simp_all add: verify_chain_linked sealed_link [OF sample_keys])
  have h: "chain_end None [?x] = chain_end None [?y]" by (simp add: chain_end_def entry_content_hash_def fs)
  have same: "al_id ?y = al_id ?x" "al_event_id ?y = al_event_id ?x" "al_raw_event ?y = al_raw_event ?x" "al_created_at ?y = al_created_at ?x"
    "al_expires_at ?y = None" "al_expires_at ?x = None"
    "entry_fields (av_ax sample_av) ?y None = entry_fields (av_ax sample_av) ?x None"
    by (simp_all add: seal_chain_def sample_entry_def audit_entry_new_def Let_def entry_fields_def)
  have "encodings_distinct (av_ax sample_av) (set [?x] \<union> set [?y])"
    using same by (simp add: encodings_distinct_def) (auto simp: inj_on_def sample_av_def sample_ax_def sample_entry_def audit_entry_new_def)
  moreover have "\<forall>en \<in> set [?x] \<union> set [?y]. entry_text_ok (av_ax sample_av) en"
    by (simp add: entry_text_ok_def seal_chain_def sample_entry_def audit_entry_new_def Let_def no_sep_def sample_av_def sample_ax_def
        sample_externals_def)
  ultimately show ?thesis using head_determines_chain [OF sample_keys(1) v _ _ h] by blast
qed

section \<open>An unquoted filter\<close>

lemma show_nat_no_newline: "CHR 0x0A \<notin> set (show_nat n)"
proof (induction n rule: show_nat.induct)
  case (1 n)
  have "CHR 0x0A \<noteq> char_of (48 + d)" if "d < 10" for d :: nat
  proof
    assume "CHR 0x0A = char_of (48 + d)"
    then have "(of_char CHR 0x0A :: nat) = of_char (char_of (48 + d) :: char)" by (rule arg_cong)
    then show False using that by simp
  qed
  then show ?case using 1 by (subst show_nat.simps) simp
qed

definition escape_filter :: string where "escape_filter = [sql_quote] @ '' OR 1=1 --''"

text \<open>The text of a query starts with the filters a caller chooses, put between quotes as they are, and ends with
  the filter on the tenant.  A caller who asks for the actor \<^verbatim>\<open>' OR 1=1 --\<close> writes a statement whose first part
  is true of every row, and all that follows it, the tenant included, is on the same line after \<^verbatim>\<open>--\<close>.\<close>

theorem actor_filter_is_not_quoted:
  assumes "aq_from q = None" and "aq_to q = None" and "aq_actor_id q = Some escape_filter" and "aq_tenant_id q = Some tenant"
  shows "\<exists>rest. query_sql ax q =
      ''SELECT * FROM audit_log WHERE 1=1 AND actor_id = '' @ [sql_quote, sql_quote] @ '' OR 1=1 --'' @ rest \<and>
      (CHR 0x0A \<in> set rest \<longrightarrow> CHR 0x0A \<in> set tenant \<union> set (or_empty (aq_event_type q)) \<union> set (or_empty (aq_execution_id q)))"
  using assms
  by (cases "aq_event_type q"; cases "aq_execution_id q")
    (auto simp: query_sql_def where_clause_def quoted_def escape_filter_def sql_quote_def show_nat_no_newline)

theorem actor_filter_is_not_quoted_witness:
  "\<exists>rest. query_sql sample_ax \<lparr>aq_from = None, aq_to = None, aq_actor_id = Some escape_filter, aq_event_type = None, aq_execution_id = None,
      aq_tenant_id = Some ''acme'', aq_limit = 50, aq_offset = 0\<rparr> =
    ''SELECT * FROM audit_log WHERE 1=1 AND actor_id = '' @ [sql_quote, sql_quote] @ '' OR 1=1 --'' @ rest \<and> CHR 0x0A \<notin> set rest"
  using actor_filter_is_not_quoted [of "\<lparr>aq_from = None, aq_to = None, aq_actor_id = Some escape_filter, aq_event_type = None,
      aq_execution_id = None, aq_tenant_id = Some ''acme'', aq_limit = 50, aq_offset = 0\<rparr>" "''acme''" sample_ax] by auto

end
