(* ===== verification/Segment.thy ===== *)
theory Segment
  imports Backend_Log Scheduler
begin

text \<open>
  Continue-as-new (\<^verbatim>\<open>runtime/state/src/segment.rs\<close>): starting the next segment of a run from the state it
  carries, and walking the segments of a run back to its root.  The UUID of a name in the namespace of
  segments is a parameter.  Shown: a new segment resumes from exactly the carried state under the same
  initiator, a second start of it changes nothing, and the walk ends, root first, on every run whose
  segments were started one after another.
\<close>

section \<open>Starting a segment\<close>

definition segment_execution_id :: "(string \<Rightarrow> uuid) \<Rightarrow> execution_id \<Rightarrow> nat \<Rightarrow> execution_id" where
  "segment_execution_id v5 parent_id next_segment_number = v5 (parent_id @ '':'' @ show_nat next_segment_number)"

record segment_spec =
  sg_workflow_id :: string
  sg_workflow_version :: string
  sg_start_node_id :: string
  sg_queue_type :: string
  sg_tenant_id :: string

definition segment_execution :: "timestamp \<Rightarrow> execution_id \<Rightarrow> execution_id \<Rightarrow> json \<Rightarrow> segment_spec \<Rightarrow> nat \<Rightarrow> workflow_execution" where
  "segment_execution now new_id parent_id state spec n =
     \<lparr>we_execution_id = new_id, we_workflow_id = sg_workflow_id spec, we_workflow_version = sg_workflow_version spec,
      we_status = WfRunning, we_initial_input = state, we_current_state = state, we_started_at = now, we_updated_at = now,
      we_completed_at = None, we_session_type = None, we_parent_execution_id = Some parent_id, we_segment_number = n\<rparr>"

definition segment_work_item :: "timestamp \<Rightarrow> uuid \<Rightarrow> execution_id \<Rightarrow> segment_spec \<Rightarrow> work_item" where
  "segment_work_item now item_id new_id spec =
     \<lparr>wi_id = item_id, wi_execution_id = new_id, wi_node_id = sg_start_node_id spec, wi_queue_type = sg_queue_type spec,
      wi_payload = json_object [(''workflow_id'', JString (sg_workflow_id spec)), (''workflow_version'', JString (sg_workflow_version spec))],
      wi_attempt = 0, wi_max_attempts = 3, wi_created_at = now, wi_lease_expires_at = None, wi_worker_id = None,
      wi_lease_fence = 0, wi_tenant_id = sg_tenant_id spec\<rparr>"

definition start_next_segment ::
    "(string \<Rightarrow> uuid) \<Rightarrow> (event_sequence \<Rightarrow> uuid) \<Rightarrow> timestamp \<Rightarrow> uuid \<Rightarrow> uuid \<Rightarrow> execution_id \<Rightarrow> materialized_state \<Rightarrow> segment_spec \<Rightarrow>
     nat \<Rightarrow> in_memory_backend \<Rightarrow> in_memory_backend \<times> execution_id" where
  "start_next_segment v5 fresh now snap_id item_id parent_id carried_state spec n s =
     (let new_id = segment_execution_id v5 parent_id n
      in if get_execution new_id s \<noteq> None then (s, new_id)
         else (let initiated_by = run_initiator (get_events parent_id s);
                   started_event = WorkflowStarted (sg_workflow_id spec) (sg_workflow_version spec) (ms_current_state carried_state) initiated_by;
                   scheduled_event = NodeScheduled (sg_start_node_id spec) (sg_queue_type spec)
               in (create_segment_atomic fresh now (segment_execution now new_id parent_id (ms_current_state carried_state) spec n)
                     (seed_for_segment snap_id now new_id (ms_current_state carried_state)) started_event scheduled_event
                     (segment_work_item now item_id new_id spec) s, new_id)))"

section \<open>Walking the segments\<close>

definition segment_chain_max_depth :: nat where "segment_chain_max_depth = 10000"

text \<open>The loop: \<open>left\<close> is the number of ids the chain may still grow by.\<close>

fun chain_loop :: "nat \<Rightarrow> in_memory_backend \<Rightarrow> execution_id \<Rightarrow> execution_id list \<Rightarrow> backend_error + execution_id list" where
  "chain_loop 0 s current chain =
     Inl (DatabaseError (''segment_chain exceeded max depth ('' @ show_nat segment_chain_max_depth @
       ''): possible cycle starting near '' @ exec_label current))"
| "chain_loop (Suc left) s current chain =
     (case get_execution current s of
        None \<Rightarrow> Inl (NotFound (''segment_chain: execution '' @ exec_label current @ '' not found''))
      | Some exec \<Rightarrow>
          (case we_parent_execution_id exec of
             None \<Rightarrow> Inr (chain @ [current])
           | Some parent \<Rightarrow> chain_loop left s parent (chain @ [current])))"

definition segment_chain :: "execution_id \<Rightarrow> in_memory_backend \<Rightarrow> backend_error + execution_id list" where
  "segment_chain i s = and_then (chain_loop segment_chain_max_depth s i []) (\<lambda>chain. Inr (rev chain))"

section \<open>What a new segment starts from\<close>

lemma create_segment_parts:
  assumes s': "s' = create_segment_atomic fresh now ex snap k1 k2 item s"
    and "0 < mb_next_sequence s" and "mb_next_sequence s < 2 ^ 63 - 2" and "log_of s (we_execution_id ex) = []"
  shows "mb_executions s' = (mb_executions s)(we_execution_id ex \<mapsto> ex)"
    and "map ev_kind (log_of s' (we_execution_id ex)) = [k1, k2]"
    and "\<forall>ev \<in> set (log_of s' (we_execution_id ex)). 0 < ev_sequence ev"
    and "e \<noteq> we_execution_id ex \<Longrightarrow> log_of s' e = log_of s e"
    and "mb_snapshots s' = (mb_snapshots s)(we_execution_id ex \<mapsto>
          (case mb_snapshots s (we_execution_id ex) of Some l \<Rightarrow> l | None \<Rightarrow> []) @ [snap])"
    and "mb_work_items s' = (mb_work_items s)(wi_id item \<mapsto> item)"
proof -
  have w: "wrap_i64 (mb_next_sequence s + 1) = mb_next_sequence s + 1" using assms(2,3) by (intro wrap_i64_id) auto
  show "mb_executions s' = (mb_executions s)(we_execution_id ex \<mapsto> ex)"
    "map ev_kind (log_of s' (we_execution_id ex)) = [k1, k2]"
    "\<forall>ev \<in> set (log_of s' (we_execution_id ex)). 0 < ev_sequence ev"
    "e \<noteq> we_execution_id ex \<Longrightarrow> log_of s' e = log_of s e"
    "mb_snapshots s' = (mb_snapshots s)(we_execution_id ex \<mapsto>
          (case mb_snapshots s (we_execution_id ex) of Some l \<Rightarrow> l | None \<Rightarrow> []) @ [snap])"
    "mb_work_items s' = (mb_work_items s)(wi_id item \<mapsto> item)"
    using assms(2,4) w
    by (simp_all add: s' create_segment_atomic_def create_run_push Let_def push_event_def log_of_def event_new_def)
qed

lemma materialize_new_segment:
  assumes "mb_snapshots s e = Some [seed_for_segment i t e state]" and "mb_executions s e = Some ex"
    and "log_of s e = l" and "map ev_kind l = [WorkflowStarted w v inp by, NodeScheduled n q]" and "\<forall>ev \<in> set l. 0 < ev_sequence ev"
  shows "\<exists>m. materialize e s = Inr m \<and> ms_current_state m = state \<and> ms_status m = WfRunning \<and> ms_active_nodes m = {n}"
proof -
  obtain a b where l: "l = [a, b]" and k: "ev_kind a = WorkflowStarted w v inp by" "ev_kind b = NodeScheduled n q"
    using assms(4) by (auto simp: map_eq_Cons_conv)
  have "0 < ev_sequence a" "0 < ev_sequence b" using assms(5) by (simp_all add: l)
  then show ?thesis
    using assms(1-3) k
    by (simp add: materialize_def get_execution_def and_then_def ok_or_def materialize_from_def latest_snapshot_def max_by_at_sequence_def
        seed_for_segment_def get_events_since_def apply_events_seeded_def apply_event_def apply_kind_def of_snapshot_def l)
qed

text \<open>A new segment resumes the run: it materializes to the carried state, with its start node scheduled and
  running, under the initiator of the segment before it, linked to it; no other log changes; and starting
  the same segment again, from whatever carried state, changes nothing and answers with the same id.\<close>

theorem next_segment_resumes:
  assumes "start_next_segment v5 fresh now snap_id item_id parent carried spec n s = (s', new_id)"
    and "get_execution new_id s = None" and "log_of s new_id = []" and "mb_snapshots s new_id = None"
    and "0 < mb_next_sequence s" and "mb_next_sequence s < 2 ^ 63 - 2"
  shows "(\<exists>m. materialize new_id s' = Inr m \<and> ms_current_state m = ms_current_state carried \<and> ms_status m = WfRunning \<and>
            ms_active_nodes m = {sg_start_node_id spec}) \<and>
    run_initiator (get_events new_id s') = run_initiator (get_events parent s) \<and>
    (\<exists>ex. get_execution new_id s' = Some ex \<and> we_parent_execution_id ex = Some parent \<and> we_segment_number ex = n) \<and>
    (\<exists>item. mb_work_items s' item_id = Some item \<and> wi_execution_id item = new_id \<and> wi_node_id item = sg_start_node_id spec) \<and>
    (\<forall>e. e \<noteq> new_id \<longrightarrow> log_of s' e = log_of s e) \<and>
    start_next_segment v5 fresh' now' snap_id' item_id' parent carried' spec' n s' = (s', new_id)"
proof -
  define ex where "ex = segment_execution now new_id parent (ms_current_state carried) spec n"
  define k1 where "k1 = WorkflowStarted (sg_workflow_id spec) (sg_workflow_version spec) (ms_current_state carried) (run_initiator (get_events parent s))"
  define k2 where "k2 = NodeScheduled (sg_start_node_id spec) (sg_queue_type spec)"
  have new: "new_id = segment_execution_id v5 parent n" using assms(1) by (simp add: start_next_segment_def Let_def split: if_splits)
  have s': "s' = create_segment_atomic fresh now ex (seed_for_segment snap_id now new_id (ms_current_state carried)) k1 k2
      (segment_work_item now item_id new_id spec) s"
    using assms(1,2) new by (simp add: start_next_segment_def ex_def k1_def k2_def Let_def)
  have ex: "we_execution_id ex = new_id" "we_parent_execution_id ex = Some parent" "we_segment_number ex = n"
    by (simp_all add: ex_def segment_execution_def)
  note parts = create_segment_parts [OF s' assms(5,6), unfolded ex(1), OF assms(3)]
  have exec: "mb_executions s' new_id = Some ex" using parts(1) by simp
  have snap: "mb_snapshots s' new_id = Some [seed_for_segment snap_id now new_id (ms_current_state carried)]"
    using parts(5) assms(4) by simp
  have "\<exists>m. materialize new_id s' = Inr m \<and> ms_current_state m = ms_current_state carried \<and> ms_status m = WfRunning \<and>
      ms_active_nodes m = {sg_start_node_id spec}"
    by (rule materialize_new_segment [OF snap exec refl parts(2) [unfolded k1_def k2_def] parts(3)])
  moreover obtain a b where "log_of s' new_id = [a, b]" "ev_kind a = k1" using parts(2) by (auto simp: map_eq_Cons_conv)
  then have "run_initiator (get_events new_id s') = run_initiator (get_events parent s)"
    by (simp add: run_initiator_def get_events_def k1_def)
  moreover have "start_next_segment v5 fresh' now' snap_id' item_id' parent carried' spec' n s' = (s', new_id)"
    using exec by (simp add: start_next_segment_def get_execution_def new [symmetric] Let_def)
  ultimately show ?thesis
    using exec ex parts(4,6) by (simp add: get_execution_def segment_work_item_def)
qed

definition sample_spec :: segment_spec where
  "sample_spec = \<lparr>sg_workflow_id = ''w'', sg_workflow_version = ''1'', sg_start_node_id = ''a'', sg_queue_type = ''tool'', sg_tenant_id = ''default''\<rparr>"

theorem next_segment_resumes_witness:
  "start_next_segment id (\<lambda>_. ''f2'') 9 ''s2'' ''i2'' ''p'' (origin_state JNull) sample_spec 1
     (fst (start_next_segment id (\<lambda>_. ''f'') 5 ''s'' ''i'' ''p'' (origin_state (JBool True)) sample_spec 1 backend_new)) =
   start_next_segment id (\<lambda>_. ''f'') 5 ''s'' ''i'' ''p'' (origin_state (JBool True)) sample_spec 1 backend_new"
proof -
  have r: "start_next_segment id (\<lambda>_. ''f'') 5 ''s'' ''i'' ''p'' (origin_state (JBool True)) sample_spec 1 backend_new =
      (fst (start_next_segment id (\<lambda>_. ''f'') 5 ''s'' ''i'' ''p'' (origin_state (JBool True)) sample_spec 1 backend_new),
       snd (start_next_segment id (\<lambda>_. ''f'') 5 ''s'' ''i'' ''p'' (origin_state (JBool True)) sample_spec 1 backend_new))"
    by simp
  show ?thesis using next_segment_resumes [OF r] by (simp add: backend_new_def get_execution_def log_of_def)
qed

section \<open>The walk ends\<close>

text \<open>Every segment's parent is there, with a smaller number.\<close>

definition lineage_ok :: "in_memory_backend \<Rightarrow> bool" where
  "lineage_ok s =
     (\<forall>e ex. get_execution e s = Some ex \<longrightarrow>
        (case we_parent_execution_id ex of
           None \<Rightarrow> True
         | Some p \<Rightarrow> (\<exists>px. get_execution p s = Some px \<and> we_segment_number px < we_segment_number ex)))"

definition parent_of :: "in_memory_backend \<Rightarrow> execution_id \<Rightarrow> execution_id option" where
  "parent_of s e = Option.bind (get_execution e s) we_parent_execution_id"

definition number_of :: "in_memory_backend \<Rightarrow> execution_id \<Rightarrow> nat" where
  "number_of s e = (case get_execution e s of Some ex \<Rightarrow> we_segment_number ex | None \<Rightarrow> 0)"

abbreviation ascends :: "in_memory_backend \<Rightarrow> execution_id \<Rightarrow> execution_id \<Rightarrow> bool" where
  "ascends s e p \<equiv> parent_of s e = Some p \<and> number_of s p < number_of s e"

lemma falling_distinct: "successively (\<lambda>a b. f b < (f a :: nat)) xs \<Longrightarrow> distinct xs"
proof -
  have "successively (\<lambda>a b. f b < (f a :: nat)) xs \<Longrightarrow> distinct xs \<and> (\<forall>x \<in> set (tl xs). f x < f (hd xs))"
    by (induction xs rule: induct_list012) (auto dest: less_trans)
  then show "successively (\<lambda>a b. f b < (f a :: nat)) xs \<Longrightarrow> distinct xs" by blast
qed

lemma chain_loop_ends:
  assumes "lineage_ok s"
  shows "get_execution current s \<noteq> None \<Longrightarrow> number_of s current < left \<Longrightarrow>
    \<exists>up. chain_loop left s current chain = Inr (chain @ current # up) \<and> successively (ascends s) (current # up) \<and>
      parent_of s (last (current # up)) = None"
proof (induction left arbitrary: current chain)
  case (Suc left)
  then obtain ex where ex: "get_execution current s = Some ex" by auto
  show ?case
  proof (cases "we_parent_execution_id ex")
    case None
    then show ?thesis using ex by (simp add: parent_of_def)
  next
    case (Some p)
    then obtain px where px: "get_execution p s = Some px" "we_segment_number px < we_segment_number ex"
      using assms ex by (fastforce simp: lineage_ok_def)
    then have up: "ascends s current p" using ex Some by (simp add: parent_of_def number_of_def)
    then obtain rest where "chain_loop left s p (chain @ [current]) = Inr ((chain @ [current]) @ p # rest)"
      "successively (ascends s) (p # rest)" "parent_of s (last (p # rest)) = None"
      using Suc.IH [of p "chain @ [current]"] Suc.prems(2) px(1) by auto
    then show ?thesis using ex Some up by (intro exI [of _ "p # rest"]) simp
  qed
qed simp

lemma next_segment_lineage:
  assumes "lineage_ok s" and "get_execution parent s = Some px" and "we_segment_number px < n"
  shows "lineage_ok (fst (start_next_segment v5 fresh now snap_id item_id parent carried spec n s))"
proof (cases "get_execution (segment_execution_id v5 parent n) s = None")
  case True
  let ?new = "segment_execution_id v5 parent n"
  let ?ex = "segment_execution now ?new parent (ms_current_state carried) spec n"
  let ?s' = "fst (start_next_segment v5 fresh now snap_id item_id parent carried spec n s)"
  have ge: "get_execution e ?s' = (if e = ?new then Some ?ex else get_execution e s)" for e
    using True by (simp add: start_next_segment_def create_segment_atomic_def create_run_push push_event_frame get_execution_def
        segment_execution_def Let_def)
  have keep: "get_execution e s = Some y \<Longrightarrow> get_execution e ?s' = Some y" for e y using True by (auto simp: ge)
  show ?thesis unfolding lineage_ok_def
  proof (intro allI impI)
    fix e y assume y: "get_execution e ?s' = Some y"
    show "case we_parent_execution_id y of None \<Rightarrow> True
      | Some p \<Rightarrow> \<exists>qx. get_execution p ?s' = Some qx \<and> we_segment_number qx < we_segment_number y"
    proof (cases "e = ?new")
      case True
      then have "y = ?ex" using y by (simp add: ge)
      then show ?thesis using keep [OF assms(2)] assms(3) by (simp add: segment_execution_def)
    next
      case False
      then have "get_execution e s = Some y" using y by (simp add: ge)
      then have "case we_parent_execution_id y of None \<Rightarrow> True
        | Some p \<Rightarrow> \<exists>qx. get_execution p s = Some qx \<and> we_segment_number qx < we_segment_number y"
        using assms(1) by (simp add: lineage_ok_def)
      then show ?thesis using keep by (auto split: option.splits)
    qed
  qed
qed (use assms(1) in \<open>simp add: start_next_segment_def Let_def\<close>)

text \<open>Walking back from a segment ends and lists the segments of its run root first: the first has no parent, each
  next one continues the one before it, none occurs twice and the last is the segment asked for; and the
  walk keeps ending when a further segment is started.\<close>

theorem segment_chain_ends:
  assumes "lineage_ok s" and "get_execution i s = Some ex" and "we_segment_number ex < segment_chain_max_depth"
  shows "(\<exists>chain. segment_chain i s = Inr chain \<and> chain \<noteq> [] \<and> last chain = i \<and> parent_of s (hd chain) = None \<and>
      successively (\<lambda>p e. parent_of s e = Some p) chain \<and> distinct chain) \<and>
    (we_segment_number ex < n \<longrightarrow> lineage_ok (fst (start_next_segment v5 fresh now snap_id item_id i carried spec n s)))"
proof
  obtain up where up: "chain_loop segment_chain_max_depth s i [] = Inr (i # up)" "successively (ascends s) (i # up)"
    "parent_of s (last (i # up)) = None"
    using chain_loop_ends [OF assms(1), of i segment_chain_max_depth "[]"] assms(2,3) by (auto simp: number_of_def)
  have "distinct (i # up)"
    by (rule falling_distinct [OF successively_mono [OF up(2)], where f = "number_of s"]) auto
  moreover have "successively (\<lambda>p e. parent_of s e = Some p) (rev (i # up))"
    unfolding successively_rev by (rule successively_mono [OF up(2)]) auto
  ultimately show "\<exists>chain. segment_chain i s = Inr chain \<and> chain \<noteq> [] \<and> last chain = i \<and> parent_of s (hd chain) = None \<and>
      successively (\<lambda>p e. parent_of s e = Some p) chain \<and> distinct chain"
    using up(1,3) by (intro exI [of _ "rev (i # up)"]) (simp add: segment_chain_def and_then_def hd_rev last_rev del: rev.simps)
next
  show "we_segment_number ex < n \<longrightarrow> lineage_ok (fst (start_next_segment v5 fresh now snap_id item_id i carried spec n s))"
    using next_segment_lineage [OF assms(1,2)] by blast
qed

definition sample_root :: in_memory_backend where
  "sample_root = create_execution ((segment_execution 0 ''p'' ''p'' JNull sample_spec 0)\<lparr>we_parent_execution_id := None\<rparr>) backend_new"

theorem segment_chain_ends_witness:
  "\<exists>chain. segment_chain ''p'' sample_root = Inr chain \<and> last chain = ''p'' \<and> distinct chain"
proof -
  have "lineage_ok sample_root"
    by (auto simp: lineage_ok_def sample_root_def create_execution_def backend_new_def get_execution_def segment_execution_def split: if_splits)
  moreover have "get_execution ''p'' sample_root = Some ((segment_execution 0 ''p'' ''p'' JNull sample_spec 0)\<lparr>we_parent_execution_id := None\<rparr>)"
    by (simp add: sample_root_def create_execution_def get_execution_def segment_execution_def)
  ultimately show ?thesis
    using segment_chain_ends by (fastforce simp: segment_execution_def segment_chain_max_depth_def)
qed

end
