(* ===== verification/Policy.thy ===== *)
theory Policy
  imports Ir
begin

text \<open>
  The policy engine (\<^verbatim>\<open>runtime/policy\<close>): glob patterns, the names a node answers to, the layered
  evaluation of policy sets (\<^verbatim>\<open>lib.rs\<close>, \<^verbatim>\<open>engine.rs\<close>), and the evaluation of a whole batch of
  agent tool calls (\<^verbatim>\<open>dispatch.rs\<close>).  Shown: the matcher decides the language of its pattern, an
  allowed node is one no rule of any layer names, and a dispatch batch is allowed only if every call
  is allowed under its name and under the code it resolves to.
\<close>

section \<open>Glob matching\<close>

fun glob_match_inner :: "string \<Rightarrow> string \<Rightarrow> bool" where
  "glob_match_inner [] v = (v = [])"
| "glob_match_inner (pc # p) v =
     (if pc = CHR ''*''
      then glob_match_inner p v \<or> (case v of [] \<Rightarrow> False | _ # v' \<Rightarrow> glob_match_inner (pc # p) v')
      else (case v of
              [] \<Rightarrow> False
            | vc # v' \<Rightarrow> if pc = CHR ''?'' then glob_match_inner p v'
                        else if pc = vc then glob_match_inner p v' else False))"

definition glob_match :: "string \<Rightarrow> string \<Rightarrow> bool" where
  "glob_match pattern v = glob_match_inner pattern v"

definition model_matches :: "string \<Rightarrow> string \<Rightarrow> bool" where
  "model_matches pattern model =
     (if glob_match pattern model then True
      else if CHR ''/'' \<in> set pattern then False
      else glob_match pattern (case split_once CHR ''/'' model of Some (p, _) \<Rightarrow> p | None \<Rightarrow> model))"

section \<open>The node under evaluation\<close>

record evaluation_context =
  ec_node_id :: string
  ec_node_kind_tag :: string
  ec_tool_name :: "string option"
  ec_model_ref :: "string option"

definition function_kind_tags :: "string list" where
  "function_kind_tags = [''python_fn'', ''java_fn'', ''external_fn'']"

definition python_ref_tag :: string where
  "python_ref_tag = ''python_ref''"

definition policy_names :: "evaluation_context \<Rightarrow> string list" where
  "policy_names ctx =
     (case ec_tool_name ctx of None \<Rightarrow> [] | Some t \<Rightarrow> [t]) @
     (if ec_node_kind_tag ctx \<in> set function_kind_tags then [ec_node_id ctx] else [])"

definition replace_chars :: "char list \<Rightarrow> char \<Rightarrow> string \<Rightarrow> string" where
  "replace_chars froms to s = map (\<lambda>c. if c \<in> set froms then to else c) s"

definition canonical_handler :: "evaluation_context \<Rightarrow> string option" where
  "canonical_handler ctx =
     (case ec_tool_name ctx of
        None \<Rightarrow> None
      | Some name \<Rightarrow>
          if ec_node_kind_tag ctx = ''python_fn'' \<or> ec_node_kind_tag ctx = python_ref_tag
          then Some (replace_chars [CHR '':''] CHR ''.'' name)
          else if ec_node_kind_tag ctx = ''java_fn'' then Some (replace_chars [CHR ''/''] CHR ''.'' name)
          else None)"

definition canonical_pattern :: "string \<Rightarrow> string" where
  "canonical_pattern pattern = replace_chars [CHR '':'', CHR ''/''] CHR ''.'' pattern"

definition ctx_matches :: "evaluation_context \<Rightarrow> string \<Rightarrow> string option" where
  "ctx_matches ctx pattern =
     (case List.find (\<lambda>n. glob_match pattern n) (policy_names ctx) of
        Some name \<Rightarrow> Some name
      | None \<Rightarrow> (case canonical_handler ctx of
                  None \<Rightarrow> None
                | Some c \<Rightarrow> if glob_match (canonical_pattern pattern) c then Some c else None))"

text \<open>The serde tag of a node kind, and the names \<^verbatim>\<open>extract_names\<close> reads from its serialized form.\<close>

fun node_kind_tag :: "node_kind \<Rightarrow> string" where
  "node_kind_tag (ModelNode _ _ _ _ _) = ''model''"
| "node_kind_tag (ToolNode _ _ _) = ''tool''"
| "node_kind_tag (PythonFn _ _ _ _) = ''python_fn''"
| "node_kind_tag (JavaFn _ _ _ _) = ''java_fn''"
| "node_kind_tag (ExternalFn _ _ _) = ''external_fn''"
| "node_kind_tag (ConditionNode _) = ''condition''"
| "node_kind_tag (ParallelNode _) = ''parallel''"
| "node_kind_tag (JoinNode _ _) = ''join''"
| "node_kind_tag (HumanApproval _ _ _) = ''human_approval''"
| "node_kind_tag (WaitNode _ _ _) = ''wait''"
| "node_kind_tag (Subgraph _ _ _ _) = ''subgraph''"
| "node_kind_tag (MemoryRetrieval _ _ _) = ''memory_retrieval''"
| "node_kind_tag (PolicyNode _ _) = ''policy''"
| "node_kind_tag (Finalizer _ _) = ''finalizer''"
| "node_kind_tag (AgentNode _ _ _) = ''agent''"
| "node_kind_tag (McpTool _ _ _ _) = ''mcp_tool''"
| "node_kind_tag (A2aTask _ _ _ _ _ _ _) = ''a2a_task''"
| "node_kind_tag (AgentDiscovery _ _ _) = ''agent_discovery''"
| "node_kind_tag (Coordinator _ _ _ _ _ _ _ _ _ _) = ''coordinator''"
| "node_kind_tag (AgentTool _ _ _ _ _ _) = ''agent_tool''"
| "node_kind_tag (EvalNode _ _ _ _) = ''eval''"
| "node_kind_tag LimitExceededNode = ''limit_exceeded''"

fun extract_names :: "node_kind \<Rightarrow> string option \<times> string option" where
  "extract_names (ToolNode tool_ref _ _) = (Some tool_ref, None)"
| "extract_names (Finalizer tool_ref _) = (Some tool_ref, None)"
| "extract_names (McpTool _ tool _ _) = (Some tool, None)"
| "extract_names (AgentTool (ExplicitAgent a) _ _ _ _ _) = (Some a, None)"
| "extract_names (AgentTool AutoAgent _ _ _ _ _) = (None, None)"
| "extract_names (A2aTask _ skill _ _ _ _ _) = (Some skill, None)"
| "extract_names (ModelNode model_ref _ _ _ _) = (None, Some model_ref)"
| "extract_names (PythonFn m f _ _) = (Some (m @ '':'' @ f), None)"
| "extract_names (JavaFn c m _ _) = (Some (c @ ''/'' @ m), None)"
| "extract_names (ExternalFn q h _) = (Some (q @ ''/'' @ h), None)"
| "extract_names (AgentNode agent_ref _ _) = (Some agent_ref, None)"
| "extract_names _ = (None, None)"

definition from_node_kind :: "string \<Rightarrow> node_kind \<Rightarrow> evaluation_context" where
  "from_node_kind i kind =
     \<lparr>ec_node_id = i, ec_node_kind_tag = node_kind_tag kind,
      ec_tool_name = fst (extract_names kind), ec_model_ref = snd (extract_names kind)\<rparr>"

section \<open>Evaluation\<close>

datatype policy_decision = Allow | Block string | RequireApproval string

definition not_in_allowlist :: "string option \<Rightarrow> string" where
  "not_in_allowlist m = ''model '' @ [CHR 0x27] @ (case m of Some s \<Rightarrow> s | None \<Rightarrow> ''unknown'') @ [CHR 0x27] @ '' is not in the allowlist''"

definition blocked_reason :: "string \<Rightarrow> string \<Rightarrow> string" where
  "blocked_reason name pattern =
     ''tool '' @ [CHR 0x27] @ name @ [CHR 0x27] @ '' matches blocked pattern '' @ [CHR 0x27] @ pattern @ [CHR 0x27]"

definition allowlist_admits :: "evaluation_context \<Rightarrow> policy_set \<Rightarrow> bool" where
  "allowlist_admits ctx p =
     list_ex (\<lambda>pattern. case ec_model_ref ctx of None \<Rightarrow> False | Some m \<Rightarrow> model_matches pattern m) (ps_model_allowlist p)"

fun first_block :: "evaluation_context \<Rightarrow> string list \<Rightarrow> policy_decision option" where
  "first_block ctx [] = None"
| "first_block ctx (pattern # ps) =
     (case ctx_matches ctx pattern of
        Some name \<Rightarrow> Some (Block (blocked_reason name pattern))
      | None \<Rightarrow> first_block ctx ps)"

definition first_approval :: "evaluation_context \<Rightarrow> string list \<Rightarrow> policy_decision option" where
  "first_approval ctx ps =
     (if list_ex (\<lambda>pattern. ctx_matches ctx pattern \<noteq> None) ps then Some (RequireApproval ''human'') else None)"

text \<open>One layer: \<open>Some\<close> is a return from the loop.\<close>

definition evaluate_layer :: "evaluation_context \<Rightarrow> policy_set \<Rightarrow> policy_decision option" where
  "evaluate_layer ctx p =
     (if ec_node_kind_tag ctx = ''model'' \<and> ps_model_allowlist p \<noteq> []
      then (if \<not> allowlist_admits ctx p then Some (Block (not_in_allowlist (ec_model_ref ctx))) else Some Allow)
      else (case first_block ctx (ps_blocked_tools p) of
              Some d \<Rightarrow> Some d
            | None \<Rightarrow> first_approval ctx (ps_require_approval_for p)))"

fun evaluate_layers :: "evaluation_context \<Rightarrow> policy_set list \<Rightarrow> policy_decision" where
  "evaluate_layers ctx [] = Allow"
| "evaluate_layers ctx (p # ps) =
     (case evaluate_layer ctx p of Some d \<Rightarrow> d | None \<Rightarrow> evaluate_layers ctx ps)"

definition evaluate :: "evaluation_context \<Rightarrow> policy_set list \<Rightarrow> policy_decision" where
  "evaluate ctx policy_sets = evaluate_layers ctx (rev policy_sets)"

section \<open>Agent tool dispatch\<close>

record pending_tool_call =
  tc_name :: string
  tc_arguments :: json
  tc_handler :: "string option"

definition max_tool_name_len :: nat where
  "max_tool_name_len = 512"

definition max_pending_calls :: nat where
  "max_pending_calls = 256"

datatype unreadable_calls =
    NotAnObject | NotAList | UnnamedCall | NameTooLong | TooManyCalls | ToolsMapNotAnObject | UnresolvableHandler

definition handler_function_name :: "string \<Rightarrow> string" where
  "handler_function_name handler =
     (let fpath = (case split_once CHR '':'' handler of None \<Rightarrow> handler | Some (_, f) \<Rightarrow> f)
      in rsplit_last [CHR ''.''] fpath)"

definition starts_with :: "string \<Rightarrow> string \<Rightarrow> bool" where
  "starts_with p s = (take (length p) s = p)"

definition handler_ref :: "json \<Rightarrow> string option" where
  "handler_ref entry =
     (case as_str entry of
        None \<Rightarrow> None
      | Some s \<Rightarrow>
          if length s > max_tool_name_len then None
          else (case split_once CHR '':'' s of
                  None \<Rightarrow> None
                | Some (m, f) \<Rightarrow>
                    if m = [] \<or> f = [] then None
                    else if list_ex (\<lambda>seg. seg = [] \<or> starts_with ''_'' seg) (split_on CHR ''.'' f) \<or>
                            list_ex (\<lambda>seg. seg = [] \<or> starts_with ''__'' seg) (split_on CHR ''.'' m)
                    then None
                    else Some s))"

definition read_call :: "json_members option \<Rightarrow> json \<Rightarrow> unreadable_calls + pending_tool_call" where
  "read_call tools call =
     and_then (ok_or UnnamedCall (Option.bind (json_get call ''name'') as_str)) (\<lambda>name.
       if length name > max_tool_name_len then Inl NameTooLong
       else
         and_then (case Option.bind tools (\<lambda>t. bt_get t name) of
                     None \<Rightarrow> Inr None
                   | Some entry \<Rightarrow> and_then (ok_or UnresolvableHandler (handler_ref entry)) (\<lambda>h. Inr (Some h)))
           (\<lambda>handler. Inr \<lparr>tc_name = name,
              tc_arguments = (case json_get call ''arguments'' of Some a \<Rightarrow> a | None \<Rightarrow> JNull),
              tc_handler = handler\<rparr>))"

fun read_calls :: "json_members option \<Rightarrow> json list \<Rightarrow> unreadable_calls + pending_tool_call list" where
  "read_calls tools [] = Inr []"
| "read_calls tools (call # rest) =
     and_then (read_call tools call) (\<lambda>c. and_then (read_calls tools rest) (\<lambda>cs. Inr (c # cs)))"

definition present :: "json option \<Rightarrow> json option" where
  "present v = (case v of Some JNull \<Rightarrow> None | _ \<Rightarrow> v)"

definition read_pending_tool_calls :: "json \<Rightarrow> unreadable_calls + pending_tool_call list" where
  "read_pending_tool_calls input =
     and_then (ok_or NotAnObject (as_object input)) (\<lambda>obj.
       (case (case present (bt_get obj ''tool_calls'') of
                Some v \<Rightarrow> Some v
              | None \<Rightarrow> present (bt_get obj ''last_model_tool_calls'')) of
          None \<Rightarrow> Inr []
        | Some raw \<Rightarrow>
            and_then (ok_or NotAList (as_array raw)) (\<lambda>arr.
            and_then (case present (bt_get obj ''tools'') of
                        None \<Rightarrow> Inr None
                      | Some (JObject m) \<Rightarrow> Inr (Some m)
                      | Some _ \<Rightarrow> Inl ToolsMapNotAnObject) (\<lambda>tools.
            if length arr > max_pending_calls then Inl TooManyCalls else read_calls tools arr))))"

definition pending_tool_calls :: "json \<Rightarrow> pending_tool_call list option" where
  "pending_tool_calls input = (case read_pending_tool_calls input of Inl _ \<Rightarrow> None | Inr cs \<Rightarrow> Some cs)"

datatype dispatch_decision =
    DAllow | DBlock string string | DRequireApproval string "string list"

text \<open>The contexts one call is evaluated in: its name, and for a call whose \<^verbatim>\<open>tools\<close> entry names its
  code the reference and the function's own name.\<close>

definition call_contexts :: "string \<Rightarrow> pending_tool_call \<Rightarrow> evaluation_context list" where
  "call_contexts i call =
     \<lparr>ec_node_id = i, ec_node_kind_tag = ''tool'', ec_tool_name = Some (tc_name call), ec_model_ref = None\<rparr> #
     (case tc_handler call of
        None \<Rightarrow> []
      | Some h \<Rightarrow>
          [\<lparr>ec_node_id = i, ec_node_kind_tag = python_ref_tag, ec_tool_name = Some h, ec_model_ref = None\<rparr>,
           \<lparr>ec_node_id = i, ec_node_kind_tag = ''tool'', ec_tool_name = Some (handler_function_name h), ec_model_ref = None\<rparr>])"

text \<open>The decisions of one call in order: \<open>Inl\<close> is the block that returns, otherwise the approver asked
  for first.\<close>

fun fold_decisions :: "(string \<times> policy_decision) list \<Rightarrow> string option \<Rightarrow> dispatch_decision + string option" where
  "fold_decisions [] needs = Inr needs"
| "fold_decisions ((matched, Block reason) # ds) needs = Inl (DBlock matched reason)"
| "fold_decisions ((matched, RequireApproval a) # ds) needs =
     fold_decisions ds (case needs of None \<Rightarrow> Some a | Some b \<Rightarrow> Some b)"
| "fold_decisions ((matched, Allow) # ds) needs = fold_decisions ds needs"

fun dispatch_loop :: "string \<Rightarrow> pending_tool_call list \<Rightarrow> policy_set list \<Rightarrow> string list \<Rightarrow> string option \<Rightarrow> dispatch_decision" where
  "dispatch_loop i [] sets gated approver =
     (case approver of Some a \<Rightarrow> DRequireApproval a gated | None \<Rightarrow> DAllow)"
| "dispatch_loop i (call # calls) sets gated approver =
     (case fold_decisions (map (\<lambda>c. (case ec_tool_name c of Some t \<Rightarrow> t | None \<Rightarrow> [], evaluate c sets)) (call_contexts i call)) None of
        Inl d \<Rightarrow> d
      | Inr (Some a) \<Rightarrow> dispatch_loop i calls sets (gated @ [tc_name call]) (case approver of None \<Rightarrow> Some a | Some b \<Rightarrow> Some b)
      | Inr None \<Rightarrow> dispatch_loop i calls sets gated approver)"

definition evaluate_dispatch :: "string \<Rightarrow> pending_tool_call list \<Rightarrow> policy_set list \<Rightarrow> dispatch_decision" where
  "evaluate_dispatch i calls sets = dispatch_loop i calls sets [] None"

section \<open>Properties of the matcher\<close>

text \<open>The language of a pattern: a star stands for any string, a question mark for any one character,
  every other character for itself.\<close>

inductive glob_lang :: "string \<Rightarrow> string \<Rightarrow> bool" where
  glob_nil: "glob_lang [] []"
| glob_star: "glob_lang p v \<Longrightarrow> glob_lang (CHR ''*'' # p) (w @ v)"
| glob_any: "glob_lang p v \<Longrightarrow> glob_lang (CHR ''?'' # p) (c # v)"
| glob_char: "glob_lang p v \<Longrightarrow> c \<noteq> CHR ''*'' \<Longrightarrow> glob_lang (c # p) (c # v)"

inductive_cases glob_nilE: "glob_lang [] v"
inductive_cases glob_consE: "glob_lang (c # p) v"

lemma glob_match_star_append:
  "glob_match_inner p v \<Longrightarrow> glob_match_inner (CHR ''*'' # p) (w @ v)"
proof (induction w)
  case Nil
  then show ?case by simp
next
  case (Cons c w)
  then show ?case by simp
qed

lemma glob_lang_complete: "glob_lang p v \<Longrightarrow> glob_match_inner p v"
  by (induction rule: glob_lang.induct) (auto simp: glob_match_star_append simp del: glob_match_inner.simps(2), auto)

lemma glob_lang_sound: "glob_match_inner p v \<Longrightarrow> glob_lang p v"
proof (induction p v rule: glob_match_inner.induct)
  case (1 v)
  then show ?case by (simp add: glob_nil)
next
  case (2 pc p v)
  show ?case
  proof (cases "pc = CHR ''*''")
    case True
    show ?thesis
    proof (cases "glob_match_inner p v")
      case True
      then have "glob_lang p v" using "2.IH"(1) \<open>pc = CHR ''*''\<close> by blast
      then show ?thesis using glob_star [of p v "[]"] \<open>pc = CHR ''*''\<close> by simp
    next
      case False
      then obtain c v' where v: "v = c # v'" and m: "glob_match_inner (pc # p) v'"
        using "2.prems" True by (auto split: list.splits)
      then have "glob_lang (pc # p) v'" using "2.IH"(2) True by blast
      then obtain w u where "v' = w @ u" "glob_lang p u" using True by (auto elim: glob_consE)
      then show ?thesis using glob_star [of p u "c # w"] True v by simp
    qed
  next
    case False
    then obtain c v' where v: "v = c # v'" using "2.prems" by (auto split: list.splits)
    then show ?thesis using 2 False by (auto intro: glob_any glob_char split: if_splits)
  qed
qed

text \<open>the backtracking matcher accepts exactly the strings its pattern describes.\<close>

theorem glob_match_decides: "glob_match pattern v \<longleftrightarrow> glob_lang pattern v"
  unfolding glob_match_def using glob_lang_complete glob_lang_sound by blast

section \<open>Properties of the evaluation\<close>

lemma first_block_None: "first_block ctx ps = None \<longleftrightarrow> (\<forall>q \<in> set ps. ctx_matches ctx q = None)"
  by (induction ps) (auto split: option.splits)

lemma first_block_Some: "first_block ctx ps = Some d \<Longrightarrow> \<exists>r. d = Block r"
  by (induction ps) (auto split: option.splits)

lemma first_approval_None: "first_approval ctx ps = None \<longleftrightarrow> (\<forall>q \<in> set ps. ctx_matches ctx q = None)"
  by (auto simp: first_approval_def list_ex_iff)

definition layer_names :: "evaluation_context \<Rightarrow> policy_set \<Rightarrow> bool" where
  "layer_names ctx p = (\<exists>q \<in> set (ps_blocked_tools p) \<union> set (ps_require_approval_for p). ctx_matches ctx q \<noteq> None)"

lemma evaluate_layer_tool:
  assumes "ec_node_kind_tag ctx \<noteq> ''model''"
  shows "evaluate_layer ctx p = None \<longleftrightarrow> \<not> layer_names ctx p" and "evaluate_layer ctx p \<noteq> Some Allow"
proof -
  have l: "evaluate_layer ctx p = (case first_block ctx (ps_blocked_tools p) of
      Some d \<Rightarrow> Some d | None \<Rightarrow> first_approval ctx (ps_require_approval_for p))"
    using assms by (simp add: evaluate_layer_def)
  have ln: "layer_names ctx p \<longleftrightarrow> first_block ctx (ps_blocked_tools p) \<noteq> None \<or>
      first_approval ctx (ps_require_approval_for p) \<noteq> None"
    unfolding layer_names_def first_block_None first_approval_None by auto
  show "evaluate_layer ctx p = None \<longleftrightarrow> \<not> layer_names ctx p"
    unfolding l ln by (auto split: option.splits)
  have "first_approval ctx ps \<noteq> Some Allow" for ps by (simp add: first_approval_def)
  then show "evaluate_layer ctx p \<noteq> Some Allow"
    unfolding l using first_block_Some [of ctx "ps_blocked_tools p"] by (fastforce split: option.splits)
qed

lemma evaluate_layers_Allow_tool:
  assumes "ec_node_kind_tag ctx \<noteq> ''model''"
  shows "evaluate_layers ctx ps = Allow \<longleftrightarrow> (\<forall>p \<in> set ps. \<not> layer_names ctx p)"
proof (induction ps)
  case Nil
  then show ?case by simp
next
  case (Cons p ps)
  show ?case
  proof (cases "evaluate_layer ctx p")
    case None
    then show ?thesis using Cons evaluate_layer_tool(1) [OF assms, of p] by simp
  next
    case (Some d)
    then show ?thesis using evaluate_layer_tool [OF assms, of p] by auto
  qed
qed

lemma evaluate_Allow_tool:
  "ec_node_kind_tag ctx \<noteq> ''model'' \<Longrightarrow> evaluate ctx sets = Allow \<longleftrightarrow> (\<forall>p \<in> set sets. \<not> layer_names ctx p)"
  by (simp add: evaluate_def evaluate_layers_Allow_tool)

text \<open>C36: a node that is not a model call is allowed exactly when no rule of any layer names it, so an
  added layer can withdraw an allowance and never grant one; and the rules of the most specific layer
  that names it decide between refusing and holding it, a block of that layer first.\<close>

theorem policy_layers_fail_closed:
  assumes "ec_node_kind_tag ctx \<noteq> ''model''"
  shows "(evaluate ctx sets = Allow \<longleftrightarrow>
           (\<forall>p \<in> set sets. \<forall>q \<in> set (ps_blocked_tools p) \<union> set (ps_require_approval_for p). ctx_matches ctx q = None)) \<and>
         (evaluate ctx (outer @ sets @ below) = Allow \<longrightarrow> evaluate ctx sets = Allow) \<and>
         (\<forall>p q. (\<forall>p' \<in> set below. \<not> layer_names ctx p') \<longrightarrow> q \<in> set (ps_blocked_tools p) \<longrightarrow> ctx_matches ctx q \<noteq> None \<longrightarrow>
            (\<exists>r. evaluate ctx (sets @ p # below) = Block r))"
proof (intro conjI impI allI)
  show "evaluate ctx sets = Allow \<longleftrightarrow>
     (\<forall>p \<in> set sets. \<forall>q \<in> set (ps_blocked_tools p) \<union> set (ps_require_approval_for p). ctx_matches ctx q = None)"
    unfolding evaluate_Allow_tool [OF assms] layer_names_def by auto
  show "evaluate ctx (outer @ sets @ below) = Allow \<Longrightarrow> evaluate ctx sets = Allow"
    unfolding evaluate_Allow_tool [OF assms] by simp
  fix p :: policy_set and q
  assume below: "\<forall>p' \<in> set below. \<not> layer_names ctx p'" and q: "q \<in> set (ps_blocked_tools p)" "ctx_matches ctx q \<noteq> None"
  have skip: "evaluate_layers ctx (rev below @ ps) = evaluate_layers ctx ps" for ps
  proof -
    have "(\<forall>p' \<in> set bs. \<not> layer_names ctx p') \<Longrightarrow> evaluate_layers ctx (bs @ ps) = evaluate_layers ctx ps" for bs
      by (induction bs) (simp_all add: evaluate_layer_tool(1) [OF assms, THEN iffD2])
    from this [of "rev below"] show ?thesis using below by simp
  qed
  have "first_block ctx (ps_blocked_tools p) \<noteq> None" using q by (auto simp: first_block_None)
  then obtain r where "first_block ctx (ps_blocked_tools p) = Some (Block r)" using first_block_Some by blast
  then show "\<exists>r. evaluate ctx (sets @ p # below) = Block r"
    using assms by (simp add: evaluate_def skip evaluate_layer_def)
qed

definition payments_ctx :: evaluation_context where
  "payments_ctx = \<lparr>ec_node_id = ''pay'', ec_node_kind_tag = ''python_fn'',
     ec_tool_name = Some ''payments.transfer:send'', ec_model_ref = None\<rparr>"

theorem policy_layers_fail_closed_witness:
  "evaluate payments_ctx
     [policy_set_default\<lparr>ps_blocked_tools := [''payments:transfer.*'']\<rparr>, policy_set_default] \<noteq> Allow"
proof -
  have "ec_node_kind_tag payments_ctx \<noteq> ''model''" by (simp add: payments_ctx_def)
  moreover have "ctx_matches payments_ctx ''payments:transfer.*'' \<noteq> None" by code_simp
  ultimately show ?thesis
    using policy_layers_fail_closed [of payments_ctx
        "[policy_set_default\<lparr>ps_blocked_tools := [''payments:transfer.*'']\<rparr>, policy_set_default]" "[]" "[]"]
    by (simp add: policy_set_default_def)
qed

lemma model_ctx_no_match:
  "ec_node_kind_tag ctx = ''model'' \<Longrightarrow> ec_tool_name ctx = None \<Longrightarrow> ctx_matches ctx q = None"
  by (simp add: ctx_matches_def policy_names_def canonical_handler_def function_kind_tags_def)

text \<open>a model node is decided by the allowlist of the most specific layer that sets one, and by
  nothing else: it is allowed exactly when that list admits its model, and when no layer sets a list.\<close>

theorem model_allowlist_decides:
  fixes sets :: "policy_set list"
  assumes "kind = ModelNode m pr sch sy ts"
  shows "(\<forall>p below. ps_model_allowlist p \<noteq> [] \<longrightarrow> (\<forall>p' \<in> set below. ps_model_allowlist p' = []) \<longrightarrow>
            evaluate (from_node_kind i kind) (sets @ p # below) =
              (if \<exists>q \<in> set (ps_model_allowlist p). model_matches q m then Allow else Block (not_in_allowlist (Some m)))) \<and>
         ((\<forall>p \<in> set sets. ps_model_allowlist p = []) \<longrightarrow> evaluate (from_node_kind i kind) sets = Allow)"
proof -
  let ?ctx = "from_node_kind i kind"
  have ctx: "ec_node_kind_tag ?ctx = ''model''" "ec_tool_name ?ctx = None" "ec_model_ref ?ctx = Some m"
    using assms by (simp_all add: from_node_kind_def)
  have none: "ps_model_allowlist p = [] \<Longrightarrow> evaluate_layer ?ctx p = None" for p
    using model_ctx_no_match [OF ctx(1,2)]
    by (simp add: evaluate_layer_def first_block_None first_approval_None first_approval_def list_ex_iff split: option.splits)
  have skip: "(\<forall>p \<in> set bs. ps_model_allowlist p = []) \<Longrightarrow> evaluate_layers ?ctx (bs @ ps) = evaluate_layers ?ctx ps" for bs ps
    by (induction bs) (auto simp: none)
  show ?thesis
  proof (intro conjI allI impI)
    fix p :: policy_set and below :: "policy_set list"
    assume p: "ps_model_allowlist p \<noteq> []" "\<forall>p' \<in> set below. ps_model_allowlist p' = []"
    show "evaluate ?ctx (sets @ p # below) =
        (if \<exists>q \<in> set (ps_model_allowlist p). model_matches q m then Allow else Block (not_in_allowlist (Some m)))"
      using p ctx skip [of "rev below"]
      by (simp add: evaluate_def evaluate_layer_def allowlist_admits_def list_ex_iff)
  next
    assume "\<forall>p \<in> set sets. ps_model_allowlist p = []"
    then show "evaluate ?ctx sets = Allow" using skip [of "rev sets" "[]"] by (simp add: evaluate_def)
  qed
qed

theorem model_allowlist_decides_witness:
  "evaluate (from_node_kind ''n'' (ModelNode ''anthropic/claude'' [] [] None []))
     [policy_set_default\<lparr>ps_model_allowlist := [''anthropic'']\<rparr>] = Allow"
proof -
  have "model_matches ''anthropic'' ''anthropic/claude''" by code_simp
  then show ?thesis
    using model_allowlist_decides [where kind = "ModelNode ''anthropic/claude'' [] [] None []" and m = "''anthropic/claude''"
        and pr = "[]" and sch = "[]" and sy = None and ts = "[]" and i = "''n''" and sets = "[]"]
    by (simp add: policy_set_default_def)
qed

section \<open>Properties of the dispatch\<close>

lemma fold_decisions_Inr:
  "fold_decisions ds needs = Inr r \<Longrightarrow>
     (\<forall>d \<in> set ds. \<forall>x. snd d \<noteq> Block x) \<and>
     (r = None \<longleftrightarrow> needs = None \<and> (\<forall>d \<in> set ds. snd d = Allow))"
  by (induction ds needs rule: fold_decisions.induct) (auto split: option.splits)

lemma fold_decisions_Inl:
  "fold_decisions ds needs = Inl d \<Longrightarrow> \<exists>m r. d = DBlock m r \<and> (m, Block r) \<in> set ds"
  by (induction ds needs rule: fold_decisions.induct) (auto split: option.splits)

lemma fold_decisions_block: "(m, Block r) \<in> set ds \<Longrightarrow> \<exists>d. fold_decisions ds needs = Inl d"
  by (induction ds needs rule: fold_decisions.induct) auto

definition call_decisions :: "string \<Rightarrow> policy_set list \<Rightarrow> pending_tool_call \<Rightarrow> (string \<times> policy_decision) list" where
  "call_decisions i sets call =
     map (\<lambda>c. (case ec_tool_name c of Some t \<Rightarrow> t | None \<Rightarrow> [], evaluate c sets)) (call_contexts i call)"

definition call_blocked :: "string \<Rightarrow> policy_set list \<Rightarrow> pending_tool_call \<Rightarrow> bool" where
  "call_blocked i sets call = (\<exists>c \<in> set (call_contexts i call). \<exists>r. evaluate c sets = Block r)"

definition call_held :: "string \<Rightarrow> policy_set list \<Rightarrow> pending_tool_call \<Rightarrow> bool" where
  "call_held i sets call = (\<exists>c \<in> set (call_contexts i call). evaluate c sets \<noteq> Allow)"

lemma call_fold_blocked:
  assumes "call_blocked i sets call"
  shows "\<exists>m r. fold_decisions (call_decisions i sets call) None = Inl (DBlock m r)"
proof -
  obtain m r where "(m, Block r) \<in> set (call_decisions i sets call)"
    using assms by (force simp: call_blocked_def call_decisions_def)
  then show ?thesis using fold_decisions_block [of m r] fold_decisions_Inl by blast
qed

lemma call_fold_passes:
  assumes "\<not> call_blocked i sets call"
  shows "\<exists>r. fold_decisions (call_decisions i sets call) None = Inr r \<and> (r = None \<longleftrightarrow> \<not> call_held i sets call)"
proof -
  let ?ds = "call_decisions i sets call"
  have "fold_decisions ?ds None \<noteq> Inl d" for d
  proof
    assume "fold_decisions ?ds None = Inl d"
    then obtain m r where "(m, Block r) \<in> set ?ds" using fold_decisions_Inl by blast
    then obtain c where "c \<in> set (call_contexts i call)" "evaluate c sets = Block r" by (auto simp: call_decisions_def)
    then show False using assms by (auto simp: call_blocked_def)
  qed
  then obtain r where r: "fold_decisions ?ds None = Inr r" by (cases "fold_decisions ?ds None") auto
  then show ?thesis
    using fold_decisions_Inr [OF r] by (auto simp: call_held_def call_decisions_def)
qed

lemma dispatch_loop_Cons:
  "dispatch_loop i (call # calls) sets gated approver =
     (case fold_decisions (call_decisions i sets call) None of
        Inl d \<Rightarrow> d
      | Inr (Some a) \<Rightarrow> dispatch_loop i calls sets (gated @ [tc_name call]) (case approver of None \<Rightarrow> Some a | Some b \<Rightarrow> Some b)
      | Inr None \<Rightarrow> dispatch_loop i calls sets gated approver)"
  by (simp add: call_decisions_def)

lemma dispatch_loop_blocked:
  "\<exists>call \<in> set calls. call_blocked i sets call \<Longrightarrow> \<exists>m r. dispatch_loop i calls sets gated approver = DBlock m r"
proof (induction calls arbitrary: gated approver)
  case Nil
  then show ?case by simp
next
  case (Cons call calls)
  show ?case
  proof (cases "call_blocked i sets call")
    case True
    then show ?thesis unfolding dispatch_loop_Cons using call_fold_blocked by fastforce
  next
    case False
    then have "\<exists>c \<in> set calls. call_blocked i sets c" using Cons.prems by auto
    moreover obtain r where "fold_decisions (call_decisions i sets call) None = Inr r"
      using call_fold_passes [OF False] by blast
    ultimately show ?thesis unfolding dispatch_loop_Cons using Cons.IH by (simp split: option.splits)
  qed
qed

lemma dispatch_loop_passes:
  "\<forall>call \<in> set calls. \<not> call_blocked i sets call \<Longrightarrow>
     (if approver = None \<and> (\<forall>call \<in> set calls. \<not> call_held i sets call)
      then dispatch_loop i calls sets gated approver = DAllow
      else \<exists>a. dispatch_loop i calls sets gated approver =
             DRequireApproval a (gated @ map tc_name (filter (call_held i sets) calls)))"
proof (induction calls arbitrary: gated approver)
  case Nil
  then show ?case by auto
next
  case (Cons call calls)
  then obtain r where r: "fold_decisions (call_decisions i sets call) None = Inr r" "r = None \<longleftrightarrow> \<not> call_held i sets call"
    using call_fold_passes [of i sets call] by auto
  have rest: "\<forall>call \<in> set calls. \<not> call_blocked i sets call" using Cons.prems by simp
  show ?case
  proof (cases r)
    case None
    then show ?thesis unfolding dispatch_loop_Cons using r Cons.IH [OF rest, of approver gated] by (auto split: if_splits)
  next
    case (Some a)
    obtain b where b: "(case approver of None \<Rightarrow> Some a | Some b \<Rightarrow> Some b) = Some b" by (cases approver) auto
    then show ?thesis unfolding dispatch_loop_Cons
      using r Some Cons.IH [OF rest, of "Some b" "gated @ [tc_name call]"] by simp
  qed
qed

text \<open>a batch of tool calls is refused exactly when a policy blocks one of them, under its own name
  or under the code it resolves to, whatever the order of the calls; it is allowed exactly when every
  name of every call is allowed; otherwise it is held, and the list put before the approver is exactly
  the calls that need one, in order.\<close>

theorem dispatch_batch_decided:
  "((\<exists>m r. evaluate_dispatch i calls sets = DBlock m r) \<longleftrightarrow>
      (\<exists>call \<in> set calls. \<exists>c \<in> set (call_contexts i call). \<exists>r. evaluate c sets = Block r)) \<and>
   (evaluate_dispatch i calls sets = DAllow \<longleftrightarrow>
      (\<forall>call \<in> set calls. \<forall>c \<in> set (call_contexts i call). evaluate c sets = Allow)) \<and>
   (\<forall>a gated. evaluate_dispatch i calls sets = DRequireApproval a gated \<longrightarrow>
      gated = map tc_name (filter (call_held i sets) calls) \<and> gated \<noteq> [])"
proof (cases "\<exists>call \<in> set calls. call_blocked i sets call")
  case True
  then obtain m r where "evaluate_dispatch i calls sets = DBlock m r"
    unfolding evaluate_dispatch_def using dispatch_loop_blocked by blast
  moreover have "\<exists>call \<in> set calls. \<exists>c \<in> set (call_contexts i call). evaluate c sets \<noteq> Allow"
    using True by (force simp: call_blocked_def)
  ultimately show ?thesis using True by (auto simp: call_blocked_def)
next
  case False
  then have nb: "\<forall>call \<in> set calls. \<not> call_blocked i sets call" by blast
  show ?thesis
  proof (cases "\<forall>call \<in> set calls. \<not> call_held i sets call")
    case True
    then show ?thesis using dispatch_loop_passes [OF nb, of None "[]"] False
      by (auto simp: evaluate_dispatch_def call_held_def)
  next
    case held: False
    then have "filter (call_held i sets) calls \<noteq> []" by (auto simp: filter_empty_conv)
    moreover obtain a where "evaluate_dispatch i calls sets =
        DRequireApproval a (map tc_name (filter (call_held i sets) calls))"
      using dispatch_loop_passes [OF nb, of None "[]"] held by (auto simp: evaluate_dispatch_def)
    ultimately show ?thesis using False held by (auto simp: call_held_def call_blocked_def)
  qed
qed

definition sample_calls :: "pending_tool_call list" where
  "sample_calls = [\<lparr>tc_name = ''read'', tc_arguments = JNull, tc_handler = None\<rparr>,
     \<lparr>tc_name = ''lookup'', tc_arguments = JNull, tc_handler = Some ''payments:wire.transfer''\<rparr>]"

theorem dispatch_batch_decided_witness:
  "\<exists>m r. evaluate_dispatch ''n'' sample_calls [policy_set_default\<lparr>ps_blocked_tools := [''transfer'']\<rparr>] = DBlock m r"
proof -
  have "evaluate \<lparr>ec_node_id = ''n'', ec_node_kind_tag = ''tool'', ec_tool_name = Some ''transfer'', ec_model_ref = None\<rparr>
      [policy_set_default\<lparr>ps_blocked_tools := [''transfer'']\<rparr>] = Block (blocked_reason ''transfer'' ''transfer'')"
    by code_simp
  moreover have "handler_function_name ''payments:wire.transfer'' = ''transfer''" by code_simp
  ultimately show ?thesis
    using dispatch_batch_decided [of "''n''" sample_calls "[policy_set_default\<lparr>ps_blocked_tools := [''transfer'']\<rparr>]"]
    by (auto simp: sample_calls_def call_contexts_def)
qed

lemma read_call_ok:
  assumes "read_call tools call = Inr c"
  shows "json_get call ''name'' = Some (JString (tc_name c))" and "length (tc_name c) \<le> max_tool_name_len"
    and "tc_handler c = Some h \<Longrightarrow> \<exists>e. handler_ref e = Some h"
    and "Option.bind tools (\<lambda>t. bt_get t (tc_name c)) = Some e \<Longrightarrow> tc_handler c = handler_ref e"
    and "Option.bind tools (\<lambda>t. bt_get t (tc_name c)) = Some e \<Longrightarrow> tc_handler c \<noteq> None"
proof -
  obtain name where n: "Option.bind (json_get call ''name'') as_str = Some name"
    using assms by (auto simp: read_call_def result_simps split: option.splits)
  then obtain v where v: "json_get call ''name'' = Some v" "as_str v = Some name" by (auto split: bind_splits)
  have len: "length name \<le> max_tool_name_len" using assms n by (auto simp: read_call_def result_simps split: if_splits)
  have c: "tc_name c = name" and
    h: "case Option.bind tools (\<lambda>t. bt_get t name) of
          None \<Rightarrow> tc_handler c = None | Some e \<Rightarrow> handler_ref e = tc_handler c \<and> tc_handler c \<noteq> None"
    using assms n len by (auto simp: read_call_def result_simps split: option.splits if_splits)
  show "json_get call ''name'' = Some (JString (tc_name c))" using v c by (cases v) auto
  show "length (tc_name c) \<le> max_tool_name_len" using len c by simp
  show "tc_handler c = Some h \<Longrightarrow> \<exists>e. handler_ref e = Some h" using h by (auto split: option.splits)
  show "Option.bind tools (\<lambda>t. bt_get t (tc_name c)) = Some e \<Longrightarrow> tc_handler c = handler_ref e"
    and "Option.bind tools (\<lambda>t. bt_get t (tc_name c)) = Some e \<Longrightarrow> tc_handler c \<noteq> None"
    using h c by auto
qed

lemma read_calls_ok:
  "read_calls tools arr = Inr cs \<longleftrightarrow> list_all2 (\<lambda>call c. read_call tools call = Inr c) arr cs"
proof (induction arr arbitrary: cs)
  case Nil
  then show ?case by (cases cs) auto
next
  case (Cons call arr)
  show ?case
    by (cases "read_call tools call"; cases "read_calls tools arr"; cases cs) (use Cons in \<open>auto simp: result_simps\<close>)
qed

lemma handler_ref_ok:
  assumes "handler_ref e = Some h"
  shows "e = JString h" and "length h \<le> max_tool_name_len"
    and "\<exists>m f. split_once CHR '':'' h = Some (m, f) \<and> m \<noteq> [] \<and> f \<noteq> [] \<and>
           (\<forall>seg \<in> set (split_on CHR ''.'' f). seg \<noteq> [] \<and> hd seg \<noteq> CHR ''_'')"
proof -
  obtain s where e: "e = JString s" using assms by (cases e) (auto simp: handler_ref_def)
  have h: "h = s" "length s \<le> max_tool_name_len" using assms e by (auto simp: handler_ref_def split: if_splits option.splits prod.splits)
  then show "e = JString h" "length h \<le> max_tool_name_len" using e by simp_all
  obtain m f where s: "split_once CHR '':'' s = Some (m, f)"
    using assms e h by (auto simp: handler_ref_def split: option.splits)
  then have "m \<noteq> []" "f \<noteq> []" and segs: "\<not> list_ex (\<lambda>seg. seg = [] \<or> starts_with ''_'' seg) (split_on CHR ''.'' f)"
    using assms e h by (auto simp: handler_ref_def split: if_splits)
  moreover have "seg \<noteq> [] \<and> hd seg \<noteq> CHR ''_''" if "seg \<in> set (split_on CHR ''.'' f)" for seg
    using segs that by (cases seg) (auto simp: list_ex_iff starts_with_def)
  ultimately show "\<exists>m f. split_once CHR '':'' h = Some (m, f) \<and> m \<noteq> [] \<and> f \<noteq> [] \<and>
           (\<forall>seg \<in> set (split_on CHR ''.'' f). seg \<noteq> [] \<and> hd seg \<noteq> CHR ''_'')"
    using s h by blast
qed

lemma read_pending_ok:
  assumes "read_pending_tool_calls input = Inr calls"
  shows "\<exists>tools arr. length arr \<le> max_pending_calls \<and> read_calls tools arr = Inr calls"
proof -
  obtain obj where obj: "as_object input = Some obj"
    using assms by (auto simp: read_pending_tool_calls_def result_simps split: option.splits)
  define raw where "raw = (case present (bt_get obj ''tool_calls'') of Some v \<Rightarrow> Some v
      | None \<Rightarrow> present (bt_get obj ''last_model_tool_calls''))"
  note r = assms [unfolded read_pending_tool_calls_def obj ok_or_simps and_then_Inr, folded raw_def]
  show ?thesis
  proof (cases raw)
    case None
    then have "read_calls None [] = Inr calls" using r by simp
    then show ?thesis by (metis le0 list.size(3))
  next
    case (Some v)
    define tools where "tools = (case present (bt_get obj ''tools'') of
        None \<Rightarrow> Inr None | Some (JObject m) \<Rightarrow> Inr (Some m) | Some _ \<Rightarrow> Inl ToolsMapNotAnObject)"
    obtain arr where arr: "as_array v = Some arr" using r Some by (cases "as_array v") auto
    have "and_then tools (\<lambda>tools. if length arr > max_pending_calls then Inl TooManyCalls else read_calls tools arr) = Inr calls"
      using r Some arr by (simp add: tools_def)
    then obtain ts where "length arr \<le> max_pending_calls" "read_calls ts arr = Inr calls"
      by (cases tools) (auto simp: not_less split: if_splits)
    then show ?thesis by blast
  qed
qed

text \<open>a batch that was read holds at most \<^verbatim>\<open>MAX_PENDING_CALLS\<close> calls, each under a name of bounded
  length, and a handler it carries is a reference of bounded length to a named module whose path has no
  private segment.\<close>

theorem pending_calls_bounded:
  assumes "read_pending_tool_calls input = Inr calls"
  shows "length calls \<le> 256 \<and>
    (\<forall>c \<in> set calls. length (tc_name c) \<le> 512 \<and>
       (\<forall>h. tc_handler c = Some h \<longrightarrow> length h \<le> 512 \<and>
          (\<exists>m f. split_once CHR '':'' h = Some (m, f) \<and> m \<noteq> [] \<and> f \<noteq> [] \<and>
             (\<forall>seg \<in> set (split_on CHR ''.'' f). seg \<noteq> [] \<and> hd seg \<noteq> CHR ''_''))))"
proof -
  obtain tools arr where arr: "length arr \<le> max_pending_calls" "list_all2 (\<lambda>call c. read_call tools call = Inr c) arr calls"
    using read_pending_ok [OF assms] read_calls_ok by blast
  have len: "length calls \<le> 256" using arr(1) list_all2_lengthD [OF arr(2)] by (simp only: max_pending_calls_def)
  have read: "\<exists>call. read_call tools call = Inr c" if c: "c \<in> set calls" for c
  proof -
    obtain k where "k < length calls" "calls ! k = c" using c by (auto simp: in_set_conv_nth)
    then show ?thesis using list_all2_nthD2 [OF arr(2)] by blast
  qed
  show ?thesis
  proof (intro conjI ballI allI impI)
    show "length calls \<le> 256" by (rule len)
    fix c assume "c \<in> set calls"
    then obtain call where call: "read_call tools call = Inr c" using read by blast
    show "length (tc_name c) \<le> 512" using read_call_ok(2) [OF call] by (simp only: max_tool_name_len_def)
    fix h assume "tc_handler c = Some h"
    then obtain e where e: "handler_ref e = Some h" using read_call_ok(3) [OF call] by blast
    show "length h \<le> 512" using handler_ref_ok(2) [OF e] by (simp only: max_tool_name_len_def)
    show "\<exists>m f. split_once CHR '':'' h = Some (m, f) \<and> m \<noteq> [] \<and> f \<noteq> [] \<and>
             (\<forall>seg \<in> set (split_on CHR ''.'' f). seg \<noteq> [] \<and> hd seg \<noteq> CHR ''_'')"
      by (rule handler_ref_ok(3) [OF e])
  qed
qed

definition sample_input :: json where
  "sample_input = json_object [(''last_model_tool_calls'', JArray [json_object [(''name'', JString ''pay'')]]),
     (''tools'', json_object [(''pay'', JString ''m:f'')])]"

theorem pending_calls_bounded_witness:
  "read_pending_tool_calls sample_input = Inr [\<lparr>tc_name = ''pay'', tc_arguments = JNull, tc_handler = Some ''m:f''\<rparr>] \<and>
   length [\<lparr>tc_name = ''pay'', tc_arguments = JNull, tc_handler = Some ''m:f''\<rparr>] \<le> 256"
proof -
  have r: "read_pending_tool_calls sample_input = Inr [\<lparr>tc_name = ''pay'', tc_arguments = JNull, tc_handler = Some ''m:f''\<rparr>]"
    by code_simp
  then show ?thesis using pending_calls_bounded [OF r] by blast
qed

end
