(* ===== verification/Agent_Card.thy ===== *)
theory Agent_Card
  imports Policy
begin

text \<open>
  What an agent's card lets it do: its tool lists (\<^verbatim>\<open>runtime/policy/src/allowed_tools.rs\<close>) and its
  autonomy limits (\<^verbatim>\<open>runtime/policy/src/autonomy.rs\<close>, with \<^verbatim>\<open>AutonomyConstraints\<close> of
  \<^verbatim>\<open>runtime/agents/src/card.rs\<close>).  Shown: a bare pattern of an allowlist never admits code by its
  module path, a restricted agent never runs a node whose target is chosen at run time, what an
  allowlist admits the same list used as a blocklist names, and a step fires only under every limit
  that is set, with the refusal in the order of the checks.
\<close>

section \<open>The card\<close>

datatype on_limit_exceeded = OnLimitFail | EscalateToHuman

record autonomy_constraints =
  ac_max_iterations :: "nat option"
  ac_max_tool_calls :: "nat option"
  ac_token_budget :: "nat option"
  ac_cost_budget_usd :: "f64 option"
  ac_allowed_tools :: "string list"
  ac_blocked_tools :: "string list"
  ac_allowed_delegations :: "string list"
  ac_require_approval_for :: "string list"
  ac_time_budget_secs :: "nat option"
  ac_max_consecutive_errors :: "nat option"
  ac_on_limit_exceeded :: "on_limit_exceeded option"

definition default_max_consecutive_errors :: nat where
  "default_max_consecutive_errors = 3"

section \<open>The tool lists\<close>

definition run_time_target_tags :: "string list" where
  "run_time_target_tags = [''coordinator'', ''agent_discovery'', ''agent_tool'']"

definition listed :: "string list \<Rightarrow> string \<Rightarrow> bool" where
  "listed patterns name = list_ex (\<lambda>p. glob_match p name) patterns"

definition is_path_pattern :: "string \<Rightarrow> bool" where
  "is_path_pattern pattern = list_ex (\<lambda>c. c = CHR '':'' \<or> c = CHR ''.'' \<or> c = CHR ''/'') pattern"

definition function_name :: "string \<Rightarrow> string" where
  "function_name handler = rsplit_last [CHR '':'', CHR ''.'', CHR ''/''] handler"

definition handler_listed :: "evaluation_context \<Rightarrow> string \<Rightarrow> string list \<Rightarrow> bool" where
  "handler_listed ctx handler allowed =
     list_ex (\<lambda>p.
       if is_path_pattern p
       then glob_match p handler \<or>
            (case canonical_handler ctx of None \<Rightarrow> False | Some c \<Rightarrow> glob_match (canonical_pattern p) c)
       else glob_match p (function_name handler)) allowed"

definition run_time_target :: "string \<Rightarrow> string" where
  "run_time_target tag = tag @ '' (target chosen at run time)''"

definition is_code :: "evaluation_context \<Rightarrow> bool" where
  "is_code ctx = (ec_node_kind_tag ctx \<in> set function_kind_tags \<or> ec_node_kind_tag ctx = python_ref_tag)"

definition node_allowed :: "evaluation_context \<Rightarrow> string list \<Rightarrow> string + unit" where
  "node_allowed ctx allowed =
     (if allowed = [] then Inr ()
      else (case ec_tool_name ctx of
              None \<Rightarrow> if ec_node_kind_tag ctx \<in> set run_time_target_tags
                      then Inl (run_time_target (ec_node_kind_tag ctx)) else Inr ()
            | Some name \<Rightarrow>
                if (if is_code ctx then handler_listed ctx name allowed else listed allowed name)
                then Inr () else Inl name))"

definition node_named_by :: "evaluation_context \<Rightarrow> string list \<Rightarrow> string option" where
  "node_named_by ctx patterns =
     (if patterns = [] then None
      else (case ec_tool_name ctx of
              None \<Rightarrow> if ec_node_kind_tag ctx \<in> set run_time_target_tags
                      then Some (run_time_target (ec_node_kind_tag ctx)) else None
            | Some name \<Rightarrow>
                if (if is_code ctx then handler_listed ctx name patterns else listed patterns name)
                then Some name else None))"

definition handler_ctx :: "string \<Rightarrow> evaluation_context" where
  "handler_ctx handler = \<lparr>ec_node_id = [], ec_node_kind_tag = python_ref_tag,
     ec_tool_name = Some handler, ec_model_ref = None\<rparr>"

definition call_named_by :: "pending_tool_call \<Rightarrow> string list \<Rightarrow> string option" where
  "call_named_by call patterns =
     (if patterns = [] then None
      else if listed patterns (tc_name call) then Some (tc_name call)
      else (case tc_handler call of
              None \<Rightarrow> None
            | Some handler \<Rightarrow> if handler_listed (handler_ctx handler) handler patterns then Some handler else None))"

datatype call_refused = RefusedName string | RefusedHandler string string

definition call_allowed :: "pending_tool_call \<Rightarrow> string list \<Rightarrow> call_refused + unit" where
  "call_allowed call allowed =
     (if allowed = [] then Inr ()
      else if \<not> listed allowed (tc_name call) then Inl (RefusedName (tc_name call))
      else (case tc_handler call of
              None \<Rightarrow> Inr ()
            | Some handler \<Rightarrow>
                if handler_listed (handler_ctx handler) handler allowed then Inr ()
                else Inl (RefusedHandler (tc_name call) handler)))"

section \<open>The autonomy limits\<close>

record agent_usage =
  au_iterations :: nat
  au_tool_calls :: nat
  au_tokens :: nat
  au_cost_usd :: f64
  au_consecutive_errors :: nat
  au_elapsed_ms :: "nat option"

datatype autonomy_decision =
    Proceed
  | LimitReached string json json
  | BreakerTripped nat nat

text \<open>\<^verbatim>\<open>u64::into\<close> and \<^verbatim>\<open>json!\<close> on a float, which writes null for one that is not finite.\<close>

definition json_of_nat :: "nat \<Rightarrow> json" where
  "json_of_nat n = JNumber (PosInt n)"

fun json_of_f64 :: "f64 \<Rightarrow> json" where
  "json_of_f64 (Finite r) = JNumber (Float (Finite r))"
| "json_of_f64 _ = JNull"

definition saturating_mul_u64 :: "nat \<Rightarrow> nat \<Rightarrow> nat" where
  "saturating_mul_u64 a b = min (a * b) u64_max"

definition autonomy_check :: "autonomy_constraints option \<Rightarrow> agent_usage \<Rightarrow> nat \<Rightarrow> autonomy_decision" where
  "autonomy_check constraints usage step_tool_calls =
     (let threshold = (case Option.bind constraints ac_max_consecutive_errors of
                         None \<Rightarrow> default_max_consecutive_errors | Some t \<Rightarrow> t)
      in if au_consecutive_errors usage \<ge> threshold then BreakerTripped (au_consecutive_errors usage) threshold
         else (case constraints of
           None \<Rightarrow> Proceed
         | Some c \<Rightarrow>
           (case (case ac_max_iterations c of
                    None \<Rightarrow> None
                  | Some m \<Rightarrow> if au_iterations usage \<ge> m
                              then Some (LimitReached ''max_iterations'' (json_of_nat m) (json_of_nat (au_iterations usage))) else None) of
              Some d \<Rightarrow> d
            | None \<Rightarrow>
           (case (case ac_max_tool_calls c of
                    None \<Rightarrow> None
                  | Some m \<Rightarrow>
                      let would_be = wrap_u64 (au_tool_calls usage + step_tool_calls)
                      in if step_tool_calls > 0 \<and> would_be > m
                         then Some (LimitReached ''max_tool_calls'' (json_of_nat m) (json_of_nat would_be)) else None) of
              Some d \<Rightarrow> d
            | None \<Rightarrow>
           (case (case ac_token_budget c of
                    None \<Rightarrow> None
                  | Some m \<Rightarrow> if au_tokens usage \<ge> m
                              then Some (LimitReached ''token_budget'' (json_of_nat m) (json_of_nat (au_tokens usage))) else None) of
              Some d \<Rightarrow> d
            | None \<Rightarrow>
           (case (case ac_cost_budget_usd c of
                    None \<Rightarrow> None
                  | Some m \<Rightarrow> if \<not> f64_lt (au_cost_usd usage) m
                              then Some (LimitReached ''cost_budget'' (json_of_f64 m) (json_of_f64 (au_cost_usd usage))) else None) of
              Some d \<Rightarrow> d
            | None \<Rightarrow>
           (case (ac_time_budget_secs c, au_elapsed_ms usage) of
              (Some secs, Some e) \<Rightarrow>
                if e \<ge> saturating_mul_u64 secs 1000
                then LimitReached ''time_budget'' (json_of_nat secs) (json_of_nat e) else Proceed
            | _ \<Rightarrow> Proceed)))))))"

section \<open>Properties of the tool lists\<close>

lemma function_name_plain: "c \<in> {CHR '':'', CHR ''.'', CHR ''/''} \<Longrightarrow> c \<notin> set (function_name h)"
  unfolding function_name_def by (rule rsplit_last_no_sep) auto

lemma handler_listed_bare:
  "\<forall>p \<in> set ps. \<not> is_path_pattern p \<Longrightarrow> handler_listed ctx h ps \<longleftrightarrow> listed ps (function_name h)"
  by (auto simp: handler_listed_def listed_def list_ex_iff)

text \<open>a dispatched call runs under an allowlist only if its name is listed and, when its \<^verbatim>\<open>tools\<close> entry
  resolves to code, that code is; and a list of bare names admits code by the function's own name only,
  which holds none of the path separators, so a bare pattern never reaches across a module path.\<close>

theorem allowlist_needs_both_identities:
  assumes "allowed \<noteq> []" and "call_allowed call allowed = Inr ()"
  shows "listed allowed (tc_name call) \<and>
    (\<forall>h. tc_handler call = Some h \<longrightarrow>
       handler_listed (handler_ctx h) h allowed \<and>
       ((\<forall>p \<in> set allowed. \<not> is_path_pattern p) \<longrightarrow>
          listed allowed (function_name h) \<and> (\<forall>c \<in> set (function_name h). c \<notin> {CHR '':'', CHR ''.'', CHR ''/''})))"
  using assms handler_listed_bare [of allowed] function_name_plain
  by (auto simp: call_allowed_def split: if_splits option.splits)

theorem allowlist_needs_both_identities_witness:
  "call_allowed \<lparr>tc_name = ''search'', tc_arguments = JNull, tc_handler = Some ''app.tools:search''\<rparr> [''search''] = Inr () \<and>
   listed [''search''] (function_name ''app.tools:search'')"
proof -
  have ok: "call_allowed \<lparr>tc_name = ''search'', tc_arguments = JNull, tc_handler = Some ''app.tools:search''\<rparr> [''search''] = Inr ()"
    by code_simp
  have "\<not> is_path_pattern ''search''" by code_simp
  then show ?thesis using ok allowlist_needs_both_identities [OF _ ok] by simp
qed

text \<open>the two sides of a card read a list the same way and fail closed: a named tool is admitted by an
  allowlist exactly when the same list as a blocklist names it, and a node that picks its target at run
  time is refused by every non-empty allowlist and named by every non-empty blocklist.\<close>

theorem tool_lists_fail_closed:
  assumes "patterns \<noteq> []"
  shows "(ec_tool_name ctx = Some name \<longrightarrow>
            (node_allowed ctx patterns = Inr () \<longleftrightarrow> node_named_by ctx patterns = Some name) \<and>
            (node_allowed ctx patterns = Inl name \<longleftrightarrow> node_named_by ctx patterns = None)) \<and>
         (ec_tool_name ctx = None \<and> ec_node_kind_tag ctx \<in> set run_time_target_tags \<longrightarrow>
            node_allowed ctx patterns \<noteq> Inr () \<and> node_named_by ctx patterns \<noteq> None)"
  using assms by (auto simp: node_allowed_def node_named_by_def)

theorem tool_lists_fail_closed_witness:
  "node_allowed (from_node_kind ''n'' (AgentTool AutoAgent SyncMode [] [] None None)) [''*''] \<noteq> Inr ()"
  using tool_lists_fail_closed [of "[''*'']" "from_node_kind ''n'' (AgentTool AutoAgent SyncMode [] [] None None)" "[]"]
  by (simp add: from_node_kind_def run_time_target_tags_def)

section \<open>Properties of the limits\<close>

definition breaker_threshold :: "autonomy_constraints option \<Rightarrow> nat" where
  "breaker_threshold constraints =
     (case Option.bind constraints ac_max_consecutive_errors of None \<Rightarrow> 3 | Some t \<Rightarrow> t)"

text \<open>a step fires exactly when the breaker is below its threshold (three when the card sets none) and
  the agent is under every limit its card sets; a total or a budget that is not a number refuses, and a
  limit of zero refuses the first step.\<close>

theorem step_proceeds_under_every_limit:
  assumes "au_tool_calls usage + n < 2 ^ 64"
  shows "autonomy_check constraints usage n = Proceed \<longleftrightarrow>
    au_consecutive_errors usage < breaker_threshold constraints \<and>
    (\<forall>c. constraints = Some c \<longrightarrow>
       (\<forall>m. ac_max_iterations c = Some m \<longrightarrow> au_iterations usage < m) \<and>
       (\<forall>m. ac_max_tool_calls c = Some m \<longrightarrow> n = 0 \<or> au_tool_calls usage + n \<le> m) \<and>
       (\<forall>m. ac_token_budget c = Some m \<longrightarrow> au_tokens usage < m) \<and>
       (\<forall>m. ac_cost_budget_usd c = Some m \<longrightarrow> f64_lt (au_cost_usd usage) m) \<and>
       (\<forall>s e. ac_time_budget_secs c = Some s \<longrightarrow> au_elapsed_ms usage = Some e \<longrightarrow> e < min (s * 1000) (2 ^ 64 - 1)))"
proof -
  have w: "wrap_u64 (au_tool_calls usage + n) = au_tool_calls usage + n" using assms by (rule wrap_u64_id)
  show ?thesis
  proof (cases constraints)
    case None
    then show ?thesis
      by (simp add: autonomy_check_def breaker_threshold_def default_max_consecutive_errors_def not_le)
  next
    case (Some c)
    have limits: "autonomy_check (Some c) usage n = Proceed \<longleftrightarrow>
      au_consecutive_errors usage < breaker_threshold (Some c) \<and>
      (case ac_max_iterations c of None \<Rightarrow> True | Some m \<Rightarrow> au_iterations usage < m) \<and>
      (case ac_max_tool_calls c of None \<Rightarrow> True | Some m \<Rightarrow> n = 0 \<or> au_tool_calls usage + n \<le> m) \<and>
      (case ac_token_budget c of None \<Rightarrow> True | Some m \<Rightarrow> au_tokens usage < m) \<and>
      (case ac_cost_budget_usd c of None \<Rightarrow> True | Some m \<Rightarrow> f64_lt (au_cost_usd usage) m) \<and>
      (case (ac_time_budget_secs c, au_elapsed_ms usage) of
         (Some s, Some e) \<Rightarrow> e < saturating_mul_u64 s 1000 | _ \<Rightarrow> True)"
      unfolding autonomy_check_def breaker_threshold_def w default_max_consecutive_errors_def Let_def
      by (simp add: not_le split: option.split)
    show ?thesis
      unfolding Some limits by (simp add: saturating_mul_u64_def u64_max_def split: option.split)
  qed
qed

definition idle_usage :: agent_usage where
  "idle_usage = \<lparr>au_iterations = 0, au_tool_calls = 0, au_tokens = 0, au_cost_usd = Finite 0,
     au_consecutive_errors = 0, au_elapsed_ms = None\<rparr>"

theorem step_proceeds_under_every_limit_witness:
  "autonomy_check (Some \<lparr>ac_max_iterations = Some 0, ac_max_tool_calls = None, ac_token_budget = None,
      ac_cost_budget_usd = Some NaN, ac_allowed_tools = [], ac_blocked_tools = [], ac_allowed_delegations = [],
      ac_require_approval_for = [], ac_time_budget_secs = None, ac_max_consecutive_errors = None,
      ac_on_limit_exceeded = None\<rparr>) idle_usage 1 \<noteq> Proceed"
  using step_proceeds_under_every_limit [of idle_usage 1] by (simp add: idle_usage_def)

end
