(* ===== verification/Agent_Limits.thy ===== *)
theory Agent_Limits
  imports Segment Agent_Card Scheduling
begin

text \<open>
  The autonomy limits of an agent card, enforced from the event log (\<^verbatim>\<open>runtime/workers/src/agent_limits.rs\<close>):
  the ledger folded from the log, the decision whether a step may fire, the conditional append that admits
  it, and the check a completion has to pass.  Shown: however claims, completions and other operations
  interleave, an agent whose card says to fail never takes more steps or makes more tool calls than its
  card allows, and an approval past a limit releases one step.
\<close>

section \<open>The ledger\<close>

datatype guard_outcome =
    GuardAllow
  | GuardBlocked string
  | GuardHeld "string list"
  | GuardUnavailable string

definition autonomy_rule :: string where "autonomy_rule = ''agent autonomy''"

type_synonym agents = "(string \<times> autonomy_constraints option) list"

record spent =
  sp_iterations :: nat
  sp_tool_calls :: nat
  sp_tokens :: nat
  sp_cost_usd :: f64
  sp_consecutive_errors :: nat
  sp_first_step_at :: "timestamp option"

definition spent_default :: spent where
  "spent_default = \<lparr>sp_iterations = 0, sp_tool_calls = 0, sp_tokens = 0, sp_cost_usd = Finite 0, sp_consecutive_errors = 0,
     sp_first_step_at = None\<rparr>"

record ledger =
  lg_agents :: "string \<rightharpoonup> spent"
  lg_open :: "string \<rightharpoonup> string list list"

definition ledger_default :: ledger where
  "ledger_default = \<lparr>lg_agents = Map.empty, lg_open = Map.empty\<rparr>"

definition saturating_add_u64 :: "nat \<Rightarrow> nat \<Rightarrow> nat" where
  "saturating_add_u64 a b = min (a + b) u64_max"

definition saturating_add_u32 :: "nat \<Rightarrow> nat \<Rightarrow> nat" where
  "saturating_add_u32 a b = min (a + b) (2 ^ 32 - 1)"

definition spent_of :: "ledger \<Rightarrow> string \<Rightarrow> spent" where
  "spent_of lg a = (case lg_agents lg a of Some sp \<Rightarrow> sp | None \<Rightarrow> spent_default)"

text \<open>\<^verbatim>\<open>entry(a).or_default()\<close> and the update of the entry.\<close>

definition charge :: "(spent \<Rightarrow> spent) \<Rightarrow> string \<Rightarrow> ledger \<Rightarrow> ledger" where
  "charge f a lg = lg\<lparr>lg_agents := (lg_agents lg)(a \<mapsto> f (spent_of lg a))\<rparr>"

definition charge_step :: "timestamp \<Rightarrow> nat \<Rightarrow> spent \<Rightarrow> spent" where
  "charge_step t tool_calls sp =
     sp\<lparr>sp_iterations := saturating_add_u64 (sp_iterations sp) 1,
        sp_tool_calls := saturating_add_u64 (sp_tool_calls sp) tool_calls,
        sp_first_step_at := (case sp_first_step_at sp of None \<Rightarrow> Some t | Some u \<Rightarrow> Some u)\<rparr>"

definition reported_cost :: "f64 option \<Rightarrow> f64" where
  "reported_cost cost_usd =
     (case cost_usd of
        Some c \<Rightarrow> (case c of Finite r \<Rightarrow> if f64_lt (Finite 0) c then c else Finite 0 | _ \<Rightarrow> Infinite True)
      | None \<Rightarrow> Finite 0)"

definition ledger_end :: "string \<Rightarrow> ledger \<Rightarrow> (ledger \<times> string list) option" where
  "ledger_end node lg =
     (case lg_open lg node of
        None \<Rightarrow> None
      | Some [] \<Rightarrow> None
      | Some (agents # rest) \<Rightarrow> Some (lg\<lparr>lg_open := (lg_open lg)(node \<mapsto> rest)\<rparr>, agents))"

text \<open>\<^verbatim>\<open>Ledger::apply\<close>; no ledger for an event this build cannot read.\<close>

definition ledger_apply :: "event \<Rightarrow> ledger \<Rightarrow> ledger option" where
  "ledger_apply e lg =
     (case ev_kind e of
        AgentStepAdmitted node _ agents tool_calls _ \<Rightarrow>
          (let lg = fold (charge (charge_step (ev_created_at e) tool_calls)) agents lg
           in Some (lg\<lparr>lg_open := (lg_open lg)(node \<mapsto> (case lg_open lg node of Some l \<Rightarrow> l | None \<Rightarrow> []) @ [agents])\<rparr>))
      | NodeCompleted nc \<Rightarrow>
          (case ledger_end (nc_node_id nc) lg of
             None \<Rightarrow> Some lg
           | Some (lg, agents) \<Rightarrow>
               (let tokens = saturating_add_u64 (case nc_input_tokens nc of Some n \<Rightarrow> n | None \<Rightarrow> 0)
                               (case nc_output_tokens nc of Some n \<Rightarrow> n | None \<Rightarrow> 0)
                in Some (fold (charge (\<lambda>sp. sp\<lparr>sp_tokens := saturating_add_u64 (sp_tokens sp) tokens,
                                             sp_cost_usd := f64_add (sp_cost_usd sp) (reported_cost (nc_cost_usd nc)),
                                             sp_consecutive_errors := 0\<rparr>)) agents lg)))
      | NodeFailed node _ _ _ \<Rightarrow>
          (case ledger_end node lg of
             None \<Rightarrow> Some lg
           | Some (lg, agents) \<Rightarrow>
               Some (fold (charge (\<lambda>sp. sp\<lparr>sp_consecutive_errors := saturating_add_u32 (sp_consecutive_errors sp) 1\<rparr>)) agents lg))
      | Unknown \<Rightarrow> None
      | _ \<Rightarrow> Some lg)"

fun ledger_fold :: "event list \<Rightarrow> ledger \<Rightarrow> ledger option" where
  "ledger_fold [] lg = Some lg"
| "ledger_fold (e # es) lg = (case ledger_apply e lg of None \<Rightarrow> None | Some lg \<Rightarrow> ledger_fold es lg)"

definition apply_segment :: "event list \<Rightarrow> ledger \<Rightarrow> ledger option" where
  "apply_segment events lg = ledger_fold events (lg\<lparr>lg_open := Map.empty\<rparr>)"

definition ledger_usage :: "ledger \<Rightarrow> string \<Rightarrow> timestamp \<Rightarrow> agent_usage" where
  "ledger_usage lg agent now =
     (let sp = spent_of lg agent
      in \<lparr>au_iterations = sp_iterations sp, au_tool_calls = sp_tool_calls sp, au_tokens = sp_tokens sp, au_cost_usd = sp_cost_usd sp,
          au_consecutive_errors = sp_consecutive_errors sp, au_elapsed_ms = map_option (\<lambda>t. nat (now - t)) (sp_first_step_at sp)\<rparr>)"

section \<open>Deciding a step\<close>

definition on_limit_of :: "autonomy_constraints option \<Rightarrow> on_limit_exceeded" where
  "on_limit_of constraints = (case Option.bind constraints ac_on_limit_exceeded of Some l \<Rightarrow> l | None \<Rightarrow> OnLimitFail)"

fun first_stop_from ::
    "(string \<times> autonomy_decision \<times> on_limit_exceeded) option \<Rightarrow> ledger \<Rightarrow> agents \<Rightarrow> nat \<Rightarrow> timestamp \<Rightarrow>
     (string \<times> autonomy_decision \<times> on_limit_exceeded) option" where
  "first_stop_from escalation lg [] step now = escalation"
| "first_stop_from escalation lg ((agent, constraints) # rest) step now =
     (let decision = autonomy_check constraints (ledger_usage lg agent now) step
      in if decision = Proceed then first_stop_from escalation lg rest step now
         else (case on_limit_of constraints of
                 OnLimitFail \<Rightarrow> Some (agent, decision, OnLimitFail)
               | EscalateToHuman \<Rightarrow>
                   first_stop_from (if escalation = None then Some (agent, decision, EscalateToHuman) else escalation) lg rest step now))"

definition first_stop :: "ledger \<Rightarrow> agents \<Rightarrow> nat \<Rightarrow> timestamp \<Rightarrow> (string \<times> autonomy_decision \<times> on_limit_exceeded) option" where
  "first_stop lg agents step now = first_stop_from None lg agents step now"

definition fail_stop :: "ledger \<Rightarrow> agents \<Rightarrow> nat \<Rightarrow> timestamp \<Rightarrow> bool" where
  "fail_stop lg agents step now =
     list_ex (\<lambda>(agent, constraints).
       on_limit_of constraints = OnLimitFail \<and> autonomy_check constraints (ledger_usage lg agent now) step \<noteq> Proceed) agents"

definition escalation_key :: string where "escalation_key = ''autonomy_limit''"

definition used_by_step :: "event_sequence \<Rightarrow> event \<Rightarrow> bool" where
  "used_by_step seq e = (case ev_kind e of AgentStepAdmitted _ _ _ _ (Some q) \<Rightarrow> q = seq | _ \<Rightarrow> False)"

definition unused_escalation :: "externals \<Rightarrow> event list \<Rightarrow> node_id \<Rightarrow> event_sequence option" where
  "unused_escalation x events node =
     (case node_approval_status x events node of
        NodeApproved _ _ _ \<Rightarrow>
          (case answered_request x events node of
             None \<Rightarrow> None
           | Some request \<Rightarrow>
               if json_get (pa_context request) escalation_key = None then None
               else if list_ex (used_by_step (pa_sequence request)) events then None
               else Some (pa_sequence request))
      | _ \<Rightarrow> None)"

record escalation =
  es_agent :: string
  es_decision :: autonomy_decision

definition escalation_context :: "escalation \<Rightarrow> json" where
  "escalation_context e =
     json_object ((''agent_ref'', JString (es_agent e)) #
       (case es_decision e of
          LimitReached limit_type limit_value actual_value \<Rightarrow>
            [(''limit_type'', JString limit_type), (''limit_value'', limit_value), (''actual_value'', actual_value)]
        | BreakerTripped errors threshold \<Rightarrow>
            [(''limit_type'', JString ''circuit_breaker''), (''limit_value'', json_of_nat threshold), (''actual_value'', json_of_nat errors)]
        | Proceed \<Rightarrow> []))"

record step_plan =
  pl_agents :: agents
  pl_step :: nat
  pl_earlier :: ledger
  pl_now :: timestamp
  pl_escalation :: "escalation option"

definition describe_stop :: "externals \<Rightarrow> string \<Rightarrow> autonomy_decision \<Rightarrow> string" where
  "describe_stop x agent decision =
     autonomy_rule @ '': agent '' @ [CHR 0x27] @ agent @ [CHR 0x27] @
     (case decision of
        LimitReached limit_type limit_value actual_value \<Rightarrow>
          '' reached '' @ limit_type @ '' (limit '' @ x_display_json x limit_value @ '', at '' @ x_display_json x actual_value @ '')''
      | BreakerTripped errors threshold \<Rightarrow>
          '' circuit breaker tripped ('' @ show_nat errors @ '' consecutive errors, threshold '' @ show_nat threshold @ '')''
      | Proceed \<Rightarrow> [])"

definition append_kind :: "sched_env \<Rightarrow> timestamp \<Rightarrow> execution_id \<Rightarrow> event_kind \<Rightarrow> in_memory_backend \<Rightarrow> in_memory_backend" where
  "append_kind env now e kind s = fst (append_event (event_new (se_fresh env (mb_next_sequence s)) now e 0 kind) s)"

definition record_stop ::
    "sched_env \<Rightarrow> timestamp \<Rightarrow> execution_id \<Rightarrow> node_id \<Rightarrow> string \<Rightarrow> autonomy_decision \<Rightarrow> string option \<Rightarrow> in_memory_backend \<Rightarrow> in_memory_backend" where
  "record_stop env now e node agent decision escalated_to s =
     (let stop_and_reason =
        (case decision of
           LimitReached limit_type limit_value actual_value \<Rightarrow>
             Some (AutonomyLimitReached node agent limit_type limit_value actual_value, ''autonomy_limit:'' @ limit_type)
         | BreakerTripped errors threshold \<Rightarrow> Some (CircuitBreakerTripped node agent errors threshold, ''circuit_breaker'')
         | Proceed \<Rightarrow> None)
      in (case stop_and_reason of
            None \<Rightarrow> s
          | Some (stop, reason) \<Rightarrow>
              fold (append_kind env now e)
                (stop # (case escalated_to of Some target \<Rightarrow> [EscalationRequired node agent reason target] | None \<Rightarrow> [])) s))"

fun earlier_segments :: "in_memory_backend \<Rightarrow> execution_id list \<Rightarrow> ledger \<Rightarrow> (execution_id + ledger)" where
  "earlier_segments s [] lg = Inr lg"
| "earlier_segments s (i # ids) lg =
     (case apply_segment (get_events i s) lg of None \<Rightarrow> Inl i | Some lg \<Rightarrow> earlier_segments s ids lg)"

definition counters_unavailable :: "string \<Rightarrow> guard_outcome" where
  "counters_unavailable what =
     GuardUnavailable (''agent autonomy counters unavailable; refusing to run without checking them: '' @ what)"

text \<open>The display of \<^verbatim>\<open>StateBackendError\<close> and the debug name of \<^verbatim>\<open>WorkflowStatus\<close>.\<close>

definition backend_error_text :: "backend_error \<Rightarrow> string" where
  "backend_error_text err =
     (case err of
        NotFound m \<Rightarrow> ''execution not found: '' @ m
      | SequenceConflict m \<Rightarrow> ''optimistic concurrency conflict: sequence mismatch for '' @ m
      | FenceLost m \<Rightarrow> ''lease fence superseded for work item '' @ m @ '': lease was stolen or store failed over''
      | DatabaseError m \<Rightarrow> ''database error: '' @ m
      | VersionConflict m \<Rightarrow> ''workflow version already registered with a different definition: '' @ m
      | Serialization m \<Rightarrow> ''serialization error: '' @ m)"

definition status_debug :: "workflow_status \<Rightarrow> string" where
  "status_debug status =
     (case status of
        WfPending \<Rightarrow> ''Pending'' | WfRunning \<Rightarrow> ''Running'' | WfPaused \<Rightarrow> ''Paused'' | WfCompleted \<Rightarrow> ''Completed''
      | WfFailed \<Rightarrow> ''Failed'' | WfCancelled \<Rightarrow> ''Cancelled'' | WfLimitExceeded \<Rightarrow> ''LimitExceeded'')"

definition plan_step ::
    "sched_env \<Rightarrow> timestamp \<Rightarrow> execution_id \<Rightarrow> node_id \<Rightarrow> agents \<Rightarrow> nat \<Rightarrow> in_memory_backend \<Rightarrow>
     in_memory_backend \<times> (guard_outcome + step_plan)" where
  "plan_step env now e node agents tool_calls s =
     (case segment_chain e s of
        Inl err \<Rightarrow> (s, Inl (counters_unavailable (backend_error_text err)))
      | Inr chain \<Rightarrow>
          (case earlier_segments s (filter (\<lambda>i. i \<noteq> e) chain) ledger_default of
             Inl i \<Rightarrow> (s, Inl (counters_unavailable (''segment '' @ exec_label i @ '' holds an unreadable event'')))
           | Inr earlier \<Rightarrow>
               (case apply_segment (get_events e s) earlier of
                  None \<Rightarrow> (s, Inl (counters_unavailable ''the run's log holds an unreadable event''))
                | Some lg \<Rightarrow>
                    (case first_stop lg agents tool_calls now of
                       Some (agent, decision, OnLimitFail) \<Rightarrow>
                         (record_stop env now e node agent decision None s, Inl (GuardBlocked (describe_stop (se_x env) agent decision)))
                     | Some (agent, decision, EscalateToHuman) \<Rightarrow>
                         (s, Inr \<lparr>pl_agents = agents, pl_step = tool_calls, pl_earlier = earlier, pl_now = now,
                                  pl_escalation = Some \<lparr>es_agent = agent, es_decision = decision\<rparr>\<rparr>)
                     | None \<Rightarrow>
                         (s, Inr \<lparr>pl_agents = agents, pl_step = tool_calls, pl_earlier = earlier, pl_now = now,
                                  pl_escalation = None\<rparr>)))))"

definition still_allowed :: "externals \<Rightarrow> node_id \<Rightarrow> step_plan \<Rightarrow> event_sequence option \<Rightarrow> event list \<Rightarrow> bool" where
  "still_allowed x node plan approval_sequence evs =
     (case apply_segment evs (pl_earlier plan) of
        None \<Rightarrow> False
      | Some lg \<Rightarrow>
          (case approval_sequence of
             None \<Rightarrow> first_stop lg (pl_agents plan) (pl_step plan) (pl_now plan) = None
           | Some seq \<Rightarrow>
               unused_escalation x evs node = Some seq \<and> \<not> fail_stop lg (pl_agents plan) (pl_step plan) (pl_now plan)))"

definition admitted_kind :: "node_id \<Rightarrow> uuid option \<Rightarrow> step_plan \<Rightarrow> event_sequence option \<Rightarrow> event_kind" where
  "admitted_kind node item plan approval_sequence =
     AgentStepAdmitted node item (map fst (pl_agents plan)) (pl_step plan) approval_sequence"

text \<open>The append of \<^verbatim>\<open>admit\<close>, once the approval it rests on is known.\<close>

definition admit_append ::
    "sched_env \<Rightarrow> timestamp \<Rightarrow> execution_id \<Rightarrow> node_id \<Rightarrow> uuid option \<Rightarrow> step_plan \<Rightarrow> event_sequence option \<Rightarrow> in_memory_backend \<Rightarrow>
     in_memory_backend \<times> guard_outcome" where
  "admit_append env now e node item plan approval_sequence s =
     (case append_event_if (event_new (se_fresh env (mb_next_sequence s)) now e 0 (admitted_kind node item plan approval_sequence))
             (still_allowed (se_x env) node plan approval_sequence) s of
        (s, Inr (Appended _)) \<Rightarrow> (s, GuardAllow)
      | (s, Inr Refused) \<Rightarrow>
          (s, GuardUnavailable ''another step of the agent was recorded while this one was decided; deciding again on the next attempt'')
      | (s, Inr (RunTerminal status)) \<Rightarrow> (s, GuardUnavailable (''execution is '' @ status_debug status))
      | (s, Inl err) \<Rightarrow>
          (s, GuardUnavailable (''agent step could not be recorded; refusing to run it unrecorded: '' @ backend_error_text err)))"

definition admit ::
    "sched_env \<Rightarrow> timestamp \<Rightarrow> execution_id \<Rightarrow> node_id \<Rightarrow> uuid option \<Rightarrow> step_plan \<Rightarrow> in_memory_backend \<Rightarrow>
     in_memory_backend \<times> guard_outcome" where
  "admit env now e node item plan s =
     (case pl_escalation plan of
        None \<Rightarrow> admit_append env now e node item plan None s
      | Some _ \<Rightarrow>
          (case unused_escalation (se_x env) (get_events e s) node of
             Some seq \<Rightarrow> admit_append env now e node item plan (Some seq) s
           | None \<Rightarrow>
               (s, GuardUnavailable ''the approval releasing this step past the agent's limit was used or withdrawn; deciding again on the next attempt'')))"

section \<open>Completions\<close>

definition opens_node :: "node_id \<Rightarrow> event \<Rightarrow> bool" where
  "opens_node node e = (case ev_kind e of AgentStepAdmitted n _ _ _ _ \<Rightarrow> n = node | _ \<Rightarrow> False)"

definition ends_node :: "node_id \<Rightarrow> event \<Rightarrow> bool" where
  "ends_node node e = (case ev_kind e of NodeCompleted nc \<Rightarrow> nc_node_id nc = node | NodeFailed n _ _ _ \<Rightarrow> n = node | _ \<Rightarrow> False)"

definition admits_item :: "uuid \<Rightarrow> event \<Rightarrow> bool" where
  "admits_item item e = (case ev_kind e of AgentStepAdmitted _ (Some i) _ _ _ \<Rightarrow> i = item | _ \<Rightarrow> False)"

text \<open>The events from the last one that satisfies a test on.\<close>

definition from_last :: "('a \<Rightarrow> bool) \<Rightarrow> 'a list \<Rightarrow> 'a list option" where
  "from_last P xs =
     (case dropWhile (\<lambda>y. \<not> P y) (rev xs) of
        [] \<Rightarrow> None
      | y # _ \<Rightarrow> Some (y # rev (takeWhile (\<lambda>y. \<not> P y) (rev xs))))"

definition completion_admitted :: "execution_id \<Rightarrow> uuid option \<Rightarrow> in_memory_backend \<Rightarrow> guard_outcome + unit" where
  "completion_admitted e work_item_id s =
     (case work_item_id of
        None \<Rightarrow>
          Inl (GuardBlocked (autonomy_rule @ '': a result for a node acting for an agent needs the work item it was admitted as''))
      | Some item \<Rightarrow>
          (let admitted =
             (case from_last (admits_item item) (get_events e s) of
                None \<Rightarrow> False
              | Some tail \<Rightarrow>
                  (let node = (case event_node_id (ev_kind (hd tail)) of Some n \<Rightarrow> n | None \<Rightarrow> [])
                   in length (filter (ends_node node) tail) < length (filter (opens_node node) tail)))
           in if admitted then Inr ()
              else Inl (GuardBlocked (autonomy_rule @ '': work item '' @ item @
                     '' acts for an agent and was never admitted by the claim gate, so its result cannot be recorded''))))"

section \<open>What the ledger counts\<close>

lemma spent_of_charge: "spent_of (charge f b lg) a = (if a = b then f (spent_of lg b) else spent_of lg a)"
  by (simp add: charge_def spent_of_def)

lemma charge_all_distinct:
  "distinct as \<Longrightarrow> spent_of (fold (charge f) as lg) a = (if a \<in> set as then f (spent_of lg a) else spent_of lg a)"
  by (induction as arbitrary: lg) (auto simp: spent_of_charge)

lemma charge_all_keeps:
  "(\<And>sp. g (f sp) = g sp) \<Longrightarrow> g (spent_of (fold (charge f) as lg) a) = g (spent_of lg a)"
  by (induction as arbitrary: lg) (simp_all add: spent_of_charge)

lemma spent_of_open [simp]: "spent_of (lg\<lparr>lg_open := p\<rparr>) a = spent_of lg a"
  by (simp add: spent_of_def)

lemma ledger_end_spent: "ledger_end node lg = Some (lg', as) \<Longrightarrow> spent_of lg' a = spent_of lg a"
  by (auto simp: ledger_end_def split: option.splits list.splits)

text \<open>A step's weight in the two counters, for one agent.\<close>

definition steps_weight :: "string \<Rightarrow> event \<Rightarrow> nat" where
  "steps_weight a ev = (case ev_kind ev of AgentStepAdmitted _ _ agents _ _ \<Rightarrow> if a \<in> set agents then 1 else 0 | _ \<Rightarrow> 0)"

definition calls_weight :: "string \<Rightarrow> event \<Rightarrow> nat" where
  "calls_weight a ev = (case ev_kind ev of AgentStepAdmitted _ _ agents n _ \<Rightarrow> if a \<in> set agents then n else 0 | _ \<Rightarrow> 0)"

definition is_step :: "event \<Rightarrow> bool" where
  "is_step ev = (case ev_kind ev of AgentStepAdmitted _ _ _ _ _ \<Rightarrow> True | _ \<Rightarrow> False)"

definition step_distinct :: "event \<Rightarrow> bool" where
  "step_distinct ev = (case ev_kind ev of AgentStepAdmitted _ _ agents _ _ \<Rightarrow> distinct agents | _ \<Rightarrow> True)"

lemma ledger_apply_counts:
  assumes "ledger_apply ev lg = Some lg'" and "step_distinct ev"
  shows "min (sp_iterations (spent_of lg a) + steps_weight a ev) u64_max \<le> sp_iterations (spent_of lg' a) \<and>
    min (sp_tool_calls (spent_of lg a) + calls_weight a ev) u64_max \<le> sp_tool_calls (spent_of lg' a) \<and>
    sp_tool_calls (spent_of lg' a) \<le> sp_tool_calls (spent_of lg a) + calls_weight a ev"
proof (cases "ev_kind ev")
  case (AgentStepAdmitted node item as n seq)
  then show ?thesis
    using assms by (auto simp: ledger_apply_def step_distinct_def steps_weight_def calls_weight_def charge_all_distinct charge_step_def
        saturating_add_u64_def Let_def)
next
  case (NodeCompleted nc)
  then show ?thesis
    using assms(1) ledger_end_spent [of "nc_node_id nc" lg]
    by (auto simp: ledger_apply_def steps_weight_def calls_weight_def Let_def charge_all_keeps [of sp_iterations]
        charge_all_keeps [of sp_tool_calls] split: option.splits prod.splits)
next
  case (NodeFailed node err n retry)
  then show ?thesis
    using assms(1) ledger_end_spent [of node lg]
    by (auto simp: ledger_apply_def steps_weight_def calls_weight_def charge_all_keeps [of sp_iterations]
        charge_all_keeps [of sp_tool_calls] split: option.splits prod.splits)
qed (use assms(1) in \<open>simp_all add: ledger_apply_def steps_weight_def calls_weight_def\<close>)

lemma ledger_fold_counts:
  assumes "ledger_fold evs lg = Some lg'" and "list_all step_distinct evs"
  shows "min (sp_iterations (spent_of lg a) + sum_list (map (steps_weight a) evs)) u64_max \<le> sp_iterations (spent_of lg' a) \<and>
    min (sp_tool_calls (spent_of lg a) + sum_list (map (calls_weight a) evs)) u64_max \<le> sp_tool_calls (spent_of lg' a) \<and>
    sp_tool_calls (spent_of lg' a) \<le> sp_tool_calls (spent_of lg a) + sum_list (map (calls_weight a) evs)"
  using assms
proof (induction evs arbitrary: lg)
  case (Cons ev evs)
  then obtain lg1 where lg1: "ledger_apply ev lg = Some lg1" "ledger_fold evs lg1 = Some lg'" by (auto split: option.splits)
  show ?case using Cons.IH [OF lg1(2)] ledger_apply_counts [OF lg1(1), of a] Cons.prems(2) by (auto simp: min_def split: if_splits)
qed simp

lemma apply_segment_counts:
  assumes "apply_segment evs lg = Some lg'" and "list_all step_distinct evs"
  shows "min (sp_iterations (spent_of lg a) + sum_list (map (steps_weight a) evs)) u64_max \<le> sp_iterations (spent_of lg' a)"
    and "min (sp_tool_calls (spent_of lg a) + sum_list (map (calls_weight a) evs)) u64_max \<le> sp_tool_calls (spent_of lg' a)"
    and "sp_tool_calls (spent_of lg' a) \<le> sp_tool_calls (spent_of lg a) + sum_list (map (calls_weight a) evs)"
  using ledger_fold_counts [OF assms(1) [unfolded apply_segment_def] assms(2), of a] by simp_all

section \<open>The limits hold\<close>

lemma first_stop_Some: "(first_stop_from (Some z) lg agents step now = None) = False"
  by (induction agents arbitrary: z) (auto simp: Let_def split: on_limit_exceeded.splits)

lemma first_stop_None:
  "first_stop_from None lg agents step now = None \<Longrightarrow> (a, c) \<in> set agents \<Longrightarrow> autonomy_check c (ledger_usage lg a now) step = Proceed"
  by (induction agents) (auto simp: Let_def first_stop_Some split: if_splits on_limit_exceeded.splits)

text \<open>A card that says to fail lets a step through only within its limits, approved or not.\<close>

lemma still_allowed_within:
  assumes "still_allowed x node plan q evs" and "(a, c) \<in> set (pl_agents plan)" and "on_limit_of c = OnLimitFail"
  obtains lg where "apply_segment evs (pl_earlier plan) = Some lg" and "autonomy_check c (ledger_usage lg a (pl_now plan)) (pl_step plan) = Proceed"
proof -
  obtain lg where lg: "apply_segment evs (pl_earlier plan) = Some lg" using assms(1) by (auto simp: still_allowed_def split: option.splits)
  have "autonomy_check c (ledger_usage lg a (pl_now plan)) (pl_step plan) = Proceed"
  proof (cases q)
    case None
    then show ?thesis using assms(1,2) lg by (auto simp: still_allowed_def first_stop_def intro: first_stop_None)
  next
    case (Some seq)
    then have "\<not> fail_stop lg (pl_agents plan) (pl_step plan) (pl_now plan)" using assms(1) lg by (simp add: still_allowed_def)
    then show ?thesis using assms(2,3) by (auto simp: fail_stop_def list_ex_iff)
  qed
  then show ?thesis using lg that by blast
qed

lemma proceed_within:
  assumes "autonomy_check (Some c) usage step = Proceed"
  shows "ac_max_iterations c = Some m \<Longrightarrow> au_iterations usage < m"
    and "ac_max_tool_calls c = Some m \<Longrightarrow> au_tool_calls usage + step < 2 ^ 64 \<Longrightarrow> 0 < step \<Longrightarrow> au_tool_calls usage + step \<le> m"
  using assms by (auto simp: autonomy_check_def Let_def wrap_u64_id split: if_splits option.splits)

text \<open>The states a segment goes through: agent steps are admitted under fixed cards, and everything else only
  appends other events to its log.\<close>

definition plan_ok :: "(string \<Rightarrow> autonomy_constraints option) \<Rightarrow> ledger \<Rightarrow> step_plan \<Rightarrow> bool" where
  "plan_ok cards earlier plan =
     (distinct (map fst (pl_agents plan)) \<and> (\<forall>(a, c) \<in> set (pl_agents plan). c = cards a) \<and> pl_earlier plan = earlier \<and> pl_step plan < 2 ^ 32)"

lemma admitted_within:
  assumes "still_allowed x node plan q evs" and "plan_ok cards earlier plan" and "a \<in> fst ` set (pl_agents plan)"
    and "cards a = Some c" and "on_limit_of (Some c) = OnLimitFail"
  shows "\<exists>lg. apply_segment evs earlier = Some lg \<and> autonomy_check (Some c) (ledger_usage lg a (pl_now plan)) (pl_step plan) = Proceed"
proof -
  have "(a, Some c) \<in> set (pl_agents plan)" using assms(2,3,4) by (auto simp: plan_ok_def)
  from still_allowed_within [OF assms(1) this assms(5)] show ?thesis using assms(2) by (auto simp: plan_ok_def)
qed

inductive agent_run ::
    "sched_env \<Rightarrow> execution_id \<Rightarrow> (string \<Rightarrow> autonomy_constraints option) \<Rightarrow> ledger \<Rightarrow> in_memory_backend \<Rightarrow> bool"
  for env e cards earlier where
  start: "\<forall>ev \<in> set (log_of s e). \<not> is_step ev \<Longrightarrow> agent_run env e cards earlier s"
| other: "agent_run env e cards earlier s \<Longrightarrow> log_of s' e = log_of s e @ new \<Longrightarrow> \<forall>ev \<in> set new. \<not> is_step ev \<Longrightarrow>
    agent_run env e cards earlier s'"
| step: "agent_run env e cards earlier s \<Longrightarrow> plan_ok cards earlier plan \<Longrightarrow>
    agent_run env e cards earlier (fst (admit env now e node item plan s))"

lemma admit_append_log:
  "log_of (fst (admit_append env now e node item plan q s)) e = log_of s e \<or>
   (\<exists>ev. still_allowed (se_x env) node plan q (log_of s e) \<and> ev_kind ev = admitted_kind node item plan q \<and>
      log_of (fst (admit_append env now e node item plan q s)) e = log_of s e @ [ev])"
  by (auto simp: admit_append_def append_event_if_def push_event_def log_of_def event_new_def Let_def split: option.splits)

lemma admit_log:
  "log_of (fst (admit env now e node item plan s)) e = log_of s e \<or>
   (\<exists>ev q. still_allowed (se_x env) node plan q (log_of s e) \<and> ev_kind ev = admitted_kind node item plan q \<and>
      log_of (fst (admit env now e node item plan s)) e = log_of s e @ [ev])"
  using admit_append_log [of env now e node item plan _ s] by (fastforce simp: admit_def split: option.splits)

lemma no_step_weighs: "(\<And>ev. \<not> is_step ev \<Longrightarrow> w ev = (0 :: nat)) \<Longrightarrow> \<forall>ev \<in> set evs. \<not> is_step ev \<Longrightarrow> sum_list (map w evs) = 0"
  by (induction evs) simp_all

lemma no_step_distinct: "\<not> is_step ev \<Longrightarrow> step_distinct ev"
  by (auto simp: is_step_def step_distinct_def split: event_kind.splits)

section \<open>A run in segments\<close>

text \<open>What the segments of a run weigh together.\<close>

definition total :: "(event \<Rightarrow> nat) \<Rightarrow> execution_id list \<Rightarrow> in_memory_backend \<Rightarrow> nat" where
  "total w ids s = sum_list (map (\<lambda>i. sum_list (map w (log_of s i))) ids)"

text \<open>A run whose segments so far are \<open>ids\<close>, the root first, with the plans the guard has made, each for the segment it was made in.
  Cards are fixed.  The others append what they like but no admission, and leave ended segments ended; the guard plans a step
  of the current segment; any plan, also one of an earlier state or segment, is offered for admission any number of times;
  and a segment that was created takes over once the current one has ended.\<close>

inductive segmented_run ::
    "sched_env \<Rightarrow> (string \<Rightarrow> autonomy_constraints option) \<Rightarrow> execution_id list \<Rightarrow> (execution_id \<times> step_plan) set \<Rightarrow> in_memory_backend \<Rightarrow> bool"
  for env cards where
  seg_start: "segment_chain e s = Inr [e] \<Longrightarrow> \<forall>ev \<in> set (log_of s e). \<not> is_step ev \<Longrightarrow> segmented_run env cards [e] {} s"
| seg_other:
    "segmented_run env cards ids P s \<Longrightarrow> segment_chain (last ids) s' = Inr ids \<Longrightarrow>
     \<forall>i \<in> set ids. (run_is_terminal s i \<longrightarrow> run_is_terminal s' i) \<and> (\<exists>new. log_of s' i = log_of s i @ new \<and> (\<forall>ev \<in> set new. \<not> is_step ev)) \<Longrightarrow>
     segmented_run env cards ids P s'"
| seg_plan:
    "segmented_run env cards ids P s \<Longrightarrow> plan_step env now (last ids) node agents tool_calls s = (s', Inr plan) \<Longrightarrow>
     distinct (map fst agents) \<Longrightarrow> \<forall>(a, c) \<in> set agents. c = cards a \<Longrightarrow> tool_calls < 2 ^ 32 \<Longrightarrow>
     segmented_run env cards ids (insert (last ids, plan) P) s'"
| seg_admit:
    "segmented_run env cards ids P s \<Longrightarrow> (e, plan) \<in> P \<Longrightarrow> segmented_run env cards ids P (fst (admit env now e node item plan s))"
| seg_next:
    "segmented_run env cards ids P s \<Longrightarrow> run_is_terminal s (last ids) \<Longrightarrow> segment_chain e s = Inr (ids @ [e]) \<Longrightarrow> e \<notin> set ids \<Longrightarrow>
     \<forall>ev \<in> set (log_of s e). \<not> is_step ev \<Longrightarrow> segmented_run env cards (ids @ [e]) P s"

text \<open>An admission changes the log of its segment only, and none at all once the segment has ended.\<close>

lemma admit_frame:
  "mb_executions (fst (admit env now e node item plan s)) = mb_executions s"
  "i \<noteq> e \<or> run_is_terminal s e \<Longrightarrow> log_of (fst (admit env now e node item plan s)) i = log_of s i"
  by (auto simp: admit_def admit_append_def append_event_if_def push_event_def event_new_def log_of_def run_is_terminal_def Let_def split: option.splits)

lemma segment_chain_same: "mb_executions s' = mb_executions s \<Longrightarrow> segment_chain e s' = segment_chain e s"
proof -
  assume s: "mb_executions s' = mb_executions s"
  have "chain_loop n s' e ch = chain_loop n s e ch" for n ch by (induction n arbitrary: e ch) (simp_all add: get_execution_def s split: option.split)
  then show ?thesis by (simp add: segment_chain_def)
qed

lemma steps_distinct_others: "list_all step_distinct evs \<Longrightarrow> \<forall>ev \<in> set new. \<not> is_step ev \<Longrightarrow> list_all step_distinct (evs @ new)"
  by (auto simp: list_all_iff no_step_distinct)

lemma weight_no_step: "\<not> is_step ev \<Longrightarrow> steps_weight a ev = 0" "\<not> is_step ev \<Longrightarrow> calls_weight a ev = 0"
  by (simp_all add: is_step_def steps_weight_def calls_weight_def split: event_kind.splits)

lemma total_others:
  assumes "\<And>ev. \<not> is_step ev \<Longrightarrow> w ev = 0" and "\<forall>i \<in> set ids. \<exists>new. log_of s' i = log_of s i @ new \<and> (\<forall>ev \<in> set new. \<not> is_step ev)"
  shows "total w ids s' = total w ids s"
proof -
  have "sum_list (map w (log_of s' i)) = sum_list (map w (log_of s i))" if "i \<in> set ids" for i
  proof -
    obtain new where "log_of s' i = log_of s i @ new" "\<forall>ev \<in> set new. \<not> is_step ev" using assms(2) \<open>i \<in> set ids\<close> by blast
    then show ?thesis using no_step_weighs [OF assms(1)] by simp
  qed
  then show ?thesis by (simp add: total_def cong: map_cong)
qed

lemma total_same: "(\<And>i. i \<in> set ids \<Longrightarrow> log_of s' i = log_of s i) \<Longrightarrow> total w ids s' = total w ids s"
  by (simp add: total_def cong: map_cong)

lemma total_snoc: "ids \<noteq> [] \<Longrightarrow> total w ids s = total w (butlast ids) s + sum_list (map w (log_of s (last ids)))"
  by (cases ids rule: rev_cases) (simp_all add: total_def)

text \<open>The ledger of earlier segments counts what they have recorded.\<close>

definition knows :: "string \<Rightarrow> ledger \<Rightarrow> execution_id list \<Rightarrow> in_memory_backend \<Rightarrow> bool" where
  "knows a lg ids s =
     (min (total (steps_weight a) ids s) u64_max \<le> sp_iterations (spent_of lg a) \<and>
      min (total (calls_weight a) ids s) u64_max \<le> sp_tool_calls (spent_of lg a) \<and> sp_tool_calls (spent_of lg a) \<le> total (calls_weight a) ids s)"

lemma earlier_segments_counts:
  assumes "earlier_segments s ids lg = Inr lg'" and "\<forall>i \<in> set ids. list_all step_distinct (log_of s i)"
  shows "min (sp_iterations (spent_of lg a) + total (steps_weight a) ids s) u64_max \<le> sp_iterations (spent_of lg' a) \<and>
    min (sp_tool_calls (spent_of lg a) + total (calls_weight a) ids s) u64_max \<le> sp_tool_calls (spent_of lg' a) \<and>
    sp_tool_calls (spent_of lg' a) \<le> sp_tool_calls (spent_of lg a) + total (calls_weight a) ids s"
  using assms
proof (induction ids arbitrary: lg)
  case (Cons i ids)
  then obtain lg1 where lg1: "apply_segment (log_of s i) lg = Some lg1" "earlier_segments s ids lg1 = Inr lg'"
    by (auto simp: get_events_def split: option.splits)
  show ?case using Cons.IH [OF lg1(2)] apply_segment_counts [OF lg1(1), of a] Cons.prems(2)
    by (simp add: total_def) (auto simp: min_def split: if_splits)
qed (simp add: total_def)

lemma earlier_segments_knows:
  "earlier_segments s ids ledger_default = Inr lg \<Longrightarrow> \<forall>i \<in> set ids. list_all step_distinct (log_of s i) \<Longrightarrow> knows a lg ids s"
  using earlier_segments_counts [of s ids ledger_default lg a] by (simp add: knows_def ledger_default_def spent_of_def spent_default_def)

lemma plan_step_knows:
  assumes "plan_step env now e node agents tool_calls s = (s', Inr plan)" and "segment_chain e s = Inr (ids @ [e])" and "e \<notin> set ids"
    and "\<forall>i \<in> set ids. list_all step_distinct (log_of s i)"
  shows "s' = s \<and> pl_agents plan = agents \<and> pl_step plan = tool_calls \<and> knows a (pl_earlier plan) ids s"
proof -
  have f: "filter (\<lambda>i. i \<noteq> e) (ids @ [e]) = ids" using assms(3) by (auto simp: filter_id_conv)
  show ?thesis
    using assms(1) earlier_segments_knows [OF _ assms(4)] unfolding plan_step_def assms(2) sum.case f
    by (auto split: sum.splits option.splits on_limit_exceeded.splits)
qed

lemma knows_others:
  "\<forall>i \<in> set ids. \<exists>new. log_of s' i = log_of s i @ new \<and> (\<forall>ev \<in> set new. \<not> is_step ev) \<Longrightarrow> knows a lg ids s \<Longrightarrow> knows a lg ids s'"
  unfolding knows_def using total_others [OF weight_no_step(1)] total_others [OF weight_no_step(2)] by simp

text \<open>What holds of every such run.\<close>

definition plans_ok :: "(string \<Rightarrow> autonomy_constraints option) \<Rightarrow> execution_id list \<Rightarrow> (execution_id \<times> step_plan) set \<Rightarrow> in_memory_backend \<Rightarrow> bool" where
  "plans_ok cards ids P s =
     (\<forall>(e, plan) \<in> P. e \<in> set ids \<and> plan_ok cards (pl_earlier plan) plan \<and> (e = last ids \<longrightarrow> (\<forall>a. knows a (pl_earlier plan) (butlast ids) s)))"

lemma last_apart: "ids \<noteq> [] \<Longrightarrow> set ids = insert (last ids) (set (butlast ids))" "ids \<noteq> [] \<Longrightarrow> distinct ids \<Longrightarrow> last ids \<notin> set (butlast ids)"
  by (cases ids rule: rev_cases; simp)+

lemma segmented_run_inv:
  assumes "segmented_run env cards ids P s"
  shows "ids \<noteq> [] \<and> distinct ids \<and> segment_chain (last ids) s = Inr ids \<and> (\<forall>i \<in> set (butlast ids). run_is_terminal s i) \<and>
    (\<forall>i \<in> set ids. list_all step_distinct (log_of s i)) \<and> plans_ok cards ids P s"
  using assms
proof (induction rule: segmented_run.induct)
  case (seg_start e s)
  then show ?case by (auto simp: list_all_iff no_step_distinct plans_ok_def)
next
  case (seg_other ids P s s')
  have sub: "set (butlast ids) \<subseteq> set ids" using in_set_butlastD by fastforce
  have "knows a lg (butlast ids) s \<Longrightarrow> knows a lg (butlast ids) s'" for a lg
    by (rule knows_others) (use seg_other.hyps(3) sub in blast)
  then have "plans_ok cards ids P s'" using seg_other.IH by (auto simp: plans_ok_def)
  moreover have "\<forall>i \<in> set ids. list_all step_distinct (log_of s' i)" using seg_other.IH seg_other.hyps(3) steps_distinct_others by metis
  ultimately show ?case using seg_other.IH seg_other.hyps(2,3) sub by blast
next
  case (seg_plan ids P s now node agents tool_calls s' plan)
  have ids: "butlast ids @ [last ids] = ids" using seg_plan.IH by simp
  have "last ids \<notin> set (butlast ids)" using seg_plan.IH last_apart(2) by blast
  moreover have "\<forall>i \<in> set (butlast ids). list_all step_distinct (log_of s i)" using seg_plan.IH in_set_butlastD by fastforce
  ultimately have k: "s' = s \<and> pl_agents plan = agents \<and> pl_step plan = tool_calls \<and> knows a (pl_earlier plan) (butlast ids) s" for a
    using plan_step_knows [OF seg_plan.hyps(2), of "butlast ids"] seg_plan.IH ids by simp
  then have "plan_ok cards (pl_earlier plan) plan" using seg_plan.hyps(3-5) by (simp add: plan_ok_def)
  then show ?case using seg_plan.IH k by (auto simp: plans_ok_def)
next
  case (seg_admit ids P s e plan now node item)
  let ?s' = "fst (admit env now e node item plan s)"
  have plan: "e \<in> set ids" "plan_ok cards (pl_earlier plan) plan" using seg_admit by (auto simp: plans_ok_def)
  have same: "log_of ?s' i = log_of s i" if "i \<in> set (butlast ids)" for i
  proof (cases "e = last ids")
    case True
    then have "i \<noteq> e" using that seg_admit.IH last_apart(2) by blast
    then show ?thesis by (simp add: admit_frame(2))
  next
    case False
    then have "e \<in> set (butlast ids)" using plan(1) seg_admit.IH last_apart(1) by blast
    then show ?thesis using seg_admit.IH admit_frame(2) by blast
  qed
  then have "plans_ok cards ids P ?s'"
    using seg_admit.IH total_same [of "butlast ids" ?s' s] by (simp add: plans_ok_def knows_def)
  moreover have "list_all step_distinct (log_of ?s' i)" if i: "i \<in> set ids" for i
  proof (cases "i = e")
    case True
    have old: "list_all step_distinct (log_of s e)" using seg_admit.IH plan(1) by blast
    from admit_log [of env now e node item plan s] have "list_all step_distinct (log_of ?s' e)"
    proof (elim disjE exE conjE)
      fix ev q assume "ev_kind ev = admitted_kind node item plan q" "log_of ?s' e = log_of s e @ [ev]"
      then show ?thesis using old plan(2) by (simp add: step_distinct_def admitted_kind_def plan_ok_def)
    qed (use old in simp)
    then show ?thesis using True by simp
  next
    case False
    then show ?thesis using seg_admit.IH i by (simp add: admit_frame(2))
  qed
  ultimately show ?case
    using seg_admit.IH by (simp add: run_is_terminal_def admit_frame(1) segment_chain_same [OF admit_frame(1)])
next
  case (seg_next ids P s e)
  have old: "f \<in> set ids" "plan_ok cards (pl_earlier plan) plan" if "(f, plan) \<in> P" for f plan
    using seg_next.IH that unfolding plans_ok_def by blast+
  have "f \<noteq> e" if "(f, plan) \<in> P" for f plan using old(1) [OF that] seg_next.hyps(4) by metis
  with old have "plans_ok cards (ids @ [e]) P s" unfolding plans_ok_def by (simp add: case_prod_beta) (metis prod.collapse)
  moreover have "\<forall>i \<in> set ids. run_is_terminal s i" using seg_next.IH seg_next.hyps(2) last_apart(1) [of ids] by auto
  moreover have "list_all step_distinct (log_of s e)" using seg_next.hyps(5) by (simp add: list_all_iff no_step_distinct)
  ultimately show ?case using seg_next.IH seg_next.hyps(3,4) by simp
qed

text \<open>A weight that only admissions carry stays within its bound if every admission in the current segment keeps it there.\<close>

lemma segmented_run_bound:
  assumes run: "segmented_run env cards ids P s" and zero: "\<And>ev. \<not> is_step ev \<Longrightarrow> w ev = (0 :: nat)"
    and adm: "\<And>ids s node item plan q ev. ids \<noteq> [] \<Longrightarrow> still_allowed (se_x env) node plan q (log_of s (last ids)) \<Longrightarrow>
      plan_ok cards (pl_earlier plan) plan \<Longrightarrow> \<forall>a. knows a (pl_earlier plan) (butlast ids) s \<Longrightarrow> list_all step_distinct (log_of s (last ids)) \<Longrightarrow>
      total w ids s \<le> cap \<Longrightarrow> ev_kind ev = admitted_kind node item plan q \<Longrightarrow> total w ids s + w ev \<le> cap"
  shows "total w ids s \<le> cap"
  using run
proof (induction rule: segmented_run.induct)
  case (seg_start e s)
  have "sum_list (map w (log_of s e)) = 0" by (rule no_step_weighs [OF _ seg_start(2)]) (rule zero)
  then have "total w [e] s = 0" by (simp add: total_def)
  then show ?case by simp
next
  case (seg_other ids P s s')
  then show ?case using total_others [of w, OF zero] by fastforce
next
  case (seg_plan ids P s now node agents tool_calls s' plan)
  then have "s' = s" by (auto simp: plan_step_def split: sum.splits option.splits on_limit_exceeded.splits)
  then show ?case using seg_plan.IH by simp
next
  case (seg_admit ids P s e plan now node item)
  let ?s' = "fst (admit env now e node item plan s)"
  note inv = segmented_run_inv [OF seg_admit.hyps(1)]
  have plan: "e \<in> set ids" "plan_ok cards (pl_earlier plan) plan" "e = last ids \<Longrightarrow> \<forall>a. knows a (pl_earlier plan) (butlast ids) s"
    using seg_admit.hyps(2) inv by (auto simp: plans_ok_def)
  show ?case
  proof (cases "run_is_terminal s e \<or> log_of ?s' e = log_of s e")
    case True
    then have "log_of ?s' i = log_of s i" for i using admit_frame(2) by metis
    then show ?thesis using seg_admit.IH total_same by metis
  next
    case False
    then have e: "e = last ids" using inv plan(1) last_apart(1) by blast
    obtain ev q where ev: "still_allowed (se_x env) node plan q (log_of s e)" "ev_kind ev = admitted_kind node item plan q" "log_of ?s' e = log_of s e @ [ev]"
      using admit_log [of env now e node item plan s] False by blast
    have "i \<noteq> e" if "i \<in> set (butlast ids)" for i
      using that inv e last_apart(2) by blast
    then have "total w (butlast ids) ?s' = total w (butlast ids) s" by (intro total_same) (simp add: admit_frame(2))
    then have "total w ids ?s' = total w ids s + w ev" using inv ev(3) e by (simp add: total_snoc)
    moreover have "total w ids s + w ev \<le> cap" using adm [of ids node plan q s] inv ev(1,2) plan seg_admit.IH e by simp
    ultimately show ?thesis by simp
  qed
next
  case (seg_next ids P s e)
  have "sum_list (map w (log_of s e)) = 0" by (rule no_step_weighs [OF _ seg_next.hyps(5)]) (rule zero)
  then have "total w (ids @ [e]) s = total w ids s" by (simp add: total_def)
  then show ?case using seg_next.IH by simp
qed

text \<open>What the plan of an admission knew, with the log of the current segment, is what the run has spent.\<close>

lemma admission_within:
  assumes "ids \<noteq> []" and "still_allowed x node plan q (log_of s (last ids))" and "plan_ok cards (pl_earlier plan) plan"
    and "knows a (pl_earlier plan) (butlast ids) s" and "list_all step_distinct (log_of s (last ids))"
    and "a \<in> fst ` set (pl_agents plan)" and "cards a = Some c" and "on_limit_of (Some c) = OnLimitFail"
  shows "\<exists>lg. autonomy_check (Some c) (ledger_usage lg a (pl_now plan)) (pl_step plan) = Proceed \<and>
    min (total (steps_weight a) ids s) u64_max \<le> sp_iterations (spent_of lg a) \<and>
    min (total (calls_weight a) ids s) u64_max \<le> sp_tool_calls (spent_of lg a) \<and> sp_tool_calls (spent_of lg a) \<le> total (calls_weight a) ids s"
proof -
  obtain lg where lg: "apply_segment (log_of s (last ids)) (pl_earlier plan) = Some lg"
      "autonomy_check (Some c) (ledger_usage lg a (pl_now plan)) (pl_step plan) = Proceed"
    using admitted_within [OF assms(2,3,6-8)] by blast
  show ?thesis using lg(2) apply_segment_counts [OF lg(1) assms(5), of a] assms(4) unfolding knows_def total_snoc [OF assms(1)]
    by (intro exI [of _ lg]) (auto simp: min_def split: if_splits)
qed

text \<open>C32: An agent whose card says to fail at a limit never takes more steps, nor makes more tool calls, than its card allows
  over all segments of the run together, whatever claims race, whatever was approved and however old the plan is that a
  claim is admitted by.  A segment takes over when the one before it has ended, and cards do not change meanwhile.\<close>

theorem autonomy_limits_hold:
  assumes "segmented_run env cards ids P s" and "cards a = Some c" and "on_limit_of (Some c) = OnLimitFail"
  shows "(\<forall>m. ac_max_iterations c = Some m \<and> m < 2 ^ 32 \<longrightarrow> total (steps_weight a) ids s \<le> m) \<and>
    (\<forall>m. ac_max_tool_calls c = Some m \<and> m < 2 ^ 32 \<longrightarrow> total (calls_weight a) ids s \<le> m)"
proof (intro conjI allI impI)
  fix m assume m: "ac_max_iterations c = Some m \<and> m < 2 ^ 32"
  show "total (steps_weight a) ids s \<le> m"
  proof (rule segmented_run_bound [OF assms(1) weight_no_step(1)])
    fix ids s node item plan q and ev :: event
    assume adm: "ids \<noteq> []" "still_allowed (se_x env) node plan q (log_of s (last ids))" "plan_ok cards (pl_earlier plan) plan"
      "\<forall>a. knows a (pl_earlier plan) (butlast ids) s" "list_all step_distinct (log_of s (last ids))" "total (steps_weight a) ids s \<le> m"
      and ev: "ev_kind ev = admitted_kind node item plan q"
    show "total (steps_weight a) ids s + steps_weight a ev \<le> m"
    proof (cases "a \<in> fst ` set (pl_agents plan)")
      case True
      obtain lg where lg: "autonomy_check (Some c) (ledger_usage lg a (pl_now plan)) (pl_step plan) = Proceed"
          "min (total (steps_weight a) ids s) u64_max \<le> sp_iterations (spent_of lg a)"
        using admission_within [OF adm(1-3) spec [OF adm(4)] adm(5) True assms(2,3)] by blast
      have "sp_iterations (spent_of lg a) < m" using proceed_within(1) [OF lg(1)] m by (simp add: ledger_usage_def Let_def)
      then have "total (steps_weight a) ids s < m" using lg(2) adm(6) m by (auto simp: u64_max_def min_def split: if_splits)
      moreover have "steps_weight a ev \<le> 1" using ev by (simp add: steps_weight_def admitted_kind_def)
      ultimately show ?thesis by simp
    qed (use adm(6) ev in \<open>simp add: steps_weight_def admitted_kind_def\<close>)
  qed
next
  fix m assume m: "ac_max_tool_calls c = Some m \<and> m < 2 ^ 32"
  show "total (calls_weight a) ids s \<le> m"
  proof (rule segmented_run_bound [OF assms(1) weight_no_step(2)])
    fix ids s node item plan q and ev :: event
    assume adm: "ids \<noteq> []" "still_allowed (se_x env) node plan q (log_of s (last ids))" "plan_ok cards (pl_earlier plan) plan"
      "\<forall>a. knows a (pl_earlier plan) (butlast ids) s" "list_all step_distinct (log_of s (last ids))" "total (calls_weight a) ids s \<le> m"
      and ev: "ev_kind ev = admitted_kind node item plan q"
    show "total (calls_weight a) ids s + calls_weight a ev \<le> m"
    proof (cases "a \<in> fst ` set (pl_agents plan) \<and> 0 < pl_step plan")
      case True
      obtain lg where lg: "autonomy_check (Some c) (ledger_usage lg a (pl_now plan)) (pl_step plan) = Proceed"
          "min (total (calls_weight a) ids s) u64_max \<le> sp_tool_calls (spent_of lg a)" "sp_tool_calls (spent_of lg a) \<le> total (calls_weight a) ids s"
        using admission_within [OF adm(1-3) spec [OF adm(4)] adm(5) _ assms(2,3)] True by blast
      have "sp_tool_calls (spent_of lg a) + pl_step plan \<le> m"
        using proceed_within(2) [OF lg(1)] m True lg(3) adm(3,6) by (simp add: ledger_usage_def plan_ok_def Let_def)
      moreover have "calls_weight a ev \<le> pl_step plan" using ev by (simp add: calls_weight_def admitted_kind_def)
      moreover have "total (calls_weight a) ids s \<le> sp_tool_calls (spent_of lg a)"
        using lg(2) m adm(6) by (auto simp: u64_max_def min_def split: if_splits)
      ultimately show ?thesis by simp
    qed (use adm(6) ev in \<open>auto simp: calls_weight_def admitted_kind_def\<close>)
  qed
qed

definition sample_card :: autonomy_constraints where
  "sample_card = \<lparr>ac_max_iterations = Some 1, ac_max_tool_calls = Some 2, ac_token_budget = None, ac_cost_budget_usd = None,
     ac_allowed_tools = [], ac_blocked_tools = [], ac_allowed_delegations = [], ac_require_approval_for = [],
     ac_time_budget_secs = None, ac_max_consecutive_errors = None, ac_on_limit_exceeded = None\<rparr>"

definition sample_step_plan :: step_plan where
  "sample_step_plan = \<lparr>pl_agents = [(''bot'', Some sample_card)], pl_step = 1, pl_earlier = ledger_default, pl_now = 5, pl_escalation = None\<rparr>"

lemma sample_run:
  "agent_run sample_env ''p'' (\<lambda>_. Some sample_card) ledger_default (fst (admit sample_env 5 ''p'' ''n'' None sample_step_plan sample_root))"
proof -
  have "agent_run sample_env ''p'' (\<lambda>_. Some sample_card) ledger_default sample_root"
    by (rule agent_run.start) (simp add: sample_root_def create_execution_def backend_new_def log_of_def)
  then show ?thesis by (rule agent_run.step) (simp add: plan_ok_def sample_step_plan_def)
qed

lemma sample_admitted: "snd (admit sample_env 5 ''p'' ''n'' None sample_step_plan sample_root) = GuardAllow"
  by (simp add: admit_def admit_append_def append_event_if_def push_event_def sample_step_plan_def sample_root_def sample_card_def
        create_execution_def segment_execution_def backend_new_def event_new_def log_of_def still_allowed_def apply_segment_def first_stop_def
        ledger_default_def ledger_usage_def spent_of_def spent_default_def autonomy_check_def default_max_consecutive_errors_def wrap_u64_def
        Let_def)

lemma bot_chain: "segment_chain ''p'' sample_root = Inr [''p'']"
proof -
  have n: "segment_chain_max_depth = Suc 9999" by (simp add: segment_chain_max_depth_def)
  show ?thesis unfolding segment_chain_def n chain_loop.simps
    by (simp add: and_then_def get_execution_def sample_root_def create_execution_def segment_execution_def)
qed

lemma root_log: "log_of sample_root ''p'' = []"
  by (simp add: sample_root_def create_execution_def backend_new_def log_of_def)

lemma bot_plan:
  "plan_step sample_env 5 ''p'' ''n'' [(''bot'', Some sample_card)] 1 sample_root = (sample_root, Inr sample_step_plan)"
  by (simp add: plan_step_def bot_chain sample_step_plan_def get_events_def root_log
      apply_segment_def first_stop_def ledger_default_def ledger_usage_def spent_of_def spent_default_def autonomy_check_def
      default_max_consecutive_errors_def sample_card_def wrap_u64_def Let_def)

theorem autonomy_limits_hold_witness:
  "snd (admit sample_env 5 ''p'' ''n'' None sample_step_plan sample_root) = GuardAllow \<and>
   total (steps_weight ''bot'') [''p''] (fst (admit sample_env 6 ''p'' ''n'' None sample_step_plan
     (fst (admit sample_env 5 ''p'' ''n'' None sample_step_plan sample_root)))) \<le> 1"
proof
  show "snd (admit sample_env 5 ''p'' ''n'' None sample_step_plan sample_root) = GuardAllow" by (rule sample_admitted)
  have "segmented_run sample_env (\<lambda>_. Some sample_card) [''p''] {} sample_root" by (rule seg_start [OF bot_chain]) (simp add: root_log)
  then have "segmented_run sample_env (\<lambda>_. Some sample_card) [''p''] {(''p'', sample_step_plan)} sample_root"
    using seg_plan [of sample_env "\<lambda>_. Some sample_card" "[''p'']" "{}" sample_root 5 "''n''" "[(''bot'', Some sample_card)]" 1] bot_plan by simp
  then have "segmented_run sample_env (\<lambda>_. Some sample_card) [''p''] {(''p'', sample_step_plan)} (fst (admit sample_env 6 ''p'' ''n'' None sample_step_plan
     (fst (admit sample_env 5 ''p'' ''n'' None sample_step_plan sample_root))))"
    by (intro seg_admit) simp_all
  from autonomy_limits_hold [OF this refl] show "total (steps_weight ''bot'') [''p''] (fst (admit sample_env 6 ''p'' ''n'' None sample_step_plan
     (fst (admit sample_env 5 ''p'' ''n'' None sample_step_plan sample_root)))) \<le> 1"
    by (simp add: on_limit_of_def sample_card_def)
qed

definition step_covered :: "externals \<Rightarrow> event list \<Rightarrow> event \<Rightarrow> bool" where
  "step_covered x evs ev =
     (case ev_kind ev of AgentStepAdmitted node _ _ _ (Some seq) \<Rightarrow> unused_escalation x evs node = Some seq | _ \<Rightarrow> True)"

definition steps_covered :: "externals \<Rightarrow> event list \<Rightarrow> bool" where
  "steps_covered x evs = (\<forall>k < length evs. step_covered x (take k evs) (evs ! k))"

lemma steps_covered_Nil [simp]: "steps_covered x []"
  by (simp add: steps_covered_def)

lemma steps_covered_snoc: "steps_covered x (evs @ [ev]) \<longleftrightarrow> steps_covered x evs \<and> step_covered x evs ev"
  by (auto simp: steps_covered_def less_Suc_eq nth_append)

lemma no_step_covered: "\<not> is_step ev \<Longrightarrow> step_covered x evs ev"
  by (auto simp: is_step_def step_covered_def split: event_kind.splits)

lemma steps_covered_others: "steps_covered x evs \<Longrightarrow> \<forall>ev \<in> set new. \<not> is_step ev \<Longrightarrow> steps_covered x (evs @ new)"
  by (induction new rule: rev_induct) (simp_all add: steps_covered_snoc no_step_covered flip: append_assoc)

lemma agent_run_covered: "agent_run env e cards earlier s \<Longrightarrow> steps_covered (se_x env) (log_of s e)"
proof (induction rule: agent_run.induct)
  case (start s)
  then show ?case using steps_covered_others [of _ "[]"] by simp
next
  case (other s s' new)
  then show ?case using steps_covered_others by simp
next
  case (step s plan now node item)
  from admit_log [of env now e node item plan s] show ?case
  proof (elim disjE exE conjE)
    fix ev q assume ev: "still_allowed (se_x env) node plan q (log_of s e)" "ev_kind ev = admitted_kind node item plan q"
      "log_of (fst (admit env now e node item plan s)) e = log_of s e @ [ev]"
    have "step_covered (se_x env) (log_of s e) ev"
      using ev(1,2) by (auto simp: step_covered_def admitted_kind_def still_allowed_def split: option.splits)
    then show ?thesis using step.IH ev(3) by (simp add: steps_covered_snoc)
  qed (use step.IH in simp)
qed

lemma unused_not_used: "unused_escalation x evs node = Some seq \<Longrightarrow> \<not> list_ex (used_by_step seq) evs"
  by (auto simp: unused_escalation_def split: node_approval_status.splits option.splits if_splits)

lemma covered_once: "steps_covered x evs \<Longrightarrow> length (filter (used_by_step seq) evs) \<le> 1"
proof (induction evs rule: rev_induct)
  case (snoc ev evs)
  show ?case
  proof (cases "used_by_step seq ev")
    case True
    then obtain node item as n where "ev_kind ev = AgentStepAdmitted node item as n (Some seq)"
      by (auto simp: used_by_step_def split: event_kind.splits option.splits)
    then have "unused_escalation x evs node = Some seq" using snoc.prems by (simp add: steps_covered_snoc step_covered_def)
    then have "filter (used_by_step seq) evs = []" using unused_not_used [of x evs node seq] by (simp add: filter_empty_conv list_ex_iff)
    then show ?thesis by simp
  next
    case False
    then show ?thesis using snoc by (simp add: steps_covered_snoc)
  qed
qed simp

text \<open>An approval that releases a step past a limit was given to a request of the node that showed the limit, was
  not used by an earlier step when the step was recorded, and releases that one step.\<close>

theorem escalation_releases_one_step:
  assumes "agent_run env e cards earlier s"
  shows "(\<forall>k node item as n seq. k < length (log_of s e) \<and> ev_kind (log_of s e ! k) = AgentStepAdmitted node item as n (Some seq) \<longrightarrow>
      unused_escalation (se_x env) (take k (log_of s e)) node = Some seq) \<and>
    (\<forall>seq. length (filter (used_by_step seq) (log_of s e)) \<le> 1)"
  using agent_run_covered [OF assms] covered_once by (fastforce simp: steps_covered_def step_covered_def)

theorem escalation_releases_one_step_witness:
  "length (filter (used_by_step 7) (log_of (fst (admit sample_env 5 ''p'' ''n'' None sample_step_plan sample_root)) ''p'')) \<le> 1"
  using escalation_releases_one_step [OF sample_run] by blast

end
