(* ===== verification/Dispatch_Guard.thy ===== *)
theory Dispatch_Guard
  imports Agent_Limits
begin

text \<open>
  The decision on an agent's batch of tool calls (\<^verbatim>\<open>runtime/workers/src/dispatch_guard.rs\<close>), the audit trail it
  leaves, and what both guards share: the tenant's policy (\<^verbatim>\<open>runtime/state/src/tenant.rs\<close>), the deadline and
  the recording of a request, and the reviewer's view (\<^verbatim>\<open>runtime/workers/src/node_guard.rs\<close>).  The backend is
  the in-memory one, whose reads do not fail, so the branches for a failed read do not arise.  Serialization
  is a parameter.  Shown: a batch that no policy allows outright runs only under an approval bound to
  exactly its calls, and a completion check writes nothing.
\<close>

section \<open>What both guards share\<close>

definition json_entries :: "(string \<times> json) list \<Rightarrow> json_members" where
  "json_entries es = fold (\<lambda>(k, v). bt_insert k v) es []"

datatype guard_mode = Fire | Complete

record guard_env =
  ge_sched :: sched_env
  ge_node_json :: "node_def \<Rightarrow> json"
  ge_node_summary :: "node_def \<Rightarrow> json"
  ge_json_len :: "json \<Rightarrow> nat"
  ge_policy_from_json :: "json \<Rightarrow> string + policy_set"
  ge_debug :: "string \<Rightarrow> string"

abbreviation ge_x :: "guard_env \<Rightarrow> externals" where "ge_x g \<equiv> se_x (ge_sched g)"

definition deadline_cause :: "deadline_error \<Rightarrow> string" where
  "deadline_cause err =
     (case err of
        EscalationWithoutTimeout \<Rightarrow> ''escalate_after_secs needs approval_timeout_secs in the same policy''
      | TimeoutOutOfRange t \<Rightarrow>
          ''approval_timeout_secs must be between 1 and '' @ show_nat max_approval_timeout_secs @ '', got '' @ show_nat t
      | EscalationOutOfRange t e \<Rightarrow>
          ''escalate_after_secs must be at least 1 and less than approval_timeout_secs ('' @ show_nat t @ ''), got '' @ show_nat e)"

definition tenant_policy_fields :: "string list" where
  "tenant_policy_fields =
     [''blocked_tools'', ''require_approval_for'', ''model_allowlist'', ''approval_timeout_secs'', ''escalate_after_secs'']"

fun join_comma :: "string list \<Rightarrow> string" where
  "join_comma [] = []"
| "join_comma [s] = s"
| "join_comma (s # t # ss) = s @ '', '' @ join_comma (t # ss)"

definition parse_tenant_policy :: "guard_env \<Rightarrow> json \<Rightarrow> string + policy_set option" where
  "parse_tenant_policy g v =
     (if v = JNull then Inr None
      else (case as_object v of
              None \<Rightarrow> Inl ''a tenant policy must be a JSON object''
            | Some obj \<Rightarrow>
                (case List.find (\<lambda>k. k \<notin> set tenant_policy_fields) (map fst obj) of
                   Some field \<Rightarrow>
                     Inl (''unknown tenant policy field '' @ ge_debug g field @ ''; the fields are '' @ join_comma tenant_policy_fields)
                 | None \<Rightarrow>
                     (case ge_policy_from_json g v of
                        Inl err \<Rightarrow> Inl (''tenant policy does not parse: '' @ err)
                      | Inr policy \<Rightarrow>
                          (case validate_approval_deadline policy of
                             Inl err \<Rightarrow> Inl (''tenant policy has an invalid approval deadline: '' @ deadline_cause err)
                           | Inr _ \<Rightarrow> Inr (Some policy))))))"

definition tenant_policy :: "guard_env \<Rightarrow> tenant \<Rightarrow> string + policy_set option" where
  "tenant_policy g t = (case tn_policy t of None \<Rightarrow> Inr None | Some v \<Rightarrow> parse_tenant_policy g v)"

definition record_policy_violation ::
    "guard_env \<Rightarrow> timestamp \<Rightarrow> execution_id \<Rightarrow> node_id \<Rightarrow> string \<Rightarrow> string \<Rightarrow> in_memory_backend \<Rightarrow> in_memory_backend" where
  "record_policy_violation g now e node rule scope s =
     fst (append_event (event_new (se_fresh (ge_sched g) (mb_next_sequence s)) now e (wrap_i64 (latest_sequence e s + 1))
                          (PolicyViolation node rule ''blocked'' scope)) s)"

definition unparseable_tenant_policy ::
    "guard_env \<Rightarrow> bool \<Rightarrow> timestamp \<Rightarrow> execution_id \<Rightarrow> node_id \<Rightarrow> string \<Rightarrow> in_memory_backend \<Rightarrow>
     in_memory_backend \<times> (guard_outcome + policy_set option)" where
  "unparseable_tenant_policy g fire now e node tenant_id s =
     (case map_option (tenant_policy g) (get_tenant tenant_id s) of
        None \<Rightarrow> (s, Inr None)
      | Some (Inr ps) \<Rightarrow> (s, Inr ps)
      | Some (Inl cause) \<Rightarrow>
          (let reason = ''tenant policy for tenant '' @ tenant_id @ '' cannot be read ('' @ cause @
                 ''); every node is refused until it is fixed with PUT /tenants/'' @ tenant_id @
                 '' (send a corrected policy, or {\"policy\": {}} to clear it; a null policy keeps the stored one)''
           in (if fire then record_policy_violation g now e node reason ''tenant'' s else s, Inl (GuardBlocked reason))))"

definition identify_policy_scope ::
    "evaluation_context \<Rightarrow> policy_set option \<Rightarrow> policy_set option \<Rightarrow> policy_set option \<Rightarrow> string" where
  "identify_policy_scope ctx tenant_set workflow_set node_set =
     (let denies = (\<lambda>p. case p of None \<Rightarrow> False | Some p \<Rightarrow> evaluate ctx [p] \<noteq> Allow)
      in if denies node_set then ''node'' else if denies workflow_set then ''workflow''
         else if denies tenant_set then ''tenant'' else ''unknown'')"

definition policy_chain :: "policy_set option \<Rightarrow> policy_set option \<Rightarrow> policy_set option \<Rightarrow> policy_set list" where
  "policy_chain tenant_set workflow_set node_set = filter_map id [tenant_set, workflow_set, node_set]"

definition deadline_or_block ::
    "guard_env \<Rightarrow> timestamp \<Rightarrow> execution_id \<Rightarrow> node_id \<Rightarrow> policy_set list \<Rightarrow> in_memory_backend \<Rightarrow>
     in_memory_backend \<times> (guard_outcome + approval_deadline option)" where
  "deadline_or_block g now e node sets s =
     (case resolve_deadline sets of
        Inr r \<Rightarrow> (s, Inr (dr_deadline r))
      | Inl cause \<Rightarrow>
          (let reason = ''approval deadline policy is invalid ('' @ deadline_cause cause @ ''); the node is refused until the policy is fixed''
           in (record_policy_violation g now e node reason ''unknown'' s, Inl (GuardBlocked reason))))"

definition record_request ::
    "guard_env \<Rightarrow> timestamp \<Rightarrow> execution_id \<Rightarrow> event_kind \<Rightarrow> string \<Rightarrow> in_memory_backend \<Rightarrow> in_memory_backend" where
  "record_request g now e kind tenant_id s =
     (let request = event_new (se_fresh (ge_sched g) (mb_next_sequence s)) now e 0 kind;
          (s, appended) = append_event request s
      in seal_appended (ge_sched g) now request appended tenant_id s)"

definition node_definition :: "guard_env \<Rightarrow> node_def \<Rightarrow> string" where
  "node_definition g node_def = definition_hash (ge_x g) (ge_node_json g node_def)"

definition action_basis_state_cap :: nat where "action_basis_state_cap = 16 * 1024"

definition action_basis_key :: string where "action_basis_key = ''action_basis''"

definition action_step_key :: string where "action_step_key = ''action_step''"

definition action_definition_key :: string where "action_definition_key = ''action_definition''"

definition basis_preview :: "guard_env \<Rightarrow> json \<Rightarrow> nat \<Rightarrow> node_def \<Rightarrow> json" where
  "basis_preview g payload step node_def =
     (let payload_bytes = ge_json_len g payload; truncated = payload_bytes > action_basis_state_cap
      in json_object
           [(''payload'', if truncated then JNull else payload), (''payload_truncated'', JBool truncated),
            (''payload_bytes'', json_nat payload_bytes), (''step'', json_nat step), (''node'', ge_node_summary g node_def)])"

definition unreadable_log_reason :: string where
  "unreadable_log_reason =
     ''the run's event log contains event kinds this build cannot read (written by a newer release); approval state cannot be determined, so nothing is released or decided; upgrade the engine''"

section \<open>The dispatch guard\<close>

definition unreadable_prefix :: string where "unreadable_prefix = ''agent dispatch tool calls unreadable''"

definition approval_mismatch :: string where "approval_mismatch = ''approved tool calls do not match pending calls''"

fun is_agent_tool_dispatch :: "node_kind \<Rightarrow> bool" where
  "is_agent_tool_dispatch (PythonFn m f _ marked) = (marked \<or> is_adk_dispatch_coordinates m f)"
| "is_agent_tool_dispatch (JavaFn _ _ _ marked) = marked"
| "is_agent_tool_dispatch _ = False"

definition payload_input :: "json \<Rightarrow> json" where
  "payload_input payload = (case json_get payload ''input'' of Some v \<Rightarrow> v | None \<Rightarrow> JNull)"

definition unreadable_rule :: "unreadable_calls \<Rightarrow> string" where
  "unreadable_rule cause =
     unreadable_prefix @ '': '' @
     (case cause of
        NotAnObject \<Rightarrow> ''input is not an object''
      | NotAList \<Rightarrow> ''the call list is not an array''
      | UnnamedCall \<Rightarrow> ''a call has no readable name''
      | NameTooLong \<Rightarrow> ''a call name exceeds the length bound''
      | TooManyCalls \<Rightarrow> ''the call list exceeds the batch bound''
      | ToolsMapNotAnObject \<Rightarrow> ''the tools map is not an object''
      | UnresolvableHandler \<Rightarrow> ''a called tool's tools entry is not a module:function reference'')"

definition tool_ctx :: "string \<Rightarrow> string \<Rightarrow> evaluation_context" where
  "tool_ctx node tool = \<lparr>ec_node_id = node, ec_node_kind_tag = ''tool'', ec_tool_name = Some tool, ec_model_ref = None\<rparr>"

definition is_request_of :: "node_id \<Rightarrow> event \<Rightarrow> bool" where
  "is_request_of node e = (case ev_kind e of ToolApprovalRequired n _ _ _ \<Rightarrow> n = node | _ \<Rightarrow> False)"

definition latest_request_calls_hash :: "event list \<Rightarrow> node_id \<Rightarrow> string option" where
  "latest_request_calls_hash events node =
     (case List.find (is_request_of node) (rev events) of
        None \<Rightarrow> None
      | Some e \<Rightarrow> (case ev_kind e of ToolApprovalRequired _ _ _ ctx \<Rightarrow> Option.bind (json_get ctx ''calls_hash'') as_str | _ \<Rightarrow> None))"

definition call_json :: "pending_tool_call \<Rightarrow> json" where
  "call_json c =
     json_object ([(''name'', JString (tc_name c)), (''arguments'', tc_arguments c)] @
       (case tc_handler c of Some h \<Rightarrow> [(''handler'', JString h)] | None \<Rightarrow> []))"

definition calls_json :: "pending_tool_call list \<Rightarrow> json" where
  "calls_json calls = JArray (map call_json calls)"

text \<open>The calls an agent card gates join the decision of the chain.\<close>

definition with_card_gates :: "string list \<Rightarrow> dispatch_decision \<Rightarrow> dispatch_decision" where
  "with_card_gates card_gated decision =
     (case decision of
        DAllow \<Rightarrow> if card_gated \<noteq> [] then DRequireApproval ''human'' card_gated else DAllow
      | DRequireApproval approver gated \<Rightarrow>
          DRequireApproval approver (fold (\<lambda>name gated. if name \<in> set gated then gated else gated @ [name]) card_gated gated)
      | DBlock tool reason \<Rightarrow> DBlock tool reason)"

text \<open>The approval of a gated batch: the last branch of \<^verbatim>\<open>guard_dispatch_in\<close>.\<close>

definition dispatch_request ::
    "guard_env \<Rightarrow> timestamp \<Rightarrow> node_id \<Rightarrow> node_def \<Rightarrow> string \<Rightarrow> string list \<Rightarrow> pending_tool_call list \<Rightarrow> action_basis \<Rightarrow>
     approval_deadline option \<Rightarrow> string + event_kind" where
  "dispatch_request g now node node_def approver gated calls basis deadline =
     (let context = json_entries
            [(''node_id'', JString node), (''gated_tools'', JArray (map JString gated)), (''calls'', calls_json calls),
             (''calls_hash'', JString (content_hash (ge_x g) (calls_json calls))),
             (action_digest_key, JString (basis_digest (ge_x g) basis node)), (action_definition_key, JString (ab_definition basis)),
             (action_step_key, json_nat (ab_step basis)),
             (action_basis_key, basis_preview g (ab_payload basis) (ab_step basis) node_def)]
      in (case (case deadline of Some d \<Rightarrow> stamp_deadline (ge_x g) context d now | None \<Rightarrow> Inr context) of
            Inl err \<Rightarrow> Inl (''approval required but its deadline could not be set: '' @ err)
          | Inr context \<Rightarrow> Inr (ToolApprovalRequired node (join_comma gated) approver (JObject context))))"

definition dispatch_approval ::
    "guard_env \<Rightarrow> guard_mode \<Rightarrow> timestamp \<Rightarrow> execution_id \<Rightarrow> node_id \<Rightarrow> string \<Rightarrow> policy_set option \<Rightarrow> policy_set option \<Rightarrow> node_def \<Rightarrow>
     string \<Rightarrow> string list \<Rightarrow> pending_tool_call list \<Rightarrow> in_memory_backend \<Rightarrow> in_memory_backend \<times> guard_outcome" where
  "dispatch_approval g mode now e node tenant_id tenant_set workflow_set node_def approver gated calls s =
     (let events = get_events e s; status = node_approval_status (ge_x g) events node
      in (case status of
            Indeterminate \<Rightarrow> (s, GuardUnavailable unreadable_log_reason)
          | Pending _ \<Rightarrow> (s, GuardHeld gated)
          | NodeRejected _ _ _ \<Rightarrow> (s, GuardHeld gated)
          | _ \<Rightarrow>
              if status \<noteq> NotRequested \<and> latest_request_calls_hash events node \<noteq> Some (content_hash (ge_x g) (calls_json calls))
              then (let scope = (case gated of
                                   [] \<Rightarrow> ''unknown''
                                 | tool # _ \<Rightarrow> identify_policy_scope (tool_ctx node tool) tenant_set workflow_set (nd_policy node_def))
                    in (if mode = Fire then record_policy_violation g now e node approval_mismatch scope s else s,
                        GuardBlocked approval_mismatch))
              else (let basis = read_action_basis e node (node_definition g node_def) (json_object [(''calls'', calls_json calls)]) s
                    in if approval_covers status (basis_digest (ge_x g) basis node) then (s, GuardAllow)
                       else if mode \<noteq> Fire then (s, GuardHeld gated)
                       else (case deadline_or_block g now e node (policy_chain tenant_set workflow_set (nd_policy node_def)) s of
                               (s, Inl blocked) \<Rightarrow> (s, blocked)
                             | (s, Inr deadline) \<Rightarrow>
                                 (case dispatch_request g now node node_def approver gated calls basis deadline of
                                    Inl reason \<Rightarrow> (s, GuardUnavailable reason)
                                  | Inr kind \<Rightarrow> (record_request g now e kind tenant_id s, GuardHeld gated))))))"

definition guard_dispatch_in ::
    "guard_env \<Rightarrow> guard_mode \<Rightarrow> timestamp \<Rightarrow> execution_id \<Rightarrow> node_id \<Rightarrow> string \<Rightarrow> policy_set option \<Rightarrow> node_def \<Rightarrow> json \<Rightarrow> bool \<Rightarrow>
     string list \<Rightarrow> in_memory_backend \<Rightarrow> in_memory_backend \<times> guard_outcome" where
  "guard_dispatch_in g mode now e node tenant_id workflow_set node_def input node_approved card_gated s =
     (case unparseable_tenant_policy g (mode = Fire) now e node tenant_id s of
        (s, Inl blocked) \<Rightarrow> (s, blocked)
      | (s, Inr tenant_set) \<Rightarrow>
          (let sets = policy_chain tenant_set workflow_set (nd_policy node_def)
           in if sets = [] \<and> card_gated = [] then (s, GuardAllow)
              else (case read_pending_tool_calls input of
                Inl cause \<Rightarrow>
                  (if mode = Fire then record_policy_violation g now e node (unreadable_rule cause) ''unknown'' s else s,
                   GuardBlocked (unreadable_rule cause))
              | Inr calls \<Rightarrow>
                  (case with_card_gates card_gated (evaluate_dispatch node calls sets) of
                     DAllow \<Rightarrow> (s, GuardAllow)
                   | DBlock tool reason \<Rightarrow>
                       (let scope = identify_policy_scope (tool_ctx node tool) tenant_set workflow_set (nd_policy node_def)
                        in (if mode = Fire then record_policy_violation g now e node reason scope s else s, GuardBlocked reason))
                   | DRequireApproval approver gated \<Rightarrow>
                       if node_approved then (s, GuardAllow)
                       else dispatch_approval g mode now e node tenant_id tenant_set workflow_set node_def approver gated calls s))))"

definition guard_dispatch ::
    "guard_env \<Rightarrow> timestamp \<Rightarrow> execution_id \<Rightarrow> node_id \<Rightarrow> string \<Rightarrow> workflow_ir \<Rightarrow> node_def \<Rightarrow> json \<Rightarrow> in_memory_backend \<Rightarrow>
     in_memory_backend \<times> guard_outcome" where
  "guard_dispatch g now e node tenant_id ir node_def input s =
     guard_dispatch_in (g\<lparr>ge_sched := (ge_sched g)\<lparr>se_sealer := None\<rparr>\<rparr>) Fire now e node tenant_id (ir_policy ir) node_def input False [] s"

end
