(* ===== verification/Node_Guard.thy ===== *)
theory Node_Guard
  imports Dispatch_Guard
begin

text \<open>
  The one decision whether a work item may fire, or its result be recorded
  (\<^verbatim>\<open>runtime/workers/src/node_guard.rs\<close>): the agent cards the node acts for, the autonomy limits, the policy
  chain, the approvals that answer a gate, and the calls of an agent tool dispatch.  One call of the guard
  is one step of the model; its last action, the admission of an agent step, is the conditional append of
  \<open>Agent_Limits\<close>.  Shown: what fires is blocked by no rule and covered by an approval wherever one is
  required; a check of a completion writes nothing; and a node that is held has its request on file.
\<close>

section \<open>Agent cards\<close>

text \<open>The registry answers with an error, or with the constraints of the agent's card if it is registered.\<close>

record agent_scope =
  sc_workflow_agent :: "string option"
  sc_remote_agents :: "(string \<rightharpoonup> string) option"
  sc_registry :: "(string \<Rightarrow> string + autonomy_constraints option option) option"

definition agent_scope_name :: string where "agent_scope_name = ''agent''"

definition allowed_tools_rule :: string where "allowed_tools_rule = ''agent allowed_tools''"

definition blocked_tools_rule :: string where "blocked_tools_rule = ''agent blocked_tools''"

definition allowed_delegations_rule :: string where "allowed_delegations_rule = ''agent allowed_delegations''"

datatype delegation = DelegateTo string | RunTime | Unresolved string

fun delegation_target :: "node_kind \<Rightarrow> (string \<rightharpoonup> string) option \<Rightarrow> delegation option" where
  "delegation_target (AgentNode agent_ref _ _) remote_agents = Some (DelegateTo agent_ref)"
| "delegation_target (AgentTool (ExplicitAgent uri) _ _ _ _ _) remote_agents = Some (DelegateTo uri)"
| "delegation_target (A2aTask remote_agent _ _ _ _ _ _) remote_agents =
     Some (case Option.bind remote_agents (\<lambda>m. m remote_agent) of Some url \<Rightarrow> DelegateTo url | None \<Rightarrow> Unresolved remote_agent)"
| "delegation_target (AgentTool AutoAgent _ _ _ _ _) remote_agents = Some RunTime"
| "delegation_target (Coordinator _ _ _ _ _ _ _ _ _ _) remote_agents = Some RunTime"
| "delegation_target (AgentDiscovery _ _ _) remote_agents = Some RunTime"
| "delegation_target _ remote_agents = None"

record card_gate =
  cg_node :: "string option"
  cg_calls :: "string list"
  cg_agents :: agents

definition card_gate_default :: card_gate where
  "card_gate_default = \<lparr>cg_node = None, cg_calls = [], cg_agents = []\<rparr>"

abbreviation quote_of :: "string \<Rightarrow> string" where "quote_of t \<equiv> [CHR 0x27] @ t @ [CHR 0x27]"

definition calls_only :: "node_kind \<Rightarrow> bool" where
  "calls_only kind =
     (case kind of PythonFn m f _ _ \<Rightarrow> is_agent_tool_dispatch kind \<and> is_adk_dispatch_coordinates m f | _ \<Rightarrow> False)"

definition refs_of :: "agent_scope \<Rightarrow> node_def \<Rightarrow> string list" where
  "refs_of scope node_def =
     fold (\<lambda>r refs. if r \<in> set refs then refs else refs @ [r]) (filter_map id [sc_workflow_agent scope, nd_agent_ref node_def]) []"

definition check_delegation :: "agent_scope \<Rightarrow> node_def \<Rightarrow> string \<Rightarrow> autonomy_constraints \<Rightarrow> string + unit" where
  "check_delegation scope node_def agent_ref c =
     (if ac_allowed_delegations c = [] then Inr ()
      else (case delegation_target (nd_kind node_def) (sc_remote_agents scope) of
              Some (DelegateTo target) \<Rightarrow>
                if \<not> list_ex (\<lambda>p. glob_match p target) (ac_allowed_delegations c)
                then Inl (allowed_delegations_rule @ '': agent '' @ quote_of agent_ref @ '' may not delegate to '' @ quote_of target)
                else Inr ()
            | Some (Unresolved name) \<Rightarrow>
                Inl (allowed_delegations_rule @ '': agent '' @ quote_of agent_ref @ '' has a delegation list, and remote agent '' @
                     quote_of name @ '' is not in the workflow's remote_agents, so the URL it calls is unknown'')
            | Some RunTime \<Rightarrow>
                Inl (allowed_delegations_rule @ '': agent '' @ quote_of agent_ref @ '' has a delegation list, and a '' @
                     node_kind_tag (nd_kind node_def) @ '' node picks its target at run time'')
            | None \<Rightarrow> Inr ()))"

definition not_allowed :: "string \<Rightarrow> string \<Rightarrow> string" where
  "not_allowed tool agent_ref = allowed_tools_rule @ '': tool '' @ quote_of tool @ '' is not allowed for agent '' @ quote_of agent_ref"

definition is_blocked :: "string \<Rightarrow> string \<Rightarrow> string" where
  "is_blocked tool agent_ref = blocked_tools_rule @ '': tool '' @ quote_of tool @ '' is blocked for agent '' @ quote_of agent_ref"

definition check_own_name :: "evaluation_context \<Rightarrow> string \<Rightarrow> autonomy_constraints \<Rightarrow> card_gate \<Rightarrow> string + card_gate" where
  "check_own_name ctx agent_ref c gate =
     (case node_allowed ctx (ac_allowed_tools c) of
        Inl tool \<Rightarrow> Inl (not_allowed tool agent_ref)
      | Inr _ \<Rightarrow>
          (case node_named_by ctx (ac_blocked_tools c) of
             Some tool \<Rightarrow> Inl (is_blocked tool agent_ref)
           | None \<Rightarrow>
               Inr (if cg_node gate = None then gate\<lparr>cg_node := node_named_by ctx (ac_require_approval_for c)\<rparr> else gate)))"

fun check_calls :: "string \<Rightarrow> autonomy_constraints \<Rightarrow> pending_tool_call list \<Rightarrow> card_gate \<Rightarrow> string + card_gate" where
  "check_calls agent_ref c [] gate = Inr gate"
| "check_calls agent_ref c (call # calls) gate =
     (case call_allowed call (ac_allowed_tools c) of
        Inl (RefusedName tool) \<Rightarrow> Inl (not_allowed tool agent_ref)
      | Inl (RefusedHandler name handler) \<Rightarrow>
          Inl (allowed_tools_rule @ '': tool '' @ quote_of name @ '' resolves to '' @ quote_of handler @
               '', which is not allowed for agent '' @ quote_of agent_ref)
      | Inr _ \<Rightarrow>
          (case call_named_by call (ac_blocked_tools c) of
             Some tool \<Rightarrow> Inl (is_blocked tool agent_ref)
           | None \<Rightarrow>
               check_calls agent_ref c calls
                 (if call_named_by call (ac_require_approval_for c) \<noteq> None \<and> tc_name call \<notin> set (cg_calls gate)
                  then gate\<lparr>cg_calls := cg_calls gate @ [tc_name call]\<rparr> else gate)))"

text \<open>The lists of one card, in the order the loop checks them.\<close>

definition check_card :: "agent_scope \<Rightarrow> node_id \<Rightarrow> node_def \<Rightarrow> json \<Rightarrow> string \<Rightarrow> autonomy_constraints \<Rightarrow> card_gate \<Rightarrow> string + card_gate" where
  "check_card scope node node_def payload agent_ref c gate =
     and_then (check_delegation scope node_def agent_ref c) (\<lambda>_.
       if ac_allowed_tools c = [] \<and> ac_blocked_tools c = [] \<and> ac_require_approval_for c = [] then Inr gate
       else and_then (if \<not> calls_only (nd_kind node_def)
                      then check_own_name (from_node_kind node (nd_kind node_def)) agent_ref c gate else Inr gate) (\<lambda>gate.
         if is_agent_tool_dispatch (nd_kind node_def)
         then (case read_pending_tool_calls (payload_input payload) of
                 Inl cause \<Rightarrow> Inl (unreadable_rule cause)
               | Inr calls \<Rightarrow> check_calls agent_ref c calls gate)
         else Inr gate))"

datatype card_refusal = CardRefuse string | CardUnavailable string

fun card_loop ::
    "agent_scope \<Rightarrow> (string \<Rightarrow> string + autonomy_constraints option option) \<Rightarrow> node_id \<Rightarrow> node_def \<Rightarrow> json \<Rightarrow> string list \<Rightarrow> card_gate \<Rightarrow>
     card_refusal + card_gate" where
  "card_loop scope registry node node_def payload [] gate = Inr gate"
| "card_loop scope registry node node_def payload (agent_ref # refs) gate =
     (case registry agent_ref of
        Inr (Some constraints) \<Rightarrow>
          (let gate = gate\<lparr>cg_agents := cg_agents gate @ [(agent_ref, constraints)]\<rparr>
           in (case constraints of
                 None \<Rightarrow> card_loop scope registry node node_def payload refs gate
               | Some c \<Rightarrow>
                   (case check_card scope node node_def payload agent_ref c gate of
                      Inl rule \<Rightarrow> Inl (CardRefuse rule)
                    | Inr gate \<Rightarrow> card_loop scope registry node node_def payload refs gate)))
      | Inr None \<Rightarrow>
          Inl (CardRefuse (allowed_tools_rule @ '': agent '' @ quote_of agent_ref @ '' is not registered, so its card cannot be checked''))
      | Inl err \<Rightarrow>
          Inl (CardUnavailable (''agent registry unavailable; refusing to run without checking the card of agent '' @
                 quote_of agent_ref @ '': '' @ err)))"

definition agent_card ::
    "guard_env \<Rightarrow> guard_mode \<Rightarrow> timestamp \<Rightarrow> execution_id \<Rightarrow> node_id \<Rightarrow> node_def \<Rightarrow> json \<Rightarrow> agent_scope \<Rightarrow> in_memory_backend \<Rightarrow>
     in_memory_backend \<times> (guard_outcome + card_gate)" where
  "agent_card g mode now e node node_def payload scope s =
     (case refs_of scope node_def of
        [] \<Rightarrow> (s, Inr card_gate_default)
      | first # _ \<Rightarrow>
          (let checked =
             (case sc_registry scope of
                None \<Rightarrow>
                  Inl (CardRefuse (allowed_tools_rule @ '': node acts for agent '' @ quote_of first @
                         '', but this runtime has no agent registry to read its card''))
              | Some registry \<Rightarrow> card_loop scope registry node node_def payload (refs_of scope node_def) card_gate_default)
           in (case checked of
                 Inr gate \<Rightarrow> (s, Inr gate)
               | Inl (CardRefuse rule) \<Rightarrow>
                   (if mode = Fire then record_policy_violation g now e node rule agent_scope_name s else s, Inl (GuardBlocked rule))
               | Inl (CardUnavailable reason) \<Rightarrow> (s, Inl (GuardUnavailable reason)))))"

definition callee :: "agent_scope \<Rightarrow> node_kind \<Rightarrow> guard_outcome + (string \<times> autonomy_constraints option) option" where
  "callee scope kind =
     (case (kind, sc_registry scope) of
        (AgentNode agent_ref _ _, Some registry) \<Rightarrow>
          (case registry agent_ref of
             Inr (Some constraints) \<Rightarrow> Inr (Some (agent_ref, constraints))
           | Inr None \<Rightarrow> Inr None
           | Inl err \<Rightarrow>
               Inl (GuardUnavailable (''agent registry unavailable; refusing to run without checking the autonomy limits of agent '' @
                      quote_of agent_ref @ '': '' @ err)))
      | _ \<Rightarrow> Inr None)"

definition step_tool_calls :: "node_def \<Rightarrow> json \<Rightarrow> string + nat" where
  "step_tool_calls node_def payload =
     (let ctx = from_node_kind (nd_id node_def) (nd_kind node_def);
          own_call = \<not> calls_only (nd_kind node_def) \<and>
            (ec_tool_name ctx \<noteq> None \<or> ec_node_kind_tag ctx \<in> set run_time_target_tags)
      in and_then (if is_agent_tool_dispatch (nd_kind node_def)
                   then (case read_pending_tool_calls (payload_input payload) of
                           Inl cause \<Rightarrow> Inl (unreadable_rule cause) | Inr calls \<Rightarrow> Inr (length calls))
                   else Inr 0) (\<lambda>batch.
           Inr (saturating_add_u32 (min batch (2 ^ 32 - 1)) (if own_call then 1 else 0))))"

section \<open>Approvals\<close>

definition require_approval ::
    "guard_env \<Rightarrow> timestamp \<Rightarrow> execution_id \<Rightarrow> node_id \<Rightarrow> node_def \<Rightarrow> json \<Rightarrow> string \<Rightarrow> string \<Rightarrow> json \<Rightarrow> approval_deadline option \<Rightarrow> string \<Rightarrow>
     bool \<Rightarrow> in_memory_backend \<Rightarrow> in_memory_backend \<times> guard_outcome" where
  "require_approval g now e node node_def payload tool_name approver context deadline tenant_id escalated s =
     (let gated = [tool_name]; events = get_events e s; status = node_approval_status (ge_x g) events node
      in (case status of
            Indeterminate \<Rightarrow> (s, GuardUnavailable unreadable_log_reason)
          | Pending _ \<Rightarrow> (s, GuardHeld gated)
          | NodeRejected _ _ _ \<Rightarrow> (s, GuardHeld gated)
          | _ \<Rightarrow>
              (let basis = read_action_basis e node (node_definition g node_def) payload s;
                   current = basis_digest (ge_x g) basis node
               in if approval_covers status current \<and> (\<not> escalated \<or> unused_escalation (ge_x g) events node \<noteq> None)
                  then (s, GuardAllow)
                  else (let obj = (case context of JObject m \<Rightarrow> m | _ \<Rightarrow> json_entries [(''context'', context)]);
                            obj = bt_insert action_digest_key (JString current) obj;
                            obj = bt_insert action_definition_key (JString (ab_definition basis)) obj;
                            obj = bt_insert action_step_key (json_nat (ab_step basis)) obj;
                            obj = bt_insert action_basis_key (basis_preview g (ab_payload basis) (ab_step basis) node_def) obj
                        in (case (case deadline of Some d \<Rightarrow> stamp_deadline (ge_x g) obj d now | None \<Rightarrow> Inr obj) of
                              Inl err \<Rightarrow> (s, GuardUnavailable (''approval required but its deadline could not be set: '' @ err))
                            | Inr obj \<Rightarrow>
                                (record_request g now e (ToolApprovalRequired node tool_name approver (JObject obj)) tenant_id s,
                                 GuardHeld gated))))))"

definition completion_covered ::
    "guard_env \<Rightarrow> execution_id \<Rightarrow> node_id \<Rightarrow> node_def \<Rightarrow> json \<Rightarrow> string \<Rightarrow> in_memory_backend \<Rightarrow> guard_outcome" where
  "completion_covered g e node node_def payload tool_name s =
     (let gated = [tool_name]; events = get_events e s; status = node_approval_status (ge_x g) events node
      in (case status of
            NodeApproved _ _ _ \<Rightarrow>
              (case answered_request (ge_x g) events node of
                 None \<Rightarrow> GuardHeld gated
               | Some request \<Rightarrow>
                   (case Option.bind (json_get (pa_context request) action_step_key) as_u64 of
                      Some requested_step \<Rightarrow> if requested_step = count_node_completions e node s then GuardAllow else GuardHeld gated
                    | None \<Rightarrow>
                        if approval_covers status (derive_action_digest (ge_x g) e node (node_definition g node_def) payload s)
                        then GuardAllow else GuardHeld gated))
          | _ \<Rightarrow> GuardHeld gated))"

section \<open>The guard\<close>

text \<open>The chain's decision on the node's own names, after the card's gate and an escalation have joined it.\<close>

definition node_decision :: "evaluation_context \<Rightarrow> policy_set list \<Rightarrow> card_gate \<Rightarrow> escalation option \<Rightarrow> policy_decision" where
  "node_decision ctx sets gate escalated =
     (let decision = (if sets = [] then Allow else evaluate ctx sets)
      in if decision = Allow \<and> (cg_node gate \<noteq> None \<or> escalated \<noteq> None) then RequireApproval ''human'' else decision)"

text \<open>The approval of the node itself.\<close>

definition node_approval ::
    "guard_env \<Rightarrow> guard_mode \<Rightarrow> timestamp \<Rightarrow> execution_id \<Rightarrow> node_id \<Rightarrow> string \<Rightarrow> node_def \<Rightarrow> json \<Rightarrow> card_gate \<Rightarrow> escalation option \<Rightarrow>
     policy_set list \<Rightarrow> string \<Rightarrow> in_memory_backend \<Rightarrow> in_memory_backend \<times> guard_outcome" where
  "node_approval g mode now e node tenant_id node_def payload gate escalated sets approver s =
     (let tool_name = (case cg_node gate of
                         Some t \<Rightarrow> t
                       | None \<Rightarrow> (case ec_tool_name (from_node_kind node (nd_kind node_def)) of Some t \<Rightarrow> t | None \<Rightarrow> node))
      in (case mode of
            Fire \<Rightarrow>
              (case deadline_or_block g now e node sets s of
                 (s, Inl blocked) \<Rightarrow> (s, blocked)
               | (s, Inr deadline) \<Rightarrow>
                   require_approval g now e node node_def payload tool_name approver
                     (json_object ((''node_id'', JString node) #
                        (case escalated of Some es \<Rightarrow> [(escalation_key, escalation_context es)] | None \<Rightarrow> [])))
                     deadline tenant_id (escalated \<noteq> None) s)
          | Complete \<Rightarrow> (s, completion_covered g e node node_def payload tool_name s)))"

definition guard_policy ::
    "guard_env \<Rightarrow> guard_mode \<Rightarrow> timestamp \<Rightarrow> execution_id \<Rightarrow> node_id \<Rightarrow> string \<Rightarrow> policy_set option \<Rightarrow> node_def \<Rightarrow> json \<Rightarrow> card_gate \<Rightarrow>
     escalation option \<Rightarrow> in_memory_backend \<Rightarrow> in_memory_backend \<times> guard_outcome" where
  "guard_policy g mode now e node tenant_id workflow_set node_def payload gate escalated s =
     (let is_dispatch = is_agent_tool_dispatch (nd_kind node_def);
          per_call = guard_dispatch_in g mode now e node tenant_id workflow_set node_def (payload_input payload)
      in (case unparseable_tenant_policy g (mode = Fire) now e node tenant_id s of
            (s, Inl blocked) \<Rightarrow> (s, blocked)
          | (s, Inr tenant_set) \<Rightarrow>
              (let sets = policy_chain tenant_set workflow_set (nd_policy node_def);
                   ctx = from_node_kind node (nd_kind node_def)
               in (case node_decision ctx sets gate escalated of
                     Allow \<Rightarrow> if is_dispatch then per_call False (cg_calls gate) s else (s, GuardAllow)
                   | Block reason \<Rightarrow>
                       (if mode = Fire
                        then record_policy_violation g now e node reason
                               (identify_policy_scope ctx tenant_set workflow_set (nd_policy node_def)) s
                        else s, GuardBlocked reason)
                   | RequireApproval approver \<Rightarrow>
                       (case node_approval g mode now e node tenant_id node_def payload gate escalated sets approver s of
                          (s, outcome) \<Rightarrow>
                            if outcome = GuardAllow \<and> is_dispatch then per_call True (cg_calls gate) s else (s, outcome))))))"

definition agents_of_node :: "agents \<Rightarrow> (string \<times> autonomy_constraints option) option \<Rightarrow> agents" where
  "agents_of_node attributed called =
     (case called of
        Some c \<Rightarrow> if list_ex (\<lambda>a. fst a = fst c) attributed then attributed else attributed @ [c]
      | None \<Rightarrow> attributed)"

text \<open>The plan of the step, or in \<^verbatim>\<open>Complete\<close> mode whether the item was admitted.\<close>

definition plan_node ::
    "guard_env \<Rightarrow> guard_mode \<Rightarrow> timestamp \<Rightarrow> execution_id \<Rightarrow> node_id \<Rightarrow> node_def \<Rightarrow> json \<Rightarrow> uuid option \<Rightarrow> agents \<Rightarrow> in_memory_backend \<Rightarrow>
     in_memory_backend \<times> (guard_outcome + step_plan option)" where
  "plan_node g mode now e node node_def payload work_item_id agents s =
     (if agents = [] then (s, Inr None)
      else (case mode of
              Fire \<Rightarrow>
                (case step_tool_calls node_def payload of
                   Inl rule \<Rightarrow> (s, Inl (GuardBlocked rule))
                 | Inr calls \<Rightarrow>
                     (case plan_step (ge_sched g) now e node agents calls s of
                        (s, Inl refused) \<Rightarrow> (s, Inl refused)
                      | (s, Inr plan) \<Rightarrow> (s, Inr (Some plan))))
            | Complete \<Rightarrow>
                (case completion_admitted e work_item_id s of
                   Inl refused \<Rightarrow> (s, Inl refused)
                 | Inr _ \<Rightarrow> (s, Inr None))))"

definition record_escalation ::
    "guard_env \<Rightarrow> timestamp \<Rightarrow> execution_id \<Rightarrow> node_id \<Rightarrow> escalation \<Rightarrow> event_sequence \<Rightarrow> guard_outcome \<Rightarrow> in_memory_backend \<Rightarrow> in_memory_backend" where
  "record_escalation g now e node es before outcome s =
     (if (case outcome of GuardHeld _ \<Rightarrow> True | _ \<Rightarrow> False) \<and> list_ex (is_request_of node) (get_events_since e before s)
      then record_stop (ge_sched g) now e node (es_agent es) (es_decision es) (Some ''human_approval'') s
      else s)"

definition guard_item ::
    "guard_env \<Rightarrow> guard_mode \<Rightarrow> timestamp \<Rightarrow> execution_id \<Rightarrow> node_id \<Rightarrow> string \<Rightarrow> policy_set option \<Rightarrow> node_def \<Rightarrow> json \<Rightarrow> agent_scope \<Rightarrow>
     uuid option \<Rightarrow> in_memory_backend \<Rightarrow> in_memory_backend \<times> guard_outcome" where
  "guard_item g mode now e node tenant_id workflow_set node_def payload scope work_item_id s =
     (case agent_card g mode now e node node_def payload scope s of
        (s, Inl refused) \<Rightarrow> (s, refused)
      | (s, Inr gate) \<Rightarrow>
          (case callee scope (nd_kind node_def) of
             Inl unavailable \<Rightarrow> (s, unavailable)
           | Inr called \<Rightarrow>
               (case plan_node g mode now e node node_def payload work_item_id (agents_of_node (cg_agents gate) called) s of
                  (s, Inl refused) \<Rightarrow> (s, refused)
                | (s, Inr plan) \<Rightarrow>
                    (let escalated = Option.bind plan pl_escalation;
                         before = latest_sequence e s;
                         (s, outcome) = guard_policy g mode now e node tenant_id workflow_set node_def payload gate escalated s;
                         s = (case escalated of Some es \<Rightarrow> record_escalation g now e node es before outcome s | None \<Rightarrow> s)
                     in (case (outcome, plan) of
                           (GuardAllow, Some plan) \<Rightarrow> admit (ge_sched g) now e node work_item_id plan s
                         | _ \<Rightarrow> (s, outcome))))))"

section \<open>A check of a completion writes nothing\<close>

lemma tenant_policy_pure: "fst (unparseable_tenant_policy g False now e node tenant s) = s"
  by (simp add: unparseable_tenant_policy_def Let_def split: option.split sum.split)

lemma dispatch_approval_pure: "fst (dispatch_approval g Complete now e node tenant ts ws nd a gs calls s) = s"
  by (simp add: dispatch_approval_def Let_def split: node_approval_status.split)

lemma guard_dispatch_pure: "fst (guard_dispatch_in g Complete now e node tenant ws nd input ap gs s) = s"
proof -
  obtain r where r: "unparseable_tenant_policy g False now e node tenant s = (s, r)"
    using tenant_policy_pure [of g now e node tenant s] by (cases "unparseable_tenant_policy g False now e node tenant s") simp
  show ?thesis
    by (cases r) (simp_all add: guard_dispatch_in_def r Let_def dispatch_approval_pure split: sum.split dispatch_decision.split)
qed

lemma guard_policy_pure: "fst (guard_policy g Complete now e node tenant ws nd payload gate es s) = s"
proof -
  obtain r where r: "unparseable_tenant_policy g False now e node tenant s = (s, r)"
    using tenant_policy_pure [of g now e node tenant s] by (cases "unparseable_tenant_policy g False now e node tenant s") simp
  show ?thesis
    by (cases r) (simp_all add: guard_policy_def node_approval_def r Let_def guard_dispatch_pure split: policy_decision.split)
qed

lemma agent_card_state: "agent_card g mode now e node nd payload scope s = (s', Inr gate) \<Longrightarrow> s' = s"
  by (auto simp: agent_card_def Let_def split: list.splits option.splits sum.splits card_refusal.splits)

lemma agent_card_pure: "fst (agent_card g Complete now e node nd payload scope s) = s"
  by (simp add: agent_card_def Let_def split: list.split option.split sum.split card_refusal.split)

lemma plan_node_Complete: "plan_node g Complete now e node nd payload item agents s = (s', r) \<Longrightarrow> s' = s \<and> (\<forall>p. r \<noteq> Inr (Some p))"
  by (auto simp: plan_node_def split: if_splits sum.splits)

text \<open>Whether a worker's result may be recorded is decided without writing anything, whatever the answer: no
  request, no violation and no admission.\<close>

theorem completion_check_writes_nothing:
  "fst (guard_item g Complete now e node tenant ws nd payload scope item s) = s"
proof -
  obtain r where r: "agent_card g Complete now e node nd payload scope s = (s, r)"
    using agent_card_pure [of g now e node nd payload scope s] by (cases "agent_card g Complete now e node nd payload scope s") simp
  show ?thesis
  proof (cases r)
    case (Inr gate)
    show ?thesis
    proof (cases "callee scope (nd_kind nd)")
      case (Inr called)
      obtain s1 p where p: "plan_node g Complete now e node nd payload item (agents_of_node (cg_agents gate) called) s = (s1, p)" by fastforce
      then have "s1 = s" "\<forall>q. p \<noteq> Inr (Some q)" using plan_node_Complete by blast+
      then show ?thesis using r p \<open>r = Inr gate\<close> Inr guard_policy_pure [of g now e node tenant ws nd payload gate None s]
        by (cases p) (auto simp: guard_item_def Let_def split: prod.splits option.splits guard_outcome.splits)
    qed (simp add: guard_item_def r \<open>r = Inr gate\<close>)
  qed (simp add: guard_item_def r)
qed

section \<open>What fires\<close>

text \<open>The tenant's layer of the policy chain, when it can be read.\<close>

definition tenant_layer :: "guard_env \<Rightarrow> string \<Rightarrow> in_memory_backend \<Rightarrow> policy_set option option" where
  "tenant_layer g tenant s =
     (case map_option (tenant_policy g) (get_tenant tenant s) of
        None \<Rightarrow> Some None | Some (Inr ps) \<Rightarrow> Some ps | Some (Inl _) \<Rightarrow> None)"

text \<open>An approval on file covers what the item would do now: the node with its payload, or a batch of calls.\<close>

definition node_cleared :: "guard_env \<Rightarrow> execution_id \<Rightarrow> node_id \<Rightarrow> node_def \<Rightarrow> json \<Rightarrow> in_memory_backend \<Rightarrow> bool" where
  "node_cleared g e node nd payload s =
     approval_covers (node_approval_status (ge_x g) (get_events e s) node)
       (derive_action_digest (ge_x g) e node (node_definition g nd) payload s)"

definition calls_cleared :: "guard_env \<Rightarrow> execution_id \<Rightarrow> node_id \<Rightarrow> node_def \<Rightarrow> pending_tool_call list \<Rightarrow> in_memory_backend \<Rightarrow> bool" where
  "calls_cleared g e node nd calls s = node_cleared g e node nd (json_object [(''calls'', calls_json calls)]) s"

lemma tenant_policy_Inr:
  "unparseable_tenant_policy g fire now e node tenant s = (s', Inr ts) \<longleftrightarrow> s' = s \<and> tenant_layer g tenant s = Some ts"
  by (auto simp: unparseable_tenant_policy_def tenant_layer_def Let_def split: option.splits sum.splits)

lemma dispatch_approval_Allow:
  "dispatch_approval g mode now e node tenant ts ws nd a gs calls s = (s', GuardAllow) \<Longrightarrow> s' = s \<and> calls_cleared g e node nd calls s"
  by (auto simp: dispatch_approval_def calls_cleared_def node_cleared_def derive_action_digest_def deadline_or_block_def Let_def
      split: node_approval_status.splits if_splits sum.splits)

lemma guard_dispatch_Allow:
  assumes "guard_dispatch_in g mode now e node tenant ws nd input ap gs s = (s', GuardAllow)"
  shows "s' = s \<and> (\<exists>ts. tenant_layer g tenant s = Some ts \<and>
    (policy_chain ts ws (nd_policy nd) = [] \<and> gs = [] \<or>
     (\<exists>calls. read_pending_tool_calls input = Inr calls \<and>
        (\<forall>t r. evaluate_dispatch node calls (policy_chain ts ws (nd_policy nd)) \<noteq> DBlock t r) \<and>
        (evaluate_dispatch node calls (policy_chain ts ws (nd_policy nd)) \<noteq> DAllow \<or> gs \<noteq> [] \<longrightarrow> ap \<or> calls_cleared g e node nd calls s))))"
proof -
  obtain s1 r where u: "unparseable_tenant_policy g (mode = Fire) now e node tenant s = (s1, r)" by fastforce
  show ?thesis
  proof (cases r)
    case (Inr ts)
    then have "s1 = s" "tenant_layer g tenant s = Some ts" using u tenant_policy_Inr by blast+
    then show ?thesis using assms u Inr
      by (auto simp: guard_dispatch_in_def with_card_gates_def Let_def dest: dispatch_approval_Allow
          split: if_splits sum.splits dispatch_decision.splits)
  next
    case (Inl b)
    then have "b \<noteq> GuardAllow" using u by (auto simp: unparseable_tenant_policy_def Let_def split: option.splits sum.splits)
    then show ?thesis using assms u Inl by (simp add: guard_dispatch_in_def)
  qed
qed

lemma deadline_or_block_Inr: "deadline_or_block g now e node sets s = (s', Inr d) \<Longrightarrow> s' = s"
  by (auto simp: deadline_or_block_def Let_def split: sum.splits)

lemma deadline_or_block_Inl: "deadline_or_block g now e node sets s = (s', Inl b) \<Longrightarrow> b \<noteq> GuardAllow"
  by (auto simp: deadline_or_block_def Let_def split: sum.splits)

lemma require_approval_Allow:
  "require_approval g now e node nd payload tool a ctx d tenant es s = (s', GuardAllow) \<Longrightarrow> s' = s \<and> node_cleared g e node nd payload s"
  by (auto simp: require_approval_def node_cleared_def derive_action_digest_def Let_def
      split: node_approval_status.splits if_splits sum.splits)

lemma guard_policy_Fire_Allow:
  assumes "guard_policy g Fire now e node tenant ws nd payload gate es s = (s', GuardAllow)"
  shows "s' = s \<and> (\<exists>ts. tenant_layer g tenant s = Some ts \<and>
    (\<forall>r. evaluate (from_node_kind node (nd_kind nd)) (policy_chain ts ws (nd_policy nd)) \<noteq> Block r) \<and>
    (evaluate (from_node_kind node (nd_kind nd)) (policy_chain ts ws (nd_policy nd)) \<noteq> Allow \<or> cg_node gate \<noteq> None \<or> es \<noteq> None \<longrightarrow>
       node_cleared g e node nd payload s) \<and>
    (is_agent_tool_dispatch (nd_kind nd) \<longrightarrow>
       (\<exists>ap. (ap \<longrightarrow> node_cleared g e node nd payload s) \<and>
          guard_dispatch_in g Fire now e node tenant ws nd (payload_input payload) ap (cg_calls gate) s = (s, GuardAllow))))"
proof -
  obtain s1 r where u: "unparseable_tenant_policy g True now e node tenant s = (s1, r)" by fastforce
  show ?thesis
  proof (cases r)
    case (Inl b)
    then have "b \<noteq> GuardAllow" using u by (auto simp: unparseable_tenant_policy_def Let_def split: option.splits sum.splits)
    then show ?thesis using assms u Inl by (simp add: guard_policy_def Let_def)
  next
    case (Inr ts)
    then have s1: "s1 = s" and tl: "tenant_layer g tenant s = Some ts" using u tenant_policy_Inr by blast+
    let ?sets = "policy_chain ts ws (nd_policy nd)" let ?ctx = "from_node_kind node (nd_kind nd)"
    have d: "(if ?sets = [] then Allow else evaluate ?ctx ?sets) = evaluate ?ctx ?sets" by (simp add: evaluate_def)
    show ?thesis
    proof (cases "node_decision ?ctx ?sets gate es")
      case Allow
      then have "evaluate ?ctx ?sets = Allow \<and> cg_node gate = None \<and> es = None" by (auto simp: node_decision_def d Let_def split: if_splits)
      then show ?thesis using assms u Inr s1 tl Allow guard_dispatch_Allow [of g Fire now e node tenant ws nd "payload_input payload" False]
        by (auto simp: guard_policy_def Let_def split: if_splits)
    next
      case (Block r)
      then show ?thesis using assms u Inr by (simp add: guard_policy_def Let_def)
    next
      case (RequireApproval a)
      then have "evaluate ?ctx ?sets \<noteq> Block r" for r by (auto simp: node_decision_def d Let_def split: if_splits)
      moreover obtain s2 out where na: "node_approval g Fire now e node tenant nd payload gate es ?sets a s = (s2, out)" by fastforce
      have "out = GuardAllow" using assms u Inr s1 RequireApproval na by (auto simp: guard_policy_def Let_def split: if_splits)
      then have "s2 = s" "node_cleared g e node nd payload s"
        using na deadline_or_block_Inr deadline_or_block_Inl require_approval_Allow
        by (fastforce simp: node_approval_def Let_def split: prod.splits sum.splits)+
      ultimately show ?thesis
        using assms u Inr s1 tl RequireApproval na \<open>out = GuardAllow\<close> guard_dispatch_Allow [of g Fire now e node tenant ws nd "payload_input payload" True]
        by (auto simp: guard_policy_def Let_def split: if_splits)
    qed
  qed
qed

lemma agent_card_Inl: "agent_card g mode now e node nd payload scope s = (s', Inl r) \<Longrightarrow> r \<noteq> GuardAllow"
  by (auto simp: agent_card_def Let_def split: list.splits option.splits sum.splits card_refusal.splits)

lemma callee_Inl: "callee scope kind = Inl r \<Longrightarrow> r \<noteq> GuardAllow"
  by (auto simp: callee_def split: node_kind.splits option.splits sum.splits)

lemma plan_step_Inl: "plan_step env now e node agents n s = (s', Inl r) \<Longrightarrow> r \<noteq> GuardAllow"
  by (auto simp: plan_step_def counters_unavailable_def split: sum.splits option.splits on_limit_exceeded.splits)

lemma plan_step_Inr:
  "plan_step env now e node agents n s = (s', Inr plan) \<Longrightarrow> s' = s \<and> pl_agents plan = agents \<and> pl_step plan = n"
  by (auto simp: plan_step_def split: sum.splits option.splits on_limit_exceeded.splits)

lemma plan_node_Inl: "plan_node g Fire now e node nd payload item agents s = (s', Inl r) \<Longrightarrow> r \<noteq> GuardAllow"
  using plan_step_Inl by (auto simp: plan_node_def split: if_splits sum.splits prod.splits)

lemma plan_node_Inr:
  assumes "plan_node g Fire now e node nd payload item agents s = (s', Inr plan)"
  shows "s' = s \<and> (case plan of None \<Rightarrow> agents = [] | Some p \<Rightarrow> pl_agents p = agents \<and> step_tool_calls nd payload = Inr (pl_step p))"
  using assms plan_step_Inr by (fastforce simp: plan_node_def split: if_splits sum.splits prod.splits)

text \<open>The stages of a firing check that answers with allow.\<close>

lemma guard_item_Fire_Allow:
  assumes "guard_item g Fire now e node tenant ws nd payload scope item s = (s', GuardAllow)"
  obtains gate called plan where "agent_card g Fire now e node nd payload scope s = (s, Inr gate)" and "callee scope (nd_kind nd) = Inr called"
    and "plan_node g Fire now e node nd payload item (agents_of_node (cg_agents gate) called) s = (s, Inr plan)"
    and "guard_policy g Fire now e node tenant ws nd payload gate (Option.bind plan pl_escalation) s = (s, GuardAllow)"
    and "case plan of None \<Rightarrow> s' = s | Some p \<Rightarrow> admit (ge_sched g) now e node item p s = (s', GuardAllow)"
proof -
  obtain s1 c where c: "agent_card g Fire now e node nd payload scope s = (s1, c)" by fastforce
  obtain gate where gate: "c = Inr gate" using assms c agent_card_Inl by (cases c) (fastforce simp: guard_item_def)+
  have s1: "s1 = s" using c gate agent_card_state by blast
  obtain called where called: "callee scope (nd_kind nd) = Inr called"
    using assms c gate callee_Inl by (cases "callee scope (nd_kind nd)") (fastforce simp: guard_item_def)+
  obtain s2 p where p: "plan_node g Fire now e node nd payload item (agents_of_node (cg_agents gate) called) s = (s2, p)" by fastforce
  obtain plan where plan: "p = Inr plan" using assms c gate s1 called p plan_node_Inl by (cases p) (fastforce simp: guard_item_def)+
  have s2: "s2 = s" using p plan plan_node_Inr by blast
  obtain s3 out where o: "guard_policy g Fire now e node tenant ws nd payload gate (Option.bind plan pl_escalation) s = (s3, out)" by fastforce
  have out: "out = GuardAllow"
    using assms c gate s1 called p plan s2 o
    by (auto simp: guard_item_def Let_def split: guard_outcome.splits option.splits)
  then have s3: "s3 = s" using o guard_policy_Fire_Allow by blast
  have "case plan of None \<Rightarrow> s' = s | Some p \<Rightarrow> admit (ge_sched g) now e node item p s = (s', GuardAllow)"
    using assms c gate s1 called p plan s2 o out s3
    by (auto simp: guard_item_def record_escalation_def Let_def split: option.splits)
  then show ?thesis using that c gate s1 called p plan s2 o out s3 by simp
qed

text \<open>The most specific layer that decides a node decides it for all.\<close>

lemma deciding_layer:
  "\<forall>p' \<in> set below. evaluate_layer ctx p' = None \<Longrightarrow> evaluate_layer ctx p = Some d \<Longrightarrow> evaluate ctx (outer @ p # below) = d"
proof -
  assume below: "\<forall>p' \<in> set below. evaluate_layer ctx p' = None" and p: "evaluate_layer ctx p = Some d"
  have "(\<forall>p' \<in> set bs. evaluate_layer ctx p' = None) \<Longrightarrow> evaluate_layers ctx (bs @ ps) = evaluate_layers ctx ps" for bs ps
    by (induction bs) simp_all
  from this [of "rev below"] show ?thesis using below p by (simp add: evaluate_def)
qed

text \<open>C5: What fires is cleared.  Of the layers of the policy chain - tenant, workflow, node - the most specific one that
  decides the node under its own names does not block it, and if it holds it for approval, or if any layer at all has a rule
  that names a node that is no model call, then an approval on file covers exactly this action.  (A layer outside the deciding
  one is not asked: an approval required by an inner layer stands before a block of an outer one.)  If the node
  dispatches an agent's tool calls and there is a policy, then the calls are readable, the decision on the batch is not a
  block, and if it is a hold, an approval covers the node or exactly these calls.\<close>

theorem fired_node_is_cleared:
  assumes "guard_item g Fire now e node tenant ws nd payload scope item s = (s', GuardAllow)"
  shows "\<exists>ts. tenant_layer g tenant s = Some ts \<and>
    (let sets = policy_chain ts ws (nd_policy nd); ctx = from_node_kind node (nd_kind nd)
     in (\<forall>outer p below d. sets = outer @ p # below \<and> (\<forall>p' \<in> set below. evaluate_layer ctx p' = None) \<and> evaluate_layer ctx p = Some d \<longrightarrow>
            (\<forall>r. d \<noteq> Block r) \<and> (d \<noteq> Allow \<longrightarrow> node_cleared g e node nd payload s)) \<and>
        (ec_node_kind_tag ctx \<noteq> ''model'' \<and>
           (\<exists>p \<in> set sets. \<exists>q \<in> set (ps_blocked_tools p) \<union> set (ps_require_approval_for p). ctx_matches ctx q \<noteq> None) \<longrightarrow>
           node_cleared g e node nd payload s) \<and>
        (is_agent_tool_dispatch (nd_kind nd) \<and> sets \<noteq> [] \<longrightarrow>
           (\<exists>calls. read_pending_tool_calls (payload_input payload) = Inr calls \<and> (\<forall>t r. evaluate_dispatch node calls sets \<noteq> DBlock t r) \<and>
              (evaluate_dispatch node calls sets \<noteq> DAllow \<longrightarrow> node_cleared g e node nd payload s \<or> calls_cleared g e node nd calls s))))"
proof -
  obtain gate called plan where gp: "agent_card g Fire now e node nd payload scope s = (s, Inr gate)" "callee scope (nd_kind nd) = Inr called"
    "plan_node g Fire now e node nd payload item (agents_of_node (cg_agents gate) called) s = (s, Inr plan)"
    "guard_policy g Fire now e node tenant ws nd payload gate (Option.bind plan pl_escalation) s = (s, GuardAllow)"
    "case plan of None \<Rightarrow> s' = s | Some p \<Rightarrow> admit (ge_sched g) now e node item p s = (s', GuardAllow)"
    by (rule guard_item_Fire_Allow [OF assms])
  obtain ts where ts: "tenant_layer g tenant s = Some ts"
    "\<forall>r. evaluate (from_node_kind node (nd_kind nd)) (policy_chain ts ws (nd_policy nd)) \<noteq> Block r"
    "evaluate (from_node_kind node (nd_kind nd)) (policy_chain ts ws (nd_policy nd)) \<noteq> Allow \<longrightarrow> node_cleared g e node nd payload s"
    "is_agent_tool_dispatch (nd_kind nd) \<longrightarrow> (\<exists>ap. (ap \<longrightarrow> node_cleared g e node nd payload s) \<and>
          guard_dispatch_in g Fire now e node tenant ws nd (payload_input payload) ap (cg_calls gate) s = (s, GuardAllow))"
    using guard_policy_Fire_Allow [OF gp(4)] by blast
  have "\<exists>calls. read_pending_tool_calls (payload_input payload) = Inr calls \<and>
      (\<forall>t r. evaluate_dispatch node calls (policy_chain ts ws (nd_policy nd)) \<noteq> DBlock t r) \<and>
      (evaluate_dispatch node calls (policy_chain ts ws (nd_policy nd)) \<noteq> DAllow \<longrightarrow>
         node_cleared g e node nd payload s \<or> calls_cleared g e node nd calls s)"
    if disp: "is_agent_tool_dispatch (nd_kind nd)" "policy_chain ts ws (nd_policy nd) \<noteq> []"
  proof -
    obtain ap where ap: "ap \<longrightarrow> node_cleared g e node nd payload s"
      "guard_dispatch_in g Fire now e node tenant ws nd (payload_input payload) ap (cg_calls gate) s = (s, GuardAllow)"
      using ts(4) disp(1) by blast
    from guard_dispatch_Allow [OF ap(2)] ts(1) disp(2) ap(1) show ?thesis by auto
  qed
  moreover have "(\<forall>r. d \<noteq> Block r) \<and> (d \<noteq> Allow \<longrightarrow> node_cleared g e node nd payload s)"
    if "policy_chain ts ws (nd_policy nd) = outer @ p # below" "\<forall>p' \<in> set below. evaluate_layer (from_node_kind node (nd_kind nd)) p' = None"
      "evaluate_layer (from_node_kind node (nd_kind nd)) p = Some d" for outer p below d
    using deciding_layer [OF that(2,3), of outer] ts(2,3) that(1) by simp
  moreover have "node_cleared g e node nd payload s"
    if "ec_node_kind_tag (from_node_kind node (nd_kind nd)) \<noteq> ''model''" "p \<in> set (policy_chain ts ws (nd_policy nd))"
      "q \<in> set (ps_blocked_tools p) \<union> set (ps_require_approval_for p)" "ctx_matches (from_node_kind node (nd_kind nd)) q \<noteq> None" for p q
    using ts(3) that evaluate_Allow_tool [OF that(1)] by (auto simp: layer_names_def)
  ultimately show ?thesis using ts(1) unfolding Let_def by blast
qed

text \<open>What a card allows: what fires for an agent is on its lists, and the step is recorded for every agent the node
  acts for before it runs.\<close>

definition card_allows :: "agent_scope \<Rightarrow> node_id \<Rightarrow> node_def \<Rightarrow> json \<Rightarrow> string \<Rightarrow> bool" where
  "card_allows scope node nd payload r =
     (\<exists>registry constraints. sc_registry scope = Some registry \<and> registry r = Inr (Some constraints) \<and>
        (\<forall>c. constraints = Some c \<longrightarrow> (\<exists>gate gate'. check_card scope node nd payload r c gate = Inr gate')))"

lemma check_calls_agents: "check_calls r c calls gate = Inr gate' \<Longrightarrow> cg_agents gate' = cg_agents gate"
  by (induction calls arbitrary: gate) (auto split: sum.splits call_refused.splits option.splits if_splits)

lemma check_card_agents: "check_card scope node nd payload r c gate = Inr gate' \<Longrightarrow> cg_agents gate' = cg_agents gate"
  by (auto simp: check_card_def check_own_name_def and_then_def dest: check_calls_agents split: sum.splits if_splits option.splits)

lemma card_loop_allows:
  assumes "sc_registry scope = Some registry"
  shows "card_loop scope registry node nd payload refs gate = Inr gate' \<Longrightarrow>
    (\<forall>r \<in> set refs. card_allows scope node nd payload r) \<and>
    (\<exists>cs. cg_agents gate' = cg_agents gate @ zip refs cs \<and> length cs = length refs \<and> (\<forall>(r, c) \<in> set (zip refs cs). registry r = Inr (Some c)))"
proof (induction refs arbitrary: gate)
  case (Cons r refs)
  then obtain constraints where r: "registry r = Inr (Some constraints)" by (auto split: sum.splits option.splits)
  let ?gate = "gate\<lparr>cg_agents := cg_agents gate @ [(r, constraints)]\<rparr>"
  obtain gate2 where g2: "cg_agents gate2 = cg_agents ?gate" "card_loop scope registry node nd payload refs gate2 = Inr gate'"
    "\<forall>c. constraints = Some c \<longrightarrow> check_card scope node nd payload r c ?gate = Inr gate2"
  proof (cases constraints)
    case None
    then show ?thesis using Cons.prems r that [of ?gate] by simp
  next
    case (Some c)
    then obtain gate2 where "check_card scope node nd payload r c ?gate = Inr gate2" "card_loop scope registry node nd payload refs gate2 = Inr gate'"
      using Cons.prems r by (auto simp: Let_def split: sum.splits)
    then show ?thesis using Some that check_card_agents by blast
  qed
  then have "card_allows scope node nd payload r" using assms r by (auto simp: card_allows_def)
  moreover obtain cs where "\<forall>r \<in> set refs. card_allows scope node nd payload r" "cg_agents gate' = cg_agents gate2 @ zip refs cs"
    "length cs = length refs" "\<forall>(r, c) \<in> set (zip refs cs). registry r = Inr (Some c)"
    using Cons.IH [OF g2(2)] by blast
  ultimately show ?case using g2(1) r by (intro conjI exI [of _ "constraints # cs"]) simp_all
qed simp

lemma refs_distinct: "distinct (refs_of scope nd)"
  by (cases "sc_workflow_agent scope"; cases "nd_agent_ref nd") (simp_all add: refs_of_def filter_map_def)

lemma agents_of_node_distinct: "distinct (map fst as) \<Longrightarrow> distinct (map fst (agents_of_node as called))"
  by (auto simp: agents_of_node_def list_ex_iff split: option.split)

lemma agent_card_allows:
  assumes "agent_card g mode now e node nd payload scope s = (s', Inr gate)"
  shows "(\<forall>r \<in> set (refs_of scope nd). card_allows scope node nd payload r) \<and> map fst (cg_agents gate) = refs_of scope nd \<and>
    (\<forall>(a, c) \<in> set (cg_agents gate). \<exists>registry. sc_registry scope = Some registry \<and> registry a = Inr (Some c))"
proof (cases "refs_of scope nd")
  case Nil
  then show ?thesis using assms by (auto simp: agent_card_def card_gate_default_def)
next
  case (Cons first rest)
  then obtain registry where reg: "sc_registry scope = Some registry"
    "card_loop scope registry node nd payload (refs_of scope nd) card_gate_default = Inr gate"
    using assms by (auto simp: agent_card_def Let_def split: option.splits sum.splits card_refusal.splits)
  from card_loop_allows [OF reg] show ?thesis using reg(1) by (fastforce simp: card_gate_default_def)
qed

lemma callee_registered:
  "callee scope kind = Inr (Some (a, c)) \<Longrightarrow> \<exists>registry. sc_registry scope = Some registry \<and> registry a = Inr (Some c)"
  by (auto simp: callee_def split: node_kind.splits option.splits sum.splits)

lemma step_tool_calls_bound: "step_tool_calls nd payload = Inr n \<Longrightarrow> n < 2 ^ 32"
  by (auto simp: step_tool_calls_def saturating_add_u32_def and_then_def Let_def split: if_splits sum.splits)

lemma admit_Allow:
  assumes "admit env now e node item plan s = (s', GuardAllow)"
  shows "\<exists>ev q. log_of s' e = log_of s e @ [ev] \<and> ev_kind ev = admitted_kind node item plan q"
proof -
  have one: "\<exists>ev. log_of s' e = log_of s e @ [ev] \<and> ev_kind ev = admitted_kind node item plan q"
    if "admit_append env now e node item plan q s = (s', GuardAllow)" for q
    using that by (auto simp: admit_append_def append_event_if_def push_event_def log_of_def event_new_def Let_def split: option.splits if_splits)
  obtain q where "admit_append env now e node item plan q s = (s', GuardAllow)" using assms by (auto simp: admit_def split: option.splits)
  from one [OF this] show ?thesis by blast
qed

text \<open>C6: What fires for an agent is on the lists of every card the node acts under, and before it runs its step is
  recorded for all of those agents, under their own cards, by the append that enforces their limits.\<close>

theorem fired_step_is_recorded:
  assumes "guard_item g Fire now e node tenant ws nd payload scope item s = (s', GuardAllow)" and "refs_of scope nd \<noteq> []"
  shows "(\<forall>r \<in> set (refs_of scope nd). card_allows scope node nd payload r) \<and>
    (\<exists>plan cards ev q. s' = fst (admit (ge_sched g) now e node item plan s) \<and> plan_ok cards (pl_earlier plan) plan \<and>
       set (refs_of scope nd) \<subseteq> fst ` set (pl_agents plan) \<and>
       (\<forall>a \<in> fst ` set (pl_agents plan). \<exists>registry. sc_registry scope = Some registry \<and> registry a = Inr (Some (cards a))) \<and>
       log_of s' e = log_of s e @ [ev] \<and> ev_kind ev = admitted_kind node item plan q)"
proof -
  obtain gate called plan where st: "agent_card g Fire now e node nd payload scope s = (s, Inr gate)" "callee scope (nd_kind nd) = Inr called"
    "plan_node g Fire now e node nd payload item (agents_of_node (cg_agents gate) called) s = (s, Inr plan)"
    "guard_policy g Fire now e node tenant ws nd payload gate (Option.bind plan pl_escalation) s = (s, GuardAllow)"
    "case plan of None \<Rightarrow> s' = s | Some p \<Rightarrow> admit (ge_sched g) now e node item p s = (s', GuardAllow)"
    by (rule guard_item_Fire_Allow [OF assms(1)])
  define as where "as = agents_of_node (cg_agents gate) called"
  have card: "\<forall>r \<in> set (refs_of scope nd). card_allows scope node nd payload r" "map fst (cg_agents gate) = refs_of scope nd"
    "\<forall>(a, c) \<in> set (cg_agents gate). \<exists>registry. sc_registry scope = Some registry \<and> registry a = Inr (Some c)"
    using agent_card_allows [OF st(1)] by blast+
  have sub: "set (refs_of scope nd) \<subseteq> fst ` set as"
    using card(2) by (auto simp: as_def agents_of_node_def simp flip: card(2) split: option.split)
  then have "as \<noteq> []" using assms(2) by auto
  then obtain p where p: "plan = Some p" "pl_agents p = as" "step_tool_calls nd payload = Inr (pl_step p)"
    using plan_node_Inr [OF st(3)] by (cases plan) (auto simp: as_def)
  define cards where "cards a = Option.bind (map_of as a) id" for a
  have dist: "distinct (map fst as)" unfolding as_def by (rule agents_of_node_distinct) (simp add: card(2) refs_distinct)
  have reg: "\<forall>(a, c) \<in> set as. \<exists>registry. sc_registry scope = Some registry \<and> registry a = Inr (Some c)"
    using card(3) callee_registered st(2) by (auto simp: as_def agents_of_node_def split: option.splits if_splits)
  have cards: "cards a = c" if "(a, c) \<in> set as" for a c using that dist by (simp add: cards_def)
  then have "plan_ok cards (pl_earlier p) p" using dist p(2) step_tool_calls_bound [OF p(3)] by (auto simp: plan_ok_def)
  moreover have "\<forall>a \<in> fst ` set as. \<exists>registry. sc_registry scope = Some registry \<and> registry a = Inr (Some (cards a))"
    using reg cards by fastforce
  moreover have "admit (ge_sched g) now e node item p s = (s', GuardAllow)" using st(5) p(1) by simp
  moreover from admit_Allow [OF this] obtain ev q where "log_of s' e = log_of s e @ [ev]" "ev_kind ev = admitted_kind node item p q" by blast
  ultimately show ?thesis using card(1) sub p(2) by (metis fst_conv)
qed

section \<open>What is held\<close>

text \<open>An event that no approval fold reads.\<close>

definition neutral :: "event_kind \<Rightarrow> bool" where
  "neutral k = (k \<noteq> Unknown \<and> (\<forall>x node ev st. ev_kind ev = k \<longrightarrow> status_step x node ev st = st))"

lemma neutral_kinds [simp]:
  "neutral (AuditSealFailed i q t err)" "neutral (AutonomyLimitReached n a lt lv av)" "neutral (CircuitBreakerTripped n a er th)"
  "neutral (EscalationRequired n a r t')"
  by (simp_all add: neutral_def status_step_def)

lemma unreadable_snoc:
  "has_unreadable_events [ev] \<longleftrightarrow> ev_kind ev = Unknown"
  "has_unreadable_events (evs @ [ev]) \<longleftrightarrow> has_unreadable_events evs \<or> ev_kind ev = Unknown"
  by (auto simp: has_unreadable_events_def split: event_kind.splits)

lemma neutral_append:
  assumes "neutral k"
  shows "node_approval_status x (get_events e (fst (append_event (event_new i t e q k) s))) node = node_approval_status x (get_events e s) node"
  using assms
  by (simp add: append_event_def get_events_def log_of_push neutral_def node_approval_status_def unreadable_snoc event_new_def)

lemma append_kind_neutral:
  "list_all neutral ks \<Longrightarrow> node_approval_status x (get_events e (fold (append_kind env now e) ks s)) node = node_approval_status x (get_events e s) node"
  by (induction ks arbitrary: s) (simp_all add: append_kind_def neutral_append)

lemma append_neutral:
  "neutral k \<Longrightarrow> node_approval_status x (get_events e (append_kind env now e k s)) node = node_approval_status x (get_events e s) node"
  by (simp add: append_kind_def neutral_append)

lemma record_stop_status:
  "node_approval_status x (get_events e (record_stop env now e n a d target s)) node = node_approval_status x (get_events e s) node"
  by (cases d) (simp_all add: record_stop_def append_neutral split: option.split)

lemma record_escalation_status:
  "node_approval_status x (get_events e (record_escalation g now e n es before out s)) node = node_approval_status x (get_events e s) node"
  by (simp add: record_escalation_def record_stop_status)

lemma record_request_status:
  assumes "node_approval_status x (get_events e s) node \<noteq> Indeterminate"
  shows "\<exists>p. node_approval_status x (get_events e (record_request g now e (ToolApprovalRequired node tool a c) tenant s)) node = Pending p"
proof -
  let ?ev = "event_new (se_fresh (ge_sched g) (mb_next_sequence s)) now e 0 (ToolApprovalRequired node tool a c)"
  have "\<exists>p. node_approval_status x (get_events e (fst (append_event ?ev s))) node = Pending p"
    using assms by (auto simp: append_event_def get_events_def log_of_push node_approval_status_def unreadable_snoc event_new_def
        status_step_def split: if_splits)
  moreover have "node_approval_status x (get_events e (seal_appended env now ?ev appended tenant s1)) node =
      node_approval_status x (get_events e s1) node" for env appended s1
  proof -
    have "ev_execution_id (?ev\<lparr>ev_sequence := appended\<rparr>) = e" by (simp add: event_new_def)
    then show ?thesis by (auto simp: seal_appended_def record_seal_gap_def neutral_append split: option.split)
  qed
  ultimately show ?thesis by (simp add: record_request_def Let_def split: prod.split) (metis fst_conv)
qed

definition held_on_file :: "externals \<Rightarrow> execution_id \<Rightarrow> node_id \<Rightarrow> in_memory_backend \<Rightarrow> bool" where
  "held_on_file x e node s =
     (case node_approval_status x (get_events e s) node of Pending _ \<Rightarrow> True | NodeRejected _ _ _ \<Rightarrow> True | _ \<Rightarrow> False)"

lemma held_Pending: "node_approval_status x (get_events e s) node = Pending p \<Longrightarrow> held_on_file x e node s"
  by (simp add: held_on_file_def)

lemma held_cases:
  assumes "held_on_file x e node s \<or>
    (node_approval_status x (get_events e s) node \<noteq> Indeterminate \<and> (\<exists>tool a c. s' = record_request g now e (ToolApprovalRequired node tool a c) tenant s))"
    and "held_on_file x e node s \<Longrightarrow> s' = s"
  shows "held_on_file x e node s'"
  using assms record_request_status [of x e s node] held_Pending by blast

lemma require_approval_Held:
  assumes "require_approval g now e node nd payload tool a ctx d tenant es s = (s', GuardHeld gs)"
  shows "held_on_file (ge_x g) e node s'"
  using assms
  by (intro held_cases [where s = s and g = g and now = now and tenant = tenant])
    (auto simp: require_approval_def held_on_file_def Let_def split: node_approval_status.splits if_splits sum.splits)

lemma dispatch_approval_Held:
  assumes "dispatch_approval g Fire now e node tenant ts ws nd a gs calls s = (s', GuardHeld hs)"
  shows "held_on_file (ge_x g) e node s'"
  using assms
  by (intro held_cases [where s = s and g = g and now = now and tenant = tenant])
    (auto simp: dispatch_approval_def held_on_file_def deadline_or_block_def dispatch_request_def Let_def
      split: node_approval_status.splits if_splits sum.splits)

lemma guard_dispatch_Held:
  assumes "guard_dispatch_in g Fire now e node tenant ws nd input ap gs s = (s', GuardHeld hs)"
  shows "held_on_file (ge_x g) e node s'"
  using assms dispatch_approval_Held
  by (auto simp: guard_dispatch_in_def unparseable_tenant_policy_def Let_def split: option.splits if_splits sum.splits dispatch_decision.splits)

lemma node_approval_Held:
  assumes "node_approval g Fire now e node tenant nd payload gate es sets a s = (s', GuardHeld hs)"
  shows "held_on_file (ge_x g) e node s'"
  using assms require_approval_Held by (auto simp: node_approval_def deadline_or_block_def Let_def split: sum.splits)

lemma guard_policy_Held:
  assumes "guard_policy g Fire now e node tenant ws nd payload gate es s = (s', GuardHeld hs)"
  shows "held_on_file (ge_x g) e node s'"
  using assms guard_dispatch_Held node_approval_Held
  by (auto simp: guard_policy_def unparseable_tenant_policy_def Let_def
      split: option.splits if_splits sum.splits policy_decision.splits prod.splits)

lemma agent_card_not_Held: "agent_card g mode now e node nd payload scope s = (s', Inl r) \<Longrightarrow> r \<noteq> GuardHeld hs"
  by (auto simp: agent_card_def Let_def split: list.splits option.splits sum.splits card_refusal.splits)

lemma callee_not_Held: "callee scope kind = Inl r \<Longrightarrow> r \<noteq> GuardHeld hs"
  by (auto simp: callee_def split: node_kind.splits option.splits sum.splits)

lemma plan_step_not_Held: "plan_step env now e node agents n s = (s', Inl r) \<Longrightarrow> r \<noteq> GuardHeld hs"
  by (auto simp: plan_step_def counters_unavailable_def split: sum.splits option.splits on_limit_exceeded.splits)

lemma plan_node_not_Held: "plan_node g Fire now e node nd payload item agents s = (s', Inl r) \<Longrightarrow> r \<noteq> GuardHeld hs"
  using plan_step_not_Held by (auto simp: plan_node_def split: if_splits sum.splits prod.splits)

lemma admit_not_Held: "admit env now e node item plan s \<noteq> (s', GuardHeld hs)"
  by (auto simp: admit_def admit_append_def split: option.splits sum.splits conditional_append.splits prod.splits)

text \<open>A node that is held is on file: after a firing check that answers with hold, the node's latest request is
  undecided, or was rejected, so a person or the deadline can settle it, and nothing waits unseen.\<close>

theorem held_node_has_request:
  assumes "guard_item g Fire now e node tenant ws nd payload scope item s = (s', GuardHeld hs)"
  shows "held_on_file (ge_x g) e node s'"
proof -
  obtain s1 c where c: "agent_card g Fire now e node nd payload scope s = (s1, c)" by fastforce
  obtain gate where gate: "c = Inr gate" using assms c agent_card_not_Held by (cases c) (fastforce simp: guard_item_def)+
  obtain called where called: "callee scope (nd_kind nd) = Inr called"
    using assms c gate callee_not_Held by (cases "callee scope (nd_kind nd)") (fastforce simp: guard_item_def)+
  obtain s2 p where p: "plan_node g Fire now e node nd payload item (agents_of_node (cg_agents gate) called) s1 = (s2, p)" by fastforce
  obtain plan where plan: "p = Inr plan" using assms c gate called p plan_node_not_Held by (cases p) (fastforce simp: guard_item_def)+
  obtain s3 out where o: "guard_policy g Fire now e node tenant ws nd payload gate (Option.bind plan pl_escalation) s2 = (s3, out)" by fastforce
  have out: "out = GuardHeld hs"
    using assms c gate called p plan o admit_not_Held
    by (auto simp: guard_item_def Let_def split: guard_outcome.splits option.splits)
  then have "held_on_file (ge_x g) e node s3" using o guard_policy_Held by blast
  moreover have "s' = (case Option.bind plan pl_escalation of
      Some es \<Rightarrow> record_escalation g now e node es (latest_sequence e s2) out s3 | None \<Rightarrow> s3)"
    using assms c gate called p plan o out by (auto simp: guard_item_def Let_def)
  ultimately show ?thesis by (simp add: held_on_file_def record_escalation_status split: option.split)
qed

section \<open>Witnesses\<close>

definition sample_guard :: guard_env where
  "sample_guard = \<lparr>ge_sched = sample_env, ge_node_json = (\<lambda>_. JNull), ge_node_summary = (\<lambda>_. JNull), ge_json_len = (\<lambda>_. 4),
     ge_policy_from_json = (\<lambda>_. Inl []), ge_debug = id\<rparr>"

definition sample_tool :: node_def where
  "sample_tool = \<lparr>nd_id = ''n'', nd_kind = ToolNode ''pay'' [] [], nd_retry_policy = None, nd_node_timeout_secs = None, nd_description = None,
     nd_labels = [], nd_policy = Some (policy_set_default\<lparr>ps_require_approval_for := [''pay'']\<rparr>), nd_data_policy = None, nd_agent_ref = None\<rparr>"

definition no_agents :: agent_scope where
  "no_agents = \<lparr>sc_workflow_agent = None, sc_remote_agents = None, sc_registry = None\<rparr>"

text \<open>A run whose tool node was requested and approved for the action it would perform.\<close>

definition sample_digest :: string where
  "sample_digest = basis_digest (ge_x sample_guard)
     \<lparr>ab_run = exec_label ''p'', ab_step = 0, ab_definition = node_definition sample_guard sample_tool, ab_payload = action_payload JNull\<rparr> ''n''"

definition sample_request :: event where
  "sample_request = event_new ''q'' 1 ''p'' 1 (ToolApprovalRequired ''n'' ''pay'' ''human'' (JObject []))"

definition sample_decision :: event where
  "sample_decision = event_new ''d'' 2 ''p'' 2 (ApprovalReceived \<lparr>ar_node_id = ''n'', ar_user_id = ''u'', ar_decision = Approved, ar_comment = None,
     ar_state_patch = None, ar_principal = None, ar_approved_digest = Some sample_digest, ar_request_sequence = Some 1\<rparr>)"

definition sample_approved :: in_memory_backend where
  "sample_approved = sample_root\<lparr>mb_events := [''p'' \<mapsto> [sample_request, sample_decision]]\<rparr>"

lemma sample_status:
  "node_approval_status (ge_x sample_guard) (get_events ''p'' sample_approved) ''n'' = NodeApproved ''u'' 2 (Some sample_digest)"
  by (simp add: node_approval_status_def has_unreadable_events_def get_events_def log_of_def sample_approved_def sample_request_def
      sample_decision_def event_new_def status_step_def)

lemma sample_gated:
  "evaluate (from_node_kind ''n'' (nd_kind sample_tool)) (policy_chain None None (nd_policy sample_tool)) = RequireApproval ''human''"
  by code_simp

lemma sample_stages:
  "agent_card sample_guard Fire 5 ''p'' ''n'' sample_tool JNull no_agents s = (s, Inr card_gate_default)"
  "callee no_agents (nd_kind sample_tool) = Inr None"
  "plan_node sample_guard Fire 5 ''p'' ''n'' sample_tool JNull None (agents_of_node (cg_agents card_gate_default) None) s = (s, Inr None)"
  "mb_tenants s ''t'' = None \<Longrightarrow> unparseable_tenant_policy sample_guard True 5 ''p'' ''n'' ''t'' s = (s, Inr None)"
  "node_decision (from_node_kind ''n'' (nd_kind sample_tool)) (policy_chain None None (nd_policy sample_tool)) card_gate_default None = RequireApproval ''human''"
  "deadline_or_block sample_guard 5 ''p'' ''n'' (policy_chain None None (nd_policy sample_tool)) s = (s, Inr None)"
  using sample_gated
  by (simp_all add: agent_card_def refs_of_def no_agents_def sample_tool_def filter_map_def callee_def plan_node_def agents_of_node_def
      card_gate_default_def unparseable_tenant_policy_def get_tenant_def node_decision_def policy_chain_def deadline_or_block_def
      resolve_deadline_def validate_approval_deadline_def policy_set_default_def and_then_def)

lemma sample_item:
  assumes "mb_tenants s ''t'' = None"
  shows "guard_item sample_guard Fire 5 ''p'' ''n'' ''t'' None sample_tool JNull no_agents None s =
    require_approval sample_guard 5 ''p'' ''n'' sample_tool JNull ''pay'' ''human'' (json_object [(''node_id'', JString ''n'')]) None ''t'' False s"
  using sample_stages(1-3,5,6) sample_stages(4) [OF assms]
  by (simp add: guard_item_def guard_policy_def node_approval_def card_gate_default_def sample_tool_def from_node_kind_def Let_def
      split: prod.split guard_outcome.split)

lemma sample_digest_now: "derive_action_digest (ge_x sample_guard) ''p'' ''n'' (node_definition sample_guard sample_tool) JNull sample_approved = sample_digest"
  by (simp add: derive_action_digest_def read_action_basis_def sample_digest_def count_node_completions_def get_events_def log_of_def
      sample_approved_def sample_request_def sample_decision_def event_new_def is_completion_of_def)

lemma sample_fires:
  "guard_item sample_guard Fire 5 ''p'' ''n'' ''t'' None sample_tool JNull no_agents None sample_approved = (sample_approved, GuardAllow)"
  using sample_digest_now [unfolded derive_action_digest_def] sample_status
  by (subst sample_item) (simp_all add: require_approval_def Let_def sample_approved_def sample_root_def create_execution_def backend_new_def)

theorem fired_node_is_cleared_witness:
  "node_cleared sample_guard ''p'' ''n'' sample_tool JNull sample_approved"
proof -
  have "tenant_layer sample_guard ''t'' sample_approved = Some None"
    by (simp add: tenant_layer_def get_tenant_def sample_approved_def sample_root_def create_execution_def backend_new_def)
  moreover have "policy_chain None None (nd_policy sample_tool) = [] @ policy_set_default\<lparr>ps_require_approval_for := [''pay'']\<rparr> # []"
    by (simp add: policy_chain_def filter_map_def sample_tool_def)
  moreover have "evaluate_layer (from_node_kind ''n'' (nd_kind sample_tool)) (policy_set_default\<lparr>ps_require_approval_for := [''pay'']\<rparr>) =
      Some (RequireApproval ''human'')"
    by code_simp
  ultimately show ?thesis
    using fired_node_is_cleared [OF sample_fires] unfolding Let_def by (metis list.set(1) empty_iff option.inject policy_decision.distinct(3))
qed

theorem held_node_has_request_witness:
  "held_on_file (ge_x sample_guard) ''p'' ''n'' (fst (guard_item sample_guard Fire 5 ''p'' ''n'' ''t'' None sample_tool JNull no_agents None sample_root))"
proof -
  have "node_approval_status (ge_x sample_guard) (get_events ''p'' sample_root) ''n'' = NotRequested"
    by (simp add: node_approval_status_def has_unreadable_events_def get_events_def log_of_def sample_root_def create_execution_def backend_new_def)
  then have "snd (guard_item sample_guard Fire 5 ''p'' ''n'' ''t'' None sample_tool JNull no_agents None sample_root) = GuardHeld [''pay'']"
    by (subst sample_item) (simp_all add: require_approval_def Let_def sample_root_def create_execution_def backend_new_def)
  then show ?thesis using held_node_has_request by (metis prod.collapse)
qed

definition bot_scope :: agent_scope where
  "bot_scope = \<lparr>sc_workflow_agent = Some ''bot'', sc_remote_agents = None, sc_registry = Some (\<lambda>_. Inr (Some (Some sample_card)))\<rparr>"

definition free_tool :: node_def where
  "free_tool = sample_tool\<lparr>nd_policy := None\<rparr>"

lemma bot_stages:
  assumes "sc_workflow_agent scope = Some ''bot''" and "sc_registry scope = Some registry" and "registry ''bot'' = Inr (Some (Some sample_card))"
  shows "refs_of scope free_tool = [''bot'']"
    and "agent_card sample_guard Fire 5 ''p'' ''n'' free_tool JNull scope s = (s, Inr \<lparr>cg_node = None, cg_calls = [], cg_agents = [(''bot'', Some sample_card)]\<rparr>)"
    and "callee scope (nd_kind free_tool) = Inr None"
    and "step_tool_calls free_tool JNull = Inr 1"
    and "unparseable_tenant_policy sample_guard True 5 ''p'' ''n'' ''t'' sample_root = (sample_root, Inr None)"
  using assms
  by (simp_all add: refs_of_def free_tool_def sample_tool_def filter_map_def agent_card_def card_gate_default_def check_card_def
      check_delegation_def sample_card_def and_then_def callee_def step_tool_calls_def saturating_add_u32_def calls_only_def from_node_kind_def
      unparseable_tenant_policy_def get_tenant_def sample_root_def create_execution_def backend_new_def Let_def)

lemma bot_fires:
  assumes "sc_workflow_agent scope = Some ''bot''" and "sc_registry scope = Some registry" and "registry ''bot'' = Inr (Some (Some sample_card))"
  shows "guard_item sample_guard Fire 5 ''p'' ''n'' ''t'' None free_tool JNull scope None sample_root =
      (fst (guard_item sample_guard Fire 5 ''p'' ''n'' ''t'' None free_tool JNull scope None sample_root), GuardAllow)"
proof -
  note stages = bot_stages [OF assms]
  have pl: "plan_node sample_guard Fire 5 ''p'' ''n'' free_tool JNull None [(''bot'', Some sample_card)] sample_root = (sample_root, Inr (Some sample_step_plan))"
    using bot_plan stages(4) by (simp add: plan_node_def sample_guard_def)
  have gp: "guard_policy sample_guard Fire 5 ''p'' ''n'' ''t'' None free_tool JNull \<lparr>cg_node = None, cg_calls = [], cg_agents = [(''bot'', Some sample_card)]\<rparr>
      None sample_root = (sample_root, GuardAllow)"
    using stages(5) by (simp add: guard_policy_def node_decision_def policy_chain_def filter_map_def free_tool_def sample_tool_def Let_def)
  have "guard_item sample_guard Fire 5 ''p'' ''n'' ''t'' None free_tool JNull scope None sample_root = admit sample_env 5 ''p'' ''n'' None sample_step_plan sample_root"
    using stages(2,3) pl gp by (simp add: guard_item_def agents_of_node_def sample_step_plan_def sample_guard_def Let_def)
  then have "snd (guard_item sample_guard Fire 5 ''p'' ''n'' ''t'' None free_tool JNull scope None sample_root) = GuardAllow"
    using sample_admitted by simp
  then show ?thesis by (metis prod.collapse)
qed

theorem fired_step_is_recorded_witness:
  "card_allows bot_scope ''n'' free_tool JNull ''bot'' \<and>
   (\<exists>ev. log_of (fst (guard_item sample_guard Fire 5 ''p'' ''n'' ''t'' None free_tool JNull bot_scope None sample_root)) ''p'' = [ev])"
proof -
  have scope: "sc_workflow_agent bot_scope = Some ''bot''" "sc_registry bot_scope = Some (\<lambda>_. Inr (Some (Some sample_card)))"
    by (simp_all add: bot_scope_def)
  show ?thesis using root_log fired_step_is_recorded [OF bot_fires [OF scope refl]] bot_stages(1) [OF scope refl] by auto
qed

end
