(* ===== verification/Budget.thy ===== *)
theory Budget
  imports Materializer Ir
begin

text \<open>
  The spending of a run (\<^verbatim>\<open>runtime/state/src/budget.rs\<close>): counters of tokens and dollars kept as a member of
  the workflow state, read from a snapshot and written back through a state patch, and the ceilings they
  are held against.  The counters are 64-bit and the dollars a double, which JSON cannot write unless it is
  finite.  Shown: the round trip through a patch, whatever the state held before, and that a dollar amount
  which is not finite loses every counter; and that a run is refused exactly when a ceiling is reached.
\<close>

section \<open>The counters\<close>

record budget_state =
  bs_total_input_tokens :: nat
  bs_total_output_tokens :: nat
  bs_total_cost_usd :: f64
  bs_iteration_count :: nat
  bs_tool_call_count :: nat
  bs_consecutive_error_count :: nat
  bs_circuit_breaker_tripped :: bool

definition budget_default :: budget_state where
  "budget_default =
     \<lparr>bs_total_input_tokens = 0, bs_total_output_tokens = 0, bs_total_cost_usd = Finite 0, bs_iteration_count = 0,
      bs_tool_call_count = 0, bs_consecutive_error_count = 0, bs_circuit_breaker_tripped = False\<rparr>"

definition total_tokens :: "budget_state \<Rightarrow> nat" where
  "total_tokens b = wrap_u64 (bs_total_input_tokens b + bs_total_output_tokens b)"

text \<open>What \<^verbatim>\<open>derive(Serialize)\<close> writes; a double that is not finite is written as null.\<close>

fun f64_json :: "f64 \<Rightarrow> json" where
  "f64_json (Finite r) = JNumber (Float (Finite r))"
| "f64_json _ = JNull"

definition budget_json :: "budget_state \<Rightarrow> json" where
  "budget_json b = json_object
     [(''total_input_tokens'', JNumber (PosInt (bs_total_input_tokens b))),
      (''total_output_tokens'', JNumber (PosInt (bs_total_output_tokens b))),
      (''total_cost_usd'', f64_json (bs_total_cost_usd b)),
      (''iteration_count'', JNumber (PosInt (bs_iteration_count b))),
      (''tool_call_count'', JNumber (PosInt (bs_tool_call_count b))),
      (''consecutive_error_count'', JNumber (PosInt (bs_consecutive_error_count b))),
      (''circuit_breaker_tripped'', JBool (bs_circuit_breaker_tripped b))]"

text \<open>What \<^verbatim>\<open>derive(Deserialize)\<close> reads: an object with every field, others ignored, or an array of the
  fields in their order.\<close>

fun as_f64 :: "json \<Rightarrow> f64 option" where
  "as_f64 (JNumber n) = Some (num_as_f64 n)"
| "as_f64 _ = None"

fun as_bool :: "json \<Rightarrow> bool option" where
  "as_bool (JBool b) = Some b"
| "as_bool _ = None"

definition as_u32 :: "json \<Rightarrow> nat option" where
  "as_u32 v = Option.bind (as_u64 v) (\<lambda>n. if n < 2 ^ 32 then Some n else None)"

definition read_budget :: "(string \<Rightarrow> nat \<Rightarrow> json option) \<Rightarrow> budget_state option" where
  "read_budget get =
     Option.bind (Option.bind (get ''total_input_tokens'' 0) as_u64) (\<lambda>input.
     Option.bind (Option.bind (get ''total_output_tokens'' 1) as_u64) (\<lambda>output.
     Option.bind (Option.bind (get ''total_cost_usd'' 2) as_f64) (\<lambda>cost.
     Option.bind (Option.bind (get ''iteration_count'' 3) as_u32) (\<lambda>iterations.
     Option.bind (Option.bind (get ''tool_call_count'' 4) as_u32) (\<lambda>calls.
     Option.bind (Option.bind (get ''consecutive_error_count'' 5) as_u32) (\<lambda>errors.
     Option.bind (Option.bind (get ''circuit_breaker_tripped'' 6) as_bool) (\<lambda>tripped.
       Some \<lparr>bs_total_input_tokens = input, bs_total_output_tokens = output, bs_total_cost_usd = cost,
             bs_iteration_count = iterations, bs_tool_call_count = calls, bs_consecutive_error_count = errors,
             bs_circuit_breaker_tripped = tripped\<rparr>)))))))"

definition budget_from_value :: "json \<Rightarrow> budget_state option" where
  "budget_from_value v =
     (case v of
        JObject m \<Rightarrow> read_budget (\<lambda>field _. bt_get m field)
      | JArray xs \<Rightarrow> if length xs = 7 then read_budget (\<lambda>_ i. Some (xs ! i)) else None
      | _ \<Rightarrow> None)"

definition from_snapshot_state :: "json \<Rightarrow> budget_state" where
  "from_snapshot_state state =
     (case Option.bind (json_get state ''__budget'') budget_from_value of Some b \<Rightarrow> b | None \<Rightarrow> budget_default)"

definition patch_into_snapshot_state :: "budget_state \<Rightarrow> json \<Rightarrow> json" where
  "patch_into_snapshot_state b state =
     (case state of JObject m \<Rightarrow> JObject (bt_insert ''__budget'' (budget_json b) m) | _ \<Rightarrow> state)"

definition accumulate :: "nat option \<Rightarrow> nat option \<Rightarrow> f64 option \<Rightarrow> budget_state \<Rightarrow> budget_state" where
  "accumulate input_tokens output_tokens cost_usd b =
     b\<lparr>bs_total_input_tokens := wrap_u64 (bs_total_input_tokens b + (case input_tokens of Some n \<Rightarrow> n | None \<Rightarrow> 0)),
       bs_total_output_tokens := wrap_u64 (bs_total_output_tokens b + (case output_tokens of Some n \<Rightarrow> n | None \<Rightarrow> 0)),
       bs_total_cost_usd := f64_add (bs_total_cost_usd b) (case cost_usd of Some c \<Rightarrow> c | None \<Rightarrow> Finite 0)\<rparr>"

definition record_success :: "budget_state \<Rightarrow> budget_state" where
  "record_success b = b\<lparr>bs_consecutive_error_count := 0\<rparr>"

definition record_error :: "budget_state \<Rightarrow> budget_state" where
  "record_error b = b\<lparr>bs_consecutive_error_count := wrap_u32 (bs_consecutive_error_count b + 1)\<rparr>"

section \<open>The ceilings\<close>

record budget_trip =
  btr_kind :: string
  btr_limit :: f64
  btr_current :: f64

definition token_trip :: "string \<Rightarrow> nat option \<Rightarrow> nat \<Rightarrow> budget_trip option" where
  "token_trip kind maximum current =
     Option.bind maximum (\<lambda>m. if current \<ge> m
       then Some \<lparr>btr_kind = kind, btr_limit = f64_of_int (int m), btr_current = f64_of_int (int current)\<rparr> else None)"

fun first_some :: "'a option list \<Rightarrow> 'a option" where
  "first_some [] = None"
| "first_some (Some y # ys) = Some y"
| "first_some (None # ys) = first_some ys"

definition cost_trip :: "f64 option \<Rightarrow> budget_state \<Rightarrow> budget_trip option" where
  "cost_trip cost_budget_usd b =
     Option.bind cost_budget_usd (\<lambda>m.
       if is_nan (bs_total_cost_usd b) \<or> is_nan m \<or> f64_ge (bs_total_cost_usd b) m
       then Some \<lparr>btr_kind = ''cost_usd'', btr_limit = m, btr_current = bs_total_cost_usd b\<rparr> else None)"

definition exhausted :: "token_budget_ir option \<Rightarrow> f64 option \<Rightarrow> budget_state \<Rightarrow> budget_trip option" where
  "exhausted token_budget cost_budget_usd b =
     first_some
       ((case token_budget of
           Some tb \<Rightarrow>
             [token_trip ''total_tokens'' (tbi_total_tokens tb) (total_tokens b),
              token_trip ''input_tokens'' (tbi_input_tokens tb) (bs_total_input_tokens b),
              token_trip ''output_tokens'' (tbi_output_tokens tb) (bs_total_output_tokens b)]
         | None \<Rightarrow> []) @ [cost_trip cost_budget_usd b])"

section \<open>The round trip\<close>

text \<open>The counters inside their widths and a dollar amount JSON can write.\<close>

definition budget_wf :: "budget_state \<Rightarrow> bool" where
  "budget_wf b =
     (bs_total_input_tokens b < 2 ^ 64 \<and> bs_total_output_tokens b < 2 ^ 64 \<and> (\<exists>r. bs_total_cost_usd b = Finite r) \<and>
      bs_iteration_count b < 2 ^ 32 \<and> bs_tool_call_count b < 2 ^ 32 \<and> bs_consecutive_error_count b < 2 ^ 32)"

lemma as_u32_number: "n < 2 ^ 32 \<Longrightarrow> as_u32 (JNumber (PosInt n)) = Some n"
  by (simp add: as_u32_def)

lemma budget_fields:
  "bt_get (the (as_object (budget_json b))) k =
     (if k = ''circuit_breaker_tripped'' then Some (JBool (bs_circuit_breaker_tripped b))
      else if k = ''consecutive_error_count'' then Some (JNumber (PosInt (bs_consecutive_error_count b)))
      else if k = ''tool_call_count'' then Some (JNumber (PosInt (bs_tool_call_count b)))
      else if k = ''iteration_count'' then Some (JNumber (PosInt (bs_iteration_count b)))
      else if k = ''total_cost_usd'' then Some (f64_json (bs_total_cost_usd b))
      else if k = ''total_output_tokens'' then Some (JNumber (PosInt (bs_total_output_tokens b)))
      else if k = ''total_input_tokens'' then Some (JNumber (PosInt (bs_total_input_tokens b))) else None)"
  by (simp add: budget_json_def json_object_def bt_get_insert)

lemma budget_json_object: "budget_json b = JObject (the (as_object (budget_json b)))"
  by (simp add: budget_json_def json_object_def)

text \<open>A value that has the fields of \<open>b\<close> reads as \<open>b\<close>, whatever else it has.\<close>

lemma budget_read:
  assumes "budget_wf b" and "\<And>k v. bt_get (the (as_object (budget_json b))) k = Some v \<Longrightarrow> bt_get m k = Some v"
  shows "budget_from_value (JObject m) = Some b"
proof -
  obtain r where r: "bs_total_cost_usd b = Finite r" using assms(1) by (auto simp: budget_wf_def)
  have "bt_get m k = Some v" if "bt_get (the (as_object (budget_json b))) k = Some v" for k v using assms(2) that .
  note g = this [unfolded budget_fields]
  show ?thesis using assms(1) r
    by (simp add: budget_from_value_def read_budget_def g as_u32_number budget_wf_def)
qed

lemma f64_json_finite: "f64_json x = JNull \<longleftrightarrow> (\<forall>r. x \<noteq> Finite r)"
  by (cases x) simp_all

text \<open>A merge patch that carries a budget leaves exactly that budget, because its seven members replace
  whatever members the state had; unless the dollars are written as null, which removes the member.\<close>

lemma budget_members_ordered: "bt_ordered (the (as_object (budget_json b)))"
  by (simp add: budget_json_def json_object_def)

lemma merged_budget:
  assumes "json_wf t" and "json_wf p" and "json_get p ''__budget'' = Some (budget_json b)"
  obtains old where "bt_ordered old"
    "json_get (json_merge_patch t p) ''__budget'' = Some (JObject (merge_members old (the (as_object (budget_json b)))))"
proof -
  obtain m where m: "p = JObject m" "bt_get m ''__budget'' = Some (budget_json b)" using json_get_SomeD [OF assms(3)] by blast
  define old where "old = members_of (case json_get t ''__budget'' of Some e \<Rightarrow> e | None \<Rightarrow> JNull)"
  have "json_merge_patch v (budget_json b) = JObject (merge_members (members_of v) (the (as_object (budget_json b))))" for v
    by (subst budget_json_object) (simp add: members_of_def)
  moreover have "budget_json b \<noteq> JNull" by (subst budget_json_object) simp
  moreover have "json_wf (case json_get t ''__budget'' of Some e \<Rightarrow> e | None \<Rightarrow> JNull)"
    using assms(1) by (auto split: option.split intro: json_wf_get)
  ultimately show ?thesis using merge_patch_meaning [OF assms(1), of m "''__budget''"] assms(2) m that members_of_wf
    by (auto simp: old_def)
qed

lemma budget_merged_read:
  assumes "budget_wf b" and "bt_ordered old"
  shows "budget_from_value (JObject (merge_members old (the (as_object (budget_json b))))) = Some b"
proof (rule budget_read [OF assms(1)])
  fix k v assume v: "bt_get (the (as_object (budget_json b))) k = Some v"
  have "\<not> is_null v \<and> as_object v = None" using v assms(1) by (auto simp: budget_fields is_null_def budget_wf_def split: if_splits)
  then have "json_merge_patch t v = v" for t by (cases v) (simp_all add: merge_patch_other is_null_def)
  then show "bt_get (merge_members old (the (as_object (budget_json b)))) k = Some v"
    using v \<open>\<not> is_null v \<and> as_object v = None\<close> merge_members_get [OF budget_members_ordered assms(2)] by (simp add: patched_member_def)
qed

lemma budget_survives_merge:
  assumes "json_wf t" and "json_wf p" and "budget_wf b" and "json_get p ''__budget'' = Some (budget_json b)"
  shows "from_snapshot_state (json_merge_patch t p) = b"
  by (rule merged_budget [OF assms(1,2,4)]) (simp add: from_snapshot_state_def budget_merged_read [OF assms(3)])

lemma budget_lost_in_merge:
  assumes "json_wf t" and "json_wf p" and "\<forall>r. bs_total_cost_usd b \<noteq> Finite r" and "json_get p ''__budget'' = Some (budget_json b)"
  shows "from_snapshot_state (json_merge_patch t p) = budget_default"
proof (rule merged_budget [OF assms(1,2,4)])
  fix old assume old: "bt_ordered old"
    "json_get (json_merge_patch t p) ''__budget'' = Some (JObject (merge_members old (the (as_object (budget_json b)))))"
  have "bt_get (the (as_object (budget_json b))) ''total_cost_usd'' = Some JNull"
    using assms(3) by (simp add: budget_fields f64_json_finite)
  then have "bt_get (merge_members old (the (as_object (budget_json b)))) ''total_cost_usd'' = None"
    using merge_members_get [OF budget_members_ordered old(1)] by (simp add: patched_member_def is_null_def)
  then show ?thesis using old(2) by (simp add: from_snapshot_state_def budget_from_value_def read_budget_def Option.bind_eq_None_conv)
qed

lemma budget_json_wf: "budget_wf (b\<lparr>bs_total_cost_usd := Finite 0\<rparr>) \<Longrightarrow> json_wf (budget_json b)"
  unfolding budget_json_def by (rule json_wf_object) (cases "bs_total_cost_usd b"; auto simp: budget_wf_def)

lemma budget_patch_wf:
  assumes "budget_wf (b\<lparr>bs_total_cost_usd := Finite 0\<rparr>)" and "json_wf (JObject m)"
  shows "json_wf (patch_into_snapshot_state b (JObject m))"
  using json_wf_insert [OF assms(2) budget_json_wf [OF assms(1)]] by (simp add: patch_into_snapshot_state_def)

lemma patched_get: "json_get (patch_into_snapshot_state b (JObject m)) ''__budget'' = Some (budget_json b)"
  by (simp add: patch_into_snapshot_state_def bt_get_insert)

text \<open>The counters of a turn survive the turn: written into an object patch and merged into the state, whatever
  the state held under the name before, they are read back as they were.  With any other patch they are not
  written at all.\<close>

theorem budget_roundtrip:
  assumes "budget_wf b" and "json_wf state" and "json_wf patch"
  shows "from_snapshot_state (json_merge_patch state (patch_into_snapshot_state b patch)) =
    (if as_object patch = None then from_snapshot_state (json_merge_patch state patch) else b)"
proof (cases patch)
  case (JObject m)
  have "json_wf (patch_into_snapshot_state b (JObject m))"
    using assms(1,3) JObject by (intro budget_patch_wf) (auto simp: budget_wf_def)
  then show ?thesis using budget_survives_merge [OF assms(2) _ assms(1) patched_get] JObject by simp
qed (simp_all add: patch_into_snapshot_state_def)

definition sample_budget :: budget_state where
  "sample_budget = budget_default\<lparr>bs_total_input_tokens := 100, bs_total_output_tokens := 50\<rparr>"

theorem budget_roundtrip_witness:
  "from_snapshot_state (json_merge_patch (JObject [(''__budget'', JBool True)]) (patch_into_snapshot_state sample_budget (JObject []))) = sample_budget"
  using budget_roundtrip [of sample_budget "JObject [(''__budget'', JBool True)]" "JObject []"]
  by (simp add: sample_budget_def budget_default_def budget_wf_def)

text \<open>A dollar amount that is not finite takes every counter with it: JSON writes it as null, the merge removes
  the member, and a budget with a member missing reads as one that has spent nothing.\<close>

theorem nonfinite_cost_resets_budget:
  assumes "\<forall>r. bs_total_cost_usd b \<noteq> Finite r" and "budget_wf (b\<lparr>bs_total_cost_usd := Finite 0\<rparr>)"
    and "json_wf state" and "json_wf (JObject m)"
  shows "from_snapshot_state (json_merge_patch state (patch_into_snapshot_state b (JObject m))) = budget_default"
  by (rule budget_lost_in_merge [OF assms(3) budget_patch_wf [OF assms(2,4)] assms(1) patched_get])

theorem nonfinite_cost_resets_budget_witness:
  "from_snapshot_state (json_merge_patch (JObject []) (patch_into_snapshot_state (sample_budget\<lparr>bs_total_cost_usd := NaN\<rparr>) (JObject []))) = budget_default"
  by (rule nonfinite_cost_resets_budget) (simp_all add: sample_budget_def budget_default_def budget_wf_def)

section \<open>What is refused\<close>

lemma first_some_None: "first_some ys = None \<longleftrightarrow> (\<forall>y \<in> set ys. y = None)"
  by (induction ys rule: first_some.induct) simp_all

text \<open>The ceilings a budget is held under, each with room left.\<close>

definition under_ceilings :: "token_budget_ir option \<Rightarrow> f64 option \<Rightarrow> budget_state \<Rightarrow> bool" where
  "under_ceilings token_budget cost_budget_usd b =
     (list_all (\<lambda>tb. list_all (\<lambda>m. total_tokens b < m) (case tbi_total_tokens tb of Some m \<Rightarrow> [m] | None \<Rightarrow> []) \<and>
        list_all (\<lambda>m. bs_total_input_tokens b < m) (case tbi_input_tokens tb of Some m \<Rightarrow> [m] | None \<Rightarrow> []) \<and>
        list_all (\<lambda>m. bs_total_output_tokens b < m) (case tbi_output_tokens tb of Some m \<Rightarrow> [m] | None \<Rightarrow> []))
       (case token_budget of Some tb \<Rightarrow> [tb] | None \<Rightarrow> []) \<and>
      list_all (\<lambda>m. f64_lt (bs_total_cost_usd b) m) (case cost_budget_usd of Some m \<Rightarrow> [m] | None \<Rightarrow> []))"

lemma f64_lt_iff: "f64_lt x y \<longleftrightarrow> \<not> is_nan x \<and> \<not> is_nan y \<and> \<not> f64_ge x y"
  using f64_total [of x y] f64_ge_not_lt [of x y] by (cases "x = NaN"; cases "y = NaN") (auto simp: is_nan_def)

text \<open>Another call is refused exactly when some ceiling leaves no room: with every ceiling strictly above what was
  spent nothing is refused, and a dollar amount or ceiling that is no number leaves no room.\<close>

lemma exhausted_iff: "exhausted tb cost b = None \<longleftrightarrow> under_ceilings tb cost b"
  by (auto simp: exhausted_def under_ceilings_def first_some_None token_trip_def cost_trip_def f64_lt_iff Option.bind_eq_None_conv
      split: option.splits if_splits)

end
