(* ===== verification/Artifact.thy ===== *)
theory Artifact
  imports Backend_Runs
begin

text \<open>
  Spilling large values to the artifact store (\<^verbatim>\<open>runtime/state/src/artifact.rs\<close>): a value whose JSON text is
  longer than the threshold is stored under its hash and replaced by a small reference, and a reader puts
  it back.  The JSON codec is a parameter.  Shown: what was spilled is read back at any later time, and a
  value that stayed inline is read back unless it looks like a reference itself.
\<close>

section \<open>References\<close>

definition artifact_sentinel_key :: string where "artifact_sentinel_key = ''$artifact''"

definition default_spill_threshold :: nat where "default_spill_threshold = 8 * 1024"

definition to_sentinel :: "artifact_ref \<Rightarrow> json" where
  "to_sentinel r = json_object [(artifact_sentinel_key, json_object
     [(''hash'', JString (art_hash r)), (''size'', json_nat (art_size r)), (''media_type'', opt_json JString (art_media_type r))])]"

definition is_lower_hex :: "char \<Rightarrow> bool" where
  "is_lower_hex c = (CHR ''0'' \<le> c \<and> c \<le> CHR ''9'' \<or> CHR ''a'' \<le> c \<and> c \<le> CHR ''f'')"

definition from_sentinel :: "json \<Rightarrow> artifact_ref option" where
  "from_sentinel v =
     Option.bind (Option.bind (as_object v) (\<lambda>m. bt_get m artifact_sentinel_key)) (\<lambda>inner.
     Option.bind (Option.bind (json_get inner ''hash'') as_str) (\<lambda>hash.
       if str_len hash \<noteq> 64 \<or> \<not> list_all is_lower_hex hash then None
       else Option.bind (Option.bind (json_get inner ''size'') as_u64) (\<lambda>size.
         (case json_get inner ''media_type'' of
            Some mt \<Rightarrow>
              if \<not> is_null mt \<and> as_str mt = None then None
              else Some \<lparr>art_hash = hash, art_size = size, art_media_type = as_str mt\<rparr>
          | None \<Rightarrow> Some \<lparr>art_hash = hash, art_size = size, art_media_type = None\<rparr>))))"

section \<open>Spilling and resolving\<close>

text \<open>The value of \<^verbatim>\<open>JAMJET_ARTIFACT_THRESHOLD_BYTES\<close>, when it is set, read as a 64-bit \<^verbatim>\<open>usize\<close>.\<close>

definition parse_threshold :: "string option \<Rightarrow> nat" where
  "parse_threshold val =
     (case Option.bind val (parse_unsigned u64_max) of Some n \<Rightarrow> n | None \<Rightarrow> default_spill_threshold)"

record json_codec =
  jc_to_vec :: "json \<Rightarrow> nat list"
  jc_from_slice :: "nat list \<Rightarrow> string + json"

definition spill_bytes :: "json_codec \<Rightarrow> json \<Rightarrow> nat \<Rightarrow> nat list option" where
  "spill_bytes jc v threshold = (let bytes = jc_to_vec jc v in if length bytes > threshold then Some bytes else None)"

definition resolve_ref :: "json_codec \<Rightarrow> artifact_ref \<Rightarrow> in_memory_backend \<Rightarrow> backend_error + json" where
  "resolve_ref jc r s =
     (case get_artifact (art_hash r) s of
        Some bytes \<Rightarrow> (case jc_from_slice jc bytes of Inr v \<Rightarrow> Inr v | Inl err \<Rightarrow> Inl (Serialization err))
      | None \<Rightarrow> Inl (NotFound (''artifact '' @ art_hash r @ '' not found (dangling ref)'')))"

definition resolve_inner :: "json_codec \<Rightarrow> in_memory_backend \<Rightarrow> json \<Rightarrow> backend_error + json" where
  "resolve_inner jc s v = (case from_sentinel v of Some r \<Rightarrow> resolve_ref jc r s | None \<Rightarrow> Inr v)"

fun resolve_items :: "json_codec \<Rightarrow> in_memory_backend \<Rightarrow> json list \<Rightarrow> json list \<Rightarrow> backend_error + json list" where
  "resolve_items jc s out [] = Inr out"
| "resolve_items jc s out (v # vs) = and_then (resolve_inner jc s v) (\<lambda>w. resolve_items jc s (out @ [w]) vs)"

fun resolve_members :: "json_codec \<Rightarrow> in_memory_backend \<Rightarrow> json_members \<Rightarrow> json_members \<Rightarrow> backend_error + json_members" where
  "resolve_members jc s out [] = Inr out"
| "resolve_members jc s out ((k, v) # ms) = and_then (resolve_inner jc s v) (\<lambda>w. resolve_members jc s (bt_insert k w out) ms)"

definition resolve_value :: "json_codec \<Rightarrow> json \<Rightarrow> in_memory_backend \<Rightarrow> backend_error + json" where
  "resolve_value jc v s =
     (case from_sentinel v of
        Some r \<Rightarrow> resolve_ref jc r s
      | None \<Rightarrow>
          (case v of
             JObject m \<Rightarrow> and_then (resolve_members jc s [] m) (\<lambda>out. Inr (JObject out))
           | JArray xs \<Rightarrow> and_then (resolve_items jc s [] xs) (\<lambda>out. Inr (JArray out))
           | _ \<Rightarrow> Inr v))"

section \<open>What comes back\<close>

lemma sentinel_roundtrip:
  assumes "str_len (art_hash r) = 64" and "list_all is_lower_hex (art_hash r)"
  shows "from_sentinel (to_sentinel r) = Some r"
  using assms
  by (cases "art_media_type r")
    (simp_all add: from_sentinel_def to_sentinel_def json_object_def bt_get_insert artifact_sentinel_key_def is_null_def json_nat_def)

lemma hex_digit_lower: "n < 16 \<Longrightarrow> is_lower_hex (hex_digit n)"
proof -
  assume "n < 16"
  then have "n \<in> {0, 1, 2, 3, 4, 5, 6, 7, 8, 9, 10, 11, 12, 13, 14, 15}" by (simp; presburger)
  then show ?thesis by (auto simp: hex_digit_def is_lower_hex_def less_eq_char_def)
qed

lemma hex_text:
  assumes "byte_valued x" and "length (x_sha256 x bytes) = 32"
  shows "list_all is_lower_hex (sha256_hex x bytes)" and "length (sha256_hex x bytes) = 64"
proof -
  have "\<forall>b \<in> set (x_sha256 x bytes). b < 256" using assms(1) by (simp add: byte_valued_def)
  then have "\<forall>b \<in> set (x_sha256 x bytes). b div 16 < 16 \<and> b mod 16 < 16" by auto
  then show "list_all is_lower_hex (sha256_hex x bytes)"
    by (auto simp: sha256_hex_def hex_byte_def list_all_iff intro: hex_digit_lower)
  have "length (concat (map hex_byte bs)) = 2 * length bs" for bs by (induction bs) (simp_all add: hex_byte_def)
  then show "length (sha256_hex x bytes) = 64" using assms(2) by (simp add: sha256_hex_def)
qed

lemma lower_hex_ascii: "is_lower_hex c \<Longrightarrow> of_char c < (128 :: nat)"
  by (auto simp: is_lower_hex_def less_eq_char_def)

lemma str_len_hex: "list_all is_lower_hex t \<Longrightarrow> str_len t = length t"
  by (induction t) (auto simp: str_len_def dest: lower_hex_ascii)

text \<open>A value nothing of which, itself or one level in, has the shape of a reference.\<close>

definition no_sentinel :: "json \<Rightarrow> bool" where
  "no_sentinel v =
     (from_sentinel v = None \<and>
      (case v of JObject m \<Rightarrow> list_all (\<lambda>e. from_sentinel (snd e) = None) m | JArray xs \<Rightarrow> list_all (\<lambda>w. from_sentinel w = None) xs | _ \<Rightarrow> True))"

lemma resolve_items_plain: "list_all (\<lambda>w. from_sentinel w = None) xs \<Longrightarrow> resolve_items jc s out xs = Inr (out @ xs)"
  by (induction xs arbitrary: out) (simp_all add: resolve_inner_def and_then_def)

lemma resolve_members_plain:
  "list_all (\<lambda>e. from_sentinel (snd e) = None) m \<Longrightarrow> resolve_members jc s out m = Inr (fold (\<lambda>(k, v). bt_insert k v) m out)"
proof (induction m arbitrary: out)
  case (Cons e m)
  then show ?case by (cases e) (simp add: resolve_inner_def and_then_def)
qed simp

lemma bt_rebuild_get: "bt_ordered m \<Longrightarrow> bt_get (fold (\<lambda>(k, v). bt_insert k v) m out) k = (case bt_get m k of Some v \<Rightarrow> Some v | None \<Rightarrow> bt_get out k)"
proof (induction m arbitrary: out)
  case (Cons e m)
  obtain j v where e: "e = (j, v)" by (cases e)
  have "bt_get m j = None" using Cons.prems by (auto simp: e bt_get_None)
  then show ?case using Cons by (auto simp: e bt_get_insert split: option.split)
qed simp

lemma bt_rebuild_ordered: "bt_ordered out \<Longrightarrow> bt_ordered (fold (\<lambda>(k, v). bt_insert k v) m out)"
  by (induction m arbitrary: out) auto

lemma bt_rebuild:
  assumes "bt_ordered m"
  shows "fold (\<lambda>(k, v). bt_insert k v) m [] = m"
proof (rule bt_ext [OF bt_rebuild_ordered assms])
  fix k show "bt_get (fold (\<lambda>(k, v). bt_insert k v) m []) k = bt_get m k"
    using bt_rebuild_get [OF assms] by (simp split: option.split)
qed simp

lemma resolve_plain: "json_wf v \<Longrightarrow> no_sentinel v \<Longrightarrow> resolve_value jc v s = Inr v"
  by (cases v) (simp_all add: no_sentinel_def resolve_value_def resolve_items_plain resolve_members_plain bt_rebuild and_then_def)

text \<open>What the engine writes in place of a value.\<close>

definition spilled :: "externals \<Rightarrow> json_codec \<Rightarrow> nat \<Rightarrow> json \<Rightarrow> in_memory_backend \<Rightarrow> in_memory_backend \<times> json" where
  "spilled x jc threshold v s =
     (case spill_bytes jc v threshold of
        Some bytes \<Rightarrow> (let (s, r) = put_artifact x bytes (Some ''application/json'') s in (s, to_sentinel r))
      | None \<Rightarrow> (s, v))"

text \<open>C33: What was written comes back: a value the engine replaced by a reference is resolved to itself in every later
  state, and one that stayed inline too if it does not have the shape of a reference.  The codec must read
  what it writes, digests be 32 bytes, and no earlier artifact collide with this one.\<close>

theorem spilled_value_resolves:
  assumes "backend_trace x fresh backend_new ls s" and "spilled x jc threshold v s = (s1, w)" and "backend_trace x fresh s1 ls' s'"
    and "jc_from_slice jc (jc_to_vec jc v) = Inr v" and "byte_valued x" and "length (x_sha256 x (jc_to_vec jc v)) = 32"
    and "\<forall>b m. mb_artifacts s (default_tenant, sha256_hex x (jc_to_vec jc v)) = Some (b, m) \<longrightarrow>
                 sha256_hex x b = sha256_hex x (jc_to_vec jc v) \<longrightarrow> b = jc_to_vec jc v"
    and "json_wf v" and "length (jc_to_vec jc v) \<le> threshold \<longrightarrow> no_sentinel v"
  shows "resolve_value jc w s' = Inr v"
proof (cases "length (jc_to_vec jc v) > threshold")
  case True
  obtain r where put: "put_artifact x (jc_to_vec jc v) (Some ''application/json'') s = (s1, r)" and w: "w = to_sentinel r"
    using assms(2) True by (auto simp: spilled_def spill_bytes_def Let_def split: prod.splits)
  have stored: "get_artifact (art_hash r) s' = Some (jc_to_vec jc v)" and hash: "art_hash r = sha256_hex x (jc_to_vec jc v)"
    using artifact_roundtrip [OF assms(1) put assms(3,7)] by blast+
  have "from_sentinel w = Some r"
    unfolding w using hex_text [OF assms(5,6)] by (intro sentinel_roundtrip) (simp_all add: hash str_len_hex)
  then show ?thesis using stored assms(4) by (simp add: resolve_value_def resolve_ref_def)
next
  case False
  then show ?thesis using assms(2,8,9) resolve_plain by (auto simp: spilled_def spill_bytes_def Let_def)
qed

definition sample_codec :: json_codec where
  "sample_codec = \<lparr>jc_to_vec = (\<lambda>_. replicate 32 7), jc_from_slice = (\<lambda>_. Inr (JBool True))\<rparr>"

theorem spilled_value_resolves_witness:
  "resolve_value sample_codec (snd (spilled sample_externals sample_codec 10 (JBool True) backend_new))
     (fst (spilled sample_externals sample_codec 10 (JBool True) backend_new)) = Inr (JBool True)"
  by (rule spilled_value_resolves [OF trace_nil surjective_pairing trace_nil])
    (use sample_externals_ok(2) in \<open>simp_all add: sample_codec_def backend_new_def sample_externals_def\<close>)

end
