(* ===== verification/Worker.thy ===== *)
theory Worker
  imports Node_Guard Budget Artifact
begin

text \<open>
  The worker (\<^verbatim>\<open>runtime/workers/src/worker.rs\<close>, \<^verbatim>\<open>executor.rs\<close>): one claimed work item taken through the guard,
  the budget, the idempotency key, the executor and the fenced commit.  The body of \<^verbatim>\<open>execute_item\<close> is a
  machine whose phases are the points between two calls of the backend, so that the other components can
  act between any two of them; the heartbeat task, which renews the lease, is one of those.  A check by the
  guard and the start of a segment are one step each.  What the executors answer, the clock and the codec
  are inputs.
\<close>

section \<open>Executors\<close>

record execution_result =
  er_output :: json
  er_state_patch :: json
  er_duration_ms :: nat
  er_gen_ai_system :: "string option"
  er_gen_ai_model :: "string option"
  er_input_tokens :: "nat option"
  er_output_tokens :: "nat option"
  er_finish_reason :: "string option"

datatype executor_error = RateLimited nat | Fatal string

definition max_retry_after_secs :: nat where "max_retry_after_secs = 3600"

definition reservation_ttl_ms :: nat where "reservation_ttl_ms = 300 * 1000"

definition result_poll_attempts :: nat where "result_poll_attempts = 40"

text \<open>\<^verbatim>\<open>registry\<close> is the agent registry as the guard asks it; \<^verbatim>\<open>executors\<close> says for which kinds one is
  registered.  The texts of doubles are parameters.\<close>

record worker_env =
  wk_guard :: guard_env
  wk_id :: string
  wk_queue_types :: "string list"
  wk_registry :: "(string \<Rightarrow> string + autonomy_constraints option option) option"
  wk_executors :: "string \<Rightarrow> bool"
  wk_codec :: json_codec
  wk_threshold :: nat
  wk_v5 :: "string \<Rightarrow> uuid"
  wk_show_f64 :: "f64 \<Rightarrow> string"
  wk_show_usd :: "f64 \<Rightarrow> string"

abbreviation wk_sched :: "worker_env \<Rightarrow> sched_env" where "wk_sched w \<equiv> ge_sched (wk_guard w)"

abbreviation wk_x :: "worker_env \<Rightarrow> externals" where "wk_x w \<equiv> ge_x (wk_guard w)"

abbreviation wk_fresh :: "worker_env \<Rightarrow> event_sequence \<Rightarrow> uuid" where "wk_fresh w \<equiv> se_fresh (wk_sched w)"

text \<open>What a step takes from outside: the clock, the time since the item was claimed, and what an executor
  streamed and answered.\<close>

record step_input =
  si_now :: timestamp
  si_elapsed :: nat
  si_stream :: "json list"
  si_result :: "executor_error + execution_result"

definition replayed_result :: "json \<Rightarrow> execution_result" where
  "replayed_result rec =
     \<lparr>er_output = (case json_get rec ''output'' of Some v \<Rightarrow> v | None \<Rightarrow> JObject []),
      er_state_patch = (case json_get rec ''state_patch'' of Some v \<Rightarrow> v | None \<Rightarrow> JObject []),
      er_duration_ms = (case Option.bind (json_get rec ''duration_ms'') as_u64 of Some n \<Rightarrow> n | None \<Rightarrow> 0),
      er_gen_ai_system = Option.bind (json_get rec ''gen_ai_system'') as_str,
      er_gen_ai_model = Option.bind (json_get rec ''gen_ai_model'') as_str,
      er_input_tokens = Option.bind (json_get rec ''input_tokens'') as_u64,
      er_output_tokens = Option.bind (json_get rec ''output_tokens'') as_u64,
      er_finish_reason = Option.bind (json_get rec ''finish_reason'') as_str\<rparr>"

definition parse_payload :: "json \<Rightarrow> string \<times> string" where
  "parse_payload payload =
     ((case Option.bind (json_get payload ''workflow_id'') as_str of Some t \<Rightarrow> t | None \<Rightarrow> ''unknown''),
      (case Option.bind (json_get payload ''workflow_version'') as_str of Some t \<Rightarrow> t | None \<Rightarrow> ''1.0.0''))"

definition worker_load_ir :: "worker_env \<Rightarrow> string \<Rightarrow> string \<Rightarrow> in_memory_backend \<Rightarrow> string + workflow_ir" where
  "worker_load_ir w workflow_id workflow_version s =
     (case get_workflow workflow_id workflow_version s of
        None \<Rightarrow> Inl (''workflow '' @ workflow_id @ '' v'' @ workflow_version @ '' not found'')
      | Some def \<Rightarrow> se_parse_ir (wk_sched w) (wd_ir def))"

definition load_budget_state :: "execution_id \<Rightarrow> in_memory_backend \<Rightarrow> budget_state" where
  "load_budget_state e s =
     (case latest_snapshot e s of Some snap \<Rightarrow> from_snapshot_state (sn_state snap) | None \<Rightarrow> budget_default)"

section \<open>The phases of an item\<close>

record turn =
  tu_ir :: workflow_ir
  tu_node :: node_def
  tu_budget :: budget_state
  tu_key :: string

datatype worker_phase =
    Claimed
  | Loading
  | Guarding workflow_ir node_def budget_state
  | Deciding workflow_ir node_def budget_state guard_outcome
  | Spending workflow_ir node_def budget_state
  | Keying workflow_ir node_def budget_state
  | Looking turn
  | Reserving turn nat
  | Rereading turn nat
  | Polling turn nat
  | Firing turn
  | Charging turn execution_result
  | Rolling turn
  | RollLoading turn
  | RollCarrying turn nat
  | RollSpawning turn nat materialized_state
  | RollMarking nat execution_id
  | RollSettling
  | Storing turn execution_result
  | Committing event_kind bool
  | Parking turn nat
  | Releasing turn string nat
  | NotingPark string nat
  | Ended "string + unit"

definition node_failed :: "work_item \<Rightarrow> string \<Rightarrow> event_kind" where
  "node_failed item err = NodeFailed (wi_node_id item) err (wi_attempt item) False"

definition start_node :: "worker_env \<Rightarrow> work_item \<Rightarrow> step_input \<Rightarrow> in_memory_backend \<Rightarrow> in_memory_backend \<times> worker_phase" where
  "start_node w item inp s =
     (append_next (wk_sched w) (si_now inp) (wi_execution_id item) (NodeStarted (wi_node_id item) (wk_id w) (wi_attempt item)) s, Loading)"

definition load_node :: "worker_env \<Rightarrow> work_item \<Rightarrow> in_memory_backend \<Rightarrow> in_memory_backend \<times> worker_phase" where
  "load_node w item s =
     (let (workflow_id, workflow_version) = parse_payload (wi_payload item)
      in (case worker_load_ir w workflow_id workflow_version s of
            Inl err \<Rightarrow> (s, Committing (node_failed item (''failed to load IR: '' @ err)) False)
          | Inr ir \<Rightarrow>
              (case ir_node ir (wi_node_id item) of
                 None \<Rightarrow> (s, Committing (node_failed item (''node '' @ wi_node_id item @ '' not found in IR'')) False)
               | Some nd \<Rightarrow> (s, Guarding ir nd (load_budget_state (wi_execution_id item) s)))))"

definition agent_scope_of :: "worker_env \<Rightarrow> workflow_ir \<Rightarrow> agent_scope" where
  "agent_scope_of w ir =
     \<lparr>sc_workflow_agent = ir_agent_ref ir, sc_remote_agents = Some (map_of (ir_remote_agents ir)), sc_registry = wk_registry w\<rparr>"

definition check_policy ::
    "worker_env \<Rightarrow> work_item \<Rightarrow> step_input \<Rightarrow> workflow_ir \<Rightarrow> node_def \<Rightarrow> in_memory_backend \<Rightarrow> in_memory_backend \<times> guard_outcome" where
  "check_policy w item inp ir nd s =
     guard_item (wk_guard w) Fire (si_now inp) (wi_execution_id item) (wi_node_id item) (wi_tenant_id item) (ir_policy ir) nd
       (wi_payload item) (agent_scope_of w ir) (Some (wi_id item)) s"

definition settle_outcome ::
    "work_item \<Rightarrow> workflow_ir \<Rightarrow> node_def \<Rightarrow> budget_state \<Rightarrow> guard_outcome \<Rightarrow> in_memory_backend \<Rightarrow> in_memory_backend \<times> worker_phase" where
  "settle_outcome item ir nd budget outcome s =
     (case outcome of
        GuardAllow \<Rightarrow> (s, Spending ir nd budget)
      | GuardBlocked reason \<Rightarrow> (s, Committing (node_failed item (''policy blocked: '' @ reason)) False)
      | GuardUnavailable reason \<Rightarrow> (s, Ended (Inl reason))
      | GuardHeld _ \<Rightarrow> (fst (complete_work_item_fenced (wi_id item) (wi_lease_fence item) s), Ended (Inr ())))"

section \<open>The budget\<close>

text \<open>\<^verbatim>\<open>as u64\<close> on a double: truncated, and saturated at both ends.\<close>

definition f64_as_u64 :: "f64 \<Rightarrow> nat" where
  "f64_as_u64 v = (case v of NaN \<Rightarrow> 0 | Infinite neg \<Rightarrow> if neg then 0 else u64_max | Finite r \<Rightarrow> min u64_max (nat (floor r)))"

definition check_budget_before_execution ::
    "worker_env \<Rightarrow> work_item \<Rightarrow> step_input \<Rightarrow> workflow_ir \<Rightarrow> node_def \<Rightarrow> budget_state \<Rightarrow> in_memory_backend \<Rightarrow> in_memory_backend \<times> worker_phase" where
  "check_budget_before_execution w item inp ir nd budget s =
     (case exhausted (ir_token_budget ir) (ir_cost_budget_usd ir) budget of
        None \<Rightarrow> (s, Keying ir nd budget)
      | Some trip \<Rightarrow>
          (append_next (wk_sched w) (si_now inp) (wi_execution_id item)
             (if btr_kind trip = ''cost_usd''
              then CostBudgetExceeded (wi_node_id item) (btr_limit trip) (btr_current trip)
              else TokenBudgetExceeded (wi_node_id item) (btr_kind trip) (f64_as_u64 (btr_limit trip)) (f64_as_u64 (btr_current trip))) s,
           Ended (Inl (''budget exhausted before execution: '' @ btr_kind trip @ '' '' @ wk_show_f64 w (btr_current trip) @ '' >= '' @
                       wk_show_f64 w (btr_limit trip)))))"

text \<open>The first ceiling the turn has passed, if any, as the event that records it and the error it ends with.\<close>

definition token_excess :: "node_id \<Rightarrow> string \<Rightarrow> nat option \<Rightarrow> nat \<Rightarrow> (event_kind \<times> string) option" where
  "token_excess node kind maximum current =
     Option.bind maximum (\<lambda>m. if current > m
       then Some (TokenBudgetExceeded node kind m current,
                  ''token budget exceeded: '' @ kind @ '' '' @ show_nat current @ '' > '' @ show_nat m) else None)"

definition budget_excess :: "worker_env \<Rightarrow> node_id \<Rightarrow> workflow_ir \<Rightarrow> budget_state \<Rightarrow> (event_kind \<times> string) option" where
  "budget_excess w node ir b =
     first_some
       ((case ir_token_budget ir of
           Some tb \<Rightarrow>
             [token_excess node ''total_tokens'' (tbi_total_tokens tb) (total_tokens b),
              token_excess node ''input_tokens'' (tbi_input_tokens tb) (bs_total_input_tokens b),
              token_excess node ''output_tokens'' (tbi_output_tokens tb) (bs_total_output_tokens b)]
         | None \<Rightarrow> []) @
        [Option.bind (ir_cost_budget_usd ir) (\<lambda>m. if f64_lt m (bs_total_cost_usd b)
           then Some (CostBudgetExceeded node m (bs_total_cost_usd b),
                      ''cost budget exceeded: $'' @ wk_show_usd w (bs_total_cost_usd b) @ '' > $'' @ wk_show_usd w m) else None)])"

definition check_budget_after_execution ::
    "worker_env \<Rightarrow> work_item \<Rightarrow> step_input \<Rightarrow> turn \<Rightarrow> execution_result \<Rightarrow> in_memory_backend \<Rightarrow> in_memory_backend \<times> worker_phase" where
  "check_budget_after_execution w item inp t r s =
     (let budget = accumulate (er_input_tokens r) (er_output_tokens r) None (tu_budget t);
          r = r\<lparr>er_state_patch := patch_into_snapshot_state budget (er_state_patch r)\<rparr>
      in (case budget_excess w (wi_node_id item) (tu_ir t) budget of
            None \<Rightarrow> (s, Storing t r)
          | Some (kind, err) \<Rightarrow>
              (append_next (wk_sched w) (si_now inp) (wi_execution_id item) kind s,
               if ir_continue_as_new (tu_ir t) then Rolling t else Ended (Inl err))))"

section \<open>The key and the executor\<close>

definition reserve_key :: "worker_env \<Rightarrow> work_item \<Rightarrow> step_input \<Rightarrow> turn \<Rightarrow> nat \<Rightarrow> in_memory_backend \<Rightarrow> in_memory_backend \<times> worker_phase" where
  "reserve_key w item inp t attempt s =
     (case reserve_tool_effect (wk_x w) (si_now inp) (tu_key t) (wk_id w) (wi_lease_fence item) reservation_ttl_ms s of
        (s, Acquired) \<Rightarrow> (s, Firing t)
      | (s, Held _ _) \<Rightarrow> (s, Rereading t attempt))"

definition reread_effect :: "turn \<Rightarrow> nat \<Rightarrow> in_memory_backend \<Rightarrow> in_memory_backend \<times> worker_phase" where
  "reread_effect t attempt s =
     (case get_tool_effect (tu_key t) s of
        Some rec \<Rightarrow> (s, Charging t (replayed_result rec))
      | None \<Rightarrow> (s, if attempt = 0 then Reserving t 1 else Polling t result_poll_attempts))"

definition poll_effect :: "turn \<Rightarrow> nat \<Rightarrow> in_memory_backend \<Rightarrow> in_memory_backend \<times> worker_phase" where
  "poll_effect t left s =
     (case left of
        0 \<Rightarrow> (s, Ended (Inl (''idempotency key '' @ tu_key t @
               '' is held by another worker and no result appeared; retrying rather than running the effect twice'')))
      | Suc n \<Rightarrow> (case get_tool_effect (tu_key t) s of
                    Some rec \<Rightarrow> (s, Charging t (replayed_result rec))
                  | None \<Rightarrow> (s, Polling t n)))"

fun receive_stream :: "timestamp \<Rightarrow> execution_id \<Rightarrow> json list \<Rightarrow> in_memory_backend \<Rightarrow> in_memory_backend \<times> (string + unit)" where
  "receive_stream now e [] s = (s, Inr ())"
| "receive_stream now e (v # vs) s =
     (case patch_append_array now e ''agent_tool_events'' v s of
        (s, Inr _) \<Rightarrow> receive_stream now e vs s
      | (s, Inl err) \<Rightarrow> (s, Inl (''patch_append_array failed: '' @ backend_error_text err)))"

definition stub_result :: "nat \<Rightarrow> execution_result" where
  "stub_result elapsed =
     \<lparr>er_output = JObject [], er_state_patch = JObject [], er_duration_ms = elapsed, er_gen_ai_system = None, er_gen_ai_model = None,
      er_input_tokens = None, er_output_tokens = None, er_finish_reason = None\<rparr>"

definition call_executor ::
    "worker_env \<Rightarrow> work_item \<Rightarrow> step_input \<Rightarrow> node_def \<Rightarrow> in_memory_backend \<Rightarrow> in_memory_backend \<times> (executor_error + execution_result)" where
  "call_executor w item inp nd s =
     (let tag = node_kind_tag (nd_kind nd)
      in if \<not> wk_executors w tag then (s, Inr (stub_result (si_elapsed inp)))
         else if tag = ''agent_tool''
         then (case receive_stream (si_now inp) (wi_execution_id item) (si_stream inp) s of
                 (s, Inl err) \<Rightarrow> (s, Inl (Fatal err))
               | (s, Inr _) \<Rightarrow> (s, si_result inp))
         else (s, si_result inp))"

definition fire :: "worker_env \<Rightarrow> work_item \<Rightarrow> step_input \<Rightarrow> turn \<Rightarrow> in_memory_backend \<Rightarrow> in_memory_backend \<times> worker_phase" where
  "fire w item inp t s =
     (case call_executor w item inp (tu_node t) s of
        (s, Inr r) \<Rightarrow> (s, Charging t r)
      | (s, Inl (Fatal msg)) \<Rightarrow> (s, Committing (node_failed item msg) False)
      | (s, Inl (RateLimited secs)) \<Rightarrow>
          (s, if wrap_u32 (wi_attempt item + 1) \<ge> wi_max_attempts item
              then Committing (node_failed item (''rate limited: exhausted '' @ show_nat (wi_max_attempts item) @ '' attempts'')) False
              else Parking t (min secs max_retry_after_secs)))"

section \<open>Settling the item\<close>

definition store_output :: "worker_env \<Rightarrow> work_item \<Rightarrow> step_input \<Rightarrow> turn \<Rightarrow> execution_result \<Rightarrow> in_memory_backend \<Rightarrow> in_memory_backend \<times> worker_phase" where
  "store_output w item inp t r s =
     (let (s, event_output) = spilled (wk_x w) (wk_codec w) (wk_threshold w) (er_output r) s
      in (s, Committing (NodeCompleted
            \<lparr>nc_node_id = wi_node_id item, nc_output = event_output, nc_state_patch = er_state_patch r, nc_duration_ms = si_elapsed inp,
             nc_gen_ai_system = er_gen_ai_system r, nc_gen_ai_model = er_gen_ai_model r, nc_input_tokens = er_input_tokens r,
             nc_output_tokens = er_output_tokens r, nc_finish_reason = er_finish_reason r, nc_cost_usd = None, nc_provenance = None,
             nc_idempotency_key = Some (tu_key t)\<rparr>) True))"

definition commit_item ::
    "worker_env \<Rightarrow> work_item \<Rightarrow> step_input \<Rightarrow> event_kind \<Rightarrow> bool \<Rightarrow> in_memory_backend \<Rightarrow> in_memory_backend \<times> worker_phase" where
  "commit_item w item inp kind do_snapshot s =
     (case commit_turn (wk_fresh w) (si_now inp) (wi_id item) (wi_lease_fence item)
             (event_new (wk_fresh w (mb_next_sequence s)) (si_now inp) (wi_execution_id item) 0 kind) do_snapshot s of
        (s, Inr _) \<Rightarrow> (s, Ended (Inr ()))
      | (s, Inl (FenceLost _)) \<Rightarrow> (s, Ended (Inr ()))
      | (s, Inl err) \<Rightarrow> (s, Ended (Inl (backend_error_text err))))"

definition park_item :: "worker_env \<Rightarrow> work_item \<Rightarrow> step_input \<Rightarrow> turn \<Rightarrow> nat \<Rightarrow> in_memory_backend \<Rightarrow> in_memory_backend \<times> worker_phase" where
  "park_item w item inp t secs s =
     (let next_attempt = wrap_u32 (wi_attempt item + 1);
          retry_after = x_to_rfc3339 (wk_x w) (si_now inp + int secs * 1000)
      in (case park_work_item (wi_id item) (wi_lease_fence item) next_attempt s of
            (s, True) \<Rightarrow> (s, Releasing t retry_after next_attempt)
          | (s, False) \<Rightarrow> (s, Ended (Inr ()))))"

definition note_park :: "worker_env \<Rightarrow> work_item \<Rightarrow> step_input \<Rightarrow> string \<Rightarrow> nat \<Rightarrow> in_memory_backend \<Rightarrow> in_memory_backend \<times> worker_phase" where
  "note_park w item inp retry_after next_attempt s =
     (append_next (wk_sched w) (si_now inp) (wi_execution_id item) (NodeParked (wi_node_id item) next_attempt retry_after) s, Ended (Inr ()))"

section \<open>Continuing as a new segment\<close>

definition is_boundary :: "event \<Rightarrow> bool" where
  "is_boundary ev = (case ev_kind ev of SegmentBoundary _ _ \<Rightarrow> True | _ \<Rightarrow> False)"

definition roll_guard :: "work_item \<Rightarrow> turn \<Rightarrow> in_memory_backend \<Rightarrow> in_memory_backend \<times> worker_phase" where
  "roll_guard item t s = (s, if list_ex is_boundary (get_events (wi_execution_id item) s) then RollSettling else RollLoading t)"

definition roll_load :: "work_item \<Rightarrow> turn \<Rightarrow> in_memory_backend \<Rightarrow> in_memory_backend \<times> worker_phase" where
  "roll_load item t s =
     (case get_execution (wi_execution_id item) s of
        None \<Rightarrow> (s, Ended (Inl (''execution '' @ exec_label (wi_execution_id item) @ '' not found for rollover'')))
      | Some ex \<Rightarrow> (s, if is_terminal (we_status ex) then RollSettling else RollCarrying t (wrap_u32 (we_segment_number ex + 1))))"

definition roll_carry :: "work_item \<Rightarrow> turn \<Rightarrow> nat \<Rightarrow> in_memory_backend \<Rightarrow> in_memory_backend \<times> worker_phase" where
  "roll_carry item t next_seg s =
     (case materialize (wi_execution_id item) s of
        Inl err \<Rightarrow> (s, Ended (Inl (backend_error_text err)))
      | Inr mat \<Rightarrow> (s, RollSpawning t next_seg mat))"

definition roll_spec :: "work_item \<Rightarrow> turn \<Rightarrow> segment_spec" where
  "roll_spec item t =
     (let (workflow_id, workflow_version) = parse_payload (wi_payload item)
      in \<lparr>sg_workflow_id = workflow_id, sg_workflow_version = workflow_version, sg_start_node_id = ir_start_node (tu_ir t),
          sg_queue_type = wi_queue_type item, sg_tenant_id = wi_tenant_id item\<rparr>)"

definition roll_spawn ::
    "worker_env \<Rightarrow> work_item \<Rightarrow> step_input \<Rightarrow> turn \<Rightarrow> nat \<Rightarrow> materialized_state \<Rightarrow> in_memory_backend \<Rightarrow> in_memory_backend \<times> worker_phase" where
  "roll_spawn w item inp t next_seg mat s =
     (let (s, next_id) = start_next_segment (wk_v5 w) (wk_fresh w) (si_now inp) (wk_fresh w (mb_next_sequence s))
            (se_item_id (wk_sched w) (mb_next_sequence s)) (wi_execution_id item) mat (roll_spec item t) next_seg s
      in (s, RollMarking next_seg next_id))"

definition roll_mark :: "worker_env \<Rightarrow> work_item \<Rightarrow> step_input \<Rightarrow> nat \<Rightarrow> execution_id \<Rightarrow> in_memory_backend \<Rightarrow> in_memory_backend \<times> worker_phase" where
  "roll_mark w item inp next_seg next_id s =
     (append_next (wk_sched w) (si_now inp) (wi_execution_id item) (SegmentBoundary next_seg (exec_label next_id)) s, RollSettling)"

definition roll_settle :: "work_item \<Rightarrow> step_input \<Rightarrow> in_memory_backend \<Rightarrow> in_memory_backend \<times> worker_phase" where
  "roll_settle item inp s =
     (fst (finalize_rollover_fenced (si_now inp) (wi_execution_id item) (wi_id item) (wi_lease_fence item) s), Ended (Inr ()))"

section \<open>The step of a worker\<close>

fun worker_step :: "worker_env \<Rightarrow> work_item \<Rightarrow> step_input \<Rightarrow> worker_phase \<Rightarrow> in_memory_backend \<Rightarrow> in_memory_backend \<times> worker_phase" where
  "worker_step w item inp Claimed s = start_node w item inp s"
| "worker_step w item inp Loading s = load_node w item s"
| "worker_step w item inp (Guarding ir nd b) s =
     (let (s, outcome) = check_policy w item inp ir nd s in (s, Deciding ir nd b outcome))"
| "worker_step w item inp (Deciding ir nd b outcome) s = settle_outcome item ir nd b outcome s"
| "worker_step w item inp (Spending ir nd b) s = check_budget_before_execution w item inp ir nd b s"
| "worker_step w item inp (Keying ir nd b) s =
     (s, Looking \<lparr>tu_ir = ir, tu_node = nd, tu_budget = b,
                  tu_key = derive_idempotency_key (wk_x w) (wi_execution_id item) (wi_node_id item) s\<rparr>)"
| "worker_step w item inp (Looking t) s =
     (case get_tool_effect (tu_key t) s of
        Some rec \<Rightarrow> (s, Charging t (replayed_result rec))
      | None \<Rightarrow> (s, Reserving t 0))"
| "worker_step w item inp (Reserving t n) s = reserve_key w item inp t n s"
| "worker_step w item inp (Rereading t n) s = reread_effect t n s"
| "worker_step w item inp (Polling t n) s = poll_effect t n s"
| "worker_step w item inp (Firing t) s = fire w item inp t s"
| "worker_step w item inp (Charging t r) s = check_budget_after_execution w item inp t r s"
| "worker_step w item inp (Rolling t) s = roll_guard item t s"
| "worker_step w item inp (RollLoading t) s = roll_load item t s"
| "worker_step w item inp (RollCarrying t n) s = roll_carry item t n s"
| "worker_step w item inp (RollSpawning t n mat) s = roll_spawn w item inp t n mat s"
| "worker_step w item inp (RollMarking n next_id) s = roll_mark w item inp n next_id s"
| "worker_step w item inp RollSettling s = roll_settle item inp s"
| "worker_step w item inp (Storing t r) s = store_output w item inp t r s"
| "worker_step w item inp (Committing kind snap) s = commit_item w item inp kind snap s"
| "worker_step w item inp (Parking t secs) s = park_item w item inp t secs s"
| "worker_step w item inp (Releasing t retry_after n) s =
     (release_tool_reservation (tu_key t) (wk_id w) (wi_lease_fence item) s, NotingPark retry_after n)"
| "worker_step w item inp (NotingPark retry_after n) s = note_park w item inp retry_after n s"
| "worker_step w item inp (Ended r) s = (s, Ended r)"

text \<open>The loop of \<^verbatim>\<open>execute_item\<close> ends because every step goes down in this rank.\<close>

fun phase_rank :: "worker_phase \<Rightarrow> nat" where
  "phase_rank Claimed = 59"
| "phase_rank Loading = 58"
| "phase_rank (Guarding _ _ _) = 57"
| "phase_rank (Deciding _ _ _ _) = 56"
| "phase_rank (Spending _ _ _) = 55"
| "phase_rank (Keying _ _ _) = 54"
| "phase_rank (Looking _) = 53"
| "phase_rank (Reserving _ n) = (if n = 0 then 52 else 50)"
| "phase_rank (Rereading _ n) = (if n = 0 then 51 else 49)"
| "phase_rank (Polling _ n) = 8 + n"
| "phase_rank (Firing _) = 8"
| "phase_rank (Charging _ _) = 7"
| "phase_rank (Rolling _) = 6"
| "phase_rank (RollLoading _) = 5"
| "phase_rank (RollCarrying _ _) = 4"
| "phase_rank (RollSpawning _ _ _) = 3"
| "phase_rank (RollMarking _ _) = 2"
| "phase_rank RollSettling = 1"
| "phase_rank (Storing _ _) = 2"
| "phase_rank (Committing _ _) = 1"
| "phase_rank (Parking _ _) = 3"
| "phase_rank (Releasing _ _ _) = 2"
| "phase_rank (NotingPark _ _) = 1"
| "phase_rank (Ended _) = 0"

definition ended :: "worker_phase \<Rightarrow> bool" where
  "ended ph = (case ph of Ended _ \<Rightarrow> True | _ \<Rightarrow> False)"

lemmas settle_defs = settle_outcome_def check_budget_before_execution_def check_budget_after_execution_def store_output_def commit_item_def
  park_item_def note_park_def
lemmas key_defs = reserve_key_def reread_effect_def poll_effect_def fire_def
lemmas roll_defs = roll_guard_def roll_load_def roll_carry_def roll_spawn_def roll_mark_def roll_settle_def

lemma worker_step_rank: "\<not> ended ph \<Longrightarrow> worker_step w item inp ph s = (s', ph') \<Longrightarrow> phase_rank ph' < phase_rank ph"
  by (cases ph)
    (auto simp: ended_def start_node_def load_node_def settle_defs key_defs roll_defs result_poll_attempts_def Let_def split_beta
      split: prod.splits sum.splits option.splits guard_outcome.splits reserve_outcome.splits executor_error.splits backend_error.splits
        bool.splits nat.splits if_splits)

function run_item :: "worker_env \<Rightarrow> work_item \<Rightarrow> (nat \<Rightarrow> step_input) \<Rightarrow> nat \<Rightarrow> worker_phase \<Rightarrow> in_memory_backend \<Rightarrow> in_memory_backend \<times> worker_phase" where
  "run_item w item inputs k ph s =
     (if ended ph then (s, ph)
      else run_item w item inputs (Suc k) (snd (worker_step w item (inputs k) ph s)) (fst (worker_step w item (inputs k) ph s)))"
  by pat_completeness auto

termination
  by (relation "measure (\<lambda>(w, item, inputs, k, ph, s). phase_rank ph)") (auto intro: worker_step_rank simp: prod_eq_iff)

declare run_item.simps [simp del]

text \<open>One iteration of the loop of a worker, with no other component acting meanwhile; \<open>Inr False\<close> when there was
  nothing to claim.\<close>

definition poll_and_execute ::
    "worker_env \<Rightarrow> timestamp \<Rightarrow> (nat \<Rightarrow> step_input) \<Rightarrow> in_memory_backend \<Rightarrow> in_memory_backend \<times> (string + bool)" where
  "poll_and_execute w now inputs s =
     (case claim_work_item (wk_fresh w) now (se_item_order (wk_sched w)) (wk_id w) (wk_queue_types w) s of
        (s, None) \<Rightarrow> (s, Inr False)
      | (s, Some item) \<Rightarrow>
          (case run_item w item inputs 0 Claimed s of
             (s, Ended (Inl err)) \<Rightarrow> (s, Inl err)
           | (s, _) \<Rightarrow> (s, Inr True)))"

end
