(* ===== verification/Guard_Writes.thy ===== *)
theory Guard_Writes
  imports Node_Guard Backend_Fences
begin

text \<open>
  What the guard does to the store: a bounded number of appends to logs, plain or conditional, and nothing
  else.  A bounded sequence of appends is a run of the backend, so every result about stores that the
  backend can reach holds for stores on which guards act.
\<close>

section \<open>Bounded appends\<close>

inductive writes :: "nat \<Rightarrow> in_memory_backend \<Rightarrow> in_memory_backend \<Rightarrow> bool" where
  writes_none: "writes n s s"
| writes_append: "writes n (fst (append_event ev s)) s' \<Longrightarrow> writes (Suc n) s s'"
| writes_append_if: "writes n (fst (append_event_if ev cond s)) s' \<Longrightarrow> writes (Suc n) s s'"

declare writes_none [simp, intro]

lemma writes_mono: "writes n s s' \<Longrightarrow> n \<le> m \<Longrightarrow> writes m s s'"
proof (induction arbitrary: m rule: writes.induct)
  case (writes_append n ev s s')
  then show ?case by (cases m) (auto intro: writes.intros)
next
  case (writes_append_if n ev cond s s')
  then show ?case by (cases m) (auto intro: writes.intros)
qed simp

lemma writes_trans: "writes n s t \<Longrightarrow> writes m t u \<Longrightarrow> writes (n + m) s u"
proof (induction rule: writes.induct)
  case (writes_none n s)
  then show ?case by (rule writes_mono) simp
qed (auto intro: writes.intros)

lemma writes_seq: "writes n s t \<Longrightarrow> writes m t u \<Longrightarrow> n + m \<le> k \<Longrightarrow> writes k s u"
  using writes_trans writes_mono by blast

lemma writes_one [intro]:
  "0 < n \<Longrightarrow> writes n s (fst (append_event ev s))" "0 < n \<Longrightarrow> writes n s (fst (append_event_if ev cond s))"
  by (cases n; auto intro: writes.intros)+

lemma writes_snoc:
  "writes n s t \<Longrightarrow> Suc n \<le> m \<Longrightarrow> writes m s (fst (append_event ev t))"
  "writes n s t \<Longrightarrow> Suc n \<le> m \<Longrightarrow> writes m s (fst (append_event_if ev cond t))"
  using writes_mono [OF writes_trans [OF _ writes_one(1) [of 1]], of n s t m]
    writes_mono [OF writes_trans [OF _ writes_one(2) [of 1]], of n s t m] by simp_all

named_theorems written \<open>how many appends a component makes\<close>

lemma append_if_next:
  "fst (append_event_if ev cond s) = s \<or> fst (append_event_if ev cond s) = fst (push_event ev s) \<or>
   fst (append_event_if ev cond s) = s\<lparr>mb_events := (mb_events s)(ev_execution_id ev \<mapsto> log_of s (ev_execution_id ev))\<rparr>"
  by (auto simp: append_event_if_def split_beta Let_def split: option.splits)

lemma push_in_range:
  assumes "in_range s" and "0 < mb_next_sequence s" and "mb_next_sequence s + 1 < 2 ^ 62"
  shows "in_range (fst (push_event ev s))" and "mb_next_sequence (fst (push_event ev s)) = mb_next_sequence s + 1"
proof -
  show "mb_next_sequence (fst (push_event ev s)) = mb_next_sequence s + 1"
    using assms(2,3) wrap_next [of "mb_next_sequence s"] by (simp add: push_event_def Let_def)
  then show "in_range (fst (push_event ev s))" using assms by (simp add: in_range_def epoch_of_def push_event_frame)
qed

lemma trace_append: "backend_trace x fresh t ls' u \<Longrightarrow> backend_trace x fresh s ls t \<Longrightarrow> backend_trace x fresh s (ls @ ls') u"
  by (induction rule: backend_trace.induct) (auto intro: trace_snoc simp flip: append_assoc)

lemma trace_one: "backend_step x fresh s l t \<Longrightarrow> backend_trace x fresh s [l] t"
  using trace_snoc [OF trace_nil] by fastforce

lemma trace_Cons: "backend_step x fresh s l t \<Longrightarrow> backend_trace x fresh t ls u \<Longrightarrow> backend_trace x fresh s (l # ls) u"
  using trace_append [OF _ trace_one] by fastforce

text \<open>Appends are steps of the backend, as long as the counter has room for them.\<close>

lemma writes_trace:
  assumes "writes n s s'" and "in_range s" and "0 < mb_next_sequence s" and "mb_next_sequence s + int n < 2 ^ 62"
  shows "\<exists>k \<le> n. backend_trace x fresh s (replicate k None) s'"
  using assms
proof (induction rule: writes.induct)
  case (writes_none n s)
  have "backend_trace x fresh s (replicate 0 None) s" by (simp add: trace_nil)
  then show ?case by blast
next
  case (writes_append n ev s s')
  let ?t = "fst (append_event ev s)"
  have t: "in_range ?t" "mb_next_sequence ?t = mb_next_sequence s + 1"
    using push_in_range [of s ev] writes_append.prems by (simp_all add: append_event_fst)
  then obtain k where k: "k \<le> n" "backend_trace x fresh ?t (replicate k None) s'" using writes_append by auto
  have "backend_step x fresh s None ?t" using writes_append.prems by (simp add: backend_step_def op_append)
  then have "backend_trace x fresh s (None # replicate k None) s'" using k(2) by (rule trace_Cons)
  then show ?case using k(1) by (intro exI [of _ "Suc k"]) simp
next
  case (writes_append_if n ev cond s s')
  let ?t = "fst (append_event_if ev cond s)"
  have t: "in_range ?t" "mb_next_sequence s \<le> mb_next_sequence ?t" "mb_next_sequence ?t \<le> mb_next_sequence s + 1"
    using append_if_next [of ev cond s] push_in_range [of s ev] writes_append_if.prems by (auto simp: in_range_def epoch_of_def)
  then obtain k where k: "k \<le> n" "backend_trace x fresh ?t (replicate k None) s'" using writes_append_if by auto
  have "backend_step x fresh s None ?t" using writes_append_if.prems by (simp add: backend_step_def op_append_if)
  then have "backend_trace x fresh s (None # replicate k None) s'" using k(2) by (rule trace_Cons)
  then show ?case using k(1) by (intro exI [of _ "Suc k"]) simp
qed

section \<open>The guard\<close>

lemma violation_writes [written]: "0 < n \<Longrightarrow> writes n s (record_policy_violation g now e node rule scope s)"
  by (auto simp: record_policy_violation_def)

lemma stop_writes [written]: "writes 2 s (record_stop env now e node agent decision esc s)"
  by (cases decision; cases esc) (auto simp: record_stop_def append_kind_def intro!: writes_snoc [of 1] writes_one)

lemma seal_writes [written]: "writes 1 s (seal_appended env now ev q tenant s)"
  by (auto simp: seal_appended_def record_seal_gap_def split: option.split)

lemma request_writes [written]: "writes 2 s (record_request g now e kind tenant s)"
  unfolding record_request_def split_beta Let_def fst_conv snd_conv by (rule writes_seq [OF writes_one(1) seal_writes, of 1]) simp_all

lemma tenant_writes [written]: "writes 1 s (fst (unparseable_tenant_policy g b now e node tenant s))"
  by (auto simp: unparseable_tenant_policy_def Let_def split: option.split sum.split intro: violation_writes)

lemma deadline_writes [written]: "writes 1 s (fst (deadline_or_block g now e node sets s))"
  by (auto simp: deadline_or_block_def Let_def split: sum.split intro: violation_writes)

lemma plan_step_writes [written]: "writes 2 s (fst (plan_step env now e node agents calls s))"
  by (auto simp: plan_step_def split: sum.split option.split prod.split on_limit_exceeded.split intro: stop_writes)

lemma plan_node_writes [written]: "writes 2 s (fst (plan_node g mode now e node nd payload item agents s))"
  using plan_step_writes [of s "ge_sched g" now e node agents]
  by (auto simp: plan_node_def split: guard_mode.split sum.split prod.split) (metis fst_conv)+

lemma agent_card_writes [written]: "writes 1 s (fst (agent_card g mode now e node nd payload scope s))"
  by (auto simp: agent_card_def Let_def split: list.split option.split sum.split card_refusal.split intro: violation_writes)

lemma require_approval_writes [written]: "writes 2 s (fst (require_approval g now e node nd payload tool approver ctx deadline tenant esc s))"
  by (auto simp: require_approval_def Let_def split: node_approval_status.split sum.split intro: request_writes)

lemma node_approval_writes [written]: "writes 3 s (fst (node_approval g mode now e node tenant nd payload gate es sets approver s))"
proof -
  have "writes 3 s (fst (require_approval g now e node nd payload tool approver ctx d tenant esc t))"
    if "writes 1 s t" for t tool ctx d esc by (rule writes_seq [OF that require_approval_writes]) simp
  then show ?thesis using deadline_writes [of s g now e node sets]
    by (auto simp: node_approval_def Let_def split: guard_mode.split prod.split sum.split intro: writes_mono)
qed

lemma dispatch_approval_writes [written]: "writes 3 s (fst (dispatch_approval g mode now e node tenant ts ws nd approver gated calls s))"
proof -
  have "writes 3 s (record_request g now e kind tenant t)" if "writes 1 s t" for t kind
    by (rule writes_seq [OF that request_writes]) simp
  then show ?thesis using deadline_writes [of s g now e node "policy_chain ts ws (nd_policy nd)"]
    by (auto simp: dispatch_approval_def Let_def split: node_approval_status.split prod.split sum.split
        intro: writes_mono violation_writes)
qed

lemma guard_dispatch_writes [written]: "writes 4 s (fst (guard_dispatch_in g mode now e node tenant ws nd input ap gated s))"
proof -
  obtain t r where t: "unparseable_tenant_policy g (mode = Fire) now e node tenant s = (t, r)" by fastforce
  then have w: "writes 1 s t" using tenant_writes [of s g "mode = Fire" now e node tenant] by simp
  have 1: "writes 4 s u" if "writes 3 t u" for u by (rule writes_seq [OF w that]) simp
  have 2: "writes 3 t (record_policy_violation g now e node rule sc t)" for rule sc by (rule violation_writes) simp
  show ?thesis using t 1 [OF 2] 1 [OF dispatch_approval_writes] writes_mono [OF w]
    by (auto simp: guard_dispatch_in_def Let_def split: sum.split dispatch_decision.split)
qed

lemma guard_policy_writes [written]: "writes 8 s (fst (guard_policy g mode now e node tenant ws nd payload gate es s))"
proof -
  obtain t r where t: "unparseable_tenant_policy g (mode = Fire) now e node tenant s = (t, r)" by fastforce
  then have w: "writes 1 s t" using tenant_writes [of s g "mode = Fire" now e node tenant] by simp
  have 1: "writes 8 s u" if "writes 7 t u" for u by (rule writes_seq [OF w that]) simp
  have 2: "writes 7 t (fst (guard_dispatch_in g mode now e node tenant ws nd input ap gated t))" for input ap gated
    by (rule writes_mono [OF guard_dispatch_writes]) simp
  have 3: "writes 7 t (fst (guard_dispatch_in g mode now e node tenant ws nd input ap gated u))" if "writes 3 t u" for u input ap gated
    by (rule writes_seq [OF that guard_dispatch_writes]) simp
  have 4: "writes 7 t (record_policy_violation g now e node rule sc t)" for rule sc by (rule violation_writes) simp
  have 5: "writes 8 s t" using writes_mono [OF w] by simp
  show ?thesis
  proof (cases r)
    case (Inr ts)
    define ctx where "ctx = from_node_kind node (nd_kind nd)"
    define sets where "sets = policy_chain ts ws (nd_policy nd)"
    show ?thesis
    proof (cases "node_decision ctx sets gate es")
      case (RequireApproval approver)
      obtain u out where u: "node_approval g mode now e node tenant nd payload gate es sets approver t = (u, out)" by fastforce
      then have wu: "writes 3 t u" using node_approval_writes [of t g mode now e node tenant nd payload gate es sets approver] by simp
      have "writes 8 s u" using 1 [OF writes_mono [OF wu]] by simp
      then show ?thesis
        using t Inr RequireApproval u 1 [OF 3 [OF wu]] by (auto simp: guard_policy_def Let_def ctx_def [symmetric] sets_def [symmetric])
    qed (use t Inr 1 [OF 2] 1 [OF 4] 5 in \<open>auto simp: guard_policy_def Let_def ctx_def [symmetric] sets_def [symmetric]\<close>)
  qed (use t 5 in \<open>simp add: guard_policy_def\<close>)
qed

lemma admit_writes [written]: "writes 1 s (fst (admit env now e node item plan s))"
proof -
  have "fst (admit_append env now e node item plan q s) =
      fst (append_event_if (event_new (se_fresh env (mb_next_sequence s)) now e 0 (admitted_kind node item plan q)) (still_allowed (se_x env) node plan q) s)" for q
    by (auto simp: admit_append_def split: prod.split sum.split conditional_append.split)
  then show ?thesis by (auto simp: admit_def split: option.split)
qed

lemma escalation_writes [written]: "writes 2 s (record_escalation g now e node es before outcome s)"
  by (auto simp: record_escalation_def intro: stop_writes)

text \<open>A check by the guard makes at most fourteen appends and changes nothing else.\<close>

lemma guard_item_writes: "writes 14 s (fst (guard_item g mode now e node tenant ws nd payload scope item s))"
proof -
  obtain s1 c where c: "agent_card g mode now e node nd payload scope s = (s1, c)" by fastforce
  then have w1: "writes 1 s s1" using agent_card_writes [of s g mode now e node nd payload scope] by simp
  show ?thesis
  proof (cases "\<exists>gate called. c = Inr gate \<and> callee scope (nd_kind nd) = Inr called")
    case False
    then show ?thesis using c w1 by (auto simp: guard_item_def split: sum.split intro: writes_mono)
  next
    case True
    then obtain gate called where gate: "c = Inr gate" "callee scope (nd_kind nd) = Inr called" by blast
    obtain s2 p where p: "plan_node g mode now e node nd payload item (agents_of_node (cg_agents gate) called) s1 = (s2, p)" by fastforce
    have w2: "writes 3 s s2"
      using writes_seq [OF w1 plan_node_writes, of 3 g mode now e node nd payload item "agents_of_node (cg_agents gate) called"] p by simp
    show ?thesis
    proof (cases p)
      case (Inl refused)
      then show ?thesis using c gate p w2 by (auto simp: guard_item_def intro: writes_mono)
    next
      case (Inr plan)
      define es where "es = Option.bind plan pl_escalation"
      obtain s3 out where o: "guard_policy g mode now e node tenant ws nd payload gate es s2 = (s3, out)" by fastforce
      have w3: "writes 11 s s3"
        using writes_seq [OF w2 guard_policy_writes, of 11 g mode now e node tenant ws nd payload gate es] o by simp
      define s4 where "s4 = (case es of Some es \<Rightarrow> record_escalation g now e node es (latest_sequence e s2) out s3 | None \<Rightarrow> s3)"
      have w4: "writes 13 s s4"
        using writes_seq [OF w3 escalation_writes, of 13] writes_mono [OF w3] by (auto simp: s4_def split: option.split)
      have "fst (guard_item g mode now e node tenant ws nd payload scope item s) =
          (case (out, plan) of (GuardAllow, Some plan) \<Rightarrow> fst (admit (ge_sched g) now e node item plan s4) | _ \<Rightarrow> s4)"
        using c gate p Inr o by (auto simp: guard_item_def Let_def es_def s4_def split: guard_outcome.split option.split)
      then show ?thesis using writes_seq [OF w4 admit_writes, of 14] writes_mono [OF w4]
        by (auto split: guard_outcome.split option.split)
    qed
  qed
qed

end
