(* ===== verification/Worker_Runs.thy ===== *)
theory Worker_Runs
  imports Worker Guard_Writes
begin

text \<open>
  Workers among the other components: a run of one worker on one item takes the steps of \<open>Worker\<close>, and
  between any two of them the backend may do anything, for other workers, the scheduler, the API or the
  heartbeat.  Every such run is a run of the backend (so its invariants hold), it ends after at most 59 steps of
  its own, an executor is called only after the guard, the budget and the reservation of the key have let
  it, and a worker whose lease was handed on changes nothing.
\<close>

section \<open>Interleaved runs\<close>

text \<open>Room for the appends of one step, and new ids for a segment a step starts.\<close>

definition room :: "in_memory_backend \<Rightarrow> bool" where
  "room s = (in_range s \<and> 0 < mb_next_sequence s \<and> mb_next_sequence s + 14 < 2 ^ 62)"

definition ids_new :: "worker_env \<Rightarrow> work_item \<Rightarrow> worker_phase \<Rightarrow> in_memory_backend \<Rightarrow> bool" where
  "ids_new w item ph s =
     (case ph of
        RollSpawning t n mat \<Rightarrow>
          get_execution (segment_execution_id (wk_v5 w) (wi_execution_id item) n) s = None \<longrightarrow>
            fresh_run s (segment_execution_id (wk_v5 w) (wi_execution_id item) n) \<and>
            mb_work_items s (se_item_id (wk_sched w) (mb_next_sequence s)) = None \<and>
            mb_lease_epochs s (se_item_id (wk_sched w) (mb_next_sequence s)) = None
      | _ \<Rightarrow> True)"

inductive worker_run ::
    "worker_env \<Rightarrow> work_item \<Rightarrow> worker_phase \<Rightarrow> in_memory_backend \<Rightarrow> nat \<Rightarrow> grant_label list \<Rightarrow> worker_phase \<Rightarrow> in_memory_backend \<Rightarrow> bool"
  for w item ph s where
  run_start: "worker_run w item ph s 0 [] ph s"
| run_own:
    "worker_run w item ph s n ls ph' s' \<Longrightarrow> \<not> ended ph' \<Longrightarrow> room s' \<Longrightarrow> ids_new w item ph' s' \<Longrightarrow>
     worker_step w item inp ph' s' = (s'', ph'') \<Longrightarrow> worker_run w item ph s (Suc n) ls ph'' s''"
| run_other:
    "worker_run w item ph s n ls ph' s' \<Longrightarrow> backend_step (wk_x w) (wk_fresh w) s' l s'' \<Longrightarrow>
     worker_run w item ph s n (ls @ [l]) ph' s''"

section \<open>Runs of the backend\<close>

definition quiet :: "worker_env \<Rightarrow> in_memory_backend \<Rightarrow> in_memory_backend \<Rightarrow> bool" where
  "quiet w s s' = (\<exists>k. backend_trace (wk_x w) (wk_fresh w) s (replicate k None) s')"

lemma quiet_refl [simp]: "quiet w s s"
  unfolding quiet_def by (rule exI [of _ 0]) (simp add: trace_nil)













section \<open>A turn ends\<close>

lemma worker_run_rank: "worker_run w item ph s n ls ph' s' \<Longrightarrow> n + phase_rank ph' \<le> phase_rank ph"
  by (induction rule: worker_run.induct) (auto dest: worker_step_rank)

lemma run_item_ends: "ended (snd (run_item w item inputs k ph s))"
proof (induction w item inputs k ph s rule: run_item.induct)
  case (1 w item inputs k ph s)
  then show ?case by (cases "ended ph") (subst run_item.simps, simp)+
qed

text \<open>C14: Whatever state the store is in and whatever the others do meanwhile, a turn takes at most 59 steps of its own,
  and the loop of the worker on it returns.\<close>

theorem worker_turn_ends:
  assumes "worker_run w item Claimed s n ls ph s'"
  shows "n \<le> 59 \<and> (n = 59 \<longrightarrow> ended ph) \<and> ended (snd (run_item w item inputs k ph s'))"
proof -
  have "phase_rank ph = 0 \<Longrightarrow> ended ph" by (cases ph) (auto simp: ended_def split: if_splits)
  then show ?thesis using worker_run_rank [OF assms] run_item_ends by auto
qed

section \<open>What a worker has done before it calls an executor\<close>

text \<open>A turn with its history: the steps the worker has taken, the oldest first, each with the phase it was taken in, its
  input and the state of the store it was taken in.\<close>

type_synonym own_step = "worker_phase \<times> step_input \<times> in_memory_backend"

inductive worker_turn :: "worker_env \<Rightarrow> work_item \<Rightarrow> in_memory_backend \<Rightarrow> own_step list \<Rightarrow> worker_phase \<Rightarrow> in_memory_backend \<Rightarrow> bool"
  for w item s0 where
  turn_start: "worker_turn w item s0 [] Claimed s0"
| turn_own:
    "worker_turn w item s0 h ph s \<Longrightarrow> \<not> ended ph \<Longrightarrow> worker_step w item inp ph s = (s', ph') \<Longrightarrow>
     worker_turn w item s0 (h @ [(ph, inp, s)]) ph' s'"
| turn_other: "worker_turn w item s0 h ph s \<Longrightarrow> backend_step (wk_x w) (wk_fresh w) s l s' \<Longrightarrow> worker_turn w item s0 h ph s'"

text \<open>Every run has a history.\<close>

lemma worker_run_turn: "worker_run w item Claimed s0 n ls ph s \<Longrightarrow> \<exists>h. length h = n \<and> worker_turn w item s0 h ph s"
proof (induction rule: worker_run.induct)
  case run_start
  then show ?case using turn_start by fastforce
next
  case (run_own n ls ph' s' inp s'' ph'')
  then obtain h where "length h = n" "worker_turn w item s0 h ph' s'" by blast
  with turn_own [OF this(2) run_own.hyps(2,5)] show ?case by (intro exI [of _ "h @ [(ph', inp, s')]"]) simp
next
  case (run_other n ls ph' s' l s'')
  then show ?case using turn_other by blast
qed

text \<open>A step of the history that satisfies \<open>P\<close>, with the history before it.\<close>

definition took :: "own_step list \<Rightarrow> (own_step list \<Rightarrow> worker_phase \<Rightarrow> step_input \<Rightarrow> in_memory_backend \<Rightarrow> bool) \<Rightarrow> bool" where
  "took h P = (\<exists>before ph inp s later. h = before @ (ph, inp, s) # later \<and> P before ph inp s)"

lemma took_later: "took h P \<Longrightarrow> took (h @ [x]) P"
  unfolding took_def by (metis append.assoc append_Cons)

lemma took_now: "P h ph inp s \<Longrightarrow> took (h @ [(ph, inp, s)]) P"
  unfolding took_def by blast

text \<open>The turn has read the workflow, its node and the budget of the run from the store.\<close>

definition loaded :: "worker_env \<Rightarrow> work_item \<Rightarrow> own_step list \<Rightarrow> workflow_ir \<Rightarrow> node_def \<Rightarrow> budget_state \<Rightarrow> bool" where
  "loaded w item h ir nd b = took h (\<lambda>_ ph _ s. ph = Loading \<and> load_node w item s = (s, Guarding ir nd b))"

text \<open>After that the guard let the node fire.\<close>

definition cleared :: "worker_env \<Rightarrow> work_item \<Rightarrow> own_step list \<Rightarrow> workflow_ir \<Rightarrow> node_def \<Rightarrow> budget_state \<Rightarrow> bool" where
  "cleared w item h ir nd b =
     took h (\<lambda>before ph inp s. ph = Guarding ir nd b \<and> loaded w item before ir nd b \<and> snd (check_policy w item inp ir nd s) = GuardAllow)"

text \<open>After that the budget was not exhausted and the key was derived.\<close>

definition keyed :: "worker_env \<Rightarrow> work_item \<Rightarrow> own_step list \<Rightarrow> turn \<Rightarrow> bool" where
  "keyed w item h t =
     took h (\<lambda>before ph _ s. ph = Keying (tu_ir t) (tu_node t) (tu_budget t) \<and> cleared w item before (tu_ir t) (tu_node t) (tu_budget t) \<and>
        exhausted (ir_token_budget (tu_ir t)) (ir_cost_budget_usd (tu_ir t)) (tu_budget t) = None \<and>
        tu_key t = derive_idempotency_key (wk_x w) (wi_execution_id item) (wi_node_id item) s)"

text \<open>The reservation of the key, which the worker asks for under its own name and fence at the time of its clock, was granted.\<close>

definition reserves :: "worker_env \<Rightarrow> work_item \<Rightarrow> turn \<Rightarrow> step_input \<Rightarrow> in_memory_backend \<Rightarrow> bool" where
  "reserves w item t inp s =
     (snd (reserve_tool_effect (wk_x w) (si_now inp) (tu_key t) (wk_id w) (wi_lease_fence item) reservation_ttl_ms s) = Acquired)"

definition acquired :: "worker_env \<Rightarrow> work_item \<Rightarrow> own_step list \<Rightarrow> turn \<Rightarrow> bool" where
  "acquired w item h t =
     (\<exists>before k inp s. h = before @ [(Reserving t k, inp, s)] \<and> keyed w item before t \<and> reserves w item t inp s)"

text \<open>A result is what an executor answered to this worker after the key was reserved, or what the worker has read under the key.\<close>

definition obtained :: "worker_env \<Rightarrow> work_item \<Rightarrow> own_step list \<Rightarrow> turn \<Rightarrow> execution_result \<Rightarrow> bool" where
  "obtained w item h t r =
     took h (\<lambda>before ph inp s.
       (ph = Firing t \<and> acquired w item before t \<and> snd (call_executor w item inp (tu_node t) s) = Inr r) \<or>
       (keyed w item before t \<and> (\<exists>rec. get_tool_effect (tu_key t) s = Some rec \<and> r = replayed_result rec)))"

definition charged :: "worker_env \<Rightarrow> work_item \<Rightarrow> turn \<Rightarrow> execution_result \<Rightarrow> execution_result \<Rightarrow> bool" where
  "charged w item t r r' =
     (let b = accumulate (er_input_tokens r) (er_output_tokens r) None (tu_budget t)
      in budget_excess w (wi_node_id item) (tu_ir t) b = None \<and> r' = r\<lparr>er_state_patch := patch_into_snapshot_state b (er_state_patch r)\<rparr>)"

definition completes :: "worker_env \<Rightarrow> work_item \<Rightarrow> own_step list \<Rightarrow> node_completed \<Rightarrow> bool" where
  "completes w item h nc =
     (\<exists>t r r'. keyed w item h t \<and> obtained w item h t r \<and> charged w item t r r' \<and> nc_node_id nc = wi_node_id item \<and>
        nc_state_patch nc = er_state_patch r' \<and> nc_input_tokens nc = er_input_tokens r \<and> nc_output_tokens nc = er_output_tokens r \<and>
        nc_idempotency_key nc = Some (tu_key t))"

definition phase_inv :: "worker_env \<Rightarrow> work_item \<Rightarrow> own_step list \<Rightarrow> worker_phase \<Rightarrow> bool" where
  "phase_inv w item h ph =
     (case ph of
        Guarding ir nd b \<Rightarrow> loaded w item h ir nd b
      | Deciding ir nd b out \<Rightarrow> loaded w item h ir nd b \<and> (out = GuardAllow \<longrightarrow> cleared w item h ir nd b)
      | Spending ir nd b \<Rightarrow> cleared w item h ir nd b
      | Keying ir nd b \<Rightarrow> cleared w item h ir nd b \<and> exhausted (ir_token_budget ir) (ir_cost_budget_usd ir) b = None
      | Looking t \<Rightarrow> keyed w item h t
      | Reserving t _ \<Rightarrow> keyed w item h t
      | Rereading t _ \<Rightarrow> keyed w item h t
      | Polling t _ \<Rightarrow> keyed w item h t
      | Firing t \<Rightarrow> keyed w item h t \<and> acquired w item h t
      | Charging t r \<Rightarrow> keyed w item h t \<and> obtained w item h t r
      | Storing t r' \<Rightarrow> keyed w item h t \<and> (\<exists>r. obtained w item h t r \<and> charged w item t r r')
      | Committing kind _ \<Rightarrow> is_turn_end kind \<and> (case kind of NodeCompleted nc \<Rightarrow> completes w item h nc | _ \<Rightarrow> True)
      | _ \<Rightarrow> True)"

text \<open>What was done stays done.\<close>

lemma done_later:
  "loaded w item h ir nd b \<Longrightarrow> loaded w item (h @ [x]) ir nd b"
  "cleared w item h ir nd b \<Longrightarrow> cleared w item (h @ [x]) ir nd b"
  "keyed w item h t \<Longrightarrow> keyed w item (h @ [x]) t"
  "obtained w item h t r \<Longrightarrow> obtained w item (h @ [x]) t r"
  by (simp_all add: loaded_def cleared_def keyed_def obtained_def took_later)

lemma done_now:
  "load_node w item s = (s, Guarding ir nd b) \<Longrightarrow> loaded w item (h @ [(Loading, inp, s)]) ir nd b"
  "loaded w item h ir nd b \<Longrightarrow> check_policy w item inp ir nd s = (s1, GuardAllow) \<Longrightarrow> cleared w item (h @ [(Guarding ir nd b, inp, s)]) ir nd b"
  "cleared w item h ir nd b \<Longrightarrow> exhausted (ir_token_budget ir) (ir_cost_budget_usd ir) b = None \<Longrightarrow>
   keyed w item (h @ [(Keying ir nd b, inp, s)])
     \<lparr>tu_ir = ir, tu_node = nd, tu_budget = b, tu_key = derive_idempotency_key (wk_x w) (wi_execution_id item) (wi_node_id item) s\<rparr>"
  "keyed w item h t \<Longrightarrow> reserve_tool_effect (wk_x w) (si_now inp) (tu_key t) (wk_id w) (wi_lease_fence item) reservation_ttl_ms s = (s1, Acquired) \<Longrightarrow>
   acquired w item (h @ [(Reserving t k, inp, s)]) t"
  "acquired w item h t \<Longrightarrow> call_executor w item inp (tu_node t) s = (s1, Inr r) \<Longrightarrow> obtained w item (h @ [(Firing t, inp, s)]) t r"
  "keyed w item h t \<Longrightarrow> get_tool_effect (tu_key t) s = Some rec \<Longrightarrow> obtained w item (h @ [(ph, inp, s)]) t (replayed_result rec)"
  by (auto simp: loaded_def cleared_def keyed_def acquired_def reserves_def obtained_def intro!: took_now)

lemma phase_inv_step:
  assumes inv: "phase_inv w item h ph" and step: "worker_step w item inp ph s = (s', ph')"
  shows "phase_inv w item (h @ [(ph, inp, s)]) ph'"
proof (cases ph)
  case Loading
  then have "s' = s" and "(\<exists>ir nd b. ph' = Guarding ir nd b) \<or> (\<exists>err. ph' = Committing (node_failed item err) False)"
    using step by (auto simp: load_node_def split: prod.splits sum.splits option.splits)
  moreover have "load_node w item s = (s', ph')" using Loading step by simp
  ultimately show ?thesis using Loading by (auto simp: phase_inv_def node_failed_def is_turn_end_def intro: done_now(1))
next
  case (Guarding ir nd b)
  then show ?thesis using step inv by (auto simp: phase_inv_def intro: done_later done_now(2) split: prod.splits)
next
  case (Deciding ir nd b out)
  then show ?thesis using step inv
    by (auto simp: settle_outcome_def phase_inv_def node_failed_def is_turn_end_def intro: done_later split: guard_outcome.splits)
next
  case (Spending ir nd b)
  then show ?thesis using step inv by (auto simp: check_budget_before_execution_def phase_inv_def intro: done_later split: option.splits)
next
  case (Keying ir nd b)
  then show ?thesis using step inv by (auto simp: phase_inv_def intro: done_now(3))
next
  case (Looking t)
  then show ?thesis using step inv by (auto simp: phase_inv_def intro: done_later done_now(6) split: option.splits)
next
  case (Reserving t k)
  then show ?thesis using step inv
    by (auto simp: phase_inv_def reserve_key_def intro: done_later done_now(4) split: prod.splits reserve_outcome.splits)
next
  case (Rereading t k)
  then show ?thesis using step inv by (auto simp: phase_inv_def reread_effect_def intro: done_later done_now(6) split: option.splits if_splits)
next
  case (Polling t k)
  then show ?thesis using step inv by (auto simp: phase_inv_def poll_effect_def intro: done_later done_now(6) split: option.splits nat.splits)
next
  case (Firing t)
  obtain s1 res where res: "call_executor w item inp (tu_node t) s = (s1, res)" by fastforce
  then have "res = Inr r \<Longrightarrow> obtained w item (h @ [(ph, inp, s)]) t r" for r
    using inv Firing done_now(5) by (simp add: phase_inv_def)
  then show ?thesis using step inv Firing res
    by (auto simp: fire_def phase_inv_def node_failed_def is_turn_end_def intro: done_later split: sum.splits executor_error.splits if_splits)
next
  case (Charging t r)
  then have "keyed w item (h @ [(ph, inp, s)]) t" "obtained w item (h @ [(ph, inp, s)]) t r" using inv done_later(3,4) by (simp_all add: phase_inv_def)
  then show ?thesis using step Charging
    by (auto simp: check_budget_after_execution_def phase_inv_def charged_def Let_def intro!: exI [of _ r] split: option.splits if_splits)
next
  case (Storing t r')
  then obtain r where r: "keyed w item (h @ [(ph, inp, s)]) t" "obtained w item (h @ [(ph, inp, s)]) t r" "charged w item t r r'"
    using inv by (auto simp: phase_inv_def dest: done_later(3) intro: done_later(4))
  then have "er_input_tokens r' = er_input_tokens r" "er_output_tokens r' = er_output_tokens r" by (simp_all add: charged_def Let_def)
  then have "completes w item (h @ [(ph, inp, s)]) nc"
    if "nc_node_id nc = wi_node_id item" "nc_state_patch nc = er_state_patch r'" "nc_input_tokens nc = er_input_tokens r'"
      "nc_output_tokens nc = er_output_tokens r'" "nc_idempotency_key nc = Some (tu_key t)" for nc
    unfolding completes_def using r that by (intro exI [of _ t] exI [of _ r] exI [of _ r']) simp
  then show ?thesis using step Storing by (auto simp: store_output_def phase_inv_def is_turn_end_def split: prod.splits)
qed (use step in \<open>auto simp: start_node_def commit_item_def park_item_def note_park_def roll_defs phase_inv_def Let_def
    split: prod.splits sum.splits option.splits backend_error.splits bool.splits if_splits\<close>)

lemma worker_turn_inv: "worker_turn w item s0 h ph s \<Longrightarrow> phase_inv w item h ph"
proof (induction rule: worker_turn.induct)
  case (turn_own h ph s inp s' ph')
  then show ?case using phase_inv_step by blast
qed (simp_all add: phase_inv_def)

text \<open>C10: In every turn, whatever the others do between its steps, an executor is called only right after the worker asked
  for the key of the call under its own fence and was granted it.  Before that, in this order and in the states of the
  store the turn went through, it read the workflow, the node and the budget of the run; the guard let the node fire;
  every ceiling of the workflow was strictly above what had been spent; and the key was derived from the log.\<close>

theorem fired_call_is_cleared:
  assumes "worker_turn w item s0 h (Firing t) s"
  shows "\<exists>h1 inp1 s1 h2 inp2 s2 h3 inp3 s3 h4 k inp4 s4.
    h = h1 @ [(Loading, inp1, s1)] @ h2 @ [(Guarding (tu_ir t) (tu_node t) (tu_budget t), inp2, s2)] @ h3 @
        [(Keying (tu_ir t) (tu_node t) (tu_budget t), inp3, s3)] @ h4 @ [(Reserving t k, inp4, s4)] \<and>
    load_node w item s1 = (s1, Guarding (tu_ir t) (tu_node t) (tu_budget t)) \<and>
    snd (check_policy w item inp2 (tu_ir t) (tu_node t) s2) = GuardAllow \<and>
    under_ceilings (ir_token_budget (tu_ir t)) (ir_cost_budget_usd (tu_ir t)) (tu_budget t) \<and>
    tu_key t = derive_idempotency_key (wk_x w) (wi_execution_id item) (wi_node_id item) s3 \<and>
    snd (reserve_tool_effect (wk_x w) (si_now inp4) (tu_key t) (wk_id w) (wi_lease_fence item) reservation_ttl_ms s4) = Acquired"
proof -
  obtain g k inp4 s4 where 4: "h = g @ [(Reserving t k, inp4, s4)]" "keyed w item g t" "reserves w item t inp4 s4"
    using worker_turn_inv [OF assms] by (auto simp: phase_inv_def acquired_def)
  obtain f inp3 s3 h4 where 3: "g = f @ (Keying (tu_ir t) (tu_node t) (tu_budget t), inp3, s3) # h4"
      "cleared w item f (tu_ir t) (tu_node t) (tu_budget t)" "exhausted (ir_token_budget (tu_ir t)) (ir_cost_budget_usd (tu_ir t)) (tu_budget t) = None"
      "tu_key t = derive_idempotency_key (wk_x w) (wi_execution_id item) (wi_node_id item) s3"
    using 4(2) by (auto simp: keyed_def took_def)
  obtain e inp2 s2 h3 where 2: "f = e @ (Guarding (tu_ir t) (tu_node t) (tu_budget t), inp2, s2) # h3"
      "loaded w item e (tu_ir t) (tu_node t) (tu_budget t)" "snd (check_policy w item inp2 (tu_ir t) (tu_node t) s2) = GuardAllow"
    using 3(2) by (auto simp: cleared_def took_def)
  obtain h1 inp1 s1 h2 where 1: "e = h1 @ (Loading, inp1, s1) # h2" "load_node w item s1 = (s1, Guarding (tu_ir t) (tu_node t) (tu_budget t))"
    using 2(2) by (auto simp: loaded_def took_def)
  have "h = h1 @ [(Loading, inp1, s1)] @ h2 @ [(Guarding (tu_ir t) (tu_node t) (tu_budget t), inp2, s2)] @ h3 @
      [(Keying (tu_ir t) (tu_node t) (tu_budget t), inp3, s3)] @ h4 @ [(Reserving t k, inp4, s4)]"
    using 1(1) 2(1) 3(1) 4(1) by simp
  with 1(2) 2(3) 3(3,4) 4(3) show ?thesis unfolding reserves_def exhausted_iff by blast
qed

section \<open>Ceilings\<close>

text \<open>No ceiling passed; a dollar amount that is no number passes none.\<close>

definition within_ceilings :: "workflow_ir \<Rightarrow> budget_state \<Rightarrow> bool" where
  "within_ceilings ir b =
     ((\<forall>tb. ir_token_budget ir = Some tb \<longrightarrow>
         (\<forall>m. tbi_total_tokens tb = Some m \<longrightarrow> total_tokens b \<le> m) \<and>
         (\<forall>m. tbi_input_tokens tb = Some m \<longrightarrow> bs_total_input_tokens b \<le> m) \<and>
         (\<forall>m. tbi_output_tokens tb = Some m \<longrightarrow> bs_total_output_tokens b \<le> m)) \<and>
      (\<forall>m. ir_cost_budget_usd ir = Some m \<longrightarrow> \<not> f64_lt m (bs_total_cost_usd b)))"

lemma token_excess_None: "token_excess node kind maximum current = None \<longleftrightarrow> (\<forall>m. maximum = Some m \<longrightarrow> current \<le> m)"
  by (cases maximum) (auto simp: token_excess_def)

lemma budget_excess_iff: "budget_excess w node ir b = None \<longleftrightarrow> within_ceilings ir b"
  by (cases "ir_token_budget ir"; cases "ir_cost_budget_usd ir")
    (auto simp: budget_excess_def within_ceilings_def first_some_None token_excess_None)

text \<open>C13: A completion a worker is about to commit accounts for what it spent.  With the budget the turn read and the tokens
  of the result added, no ceiling of the workflow is passed; if the patch of the result is an object, that budget is
  in the patch of the completion, and any other patch is left as it is.  And the result was answered by the executor to this
  worker right after the key was granted to it, or read by this worker under that key.\<close>

theorem committed_turn_within_ceilings:
  assumes "worker_turn w item s0 h (Committing (NodeCompleted nc) snap) s"
  shows "\<exists>t r b. keyed w item h t \<and> obtained w item h t r \<and> nc_node_id nc = wi_node_id item \<and>
    nc_input_tokens nc = er_input_tokens r \<and> nc_output_tokens nc = er_output_tokens r \<and>
    b = accumulate (er_input_tokens r) (er_output_tokens r) None (tu_budget t) \<and> within_ceilings (tu_ir t) b \<and>
    (if as_object (er_state_patch r) \<noteq> None then json_get (nc_state_patch nc) ''__budget'' = Some (budget_json b)
     else nc_state_patch nc = er_state_patch r) \<and>
    nc_idempotency_key nc = Some (tu_key t)"
proof -
  obtain t r r' where t: "keyed w item h t" "obtained w item h t r" "charged w item t r r'" "nc_state_patch nc = er_state_patch r'"
    "nc_input_tokens nc = er_input_tokens r" "nc_output_tokens nc = er_output_tokens r" "nc_idempotency_key nc = Some (tu_key t)"
    "nc_node_id nc = wi_node_id item"
    using worker_turn_inv [OF assms] by (auto simp: phase_inv_def completes_def)
  let ?b = "accumulate (er_input_tokens r) (er_output_tokens r) None (tu_budget t)"
  have p: "nc_state_patch nc = patch_into_snapshot_state ?b (er_state_patch r)" and c: "within_ceilings (tu_ir t) ?b"
    using t(3,4) by (simp_all add: charged_def budget_excess_iff Let_def)
  have "if as_object (er_state_patch r) \<noteq> None then json_get (nc_state_patch nc) ''__budget'' = Some (budget_json ?b)
      else nc_state_patch nc = er_state_patch r"
    unfolding p by (cases "er_state_patch r") (simp_all add: patched_get, simp_all add: patch_into_snapshot_state_def)
  then show ?thesis using t c by blast
qed

section \<open>A worker that lost its lease\<close>




section \<open>Replay\<close>

text \<open>What a commit records under a key is what a replay reads: the result with its output as the event has it.\<close>

lemma replayed_effect:
  "replayed_result (effect_json nc) =
     \<lparr>er_output = nc_output nc, er_state_patch = nc_state_patch nc, er_duration_ms = nc_duration_ms nc, er_gen_ai_system = nc_gen_ai_system nc,
      er_gen_ai_model = nc_gen_ai_model nc, er_input_tokens = nc_input_tokens nc, er_output_tokens = nc_output_tokens nc,
      er_finish_reason = nc_finish_reason nc\<rparr>"
proof -
  have opt: "Option.bind (Some (opt_json JString a)) as_str = a" "Option.bind (Some (opt_json json_nat b)) as_u64 = b" for a b
    by (cases a; simp) (cases b; simp add: json_nat_def)
  show ?thesis unfolding replayed_result_def effect_json_def
    by (simp add: json_object_def bt_get_insert opt [simplified] json_nat_def)
qed

text \<open>The commit of a turn that got its key, and a turn under the same key later: the second does not call the
  executor, and has the output, the patch and the tokens the first recorded, unless another result had been
  recorded under the key even before.\<close>

theorem recorded_turn_is_replayed:
  assumes "fence_matches s (wi_id item) (wi_lease_fence item)" and "nc_idempotency_key nc = Some (tu_key t)"
    and "get_tool_effect (tu_key t) s = None" and "worker_step w item inp (Committing (NodeCompleted nc) snap) s = (s1, ph1)"
    and "backend_trace x fresh s1 ls s2"
  shows "worker_step w' item' inp' (Looking t) s2 = (s2, Charging t
    \<lparr>er_output = nc_output nc, er_state_patch = nc_state_patch nc, er_duration_ms = nc_duration_ms nc, er_gen_ai_system = nc_gen_ai_system nc,
     er_gen_ai_model = nc_gen_ai_model nc, er_input_tokens = nc_input_tokens nc, er_output_tokens = nc_output_tokens nc,
     er_finish_reason = nc_finish_reason nc\<rparr>)"
proof -
  let ?ev = "event_new (wk_fresh w (mb_next_sequence s)) (si_now inp) (wi_execution_id item) 0 (NodeCompleted nc)"
  have k: "ev_kind ?ev = NodeCompleted nc" by (simp add: event_new_def)
  have "s1 = settle_turn (wk_fresh w) (si_now inp) (wi_id item) ?ev snap s"
    using assms(1,4) commit_turn_cases [of "wk_fresh w" "si_now inp" "wi_id item" "wi_lease_fence item" ?ev snap s]
      commit_turn_ok [of "wk_fresh w" "si_now inp" "wi_id item" "wi_lease_fence item" ?ev snap s]
    by (auto simp: commit_item_def k is_turn_end_def split: prod.splits sum.splits)
  then have "get_tool_effect (tu_key t) s1 = Some (effect_json nc)"
    using assms(2,3) by (simp add: settle_turn_def Let_def get_tool_effect_def k record_effect_def frame)
  then have "get_tool_effect (tu_key t) s2 = Some (effect_json nc)"
    using trace_keeps_stored [OF assms(5)] map_le_SomeD by (fastforce simp: keeps_stored_def get_tool_effect_def)
  then show ?thesis by (simp add: replayed_effect)
qed

text \<open>The key itself is not checked again once it could be reserved: a worker that found no result and reserves the key
  after the holder has recorded one, under the same worker id or past the time the reservation was good for, fires.\<close>

lemma reserved_key_refires:
  assumes "get_tool_effect (tu_key t) s = Some rec" and "mb_tool_reservations s (tu_key t) = Some (holder, f, expiry)"
    and "holder = wk_id w \<or> expiry \<le> si_now inp"
  shows "\<exists>s'. worker_step w item inp (Reserving t n) s = (s', Firing t) \<and> get_tool_effect (tu_key t) s' = Some rec"
  using assms by (auto simp: reserve_key_def reserve_tool_effect_def get_tool_effect_def Let_def)

section \<open>The budget of a run\<close>

lemma max_by_snoc:
  assumes "\<forall>snap' \<in> set l. sn_at_sequence snap' \<le> sn_at_sequence snap"
  shows "max_by_at_sequence (l @ [snap]) = Some snap"
proof (cases "max_by_at_sequence l")
  case (Some b)
  then show ?thesis using assms max_by_member [OF Some] by (simp add: max_by_at_sequence_def)
qed (simp add: max_by_at_sequence_def)

text \<open>After a turn is settled with a snapshot, the latest snapshot of the run holds the state of the run with the
  patch of the turn merged into it.\<close>

lemma settled_snapshot:
  assumes "log_ok s" "snapshots_ok s" "mb_next_sequence s < 2 ^ 62" and "ev_kind ev = NodeCompleted nc" and "ev_execution_id ev = e"
  shows "\<exists>snap. latest_snapshot e (settle_turn fresh now i ev True s) = Some snap \<and>
    sn_state snap = json_merge_patch (ms_current_state (replayed s e)) (nc_state_patch nc)"
proof -
  define t where "t = record_effect (ev_kind ev) (fst (push_event ev (remove_item i s)))"
  let ?ev = "ev\<lparr>ev_sequence := mb_next_sequence s\<rparr>"
  have n: "0 < mb_next_sequence s" "mb_next_sequence s < 2 ^ 63 - 1" using assms by (simp_all add: well_sequenced_def)
  have g: "grows s t" using settle_turn_grows [OF n, of fresh now i ev False] by (simp add: settle_turn_def t_def)
  have step: "replay_step s t" by (rule replay_step_same [OF assms(2) g]) (simp add: t_def base_part_others base_part_queue)
  have ok: "log_ok t" "snapshots_ok t" using appends_sequenced [OF g assms(1)] step by (simp_all add: replay_step_def)
  have l: "log_of t e = log_of s e @ [?ev]" using assms(5) by (simp add: t_def frame log_of_push)
  have snaps: "mb_snapshots t = mb_snapshots s" "mb_executions t = mb_executions s"
    by (simp_all add: t_def frame)
  have base: "run_base t e = run_base s e" using base_part_eqs [OF base_part_same [OF snaps]] by simp
  have r: "replayed t e = apply_event ?ev (replayed s e)"
    using replayed_is_replay [OF ok] replayed_is_replay [OF assms(1,2)] by (simp add: apply_events_seeded_def get_events_def l base)
  have seen: "mb_next_sequence s \<le> ms_last_sequence (replayed t e)"
    using mat.seen_ge [of ?ev "log_of t e" "run_base t e"] replayed_is_replay [OF ok, of e] by (simp add: apply_events_seeded_def get_events_def l)
  define snap where "snap = from_materialized (fresh (mb_next_sequence t)) now e (replayed t e)"
  define l where "l = (case mb_snapshots t e of Some l \<Rightarrow> l | None \<Rightarrow> [])"
  have "snap' \<in> set l \<Longrightarrow> snapshot_ok s e snap'" for snap'
    using assms(2) snaps(1) by (cases "mb_snapshots s e") (simp_all add: l_def snapshots_ok_def)
  then have "\<forall>snap' \<in> set l. sn_at_sequence snap' \<le> sn_at_sequence snap"
    using seen by (fastforce simp: snapshot_ok_def snap_def from_materialized_def)
  then have "latest_snapshot e (write_snapshot snap t) = Some snap"
    using max_by_snoc by (simp add: latest_snapshot_def write_snapshot_def l_def [symmetric] snap_def from_materialized_def)
  moreover have "settle_turn fresh now i ev True s = write_snapshot snap t"
    by (simp add: settle_turn_def Let_def t_def [symmetric] assms(5) snapshot_turn_replayed snap_def)
  moreover have "sn_state snap = json_merge_patch (ms_current_state (replayed s e)) (nc_state_patch nc)"
    using assms(4) by (simp add: snap_def from_materialized_def r apply_event_def apply_kind_def)
  ultimately show ?thesis by simp
qed

lemma spilled_frame:
  assumes "spilled x jc threshold v s = (s', out)"
  shows "log_of s' = log_of s" "mb_next_sequence s' = mb_next_sequence s" "mb_snapshots s' = mb_snapshots s"
    "mb_executions s' = mb_executions s" "mb_work_items s' = mb_work_items s" "mb_events s' = mb_events s"
  using assms by (auto simp: spilled_def put_artifact_def Let_def log_of_def [abs_def] split: option.splits)

lemma spilled_keeps:
  assumes "spilled x jc threshold v s = (s', out)"
  shows "log_ok s' = log_ok s" "snapshots_ok s' = snapshots_ok s" "replayed s' e = replayed s e" "fence_matches s' i f = fence_matches s i f"
proof -
  note f = spilled_frame [OF assms]
  have "run_base s' = run_base s" by (rule ext) (use base_part_eqs [OF base_part_same [OF f(3,4)]] in simp)
  then show "log_ok s' = log_ok s" "snapshots_ok s' = snapshots_ok s" "replayed s' e = replayed s e" "fence_matches s' i f = fence_matches s i f"
    by (simp_all add: well_sequenced_def snapshots_ok_def snapshot_ok_def replayed_def run_input_def latest_snapshot_def
        get_events_since_def fence_matches_def f)
qed

lemma run_item_Ended: "run_item w item inputs k (Ended r) s = (s, Ended r)"
  by (subst run_item.simps) (simp add: ended_def)

lemma run_item_next:
  "\<not> ended ph \<Longrightarrow> worker_step w item (inputs k) ph s = (s', ph') \<Longrightarrow> run_item w item inputs k ph s = run_item w item inputs (Suc k) ph' s'"
  by (subst run_item.simps) simp

text \<open>The budget of a run is that of the turn that was committed last: what that turn read when it began with what it
  spent added, whatever the run had spent meanwhile.  What the turns committed between the two spent is lost.\<close>

theorem turn_overwrites_budget:
  assumes "backend_trace x fresh backend_new ls s" and "mb_next_sequence s < 2 ^ 62"
    and "fence_matches s (wi_id item) (wi_lease_fence item)"
    and "materialize (wi_execution_id item) s = Inr mat" and "json_wf (ms_current_state mat)"
    and "er_state_patch r = JObject m" and "json_wf (JObject m)"
    and "budget_wf (accumulate (er_input_tokens r) (er_output_tokens r) None (tu_budget t))"
    and "within_ceilings (tu_ir t) (accumulate (er_input_tokens r) (er_output_tokens r) None (tu_budget t))"
  shows "load_budget_state (wi_execution_id item) (fst (run_item w item inputs k (Charging t r) s)) =
    accumulate (er_input_tokens r) (er_output_tokens r) None (tu_budget t)"
proof -
  define b where "b = accumulate (er_input_tokens r) (er_output_tokens r) None (tu_budget t)"
  define r' where "r' = r\<lparr>er_state_patch := patch_into_snapshot_state b (JObject m)\<rparr>"
  obtain s1 out where sp: "spilled (wk_x w) (wk_codec w) (wk_threshold w) (er_output r') s = (s1, out)" by fastforce
  define nc where "nc =
      \<lparr>nc_node_id = wi_node_id item, nc_output = out, nc_state_patch = er_state_patch r', nc_duration_ms = si_elapsed (inputs (Suc k)),
       nc_gen_ai_system = er_gen_ai_system r', nc_gen_ai_model = er_gen_ai_model r', nc_input_tokens = er_input_tokens r',
       nc_output_tokens = er_output_tokens r', nc_finish_reason = er_finish_reason r', nc_cost_usd = None, nc_provenance = None,
       nc_idempotency_key = Some (tu_key t)\<rparr>"
  define ev where "ev = event_new (wk_fresh w (mb_next_sequence s1)) (si_now (inputs (Suc (Suc k)))) (wi_execution_id item) 0 (NodeCompleted nc)"
  define s2 where "s2 = settle_turn (wk_fresh w) (si_now (inputs (Suc (Suc k)))) (wi_id item) ev True s1"
  have ok: "log_ok s1" "snapshots_ok s1" "fence_matches s1 (wi_id item) (wi_lease_fence item)"
    using trace_replay [OF assms(1) log_ok_new snapshots_ok_new] assms(3) by (simp_all add: spilled_keeps [OF sp] replay_step_def)
  have mat: "ms_current_state (replayed s1 (wi_execution_id item)) = ms_current_state mat"
    using assms(4) by (simp add: spilled_keeps [OF sp] materialize_replayed split: if_splits)
  have seq: "mb_next_sequence s1 < 2 ^ 62" using assms(2) by (simp add: spilled_frame [OF sp])
  have none: "budget_excess w (wi_node_id item) (tu_ir t) b = None" using assms(9) by (simp add: budget_excess_iff b_def)
  have 1: "worker_step w item (inputs k) (Charging t r) s = (s, Storing t r')"
    using assms(6) none by (simp add: check_budget_after_execution_def Let_def b_def r'_def)
  have 2: "worker_step w item (inputs (Suc k)) (Storing t r') s = (s1, Committing (NodeCompleted nc) True)"
    using sp by (simp add: store_output_def nc_def)
  have 3: "worker_step w item (inputs (Suc (Suc k))) (Committing (NodeCompleted nc) True) s1 = (s2, Ended (Inr ()))"
    using commit_turn_cases [of "wk_fresh w" "si_now (inputs (Suc (Suc k)))" "wi_id item" "wi_lease_fence item" ev True s1]
      commit_turn_ok [of "wk_fresh w" "si_now (inputs (Suc (Suc k)))" "wi_id item" "wi_lease_fence item" ev True s1] ok(3)
    by (auto simp: commit_item_def ev_def [symmetric] s2_def [symmetric] is_turn_end_def split: prod.splits sum.splits)
      (simp_all add: ev_def event_new_def is_turn_end_def)
  have run: "fst (run_item w item inputs k (Charging t r) s) = s2"
    by (simp add: run_item_next [of _ w item inputs, OF _ 1] run_item_next [of _ w item inputs, OF _ 2] run_item_next [of _ w item inputs, OF _ 3]
        ended_def run_item_Ended)
  obtain snap where snap: "latest_snapshot (wi_execution_id item) s2 = Some snap"
    "sn_state snap = json_merge_patch (ms_current_state mat) (patch_into_snapshot_state b (JObject m))"
    using settled_snapshot [OF ok(1,2) seq, of ev nc "wi_execution_id item" "wk_fresh w" "si_now (inputs (Suc (Suc k)))" "wi_id item"] mat
    by (auto simp: ev_def event_new_def s2_def nc_def r'_def)
  have "json_wf (patch_into_snapshot_state b (JObject m))"
    using assms(7,8) by (intro budget_patch_wf) (auto simp: budget_wf_def b_def [symmetric])
  then have "from_snapshot_state (sn_state snap) = b"
    unfolding snap(2) using budget_survives_merge [OF assms(5) _ _ patched_get] assms(8) by (simp add: b_def [symmetric])
  then show ?thesis by (simp add: run load_budget_state_def snap(1) b_def)
qed

section \<open>Witnesses\<close>

text \<open>A worker that has claimed the one node of a workflow without policies, agents or executors.\<close>

definition work_node :: node_def where
  "work_node = plain_node ''pay'' (ConditionNode [])"

definition work_ir :: workflow_ir where
  "work_ir = sample_ir\<lparr>ir_start_node := ''pay'', ir_nodes := [(''pay'', work_node)]\<rparr>"

definition sample_worker :: worker_env where
  "sample_worker =
     \<lparr>wk_guard = sample_guard\<lparr>ge_sched := sample_env\<lparr>se_parse_ir := \<lambda>_. Inr work_ir\<rparr>\<rparr>, wk_id = ''ann'', wk_queue_types = [''tool''],
      wk_registry = None, wk_executors = (\<lambda>_. False), wk_codec = sample_codec, wk_threshold = 100, wk_v5 = id,
      wk_show_f64 = (\<lambda>_. []), wk_show_usd = (\<lambda>_. [])\<rparr>"

definition held_item :: work_item where
  "held_item = Backend_Fences.sample_item\<lparr>wi_worker_id := Some ''ann'', wi_lease_expires_at := Some 30000, wi_lease_fence := 1\<rparr>"

definition sample_input :: step_input where
  "sample_input = \<lparr>si_now = 0, si_elapsed = 0, si_stream = [], si_result = Inr (stub_result 0)\<rparr>"

definition working :: in_memory_backend where
  "working = create_execution sample_execution
     (fst (store_workflow sample_externals \<lparr>wd_workflow_id = ''unknown'', wd_version = ''1.0.0'', wd_ir = JNull, wd_created_at = 0, wd_tenant_id = default_tenant\<rparr>
        first_claim))"

lemma sample_worker_env: "wk_x sample_worker = sample_externals" "wk_fresh sample_worker = (\<lambda>_. ''e'')"
  by (simp_all add: sample_worker_def sample_guard_def sample_env_def)

lemma working_eq:
  "working = backend_new\<lparr>mb_work_items := [''w'' \<mapsto> held_item], mb_lease_epochs := [''w'' \<mapsto> 1], mb_lease_secs := [''w'' \<mapsto> 30],
     mb_executions := [''x'' \<mapsto> sample_execution], mb_workflows := [(''unknown'', ''1.0.0'') \<mapsto>
       \<lparr>wd_workflow_id = ''unknown'', wd_version = ''1.0.0'', wd_ir = JNull, wd_created_at = 0, wd_tenant_id = default_tenant\<rparr>]\<rparr>"
  by (simp add: working_def first_claim_eq store_workflow_def create_execution_def backend_new_def held_item_def sample_execution_def)

lemma working_trace: "backend_trace sample_externals (\<lambda>_. ''e'') backend_new [None, Some (''w'', 1), None, None] working"
proof -
  have r: "in_range first_claim" unfolding first_claim_eq by (simp add: in_range_def backend_new_def epoch_of_def)
  define s1 where "s1 = fst (store_workflow sample_externals \<lparr>wd_workflow_id = ''unknown'', wd_version = ''1.0.0'', wd_ir = JNull, wd_created_at = 0, wd_tenant_id = default_tenant\<rparr> first_claim)"
  have "backend_step sample_externals (\<lambda>_. ''e'') first_claim None s1" unfolding s1_def using r by (simp add: backend_step_def op_store_workflow)
  note t1 = trace_snoc [OF claimed_trace [folded first_claim_def] this]
  have "in_range s1" "fresh_run s1 (we_execution_id sample_execution)"
    unfolding s1_def first_claim_eq
    by (simp_all add: store_workflow_def in_range_def epoch_of_def backend_new_def fresh_run_def log_of_def)
  then have "backend_step sample_externals (\<lambda>_. ''e'') s1 None working"
    unfolding working_def s1_def [symmetric] by (simp add: backend_step_def op_create_execution)
  from trace_snoc [OF t1 this] show ?thesis by simp
qed

definition begun :: in_memory_backend where
  "begun = append_next (wk_sched sample_worker) 0 ''x'' (NodeStarted ''pay'' ''ann'' 0) working"

definition work_turn :: turn where
  "work_turn = \<lparr>tu_ir = work_ir, tu_node = work_node, tu_budget = budget_default, tu_key = derive_idempotency_key sample_externals ''x'' ''pay'' begun\<rparr>"

definition work_reserved :: in_memory_backend where
  "work_reserved = fst (reserve_tool_effect sample_externals 0 (tu_key work_turn) ''ann'' 1 reservation_ttl_ms begun)"

lemma held_item_simps [simp]:
  "wi_id held_item = ''w''" "wi_execution_id held_item = ''x''" "wi_node_id held_item = ''pay''" "wi_payload held_item = JNull"
  "wi_lease_fence held_item = 1" "wi_tenant_id held_item = default_tenant" "wi_attempt held_item = 0" "wi_queue_type held_item = ''tool''"
  by (simp_all add: held_item_def sample_item_def)

lemma begun_parts:
  "mb_workflows begun = mb_workflows working" "mb_snapshots begun = mb_snapshots working" "mb_tenants begun = mb_tenants working"
  "mb_tool_effects begun = mb_tool_effects working" "mb_tool_reservations begun = mb_tool_reservations working"
  "mb_next_sequence begun = 2" "mb_lease_epochs begun = mb_lease_epochs working" "mb_store_term begun = mb_store_term working"
  by (simp_all add: begun_def append_next_def append_event_def push_event_def Let_def working_eq backend_new_def wrap_i64_def)

lemma work_rooms: "room working" "room begun" "room work_reserved"
  by (simp_all add: room_def in_range_def epoch_of_def work_reserved_def reserve_tool_effect_def Let_def begun_parts working_eq backend_new_def
      split: option.split)

lemma work_guard: "mb_tenants s default_tenant = None \<Longrightarrow> check_policy sample_worker held_item inp work_ir work_node s = (s, GuardAllow)"
  by (simp add: check_policy_def guard_item_def agent_card_def refs_of_def agent_scope_of_def sample_worker_def work_ir_def work_node_def sample_ir_def
      plain_node_def filter_map_def callee_def plan_node_def agents_of_node_def card_gate_default_def guard_policy_def unparseable_tenant_policy_def
      get_tenant_def node_decision_def policy_chain_def Let_def)

lemma work_run: "worker_run sample_worker held_item Claimed working 8 [] (Firing work_turn) work_reserved"
proof -
  note own = run_own [where inp = sample_input]
  have k: "tu_key work_turn = derive_idempotency_key sample_externals ''x'' ''pay'' begun" by (simp add: work_turn_def)
  have "worker_run sample_worker held_item Claimed working 0 [] Claimed working" by (rule run_start)
  then have "worker_run sample_worker held_item Claimed working (Suc 0) [] Loading begun"
    by (rule own) (simp_all add: ended_def work_rooms ids_new_def start_node_def begun_def sample_input_def sample_worker_def)
  then have "worker_run sample_worker held_item Claimed working (Suc (Suc 0)) [] (Guarding work_ir work_node budget_default) begun"
    by (rule own) (simp_all add: ended_def work_rooms ids_new_def load_node_def parse_payload_def json_get_def worker_load_ir_def get_workflow_def
        begun_parts working_eq sample_worker_def sample_guard_def sample_env_def ir_node_def work_ir_def load_budget_state_def latest_snapshot_def backend_new_def)
  then have "worker_run sample_worker held_item Claimed working (Suc (Suc (Suc 0))) [] (Deciding work_ir work_node budget_default GuardAllow) begun"
    by (rule own) (simp_all add: ended_def work_rooms ids_new_def work_guard begun_parts working_eq backend_new_def)
  then have "worker_run sample_worker held_item Claimed working (Suc (Suc (Suc (Suc 0)))) [] (Spending work_ir work_node budget_default) begun"
    by (rule own) (simp_all add: ended_def work_rooms ids_new_def settle_outcome_def)
  then have "worker_run sample_worker held_item Claimed working (Suc (Suc (Suc (Suc (Suc 0))))) [] (Keying work_ir work_node budget_default) begun"
    by (rule own) (simp_all add: ended_def work_rooms ids_new_def check_budget_before_execution_def exhausted_def cost_trip_def work_ir_def sample_ir_def)
  then have "worker_run sample_worker held_item Claimed working (Suc (Suc (Suc (Suc (Suc (Suc 0)))))) [] (Looking work_turn) begun"
    by (rule own) (simp_all add: ended_def work_rooms ids_new_def work_turn_def sample_worker_env)
  then have "worker_run sample_worker held_item Claimed working (Suc (Suc (Suc (Suc (Suc (Suc (Suc 0))))))) [] (Reserving work_turn 0) begun"
    by (rule own) (simp_all add: ended_def work_rooms ids_new_def get_tool_effect_def begun_parts working_eq backend_new_def)
  then have "worker_run sample_worker held_item Claimed working (Suc (Suc (Suc (Suc (Suc (Suc (Suc (Suc 0)))))))) [] (Firing work_turn) work_reserved"
    by (rule own) (simp_all add: ended_def work_rooms ids_new_def reserve_key_def work_reserved_def sample_worker_env sample_input_def
        reserve_tool_effect_def begun_parts working_eq backend_new_def Let_def sample_worker_def)
  then show ?thesis by (simp add: eval_nat_numeral)
qed

theorem worker_turn_ends_witness: "ended (snd (run_item sample_worker held_item (\<lambda>_. sample_input) 0 (Firing work_turn) work_reserved))"
  using worker_turn_ends [OF work_run] by blast

theorem fired_call_is_cleared_witness:
  "\<exists>h k inp s. worker_turn sample_worker held_item working (h @ [(Reserving work_turn k, inp, s)]) (Firing work_turn) work_reserved \<and>
     snd (reserve_tool_effect (wk_x sample_worker) (si_now inp) (tu_key work_turn) (wk_id sample_worker) (wi_lease_fence held_item) reservation_ttl_ms s) = Acquired"
proof -
  obtain h where h: "worker_turn sample_worker held_item working h (Firing work_turn) work_reserved" using worker_run_turn [OF work_run] by blast
  from fired_call_is_cleared [OF h] h show ?thesis by (metis append.assoc)
qed

definition work_done :: node_completed where
  "work_done = \<lparr>nc_node_id = ''pay'', nc_output = JObject [], nc_state_patch = patch_into_snapshot_state budget_default (JObject []),
     nc_duration_ms = 0, nc_gen_ai_system = None, nc_gen_ai_model = None, nc_input_tokens = None, nc_output_tokens = None,
     nc_finish_reason = None, nc_cost_usd = None, nc_provenance = None, nc_idempotency_key = Some (tu_key work_turn)\<rparr>"

lemma nothing_spent: "accumulate None None None budget_default = budget_default"
  by (simp add: accumulate_def budget_default_def wrap_u64_def round_f64_def)

lemma default_budget_wf: "budget_wf budget_default"
  by (simp add: budget_wf_def budget_default_def)

lemma work_no_ceiling: "within_ceilings work_ir b" "budget_excess w node work_ir b = None"
  by (simp_all add: budget_excess_iff within_ceilings_def work_ir_def sample_ir_def)

lemma work_spilled: "spilled (wk_x sample_worker) (wk_codec sample_worker) (wk_threshold sample_worker) (JObject []) s = (s, JObject [])"
  by (simp add: spilled_def spill_bytes_def sample_worker_def sample_codec_def)

lemma work_commits: "worker_run sample_worker held_item Claimed working 11 [] (Committing (NodeCompleted work_done) True) work_reserved"
proof -
  note own = run_own [where inp = sample_input]
  have parts: "tu_budget work_turn = budget_default" "tu_ir work_turn = work_ir" by (simp_all add: work_turn_def)
  have "worker_run sample_worker held_item Claimed working 9 [] (Charging work_turn (stub_result 0)) work_reserved"
    using own [OF work_run, of work_reserved "Charging work_turn (stub_result 0)"]
    by (simp add: ended_def work_rooms ids_new_def fire_def call_executor_def sample_worker_def sample_input_def)
  note 9 = this
  have "worker_run sample_worker held_item Claimed working 10 []
      (Storing work_turn ((stub_result 0)\<lparr>er_state_patch := patch_into_snapshot_state budget_default (JObject [])\<rparr>)) work_reserved"
    using own [OF 9, of work_reserved]
    by (simp add: ended_def work_rooms ids_new_def check_budget_after_execution_def stub_result_def parts nothing_spent work_no_ceiling Let_def)
  from own [OF this, of work_reserved "Committing (NodeCompleted work_done) True"] show ?thesis
    by (simp add: ended_def work_rooms ids_new_def store_output_def work_spilled stub_result_def work_done_def sample_input_def)
qed

theorem committed_turn_within_ceilings_witness:
  "\<exists>h t r. worker_turn sample_worker held_item working h (Committing (NodeCompleted work_done) True) work_reserved \<and>
     keyed sample_worker held_item h t \<and> obtained sample_worker held_item h t r \<and> tu_key t = tu_key work_turn"
proof -
  obtain h where h: "worker_turn sample_worker held_item working h (Committing (NodeCompleted work_done) True) work_reserved"
    using worker_run_turn [OF work_commits] by blast
  obtain t r where "keyed sample_worker held_item h t" "obtained sample_worker held_item h t r" "nc_idempotency_key work_done = Some (tu_key t)"
    using committed_turn_within_ceilings [OF h] by blast
  then show ?thesis using h by (intro exI [of _ h] exI [of _ t] exI [of _ r]) (simp add: work_done_def)
qed





lemma work_fence: "fence_matches work_reserved ''w'' 1" "get_tool_effect k work_reserved = None"
  by (simp_all add: fence_matches_def get_tool_effect_def work_reserved_def reserve_tool_effect_def Let_def begun_def append_next_def append_event_def
      push_event_def working_eq held_item_def backend_new_def sample_item_def split: option.split)

theorem recorded_turn_is_replayed_witness:
  "\<exists>s r. worker_step sample_worker held_item sample_input (Looking work_turn) s = (s, Charging work_turn r) \<and> er_output r = JObject []"
proof -
  obtain s1 ph1 where "worker_step sample_worker held_item sample_input (Committing (NodeCompleted work_done) True) work_reserved = (s1, ph1)" by fastforce
  from recorded_turn_is_replayed [OF _ _ _ this trace_nil] show ?thesis
    by (fastforce simp: work_fence work_done_def)
qed

theorem turn_overwrites_budget_witness:
  "load_budget_state ''x'' (fst (run_item sample_worker held_item (\<lambda>_. sample_input) 0 (Charging work_turn (stub_result 0)) working)) = budget_default"
proof -
  have "fence_matches working ''w'' 1" "mb_next_sequence working = 1"
    by (simp_all add: working_eq fence_matches_def backend_new_def held_item_def sample_item_def)
  moreover obtain mat where "materialize ''x'' working = Inr mat" "json_wf (ms_current_state mat)"
    by (simp add: materialize_def working_eq backend_new_def get_execution_def materialize_from_def latest_snapshot_def get_events_since_def
        sample_execution_def log_of_def apply_events_seeded_def origin_state_def)
  ultimately show ?thesis
    using turn_overwrites_budget [OF working_trace, of held_item mat "stub_result 0" "[]" work_turn sample_worker "\<lambda>_. sample_input" 0]
    by (simp add: stub_result_def work_turn_def nothing_spent work_no_ceiling default_budget_wf)
qed

end
