(* ===== verification/Rollover.thy ===== *)
theory Rollover
  imports Worker_Runs
begin

text \<open>
  Continue-as-new at a budget ceiling (\<^verbatim>\<open>rollover_segment\<close> of \<^verbatim>\<open>runtime/workers/src/worker.rs\<close>): the next segment is
  created, the boundary recorded in the old log and the old run ended, in this order and by three writes.
  Shown: a crash between any two of them and a retry leave one next segment, started once from the carried
  state, one boundary, and the old run ended.
\<close>

section \<open>The run of a rollover\<close>

definition next_segment_id :: "worker_env \<Rightarrow> work_item \<Rightarrow> nat \<Rightarrow> execution_id" where
  "next_segment_id w item n = segment_execution_id (wk_v5 w) (wi_execution_id item) n"

lemma roll_run_marked:
  assumes "list_ex is_boundary (log_of u (wi_execution_id item))"
  shows "run_item w item inputs k (Rolling t) u =
    (fst (finalize_rollover_fenced (si_now (inputs (Suc k))) (wi_execution_id item) (wi_id item) (wi_lease_fence item) u), Ended (Inr ()))"
proof -
  have "worker_step w item (inputs k) (Rolling t) u = (u, RollSettling)" using assms by (simp add: roll_guard_def get_events_def)
  from run_item_next [where inputs = inputs, OF _ this] run_item_next [of RollSettling w item inputs "Suc k" u] show ?thesis
    by (simp add: ended_def roll_settle_def run_item_Ended)
qed

lemma roll_run_open:
  assumes "\<not> list_ex is_boundary (log_of u (wi_execution_id item))" and "get_execution (wi_execution_id item) u = Some ex"
    and "\<not> is_terminal (we_status ex)" and "materialize (wi_execution_id item) u = Inr mat"
    and "wrap_u32 (we_segment_number ex + 1) = n" and "roll_spawn w item (inputs (Suc (Suc (Suc k)))) t n mat u = (v, ph)"
  shows "run_item w item inputs k (Rolling t) u =
    (fst (finalize_rollover_fenced (si_now (inputs (Suc (Suc (Suc (Suc (Suc k))))))) (wi_execution_id item) (wi_id item) (wi_lease_fence item)
       (append_next (wk_sched w) (si_now (inputs (Suc (Suc (Suc (Suc k)))))) (wi_execution_id item)
          (SegmentBoundary n (exec_label (next_segment_id w item n))) v)), Ended (Inr ()))"
proof -
  have ph: "ph = RollMarking n (next_segment_id w item n)"
    using assms(6) by (auto simp: roll_spawn_def start_next_segment_def next_segment_id_def Let_def split: prod.splits if_splits)
  have 1: "worker_step w item (inputs k) (Rolling t) u = (u, RollLoading t)" using assms(1) by (simp add: roll_guard_def get_events_def)
  have 2: "worker_step w item (inputs (Suc k)) (RollLoading t) u = (u, RollCarrying t n)" using assms(2,3,5) by (simp add: roll_load_def)
  have 3: "worker_step w item (inputs (Suc (Suc k))) (RollCarrying t n) u = (u, RollSpawning t n mat)" using assms(4) by (simp add: roll_carry_def)
  have 4: "worker_step w item (inputs (Suc (Suc (Suc k)))) (RollSpawning t n mat) u = (v, RollMarking n (next_segment_id w item n))"
    using assms(6) ph by simp
  show ?thesis
    using run_item_next [where inputs = inputs, OF _ 1] run_item_next [where inputs = inputs, OF _ 2] run_item_next [where inputs = inputs, OF _ 3] run_item_next [where inputs = inputs, OF _ 4]
      run_item_next [of "RollMarking n (next_segment_id w item n)" w item inputs "Suc (Suc (Suc (Suc k)))" v]
      run_item_next [of RollSettling w item inputs "Suc (Suc (Suc (Suc (Suc k))))"]
    by (simp add: ended_def roll_mark_def roll_settle_def run_item_Ended)
qed

section \<open>What a rollover leaves\<close>

text \<open>The next segment, started once from the carried state.\<close>

definition segment_started :: "worker_env \<Rightarrow> work_item \<Rightarrow> nat \<Rightarrow> json \<Rightarrow> in_memory_backend \<Rightarrow> bool" where
  "segment_started w item n carried u =
     (\<exists>ex. get_execution (next_segment_id w item n) u = Some ex \<and> we_parent_execution_id ex = Some (wi_execution_id item) \<and>
        we_segment_number ex = n \<and> we_initial_input ex = carried \<and> length (log_of u (next_segment_id w item n)) = 2)"

definition rolled_over :: "worker_env \<Rightarrow> work_item \<Rightarrow> nat \<Rightarrow> json \<Rightarrow> in_memory_backend \<Rightarrow> bool" where
  "rolled_over w item n carried u =
     (segment_started w item n carried u \<and> length (filter is_boundary (log_of u (wi_execution_id item))) = 1 \<and>
      mb_work_items u (wi_id item) = None \<and> run_is_terminal u (wi_execution_id item))"

lemma finalize_rolled:
  assumes "segment_started w item n carried u" and "length (filter is_boundary (log_of u (wi_execution_id item))) = 1"
    and "fence_matches u (wi_id item) (wi_lease_fence item)" and "mb_executions u (wi_execution_id item) \<noteq> None"
    and "next_segment_id w item n \<noteq> wi_execution_id item"
  shows "rolled_over w item n carried (fst (finalize_rollover_fenced now (wi_execution_id item) (wi_id item) (wi_lease_fence item) u))"
  using assms
  by (auto simp: rolled_over_def segment_started_def finalize_rollover_fenced_def remove_item_def Let_def get_execution_def run_is_terminal_def
      log_of_def split: option.splits)

lemma append_next_parts:
  "log_of (append_next env now e kind s) e' =
     log_of s e' @ (if e' = e then [(next_event env now e kind s)\<lparr>ev_sequence := mb_next_sequence s\<rparr>] else [])"
  "mb_executions (append_next env now e kind s) = mb_executions s" "mb_work_items (append_next env now e kind s) = mb_work_items s"
  by (auto simp: append_next_def append_event_fst log_of_push push_event_frame next_event_def event_new_def)

lemma mark_rolled:
  assumes "segment_started w item n carried v" and "\<not> list_ex is_boundary (log_of v (wi_execution_id item))"
    and "fence_matches v (wi_id item) (wi_lease_fence item)" and "mb_executions v (wi_execution_id item) \<noteq> None"
    and "next_segment_id w item n \<noteq> wi_execution_id item"
  shows "rolled_over w item n carried
    (fst (finalize_rollover_fenced now (wi_execution_id item) (wi_id item) (wi_lease_fence item)
       (append_next env now' (wi_execution_id item) (SegmentBoundary n l) v)))"
proof (rule finalize_rolled)
  have "filter is_boundary (log_of v (wi_execution_id item)) = []" using assms(2) by (simp add: filter_empty_conv list_ex_iff)
  then show "length (filter is_boundary (log_of (append_next env now' (wi_execution_id item) (SegmentBoundary n l) v) (wi_execution_id item))) = 1"
    by (simp add: append_next_parts is_boundary_def next_event_def event_new_def)
qed (use assms in \<open>simp_all add: segment_started_def append_next_parts get_execution_def fence_matches_def\<close>)

lemma spawn_parts:
  assumes "roll_spawn w item inp t n mat u = (v, ph)" and "room u" and "ids_new w item (RollSpawning t n mat) u"
    and "get_execution (next_segment_id w item n) u = None" and "fence_matches u (wi_id item) (wi_lease_fence item)"
    and "next_segment_id w item n \<noteq> wi_execution_id item"
  shows "segment_started w item n (ms_current_state mat) v" and "log_of v (wi_execution_id item) = log_of u (wi_execution_id item)"
    and "fence_matches v (wi_id item) (wi_lease_fence item)" and "mb_executions v (wi_execution_id item) = mb_executions u (wi_execution_id item)"
    and "mb_snapshots v (wi_execution_id item) = mb_snapshots u (wi_execution_id item)"
proof -
  define c where "c = next_segment_id w item n"
  define ex where "ex = segment_execution (si_now inp) c (wi_execution_id item) (ms_current_state mat) (roll_spec item t) n"
  obtain k1 k2 where v: "v = create_segment_atomic (wk_fresh w) (si_now inp) ex
      (seed_for_segment (wk_fresh w (mb_next_sequence u)) (si_now inp) c (ms_current_state mat)) k1 k2
      (segment_work_item (si_now inp) (se_item_id (wk_sched w) (mb_next_sequence u)) c (roll_spec item t)) u"
    using assms(1,4) by (auto simp: roll_spawn_def start_next_segment_def c_def next_segment_id_def ex_def Let_def split: prod.splits if_splits)
  have ex: "we_execution_id ex = c" by (simp add: ex_def segment_execution_def)
  have new: "log_of u c = []" "mb_work_items u (se_item_id (wk_sched w) (mb_next_sequence u)) = None"
    using assms(3,4) by (simp_all add: ids_new_def c_def next_segment_id_def fresh_run_def)
  have seq: "0 < mb_next_sequence u" "mb_next_sequence u < 2 ^ 63 - 2" using assms(2) by (simp_all add: room_def)
  note parts = create_segment_parts [OF v seq, unfolded ex, OF new(1)]
  have other: "se_item_id (wk_sched w) (mb_next_sequence u) \<noteq> wi_id item" using assms(5) new(2) by (auto simp: fence_matches_def)
  have "length (log_of v c) = 2" using parts(2) by (metis length_map list.size(3,4) One_nat_def Suc_eq_plus1 numeral_2_eq_2)
  then show "segment_started w item n (ms_current_state mat) v"
    using parts(1) by (simp add: segment_started_def c_def [symmetric] get_execution_def) (simp add: ex_def segment_execution_def)
  show "log_of v (wi_execution_id item) = log_of u (wi_execution_id item)" using parts(4) assms(6) by (simp add: c_def)
  show "fence_matches v (wi_id item) (wi_lease_fence item)"
    using assms(5) other parts(6) by (simp add: fence_matches_def segment_work_item_def)
  show "mb_executions v (wi_execution_id item) = mb_executions u (wi_execution_id item)" using parts(1) assms(6) by (simp add: c_def)
  show "mb_snapshots v (wi_execution_id item) = mb_snapshots u (wi_execution_id item)" using parts(5) assms(6) by (simp add: c_def)
qed

lemma spawn_again:
  "get_execution (next_segment_id w item n) u \<noteq> None \<Longrightarrow> roll_spawn w item inp t n mat u = (u, RollMarking n (next_segment_id w item n))"
  by (simp add: roll_spawn_def start_next_segment_def next_segment_id_def Let_def)

section \<open>Crash and retry\<close>

text \<open>C12: A rollover survives a crash.  Whether the worker stopped before its first write, after it had created the next
  segment or after it had recorded the boundary, another attempt on the item ends it: one next segment, started
  once from the state the run had when the first attempt materialized it, one boundary in the old log, the old run
  ended and the item settled.\<close>

theorem rollover_survives_crash:
  assumes "room s" and "ids_new w item (RollSpawning t n mat) s" and "get_execution (next_segment_id w item n) s = None"
    and "get_execution (wi_execution_id item) s = Some ex" and "\<not> is_terminal (we_status ex)" and "wrap_u32 (we_segment_number ex + 1) = n"
    and "\<not> list_ex is_boundary (log_of s (wi_execution_id item))" and "materialize (wi_execution_id item) s = Inr mat"
    and "fence_matches s (wi_id item) (wi_lease_fence item)" and "next_segment_id w item n \<noteq> wi_execution_id item"
    and "worker_step w item inp1 (RollSpawning t n mat) s = (s1, ph1)" and "worker_step w item inp2 ph1 s1 = (s2, ph2)"
    and "u \<in> {s, s1, s2}"
  shows "rolled_over w item n (ms_current_state mat) (fst (run_item w item inputs k (Rolling t') u))"
proof -
  have ph1: "ph1 = RollMarking n (next_segment_id w item n)" and sp: "roll_spawn w item inp1 t n mat s = (s1, ph1)"
    using assms(3,11) by (auto simp: roll_spawn_def start_next_segment_def next_segment_id_def Let_def)
  note one = spawn_parts [OF sp assms(1-3,9,10)]
  have exec: "mb_executions s (wi_execution_id item) = Some ex" using assms(4) by (simp add: get_execution_def)
  have s2: "s2 = append_next (wk_sched w) (si_now inp2) (wi_execution_id item) (SegmentBoundary n (exec_label (next_segment_id w item n))) s1"
    using assms(12) ph1 by (simp add: roll_mark_def)
  consider "u = s" | "u = s1" | "u = s2" using assms(13) by blast
  then show ?thesis
  proof cases
    case 1
    obtain v ph where v: "roll_spawn w item (inputs (Suc (Suc (Suc k)))) t' n mat s = (v, ph)" by fastforce
    have ids: "ids_new w item (RollSpawning t' n mat) s" using assms(2) by (simp add: ids_new_def)
    note again = spawn_parts [OF v assms(1) ids assms(3,9,10)]
    show ?thesis unfolding 1 roll_run_open [where inputs = inputs and k = k, OF assms(7,4,5,8,6) v] fst_conv
      by (rule mark_rolled) (use again assms(7,10) exec in simp_all)
  next
    case 2
    have g: "get_execution (wi_execution_id item) s1 = Some ex" using one(4) exec by (simp add: get_execution_def)
    have b: "\<not> list_ex is_boundary (log_of s1 (wi_execution_id item))" using one(2) assms(7) by simp
    obtain mat' where m: "materialize (wi_execution_id item) s1 = Inr mat'" using g by (simp add: materialize_replayed get_execution_def)
    have "get_execution (next_segment_id w item n) s1 \<noteq> None" using one(1) by (auto simp: segment_started_def)
    note v = spawn_again [OF this, of "inputs (Suc (Suc (Suc k)))" t' mat']
    show ?thesis unfolding 2 roll_run_open [where inputs = inputs and k = k, OF b g assms(5) m assms(6) v] fst_conv
      by (rule mark_rolled) (use one b assms(10) exec in simp_all)
  next
    case 3
    have l: "log_of s2 (wi_execution_id item) = log_of s1 (wi_execution_id item) @
        [(next_event (wk_sched w) (si_now inp2) (wi_execution_id item) (SegmentBoundary n (exec_label (next_segment_id w item n))) s1)
          \<lparr>ev_sequence := mb_next_sequence s1\<rparr>]"
      by (simp add: s2 append_next_parts)
    have none: "filter is_boundary (log_of s1 (wi_execution_id item)) = []"
      using one(2) assms(7) by (simp add: filter_empty_conv list_ex_iff)
    have b: "list_ex is_boundary (log_of s2 (wi_execution_id item))" "length (filter is_boundary (log_of s2 (wi_execution_id item))) = 1"
      using none by (simp_all add: l is_boundary_def next_event_def event_new_def)
    show ?thesis unfolding 3 roll_run_marked [OF b(1)] fst_conv
      by (rule finalize_rolled)
        (use one b(2) assms(10) exec in \<open>simp_all add: s2 segment_started_def append_next_parts get_execution_def fence_matches_def\<close>)
  qed
qed

lemma working_segment: "next_segment_id sample_worker held_item 1 \<noteq> ''x''"
  by (simp add: next_segment_id_def segment_execution_id_def sample_worker_def exec_label_def)

lemma working_run:
  "get_execution ''x'' working = Some sample_execution" "log_of working e = []" "fence_matches working ''w'' 1"
  "e \<noteq> ''x'' \<Longrightarrow> get_execution e working = None" "e \<noteq> ''x'' \<Longrightarrow> fresh_run working e"
  "mb_work_items working i = None \<longleftrightarrow> i \<noteq> ''w''" "mb_lease_epochs working i = None \<longleftrightarrow> i \<noteq> ''w''"
  by (simp_all add: working_eq get_execution_def log_of_def backend_new_def fence_matches_def held_item_def sample_item_def fresh_run_def)

theorem rollover_survives_crash_witness:
  "\<exists>mat s1 ph1. worker_step sample_worker held_item sample_input (RollSpawning work_turn 1 mat) working = (s1, ph1) \<and>
     rolled_over sample_worker held_item 1 (ms_current_state mat) (fst (run_item sample_worker held_item (\<lambda>_. sample_input) 0 (Rolling work_turn) s1))"
proof -
  obtain mat where mat: "materialize ''x'' working = Inr mat" using working_run(1) by (simp add: materialize_replayed get_execution_def)
  obtain s1 ph1 where 1: "worker_step sample_worker held_item sample_input (RollSpawning work_turn 1 mat) working = (s1, ph1)" by fastforce
  obtain s2 ph2 where 2: "worker_step sample_worker held_item sample_input ph1 s1 = (s2, ph2)" by fastforce
  have "se_item_id (wk_sched sample_worker) n \<noteq> ''w''" for n by (simp add: sample_worker_def sample_guard_def sample_env_def)
  then have ids: "ids_new sample_worker held_item (RollSpawning work_turn 1 mat) working"
    using working_segment by (simp add: ids_new_def working_run next_segment_id_def)
  have "rolled_over sample_worker held_item 1 (ms_current_state mat) (fst (run_item sample_worker held_item (\<lambda>_. sample_input) 0 (Rolling work_turn) s1))"
    by (rule rollover_survives_crash [OF work_rooms(1) ids _ _ _ _ _ _ _ _ 1 2, where ex = sample_execution])
      (use working_segment mat in \<open>simp_all add: working_run\<close>, simp_all add: sample_execution_def wrap_u32_def)
  with 1 show ?thesis by blast
qed

end
