(* ===== verification/Condition_Node.thy ===== *)
theory Condition_Node
  imports Worker_Runs
begin

text \<open>
  The executor of condition nodes (\<^verbatim>\<open>runtime/workers/src/executors/condition_node.rs\<close>) between the two
  components it connects: the payload the scheduler builds is what it reads, and the route it writes into the
  output of the node is what the progress fold of the scheduler reads back to decide which edges are dead.
  The JSON parser of literals is a parameter, as in \<open>Condition\<close>.
\<close>

section \<open>Reading the branches\<close>

text \<open>The derived reader of \<^verbatim>\<open>Option<String>\<close>, and of a branch as an object or as a sequence of its fields.\<close>

definition read_text_option :: "json \<Rightarrow> string option option" where
  "read_text_option v = (case v of JNull \<Rightarrow> Some None | JString t \<Rightarrow> Some (Some t) | _ \<Rightarrow> None)"

definition branch_of_fields :: "json \<Rightarrow> json \<Rightarrow> conditional_branch option" where
  "branch_of_fields c t =
     Option.bind (read_text_option c) (\<lambda>cond. map_option (\<lambda>target. \<lparr>cb_condition = cond, cb_target = target\<rparr>) (as_str t))"

definition read_branch :: "json \<Rightarrow> conditional_branch option" where
  "read_branch v =
     (case v of
        JObject m \<Rightarrow>
          Option.bind (bt_get m ''target'') (\<lambda>t. branch_of_fields (case bt_get m ''condition'' of Some c \<Rightarrow> c | None \<Rightarrow> JNull) t)
      | JArray [c, t] \<Rightarrow> branch_of_fields c t
      | _ \<Rightarrow> None)"

fun read_all :: "('a \<Rightarrow> 'b option) \<Rightarrow> 'a list \<Rightarrow> 'b list option" where
  "read_all f [] = Some []"
| "read_all f (v # vs) = Option.bind (f v) (\<lambda>y. map_option ((#) y) (read_all f vs))"

definition read_branches :: "json \<Rightarrow> conditional_branch list option" where
  "read_branches v = (case v of JArray vs \<Rightarrow> read_all read_branch vs | _ \<Rightarrow> None)"

section \<open>Choosing\<close>

text \<open>One branch: the first condition that holds is kept, and the first branch without a condition.\<close>

definition try_branch ::
    "(string \<Rightarrow> json option) \<Rightarrow> json \<Rightarrow> conditional_branch \<Rightarrow> node_id option \<times> node_id option \<Rightarrow> node_id option \<times> node_id option" where
  "try_branch from_str state b acc =
     (case acc of (chosen, default_branch) \<Rightarrow>
        (case cb_condition b of
           Some expr \<Rightarrow> (if chosen = None \<and> eval_condition from_str expr state then Some (cb_target b) else chosen, default_branch)
         | None \<Rightarrow> (chosen, if default_branch = None then Some (cb_target b) else default_branch)))"

definition resolve_branch :: "(string \<Rightarrow> json option) \<Rightarrow> json \<Rightarrow> conditional_branch list \<Rightarrow> node_id option" where
  "resolve_branch from_str state branches =
     (case fold (try_branch from_str state) branches (None, None) of
        (Some t, _) \<Rightarrow> Some t
      | (None, default_branch) \<Rightarrow> default_branch)"

definition plain_result :: "nat \<Rightarrow> json \<Rightarrow> execution_result" where
  "plain_result elapsed output =
     \<lparr>er_output = output, er_state_patch = JObject [], er_duration_ms = elapsed, er_gen_ai_system = None, er_gen_ai_model = None,
      er_input_tokens = None, er_output_tokens = None, er_finish_reason = None\<rparr>"

definition routing_json :: "node_id option \<Rightarrow> conditional_branch list \<Rightarrow> json" where
  "routing_json resolved branches =
     json_object [(''chosen_target'', opt_json JString resolved), (''branch_targets'', JArray (map (\<lambda>b. JString (cb_target b)) branches))]"

text \<open>\<^verbatim>\<open>serde_error\<close> is the message of the reader; the long dash of the text, outside the code points of the model, is a hyphen.\<close>

definition execute_condition ::
    "(string \<Rightarrow> json option) \<Rightarrow> (json \<Rightarrow> string) \<Rightarrow> nat \<Rightarrow> work_item \<Rightarrow> executor_error + execution_result" where
  "execute_condition from_str serde_error elapsed item =
     (case json_get (wi_payload item) ''branches'' of
        None \<Rightarrow> Inr (plain_result elapsed (JObject []))
      | Some raw \<Rightarrow>
          (case read_branches raw of
             None \<Rightarrow>
               Inl (Fatal (''condition node '' @ [CHR 0x60] @ wi_node_id item @ [CHR 0x60] @ '': malformed '' @ [CHR 0x60] @ ''branches'' @ [CHR 0x60] @
                 '' payload - expected an array of {condition, target} objects; '' @ serde_error raw))
           | Some branches \<Rightarrow>
               if branches = [] then Inr (plain_result elapsed (JObject []))
               else
                 (let state = (case json_get (wi_payload item) ''state'' of Some st \<Rightarrow> st | None \<Rightarrow> JObject [])
                  in Inr (plain_result elapsed (routing_json (resolve_branch from_str state branches) branches)))))"

section \<open>The route\<close>

text \<open>The reference: the first branch whose condition holds, else the first one without a condition.\<close>

definition route_of :: "(string \<Rightarrow> json option) \<Rightarrow> json \<Rightarrow> conditional_branch list \<Rightarrow> node_id option" where
  "route_of from_str state branches =
     (case find (\<lambda>b. case cb_condition b of Some expr \<Rightarrow> eval_condition from_str expr state | None \<Rightarrow> False) branches of
        Some b \<Rightarrow> Some (cb_target b)
      | None \<Rightarrow> map_option cb_target (find (\<lambda>b. cb_condition b = None) branches))"

lemma try_branches:
  "fold (try_branch from_str state) branches (c, d) =
     (if c = None
      then map_option cb_target (find (\<lambda>b. case cb_condition b of Some expr \<Rightarrow> eval_condition from_str expr state | None \<Rightarrow> False) branches)
      else c,
      if d = None then map_option cb_target (find (\<lambda>b. cb_condition b = None) branches) else d)"
  by (induction branches arbitrary: c d) (auto simp: try_branch_def split: option.splits)

lemma resolve_is_route: "resolve_branch from_str state branches = route_of from_str state branches"
  by (simp add: resolve_branch_def route_of_def try_branches split: option.splits)

lemma read_branch_json: "read_branch (branch_json b) = Some b"
  by (cases "cb_condition b")
    (simp_all add: branch_json_def json_object_def read_branch_def branch_of_fields_def read_text_option_def)

lemma read_branches_json: "read_branches (JArray (map branch_json branches)) = Some branches"
proof -
  have "read_all read_branch (map branch_json branches) = Some branches" by (induction branches) (simp_all add: read_branch_json)
  then show ?thesis by (simp add: read_branches_def)
qed

lemma payload_branches:
  assumes "nd_kind nd = ConditionNode branches" and "branches \<noteq> []"
  shows "json_get (build_work_item_payload ir i nd state w v) ''branches'' = Some (JArray (map branch_json branches))"
    and "json_get (build_work_item_payload ir i nd state w v) ''state'' = Some (JObject state)"
  using assms by (simp_all add: build_work_item_payload_def payload_members_def json_get_object)

text \<open>An item the scheduler has built for a condition node is never refused: its executor answers with the route.\<close>

lemma execute_condition_routes:
  assumes "nd_kind nd = ConditionNode branches" and "branches \<noteq> []" and "wi_payload item = build_work_item_payload ir i nd state w v"
  shows "execute_condition from_str serde_error elapsed item =
    Inr (plain_result elapsed (routing_json (route_of from_str (JObject state) branches) branches))"
  using assms(2) payload_branches [OF assms(1,2)] by (simp add: execute_condition_def assms(3) read_branches_json resolve_is_route)


text \<open>The completion of the node as the worker commits it, with the counters of the budget in its patch.\<close>

lemma condition_completion:
  assumes "check_budget_after_execution we item inp t (plain_result elapsed output) s = (s1, Storing t' r)"
    and "store_output we item inp' t' r s2 = (s3, Committing kind snap)"
  obtains nc where "kind = NodeCompleted nc" and "nc_node_id nc = wi_node_id item"
    and "nc_output nc = snd (spilled (wk_x we) (wk_codec we) (wk_threshold we) output s2)"
    and "\<exists>b. nc_state_patch nc = JObject [(''__budget'', b)]"
proof -
  have "er_output r = output" "\<exists>b. er_state_patch r = JObject [(''__budget'', b)]"
    using assms(1)
    by (auto simp: check_budget_after_execution_def plain_result_def patch_into_snapshot_state_def Let_def split: option.splits prod.splits if_splits)
  with assms(2) show ?thesis by (elim exE) (auto simp: store_output_def Let_def split: prod.splits intro!: that)
qed

lemma completed_route:
  assumes "ir_node ir i = Some nd" and "nd_kind nd = ConditionNode branches" and "branches \<noteq> []"
    and "ev_kind ev = NodeCompleted nc" and "nc_node_id nc = i" and "i \<notin> ep_skipped p" and "ep_routes p i = None"
  shows "dead_in ir (progress_apply x ev p) i n \<longleftrightarrow> chosen_target (nc_output nc) \<noteq> Some n"
  using assms by (cases "chosen_target (nc_output nc)") (simp_all add: progress_apply_def progress_kind_def edge_dead_def Let_def)

text \<open>A route too long for the log is lost: when the output of a condition node is above the size at which the worker
  moves outputs out of the log, what the fold reads is a reference without a chosen target, and every edge
  out of the node is dead whatever branch was chosen.\<close>

theorem spilled_route_is_lost:
  assumes "ir_node ir i = Some nd" and "nd_kind nd = ConditionNode branches" and "branches \<noteq> []"
    and "wi_payload item = build_work_item_payload ir i nd state wid v" and "wi_node_id item = i"
    and "execute_condition from_str serde_error elapsed item = Inr r"
    and "check_budget_after_execution we item inp t r s = (s1, Storing t' r')"
    and "store_output we item inp' t' r' s2 = (s3, Committing kind snap)"
    and "length (jc_to_vec (wk_codec we) (er_output r)) > wk_threshold we"
    and "ev_kind ev = kind" and "i \<notin> ep_skipped p" and "ep_routes p i = None"
  shows "dead_in ir (progress_apply x ev p) i n"
proof -
  have r: "r = plain_result elapsed (routing_json (route_of from_str (JObject state) branches) branches)"
    using execute_condition_routes [OF assms(2-4)] assms(6) by simp
  obtain nc where nc: "kind = NodeCompleted nc" "nc_node_id nc = wi_node_id item"
      "nc_output nc = snd (spilled (wk_x we) (wk_codec we) (wk_threshold we) (er_output r) s2)"
    by (rule condition_completion [OF assms(7) [unfolded r] assms(8)]) (simp add: r plain_result_def)
  have "chosen_target (nc_output nc) = None"
    using nc(3) assms(9) by (auto simp: spilled_def spill_bytes_def Let_def to_sentinel_def chosen_target_def json_get_object artifact_sentinel_key_def split: prod.splits)
  then show ?thesis using completed_route [OF assms(1-3)] nc(1,2) assms(5,10-12) by simp
qed


section \<open>Witnesses\<close>

definition gate_item :: work_item where
  "gate_item = held_item\<lparr>wi_node_id := ''a'', wi_payload := build_work_item_payload sample_ir ''a'' (snd (hd (ir_nodes sample_ir))) [(''ok'', JBool True)] ''w'' ''1.0.0''\<rparr>"

lemma gate_node: "ir_node sample_ir ''a'' = Some (snd (hd (ir_nodes sample_ir)))"
    "nd_kind (snd (hd (ir_nodes sample_ir))) = ConditionNode [\<lparr>cb_condition = Some ''state.ok'', cb_target = ''b''\<rparr>]"
  by (simp_all add: sample_ir_def ir_node_def plain_node_def)


text \<open>A worker without ceilings commits what the executor answers.\<close>

lemma gate_charged:
  "\<exists>r'. check_budget_after_execution we item inp work_turn r s = (s, Storing work_turn r')"
  by (simp add: check_budget_after_execution_def budget_excess_def work_turn_def work_ir_def sample_ir_def Let_def)

lemma gate_stored: "\<exists>s' nc. store_output we item inp t r s = (s', Committing (NodeCompleted nc) True)"
  by (simp add: store_output_def Let_def split_beta)


theorem spilled_route_is_lost_witness:
  "\<exists>nc. nc_node_id nc = ''a'' \<and>
     dead_in sample_ir (progress_apply sample_externals (event_new ''e'' 0 ''x'' 1 (NodeCompleted nc)) progress_default) ''a'' ''b''"
proof -
  let ?w = "sample_worker\<lparr>wk_threshold := 10\<rparr>"
  obtain r where r: "execute_condition (\<lambda>_. None) (\<lambda>_. []) 0 gate_item = Inr r"
    using execute_condition_routes [OF gate_node(2)] by (simp add: gate_item_def)
  obtain r' where c: "check_budget_after_execution ?w gate_item Worker_Runs.sample_input work_turn r working = (working, Storing work_turn r')"
    using gate_charged by blast
  obtain s' nc where st: "store_output ?w gate_item Worker_Runs.sample_input work_turn r' working = (s', Committing (NodeCompleted nc) True)"
    using gate_stored by metis
  have "nc_node_id nc = ''a''" using st by (auto simp: store_output_def gate_item_def Let_def split_beta)
  then show ?thesis
    using spilled_route_is_lost [OF gate_node _ _ _ r c st, where state = "[(''ok'', JBool True)]" and wid = "''w''" and v = "''1.0.0''"
        and ev = "event_new ''e'' 0 ''x'' 1 (NodeCompleted nc)" and p = progress_default and x = sample_externals and n = "''b''"]
    by (auto simp: gate_item_def sample_worker_def sample_codec_def event_new_def progress_default_def)
qed

end
