(* ===== verification/Claim_Api.thy ===== *)
theory Claim_Api
  imports Worker_Runs Approval_Api
begin

text \<open>
  The worker protocol over HTTP (\<^verbatim>\<open>runtime/api/src/routes.rs\<close>): claiming, completing, failing and
  renewing a work item by a worker outside the engine, which is not trusted to enforce anything.  A request is
  no transaction: what the other components do at the n-th point between two calls of the backend, and the
  clock there, are arguments.  The readers of a node kind, a node, a policy, an agent reference and the
  remote agents (serde) and of ids (uuid) are parameters.
\<close>

section \<open>Requests and answers\<close>

record request_env =
  rq_now :: "nat \<Rightarrow> timestamp"
  rq_others :: "nat \<Rightarrow> in_memory_backend \<Rightarrow> in_memory_backend"

record api_env =
  ap_guard :: guard_env
  ap_registry :: "string \<Rightarrow> string + autonomy_constraints option option"
  ap_parse_kind :: "json \<Rightarrow> string + node_kind"
  ap_parse_node :: "json \<Rightarrow> string + node_def"
  ap_parse_policy :: "json \<Rightarrow> string + policy_set"
  ap_parse_agent_ref :: "json \<Rightarrow> string + string"
  ap_parse_remote_agents :: "json \<Rightarrow> string + (string \<times> string) list"
  ap_parse_uuid :: "string \<Rightarrow> uuid option"

abbreviation ap_sched :: "api_env \<Rightarrow> sched_env" where "ap_sched a \<equiv> ge_sched (ap_guard a)"

abbreviation ap_x :: "api_env \<Rightarrow> externals" where "ap_x a \<equiv> ge_x (ap_guard a)"

abbreviation ap_fresh :: "api_env \<Rightarrow> event_sequence \<Rightarrow> uuid" where "ap_fresh a \<equiv> se_fresh (ap_sched a)"

datatype api_error =
    ApiNotFound string
  | ApiBadRequest string
  | ApiConflict string
  | ApiInternal string
  | ApiUnauthorized
  | ApiForbidden string

datatype status_code = StOk | StCreated | StConflict | StServiceUnavailable

type_synonym api_result = "api_error + status_code \<times> json"

definition api_error_of :: "backend_error \<Rightarrow> api_error" where
  "api_error_of err =
     (case err of
        NotFound msg \<Rightarrow> ApiNotFound msg
      | VersionConflict msg \<Rightarrow> ApiConflict (backend_error_text err)
      | _ \<Rightarrow> ApiInternal (backend_error_text err))"

definition fresh_event :: "api_env \<Rightarrow> timestamp \<Rightarrow> execution_id \<Rightarrow> event_kind \<Rightarrow> in_memory_backend \<Rightarrow> event" where
  "fresh_event a now e kind s = event_new (ap_fresh a (mb_next_sequence s)) now e 0 kind"

section \<open>What the guard reads of a workflow\<close>

record guard_inputs =
  gi_workflow_policy :: "policy_set option"
  gi_workflow_agent :: "string option"
  gi_remote_agents :: "(string \<times> string) list"
  gi_node_def :: node_def

text \<open>A member that is absent or null; one that is there and cannot be read is an error.\<close>

definition read_member :: "(json \<Rightarrow> string + 'a) \<Rightarrow> string \<Rightarrow> string \<Rightarrow> json \<Rightarrow> string + 'a option" where
  "read_member parse key what ir_value =
     (case json_get ir_value key of
        None \<Rightarrow> Inr None
      | Some raw \<Rightarrow>
          if is_null raw then Inr None
          else (case parse raw of Inl err \<Rightarrow> Inl (''failed to load workflow '' @ what @ '': '' @ err) | Inr v \<Rightarrow> Inr (Some v)))"

definition raw_node :: "json \<Rightarrow> node_id \<Rightarrow> json option" where
  "raw_node ir_value node = Option.bind (json_get ir_value ''nodes'') (\<lambda>nodes. json_get nodes node)"

definition guard_inputs_from_raw :: "api_env \<Rightarrow> json \<Rightarrow> node_id \<Rightarrow> string + guard_inputs" where
  "guard_inputs_from_raw a ir_value node =
     and_then (ok_or (''node '' @ node @ '' not found in IR'') (raw_node ir_value node)) (\<lambda>raw.
     and_then (case ap_parse_node a raw of Inl err \<Rightarrow> Inl (''failed to load node definition: '' @ err) | Inr nd \<Rightarrow> Inr nd) (\<lambda>nd.
     and_then (read_member (ap_parse_policy a) ''policy'' ''policy'' ir_value) (\<lambda>policy.
     and_then (read_member (ap_parse_agent_ref a) ''agent_ref'' ''agent_ref'' ir_value) (\<lambda>agent.
     and_then (read_member (ap_parse_remote_agents a) ''remote_agents'' ''remote_agents'' ir_value) (\<lambda>remote.
       Inr \<lparr>gi_workflow_policy = policy, gi_workflow_agent = agent,
            gi_remote_agents = (case remote of Some r \<Rightarrow> r | None \<Rightarrow> []), gi_node_def = nd\<rparr>)))))"

definition read_kind :: "api_env \<Rightarrow> json \<Rightarrow> node_id \<Rightarrow> string + node_kind" where
  "read_kind a ir_value node =
     (case Option.bind (raw_node ir_value node) (\<lambda>nd. json_get nd ''kind'') of
        None \<Rightarrow> Inl (''no readable kind for node '' @ node @ '' in IR'')
      | Some raw \<Rightarrow> (case ap_parse_kind a raw of Inl err \<Rightarrow> Inl (''failed to load node kind: '' @ err) | Inr kind \<Rightarrow> Inr kind))"

definition claim_inputs :: "api_env \<Rightarrow> json \<Rightarrow> node_id \<Rightarrow> string + guard_inputs" where
  "claim_inputs a ir_value node =
     and_then (read_kind a ir_value node) (\<lambda>kind.
       if is_agent_tool_dispatch kind
       then (case se_parse_ir (ap_sched a) ir_value of
               Inl err \<Rightarrow> Inl (''failed to load IR: '' @ err)
             | Inr ir \<Rightarrow>
                 (case ir_node ir node of
                    None \<Rightarrow> Inl (''node '' @ node @ '' not found in IR'')
                  | Some nd \<Rightarrow>
                      Inr \<lparr>gi_workflow_policy = ir_policy ir, gi_workflow_agent = ir_agent_ref ir,
                           gi_remote_agents = ir_remote_agents ir, gi_node_def = nd\<rparr>))
       else guard_inputs_from_raw a ir_value node)"

definition scope_of_inputs :: "api_env \<Rightarrow> guard_inputs \<Rightarrow> agent_scope" where
  "scope_of_inputs a gi =
     \<lparr>sc_workflow_agent = gi_workflow_agent gi, sc_remote_agents = Some (map_of (gi_remote_agents gi)), sc_registry = Some (ap_registry a)\<rparr>"

definition check_inputs ::
    "guard_env \<Rightarrow> api_env \<Rightarrow> guard_mode \<Rightarrow> timestamp \<Rightarrow> work_item \<Rightarrow> guard_inputs \<Rightarrow> in_memory_backend \<Rightarrow> in_memory_backend \<times> guard_outcome" where
  "check_inputs g a mode now wi gi s =
     guard_item g mode now (wi_execution_id wi) (wi_node_id wi) (wi_tenant_id wi) (gi_workflow_policy gi) (gi_node_def gi)
       (wi_payload wi) (scope_of_inputs a gi) (Some (wi_id wi)) s"

section \<open>Claiming\<close>

datatype claim_gate = Release | Withhold

record claim_request =
  cl_worker_id :: string
  cl_queue_types :: "string list"
  cl_lease_secs :: "nat option"

definition nothing_to_claim :: json where
  "nothing_to_claim = json_object [(''claimed'', JBool False)]"

definition fail_node :: "api_env \<Rightarrow> timestamp \<Rightarrow> work_item \<Rightarrow> string \<Rightarrow> in_memory_backend \<Rightarrow> in_memory_backend \<times> claim_gate" where
  "fail_node a now wi reason s =
     (fst (commit_turn_unless_terminal (ap_fresh a) now (wi_id wi) (wi_lease_fence wi)
             (fresh_event a now (wi_execution_id wi) (NodeFailed (wi_node_id wi) reason (wi_attempt wi) False) s) False s), Withhold)"

definition payload_disagrees :: "work_item \<Rightarrow> string \<Rightarrow> string \<Rightarrow> bool" where
  "payload_disagrees wi key authoritative =
     (case Option.bind (json_get (wi_payload wi) key) as_str of Some claimed \<Rightarrow> claimed \<noteq> authoritative | None \<Rightarrow> False)"

definition settle_gate :: "api_env \<Rightarrow> timestamp \<Rightarrow> work_item \<Rightarrow> guard_outcome \<Rightarrow> in_memory_backend \<Rightarrow> in_memory_backend \<times> claim_gate" where
  "settle_gate a now wi outcome s =
     (case outcome of
        GuardAllow \<Rightarrow> (s, Release)
      | GuardBlocked reason \<Rightarrow> fail_node a now wi (''policy blocked: '' @ reason) s
      | GuardHeld _ \<Rightarrow> (fst (complete_work_item_fenced (wi_id wi) (wi_lease_fence wi) s), Withhold)
      | GuardUnavailable _ \<Rightarrow> (s, Withhold))"

definition gate_claimed_item :: "api_env \<Rightarrow> request_env \<Rightarrow> work_item \<Rightarrow> in_memory_backend \<Rightarrow> in_memory_backend \<times> claim_gate" where
  "gate_claimed_item a q wi s =
     (case get_execution (wi_execution_id wi) s of
        None \<Rightarrow> (fst (fail_work_item (wi_id wi) (rq_others q 100 s)), Withhold)
      | Some execution \<Rightarrow>
          (let workflow_id = we_workflow_id execution; workflow_version = we_workflow_version execution;
               s = rq_others q 100 s
           in if payload_disagrees wi ''workflow_id'' workflow_id \<or> payload_disagrees wi ''workflow_version'' workflow_version
              then (fst (fail_work_item (wi_id wi) s), Withhold)
              else (case get_workflow workflow_id workflow_version s of
                      None \<Rightarrow> fail_node a (rq_now q 101) wi (''workflow '' @ workflow_id @ '' v'' @ workflow_version @ '' not found'') (rq_others q 101 s)
                    | Some def \<Rightarrow>
                        (let s = rq_others q 101 s
                         in (case claim_inputs a (wd_ir def) (wi_node_id wi) of
                               Inl reason \<Rightarrow> fail_node a (rq_now q 102) wi reason s
                             | Inr gi \<Rightarrow>
                                 (let (s, outcome) = check_inputs (ap_guard a) a Fire (rq_now q 102) wi gi s
                                  in settle_gate a (rq_now q 103) wi outcome (rq_others q 102 s)))))))"

text \<open>At most 16 candidates: the item of a run that has ended is settled and the next one claimed.\<close>

fun claim_live ::
    "api_env \<Rightarrow> request_env \<Rightarrow> claim_request \<Rightarrow> nat \<Rightarrow> in_memory_backend \<Rightarrow> in_memory_backend \<times> (api_error + work_item option)" where
  "claim_live a q body 0 s = (s, Inr None)"
| "claim_live a q body (Suc n) s =
     (case claim_work_item_with_lease (ap_fresh a) (rq_now q (2 * n)) (se_item_order (ap_sched a)) (cl_worker_id body) (cl_queue_types body)
             (Some (granted_lease_secs (cl_lease_secs body))) s of
        (s, None) \<Rightarrow> (s, Inr None)
      | (s, Some candidate) \<Rightarrow>
          (let s = rq_others q (2 * n) s
           in (case get_execution (wi_execution_id candidate) s of
                 Some ex \<Rightarrow>
                   if is_terminal (we_status ex)
                   then (case fail_work_item (wi_id candidate) (rq_others q (2 * n + 1) s) of
                           (s, Inl err) \<Rightarrow> (s, Inl (api_error_of err))
                         | (s, Inr _) \<Rightarrow> claim_live a q body n s)
                   else (s, Inr (Some candidate))
               | None \<Rightarrow> (s, Inr (Some candidate)))))"

definition claimed_json :: "claim_request \<Rightarrow> work_item \<Rightarrow> string \<Rightarrow> json" where
  "claimed_json body wi key =
     json_object [(''claimed'', JBool True),
       (''work_item'', json_object
          [(''id'', JString (wi_id wi)), (''execution_id'', JString (exec_label (wi_execution_id wi))), (''node_id'', JString (wi_node_id wi)),
           (''queue_type'', JString (wi_queue_type wi)), (''payload'', wi_payload wi), (''attempt'', json_nat (wi_attempt wi)),
           (''lease_fence'', json_int (wi_lease_fence wi)), (''lease_secs'', json_nat (granted_lease_secs (cl_lease_secs body))),
           (''idempotency_key'', JString key)])]"

text \<open>The answer, and the item it hands out.\<close>

definition claim_route ::
    "api_env \<Rightarrow> request_env \<Rightarrow> claim_request \<Rightarrow> in_memory_backend \<Rightarrow> in_memory_backend \<times> work_item option \<times> (api_error + json)" where
  "claim_route a q body s =
     (case claim_live a q body 16 s of
        (s, Inl err) \<Rightarrow> (s, None, Inl err)
      | (s, Inr None) \<Rightarrow> (s, None, Inr nothing_to_claim)
      | (s, Inr (Some wi)) \<Rightarrow>
          (case gate_claimed_item a q wi (rq_others q 99 s) of
             (s, Withhold) \<Rightarrow> (s, None, Inr nothing_to_claim)
           | (s, Release) \<Rightarrow>
               (s, Some wi, Inr (claimed_json body wi (derive_idempotency_key (ap_x a) (wi_execution_id wi) (wi_node_id wi) (rq_others q 104 s))))))"

section \<open>Completing\<close>

text \<open>Whether a result for the item may be recorded, decided from records the engine has written.\<close>

definition completion_gate ::
    "api_env \<Rightarrow> request_env \<Rightarrow> work_item \<Rightarrow> in_memory_backend \<Rightarrow> in_memory_backend \<times> (status_code \<times> string + unit)" where
  "completion_gate a q wi s =
     (case get_execution (wi_execution_id wi) s of
        None \<Rightarrow> (s, Inl (StConflict, ''execution not found''))
      | Some execution \<Rightarrow>
          (let s = rq_others q 3 s
           in (case get_workflow (we_workflow_id execution) (we_workflow_version execution) s of
                 None \<Rightarrow> (s, Inl (StConflict, ''workflow '' @ we_workflow_id execution @ '' v'' @ we_workflow_version execution @ '' not found''))
               | Some def \<Rightarrow>
                   (case guard_inputs_from_raw a (wd_ir def) (wi_node_id wi) of
                      Inl reason \<Rightarrow> (s, Inl (StConflict, reason))
                    | Inr gi \<Rightarrow>
                        (let (s, outcome) = check_inputs ((ap_guard a)\<lparr>ge_sched := (ap_sched a)\<lparr>se_sealer := None\<rparr>\<rparr>) a Complete (rq_now q 4) wi gi (rq_others q 4 s)
                         in (s, (case outcome of
                                   GuardAllow \<Rightarrow> Inr ()
                                 | GuardBlocked reason \<Rightarrow> Inl (StConflict, ''policy blocked: '' @ reason)
                                 | GuardHeld _ \<Rightarrow>
                                     Inl (StConflict, ''node requires an approval that does not cover this occurrence; a result can be recorded only for an approved action'')
                                 | GuardUnavailable reason \<Rightarrow> Inl (StServiceUnavailable, reason))))))))"

record complete_request =
  cr_execution_id :: "string option"
  cr_node_id :: "string option"
  cr_output :: json
  cr_state_patch :: json
  cr_duration_ms :: nat
  cr_lease_fence :: "int option"
  cr_idempotency_key :: "string option"
  cr_gen_ai_system :: "string option"
  cr_gen_ai_model :: "string option"
  cr_input_tokens :: "nat option"
  cr_output_tokens :: "nat option"
  cr_finish_reason :: "string option"
  cr_cost_usd :: "f64 option"

definition cost_is_spend :: "f64 option \<Rightarrow> bool" where
  "cost_is_spend cost_usd = (case cost_usd of Some (Finite c) \<Rightarrow> 0 \<le> c | Some _ \<Rightarrow> False | None \<Rightarrow> True)"

definition reported_completion :: "complete_request \<Rightarrow> string option \<Rightarrow> node_id \<Rightarrow> node_completed" where
  "reported_completion body key node =
     \<lparr>nc_node_id = node, nc_output = cr_output body, nc_state_patch = action_state (cr_state_patch body), nc_duration_ms = cr_duration_ms body,
      nc_gen_ai_system = cr_gen_ai_system body, nc_gen_ai_model = cr_gen_ai_model body, nc_input_tokens = cr_input_tokens body,
      nc_output_tokens = cr_output_tokens body, nc_finish_reason = cr_finish_reason body, nc_cost_usd = cr_cost_usd body, nc_provenance = None,
      nc_idempotency_key = key\<rparr>"

definition not_completed :: "status_code \<Rightarrow> string \<Rightarrow> api_result" where
  "not_completed status reason = Inr (status, json_object [(''completed'', JBool False), (''reason'', JString reason)])"

definition stale_fence_text :: string where "stale_fence_text = ''stale or invalid lease fence''"

text \<open>The settlement of the item: an answer that ends the request, or whether the event was recorded with it.\<close>

definition settle_fenced ::
    "api_env \<Rightarrow> request_env \<Rightarrow> work_item_id \<Rightarrow> int \<Rightarrow> complete_request \<Rightarrow> string option \<Rightarrow> work_item \<Rightarrow> in_memory_backend \<Rightarrow>
     in_memory_backend \<times> (api_result + bool)" where
  "settle_fenced a q i fence body key wi s =
     (case commit_turn_unless_terminal (ap_fresh a) (rq_now q 6) i fence
             (fresh_event a (rq_now q 6) (wi_execution_id wi) (NodeCompleted (reported_completion body key (wi_node_id wi))) s) True s of
        (s, Inr (Committed _)) \<Rightarrow> (s, Inr True)
      | (s, Inr (CommitTerminal status)) \<Rightarrow> (s, Inl (not_completed StConflict (''execution is '' @ status_debug status)))
      | (s, Inl (FenceLost _)) \<Rightarrow> (s, Inl (not_completed StConflict stale_fence_text))
      | (s, Inl err) \<Rightarrow> (s, Inl (Inl (api_error_of err))))"

definition settle_unfenced ::
    "api_env \<Rightarrow> request_env \<Rightarrow> bool \<Rightarrow> work_item_id \<Rightarrow> work_item option \<Rightarrow> in_memory_backend \<Rightarrow> in_memory_backend \<times> (api_result + bool)" where
  "settle_unfenced a q dev i recorded s =
     (case recorded of
        None \<Rightarrow> (complete_work_item i s, Inr False)
      | Some wi \<Rightarrow>
          if \<not> dev \<and> node_approval_status (ap_x a) (get_events (wi_execution_id wi) s) (wi_node_id wi) \<noteq> NotRequested
          then (s, Inl (not_completed StConflict ''an approval-gated node's result must echo the lease_fence from its claim''))
          else (let s = rq_others q 6 s
                in (case get_execution (wi_execution_id wi) s of
                      Some ex \<Rightarrow>
                        if is_terminal (we_status ex)
                        then (s, Inl (not_completed StConflict (''execution is '' @ status_debug (we_status ex))))
                        else (complete_work_item i (rq_others q 7 s), Inr False)
                    | None \<Rightarrow> (complete_work_item i (rq_others q 7 s), Inr False))))"

definition settle_completion ::
    "api_env \<Rightarrow> request_env \<Rightarrow> bool \<Rightarrow> work_item_id \<Rightarrow> complete_request \<Rightarrow> string option \<Rightarrow> work_item option \<Rightarrow> in_memory_backend \<Rightarrow>
     in_memory_backend \<times> (api_result + bool)" where
  "settle_completion a q dev i body key recorded s =
     (case (cr_lease_fence body, recorded) of
        (Some fence, Some wi) \<Rightarrow> settle_fenced a q i fence body key wi s
      | (Some fence, None) \<Rightarrow>
          (case complete_work_item_fenced i fence s of
             (s, True) \<Rightarrow> (s, Inr False)
           | (s, False) \<Rightarrow> (s, Inl (not_completed StConflict stale_fence_text)))
      | (None, _) \<Rightarrow> settle_unfenced a q dev i recorded s)"

definition refresh_state :: "request_env \<Rightarrow> complete_request \<Rightarrow> execution_id \<Rightarrow> in_memory_backend \<Rightarrow> in_memory_backend" where
  "refresh_state q body e s =
     (case get_execution e s of
        None \<Rightarrow> s
      | Some ex \<Rightarrow>
          fst (update_execution_current_state (rq_now q 10) e
                 (case (we_current_state ex, action_state (cr_state_patch body)) of
                    (JObject state, JObject patch) \<Rightarrow> JObject (fold (\<lambda>(k, v). bt_insert k v) patch state)
                  | (state, _) \<Rightarrow> state)
                 (rq_others q 10 s)))"

definition complete_route ::
    "api_env \<Rightarrow> request_env \<Rightarrow> bool \<Rightarrow> string \<Rightarrow> complete_request \<Rightarrow> in_memory_backend \<Rightarrow> in_memory_backend \<times> api_result" where
  "complete_route a q dev path body s =
     (case ap_parse_uuid a path of
        None \<Rightarrow> (s, Inl (ApiBadRequest (''invalid work item id: '' @ path)))
      | Some i \<Rightarrow>
          (let recorded = get_work_item i s;
               s = rq_others q 1 s;
               key = map_option (\<lambda>wi. derive_idempotency_key (ap_x a) (wi_execution_id wi) (wi_node_id wi) s) recorded
           in if \<not> cost_is_spend (cr_cost_usd body) then (s, Inl (ApiBadRequest ''cost_usd must be a non-negative number''))
              else if (case cr_lease_fence body of Some f \<Rightarrow> f \<le> 0 | None \<Rightarrow> False) then (s, not_completed StConflict stale_fence_text)
              else
                (case (case recorded of Some wi \<Rightarrow> completion_gate a q wi (rq_others q 2 s) | None \<Rightarrow> (s, Inr ())) of
                   (s, Inl (status, reason)) \<Rightarrow> (s, not_completed status reason)
                 | (s, Inr _) \<Rightarrow>
                     (case settle_completion a q dev i body key recorded (rq_others q 5 s) of
                        (s, Inl answer) \<Rightarrow> (s, answer)
                      | (s, Inr committed) \<Rightarrow>
                          (let s = rq_others q 8 s;
                               s = (case recorded of
                                      Some wi \<Rightarrow>
                                        if committed then s
                                        else append_next (ap_sched a) (rq_now q 8) (wi_execution_id wi)
                                               (NodeCompleted (reported_completion body key (wi_node_id wi))) s
                                    | None \<Rightarrow> s);
                               s = (case recorded of Some wi \<Rightarrow> refresh_state q body (wi_execution_id wi) (rq_others q 9 s) | None \<Rightarrow> s)
                           in (s, Inr (StOk, json_object [(''completed'', JBool True), (''work_item_id'', JString path)])))))))"

section \<open>Failing, renewing and enqueueing\<close>

record fail_request =
  fl_error :: string
  fl_lease_fence :: "int option"

definition not_failed :: "string \<Rightarrow> string \<Rightarrow> api_result" where
  "not_failed path reason =
     Inr (StConflict, json_object [(''failed'', JBool False), (''work_item_id'', JString path), (''reason'', JString reason)])"

text \<open>The run of the item, if it is known and has ended.\<close>

definition ended_run_of :: "request_env \<Rightarrow> work_item option \<Rightarrow> in_memory_backend \<Rightarrow> workflow_status option" where
  "ended_run_of q recorded s =
     Option.bind recorded (\<lambda>wi. Option.bind (get_execution (wi_execution_id wi) (rq_others q 1 s)) (\<lambda>ex.
       if is_terminal (we_status ex) then Some (we_status ex) else None))"

definition report_failure ::
    "api_env \<Rightarrow> request_env \<Rightarrow> string \<Rightarrow> string \<Rightarrow> fail_outcome \<Rightarrow> in_memory_backend \<Rightarrow> in_memory_backend \<times> api_result" where
  "report_failure a q path err outcome s =
     (let (item, retryable, delay_ms) =
            (case outcome of Retryable item delay \<Rightarrow> (item, True, Some delay) | Exhausted item \<Rightarrow> (item, False, None));
          s = append_next (ap_sched a) (rq_now q 4) (wi_execution_id item)
                (NodeFailed (wi_node_id item) err (if retryable then wi_attempt item - 1 else wi_attempt item) retryable) (rq_others q 3 s);
          s = (case delay_ms of
                 Some d \<Rightarrow> append_next (ap_sched a) (rq_now q 5) (wi_execution_id item)
                             (RetryScheduled (wi_node_id item) (wi_attempt item) d) (rq_others q 4 s)
               | None \<Rightarrow> s)
      in (s, Inr (StOk, json_object [(''failed'', JBool True), (''work_item_id'', JString path), (''retryable'', JBool retryable),
                                     (''attempt'', json_nat (wi_attempt item))])))"

definition fail_route ::
    "api_env \<Rightarrow> request_env \<Rightarrow> string \<Rightarrow> fail_request \<Rightarrow> in_memory_backend \<Rightarrow> in_memory_backend \<times> api_result" where
  "fail_route a q path body s =
     (case ap_parse_uuid a path of
        None \<Rightarrow> (s, Inl (ApiBadRequest (''invalid work item id: '' @ path)))
      | Some i \<Rightarrow>
          (case ended_run_of q (get_work_item i s) s of
             Some status \<Rightarrow>
               (case (case fl_lease_fence body of Some f \<Rightarrow> if f > 0 then Some f else None | None \<Rightarrow> None) of
                  Some fence \<Rightarrow> (fst (withdraw_work_item_fenced i fence (rq_others q 2 (rq_others q 1 s))), not_failed path (''execution is '' @ status_debug status))
                | None \<Rightarrow> (rq_others q 1 s, not_failed path (''execution is '' @ status_debug status)))
           | None \<Rightarrow>
               (let s = rq_others q 2 (rq_others q 1 s)
                in (case fl_lease_fence body of
                      None \<Rightarrow>
                        (case fail_work_item i s of
                           (s, Inl err) \<Rightarrow> (s, Inl (api_error_of err))
                         | (s, Inr _) \<Rightarrow>
                             (s, Inr (StOk, json_object [(''failed'', JBool True), (''work_item_id'', JString path), (''retryable'', JBool False),
                                (''warning'', JString ''unfenced fail: no NodeFailed emitted and the node is not rescheduled; echo lease_fence'')])))
                    | Some fence \<Rightarrow>
                        (case fail_work_item_fenced i fence (fl_error body) s of
                           (s, None) \<Rightarrow> (s, not_failed path stale_fence_text)
                         | (s, Some outcome) \<Rightarrow> report_failure a q path (fl_error body) outcome s)))))"

record heartbeat_request =
  hb_worker_id :: string
  hb_lease_fence :: int

definition heartbeat_route ::
    "api_env \<Rightarrow> request_env \<Rightarrow> string \<Rightarrow> heartbeat_request \<Rightarrow> in_memory_backend \<Rightarrow> in_memory_backend \<times> (api_error + json)" where
  "heartbeat_route a q path body s =
     (case ap_parse_uuid a path of
        None \<Rightarrow> (s, Inl (ApiBadRequest (''invalid work item id: '' @ path)))
      | Some i \<Rightarrow>
          (case heartbeat_lease (rq_now q 1) i (hb_worker_id body) (hb_lease_fence body) s of
             (s, Inl (FenceLost _)) \<Rightarrow> (s, Inl (ApiConflict (''lease on work item '' @ path @ '' is no longer held by '' @ hb_worker_id body)))
           | (s, Inl err) \<Rightarrow> (s, Inl (api_error_of err))
           | (s, Inr renewal) \<Rightarrow>
               (let s = rq_others q 1 s; found = get_work_item i s; s = rq_others q 2 s;
                    cancel_requested =
                      (case found of
                         Some wi \<Rightarrow> (case get_execution (wi_execution_id wi) s of Some ex \<Rightarrow> is_terminal (we_status ex) | None \<Rightarrow> False)
                       | None \<Rightarrow> False)
                in (s, Inr (json_object [(''renewed'', JBool True), (''work_item_id'', JString path), (''lease_fence'', json_int (lr_lease_fence renewal)),
                      (''reattached'', JBool (lr_reattached renewal)), (''cancel_requested'', JBool cancel_requested)])))))"

record enqueue_request =
  eq_execution_id :: string
  eq_node_id :: string
  eq_queue_type :: string
  eq_payload :: json

definition parse_execution_id :: "api_env \<Rightarrow> string \<Rightarrow> api_error + execution_id" where
  "parse_execution_id a t =
     ok_or (ApiBadRequest (''invalid execution id: '' @ t)) (ap_parse_uuid a (case strip_prefix ''exec_'' t of Some h \<Rightarrow> h | None \<Rightarrow> t))"

definition enqueue_route ::
    "api_env \<Rightarrow> request_env \<Rightarrow> string \<Rightarrow> enqueue_request \<Rightarrow> in_memory_backend \<Rightarrow> in_memory_backend \<times> api_result" where
  "enqueue_route a q tenant_id body s =
     (case parse_execution_id a (eq_execution_id body) of
        Inl err \<Rightarrow> (s, Inl err)
      | Inr e \<Rightarrow>
          (let s = rq_others q 1 (append_next (ap_sched a) (rq_now q 1) e (NodeScheduled (eq_node_id body) (eq_queue_type body)) s);
               (s, i) = enqueue_work_item
                  \<lparr>wi_id = se_item_id (ap_sched a) (mb_next_sequence s), wi_execution_id = e, wi_node_id = eq_node_id body, wi_queue_type = eq_queue_type body,
                   wi_payload = eq_payload body, wi_attempt = 0, wi_max_attempts = 3, wi_created_at = rq_now q 2, wi_lease_expires_at = None,
                   wi_worker_id = None, wi_lease_fence = 0, wi_tenant_id = tenant_id\<rparr> s
           in (s, Inr (StCreated, json_object [(''work_item_id'', JString i)]))))"

end
