(* ===== verification/Claim_Runs.thy ===== *)
theory Claim_Runs
  imports Claim_Api
begin

text \<open>
  What the worker protocol guarantees against a worker that is not trusted: an item is handed out only after the
  guard let it fire under the workflow its run is registered with, a result is recorded only after the guard
  let it be recorded and under the fence of the claim, a refused report records nothing, and no report
  reaches the counters of the budget.
\<close>

section \<open>Requests among the other components\<close>

text \<open>The others act through the backend.\<close>

definition orderly :: "api_env \<Rightarrow> request_env \<Rightarrow> bool" where
  "orderly a q = (\<forall>n s. \<exists>ls. backend_trace (ap_x a) (ap_fresh a) s ls (rq_others q n s))"

definition stays :: "in_memory_backend \<Rightarrow> in_memory_backend \<Rightarrow> bool" where
  "stays s s' = (mb_workflows s \<subseteq>\<^sub>m mb_workflows s')"

lemma stays_refl [simp]: "stays s s"
  by (simp add: stays_def)

lemma stays_trans [trans]: "stays s t \<Longrightarrow> stays t u \<Longrightarrow> stays s u"
  unfolding stays_def by (rule map_le_trans)

lemma stays_others: "orderly a q \<Longrightarrow> stays s (rq_others q n s)"
  unfolding orderly_def stays_def using trace_keeps_stored by (meson keeps_stored_def)

lemma stays_workflow: "stays s t \<Longrightarrow> get_workflow w v s = Some def \<Longrightarrow> get_workflow w v t = Some def"
  unfolding stays_def get_workflow_def by (rule map_le_SomeD)

lemma stays_same: "mb_workflows t = mb_workflows s \<Longrightarrow> stays s t"
  by (simp add: stays_def)

section \<open>What is handed out\<close>

lemma append_if_workflows: "mb_workflows (fst (append_event_if ev cond s)) = mb_workflows s"
  by (simp add: append_event_if_def split_beta frame Let_def split: option.split)

lemma writes_workflows: "writes n s s' \<Longrightarrow> mb_workflows s' = mb_workflows s"
  by (induction rule: writes.induct) (simp_all add: append_event_fst append_if_workflows frame)

lemma stays_check: "stays u (fst (check_inputs g a mode now wi gi u))"
  unfolding check_inputs_def by (rule stays_same) (rule writes_workflows [OF guard_item_writes])

text \<open>The states a gate reads: the record of the run in the first, the registered workflow after the others have acted, and the
  verdict of the guard after they have acted once more.\<close>

lemma gate_release:
  assumes "gate_claimed_item a q wi s = (s', Release)"
  shows "\<exists>ex def gi u. get_execution (wi_execution_id wi) s = Some ex \<and>
    \<not> payload_disagrees wi ''workflow_id'' (we_workflow_id ex) \<and> \<not> payload_disagrees wi ''workflow_version'' (we_workflow_version ex) \<and>
    get_workflow (we_workflow_id ex) (we_workflow_version ex) (rq_others q 100 s) = Some def \<and>
    claim_inputs a (wd_ir def) (wi_node_id wi) = Inr gi \<and>
    check_inputs (ap_guard a) a Fire (rq_now q 102) wi gi (rq_others q 101 (rq_others q 100 s)) = (u, GuardAllow) \<and> s' = rq_others q 102 u"
proof (cases "get_execution (wi_execution_id wi) s")
  case None
  then show ?thesis using assms by (simp add: gate_claimed_item_def)
next
  case (Some ex)
  then show ?thesis using assms [unfolded gate_claimed_item_def Some option.case Let_def fail_node_def settle_gate_def]
    by (auto split: if_splits option.splits sum.splits prod.splits guard_outcome.splits)
qed

text \<open>The states a claim goes through on its way to an item: the others act, it takes a lease, or it gives an item back.\<close>

inductive on_the_way :: "api_env \<Rightarrow> request_env \<Rightarrow> claim_request \<Rightarrow> in_memory_backend \<Rightarrow> in_memory_backend \<Rightarrow> bool" for a q body s where
  way_here: "on_the_way a q body s s"
| way_others: "on_the_way a q body s t \<Longrightarrow> on_the_way a q body s (rq_others q n t)"
| way_lease:
    "on_the_way a q body s t \<Longrightarrow>
     claim_work_item_with_lease (ap_fresh a) (rq_now q n) (se_item_order (ap_sched a)) (cl_worker_id body) (cl_queue_types body)
       (Some (granted_lease_secs (cl_lease_secs body))) t = (u, r) \<Longrightarrow> on_the_way a q body s u"
| way_back: "on_the_way a q body s t \<Longrightarrow> on_the_way a q body s (fst (fail_work_item i t))"

lemma way_trans: "on_the_way a q body t u \<Longrightarrow> on_the_way a q body s t \<Longrightarrow> on_the_way a q body s u"
  by (induction rule: on_the_way.induct) (auto intro: on_the_way.intros)

text \<open>A claim ends with an item the queue has just leased to it, of a run that had not ended when it was read after that.\<close>

definition leased_live :: "api_env \<Rightarrow> request_env \<Rightarrow> claim_request \<Rightarrow> in_memory_backend \<Rightarrow> work_item \<Rightarrow> in_memory_backend \<Rightarrow> bool" where
  "leased_live a q body s wi s' =
     (\<exists>n s1 s2. on_the_way a q body s s1 \<and>
        claim_work_item_with_lease (ap_fresh a) (rq_now q n) (se_item_order (ap_sched a)) (cl_worker_id body) (cl_queue_types body)
          (Some (granted_lease_secs (cl_lease_secs body))) s1 = (s2, Some wi) \<and>
        s' = rq_others q n s2 \<and> \<not> run_is_terminal s' (wi_execution_id wi))"

lemma leased_live_way: "leased_live a q body t wi s' \<Longrightarrow> on_the_way a q body s t \<Longrightarrow> leased_live a q body s wi s'"
  unfolding leased_live_def using way_trans by blast

lemma claim_live_some: "claim_live a q body n s = (s', Inr (Some wi)) \<Longrightarrow> leased_live a q body s wi s'"
proof (induction n arbitrary: s)
  case (Suc n)
  obtain s2 r where c: "claim_work_item_with_lease (ap_fresh a) (rq_now q (2 * n)) (se_item_order (ap_sched a)) (cl_worker_id body) (cl_queue_types body)
      (Some (granted_lease_secs (cl_lease_secs body))) s = (s2, r)" by fastforce
  then obtain wi' where wi': "r = Some wi'" using Suc.prems by (cases r) simp_all
  let ?t = "rq_others q (2 * n + 1) (rq_others q (2 * n) s2)"
  show ?case
  proof (cases "run_is_terminal (rq_others q (2 * n) s2) (wi_execution_id wi')")
    case True
    then have "claim_live a q body n (fst (fail_work_item (wi_id wi') ?t)) = (s', Inr (Some wi))"
      using Suc.prems c wi' by (auto simp: run_is_terminal_def get_execution_def Let_def split: prod.splits option.splits if_splits sum.splits)
    moreover have "on_the_way a q body s (fst (fail_work_item (wi_id wi') ?t))"
      using way_back [OF way_others [OF way_others [OF way_lease [OF way_here c]]]] .
    ultimately show ?thesis using Suc.IH leased_live_way by blast
  next
    case False
    then have "wi = wi'" "s' = rq_others q (2 * n) s2" using Suc.prems c wi'
      by (auto simp: run_is_terminal_def get_execution_def Let_def split: prod.splits option.splits if_splits sum.splits)
    then show ?thesis using c wi' False way_here unfolding leased_live_def by blast
  qed
qed simp

text \<open>C7: An item handed to a worker outside the engine is one the queue has leased to it in the course of this claim, of a run
  that had not ended when it was read after that.  Then, in the states the request went through, one after the other: the
  record of the run named a workflow and version, and the payload of the item named no other; the definition was the one
  registered under these names; the guard let the node fire as that definition has it.  The definition is still the one on file
  when the item is handed out.  So it does not matter who enqueued the item, and what its payload says.\<close>

theorem released_item_is_cleared:
  assumes "claim_route a q body s = (s', Some wi, ans)" and "orderly a q"
  shows "\<exists>s1 s2 ex s3 def gi u. leased_live a q body s wi s1 \<and> s2 = rq_others q 99 s1 \<and> s3 = rq_others q 100 s2 \<and>
    get_execution (wi_execution_id wi) s2 = Some ex \<and>
    \<not> payload_disagrees wi ''workflow_id'' (we_workflow_id ex) \<and> \<not> payload_disagrees wi ''workflow_version'' (we_workflow_version ex) \<and>
    get_workflow (we_workflow_id ex) (we_workflow_version ex) s3 = Some def \<and> claim_inputs a (wd_ir def) (wi_node_id wi) = Inr gi \<and>
    check_inputs (ap_guard a) a Fire (rq_now q 102) wi gi (rq_others q 101 s3) = (u, GuardAllow) \<and> s' = rq_others q 102 u \<and>
    get_workflow (we_workflow_id ex) (we_workflow_version ex) s' = Some def"
proof -
  obtain s1 where s1: "claim_live a q body 16 s = (s1, Inr (Some wi))" "gate_claimed_item a q wi (rq_others q 99 s1) = (s', Release)"
    using assms(1) by (auto simp: claim_route_def split: prod.splits sum.splits option.splits claim_gate.splits)
  let ?s3 = "rq_others q 100 (rq_others q 99 s1)"
  obtain ex def gi u where r: "get_execution (wi_execution_id wi) (rq_others q 99 s1) = Some ex"
      "\<not> payload_disagrees wi ''workflow_id'' (we_workflow_id ex)" "\<not> payload_disagrees wi ''workflow_version'' (we_workflow_version ex)"
      "get_workflow (we_workflow_id ex) (we_workflow_version ex) ?s3 = Some def" "claim_inputs a (wd_ir def) (wi_node_id wi) = Inr gi"
      "check_inputs (ap_guard a) a Fire (rq_now q 102) wi gi (rq_others q 101 ?s3) = (u, GuardAllow)" "s' = rq_others q 102 u"
    using gate_release [OF s1(2)] by blast
  have "stays ?s3 (rq_others q 101 ?s3)" by (rule stays_others [OF assms(2)])
  also have "stays (rq_others q 101 ?s3) u" using stays_check r(6) by (metis fst_conv)
  also have "stays u s'" unfolding r(7) by (rule stays_others [OF assms(2)])
  finally have "get_workflow (we_workflow_id ex) (we_workflow_version ex) s' = Some def" using r(4) by (rule stays_workflow)
  with r claim_live_some [OF s1(1)] show ?thesis by blast
qed

text \<open>Every other answer is the same, whatever the reason: the claim endpoint tells a worker nothing about the policy.\<close>

lemma refusal_is_uniform: "claim_route a q body s = (s', None, Inr ans) \<Longrightarrow> ans = nothing_to_claim"
  by (auto simp: claim_route_def split: prod.splits sum.splits option.splits claim_gate.splits)

section \<open>What is recorded\<close>

lemma check_complete: "fst (check_inputs g a Complete now wi gi u) = u"
  unfolding check_inputs_def by (rule completion_check_writes_nothing)

text \<open>The check of a result runs without the sealer of the audit log.\<close>

definition completing_guard :: "api_env \<Rightarrow> guard_env" where
  "completing_guard a = (ap_guard a)\<lparr>ge_sched := (ap_sched a)\<lparr>se_sealer := None\<rparr>\<rparr>"

lemma completion_gate_ok:
  assumes "completion_gate a q wi s = (s', Inr ())"
  shows "\<exists>ex def gi. get_execution (wi_execution_id wi) s = Some ex \<and>
    get_workflow (we_workflow_id ex) (we_workflow_version ex) (rq_others q 3 s) = Some def \<and>
    guard_inputs_from_raw a (wd_ir def) (wi_node_id wi) = Inr gi \<and> s' = rq_others q 4 (rq_others q 3 s) \<and>
    check_inputs (completing_guard a) a Complete (rq_now q 4) wi gi s' = (s', GuardAllow)"
proof (cases "get_execution (wi_execution_id wi) s")
  case None
  then show ?thesis using assms by (simp add: completion_gate_def)
next
  case (Some ex)
  let ?u = "rq_others q 4 (rq_others q 3 s)"
  obtain d gi where d: "get_workflow (we_workflow_id ex) (we_workflow_version ex) (rq_others q 3 s) = Some d"
      "guard_inputs_from_raw a (wd_ir d) (wi_node_id wi) = Inr gi" "check_inputs (completing_guard a) a Complete (rq_now q 4) wi gi ?u = (s', GuardAllow)"
    using assms [unfolded completion_gate_def Some option.case Let_def completing_guard_def [symmetric]]
    by (auto split: option.splits sum.splits prod.splits guard_outcome.splits)
  moreover have "s' = ?u" using d(3) check_complete [of "completing_guard a" a "rq_now q 4" wi gi ?u] by simp
  ultimately show ?thesis using Some by blast
qed

lemma commit_unless_Committed:
  assumes "commit_turn_unless_terminal fresh now i f ev snap s = (s', Inr (Committed n))"
  shows "\<not> run_is_terminal s (ev_execution_id ev) \<and> fence_matches s i f \<and> s' = settle_turn fresh now i ev snap s"
proof (cases "run_is_terminal s (ev_execution_id ev)")
  case True
  then show ?thesis using assms
    by (auto simp: commit_turn_unless_terminal_def run_is_terminal_def split: prod.splits option.splits bool.splits if_splits)
next
  case False
  then have "Option.bind (mb_executions s (ev_execution_id ev)) (\<lambda>entry. if is_terminal (we_status entry) then Some (we_status entry) else None) = None"
    by (auto simp: run_is_terminal_def split: option.splits)
  then have "commit_turn fresh now i f ev snap s = (s', Inr n)"
    using assms by (auto simp: commit_turn_unless_terminal_def split: prod.splits sum.splits)
  then show ?thesis
    using False commit_turn_cases [of fresh now i f ev snap s] commit_turn_ok [of fresh now i f ev snap s] by (auto split: if_splits)
qed

lemma settle_fenced_ok:
  assumes "settle_fenced a q i f body key wi s = (s', Inr committed)"
  shows "committed" and "fence_matches s i f" and "\<not> run_is_terminal s (wi_execution_id wi)"
    and "s' = settle_turn (ap_fresh a) (rq_now q 6) i
      (fresh_event a (rq_now q 6) (wi_execution_id wi) (NodeCompleted (reported_completion body key (wi_node_id wi))) s) True s"
  using assms
  by (auto simp: settle_fenced_def fresh_event_def event_new_def
      dest!: commit_unless_Committed split: prod.splits sum.splits backend_error.splits turn_commit.splits)

lemma settle_turn_parts:
  "log_of (settle_turn fresh now i ev snap s) e =
     log_of s e @ (if e = ev_execution_id ev then [ev\<lparr>ev_sequence := mb_next_sequence s\<rparr>] else [])"
  "mb_work_items (settle_turn fresh now i ev snap s) = (mb_work_items s)(i := None)"
  by (auto simp: settle_turn_def Let_def frame log_of_push queue_part_eqs(1) [OF snapshot_turn_frame(1)] queue_part_eqs(1) [OF record_effect_frame(1)])
    (simp_all add: remove_item_def)

lemma gate_refuses: "completion_gate a q wi s \<noteq> (s', Inl (StOk, r))"
  by (auto simp: completion_gate_def Let_def split: option.splits sum.splits prod.splits guard_outcome.splits)

lemma settle_refuses: "settle_completion a q dev i body key recorded s \<noteq> (s', Inl (Inr (StOk, ans)))"
  by (auto simp: settle_completion_def settle_fenced_def settle_unfenced_def not_completed_def Let_def
      split: option.splits sum.splits prod.splits turn_commit.splits backend_error.splits bool.splits if_splits)

text \<open>A run of the completion route up to its answer, for an item the engine has on file.\<close>

lemma complete_route_ok:
  assumes "complete_route a q dev path body s = (s', Inr (StOk, ans))" and "ap_parse_uuid a path = Some i" and "get_work_item i s = Some wi"
  shows "\<exists>u v committed. cost_is_spend (cr_cost_usd body) \<and> (\<forall>f. cr_lease_fence body = Some f \<longrightarrow> 0 < f) \<and>
    completion_gate a q wi (rq_others q 2 (rq_others q 1 s)) = (u, Inr ()) \<and>
    settle_completion a q dev i body (Some (derive_idempotency_key (ap_x a) (wi_execution_id wi) (wi_node_id wi) (rq_others q 1 s))) (Some wi)
      (rq_others q 5 u) = (v, Inr committed) \<and>
    (committed \<longrightarrow> s' = refresh_state q body (wi_execution_id wi) (rq_others q 9 (rq_others q 8 v)))"
  using assms
  by (auto simp: complete_route_def Let_def not_completed_def gate_refuses settle_refuses split: if_splits prod.splits sum.splits option.splits)

text \<open>C8: A result reported under the fence of a claim and accepted went through these states, one after the other.  The record of
  the item's run named a workflow and version; the definition was the one registered under them; the guard let the
  result be recorded for the node as that definition has it.  Then, in the state of the settlement, the fence was the current
  one of the item and the run had not ended, and the settlement took the item off the queue and appended one event: a
  completion of the item as the engine has it, not as the report says, under the key the engine derived, with no counter of
  the engine in its patch, and with a cost that is a spend.  Nothing but a refresh of the cached state of the run comes after it.\<close>

theorem recorded_result_is_cleared:
  assumes "complete_route a q dev path body s = (s', Inr (StOk, ans))" and "ap_parse_uuid a path = Some i" and "get_work_item i s = Some wi"
    and "cr_lease_fence body = Some f" and "json_wf (cr_state_patch body)"
  shows "\<exists>s1 s2 s3 s4 t t' ex def gi ev nc. s1 = rq_others q 1 s \<and> s2 = rq_others q 2 s1 \<and> s3 = rq_others q 3 s2 \<and> s4 = rq_others q 4 s3 \<and>
    t = rq_others q 5 s4 \<and>
    get_execution (wi_execution_id wi) s2 = Some ex \<and> get_workflow (we_workflow_id ex) (we_workflow_version ex) s3 = Some def \<and>
    guard_inputs_from_raw a (wd_ir def) (wi_node_id wi) = Inr gi \<and>
    check_inputs (completing_guard a) a Complete (rq_now q 4) wi gi s4 = (s4, GuardAllow) \<and>
    0 < f \<and> fence_matches t i f \<and> \<not> run_is_terminal t (wi_execution_id wi) \<and> mb_work_items t' = (mb_work_items t)(i := None) \<and>
    log_of t' (wi_execution_id wi) = log_of t (wi_execution_id wi) @ [ev] \<and> ev_kind ev = NodeCompleted nc \<and>
    nc = reported_completion body (Some (derive_idempotency_key (ap_x a) (wi_execution_id wi) (wi_node_id wi) s1)) (wi_node_id wi) \<and>
    json_get (nc_state_patch nc) ''__budget'' = None \<and> cost_is_spend (nc_cost_usd nc) \<and>
    s' = refresh_state q body (wi_execution_id wi) (rq_others q 9 (rq_others q 8 t'))"
proof -
  let ?e = "wi_execution_id wi"
  define key where "key = Some (derive_idempotency_key (ap_x a) ?e (wi_node_id wi) (rq_others q 1 s))"
  define nc where "nc = reported_completion body key (wi_node_id wi)"
  obtain u t' committed where u: "cost_is_spend (cr_cost_usd body)" "0 < f" "completion_gate a q wi (rq_others q 2 (rq_others q 1 s)) = (u, Inr ())"
      "settle_fenced a q i f body key wi (rq_others q 5 u) = (t', Inr committed)"
      "committed \<longrightarrow> s' = refresh_state q body ?e (rq_others q 9 (rq_others q 8 t'))"
    using complete_route_ok [OF assms(1-3)] assms(4) by (auto simp: settle_completion_def key_def)
  obtain ex def gi where r: "get_execution ?e (rq_others q 2 (rq_others q 1 s)) = Some ex"
      "get_workflow (we_workflow_id ex) (we_workflow_version ex) (rq_others q 3 (rq_others q 2 (rq_others q 1 s))) = Some def"
      "guard_inputs_from_raw a (wd_ir def) (wi_node_id wi) = Inr gi" "u = rq_others q 4 (rq_others q 3 (rq_others q 2 (rq_others q 1 s)))"
      "check_inputs (completing_guard a) a Complete (rq_now q 4) wi gi u = (u, GuardAllow)"
    using completion_gate_ok [OF u(3)] by blast
  note ok = settle_fenced_ok [OF u(4)]
  let ?ev = "(fresh_event a (rq_now q 6) ?e (NodeCompleted nc) (rq_others q 5 u))\<lparr>ev_sequence := mb_next_sequence (rq_others q 5 u)\<rparr>"
  have t': "log_of t' ?e = log_of (rq_others q 5 u) ?e @ [?ev]" "mb_work_items t' = (mb_work_items (rq_others q 5 u))(i := None)" "ev_kind ?ev = NodeCompleted nc"
    unfolding ok(4) nc_def by (simp_all add: settle_turn_parts fresh_event_def event_new_def)
  have "json_get (nc_state_patch nc) ''__budget'' = None"
    using assms(5) by (simp add: nc_def reported_completion_def json_get_action_state)
  moreover have "cost_is_spend (nc_cost_usd nc)" using u(1) by (simp add: nc_def reported_completion_def)
  moreover have "nc = reported_completion body (Some (derive_idempotency_key (ap_x a) ?e (wi_node_id wi) (rq_others q 1 s))) (wi_node_id wi)"
    by (simp add: nc_def key_def)
  ultimately show ?thesis using r u(2,5) ok(1-3) t' by blast
qed

section \<open>The budget and the reports\<close>

lemma reported_patch_keeps_budget:
  assumes "json_wf state" and "json_wf (JObject m)"
  shows "from_snapshot_state (json_merge_patch state (action_state (JObject m))) = from_snapshot_state state"
proof -
  obtain m' where m': "action_state (JObject m) = JObject m'" by (simp add: action_state_def)
  have "bt_get m' ''__budget'' = None" "json_wf (JObject m')"
    using json_get_action_state [OF assms(2), of "''__budget''"] action_state_wf [OF assms(2)] by (simp_all add: m')
  then have "json_get (json_merge_patch state (JObject m')) ''__budget'' = json_get state ''__budget''"
    using merge_patch_meaning [OF assms(1), of m' "''__budget''"] by simp
  then show ?thesis unfolding m' by (simp add: from_snapshot_state_def)
qed

lemma reported_snapshot:
  assumes "backend_trace x fresh backend_new ls s" and "mb_next_sequence s < 2 ^ 62" and "materialize (wi_execution_id wi) s = Inr mat"
    and "settle_fenced a q i f body key wi s = (s', Inr committed)"
  shows "\<exists>snap. latest_snapshot (wi_execution_id wi) s' = Some snap \<and>
    sn_state snap = json_merge_patch (ms_current_state mat) (action_state (cr_state_patch body))"
proof -
  let ?e = "wi_execution_id wi" and ?nc = "reported_completion body key (wi_node_id wi)"
  let ?ev = "fresh_event a (rq_now q 6) ?e (NodeCompleted ?nc) s"
  have ok: "log_ok s" "snapshots_ok s" using trace_replay [OF assms(1) log_ok_new snapshots_ok_new] by (simp_all add: replay_step_def)
  have "ms_current_state (replayed s ?e) = ms_current_state mat" using assms(3) by (simp add: materialize_replayed split: if_splits)
  then show ?thesis
    using settled_snapshot [OF ok assms(2), of ?ev ?nc ?e "ap_fresh a" "rq_now q 6" i] settle_fenced_ok(4) [OF assms(4)]
    by (auto simp: fresh_event_def event_new_def reported_completion_def)
qed

text \<open>The budget of a run does not move by what a worker outside the engine reports: whatever tokens and costs it names and
  whatever members its patch has, the next turn of the run reads the budget the run had before.\<close>

theorem reported_turn_keeps_budget:
  assumes "backend_trace x fresh backend_new ls s" and "mb_next_sequence s < 2 ^ 62" and "materialize (wi_execution_id wi) s = Inr mat"
    and "json_wf (ms_current_state mat)" and "cr_state_patch body = JObject m" and "json_wf (JObject m)"
    and "settle_fenced a q i f body key wi s = (s', Inr committed)"
  shows "load_budget_state (wi_execution_id wi) s' = from_snapshot_state (ms_current_state mat)"
  using reported_snapshot [OF assms(1-3,7)] reported_patch_keeps_budget [OF assms(4,6)] by (auto simp: load_budget_state_def assms(5))

text \<open>A report whose patch is a text, a number, a truth value or a list is not refused: it replaces the whole state of the
  run, and the run has spent nothing.\<close>

theorem scalar_report_resets_run:
  assumes "backend_trace x fresh backend_new ls s" and "mb_next_sequence s < 2 ^ 62" and "materialize (wi_execution_id wi) s = Inr mat"
    and "as_object (cr_state_patch body) = None" and "\<not> is_null (cr_state_patch body)"
    and "settle_fenced a q i f body key wi s = (s', Inr committed)"
  shows "load_budget_state (wi_execution_id wi) s' = budget_default \<and>
    (\<exists>snap. latest_snapshot (wi_execution_id wi) s' = Some snap \<and> sn_state snap = cr_state_patch body)"
proof -
  let ?p = "cr_state_patch body"
  have "action_state ?p = ?p" "json_merge_patch (ms_current_state mat) ?p = ?p" "json_get ?p ''__budget'' = None"
    using assms(4,5) by (cases ?p; simp add: action_state_def merge_patch_other is_null_def json_get_def)+
  then show ?thesis using reported_snapshot [OF assms(1-3,6)] by (auto simp: load_budget_state_def from_snapshot_state_def)
qed

section \<open>Refused reports\<close>

text \<open>With no other component between the calls.\<close>

definition alone :: "request_env \<Rightarrow> bool" where
  "alone q = (rq_others q = (\<lambda>_ s. s))"

lemma completion_gate_alone: "alone q \<Longrightarrow> fst (completion_gate a q wi s) = s"
  by (auto simp: completion_gate_def alone_def Let_def split_beta check_complete split: option.splits sum.splits)

lemma withdraw_parts:
  "log_part (fst (withdraw_work_item_fenced i f s)) = log_part s" "run_data (fst (withdraw_work_item_fenced i f s)) = run_data s"
  by (simp_all add: withdraw_work_item_fenced_def log_part_def run_data_def remove_item_def log_of_def [abs_def])

lemma commit_unless_refused:
  assumes "commit_turn_unless_terminal fresh now i f ev snap s = (s', r)" and "is_turn_end (ev_kind ev)" and "\<forall>n. r \<noteq> Inr (Committed n)"
  shows "s' = fst (withdraw_work_item_fenced i f s) \<or> s' = s"
proof (cases "run_is_terminal s (ev_execution_id ev)")
  case True
  then show ?thesis using commit_unless_cases [of fresh now i f ev snap s] assms(1) by simp
next
  case False
  then have "Option.bind (mb_executions s (ev_execution_id ev)) (\<lambda>entry. if is_terminal (we_status entry) then Some (we_status entry) else None) = None"
    by (auto simp: run_is_terminal_def split: option.splits)
  then show ?thesis
    using assms commit_turn_cases [of fresh now i f ev snap s] commit_turn_ok [of fresh now i f ev snap s]
    by (auto simp: commit_turn_unless_terminal_def split: prod.splits sum.splits if_splits)
qed

text \<open>What a refused report may change: its item, withdrawn under the fence of its holder.\<close>

definition nothing_recorded :: "in_memory_backend \<Rightarrow> in_memory_backend \<Rightarrow> bool" where
  "nothing_recorded s s' =
     (log_part s' = log_part s \<and> run_data s' = run_data s \<and>
      (mb_work_items s' = mb_work_items s \<or> (\<exists>i f. held_under s i f \<and> mb_work_items s' = (mb_work_items s)(i := None))))"

lemma nothing_recorded_refl [simp]: "nothing_recorded s s"
  by (simp add: nothing_recorded_def)

lemma nothing_recorded_withdraw [simp]: "nothing_recorded s (fst (withdraw_work_item_fenced i f s))"
  using withdraw_parts [of i f s] by (auto simp: nothing_recorded_def withdraw_work_item_fenced_def remove_item_def)

lemma settle_refused:
  assumes "settle_completion a q dev i body key recorded s = (s', Inl r)" and "alone q"
  shows "nothing_recorded s s'"
proof -
  have fenced: "nothing_recorded s s'" if "settle_fenced a q i f body key wi s = (s', Inl r)" for f wi
  proof -
    let ?ev = "fresh_event a (rq_now q 6) (wi_execution_id wi) (NodeCompleted (reported_completion body key (wi_node_id wi))) s"
    obtain u c where c: "commit_turn_unless_terminal (ap_fresh a) (rq_now q 6) i f ?ev True s = (u, c)" by fastforce
    then have "s' = u" "\<forall>n. c \<noteq> Inr (Committed n)"
      using that by (auto simp: settle_fenced_def split: sum.splits turn_commit.splits backend_error.splits)
    then show ?thesis using commit_unless_refused [OF c] by (auto simp: fresh_event_def event_new_def is_turn_end_def)
  qed
  show ?thesis
  proof (cases "cr_lease_fence body")
    case None
    then show ?thesis using assms by (auto simp: settle_completion_def settle_unfenced_def alone_def Let_def split: option.splits if_splits)
  next
    case (Some f)
    then show ?thesis using assms(1) fenced
      by (auto simp: settle_completion_def complete_work_item_fenced_def split: option.splits prod.splits bool.splits if_splits)
  qed
qed

lemma complete_refused:
  assumes "complete_route a q dev path body s = (s', r)" and "\<forall>ans. r \<noteq> Inr (StOk, ans)" and "alone q"
  shows "nothing_recorded s s'"
proof (cases "ap_parse_uuid a path")
  case (Some i)
  note others = assms(3) [unfolded alone_def]
  define key where "key = map_option (\<lambda>wi. derive_idempotency_key (ap_x a) (wi_execution_id wi) (wi_node_id wi) s) (get_work_item i s)"
  obtain g where g: "(case get_work_item i s of Some wi \<Rightarrow> completion_gate a q wi (rq_others q 2 s) | None \<Rightarrow> (s, Inr ())) = (s, g)"
  proof (cases "get_work_item i s")
    case (Some wi)
    then show thesis using that completion_gate_alone [OF assms(3), of a wi s] by (cases "completion_gate a q wi s") (simp add: others)
  qed (use that in simp)
  show ?thesis
    using assms(1,2) g settle_refused [OF _ assms(3), of a dev i body key "get_work_item i s" s s'] unfolding key_def
    by (auto simp: complete_route_def Some others Let_def not_completed_def split: if_splits prod.splits sum.splits)
qed (use assms(1) in \<open>simp add: complete_route_def\<close>)

lemma fail_refused:
  assumes "fail_route a q path body s = (s', r)" and "\<forall>ans. r \<noteq> Inr (StOk, ans)" and "alone q"
  shows "nothing_recorded s s'"
proof -
  have none: "fail_work_item_fenced i f err s = (u, None) \<Longrightarrow> nothing_recorded s u" for i f err u
    by (auto simp: fail_work_item_fenced_def Let_def split: option.splits if_splits)
  show ?thesis
    using assms(1,2) by (auto intro: none simp: fail_route_def assms(3) [unfolded alone_def] Let_def not_failed_def report_failure_def fail_work_item_def
        split: option.splits prod.splits sum.splits if_splits fail_outcome.splits)
qed

text \<open>A report that is refused records nothing, whatever the reason: no event, no state, no snapshot and no effect, and of
  the queue at most the item of a run that has ended is gone, under the fence of its holder.\<close>

theorem refused_report_records_nothing:
  assumes "alone q" and "\<forall>ans. r \<noteq> Inr (StOk, ans)"
    and "complete_route a q dev path body s = (s', r) \<or> fail_route a q path fbody s = (s', r)"
  shows "nothing_recorded s s'"
  using assms(3) complete_refused [OF _ assms(2,1)] fail_refused [OF _ assms(2,1)] by blast

section \<open>Witnesses\<close>

definition idle :: request_env where
  "idle = \<lparr>rq_now = (\<lambda>_. 0), rq_others = (\<lambda>_ s. s)\<rparr>"

definition sample_api :: api_env where
  "sample_api = \<lparr>ap_guard = sample_guard\<lparr>ge_sched := sample_env\<lparr>se_item_order := [''w'']\<rparr>\<rparr>, ap_registry = (\<lambda>_. Inr None),
     ap_parse_kind = (\<lambda>_. Inr (ConditionNode [])), ap_parse_node = (\<lambda>_. Inr work_node), ap_parse_policy = (\<lambda>_. Inl []),
     ap_parse_agent_ref = (\<lambda>_. Inl []), ap_parse_remote_agents = (\<lambda>_. Inl []), ap_parse_uuid = Some\<rparr>"

definition sample_ir_value :: json where
  "sample_ir_value = JObject [(''nodes'', JObject [(''pay'', JObject [(''kind'', JNull)])])]"

definition sample_report :: complete_request where
  "sample_report = \<lparr>cr_execution_id = None, cr_node_id = None, cr_output = JNull, cr_state_patch = JObject [(''__budget'', JNull)], cr_duration_ms = 0,
     cr_lease_fence = Some 1, cr_idempotency_key = None, cr_gen_ai_system = None, cr_gen_ai_model = None, cr_input_tokens = Some 7,
     cr_output_tokens = None, cr_finish_reason = None, cr_cost_usd = Some (Finite 1)\<rparr>"

definition served :: in_memory_backend where
  "served = working\<lparr>mb_workflows := [(''wf'', ''1'') \<mapsto> \<lparr>wd_workflow_id = ''wf'', wd_version = ''1'', wd_ir = sample_ir_value, wd_created_at = 0,
     wd_tenant_id = default_tenant\<rparr>]\<rparr>"

definition queued :: in_memory_backend where
  "queued = served\<lparr>mb_work_items := [''w'' \<mapsto> Backend_Fences.sample_item], mb_lease_epochs := Map.empty, mb_lease_secs := Map.empty\<rparr>"

lemma idle_alone: "alone idle" "orderly a idle"
  by (auto simp: alone_def orderly_def idle_def intro: trace_nil)

lemma sample_inputs:
  "guard_inputs_from_raw sample_api sample_ir_value ''pay'' =
     Inr \<lparr>gi_workflow_policy = None, gi_workflow_agent = None, gi_remote_agents = [], gi_node_def = work_node\<rparr>"
  "claim_inputs sample_api sample_ir_value ''pay'' = guard_inputs_from_raw sample_api sample_ir_value ''pay''"
  by (simp_all add: guard_inputs_from_raw_def claim_inputs_def read_kind_def raw_node_def read_member_def sample_ir_value_def sample_api_def)

lemma sample_check:
  "mb_tenants s (wi_tenant_id wi) = None \<Longrightarrow>
   check_inputs g sample_api mode now wi \<lparr>gi_workflow_policy = None, gi_workflow_agent = None, gi_remote_agents = [], gi_node_def = work_node\<rparr> s =
     (s, GuardAllow)"
  by (simp add: check_inputs_def guard_item_def agent_card_def refs_of_def scope_of_inputs_def work_node_def plain_node_def filter_map_def callee_def
      plan_node_def agents_of_node_def card_gate_default_def guard_policy_def unparseable_tenant_policy_def get_tenant_def node_decision_def
      policy_chain_def Let_def)

lemma served_parts:
  "get_execution ''x'' served = Some sample_execution" "mb_tenants served t = None" "get_work_item ''w'' served = Some held_item"
  "get_workflow ''wf'' ''1'' served = Some \<lparr>wd_workflow_id = ''wf'', wd_version = ''1'', wd_ir = sample_ir_value, wd_created_at = 0,
     wd_tenant_id = default_tenant\<rparr>" "fence_matches served ''w'' 1" "\<not> run_is_terminal served ''x''"
  by (simp_all add: served_def working_eq get_execution_def backend_new_def get_work_item_def get_workflow_def fence_matches_def held_item_def
      sample_item_def run_is_terminal_def sample_execution_def)

lemma sample_run_workflow: "we_workflow_id sample_execution = ''wf''" "we_workflow_version sample_execution = ''1''" "we_status sample_execution = WfRunning"
  by (simp_all add: sample_execution_def)

lemma served_gate: "completion_gate sample_api idle held_item served = (served, Inr ())"
  by (simp add: completion_gate_def served_parts sample_run_workflow idle_def sample_inputs sample_check Let_def)

lemma fenced_settles:
  assumes "fence_matches s i f" and "\<not> run_is_terminal s (wi_execution_id wi)"
  shows "\<exists>s'. settle_fenced a q i f body key wi s = (s', Inr True)"
proof -
  let ?ev = "fresh_event a (rq_now q 6) (wi_execution_id wi) (NodeCompleted (reported_completion body key (wi_node_id wi))) s"
  have "Option.bind (mb_executions s (ev_execution_id ?ev)) (\<lambda>entry. if is_terminal (we_status entry) then Some (we_status entry) else None) = None"
    using assms(2) by (auto simp: run_is_terminal_def fresh_event_def event_new_def split: option.splits)
  then have "snd (commit_turn_unless_terminal (ap_fresh a) (rq_now q 6) i f ?ev True s) = Inr (Committed (mb_next_sequence s))"
    using commit_turn_ok [of "ap_fresh a" "rq_now q 6" i f ?ev True s] assms(1)
    by (auto simp: commit_turn_unless_terminal_def fresh_event_def event_new_def is_turn_end_def split: prod.splits sum.splits)
  then show ?thesis by (cases "commit_turn_unless_terminal (ap_fresh a) (rq_now q 6) i f ?ev True s") (simp add: settle_fenced_def)
qed

lemma served_completes: "\<exists>s' ans. complete_route sample_api idle False ''w'' sample_report served = (s', Inr (StOk, ans))"
proof -
  define key where "key = Some (derive_idempotency_key (ap_x sample_api) ''x'' ''pay'' served)"
  obtain s' where "settle_fenced sample_api idle ''w'' 1 sample_report key held_item served = (s', Inr True)"
    using fenced_settles [OF served_parts(5), of held_item sample_api idle sample_report key] served_parts(6) by auto
  then show ?thesis
    using served_gate unfolding key_def
    by (simp add: complete_route_def sample_api_def idle_def served_parts sample_report_def cost_is_spend_def settle_completion_def Let_def)
qed

theorem recorded_result_is_cleared_witness:
  "\<exists>s' ans gi. complete_route sample_api idle False ''w'' sample_report served = (s', Inr (StOk, ans)) \<and> fence_matches served ''w'' 1 \<and>
     check_inputs (completing_guard sample_api) sample_api Complete 0 held_item gi served = (served, GuardAllow)"
proof -
  obtain s' ans where r: "complete_route sample_api idle False ''w'' sample_report served = (s', Inr (StOk, ans))" using served_completes by blast
  have "ap_parse_uuid sample_api ''w'' = Some ''w''" "cr_lease_fence sample_report = Some 1" "json_wf (cr_state_patch sample_report)"
    by (simp_all add: sample_api_def sample_report_def)
  from recorded_result_is_cleared [OF r this(1) served_parts(3) this(2,3)] r show ?thesis by (auto simp: idle_def)
qed

lemma working_settles: "\<exists>s'. settle_fenced sample_api idle ''w'' 1 body None held_item working = (s', Inr True)"
  using fenced_settles [of working "''w''" 1 held_item sample_api idle body None]
  by (simp add: working_eq fence_matches_def run_is_terminal_def held_item_def sample_item_def sample_execution_def)

lemma working_mat: "\<exists>mat. materialize ''x'' working = Inr mat \<and> ms_current_state mat = JObject []"
  by (simp add: materialize_def working_eq backend_new_def get_execution_def materialize_from_def latest_snapshot_def get_events_since_def
      sample_execution_def log_of_def apply_events_seeded_def origin_state_def)

lemma working_next: "mb_next_sequence working < 2 ^ 62"
  by (simp add: working_eq backend_new_def)

theorem reported_turn_keeps_budget_witness:
  "load_budget_state ''x'' (fst (settle_fenced sample_api idle ''w'' 1 sample_report None held_item working)) = from_snapshot_state (JObject [])"
proof -
  obtain s' where s': "settle_fenced sample_api idle ''w'' 1 sample_report None held_item working = (s', Inr True)" using working_settles by blast
  obtain mat where "materialize ''x'' working = Inr mat" "ms_current_state mat = JObject []" using working_mat by blast
  then show ?thesis
    using reported_turn_keeps_budget [OF working_trace working_next, of held_item mat sample_report "[(''__budget'', JNull)]" sample_api idle "''w''" 1 None s' True] s'
    by (simp add: sample_report_def)
qed

theorem scalar_report_resets_run_witness:
  "load_budget_state ''x'' (fst (settle_fenced sample_api idle ''w'' 1 (sample_report\<lparr>cr_state_patch := JBool True\<rparr>) None held_item working)) = budget_default"
proof -
  let ?r = "sample_report\<lparr>cr_state_patch := JBool True\<rparr>"
  obtain s' where s': "settle_fenced sample_api idle ''w'' 1 ?r None held_item working = (s', Inr True)" using working_settles by blast
  obtain mat where "materialize ''x'' working = Inr mat" using working_mat by blast
  then show ?thesis
    using scalar_report_resets_run [OF working_trace working_next, of held_item mat ?r sample_api idle "''w''" 1 None s' True] s' by (simp add: is_null_def)
qed

theorem refused_report_records_nothing_witness:
  "nothing_recorded served (fst (complete_route sample_api idle False ''w'' (sample_report\<lparr>cr_cost_usd := Some NaN\<rparr>) served))"
proof -
  let ?b = "sample_report\<lparr>cr_cost_usd := Some NaN\<rparr>"
  have "complete_route sample_api idle False ''w'' ?b served = (served, Inl (ApiBadRequest ''cost_usd must be a non-negative number''))"
    by (simp add: complete_route_def sample_api_def idle_def cost_is_spend_def Let_def)
  with refused_report_records_nothing [OF idle_alone(1), of "Inl (ApiBadRequest ''cost_usd must be a non-negative number'')" sample_api False "''w''" ?b served
      served] show ?thesis by simp
qed

definition sample_claim :: claim_request where
  "sample_claim = \<lparr>cl_worker_id = ''ann'', cl_queue_types = [''tool''], cl_lease_secs = None\<rparr>"

lemma queued_claim:
  "\<exists>s. claim_work_item_with_lease (\<lambda>_. ''e'') 0 [''w''] ''ann'' [''tool''] (Some 30) queued = (s, Some held_item) \<and>
     mb_executions s = mb_executions served \<and> mb_workflows s = mb_workflows served \<and> mb_tenants s = mb_tenants served"
  by (simp add: queued_def served_def working_eq backend_eval held_item_def min_lease_secs_def max_lease_secs_def)

lemma queued_released: "\<exists>s' ans. claim_route sample_api idle sample_claim queued = (s', Some held_item, ans)"
proof -
  obtain s where s: "claim_work_item_with_lease (\<lambda>_. ''e'') 0 [''w''] ''ann'' [''tool''] (Some 30) queued = (s, Some held_item)"
    "mb_executions s = mb_executions served" "mb_workflows s = mb_workflows served" "mb_tenants s = mb_tenants served"
    using queued_claim by blast
  have parts: "get_execution ''x'' s = Some sample_execution" "mb_tenants s t = None"
    "get_workflow ''wf'' ''1'' s = Some \<lparr>wd_workflow_id = ''wf'', wd_version = ''1'', wd_ir = sample_ir_value, wd_created_at = 0, wd_tenant_id = default_tenant\<rparr>" for t
    using served_parts(1,2,4) s(2-4) by (simp_all add: get_execution_def get_workflow_def)
  have "claim_live sample_api idle sample_claim (Suc n) queued = (s, Inr (Some held_item))" for n
    using s(1) parts by (simp add: sample_api_def idle_def sample_claim_def sample_guard_def sample_env_def granted_lease_secs_def
        default_lease_secs_def sample_run_workflow Let_def)
  from this [of 15] have "claim_live sample_api idle sample_claim 16 queued = (s, Inr (Some held_item))" by simp
  moreover have "gate_claimed_item sample_api idle held_item s = (s, Release)"
    by (simp add: gate_claimed_item_def parts sample_run_workflow idle_def payload_disagrees_def json_get_def sample_inputs sample_check settle_gate_def Let_def)
  ultimately show ?thesis by (simp add: claim_route_def idle_def)
qed

theorem released_item_is_cleared_witness: "\<exists>s1. leased_live sample_api idle sample_claim queued held_item s1"
proof -
  obtain s' ans where "claim_route sample_api idle sample_claim queued = (s', Some held_item, ans)" using queued_released by blast
  from released_item_is_cleared [OF this idle_alone(2)] show ?thesis by blast
qed

end
