(* ===== verification/Run_Api.thy ===== *)
theory Run_Api
  imports Claim_Runs
begin

text \<open>
  Workflows and runs over HTTP (\<^verbatim>\<open>runtime/api/src/routes.rs\<close>): registering a workflow, starting, cancelling and
  reading a run, sending it an event.  Shown: a registered version was checked and never changes, a run
  starts with its start node scheduled once and with no counter of the engine preset, and a run is
  cancelled at most once.
\<close>

section \<open>Registering a workflow\<close>

definition in_quotes :: "string \<Rightarrow> string" where
  "in_quotes t = [CHR 0x27] @ t @ [CHR 0x27]"

definition ir_error_text :: "(string \<Rightarrow> string) \<Rightarrow> ir_error \<Rightarrow> string" where
  "ir_error_text debug err =
     (case err of
        UnknownToolRef n t \<Rightarrow> ''node '' @ in_quotes n @ '' references unknown tool '' @ in_quotes t
      | UnknownModelRef n t \<Rightarrow> ''node '' @ in_quotes n @ '' references unknown model '' @ in_quotes t
      | UnknownMcpServer n t \<Rightarrow> ''node '' @ in_quotes n @ '' references unknown MCP server '' @ in_quotes t
      | UnknownRemoteAgent n t \<Rightarrow> ''node '' @ in_quotes n @ '' references unknown remote agent '' @ in_quotes t
      | UnknownEdgeTarget a b \<Rightarrow> ''edge from '' @ in_quotes a @ '' to '' @ in_quotes b @ '': target node does not exist''
      | InvalidConditionExpression n e r \<Rightarrow>
          ''condition node '' @ in_quotes n @ '' branch expression '' @ [CHR 0x60] @ e @ [CHR 0x60] @ '' is invalid: '' @ r
      | InvalidQueueName n queue r \<Rightarrow> ''external_fn node '' @ in_quotes n @ '' queue '' @ [CHR 0x60] @ queue @ [CHR 0x60] @ '' is invalid: '' @ r
      | UnknownBranchTarget n t \<Rightarrow> ''condition node '' @ in_quotes n @ '' branch targets unknown node '' @ in_quotes t
      | BranchTargetMissingOutEdge n t \<Rightarrow> ''condition node '' @ in_quotes n @ '' branch target '' @ in_quotes t @ '' has no matching out-edge''
      | UnmarkedAgentToolDispatch n \<Rightarrow>
          ''node '' @ in_quotes n @
          '' dispatches ADK agent tool calls but is not marked agent_tool_dispatch, so tool policy would not be enforced for it''
      | InvalidApprovalDeadline scope d \<Rightarrow> scope @ '' policy has an invalid approval deadline: '' @ deadline_cause d
      | RetiredApprovalTimeout \<Rightarrow>
          ''timeouts.approval_timeout is retired and was never enforced; set approval_timeout_secs (and optionally escalate_after_secs) in the tenant, workflow or node policy instead''
      | InvalidNodeId i \<Rightarrow>
          ''node id '' @ debug i @ '' is not allowed: a node id is 1 to 128 ASCII letters, digits, '' @ in_quotes ''_'' @ '', '' @ in_quotes ''.'' @ '' or '' @ in_quotes ''-''
      | NodeIdMismatch key i \<Rightarrow>
          ''node key '' @ in_quotes key @ '' does not match its id '' @ in_quotes i @ ''; a node'' @ [CHR 0x27] @ ''s id must equal its key in '' @
          [CHR 0x60] @ ''nodes'' @ [CHR 0x60]
      | MisplacedAgentToolDispatch n k \<Rightarrow>
          ''node '' @ in_quotes n @ '' sets agent_tool_dispatch but is not the ADK tool dispatcher ('' @ k @
          ''); the flag is reserved for jamjet.agents.tool_runtime:dispatch_tool_calls''
      | UnreachableNode n \<Rightarrow> ''node '' @ in_quotes n @ '' is unreachable from the start node''
      | NoStartNode \<Rightarrow> ''workflow has no start node defined''
      | InvalidVersion v \<Rightarrow> ''workflow version '' @ in_quotes v @ '' is not valid semver''
      | DuplicateNodeId n \<Rightarrow> ''duplicate node id: '' @ in_quotes n)"

definition bad_ir :: "api_env \<Rightarrow> ir_error + 'a \<Rightarrow> api_error + 'a" where
  "bad_ir a r = map_err (\<lambda>err. ApiBadRequest (''invalid workflow IR: '' @ ir_error_text (ge_debug (ap_guard a)) err)) r"

definition required_text :: "json \<Rightarrow> string \<Rightarrow> api_error + string" where
  "required_text ir key = ok_or (ApiBadRequest (''ir.'' @ key @ '' is required'')) (Option.bind (json_get ir key) as_str)"

text \<open>The rules a registration is held to; \<^verbatim>\<open>from_str\<close> reads the literals of branch expressions.\<close>

definition registration_rules :: "(string \<Rightarrow> json option) \<Rightarrow> workflow_ir \<Rightarrow> ir_error + unit" where
  "registration_rules from_str ir =
     and_then (validate_agent_tool_dispatch ir) (\<lambda>_.
     and_then (validate_condition_expressions from_str ir) (\<lambda>_.
     and_then (validate_external_queues ir) (\<lambda>_.
     and_then (validate_node_ids ir) (\<lambda>_.
     validate_approval_deadlines ir))))"

definition check_registration :: "api_env \<Rightarrow> (string \<Rightarrow> json option) \<Rightarrow> json \<Rightarrow> api_error + string \<times> string" where
  "check_registration a from_str ir =
     and_then (required_text ir ''workflow_id'') (\<lambda>workflow_id.
     and_then (required_text ir ''version'') (\<lambda>version.
     and_then (map_err (\<lambda>err. ApiBadRequest (''invalid workflow IR: '' @ err)) (se_parse_ir (ap_sched a) ir)) (\<lambda>parsed.
     and_then (bad_ir a (registration_rules from_str parsed)) (\<lambda>_. Inr (workflow_id, version)))))"

definition registered_json :: "string \<Rightarrow> string \<Rightarrow> json" where
  "registered_json workflow_id version = json_object [(''workflow_id'', JString workflow_id), (''version'', JString version)]"

definition create_workflow ::
    "api_env \<Rightarrow> (string \<Rightarrow> json option) \<Rightarrow> request_env \<Rightarrow> string \<Rightarrow> json \<Rightarrow> in_memory_backend \<Rightarrow> in_memory_backend \<times> api_result" where
  "create_workflow a from_str q tenant_id ir s =
     (case check_registration a from_str ir of
        Inl err \<Rightarrow> (s, Inl err)
      | Inr (workflow_id, version) \<Rightarrow>
          (case get_workflow workflow_id version s of
             Some existing \<Rightarrow>
               if \<not> same_definition (ap_x a) (wd_ir existing) ir
               then (s, Inl (ApiConflict (''workflow '' @ workflow_id @ '' v'' @ version @
                      '' is already registered with a different definition; versions are immutable, register a new version'')))
               else (s, Inr (StOk, registered_json workflow_id version))
           | None \<Rightarrow>
               (case bad_ir a (refuse_retired_timeouts ir) of
                  Inl err \<Rightarrow> (s, Inl err)
                | Inr _ \<Rightarrow>
                    (case store_workflow (ap_x a) \<lparr>wd_workflow_id = workflow_id, wd_version = version, wd_ir = ir, wd_created_at = rq_now q 1,
                            wd_tenant_id = tenant_id\<rparr> (rq_others q 1 s) of
                       (s, Inl err) \<Rightarrow> (s, Inl (api_error_of err))
                     | (s, Inr _) \<Rightarrow> (s, Inr (StCreated, registered_json workflow_id version))))))"

section \<open>Starting a run\<close>

definition new_execution :: "execution_id \<Rightarrow> string \<Rightarrow> string \<Rightarrow> json \<Rightarrow> timestamp \<Rightarrow> workflow_execution" where
  "new_execution e workflow_id version input now =
     \<lparr>we_execution_id = e, we_workflow_id = workflow_id, we_workflow_version = version, we_status = WfRunning,
      we_initial_input = input, we_current_state = input, we_started_at = now, we_updated_at = now,
      we_completed_at = None, we_session_type = None, we_parent_execution_id = None, we_segment_number = 0\<rparr>"

definition start_item ::
    "work_item_id \<Rightarrow> execution_id \<Rightarrow> workflow_ir \<Rightarrow> node_id \<Rightarrow> node_def \<Rightarrow> string \<Rightarrow> string \<Rightarrow> json \<Rightarrow> string \<Rightarrow> timestamp \<Rightarrow> work_item" where
  "start_item i e ir first_node start_def workflow_id version input tenant_id now =
     \<lparr>wi_id = i, wi_execution_id = e, wi_node_id = first_node, wi_queue_type = queue_as_str (node_queue_type (nd_kind start_def)),
      wi_payload = build_work_item_payload ir first_node start_def (case input of JObject m \<Rightarrow> m | _ \<Rightarrow> []) workflow_id version,
      wi_attempt = 0, wi_max_attempts = max_attempts_for (nd_retry_policy start_def), wi_created_at = now,
      wi_lease_expires_at = None, wi_worker_id = None, wi_lease_fence = 0, wi_tenant_id = tenant_id\<rparr>"

definition start_node_of :: "json \<Rightarrow> node_id" where
  "start_node_of ir_value = (case Option.bind (json_get ir_value ''start_node'') as_str of Some n \<Rightarrow> n | None \<Rightarrow> ''start'')"

text \<open>\<^verbatim>\<open>e\<close> is the fresh id of the run.\<close>

definition start_run ::
    "api_env \<Rightarrow> request_env \<Rightarrow> execution_id \<Rightarrow> string \<Rightarrow> string \<Rightarrow> string option \<Rightarrow> json \<Rightarrow> string option \<Rightarrow> in_memory_backend \<Rightarrow>
     in_memory_backend \<times> api_result" where
  "start_run a q e tenant_id workflow_id workflow_version input initiated_by s =
     (let input = action_state input;
          version = (case workflow_version of Some v \<Rightarrow> v | None \<Rightarrow> ''1.0.0'')
      in (case get_workflow workflow_id version s of
            None \<Rightarrow> (s, Inl (ApiNotFound (''workflow '' @ workflow_id @ '' v'' @ version)))
          | Some def \<Rightarrow>
              (let first_node = start_node_of (wd_ir def); now = rq_now q 1; s = rq_others q 1 s
               in (case se_parse_ir (ap_sched a) (wd_ir def) of
                     Inl err \<Rightarrow>
                       (s, Inl (ApiInternal (''stored IR for workflow '' @ workflow_id @ '' v'' @ version @ '' is not loadable: '' @ err)))
                   | Inr ir \<Rightarrow>
                       (case ir_node ir first_node of
                          None \<Rightarrow>
                            (s, Inl (ApiBadRequest (''workflow '' @ workflow_id @ '' v'' @ version @ '' names start node '' @ in_quotes first_node @
                                  '' which does not exist'')))
                        | Some start_def \<Rightarrow>
                            (start_execution_atomic (ap_fresh a) now (new_execution e workflow_id version input now)
                               (WorkflowStarted workflow_id version input initiated_by)
                               (NodeScheduled first_node (queue_as_str (node_queue_type (nd_kind start_def))))
                               (start_item (se_item_id (ap_sched a) (mb_next_sequence s)) e ir first_node start_def workflow_id version input tenant_id now) s,
                             Inr (StCreated, json_object [(''execution_id'', JString (exec_label e))])))))))"

section \<open>Cancelling, events and artifacts\<close>

definition cancel_route ::
    "api_env \<Rightarrow> request_env \<Rightarrow> string \<Rightarrow> in_memory_backend \<Rightarrow> in_memory_backend \<times> (api_error + json)" where
  "cancel_route a q path s =
     (case parse_execution_id a path of
        Inl err \<Rightarrow> (s, Inl err)
      | Inr e \<Rightarrow>
          (let over = (\<lambda>status. ApiBadRequest (''execution '' @ path @ '' is already in terminal state: '' @ status_debug status))
           in (case get_execution e s of
                 None \<Rightarrow> (s, Inl (ApiNotFound (''execution '' @ path)))
               | Some execution \<Rightarrow>
                   if is_terminal (we_status execution) then (s, Inl (over (we_status execution)))
                   else
                     (let s = rq_others q 1 s
                      in (case finish_execution (rq_now q 1) (fresh_event a (rq_now q 1) e (WorkflowCancelled (Some ''user request'')) s) WfCancelled s of
                            (s, Inl err) \<Rightarrow> (s, Inl (api_error_of err))
                          | (s, Inr (Finished _)) \<Rightarrow> (s, Inr (json_object [(''execution_id'', JString path), (''status'', JString ''cancelled'')]))
                          | (s, Inr (AlreadyTerminal status)) \<Rightarrow> (s, Inl (over status)))))))"

text \<open>The mark left inside a reference that could not be resolved.\<close>

definition mark_unresolved :: "json \<Rightarrow> json" where
  "mark_unresolved output =
     (case output of
        JObject m \<Rightarrow>
          (case bt_get m artifact_sentinel_key of
             Some (JObject inner) \<Rightarrow> JObject (bt_insert artifact_sentinel_key (JObject (bt_insert ''unresolved'' (JBool True) inner)) m)
           | _ \<Rightarrow> output)
      | _ \<Rightarrow> output)"

definition resolve_event :: "json_codec \<Rightarrow> in_memory_backend \<Rightarrow> event \<Rightarrow> event" where
  "resolve_event jc s ev =
     (case ev_kind ev of
        NodeCompleted nc \<Rightarrow>
          ev\<lparr>ev_kind := NodeCompleted (nc\<lparr>nc_output :=
               (case resolve_value jc (nc_output nc) s of Inr v \<Rightarrow> v | Inl _ \<Rightarrow> mark_unresolved (nc_output nc))\<rparr>)\<rparr>
      | _ \<Rightarrow> ev)"

definition list_events_route :: "api_env \<Rightarrow> json_codec \<Rightarrow> request_env \<Rightarrow> string \<Rightarrow> in_memory_backend \<Rightarrow> api_error + event list" where
  "list_events_route a jc q path s =
     and_then (parse_execution_id a path) (\<lambda>e. Inr (map (resolve_event jc (rq_others q 1 s)) (get_events e s)))"

definition external_event_route ::
    "api_env \<Rightarrow> request_env \<Rightarrow> string \<Rightarrow> string \<Rightarrow> json \<Rightarrow> in_memory_backend \<Rightarrow> in_memory_backend \<times> (api_error + json)" where
  "external_event_route a q path correlation_key payload s =
     (case parse_execution_id a path of
        Inl err \<Rightarrow> (s, Inl err)
      | Inr e \<Rightarrow>
          (append_next (ap_sched a) (rq_now q 1) e (ExternalEventReceived correlation_key payload) s,
           Inr (json_object [(''execution_id'', JString path), (''accepted'', JBool True)])))"

section \<open>A registered version is final\<close>

lemma check_registration_ok:
  assumes "check_registration a from_str ir = Inr (w, v)"
  shows "\<exists>parsed. se_parse_ir (ap_sched a) ir = Inr parsed \<and> registration_rules from_str parsed = Inr ()"
  using assms by (auto simp: check_registration_def and_then_eq_Inr bad_ir_def map_err_def split: sum.splits)

lemma create_workflow_stored:
  assumes "create_workflow a from_str q tenant ir s = (s', Inr r)" and "check_registration a from_str ir = Inr (w, v)"
  shows "\<exists>def. get_workflow w v s' = Some def \<and> same_definition (ap_x a) (wd_ir def) ir"
proof (cases "get_workflow w v s")
  case (Some d)
  then show ?thesis using assms by (auto simp: create_workflow_def split: if_splits)
next
  case None
  then have "store_workflow (ap_x a) \<lparr>wd_workflow_id = w, wd_version = v, wd_ir = ir, wd_created_at = rq_now q 1, wd_tenant_id = tenant\<rparr>
      (rq_others q 1 s) = (s', Inr ())"
    using assms by (auto simp: create_workflow_def split: prod.splits sum.splits)
  then show ?thesis by (auto simp: store_workflow_def get_workflow_def same_definition_def Let_def split: option.splits if_splits)
qed

text \<open>C22: A version that was registered is final: the workflow was readable and passed the rules of a registration, in every
  later state it is on file with the same content, and a later registration under its name and version with
  another content is refused and changes nothing.\<close>

theorem registered_version_is_final:
  assumes "create_workflow a from_str q tenant ir s = (s', Inr r)" and "check_registration a from_str ir = Inr (w, v)"
    and "backend_trace x fresh s' ls t"
  shows "(\<exists>parsed. se_parse_ir (ap_sched a) ir = Inr parsed \<and> registration_rules from_str parsed = Inr ()) \<and>
    (\<exists>def. get_workflow w v t = Some def \<and> same_definition (ap_x a) (wd_ir def) ir) \<and>
    (check_registration a from_str' ir' = Inr (w, v) \<and> \<not> same_definition (ap_x a) ir ir' \<longrightarrow>
       (\<exists>err. create_workflow a from_str' q' tenant' ir' t = (t, Inl (ApiConflict err))))"
proof -
  obtain def where d: "get_workflow w v s' = Some def" "same_definition (ap_x a) (wd_ir def) ir" using create_workflow_stored [OF assms(1,2)] by blast
  have "get_workflow w v t = Some def"
    using trace_keeps_stored [OF assms(3)] d(1) map_le_SomeD by (fastforce simp: keeps_stored_def get_workflow_def)
  then show ?thesis using check_registration_ok [OF assms(2)] d(2) by (auto simp: create_workflow_def same_definition_def)
qed

section \<open>A run starts once\<close>

lemma start_execution_parts:
  assumes s': "s' = start_execution_atomic fresh now ex k1 k2 item s"
    and "0 < mb_next_sequence s" and "mb_next_sequence s < 2 ^ 63 - 2" and "log_of s (we_execution_id ex) = []"
  shows "mb_executions s' = (mb_executions s)(we_execution_id ex \<mapsto> ex)"
    and "map ev_kind (log_of s' (we_execution_id ex)) = [k1, k2]"
    and "\<forall>ev \<in> set (log_of s' (we_execution_id ex)). 0 < ev_sequence ev"
    and "mb_snapshots s' = mb_snapshots s" and "mb_work_items s' = (mb_work_items s)(wi_id item \<mapsto> item)"
proof -
  have w: "wrap_i64 (mb_next_sequence s + 1) = mb_next_sequence s + 1" using assms(2,3) by (intro wrap_i64_id) auto
  show "mb_executions s' = (mb_executions s)(we_execution_id ex \<mapsto> ex)" "map ev_kind (log_of s' (we_execution_id ex)) = [k1, k2]"
    "\<forall>ev \<in> set (log_of s' (we_execution_id ex)). 0 < ev_sequence ev" "mb_snapshots s' = mb_snapshots s"
    "mb_work_items s' = (mb_work_items s)(wi_id item \<mapsto> item)"
    using assms(2,4) w by (simp_all add: s' start_execution_atomic_def create_run_push Let_def push_event_def log_of_def event_new_def)
qed

lemma payload_members_keys: "fst ` set (payload_members ir kind state) \<subseteq>
    {''module'', ''function'', ''input'', ''class'', ''method'', ''handler'', ''model'', ''temperature'', ''max_tokens'', ''system_prompt'', ''tools'',
     ''messages'', ''branches'', ''state''}"
  by (cases kind) (auto simp: payload_members_def split: option.splits if_splits)

lemma payload_names_workflow:
  "json_get (build_work_item_payload ir i nd state w v) ''workflow_id'' = Some (JString w)"
  "json_get (build_work_item_payload ir i nd state w v) ''workflow_version'' = Some (JString v)"
proof -
  have "map_of (rev (payload_members ir (nd_kind nd) state)) k = None" if "k \<in> {''workflow_id'', ''workflow_version''}" for k
    using payload_members_keys [of ir "nd_kind nd" state] that by (auto simp: map_of_eq_None_iff)
  then show "json_get (build_work_item_payload ir i nd state w v) ''workflow_id'' = Some (JString w)"
    "json_get (build_work_item_payload ir i nd state w v) ''workflow_version'' = Some (JString v)"
    by (simp_all add: build_work_item_payload_def json_get_object map_add_def)
qed

text \<open>C23: A run that was started is running on the input without the counters of the engine, under its initiator.  The
  definition registered under the workflow and version, which is \<open>1.0.0\<close> when the request names none, has the node it names as
  its start node, or the node \<open>start\<close> when it names none, scheduled once: the queue has one item of the run, unclaimed, for that
  node, on the queue of the node and with the workflow and version of the run in its payload, and the
  scheduler, which has folded nothing of the run yet, does not take the node for runnable.  Whatever the input says, the run
  has spent nothing.  The id of the run is new, and so is the item's.\<close>

theorem started_run_is_scheduled:
  assumes "start_run a q e tenant w ver input initiator s = (s', Inr (StCreated, ans))"
    and "fresh_run (rq_others q 1 s) e" and "mb_snapshots (rq_others q 1 s) e = None"
    and "\<forall>j it. mb_work_items (rq_others q 1 s) j = Some it \<longrightarrow> wi_execution_id it \<noteq> e"
    and "0 < mb_next_sequence (rq_others q 1 s)" and "mb_next_sequence (rq_others q 1 s) < 2 ^ 63 - 2" and "sd_progress sch e = None"
  shows "\<exists>def ir nd ex item start.
    get_workflow w (case ver of Some v \<Rightarrow> v | None \<Rightarrow> ''1.0.0'') s = Some def \<and>
    (case json_get (wd_ir def) ''start_node'' of Some (JString n) \<Rightarrow> start = n | _ \<Rightarrow> start = ''start'') \<and>
    se_parse_ir (ap_sched a) (wd_ir def) = Inr ir \<and> ir_node ir start = Some nd \<and>
    get_execution e s' = Some ex \<and> we_status ex = WfRunning \<and> we_initial_input ex = action_state input \<and>
    we_workflow_id ex = w \<and> we_workflow_version ex = (case ver of Some v \<Rightarrow> v | None \<Rightarrow> ''1.0.0'') \<and>
    run_initiator (get_events e s') = initiator \<and> load_budget_state e s' = budget_default \<and>
    (\<forall>j it. mb_work_items s' j = Some it \<and> wi_execution_id it = e \<longleftrightarrow> j = wi_id item \<and> it = item) \<and>
    wi_node_id item = start \<and> wi_worker_id item = None \<and> wi_queue_type item = queue_as_str (node_queue_type (nd_kind nd)) \<and>
    json_get (wi_payload item) ''workflow_id'' = Some (JString (we_workflow_id ex)) \<and>
    json_get (wi_payload item) ''workflow_version'' = Some (JString (we_workflow_version ex)) \<and>
    start \<in> ep_scheduled (fold_delta (ap_sched a) e s' sch) \<and>
    (\<exists>m. materialize e s' = Inr m \<and> ms_current_state m = action_state input \<and> ms_active_nodes m = {start})"
proof -
  let ?s = "rq_others q 1 s"
  define v where "v = (case ver of Some v \<Rightarrow> v | None \<Rightarrow> ''1.0.0'')"
  obtain def ir start nd where d: "get_workflow w v s = Some def" "start = start_node_of (wd_ir def)" "se_parse_ir (ap_sched a) (wd_ir def) = Inr ir"
      "ir_node ir start = Some nd"
    and r: "s' = start_execution_atomic (ap_fresh a) (rq_now q 1) (new_execution e w v (action_state input) (rq_now q 1))
        (WorkflowStarted w v (action_state input) initiator) (NodeScheduled start (queue_as_str (node_queue_type (nd_kind nd))))
        (start_item (se_item_id (ap_sched a) (mb_next_sequence ?s)) e ir start nd w v (action_state input) tenant (rq_now q 1)) ?s"
    using assms(1) unfolding start_run_def Let_def v_def [symmetric] by (auto split: option.splits sum.splits)
  define ex where "ex = new_execution e w v (action_state input) (rq_now q 1)"
  define item where "item = start_item (se_item_id (ap_sched a) (mb_next_sequence ?s)) e ir start nd w v (action_state input) tenant (rq_now q 1)"
  define queue where "queue = queue_as_str (node_queue_type (nd_kind nd))"
  have s': "s' = start_execution_atomic (ap_fresh a) (rq_now q 1) ex
        (WorkflowStarted (we_workflow_id ex) (we_workflow_version ex) (action_state input) initiator) (NodeScheduled start queue) item ?s"
      "we_execution_id ex = e" "we_status ex = WfRunning" "we_initial_input ex = action_state input" "wi_execution_id item = e" "wi_node_id item = start"
      "wi_payload item = build_work_item_payload ir start nd (case action_state input of JObject m \<Rightarrow> m | _ \<Rightarrow> []) (we_workflow_id ex) (we_workflow_version ex)"
    by (simp_all add: r ex_def item_def queue_def new_execution_def start_item_def)
  have "log_of ?s (we_execution_id ex) = []" using assms(2) s'(2) by (simp add: fresh_run_def)
  note parts = start_execution_parts [OF s'(1) assms(5,6) this, unfolded s'(2)]
  obtain x y where l: "log_of s' e = [x, y]" "ev_kind y = NodeScheduled start queue"
      "ev_kind x = WorkflowStarted (we_workflow_id ex) (we_workflow_version ex) (action_state input) initiator"
    using parts(2) by (auto simp: map_eq_Cons_conv)
  have pos: "0 < ev_sequence x" "0 < ev_sequence y" using parts(3) l(1) by simp_all
  have snap: "latest_snapshot e s' = None" using parts(4) assms(3) by (simp add: latest_snapshot_def)
  have ex: "get_execution e s' = Some ex" using parts(1) by (simp add: get_execution_def)
  have "start \<in> ep_scheduled (fold_delta (ap_sched a) e s' sch)"
    using assms(7) pos
    by (simp add: fold_delta_def Let_def get_events_since_def l progress_default_def progress_apply_def progress_kind_def mark_scheduled_def split: json.split)
  moreover have "\<exists>m. materialize e s' = Inr m \<and> ms_current_state m = action_state input \<and> ms_active_nodes m = {start}"
    using pos ex s'(4) snap
    by (simp add: materialize_def and_then_def ok_or_def materialize_from_def get_events_since_def l apply_events_seeded_def apply_event_def
        apply_kind_def origin_state_def)
  moreover have "run_initiator (get_events e s') = initiator" by (simp add: run_initiator_def get_events_def l)
  moreover have "case json_get (wd_ir def) ''start_node'' of Some (JString n) \<Rightarrow> start = n | _ \<Rightarrow> start = ''start''"
    using d(2) by (cases "json_get (wd_ir def) ''start_node''") (auto simp: start_node_of_def split: json.split)
  moreover have "mb_work_items s' j = Some it \<and> wi_execution_id it = e \<longleftrightarrow> j = wi_id item \<and> it = item" for j it
    using assms(4) s'(5) parts(5) by auto
  moreover have "we_workflow_id ex = w" "we_workflow_version ex = v" "wi_worker_id item = None"
      "wi_queue_type item = queue_as_str (node_queue_type (nd_kind nd))"
    by (simp_all add: ex_def item_def new_execution_def start_item_def)
  ultimately show ?thesis
    using d(1,3,4) ex s'(3-7) snap unfolding v_def
    by (intro exI [of _ def] exI [of _ ir] exI [of _ nd] exI [of _ ex] exI [of _ item] exI [of _ start])
      (simp add: load_budget_state_def payload_names_workflow)
qed

section \<open>Witnesses\<close>

definition run_api :: api_env where
  "run_api = sample_api\<lparr>ap_guard := sample_guard\<lparr>ge_sched := sample_env\<lparr>se_parse_ir := \<lambda>_. Inr work_ir\<rparr>\<rparr>\<rparr>"

definition pay_ir :: json where
  "pay_ir = JObject [(''start_node'', JString ''pay''), (''version'', JString ''1''), (''workflow_id'', JString ''wf'')]"

lemma pay_ir_checked: "check_registration run_api from_str pay_ir = Inr (''wf'', ''1'')"
proof -
  have "registration_rules from_str work_ir = Inr ()"
    by (simp add: registration_rules_def validate_agent_tool_dispatch_def validate_condition_expressions_def validate_external_queues_def
        validate_node_ids_def validate_approval_deadlines_def work_ir_def work_node_def sample_ir_def plain_node_def valid_node_id_def
        is_ascii_alphanumeric_def max_node_id_len_def str_len_def ir_node_def and_then_def)
  then show ?thesis
    by (simp add: check_registration_def required_text_def pay_ir_def run_api_def bad_ir_def map_err_def and_then_def ok_or_def)
qed

lemma pay_ir_registered: "\<exists>s'. create_workflow run_api from_str idle ''t'' pay_ir backend_new = (s', Inr (StCreated, registered_json ''wf'' ''1''))"
proof -
  have "refuse_retired_timeouts pay_ir = Inr ()" by (simp add: refuse_retired_timeouts_def pay_ir_def)
  then show ?thesis
    by (simp add: create_workflow_def pay_ir_checked get_workflow_def backend_new_def bad_ir_def map_err_def store_workflow_def idle_def Let_def)
qed

theorem registered_version_is_final_witness:
  "\<exists>s' def. create_workflow run_api (\<lambda>_. None) idle ''t'' pay_ir backend_new = (s', Inr (StCreated, registered_json ''wf'' ''1'')) \<and>
     get_workflow ''wf'' ''1'' s' = Some def \<and> same_definition sample_externals (wd_ir def) pay_ir"
proof -
  obtain s' where s': "create_workflow run_api (\<lambda>_. None) idle ''t'' pay_ir backend_new = (s', Inr (StCreated, registered_json ''wf'' ''1''))"
    using pay_ir_registered by blast
  have x: "ap_x run_api = sample_externals" by (simp add: run_api_def sample_guard_def sample_env_def)
  from registered_version_is_final [OF s' pay_ir_checked trace_nil [of sample_externals "\<lambda>_. ''e''"]] s' show ?thesis unfolding x by blast
qed

theorem started_run_is_scheduled_witness:
  "\<exists>s'. start_run run_api idle ''x'' ''t'' ''wf'' (Some ''1'') (JObject [(''__budget'', JBool True)]) (Some ''token:1'')
       (backend_new\<lparr>mb_workflows := [(''wf'', ''1'') \<mapsto> \<lparr>wd_workflow_id = ''wf'', wd_version = ''1'', wd_ir = pay_ir, wd_created_at = 0,
          wd_tenant_id = ''t''\<rparr>]\<rparr>) = (s', Inr (StCreated, json_object [(''execution_id'', JString (exec_label ''x''))])) \<and>
     load_budget_state ''x'' s' = budget_default \<and> run_initiator (get_events ''x'' s') = Some ''token:1''"
proof -
  let ?s = "backend_new\<lparr>mb_workflows := [(''wf'', ''1'') \<mapsto> \<lparr>wd_workflow_id = ''wf'', wd_version = ''1'', wd_ir = pay_ir, wd_created_at = 0,
          wd_tenant_id = ''t''\<rparr>]\<rparr>"
  obtain s' where s': "start_run run_api idle ''x'' ''t'' ''wf'' (Some ''1'') (JObject [(''__budget'', JBool True)]) (Some ''token:1'') ?s =
      (s', Inr (StCreated, json_object [(''execution_id'', JString (exec_label ''x''))]))"
    by (simp add: start_run_def get_workflow_def pay_ir_def start_node_of_def run_api_def ir_node_def work_ir_def Let_def)
  have "fresh_run (rq_others idle 1 ?s) ''x''" "mb_snapshots (rq_others idle 1 ?s) ''x'' = None"
    "\<forall>j it. mb_work_items (rq_others idle 1 ?s) j = Some it \<longrightarrow> wi_execution_id it \<noteq> ''x''"
    "0 < mb_next_sequence (rq_others idle 1 ?s)" "mb_next_sequence (rq_others idle 1 ?s) < 2 ^ 63 - 2"
    by (simp_all add: idle_def fresh_run_def backend_new_def log_of_def)
  from started_run_is_scheduled [OF s' this, of "\<lparr>sd_ir_cache = Map.empty, sd_progress = Map.empty\<rparr>"] s' show ?thesis by auto
qed

end
