(* ===== verification/Auth.thy ===== *)
theory Auth
  imports Run_Api
begin

text \<open>
  Who may call the API (\<^verbatim>\<open>runtime/api/src/auth.rs\<close>, the router of \<^verbatim>\<open>routes.rs\<close> and the callers of
  \<^verbatim>\<open>mcp_bridge.rs\<close>): roles, tokens, the layers in front of the handlers, and the two routes that turn the
  token of a caller into a principal, starting a run and deciding an approval, over HTTP and over MCP.  The
  router itself is a library: a request carries the path template it was matched with.  A long dash in a text
  is a hyphen.
\<close>

section \<open>Roles\<close>

datatype role = Viewer | Reviewer | Developer | Operator

fun role_rank :: "role \<Rightarrow> nat" where
  "role_rank Viewer = 0"
| "role_rank Reviewer = 1"
| "role_rank Developer = 2"
| "role_rank Operator = 3"

lemma role_rank_inject: "role_rank a = role_rank b \<longleftrightarrow> a = b"
  by (cases a; cases b) simp_all

instantiation role :: linorder
begin

definition less_eq_role :: "role \<Rightarrow> role \<Rightarrow> bool" where "less_eq_role a b = (role_rank a \<le> role_rank b)"

definition less_role :: "role \<Rightarrow> role \<Rightarrow> bool" where "less_role a b = (role_rank a < role_rank b)"

instance
  by standard (auto simp: less_eq_role_def less_role_def role_rank_inject)

end

definition parse_role :: "string \<Rightarrow> role" where
  "parse_role t = (if t = ''operator'' then Operator else if t = ''developer'' then Developer else if t = ''reviewer'' then Reviewer else Viewer)"

definition can_write :: "role \<Rightarrow> bool" where
  "can_write r = (case r of Operator \<Rightarrow> True | Developer \<Rightarrow> True | _ \<Rightarrow> False)"

definition can_approve :: "role \<Rightarrow> bool" where
  "can_approve r = (Reviewer \<le> r)"

definition can_admin :: "role \<Rightarrow> bool" where
  "can_admin r = (case r of Operator \<Rightarrow> True | _ \<Rightarrow> False)"

section \<open>The layers\<close>

datatype http_method = GET | HEAD | POST | PUT | PATCH | DELETE | OtherMethod string

text \<open>The header is \<open>None\<close> when it is absent or no readable text.\<close>

record http_request =
  hr_method :: http_method
  hr_matched_path :: "string option"
  hr_authorization :: "string option"
  hr_token :: "api_token option"
  hr_tenant :: "string option"
  hr_dev :: bool

type_synonym layer_result = "(nat \<times> json) + http_request"

definition refusal :: "nat \<Rightarrow> string \<Rightarrow> (nat \<times> json) + 'a" where
  "refusal status err = Inl (status, json_object [(''error'', JString err)])"

definition extract_bearer :: "http_request \<Rightarrow> string option" where
  "extract_bearer req = Option.bind (hr_authorization req) (strip_prefix ''Bearer '')"

definition single_tenant_refusal :: string where
  "single_tenant_refusal =
     ''multi-tenant tokens are not supported by this runtime yet; the engine runs every workflow in tenant default''"

definition admit_token :: "api_token \<Rightarrow> bool \<Rightarrow> string + api_token" where
  "admit_token token as_default =
     (if tk_tenant_id token = default_tenant then Inr token
      else if as_default then Inr (token\<lparr>tk_tenant_id := default_tenant\<rparr>)
      else Inl single_tenant_refusal)"

definition require_auth :: "bool \<Rightarrow> in_memory_backend \<Rightarrow> http_request \<Rightarrow> layer_result" where
  "require_auth as_default s req =
     (case extract_bearer req of
        None \<Rightarrow> refusal 401 ''missing Authorization: Bearer <token>''
      | Some token \<Rightarrow>
          (case validate_token token s of
             None \<Rightarrow> refusal 401 ''invalid or expired token''
           | Some info \<Rightarrow>
               (case admit_token info as_default of
                  Inl err \<Rightarrow> refusal 403 err
                | Inr info \<Rightarrow> Inr (req\<lparr>hr_tenant := Some (tk_tenant_id info), hr_token := Some info\<rparr>))))"

definition approve_path :: string where
  "approve_path = ''/executions/:id/approve''"

definition principal_of :: "api_token \<Rightarrow> string" where
  "principal_of token = ''token:'' @ tk_id token"

definition is_mutating :: "http_method \<Rightarrow> bool" where
  "is_mutating m = (m \<in> {POST, PUT, PATCH, DELETE})"

definition insufficient :: "string \<Rightarrow> string \<Rightarrow> (nat \<times> json) + 'a" where
  "insufficient need required =
     Inl (403, json_object [(''error'', JString (''insufficient role - '' @ need @ '' required'')), (''required'', JString required)])"

definition require_write_role :: "http_request \<Rightarrow> layer_result" where
  "require_write_role req =
     (if is_mutating (hr_method req)
      then (let r = (case hr_token req of Some t \<Rightarrow> parse_role (tk_role t) | None \<Rightarrow> Viewer)
            in if hr_method req = POST \<and> hr_matched_path req = Some approve_path
               then (if can_approve r then Inr req else insufficient ''reviewer, developer or operator'' ''reviewer'')
               else if can_write r then Inr req else insufficient ''developer or operator'' ''developer'')
      else Inr req)"

text \<open>Without a token the request is answered by the extractor of the framework.\<close>

definition require_operator_role :: "http_request \<Rightarrow> layer_result" where
  "require_operator_role req =
     (case hr_token req of
        None \<Rightarrow> Inl (500, JNull)
      | Some t \<Rightarrow> if can_admin (parse_role (tk_role t)) then Inr req else insufficient ''operator'' ''operator'')"

definition inject_dev_tenant :: "http_request \<Rightarrow> http_request" where
  "inject_dev_tenant req = req\<lparr>hr_tenant := Some ''default'', hr_dev := True\<rparr>"

section \<open>The router\<close>

datatype handler =
    CreateWorkflow | CreateCron | ListCron | DeleteCron | StartExecution | ListExecutions | GetExecution | CancelExecution
  | ListEvents | ApproveExecution | ListApprovals | SendExternalEvent | PutArtifact | GetArtifact | RegisterAgent | ListAgents
  | DiscoverAgent | GetAgent | ActivateAgent | DeactivateAgent | AgentHeartbeat | EnqueueWorkItem | ClaimWorkItem | CompleteWorkItem
  | FailWorkItem | HeartbeatWorkItem | ListWorkers | CreateTenant | ListTenants | GetTenant | UpdateTenant | ListAuditLog
  | ListCoordinatorDecisions | GetNodeScoring | GetNodeReasoning | SearchAgents

record route =
  ro_path :: string
  ro_methods :: "(http_method \<times> handler) list"
  ro_operator_only :: bool

definition open_route :: "string \<Rightarrow> (http_method \<times> handler) list \<Rightarrow> route" where
  "open_route path methods = \<lparr>ro_path = path, ro_methods = methods, ro_operator_only = False\<rparr>"

definition operator_only :: "bool \<Rightarrow> string \<Rightarrow> (http_method \<times> handler) list \<Rightarrow> route" where
  "operator_only dev_mode path methods = \<lparr>ro_path = path, ro_methods = methods, ro_operator_only = \<not> dev_mode\<rparr>"

definition api_routes :: "bool \<Rightarrow> route list" where
  "api_routes dev_mode =
     [open_route ''/workflows'' [(POST, CreateWorkflow)],
      open_route ''/cron'' [(POST, CreateCron), (GET, ListCron)],
      open_route ''/cron/:name'' [(DELETE, DeleteCron)],
      open_route ''/executions'' [(POST, StartExecution), (GET, ListExecutions)],
      open_route ''/executions/:id'' [(GET, GetExecution)],
      open_route ''/executions/:id/cancel'' [(POST, CancelExecution)],
      open_route ''/executions/:id/events'' [(GET, ListEvents)],
      open_route approve_path [(POST, ApproveExecution)],
      open_route ''/executions/:id/approvals'' [(GET, ListApprovals)],
      open_route ''/executions/:id/external-event'' [(POST, SendExternalEvent)],
      open_route ''/artifacts'' [(POST, PutArtifact)],
      open_route ''/artifacts/:hash'' [(GET, GetArtifact)],
      open_route ''/agents'' [(POST, RegisterAgent), (GET, ListAgents)],
      open_route ''/agents/discover'' [(POST, DiscoverAgent)],
      open_route ''/agents/:id'' [(GET, GetAgent)],
      open_route ''/agents/:id/activate'' [(POST, ActivateAgent)],
      open_route ''/agents/:id/deactivate'' [(POST, DeactivateAgent)],
      open_route ''/agents/:id/heartbeat'' [(POST, AgentHeartbeat)],
      operator_only dev_mode ''/work-items'' [(POST, EnqueueWorkItem)],
      open_route ''/work-items/claim'' [(POST, ClaimWorkItem)],
      open_route ''/work-items/:id/complete'' [(POST, CompleteWorkItem)],
      open_route ''/work-items/:id/fail'' [(POST, FailWorkItem)],
      open_route ''/work-items/:id/heartbeat'' [(POST, HeartbeatWorkItem)],
      open_route ''/workers'' [(GET, ListWorkers)],
      operator_only dev_mode ''/tenants'' [(POST, CreateTenant), (GET, ListTenants)],
      operator_only dev_mode ''/tenants/:id'' [(GET, GetTenant), (PUT, UpdateTenant)],
      open_route ''/audit'' [(GET, ListAuditLog)],
      open_route ''/executions/:id/coordinator-decisions'' [(GET, ListCoordinatorDecisions)],
      open_route ''/executions/:id/nodes/:node_id/scoring'' [(GET, GetNodeScoring)],
      open_route ''/executions/:id/nodes/:node_id/reasoning'' [(GET, GetNodeReasoning)],
      open_route ''/agents/search'' [(GET, SearchAgents)]]"

text \<open>A HEAD request is served by the handler of GET.\<close>

definition handler_of :: "route \<Rightarrow> http_method \<Rightarrow> handler option" where
  "handler_of r m = map_of (ro_methods r) (if m = HEAD then GET else m)"

text \<open>A request to one of these routes reaches a handler, with the caller in its extensions, or is answered by a layer.\<close>

definition serve :: "bool \<Rightarrow> bool \<Rightarrow> in_memory_backend \<Rightarrow> http_request \<Rightarrow> route \<Rightarrow> (nat \<times> json) + (handler \<times> http_request)" where
  "serve dev_mode as_default s req r =
     and_then (if dev_mode then Inr (inject_dev_tenant req) else and_then (require_auth as_default s req) require_write_role) (\<lambda>req.
     and_then (if ro_operator_only r then require_operator_role req else Inr req) (\<lambda>req.
       (case handler_of r (hr_method req) of
          Some h \<Rightarrow> Inr (h, req)
        | None \<Rightarrow> Inl (405, JNull))))"

section \<open>Starting and deciding over HTTP\<close>

definition start_execution_route ::
    "api_env \<Rightarrow> request_env \<Rightarrow> execution_id \<Rightarrow> http_request \<Rightarrow> string \<Rightarrow> string option \<Rightarrow> json \<Rightarrow> in_memory_backend \<Rightarrow> in_memory_backend \<times> api_result" where
  "start_execution_route a q e req workflow_id workflow_version input s =
     (case hr_tenant req of
        None \<Rightarrow> (s, Inl (ApiInternal ''no tenant''))
      | Some tenant_id \<Rightarrow> start_run a q e tenant_id workflow_id workflow_version input (map_option principal_of (hr_token req)) s)"

record approve_request =
  aq_decision :: string
  aq_node_id :: "string option"
  aq_user_id :: "string option"
  aq_comment :: "string option"
  aq_state_patch :: "json option"
  aq_action_digest :: "string option"

definition parse_decision :: "string \<Rightarrow> approval_decision option" where
  "parse_decision t = (if t = ''approved'' then Some Approved else if t = ''rejected'' then Some Rejected else None)"

text \<open>The name recorded and the principal: a token's own, or in dev mode the name of the body.\<close>

definition approver_of :: "http_request \<Rightarrow> string option \<Rightarrow> (string \<times> string option) option" where
  "approver_of req user_id =
     (case hr_token req of
        Some t \<Rightarrow> Some (tk_name t, Some (principal_of t))
      | None \<Rightarrow> if hr_dev req then Some (case user_id of Some u \<Rightarrow> u | None \<Rightarrow> ''anonymous'', None) else None)"

definition submit_error_text :: "submit_error \<Rightarrow> string" where
  "submit_error_text err =
     (case err of
        NoPending \<Rightarrow> ''no pending approval on this execution''
      | MultiplePending nodes \<Rightarrow> ''multiple approvals pending ('' @ join_comma nodes @ ''); specify node_id''
      | NodeNotPending n \<Rightarrow> ''node '' @ in_quotes n @ '' has no pending approval (unknown or already decided)''
      | ExecutionTerminal status \<Rightarrow> ''execution is '' @ status_debug status @ ''; approvals can no longer be decided''
      | SelfApproval \<Rightarrow> ''separation of duties: the principal that started this run cannot approve it''
      | InitiatorUnknown \<Rightarrow>
          ''separation of duties: this run has no recorded initiator (it predates initiator recording or was started in dev mode), so an approval cannot be shown to come from someone other than whoever started it; reject it, re-run it, or set JAMJET_ALLOW_SELF_APPROVAL=1 to allow approvals without that check''
      | StaleDigest \<Rightarrow> ''action_digest does not match the pending request; re-read the pending approval and decide again''
      | DigestRequired \<Rightarrow>
          ''action_digest is required to approve: echo the action_digest (or, for an agent tool dispatch, the calls_hash) from the context of the pending approval you reviewed, as listed by GET /executions/{id}/approvals''
      | EditsUnsupported \<Rightarrow>
          ''approval edits are not supported: a decision cannot carry a state_patch, because the action would not run on the edited state; approve or reject the action as requested''
      | PrincipalMissing \<Rightarrow>
          ''the decision has no authenticated principal; outside dev mode every approval decision must come from an API token''
      | ExpiredRequest n \<Rightarrow>
          ''the approval request for node '' @ in_quotes n @ '' expired at its deadline and can no longer be decided; it was rejected by system:deadline''
      | UnreadableLog \<Rightarrow> unreadable_log_reason
      | Superseded n \<Rightarrow>
          ''the approval request for node '' @ in_quotes n @ '' was decided, expired or replaced while this decision was being made; nothing was recorded, re-read the pending approvals''
      | SubmitBackend e \<Rightarrow> ''backend error: '' @ backend_error_text e)"

definition api_error_of_submit :: "submit_error \<Rightarrow> api_error" where
  "api_error_of_submit err =
     (case err of
        SelfApproval \<Rightarrow> ApiForbidden (submit_error_text err)
      | InitiatorUnknown \<Rightarrow> ApiForbidden (submit_error_text err)
      | PrincipalMissing \<Rightarrow> ApiForbidden (submit_error_text err)
      | MultiplePending _ \<Rightarrow> ApiBadRequest (submit_error_text err)
      | EditsUnsupported \<Rightarrow> ApiBadRequest (submit_error_text err)
      | DigestRequired \<Rightarrow> ApiBadRequest (submit_error_text err)
      | SubmitBackend e \<Rightarrow> ApiInternal (backend_error_text e)
      | _ \<Rightarrow> ApiConflict (submit_error_text err))"

text \<open>Sealing the decision into the audit log; \<^verbatim>\<open>seal_decision\<close> answers with an error when no entry was written.\<close>

definition seal_or_gap ::
    "api_env \<Rightarrow> request_env \<Rightarrow> (event \<Rightarrow> string \<Rightarrow> string option) \<Rightarrow> string \<Rightarrow> event \<Rightarrow> in_memory_backend \<Rightarrow> in_memory_backend" where
  "seal_or_gap a q seal_decision actor_id event s =
     (case seal_decision event actor_id of
        None \<Rightarrow> s
      | Some err \<Rightarrow> record_seal_gap (ap_sched a) (rq_now q 3) event err (rq_others q 3 s))"

definition approve_route ::
    "api_env \<Rightarrow> request_env \<Rightarrow> (event \<Rightarrow> string \<Rightarrow> string option) \<Rightarrow> approval_policy \<Rightarrow> uuid \<Rightarrow> http_request \<Rightarrow> string \<Rightarrow> approve_request \<Rightarrow>
     in_memory_backend \<Rightarrow> in_memory_backend \<times> (api_error + json)" where
  "approve_route a q seal_decision policy i req path body s =
     (case parse_execution_id a path of
        Inl err \<Rightarrow> (s, Inl err)
      | Inr e \<Rightarrow>
          (case parse_decision (aq_decision body) of
             None \<Rightarrow> (s, Inl (ApiBadRequest (''unknown decision: '' @ aq_decision body)))
           | Some decision \<Rightarrow>
               (case approver_of req (aq_user_id body) of
                  None \<Rightarrow> (s, Inl ApiUnauthorized)
                | Some (user_id, prin) \<Rightarrow>
                    (case submit_approval (ap_x a) i (rq_now q 1) (rq_now q 2) (rq_others q 1) (rq_others q 2) e
                            \<lparr>sub_node_id = aq_node_id body, sub_user_id = user_id, sub_principal = prin, sub_decision = decision,
                             sub_comment = aq_comment body, sub_state_patch = aq_state_patch body, sub_action_digest = aq_action_digest body,
                             sub_dev_mode = hr_dev req\<rparr> policy s of
                       (s, Inl err) \<Rightarrow> (s, Inl (api_error_of_submit err))
                     | (s, Inr (n, event)) \<Rightarrow>
                         (seal_or_gap a q seal_decision (case prin of Some p \<Rightarrow> p | None \<Rightarrow> user_id) event s,
                          Inr (json_object [(''execution_id'', JString path), (''node_id'', JString n), (''accepted'', JBool True)]))))))"

section \<open>Starting and deciding over MCP\<close>

record caller =
  ca_tenant :: string
  ca_token :: "api_token option"

definition text_arg :: "json \<Rightarrow> string \<Rightarrow> string \<Rightarrow> string" where
  "text_arg args key fallback = (case Option.bind (json_get args key) as_str of Some t \<Rightarrow> t | None \<Rightarrow> fallback)"

text \<open>An argument that must be a text when it is there.\<close>

definition optional_text :: "json \<Rightarrow> string \<Rightarrow> string + string option" where
  "optional_text args key =
     (case json_get args key of
        None \<Rightarrow> Inr None
      | Some JNull \<Rightarrow> Inr None
      | Some (JString t) \<Rightarrow> Inr (Some t)
      | Some _ \<Rightarrow> Inl (key @ '' must be a string''))"

definition role_debug :: "role \<Rightarrow> string" where
  "role_debug r = (case r of Viewer \<Rightarrow> ''Viewer'' | Reviewer \<Rightarrow> ''Reviewer'' | Developer \<Rightarrow> ''Developer'' | Operator \<Rightarrow> ''Operator'')"

definition resolve_caller :: "bool \<Rightarrow> http_request \<Rightarrow> json \<Rightarrow> bool \<Rightarrow> role \<Rightarrow> string + caller" where
  "resolve_caller as_default ctx args dev_mode need =
     and_then (optional_text args ''tenant_id'') (\<lambda>arg_tenant.
       if dev_mode then Inr \<lparr>ca_tenant = (case arg_tenant of Some t \<Rightarrow> t | None \<Rightarrow> ''default''), ca_token = None\<rparr>
       else and_then (ok_or ''unauthenticated: a Bearer API token is required'' (hr_token ctx)) (\<lambda>token.
            and_then (admit_token token as_default) (\<lambda>token.
              if parse_role (tk_role token) < need
              then Inl (''insufficient role '' @ in_quotes (tk_role token) @ '' for this tool; '' @ role_debug need @ '' or above required'')
              else (case arg_tenant of
                      Some t \<Rightarrow>
                        if t \<noteq> tk_tenant_id token then Inl (''tenant_id '' @ in_quotes t @ '' does not match the API token'' @ [CHR 0x27] @ ''s tenant'')
                        else Inr \<lparr>ca_tenant = tk_tenant_id token, ca_token = Some token\<rparr>
                    | None \<Rightarrow> Inr \<lparr>ca_tenant = tk_tenant_id token, ca_token = Some token\<rparr>))))"

definition api_error_text :: "api_error \<Rightarrow> string" where
  "api_error_text err =
     (case err of
        ApiNotFound t \<Rightarrow> ''not found: '' @ t
      | ApiBadRequest t \<Rightarrow> ''bad request: '' @ t
      | ApiConflict t \<Rightarrow> ''conflict: '' @ t
      | ApiInternal t \<Rightarrow> ''internal error: '' @ t
      | ApiUnauthorized \<Rightarrow> ''unauthorized''
      | ApiForbidden t \<Rightarrow> ''forbidden: '' @ t)"

definition mcp_run_workflow ::
    "api_env \<Rightarrow> request_env \<Rightarrow> bool \<Rightarrow> bool \<Rightarrow> execution_id \<Rightarrow> http_request \<Rightarrow> json \<Rightarrow> in_memory_backend \<Rightarrow> in_memory_backend \<times> (string + json)" where
  "mcp_run_workflow a q as_default dev_mode e ctx args s =
     (case resolve_caller as_default ctx args dev_mode Developer of
        Inl err \<Rightarrow> (s, Inl err)
      | Inr c \<Rightarrow>
          (case start_run a q e (ca_tenant c) (text_arg args ''workflow_id'' []) (Some (text_arg args ''workflow_version'' ''1.0.0''))
                  (case json_get args ''input'' of Some v \<Rightarrow> v | None \<Rightarrow> JObject []) (map_option principal_of (ca_token c)) s of
             (s, Inl err) \<Rightarrow> (s, Inl (api_error_text err))
           | (s, Inr (_, answer)) \<Rightarrow>
               (s, Inr (json_object [(''execution_id'', case json_get answer ''execution_id'' of Some v \<Rightarrow> v | None \<Rightarrow> JNull)]))))"

definition mcp_execution_id :: "api_env \<Rightarrow> string \<Rightarrow> string + execution_id" where
  "mcp_execution_id a t =
     ok_or (''invalid execution id: '' @ t) (ap_parse_uuid a (case strip_prefix ''exec_'' t of Some h \<Rightarrow> h | None \<Rightarrow> t))"

definition mcp_approve ::
    "api_env \<Rightarrow> request_env \<Rightarrow> (event \<Rightarrow> string \<Rightarrow> string option) \<Rightarrow> approval_policy \<Rightarrow> bool \<Rightarrow> bool \<Rightarrow> uuid \<Rightarrow> http_request \<Rightarrow> json \<Rightarrow>
     in_memory_backend \<Rightarrow> in_memory_backend \<times> (string + json)" where
  "mcp_approve a q seal_decision policy as_default dev_mode i ctx args s =
     (let id_str = text_arg args ''execution_id'' []; decision_str = text_arg args ''decision'' []; node = text_arg args ''node_id'' []
      in (case and_then (optional_text args ''action_digest'') (\<lambda>digest.
               and_then (resolve_caller as_default ctx args dev_mode Reviewer) (\<lambda>c.
               and_then (ok_or (''unknown decision: '' @ decision_str) (parse_decision decision_str)) (\<lambda>decision.
               and_then (mcp_execution_id a id_str) (\<lambda>e. Inr (digest, c, decision, e))))) of
            Inl err \<Rightarrow> (s, Inl err)
          | Inr (digest, c, decision, e) \<Rightarrow>
              (let (user_id, prin) = (case ca_token c of Some t \<Rightarrow> (tk_name t, Some (principal_of t)) | None \<Rightarrow> (''mcp-client'', None))
               in (case submit_approval (ap_x a) i (rq_now q 1) (rq_now q 2) (rq_others q 1) (rq_others q 2) e
                         \<lparr>sub_node_id = (if node = [] then None else Some node), sub_user_id = user_id, sub_principal = prin, sub_decision = decision,
                          sub_comment = Option.bind (json_get args ''comment'') as_str, sub_state_patch = json_get args ''state_patch'',
                          sub_action_digest = digest, sub_dev_mode = dev_mode\<rparr> policy s of
                     (s, Inl err) \<Rightarrow> (s, Inl (submit_error_text err))
                   | (s, Inr (n, event)) \<Rightarrow>
                       (seal_or_gap a q seal_decision (case prin of Some p \<Rightarrow> p | None \<Rightarrow> user_id) event s,
                        Inr (json_object [(''execution_id'', JString id_str), (''node_id'', JString n), (''accepted'', JBool True)]))))))"

section \<open>Who reaches which handler\<close>

text \<open>The table of the documentation: what a role may call.\<close>

definition operator_handlers :: "handler set" where
  "operator_handlers = {EnqueueWorkItem, CreateTenant, ListTenants, GetTenant, UpdateTenant}"

definition read_handlers :: "handler set" where
  "read_handlers =
     {ListCron, ListExecutions, GetExecution, ListEvents, ListApprovals, GetArtifact, ListAgents, GetAgent, ListWorkers, ListAuditLog,
      ListCoordinatorDecisions, GetNodeScoring, GetNodeReasoning, SearchAgents}"

definition may_call :: "role \<Rightarrow> handler \<Rightarrow> bool" where
  "may_call r h =
     (if h \<in> operator_handlers then r = Operator
      else if h = ApproveExecution then Reviewer \<le> r
      else if h \<in> read_handlers then True
      else Developer \<le> r)"

text \<open>The routes and methods of the router against the table.\<close>

definition entry_fits :: "route \<Rightarrow> http_method \<times> handler \<Rightarrow> bool" where
  "entry_fits r mh =
     (case mh of (m, h) \<Rightarrow>
        ro_operator_only r = (h \<in> operator_handlers) \<and> (h = ApproveExecution) = (ro_path r = approve_path \<and> m = POST) \<and>
        is_mutating m = (h \<notin> read_handlers \<and> h \<notin> {ListTenants, GetTenant}) \<and> m \<noteq> HEAD)"

lemma routes_fit: "list_all (\<lambda>r. list_all (entry_fits r) (ro_methods r)) (api_routes False)"
  by code_simp

lemma handler_entry:
  assumes "r \<in> set (api_routes False)" and "handler_of r m = Some h"
  shows "(ro_operator_only r \<longleftrightarrow> h \<in> operator_handlers) \<and> (h = ApproveExecution \<longleftrightarrow> ro_path r = approve_path \<and> m = POST) \<and>
    (is_mutating m \<longleftrightarrow> h \<notin> read_handlers \<union> {ListTenants, GetTenant})"
proof -
  let ?m = "if m = HEAD then GET else m"
  have "(?m, h) \<in> set (ro_methods r)" using assms(2) by (auto simp: handler_of_def dest: map_of_SomeD)
  then have "entry_fits r (?m, h)" using routes_fit assms(1) by (auto simp: list_all_iff)
  then show ?thesis by (auto simp: entry_fits_def is_mutating_def split: if_splits)
qed

lemma role_order: "Reviewer \<le> r \<longleftrightarrow> r \<noteq> Viewer" "Developer \<le> r \<longleftrightarrow> r = Developer \<or> r = Operator"
  by (cases r; simp add: less_eq_role_def)+

text \<open>C9: Who reaches which handler: outside dev mode a request reaches the handler of its route and method exactly when it
  carries a bearer token the backend knows, of the default tenant unless the install has opted out, and the role of that
  token may call the handler: an operator anything, a developer all but tenants and hand-enqueued items, a reviewer
  the reads and the decision of an approval, a viewer and every unknown role the reads.  The handler sees the
  token and acts in the default tenant.\<close>

theorem access_follows_role:
  assumes "r \<in> set (api_routes False)" and "hr_matched_path req = Some (ro_path r)"
  shows "serve False as_default s req r = Inr (h, req') \<longleftrightarrow>
    (\<exists>bearer t. extract_bearer req = Some bearer \<and> validate_token bearer s = Some t \<and> (tk_tenant_id t = default_tenant \<or> as_default) \<and>
       handler_of r (hr_method req) = Some h \<and> may_call (parse_role (tk_role t)) h \<and>
       req' = req\<lparr>hr_tenant := Some default_tenant, hr_token := Some (t\<lparr>tk_tenant_id := default_tenant\<rparr>)\<rparr>)"
proof (cases "require_auth as_default s req")
  case (Inl ans)
  then show ?thesis by (auto simp: serve_def and_then_def require_auth_def admit_token_def refusal_def split: option.splits sum.splits if_splits)
next
  case (Inr q)
  then obtain bearer t where t: "extract_bearer req = Some bearer" "validate_token bearer s = Some t" "tk_tenant_id t = default_tenant \<or> as_default"
      "q = req\<lparr>hr_tenant := Some default_tenant, hr_token := Some (t\<lparr>tk_tenant_id := default_tenant\<rparr>)\<rparr>"
    by (auto simp: require_auth_def admit_token_def refusal_def split: option.splits sum.splits if_splits)
  have layers: "serve False as_default s req r = Inr (h, req') \<longleftrightarrow>
      req' = q \<and> handler_of r (hr_method req) = Some h \<and> require_write_role q = Inr q \<and> (ro_operator_only r \<longrightarrow> can_admin (parse_role (tk_role t)))"
    using Inr t(4)
    by (auto simp: serve_def and_then_def require_write_role_def require_operator_role_def insufficient_def Let_def split: option.splits sum.splits if_splits)
  have "require_write_role q = Inr q \<and> (ro_operator_only r \<longrightarrow> can_admin (parse_role (tk_role t))) \<longleftrightarrow> may_call (parse_role (tk_role t)) h"
    if "handler_of r (hr_method req) = Some h"
    using handler_entry [OF assms(1) that] assms(2)
    by (cases "parse_role (tk_role t)")
      (auto simp: t(4) require_write_role_def can_write_def can_approve_def can_admin_def may_call_def role_order insufficient_def Let_def
        operator_handlers_def read_handlers_def)
  then show ?thesis unfolding layers using t by auto
qed

definition reviewer_token :: api_token where
  "reviewer_token = \<lparr>tk_id = ''2'', tk_name = ''ann'', tk_role = ''reviewer'', tk_created_at = 0, tk_expires_at = None, tk_tenant_id = default_tenant\<rparr>"

definition approve_call :: http_request where
  "approve_call = \<lparr>hr_method = POST, hr_matched_path = Some approve_path, hr_authorization = Some ''Bearer jj_2'', hr_token = None, hr_tenant = None, hr_dev = False\<rparr>"

theorem access_follows_role_witness:
  "(\<exists>req. serve False False (backend_new\<lparr>mb_tokens := [''jj_2'' \<mapsto> reviewer_token]\<rparr>) approve_call (open_route approve_path [(POST, ApproveExecution)]) =
     Inr (ApproveExecution, req)) \<and>
   \<not> (\<exists>req. serve False False (backend_new\<lparr>mb_tokens := [''jj_2'' \<mapsto> reviewer_token]\<rparr>) (approve_call\<lparr>hr_matched_path := Some ''/executions/:id/cancel''\<rparr>)
     (open_route ''/executions/:id/cancel'' [(POST, CancelExecution)]) = Inr (CancelExecution, req))"
proof -
  have r: "open_route approve_path [(POST, ApproveExecution)] \<in> set (api_routes False)"
    "open_route ''/executions/:id/cancel'' [(POST, CancelExecution)] \<in> set (api_routes False)"
    unfolding api_routes_def by (simp_all only: list.set insert_iff simp_thms)
  have p: "hr_matched_path approve_call = Some (ro_path (open_route approve_path [(POST, ApproveExecution)]))"
    "hr_matched_path (approve_call\<lparr>hr_matched_path := Some ''/executions/:id/cancel''\<rparr>) = Some (ro_path (open_route ''/executions/:id/cancel'' [(POST, CancelExecution)]))"
    by (simp_all add: approve_call_def open_route_def)
  show ?thesis
    unfolding access_follows_role [OF r(1) p(1)] access_follows_role [OF r(2) p(2)]
    by (simp add: approve_call_def extract_bearer_def strip_prefix_def validate_token_def reviewer_token_def handler_of_def open_route_def
        may_call_def operator_handlers_def read_handlers_def parse_role_def role_order)
qed

end
