(* ===== verification/Cron_Expr.thy ===== *)
theory Cron_Expr
  imports Scheduler
begin

text \<open>
  Cron expressions (\<^verbatim>\<open>runtime/timers/src/lib.rs\<close>): the parser of the five fields and the search for the next
  minute they name.  Times are milliseconds of UTC; the calendar (\<^verbatim>\<open>chrono\<close>) is a parameter that gives the
  day of the month, the month and the weekday of a day number.
\<close>

section \<open>Fields\<close>

fun pieces :: "string \<Rightarrow> string list" where
  "pieces [] = [[]]"
| "pieces (c # cs) =
     (if is_whitespace c then [] # pieces cs
      else (case pieces cs of [] \<Rightarrow> [[c]] | w # ws \<Rightarrow> (c # w) # ws))"

text \<open>\<^verbatim>\<open>str::split_whitespace\<close>.\<close>

definition split_whitespace :: "string \<Rightarrow> string list" where
  "split_whitespace t = filter (\<lambda>w. w \<noteq> []) (pieces t)"

definition parse_u32 :: "string \<Rightarrow> nat option" where
  "parse_u32 = parse_unsigned (2 ^ 32 - 1)"

definition bounds_text :: "nat \<Rightarrow> nat \<Rightarrow> string" where
  "bounds_text lo hi = ''['' @ show_nat lo @ ''-'' @ show_nat hi @ '']''"

definition parse_part :: "nat \<Rightarrow> nat \<Rightarrow> string \<Rightarrow> string + nat list" where
  "parse_part lo hi part =
     (if part = ''*'' then Inr [lo..<Suc hi]
      else case strip_prefix ''*/'' part of
        Some step_part \<Rightarrow>
          and_then (ok_or (''bad step: '' @ part) (parse_u32 step_part)) (\<lambda>step.
            if step = 0 then Inl (''step cannot be 0 in: '' @ part)
            else Inr (filter (\<lambda>n. (n - lo) mod step = 0) [lo..<Suc hi]))
      | None \<Rightarrow>
          (case split_once CHR ''-'' part of
             Some (a, b) \<Rightarrow>
               and_then (ok_or (''bad range start: '' @ part) (parse_u32 a)) (\<lambda>x.
               and_then (ok_or (''bad range end: '' @ part) (parse_u32 b)) (\<lambda>y.
                 if x > y \<or> x < lo \<or> y > hi then Inl (''range out of bounds '' @ bounds_text lo hi @ '': '' @ part)
                 else Inr [x..<Suc y]))
           | None \<Rightarrow>
               and_then (ok_or (''bad cron field value: '' @ part) (parse_u32 part)) (\<lambda>n.
                 if n < lo \<or> n > hi then Inl (''value '' @ show_nat n @ '' out of '' @ bounds_text lo hi)
                 else Inr [n])))"

fun parse_parts :: "nat \<Rightarrow> nat \<Rightarrow> string list \<Rightarrow> string + nat list" where
  "parse_parts lo hi [] = Inr []"
| "parse_parts lo hi (p # ps) = and_then (parse_part lo hi p) (\<lambda>vs. and_then (parse_parts lo hi ps) (\<lambda>ws. Inr (vs @ ws)))"

definition parse_field :: "string \<Rightarrow> nat \<Rightarrow> nat \<Rightarrow> string + nat list" where
  "parse_field field lo hi = and_then (parse_parts lo hi (split_on CHR '','' field)) (\<lambda>vs. Inr (remdups_adj (sort vs)))"

section \<open>The next time\<close>

record calendar =
  cal_day :: "int \<Rightarrow> nat"
  cal_month :: "int \<Rightarrow> nat"
  cal_weekday :: "int \<Rightarrow> nat"

definition ms_per_minute :: int where "ms_per_minute = 60 * 1000"

definition minute_of :: "timestamp \<Rightarrow> nat" where "minute_of t = nat (t div ms_per_minute mod 60)"

definition hour_of :: "timestamp \<Rightarrow> nat" where "hour_of t = nat (t div (60 * ms_per_minute) mod 24)"

definition day_of :: "timestamp \<Rightarrow> int" where "day_of t = t div (24 * 60 * ms_per_minute)"

record cron_fields =
  cf_minutes :: "nat list"
  cf_hours :: "nat list"
  cf_doms :: "nat list"
  cf_months :: "nat list"
  cf_dows :: "nat list"

definition parse_fields :: "string \<Rightarrow> string + cron_fields" where
  "parse_fields expr =
     (case split_whitespace expr of
        [mi, h, d, mo, w] \<Rightarrow>
          and_then (parse_field mi 0 59) (\<lambda>minutes.
          and_then (parse_field h 0 23) (\<lambda>hours.
          and_then (parse_field d 1 31) (\<lambda>doms.
          and_then (parse_field mo 1 12) (\<lambda>months.
          and_then (parse_field w 0 6) (\<lambda>dows.
            Inr \<lparr>cf_minutes = minutes, cf_hours = hours, cf_doms = doms, cf_months = months, cf_dows = dows\<rparr>)))))
      | ws \<Rightarrow> Inl (''cron: expected 5 fields, got '' @ show_nat (length ws) @ '': '' @ expr))"

definition cron_matches :: "calendar \<Rightarrow> cron_fields \<Rightarrow> timestamp \<Rightarrow> bool" where
  "cron_matches cal f t =
     (cal_month cal (day_of t) \<in> set (cf_months f) \<and> cal_day cal (day_of t) \<in> set (cf_doms f) \<and>
      cal_weekday cal (day_of t) \<in> set (cf_dows f) \<and> hour_of t \<in> set (cf_hours f) \<and> minute_of t \<in> set (cf_minutes f))"

fun cron_scan :: "calendar \<Rightarrow> cron_fields \<Rightarrow> nat \<Rightarrow> timestamp \<Rightarrow> timestamp option" where
  "cron_scan cal f 0 t = None"
| "cron_scan cal f (Suc n) t = (if cron_matches cal f t then Some t else cron_scan cal f n (t + ms_per_minute))"

definition scan_minutes :: nat where "scan_minutes = 366 * 24 * 60"

definition next_minute :: "timestamp \<Rightarrow> timestamp" where
  "next_minute since = since - since mod ms_per_minute + ms_per_minute"

definition cron_next :: "calendar \<Rightarrow> string \<Rightarrow> timestamp \<Rightarrow> string + timestamp" where
  "cron_next cal expr since =
     and_then (parse_fields expr) (\<lambda>f.
       ok_or (''cron: no next time found in 366 days for: '' @ expr) (cron_scan cal f scan_minutes (next_minute since)))"

section \<open>What a field names\<close>

inductive covers :: "nat \<Rightarrow> nat \<Rightarrow> string \<Rightarrow> nat \<Rightarrow> bool" for lo hi where
  covers_all: "lo \<le> n \<Longrightarrow> n \<le> hi \<Longrightarrow> covers lo hi ''*'' n"
| covers_step: "parse_u32 w = Some k \<Longrightarrow> 0 < k \<Longrightarrow> lo \<le> n \<Longrightarrow> n \<le> hi \<Longrightarrow> k dvd n - lo \<Longrightarrow> covers lo hi (''*/'' @ w) n"
| covers_range: "CHR ''-'' \<notin> set a \<Longrightarrow> parse_u32 a = Some x \<Longrightarrow> parse_u32 b = Some y \<Longrightarrow> x \<le> n \<Longrightarrow> n \<le> y \<Longrightarrow> covers lo hi (a @ ''-'' @ b) n"
| covers_value: "parse_u32 w = Some n \<Longrightarrow> covers lo hi w n"

definition field_covers :: "nat \<Rightarrow> nat \<Rightarrow> string \<Rightarrow> nat \<Rightarrow> bool" where
  "field_covers lo hi field n = (\<exists>part \<in> set (split_on CHR '','' field). covers lo hi part n)"

lemma parse_digits_set: "parse_digits m acc s = Some n \<Longrightarrow> list_all is_ascii_digit s"
  by (induction m acc s rule: parse_digits.induct) (auto simp: Let_def split: if_splits)

lemma parse_u32_chars: "parse_u32 w = Some n \<Longrightarrow> CHR ''-'' \<notin> set w \<and> CHR ''*'' \<notin> set w"
proof -
  assume n: "parse_u32 w = Some n"
  have no: "\<not> is_ascii_digit CHR ''-''" "\<not> is_ascii_digit CHR ''*''" by (simp_all add: is_ascii_digit_def)
  obtain c cs where w: "w = c # cs" using n by (cases w) (simp_all add: parse_u32_def parse_unsigned_def)
  have "list_all is_ascii_digit cs \<and> (c = CHR ''+'' \<or> is_ascii_digit c)"
  proof (cases "c = CHR ''+''")
    case False
    then have "parse_digits (2 ^ 32 - 1) 0 w = Some n" using n by (simp add: parse_u32_def parse_unsigned_def w)
    from parse_digits_set [OF this] show ?thesis by (simp add: w)
  qed (use n in \<open>auto simp: parse_u32_def parse_unsigned_def w dest: parse_digits_set split: if_splits\<close>)
  then show ?thesis using no by (auto simp: w list_all_iff)
qed

lemma split_dash: "split_once CHR ''-'' part = Some (a, b) \<longleftrightarrow> part = a @ ''-'' @ b \<and> CHR ''-'' \<notin> set a"
  by (simp add: split_once_Some)

lemma covers_iff:
  "covers lo hi part n \<longleftrightarrow>
     part = ''*'' \<and> lo \<le> n \<and> n \<le> hi \<or>
     (\<exists>w k. part = ''*/'' @ w \<and> parse_u32 w = Some k \<and> 0 < k \<and> lo \<le> n \<and> n \<le> hi \<and> k dvd n - lo) \<or>
     (\<exists>a b x y. part = a @ ''-'' @ b \<and> CHR ''-'' \<notin> set a \<and> parse_u32 a = Some x \<and> parse_u32 b = Some y \<and> x \<le> n \<and> n \<le> y) \<or>
     parse_u32 part = Some n"
  by (subst covers.simps) blast

text \<open>A part that is read names what the parser returns for it, within the bounds of its field.\<close>

lemma parse_part_covers:
  assumes "parse_part lo hi part = Inr vs"
  shows "(n \<in> set vs \<longleftrightarrow> covers lo hi part n) \<and> set vs \<subseteq> {lo..hi}"
proof -
  have no: "parse_u32 w = None" if "CHR ''-'' \<in> set w \<or> CHR ''*'' \<in> set w" for w using parse_u32_chars that by fastforce
  consider (all) "part = ''*''" "vs = [lo..<Suc hi]"
    | (step) w k where "part = ''*/'' @ w" "parse_u32 w = Some k" "0 < k" "vs = filter (\<lambda>n. (n - lo) mod k = 0) [lo..<Suc hi]"
    | (range) a b x y where "part = a @ ''-'' @ b" "CHR ''-'' \<notin> set a" "parse_u32 a = Some x" "parse_u32 b = Some y" "lo \<le> x" "y \<le> hi" "vs = [x..<Suc y]"
    | (val) m where "parse_u32 part = Some m" "lo \<le> m" "m \<le> hi" "vs = [m]"
    using assms unfolding parse_part_def
    by (auto simp: and_then_eq_Inr ok_or_eq_Inr strip_prefix_Some split_dash split: if_splits option.splits prod.splits)
  then show ?thesis
  proof cases
    case all then show ?thesis by (auto simp: covers_iff no append_eq_Cons_conv Cons_eq_append_conv)
  next
    case step
    have "covers lo hi part n \<longleftrightarrow> lo \<le> n \<and> n \<le> hi \<and> k dvd n - lo"
    proof -
      have "parse_u32 a = None" if "part = a @ ''-'' @ b" for a b
      proof (cases a)
        case (Cons c cs)
        then show ?thesis using that step(1) by (intro no) auto
      qed (simp add: parse_u32_def parse_unsigned_def)
      then show ?thesis using step(1-3) no [of part] by (auto simp: covers_iff)
    qed
    then show ?thesis using step(4) by auto
  next
    case range
    have u: "a' = a \<and> b' = b" if "part = a' @ ''-'' @ b'" "CHR ''-'' \<notin> set a'" for a' b'
      using that range(1,2) split_dash [of part a b] split_dash [of part a' b'] by simp
    have "part \<noteq> ''*''" "part \<noteq> ''*/'' @ w" for w
      using range(1) parse_u32_chars [OF range(3)] range(3) by (cases a; auto simp: parse_u32_def parse_unsigned_def)+
    moreover have "parse_u32 part = None" using range(1) by (intro no) simp
    ultimately have "covers lo hi part n \<longleftrightarrow>
        (\<exists>a' b' x y. part = a' @ ''-'' @ b' \<and> CHR ''-'' \<notin> set a' \<and> parse_u32 a' = Some x \<and> parse_u32 b' = Some y \<and> x \<le> n \<and> n \<le> y)"
      unfolding covers_iff by simp
    also have "\<dots> \<longleftrightarrow> x \<le> n \<and> n \<le> y" using range(1-4) u by (metis option.inject)
    finally have "covers lo hi part n \<longleftrightarrow> x \<le> n \<and> n \<le> y" .
    then show ?thesis using range(5-7) by auto
  next
    case val
    then show ?thesis using parse_u32_chars [OF val(1)] by (auto simp: covers_iff)
  qed
qed

lemma distinct_remdups_adj_sorted: "sorted xs \<Longrightarrow> distinct (remdups_adj xs)"
  by (induction xs rule: remdups_adj.induct) (auto simp: less_le)

lemma parse_parts_covers:
  "parse_parts lo hi ps = Inr vs \<Longrightarrow> (n \<in> set vs \<longleftrightarrow> (\<exists>p \<in> set ps. covers lo hi p n)) \<and> set vs \<subseteq> {lo..hi}"
  by (induction ps arbitrary: vs) (use parse_part_covers in \<open>fastforce simp: and_then_eq_Inr\<close>)+

text \<open>A field that is read is the sorted list, without repetition, of the values its parts name, all within its bounds.\<close>

lemma parse_field_meaning:
  assumes "parse_field field lo hi = Inr vs"
  shows "set vs = {n. field_covers lo hi field n}" and "set vs \<subseteq> {lo..hi}" and "sorted vs" and "distinct vs"
proof -
  obtain ws where ws: "parse_parts lo hi (split_on CHR '','' field) = Inr ws" "vs = remdups_adj (sort ws)"
    using assms by (auto simp: parse_field_def and_then_eq_Inr)
  show "set vs = {n. field_covers lo hi field n}" "set vs \<subseteq> {lo..hi}"
    using parse_parts_covers [OF ws(1)] by (auto simp: ws(2) field_covers_def)
  show "sorted vs" "distinct vs" by (simp_all add: ws(2) sorted_remdups_adj distinct_remdups_adj_sorted)
qed

section \<open>The first match\<close>

text \<open>What an expression says of a minute.\<close>

definition cron_due :: "calendar \<Rightarrow> string \<Rightarrow> timestamp \<Rightarrow> bool" where
  "cron_due cal expr t =
     (case split_whitespace expr of
        [mi, h, d, mo, w] \<Rightarrow>
          field_covers 0 59 mi (minute_of t) \<and> field_covers 0 23 h (hour_of t) \<and> field_covers 1 31 d (cal_day cal (day_of t)) \<and>
          field_covers 1 12 mo (cal_month cal (day_of t)) \<and> field_covers 0 6 w (cal_weekday cal (day_of t))
      | _ \<Rightarrow> False)"

lemma matches_due:
  assumes "parse_fields expr = Inr f"
  shows "cron_matches cal f t \<longleftrightarrow> cron_due cal expr t"
proof -
  obtain mi h d mo w where e: "split_whitespace expr = [mi, h, d, mo, w]"
    and f: "parse_field mi 0 59 = Inr (cf_minutes f)" "parse_field h 0 23 = Inr (cf_hours f)" "parse_field d 1 31 = Inr (cf_doms f)"
      "parse_field mo 1 12 = Inr (cf_months f)" "parse_field w 0 6 = Inr (cf_dows f)"
    using assms by (auto simp: parse_fields_def and_then_eq_Inr split: list.splits)
  show ?thesis
    using f [THEN parse_field_meaning(1)] by (auto simp: cron_matches_def cron_due_def e)
qed

lemma cron_scan_Some:
  "cron_scan cal f n t = Some u \<longleftrightarrow>
     (\<exists>k < n. u = t + int k * ms_per_minute \<and> cron_matches cal f u \<and> (\<forall>j < k. \<not> cron_matches cal f (t + int j * ms_per_minute)))"
proof (induction n arbitrary: t)
  case (Suc n)
  have shift: "t + (1 + int k) * ms_per_minute = t + ms_per_minute + int k * ms_per_minute" for k by (simp add: algebra_simps)
  show ?case
  proof (cases "cron_matches cal f t")
    case True
    have "k = 0" if "\<forall>j < k. \<not> cron_matches cal f (t + int j * ms_per_minute)" for k using that True by (cases k) auto
    then show ?thesis using True by auto
  next
    case False
    have "(\<exists>k < Suc n. P k) \<longleftrightarrow> P 0 \<or> (\<exists>k < n. P (Suc k))" for P by (metis Suc_less_eq less_Suc_eq_0_disj)
    moreover have "(\<forall>j < Suc k. Q j) \<longleftrightarrow> Q 0 \<and> (\<forall>j < k. Q (Suc j))" for Q k by (metis Suc_less_eq less_Suc_eq_0_disj)
    ultimately show ?thesis using False Suc.IH [of "t + ms_per_minute"] by (auto simp: shift)
  qed
qed simp

lemma next_minute_after: "since < next_minute since" "ms_per_minute dvd next_minute since" "next_minute since \<le> since + ms_per_minute"
  by (simp_all add: next_minute_def ms_per_minute_def dvd_eq_mod_eq_0 mod_simps minus_mod_eq_mult_div)

text \<open>The minutes after a time are the candidates of the scan.\<close>

lemma minute_steps:
  assumes "ms_per_minute dvd u"
  shows "since < u \<longleftrightarrow> (\<exists>k. u = next_minute since + int k * ms_per_minute)"
proof
  assume "since < u"
  obtain i where i: "u = i * ms_per_minute" using assms by (metis dvd_def mult.commute)
  let ?k = "i - (since div ms_per_minute + 1)"
  have m: "next_minute since = (since div ms_per_minute + 1) * ms_per_minute"
    by (simp add: next_minute_def minus_mod_eq_div_mult algebra_simps)
  have "since div ms_per_minute < i"
  proof (rule ccontr)
    assume "\<not> since div ms_per_minute < i"
    then have "u \<le> since div ms_per_minute * ms_per_minute" by (simp add: i ms_per_minute_def)
    also have "\<dots> \<le> since" by (simp add: ms_per_minute_def)
    finally show False using \<open>since < u\<close> by simp
  qed
  then have "u = next_minute since + int (nat ?k) * ms_per_minute" by (simp add: m i algebra_simps)
  then show "\<exists>k. u = next_minute since + int k * ms_per_minute" by blast
next
  assume "\<exists>k. u = next_minute since + int k * ms_per_minute"
  then show "since < u" using next_minute_after(1) [of since] by (auto simp: ms_per_minute_def)
qed

lemma cron_next_iff:
  "cron_next cal expr since = Inr t \<longleftrightarrow>
     is_ok (parse_fields expr) \<and> since < t \<and> ms_per_minute dvd t \<and> cron_due cal expr t \<and>
     t < next_minute since + int scan_minutes * ms_per_minute \<and>
     (\<forall>u. since < u \<and> u < t \<and> ms_per_minute dvd u \<longrightarrow> \<not> cron_due cal expr u)"
proof (cases "parse_fields expr")
  case (Inl err)
  then show ?thesis by (simp add: cron_next_def and_then_def is_ok_def)
next
  case (Inr f)
  have p: "0 < ms_per_minute" by (simp add: ms_per_minute_def)
  note m = matches_due [OF Inr]
  have "cron_next cal expr since = Inr t \<longleftrightarrow> cron_scan cal f scan_minutes (next_minute since) = Some t"
    by (simp add: cron_next_def Inr and_then_def ok_or_eq_Inr)
  also have "\<dots> \<longleftrightarrow> since < t \<and> ms_per_minute dvd t \<and> cron_due cal expr t \<and> t < next_minute since + int scan_minutes * ms_per_minute \<and>
     (\<forall>u. since < u \<and> u < t \<and> ms_per_minute dvd u \<longrightarrow> \<not> cron_due cal expr u)" (is "?L \<longleftrightarrow> ?R")
  proof
    assume ?L
    then obtain k where k: "k < scan_minutes" "t = next_minute since + int k * ms_per_minute" "cron_due cal expr t"
        "\<forall>j < k. \<not> cron_due cal expr (next_minute since + int j * ms_per_minute)"
      unfolding cron_scan_Some m by blast
    have d: "ms_per_minute dvd t" using k(2) next_minute_after(2) by simp
    have "\<not> cron_due cal expr u" if u: "since < u" "u < t" "ms_per_minute dvd u" for u
    proof -
      obtain j where j: "u = next_minute since + int j * ms_per_minute" using minute_steps [OF u(3)] u(1) by blast
      then have "j < k" using u(2) k(2) p by simp
      then show ?thesis using k(4) j by blast
    qed
    then show ?R using k(1-3) d p minute_steps [OF d] by auto
  next
    assume r: ?R
    then obtain k where k: "t = next_minute since + int k * ms_per_minute" using minute_steps by blast
    then have "k < scan_minutes" using r p by simp
    moreover have "\<not> cron_due cal expr (next_minute since + int j * ms_per_minute)" if "j < k" for j
    proof -
      have "ms_per_minute dvd next_minute since + int j * ms_per_minute" using next_minute_after(2) by simp
      moreover have "next_minute since + int j * ms_per_minute < t" using that k p by simp
      ultimately show ?thesis using r minute_steps by blast
    qed
    ultimately show ?L unfolding cron_scan_Some m using k r by blast
  qed
  finally show ?thesis using Inr by (simp add: is_ok_def)
qed

lemma cron_next_later: "cron_next cal expr since = Inr t \<Longrightarrow> since < t"
  by (simp add: cron_next_iff)

text \<open>C24: The next time of an expression is the first whole minute after the given time that all five fields name, if there
  is one within the window of 366 days, and an error exactly when a field cannot be read or there is none.\<close>

theorem cron_next_is_first_match:
  "cron_next cal expr since = Inr t \<longleftrightarrow>
     is_ok (parse_fields expr) \<and> since < t \<and> ms_per_minute dvd t \<and> cron_due cal expr t \<and>
     t < next_minute since + int scan_minutes * ms_per_minute \<and>
     (\<forall>u. since < u \<and> u < t \<and> ms_per_minute dvd u \<longrightarrow> \<not> cron_due cal expr u)"
  by (rule cron_next_iff)

section \<open>The Gregorian calendar\<close>

text \<open>Day 0 is the first of January 1970, a Thursday.  Years are counted from March, in eras of 400 years.\<close>

definition day_of_year :: "int \<Rightarrow> int" where
  "day_of_year d =
     (let doe = (d + 719468) mod 146097;
          yoe = (doe - doe div 1460 + doe div 36524 - doe div 146096) div 365
      in doe - (365 * yoe + yoe div 4 - yoe div 100))"

definition gregorian :: calendar where
  "gregorian =
     \<lparr>cal_day = (\<lambda>d. let doy = day_of_year d; mp = (5 * doy + 2) div 153 in nat (doy - (153 * mp + 2) div 5 + 1)),
      cal_month = (\<lambda>d. let mp = (5 * day_of_year d + 2) div 153 in nat (if mp < 10 then mp + 3 else mp - 9)),
      cal_weekday = (\<lambda>d. nat ((d + 4) mod 7))\<rparr>"

definition leap_day :: int where "leap_day = 19782"

lemma leap_day_date: "cal_day gregorian leap_day = 29" "cal_month gregorian leap_day = 2" "cal_weekday gregorian leap_day = 4"
proof -
  have "day_of_year leap_day = 365" unfolding day_of_year_def leap_day_def Let_def by simp
  then show "cal_day gregorian leap_day = 29" "cal_month gregorian leap_day = 2" "cal_weekday gregorian leap_day = 4"
    unfolding gregorian_def Let_def by (simp_all add: leap_day_def)
qed

lemma after_leap_day:
  assumes "1 \<le> k" and "k \<le> 366"
  shows "0 \<le> day_of_year (leap_day + k)" and "day_of_year (leap_day + k) \<le> 364"
proof -
  have doe: "(leap_day + k + 719468) mod 146097 = 8765 + k"
  proof -
    have "leap_day + k + 719468 = 8765 + k + 5 * 146097" by (simp add: leap_day_def)
    then show ?thesis using assms by (simp only: mod_mult_self3 mod_mult_self1) simp
  qed
  have "(8765 + k) div 1460 = 6" by (rule int_div_pos_eq [of _ _ _ "k + 5"]) (use assms in auto)
  moreover have "(8765 + k) div 36524 = 0" "(8765 + k) div 146096 = 0" using assms by (simp_all add: div_pos_pos_trivial)
  moreover have "(8765 + k - 6) div 365 = (if k = 366 then 25 else 24)"
    by (rule int_div_pos_eq [of _ _ _ "if k = 366 then 0 else k - 1"]) (use assms in auto)
  ultimately have "day_of_year (leap_day + k) = (if k = 366 then 0 else k - 1)"
    unfolding day_of_year_def Let_def doe by simp
  then show "0 \<le> day_of_year (leap_day + k)" "day_of_year (leap_day + k) \<le> 364" using assms by auto
qed

lemma year_without_leap_day:
  assumes "1 \<le> k" and "k \<le> 366"
  shows "cal_day gregorian (leap_day + k) \<noteq> 29 \<or> cal_month gregorian (leap_day + k) \<noteq> 2"
proof -
  have "nat (y - (153 * ((5 * y + 2) div 153) + 2) div 5 + 1) \<noteq> 29 \<or>
      nat (if (5 * y + 2) div 153 < 10 then (5 * y + 2) div 153 + 3 else (5 * y + 2) div 153 - 9) \<noteq> 2" if "0 \<le> y" "y \<le> 364" for y :: int
    using that by (auto simp: nat_eq_iff split: if_splits)
  then show ?thesis using after_leap_day [OF assms] by (simp add: gregorian_def Let_def)
qed

section \<open>Two expressions\<close>

lemma star_field: "parse_field ''*'' lo hi = Inr [lo..<Suc hi]"
proof -
  have "sort [lo..<Suc hi] = [lo..<Suc hi]" by (intro sort_key_id_if_sorted) (simp only: map_ident sorted_upt)
  then show ?thesis by (simp add: parse_field_def parse_part_def and_then_def remdups_adj_distinct del: upt_Suc)
qed

lemma value_field:
  assumes "CHR '','' \<notin> set w" and "CHR ''*'' \<notin> set w" and "CHR ''-'' \<notin> set w" and "parse_u32 w = Some n" and "lo \<le> n" and "n \<le> hi"
  shows "parse_field w lo hi = Inr [n]"
proof -
  have "w \<noteq> ''*''" "strip_prefix ''*/'' w = None" using assms(2) by (cases w; auto simp: strip_prefix_def)+
  moreover have "split_once CHR ''-'' w = None" using assms(3) by (simp add: split_once_def)
  ultimately show ?thesis using assms by (simp add: parse_field_def split_on_id parse_part_def and_then_def ok_or_def)
qed

lemma every_minute_fields:
  "parse_fields ''* * * * *'' =
     Inr \<lparr>cf_minutes = [0..<Suc 59], cf_hours = [0..<Suc 23], cf_doms = [1..<Suc 31], cf_months = [1..<Suc 12], cf_dows = [0..<Suc 6]\<rparr>"
proof -
  have "split_whitespace ''* * * * *'' = [''*'', ''*'', ''*'', ''*'', ''*'']" by (simp add: split_whitespace_def is_whitespace_def)
  then show ?thesis by (simp add: parse_fields_def star_field and_then_def del: upt_Suc)
qed

lemma leap_day_fields:
  "parse_fields ''0 0 29 2 *'' = Inr \<lparr>cf_minutes = [0], cf_hours = [0], cf_doms = [29], cf_months = [2], cf_dows = [0..<Suc 6]\<rparr>"
proof -
  have "split_whitespace ''0 0 29 2 *'' = [''0'', ''0'', ''29'', ''2'', ''*'']" by (simp add: split_whitespace_def is_whitespace_def)
  moreover have "parse_u32 ''0'' = Some 0" "parse_u32 ''29'' = Some 29" "parse_u32 ''2'' = Some 2"
    by (simp_all add: parse_u32_def parse_unsigned_def is_ascii_digit_def Let_def)
  ultimately show ?thesis by (simp add: parse_fields_def star_field value_field and_then_def del: upt_Suc)
qed

lemma every_minute_next: "cron_next gregorian ''* * * * *'' 0 = Inr 60000"
proof -
  let ?f = "\<lparr>cf_minutes = [0..<Suc 59], cf_hours = [0..<Suc 23], cf_doms = [1..<Suc 31], cf_months = [1..<Suc 12], cf_dows = [0..<Suc 6]\<rparr>"
  have "cron_matches gregorian ?f 60000"
  proof -
    have t: "day_of 60000 = 0" "hour_of 60000 = 0" "minute_of 60000 = 1" by (simp_all add: day_of_def hour_of_def minute_of_def ms_per_minute_def)
    have "day_of_year 0 = 306" unfolding day_of_year_def Let_def by simp
    then have "cal_day gregorian 0 = 1" "cal_month gregorian 0 = 1" "cal_weekday gregorian 0 = 4" unfolding gregorian_def Let_def by simp_all
    then show ?thesis by (simp add: cron_matches_def t del: upt_Suc)
  qed
  moreover have "scan_minutes = Suc (scan_minutes - 1)" by (simp add: scan_minutes_def)
  ultimately have "cron_scan gregorian ?f scan_minutes 60000 = Some 60000" by (metis cron_scan.simps(2))
  then show ?thesis by (simp add: cron_next_def every_minute_fields and_then_def ok_or_def next_minute_def ms_per_minute_def del: upt_Suc)
qed

text \<open>The 29th of February, at midnight, is not within 366 days of the last one.\<close>

lemma leap_day_not_due:
  assumes "now = leap_day * (24 * 60 * ms_per_minute) + 5000" and "now < u" and "u \<le> now + int scan_minutes * ms_per_minute"
    and "ms_per_minute dvd u"
  shows "\<not> cron_due gregorian ''0 0 29 2 *'' u"
proof
  assume "cron_due gregorian ''0 0 29 2 *'' u"
  then have m: "cal_month gregorian (day_of u) = 2" "cal_day gregorian (day_of u) = 29" "hour_of u = 0" "minute_of u = 0"
    unfolding matches_due [OF leap_day_fields, symmetric] by (simp_all add: cron_matches_def)
  obtain i where i: "u = i * 60000" using assms(4) by (auto simp: ms_per_minute_def dvd_def)
  define k where "k = day_of u - leap_day"
  have d: "day_of u = i div 1440" by (simp add: day_of_def i ms_per_minute_def)
  have r: "leap_day * 1440 < i" "i \<le> leap_day * 1440 + 527040"
    using assms(1-3) by (simp_all add: i ms_per_minute_def scan_minutes_def leap_day_def)
  have z: "i mod 60 = 0" "i div 60 mod 24 = 0"
    using m(3,4) by (simp_all add: i hour_of_def minute_of_def ms_per_minute_def)
  obtain j where j: "i = j * 1440"
  proof -
    have "i = i div 60 div 24 * 24 * 60" using z by (metis div_mult_mod_eq add.right_neutral)
    then show ?thesis by (intro that [of "i div 60 div 24"]) simp
  qed
  have "1 \<le> k" "k \<le> 366" using r d unfolding k_def leap_day_def j by simp_all
  from year_without_leap_day [OF this] show False using m(1,2) by (simp add: k_def)
qed

section \<open>Witness\<close>

theorem cron_next_is_first_match_witness:
  "cron_next gregorian ''* * * * *'' 0 = Inr 60000 \<and> cron_due gregorian ''* * * * *'' 60000"
  using every_minute_next cron_next_is_first_match [of gregorian "''* * * * *''" 0 60000] by blast

end
