(* ===== verification/Polling.thy ===== *)
theory Polling
  imports Main
begin

text \<open>
  A table that is polled: a loop reads the rows that are due, in the order of their times, acts on each and writes
  its row back.  The interface is the locale \<open>polled_table\<close>: settling a row leaves no row under its key due and
  no other row changed.  Shown: whatever is written meanwhile that is not due, the loop leaves no row due.
\<close>

definition due_rows :: "('row \<Rightarrow> int) \<Rightarrow> ('row \<Rightarrow> bool) \<Rightarrow> 'row list \<Rightarrow> 'row list" where
  "due_rows time due rows = sort_key time (filter due rows)"

lemma due_rows_set: "set (due_rows time due rows) = {r \<in> set rows. due r}"
  by (auto simp: due_rows_def)

lemma due_rows_empty: "due_rows time due rows = [] \<longleftrightarrow> (\<forall>r \<in> set rows. \<not> due r)"
  unfolding set_empty [symmetric] due_rows_set by auto

text \<open>The rows after the n-th and later ones of the due rows are settled.\<close>

fun settle_all :: "(nat \<Rightarrow> 'row \<Rightarrow> 'row list \<Rightarrow> 'row list) \<Rightarrow> (nat \<Rightarrow> 'row list \<Rightarrow> 'row list) \<Rightarrow> nat \<Rightarrow> 'row list \<Rightarrow> 'row list \<Rightarrow> 'row list" where
  "settle_all settle meanwhile n [] rows = rows"
| "settle_all settle meanwhile n (r # todo) rows = settle_all settle meanwhile (Suc n) todo (settle n r (meanwhile n rows))"

locale polled_table =
  fixes key :: "'row \<Rightarrow> 'key"
    and due :: "'row \<Rightarrow> bool"
    and settle :: "nat \<Rightarrow> 'row \<Rightarrow> 'row list \<Rightarrow> 'row list"
    and timely :: "nat \<Rightarrow> bool"
  assumes settle_rows: "timely n \<Longrightarrow> r \<in> set (settle n job rows) \<Longrightarrow> if key r = key job then \<not> due r else r \<in> set rows"
begin

lemma settle_all_settles:
  assumes "\<And>n. timely n" and "\<And>n rows r. r \<in> set (meanwhile n rows) \<Longrightarrow> r \<in> set rows \<or> \<not> due r"
    and "\<forall>r \<in> set rows. due r \<longrightarrow> key r \<in> key ` set todo"
  shows "\<forall>r \<in> set (settle_all settle meanwhile n todo rows). \<not> due r"
  using assms(3)
proof (induction todo arbitrary: n rows)
  case (Cons job todo)
  have "key r \<in> key ` set todo" if r: "r \<in> set (settle n job (meanwhile n rows))" "due r" for r
  proof -
    have "key r \<noteq> key job" "r \<in> set (meanwhile n rows)" using settle_rows [OF assms(1) r(1)] r(2) by (auto split: if_splits)
    then show ?thesis using assms(2) Cons.prems r(2) by fastforce
  qed
  then show ?case unfolding settle_all.simps by (intro Cons.IH) blast
qed simp

text \<open>The loop over all that is due.\<close>

lemma poll_settles:
  assumes "\<And>n. timely n" and "\<And>n rows r. r \<in> set (meanwhile n rows) \<Longrightarrow> r \<in> set rows \<or> \<not> due r"
  shows "due_rows time due (settle_all settle meanwhile n (due_rows time due rows) rows) = []"
  unfolding due_rows_empty by (rule settle_all_settles [OF assms]) (auto simp: due_rows_set)

end

end
