(* ===== verification/Cron.thy ===== *)
theory Cron
  imports Auth Cron_Expr Polling
begin

text \<open>
  Scheduled runs (\<^verbatim>\<open>runtime/timers/src/lib.rs\<close>, \<^verbatim>\<open>runtime/api/src/cron.rs\<close>): the table of jobs,
  the routes that fill it, the launcher and the polling loop.  The table is a list of rows, in the order they
  were inserted; the statements of SQL that are run on it are the functions below.  Its texts of times, all
  in UTC and of the years 0 to 9999, are ordered as the times are.
\<close>

section \<open>The table of jobs\<close>

record cron_job =
  cj_id :: uuid
  cj_name :: string
  cj_cron_expression :: string
  cj_workflow_id :: string
  cj_workflow_version :: string
  cj_input :: json
  cj_enabled :: bool
  cj_last_run_at :: "timestamp option"
  cj_next_run_at :: timestamp
  cj_created_at :: timestamp
  cj_created_by :: "string option"
  cj_tenant_id :: string

text \<open>The row a job replaces has its id, or its tenant and name; the last run is not among the columns written.\<close>

definition upsert_job :: "cron_job \<Rightarrow> cron_job list \<Rightarrow> cron_job list" where
  "upsert_job job jobs =
     filter (\<lambda>j. cj_id j \<noteq> cj_id job \<and> (cj_tenant_id j, cj_name j) \<noteq> (cj_tenant_id job, cj_name job)) jobs @ [job\<lparr>cj_last_run_at := None\<rparr>]"

definition job_due :: "timestamp \<Rightarrow> cron_job \<Rightarrow> bool" where
  "job_due now j = (cj_enabled j \<and> cj_next_run_at j \<le> now)"

definition list_due_jobs :: "timestamp \<Rightarrow> cron_job list \<Rightarrow> cron_job list" where
  "list_due_jobs now jobs = due_rows cj_next_run_at (job_due now) jobs"

definition advance_job :: "uuid \<Rightarrow> timestamp \<Rightarrow> timestamp \<Rightarrow> cron_job list \<Rightarrow> cron_job list" where
  "advance_job i now next_run_at jobs =
     map (\<lambda>j. if cj_id j = i then j\<lparr>cj_last_run_at := Some now, cj_next_run_at := next_run_at\<rparr> else j) jobs"

definition disable_job :: "uuid \<Rightarrow> cron_job list \<Rightarrow> cron_job list" where
  "disable_job i jobs = map (\<lambda>j. if cj_id j = i then j\<lparr>cj_enabled := False\<rparr> else j) jobs"

definition jobs_of_tenant :: "string \<Rightarrow> cron_job list \<Rightarrow> cron_job list" where
  "jobs_of_tenant tenant_id jobs = sort_key cj_name (filter (\<lambda>j. cj_tenant_id j = tenant_id) jobs)"

definition delete_job :: "string \<Rightarrow> string \<Rightarrow> cron_job list \<Rightarrow> cron_job list" where
  "delete_job tenant_id name jobs = filter (\<lambda>j. (cj_tenant_id j, cj_name j) \<noteq> (tenant_id, name)) jobs"

section \<open>The routes\<close>

record cron_request =
  ck_name :: string
  ck_cron_expression :: string
  ck_workflow_id :: string
  ck_workflow_version :: "string option"
  ck_input :: "json option"
  ck_enabled :: "bool option"

text \<open>The principal a job is created by; no token outside dev mode is refused.\<close>

definition creator_of :: "http_request \<Rightarrow> api_error + string option" where
  "creator_of req =
     (case hr_token req of
        Some t \<Rightarrow> Inr (Some (principal_of t))
      | None \<Rightarrow> if hr_dev req then Inr None else Inl ApiUnauthorized)"

text \<open>\<^verbatim>\<open>i\<close> is the fresh id of the job.  The table is there on the SQLite backend only.\<close>

definition create_cron ::
    "calendar \<Rightarrow> request_env \<Rightarrow> uuid \<Rightarrow> http_request \<Rightarrow> cron_request \<Rightarrow> in_memory_backend \<Rightarrow> cron_job list option \<Rightarrow>
     cron_job list option \<times> (api_error + cron_job)" where
  "create_cron cal q i req body s store =
     (let version = (case ck_workflow_version body of Some v \<Rightarrow> v | None \<Rightarrow> ''0.1.0'')
      in (case and_then (ok_or (ApiBadRequest ''cron scheduling requires the sqlite backend'') store) (\<lambda>jobs.
               and_then (creator_of req) (\<lambda>created_by.
               and_then (ok_or (ApiBadRequest (''workflow '' @ ck_workflow_id body @ '' v'' @ version @ '' is not registered''))
                          (get_workflow (ck_workflow_id body) version s)) (\<lambda>_.
               and_then (map_err (\<lambda>err. ApiBadRequest (''invalid cron expression: '' @ err)) (cron_next cal (ck_cron_expression body) (rq_now q 1)))
                 (\<lambda>next_run_at.
                    Inr (jobs, \<lparr>cj_id = i, cj_name = ck_name body, cj_cron_expression = ck_cron_expression body, cj_workflow_id = ck_workflow_id body,
                                cj_workflow_version = version, cj_input = (case ck_input body of Some v \<Rightarrow> v | None \<Rightarrow> JObject []),
                                cj_enabled = (case ck_enabled body of Some b \<Rightarrow> b | None \<Rightarrow> True), cj_last_run_at = None, cj_next_run_at = next_run_at,
                                cj_created_at = rq_now q 2, cj_created_by = created_by,
                                cj_tenant_id = (case hr_tenant req of Some t \<Rightarrow> t | None \<Rightarrow> [])\<rparr>))))) of
            Inl err \<Rightarrow> (store, Inl err)
          | Inr (jobs, job) \<Rightarrow> (Some (upsert_job job jobs), Inr job)))"

section \<open>The launcher and the loop\<close>

definition cron_run_tenant :: "string \<Rightarrow> bool \<Rightarrow> string + string" where
  "cron_run_tenant job_tenant as_default =
     (if job_tenant = default_tenant \<or> as_default then Inr default_tenant
      else Inl (''cron job in tenant '' @ job_tenant @
        '' not started: this runtime is single-tenant and runs every workflow in tenant default (set JAMJET_TENANT_TOKENS_AS_DEFAULT=1 to run it in default)''))"

definition launch ::
    "api_env \<Rightarrow> request_env \<Rightarrow> bool \<Rightarrow> execution_id \<Rightarrow> cron_job \<Rightarrow> in_memory_backend \<Rightarrow> in_memory_backend \<times> (string + unit)" where
  "launch a q as_default e job s =
     (case cron_run_tenant (cj_tenant_id job) as_default of
        Inl err \<Rightarrow> (s, Inl err)
      | Inr tenant \<Rightarrow>
          (case start_run a q e tenant (cj_workflow_id job) (Some (cj_workflow_version job)) (cj_input job) (cj_created_by job) s of
             (s, Inl err) \<Rightarrow> (s, Inl (api_error_text err))
           | (s, Inr _) \<Rightarrow> (s, Inr ())))"

text \<open>The n-th job of a tick: its clock, its run id, what the others do to the backend, and what the API does to the
  table before the schedule of the job is written.\<close>

record cron_env =
  ce_api :: api_env
  ce_calendar :: calendar
  ce_as_default :: bool
  ce_now :: "nat \<Rightarrow> timestamp"
  ce_request :: "nat \<Rightarrow> request_env"
  ce_run_id :: "nat \<Rightarrow> execution_id"
  ce_table :: "nat \<Rightarrow> cron_job list \<Rightarrow> cron_job list"

definition reschedule :: "cron_env \<Rightarrow> nat \<Rightarrow> cron_job \<Rightarrow> cron_job list \<Rightarrow> cron_job list" where
  "reschedule c n job jobs =
     (case cron_next (ce_calendar c) (cj_cron_expression job) (ce_now c n) of
        Inr next_run_at \<Rightarrow> advance_job (cj_id job) (ce_now c n) next_run_at jobs
      | Inl _ \<Rightarrow> disable_job (cj_id job) jobs)"

fun fire_jobs :: "cron_env \<Rightarrow> nat \<Rightarrow> cron_job list \<Rightarrow> cron_job list \<times> in_memory_backend \<Rightarrow> cron_job list \<times> in_memory_backend" where
  "fire_jobs c n [] st = st"
| "fire_jobs c n (job # due) (jobs, s) =
     fire_jobs c (Suc n) due
       (reschedule c n job (ce_table c n jobs), fst (launch (ce_api c) (ce_request c n) (ce_as_default c) (ce_run_id c n) job s))"

definition cron_tick :: "cron_env \<Rightarrow> cron_job list \<times> in_memory_backend \<Rightarrow> cron_job list \<times> in_memory_backend" where
  "cron_tick c st = fire_jobs c 1 (list_due_jobs (ce_now c 0) (fst st)) st"

section \<open>A due job is rescheduled\<close>

interpretation polled_jobs: polled_table cj_id "job_due now" "reschedule c" "\<lambda>n. now \<le> ce_now c n"
  by unfold_locales
    (auto simp: reschedule_def advance_job_def disable_job_def job_due_def dest!: cron_next_later split: sum.splits if_splits)

lemma fire_jobs_table: "fst (fire_jobs c n due (jobs, s)) = settle_all (reschedule c) (ce_table c) n due jobs"
  by (induction due arbitrary: n jobs s) simp_all

lemma fire_jobs_runs:
  "snd (fire_jobs c n due (jobs, s)) =
     fold (\<lambda>(k, job) s. fst (launch (ce_api c) (ce_request c k) (ce_as_default c) (ce_run_id c k) job s)) (zip [n..<n + length due] due) s"
  by (induction due arbitrary: n jobs s) (simp_all add: upt_rec [of n "Suc (n + length _)" for n] del: upt_Suc)

lemma list_due_set: "set (list_due_jobs now jobs) = {j \<in> set jobs. job_due now j}"
  by (simp add: list_due_jobs_def due_rows_set)

text \<open>C25: A tick starts every job that is due once, in the order of their times, each under its own creator, and right after
  it none of the jobs of the table is due at the time of the tick, as long as the API meanwhile only adds jobs
  with a later time and deletes jobs, which is all it does.\<close>

theorem due_jobs_fire_once:
  assumes "\<And>n. ce_now c 0 \<le> ce_now c n" and "\<And>n jobs j. j \<in> set (ce_table c n jobs) \<Longrightarrow> j \<in> set jobs \<or> \<not> job_due (ce_now c 0) j"
  shows "list_due_jobs (ce_now c 0) (fst (cron_tick c (jobs, s))) = [] \<and>
    snd (cron_tick c (jobs, s)) =
      fold (\<lambda>(k, job) s. fst (launch (ce_api c) (ce_request c k) (ce_as_default c) (ce_run_id c k) job s))
        (zip [1..<1 + length (list_due_jobs (ce_now c 0) jobs)] (list_due_jobs (ce_now c 0) jobs)) s \<and>
    set (list_due_jobs (ce_now c 0) jobs) = {j \<in> set jobs. cj_enabled j \<and> cj_next_run_at j \<le> ce_now c 0}"
proof -
  have "list_due_jobs (ce_now c 0) (fst (cron_tick c (jobs, s))) = []"
    unfolding cron_tick_def fst_conv fire_jobs_table list_due_jobs_def by (rule polled_jobs.poll_settles [OF assms])
  then show ?thesis using fire_jobs_runs [of c 1] by (simp add: cron_tick_def list_due_set job_due_def)
qed

text \<open>What the API does to the table: a job it creates is not due before the time of the request.\<close>

lemma created_job_is_later:
  assumes "create_cron cal q i req body s (Some jobs) = (Some jobs', Inr job)" and "now \<le> rq_now q 1" and "j \<in> set jobs'"
  shows "j \<in> set jobs \<or> \<not> job_due now j"
proof -
  have "jobs' = upsert_job job jobs" "cron_next cal (ck_cron_expression body) (rq_now q 1) = Inr (cj_next_run_at job)"
    using assms(1) by (auto simp: create_cron_def and_then_eq_Inr ok_or_eq_Inr map_err_def Let_def split: sum.splits)
  then show ?thesis using assms(2,3) by (auto simp: upsert_job_def job_due_def dest: cron_next_later)
qed

section \<open>A job without a time this year\<close>

lemma no_next_time:
  assumes "\<And>u. now < u \<Longrightarrow> u \<le> now + int scan_minutes * ms_per_minute \<Longrightarrow> ms_per_minute dvd u \<Longrightarrow> \<not> cron_due cal expr u"
  shows "\<exists>err. cron_next cal expr now = Inl err"
proof (cases "cron_next cal expr now")
  case (Inr t)
  note t = Inr [unfolded cron_next_iff]
  obtain k where k: "t = next_minute now + int k * ms_per_minute" using minute_steps t by blast
  then have "k < scan_minutes" using t by (simp add: ms_per_minute_def)
  then have "t \<le> now + int scan_minutes * ms_per_minute" using k next_minute_after(3) [of now] by (simp add: ms_per_minute_def)
  then show ?thesis using assms t by blast
qed blast

lemma fire_jobs_row:
  assumes "\<And>n jobs. ce_table c n jobs = jobs" and "\<And>n. \<exists>err. cron_next (ce_calendar c) (cj_cron_expression job) (ce_now c n) = Inl err"
    and "\<forall>d \<in> set due. cj_id d = cj_id job \<longrightarrow> d = job" and "job \<in> set jobs \<or> job\<lparr>cj_enabled := False\<rparr> \<in> set jobs"
    and "job \<in> set due \<or> job\<lparr>cj_enabled := False\<rparr> \<in> set jobs"
  shows "job\<lparr>cj_enabled := False\<rparr> \<in> set (fst (fire_jobs c n due (jobs, s)))"
  using assms(3-5)
proof (induction due arbitrary: n jobs s)
  case (Cons d due)
  show ?case
  proof (cases "d = job")
    case True
    obtain err where "cron_next (ce_calendar c) (cj_cron_expression job) (ce_now c n) = Inl err" using assms(2) by blast
    then have "job\<lparr>cj_enabled := False\<rparr> \<in> set (reschedule c n d jobs)"
      using True Cons.prems(2) by (auto simp: reschedule_def disable_job_def intro: image_eqI [rotated])
    then show ?thesis using Cons.IH [of _ "Suc n"] Cons.prems(1) by (simp add: assms(1))
  next
    case False
    then have "cj_id d \<noteq> cj_id job" using Cons.prems(1) by auto
    then have "j \<in> set jobs \<Longrightarrow> cj_id j = cj_id job \<Longrightarrow> j \<in> set (reschedule c n d jobs)" for j
      by (force simp: reschedule_def advance_job_def disable_job_def image_iff split: sum.splits)
    then show ?thesis using Cons.IH [of _ "Suc n"] Cons.prems False by (auto simp: assms(1))
  qed
qed simp

text \<open>A job whose expression is read but names no minute of the 366 days after the tick, such as the 29th of February
  fired in a leap year, is disabled for good by the tick that has just started its run, where it was to run
  again years later.\<close>

theorem rare_job_is_disabled:
  assumes "job \<in> set jobs" and "cj_enabled job" and "cj_next_run_at job \<le> ce_now c 0" and "distinct (map cj_id jobs)"
    and "is_ok (parse_fields (cj_cron_expression job))" and "\<And>n jobs. ce_table c n jobs = jobs"
    and "\<And>n u. ce_now c n < u \<Longrightarrow> u \<le> ce_now c n + int scan_minutes * ms_per_minute \<Longrightarrow> ms_per_minute dvd u \<Longrightarrow>
      \<not> cron_due (ce_calendar c) (cj_cron_expression job) u"
  shows "job\<lparr>cj_enabled := False\<rparr> \<in> set (fst (cron_tick c (jobs, s)))"
proof -
  have "d = job" if "d \<in> set (list_due_jobs (ce_now c 0) jobs)" "cj_id d = cj_id job" for d
    using that assms(1,4) by (simp add: list_due_set distinct_map inj_on_def)
  then show ?thesis unfolding cron_tick_def fst_conv
    using assms(1-3,6) no_next_time [OF assms(7)] by (intro fire_jobs_row) (auto simp: list_due_set job_due_def)
qed

section \<open>Nobody approves a run they started\<close>

text \<open>The three ways a principal starts a run: over HTTP, over MCP, and by the schedule of a job it created.\<close>

inductive starts :: "api_env \<Rightarrow> string \<Rightarrow> request_env \<Rightarrow> execution_id \<Rightarrow> in_memory_backend \<Rightarrow> in_memory_backend \<Rightarrow> bool" for a where
  by_http:
    "hr_token req = Some t \<Longrightarrow> start_execution_route a q e req w v input s = (s', Inr ans) \<Longrightarrow> starts a (principal_of t) q e s s'"
| by_mcp:
    "resolve_caller as_default ctx args dev_mode Developer = Inr c \<Longrightarrow> ca_token c = Some t \<Longrightarrow>
     mcp_run_workflow a q as_default dev_mode e ctx args s = (s', Inr out) \<Longrightarrow> starts a (principal_of t) q e s s'"
| by_schedule:
    "cj_created_by job = Some who \<Longrightarrow> launch a q as_default e job s = (s', Inr ()) \<Longrightarrow> starts a who q e s s'"

text \<open>The two ways a principal approves outside dev mode.\<close>

inductive approves :: "api_env \<Rightarrow> approval_policy \<Rightarrow> string \<Rightarrow> execution_id \<Rightarrow> in_memory_backend \<Rightarrow> bool" for a policy where
  over_http:
    "hr_token req = Some t \<Longrightarrow> \<not> hr_dev req \<Longrightarrow> aq_decision body = ''approved'' \<Longrightarrow> parse_execution_id a path = Inr e \<Longrightarrow>
     approve_route a q seal_decision policy i req path body s = (s', Inr ans) \<Longrightarrow> approves a policy (principal_of t) e s"
| over_mcp:
    "resolve_caller as_default ctx args False Reviewer = Inr c \<Longrightarrow> ca_token c = Some t \<Longrightarrow> text_arg args ''decision'' [] = ''approved'' \<Longrightarrow>
     mcp_execution_id a (text_arg args ''execution_id'' []) = Inr e \<Longrightarrow>
     mcp_approve a q seal_decision policy as_default False i ctx args s = (s', Inr out) \<Longrightarrow> approves a policy (principal_of t) e s"

lemma starts_run:
  assumes "starts a who q e s s'"
  obtains tenant w v input ans where "start_run a q e tenant w v input (Some who) s = (s', Inr ans)"
  using assms
  by cases (auto simp: start_execution_route_def mcp_run_workflow_def launch_def Let_def split: option.splits sum.splits prod.splits)

lemma approves_submission:
  assumes "approves a policy who e s"
  obtains i now now' f g sub s' n ev where "submit_approval (ap_x a) i now now' f g e sub policy s = (s', Inr (n, ev))"
    "sub_principal sub = Some who" "sub_decision sub = Approved"
  using assms
proof cases
  case (over_http req t body path q seal i s' ans)
  then show ?thesis
    by (auto simp: approve_route_def approver_of_def parse_decision_def split: sum.splits prod.splits intro!: that)
next
  case (over_mcp as_default ctx args c t q seal i s' out)
  then show ?thesis
    by (auto simp: mcp_approve_def and_then_eq_Inr ok_or_eq_Inr parse_decision_def Let_def split: sum.splits prod.splits intro!: that)
qed

text \<open>The initiator of a run is the principal that started it, in every later state.\<close>

lemma started_initiator:
  assumes "start_run a q e tenant w v input who s = (s', Inr ans)" and "fresh_run (rq_others q 1 s) e"
    and "0 < mb_next_sequence (rq_others q 1 s)" and "mb_next_sequence (rq_others q 1 s) < 2 ^ 63 - 2"
  shows "run_initiator (get_events e s') = who"
proof -
  let ?s = "rq_others q 1 s"
  obtain ex k item w' v' i' where r: "s' = start_execution_atomic (ap_fresh a) (rq_now q 1) ex (WorkflowStarted w' v' i' who) k item ?s" "we_execution_id ex = e"
    using assms(1) unfolding start_run_def Let_def new_execution_def by (auto split: option.splits sum.splits)
  have "log_of ?s (we_execution_id ex) = []" using assms(2) r(2) by (simp add: fresh_run_def)
  then obtain x y where "log_of s' e = [x, y]" "ev_kind x = WorkflowStarted w' v' i' who"
    using start_execution_parts(2) [OF r(1) assms(3,4)] r(2) by (auto simp: map_eq_Cons_conv)
  then show ?thesis by (simp add: run_initiator_def get_events_def)
qed

text \<open>C4: Nobody approves a run they started: an approval accepted outside dev mode, over either transport, of a run started
  over either transport or by the schedule of a cron job comes from another principal than the one that
  started the run or created the job, however long after and whatever the components have done since, unless
  the install allows it.\<close>

theorem nobody_approves_own_run:
  assumes "starts a who q e s s'" and "fresh_run (rq_others q 1 s) e"
    and "0 < mb_next_sequence (rq_others q 1 s)" and "mb_next_sequence (rq_others q 1 s) < 2 ^ 63 - 2"
    and "log_ok s'" and "backend_trace x fresh s' ls u"
    and "approves a policy by e u" and "\<not> po_allow_self_approval policy"
  shows "by \<noteq> who"
proof -
  obtain tenant w v input ans where r: "start_run a q e tenant w v input (Some who) s = (s', Inr ans)" by (rule starts_run [OF assms(1)])
  obtain later where "get_events e u = get_events e s' @ later"
    using mlog.runs_append [OF trace_steps [OF assms(6)] assms(5)] appends_obtain unfolding get_events_def by metis
  then have who: "run_initiator (get_events e u) = Some who"
    using started_initiator [OF r assms(2-4)] run_initiator_append by simp
  obtain i now now' f g sub t n ev where sub: "submit_approval (ap_x a) i now now' f g e sub policy u = (t, Inr (n, ev))"
      "sub_principal sub = Some by" "sub_decision sub = Approved"
    by (rule approves_submission [OF assms(7)])
  obtain request was_paused where "plan_approval (ap_x a) now e sub policy u = Inr (n, request, was_paused)"
    by (rule submit_accepted [OF sub(1)])
  from plan_approval_ok(6) [OF this] show ?thesis
    using who sub(2,3) assms(8) by (auto simp: check_duties_def split: if_splits)
qed

section \<open>Witnesses\<close>

definition leap_now :: timestamp where "leap_now = leap_day * (24 * 60 * ms_per_minute) + 5000"

definition sample_job :: "string \<Rightarrow> cron_job" where
  "sample_job expr = \<lparr>cj_id = ''j'', cj_name = ''nightly'', cj_cron_expression = expr, cj_workflow_id = ''wf'', cj_workflow_version = ''1'',
     cj_input = JObject [], cj_enabled = True, cj_last_run_at = None, cj_next_run_at = 0, cj_created_at = 0, cj_created_by = Some ''token:1'',
     cj_tenant_id = default_tenant\<rparr>"

definition sample_cron :: "timestamp \<Rightarrow> cron_env" where
  "sample_cron now = \<lparr>ce_api = run_api, ce_calendar = gregorian, ce_as_default = False, ce_now = (\<lambda>_. now), ce_request = (\<lambda>_. idle),
     ce_run_id = (\<lambda>_. ''x''), ce_table = (\<lambda>_ jobs. jobs)\<rparr>"

theorem due_jobs_fire_once_witness:
  "list_due_jobs 0 [sample_job ''* * * * *''] = [sample_job ''* * * * *''] \<and>
   list_due_jobs 0 (fst (cron_tick (sample_cron 0) ([sample_job ''* * * * *''], backend_new))) = []"
  using due_jobs_fire_once [of "sample_cron 0" "[sample_job ''* * * * *'']" backend_new]
  by (simp add: sample_cron_def list_due_jobs_def due_rows_def job_due_def sample_job_def)

theorem rare_job_is_disabled_witness:
  "(sample_job ''0 0 29 2 *'')\<lparr>cj_enabled := False\<rparr> \<in> set (fst (cron_tick (sample_cron leap_now) ([sample_job ''0 0 29 2 *''], backend_new)))"
proof (rule rare_job_is_disabled)
  show "is_ok (parse_fields (cj_cron_expression (sample_job ''0 0 29 2 *'')))" by (simp add: sample_job_def leap_day_fields)
  show "\<not> cron_due (ce_calendar (sample_cron leap_now)) (cj_cron_expression (sample_job ''0 0 29 2 *'')) u"
    if "ce_now (sample_cron leap_now) n < u" "u \<le> ce_now (sample_cron leap_now) n + int scan_minutes * ms_per_minute" "ms_per_minute dvd u" for n u
    using leap_day_not_due [OF leap_now_def, of u] that by (simp add: sample_cron_def sample_job_def)
qed (simp_all add: sample_job_def sample_cron_def leap_now_def leap_day_def ms_per_minute_def)

text \<open>A run started by the schedule of a job of one token, held for approval, and approved over HTTP by another token.\<close>

definition registered :: in_memory_backend where
  "registered = backend_new\<lparr>mb_workflows := [(''wf'', ''1'') \<mapsto> \<lparr>wd_workflow_id = ''wf'', wd_version = ''1'', wd_ir = pay_ir, wd_created_at = 0,
     wd_tenant_id = ''t''\<rparr>]\<rparr>"

definition launched :: in_memory_backend where
  "launched = fst (launch run_api idle False ''x'' (sample_job ''* * * * *'') registered)"

definition held_run :: in_memory_backend where
  "held_run = fst (append_event (Approvals.sample_request 0) launched)"

lemma launched_ok: "launch run_api idle False ''x'' (sample_job ''* * * * *'') registered = (launched, Inr ())"
  by (simp add: launched_def launch_def cron_run_tenant_def sample_job_def start_run_def get_workflow_def registered_def pay_ir_def start_node_of_def
      run_api_def ir_node_def work_ir_def Let_def)

lemma launched_log:
  "log_of launched = (\<lambda>k. if k = ''x'' then [event_new ''e'' 0 ''x'' 1 (WorkflowStarted ''wf'' ''1'' (JObject []) (Some ''token:1'')),
     event_new ''e'' 0 ''x'' 2 (NodeScheduled ''pay'' (queue_as_str (node_queue_type (nd_kind work_node))))] else [])"
  "mb_next_sequence launched = 3" "mb_executions launched ''x'' = Some (new_execution ''x'' ''wf'' ''1'' (JObject []) 0)"
  "mb_lease_epochs launched = Map.empty" "mb_store_term launched = 0"
  by (simp_all add: fun_eq_iff launched_def launch_def cron_run_tenant_def sample_job_def start_run_def get_workflow_def registered_def pay_ir_def start_node_of_def
      run_api_def ir_node_def work_ir_def Let_def start_execution_atomic_def create_run_push push_event_def log_of_def event_new_def wrap_i64_def idle_def
      backend_new_def sample_guard_def sample_env_def new_execution_def action_state_def engine_state_keys_def)

lemma held_run_log:
  "get_events ''x'' held_run = [event_new ''e'' 0 ''x'' 1 (WorkflowStarted ''wf'' ''1'' (JObject []) (Some ''token:1'')),
     event_new ''e'' 0 ''x'' 2 (NodeScheduled ''pay'' (queue_as_str (node_queue_type (nd_kind work_node)))), Approvals.sample_request 3]"
  "mb_executions held_run ''x'' = Some (new_execution ''x'' ''wf'' ''1'' (JObject []) 0)" "mb_next_sequence held_run = 4"
  using launched_log
  by (simp_all add: held_run_def append_event_def push_event_def Let_def get_events_def log_of_def Approvals.sample_request_def sample_event_def event_new_def wrap_i64_def fun_eq_iff)

definition held_request :: pending_approval where
  "held_request = from_request sample_externals ''pay'' ''wire'' ''human'' (json_object []) 3"

lemma held_run_status: "node_approval_status sample_externals (get_events ''x'' held_run) ''pay'' = Pending held_request"
  "pending_approvals sample_externals (get_events ''x'' held_run) = [held_request]"
  "\<not> has_unreadable_events (get_events ''x'' held_run)" "run_initiator (get_events ''x'' held_run) = Some ''token:1''"
  "request_deadline sample_externals held_request = \<lparr>rd_expires_at = Unset, rd_escalate_at = Unset\<rparr>"
  by (simp_all add: held_run_log sample_log_simps pending_approvals_def pending_step_def filter_map_def run_initiator_def
      request_deadline_def deadline_of_def read_deadline_def held_request_def json_object_def)

lemma held_run_approved: "approves run_api strict_policy ''token:2'' ''x'' held_run"
proof -
  let ?body = "\<lparr>aq_decision = ''approved'', aq_node_id = None, aq_user_id = None, aq_comment = None, aq_state_patch = None, aq_action_digest = None\<rparr>"
  let ?req = "approve_call\<lparr>hr_token := Some reviewer_token\<rparr>"
  have x: "ap_x run_api = sample_externals" by (simp add: run_api_def sample_guard_def sample_env_def)
  have plan: "plan_approval sample_externals 0 ''x'' sample_submission strict_policy held_run = Inr (''pay'', held_request, False)"
    by (simp add: plan_approval_def carries_edit_def sample_submission_def held_run_status read_paused_def get_execution_def held_run_log(2) new_execution_def
        choose_node_def check_identity_def check_duties_def strict_policy_def check_deadline_def expired_def
        check_binding_def request_binding_def request_digest_def Let_def)
      (simp add: held_request_def from_request_def json_object_def Let_def)
  have "snd (land_approval sample_externals ''e'' 0 ''x'' sample_submission ''pay'' held_request held_run) = Inr (Appended 4)"
    by (simp add: land_approval_def append_event_if_def event_new_def held_run_log new_execution_def still_open_def split_beta
        held_run_status [unfolded get_events_def] expired_def)
  then obtain s1 where "land_approval sample_externals ''e'' 0 ''x'' sample_submission ''pay'' held_request held_run = (s1, Inr (Appended 4))"
    by (metis prod.collapse)
  then have "submit_approval sample_externals ''e'' 0 0 (rq_others idle 1) (rq_others idle 2) ''x'' sample_submission strict_policy held_run =
      (s1, Inr (''pay'', event_new ''e'' 0 ''x'' 4 (ApprovalReceived (decision_event sample_submission ''pay'' held_request))))"
    by (simp add: submit_approval_def plan idle_def Let_def)
  then have "\<exists>s' ans. approve_route run_api idle (\<lambda>_ _. None) strict_policy ''e'' ?req ''x'' ?body held_run = (s', Inr ans)"
    by (simp add: approve_route_def parse_execution_id_def run_api_def sample_api_def ok_or_def strip_prefix_def parse_decision_def approver_of_def
        reviewer_token_def principal_of_def approve_call_def sample_submission_def x [unfolded run_api_def sample_api_def, simplified] idle_def)
  then obtain s' ans where "approve_route run_api idle (\<lambda>_ _. None) strict_policy ''e'' ?req ''x'' ?body held_run = (s', Inr ans)" by blast
  then have "approves run_api strict_policy (principal_of reviewer_token) ''x'' held_run"
    by (intro over_http) (simp_all add: approve_call_def parse_execution_id_def run_api_def sample_api_def ok_or_def strip_prefix_def)
  then show ?thesis by (simp add: principal_of_def reviewer_token_def)
qed

theorem nobody_approves_own_run_witness: "approves run_api strict_policy ''token:2'' ''x'' held_run \<and> ''token:2'' \<noteq> ''token:1''"
proof -
  have st: "starts run_api ''token:1'' idle ''x'' registered launched"
    by (rule by_schedule [OF _ launched_ok]) (simp add: sample_job_def)
  have ok: "log_ok launched" unfolding well_sequenced_def launched_log by (simp add: event_new_def)
  have "in_range launched" by (simp add: in_range_def launched_log epoch_of_def)
  then have "backend_trace x fresh launched ([] @ [None]) held_run" for x fresh
    by (intro trace_snoc [OF trace_nil]) (simp add: backend_step_def held_run_def op_append)
  from nobody_approves_own_run [OF st _ _ _ ok this held_run_approved]
  show ?thesis using held_run_approved
    by (simp add: strict_policy_def idle_def registered_def fresh_run_def backend_new_def log_of_def)
qed

end
