(* ===== verification/Timers.thy ===== *)
theory Timers
  imports Scheduling Polling
begin

text \<open>
  Durable timers (\<^verbatim>\<open>runtime/timers/src/lib.rs\<close>): the table of timers, a list of rows in the order they were
  inserted, and the loop that records the due ones in the logs of their runs.  A tick has one clock; the reader of
  run ids (uuid) is a parameter.
\<close>

section \<open>The table\<close>

record timer =
  ti_id :: uuid
  ti_execution_id :: string
  ti_node_id :: string
  ti_fire_at :: timestamp
  ti_correlation_key :: "string option"
  ti_fired :: bool
  ti_created_at :: timestamp
  ti_fired_at :: "timestamp option"

definition schedule_timer ::
    "uuid \<Rightarrow> timestamp \<Rightarrow> string \<Rightarrow> string \<Rightarrow> timestamp \<Rightarrow> string option \<Rightarrow> timer list \<Rightarrow> timer list \<times> timer" where
  "schedule_timer i now execution_id node fire_at key timers =
     (let t = \<lparr>ti_id = i, ti_execution_id = execution_id, ti_node_id = node, ti_fire_at = fire_at, ti_correlation_key = key, ti_fired = False,
               ti_created_at = now, ti_fired_at = None\<rparr>
      in (timers @ [t], t))"

definition timer_due :: "timestamp \<Rightarrow> timer \<Rightarrow> bool" where
  "timer_due now t = (\<not> ti_fired t \<and> ti_fire_at t \<le> now)"

definition list_due_timers :: "timestamp \<Rightarrow> timer list \<Rightarrow> timer list" where
  "list_due_timers now timers = due_rows ti_fire_at (timer_due now) timers"

definition mark_fired :: "uuid \<Rightarrow> timestamp \<Rightarrow> timer list \<Rightarrow> timer list" where
  "mark_fired i now timers = map (\<lambda>t. if ti_id t = i then t\<lparr>ti_fired := True, ti_fired_at := Some now\<rparr> else t) timers"

definition cancel_timer :: "uuid \<Rightarrow> timer list \<Rightarrow> timer list" where
  "cancel_timer i timers = map (\<lambda>t. if ti_id t = i \<and> \<not> ti_fired t then t\<lparr>ti_fired := True\<rparr> else t) timers"

section \<open>The loop\<close>

definition fired_kind :: "timer \<Rightarrow> event_kind" where
  "fired_kind t = TimerFired (ti_node_id t) (ti_correlation_key t)"

text \<open>The first row that cannot be read ends the tick with an error.\<close>

fun fire_timers ::
    "sched_env \<Rightarrow> (string \<Rightarrow> string + execution_id) \<Rightarrow> timestamp \<Rightarrow> timer list \<Rightarrow> timer list \<times> in_memory_backend \<Rightarrow>
     (timer list \<times> in_memory_backend) \<times> (string + unit)" where
  "fire_timers env uuid_of now [] st = (st, Inr ())"
| "fire_timers env uuid_of now (t # due) (timers, s) =
     (case uuid_of (ti_execution_id t) of
        Inl err \<Rightarrow> ((timers, s), Inl (''bad execution_id in timer: '' @ err))
      | Inr e \<Rightarrow> fire_timers env uuid_of now due (mark_fired (ti_id t) now timers, append_next env now e (fired_kind t) s))"

definition timer_tick ::
    "sched_env \<Rightarrow> (string \<Rightarrow> string + execution_id) \<Rightarrow> timestamp \<Rightarrow> timer list \<times> in_memory_backend \<Rightarrow>
     (timer list \<times> in_memory_backend) \<times> (string + unit)" where
  "timer_tick env uuid_of now st = fire_timers env uuid_of now (list_due_timers now (fst st)) st"

section \<open>What a tick does\<close>

definition kinds_of :: "in_memory_backend \<Rightarrow> execution_id \<Rightarrow> event_kind list" where
  "kinds_of s e = map ev_kind (log_of s e)"

lemma append_next_kinds: "kinds_of (append_next env now e kind s) = (kinds_of s)(e := kinds_of s e @ [kind])"
  by (auto simp: fun_eq_iff kinds_of_def append_next_def append_event_def next_event_def push_event_def log_of_def event_new_def Let_def)

interpretation polled_timers: polled_table ti_id "timer_due now" "\<lambda>_ t. mark_fired (ti_id t) now" "\<lambda>_. True"
  by unfold_locales (auto simp: mark_fired_def timer_due_def)

lemma fire_timers_readable:
  assumes "\<forall>t \<in> set due. is_ok (uuid_of (ti_execution_id t))"
  shows "\<exists>s'. fire_timers env uuid_of now due (timers, s) = ((settle_all (\<lambda>_ t. mark_fired (ti_id t) now) (\<lambda>_ ts. ts) n due timers, s'), Inr ()) \<and>
    (\<forall>e. kinds_of s' e = kinds_of s e @ map fired_kind (filter (\<lambda>t. uuid_of (ti_execution_id t) = Inr e) due))"
  using assms
proof (induction due arbitrary: timers s n)
  case (Cons t due)
  obtain e where e: "uuid_of (ti_execution_id t) = Inr e" using Cons.prems by (auto simp: is_ok_def split: sum.splits)
  show ?case
    using Cons.IH [of "mark_fired (ti_id t) now timers" "append_next env now e (fired_kind t) s" "Suc n"] Cons.prems e by (auto simp: append_next_kinds)
qed auto

lemma list_due_timers_set: "set (list_due_timers now timers) = {t \<in> set timers. timer_due now t}"
  by (simp add: list_due_timers_def due_rows_set)

text \<open>A tick over timers whose run ids can be read records every due timer once, in the log of its run and in the order of
  their times, changes no other log, and leaves none of them due.\<close>

theorem due_timers_fire_once:
  assumes "\<forall>t \<in> set timers. is_ok (uuid_of (ti_execution_id t))"
  shows "\<exists>timers' s'. timer_tick env uuid_of now (timers, s) = ((timers', s'), Inr ()) \<and> list_due_timers now timers' = [] \<and>
    (\<forall>e. map ev_kind (log_of s' e) = map ev_kind (log_of s e) @
           map fired_kind (filter (\<lambda>t. uuid_of (ti_execution_id t) = Inr e) (list_due_timers now timers)))"
proof -
  have "\<forall>t \<in> set (list_due_timers now timers). is_ok (uuid_of (ti_execution_id t))" using assms by (simp add: list_due_timers_set)
  moreover have "list_due_timers now (settle_all (\<lambda>_ t. mark_fired (ti_id t) now) (\<lambda>_ ts. ts) 0 (list_due_timers now timers) timers) = []"
    unfolding list_due_timers_def by (rule polled_timers.poll_settles) auto
  ultimately show ?thesis
    using fire_timers_readable [of "list_due_timers now timers" uuid_of env now timers s 0] by (auto simp: timer_tick_def kinds_of_def)
qed

text \<open>A timer whose run id cannot be read stops the timers after it: every tick stops at it, records nothing and marks
  nothing, so that no timer set for a later time is ever recorded while it is in the table.\<close>

theorem unreadable_timer_blocks_later:
  assumes "bad \<in> set timers" and "\<not> ti_fired bad" and "uuid_of (ti_execution_id bad) = Inl err"
    and "\<forall>t \<in> set timers. t = bad \<or> ti_fired t \<or> ti_fire_at bad < ti_fire_at t" and "ti_fire_at bad \<le> now"
  shows "timer_tick env uuid_of now (timers, s) = ((timers, s), Inl (''bad execution_id in timer: '' @ err))"
proof -
  have bad: "bad \<in> set (list_due_timers now timers)" using assms(1,2,5) by (simp add: list_due_timers_set timer_due_def)
  from bad obtain t due where d: "list_due_timers now timers = t # due" by (cases "list_due_timers now timers") auto
  have "sorted (map ti_fire_at (list_due_timers now timers))" by (simp add: list_due_timers_def due_rows_def)
  then have le: "\<forall>u \<in> set (t # due). ti_fire_at t \<le> ti_fire_at u" unfolding d by simp
  have "t \<in> set timers" "\<not> ti_fired t" using list_due_timers_set [of now timers] d by (auto simp: timer_due_def)
  then have "t = bad" using assms(4) le bad d by fastforce
  then show ?thesis by (simp add: timer_tick_def d assms(3))
qed

section \<open>Witnesses\<close>

definition sample_timer :: "string \<Rightarrow> timestamp \<Rightarrow> timer" where
  "sample_timer e t = snd (schedule_timer ''t'' 0 e ''wait'' t None [])"

definition read_x :: "string \<Rightarrow> string + execution_id" where
  "read_x t = (if t = ''x'' then Inr ''x'' else Inl ''invalid'')"

theorem due_timers_fire_once_witness:
  "\<exists>timers' s'. timer_tick sample_env read_x 9 ([sample_timer ''x'' 7], backend_new) = ((timers', s'), Inr ()) \<and>
     map ev_kind (log_of s' ''x'') = [TimerFired ''wait'' None]"
  using due_timers_fire_once [of "[sample_timer ''x'' 7]" read_x sample_env 9 backend_new]
  by (force simp: sample_timer_def schedule_timer_def read_x_def list_due_timers_def due_rows_def timer_due_def log_of_def backend_new_def fired_kind_def Let_def)

theorem unreadable_timer_blocks_later_witness:
  "timer_tick sample_env read_x 9 ([sample_timer ''exec_x'' 1, sample_timer ''x'' 7], backend_new) =
     (([sample_timer ''exec_x'' 1, sample_timer ''x'' 7], backend_new), Inl ''bad execution_id in timer: invalid'')"
  using unreadable_timer_blocks_later [of "sample_timer ''exec_x'' 1" "[sample_timer ''exec_x'' 1, sample_timer ''x'' 7]" read_x "''invalid''" 9]
  by (simp add: sample_timer_def schedule_timer_def read_x_def Let_def)

end
