(* ===== verification/Agent_Registry.thy ===== *)
theory Agent_Registry
  imports Claim_Api
begin

text \<open>
  The registry of agents (\<^verbatim>\<open>runtime/agents/src\<close>): the card of an agent, its lifecycle, the trait
  \<^verbatim>\<open>AgentRegistry\<close> as a record of operations, its two implementations, in memory and over SQLite, and the routes
  of the API in front of it.  The order in which a map is iterated, or a table scanned, is the argument \<open>ids\<close>,
  a list of its keys.  A statement of SQL is read as its effect on the table, whose key is the id and whose URI
  is \<^verbatim>\<open>UNIQUE\<close>; the readers and writers of cards, ids and times are parameters, and so is the fetch of a remote
  card.  Shown, over the locale \<open>agent_registry\<close> that both implementations interpret: a card stays the only one
  under its URI whatever is called afterwards, so that a node which fires for an agent has passed the lists of the
  card the agent was registered with.
\<close>

section \<open>The card\<close>

datatype latency_class = LatencyRealtime | LatencyFast | LatencyMedium | LatencySlow

datatype cost_class = CostFree | CostLow | CostMedium | CostHigh

datatype autonomy_level = Deterministic | Guided | BoundedAutonomous | FullyAutonomous

datatype auth_spec = BearerToken "string list" | ApiKey string | AuthNone

record skill =
  sk_name :: string
  sk_description :: string
  sk_input_schema :: string
  sk_output_schema :: string

record agent_capabilities =
  cb_skills :: "skill list"
  cb_protocols :: "string list"
  cb_tools_provided :: "string list"
  cb_tools_consumed :: "string list"

record agent_card_data =
  cd_id :: string
  cd_uri :: string
  cd_name :: string
  cd_description :: string
  cd_version :: string
  cd_capabilities :: agent_capabilities
  cd_autonomy :: autonomy_level
  cd_constraints :: "autonomy_constraints option"
  cd_auth :: auth_spec
  cd_latency_class :: "latency_class option"
  cd_cost_class :: "cost_class option"
  cd_reasoning_modes :: "string list"
  cd_labels :: str_map

section \<open>The lifecycle\<close>

datatype agent_status = AgentRegistered | AgentActive | AgentPaused | AgentDeactivated | AgentArchived

fun can_accept_tasks :: "agent_status \<Rightarrow> bool" where
  "can_accept_tasks AgentActive = True"
| "can_accept_tasks _ = False"

fun agent_status_debug :: "agent_status \<Rightarrow> string" where
  "agent_status_debug AgentRegistered = ''Registered''"
| "agent_status_debug AgentActive = ''Active''"
| "agent_status_debug AgentPaused = ''Paused''"
| "agent_status_debug AgentDeactivated = ''Deactivated''"
| "agent_status_debug AgentArchived = ''Archived''"

definition agent_validate_transition :: "agent_status \<Rightarrow> agent_status \<Rightarrow> string + unit" where
  "agent_validate_transition st st' =
     (if (st, st') \<in> {(AgentRegistered, AgentActive), (AgentActive, AgentPaused), (AgentActive, AgentDeactivated),
                      (AgentPaused, AgentActive), (AgentPaused, AgentDeactivated), (AgentDeactivated, AgentArchived)}
      then Inr ()
      else Inl (''invalid agent status transition: '' @ agent_status_debug st @ '' -> '' @ agent_status_debug st'))"

section \<open>The trait\<close>

record agent =
  ag_id :: uuid
  ag_card :: agent_card_data
  ag_status :: agent_status
  ag_registered_at :: timestamp
  ag_updated_at :: timestamp
  ag_last_heartbeat :: "timestamp option"

record agent_filter =
  af_skill :: "string option"
  af_protocol :: "string option"
  af_status :: "agent_status option"

text \<open>What the fetch of a remote card answers.\<close>

datatype fetched = FetchFailed string | ParseFailed string | Fetched agent_card_data

record 's agent_registry_impl =
  ri_register :: "uuid list \<Rightarrow> uuid \<Rightarrow> timestamp \<Rightarrow> agent_card_data \<Rightarrow> 's \<Rightarrow> 's \<times> (string + uuid)"
  ri_get :: "uuid \<Rightarrow> 's \<Rightarrow> string + agent option"
  ri_get_by_uri :: "uuid list \<Rightarrow> string \<Rightarrow> 's \<Rightarrow> string + agent option"
  ri_find :: "uuid list \<Rightarrow> agent_filter \<Rightarrow> 's \<Rightarrow> string + agent list"
  ri_update_status :: "uuid \<Rightarrow> agent_status \<Rightarrow> timestamp \<Rightarrow> 's \<Rightarrow> 's \<times> (string + unit)"
  ri_heartbeat :: "uuid \<Rightarrow> timestamp \<Rightarrow> 's \<Rightarrow> 's \<times> (string + unit)"
  ri_discover_remote :: "(string \<Rightarrow> fetched) \<Rightarrow> uuid list \<Rightarrow> uuid \<Rightarrow> timestamp \<Rightarrow> string \<Rightarrow> 's \<Rightarrow> 's \<times> (string + agent)"

definition new_agent :: "uuid \<Rightarrow> timestamp \<Rightarrow> agent_card_data \<Rightarrow> agent" where
  "new_agent i now c = \<lparr>ag_id = i, ag_card = c, ag_status = AgentRegistered, ag_registered_at = now, ag_updated_at = now,
     ag_last_heartbeat = None\<rparr>"

section \<open>In memory\<close>

type_synonym in_memory_agents = "uuid \<rightharpoonup> agent"

definition at_uri :: "(uuid \<rightharpoonup> agent) \<Rightarrow> string \<Rightarrow> uuid \<Rightarrow> bool" where
  "at_uri m uri i = (case m i of Some a \<Rightarrow> cd_uri (ag_card a) = uri | None \<Rightarrow> False)"

definition mem_register :: "uuid list \<Rightarrow> uuid \<Rightarrow> timestamp \<Rightarrow> agent_card_data \<Rightarrow> in_memory_agents \<Rightarrow> in_memory_agents \<times> (string + uuid)" where
  "mem_register ids i now c m =
     (if list_ex (at_uri m (cd_uri c)) ids then (m, Inl (''an agent is already registered at uri '' @ cd_uri c))
      else (m(i \<mapsto> new_agent i now c), Inr i))"

definition mem_get :: "uuid \<Rightarrow> in_memory_agents \<Rightarrow> string + agent option" where
  "mem_get i m = Inr (m i)"

definition mem_get_by_uri :: "uuid list \<Rightarrow> string \<Rightarrow> in_memory_agents \<Rightarrow> string + agent option" where
  "mem_get_by_uri ids uri m = Inr (Option.bind (find (at_uri m uri) ids) m)"

definition eq_ignore_ascii_case :: "string \<Rightarrow> string \<Rightarrow> bool" where
  "eq_ignore_ascii_case a b = (map ascii_lower a = map ascii_lower b)"

definition mem_matches :: "agent_filter \<Rightarrow> agent \<Rightarrow> bool" where
  "mem_matches f a =
     ((case af_status f of Some st \<Rightarrow> ag_status a = st | None \<Rightarrow> True) \<and>
      (case af_skill f of
         Some skill \<Rightarrow> list_ex (\<lambda>s. eq_ignore_ascii_case (sk_name s) skill) (cb_skills (cd_capabilities (ag_card a)))
       | None \<Rightarrow> True) \<and>
      (case af_protocol f of
         Some protocol \<Rightarrow> list_ex (\<lambda>p. eq_ignore_ascii_case p protocol) (cb_protocols (cd_capabilities (ag_card a)))
       | None \<Rightarrow> True))"

definition mem_find :: "uuid list \<Rightarrow> agent_filter \<Rightarrow> in_memory_agents \<Rightarrow> string + agent list" where
  "mem_find ids f m = Inr (filter (mem_matches f) (List.map_filter m ids))"

definition mem_update_status :: "uuid \<Rightarrow> agent_status \<Rightarrow> timestamp \<Rightarrow> in_memory_agents \<Rightarrow> in_memory_agents \<times> (string + unit)" where
  "mem_update_status i st now m =
     (case m i of
        Some entry \<Rightarrow> (m(i \<mapsto> entry\<lparr>ag_status := st, ag_updated_at := now\<rparr>), Inr ())
      | None \<Rightarrow> (m, Inl (''agent not found: '' @ i)))"

definition mem_heartbeat :: "uuid \<Rightarrow> timestamp \<Rightarrow> in_memory_agents \<Rightarrow> in_memory_agents \<times> (string + unit)" where
  "mem_heartbeat i now m =
     (case m i of
        Some entry \<Rightarrow> (m(i \<mapsto> entry\<lparr>ag_last_heartbeat := Some now\<rparr>), Inr ())
      | None \<Rightarrow> (m, Inl (''agent not found: '' @ i)))"

definition well_known :: string where "well_known = ''/.well-known/agent.json''"

definition ends_with :: "string \<Rightarrow> string \<Rightarrow> bool" where
  "ends_with t suffix = (take (length suffix) (rev t) = rev suffix)"

definition trim_end_slashes :: "string \<Rightarrow> string" where
  "trim_end_slashes t = rev (dropWhile (\<lambda>c. c = CHR ''/'') (rev t))"

definition mem_card_url :: "string \<Rightarrow> string" where
  "mem_card_url url = (if ends_with url well_known then url else trim_end_slashes url @ well_known)"

definition mem_discover_remote ::
    "(string \<Rightarrow> fetched) \<Rightarrow> uuid list \<Rightarrow> uuid \<Rightarrow> timestamp \<Rightarrow> string \<Rightarrow> in_memory_agents \<Rightarrow> in_memory_agents \<times> (string + agent)" where
  "mem_discover_remote fetch ids i now url m =
     (case fetch (mem_card_url url) of
        FetchFailed e \<Rightarrow> (m, Inl (''failed to fetch agent card: '' @ e))
      | ParseFailed e \<Rightarrow> (m, Inl (''failed to parse agent card: '' @ e))
      | Fetched c \<Rightarrow>
          (case mem_register ids i now c m of
             (m, Inl e) \<Rightarrow> (m, Inl e)
           | (m, Inr i) \<Rightarrow> (m, and_then (mem_get i m) (ok_or ''agent registered but not found''))))"

definition memory_registry :: "in_memory_agents agent_registry_impl" where
  "memory_registry = \<lparr>ri_register = mem_register, ri_get = mem_get, ri_get_by_uri = mem_get_by_uri, ri_find = mem_find,
     ri_update_status = mem_update_status, ri_heartbeat = mem_heartbeat, ri_discover_remote = mem_discover_remote\<rparr>"

section \<open>Over SQLite\<close>

record agent_row =
  ar_uri :: string
  ar_card_json :: string
  ar_status :: string
  ar_registered_at :: string
  ar_updated_at :: string
  ar_last_heartbeat :: "string option"

type_synonym agents_table = "uuid \<rightharpoonup> agent_row"

record registry_codec =
  rg_parse_uuid :: "string \<Rightarrow> string + uuid"
  rg_card_to_string :: "agent_card_data \<Rightarrow> string + string"
  rg_card_from_str :: "string \<Rightarrow> string + agent_card_data"
  rg_to_rfc3339 :: "timestamp \<Rightarrow> string"
  rg_parse_from_rfc3339 :: "string \<Rightarrow> string + timestamp"
  rg_constraint_failed :: string

fun status_to_str :: "agent_status \<Rightarrow> string" where
  "status_to_str AgentRegistered = ''registered''"
| "status_to_str AgentActive = ''active''"
| "status_to_str AgentPaused = ''paused''"
| "status_to_str AgentDeactivated = ''deactivated''"
| "status_to_str AgentArchived = ''archived''"

definition str_to_status :: "string \<Rightarrow> string + agent_status" where
  "str_to_status t =
     (if t = ''registered'' then Inr AgentRegistered
      else if t = ''active'' then Inr AgentActive
      else if t = ''paused'' then Inr AgentPaused
      else if t = ''deactivated'' then Inr AgentDeactivated
      else if t = ''archived'' then Inr AgentArchived
      else Inl (''unknown agent status: '' @ t))"

definition parse_dt :: "registry_codec \<Rightarrow> string \<Rightarrow> string + timestamp" where
  "parse_dt x t = (case rg_parse_from_rfc3339 x t of Inl e \<Rightarrow> Inl (''bad datetime: '' @ e) | Inr d \<Rightarrow> Inr d)"

definition row_to_agent :: "registry_codec \<Rightarrow> uuid \<Rightarrow> agent_row \<Rightarrow> string + agent" where
  "row_to_agent x key row =
     and_then (rg_parse_uuid x key) (\<lambda>i.
     and_then (rg_card_from_str x (ar_card_json row)) (\<lambda>c.
     and_then (str_to_status (ar_status row)) (\<lambda>st.
     and_then (parse_dt x (ar_registered_at row)) (\<lambda>registered_at.
     and_then (parse_dt x (ar_updated_at row)) (\<lambda>updated_at.
     and_then (case ar_last_heartbeat row of None \<Rightarrow> Inr None | Some t \<Rightarrow> and_then (parse_dt x t) (\<lambda>d. Inr (Some d))) (\<lambda>last_heartbeat.
       Inr \<lparr>ag_id = i, ag_card = c, ag_status = st, ag_registered_at = registered_at, ag_updated_at = updated_at,
            ag_last_heartbeat = last_heartbeat\<rparr>))))))"

definition row_at_uri :: "agents_table \<Rightarrow> string \<Rightarrow> uuid \<Rightarrow> bool" where
  "row_at_uri t uri i = (case t i of Some row \<Rightarrow> ar_uri row = uri | None \<Rightarrow> False)"

text \<open>The \<^verbatim>\<open>INSERT\<close> is refused where the key or the URI is taken.\<close>

definition sql_register :: "registry_codec \<Rightarrow> uuid list \<Rightarrow> uuid \<Rightarrow> timestamp \<Rightarrow> agent_card_data \<Rightarrow> agents_table \<Rightarrow> agents_table \<times> (string + uuid)" where
  "sql_register x ids i now c t =
     (case rg_card_to_string x c of
        Inl e \<Rightarrow> (t, Inl e)
      | Inr card_json \<Rightarrow>
          if t i \<noteq> None \<or> list_ex (row_at_uri t (cd_uri c)) ids then (t, Inl (rg_constraint_failed x))
          else (t(i \<mapsto> \<lparr>ar_uri = cd_uri c, ar_card_json = card_json, ar_status = ''registered'', ar_registered_at = rg_to_rfc3339 x now,
                        ar_updated_at = rg_to_rfc3339 x now, ar_last_heartbeat = None\<rparr>), Inr i))"

definition read_row :: "registry_codec \<Rightarrow> agents_table \<Rightarrow> uuid option \<Rightarrow> string + agent option" where
  "read_row x t key =
     (case key of
        None \<Rightarrow> Inr None
      | Some i \<Rightarrow> (case t i of None \<Rightarrow> Inr None | Some row \<Rightarrow> and_then (row_to_agent x i row) (\<lambda>a. Inr (Some a))))"

definition sql_get :: "registry_codec \<Rightarrow> uuid \<Rightarrow> agents_table \<Rightarrow> string + agent option" where
  "sql_get x i t = read_row x t (Some i)"

definition sql_get_by_uri :: "registry_codec \<Rightarrow> uuid list \<Rightarrow> string \<Rightarrow> agents_table \<Rightarrow> string + agent option" where
  "sql_get_by_uri x ids uri t = read_row x t (find (row_at_uri t uri) ids)"

text \<open>\<^verbatim>\<open>ORDER BY registered_at DESC\<close> compares the texts; rows that are equal there stay in the order of the scan.\<close>

fun insert_desc :: "uuid \<times> agent_row \<Rightarrow> (uuid \<times> agent_row) list \<Rightarrow> (uuid \<times> agent_row) list" where
  "insert_desc r [] = [r]"
| "insert_desc r (q # rows) =
     (if ar_registered_at (snd q) \<le> ar_registered_at (snd r) then r # q # rows else q # insert_desc r rows)"

definition order_desc :: "(uuid \<times> agent_row) list \<Rightarrow> (uuid \<times> agent_row) list" where
  "order_desc rows = foldr insert_desc rows []"

fun read_rows :: "registry_codec \<Rightarrow> (uuid \<times> agent_row) list \<Rightarrow> string + agent list" where
  "read_rows x [] = Inr []"
| "read_rows x ((i, row) # rows) = and_then (row_to_agent x i row) (\<lambda>a. and_then (read_rows x rows) (\<lambda>as. Inr (a # as)))"

definition sql_matches :: "agent_filter \<Rightarrow> agent \<Rightarrow> bool" where
  "sql_matches f a =
     ((case af_skill f of Some skill \<Rightarrow> list_ex (\<lambda>s. sk_name s = skill) (cb_skills (cd_capabilities (ag_card a))) | None \<Rightarrow> True) \<and>
      (case af_protocol f of Some protocol \<Rightarrow> protocol \<in> set (cb_protocols (cd_capabilities (ag_card a))) | None \<Rightarrow> True))"

definition sql_find :: "registry_codec \<Rightarrow> uuid list \<Rightarrow> agent_filter \<Rightarrow> agents_table \<Rightarrow> string + agent list" where
  "sql_find x ids f t =
     (let rows = List.map_filter (\<lambda>i. map_option (Pair i) (t i)) ids;
          rows = (case af_status f of Some st \<Rightarrow> filter (\<lambda>(_, row). ar_status row = status_to_str st) rows | None \<Rightarrow> rows)
      in and_then (read_rows x (order_desc rows)) (\<lambda>agents. Inr (filter (sql_matches f) agents)))"

definition sql_update_status :: "registry_codec \<Rightarrow> uuid \<Rightarrow> agent_status \<Rightarrow> timestamp \<Rightarrow> agents_table \<Rightarrow> agents_table \<times> (string + unit)" where
  "sql_update_status x i st now t =
     (case t i of
        Some row \<Rightarrow> (t(i \<mapsto> row\<lparr>ar_status := status_to_str st, ar_updated_at := rg_to_rfc3339 x now\<rparr>), Inr ())
      | None \<Rightarrow> (t, Inl (''agent '' @ i @ '' not found'')))"

definition sql_heartbeat :: "registry_codec \<Rightarrow> uuid \<Rightarrow> timestamp \<Rightarrow> agents_table \<Rightarrow> agents_table \<times> (string + unit)" where
  "sql_heartbeat x i now t =
     (case t i of
        Some row \<Rightarrow> t(i \<mapsto> row\<lparr>ar_last_heartbeat := Some (rg_to_rfc3339 x now), ar_updated_at := rg_to_rfc3339 x now\<rparr>)
      | None \<Rightarrow> t, Inr ())"

definition sql_discover_remote ::
    "registry_codec \<Rightarrow> (string \<Rightarrow> fetched) \<Rightarrow> uuid list \<Rightarrow> uuid \<Rightarrow> timestamp \<Rightarrow> string \<Rightarrow> agents_table \<Rightarrow> agents_table \<times> (string + agent)" where
  "sql_discover_remote x fetch ids i now url t =
     (case fetch (url @ well_known) of
        FetchFailed e \<Rightarrow> (t, Inl (''fetch Agent Card: '' @ e))
      | ParseFailed e \<Rightarrow> (t, Inl (''parse Agent Card: '' @ e))
      | Fetched c \<Rightarrow>
          (case sql_register x ids i now c t of
             (t, Inl e) \<Rightarrow> (t, Inl e)
           | (t, Inr i) \<Rightarrow> (t, and_then (sql_get x i t) (ok_or ''agent not found after registration''))))"

definition sqlite_registry :: "registry_codec \<Rightarrow> agents_table agent_registry_impl" where
  "sqlite_registry x = \<lparr>ri_register = sql_register x, ri_get = sql_get x, ri_get_by_uri = sql_get_by_uri x, ri_find = sql_find x,
     ri_update_status = sql_update_status x, ri_heartbeat = sql_heartbeat x, ri_discover_remote = sql_discover_remote x\<rparr>"

section \<open>The routes\<close>

definition register_agent ::
    "'s agent_registry_impl \<Rightarrow> uuid list \<Rightarrow> uuid \<Rightarrow> timestamp \<Rightarrow> agent_card_data \<Rightarrow> 's \<Rightarrow> 's \<times> api_result" where
  "register_agent R ids i now body s =
     (case ri_register R ids i now body s of
        (s, Inl e) \<Rightarrow> (s, Inl (ApiInternal e))
      | (s, Inr agent_id) \<Rightarrow> (s, Inr (StCreated, json_object [(''agent_id'', JString agent_id)])))"

record list_agents_query =
  lq_status :: "string option"
  lq_skill :: "string option"
  lq_protocol :: "string option"

definition status_param :: "string \<Rightarrow> agent_status option" where
  "status_param t =
     (if t = ''registered'' then Some AgentRegistered
      else if t = ''active'' then Some AgentActive
      else if t = ''paused'' then Some AgentPaused
      else if t = ''deactivated'' then Some AgentDeactivated
      else None)"

definition api_internal :: "string + 'a \<Rightarrow> api_error + 'a" where
  "api_internal r = (case r of Inl e \<Rightarrow> Inl (ApiInternal e) | Inr y \<Rightarrow> Inr y)"

definition list_agents :: "'s agent_registry_impl \<Rightarrow> uuid list \<Rightarrow> list_agents_query \<Rightarrow> 's \<Rightarrow> api_error + agent list" where
  "list_agents R ids q s =
     api_internal (ri_find R ids \<lparr>af_skill = lq_skill q, af_protocol = lq_protocol q, af_status = Option.bind (lq_status q) status_param\<rparr> s)"

definition parse_agent_id :: "api_env \<Rightarrow> string \<Rightarrow> api_error + uuid" where
  "parse_agent_id a t = ok_or (ApiBadRequest (''invalid agent id: '' @ t)) (ap_parse_uuid a t)"

definition get_agent :: "api_env \<Rightarrow> 's agent_registry_impl \<Rightarrow> (agent \<Rightarrow> string + json) \<Rightarrow> string \<Rightarrow> 's \<Rightarrow> api_error + json" where
  "get_agent a R to_value t s =
     and_then (parse_agent_id a t) (\<lambda>i.
     and_then (api_internal (ri_get R i s)) (\<lambda>found.
     and_then (ok_or (ApiNotFound (''agent '' @ t)) found) (\<lambda>ag.
       case to_value ag of Inl e \<Rightarrow> Inl (ApiInternal (''serialize agent: '' @ e)) | Inr v \<Rightarrow> Inr v)))"

definition set_agent_status ::
    "api_env \<Rightarrow> 's agent_registry_impl \<Rightarrow> agent_status \<Rightarrow> string \<Rightarrow> timestamp \<Rightarrow> string \<Rightarrow> 's \<Rightarrow> 's \<times> (api_error + json)" where
  "set_agent_status a R st name now t s =
     (case parse_agent_id a t of
        Inl err \<Rightarrow> (s, Inl err)
      | Inr i \<Rightarrow>
          (case ri_update_status R i st now s of
             (s, Inl e) \<Rightarrow> (s, Inl (ApiInternal e))
           | (s, Inr _) \<Rightarrow> (s, Inr (json_object [(''agent_id'', JString t), (''status'', JString name)]))))"

definition activate_agent :: "api_env \<Rightarrow> 's agent_registry_impl \<Rightarrow> timestamp \<Rightarrow> string \<Rightarrow> 's \<Rightarrow> 's \<times> (api_error + json)" where
  "activate_agent a R = set_agent_status a R AgentActive ''active''"

definition deactivate_agent :: "api_env \<Rightarrow> 's agent_registry_impl \<Rightarrow> timestamp \<Rightarrow> string \<Rightarrow> 's \<Rightarrow> 's \<times> (api_error + json)" where
  "deactivate_agent a R = set_agent_status a R AgentDeactivated ''deactivated''"

definition discover_agent ::
    "'s agent_registry_impl \<Rightarrow> (agent \<Rightarrow> string + json) \<Rightarrow> (string \<Rightarrow> fetched) \<Rightarrow> uuid list \<Rightarrow> uuid \<Rightarrow> timestamp \<Rightarrow> string \<Rightarrow> 's \<Rightarrow> 's \<times> api_result" where
  "discover_agent R to_value fetch ids i now url s =
     (case ri_discover_remote R fetch ids i now url s of
        (s, Inl e) \<Rightarrow> (s, Inl (ApiInternal e))
      | (s, Inr ag) \<Rightarrow> (s, case to_value ag of Inl e \<Rightarrow> Inl (ApiInternal (''serialize agent: '' @ e)) | Inr v \<Rightarrow> Inr (StCreated, v)))"

definition agent_heartbeat :: "api_env \<Rightarrow> 's agent_registry_impl \<Rightarrow> timestamp \<Rightarrow> string \<Rightarrow> 's \<Rightarrow> 's \<times> (api_error + json)" where
  "agent_heartbeat a R now t s =
     (case parse_agent_id a t of
        Inl err \<Rightarrow> (s, Inl err)
      | Inr i \<Rightarrow>
          (case ri_heartbeat R i now s of
             (s, Inl e) \<Rightarrow> (s, Inl (ApiInternal e))
           | (s, Inr _) \<Rightarrow> (s, Inr (json_object [(''agent_id'', JString t), (''ok'', JBool True)]))))"

text \<open>What the guard reads of the registry, each look-up in an order of its own.\<close>

definition registry_constraints ::
    "'s agent_registry_impl \<Rightarrow> (string \<Rightarrow> uuid list) \<Rightarrow> 's \<Rightarrow> string \<Rightarrow> string + autonomy_constraints option option" where
  "registry_constraints R order s uri =
     and_then (ri_get_by_uri R (order uri) uri s) (\<lambda>found. Inr (map_option (\<lambda>a. cd_constraints (ag_card a)) found))"

section \<open>What a registry promises\<close>

definition one_per_uri :: "(uuid \<rightharpoonup> agent) \<Rightarrow> bool" where
  "one_per_uri m = (\<forall>uri i j. at_uri m uri i \<longrightarrow> at_uri m uri j \<longrightarrow> i = j)"

definition uri_taken :: "(uuid \<rightharpoonup> agent) \<Rightarrow> string \<Rightarrow> bool" where
  "uri_taken m uri = (\<exists>i. at_uri m uri i)"

text \<open>Everything a registry is asked to do from a state on: cards registered under new ids, the status and the
  heartbeat of any agent.\<close>

inductive registry_run ::
    "'s agent_registry_impl \<Rightarrow> (uuid list \<Rightarrow> 's \<Rightarrow> bool) \<Rightarrow> (uuid \<Rightarrow> 's \<Rightarrow> bool) \<Rightarrow> (agent_card_data \<Rightarrow> bool) \<Rightarrow> 's \<Rightarrow> 's \<Rightarrow> bool"
  for R lists fresh storable s where
  run_start: "registry_run R lists fresh storable s s"
| run_register:
    "registry_run R lists fresh storable s t \<Longrightarrow> lists ids t \<Longrightarrow> fresh i t \<Longrightarrow> storable c \<Longrightarrow>
     registry_run R lists fresh storable s (fst (ri_register R ids i now c t))"
| run_status:
    "registry_run R lists fresh storable s t \<Longrightarrow> registry_run R lists fresh storable s (fst (ri_update_status R i st now t))"
| run_heartbeat:
    "registry_run R lists fresh storable s t \<Longrightarrow> registry_run R lists fresh storable s (fst (ri_heartbeat R i now t))"

lemma at_uri_Some [simp]: "m i = Some a \<Longrightarrow> at_uri m uri i = (cd_uri (ag_card a) = uri)"
  and at_uri_None [simp]: "m i = None \<Longrightarrow> \<not> at_uri m uri i"
  by (simp_all add: at_uri_def)

lemma at_uriE: "at_uri m uri i \<Longrightarrow> (\<And>a. m i = Some a \<Longrightarrow> cd_uri (ag_card a) = uri \<Longrightarrow> thesis) \<Longrightarrow> thesis"
  by (auto simp: at_uri_def split: option.splits)

lemma at_uri_upd: "at_uri (m(i \<mapsto> a)) uri j = (if j = i then cd_uri (ag_card a) = uri else at_uri m uri j)"
  by (simp add: at_uri_def)

lemma one_per_uriD: "one_per_uri m \<Longrightarrow> at_uri m uri i \<Longrightarrow> at_uri m uri j \<Longrightarrow> i = j"
  by (simp add: one_per_uri_def)

lemma one_per_uri_register: "one_per_uri m \<Longrightarrow> \<not> uri_taken m (cd_uri (ag_card a)) \<Longrightarrow> one_per_uri (m(i \<mapsto> a))"
  by (fastforce simp: one_per_uri_def uri_taken_def at_uri_upd split: if_splits)

lemma one_per_uri_same_card:
  "one_per_uri m \<Longrightarrow> m i = Some a \<Longrightarrow> ag_card b = ag_card a \<Longrightarrow> one_per_uri (m(i \<mapsto> b))"
  by (fastforce simp: one_per_uri_def at_uri_upd split: if_splits)

locale agent_registry =
  fixes R :: "'s agent_registry_impl"
    and ok :: "'s \<Rightarrow> bool"
    and lists :: "uuid list \<Rightarrow> 's \<Rightarrow> bool"
    and fresh :: "uuid \<Rightarrow> 's \<Rightarrow> bool"
    and storable :: "agent_card_data \<Rightarrow> bool"
    and view :: "'s \<Rightarrow> uuid \<Rightarrow> agent option"
  assumes lists_all: "ok s \<Longrightarrow> lists ids s \<Longrightarrow> view s i = Some a \<Longrightarrow> i \<in> set ids"
    and fresh_new: "fresh i s \<Longrightarrow> view s i = None"
    and register_law: "ok s \<Longrightarrow> lists ids s \<Longrightarrow> fresh i s \<Longrightarrow> storable c \<Longrightarrow> ri_register R ids i now c s = (s', r) \<Longrightarrow>
      ok s' \<and> (if uri_taken (view s) (cd_uri c) then view s' = view s \<and> (\<exists>err. r = Inl err)
               else view s' = (view s)(i \<mapsto> new_agent i now c) \<and> r = Inr i)"
    and status_law: "ok s \<Longrightarrow> ri_update_status R i st now s = (s', q) \<Longrightarrow>
      ok s' \<and> (case view s i of
                 None \<Rightarrow> view s' = view s \<and> (\<exists>err. q = Inl err)
               | Some a \<Rightarrow> view s' = (view s)(i \<mapsto> a\<lparr>ag_status := st, ag_updated_at := now\<rparr>) \<and> q = Inr ())"
    and heartbeat_law: "ok s \<Longrightarrow> ri_heartbeat R i now s = (s', q) \<Longrightarrow>
      ok s' \<and> (case view s i of
                 None \<Rightarrow> view s' = view s
               | Some a \<Rightarrow> q = Inr () \<and> (\<exists>u. view s' = (view s)(i \<mapsto> a\<lparr>ag_last_heartbeat := Some now, ag_updated_at := u\<rparr>)))"
    and lookup_law: "ok s \<Longrightarrow> lists ids s \<Longrightarrow> ri_get_by_uri R ids uri s = Inr (Option.bind (find (at_uri (view s) uri) ids) (view s))"
begin

abbreviation "runs \<equiv> registry_run R lists fresh storable"

text \<open>An operation keeps what is known of a registry: it is in order, no two agents share a URI, and the agents that
  are there keep their cards.\<close>

definition kept :: "'s \<Rightarrow> 's \<Rightarrow> bool" where
  "kept s t = (ok t \<and> one_per_uri (view t) \<and> (\<forall>i a. view s i = Some a \<longrightarrow> (\<exists>b. view t i = Some b \<and> ag_card b = ag_card a)))"

lemma kept_trans: "kept s t \<Longrightarrow> kept t u \<Longrightarrow> kept s u"
  unfolding kept_def by (metis)

lemma kept_register:
  assumes "ok t" "one_per_uri (view t)" "lists ids t" "fresh i t" "storable c"
  shows "kept t (fst (ri_register R ids i now c t))"
proof -
  obtain t' r where t': "ri_register R ids i now c t = (t', r)" by fastforce
  note law = register_law [OF assms(1,3-5) t']
  show ?thesis
  proof (cases "uri_taken (view t) (cd_uri c)")
    case True
    then show ?thesis using law assms(2) by (simp add: kept_def t')
  next
    case False
    then have "one_per_uri (view t')" using law assms(2) by (auto intro: one_per_uri_register simp: new_agent_def)
    then show ?thesis using law False fresh_new [OF assms(4)] by (auto simp: kept_def t')
  qed
qed

lemma kept_same_card:
  assumes "ok t'" "one_per_uri (view t)" "view t i = Some a" "view t' = (view t)(i \<mapsto> b)" "ag_card b = ag_card a"
  shows "kept t t'"
  using assms one_per_uri_same_card [OF assms(2,3,5)] by (auto simp: kept_def)

lemma kept_status:
  assumes "ok t" "one_per_uri (view t)"
  shows "kept t (fst (ri_update_status R i st now t))"
proof -
  obtain t' r where t': "ri_update_status R i st now t = (t', r)" by fastforce
  then show ?thesis using status_law [OF assms(1) t'] assms(2) kept_same_card [of t' t i]
    by (cases "view t i") (auto simp: kept_def)
qed

lemma kept_heartbeat:
  assumes "ok t" "one_per_uri (view t)"
  shows "kept t (fst (ri_heartbeat R i now t))"
proof -
  obtain t' r where t': "ri_heartbeat R i now t = (t', r)" by fastforce
  then show ?thesis using heartbeat_law [OF assms(1) t'] assms(2) kept_same_card [of t' t i]
    by (cases "view t i") (auto simp: kept_def)
qed

lemma runs_kept: "runs s t \<Longrightarrow> ok s \<Longrightarrow> one_per_uri (view s) \<Longrightarrow> kept s t"
proof (induction rule: registry_run.induct)
  case run_start
  then show ?case by (auto simp: kept_def)
next
  case (run_register t ids i c now)
  then show ?case using kept_register kept_trans by (meson kept_def)
next
  case (run_status t i st now)
  then show ?case using kept_status kept_trans by (meson kept_def)
next
  case (run_heartbeat t i now)
  then show ?case using kept_heartbeat kept_trans by (meson kept_def)
qed

lemma lookup_unique:
  assumes "ok s" "one_per_uri (view s)" "lists ids s" "view s i = Some a"
  shows "ri_get_by_uri R ids (cd_uri (ag_card a)) s = Inr (Some a)"
proof -
  have i: "i \<in> set ids" "at_uri (view s) (cd_uri (ag_card a)) i" using lists_all [OF assms(1,3,4)] assms(4) by auto
  then obtain j where j: "find (at_uri (view s) (cd_uri (ag_card a))) ids = Some j" by (meson find_None_iff not_Some_eq)
  then have "at_uri (view s) (cd_uri (ag_card a)) j" by (auto simp: find_Some_iff)
  then have "j = i" using one_per_uriD [OF assms(2)] i(2) by blast
  then show ?thesis using lookup_law [OF assms(1,3)] j assms(4) by simp
qed

lemma registered_card_stays:
  assumes "ok s" "one_per_uri (view s)" "lists ids s" "fresh i s" "storable c" "ri_register R ids i now c s = (t, Inr k)" "runs t u"
  shows "ok u" and "one_per_uri (view u)" and "\<exists>a. view u i = Some a \<and> ag_card a = c"
proof -
  have "view t i = Some (new_agent i now c)" using register_law [OF assms(1,3-6)] by (auto split: if_splits)
  moreover have "kept s t" using kept_register [OF assms(1-5)] assms(6) by (metis fst_conv)
  then have "kept t u" using runs_kept [OF assms(7)] by (simp add: kept_def)
  ultimately show "ok u" "one_per_uri (view u)" "\<exists>a. view u i = Some a \<and> ag_card a = c"
    by (fastforce simp: kept_def new_agent_def)+
qed

lemma guard_reads_the_card:
  assumes "ok s" "one_per_uri (view s)" "lists ids s" "fresh i s" "storable c" "ri_register R ids i now c s = (t, Inr k)" "runs t u"
    and "lists (order (cd_uri c)) u"
  shows "registry_constraints R order u (cd_uri c) = Inr (Some (cd_constraints c))"
proof -
  obtain a where "view u i = Some a" "ag_card a = c" using registered_card_stays(3) [OF assms(1-7)] by blast
  then show ?thesis
    using lookup_unique [OF registered_card_stays(1,2) [OF assms(1-7)] assms(8)] by (auto simp: registry_constraints_def)
qed

lemma second_card_refused:
  assumes "ok s" "one_per_uri (view s)" "lists ids s" "fresh i s" "storable c" "ri_register R ids i now c s = (t, Inr k)" "runs t u"
    and "lists ids' u" "fresh j u" "storable c'" "cd_uri c' = cd_uri c"
  shows "\<exists>err. snd (ri_register R ids' j now' c' u) = Inl err"
proof -
  obtain a where "view u i = Some a" "ag_card a = c" using registered_card_stays(3) [OF assms(1-7)] by blast
  then have "at_uri (view u) (cd_uri c') i" using assms(11) by simp
  then have "uri_taken (view u) (cd_uri c')" unfolding uri_taken_def by blast
  moreover obtain v r where "ri_register R ids' j now' c' u = (v, r)" by fastforce
  ultimately show ?thesis using register_law [OF registered_card_stays(1) [OF assms(1-7)] assms(8-10)] by auto
qed

end

section \<open>Both registries keep the promise\<close>

definition lists_keys :: "uuid list \<Rightarrow> (uuid \<rightharpoonup> 'a) \<Rightarrow> bool" where
  "lists_keys ids m = (set ids = dom m)"

lemma list_ex_lists_keys: "lists_keys ids m \<Longrightarrow> list_ex (at_uri m uri) ids = uri_taken m uri"
  by (force simp: lists_keys_def list_ex_iff uri_taken_def at_uri_def split: option.splits)

interpretation mem: agent_registry memory_registry "\<lambda>_. True" lists_keys "\<lambda>i m. m i = None" "\<lambda>_. True" "\<lambda>m. m"
proof (unfold_locales, goal_cases)
  case (3 s ids i c now s' r)
  then show ?case using list_ex_lists_keys [of ids s] by (auto simp: memory_registry_def mem_register_def split: if_splits)
next
  case (5 s i now s' q)
  have "\<exists>u. s(i \<mapsto> a\<lparr>ag_last_heartbeat := h\<rparr>) = s(i \<mapsto> a\<lparr>ag_last_heartbeat := h, ag_updated_at := u\<rparr>)" for a :: agent and h
    by (rule exI [of _ "ag_updated_at a"]) simp
  then show ?case using 5 by (auto simp: memory_registry_def mem_heartbeat_def split: option.splits)
qed (auto simp: lists_keys_def memory_registry_def mem_update_status_def mem_get_by_uri_def split: option.splits)

text \<open>A row can be read back: its id, its card, its status and its times are texts the readers take, and the URI of the
  row is that of the card.\<close>

definition row_ok :: "registry_codec \<Rightarrow> uuid \<Rightarrow> agent_row \<Rightarrow> bool" where
  "row_ok x i row = (\<exists>a. row_to_agent x i row = Inr a \<and> cd_uri (ag_card a) = ar_uri row)"

definition table_ok :: "registry_codec \<Rightarrow> agents_table \<Rightarrow> bool" where
  "table_ok x t = ((\<forall>d. rg_parse_from_rfc3339 x (rg_to_rfc3339 x d) = Inr d) \<and> (\<forall>i row. t i = Some row \<longrightarrow> row_ok x i row))"

definition card_stored :: "registry_codec \<Rightarrow> agent_card_data \<Rightarrow> bool" where
  "card_stored x c = (\<exists>written. rg_card_to_string x c = Inr written \<and> rg_card_from_str x written = Inr c)"

definition table_view :: "registry_codec \<Rightarrow> agents_table \<Rightarrow> uuid \<rightharpoonup> agent" where
  "table_view x t i = Option.bind (t i) (\<lambda>row. case row_to_agent x i row of Inr a \<Rightarrow> Some a | Inl _ \<Rightarrow> None)"

lemma status_roundtrip [simp]: "str_to_status (status_to_str st) = Inr st"
  by (cases st) (simp_all add: str_to_status_def)

lemma parse_dt_now: "table_ok x t \<Longrightarrow> parse_dt x (rg_to_rfc3339 x now) = Inr now"
  by (simp add: table_ok_def parse_dt_def)

lemma table_view_Some: "table_ok x t \<Longrightarrow> t i = Some row \<Longrightarrow> \<exists>a. row_to_agent x i row = Inr a \<and> table_view x t i = Some a \<and> cd_uri (ag_card a) = ar_uri row"
  by (fastforce simp: table_ok_def row_ok_def table_view_def)

lemma table_view_None: "table_ok x t \<Longrightarrow> table_view x t i = None \<longleftrightarrow> t i = None"
  using table_view_Some by (cases "t i") (fastforce simp: table_view_def)+

lemma row_at_uri_view: "table_ok x t \<Longrightarrow> row_at_uri t uri i = at_uri (table_view x t) uri i"
  using table_view_Some [of x t i] by (cases "t i") (auto simp: row_at_uri_def at_uri_def table_view_def)

lemma table_update:
  assumes "table_ok x t" "row_to_agent x i row = Inr a" "cd_uri (ag_card a) = ar_uri row"
  shows "table_ok x (t(i \<mapsto> row))" "table_view x (t(i \<mapsto> row)) = (table_view x t)(i \<mapsto> a)"
  using assms by (auto simp: table_ok_def row_ok_def table_view_def)

lemma sql_register_law:
  assumes ok: "table_ok x t" and ids: "lists_keys ids t" and i: "t i = None" "rg_parse_uuid x i = Inr i" and c: "card_stored x c"
    and reg: "sql_register x ids i now c t = (t', r)"
  shows "table_ok x t' \<and> (if uri_taken (table_view x t) (cd_uri c) then table_view x t' = table_view x t \<and> (\<exists>err. r = Inl err)
     else table_view x t' = (table_view x t)(i \<mapsto> new_agent i now c) \<and> r = Inr i)"
proof -
  obtain written where written: "rg_card_to_string x c = Inr written" "rg_card_from_str x written = Inr c" using c by (auto simp: card_stored_def)
  have taken: "list_ex (row_at_uri t (cd_uri c)) ids = uri_taken (table_view x t) (cd_uri c)"
    using list_ex_lists_keys [of ids "table_view x t"] ids table_view_None [OF ok]
    by (simp add: row_at_uri_view [OF ok, abs_def] lists_keys_def dom_def)
  let ?row = "\<lparr>ar_uri = cd_uri c, ar_card_json = written, ar_status = ''registered'', ar_registered_at = rg_to_rfc3339 x now,
     ar_updated_at = rg_to_rfc3339 x now, ar_last_heartbeat = None\<rparr>"
  have "row_to_agent x i ?row = Inr (new_agent i now c)"
    using written(2) i(2) parse_dt_now [OF ok] by (simp add: row_to_agent_def str_to_status_def new_agent_def)
  then show ?thesis
    using reg written(1) taken i(1) ok table_update [OF ok, of i ?row] by (auto simp: sql_register_def new_agent_def split: if_splits)
qed

lemma row_status:
  assumes "row_to_agent x i row = Inr a" "parse_dt x now_text = Inr now"
  shows "row_to_agent x i (row\<lparr>ar_status := status_to_str st, ar_updated_at := now_text\<rparr>) = Inr (a\<lparr>ag_status := st, ag_updated_at := now\<rparr>)"
    and "row_to_agent x i (row\<lparr>ar_last_heartbeat := Some now_text, ar_updated_at := now_text\<rparr>) = Inr (a\<lparr>ag_last_heartbeat := Some now, ag_updated_at := now\<rparr>)"
  using assms by (auto simp: row_to_agent_def result_simps)

interpretation sql: agent_registry "sqlite_registry x" "table_ok x" lists_keys "\<lambda>i t. t i = None \<and> rg_parse_uuid x i = Inr i"
    "card_stored x" "table_view x"
  for x
proof (unfold_locales, goal_cases)
  case (1 s ids i a)
  then show ?case using table_view_None [of x s i] by (auto simp: lists_keys_def dom_def)
next
  case (2 i s)
  then show ?case by (simp add: table_view_def)
next
  case (3 s ids i c now s' r)
  then show ?case using sql_register_law [of x s ids i c now s' r] by (simp add: sqlite_registry_def)
next
  case (4 s i st now s' q)
  show ?case
  proof (cases "s i")
    case None
    then show ?thesis using 4 table_view_None [OF 4(1), of i] by (auto simp: sqlite_registry_def sql_update_status_def)
  next
    case (Some row)
    obtain a where a: "row_to_agent x i row = Inr a" "table_view x s i = Some a" "cd_uri (ag_card a) = ar_uri row"
      using table_view_Some [OF 4(1) Some] by blast
    show ?thesis
      using 4(2) Some a(2,3) table_update [OF 4(1) row_status(1) [OF a(1) parse_dt_now [OF 4(1)]]]
      by (auto simp: sqlite_registry_def sql_update_status_def)
  qed
next
  case (5 s i now s' q)
  show ?case
  proof (cases "s i")
    case None
    then show ?thesis using 5 table_view_None [OF 5(1), of i] by (auto simp: sqlite_registry_def sql_heartbeat_def)
  next
    case (Some row)
    obtain a where a: "row_to_agent x i row = Inr a" "table_view x s i = Some a" "cd_uri (ag_card a) = ar_uri row"
      using table_view_Some [OF 5(1) Some] by blast
    show ?thesis
      using 5(2) Some a(2,3) table_update [OF 5(1) row_status(2) [OF a(1) parse_dt_now [OF 5(1)]]]
      by (auto simp: sqlite_registry_def sql_heartbeat_def)
  qed
next
  case (6 s ids uri)
  have "read_row x s key = Inr (Option.bind key (table_view x s))" for key
    using table_view_Some [OF 6(1)] by (cases key) (fastforce simp: read_row_def table_view_def split: option.splits)+
  then show ?case using row_at_uri_view [OF 6(1), abs_def] by (simp add: sqlite_registry_def sql_get_by_uri_def)
qed

section \<open>The card an agent acts under\<close>

lemma fired_passed_card:
  assumes "guard_item g Fire now e node tenant ws nd payload scope item s = (s', GuardAllow)" and "r \<in> set (refs_of scope nd)"
    and "sc_registry scope = Some registry" and "registry r = Inr (Some (Some k))"
  shows "\<exists>gate gate'. check_card scope node nd payload r k gate = Inr gate'"
proof -
  obtain gate called plan where card: "agent_card g Fire now e node nd payload scope s = (s, Inr gate)" "callee scope (nd_kind nd) = Inr called"
    "plan_node g Fire now e node nd payload item (agents_of_node (cg_agents gate) called) s = (s, Inr plan)"
    "guard_policy g Fire now e node tenant ws nd payload gate (Option.bind plan pl_escalation) s = (s, GuardAllow)"
    "case plan of None \<Rightarrow> s' = s | Some p \<Rightarrow> admit (ge_sched g) now e node item p s = (s', GuardAllow)"
    by (rule guard_item_Fire_Allow [OF assms(1)])
  then have "card_allows scope node nd payload r" using agent_card_allows assms(2) by blast
  then show ?thesis using assms(3,4) by (auto simp: card_allows_def)
qed

lemma sqlite_agent_acts_under_its_card:
  assumes "table_ok x t" and "one_per_uri (table_view x t)"
    and "lists_keys ids t" and "t i = None \<and> rg_parse_uuid x i = Inr i" and "card_stored x c"
    and "sql_register x ids i now c t = (t', Inr k)"
    and "registry_run (sqlite_registry x) lists_keys (\<lambda>i t. t i = None \<and> rg_parse_uuid x i = Inr i) (card_stored x) t' u"
    and "lists_keys (order (cd_uri c)) u"
    and "sc_registry scope = Some (registry_constraints (sqlite_registry x) order u)" and "cd_constraints c = Some limits"
    and "cd_uri c \<in> set (refs_of scope nd)" and "guard_item g Fire clock e node tenant ws nd payload scope item s = (s', GuardAllow)"
  shows "\<exists>gate gate'. check_card scope node nd payload (cd_uri c) limits gate = Inr gate'"
proof -
  have "registry_constraints (sqlite_registry x) order u (cd_uri c) = Inr (Some (cd_constraints c))"
    using assms(6) by (intro sql.guard_reads_the_card [OF assms(1-5) _ assms(7), where order = order, OF _ assms(8)]) (simp add: sqlite_registry_def)
  then show ?thesis using fired_passed_card [OF assms(12,11,9)] assms(10) by simp
qed

text \<open>C30: an agent acts under the card it was registered with.  Once a card was accepted under a URI, then whatever
  cards are registered afterwards, whatever statuses and heartbeats are set and in whatever order the map is
  iterated, a node that fires for that URI has passed the tool lists, the delegation list and the approval list of that
  very card, and another card under the same URI is refused.\<close>

theorem agent_acts_under_its_card:
  assumes "one_per_uri m" and "lists_keys ids m" and "m i = None" and "mem_register ids i now c m = (m', Inr k)"
    and "registry_run memory_registry lists_keys (\<lambda>i m. m i = None) (\<lambda>_. True) m' u"
    and "lists_keys (order (cd_uri c)) u"
    and "sc_registry scope = Some (registry_constraints memory_registry order u)" and "cd_constraints c = Some limits"
    and "cd_uri c \<in> set (refs_of scope nd)" and "guard_item g Fire clock e node tenant ws nd payload scope item s = (s', GuardAllow)"
  shows "(\<exists>gate gate'. check_card scope node nd payload (cd_uri c) limits gate = Inr gate') \<and>
    (\<forall>ids' j later c'. lists_keys ids' u \<longrightarrow> u j = None \<longrightarrow> cd_uri c' = cd_uri c \<longrightarrow>
       mem_register ids' j later c' u = (u, Inl (''an agent is already registered at uri '' @ cd_uri c)))"
proof
  have reg: "ri_register memory_registry ids i now c m = (m', Inr k)" using assms(4) by (simp add: memory_registry_def)
  have "registry_constraints memory_registry order u (cd_uri c) = Inr (Some (cd_constraints c))"
    by (rule mem.guard_reads_the_card [OF TrueI assms(1-3) TrueI reg assms(5), where order = order, OF assms(6)])
  then show "\<exists>gate gate'. check_card scope node nd payload (cd_uri c) limits gate = Inr gate'"
    using fired_passed_card [OF assms(10,9,7)] assms(8) by simp
  show "\<forall>ids' j later c'. lists_keys ids' u \<longrightarrow> u j = None \<longrightarrow> cd_uri c' = cd_uri c \<longrightarrow>
       mem_register ids' j later c' u = (u, Inl (''an agent is already registered at uri '' @ cd_uri c))"
  proof (intro allI impI)
    fix ids' j later and c' :: agent_card_data
    assume that: "lists_keys ids' u" "u j = None" "cd_uri c' = cd_uri c"
    have "\<exists>err. snd (ri_register memory_registry ids' j later c' u) = Inl err"
      by (rule mem.second_card_refused [OF TrueI assms(1-3) TrueI reg assms(5) that(1,2) TrueI that(3)])
    then show "mem_register ids' j later c' u = (u, Inl (''an agent is already registered at uri '' @ cd_uri c))"
      using that(3) by (auto simp: memory_registry_def mem_register_def split: if_splits)
  qed
qed

definition bot_card :: agent_card_data where
  "bot_card = \<lparr>cd_id = ''b'', cd_uri = ''bot'', cd_name = ''Bot'', cd_description = [], cd_version = ''1'',
     cd_capabilities = \<lparr>cb_skills = [], cb_protocols = [], cb_tools_provided = [], cb_tools_consumed = []\<rparr>, cd_autonomy = Guided,
     cd_constraints = Some sample_card, cd_auth = AuthNone, cd_latency_class = None, cd_cost_class = None, cd_reasoning_modes = [], cd_labels = []\<rparr>"

lemma bot_registered: "mem_register [] ''i'' 0 bot_card (\<lambda>_. None) = ([''i'' \<mapsto> new_agent ''i'' 0 bot_card], Inr ''i'')"
  by (simp add: mem_register_def)

theorem agent_acts_under_its_card_witness:
  "\<exists>gate gate'. check_card (bot_scope\<lparr>sc_registry := Some (registry_constraints memory_registry (\<lambda>_. [''i'']) [''i'' \<mapsto> new_agent ''i'' 0 bot_card])\<rparr>)
     ''n'' free_tool JNull ''bot'' sample_card gate = Inr gate'"
proof -
  define u where "u = [''i'' \<mapsto> new_agent ''i'' 0 bot_card]"
  let ?scope = "bot_scope\<lparr>sc_registry := Some (registry_constraints memory_registry (\<lambda>_. [''i'']) u)\<rparr>"
  have c: "cd_uri bot_card = ''bot''" "cd_constraints bot_card = Some sample_card" by (simp_all add: bot_card_def)
  have ok: "one_per_uri (\<lambda>_. None)" "lists_keys [] (\<lambda>_. None)" "lists_keys [''i''] u"
    by (simp_all add: one_per_uri_def at_uri_def lists_keys_def u_def)
  have scope: "sc_workflow_agent ?scope = Some ''bot''" "sc_registry ?scope = Some (registry_constraints memory_registry (\<lambda>_. [''i'']) u)"
    "registry_constraints memory_registry (\<lambda>_. [''i'']) u ''bot'' = Inr (Some (Some sample_card))"
    by (simp_all add: bot_scope_def u_def registry_constraints_def memory_registry_def mem_get_by_uri_def at_uri_def new_agent_def c)
  note conjunct1 [OF agent_acts_under_its_card [where order = "\<lambda>_. [''i'']", OF ok(1,2) _ bot_registered [folded u_def] run_start ok(3) scope(2) c(2) _ bot_fires [OF scope]]]
  then show ?thesis using bot_stages(1) [OF scope] by (simp add: c u_def)
qed

section \<open>Where the routes and the registries differ\<close>

text \<open>The lifecycle is not asked: whatever status an agent has, one that is archived included, the route sets it active, a
  change that \<open>validate_transition\<close> refuses.\<close>

theorem archived_agent_is_reactivated:
  assumes "m i = Some ag" and "ap_parse_uuid a t = Some i"
  shows "\<exists>ag'. fst (activate_agent a memory_registry now t m) i = Some ag' \<and> ag_status ag' = AgentActive \<and>
    is_ok (snd (activate_agent a memory_registry now t m)) \<and> \<not> is_ok (agent_validate_transition AgentArchived AgentActive)"
  using assms by (simp add: activate_agent_def set_agent_status_def parse_agent_id_def memory_registry_def mem_update_status_def
      agent_validate_transition_def)

text \<open>A listing of the archived agents is the listing of all agents, over either registry.\<close>

theorem archived_filter_lists_all: "list_agents R ids (q\<lparr>lq_status := Some ''archived''\<rparr>) s = list_agents R ids (q\<lparr>lq_status := None\<rparr>) s"
  by (simp add: list_agents_def status_param_def)

lemma set_insert_desc: "set (insert_desc r rows) = insert r (set rows)"
  by (induction rows) auto

lemma set_order_desc [simp]: "set (order_desc rows) = set rows"
  by (induction rows) (simp_all add: order_desc_def set_insert_desc)

lemma insert_desc_sorted:
  "sorted_wrt (\<lambda>a b. ar_registered_at (snd b) \<le> ar_registered_at (snd a)) rows \<Longrightarrow>
   sorted_wrt (\<lambda>a b. ar_registered_at (snd b) \<le> ar_registered_at (snd a)) (insert_desc r rows)"
  by (induction rows) (auto simp: set_insert_desc)

lemma order_desc_sorted: "sorted_wrt (\<lambda>a b. ar_registered_at (snd b) \<le> ar_registered_at (snd a)) (order_desc rows)"
  by (induction rows) (simp_all add: order_desc_def insert_desc_sorted)

lemma read_rows_set: "read_rows x rows = Inr as \<Longrightarrow> set as = {a. \<exists>i row. (i, row) \<in> set rows \<and> row_to_agent x i row = Inr a}"
  by (induction x rows arbitrary: as rule: read_rows.induct) (fastforce simp: result_simps)+

lemma row_to_agent_status: "row_to_agent x i row = Inr a \<Longrightarrow> status_to_str (ag_status a) = ar_status row"
  by (auto simp: row_to_agent_def result_simps str_to_status_def split: if_splits)

text \<open>What the SQLite registry finds, the registry in memory finds on the same agents; the other direction holds only for
  filters written as the cards write the names, since the registry in memory ignores the case.\<close>

theorem sqlite_find_is_stricter:
  assumes "table_ok x t" and "lists_keys ids t" and "lists_keys ids' t" and "sql_find x ids f t = Inr found"
  shows "\<exists>found'. mem_find ids' f (table_view x t) = Inr found' \<and> set found \<subseteq> set found'"
proof -
  have "a \<in> set (filter (mem_matches f) (List.map_filter (table_view x t) ids'))" if a: "a \<in> set found" for a
  proof -
    obtain as where as: "read_rows x (order_desc (case af_status f of
          Some st \<Rightarrow> filter (\<lambda>(_, row). ar_status row = status_to_str st) (List.map_filter (\<lambda>i. map_option (Pair i) (t i)) ids)
        | None \<Rightarrow> List.map_filter (\<lambda>i. map_option (Pair i) (t i)) ids)) = Inr as" "a \<in> set as" "sql_matches f a"
      using assms(4) a by (auto simp: sql_find_def Let_def result_simps)
    then obtain i row where i: "t i = Some row" "row_to_agent x i row = Inr a" "\<forall>st. af_status f = Some st \<longrightarrow> ar_status row = status_to_str st"
      using read_rows_set [OF as(1)] by (auto simp: List.map_filter_def split: option.splits)
    have "table_view x t i = Some a" "i \<in> set ids'" using i(1,2) assms(3) by (auto simp: table_view_def lists_keys_def)
    moreover have "ag_status a = st" if "af_status f = Some st" for st
      using i(3) that row_to_agent_status [OF i(2)] status_roundtrip by (metis sum.inject(2))
    then have "mem_matches f a"
      using as(3) by (auto simp: mem_matches_def sql_matches_def eq_ignore_ascii_case_def list_ex_iff split: option.splits)
    ultimately show ?thesis by (force simp: List.map_filter_def)
  qed
  then show ?thesis by (auto simp: mem_find_def)
qed

end
