(* ===== verification/Agent_Tool.thy ===== *)
theory Agent_Tool
  imports Worker Agent_Registry
begin

text \<open>
  The executor of agent tools (\<^verbatim>\<open>runtime/workers/src/executors/agent_tool.rs\<close>), which calls a remote agent in one
  exchange, in a conversation or as a stream of lines of JSON.  The network is a parameter: what a request is answered
  with, and for a stream the pieces its bytes arrive in, the timeouts and the errors between them.  Shown: how the network
  splits a stream does not matter, and the reader of the stream agrees with the one that waits for the whole body.
\<close>

section \<open>The world of the executor\<close>

datatype 'a reply = SendFailed string | StatusError string string | Unreadable string | Answered 'a

datatype stream_item = IdleElapsed | NetError string | Data "nat list"

record tool_env =
  te_client :: "nat option \<Rightarrow> string + unit"
  te_post :: "nat \<Rightarrow> string \<Rightarrow> json \<Rightarrow> json reply"
  te_text :: "string \<Rightarrow> json \<Rightarrow> string reply"
  te_stream :: "string \<Rightarrow> json \<Rightarrow> stream_item list reply"
  te_to_string :: "json \<Rightarrow> string"
  te_from_str :: "string \<Rightarrow> json option"
  te_from_utf8 :: "nat list \<Rightarrow> string option"
  te_input_hash :: "string \<Rightarrow> string"
  te_elapsed :: nat
  te_now_ms :: "nat \<Rightarrow> nat"
  te_alive :: "nat \<Rightarrow> bool"

definition build_client :: "tool_env \<Rightarrow> nat option \<Rightarrow> string + unit" where
  "build_client v timeout_ms = (case te_client v timeout_ms of Inl e \<Rightarrow> Inl (''HTTP client: '' @ e) | Inr _ \<Rightarrow> Inr ())"

definition resolve_url :: "string \<Rightarrow> string \<Rightarrow> string + string" where
  "resolve_url agent_uri endpoint =
     (if starts_with ''https://'' agent_uri then Inr (trim_end_slashes agent_uri @ ''/'' @ endpoint)
      else Inl (''Cannot resolve '' @ [CHR 0x27] @ agent_uri @ [CHR 0x27] @
        '' to HTTP endpoint. Only https:// agent URIs are supported for remote invocation.''))"

section \<open>The payload\<close>

definition agent_uri_of :: "json \<Rightarrow> string option" where
  "agent_uri_of p =
     Option.bind (json_get p ''agent'') (\<lambda>a. case Option.bind (json_get a ''explicit'') as_str of Some u \<Rightarrow> Some u | None \<Rightarrow> as_str a)"

definition mode_of :: "json \<Rightarrow> string" where
  "mode_of p =
     (case json_get p ''mode'' of
        None \<Rightarrow> ''sync''
      | Some m \<Rightarrow>
          (case as_str m of
             Some t \<Rightarrow> t
           | None \<Rightarrow> if json_get m ''conversational'' \<noteq> None then ''conversational''
                     else if json_get m ''streaming'' \<noteq> None then ''streaming'' else ''sync''))"

definition streaming_mode_of :: "json \<Rightarrow> string" where
  "streaming_mode_of p =
     (case json_get p ''mode'' of
        None \<Rightarrow> ''sync''
      | Some m \<Rightarrow> (case as_str m of Some t \<Rightarrow> t | None \<Rightarrow> if json_get m ''streaming'' \<noteq> None then ''streaming'' else ''sync''))"

definition output_key_of :: "json \<Rightarrow> string" where
  "output_key_of p = (case Option.bind (json_get p ''output_key'') as_str of Some k \<Rightarrow> k | None \<Rightarrow> ''result'')"

definition timeout_ms_of :: "json \<Rightarrow> nat" where
  "timeout_ms_of p = (case Option.bind (json_get p ''timeout_ms'') as_u64 of Some t \<Rightarrow> t | None \<Rightarrow> 30000)"

definition idle_timeout_of :: "json \<Rightarrow> nat" where
  "idle_timeout_of p = (case Option.bind (json_get p ''idle_timeout_secs'') as_u64 of Some t \<Rightarrow> t | None \<Rightarrow> 30)"

definition input_of :: "json \<Rightarrow> json" where
  "input_of p = (case json_get p ''input'' of Some v \<Rightarrow> v | None \<Rightarrow> JObject [])"

definition max_cost_of :: "json \<Rightarrow> f64 option" where
  "max_cost_of p =
     (case Option.bind (Option.bind (json_get p ''budget'') (\<lambda>b. json_get b ''max_cost_usd'')) as_f64 of
        Some c \<Rightarrow> Some c
      | None \<Rightarrow> Option.bind (json_get p ''max_cost_usd'') as_f64)"

definition max_turns_of :: "json \<Rightarrow> nat" where
  "max_turns_of p =
     (case Option.bind (Option.bind (Option.bind (json_get p ''mode'') (\<lambda>m. json_get m ''conversational'')) (\<lambda>c. json_get c ''max_turns'')) as_u64 of
        Some n \<Rightarrow> n | None \<Rightarrow> 5)"

definition protocol_of :: "string \<Rightarrow> string" where
  "protocol_of agent_uri =
     (if starts_with ''https://'' agent_uri then ''a2a'' else if starts_with ''jamjet://'' agent_uri then ''local'' else ''mcp'')"

definition rpc :: "tool_env \<Rightarrow> string \<Rightarrow> json \<Rightarrow> json" where
  "rpc v rpc_method input =
     json_object [(''jsonrpc'', JString ''2.0''), (''method'', JString rpc_method),
       (''params'', json_object [(''message'', json_object [(''parts'', JArray [json_object [(''text'', JString (te_to_string v input))]])])])]"

section \<open>Events\<close>

text \<open>The last argument is what the stream adds to an event: the time of it.\<close>

definition invoked_event :: "work_item \<Rightarrow> string \<Rightarrow> string \<Rightarrow> string \<Rightarrow> json_members \<Rightarrow> json" where
  "invoked_event item agent_uri mode input_hash extra =
     json_object ([(''type'', JString ''agent_tool_invoked''), (''node_id'', JString (wi_node_id item)), (''agent_uri'', JString agent_uri),
       (''mode'', JString mode), (''protocol'', JString (protocol_of agent_uri)), (''input_hash'', JString input_hash)] @ extra)"

definition progress_event :: "work_item \<Rightarrow> nat \<Rightarrow> json \<Rightarrow> f64 \<Rightarrow> json_members \<Rightarrow> json" where
  "progress_event item chunk_index chunk cost extra =
     json_object ([(''type'', JString ''agent_tool_progress''), (''node_id'', JString (wi_node_id item)),
       (''chunk_index'', JNumber (PosInt chunk_index)), (''chunk'', chunk), (''accumulated_cost_usd'', f64_json cost)] @ extra)"

definition completed_event :: "work_item \<Rightarrow> json \<Rightarrow> f64 \<Rightarrow> nat \<Rightarrow> json_members \<Rightarrow> json" where
  "completed_event item output total_cost latency_ms extra =
     json_object ([(''type'', JString ''agent_tool_completed''), (''node_id'', JString (wi_node_id item)), (''output'', output),
       (''total_cost'', f64_json total_cost), (''latency_ms'', JNumber (PosInt latency_ms))] @ extra)"

definition terminated_event :: "work_item \<Rightarrow> string \<Rightarrow> f64 \<Rightarrow> nat \<Rightarrow> json_members \<Rightarrow> json" where
  "terminated_event item reason cost latency_ms extra =
     json_object ([(''type'', JString ''agent_tool_terminated''), (''node_id'', JString (wi_node_id item)), (''reason'', JString reason),
       (''accumulated_cost_usd'', f64_json cost), (''latency_ms'', JNumber (PosInt latency_ms))] @ extra)"

definition turn_event :: "work_item \<Rightarrow> nat \<Rightarrow> string \<Rightarrow> string \<Rightarrow> json \<Rightarrow> json" where
  "turn_event item turn direction field body =
     json_object [(''type'', JString ''agent_tool_turn''), (''node_id'', JString (wi_node_id item)), (''turn'', JNumber (PosInt turn)),
       (''direction'', JString direction), (field, body)]"

definition tool_result :: "tool_env \<Rightarrow> string \<Rightarrow> json \<Rightarrow> json \<Rightarrow> execution_result" where
  "tool_result v output_key output patch =
     \<lparr>er_output = json_object [(output_key, output)], er_state_patch = patch, er_duration_ms = te_elapsed v, er_gen_ai_system = None,
      er_gen_ai_model = None, er_input_tokens = None, er_output_tokens = None, er_finish_reason = None\<rparr>"

definition events_patch :: "json list \<Rightarrow> json" where
  "events_patch events = json_object [(''agent_tool_events'', JArray events)]"

section \<open>One exchange\<close>

definition execute_sync :: "tool_env \<Rightarrow> work_item \<Rightarrow> string \<Rightarrow> string \<Rightarrow> nat \<Rightarrow> json \<Rightarrow> string + execution_result" where
  "execute_sync v item agent_uri output_key timeout_ms input =
     and_then (build_client v (Some timeout_ms)) (\<lambda>_.
     and_then (resolve_url agent_uri ''tasks/send'') (\<lambda>task_url.
       (case te_post v 0 task_url (rpc v ''tasks/send'' input) of
          SendFailed e \<Rightarrow> Inl (''AgentTool invocation failed: '' @ e)
        | StatusError status body \<Rightarrow> Inl (''Agent returned error '' @ status @ '': '' @ body)
        | Unreadable e \<Rightarrow> Inl (''Failed to parse agent response: '' @ e)
        | Answered output \<Rightarrow>
            Inr (tool_result v output_key output (events_patch
              [invoked_event item agent_uri ''sync'' (te_input_hash v (te_to_string v input)) [],
               completed_event item output (Finite 0) (te_elapsed v) []])))))"

section \<open>A conversation\<close>

definition says_completed :: "json \<Rightarrow> bool" where
  "says_completed response = (Option.bind (json_get response ''status'') as_str = Some ''completed'')"

text \<open>The loop, from turn \<open>turn\<close> on, with the turns that are left.\<close>

fun hold_conversation ::
    "tool_env \<Rightarrow> work_item \<Rightarrow> string \<Rightarrow> nat \<Rightarrow> nat \<Rightarrow> json \<Rightarrow> json \<Rightarrow> json list \<Rightarrow> string + json \<times> json list" where
  "hold_conversation v item task_url 0 turn current_input final_output events = Inr (final_output, events)"
| "hold_conversation v item task_url (Suc left) turn current_input final_output events =
     (let events = events @ [turn_event item turn ''outbound'' ''input'' current_input]
      in (case te_post v turn task_url (rpc v ''tasks/send'' current_input) of
            SendFailed e \<Rightarrow> Inl (''AgentTool turn '' @ show_nat turn @ '' failed: '' @ e)
          | StatusError status body \<Rightarrow> Inl (''Agent returned error '' @ status @ '' on turn '' @ show_nat turn @ '': '' @ body)
          | Unreadable e \<Rightarrow> Inl (''Failed to parse agent response on turn '' @ show_nat turn @ '': '' @ e)
          | Answered response \<Rightarrow>
              (let events = events @ [turn_event item turn ''inbound'' ''output'' response]
               in if says_completed response then Inr (response, events)
                  else hold_conversation v item task_url left (turn + 1) (case json_get response ''output'' of Some next_input \<Rightarrow> next_input | None \<Rightarrow> response)
                         response events)))"

definition execute_conversational :: "tool_env \<Rightarrow> work_item \<Rightarrow> string \<Rightarrow> string \<Rightarrow> nat \<Rightarrow> json \<Rightarrow> string + execution_result" where
  "execute_conversational v item agent_uri output_key timeout_ms input =
     and_then (build_client v (Some timeout_ms)) (\<lambda>_.
     and_then (resolve_url agent_uri ''tasks/send'') (\<lambda>task_url.
     and_then (hold_conversation v item task_url (max_turns_of (wi_payload item)) 0 input JNull
                 [invoked_event item agent_uri ''conversational'' (te_input_hash v (te_to_string v input)) []]) (\<lambda>(final_output, events).
       Inr (tool_result v output_key final_output (events_patch (events @ [completed_event item final_output (Finite 0) (te_elapsed v) []]))))))"

section \<open>A body of lines\<close>

definition chunk_of :: "tool_env \<Rightarrow> string \<Rightarrow> json" where
  "chunk_of v line = (case te_from_str v line of Some chunk \<Rightarrow> chunk | None \<Rightarrow> json_object [(''raw'', JString line)])"

definition add_cost :: "json \<Rightarrow> f64 \<Rightarrow> f64" where
  "add_cost chunk cost = (case Option.bind (json_get chunk ''cost_usd'') as_f64 of Some c \<Rightarrow> f64_add cost c | None \<Rightarrow> cost)"

definition over_budget :: "f64 option \<Rightarrow> f64 \<Rightarrow> bool" where
  "over_budget max_cost_usd cost = (case max_cost_usd of Some budget \<Rightarrow> f64_lt budget cost | None \<Rightarrow> False)"

text \<open>\<^verbatim>\<open>str::lines\<close>: a last empty line is none, and a carriage return before the newline is dropped.\<close>

definition strip_cr :: "string \<Rightarrow> string" where
  "strip_cr l = (if l \<noteq> [] \<and> last l = CHR 0x0D then butlast l else l)"

definition str_lines :: "string \<Rightarrow> string list" where
  "str_lines t = (let ls = split_on (CHR 0x0A) t in map strip_cr (if last ls = [] then butlast ls else ls))"

record body_state =
  bs_events :: "json list"
  bs_cost :: f64
  bs_stopped :: bool
  bs_last :: json
  bs_index :: nat

fun read_lines :: "tool_env \<Rightarrow> work_item \<Rightarrow> f64 option \<Rightarrow> string list \<Rightarrow> body_state \<Rightarrow> body_state" where
  "read_lines v item max_cost_usd [] b = b"
| "read_lines v item max_cost_usd (line # rest) b =
     (let trimmed = trim line
      in if trimmed = [] then read_lines v item max_cost_usd rest b
         else
           (let chunk = chunk_of v trimmed; cost = add_cost chunk (bs_cost b);
                b = b\<lparr>bs_events := bs_events b @ [progress_event item (bs_index b) chunk cost []], bs_cost := cost, bs_last := chunk,
                      bs_index := bs_index b + 1\<rparr>
            in if over_budget max_cost_usd cost then b\<lparr>bs_stopped := True\<rparr> else read_lines v item max_cost_usd rest b))"

definition stream_ndjson :: "tool_env \<Rightarrow> work_item \<Rightarrow> string \<Rightarrow> string \<Rightarrow> nat \<Rightarrow> json \<Rightarrow> f64 option \<Rightarrow> string + execution_result" where
  "stream_ndjson v item agent_uri output_key timeout_ms input max_cost_usd =
     and_then (build_client v (Some timeout_ms)) (\<lambda>_.
     and_then (resolve_url agent_uri ''tasks/sendSubscribe'') (\<lambda>task_url.
       (case te_text v task_url (rpc v ''tasks/sendSubscribe'' input) of
          SendFailed e \<Rightarrow> Inl (''AgentTool streaming invocation failed: '' @ e)
        | StatusError status body \<Rightarrow> Inl (''Agent returned error '' @ status @ '': '' @ body)
        | Unreadable e \<Rightarrow> Inl (''Failed to read streaming response body: '' @ e)
        | Answered body \<Rightarrow>
            (let b = read_lines v item max_cost_usd (str_lines body)
                   \<lparr>bs_events = [invoked_event item agent_uri ''streaming'' (te_input_hash v (te_to_string v input)) []],
                    bs_cost = Finite 0, bs_stopped = False, bs_last = JNull, bs_index = 0\<rparr>;
                 final = (if bs_stopped b then terminated_event item ''budget_exceeded'' (bs_cost b) (te_elapsed v) []
                          else completed_event item (bs_last b) (bs_cost b) (te_elapsed v) [])
             in Inr (tool_result v output_key (bs_last b) (events_patch (bs_events b @ [final])))))))"

section \<open>Choosing the mode\<close>

definition execute_agent_tool :: "tool_env \<Rightarrow> work_item \<Rightarrow> executor_error + execution_result" where
  "execute_agent_tool v item =
     (let p = wi_payload item; fatal = (\<lambda>r. case r of Inl e \<Rightarrow> Inl (Fatal e) | Inr y \<Rightarrow> Inr y)
      in (case agent_uri_of p of
            None \<Rightarrow> Inl (Fatal (''AgentTool: missing '' @ [CHR 0x27] @ ''agent'' @ [CHR 0x27] @ '' URI in payload''))
          | Some agent_uri \<Rightarrow>
              if Option.bind (json_get p ''agent'') (\<lambda>a. json_get a ''auto'') \<noteq> None
              then Inl (Fatal (''AgentTool with '' @ [CHR 0x27] @ ''auto'' @ [CHR 0x27] @ '' target was not expanded at compile time. Use the compiler to expand '' @
                     [CHR 0x27] @ ''auto'' @ [CHR 0x27] @ '' into coordinator + agent_tool nodes.''))
              else if mode_of p = ''sync'' then fatal (execute_sync v item agent_uri (output_key_of p) (timeout_ms_of p) (input_of p))
              else if mode_of p = ''streaming''
              then fatal (stream_ndjson v item agent_uri (output_key_of p) (timeout_ms_of p) (input_of p) (max_cost_of p))
              else if mode_of p = ''conversational''
              then fatal (execute_conversational v item agent_uri (output_key_of p) (timeout_ms_of p) (input_of p))
              else Inl (Fatal (''Unknown agent_tool mode: '' @ [CHR 0x27] @ mode_of p @ [CHR 0x27]))))"

section \<open>A stream\<close>

text \<open>What was sent to the receiver and what it got, which tasks were cancelled, and how the loop ended: not yet, under the
  budget guard, or with an error.\<close>

record stream_state =
  ss_buf :: "nat list"
  ss_index :: nat
  ss_cost :: f64
  ss_task :: "string option"
  ss_last :: json
  ss_tries :: nat
  ss_sent :: "json list"
  ss_cancelled :: "string list"
  ss_stop :: "string option option"

definition stamped :: "tool_env \<Rightarrow> stream_state \<Rightarrow> json_members" where
  "stamped v st = [(''timestamp_ms'', JNumber (PosInt (te_now_ms v (ss_tries st))))]"

definition tx_send :: "tool_env \<Rightarrow> json \<Rightarrow> stream_state \<Rightarrow> stream_state \<times> bool" where
  "tx_send v ev st =
     (if te_alive v (ss_tries st) then (st\<lparr>ss_tries := ss_tries st + 1, ss_sent := ss_sent st @ [ev]\<rparr>, True)
      else (st\<lparr>ss_tries := ss_tries st + 1\<rparr>, False))"

text \<open>The URL of the cancellation resolves, because the one of the task did; what it is answered is not looked at.\<close>

definition send_a2a_cancel :: "stream_state \<Rightarrow> stream_state" where
  "send_a2a_cancel st = (case ss_task st of Some i \<Rightarrow> st\<lparr>ss_cancelled := ss_cancelled st @ [i]\<rparr> | None \<Rightarrow> st)"

text \<open>One complete line of the buffer.\<close>

definition on_chunk :: "tool_env \<Rightarrow> work_item \<Rightarrow> f64 option \<Rightarrow> json \<Rightarrow> stream_state \<Rightarrow> stream_state" where
  "on_chunk v item max_cost_usd chunk st =
     (let task = (case ss_task st of Some i \<Rightarrow> Some i | None \<Rightarrow> Option.bind (json_get chunk ''id'') as_str);
          cost = add_cost chunk (ss_cost st);
          event = progress_event item (ss_index st) chunk cost (stamped v st);
          st = st\<lparr>ss_last := chunk, ss_task := task, ss_cost := cost, ss_index := ss_index st + 1\<rparr>
      in (case tx_send v event st of
            (st, False) \<Rightarrow> (send_a2a_cancel st)\<lparr>ss_stop := Some (Some ''AgentTool stream receiver dropped'')\<rparr>
          | (st, True) \<Rightarrow>
              if over_budget max_cost_usd cost
              then (send_a2a_cancel (fst (tx_send v (terminated_event item ''budget_exceeded'' cost (te_elapsed v) (stamped v st)) st)))
                     \<lparr>ss_stop := Some None\<rparr>
              else st))"

definition on_line :: "tool_env \<Rightarrow> work_item \<Rightarrow> f64 option \<Rightarrow> nat list \<Rightarrow> stream_state \<Rightarrow> stream_state" where
  "on_line v item max_cost_usd line_bytes st =
     (case te_from_utf8 v line_bytes of
        None \<Rightarrow> st
      | Some line \<Rightarrow> if trim line = [] then st else on_chunk v item max_cost_usd (chunk_of v (trim line)) st)"

definition take_line :: "nat list \<Rightarrow> (nat list \<times> nat list) option" where
  "take_line buf = (if 10 \<in> set buf then Some (takeWhile (\<lambda>b. b \<noteq> 10) buf @ [10], drop 1 (dropWhile (\<lambda>b. b \<noteq> 10) buf)) else None)"

lemma take_line_shorter: "take_line buf = Some (line, rest) \<Longrightarrow> length rest < length buf"
proof -
  assume "take_line buf = Some (line, rest)"
  then have t: "10 \<in> set buf" "rest = drop 1 (dropWhile (\<lambda>b. b \<noteq> 10) buf)" by (auto simp: take_line_def split: if_splits)
  then have "dropWhile (\<lambda>b. b \<noteq> 10) buf \<noteq> []" by (auto simp: dropWhile_eq_Nil_conv)
  then have "length rest < length (dropWhile (\<lambda>b. b \<noteq> 10) buf)" using t(2) by (cases "dropWhile (\<lambda>b. b \<noteq> 10) buf") simp_all
  then show ?thesis using length_dropWhile_le [of "\<lambda>b. b \<noteq> 10" buf] by simp
qed

lemma on_line_buf [simp]: "ss_buf (on_line v item m line st) = ss_buf st"
  by (simp add: on_line_def on_chunk_def tx_send_def send_a2a_cancel_def Let_def split: option.split)

text \<open>The loop over the complete lines in the buffer.\<close>

function on_buffer :: "tool_env \<Rightarrow> work_item \<Rightarrow> f64 option \<Rightarrow> stream_state \<Rightarrow> stream_state" where
  "on_buffer v item max_cost_usd st =
     (case take_line (ss_buf st) of
        None \<Rightarrow> st
      | Some (line, rest) \<Rightarrow>
          (let st = on_line v item max_cost_usd line (st\<lparr>ss_buf := rest\<rparr>)
           in if ss_stop st \<noteq> None then st else on_buffer v item max_cost_usd st))"
  by pat_completeness auto
termination by (relation "measure (\<lambda>(_, _, _, st). length (ss_buf st))") (auto simp: take_line_shorter)

declare on_buffer.simps [simp del]

definition on_item :: "tool_env \<Rightarrow> work_item \<Rightarrow> f64 option \<Rightarrow> nat \<Rightarrow> stream_item \<Rightarrow> stream_state \<Rightarrow> stream_state" where
  "on_item v item max_cost_usd idle_timeout_secs it st =
     (case it of
        IdleElapsed \<Rightarrow>
          (send_a2a_cancel (fst (tx_send v (terminated_event item ''idle_timeout'' (ss_cost st) (te_elapsed v) (stamped v st)) st)))
            \<lparr>ss_stop := Some (Some (''AgentTool idle timeout after '' @ show_nat idle_timeout_secs @ ''s''))\<rparr>
      | NetError e \<Rightarrow>
          (fst (tx_send v (json_object ([(''type'', JString ''agent_tool_error''), (''node_id'', JString (wi_node_id item)),
                  (''error'', JString e)] @ stamped v st)) st))
            \<lparr>ss_stop := Some (Some (''AgentTool stream error: '' @ e))\<rparr>
      | Data bytes \<Rightarrow> on_buffer v item max_cost_usd (st\<lparr>ss_buf := ss_buf st @ bytes\<rparr>))"

text \<open>The end of the list is the end of the stream.\<close>

fun read_stream :: "tool_env \<Rightarrow> work_item \<Rightarrow> f64 option \<Rightarrow> nat \<Rightarrow> stream_item list \<Rightarrow> stream_state \<Rightarrow> stream_state" where
  "read_stream v item max_cost_usd idle_timeout_secs [] st = st"
| "read_stream v item max_cost_usd idle_timeout_secs (it # its) st =
     (let st = on_item v item max_cost_usd idle_timeout_secs it st
      in if ss_stop st \<noteq> None then st else read_stream v item max_cost_usd idle_timeout_secs its st)"

text \<open>What is left in the buffer when the stream has ended.\<close>

definition drain :: "tool_env \<Rightarrow> work_item \<Rightarrow> stream_state \<Rightarrow> stream_state" where
  "drain v item st =
     (if ss_stop st \<noteq> None \<or> ss_buf st = [] then st
      else (case te_from_utf8 v (ss_buf st) of
        None \<Rightarrow> st
      | Some remaining \<Rightarrow>
          if trim remaining = [] then st
          else
            (let chunk = chunk_of v (trim remaining); cost = add_cost chunk (ss_cost st)
             in fst (tx_send v (progress_event item (ss_index st) chunk cost (stamped v st)) (st\<lparr>ss_last := chunk, ss_cost := cost\<rparr>)))))"

definition stream_start :: stream_state where
  "stream_start = \<lparr>ss_buf = [], ss_index = 0, ss_cost = Finite 0, ss_task = None, ss_last = JNull, ss_tries = 0, ss_sent = [],
     ss_cancelled = [], ss_stop = None\<rparr>"

definition finish_stream :: "tool_env \<Rightarrow> work_item \<Rightarrow> stream_state \<Rightarrow> stream_state \<times> (executor_error + execution_result)" where
  "finish_stream v item st =
     (case ss_stop st of
        Some (Some e) \<Rightarrow> (st, Inl (Fatal e))
      | _ \<Rightarrow>
          (let st = (if ss_stop st = None
                     then fst (tx_send v (completed_event item (ss_last st) (ss_cost st) (te_elapsed v) (stamped v st)) st) else st)
           in (st, Inr (tool_result v (output_key_of (wi_payload item)) (ss_last st) (JObject [])))))"

text \<open>The body of an answer that breaks at once is a stream that begins with the error.\<close>

definition consume_stream :: "tool_env \<Rightarrow> work_item \<Rightarrow> stream_item list \<Rightarrow> stream_state \<Rightarrow> stream_state \<times> (executor_error + execution_result)" where
  "consume_stream v item items st =
     finish_stream v item (drain v item (read_stream v item (max_cost_of (wi_payload item)) (idle_timeout_of (wi_payload item)) items st))"

definition execute_streaming :: "tool_env \<Rightarrow> work_item \<Rightarrow> stream_state \<times> (executor_error + execution_result)" where
  "execute_streaming v item =
     (let p = wi_payload item; st = stream_start
      in (case agent_uri_of p of
            None \<Rightarrow> (st, Inl (Fatal (''AgentTool: missing '' @ [CHR 0x27] @ ''agent'' @ [CHR 0x27] @ '' URI in payload'')))
          | Some agent_uri \<Rightarrow>
              if streaming_mode_of p \<noteq> ''streaming'' then (st, execute_agent_tool v item)
              else (case build_client v None of
                Inl e \<Rightarrow> (st, Inl (Fatal e))
              | Inr _ \<Rightarrow>
                  (case tx_send v (invoked_event item agent_uri (streaming_mode_of p) (te_input_hash v (te_to_string v (input_of p))) (stamped v st)) st of
                     (st, False) \<Rightarrow> (st, Inl (Fatal ''Streaming receiver dropped before invocation event''))
                   | (st, True) \<Rightarrow>
                       (case resolve_url agent_uri ''tasks/sendSubscribe'' of
                          Inl e \<Rightarrow> (st, Inl (Fatal e))
                        | Inr task_url \<Rightarrow>
                            (case te_stream v task_url (rpc v ''tasks/sendSubscribe'' (input_of p)) of
                               SendFailed e \<Rightarrow> (st, Inl (Fatal (''AgentTool streaming invocation failed: '' @ e)))
                             | StatusError status body \<Rightarrow> (st, Inl (Fatal (''Agent returned error '' @ status @ '': '' @ body)))
                             | Unreadable e \<Rightarrow> consume_stream v item [NetError e] st
                             | Answered items \<Rightarrow> consume_stream v item items st))))))"

section \<open>The pieces of a stream\<close>

text \<open>The lines of a list of bytes that follow the beginning \<open>acc\<close> of a line, and what is left.\<close>

fun lines_of :: "nat list \<Rightarrow> nat list \<Rightarrow> nat list list \<times> nat list" where
  "lines_of [] acc = ([], acc)"
| "lines_of (b # bs) acc = (if b = 10 then (case lines_of bs [] of (ls, r) \<Rightarrow> ((acc @ [10]) # ls, r)) else lines_of bs (acc @ [b]))"

lemma lines_of_append:
  "fst (lines_of (xs @ ys) acc) = fst (lines_of xs acc) @ fst (lines_of ys (snd (lines_of xs acc)))"
  "snd (lines_of (xs @ ys) acc) = snd (lines_of ys (snd (lines_of xs acc)))"
  by (induction xs acc rule: lines_of.induct) (auto simp: split_beta)

lemma lines_of_no_newline: "10 \<notin> set xs \<Longrightarrow> lines_of (xs @ ys) acc = lines_of ys (acc @ xs)"
  by (induction xs arbitrary: acc) auto

lemma lines_of_rest: "10 \<notin> set acc \<Longrightarrow> 10 \<notin> set (snd (lines_of xs acc))"
  by (induction xs acc rule: lines_of.induct) (auto split: prod.split)

lemma lines_of_take_line:
  "take_line buf = None \<Longrightarrow> lines_of buf [] = ([], buf)"
  "take_line buf = Some (line, rest) \<Longrightarrow> lines_of buf [] = (line # fst (lines_of rest []), snd (lines_of rest []))"
proof -
  assume "take_line buf = None"
  then show "lines_of buf [] = ([], buf)" using lines_of_no_newline [of buf "[]" "[]"] by (auto simp: take_line_def split: if_splits)
next
  assume "take_line buf = Some (line, rest)"
  then have t: "10 \<in> set buf" "line = takeWhile (\<lambda>b. b \<noteq> 10) buf @ [10]" "rest = drop 1 (dropWhile (\<lambda>b. b \<noteq> 10) buf)"
    by (auto simp: take_line_def split: if_splits)
  then obtain a b where ab: "buf = a @ 10 # b" "10 \<notin> set a" by (meson split_list_first)
  then have "takeWhile (\<lambda>b. b \<noteq> 10) buf = a" "dropWhile (\<lambda>b. b \<noteq> 10) buf = 10 # b"
    by (auto simp: takeWhile_append dropWhile_append)
  then show "lines_of buf [] = (line # fst (lines_of rest []), snd (lines_of rest []))"
    using t ab lines_of_no_newline [OF ab(2), of "10 # b" "[]"] by (simp split: prod.split)
qed

fun run_lines :: "tool_env \<Rightarrow> work_item \<Rightarrow> f64 option \<Rightarrow> nat list list \<Rightarrow> stream_state \<Rightarrow> stream_state" where
  "run_lines v item m [] st = st"
| "run_lines v item m (l # ls) st = (let st = on_line v item m l st in if ss_stop st \<noteq> None then st else run_lines v item m ls st)"

lemma run_lines_append:
  "run_lines v item m (ls @ ls') st = (let st = run_lines v item m ls st in if ss_stop st \<noteq> None then st else run_lines v item m ls' st)"
  if "ss_stop st = None"
  using that by (induction ls arbitrary: st) (auto simp: Let_def)

lemma on_line_set_buf: "on_line v item m l (st\<lparr>ss_buf := b\<rparr>) = (on_line v item m l st)\<lparr>ss_buf := b\<rparr>"
  by (simp add: on_line_def on_chunk_def tx_send_def send_a2a_cancel_def stamped_def Let_def split: option.split)

lemma run_lines_set_buf: "run_lines v item m ls (st\<lparr>ss_buf := b\<rparr>) = (run_lines v item m ls st)\<lparr>ss_buf := b\<rparr>"
  by (induction ls arbitrary: st) (simp_all add: Let_def on_line_set_buf)

text \<open>The loop over the buffer handles its complete lines, and leaves what is not one.\<close>

lemma on_buffer_run:
  "ss_stop st = None \<Longrightarrow> \<exists>b. on_buffer v item m st = (run_lines v item m (fst (lines_of (ss_buf st) [])) st)\<lparr>ss_buf := b\<rparr> \<and>
     (ss_stop (on_buffer v item m st) = None \<longrightarrow> b = snd (lines_of (ss_buf st) []))"
proof (induction v item m st rule: on_buffer.induct)
  case (1 v item m st)
  show ?case
  proof (cases "take_line (ss_buf st)")
    case None
    then show ?thesis by (subst (1 2) on_buffer.simps) (auto simp: lines_of_take_line(1) intro!: exI [of _ "ss_buf st"])
  next
    case (Some lr)
    obtain line rest where lr: "lr = (line, rest)" by fastforce
    let ?st = "on_line v item m line (st\<lparr>ss_buf := rest\<rparr>)"
    have cut: "lines_of (ss_buf st) [] = (line # fst (lines_of rest []), snd (lines_of rest []))" using lines_of_take_line(2) Some lr by simp
    show ?thesis
    proof (cases "ss_stop ?st")
      case None
      then have "\<exists>b. on_buffer v item m ?st = (run_lines v item m (fst (lines_of (ss_buf ?st) [])) ?st)\<lparr>ss_buf := b\<rparr> \<and>
          (ss_stop (on_buffer v item m ?st) = None \<longrightarrow> b = snd (lines_of (ss_buf ?st) []))"
        using 1(1) [OF Some, of line rest ?st] lr by simp
      then obtain b where b: "on_buffer v item m ?st = (run_lines v item m (fst (lines_of rest [])) ?st)\<lparr>ss_buf := b\<rparr>"
          "ss_stop (on_buffer v item m ?st) = None \<longrightarrow> b = snd (lines_of rest [])"
        by auto
      have "on_buffer v item m st = on_buffer v item m ?st" using Some lr None by (subst on_buffer.simps) simp
      moreover have "run_lines v item m (fst (lines_of (ss_buf st) [])) st = run_lines v item m (fst (lines_of rest [])) (on_line v item m line st)"
        using None by (simp add: cut on_line_set_buf)
      ultimately show ?thesis using b by (auto simp: cut on_line_set_buf run_lines_set_buf intro!: exI [of _ b])
    next
      case (Some e)
      have "on_buffer v item m st = ?st" using \<open>take_line (ss_buf st) = Some lr\<close> lr Some by (subst on_buffer.simps) simp
      moreover have "run_lines v item m (fst (lines_of (ss_buf st) [])) st = on_line v item m line st"
        using Some by (simp add: cut on_line_set_buf)
      ultimately show ?thesis using Some by (auto simp: on_line_set_buf intro!: exI [of _ rest])
    qed
  qed
qed

lemma read_stream_run:
  "ss_stop st = None \<Longrightarrow> 10 \<notin> set (ss_buf st) \<Longrightarrow>
   \<exists>b. read_stream v item m idle (map Data cs) st = (run_lines v item m (fst (lines_of (concat cs) (ss_buf st))) st)\<lparr>ss_buf := b\<rparr> \<and>
     (ss_stop (read_stream v item m idle (map Data cs) st) = None \<longrightarrow> b = snd (lines_of (concat cs) (ss_buf st)))"
proof (induction cs arbitrary: st)
  case Nil
  then show ?case by (auto intro!: exI [of _ "ss_buf st"])
next
  case (Cons c cs)
  let ?st = "on_buffer v item m (st\<lparr>ss_buf := ss_buf st @ c\<rparr>)"
  have c: "lines_of (ss_buf st @ c) [] = lines_of c (ss_buf st)" using lines_of_no_newline [OF Cons.prems(2), of c "[]"] by simp
  then obtain b where b: "?st = (run_lines v item m (fst (lines_of c (ss_buf st))) st)\<lparr>ss_buf := b\<rparr>"
      "ss_stop ?st = None \<longrightarrow> b = snd (lines_of c (ss_buf st))"
    using on_buffer_run [of "st\<lparr>ss_buf := ss_buf st @ c\<rparr>" v item m] Cons.prems(1) by (auto simp: run_lines_set_buf)
  show ?case
  proof (cases "ss_stop ?st")
    case None
    then have r: "b = snd (lines_of c (ss_buf st))" "10 \<notin> set b" using b(2) lines_of_rest [OF Cons.prems(2)] by simp_all
    from None r(2) Cons.IH [of ?st] b(1) obtain b' where
      "read_stream v item m idle (map Data cs) ?st = (run_lines v item m (fst (lines_of (concat cs) b)) ?st)\<lparr>ss_buf := b'\<rparr>"
      "ss_stop (read_stream v item m idle (map Data cs) ?st) = None \<longrightarrow> b' = snd (lines_of (concat cs) b)" by auto
    moreover have "run_lines v item m (fst (lines_of (c @ concat cs) (ss_buf st))) st =
        run_lines v item m (fst (lines_of (concat cs) b)) (run_lines v item m (fst (lines_of c (ss_buf st))) st)"
      using None b(1) r(1) Cons.prems(1) by (simp add: lines_of_append run_lines_append Let_def)
    ultimately show ?thesis
      using None r(1) by (auto simp: on_item_def b(1) run_lines_set_buf lines_of_append intro!: exI [of _ b'])
  next
    case (Some e)
    then have "run_lines v item m (fst (lines_of (c @ concat cs) (ss_buf st))) st = run_lines v item m (fst (lines_of c (ss_buf st))) st"
      using b(1) Cons.prems(1) by (simp add: lines_of_append run_lines_append Let_def)
    then show ?thesis using Some b(1) by (auto simp: on_item_def intro!: exI [of _ b])
  qed
qed

lemma read_stream_append:
  "ss_stop st = None \<Longrightarrow> read_stream v item m idle (its @ its') st =
     (let st = read_stream v item m idle its st in if ss_stop st \<noteq> None then st else read_stream v item m idle its' st)"
  by (induction its arbitrary: st) (auto simp: Let_def)

lemma finish_stream_set_buf: "finish_stream v item (st\<lparr>ss_buf := b\<rparr>) = apfst (\<lambda>st. st\<lparr>ss_buf := b\<rparr>) (finish_stream v item st)"
  by (simp add: finish_stream_def tx_send_def stamped_def Let_def split: option.split)

text \<open>C16: how the network splits the bytes of an answer does not matter: two streams that carry the same bytes, in
  whatever pieces and cut in the middle of lines or characters, and go on in the same way, give the executor the
  same result, send the receiver the same events and cancel the same tasks.\<close>

theorem stream_split_is_immaterial:
  assumes "concat cs = concat ds" and "ss_stop st = None" and "ss_buf st = []"
  shows "snd (consume_stream v item (map Data cs @ tail) st) = snd (consume_stream v item (map Data ds @ tail) st) \<and>
    ss_sent (fst (consume_stream v item (map Data cs @ tail) st)) = ss_sent (fst (consume_stream v item (map Data ds @ tail) st)) \<and>
    ss_cancelled (fst (consume_stream v item (map Data cs @ tail) st)) = ss_cancelled (fst (consume_stream v item (map Data ds @ tail) st))"
proof -
  let ?read = "\<lambda>its. read_stream v item (max_cost_of (wi_payload item)) (idle_timeout_of (wi_payload item)) its st"
  let ?run = "run_lines v item (max_cost_of (wi_payload item)) (fst (lines_of (concat ds) [])) st"
  obtain b where b: "?read (map Data cs) = ?run\<lparr>ss_buf := b\<rparr>" "ss_stop ?run = None \<longrightarrow> b = snd (lines_of (concat ds) [])"
    using read_stream_run [of st v item _ _ cs] assms by fastforce
  obtain d where d: "?read (map Data ds) = ?run\<lparr>ss_buf := d\<rparr>" "ss_stop ?run = None \<longrightarrow> d = snd (lines_of (concat ds) [])"
    using read_stream_run [of st v item _ _ ds] assms by fastforce
  show ?thesis
  proof (cases "ss_stop ?run")
    case None
    then have "?read (map Data cs) = ?read (map Data ds)" using b d by simp
    then show ?thesis using assms(2) by (simp add: consume_stream_def read_stream_append)
  next
    case (Some e)
    then show ?thesis using b(1) d(1) assms(2) by (simp add: consume_stream_def read_stream_append drain_def finish_stream_set_buf)
  qed
qed

text \<open>A world to try it in: texts are read as UTF-8, no line is JSON, and nobody answers.\<close>

fun utf8_decode :: "nat list \<Rightarrow> string option" where
  "utf8_decode [] = Some []"
| "utf8_decode (b # bs) =
     (if b < 128 then map_option ((#) (char_of b)) (utf8_decode bs)
      else (case bs of c # cs \<Rightarrow> map_option ((#) (char_of ((b - 192) * 64 + (c - 128)))) (utf8_decode cs) | [] \<Rightarrow> None))"

definition sample_tool_env :: tool_env where
  "sample_tool_env = \<lparr>te_client = (\<lambda>_. Inr ()), te_post = (\<lambda>_ _ _. SendFailed ''refused''), te_text = (\<lambda>_ _. SendFailed ''refused''),
     te_stream = (\<lambda>_ _. SendFailed ''refused''), te_to_string = (\<lambda>_. []), te_from_str = (\<lambda>_. None), te_from_utf8 = utf8_decode,
     te_input_hash = (\<lambda>_. []), te_elapsed = 0, te_now_ms = (\<lambda>n. n), te_alive = (\<lambda>_. True)\<rparr>"

theorem stream_split_is_immaterial_witness:
  "snd (consume_stream sample_tool_env sample_item (map Data [[120], [121, 10], [122, 10]] @ [NetError ''reset'']) stream_start) =
   snd (consume_stream sample_tool_env sample_item (map Data [[120, 121, 10, 122], [10]] @ [NetError ''reset'']) stream_start)"
  using stream_split_is_immaterial [of "[[120], [121, 10], [122, 10]]" "[[120, 121, 10, 122], [10]]" stream_start sample_tool_env sample_item "[NetError ''reset'']"]
  by (simp add: stream_start_def)

section \<open>The stream and the body\<close>

lemma trim_snoc: "is_whitespace c \<Longrightarrow> trim (l @ [c]) = trim l"
proof (cases "\<forall>x \<in> set l. is_whitespace x")
  case True
  assume "is_whitespace c"
  then have d: "dropWhile is_whitespace l = []" "dropWhile is_whitespace (l @ [c]) = []" using True unfolding dropWhile_eq_Nil_conv by simp_all
  show ?thesis unfolding trim_def d ..
qed (auto simp: trim_def dropWhile_append)

lemma trim_strip_cr [simp]: "trim (strip_cr l) = trim l"
proof (cases "l \<noteq> [] \<and> last l = CHR 0x0D")
  case True
  then have "l = butlast l @ [CHR 0x0D]" by (metis append_butlast_last_id)
  moreover have "is_whitespace (CHR 0x0D)" by (simp add: is_whitespace_def)
  ultimately show ?thesis using True trim_snoc by (metis strip_cr_def)
qed (auto simp: strip_cr_def)

lemma utf8_Cons: "utf8 (c # t) = utf8_char c @ utf8 t"
  by (simp add: utf8_def)

lemma utf8_newline: "utf8 [CHR 0x0A] = [10]"
  by (simp add: utf8_def utf8_char_def)

lemma utf8_append: "utf8 (s @ t) = utf8 s @ utf8 t"
  by (simp add: utf8_def)

lemma utf8_char_newline: "c \<noteq> CHR 0x0A \<Longrightarrow> 10 \<notin> set (utf8_char c)"
proof -
  assume "c \<noteq> CHR 0x0A"
  moreover have "(of_char (CHR 0x0A) :: nat) = 10" by simp
  ultimately have "of_char c \<noteq> (10 :: nat)" by (metis of_char_eq_iff)
  then show ?thesis by (auto simp: utf8_char_def Let_def)
qed

lemma lines_of_utf8:
  "lines_of (utf8 t) acc =
     (case split_on (CHR 0x0A) t of
        [w] \<Rightarrow> ([], acc @ utf8 w)
      | w # ws \<Rightarrow> ((acc @ utf8 w @ [10]) # map (\<lambda>l. utf8 l @ [10]) (butlast ws), utf8 (last ws)))"
proof (induction t arbitrary: acc)
  case Nil
  then show ?case by (simp add: utf8_def)
next
  case (Cons c t)
  obtain w ws where w: "split_on (CHR 0x0A) t = w # ws" by (cases "split_on (CHR 0x0A) t") auto
  show ?case
  proof (cases "c = CHR 0x0A")
    case True
    then have "utf8 (c # t) = 10 # utf8 t" by (simp add: utf8_Cons utf8_char_def)
    then show ?thesis using Cons [of "[]"] True w by (cases ws) (simp_all add: utf8_def)
  next
    case False
    then have "lines_of (utf8 (c # t)) acc = lines_of (utf8 t) (acc @ utf8_char c)"
      using lines_of_no_newline [OF utf8_char_newline] by (simp add: utf8_Cons)
    then show ?thesis using Cons [of "acc @ utf8_char c"] False w by (cases ws) (simp_all add: utf8_Cons)
  qed
qed

lemma lines_of_text:
  "lines_of (utf8 t) [] = (map (\<lambda>l. utf8 l @ [10]) (butlast (split_on (CHR 0x0A) t)), utf8 (last (split_on (CHR 0x0A) t)))"
  by (cases "split_on (CHR 0x0A) t"; cases "tl (split_on (CHR 0x0A) t)") (auto simp: lines_of_utf8)

lemma read_lines_append:
  "\<not> bs_stopped b \<Longrightarrow> read_lines v item m (ls @ ls') b =
     (let b = read_lines v item m ls b in if bs_stopped b then b else read_lines v item m ls' b)"
  by (induction ls arbitrary: b) (auto simp: Let_def)

text \<open>A state of the stream against a state of the other reader.\<close>

definition in_step :: "stream_state \<Rightarrow> body_state \<Rightarrow> bool" where
  "in_step st b = (ss_last st = bs_last b \<and> ss_cost st = bs_cost b \<and> ss_index st = bs_index b \<and>
     ss_stop st = (if bs_stopped b then Some None else None))"

lemma on_line_in_step:
  assumes "\<And>t. te_from_utf8 v (utf8 t) = Some t" and "\<And>n. te_alive v n" and "in_step st b" and "\<not> bs_stopped b"
  shows "in_step (on_line v item m (utf8 l @ [10]) st) (read_lines v item m [strip_cr l] b)"
proof -
  have "te_from_utf8 v (utf8 l @ [10]) = Some (l @ [CHR 0x0A])" using assms(1) [of "l @ [CHR 0x0A]"] by (simp add: utf8_append utf8_newline)
  moreover have "trim (l @ [CHR 0x0A]) = trim l" by (rule trim_snoc) (simp add: is_whitespace_def)
  ultimately show ?thesis
    using assms(2-4) by (auto simp: on_line_def on_chunk_def tx_send_def send_a2a_cancel_def in_step_def Let_def split: option.split)
qed

lemma run_lines_in_step:
  assumes "\<And>t. te_from_utf8 v (utf8 t) = Some t" and "\<And>n. te_alive v n" and "in_step st b" and "\<not> bs_stopped b"
  shows "in_step (run_lines v item m (map (\<lambda>l. utf8 l @ [10]) ls) st) (read_lines v item m (map strip_cr ls) b)"
  using assms(3,4)
proof (induction ls arbitrary: st b)
  case (Cons l ls)
  let ?st = "on_line v item m (utf8 l @ [10]) st" and ?b = "read_lines v item m [strip_cr l] b"
  have s: "in_step ?st ?b" by (rule on_line_in_step [OF assms(1,2) Cons.prems])
  have b: "read_lines v item m (map strip_cr (l # ls)) b = (if bs_stopped ?b then ?b else read_lines v item m (map strip_cr ls) ?b)"
    using read_lines_append [OF Cons.prems(2), of v item m "[strip_cr l]" "map strip_cr ls"] by (simp add: Let_def del: read_lines.simps)
  show ?case
  proof (cases "bs_stopped ?b")
    case True
    then show ?thesis using s unfolding b by (simp add: in_step_def Let_def del: read_lines.simps)
  next
    case False
    then show ?thesis using s Cons.IH [OF s False] unfolding b by (simp add: in_step_def Let_def del: read_lines.simps)
  qed
qed (simp add: in_step_def)

text \<open>C39: The reader of the stream and the reader of the whole body agree.  For every body of text, in whatever pieces its
  bytes arrive, as long as the receiver of the events listens and the stream brings neither an error nor an idle
  timeout: when both start from the same chunk, cost and count of chunks, with nothing in the buffer and neither of
  them stopped, both end with the same last chunk, which is the output of the node, and the same accumulated cost, under the
  budget guard as well.  The decoder is assumed to read back the bytes of a text.\<close>

theorem stream_agrees_with_body:
  assumes "\<And>t. te_from_utf8 v (utf8 t) = Some t" and "\<And>n. te_alive v n" and "concat cs = utf8 body"
    and "in_step st b" and "\<not> bs_stopped b" and "ss_buf st = []"
  shows "ss_last (drain v item (read_stream v item m idle (map Data cs) st)) = bs_last (read_lines v item m (str_lines body) b) \<and>
    ss_cost (drain v item (read_stream v item m idle (map Data cs) st)) = bs_cost (read_lines v item m (str_lines body) b)"
proof -
  let ?ls = "split_on (CHR 0x0A) body"
  let ?run = "run_lines v item m (map (\<lambda>l. utf8 l @ [10]) (butlast ?ls)) st" and ?b = "read_lines v item m (map strip_cr (butlast ?ls)) b"
  have stop: "ss_stop st = None" using assms(4,5) by (simp add: in_step_def)
  obtain r where r: "read_stream v item m idle (map Data cs) st = ?run\<lparr>ss_buf := r\<rparr>" "ss_stop ?run = None \<longrightarrow> r = utf8 (last ?ls)"
    using read_stream_run [OF stop, of v item m idle cs] assms(3,6) by (auto simp: lines_of_text)
  have step: "in_step ?run ?b" by (rule run_lines_in_step [OF assms(1,2,4,5)])
  have "read_lines v item m (str_lines body) b = (if bs_stopped ?b then ?b else read_lines v item m [strip_cr (last ?ls)] ?b)"
  proof -
    have "map strip_cr ?ls = map strip_cr (butlast ?ls @ [last ?ls])" by simp
    also have "\<dots> = map strip_cr (butlast ?ls) @ [strip_cr (last ?ls)]" by (simp only: map_append list.map)
    finally have "read_lines v item m (map strip_cr ?ls) b = (if bs_stopped ?b then ?b else read_lines v item m [strip_cr (last ?ls)] ?b)"
      using read_lines_append [OF assms(5), of v item m "map strip_cr (butlast ?ls)" "[strip_cr (last ?ls)]"]
      by (simp only: Let_def)
    moreover have "last ?ls = [] \<Longrightarrow> read_lines v item m [strip_cr (last ?ls)] ?b = ?b" by (simp add: strip_cr_def)
    ultimately show ?thesis by (auto simp: str_lines_def Let_def simp del: read_lines.simps)
  qed
  note body = this
  show ?thesis
  proof (cases "bs_stopped ?b")
    case True
    then have "ss_stop ?run = Some None" using step by (simp add: in_step_def)
    then show ?thesis using True step unfolding body r(1) by (simp add: in_step_def drain_def del: read_lines.simps)
  next
    case False
    then have n: "ss_stop ?run = None" using step by (simp add: in_step_def)
    then have "drain v item (?run\<lparr>ss_buf := r\<rparr>) = (if r = [] \<or> trim (last ?ls) = [] then ?run\<lparr>ss_buf := r\<rparr>
        else (let chunk = chunk_of v (trim (last ?ls)); cost = add_cost chunk (ss_cost ?run); st = ?run\<lparr>ss_buf := r\<rparr>
              in fst (tx_send v (progress_event item (ss_index st) chunk cost (stamped v st)) (st\<lparr>ss_last := chunk, ss_cost := cost\<rparr>))))"
      using r(2) assms(1) [of "last ?ls"] by (simp add: drain_def Let_def)
    moreover have "r = [] \<Longrightarrow> trim (last ?ls) = []" using r(2) n utf8_inj [of "last ?ls" "[]"] by (simp add: utf8_def)
    ultimately show ?thesis using False step unfolding body r(1) by (auto simp: in_step_def tx_send_def Let_def)
  qed
qed

lemma utf8_decode_utf8: "utf8_decode (utf8 t) = Some t"
proof (induction t)
  case (Cons c t)
  have "(128 + of_char c mod 64 - 128 :: nat) + (192 + of_char c div 64 - 192) * 64 = of_char c" by simp
  then show ?case using Cons by (auto simp: utf8_Cons utf8_char_def Let_def add.commute)
qed (simp add: utf8_def)

theorem stream_agrees_with_body_witness:
  "ss_last (drain sample_tool_env sample_item (read_stream sample_tool_env sample_item None 30 (map Data [[120], [10, 121]]) stream_start)) =
   bs_last (read_lines sample_tool_env sample_item None (str_lines [CHR 120, CHR 0x0A, CHR 121])
     \<lparr>bs_events = [], bs_cost = Finite 0, bs_stopped = False, bs_last = JNull, bs_index = 0\<rparr>)"
proof (rule conjunct1 [OF stream_agrees_with_body])
  show "te_from_utf8 sample_tool_env (utf8 t) = Some t" for t by (simp add: sample_tool_env_def utf8_decode_utf8)
qed (simp_all add: sample_tool_env_def utf8_def utf8_char_def in_step_def stream_start_def)

text \<open>The reader of the stream does not compare the cost of a last line that has no newline: where the other reader stops
  under the budget guard, it completes.\<close>

lemma last_line_escapes_budget:
  assumes "te_from_utf8 v (utf8 t) = Some t" and "trim t \<noteq> []" and "CHR 0x0A \<notin> set t"
    and "over_budget m (add_cost (chunk_of v (trim t)) (bs_cost b))" and "in_step st b" and "\<not> bs_stopped b" and "ss_buf st = []"
  shows "bs_stopped (read_lines v item m (str_lines t) b) \<and> ss_stop (drain v item (read_stream v item m idle [Data (utf8 t)] st)) = None \<and>
    over_budget m (ss_cost (drain v item (read_stream v item m idle [Data (utf8 t)] st)))"
proof -
  have ls: "split_on (CHR 0x0A) t = [t]" using split_on_id [OF assms(3)] .
  have stop: "ss_stop st = None" using assms(5,6) by (simp add: in_step_def)
  have t: "t \<noteq> []" using assms(2) by auto
  obtain r where r: "read_stream v item m idle [Data (utf8 t)] st = st\<lparr>ss_buf := r\<rparr>" "r = utf8 t"
    using read_stream_run [OF stop, of v item m idle "[utf8 t]"] assms(7) stop by (auto simp: lines_of_text ls)
  have "utf8 t \<noteq> []" using t utf8_inj [of t "[]"] by (auto simp: utf8_def)
  then have d: "drain v item (st\<lparr>ss_buf := r\<rparr>) = fst (tx_send v (progress_event item (ss_index st) (chunk_of v (trim t)) (add_cost (chunk_of v (trim t)) (ss_cost st))
      (stamped v (st\<lparr>ss_buf := r\<rparr>))) (st\<lparr>ss_buf := r, ss_last := chunk_of v (trim t), ss_cost := add_cost (chunk_of v (trim t)) (ss_cost st)\<rparr>))"
    using assms(1,2) r(2) stop by (simp add: drain_def Let_def)
  have "ss_cost st = bs_cost b" using assms(5) by (simp add: in_step_def)
  moreover have "bs_stopped (read_lines v item m (str_lines t) b)"
    using assms(2,4) t by (simp add: str_lines_def ls Let_def)
  ultimately show ?thesis using assms(4) stop unfolding r(1) d by (simp add: tx_send_def)
qed

section \<open>The conversation ends\<close>

text \<open>A conversation of at most \<open>n\<close> turns: each turn that is over has left two events, there are fewer than \<open>n\<close> only
  when the agent has said that it is done, and the output is the last answer.\<close>

lemma conversation_is_bounded:
  "hold_conversation v item url n turn input out evs = Inr (final, evs') \<Longrightarrow>
   \<exists>k \<le> n. length evs' = length evs + 2 * k \<and> (k < n \<longrightarrow> says_completed final) \<and>
     (if k = 0 then final = out else \<exists>body. te_post v (turn + k - 1) url body = Answered final)"
proof (induction n arbitrary: turn input out evs)
  case (Suc n)
  let ?body = "rpc v ''tasks/send'' input"
  show ?case
  proof (cases "te_post v turn url ?body")
    case (Answered response)
    show ?thesis
    proof (cases "says_completed response")
      case True
      then show ?thesis using Suc.prems Answered by (intro exI [of _ 1]) (auto simp: Let_def intro: exI [of _ ?body])
    next
      case False
      let ?evs = "evs @ [turn_event item turn ''outbound'' ''input'' input, turn_event item turn ''inbound'' ''output'' response]"
      have "hold_conversation v item url n (turn + 1) (case json_get response ''output'' of Some next_input \<Rightarrow> next_input | None \<Rightarrow> response)
          response ?evs = Inr (final, evs')" using Suc.prems Answered False by (simp add: Let_def)
      from Suc.IH [OF this] obtain k where "k \<le> n" "length evs' = length evs + 2 + 2 * k" "k < n \<longrightarrow> says_completed final"
        "if k = 0 then final = response else \<exists>body. te_post v (turn + 1 + k - 1) url body = Answered final" by auto
      then show ?thesis using Answered by (intro exI [of _ "Suc k"]) (auto split: if_splits intro: exI [of _ ?body])
    qed
  qed (use Suc.prems in \<open>simp_all add: Let_def\<close>)
qed simp

text \<open>A target that the compiler did not expand is reported as a missing one: the check for it comes after the one that
  an explicit target is there.\<close>

lemma auto_target_is_reported_missing:
  assumes "json_get (wi_payload item) ''agent'' = Some a" and "json_get a ''auto'' \<noteq> None" and "Option.bind (json_get a ''explicit'') as_str = None"
  shows "execute_agent_tool v item = Inl (Fatal (''AgentTool: missing '' @ [CHR 0x27] @ ''agent'' @ [CHR 0x27] @ '' URI in payload''))"
proof -
  have "as_str a = None" using assms(2) by (cases a) (auto simp: json_get_def)
  then show ?thesis using assms by (simp add: execute_agent_tool_def agent_uri_of_def)
qed

end
