(* ===== verification/Sql_Store.thy ===== *)
theory Sql_Store
  imports Backend_Fences Agent_Limits
begin

text \<open>
  The SQLite backends (\<^verbatim>\<open>runtime/state/src/sqlite.rs\<close> and \<^verbatim>\<open>tenant_scoped.rs\<close>): the tables, and one definition
  for each operation.  The two backends run the same statements, with a tenant clause in the second; so an
  operation has a scope, \<open>None\<close> for the backend of the engine and \<open>Some t\<close> for the one that is scoped to tenant
  \<open>t\<close>.  A statement is read as its effect on the table, under the keys and references of
  \<^verbatim>\<open>runtime/state/migrations\<close>, which the connection enforces; a transaction that fails leaves the store as it was.
  A column holds the value that was written: the texts in between (RFC 3339, JSON, UUID) are read back by the code
  that wrote them, and the texts of times order as the times do.  The order in which a table is scanned is the
  argument \<open>ids\<close>, the clock \<open>now\<close>, and fresh ids come from \<open>fresh\<close>.
\<close>

section \<open>The tables\<close>

datatype item_status = ItemPending | ItemClaimed | ItemCompleted | ItemFailed | ItemDeadLettered

record sql_work_item = work_item +
  sw_status :: item_status
  sw_claimed_at :: "timestamp option"
  sw_completed_at :: "timestamp option"
  sw_retry_after :: "timestamp option"
  sw_lease_epoch :: int
  sw_lease_secs :: "nat option"
  sw_last_worker_id :: "string option"
  sw_last_lease_fence :: "int option"

record sql_execution = workflow_execution +
  sx_tenant_id :: string

record sql_event = event +
  sv_tenant_id :: string

record sql_snapshot = snapshot +
  sp_tenant_id :: string

record dead_letter =
  dl_item :: work_item
  dl_last_error :: string
  dl_dead_lettered_at :: timestamp
  dl_tenant_id :: string

record sql_token = api_token +
  st_last_used_at :: "timestamp option"
  st_revoked_at :: "timestamp option"

record sql_store =
  db_workflows :: "(string \<times> string \<times> string) \<rightharpoonup> workflow_definition"
  db_executions :: "execution_id \<rightharpoonup> sql_execution"
  db_events :: "sql_event list"
  db_snapshots :: "sql_snapshot list"
  db_work_items :: "work_item_id \<rightharpoonup> sql_work_item"
  db_dead_letter :: "work_item_id \<rightharpoonup> dead_letter"
  db_term :: int
  db_tool_effects :: "string \<rightharpoonup> json \<times> string"
  db_reservations :: "(string \<times> string) \<rightharpoonup> string \<times> int \<times> timestamp"
  db_artifacts :: "(string \<times> string) \<rightharpoonup> nat list \<times> string option"
  db_tenants :: "string \<rightharpoonup> tenant"
  db_tokens :: "string \<rightharpoonup> sql_token"
  db_proj_approvals :: "(execution_id \<times> string) \<rightharpoonup> approval_projection_row \<times> string"
  db_projector_checkpoints :: "(string \<times> execution_id) \<rightharpoonup> int \<times> string"

type_synonym scope = "string option"

definition in_scope :: "scope \<Rightarrow> string \<Rightarrow> bool" where
  "in_scope sc t = (case sc of None \<Rightarrow> True | Some u \<Rightarrow> t = u)"

text \<open>The tenant a row is written under: the column's default, where the statement does not name it.\<close>

definition stamp :: "scope \<Rightarrow> string" where
  "stamp sc = (case sc of None \<Rightarrow> default_tenant | Some t \<Rightarrow> t)"

text \<open>What the database answers to a statement that breaks a key or a reference, and to a row that is not there.\<close>

definition constraint_failed :: "backend_error" where "constraint_failed = DatabaseError ''constraint failed''"

definition no_row :: "backend_error" where "no_row = DatabaseError ''no rows returned''"

definition transaction :: "sql_store \<Rightarrow> backend_error + sql_store \<times> 'a \<Rightarrow> sql_store \<times> (backend_error + 'a)" where
  "transaction s r = (case r of Inl err \<Rightarrow> (s, Inl err) | Inr (s', v) \<Rightarrow> (s', Inr v))"

section \<open>The store term\<close>

definition sq_bump_store_term :: "sql_store \<Rightarrow> sql_store \<times> int" where
  "sq_bump_store_term s = (s\<lparr>db_term := db_term s + 1\<rparr>, db_term s + 1)"

definition sq_set_store_term_at_least :: "int \<Rightarrow> sql_store \<Rightarrow> sql_store \<times> int" where
  "sq_set_store_term_at_least t s = (s\<lparr>db_term := max (db_term s) t\<rparr>, max (db_term s) t)"

section \<open>Executions\<close>

definition execution_row :: "scope \<Rightarrow> execution_id \<Rightarrow> sql_store \<Rightarrow> sql_execution option" where
  "execution_row sc e s = (case db_executions s e of Some r \<Rightarrow> if in_scope sc (sx_tenant_id r) then Some r else None | None \<Rightarrow> None)"

text \<open>\<^verbatim>\<open>row_to_execution\<close>: the session type is not a column.\<close>

definition row_to_execution :: "sql_execution \<Rightarrow> workflow_execution" where
  "row_to_execution r = (workflow_execution.truncate r)\<lparr>we_session_type := None\<rparr>"

definition insert_execution :: "scope \<Rightarrow> workflow_execution \<Rightarrow> sql_store \<Rightarrow> backend_error + sql_store" where
  "insert_execution sc ex s =
     (if db_executions s (we_execution_id ex) \<noteq> None \<or> db_tenants s (stamp sc) = None then Inl constraint_failed
      else Inr (s\<lparr>db_executions := (db_executions s)(we_execution_id ex \<mapsto>
                    workflow_execution.extend (ex\<lparr>we_session_type := None\<rparr>) \<lparr>sx_tenant_id = stamp sc\<rparr>)\<rparr>))"

definition sq_create_execution :: "scope \<Rightarrow> workflow_execution \<Rightarrow> sql_store \<Rightarrow> sql_store \<times> (backend_error + unit)" where
  "sq_create_execution sc ex s = transaction s (and_then (insert_execution sc ex s) (\<lambda>s. Inr (s, ())))"

definition sq_get_execution :: "scope \<Rightarrow> execution_id \<Rightarrow> sql_store \<Rightarrow> workflow_execution option" where
  "sq_get_execution sc e s = map_option row_to_execution (execution_row sc e s)"

definition sq_execution_tenant :: "scope \<Rightarrow> execution_id \<Rightarrow> sql_store \<Rightarrow> string option" where
  "sq_execution_tenant sc e s = map_option sx_tenant_id (execution_row sc e s)"

text \<open>\<^verbatim>\<open>UPDATE workflow_executions SET .. WHERE execution_id = ?\<close>, with whether a row was affected.\<close>

definition update_execution_row :: "scope \<Rightarrow> execution_id \<Rightarrow> (sql_execution \<Rightarrow> sql_execution) \<Rightarrow> sql_store \<Rightarrow> sql_store \<times> bool" where
  "update_execution_row sc e f s =
     (case execution_row sc e s of
        Some r \<Rightarrow> (s\<lparr>db_executions := (db_executions s)(e \<mapsto> f r)\<rparr>, True)
      | None \<Rightarrow> (s, False))"

definition sq_update_execution_status ::
    "scope \<Rightarrow> timestamp \<Rightarrow> execution_id \<Rightarrow> workflow_status \<Rightarrow> sql_store \<Rightarrow> sql_store \<times> (backend_error + unit)" where
  "sq_update_execution_status sc now e status s =
     (case update_execution_row sc e (\<lambda>r. r\<lparr>we_status := status, we_updated_at := now,
              we_completed_at := (if is_terminal status then Some now else we_completed_at r)\<rparr>) s of
        (s, True) \<Rightarrow> (s, Inr ())
      | (s, False) \<Rightarrow> (s, Inl (NotFound e)))"

definition sq_update_execution_current_state :: "scope \<Rightarrow> timestamp \<Rightarrow> execution_id \<Rightarrow> json \<Rightarrow> sql_store \<Rightarrow> sql_store" where
  "sq_update_execution_current_state sc now e state s =
     fst (update_execution_row sc e (\<lambda>r. r\<lparr>we_current_state := state, we_updated_at := now\<rparr>) s)"

text \<open>\<^verbatim>\<open>patch_append_array\<close> reads the row and writes it back in a second statement; what the others do in between is
  the argument \<open>others\<close>.\<close>

definition pushed_array :: "string \<Rightarrow> json \<Rightarrow> json \<Rightarrow> backend_error + json" where
  "pushed_array key v state =
     (case state of
        JObject m \<Rightarrow>
          (case (case bt_get m key of Some a \<Rightarrow> a | None \<Rightarrow> JArray []) of
             JArray a \<Rightarrow> Inr (JObject (bt_insert key (JArray (a @ [v])) m))
           | _ \<Rightarrow> Inl (DatabaseError (key @ '' is not an array'')))
      | _ \<Rightarrow> Inl (DatabaseError ''state is not a JSON object''))"

definition sq_patch_append_array ::
    "scope \<Rightarrow> timestamp \<Rightarrow> (sql_store \<Rightarrow> sql_store) \<Rightarrow> execution_id \<Rightarrow> string \<Rightarrow> json \<Rightarrow> sql_store \<Rightarrow> sql_store \<times> (backend_error + unit)" where
  "sq_patch_append_array sc now others e key v s =
     (case sq_get_execution sc e s of
        None \<Rightarrow> (s, Inl (NotFound (''execution '' @ exec_label e)))
      | Some ex \<Rightarrow>
          (case pushed_array key v (we_current_state ex) of
             Inl err \<Rightarrow> (s, Inl err)
           | Inr state \<Rightarrow> (sq_update_execution_current_state sc now e state (others s), Inr ())))"

definition sq_list_executions ::
    "scope \<Rightarrow> execution_id list \<Rightarrow> workflow_status option \<Rightarrow> nat \<Rightarrow> nat \<Rightarrow> sql_store \<Rightarrow> workflow_execution list" where
  "sq_list_executions sc ids status limit offset s =
     take limit (drop offset (map row_to_execution (sort_key (\<lambda>r. - we_updated_at r)
       (filter (\<lambda>r. case status of Some st \<Rightarrow> we_status r = st | None \<Rightarrow> True) (filter_map (\<lambda>e. execution_row sc e s) ids)))))"

section \<open>The event log\<close>

definition run_rows :: "execution_id \<Rightarrow> sql_store \<Rightarrow> sql_event list" where
  "run_rows e s = filter (\<lambda>r. ev_execution_id r = e) (db_events s)"

text \<open>\<^verbatim>\<open>SELECT COALESCE(MAX(sequence), 0) + 1\<close>, over the rows of all tenants.\<close>

definition next_sequence :: "execution_id \<Rightarrow> sql_store \<Rightarrow> event_sequence" where
  "next_sequence e s = fold (\<lambda>r m. max (ev_sequence r) m) (run_rows e s) 0 + 1"

definition insert_event :: "string \<Rightarrow> event \<Rightarrow> sql_store \<Rightarrow> backend_error + sql_store" where
  "insert_event tenant_id ev s =
     (if list_ex (\<lambda>r. ev_id r = ev_id ev \<or> ev_execution_id r = ev_execution_id ev \<and> ev_sequence r = ev_sequence ev) (db_events s) \<or>
         db_executions s (ev_execution_id ev) = None \<or> db_tenants s tenant_id = None
      then Inl constraint_failed
      else Inr (s\<lparr>db_events := db_events s @ [event.extend ev \<lparr>sv_tenant_id = tenant_id\<rparr>]\<rparr>))"

definition append_row :: "string \<Rightarrow> event \<Rightarrow> sql_store \<Rightarrow> backend_error + sql_store \<times> event_sequence" where
  "append_row tenant_id ev s =
     (let seq = next_sequence (ev_execution_id ev) s
      in and_then (insert_event tenant_id (ev\<lparr>ev_sequence := seq\<rparr>) s) (\<lambda>s. Inr (s, seq)))"

definition sq_append_event :: "scope \<Rightarrow> event \<Rightarrow> sql_store \<Rightarrow> sql_store \<times> (backend_error + event_sequence)" where
  "sq_append_event sc ev s = transaction s (append_row (stamp sc) ev s)"

definition sq_get_events :: "scope \<Rightarrow> execution_id \<Rightarrow> sql_store \<Rightarrow> event list" where
  "sq_get_events sc e s = map event.truncate (sort_key ev_sequence (filter (\<lambda>r. in_scope sc (sv_tenant_id r)) (run_rows e s)))"

definition sq_get_events_since :: "scope \<Rightarrow> execution_id \<Rightarrow> event_sequence \<Rightarrow> sql_store \<Rightarrow> event list" where
  "sq_get_events_since sc e since s =
     map event.truncate (sort_key ev_sequence (filter (\<lambda>r. in_scope sc (sv_tenant_id r) \<and> ev_sequence r > since) (run_rows e s)))"

definition sq_latest_sequence :: "scope \<Rightarrow> execution_id \<Rightarrow> sql_store \<Rightarrow> event_sequence" where
  "sq_latest_sequence sc e s =
     fold (\<lambda>r m. max (ev_sequence r) m) (filter (\<lambda>r. in_scope sc (sv_tenant_id r)) (run_rows e s)) 0"

definition sq_count_node_completions :: "scope \<Rightarrow> execution_id \<Rightarrow> node_id \<Rightarrow> sql_store \<Rightarrow> nat" where
  "sq_count_node_completions sc e node s =
     length (filter (\<lambda>r. in_scope sc (sv_tenant_id r) \<and> is_completion_of node (event.truncate r)) (run_rows e s))"

definition terminal_status_of :: "scope \<Rightarrow> execution_id \<Rightarrow> sql_store \<Rightarrow> workflow_status option" where
  "terminal_status_of sc e s =
     (case execution_row sc e s of
        Some r \<Rightarrow> if is_terminal (we_status r) then Some (we_status r) else None
      | None \<Rightarrow> None)"

definition sq_finish_execution ::
    "scope \<Rightarrow> timestamp \<Rightarrow> event \<Rightarrow> workflow_status \<Rightarrow> sql_store \<Rightarrow> sql_store \<times> (backend_error + execution_finish)" where
  "sq_finish_execution sc now ev status s =
     (if \<not> is_terminal status then (s, Inl (DatabaseError (''finish_execution requires a terminal status, got '' @ status_debug status)))
      else (case terminal_status_of sc (ev_execution_id ev) s of
        Some prior \<Rightarrow> (s, Inr (AlreadyTerminal prior))
      | None \<Rightarrow>
          transaction s
            (case update_execution_row sc (ev_execution_id ev) (\<lambda>r. r\<lparr>we_status := status, we_updated_at := now,
                      we_completed_at := (case we_completed_at r of Some t \<Rightarrow> Some t | None \<Rightarrow> Some now)\<rparr>) s of
               (s, False) \<Rightarrow> Inl (NotFound (ev_execution_id ev))
             | (s, True) \<Rightarrow> and_then (append_row (stamp sc) ev s) (\<lambda>(s, seq). Inr (s, Finished seq)))))"

definition sq_append_event_if ::
    "scope \<Rightarrow> event \<Rightarrow> (event list \<Rightarrow> bool) \<Rightarrow> sql_store \<Rightarrow> sql_store \<times> (backend_error + conditional_append)" where
  "sq_append_event_if sc ev cond s =
     (case execution_row sc (ev_execution_id ev) s of
        None \<Rightarrow> (s, Inl (NotFound (ev_execution_id ev)))
      | Some r \<Rightarrow>
          if is_terminal (we_status r) then (s, Inr (RunTerminal (we_status r)))
          else
            (let events = sq_get_events None (ev_execution_id ev) s
             in if \<not> cond events then (s, Inr Refused)
                else
                  (let seq = wrap_i64 ((case events of [] \<Rightarrow> 0 | _ \<Rightarrow> ev_sequence (last events)) + 1)
                   in transaction s (and_then (insert_event (stamp sc) (ev\<lparr>ev_sequence := seq\<rparr>) s) (\<lambda>s. Inr (s, Appended seq))))))"

section \<open>Snapshots\<close>

text \<open>\<^verbatim>\<open>INSERT OR REPLACE\<close>: rows with the same id or the same run and sequence are removed first, of any tenant.\<close>

definition replaces :: "snapshot \<Rightarrow> sql_snapshot \<Rightarrow> bool" where
  "replaces snap r = (sn_id r = sn_id snap \<or> sn_execution_id r = sn_execution_id snap \<and> sn_at_sequence r = sn_at_sequence snap)"

definition insert_snapshot :: "scope \<Rightarrow> snapshot \<Rightarrow> sql_store \<Rightarrow> backend_error + sql_store" where
  "insert_snapshot sc snap s =
     (if db_executions s (sn_execution_id snap) = None \<or> db_tenants s (stamp sc) = None then Inl constraint_failed
      else Inr (s\<lparr>db_snapshots := filter (\<lambda>r. \<not> replaces snap r) (db_snapshots s) @ [snapshot.extend snap \<lparr>sp_tenant_id = stamp sc\<rparr>]\<rparr>))"

definition sq_write_snapshot :: "scope \<Rightarrow> snapshot \<Rightarrow> sql_store \<Rightarrow> sql_store \<times> (backend_error + unit)" where
  "sq_write_snapshot sc snap s = transaction s (and_then (insert_snapshot sc snap s) (\<lambda>s. Inr (s, ())))"

definition sq_latest_snapshot :: "scope \<Rightarrow> execution_id \<Rightarrow> sql_store \<Rightarrow> snapshot option" where
  "sq_latest_snapshot sc e s =
     max_by_at_sequence (map snapshot.truncate (filter (\<lambda>r. sn_execution_id r = e \<and> in_scope sc (sp_tenant_id r)) (db_snapshots s)))"

section \<open>The work queue\<close>

definition row_to_work_item :: "sql_work_item \<Rightarrow> work_item" where
  "row_to_work_item r = work_item.truncate r"

definition new_row :: "scope \<Rightarrow> work_item \<Rightarrow> sql_work_item" where
  "new_row sc item =
     work_item.extend (item\<lparr>wi_lease_expires_at := None, wi_worker_id := None, wi_lease_fence := 0, wi_tenant_id := stamp sc\<rparr>)
       \<lparr>sw_status = ItemPending, sw_claimed_at = None, sw_completed_at = None, sw_retry_after = None, sw_lease_epoch = 0,
        sw_lease_secs = None, sw_last_worker_id = None, sw_last_lease_fence = None\<rparr>"

definition insert_item :: "scope \<Rightarrow> work_item \<Rightarrow> sql_store \<Rightarrow> backend_error + sql_store" where
  "insert_item sc item s =
     (if db_work_items s (wi_id item) \<noteq> None \<or> db_executions s (wi_execution_id item) = None \<or> db_tenants s (stamp sc) = None
      then Inl constraint_failed
      else Inr (s\<lparr>db_work_items := (db_work_items s)(wi_id item \<mapsto> new_row sc item)\<rparr>))"

definition sq_enqueue_work_item :: "scope \<Rightarrow> work_item \<Rightarrow> sql_store \<Rightarrow> sql_store \<times> (backend_error + work_item_id)" where
  "sq_enqueue_work_item sc item s = transaction s (and_then (insert_item sc item s) (\<lambda>s. Inr (s, wi_id item)))"

text \<open>\<^verbatim>\<open>create_run_in\<close>: the rows that start a run, in one transaction.\<close>

definition sq_create_run ::
    "scope \<Rightarrow> (event_sequence \<Rightarrow> uuid) \<Rightarrow> timestamp \<Rightarrow> workflow_execution \<Rightarrow> snapshot option \<Rightarrow> event_kind \<Rightarrow> event_kind \<Rightarrow> work_item \<Rightarrow>
     sql_store \<Rightarrow> sql_store \<times> (backend_error + unit)" where
  "sq_create_run sc fresh now ex seed started_event scheduled_event item s =
     (let e = we_execution_id ex;
          event = (\<lambda>kind s. event_new (fresh (next_sequence e s)) now e 0 kind)
      in transaction s
           (and_then (insert_execution sc ex s) (\<lambda>s.
            and_then (case seed of None \<Rightarrow> Inr s | Some snap \<Rightarrow> insert_snapshot sc (snap\<lparr>sn_execution_id := e\<rparr>) s) (\<lambda>s.
            and_then (append_row (stamp sc) (event started_event s) s) (\<lambda>(s, _).
            and_then (append_row (stamp sc) (event scheduled_event s) s) (\<lambda>(s, _).
            and_then (insert_item sc item s) (\<lambda>s. Inr (s, ()))))))))"

text \<open>\<^verbatim>\<open>UPDATE work_items SET .. WHERE id = ? AND ..\<close>, with whether a row was affected.\<close>

definition update_item ::
    "scope \<Rightarrow> work_item_id \<Rightarrow> (sql_work_item \<Rightarrow> bool) \<Rightarrow> (sql_work_item \<Rightarrow> sql_work_item) \<Rightarrow> sql_store \<Rightarrow> sql_store \<times> bool" where
  "update_item sc i P f s =
     (case db_work_items s i of
        Some r \<Rightarrow> if in_scope sc (wi_tenant_id r) \<and> P r then (s\<lparr>db_work_items := (db_work_items s)(i \<mapsto> f r)\<rparr>, True) else (s, False)
      | None \<Rightarrow> (s, False))"

definition claimed :: "sql_work_item \<Rightarrow> bool" where
  "claimed r = (sw_status r = ItemClaimed)"

definition claimed_under :: "int \<Rightarrow> sql_work_item \<Rightarrow> bool" where
  "claimed_under lease_fence r = (wi_lease_fence r = lease_fence \<and> claimed r)"

definition sq_lapsed :: "scope \<Rightarrow> timestamp \<Rightarrow> sql_work_item \<Rightarrow> bool" where
  "sq_lapsed sc now r =
     (claimed r \<and> (case wi_lease_expires_at r of Some t \<Rightarrow> t < now | None \<Rightarrow> False) \<and> in_scope sc (wi_tenant_id r))"

definition failed_row :: "sql_work_item \<Rightarrow> sql_work_item" where
  "failed_row r = r\<lparr>sw_status := ItemFailed, wi_worker_id := None, wi_lease_expires_at := None\<rparr>"

text \<open>Back into the queue: the epoch moves on, the fence is cleared.\<close>

definition requeued_row :: "nat \<Rightarrow> sql_work_item \<Rightarrow> sql_work_item" where
  "requeued_row attempt r =
     r\<lparr>sw_status := ItemPending, wi_attempt := attempt, wi_worker_id := None, wi_lease_expires_at := None,
       sw_lease_epoch := sw_lease_epoch r + 1, wi_lease_fence := 0\<rparr>"

definition expired_row :: "nat \<Rightarrow> sql_work_item \<Rightarrow> sql_work_item" where
  "expired_row attempt r =
     (requeued_row attempt r)\<lparr>sw_last_worker_id := wi_worker_id r, sw_last_lease_fence := Some (wi_lease_fence r)\<rparr>"

text \<open>The two events of a lost lease, under the tenant of the item.\<close>

definition sq_record_expiry ::
    "(execution_id \<Rightarrow> event_sequence \<Rightarrow> uuid) \<Rightarrow> timestamp \<Rightarrow> sql_work_item \<Rightarrow> sql_store \<Rightarrow> backend_error + sql_store" where
  "sq_record_expiry fresh now r s =
     (let e = wi_execution_id r
      in fold (\<lambda>kind acc. and_then acc (\<lambda>s.
              and_then (append_row (wi_tenant_id r) (event_new (fresh e (next_sequence e s)) now e 0 kind) s) (\<lambda>(s, _). Inr s)))
           (lease_expiry_events (row_to_work_item r)) (Inr s))"

text \<open>The body of the loop of \<^verbatim>\<open>expire_stale_leases\<close>, for one row it has selected; the status of the run is read
  whatever the tenant.\<close>

definition sq_expire_item ::
    "scope \<Rightarrow> (execution_id \<Rightarrow> event_sequence \<Rightarrow> uuid) \<Rightarrow> timestamp \<Rightarrow> work_item_id \<Rightarrow> sql_store \<Rightarrow> backend_error + sql_store" where
  "sq_expire_item sc fresh now i s =
     (case db_work_items s i of
        None \<Rightarrow> Inr s
      | Some r \<Rightarrow>
          if \<not> sq_lapsed sc now r then Inr s
          else if (case db_executions s (wi_execution_id r) of Some ex \<Rightarrow> is_terminal (we_status ex) | None \<Rightarrow> False)
          then Inr (fst (update_item None i claimed failed_row s))
          else if wrap_u32 (wi_attempt r + 1) \<ge> wi_max_attempts r then Inr s
          else sq_record_expiry fresh now r (fst (update_item None i claimed (expired_row (wi_attempt r + 1)) s)))"

definition sq_expire_stale_leases ::
    "scope \<Rightarrow> (execution_id \<Rightarrow> event_sequence \<Rightarrow> uuid) \<Rightarrow> timestamp \<Rightarrow> work_item_id list \<Rightarrow> sql_store \<Rightarrow> sql_store \<times> (backend_error + unit)" where
  "sq_expire_stale_leases sc fresh now ids s =
     transaction s (and_then (fold (\<lambda>i acc. and_then acc (sq_expire_item sc fresh now i)) ids (Inr s)) (\<lambda>s. Inr (s, ())))"

definition sq_claimable :: "scope \<Rightarrow> timestamp \<Rightarrow> string list \<Rightarrow> sql_store \<Rightarrow> work_item_id \<Rightarrow> bool" where
  "sq_claimable sc now queue_types s i =
     (case db_work_items s i of
        Some r \<Rightarrow> sw_status r = ItemPending \<and> wi_queue_type r \<in> set queue_types \<and> in_scope sc (wi_tenant_id r) \<and>
                  (case sw_retry_after r of None \<Rightarrow> True | Some t \<Rightarrow> t \<le> now)
      | None \<Rightarrow> False)"

text \<open>\<^verbatim>\<open>ORDER BY created_at ASC LIMIT 1\<close>: of the oldest, the first of the scan.\<close>

definition oldest :: "sql_store \<Rightarrow> work_item_id list \<Rightarrow> work_item_id option" where
  "oldest s ids =
     (case sort_key (\<lambda>i. case db_work_items s i of Some r \<Rightarrow> wi_created_at r | None \<Rightarrow> 0) ids of [] \<Rightarrow> None | i # _ \<Rightarrow> Some i)"

definition sq_mint_fence :: "sql_store \<Rightarrow> int \<Rightarrow> int" where
  "sq_mint_fence s epoch = wrap_i64 (db_term s * 4294967296 + epoch)"

definition claimed_row :: "timestamp \<Rightarrow> string \<Rightarrow> nat \<Rightarrow> int \<Rightarrow> int \<Rightarrow> sql_work_item \<Rightarrow> sql_work_item" where
  "claimed_row now worker lease_len epoch fence r =
     r\<lparr>sw_status := ItemClaimed, wi_worker_id := Some worker, wi_lease_expires_at := Some (now + int lease_len * 1000),
       sw_claimed_at := Some now, sw_lease_epoch := epoch, wi_lease_fence := fence\<rparr>"

definition sq_take_lease :: "timestamp \<Rightarrow> string \<Rightarrow> nat \<Rightarrow> work_item_id \<Rightarrow> sql_store \<Rightarrow> sql_store \<times> work_item option" where
  "sq_take_lease now worker lease_len i s =
     (case db_work_items s i of
        None \<Rightarrow> (s, None)
      | Some r \<Rightarrow>
          (let new_epoch = wrap_i64 (sw_lease_epoch r + 1); new_fence = sq_mint_fence s new_epoch;
               s = fst (update_item None i (\<lambda>_. True)
                     (\<lambda>r. (claimed_row now worker lease_len new_epoch new_fence r)\<lparr>sw_lease_secs := Some lease_len\<rparr>) s)
           in (s, Some ((row_to_work_item r)\<lparr>wi_worker_id := Some worker, wi_lease_fence := new_fence,
                  wi_lease_expires_at := Some (now + int lease_len * 1000)\<rparr>))))"

definition sq_claim_pending ::
    "scope \<Rightarrow> timestamp \<Rightarrow> work_item_id list \<Rightarrow> string \<Rightarrow> string list \<Rightarrow> nat option \<Rightarrow> sql_store \<Rightarrow> sql_store \<times> work_item option" where
  "sq_claim_pending sc now ids worker queue_types lease_secs s =
     (case oldest s (filter (sq_claimable sc now queue_types s) ids) of
        None \<Rightarrow> (s, None)
      | Some i \<Rightarrow> sq_take_lease now worker (granted_lease_secs lease_secs) i s)"

text \<open>The claim: two transactions, the clean-up of stale leases and the take-over of a pending item; what the others
  do in between is the argument \<open>others\<close>.\<close>

definition sq_claim_work_item_with_lease ::
    "scope \<Rightarrow> (execution_id \<Rightarrow> event_sequence \<Rightarrow> uuid) \<Rightarrow> timestamp \<Rightarrow> (sql_store \<Rightarrow> sql_store) \<Rightarrow> work_item_id list \<Rightarrow> work_item_id list \<Rightarrow>
     string \<Rightarrow> string list \<Rightarrow> nat option \<Rightarrow> sql_store \<Rightarrow> sql_store \<times> (backend_error + work_item option)" where
  "sq_claim_work_item_with_lease sc fresh now others stale_ids ids worker queue_types lease_secs s =
     (if queue_types = [] then (s, Inr None)
      else (case sq_expire_stale_leases sc fresh now stale_ids s of
        (s, Inl err) \<Rightarrow> (s, Inl err)
      | (s, Inr _) \<Rightarrow> (case sq_claim_pending sc now ids worker queue_types lease_secs (others s) of (s, claim) \<Rightarrow> (s, Inr claim))))"

section \<open>Leases\<close>

definition lease_secs_for :: "work_item_id \<Rightarrow> sql_store \<Rightarrow> nat" where
  "lease_secs_for i s =
     (case Option.bind (db_work_items s i) sw_lease_secs of Some l \<Rightarrow> l | None \<Rightarrow> default_lease_secs)"

definition sq_renew_lease :: "scope \<Rightarrow> timestamp \<Rightarrow> work_item_id \<Rightarrow> string \<Rightarrow> int \<Rightarrow> sql_store \<Rightarrow> sql_store \<times> (backend_error + unit)" where
  "sq_renew_lease sc now i worker lease_fence s =
     (case update_item sc i (\<lambda>r. wi_worker_id r = Some worker \<and> claimed_under lease_fence r)
             (\<lambda>r. r\<lparr>wi_lease_expires_at := Some (now + int (lease_secs_for i s) * 1000)\<rparr>) s of
        (s, True) \<Rightarrow> (s, Inr ())
      | (s, False) \<Rightarrow> (s, Inl (FenceLost i)))"

text \<open>The condition of \<^verbatim>\<open>reattach_lease\<close>: pending since the expiry of the lost fence, and not claimed since.\<close>

definition reattachable :: "string \<Rightarrow> int \<Rightarrow> sql_work_item \<Rightarrow> bool" where
  "reattachable worker lost_fence r =
     (sw_status r = ItemPending \<and> wi_worker_id r = None \<and> sw_last_worker_id r = Some worker \<and>
      sw_last_lease_fence r = Some lost_fence \<and> sw_lease_epoch r = epoch_after_expiry_of lost_fence)"

definition sq_reattach_lease ::
    "scope \<Rightarrow> timestamp \<Rightarrow> work_item_id \<Rightarrow> string \<Rightarrow> int \<Rightarrow> sql_store \<Rightarrow> sql_store \<times> (backend_error + lease_renewal)" where
  "sq_reattach_lease sc now i worker lost_fence s =
     (case db_work_items s i of
        Some r \<Rightarrow>
          if in_scope sc (wi_tenant_id r) \<and> reattachable worker lost_fence r
          then
            (let new_epoch = wrap_i64 (sw_lease_epoch r + 1); new_fence = sq_mint_fence s new_epoch;
                 lease_len = (case sw_lease_secs r of Some l \<Rightarrow> l | None \<Rightarrow> default_lease_secs)
             in (case update_item sc i (\<lambda>r. sw_status r = ItemPending \<and> wi_worker_id r = None)
                        (\<lambda>r. (claimed_row now worker lease_len new_epoch new_fence r)
                               \<lparr>wi_attempt := wi_attempt r - 1, sw_last_worker_id := None, sw_last_lease_fence := None\<rparr>) s of
                   (s, True) \<Rightarrow> (s, Inr \<lparr>lr_lease_fence = new_fence, lr_reattached = True\<rparr>)
                 | (s, False) \<Rightarrow> (s, Inl (FenceLost i))))
          else (s, Inl (FenceLost i))
      | None \<Rightarrow> (s, Inl (FenceLost i)))"

text \<open>What the others do between the renewal that failed and the attempt to re-attach is the argument \<open>others\<close>.\<close>

definition sq_heartbeat_lease ::
    "scope \<Rightarrow> timestamp \<Rightarrow> (sql_store \<Rightarrow> sql_store) \<Rightarrow> work_item_id \<Rightarrow> string \<Rightarrow> int \<Rightarrow> sql_store \<Rightarrow> sql_store \<times> (backend_error + lease_renewal)" where
  "sq_heartbeat_lease sc now others i worker lease_fence s =
     (case sq_renew_lease sc now i worker lease_fence s of
        (s, Inr _) \<Rightarrow> (s, Inr \<lparr>lr_lease_fence = lease_fence, lr_reattached = False\<rparr>)
      | (s, Inl (FenceLost _)) \<Rightarrow> sq_reattach_lease sc now i worker lease_fence (others s)
      | (s, Inl err) \<Rightarrow> (s, Inl err))"

section \<open>Settling an item\<close>

definition sq_get_work_item :: "scope \<Rightarrow> work_item_id \<Rightarrow> sql_store \<Rightarrow> work_item option" where
  "sq_get_work_item sc i s =
     (case db_work_items s i of Some r \<Rightarrow> if in_scope sc (wi_tenant_id r) then Some (row_to_work_item r) else None | None \<Rightarrow> None)"

definition completed_row :: "timestamp \<Rightarrow> sql_work_item \<Rightarrow> sql_work_item" where
  "completed_row now r = r\<lparr>sw_status := ItemCompleted, sw_completed_at := Some now, wi_lease_expires_at := None\<rparr>"

definition dead_row :: "nat \<Rightarrow> sql_work_item \<Rightarrow> sql_work_item" where
  "dead_row attempt r = r\<lparr>sw_status := ItemDeadLettered, wi_attempt := attempt, wi_lease_expires_at := None, wi_worker_id := None\<rparr>"

definition found :: "work_item_id \<Rightarrow> sql_store \<times> bool \<Rightarrow> sql_store \<times> (backend_error + unit)" where
  "found i r = (case r of (s, True) \<Rightarrow> (s, Inr ()) | (s, False) \<Rightarrow> (s, Inl (NotFound i)))"

definition sq_complete_work_item :: "scope \<Rightarrow> timestamp \<Rightarrow> work_item_id \<Rightarrow> sql_store \<Rightarrow> sql_store \<times> (backend_error + unit)" where
  "sq_complete_work_item sc now i s = found i (update_item sc i (\<lambda>_. True) (completed_row now) s)"

definition sq_complete_work_item_fenced :: "scope \<Rightarrow> timestamp \<Rightarrow> work_item_id \<Rightarrow> int \<Rightarrow> sql_store \<Rightarrow> sql_store \<times> bool" where
  "sq_complete_work_item_fenced sc now i lease_fence s = update_item sc i (claimed_under lease_fence) (completed_row now) s"

definition sq_withdraw_work_item_fenced :: "scope \<Rightarrow> work_item_id \<Rightarrow> int \<Rightarrow> sql_store \<Rightarrow> sql_store \<times> bool" where
  "sq_withdraw_work_item_fenced sc i lease_fence s = update_item sc i (claimed_under lease_fence) failed_row s"

definition sq_fail_work_item :: "scope \<Rightarrow> work_item_id \<Rightarrow> sql_store \<Rightarrow> sql_store \<times> (backend_error + unit)" where
  "sq_fail_work_item sc i s = found i (update_item sc i (\<lambda>_. True) failed_row s)"

text \<open>\<^verbatim>\<open>INSERT OR IGNORE\<close> keeps the first row of an item, \<^verbatim>\<open>INSERT OR REPLACE\<close> the last one.\<close>

definition insert_dead_letter :: "scope \<Rightarrow> bool \<Rightarrow> timestamp \<Rightarrow> string \<Rightarrow> work_item \<Rightarrow> sql_store \<Rightarrow> backend_error + sql_store" where
  "insert_dead_letter sc replace now error item s =
     (if db_executions s (wi_execution_id item) = None \<or> db_tenants s (stamp sc) = None then Inl constraint_failed
      else if db_dead_letter s (wi_id item) \<noteq> None \<and> \<not> replace then Inr s
      else Inr (s\<lparr>db_dead_letter := (db_dead_letter s)(wi_id item \<mapsto>
             \<lparr>dl_item = item, dl_last_error = error, dl_dead_lettered_at = now, dl_tenant_id = stamp sc\<rparr>)\<rparr>))"

definition backoff_secs :: "nat \<Rightarrow> nat" where
  "backoff_secs attempt = 2 ^ min attempt 6"

definition sq_fail_work_item_fenced ::
    "scope \<Rightarrow> timestamp \<Rightarrow> work_item_id \<Rightarrow> int \<Rightarrow> string \<Rightarrow> sql_store \<Rightarrow> sql_store \<times> (backend_error + fail_outcome option)" where
  "sq_fail_work_item_fenced sc now i lease_fence error s =
     (case db_work_items s i of
        None \<Rightarrow> (s, Inr None)
      | Some r \<Rightarrow>
          if \<not> (in_scope sc (wi_tenant_id r) \<and> claimed_under lease_fence r) then (s, Inr None)
          else
            (let new_attempt = wrap_u32 (wi_attempt r + 1); item = (row_to_work_item r)\<lparr>wi_attempt := new_attempt\<rparr>
             in if new_attempt \<ge> wi_max_attempts r
                then transaction s
                       (and_then (insert_dead_letter sc False now error item
                                    (fst (update_item sc i (claimed_under lease_fence) (dead_row new_attempt) s)))
                                 (\<lambda>s. Inr (s, Some (Exhausted item))))
                else (fst (update_item sc i (claimed_under lease_fence)
                             (\<lambda>r. (requeued_row new_attempt r)\<lparr>sw_retry_after := Some (now + int (backoff_secs new_attempt) * 1000)\<rparr>) s),
                      Inr (Some (Retryable item (backoff_secs new_attempt * 1000))))))"

definition sq_park_work_item :: "scope \<Rightarrow> work_item_id \<Rightarrow> int \<Rightarrow> timestamp \<Rightarrow> nat \<Rightarrow> sql_store \<Rightarrow> sql_store \<times> bool" where
  "sq_park_work_item sc i lease_fence retry_after next_attempt s =
     update_item sc i (claimed_under lease_fence) (\<lambda>r. (requeued_row next_attempt r)\<lparr>sw_retry_after := Some retry_after\<rparr>) s"

text \<open>The one settle that compares the fence alone.\<close>

definition sq_finalize_rollover_fenced ::
    "scope \<Rightarrow> timestamp \<Rightarrow> execution_id \<Rightarrow> work_item_id \<Rightarrow> int \<Rightarrow> sql_store \<Rightarrow> sql_store \<times> bool" where
  "sq_finalize_rollover_fenced sc now e i lease_fence s =
     (case update_item sc i (\<lambda>r. wi_lease_fence r = lease_fence) (completed_row now) s of
        (s, False) \<Rightarrow> (s, False)
      | (s, True) \<Rightarrow>
          (fst (update_execution_row sc e (\<lambda>r. if is_terminal (we_status r) then r
                  else r\<lparr>we_status := WfLimitExceeded, we_updated_at := now,
                         we_completed_at := (case we_completed_at r of Some t \<Rightarrow> Some t | None \<Rightarrow> Some now)\<rparr>) s), True))"

section \<open>Committing a turn\<close>

definition sq_record_effect :: "scope \<Rightarrow> event_kind \<Rightarrow> sql_store \<Rightarrow> sql_store" where
  "sq_record_effect sc kind s =
     (case kind of
        NodeCompleted nc \<Rightarrow>
          (case nc_idempotency_key nc of
             Some key \<Rightarrow>
               (case db_tool_effects s key of
                  None \<Rightarrow> s\<lparr>db_tool_effects := (db_tool_effects s)(key \<mapsto> (effect_json nc, stamp sc))\<rparr>
                | Some _ \<Rightarrow> s)
           | None \<Rightarrow> s)
      | _ \<Rightarrow> s)"

definition sq_snapshot_turn ::
    "scope \<Rightarrow> (execution_id \<Rightarrow> event_sequence \<Rightarrow> uuid) \<Rightarrow> timestamp \<Rightarrow> execution_id \<Rightarrow> sql_store \<Rightarrow> backend_error + sql_store" where
  "sq_snapshot_turn sc fresh now e s =
     and_then (case sq_latest_snapshot sc e s of
                 Some snap \<Rightarrow> Inr (of_snapshot snap, sn_at_sequence snap)
               | None \<Rightarrow> (case execution_row sc e s of Some r \<Rightarrow> Inr (origin_state (we_initial_input r), 0) | None \<Rightarrow> Inl no_row))
       (\<lambda>(base, base_sequence).
          insert_snapshot sc (from_materialized (fresh e (next_sequence e s)) now e
            (apply_events_seeded base (sq_get_events_since sc e base_sequence s))) s)"

text \<open>\<^verbatim>\<open>commit_turn_inner\<close>: with \<open>refuse_terminal\<close> an item of a run that has ended is withdrawn instead.\<close>

definition sq_commit_turn_inner ::
    "scope \<Rightarrow> (execution_id \<Rightarrow> event_sequence \<Rightarrow> uuid) \<Rightarrow> timestamp \<Rightarrow> work_item_id \<Rightarrow> int \<Rightarrow> event \<Rightarrow> bool \<Rightarrow> bool \<Rightarrow>
     sql_store \<Rightarrow> sql_store \<times> (backend_error + turn_commit)" where
  "sq_commit_turn_inner sc fresh now i lease_fence terminal_event do_snapshot refuse_terminal s =
     (let e = ev_execution_id terminal_event; kind = ev_kind terminal_event
      in if \<not> is_turn_end kind
         then (s, Inl (DatabaseError ''commit_turn requires a terminal event (NodeCompleted/NodeFailed)''))
         else (case (if refuse_terminal then terminal_status_of sc e s else None) of
           Some status \<Rightarrow>
             (case sq_withdraw_work_item_fenced sc i lease_fence s of
                (s', True) \<Rightarrow> (s', Inr (CommitTerminal status))
              | (_, False) \<Rightarrow> (s, Inl (FenceLost i)))
         | None \<Rightarrow>
             (case update_item sc i (claimed_under lease_fence)
                     (case kind of
                        NodeCompleted _ \<Rightarrow> completed_row now
                      | _ \<Rightarrow> (\<lambda>r. (failed_row r)\<lparr>sw_completed_at := None\<rparr>)) s of
                (_, False) \<Rightarrow> (s, Inl (FenceLost i))
              | (s', True) \<Rightarrow>
                  transaction s
                    (and_then (append_row (stamp sc) terminal_event s') (\<lambda>(s', seq).
                     and_then (if do_snapshot then sq_snapshot_turn sc fresh now e (sq_record_effect sc kind s')
                               else Inr (sq_record_effect sc kind s')) (\<lambda>s'.
                       Inr (s', Committed seq)))))))"

definition sq_commit_turn ::
    "scope \<Rightarrow> (execution_id \<Rightarrow> event_sequence \<Rightarrow> uuid) \<Rightarrow> timestamp \<Rightarrow> work_item_id \<Rightarrow> int \<Rightarrow> event \<Rightarrow> bool \<Rightarrow>
     sql_store \<Rightarrow> sql_store \<times> (backend_error + event_sequence)" where
  "sq_commit_turn sc fresh now i lease_fence terminal_event do_snapshot s =
     (case sq_commit_turn_inner sc fresh now i lease_fence terminal_event do_snapshot False s of
        (s, Inr (Committed seq)) \<Rightarrow> (s, Inr seq)
      | (s, Inr (CommitTerminal status)) \<Rightarrow> (s, Inl (DatabaseError (''commit_turn refused for a '' @ status_debug status @ '' execution'')))
      | (s, Inl err) \<Rightarrow> (s, Inl err))"

definition sq_commit_turn_unless_terminal ::
    "scope \<Rightarrow> (execution_id \<Rightarrow> event_sequence \<Rightarrow> uuid) \<Rightarrow> timestamp \<Rightarrow> work_item_id \<Rightarrow> int \<Rightarrow> event \<Rightarrow> bool \<Rightarrow>
     sql_store \<Rightarrow> sql_store \<times> (backend_error + turn_commit)" where
  "sq_commit_turn_unless_terminal sc fresh now i lease_fence terminal_event do_snapshot s =
     sq_commit_turn_inner sc fresh now i lease_fence terminal_event do_snapshot True s"

section \<open>The sweep\<close>

text \<open>\<^verbatim>\<open>reclaim_expired_leases\<close>: one statement selects the items whose lease has expired, then each is settled by
  statements of its own, which ask for a claimed item and nothing else.\<close>

definition sq_expired_items :: "scope \<Rightarrow> timestamp \<Rightarrow> work_item_id list \<Rightarrow> sql_store \<Rightarrow> work_item list" where
  "sq_expired_items sc now ids s =
     sort_key wi_created_at (map row_to_work_item (filter (sq_lapsed sc now) (filter_map (db_work_items s) ids)))"

definition sq_reclaim_item ::
    "scope \<Rightarrow> timestamp \<Rightarrow> work_item \<Rightarrow> sql_store \<Rightarrow> sql_store \<times> (backend_error + (work_item \<times> bool) option)" where
  "sq_reclaim_item sc now item s =
     (let new_attempt = wrap_u32 (wi_attempt item + 1); i = wi_id item; out = item\<lparr>wi_attempt := new_attempt\<rparr>
      in if new_attempt \<ge> wi_max_attempts item
         then (case update_item sc i claimed (dead_row new_attempt) s of
                 (s, False) \<Rightarrow> (s, Inr None)
               | (s, True) \<Rightarrow>
                   transaction s (and_then (insert_dead_letter sc False now ''lease expired: worker dead'' out s) (\<lambda>s. Inr (s, Some (out, False)))))
         else (case update_item sc i claimed
                      (\<lambda>r. (expired_row new_attempt r)\<lparr>sw_retry_after := Some (now + int (backoff_secs new_attempt) * 1000)\<rparr>) s of
                 (s, False) \<Rightarrow> (s, Inr None)
               | (s, True) \<Rightarrow> (s, Inr (Some (out, True)))))"

text \<open>The loop, with what the others do before each item.\<close>

fun sq_reclaim_items ::
    "scope \<Rightarrow> timestamp \<Rightarrow> (nat \<Rightarrow> sql_store \<Rightarrow> sql_store) \<Rightarrow> work_item list \<Rightarrow> reclaim_result \<Rightarrow> sql_store \<Rightarrow>
     sql_store \<times> (backend_error + reclaim_result)" where
  "sq_reclaim_items sc now others [] acc s = (s, Inr acc)"
| "sq_reclaim_items sc now others (item # items) acc s =
     (case sq_reclaim_item sc now item (others (length items) s) of
        (s, Inl err) \<Rightarrow> (s, Inl err)
      | (s, Inr None) \<Rightarrow> sq_reclaim_items sc now others items acc s
      | (s, Inr (Some (out, True))) \<Rightarrow> sq_reclaim_items sc now others items (acc\<lparr>rr_retryable := rr_retryable acc @ [out]\<rparr>) s
      | (s, Inr (Some (out, False))) \<Rightarrow> sq_reclaim_items sc now others items (acc\<lparr>rr_exhausted := rr_exhausted acc @ [out]\<rparr>) s)"

definition sq_reclaim_expired_leases ::
    "scope \<Rightarrow> timestamp \<Rightarrow> (nat \<Rightarrow> sql_store \<Rightarrow> sql_store) \<Rightarrow> work_item_id list \<Rightarrow> sql_store \<Rightarrow> sql_store \<times> (backend_error + reclaim_result)" where
  "sq_reclaim_expired_leases sc now others ids s =
     sq_reclaim_items sc now others (sq_expired_items sc now ids s) \<lparr>rr_retryable = [], rr_exhausted = []\<rparr> s"

text \<open>Read, copied and marked, in three statements, with what the others do between the first two.\<close>

definition sq_move_to_dead_letter ::
    "scope \<Rightarrow> timestamp \<Rightarrow> (sql_store \<Rightarrow> sql_store) \<Rightarrow> work_item_id \<Rightarrow> string \<Rightarrow> sql_store \<Rightarrow> sql_store \<times> (backend_error + unit)" where
  "sq_move_to_dead_letter sc now others i last_error s =
     (case sq_get_work_item sc i s of
        None \<Rightarrow> (s, Inl (NotFound i))
      | Some item \<Rightarrow>
          (let s = others s
           in transaction s (and_then (insert_dead_letter sc True now last_error item s)
                (\<lambda>s. Inr (fst (update_item sc i (\<lambda>_. True) (\<lambda>r. dead_row (wi_attempt r) r) s), ())))))"

section \<open>Reservations, effects, artifacts, definitions and tenants\<close>

definition sq_release_tool_reservation :: "scope \<Rightarrow> string \<Rightarrow> string \<Rightarrow> int \<Rightarrow> sql_store \<Rightarrow> sql_store" where
  "sq_release_tool_reservation sc key owner lease_fence s =
     (case db_reservations s (stamp sc, key) of
        Some (holder, fence, _) \<Rightarrow>
          if holder = owner \<and> fence = lease_fence then s\<lparr>db_reservations := (db_reservations s)((stamp sc, key) := None)\<rparr> else s
      | None \<Rightarrow> s)"

text \<open>The upsert, and where it was blocked the look at who holds the key; that look has the tenant clause in the
  scoped backend only, so the backend of the engine may see the row of another tenant, as \<open>pick\<close> decides.\<close>

definition sq_reserve_tool_effect ::
    "scope \<Rightarrow> externals \<Rightarrow> timestamp \<Rightarrow> (string \<Rightarrow> string) \<Rightarrow> string \<Rightarrow> string \<Rightarrow> int \<Rightarrow> nat \<Rightarrow> sql_store \<Rightarrow> sql_store \<times> reserve_outcome" where
  "sq_reserve_tool_effect sc x now pick key owner lease_fence ttl_ms s =
     (let mine = (owner, lease_fence, reservation_expiry now ttl_ms);
          took = s\<lparr>db_reservations := (db_reservations s)((stamp sc, key) \<mapsto> mine)\<rparr>
      in (case db_reservations s (stamp sc, key) of
            None \<Rightarrow> (took, Acquired)
          | Some (holder, _, holder_expiry) \<Rightarrow>
              if holder_expiry \<le> now \<or> holder = owner then (took, Acquired)
              else (case db_reservations s (case sc of None \<Rightarrow> pick key | Some t \<Rightarrow> t, key) of
                      Some (seen, _, seen_expiry) \<Rightarrow> (s, Held seen (x_to_rfc3339 x seen_expiry))
                    | None \<Rightarrow> (s, Held ''unknown'' (x_to_rfc3339 x now)))))"

definition sq_get_tool_effect :: "scope \<Rightarrow> string \<Rightarrow> sql_store \<Rightarrow> json option" where
  "sq_get_tool_effect sc key s =
     (case db_tool_effects s key of Some (v, t) \<Rightarrow> if in_scope sc t then Some v else None | None \<Rightarrow> None)"

definition sq_put_artifact :: "scope \<Rightarrow> externals \<Rightarrow> nat list \<Rightarrow> string option \<Rightarrow> sql_store \<Rightarrow> sql_store \<times> artifact_ref" where
  "sq_put_artifact sc x bytes media_type s =
     (let hash = sha256_hex x bytes; key = (stamp sc, hash);
          stored = (case db_artifacts s key of Some a \<Rightarrow> a | None \<Rightarrow> (bytes, media_type))
      in (s\<lparr>db_artifacts := (db_artifacts s)(key \<mapsto> stored)\<rparr>, \<lparr>art_hash = hash, art_size = length bytes, art_media_type = snd stored\<rparr>))"

definition sq_get_artifact :: "scope \<Rightarrow> string \<Rightarrow> sql_store \<Rightarrow> nat list option" where
  "sq_get_artifact sc hash s = map_option fst (db_artifacts s (stamp sc, hash))"

text \<open>The tenant of a definition is the one it names, or that of the scope.\<close>

definition sq_store_workflow :: "scope \<Rightarrow> externals \<Rightarrow> workflow_definition \<Rightarrow> sql_store \<Rightarrow> sql_store \<times> (backend_error + unit)" where
  "sq_store_workflow sc x def s =
     (let t = (case sc of None \<Rightarrow> wd_tenant_id def | Some t \<Rightarrow> t); key = (t, wd_workflow_id def, wd_version def)
      in (case db_workflows s key of
            Some stored \<Rightarrow>
              if same_definition x (wd_ir stored) (wd_ir def) then (s, Inr ())
              else (s, Inl (version_conflict (wd_workflow_id def) (wd_version def)))
          | None \<Rightarrow>
              if db_tenants s t = None then (s, Inl constraint_failed)
              else (s\<lparr>db_workflows := (db_workflows s)(key \<mapsto> def\<lparr>wd_tenant_id := t\<rparr>)\<rparr>, Inr ())))"

text \<open>Without a scope the row of any tenant may be the one that is read, as \<open>pick\<close> decides.\<close>

definition sq_get_workflow :: "scope \<Rightarrow> string \<Rightarrow> string \<Rightarrow> string \<Rightarrow> sql_store \<Rightarrow> workflow_definition option" where
  "sq_get_workflow sc pick workflow_id version s = db_workflows s (case sc of None \<Rightarrow> pick | Some t \<Rightarrow> t, workflow_id, version)"

definition sq_create_tenant :: "tenant \<Rightarrow> sql_store \<Rightarrow> sql_store \<times> (backend_error + unit)" where
  "sq_create_tenant t s =
     (if db_tenants s (tn_id t) \<noteq> None then (s, Inl constraint_failed) else (s\<lparr>db_tenants := (db_tenants s)(tn_id t \<mapsto> t)\<rparr>, Inr ()))"

definition sq_get_tenant :: "string \<Rightarrow> sql_store \<Rightarrow> tenant option" where
  "sq_get_tenant i s = db_tenants s i"

definition sq_list_tenants :: "string list \<Rightarrow> sql_store \<Rightarrow> tenant list" where
  "sq_list_tenants ids s = sort_key tn_created_at (filter_map (db_tenants s) ids)"

definition sq_update_tenant :: "tenant \<Rightarrow> sql_store \<Rightarrow> sql_store \<times> (backend_error + unit)" where
  "sq_update_tenant t s =
     (case db_tenants s (tn_id t) of
        Some old \<Rightarrow> (s\<lparr>db_tenants := (db_tenants s)(tn_id t \<mapsto> t\<lparr>tn_created_at := tn_created_at old\<rparr>)\<rparr>, Inr ())
      | None \<Rightarrow> (s, Inl (NotFound (tn_id t))))"

section \<open>Tokens and projections\<close>

text \<open>A token is stored as its digest.  The bytes are those of the random generator.  The clock is read twice: once for
  the row, and once more, after the insertion, for the record handed back.\<close>

definition token_text :: "nat list \<Rightarrow> string" where
  "token_text random_bytes = ''jj_'' @ concat (map hex_byte random_bytes)"

definition sq_create_token ::
    "scope \<Rightarrow> externals \<Rightarrow> nat list \<Rightarrow> uuid \<Rightarrow> timestamp \<Rightarrow> timestamp \<Rightarrow> string \<Rightarrow> string \<Rightarrow> sql_store \<Rightarrow>
       sql_store \<times> (backend_error + string \<times> api_token)" where
  "sq_create_token sc x random_bytes i now after name role s =
     (let token = token_text random_bytes; token_hash = sha256_hex x (utf8 token);
          row = \<lparr>tk_id = i, tk_name = name, tk_role = role, tk_created_at = now, tk_expires_at = None, tk_tenant_id = stamp sc\<rparr>
      in if db_tokens s token_hash \<noteq> None \<or> db_tenants s (stamp sc) = None then (s, Inl constraint_failed)
         else (s\<lparr>db_tokens := (db_tokens s)(token_hash \<mapsto> api_token.extend row \<lparr>st_last_used_at = None, st_revoked_at = None\<rparr>)\<rparr>,
               Inr (token, \<lparr>tk_id = i, tk_name = name, tk_role = role, tk_created_at = after, tk_expires_at = None,
                             tk_tenant_id = stamp sc\<rparr>)))"

definition sq_validate_token :: "externals \<Rightarrow> timestamp \<Rightarrow> string \<Rightarrow> sql_store \<Rightarrow> sql_store \<times> api_token option" where
  "sq_validate_token x now token s =
     (let token_hash = sha256_hex x (utf8 token)
      in (case db_tokens s token_hash of
            Some r \<Rightarrow>
              if st_revoked_at r = None \<and> (case tk_expires_at r of None \<Rightarrow> True | Some t \<Rightarrow> now < t)
              then (s\<lparr>db_tokens := (db_tokens s)(token_hash \<mapsto> r\<lparr>st_last_used_at := Some now\<rparr>)\<rparr>, Some (api_token.truncate r))
              else (s, None)
          | None \<Rightarrow> (s, None)))"

text \<open>The upserts leave the tenant of a row that is there.\<close>

definition sq_put_row :: "scope \<Rightarrow> execution_id \<Rightarrow> approval_projection_row \<Rightarrow> sql_store \<Rightarrow> sql_store" where
  "sq_put_row sc e row s =
     (let key = (e, pr_node_id row); owner = (case db_proj_approvals s key of Some (_, t) \<Rightarrow> t | None \<Rightarrow> stamp sc)
      in s\<lparr>db_proj_approvals := (db_proj_approvals s)(key \<mapsto> (row\<lparr>pr_execution_id := e\<rparr>, owner))\<rparr>)"

definition sq_set_projector_checkpoint :: "scope \<Rightarrow> string \<Rightarrow> execution_id \<Rightarrow> int \<Rightarrow> sql_store \<Rightarrow> sql_store" where
  "sq_set_projector_checkpoint sc projection e new_checkpoint s =
     (let key = (projection, e); owner = (case db_projector_checkpoints s key of Some (_, t) \<Rightarrow> t | None \<Rightarrow> stamp sc)
      in s\<lparr>db_projector_checkpoints := (db_projector_checkpoints s)(key \<mapsto> (new_checkpoint, owner))\<rparr>)"

definition sq_apply_approval_projection :: "scope \<Rightarrow> approval_projection_row \<Rightarrow> string \<Rightarrow> int \<Rightarrow> sql_store \<Rightarrow> sql_store" where
  "sq_apply_approval_projection sc row projection new_checkpoint s =
     sq_set_projector_checkpoint sc projection (pr_execution_id row) new_checkpoint (sq_put_row sc (pr_execution_id row) row s)"

definition sq_apply_approval_projection_batch ::
    "scope \<Rightarrow> approval_projection_row list \<Rightarrow> string \<Rightarrow> execution_id \<Rightarrow> int \<Rightarrow> sql_store \<Rightarrow> sql_store" where
  "sq_apply_approval_projection_batch sc rows projection e new_checkpoint s =
     sq_set_projector_checkpoint sc projection e new_checkpoint (fold (sq_put_row sc e) rows s)"

definition sq_get_approval_projection :: "scope \<Rightarrow> string list \<Rightarrow> execution_id \<Rightarrow> sql_store \<Rightarrow> approval_projection_row list" where
  "sq_get_approval_projection sc nodes e s =
     sort_key pr_node_id (filter_map (\<lambda>n. case db_proj_approvals s (e, n) of
         Some (row, t) \<Rightarrow> if in_scope sc t then Some row else None | None \<Rightarrow> None) nodes)"

definition sq_get_projector_checkpoint :: "scope \<Rightarrow> string \<Rightarrow> execution_id \<Rightarrow> sql_store \<Rightarrow> int" where
  "sq_get_projector_checkpoint sc projection e s =
     (case db_projector_checkpoints s (projection, e) of Some (c, t) \<Rightarrow> if in_scope sc t then c else 0 | None \<Rightarrow> 0)"

end
