(* ===== verification/Sql_Steps.thy ===== *)
theory Sql_Steps
  imports Sql_Store
begin

text \<open>
  The SQLite store as a transition system, one step for every statement or transaction of \<open>Sql_Store\<close>, under any
  scope and in any interleaving; an operation of several transactions is several steps.  The locale \<open>store_frame\<close>
  says what a relation between stores has to allow, statement by statement, for every operation to be in it.
\<close>

section \<open>The transition system\<close>

definition sq_epoch :: "sql_store \<Rightarrow> work_item_id \<Rightarrow> int" where
  "sq_epoch s i = (case db_work_items s i of Some r \<Rightarrow> sw_lease_epoch r | None \<Rightarrow> 0)"

text \<open>Far enough from the end of the widths for one more step.\<close>

definition sq_in_range :: "sql_store \<Rightarrow> bool" where
  "sq_in_range s = ((\<forall>i. sq_epoch s i < 2 ^ 32 - 2) \<and> db_term s < 2 ^ 31 - 1)"

definition grant_of :: "work_item option \<Rightarrow> grant_label" where
  "grant_of claim = map_option (\<lambda>item. (wi_id item, wi_lease_fence item)) claim"

inductive sql_op :: "externals \<Rightarrow> (execution_id \<Rightarrow> event_sequence \<Rightarrow> uuid) \<Rightarrow> scope \<Rightarrow> sql_store \<Rightarrow> grant_label \<Rightarrow> sql_store \<Rightarrow> bool"
  for x fresh sc where
  sop_bump: "sql_op x fresh sc s None (fst (sq_bump_store_term s))"
| sop_term: "sql_op x fresh sc s None (fst (sq_set_store_term_at_least t s))"
| sop_create: "sql_op x fresh sc s None (fst (sq_create_execution sc ex s))"
| sop_status: "sql_op x fresh sc s None (fst (sq_update_execution_status sc now e st s))"
| sop_state: "sql_op x fresh sc s None (sq_update_execution_current_state sc now e v s)"
| sop_append: "sql_op x fresh sc s None (fst (sq_append_event sc ev s))"
| sop_append_if: "sql_op x fresh sc s None (fst (sq_append_event_if sc ev cond s))"
| sop_finish: "sql_op x fresh sc s None (fst (sq_finish_execution sc now ev st s))"
| sop_snapshot: "sql_op x fresh sc s None (fst (sq_write_snapshot sc snap s))"
| sop_create_run: "sql_op x fresh sc s None (fst (sq_create_run sc (fresh (we_execution_id ex)) now ex seed k1 k2 item s))"
| sop_enqueue: "sql_op x fresh sc s None (fst (sq_enqueue_work_item sc item s))"
| sop_expire: "distinct ids \<Longrightarrow> sql_op x fresh sc s None (fst (sq_expire_stale_leases sc fresh now ids s))"
| sop_claim:
    "sq_claim_pending sc now ids w qs ls s = (s', claim) \<Longrightarrow> sql_op x fresh sc s (grant_of claim) s'"
| sop_renew: "sql_op x fresh sc s None (fst (sq_renew_lease sc now i w f s))"
| sop_reattach:
    "sq_reattach_lease sc now i w f s = (s', r) \<Longrightarrow>
     sql_op x fresh sc s (case r of Inr renewal \<Rightarrow> Some (i, lr_lease_fence renewal) | Inl _ \<Rightarrow> None) s'"
| sop_complete: "sql_op x fresh sc s None (fst (sq_complete_work_item sc now i s))"
| sop_complete_fenced: "sql_op x fresh sc s None (fst (sq_complete_work_item_fenced sc now i f s))"
| sop_withdraw: "sql_op x fresh sc s None (fst (sq_withdraw_work_item_fenced sc i f s))"
| sop_fail: "sql_op x fresh sc s None (fst (sq_fail_work_item sc i s))"
| sop_fail_fenced: "sql_op x fresh sc s None (fst (sq_fail_work_item_fenced sc now i f err s))"
| sop_park: "sql_op x fresh sc s None (fst (sq_park_work_item sc i f retry n s))"
| sop_rollover: "sql_op x fresh sc s None (fst (sq_finalize_rollover_fenced sc now e i f s))"
| sop_commit: "sql_op x fresh sc s None (fst (sq_commit_turn_inner sc fresh now i f ev snap refuse s))"
| sop_reclaim: "sql_op x fresh sc s None (fst (sq_reclaim_item sc now item s))"
| sop_dead_letter: "sql_op x fresh sc s None (fst (sq_move_to_dead_letter sc now (\<lambda>s. s) i err s))"
| sop_release: "sql_op x fresh sc s None (sq_release_tool_reservation sc key owner f s)"
| sop_reserve: "sql_op x fresh sc s None (fst (sq_reserve_tool_effect sc x now pick key owner f ttl s))"
| sop_artifact: "sql_op x fresh sc s None (fst (sq_put_artifact sc x bytes mt s))"
| sop_workflow: "sql_op x fresh sc s None (fst (sq_store_workflow sc x def s))"
| sop_tenant: "sql_op x fresh sc s None (fst (sq_create_tenant t s))"
| sop_update_tenant: "sql_op x fresh sc s None (fst (sq_update_tenant t s))"
| sop_token: "sql_op x fresh sc s None (fst (sq_create_token sc x random i now after name role s))"
| sop_validate: "sql_op x fresh sc s None (fst (sq_validate_token x now token s))"
| sop_projection: "sql_op x fresh sc s None (sq_apply_approval_projection sc row projection n s)"
| sop_projection_batch: "sql_op x fresh sc s None (sq_apply_approval_projection_batch sc rows projection e n s)"
| sop_checkpoint: "sql_op x fresh sc s None (sq_set_projector_checkpoint sc projection e n s)"

definition sql_step :: "externals \<Rightarrow> (execution_id \<Rightarrow> event_sequence \<Rightarrow> uuid) \<Rightarrow> sql_store \<Rightarrow> grant_label \<Rightarrow> sql_store \<Rightarrow> bool" where
  "sql_step x fresh s l s' = (sq_in_range s \<and> (\<exists>sc. sql_op x fresh sc s l s'))"

lemma sql_stepI: "sq_in_range s \<Longrightarrow> sql_op x fresh sc s l s' \<Longrightarrow> sql_step x fresh s l s'"
  by (auto simp: sql_step_def)

section \<open>Frames\<close>

text \<open>How an operation that grants no lease may change a row of the queue.\<close>

inductive row_move :: "sql_work_item \<Rightarrow> sql_work_item \<Rightarrow> bool" where
  mv_failed: "row_move r (failed_row r)"
| mv_reset: "row_move r ((failed_row r)\<lparr>sw_completed_at := t\<rparr>)"
| mv_completed: "row_move r (completed_row now r)"
| mv_dead: "row_move r (dead_row n r)"
| mv_renewed: "row_move r (r\<lparr>wi_lease_expires_at := t\<rparr>)"
| mv_requeued: "claimed r \<Longrightarrow> row_move r ((requeued_row n r)\<lparr>sw_retry_after := t\<rparr>)"
| mv_expired: "claimed r \<Longrightarrow> row_move r (expired_row n r)"
| mv_swept: "claimed r \<Longrightarrow> row_move r ((expired_row n r)\<lparr>sw_retry_after := t\<rparr>)"

lemma claimed_under_claimed [simp]: "claimed_under f r \<Longrightarrow> claimed r"
  by (simp add: claimed_under_def)

lemma found_fst [simp]: "fst (found i r) = fst r"
  by (auto simp: found_def split: prod.split bool.split)

locale store_frame =
  fixes sc :: scope and R :: "sql_store \<Rightarrow> sql_store \<Rightarrow> bool"
  assumes frame_refl: "R s s"
    and frame_trans: "R s t \<Longrightarrow> R t u \<Longrightarrow> R s u"
    and frame_term: "db_term s \<le> n \<Longrightarrow> R s (s\<lparr>db_term := n\<rparr>)"
    and frame_tenants: "R s (s\<lparr>db_tenants := ts\<rparr>)"
    and frame_event: "insert_event owner ev s = Inr s' \<Longrightarrow> in_scope sc owner \<Longrightarrow> ev_sequence ev = next_sequence (ev_execution_id ev) s \<Longrightarrow> R s s'"
    and frame_event_if: "sq_append_event_if sc ev cond s = (s', r) \<Longrightarrow> R s s'"
    and frame_execution: "insert_execution sc ex s = Inr s' \<Longrightarrow> R s s'"
    and frame_execution_row: "execution_row sc e s = Some x \<Longrightarrow> sx_tenant_id x' = sx_tenant_id x \<Longrightarrow>
      R s (s\<lparr>db_executions := (db_executions s)(e \<mapsto> x')\<rparr>)"
    and frame_snapshot: "insert_snapshot sc snap s = Inr s' \<Longrightarrow> R s s'"
    and frame_item: "insert_item sc item s = Inr s' \<Longrightarrow> R s s'"
    and frame_row: "db_work_items s i = Some w \<Longrightarrow> in_scope sc (wi_tenant_id w) \<Longrightarrow> row_move w w' \<Longrightarrow>
      R s (s\<lparr>db_work_items := (db_work_items s)(i \<mapsto> w')\<rparr>)"
    and frame_dead_letter: "insert_dead_letter sc replace now err item s = Inr s' \<Longrightarrow> R s s'"
    and frame_effect: "db_tool_effects s key = None \<Longrightarrow> R s (s\<lparr>db_tool_effects := (db_tool_effects s)(key \<mapsto> (v, stamp sc))\<rparr>)"
    and frame_reservation: "R s (s\<lparr>db_reservations := (db_reservations s)((stamp sc, key) := h)\<rparr>)"
    and frame_artifact: "R s (s\<lparr>db_artifacts := (db_artifacts s)((stamp sc, hash) \<mapsto> a)\<rparr>)"
    and frame_workflow: "in_scope sc owner \<Longrightarrow> R s (s\<lparr>db_workflows := (db_workflows s)((owner, wid) \<mapsto> def)\<rparr>)"
    and frame_token: "db_tokens s hash = None \<Longrightarrow> R s (s\<lparr>db_tokens := (db_tokens s)(hash \<mapsto> tk)\<rparr>)"
    and frame_token_used: "db_tokens s hash = Some tk \<Longrightarrow> R s (s\<lparr>db_tokens := (db_tokens s)(hash \<mapsto> tk\<lparr>st_last_used_at := tm\<rparr>)\<rparr>)"
    and frame_projection: "R s (s\<lparr>db_proj_approvals := pa\<rparr>)"
    and frame_checkpoint: "R s (s\<lparr>db_projector_checkpoints := pc\<rparr>)"
begin

lemma stamp_in_scope: "in_scope sc (stamp sc)"
  by (simp add: in_scope_def stamp_def split: option.split)

lemma frame_append: "append_row t ev s = Inr (s', q) \<Longrightarrow> in_scope sc t \<Longrightarrow> R s s'"
  by (auto simp: append_row_def Let_def result_simps intro: frame_event)

lemma frame_update_execution:
  "(\<And>x. sx_tenant_id (f x) = sx_tenant_id x) \<Longrightarrow> R s (fst (update_execution_row sc e f s))"
  by (auto simp: update_execution_row_def frame_refl intro: frame_execution_row split: option.split)

lemma frame_update_item:
  "(\<And>w. P w \<Longrightarrow> row_move w (f w)) \<Longrightarrow> R s (fst (update_item sc i P f s))"
  by (auto simp: update_item_def frame_refl intro: frame_row split: option.split)

text \<open>An update that does not repeat the clause of the tenant, on a row that was selected under it.\<close>

lemma frame_update_selected:
  "db_work_items s i = Some w \<Longrightarrow> in_scope sc (wi_tenant_id w) \<Longrightarrow> (\<And>w. P w \<Longrightarrow> row_move w (f w)) \<Longrightarrow>
   R s (fst (update_item None i P f s))"
  by (auto simp: update_item_def in_scope_def frame_refl intro: frame_row split: option.split)

lemma frame_transaction: "(\<And>s' v. r = Inr (s', v) \<Longrightarrow> R s s') \<Longrightarrow> R s (fst (transaction s r))"
  by (auto simp: transaction_def frame_refl split: sum.split)

lemma frame_record_effect: "R s (sq_record_effect sc kind s)"
  by (auto simp: sq_record_effect_def frame_refl intro: frame_effect split: event_kind.split option.split)

lemma frame_snapshot_turn: "sq_snapshot_turn sc fresh now e s = Inr s' \<Longrightarrow> R s s'"
  by (auto simp: sq_snapshot_turn_def result_simps intro: frame_snapshot)

lemma frame_create_run: "R s (fst (sq_create_run sc fr now ex seed k1 k2 item s))"
  unfolding sq_create_run_def Let_def
proof (rule frame_transaction, clarsimp simp: result_simps)
  fix s1 s2 s3 s4 s5 q q'
  assume ops: "insert_execution sc ex s = Inr s1"
    "(case seed of None \<Rightarrow> Inr s1 | Some snap \<Rightarrow> insert_snapshot sc (snap\<lparr>sn_execution_id := we_execution_id ex\<rparr>) s1) = Inr s2"
    "append_row (stamp sc) (event_new (fr (next_sequence (we_execution_id ex) s2)) now (we_execution_id ex) 0 k1) s2 = Inr (s3, q)"
    "append_row (stamp sc) (event_new (fr (next_sequence (we_execution_id ex) s3)) now (we_execution_id ex) 0 k2) s3 = Inr (s4, q')"
    "insert_item sc item s4 = Inr s5"
  have "R s1 s2" using ops(2) by (auto intro: frame_refl frame_snapshot split: option.splits)
  then show "R s s5"
    using frame_execution [OF ops(1)] frame_append [OF ops(3) stamp_in_scope] frame_append [OF ops(4) stamp_in_scope] frame_item [OF ops(5)]
      frame_trans by blast
qed

lemma frame_finish: "R s (fst (sq_finish_execution sc now ev st s))"
proof -
  have "R s t" if "update_execution_row sc e f s = (s1, b)" "append_row (stamp sc) ev s1 = Inr (t, q)" "\<And>x. sx_tenant_id (f x) = sx_tenant_id x"
    for e f s1 b t q
    using frame_update_execution [OF that(3), of s e] frame_append [OF that(2) stamp_in_scope] that(1) frame_trans by auto
  then show ?thesis
    by (fastforce simp: sq_finish_execution_def frame_refl result_simps intro!: frame_transaction split: option.split prod.splits bool.splits)
qed

lemma frame_record_expiry: "sq_record_expiry fresh now w s = Inr s' \<Longrightarrow> in_scope sc (wi_tenant_id w) \<Longrightarrow> R s s'"
  unfolding sq_record_expiry_def Let_def
  by (erule fold_and_then_invariant) (auto simp: result_simps frame_refl dest: frame_append intro: frame_trans)

lemma frame_expire_item:
  assumes "sq_expire_item sc fresh now i s = Inr s'"
  shows "R s s'"
proof (cases "\<exists>w. db_work_items s i = Some w \<and> sq_lapsed sc now w")
  case False
  then show ?thesis using assms by (auto simp: sq_expire_item_def frame_refl split: option.splits)
next
  case True
  then obtain w where w: "db_work_items s i = Some w" "in_scope sc (wi_tenant_id w)" by (auto simp: sq_lapsed_def)
  have "R s (fst (update_item None i claimed failed_row s))" by (rule frame_update_selected [OF w mv_failed])
  moreover have e: "R s (fst (update_item None i claimed (expired_row n) s))" for n by (rule frame_update_selected [OF w mv_expired])
  moreover have "R s t" if "sq_record_expiry fresh now w (fst (update_item None i claimed (expired_row n) s)) = Inr t" for n t
    using frame_trans [OF e frame_record_expiry [OF that w(2)]] .
  ultimately show ?thesis using assms w(1) by (auto simp: sq_expire_item_def frame_refl simp del: fst_conv split: if_splits)
qed

lemma frame_expire_leases: "R s (fst (sq_expire_stale_leases sc fresh now ids s))"
  unfolding sq_expire_stale_leases_def
proof (rule frame_transaction, clarsimp simp: result_simps)
  fix t
  assume "fold (\<lambda>i acc. and_then acc (sq_expire_item sc fresh now i)) ids (Inr s) = Inr t"
  then show "R s t" by (rule fold_and_then_invariant) (auto intro: frame_refl frame_expire_item frame_trans)
qed

lemma frame_settle:
  "R s (fst (sq_renew_lease sc now i w f s))"
  "R s (fst (sq_complete_work_item sc now i s))"
  "R s (fst (sq_complete_work_item_fenced sc now i f s))"
  "R s (fst (sq_withdraw_work_item_fenced sc i f s))"
  "R s (fst (sq_fail_work_item sc i s))"
  "R s (fst (sq_park_work_item sc i f retry n s))"
proof -
  have "fst (sq_renew_lease sc now i w f s) =
      fst (update_item sc i (\<lambda>r. wi_worker_id r = Some w \<and> claimed_under f r)
        (\<lambda>r. r\<lparr>wi_lease_expires_at := Some (now + int (lease_secs_for i s) * 1000)\<rparr>) s)"
    by (simp add: sq_renew_lease_def split: prod.split bool.split)
  then show "R s (fst (sq_renew_lease sc now i w f s))" by (simp add: frame_update_item mv_renewed)
qed (simp_all add: sq_complete_work_item_def sq_complete_work_item_fenced_def sq_withdraw_work_item_fenced_def sq_fail_work_item_def
    sq_park_work_item_def frame_update_item row_move.intros)

lemma frame_rollover: "R s (fst (sq_finalize_rollover_fenced sc now e i f s))"
proof -
  obtain t b where t: "update_item sc i (\<lambda>r. wi_lease_fence r = f) (completed_row now) s = (t, b)" by fastforce
  then have "R s t" using frame_update_item [of "\<lambda>r. wi_lease_fence r = f" "completed_row now" s i] mv_completed by simp
  then show ?thesis
    using t frame_update_execution frame_trans by (fastforce simp: sq_finalize_rollover_fenced_def frame_refl split: bool.split)
qed

lemma frame_dead_letter_after:
  assumes "\<And>w. P w \<Longrightarrow> row_move w (f w)" and "insert_dead_letter sc replace now err item (fst (update_item sc i P f s)) = Inr t"
  shows "R s t"
  using frame_update_item [OF assms(1)] frame_dead_letter [OF assms(2)] frame_trans by blast

lemma frame_fail_fenced: "R s (fst (sq_fail_work_item_fenced sc now i f err s))"
proof (cases "db_work_items s i")
  case None
  then show ?thesis by (simp add: sq_fail_work_item_fenced_def frame_refl)
next
  case (Some r)
  let ?n = "wrap_u32 (wi_attempt r + 1)"
  have "R s (fst (transaction s (and_then (insert_dead_letter sc False now err item
      (fst (update_item sc i (claimed_under f) (dead_row ?n) s))) (\<lambda>s. Inr (s, Some (Exhausted item))))))" for item
    by (rule frame_transaction) (auto simp: result_simps intro: frame_dead_letter_after [OF mv_dead])
  moreover have "R s (fst (update_item sc i (claimed_under f) (\<lambda>r. (requeued_row ?n r)\<lparr>sw_retry_after := t\<rparr>) s))" for t
    by (simp add: frame_update_item mv_requeued)
  ultimately show ?thesis using Some by (simp add: sq_fail_work_item_fenced_def frame_refl Let_def)
qed

lemma frame_reclaim: "R s (fst (sq_reclaim_item sc now item s))"
proof -
  let ?n = "wrap_u32 (wi_attempt item + 1)"
  let ?f = "\<lambda>r. (expired_row ?n r)\<lparr>sw_retry_after := Some (now + int (backoff_secs ?n) * 1000)\<rparr>"
  obtain d b where d: "update_item sc (wi_id item) claimed (dead_row ?n) s = (d, b)" by fastforce
  obtain q c where q: "update_item sc (wi_id item) claimed ?f s = (q, c)" by fastforce
  have sd: "R s d" using frame_update_item [of claimed "dead_row ?n" s "wi_id item"] d by (simp add: mv_dead)
  then have "R s (fst (transaction d (and_then (insert_dead_letter sc False now err out d) (\<lambda>s. Inr (s, v)))))"
    for err out and v :: "(work_item \<times> bool) option"
    by (rule frame_trans) (auto intro!: frame_transaction simp: result_simps intro: frame_dead_letter)
  moreover have "R s q" using frame_update_item [of claimed ?f s "wi_id item"] q by (simp add: mv_swept)
  ultimately show ?thesis using d q sd by (simp add: sq_reclaim_item_def Let_def split: bool.split)
qed

lemma frame_move_to_dead_letter: "R s (fst (sq_move_to_dead_letter sc now (\<lambda>s. s) i err s))"
proof -
  have "R s (fst (update_item sc i (\<lambda>_. True) (\<lambda>r. dead_row (wi_attempt r) r) t))"
    if "insert_dead_letter sc True now err item s = Inr t" for item t
    using frame_dead_letter [OF that] frame_trans frame_update_item [of "\<lambda>_. True" "\<lambda>r. dead_row (wi_attempt r) r" t i] mv_dead by blast
  then show ?thesis
    by (auto simp: sq_move_to_dead_letter_def frame_refl result_simps intro!: frame_transaction split: option.split)
qed

lemma frame_commit: "R s (fst (sq_commit_turn_inner sc fresh now i f ev snap refuse s))"
proof -
  let ?kind = "ev_kind ev"
  let ?set = "case ?kind of NodeCompleted _ \<Rightarrow> completed_row now | _ \<Rightarrow> (\<lambda>r. (failed_row r)\<lparr>sw_completed_at := None\<rparr>)"
  obtain t b where t: "update_item sc i (claimed_under f) ?set s = (t, b)" by fastforce
  have "row_move r (?set r)" for r by (simp add: row_move.intros split: event_kind.split)
  then have st: "R s t" using frame_update_item [of "claimed_under f" ?set s i] t by simp
  let ?commit = "and_then (append_row (stamp sc) ev t) (\<lambda>(s', seq).
      and_then (if snap then sq_snapshot_turn sc fresh now (ev_execution_id ev) (sq_record_effect sc ?kind s') else Inr (sq_record_effect sc ?kind s'))
        (\<lambda>s'. Inr (s', Committed seq)))"
  have "R t u" if commit: "?commit = Inr (u, v)" for u v
  proof -
    obtain s1 q where s1: "append_row (stamp sc) ev t = Inr (s1, q)" using commit by (auto simp: result_simps)
    have "R s1 (sq_record_effect sc ?kind s1)" by (rule frame_record_effect)
    then have "R s1 u" using commit s1 frame_snapshot_turn frame_trans by (auto simp: result_simps split: if_splits)
    then show ?thesis using frame_append [OF s1 stamp_in_scope] frame_trans by blast
  qed
  then have "R s (fst (transaction s ?commit))" using st frame_trans by (blast intro: frame_transaction)
  moreover have "R s (fst (sq_withdraw_work_item_fenced sc i f s))" by (rule frame_settle)
  ultimately show ?thesis
    using t by (auto simp: sq_commit_turn_inner_def frame_refl Let_def split: option.split prod.split bool.split)
qed

lemma frame_plain:
  "R s (fst (sq_bump_store_term s))"
  "R s (fst (sq_set_store_term_at_least n s))"
  "R s (fst (sq_create_execution sc ex s))"
  "R s (fst (sq_update_execution_status sc now e st s))"
  "R s (sq_update_execution_current_state sc now e v s)"
  "R s (fst (sq_append_event sc ev s))"
  "R s (fst (sq_append_event_if sc ev cond s))"
  "R s (fst (sq_write_snapshot sc snap s))"
  "R s (fst (sq_enqueue_work_item sc item s))"
proof -
  have "fst (sq_update_execution_status sc now e st s) = fst (update_execution_row sc e (\<lambda>r. r\<lparr>we_status := st, we_updated_at := now,
      we_completed_at := (if is_terminal st then Some now else we_completed_at r)\<rparr>) s)"
    by (simp add: sq_update_execution_status_def split: prod.split bool.split)
  then show "R s (fst (sq_update_execution_status sc now e st s))" by (simp add: frame_update_execution)
  show "R s (fst (sq_append_event_if sc ev cond s))" using frame_event_if [of ev cond s] by (metis prod.collapse)
qed (auto simp: sq_bump_store_term_def sq_set_store_term_at_least_def sq_create_execution_def sq_update_execution_current_state_def
    sq_append_event_def sq_write_snapshot_def sq_enqueue_work_item_def result_simps stamp_in_scope
    intro!: frame_transaction frame_term frame_update_execution intro: frame_execution frame_append frame_snapshot frame_item)

lemma frame_other:
  "R s (sq_release_tool_reservation sc key owner f s)"
  "R s (fst (sq_reserve_tool_effect sc x now pick key owner f ttl s))"
  "R s (fst (sq_put_artifact sc x bytes mt s))"
  "R s (fst (sq_store_workflow sc x def s))"
  "R s (fst (sq_create_tenant t s))"
  "R s (fst (sq_update_tenant t s))"
proof -
  have "fst (sq_reserve_tool_effect sc x now pick key owner f ttl s) = s \<or> (\<exists>h. fst (sq_reserve_tool_effect sc x now pick key owner f ttl s) =
      s\<lparr>db_reservations := (db_reservations s)((stamp sc, key) := h)\<rparr>)"
    by (simp add: sq_reserve_tool_effect_def Let_def fun_upd_def split: option.split prod.split) blast
  then show "R s (fst (sq_reserve_tool_effect sc x now pick key owner f ttl s))" using frame_refl frame_reservation by metis
  show "R s (fst (sq_store_workflow sc x def s))"
  proof -
    define t where "t = (case sc of None \<Rightarrow> wd_tenant_id def | Some t \<Rightarrow> t)"
    then have "in_scope sc t" by (auto simp: in_scope_def split: option.split)
    then show ?thesis
      by (auto simp: sq_store_workflow_def t_def [symmetric] frame_refl Let_def intro: frame_workflow split: option.split)
  qed
qed (auto simp: sq_release_tool_reservation_def sq_put_artifact_def sq_create_tenant_def sq_update_tenant_def frame_refl Let_def
      intro: frame_tenants frame_artifact frame_reservation split: option.split prod.split)

lemma frame_tokens:
  "R s (fst (sq_create_token sc x random i now after name role s))"
  "R s (fst (sq_validate_token x now token s))"
  by (auto simp: sq_create_token_def sq_validate_token_def frame_refl Let_def intro: frame_token frame_token_used split: option.split)

lemma frame_put_rows: "R s (fold (sq_put_row sc e) rows s)"
proof (induction rows arbitrary: s)
  case (Cons row rows)
  have "R s (sq_put_row sc e row s)" by (simp add: sq_put_row_def frame_projection Let_def)
  then show ?case using Cons frame_trans by fastforce
qed (simp add: frame_refl)

lemma frame_projections:
  "R s (sq_apply_approval_projection sc row projection n s)"
  "R s (sq_apply_approval_projection_batch sc rows projection e n s)"
  "R s (sq_set_projector_checkpoint sc projection e n s)"
proof -
  have c: "R s (sq_set_projector_checkpoint sc projection e n s)" for s e by (simp add: sq_set_projector_checkpoint_def frame_checkpoint Let_def)
  then show "R s (sq_set_projector_checkpoint sc projection e n s)" .
  show "R s (sq_apply_approval_projection_batch sc rows projection e n s)"
    unfolding sq_apply_approval_projection_batch_def using frame_put_rows c frame_trans by blast
  show "R s (sq_apply_approval_projection sc row projection n s)"
    unfolding sq_apply_approval_projection_def using frame_put_rows [of s "pr_execution_id row" "[row]"] c frame_trans by fastforce
qed

lemmas frame_ops = frame_tokens frame_projections frame_plain frame_other frame_create_run frame_finish frame_expire_leases frame_settle frame_rollover frame_fail_fenced
  frame_reclaim frame_move_to_dead_letter frame_commit

text \<open>A step is in the relation, unless it asks for a lease.\<close>

lemma op_cases:
  "sql_op x fresh sc s l s' \<Longrightarrow> l = None \<and> R s s' \<or>
    (\<exists>now ids w qs ls claim. sq_claim_pending sc now ids w qs ls s = (s', claim) \<and> l = grant_of claim) \<or>
    (\<exists>now i w f r. sq_reattach_lease sc now i w f s = (s', r) \<and> l = (case r of Inr renewal \<Rightarrow> Some (i, lr_lease_fence renewal) | Inl _ \<Rightarrow> None))"
proof (induction rule: sql_op.induct)
  case (sop_claim now ids w qs ls s s' claim)
  then show ?case by blast
next
  case (sop_reattach now i w f s s' r)
  then show ?case by blast
qed (simp_all add: frame_ops)

end

end
