(* ===== verification/Sql_Fences.thy ===== *)
theory Sql_Fences
  imports Sql_Steps
begin

text \<open>
  The SQLite store implements the locale \<open>fenced_queue\<close> that the store in memory implements too, so fences strictly
  increase and a superseded one is refused.  Every operation moves the rows of the queue on, by the frame of
  \<open>Sql_Steps\<close>, or grants one lease.
\<close>

section \<open>The rows of the queue\<close>

text \<open>A claimed row is under the fence of its epoch, and the fence it lost last is older than that.\<close>

definition sq_row_ok :: "work_item_id \<Rightarrow> sql_work_item \<Rightarrow> bool" where
  "sq_row_ok i r =
     (wi_id r = i \<and> 0 \<le> sw_lease_epoch r \<and> (wi_lease_fence r \<noteq> 0 \<longrightarrow> fence_epoch (wi_lease_fence r) = sw_lease_epoch r) \<and>
      (claimed r \<longrightarrow> wi_lease_fence r \<noteq> 0) \<and>
      (\<forall>f. sw_last_lease_fence r = Some f \<longrightarrow> epoch_after_expiry_of f \<le> sw_lease_epoch r) \<and>
      (\<forall>f. claimed r \<longrightarrow> sw_last_lease_fence r = Some f \<longrightarrow> epoch_after_expiry_of f < sw_lease_epoch r))"

definition row_remembers :: "sql_work_item \<Rightarrow> int \<Rightarrow> bool" where
  "row_remembers r f = (\<exists>worker. reattachable worker f r)"

definition sq_accepts :: "sql_store \<Rightarrow> work_item_id \<Rightarrow> int \<Rightarrow> bool" where
  "sq_accepts s i f = (f \<noteq> 0 \<and> (case db_work_items s i of Some r \<Rightarrow> wi_lease_fence r = f | None \<Rightarrow> False))"

text \<open>A live lease: the item is claimed under the fence.\<close>

definition sq_holds :: "sql_store \<Rightarrow> work_item_id \<Rightarrow> int \<Rightarrow> bool" where
  "sq_holds s i f = (case db_work_items s i of Some r \<Rightarrow> claimed_under f r | None \<Rightarrow> False)"

definition sq_remembers :: "sql_store \<Rightarrow> work_item_id \<Rightarrow> int \<Rightarrow> bool" where
  "sq_remembers s i f = (case db_work_items s i of Some r \<Rightarrow> row_remembers r f | None \<Rightarrow> False)"

definition sq_bound :: "sql_store \<Rightarrow> work_item_id \<Rightarrow> int" where
  "sq_bound s i = db_term s * 4294967296 + sq_epoch s i"

definition sq_queue_ok :: "sql_store \<Rightarrow> bool" where
  "sq_queue_ok s = (0 \<le> db_term s \<and> (\<forall>i r. db_work_items s i = Some r \<longrightarrow> sq_row_ok i r))"

text \<open>A row as a step that sq_grants nothing leaves it.\<close>

definition row_evolves :: "sql_work_item \<Rightarrow> sql_work_item \<Rightarrow> bool" where
  "row_evolves r r' =
     ((\<forall>i. sq_row_ok i r \<longrightarrow> sq_row_ok i r' \<and>
         (\<forall>f. row_remembers r' f \<longrightarrow> row_remembers r f \<or> claimed_under f r)) \<and> (claimed r' \<longrightarrow> claimed r) \<and>
      sw_lease_epoch r \<le> sw_lease_epoch r' \<and> (wi_lease_fence r' = wi_lease_fence r \<or> wi_lease_fence r' = 0))"

definition fresh_row :: "work_item_id \<Rightarrow> sql_work_item \<Rightarrow> bool" where
  "fresh_row i r = (sq_row_ok i r \<and> wi_lease_fence r = 0 \<and> \<not> claimed r \<and> (\<forall>f. \<not> row_remembers r f))"

definition rows_evolve :: "sql_store \<Rightarrow> sql_store \<Rightarrow> bool" where
  "rows_evolve s s' =
     (db_term s \<le> db_term s' \<and>
      (\<forall>i r. db_work_items s i = Some r \<longrightarrow> (\<exists>r'. db_work_items s' i = Some r' \<and> row_evolves r r')) \<and>
      (\<forall>i r. db_work_items s i = None \<longrightarrow> db_work_items s' i = Some r \<longrightarrow> fresh_row i r))"

named_theorems evolving \<open>what leaves the rows of the queue in order\<close>

lemma row_evolves_refl [simp]: "row_evolves r r"
  by (simp add: row_evolves_def)

lemma row_evolves_ok: "row_evolves r r' \<Longrightarrow> sq_row_ok i r \<Longrightarrow> sq_row_ok i r'"
  and row_evolves_remembers: "row_evolves r r' \<Longrightarrow> sq_row_ok i r \<Longrightarrow> row_remembers r' f \<Longrightarrow> row_remembers r f \<or> claimed_under f r"
  by (auto simp: row_evolves_def)

lemma row_evolves_claimed: "row_evolves r r' \<Longrightarrow> sq_row_ok i r' \<Longrightarrow> claimed_under f r' \<Longrightarrow> claimed_under f r"
  by (auto simp: row_evolves_def claimed_under_def sq_row_ok_def)

lemma row_evolves_trans:
  assumes "row_evolves r r'" "row_evolves r' r''"
  shows "row_evolves r r''"
proof -
  have "sq_row_ok i r'' \<and> (\<forall>f. row_remembers r'' f \<longrightarrow> row_remembers r f \<or> claimed_under f r)" if "sq_row_ok i r" for i
  proof -
    have r': "sq_row_ok i r'" using row_evolves_ok [OF assms(1) that] .
    then show ?thesis
      using row_evolves_ok [OF assms(2)] row_evolves_remembers [OF assms(2) r'] row_evolves_remembers [OF assms(1) that]
        row_evolves_claimed [OF assms(1) r'] by blast
  qed
  then show ?thesis using assms by (auto simp: row_evolves_def)
qed

lemma fresh_row_evolves: "fresh_row i r \<Longrightarrow> row_evolves r r' \<Longrightarrow> fresh_row i r'"
  unfolding fresh_row_def row_evolves_def claimed_under_def by metis

lemma rows_evolve_refl [simp]: "rows_evolve s s"
  by (simp add: rows_evolve_def)

lemma rows_evolve_Some: "rows_evolve s s' \<Longrightarrow> db_work_items s i = Some r \<Longrightarrow> \<exists>r'. db_work_items s' i = Some r' \<and> row_evolves r r'"
  by (simp add: rows_evolve_def)

lemma rows_evolve_None: "rows_evolve s s' \<Longrightarrow> db_work_items s i = None \<Longrightarrow> db_work_items s' i = Some r \<Longrightarrow> fresh_row i r"
  by (simp add: rows_evolve_def)

lemma rows_evolve_trans [trans]:
  assumes st: "rows_evolve s t" and tu: "rows_evolve t u"
  shows "rows_evolve s u"
  unfolding rows_evolve_def
proof (intro conjI allI impI)
  show "db_term s \<le> db_term u" using st tu by (auto simp: rows_evolve_def)
next
  fix i r
  assume "db_work_items s i = Some r"
  then obtain r' where r': "db_work_items t i = Some r'" "row_evolves r r'" using rows_evolve_Some [OF st] by blast
  then obtain r'' where "db_work_items u i = Some r''" "row_evolves r' r''" using rows_evolve_Some [OF tu] by blast
  then show "\<exists>r'. db_work_items u i = Some r' \<and> row_evolves r r'" using r'(2) row_evolves_trans by blast
next
  fix i r
  assume s: "db_work_items s i = None" and u: "db_work_items u i = Some r"
  show "fresh_row i r"
  proof (cases "db_work_items t i")
    case None
    then show ?thesis using rows_evolve_None [OF tu _ u] by simp
  next
    case (Some r')
    then have "fresh_row i r'" "row_evolves r' r" using rows_evolve_None [OF st s] rows_evolve_Some [OF tu Some] u by auto
    then show ?thesis by (rule fresh_row_evolves)
  qed
qed

lemma rows_evolve_frame [evolving]:
  "db_work_items s' = db_work_items s \<Longrightarrow> db_term s \<le> db_term s' \<Longrightarrow> rows_evolve s s'"
  by (simp add: rows_evolve_def)

section \<open>What the operations do to a row\<close>

lemmas row_simps = row_evolves_def sq_row_ok_def row_remembers_def reattachable_def claimed_def claimed_under_def

lemma row_evolves_failed [evolving]: "row_evolves r (failed_row r)"
  and row_evolves_completed [evolving]: "row_evolves r (completed_row now r)"
  and row_evolves_dead [evolving]: "row_evolves r (dead_row n r)"
  and row_evolves_renewed [evolving]: "row_evolves r (r\<lparr>wi_lease_expires_at := t\<rparr>)"
  by (auto simp: row_simps failed_row_def completed_row_def dead_row_def)

lemma row_evolves_committed_failed [evolving]: "row_evolves r ((failed_row r)\<lparr>sw_completed_at := t\<rparr>)"
  by (auto simp: row_simps failed_row_def)

lemma row_evolves_requeued [evolving]:
  "claimed r \<Longrightarrow> row_evolves r ((requeued_row n r)\<lparr>sw_retry_after := t\<rparr>)"
  by (auto simp: row_simps requeued_row_def)

lemma row_evolves_expired [evolving]:
  "claimed r \<Longrightarrow> row_evolves r (expired_row n r)"
  "claimed r \<Longrightarrow> row_evolves r ((expired_row n r)\<lparr>sw_retry_after := t\<rparr>)"
  by (auto simp: row_simps requeued_row_def expired_row_def epoch_after_expiry_of_def)

lemma fresh_new_row: "fresh_row (wi_id item) (new_row sc item)"
  by (simp add: fresh_row_def row_simps new_row_def work_item.defs)

lemma insert_frames:
  "insert_event t ev s = Inr s' \<Longrightarrow> db_work_items s' = db_work_items s \<and> db_term s' = db_term s"
  "insert_execution sc ex s = Inr s' \<Longrightarrow> db_work_items s' = db_work_items s \<and> db_term s' = db_term s"
  "insert_snapshot sc snap s = Inr s' \<Longrightarrow> db_work_items s' = db_work_items s \<and> db_term s' = db_term s"
  "insert_dead_letter sc replace now err item s = Inr s' \<Longrightarrow> db_work_items s' = db_work_items s \<and> db_term s' = db_term s"
  by (auto simp: insert_event_def insert_execution_def insert_snapshot_def insert_dead_letter_def split: if_splits)

lemma append_if_cases:
  "sq_append_event_if sc ev cond s = (s', r) \<Longrightarrow> s' = s \<or>
     (let events = sq_get_events None (ev_execution_id ev) s
      in insert_event (stamp sc) (ev\<lparr>ev_sequence := wrap_i64 ((case events of [] \<Rightarrow> 0 | _ \<Rightarrow> ev_sequence (last events)) + 1)\<rparr>) s = Inr s')"
  by (auto simp: sq_append_event_if_def transaction_def Let_def result_simps split: option.splits if_splits sum.splits)

lemma insert_item_evolves: "insert_item sc item s = Inr s' \<Longrightarrow> rows_evolve s s'"
  by (auto simp: insert_item_def rows_evolve_def fresh_new_row split: if_splits)

lemma row_move_evolves: "row_move r r' \<Longrightarrow> row_evolves r r'"
  by (induction rule: row_move.induct) (simp_all add: evolving)

interpretation rows: store_frame sc rows_evolve for sc
proof (unfold_locales, goal_cases)
  case (2 s t u)
  then show ?case by (rule rows_evolve_trans)
next
  case (6 ev cond s s' r)
  then show ?case using append_if_cases [OF 6] insert_frames(1) rows_evolve_frame by (metis order_refl rows_evolve_refl)
next
  case (10 item s s')
  then show ?case by (rule insert_item_evolves)
next
  case (11 s i w w')
  then show ?case using row_move_evolves by (auto simp: rows_evolve_def)
qed (auto intro!: rows_evolve_frame dest: insert_frames)

section \<open>Granting a lease\<close>

definition sq_grants :: "sql_store \<Rightarrow> work_item_id \<Rightarrow> int \<Rightarrow> sql_store \<Rightarrow> bool" where
  "sq_grants s i f s' =
     (\<exists>r r'. db_work_items s i = Some r \<and> db_work_items s' = (db_work_items s)(i \<mapsto> r') \<and> db_term s' = db_term s \<and>
        sq_row_ok i r' \<and> claimed r' \<and> sw_lease_epoch r' = sw_lease_epoch r + 1 \<and> wi_lease_fence r' = f \<and>
        f = db_term s * 4294967296 + sw_lease_epoch r + 1)"

lemma sq_epoch_Some: "db_work_items s i = Some r \<Longrightarrow> sq_epoch s i = sw_lease_epoch r"
  by (simp add: sq_epoch_def)

lemma minted:
  assumes "sq_in_range s" "sq_queue_ok s" "db_work_items s i = Some r"
  shows "wrap_i64 (sw_lease_epoch r + 1) = sw_lease_epoch r + 1"
    and "sq_mint_fence s (sw_lease_epoch r + 1) = db_term s * 4294967296 + sw_lease_epoch r + 1"
    and "fence_epoch (db_term s * 4294967296 + sw_lease_epoch r + 1) = sw_lease_epoch r + 1"
    and "db_term s * 4294967296 + sw_lease_epoch r + 1 \<noteq> 0"
proof -
  have e: "0 \<le> sw_lease_epoch r" "sw_lease_epoch r < 2 ^ 32 - 2" "0 \<le> db_term s" "db_term s < 2 ^ 31 - 1"
    using assms sq_epoch_Some [OF assms(3)] by (auto simp: sq_in_range_def sq_queue_ok_def sq_row_ok_def dest: spec [of _ i])
  then show "wrap_i64 (sw_lease_epoch r + 1) = sw_lease_epoch r + 1"
    and "sq_mint_fence s (sw_lease_epoch r + 1) = db_term s * 4294967296 + sw_lease_epoch r + 1"
    by (simp_all add: wrap_i64_id sq_mint_fence_def)
  have "(db_term s * 4294967296 + (sw_lease_epoch r + 1)) mod 4294967296 = (sw_lease_epoch r + 1) mod 4294967296" by simp
  also have "\<dots> = sw_lease_epoch r + 1" using e by simp
  finally show "fence_epoch (db_term s * 4294967296 + sw_lease_epoch r + 1) = sw_lease_epoch r + 1" by (simp add: fence_epoch_def add.assoc)
  have "0 < db_term s * 4294967296 + sw_lease_epoch r + 1" using e by (simp add: add_nonneg_pos)
  then show "db_term s * 4294967296 + sw_lease_epoch r + 1 \<noteq> 0" by simp
qed

lemma claimed_row_grants:
  assumes "sq_in_range s" "sq_queue_ok s" "db_work_items s i = Some r"
    and "wi_id r' = wi_id r" "sw_status r' = ItemClaimed" "sw_lease_epoch r' = sw_lease_epoch r + 1"
    and "wi_lease_fence r' = db_term s * 4294967296 + sw_lease_epoch r + 1"
    and "sw_last_lease_fence r' = sw_last_lease_fence r \<or> sw_last_lease_fence r' = None"
  shows "sq_grants s i (wi_lease_fence r') (s\<lparr>db_work_items := (db_work_items s)(i \<mapsto> r')\<rparr>)"
proof -
  have ok: "sq_row_ok i r" using assms(2,3) by (simp add: sq_queue_ok_def)
  have "epoch_after_expiry_of f < sw_lease_epoch r + 1" if "sw_last_lease_fence r' = Some f" for f
    using ok assms(8) that by (auto simp: sq_row_ok_def)
  then have "sq_row_ok i r'" using ok assms(4-7) minted(3,4) [OF assms(1-3)] by (simp add: sq_row_ok_def order_less_imp_le)
  then show ?thesis using assms by (auto simp: sq_grants_def claimed_def)
qed

lemma take_lease_grants:
  assumes "sq_in_range s" "sq_queue_ok s" "db_work_items s i = Some r" "sq_take_lease now w len i s = (s', claim)"
  shows "\<exists>f. grant_of claim = Some (i, f) \<and> sq_grants s i f s'"
proof -
  let ?f = "db_term s * 4294967296 + sw_lease_epoch r + 1"
  let ?r = "(claimed_row now w len (sw_lease_epoch r + 1) ?f r)\<lparr>sw_lease_secs := Some len\<rparr>"
  have "wi_id r = i" using assms(2,3) by (simp add: sq_queue_ok_def sq_row_ok_def)
  moreover have "sq_grants s i (wi_lease_fence ?r) (s\<lparr>db_work_items := (db_work_items s)(i \<mapsto> ?r)\<rparr>)"
    by (rule claimed_row_grants [OF assms(1-3)]) (simp_all add: claimed_row_def)
  ultimately show ?thesis
    using assms(3,4) minted(1,2) [OF assms(1-3)]
    by (auto simp: sq_take_lease_def Let_def update_item_def in_scope_def grant_of_def row_to_work_item_def work_item.defs claimed_row_def)
qed

lemma sq_claim_grants:
  assumes "sq_in_range s" "sq_queue_ok s" "sq_claim_pending sc now ids w qs ls s = (s', claim)"
  shows "s' = s \<and> grant_of claim = None \<or> (\<exists>i f. grant_of claim = Some (i, f) \<and> sq_grants s i f s')"
proof (cases "oldest s (filter (sq_claimable sc now qs s) ids)")
  case None
  then show ?thesis using assms(3) by (auto simp: sq_claim_pending_def grant_of_def)
next
  case (Some i)
  then have take: "sq_take_lease now w (granted_lease_secs ls) i s = (s', claim)" using assms(3) by (simp add: sq_claim_pending_def)
  show ?thesis
  proof (cases "db_work_items s i")
    case None
    then show ?thesis using take by (auto simp: sq_take_lease_def grant_of_def)
  next
    case (Some r)
    then show ?thesis using take_lease_grants [OF assms(1,2) Some take] by blast
  qed
qed

lemma reattach_grants:
  assumes "sq_in_range s" "sq_queue_ok s" "sq_reattach_lease sc now i w lost s = (s', res)"
  shows "s' = s \<and> \<not> is_ok res \<or> (\<exists>renewal. res = Inr renewal \<and> sq_grants s i (lr_lease_fence renewal) s' \<and> sq_remembers s i lost)"
proof (cases "db_work_items s i")
  case None
  then show ?thesis using assms(3) by (auto simp: sq_reattach_lease_def)
next
  case (Some r)
  show ?thesis
  proof (cases "in_scope sc (wi_tenant_id r) \<and> reattachable w lost r")
    case False
    then show ?thesis using Some assms(3) by (auto simp: sq_reattach_lease_def)
  next
    case True
    let ?f = "db_term s * 4294967296 + sw_lease_epoch r + 1"
    define len where "len = (case sw_lease_secs r of Some l \<Rightarrow> l | None \<Rightarrow> default_lease_secs)"
    let ?r = "(claimed_row now w len (sw_lease_epoch r + 1) ?f r)\<lparr>wi_attempt := wi_attempt r - 1, sw_last_worker_id := None, sw_last_lease_fence := None\<rparr>"
    have "sq_grants s i (wi_lease_fence ?r) (s\<lparr>db_work_items := (db_work_items s)(i \<mapsto> ?r)\<rparr>)"
      by (rule claimed_row_grants [OF assms(1,2) Some]) (simp_all add: claimed_row_def)
    moreover have "sq_remembers s i lost" using True Some by (auto simp: sq_remembers_def row_remembers_def)
    ultimately show ?thesis
      using True Some assms(3) minted(1,2) [OF assms(1,2) Some]
      by (auto simp: sq_reattach_lease_def Let_def update_item_def reattachable_def claimed_row_def len_def)
  qed
qed

text \<open>Every step moves the rows on or sq_grants one lease.\<close>

lemma step_cases:
  assumes "sql_step x fresh s l s'" "sq_queue_ok s"
  obtains "l = None" "rows_evolve s s'" | i f where "l = Some (i, f)" "sq_grants s i f s'"
proof -
  have r: "sq_in_range s" using assms(1) by (simp add: sql_step_def)
  obtain sc where op: "sql_op x fresh sc s l s'" using assms(1) by (auto simp: sql_step_def)
  from rows.op_cases [OF op] show thesis
  proof (elim disjE exE conjE)
    assume "l = None" "rows_evolve s s'"
    then show thesis by (rule that)
  next
    fix now ids w qs ls claim
    assume "sq_claim_pending sc now ids w qs ls s = (s', claim)" "l = grant_of claim"
    then show thesis using sq_claim_grants [OF r assms(2)] that rows_evolve_refl by metis
  next
    fix now i w f res
    assume "sq_reattach_lease sc now i w f s = (s', res)" "l = (case res of Inr renewal \<Rightarrow> Some (i, lr_lease_fence renewal) | Inl _ \<Rightarrow> None)"
    then show thesis using reattach_grants [OF r assms(2)] that rows_evolve_refl by (cases res) fastforce+
  qed
qed

lemma step_grants: "sql_step x fresh s (Some (i, f)) s' \<Longrightarrow> sq_queue_ok s \<Longrightarrow> sq_grants s i f s'"
  by (erule (1) step_cases) auto

lemma rows_evolve_ok: "rows_evolve s s' \<Longrightarrow> sq_queue_ok s \<Longrightarrow> sq_queue_ok s'"
  unfolding sq_queue_ok_def
proof (intro conjI allI impI)
  fix i r'
  assume e: "rows_evolve s s'" and ok: "0 \<le> db_term s \<and> (\<forall>i r. db_work_items s i = Some r \<longrightarrow> sq_row_ok i r)" and r': "db_work_items s' i = Some r'"
  show "sq_row_ok i r'"
  proof (cases "db_work_items s i")
    case None
    then show ?thesis using rows_evolve_None [OF e None r'] by (simp add: fresh_row_def)
  next
    case (Some r)
    then show ?thesis using rows_evolve_Some [OF e Some] ok r' by (auto simp: row_evolves_def)
  qed
qed (auto simp: rows_evolve_def)

lemma rows_evolve_epoch: "rows_evolve s s' \<Longrightarrow> sq_queue_ok s \<Longrightarrow> sq_epoch s i \<le> sq_epoch s' i"
  using rows_evolve_ok [of s s'] rows_evolve_Some [of s s' i]
  by (cases "db_work_items s i"; cases "db_work_items s' i") (auto simp: sq_epoch_def row_evolves_def sq_queue_ok_def sq_row_ok_def)

lemma rows_evolve_accepts: "rows_evolve s s' \<Longrightarrow> sq_accepts s' i f \<Longrightarrow> sq_accepts s i f"
  using rows_evolve_Some [of s s' i] rows_evolve_None [of s s' i]
  by (cases "db_work_items s i"; cases "db_work_items s' i") (auto simp: sq_accepts_def row_evolves_def fresh_row_def)

lemma rows_evolve_holds: "rows_evolve s s' \<Longrightarrow> sq_holds s' i f \<Longrightarrow> f \<noteq> 0 \<Longrightarrow> sq_holds s i f"
  using rows_evolve_Some [of s s' i] rows_evolve_None [of s s' i]
  by (cases "db_work_items s i"; cases "db_work_items s' i") (auto simp: sq_holds_def row_evolves_def claimed_under_def fresh_row_def)

lemma holds_accepts: "sq_queue_ok s \<Longrightarrow> sq_holds s i f \<Longrightarrow> sq_accepts s i f"
  by (auto simp: sq_holds_def sq_accepts_def claimed_under_def sq_queue_ok_def sq_row_ok_def split: option.splits)

lemma rows_evolve_remembers:
  "rows_evolve s s' \<Longrightarrow> sq_queue_ok s \<Longrightarrow> sq_remembers s' i f \<Longrightarrow> sq_remembers s i f \<or> sq_holds s i f"
  using rows_evolve_Some [of s s' i] rows_evolve_None [of s s' i]
  by (cases "db_work_items s i"; cases "db_work_items s' i")
    (auto simp: sq_holds_def sq_remembers_def row_evolves_def fresh_row_def sq_queue_ok_def)

lemma sq_grants_rows:
  assumes "sq_grants s i f s'"
  shows "sq_queue_ok s \<Longrightarrow> sq_queue_ok s'" and "sq_bound s i < f" and "sq_bound s' i = f" and "sq_accepts s' i g \<longleftrightarrow> g = f"
    and "\<not> sq_remembers s' i g" and "j \<noteq> i \<Longrightarrow> db_work_items s' j = db_work_items s j" and "db_term s' = db_term s"
proof -
  obtain r r' where g: "db_work_items s i = Some r" "db_work_items s' = (db_work_items s)(i \<mapsto> r')" "db_term s' = db_term s"
      "sq_row_ok i r'" "claimed r'" "sw_lease_epoch r' = sw_lease_epoch r + 1" "wi_lease_fence r' = f"
      "f = db_term s * 4294967296 + sw_lease_epoch r + 1"
    using assms by (auto simp: sq_grants_def)
  show "sq_queue_ok s \<Longrightarrow> sq_queue_ok s'" using g(2,3,4) by (auto simp: sq_queue_ok_def)
  show "sq_bound s i < f" and "sq_bound s' i = f" using g by (simp_all add: sq_bound_def sq_epoch_def)
  have "f \<noteq> 0" using g(4,5,7) by (simp add: sq_row_ok_def)
  then show "sq_accepts s' i g \<longleftrightarrow> g = f" using g(2,7) by (auto simp: sq_accepts_def)
  show "\<not> sq_remembers s' i g" using g(2,5) by (auto simp: sq_remembers_def row_remembers_def reattachable_def claimed_def)
  show "j \<noteq> i \<Longrightarrow> db_work_items s' j = db_work_items s j" and "db_term s' = db_term s" using g(2,3) by simp_all
qed

lemma step_bound:
  assumes "sq_queue_ok s" "sql_step x fresh s l s'"
  shows "sq_bound s i \<le> sq_bound s' i"
  using assms(2,1)
proof (rule step_cases)
  assume "rows_evolve s s'"
  then show ?thesis using rows_evolve_epoch [OF _ assms(1)] by (auto simp: sq_bound_def rows_evolve_def intro!: add_mono)
next
  fix j f
  assume g: "sq_grants s j f s'"
  then show ?thesis using sq_grants_rows(2,3) [OF g] sq_grants_rows(6,7) [OF g] by (cases "i = j") (auto simp: sq_bound_def sq_epoch_def)
qed

lemma step_ok: "sq_queue_ok s \<Longrightarrow> sql_step x fresh s l s' \<Longrightarrow> sq_queue_ok s'"
  by (rule step_cases) (auto intro: rows_evolve_ok sq_grants_rows(1))

lemma step_accepts:
  assumes "sq_queue_ok s" "sql_step x fresh s l s'" "sq_accepts s' i f"
  shows "l = Some (i, f) \<or> sq_accepts s i f"
  using assms(2,1)
proof (rule step_cases)
  assume "rows_evolve s s'"
  then show ?thesis using rows_evolve_accepts assms(3) by blast
next
  fix j g
  assume l: "l = Some (j, g)" and g: "sq_grants s j g s'"
  then show ?thesis using sq_grants_rows(4,6) [OF g] assms(3) by (cases "i = j") (auto simp: sq_accepts_def)
qed

lemma step_holds:
  assumes "sq_queue_ok s" "sql_step x fresh s l s'" "sq_holds s' i f"
  shows "l = Some (i, f) \<or> sq_holds s i f"
proof -
  have f: "sq_accepts s' i f" using holds_accepts [OF step_ok [OF assms(1,2)] assms(3)] .
  from assms(2,1) show ?thesis
  proof (rule step_cases)
    assume "rows_evolve s s'"
    then show ?thesis using rows_evolve_holds assms(3) f by (auto simp: sq_accepts_def)
  next
    fix j g
    assume l: "l = Some (j, g)" and g: "sq_grants s j g s'"
    then show ?thesis using sq_grants_rows(4,6) [OF g] f assms(3) by (cases "i = j") (auto simp: sq_holds_def)
  qed
qed

lemma step_remembers:
  assumes "sq_queue_ok s" "sql_step x fresh s l s'" "sq_remembers s' i f"
  shows "sq_remembers s i f \<or> sq_holds s i f"
  using assms(2,1)
proof (rule step_cases)
  assume "rows_evolve s s'"
  then show ?thesis using rows_evolve_remembers assms(1,3) by blast
next
  fix j g
  assume g: "sq_grants s j g s'"
  then show ?thesis using sq_grants_rows(5,6) [OF g] assms(3) by (cases "i = j") (auto simp: sq_remembers_def)
qed

lemma step_grant_above:
  assumes "sq_queue_ok s" "sql_step x fresh s (Some (i, f)) s'"
  shows "sq_bound s i < f" and "f \<le> sq_bound s' i" and "sq_accepts s' i f" and "sq_holds s' i f" and "\<not> sq_remembers s' i g"
proof -
  have g: "sq_grants s i f s'" using assms step_grants by blast
  then show "sq_bound s i < f" and "f \<le> sq_bound s' i" and "sq_accepts s' i f" and "\<not> sq_remembers s' i g" using sq_grants_rows(2-5) [OF g] by auto
  from g show "sq_holds s' i f" by (auto simp: sq_grants_def sq_holds_def claimed_under_def)
qed

text \<open>The contract holds with a fence accepted while it is on the row, which is all that the settle of a rollover asks,
  and with a fence accepted while its lease is live, as all other operations ask.\<close>

interpretation sq: fenced_queue "sql_step x fresh" sq_queue_ok sq_bound sq_accepts sq_remembers
  for x fresh
proof (unfold_locales, goal_cases)
  case (5 s i f g)
  then show ?case by (auto simp: sq_accepts_def split: option.splits)
next
  case (6 s l s' i f)
  then show ?case using step_remembers holds_accepts by blast
qed (simp_all add: step_ok step_bound step_accepts step_grant_above)

interpretation sl: fenced_queue "sql_step x fresh" sq_queue_ok sq_bound sq_holds sq_remembers
  for x fresh
proof (unfold_locales, goal_cases)
  case (5 s i f g)
  then show ?case by (auto simp: sq_holds_def claimed_under_def split: option.splits)
next
  case (6 s l s' i f)
  then show ?case by (rule step_remembers)
qed (simp_all add: step_ok step_bound step_holds step_grant_above)

end
