(* ===== verification/Sql_Leases.thy ===== *)
theory Sql_Leases
  imports Sql_Fences Backend_Log
begin

text \<open>
  What the leases of the SQLite store promise over every history of it: fences increase, a lease settles its
  item at most once, and one that was lost, for whatever reason, never does; and two places where the statements of the store ask for less.
\<close>

context fenced_queue
begin

text \<open>What is no longer accepted, and not above the bound, is not accepted again.\<close>

lemma lost_stays_lost:
  "run s ls s' \<Longrightarrow> ok s \<Longrightarrow> f \<le> bound s i \<Longrightarrow> \<not> accepts s i f \<Longrightarrow> \<not> accepts s' i f"
proof (induction rule: run.induct)
  case (run_snoc s ls s' l s'')
  have ok: "ok s'" and "bound s i \<le> bound s' i" using run_ok granted_bounded run_snoc by blast+
  then have "l \<noteq> Some (i, f)" using grant_above [OF ok] run_snoc.hyps(2) run_snoc.prems(2) by force
  then show ?case using accepts_step [OF ok run_snoc.hyps(2)] run_snoc by blast
qed simp

end

section \<open>Histories\<close>

inductive sql_trace ::
    "externals \<Rightarrow> (execution_id \<Rightarrow> event_sequence \<Rightarrow> uuid) \<Rightarrow> sql_store \<Rightarrow> grant_label list \<Rightarrow> sql_store \<Rightarrow> bool"
  for x fresh where
  sql_nil: "sql_trace x fresh s [] s"
| sql_snoc: "sql_trace x fresh s ls s' \<Longrightarrow> sql_step x fresh s' l s'' \<Longrightarrow> sql_trace x fresh s (ls @ [l]) s''"

text \<open>The store as the migrations leave it: the default tenant, and term zero.\<close>

definition sq_new :: "timestamp \<Rightarrow> sql_store" where
  "sq_new now = \<lparr>db_workflows = Map.empty, db_executions = Map.empty, db_events = [], db_snapshots = [], db_work_items = Map.empty,
     db_dead_letter = Map.empty, db_term = 0, db_tool_effects = Map.empty, db_reservations = Map.empty, db_artifacts = Map.empty,
     db_tenants = [default_tenant \<mapsto> \<lparr>tn_id = default_tenant, tn_name = ''Default'', tn_status = TenantActive, tn_policy = None,
                     tn_limits = None, tn_created_at = now, tn_updated_at = now\<rparr>],
     db_tokens = Map.empty, db_proj_approvals = Map.empty, db_projector_checkpoints = Map.empty\<rparr>"

lemma sql_trace_run: "sql_trace x fresh s ls s' \<Longrightarrow> fenced_queue.run (sql_step x fresh) s ls s'"
  by (induction rule: sql_trace.induct) (auto intro: sq.run.intros)

lemma sq_new_ok: "sq_queue_ok (sq_new now)" and sq_new_bound: "sq_bound (sq_new now) i = 0"
  by (simp_all add: sq_queue_ok_def sq_bound_def sq_epoch_def sq_new_def)

lemma sq_trace_ok: "sql_trace x fresh (sq_new now) ls s \<Longrightarrow> sq_queue_ok s"
  using sq.run_ok [OF sql_trace_run sq_new_ok] .

lemma sq_granted_bounds:
  assumes "sql_trace x fresh (sq_new now) ls s"
  shows "sorted_wrt (<) (granted_fences i ls)" and "f \<in> set (granted_fences i ls) \<Longrightarrow> 0 < f \<and> f \<le> sq_bound s i"
  using sq.granted_bounded [OF sql_trace_run [OF assms] sq_new_ok, of i] by (simp_all add: granted_fences_eq sq_new_bound)

section \<open>A lease that was lost\<close>

text \<open>Every operation under a fence looks for an item that is claimed under it.\<close>

lemma not_held_refused:
  assumes "\<not> sq_holds s i f"
  shows "sq_complete_work_item_fenced sc now i f s = (s, False)" and "sq_withdraw_work_item_fenced sc i f s = (s, False)"
    and "sq_park_work_item sc i f t n s = (s, False)" and "sq_fail_work_item_fenced sc now i f err s = (s, Inr None)"
    and "sq_renew_lease sc now i w f s = (s, Inl (FenceLost i))"
    and "fst (sq_commit_turn_inner sc fresh now i f ev snap refuse s) = s"
    and "\<exists>er. snd (sq_commit_turn_inner sc fresh now i f ev snap refuse s) = Inl er"
proof -
  have u: "update_item sc i (\<lambda>r. P r \<and> claimed_under f r) g s = (s, False)" for P g
    using assms by (auto simp: update_item_def sq_holds_def split: option.split)
  have c: "update_item sc i (claimed_under f) g s = (s, False)" for g using u [of "\<lambda>_. True"] by simp
  then show "sq_complete_work_item_fenced sc now i f s = (s, False)" and "sq_withdraw_work_item_fenced sc i f s = (s, False)"
    and "sq_park_work_item sc i f t n s = (s, False)"
    by (simp_all add: sq_complete_work_item_fenced_def sq_withdraw_work_item_fenced_def sq_park_work_item_def)
  show "sq_fail_work_item_fenced sc now i f err s = (s, Inr None)"
    using assms by (auto simp: sq_fail_work_item_fenced_def sq_holds_def split: option.split)
  show "sq_renew_lease sc now i w f s = (s, Inl (FenceLost i))" by (simp add: sq_renew_lease_def u)
  show "fst (sq_commit_turn_inner sc fresh now i f ev snap refuse s) = s"
    and "\<exists>er. snd (sq_commit_turn_inner sc fresh now i f ev snap refuse s) = Inl er"
    by (simp_all add: sq_commit_turn_inner_def sq_withdraw_work_item_fenced_def c Let_def split: option.split)
qed

text \<open>The operations that settle an item under the fence of a lease, with what they are given beside the fence; the second
  component says whether the store accepted.\<close>

datatype settlement =
    Complete timestamp
  | Withdraw
  | Park timestamp nat
  | Fail timestamp string
  | Commit timestamp event bool bool

fun settle_under ::
    "scope \<Rightarrow> (execution_id \<Rightarrow> event_sequence \<Rightarrow> uuid) \<Rightarrow> work_item_id \<Rightarrow> int \<Rightarrow> settlement \<Rightarrow> sql_store \<Rightarrow> sql_store \<times> bool" where
  "settle_under sc fresh i f (Complete now) s = sq_complete_work_item_fenced sc now i f s"
| "settle_under sc fresh i f Withdraw s = sq_withdraw_work_item_fenced sc i f s"
| "settle_under sc fresh i f (Park retry_after next_attempt) s = sq_park_work_item sc i f retry_after next_attempt s"
| "settle_under sc fresh i f (Fail now error) s =
     apsnd (\<lambda>r. case r of Inr (Some _) \<Rightarrow> True | _ \<Rightarrow> False) (sq_fail_work_item_fenced sc now i f error s)"
| "settle_under sc fresh i f (Commit now ev snap refuse) s =
     apsnd (\<lambda>r. case r of Inr _ \<Rightarrow> True | Inl _ \<Rightarrow> False) (sq_commit_turn_inner sc fresh now i f ev snap refuse s)"

lemma refused_settlement:
  assumes "\<not> sq_holds s i f"
  shows "settle_under sc fresh i f op s = (s, False)"
  using not_held_refused [OF assms] by (cases op) (simp_all, metis apsnd_conv prod.collapse sum.case(1))

text \<open>What is accepted uses the lease up.\<close>

lemma updated_not_held:
  "update_item sc i P g s = (s', True) \<Longrightarrow> (\<And>r. \<not> claimed (g r)) \<Longrightarrow> \<not> sq_holds s' i f"
  by (auto simp: update_item_def sq_holds_def claimed_under_def split: option.splits if_splits)

lemma unclaimed_rows [simp]:
  "\<not> claimed (completed_row now r)" "\<not> claimed (failed_row r)" "\<not> claimed ((failed_row r)\<lparr>sw_completed_at := t\<rparr>)"
  "\<not> claimed (requeued_row n r)" "\<not> claimed ((requeued_row n r)\<lparr>sw_retry_after := t\<rparr>)" "\<not> claimed (dead_row n r)"
  by (simp_all add: claimed_def completed_row_def failed_row_def requeued_row_def dead_row_def)

lemma same_rows_held: "db_work_items t = db_work_items s \<Longrightarrow> sq_holds t i f = sq_holds s i f"
  by (simp add: sq_holds_def)

lemma committed_rows:
  assumes "and_then (append_row own ev s) (\<lambda>(t, seq). and_then (if snap then sq_snapshot_turn sc fresh now e (sq_record_effect sc kind t)
      else Inr (sq_record_effect sc kind t)) (\<lambda>u. Inr (u, Committed seq))) = Inr (s', out)"
  shows "db_work_items s' = db_work_items s"
  using assms insert_frames(1,3)
  by (auto simp: and_then_def append_row_def sq_snapshot_turn_def sq_record_effect_def Let_def
      split: sum.splits if_splits event_kind.splits option.splits)

lemma commit_not_held:
  assumes "sq_commit_turn_inner sc fresh now i f ev snap refuse s = (s', Inr out)"
  shows "\<not> sq_holds s' i f"
proof -
  let ?status = "if refuse then terminal_status_of sc (ev_execution_id ev) s else None"
  have turn: "is_turn_end (ev_kind ev)" using assms by (cases "is_turn_end (ev_kind ev)") (simp_all add: sq_commit_turn_inner_def)
  show ?thesis
  proof (cases ?status)
    case (Some status)
    obtain t b where t: "sq_withdraw_work_item_fenced sc i f s = (t, b)" by fastforce
    then have "b" "t = s'" using assms turn Some by (cases b; simp add: sq_commit_turn_inner_def Let_def)+
    then show ?thesis using t updated_not_held [of sc i "claimed_under f" failed_row s s' f] by (simp add: sq_withdraw_work_item_fenced_def)
  next
    case None
    define g where "g = (case ev_kind ev of NodeCompleted _ \<Rightarrow> completed_row now | _ \<Rightarrow> (\<lambda>r. (failed_row r)\<lparr>sw_completed_at := None\<rparr>))"
    have un: "\<not> claimed (g r)" for r by (simp add: g_def split: event_kind.split)
    obtain t b where t: "update_item sc i (claimed_under f) g s = (t, b)" by fastforce
    let ?rest = "and_then (append_row (stamp sc) ev t) (\<lambda>(t', seq). and_then (if snap then sq_snapshot_turn sc fresh now
        (ev_execution_id ev) (sq_record_effect sc (ev_kind ev) t') else Inr (sq_record_effect sc (ev_kind ev) t')) (\<lambda>u. Inr (u, Committed seq)))"
    have b: "b" using assms turn None t by (cases b) (simp_all add: sq_commit_turn_inner_def Let_def g_def [symmetric])
    have "transaction s ?rest = (s', Inr out)"
      using assms turn None t b unfolding sq_commit_turn_inner_def Let_def g_def [symmetric] by simp
    then have "?rest = Inr (s', out)" by (cases ?rest) (auto simp: transaction_def)
    then have "sq_holds s' i f = sq_holds t i f" by (intro same_rows_held committed_rows)
    moreover have "\<not> sq_holds t i f" by (rule updated_not_held [OF _ un]) (use t b in simp)
    ultimately show ?thesis by simp
  qed
qed

lemma accepted_settlement:
  assumes "settle_under sc fresh i f op s = (s', True)"
  shows "\<not> sq_holds s' i f"
proof (cases op)
  case (Fail now error)
  then show ?thesis using assms
    by (auto simp: sq_fail_work_item_fenced_def transaction_def and_then_def Let_def apsnd_def map_prod_def sq_holds_def update_item_def claimed_under_def
        dest!: insert_frames(4) split: option.splits if_splits sum.splits prod.splits)
next
  case (Commit now ev snap refuse)
  then show ?thesis using assms commit_not_held by (auto simp: apsnd_def map_prod_def split: prod.splits sum.splits)
qed (use assms in \<open>simp_all add: sq_complete_work_item_fenced_def sq_withdraw_work_item_fenced_def sq_park_work_item_def updated_not_held\<close>)

text \<open>C17: A lease of the SQLite store settles at most once, and never after it was lost.  Take a state of the store in which the
  lease is lost - the sweep or a claim took it back, its item was settled, or another worker was granted the item - or
  which one of the five settlements accepted under its fence has just left: a completion, withdrawal, parking, failure or
  commit of a turn.  Then in every later state, in any interleaving of operations and under any tenant, each of the five is
  refused under that fence and so is a renewal, and the store is left as it was.  (A heartbeat may get a new lease with a fence
  of its own, and the end of a rollover, which does not ask whether the item is still claimed, is not one of the five.)\<close>

theorem sql_lost_lease_settles_nothing:
  assumes "sql_trace x fresh (sq_new t0) ls s" and "f \<in> set (granted_fences i ls)"
    and "\<not> sq_holds s i f \<or> (\<exists>sc0 fresh0 op0 s0. settle_under sc0 fresh0 i f op0 s0 = (s, True))"
    and "sql_trace x fresh s ls' s'"
  shows "settle_under sc fresh' i f op s' = (s', False) \<and> sq_renew_lease sc now i w f s' = (s', Inl (FenceLost i))"
proof -
  have "f \<le> sq_bound s i" using sq_granted_bounds(2) [OF assms(1,2)] by simp
  moreover have "\<not> sq_holds s i f" using assms(3) accepted_settlement by blast
  ultimately have "\<not> sq_holds s' i f" using sl.lost_stays_lost [OF sql_trace_run [OF assms(4)] sq_trace_ok [OF assms(1)]] by blast
  then show ?thesis by (simp add: refused_settlement not_held_refused(5))
qed

section \<open>A store with one item\<close>

definition sq_queued :: sql_store where
  "sq_queued = fst (sq_enqueue_work_item None sample_item (fst (sq_create_execution None sample_execution (sq_new 0))))"

definition ann_claims :: "sql_store \<Rightarrow> sql_store \<times> work_item option" where
  "ann_claims s = sq_claim_pending None 0 [''w''] ''ann'' [''tool''] None s"

definition ann_row :: sql_work_item where
  "ann_row = (claimed_row 0 ''ann'' 30 1 1 (new_row None sample_item))\<lparr>sw_lease_secs := Some 30\<rparr>"

definition sq_with :: "sql_work_item \<Rightarrow> sql_store" where
  "sq_with r = sq_queued\<lparr>db_work_items := [''w'' \<mapsto> r]\<rparr>"

lemma sq_queued_parts:
  "db_work_items sq_queued = [''w'' \<mapsto> new_row None sample_item]" "db_term sq_queued = 0" "db_executions sq_queued ''x'' \<noteq> None"
  "db_tenants sq_queued default_tenant \<noteq> None" "db_dead_letter sq_queued = Map.empty"
  by (simp_all add: sq_queued_def sq_enqueue_work_item_def sq_create_execution_def insert_execution_def insert_item_def transaction_def
      sq_new_def stamp_def sample_item_def sample_execution_def workflow_execution.defs)

lemma sq_queued_with: "sq_queued = sq_with (new_row None sample_item)"
  by (simp add: sq_with_def sq_queued_parts(1) [symmetric])

lemmas sq_rows = new_row_def ann_row_def claimed_row_def requeued_row_def expired_row_def completed_row_def dead_row_def work_item.defs sample_item_def

lemma sq_with_in_range: "0 \<le> sw_lease_epoch r \<Longrightarrow> sw_lease_epoch r < 9 \<Longrightarrow> sq_in_range (sq_with r)"
  by (simp add: sq_in_range_def sq_epoch_def sq_with_def sq_queued_parts)

lemma ann_in_range: "sq_in_range (sq_with ann_row)"
  by (rule sq_with_in_range) (simp_all add: sq_rows)

lemma ann_claims_item:
  "ann_claims (sq_with (new_row None sample_item)) =
     (sq_with ann_row, Some (sample_item\<lparr>wi_worker_id := Some ''ann'', wi_lease_fence := 1, wi_lease_expires_at := Some 30000\<rparr>))"
  by (simp add: ann_claims_def sq_claim_pending_def oldest_def sq_claimable_def sq_take_lease_def update_item_def sq_with_def sq_queued_parts
      in_scope_def sq_mint_fence_def row_to_work_item_def granted_lease_secs_def default_lease_secs_def wrap_i64_def Let_def stamp_def sq_rows)

lemma ann_trace: "sql_trace x fresh (sq_new 0) [None, None, Some (''w'', 1)] (sq_with ann_row)"
proof -
  let ?created = "fst (sq_create_execution None sample_execution (sq_new 0))"
  have r: "sq_in_range (sq_new 0)" "sq_in_range ?created"
    by (simp_all add: sq_in_range_def sq_epoch_def sq_create_execution_def insert_execution_def transaction_def sq_new_def)
  have r3: "sq_in_range sq_queued" unfolding sq_queued_with by (rule sq_with_in_range) (simp_all add: sq_rows)
  have "sql_step x fresh (sq_new 0) None ?created" "sql_step x fresh ?created None sq_queued"
    unfolding sq_queued_def by (rule sql_stepI [OF r(1) sop_create] sql_stepI [OF r(2) sop_enqueue])+
  moreover have "sql_step x fresh sq_queued (Some (''w'', 1)) (sq_with ann_row)"
    using sql_stepI [OF r3 [unfolded sq_queued_with] sop_claim [OF ann_claims_item [unfolded ann_claims_def], of x fresh]]
    by (simp add: grant_of_def sq_queued_with sample_item_def)
  ultimately show ?thesis using sql_snoc [OF sql_snoc [OF sql_snoc [OF sql_nil]]] by fastforce
qed

definition swept_row :: sql_work_item where
  "swept_row = (expired_row 1 ann_row)\<lparr>sw_retry_after := Some 62000\<rparr>"

lemma ann_swept:
  "sq_reclaim_item None 60000 (row_to_work_item ann_row) (sq_with ann_row) =
     (sq_with swept_row, Inr (Some ((row_to_work_item ann_row)\<lparr>wi_attempt := 1\<rparr>, True)))"
  by (simp add: sq_reclaim_item_def update_item_def sq_with_def in_scope_def claimed_def swept_row_def wrap_u32_def row_to_work_item_def
      backoff_secs_def Let_def sq_rows)

lemma swept_trace: "sql_trace x fresh (sq_new 0) [None, None, Some (''w'', 1), None] (sq_with swept_row)"
proof -
  have "sql_step x fresh (sq_with ann_row) None (sq_with swept_row)"
    using sql_stepI [OF ann_in_range sop_reclaim [of x fresh None "sq_with ann_row" 60000 "row_to_work_item ann_row"]] by (simp add: ann_swept)
  from sql_snoc [OF ann_trace this] show ?thesis by simp
qed

theorem sql_lost_lease_settles_nothing_witness:
  "sql_trace sample_externals (\<lambda>_ _. ''e'') (sq_new 0) [None, None, Some (''w'', 1), None] (sq_with swept_row) \<and>
   settle_under None (\<lambda>_ _. ''e'') ''w'' 1 (Complete 60000) (sq_with swept_row) = (sq_with swept_row, False)"
proof -
  have "\<not> sq_holds (sq_with swept_row) ''w'' 1"
    by (simp add: sq_holds_def sq_with_def claimed_under_def swept_row_def sq_rows)
  then have "settle_under None (\<lambda>_ _. ''e'') ''w'' 1 (Complete 60000) (sq_with swept_row) = (sq_with swept_row, False)"
    using sql_lost_lease_settles_nothing [OF swept_trace [of sample_externals "\<lambda>_ _. ''e''"] _ _ sql_nil, of 1 "''w''"]
    by (simp add: granted_fences_def del: settle_under.simps)
  then show ?thesis using swept_trace by simp
qed

section \<open>The sweep\<close>

lemma reclaim_item_spares: "wi_id item \<noteq> i \<Longrightarrow> db_work_items (fst (sq_reclaim_item sc now item s)) i = db_work_items s i"
proof -
  assume i: "wi_id item \<noteq> i"
  have u: "update_item sc (wi_id item) P f s = (d, b) \<Longrightarrow> db_work_items d i = db_work_items s i" for P f d b
    using i by (auto simp: update_item_def split: option.splits if_splits)
  have "db_work_items (fst (transaction d (and_then (insert_dead_letter sc c now err out d) (\<lambda>s. Inr (s, v))))) i = db_work_items d i"
    for c err out d and v :: "(work_item \<times> bool) option"
    by (auto simp: transaction_def insert_dead_letter_def)
  then show ?thesis using u by (auto simp: sq_reclaim_item_def Let_def split: prod.split bool.split)
qed

lemma reclaim_items_spare:
  "i \<notin> wi_id ` set items \<Longrightarrow> db_work_items (fst (sq_reclaim_items sc now (\<lambda>_ s. s) items acc s)) i = db_work_items s i"
proof (induction items arbitrary: acc s)
  case (Cons item items)
  obtain s' r where r: "sq_reclaim_item sc now item s = (s', r)" by fastforce
  then have "db_work_items s' i = db_work_items s i" using reclaim_item_spares [of item i sc now s] Cons.prems by auto
  then show ?case using Cons r by (auto split: sum.split option.split bool.split)
qed simp

text \<open>the sweep of the SQLite store, when nothing comes between its statements, takes no lease that has time left:
  the row of every item whose lease has not expired is as it was, whatever the other items are.\<close>

theorem sweep_alone_spares_live:
  assumes "sq_queue_ok s" and "db_work_items s i = Some r" and "\<not> sq_lapsed sc now r"
  shows "db_work_items (fst (sq_reclaim_expired_leases sc now (\<lambda>_ s. s) ids s)) i = Some r"
proof -
  have "wi_id r' = j" if "db_work_items s j = Some r'" for j r' using assms(1) that by (auto simp: sq_queue_ok_def sq_row_ok_def)
  then have "i \<notin> wi_id ` set (sq_expired_items sc now ids s)"
    using assms(2,3) by (auto simp: sq_expired_items_def row_to_work_item_def work_item.defs)
  then show ?thesis using assms(2) by (simp add: sq_reclaim_expired_leases_def reclaim_items_spare)
qed

definition ann_renews :: "sql_store \<Rightarrow> sql_store \<times> (backend_error + unit)" where
  "ann_renews s = sq_renew_lease None 60000 ''w'' ''ann'' 1 s"

definition renewed_row :: sql_work_item where
  "renewed_row = ann_row\<lparr>wi_lease_expires_at := Some 90000\<rparr>"

lemma ann_renews_item: "ann_renews (sq_with ann_row) = (sq_with renewed_row, Inr ())"
  by (simp add: ann_renews_def sq_renew_lease_def update_item_def sq_with_def in_scope_def claimed_under_def claimed_def lease_secs_for_def
      renewed_row_def sq_rows)

theorem sweep_alone_spares_live_witness:
  "db_work_items (fst (sq_reclaim_expired_leases None 60000 (\<lambda>_ s. s) [''w''] (sq_with renewed_row))) ''w'' = Some renewed_row"
proof (rule sweep_alone_spares_live)
  show "sq_queue_ok (sq_with renewed_row)"
    by (auto simp: sq_queue_ok_def sq_row_ok_def sq_with_def sq_queued_parts renewed_row_def fence_epoch_def claimed_def sq_rows split: if_splits)
  show "db_work_items (sq_with renewed_row) ''w'' = Some renewed_row" by (simp add: sq_with_def)
  show "\<not> sq_lapsed None 60000 renewed_row" by (simp add: sq_lapsed_def renewed_row_def)
qed

text \<open>but a heartbeat that comes between the sweep's \<^verbatim>\<open>SELECT\<close> and its \<^verbatim>\<open>UPDATE\<close> is answered with a lease that runs
  for thirty more seconds, and the \<^verbatim>\<open>UPDATE\<close>, which asks for a claimed item and for neither the fence nor the expiry
  that was read, takes this live lease away and puts the item back into the queue.\<close>

theorem sweep_takes_live_lease:
  "ann_renews (sq_with ann_row) = (sq_with renewed_row, Inr ()) \<and> \<not> sq_lapsed None 60000 renewed_row \<and>
   (case sq_reclaim_expired_leases None 60000 (\<lambda>_ s. fst (ann_renews s)) [''w''] (sq_with ann_row) of
      (s, Inr taken) \<Rightarrow> map wi_id (rr_retryable taken) = [''w''] \<and> \<not> sq_holds s ''w'' 1 | _ \<Rightarrow> False)"
proof -
  have "sq_expired_items None 60000 [''w''] (sq_with ann_row) = [row_to_work_item ann_row]"
    by (simp add: sq_expired_items_def sq_with_def sq_lapsed_def claimed_def in_scope_def filter_map_def sq_rows)
  moreover have "sq_reclaim_item None 60000 (row_to_work_item ann_row) (sq_with renewed_row) =
      (sq_with swept_row, Inr (Some ((row_to_work_item ann_row)\<lparr>wi_attempt := 1\<rparr>, True)))"
    by (simp add: sq_reclaim_item_def update_item_def sq_with_def in_scope_def claimed_def swept_row_def wrap_u32_def row_to_work_item_def
      renewed_row_def backoff_secs_def Let_def sq_rows)
  moreover have "\<not> sq_lapsed None 60000 renewed_row" by (simp add: sq_lapsed_def renewed_row_def)
  moreover have "\<not> sq_holds (sq_with swept_row) ''w'' 1" by (simp add: sq_holds_def sq_with_def claimed_under_def swept_row_def sq_rows)
  moreover have "wi_id (row_to_work_item ann_row) = ''w''" by (simp add: row_to_work_item_def sq_rows)
  ultimately show ?thesis by (simp add: sq_reclaim_expired_leases_def ann_renews_item)
qed

section \<open>The settle of a rollover\<close>

definition sq_exhausted :: sql_store where
  "sq_exhausted = fst (sq_fail_work_item_fenced None 0 ''w'' 1 ''boom'' (sq_with (ann_row\<lparr>wi_attempt := 2\<rparr>)))"

text \<open>\<^verbatim>\<open>finalize_rollover_fenced\<close> of the SQLite store is documented to answer false for an item that was settled
  already, but compares the fence alone, which a settled item keeps: an item that was dead-lettered, and stays in the
  table of the dead letters, is marked completed under the fence it failed with, and the call answers true; every other
  operation refuses this fence.\<close>

theorem rollover_completes_dead_letter:
  "db_dead_letter sq_exhausted ''w'' \<noteq> None \<and> \<not> sq_holds sq_exhausted ''w'' 1 \<and>
   (case sq_finalize_rollover_fenced None now ''x'' ''w'' 1 sq_exhausted of
      (s, answer) \<Rightarrow> answer \<and> map_option sw_status (db_work_items s ''w'') = Some ItemCompleted \<and> db_dead_letter s ''w'' \<noteq> None)"
proof -
  let ?row = "ann_row\<lparr>wi_attempt := 2\<rparr>"
  have "\<exists>d. sq_exhausted = (sq_with (dead_row 3 ?row))\<lparr>db_dead_letter := [''w'' \<mapsto> d]\<rparr>"
    using sq_queued_parts
    by (auto simp: sq_exhausted_def sq_fail_work_item_fenced_def update_item_def transaction_def insert_dead_letter_def sq_with_def in_scope_def
        claimed_under_def claimed_def wrap_u32_def row_to_work_item_def stamp_def Let_def sq_rows)
  then obtain d where e: "sq_exhausted = (sq_with (dead_row 3 ?row))\<lparr>db_dead_letter := [''w'' \<mapsto> d]\<rparr>" by blast
  have "db_dead_letter (fst (update_execution_row sc k g s)) = db_dead_letter s" "db_work_items (fst (update_execution_row sc k g s)) = db_work_items s"
    for sc k g and s :: sql_store by (simp_all add: update_execution_row_def split: option.split)
  then show ?thesis
    by (simp add: e sq_finalize_rollover_fenced_def update_item_def sq_with_def in_scope_def sq_holds_def claimed_under_def claimed_def sq_rows)
qed

end
