(* ===== verification/Sql_Log.thy ===== *)
theory Sql_Log
  imports Sql_Leases
begin

text \<open>
  The event log of the SQLite store: the sequence numbers of a run are chosen by the statement that inserts the event,
  and by every operation alike, so that each run counts from one without a gap.
\<close>

definition gapless :: "sql_store \<Rightarrow> bool" where
  "gapless s = (\<forall>e. map ev_sequence (run_rows e s) = map int [1..<Suc (length (run_rows e s))])"

lemma max_of_count: "map ev_sequence rs = map int [1..<Suc (length rs)] \<Longrightarrow> fold (\<lambda>r m. max (ev_sequence r) m) rs 0 = int (length rs)"
proof (induction rs rule: rev_induct)
  case (snoc r rs)
  then show ?case by simp
qed simp

lemma gapless_next: "gapless s \<Longrightarrow> next_sequence e s = int (length (run_rows e s)) + 1"
  by (simp add: gapless_def next_sequence_def max_of_count)

lemma gapless_sorted: "gapless s \<Longrightarrow> sorted (map ev_sequence (run_rows e s))"
  by (simp add: gapless_def sorted_wrt_map del: upt_Suc)

lemma gapless_events: "gapless s \<Longrightarrow> sq_get_events None e s = map event.truncate (run_rows e s)"
  using gapless_sorted by (simp add: sq_get_events_def in_scope_def sort_key_id_if_sorted)

lemma gapless_nth:
  assumes "gapless s" and j: "j < length (run_rows e s)"
  shows "ev_sequence (run_rows e s ! j) = int j + 1"
proof -
  have "map ev_sequence (run_rows e s) ! j = map int [1..<Suc (length (run_rows e s))] ! j" using assms(1) by (simp add: gapless_def del: upt_Suc)
  then show ?thesis using j by (simp del: upt_Suc)
qed

lemma run_rows_length: "length (run_rows e s) \<le> length (db_events s)"
  by (simp add: run_rows_def)

text \<open>The events of a store are kept, in place, and new ones continue the count, within the width of a sequence.\<close>

definition log_grows :: "sql_store \<Rightarrow> sql_store \<Rightarrow> bool" where
  "log_grows s s' = ((\<exists>new. db_events s' = db_events s @ new) \<and> (gapless s \<longrightarrow> int (length (db_events s')) < 2 ^ 63 \<longrightarrow> gapless s'))"

lemma log_grows_refl [simp]: "log_grows s s"
  by (simp add: log_grows_def)

lemma log_grows_trans: "log_grows s t \<Longrightarrow> log_grows t u \<Longrightarrow> log_grows s u"
  by (auto simp: log_grows_def)

lemma log_grows_same: "db_events s' = db_events s \<Longrightarrow> log_grows s s'"
  by (simp add: log_grows_def gapless_def run_rows_def)

lemma insert_event_grows:
  assumes "insert_event t ev s = Inr s'"
    and "gapless s \<Longrightarrow> int (length (db_events s)) + 1 < 2 ^ 63 \<Longrightarrow> ev_sequence ev = next_sequence (ev_execution_id ev) s"
  shows "log_grows s s'"
proof -
  have s': "db_events s' = db_events s @ [event.extend ev \<lparr>sv_tenant_id = t\<rparr>]" using assms(1) by (auto simp: insert_event_def split: if_splits)
  then have r: "run_rows e s' = run_rows e s @ (if ev_execution_id ev = e then [event.extend ev \<lparr>sv_tenant_id = t\<rparr>] else [])" for e
    by (simp add: run_rows_def event.defs)
  have "gapless s'" if "gapless s" "int (length (db_events s')) < 2 ^ 63"
    using that assms(2) gapless_next [OF that(1)] s' by (simp add: gapless_def r event.defs)
  then show ?thesis using s' by (auto simp: log_grows_def)
qed

lemma sq_append_if_grows:
  assumes "sq_append_event_if sc ev cond s = (s', r)"
  shows "log_grows s s'"
proof -
  let ?events = "sq_get_events None (ev_execution_id ev) s"
  have "wrap_i64 ((case ?events of [] \<Rightarrow> 0 | _ \<Rightarrow> ev_sequence (last ?events)) + 1) = next_sequence (ev_execution_id ev) s"
    if g: "gapless s" and b: "int (length (db_events s)) + 1 < 2 ^ 63"
  proof -
    have m: "map ev_sequence (run_rows (ev_execution_id ev) s) = map int [1..<Suc (length (run_rows (ev_execution_id ev) s))]" using g by (simp add: gapless_def)
    have "(case ?events of [] \<Rightarrow> 0 | _ \<Rightarrow> ev_sequence (last ?events)) = int (length (run_rows (ev_execution_id ev) s))"
    proof (cases "run_rows (ev_execution_id ev) s" rule: rev_cases)
      case (snoc rs a)
      then show ?thesis using m by (cases rs) (simp_all add: gapless_events [OF g] event.defs)
    qed (simp add: gapless_events [OF g])
    then show ?thesis using gapless_next [OF g] run_rows_length [of "ev_execution_id ev" s] b by (simp add: wrap_i64_id)
  qed
  then show ?thesis using append_if_cases [OF assms] insert_event_grows by (fastforce simp: Let_def)
qed

interpretation growing: store_frame sc log_grows for sc
proof (unfold_locales, goal_cases)
  case (2 s t u)
  then show ?case by (rule log_grows_trans)
next
  case (5 owner ev s s')
  then show ?case using insert_event_grows by blast
next
  case (6 ev cond s s' r)
  then show ?case by (rule sq_append_if_grows)
qed (auto intro!: log_grows_same simp: insert_execution_def insert_snapshot_def insert_item_def insert_dead_letter_def split: if_splits)

lemma sq_op_grows: "sql_op x fresh sc s l s' \<Longrightarrow> log_grows s s'"
proof (drule growing.op_cases, elim disjE exE conjE)
  fix now ids w qs ls claim
  assume "sq_claim_pending sc now ids w qs ls s = (s', claim)"
  then show ?thesis
    by (auto simp: sq_claim_pending_def sq_take_lease_def update_item_def Let_def intro!: log_grows_same split: option.splits)
next
  fix now i w f r
  assume "sq_reattach_lease sc now i w f s = (s', r)"
  then show ?thesis
    by (auto simp: sq_reattach_lease_def update_item_def Let_def intro!: log_grows_same split: option.splits if_splits prod.splits bool.splits)
qed

lemma trace_grows: "sql_trace x fresh s ls s' \<Longrightarrow> log_grows s s'"
  by (induction rule: sql_trace.induct) (auto simp: sql_step_def intro: sq_op_grows log_grows_trans)

lemma sq_new_gapless: "gapless (sq_new now)"
  by (simp add: gapless_def run_rows_def sq_new_def)

lemma read_from_latest:
  assumes "gapless s" "gapless s'" "run_rows e s' = run_rows e s @ new"
  shows "sq_get_events_since None e (sq_latest_sequence None e s) s' = map event.truncate new"
proof -
  let ?n = "length (run_rows e s)"
  have n: "sq_latest_sequence None e s = int ?n" using assms(1) by (simp add: sq_latest_sequence_def in_scope_def gapless_def max_of_count)
  have "\<forall>r \<in> set (run_rows e s). ev_sequence r \<le> int ?n" using gapless_nth [OF assms(1)] by (auto simp: in_set_conv_nth)
  moreover have "\<forall>r \<in> set new. int ?n < ev_sequence r"
  proof
    fix r
    assume "r \<in> set new"
    then obtain j where j: "j < length new" "r = new ! j" by (auto simp: in_set_conv_nth)
    then show "int ?n < ev_sequence r" using gapless_nth [OF assms(2), of "?n + j" e] assms(3) by (simp add: nth_append)
  qed
  ultimately have "filter (\<lambda>r. int ?n < ev_sequence r) (run_rows e s') = new" by (auto simp: assms(3) filter_empty_conv filter_id_conv)
  moreover have "sorted (map ev_sequence new)" using gapless_sorted [OF assms(2), of e] assms(3) by (simp add: sorted_append)
  ultimately show ?thesis by (simp add: sq_get_events_since_def in_scope_def n sort_key_id_if_sorted)
qed

text \<open>C21: over every history of the SQLite store, in any interleaving of its operations and under any mix of tenants, the
  events of a run are numbered from one without a gap, in the order they were stored, as long as the log is shorter than
  an \<^verbatim>\<open>i64\<close> counts; and a reader that asks for what is above the latest sequence it has seen gets exactly the events
  appended since.\<close>

theorem sql_log_is_gapless:
  assumes "sql_trace x fresh (sq_new t0) ls s" and "sql_trace x fresh s ls' s'" and "int (length (db_events s')) < 2 ^ 63"
  shows "map ev_sequence (sq_get_events None e s) = map int [1..<Suc (length (sq_get_events None e s))] \<and>
    sq_get_events None e s' = sq_get_events None e s @ sq_get_events_since None e (sq_latest_sequence None e s) s'"
proof -
  have g: "log_grows (sq_new t0) s" "log_grows s s'" using trace_grows assms(1,2) by blast+
  then obtain new where new: "db_events s' = db_events s @ new" by (auto simp: log_grows_def)
  then have s: "gapless s" "gapless s'" using g sq_new_gapless assms(3) by (auto simp: log_grows_def)
  have r: "run_rows e s' = run_rows e s @ filter (\<lambda>r. ev_execution_id r = e) new" by (simp add: run_rows_def new)
  have "ev_sequence \<circ> event.truncate = (ev_sequence :: sql_event \<Rightarrow> _)" by (auto simp: event.defs)
  then have "map ev_sequence (sq_get_events None e s) = map int [1..<Suc (length (sq_get_events None e s))]"
    using s(1) by (simp add: gapless_events gapless_def del: upt_Suc)
  then show ?thesis using read_from_latest [OF s r] by (simp add: gapless_events s r del: upt_Suc)
qed

lemma ann_events: "db_events (sq_with ann_row) = []" "db_executions (sq_with ann_row) ''x'' \<noteq> None" "db_tenants (sq_with ann_row) default_tenant \<noteq> None"
  using sq_queued_parts
  by (simp_all add: sq_with_def sq_queued_def sq_enqueue_work_item_def sq_create_execution_def insert_execution_def insert_item_def transaction_def
      sq_new_def stamp_def sample_item_def sample_execution_def)

lemma ann_appends:
  "db_events (fst (sq_append_event None (sample_event 0 (NodeCancelled ''a'')) (sq_with ann_row))) =
     [event.extend (sample_event 1 (NodeCancelled ''a'')) \<lparr>sv_tenant_id = default_tenant\<rparr>]"
  using ann_events
  by (auto simp: sq_append_event_def append_row_def transaction_def insert_event_def next_sequence_def run_rows_def stamp_def sample_event_def
      event_new_def Let_def)

theorem sql_log_is_gapless_witness:
  "sq_get_events None ''x'' (fst (sq_append_event None (sample_event 0 (NodeCancelled ''a'')) (sq_with ann_row))) = [sample_event 1 (NodeCancelled ''a'')] \<and>
   sq_get_events None ''x'' (sq_with ann_row) @ sq_get_events_since None ''x'' (sq_latest_sequence None ''x'' (sq_with ann_row))
     (fst (sq_append_event None (sample_event 0 (NodeCancelled ''a'')) (sq_with ann_row))) = [sample_event 1 (NodeCancelled ''a'')]"
proof -
  let ?s' = "fst (sq_append_event None (sample_event 0 (NodeCancelled ''a'')) (sq_with ann_row))"
  have "sql_step sample_externals (\<lambda>_ _. ''e'') (sq_with ann_row) None ?s'" by (rule sql_stepI [OF ann_in_range sop_append])
  from sql_snoc [OF sql_nil this] have "sql_trace sample_externals (\<lambda>_ _. ''e'') (sq_with ann_row) [None] ?s'" by simp
  from sql_log_is_gapless [OF ann_trace this, of "''x''"] have "sq_get_events None ''x'' ?s' = sq_get_events None ''x'' (sq_with ann_row) @
      sq_get_events_since None ''x'' (sq_latest_sequence None ''x'' (sq_with ann_row)) ?s'" by (simp add: ann_appends)
  moreover have "sq_get_events None ''x'' ?s' = [sample_event 1 (NodeCancelled ''a'')]"
    unfolding sq_get_events_def run_rows_def ann_appends by (simp add: in_scope_def event.defs sample_event_def event_new_def)
  ultimately show ?thesis by simp
qed

end
