(* ===== verification/Sql_Tenants.thy ===== *)
theory Sql_Tenants
  imports Sql_Leases
begin

text \<open>
  The scoped backend keeps tenants apart: an operation under one tenant leaves everything another tenant can read as it
  was, except for the snapshots, which \<^verbatim>\<open>INSERT OR REPLACE\<close> overwrites whoever wrote them.
\<close>

section \<open>The scoped backend\<close>

text \<open>Every operation of \<^verbatim>\<open>TenantScopedSqliteBackend\<close> is the one of the store, with the clause of its tenant.\<close>

definition scoped_store_workflow ::
    "string \<Rightarrow> externals \<Rightarrow> workflow_definition \<Rightarrow> sql_store \<Rightarrow> sql_store \<times> (backend_error + unit)" where
  "scoped_store_workflow t = sq_store_workflow (Some t)"

definition scoped_get_workflow ::
    "string \<Rightarrow> string \<Rightarrow> string \<Rightarrow> string \<Rightarrow> sql_store \<Rightarrow> workflow_definition option" where
  "scoped_get_workflow t = sq_get_workflow (Some t)"

definition scoped_create_execution ::
    "string \<Rightarrow> workflow_execution \<Rightarrow> sql_store \<Rightarrow> sql_store \<times> (backend_error + unit)" where
  "scoped_create_execution t = sq_create_execution (Some t)"

definition scoped_get_execution ::
    "string \<Rightarrow> execution_id \<Rightarrow> sql_store \<Rightarrow> workflow_execution option" where
  "scoped_get_execution t = sq_get_execution (Some t)"

definition scoped_finish_execution ::
    "string \<Rightarrow> timestamp \<Rightarrow> event \<Rightarrow> workflow_status \<Rightarrow> sql_store \<Rightarrow> sql_store \<times> (backend_error + execution_finish)" where
  "scoped_finish_execution t = sq_finish_execution (Some t)"

definition scoped_append_event_if ::
    "string \<Rightarrow> event \<Rightarrow> (event list \<Rightarrow> bool) \<Rightarrow> sql_store \<Rightarrow> sql_store \<times> (backend_error + conditional_append)" where
  "scoped_append_event_if t = sq_append_event_if (Some t)"

definition scoped_execution_tenant :: "string \<Rightarrow> execution_id \<Rightarrow> sql_store \<Rightarrow> string option" where
  "scoped_execution_tenant t = sq_execution_tenant (Some t)"

definition scoped_update_execution_status ::
    "string \<Rightarrow> timestamp \<Rightarrow> execution_id \<Rightarrow> workflow_status \<Rightarrow> sql_store \<Rightarrow> sql_store \<times> (backend_error + unit)" where
  "scoped_update_execution_status t = sq_update_execution_status (Some t)"

definition scoped_update_execution_current_state ::
    "string \<Rightarrow> timestamp \<Rightarrow> execution_id \<Rightarrow> json \<Rightarrow> sql_store \<Rightarrow> sql_store" where
  "scoped_update_execution_current_state t = sq_update_execution_current_state (Some t)"

definition scoped_patch_append_array ::
    "string \<Rightarrow> timestamp \<Rightarrow> (sql_store \<Rightarrow> sql_store) \<Rightarrow> execution_id \<Rightarrow> string \<Rightarrow> json \<Rightarrow> sql_store \<Rightarrow> sql_store \<times> (backend_error + unit)" where
  "scoped_patch_append_array t = sq_patch_append_array (Some t)"

definition scoped_list_executions ::
    "string \<Rightarrow> execution_id list \<Rightarrow> workflow_status option \<Rightarrow> nat \<Rightarrow> nat \<Rightarrow> sql_store \<Rightarrow> workflow_execution list" where
  "scoped_list_executions t = sq_list_executions (Some t)"

definition scoped_append_event ::
    "string \<Rightarrow> event \<Rightarrow> sql_store \<Rightarrow> sql_store \<times> (backend_error + event_sequence)" where
  "scoped_append_event t = sq_append_event (Some t)"

definition scoped_get_events :: "string \<Rightarrow> execution_id \<Rightarrow> sql_store \<Rightarrow> event list" where
  "scoped_get_events t = sq_get_events (Some t)"

definition scoped_get_events_since ::
    "string \<Rightarrow> execution_id \<Rightarrow> event_sequence \<Rightarrow> sql_store \<Rightarrow> event list" where
  "scoped_get_events_since t = sq_get_events_since (Some t)"

definition scoped_latest_sequence :: "string \<Rightarrow> execution_id \<Rightarrow> sql_store \<Rightarrow> event_sequence" where
  "scoped_latest_sequence t = sq_latest_sequence (Some t)"

definition scoped_write_snapshot ::
    "string \<Rightarrow> snapshot \<Rightarrow> sql_store \<Rightarrow> sql_store \<times> (backend_error + unit)" where
  "scoped_write_snapshot t = sq_write_snapshot (Some t)"

definition scoped_create_run ::
    "string \<Rightarrow> (event_sequence \<Rightarrow> uuid) \<Rightarrow> timestamp \<Rightarrow> workflow_execution \<Rightarrow> snapshot option \<Rightarrow> event_kind \<Rightarrow> event_kind \<Rightarrow> work_item \<Rightarrow> sql_store \<Rightarrow> sql_store \<times> (backend_error + unit)" where
  "scoped_create_run t = sq_create_run (Some t)"

definition scoped_latest_snapshot :: "string \<Rightarrow> execution_id \<Rightarrow> sql_store \<Rightarrow> snapshot option" where
  "scoped_latest_snapshot t = sq_latest_snapshot (Some t)"

definition scoped_release_tool_reservation ::
    "string \<Rightarrow> string \<Rightarrow> string \<Rightarrow> int \<Rightarrow> sql_store \<Rightarrow> sql_store" where
  "scoped_release_tool_reservation t = sq_release_tool_reservation (Some t)"

definition scoped_reserve_tool_effect ::
    "string \<Rightarrow> externals \<Rightarrow> timestamp \<Rightarrow> (string \<Rightarrow> string) \<Rightarrow> string \<Rightarrow> string \<Rightarrow> int \<Rightarrow> nat \<Rightarrow> sql_store \<Rightarrow> sql_store \<times> reserve_outcome" where
  "scoped_reserve_tool_effect t = sq_reserve_tool_effect (Some t)"

definition scoped_get_tool_effect :: "string \<Rightarrow> string \<Rightarrow> sql_store \<Rightarrow> json option" where
  "scoped_get_tool_effect t = sq_get_tool_effect (Some t)"

definition scoped_put_artifact ::
    "string \<Rightarrow> externals \<Rightarrow> nat list \<Rightarrow> string option \<Rightarrow> sql_store \<Rightarrow> sql_store \<times> artifact_ref" where
  "scoped_put_artifact t = sq_put_artifact (Some t)"

definition scoped_get_artifact :: "string \<Rightarrow> string \<Rightarrow> sql_store \<Rightarrow> nat list option" where
  "scoped_get_artifact t = sq_get_artifact (Some t)"

definition scoped_enqueue_work_item ::
    "string \<Rightarrow> work_item \<Rightarrow> sql_store \<Rightarrow> sql_store \<times> (backend_error + work_item_id)" where
  "scoped_enqueue_work_item t = sq_enqueue_work_item (Some t)"

definition scoped_claim_work_item_with_lease ::
    "string \<Rightarrow> (execution_id \<Rightarrow> event_sequence \<Rightarrow> uuid) \<Rightarrow> timestamp \<Rightarrow> (sql_store \<Rightarrow> sql_store) \<Rightarrow> work_item_id list \<Rightarrow> work_item_id list \<Rightarrow> string \<Rightarrow> string list \<Rightarrow> nat option \<Rightarrow> sql_store \<Rightarrow> sql_store \<times> (backend_error + work_item option)" where
  "scoped_claim_work_item_with_lease t = sq_claim_work_item_with_lease (Some t)"

definition scoped_count_node_completions ::
    "string \<Rightarrow> execution_id \<Rightarrow> node_id \<Rightarrow> sql_store \<Rightarrow> nat" where
  "scoped_count_node_completions t = sq_count_node_completions (Some t)"

definition scoped_renew_lease ::
    "string \<Rightarrow> timestamp \<Rightarrow> work_item_id \<Rightarrow> string \<Rightarrow> int \<Rightarrow> sql_store \<Rightarrow> sql_store \<times> (backend_error + unit)" where
  "scoped_renew_lease t = sq_renew_lease (Some t)"

definition scoped_heartbeat_lease ::
    "string \<Rightarrow> timestamp \<Rightarrow> (sql_store \<Rightarrow> sql_store) \<Rightarrow> work_item_id \<Rightarrow> string \<Rightarrow> int \<Rightarrow> sql_store \<Rightarrow> sql_store \<times> (backend_error + lease_renewal)" where
  "scoped_heartbeat_lease t = sq_heartbeat_lease (Some t)"

definition scoped_get_work_item :: "string \<Rightarrow> work_item_id \<Rightarrow> sql_store \<Rightarrow> work_item option" where
  "scoped_get_work_item t = sq_get_work_item (Some t)"

definition scoped_complete_work_item ::
    "string \<Rightarrow> timestamp \<Rightarrow> work_item_id \<Rightarrow> sql_store \<Rightarrow> sql_store \<times> (backend_error + unit)" where
  "scoped_complete_work_item t = sq_complete_work_item (Some t)"

definition scoped_complete_work_item_fenced ::
    "string \<Rightarrow> timestamp \<Rightarrow> work_item_id \<Rightarrow> int \<Rightarrow> sql_store \<Rightarrow> sql_store \<times> bool" where
  "scoped_complete_work_item_fenced t = sq_complete_work_item_fenced (Some t)"

definition scoped_fail_work_item_fenced ::
    "string \<Rightarrow> timestamp \<Rightarrow> work_item_id \<Rightarrow> int \<Rightarrow> string \<Rightarrow> sql_store \<Rightarrow> sql_store \<times> (backend_error + fail_outcome option)" where
  "scoped_fail_work_item_fenced t = sq_fail_work_item_fenced (Some t)"

definition scoped_fail_work_item ::
    "string \<Rightarrow> work_item_id \<Rightarrow> sql_store \<Rightarrow> sql_store \<times> (backend_error + unit)" where
  "scoped_fail_work_item t = sq_fail_work_item (Some t)"

definition scoped_park_work_item ::
    "string \<Rightarrow> work_item_id \<Rightarrow> int \<Rightarrow> timestamp \<Rightarrow> nat \<Rightarrow> sql_store \<Rightarrow> sql_store \<times> bool" where
  "scoped_park_work_item t = sq_park_work_item (Some t)"

definition scoped_finalize_rollover_fenced ::
    "string \<Rightarrow> timestamp \<Rightarrow> execution_id \<Rightarrow> work_item_id \<Rightarrow> int \<Rightarrow> sql_store \<Rightarrow> sql_store \<times> bool" where
  "scoped_finalize_rollover_fenced t = sq_finalize_rollover_fenced (Some t)"

definition scoped_commit_turn_inner ::
    "string \<Rightarrow> (execution_id \<Rightarrow> event_sequence \<Rightarrow> uuid) \<Rightarrow> timestamp \<Rightarrow> work_item_id \<Rightarrow> int \<Rightarrow> event \<Rightarrow> bool \<Rightarrow> bool \<Rightarrow> sql_store \<Rightarrow> sql_store \<times> (backend_error + turn_commit)" where
  "scoped_commit_turn_inner t = sq_commit_turn_inner (Some t)"

definition scoped_withdraw_work_item_fenced ::
    "string \<Rightarrow> work_item_id \<Rightarrow> int \<Rightarrow> sql_store \<Rightarrow> sql_store \<times> bool" where
  "scoped_withdraw_work_item_fenced t = sq_withdraw_work_item_fenced (Some t)"

definition scoped_reclaim_expired_leases ::
    "string \<Rightarrow> timestamp \<Rightarrow> (nat \<Rightarrow> sql_store \<Rightarrow> sql_store) \<Rightarrow> work_item_id list \<Rightarrow> sql_store \<Rightarrow> sql_store \<times> (backend_error + reclaim_result)" where
  "scoped_reclaim_expired_leases t = sq_reclaim_expired_leases (Some t)"

definition scoped_move_to_dead_letter ::
    "string \<Rightarrow> timestamp \<Rightarrow> (sql_store \<Rightarrow> sql_store) \<Rightarrow> work_item_id \<Rightarrow> string \<Rightarrow> sql_store \<Rightarrow> sql_store \<times> (backend_error + unit)" where
  "scoped_move_to_dead_letter t = sq_move_to_dead_letter (Some t)"

definition scoped_create_token ::
    "string \<Rightarrow> externals \<Rightarrow> nat list \<Rightarrow> uuid \<Rightarrow> timestamp \<Rightarrow> timestamp \<Rightarrow> string \<Rightarrow> string \<Rightarrow> sql_store \<Rightarrow> sql_store \<times> (backend_error + string \<times> api_token)" where
  "scoped_create_token t = sq_create_token (Some t)"

definition scoped_apply_approval_projection ::
    "string \<Rightarrow> approval_projection_row \<Rightarrow> string \<Rightarrow> int \<Rightarrow> sql_store \<Rightarrow> sql_store" where
  "scoped_apply_approval_projection t = sq_apply_approval_projection (Some t)"

definition scoped_apply_approval_projection_batch ::
    "string \<Rightarrow> approval_projection_row list \<Rightarrow> string \<Rightarrow> execution_id \<Rightarrow> int \<Rightarrow> sql_store \<Rightarrow> sql_store" where
  "scoped_apply_approval_projection_batch t = sq_apply_approval_projection_batch (Some t)"

definition scoped_get_approval_projection ::
    "string \<Rightarrow> string list \<Rightarrow> execution_id \<Rightarrow> sql_store \<Rightarrow> approval_projection_row list" where
  "scoped_get_approval_projection t = sq_get_approval_projection (Some t)"

definition scoped_get_projector_checkpoint ::
    "string \<Rightarrow> string \<Rightarrow> execution_id \<Rightarrow> sql_store \<Rightarrow> int" where
  "scoped_get_projector_checkpoint t = sq_get_projector_checkpoint (Some t)"

definition scoped_set_projector_checkpoint ::
    "string \<Rightarrow> string \<Rightarrow> execution_id \<Rightarrow> int \<Rightarrow> sql_store \<Rightarrow> sql_store" where
  "scoped_set_projector_checkpoint t = sq_set_projector_checkpoint (Some t)"

text \<open>What a caller of the scoped backend may do to the store.\<close>

inductive scoped_op :: "externals \<Rightarrow> (execution_id \<Rightarrow> event_sequence \<Rightarrow> uuid) \<Rightarrow> string \<Rightarrow> sql_store \<Rightarrow> sql_store \<Rightarrow> bool"
  for x fresh t where
  sc_store_workflow: "scoped_op x fresh t s (fst (scoped_store_workflow t x def s))"
| sc_create_execution: "scoped_op x fresh t s (fst (scoped_create_execution t ex s))"
| sc_finish_execution: "scoped_op x fresh t s (fst (scoped_finish_execution t now ev st s))"
| sc_append_event_if: "scoped_op x fresh t s (fst (scoped_append_event_if t ev cond s))"
| sc_update_execution_status: "scoped_op x fresh t s (fst (scoped_update_execution_status t now e st s))"
| sc_update_execution_current_state: "scoped_op x fresh t s (scoped_update_execution_current_state t now e v s)"
| sc_patch_append_array: "scoped_op x fresh t s (fst (scoped_patch_append_array t now (\<lambda>s. s) e key v s))"
| sc_append_event: "scoped_op x fresh t s (fst (scoped_append_event t ev s))"
| sc_write_snapshot: "scoped_op x fresh t s (fst (scoped_write_snapshot t snap s))"
| sc_create_run: "scoped_op x fresh t s (fst (scoped_create_run t (fresh (we_execution_id ex)) now ex seed k1 k2 item s))"
| sc_release_tool_reservation: "scoped_op x fresh t s (scoped_release_tool_reservation t key owner f s)"
| sc_reserve_tool_effect: "scoped_op x fresh t s (fst (scoped_reserve_tool_effect t x now pick key owner f ttl s))"
| sc_put_artifact: "scoped_op x fresh t s (fst (scoped_put_artifact t x bytes mt s))"
| sc_enqueue_work_item: "scoped_op x fresh t s (fst (scoped_enqueue_work_item t item s))"
| sc_claim_work_item_with_lease: "scoped_op x fresh t s (fst (scoped_claim_work_item_with_lease t fresh now (\<lambda>s. s) stale_ids ids w qs ls s))"
| sc_renew_lease: "scoped_op x fresh t s (fst (scoped_renew_lease t now i w f s))"
| sc_heartbeat_lease: "scoped_op x fresh t s (fst (scoped_heartbeat_lease t now (\<lambda>s. s) i w f s))"
| sc_complete_work_item: "scoped_op x fresh t s (fst (scoped_complete_work_item t now i s))"
| sc_complete_work_item_fenced: "scoped_op x fresh t s (fst (scoped_complete_work_item_fenced t now i f s))"
| sc_fail_work_item_fenced: "scoped_op x fresh t s (fst (scoped_fail_work_item_fenced t now i f err s))"
| sc_fail_work_item: "scoped_op x fresh t s (fst (scoped_fail_work_item t i s))"
| sc_park_work_item: "scoped_op x fresh t s (fst (scoped_park_work_item t i f retry n s))"
| sc_finalize_rollover_fenced: "scoped_op x fresh t s (fst (scoped_finalize_rollover_fenced t now e i f s))"
| sc_commit_turn_inner: "scoped_op x fresh t s (fst (scoped_commit_turn_inner t fresh now i f ev snap refuse s))"
| sc_withdraw_work_item_fenced: "scoped_op x fresh t s (fst (scoped_withdraw_work_item_fenced t i f s))"
| sc_reclaim_expired_leases: "scoped_op x fresh t s (fst (scoped_reclaim_expired_leases t now (\<lambda>_ s. s) ids s))"
| sc_move_to_dead_letter: "scoped_op x fresh t s (fst (scoped_move_to_dead_letter t now (\<lambda>s. s) i err s))"
| sc_create_token: "scoped_op x fresh t s (fst (scoped_create_token t x random i now after name role s))"
| sc_apply_approval_projection: "scoped_op x fresh t s (scoped_apply_approval_projection t row projection n s)"
| sc_apply_approval_projection_batch: "scoped_op x fresh t s (scoped_apply_approval_projection_batch t rows projection e n s)"
| sc_set_projector_checkpoint: "scoped_op x fresh t s (scoped_set_projector_checkpoint t projection e n s)"
| sc_validate_token: "scoped_op x fresh t s (fst (sq_validate_token x now token s))"
| sc_create_tenant: "scoped_op x fresh t s (fst (sq_create_tenant tn s))"
| sc_update_tenant: "scoped_op x fresh t s (fst (sq_update_tenant tn s))"

lemmas scoped_defs =
  scoped_create_token_def scoped_apply_approval_projection_def scoped_apply_approval_projection_batch_def
  scoped_get_approval_projection_def scoped_get_projector_checkpoint_def scoped_set_projector_checkpoint_def
  scoped_store_workflow_def scoped_get_workflow_def scoped_create_execution_def scoped_get_execution_def
  scoped_finish_execution_def scoped_append_event_if_def scoped_execution_tenant_def scoped_update_execution_status_def
  scoped_update_execution_current_state_def scoped_patch_append_array_def scoped_list_executions_def
  scoped_append_event_def scoped_get_events_def scoped_get_events_since_def scoped_latest_sequence_def
  scoped_write_snapshot_def scoped_create_run_def scoped_latest_snapshot_def scoped_release_tool_reservation_def
  scoped_reserve_tool_effect_def scoped_get_tool_effect_def scoped_put_artifact_def scoped_get_artifact_def
  scoped_enqueue_work_item_def scoped_claim_work_item_with_lease_def scoped_count_node_completions_def
  scoped_renew_lease_def scoped_heartbeat_lease_def scoped_get_work_item_def scoped_complete_work_item_def
  scoped_complete_work_item_fenced_def scoped_fail_work_item_fenced_def scoped_fail_work_item_def
  scoped_park_work_item_def scoped_finalize_rollover_fenced_def scoped_commit_turn_inner_def
  scoped_withdraw_work_item_fenced_def scoped_reclaim_expired_leases_def scoped_move_to_dead_letter_def

section \<open>What a tenant sees\<close>

definition item_row :: "scope \<Rightarrow> work_item_id \<Rightarrow> sql_store \<Rightarrow> sql_work_item option" where
  "item_row sc i s = (case db_work_items s i of Some r \<Rightarrow> if in_scope sc (wi_tenant_id r) then Some r else None | None \<Rightarrow> None)"

text \<open>The rows of a tenant are the same in two stores.\<close>

definition same_for :: "string \<Rightarrow> sql_store \<Rightarrow> sql_store \<Rightarrow> bool" where
  "same_for u s s' =
     ((\<forall>i. item_row (Some u) i s' = item_row (Some u) i s) \<and>
      (\<forall>e. execution_row (Some u) e s' = execution_row (Some u) e s) \<and>
      filter (\<lambda>r. sv_tenant_id r = u) (db_events s') = filter (\<lambda>r. sv_tenant_id r = u) (db_events s) \<and>
      (\<forall>key. sq_get_tool_effect (Some u) key s' = sq_get_tool_effect (Some u) key s) \<and>
      (\<forall>key. db_reservations s' (u, key) = db_reservations s (u, key)) \<and>
      (\<forall>hash. db_artifacts s' (u, hash) = db_artifacts s (u, hash)) \<and>
      (\<forall>wid. db_workflows s' (u, wid) = db_workflows s (u, wid)))"

lemma same_for_refl [simp]: "same_for u s s"
  by (simp add: same_for_def)

lemma same_for_trans: "same_for u s t \<Longrightarrow> same_for u t w \<Longrightarrow> same_for u s w"
  by (simp add: same_for_def)

lemmas views = item_row_def execution_row_def sq_get_tool_effect_def in_scope_def

lemma same_for_event: "insert_event t ev s = Inr s' \<Longrightarrow> t \<noteq> u \<Longrightarrow> same_for u s s'"
  by (auto simp: insert_event_def same_for_def views event.defs split: if_splits)

lemma same_for_execution_row:
  "execution_row (Some t) e s = Some x \<Longrightarrow> t \<noteq> u \<Longrightarrow> sx_tenant_id x' = sx_tenant_id x \<Longrightarrow>
   same_for u s (s\<lparr>db_executions := (db_executions s)(e \<mapsto> x')\<rparr>)"
  by (auto simp: same_for_def views split: option.splits if_splits)

lemma same_for_item_row:
  "db_work_items s i = Some w \<Longrightarrow> wi_tenant_id w \<noteq> u \<Longrightarrow> wi_tenant_id w' = wi_tenant_id w \<Longrightarrow>
   same_for u s (s\<lparr>db_work_items := (db_work_items s)(i \<mapsto> w')\<rparr>)"
  by (auto simp: same_for_def views)

lemma same_for_inserts:
  "insert_execution (Some t) ex s = Inr s' \<Longrightarrow> t \<noteq> u \<Longrightarrow> same_for u s s'"
  "insert_snapshot (Some t) snap s = Inr s' \<Longrightarrow> same_for u s s'"
  "insert_item (Some t) item s = Inr s' \<Longrightarrow> t \<noteq> u \<Longrightarrow> same_for u s s'"
  "insert_dead_letter (Some t) replace now err it s = Inr s' \<Longrightarrow> same_for u s s'"
  by (auto simp: insert_execution_def insert_snapshot_def insert_item_def insert_dead_letter_def same_for_def views stamp_def new_row_def
      workflow_execution.defs work_item.defs split: if_splits)

lemma row_move_tenant: "row_move r r' \<Longrightarrow> wi_tenant_id r' = wi_tenant_id r"
  by (induction rule: row_move.induct)
    (simp_all add: failed_row_def completed_row_def dead_row_def requeued_row_def expired_row_def)

text \<open>Every operation of one tenant is in the relation of every other: the frame, for the scope of \<open>t\<close>, with a tenant
  that is not \<open>t\<close>.\<close>

definition others_same :: "string \<Rightarrow> sql_store \<Rightarrow> sql_store \<Rightarrow> bool" where
  "others_same t s s' = (\<forall>u. u \<noteq> t \<longrightarrow> same_for u s s')"

interpretation tenant: store_frame "Some t" "others_same t" for t
proof (unfold_locales, goal_cases)
  case (2 s t' u)
  then show ?case using same_for_trans by (auto simp: others_same_def)
next
  case (5 owner ev s s')
  then show ?case using same_for_event by (auto simp: others_same_def in_scope_def)
next
  case (6 ev cond s s' r)
  then show ?case using append_if_cases [OF 6] same_for_event by (auto simp: others_same_def stamp_def Let_def)
next
  case (8 e s x x')
  then show ?case using same_for_execution_row by (auto simp: others_same_def)
next
  case (11 s i w w')
  then show ?case using same_for_item_row row_move_tenant by (auto simp: others_same_def in_scope_def)
qed (auto simp: others_same_def dest: same_for_inserts, auto simp: same_for_def views stamp_def)

section \<open>Leases\<close>

lemma take_lease_same_for:
  assumes "sq_claimable (Some t) now qs s i" and "t \<noteq> u"
  shows "same_for u s (fst (sq_take_lease now' w len i s))"
proof -
  obtain r where r: "db_work_items s i = Some r" "wi_tenant_id r = t" using assms(1) by (auto simp: sq_claimable_def in_scope_def split: option.splits)
  then show ?thesis
    using assms(2) same_for_item_row [of s i r u] by (auto simp: sq_take_lease_def update_item_def in_scope_def claimed_row_def Let_def)
qed

lemma oldest_in: "oldest s ids = Some i \<Longrightarrow> i \<in> set ids"
  unfolding oldest_def by (metis (no_types, lifting) list.case_eq_if list.set_sel(1) option.distinct(1) option.inject set_sort)

lemma claim_same_for:
  assumes "sq_claim_pending (Some t) now ids w qs ls s = (s', claim)" and "t \<noteq> u"
  shows "same_for u s s'"
proof (cases "oldest s (filter (sq_claimable (Some t) now qs s) ids)")
  case None
  then show ?thesis using assms(1) by (simp add: sq_claim_pending_def)
next
  case (Some i)
  then have "sq_claimable (Some t) now qs s i" using oldest_in [OF Some] by simp
  from take_lease_same_for [OF this assms(2), of now w "granted_lease_secs ls"] show ?thesis
    using assms(1) Some by (simp add: sq_claim_pending_def)
qed

lemma reattach_same_for:
  assumes "sq_reattach_lease (Some t) now i w f s = (s', r)" and "t \<noteq> u"
  shows "same_for u s s'"
  using assms same_for_item_row [of s i _ u]
  by (auto simp: sq_reattach_lease_def update_item_def in_scope_def claimed_row_def Let_def split: option.splits if_splits)

section \<open>Isolation\<close>

lemma filter_run_rows:
  "filter (\<lambda>r. in_scope (Some u) (sv_tenant_id r)) (run_rows e s) =
   filter (\<lambda>r. ev_execution_id r = e) (filter (\<lambda>r. sv_tenant_id r = u) (db_events s))"
  "filter (\<lambda>r. in_scope (Some u) (sv_tenant_id r) \<and> P r) (run_rows e s) =
   filter (\<lambda>r. P r \<and> ev_execution_id r = e) (filter (\<lambda>r. sv_tenant_id r = u) (db_events s))"
  by (simp_all add: run_rows_def in_scope_def) (meson filter_cong)+

lemma item_row_reads:
  "sq_get_work_item sc i s = map_option row_to_work_item (item_row sc i s)"
  "sq_claimable sc now qs s i = (case item_row sc i s of
     Some r \<Rightarrow> sw_status r = ItemPending \<and> wi_queue_type r \<in> set qs \<and> (case sw_retry_after r of None \<Rightarrow> True | Some t \<Rightarrow> t \<le> now) | None \<Rightarrow> False)"
  by (auto simp: sq_get_work_item_def sq_claimable_def item_row_def split: option.split)

lemma reclaim_items_others: "others_same t s (fst (sq_reclaim_items (Some t) now (\<lambda>_ s. s) items acc s))"
proof (induction items arbitrary: acc s)
  case (Cons item items)
  obtain s' r where r: "sq_reclaim_item (Some t) now item s = (s', r)" by fastforce
  then have "others_same t s s'" using tenant.frame_reclaim [of t s now item] by simp
  then have "others_same t s (fst (sq_reclaim_items (Some t) now (\<lambda>_ s. s) items acc' s'))" for acc'
    using Cons.IH tenant.frame_trans by blast
  then show ?case using r \<open>others_same t s s'\<close> by (auto split: sum.split option.split bool.split)
qed (simp add: tenant.frame_refl)

lemma heartbeat_others: "others_same t s (fst (sq_heartbeat_lease (Some t) now (\<lambda>s. s) i w f s))"
proof -
  obtain s' r where r: "sq_renew_lease (Some t) now i w f s = (s', r)" by fastforce
  then have "others_same t s s'" using tenant.frame_settle(1) [of t s now i w f] by simp
  moreover have "others_same t s' (fst (sq_reattach_lease (Some t) now i w f s'))"
    unfolding others_same_def by (metis prod.collapse reattach_same_for)
  ultimately show ?thesis using r tenant.frame_trans by (auto simp: sq_heartbeat_lease_def split: sum.split backend_error.split)
qed

lemma claim_others: "others_same t s (fst (sq_claim_work_item_with_lease (Some t) fresh now (\<lambda>s. s) stale ids w qs ls s))"
proof -
  obtain s' r where r: "sq_expire_stale_leases (Some t) fresh now stale s = (s', r)" by fastforce
  then have "others_same t s s'" using tenant.frame_expire_leases [of t s fresh now stale] by simp
  moreover have "others_same t s' (fst (sq_claim_pending (Some t) now ids w qs ls s'))"
    unfolding others_same_def by (metis prod.collapse claim_same_for)
  ultimately show ?thesis
    using r tenant.frame_trans [of t s s'] by (auto simp: sq_claim_work_item_with_lease_def tenant.frame_refl split: sum.split prod.split)
qed

lemma scoped_others: "scoped_op x fresh t s s' \<Longrightarrow> others_same t s s'"
proof (induction rule: scoped_op.induct)
  case (sc_patch_append_array s now e key v)
  then show ?case
    by (auto simp: scoped_defs sq_patch_append_array_def tenant.frame_refl tenant.frame_plain split: option.split sum.split)
next
  case (sc_reclaim_expired_leases s now ids)
  then show ?case by (simp add: scoped_defs sq_reclaim_expired_leases_def reclaim_items_others)
qed (simp_all add: scoped_defs tenant.frame_ops heartbeat_others claim_others)

text \<open>C18: whatever one tenant does through the scoped SQLite backend - any operation, on any id, its own or another's -
  every other tenant reads what it read before: its runs, events and counts of completions, its work items and which of
  them it may claim, its recorded effects, its artifacts and its definitions.\<close>

theorem tenants_are_isolated:
  assumes "scoped_op x fresh t s s'" and "t \<noteq> u"
  shows "scoped_get_execution u e s' = scoped_get_execution u e s \<and>
    scoped_execution_tenant u e s' = scoped_execution_tenant u e s \<and>
    scoped_list_executions u runs st lo hi s' = scoped_list_executions u runs st lo hi s \<and>
    scoped_get_events u e s' = scoped_get_events u e s \<and>
    scoped_get_events_since u e n s' = scoped_get_events_since u e n s \<and>
    scoped_latest_sequence u e s' = scoped_latest_sequence u e s \<and>
    scoped_count_node_completions u e node s' = scoped_count_node_completions u e node s \<and>
    scoped_get_work_item u i s' = scoped_get_work_item u i s \<and>
    sq_claimable (Some u) now qs s' i = sq_claimable (Some u) now qs s i \<and>
    scoped_get_tool_effect u key s' = scoped_get_tool_effect u key s \<and>
    scoped_get_artifact u hash s' = scoped_get_artifact u hash s \<and>
    scoped_get_workflow u pick wid v s' = scoped_get_workflow u pick wid v s"
proof -
  have same: "same_for u s s'" using scoped_others [OF assms(1)] assms(2) by (simp add: others_same_def)
  then have "filter (\<lambda>r. sv_tenant_id r = u) (db_events s') = filter (\<lambda>r. sv_tenant_id r = u) (db_events s)" by (simp add: same_for_def)
  then have "scoped_get_events u e s' = scoped_get_events u e s" "scoped_get_events_since u e n s' = scoped_get_events_since u e n s"
    "scoped_latest_sequence u e s' = scoped_latest_sequence u e s"
    "scoped_count_node_completions u e node s' = scoped_count_node_completions u e node s"
    unfolding scoped_defs sq_get_events_def sq_get_events_since_def sq_latest_sequence_def sq_count_node_completions_def filter_run_rows by simp_all
  then show ?thesis
    using same by (simp add: scoped_defs same_for_def sq_get_execution_def sq_execution_tenant_def sq_list_executions_def item_row_reads
        sq_get_artifact_def sq_get_workflow_def stamp_def)
qed

theorem tenants_are_isolated_witness:
  "scoped_get_work_item default_tenant ''w'' (fst (scoped_complete_work_item ''acme'' 0 ''w'' (sq_with ann_row))) =
     scoped_get_work_item default_tenant ''w'' (sq_with ann_row) \<and>
   map_option wi_id (scoped_get_work_item default_tenant ''w'' (sq_with ann_row)) = Some ''w''"
proof -
  have "''acme'' \<noteq> default_tenant" by (simp add: default_tenant_def)
  from tenants_are_isolated [OF sc_complete_work_item [of sample_externals "\<lambda>_ _. ''e''" "''acme''" "sq_with ann_row" 0 "''w''"] this]
  have "scoped_get_work_item default_tenant ''w'' (fst (scoped_complete_work_item ''acme'' 0 ''w'' (sq_with ann_row))) =
     scoped_get_work_item default_tenant ''w'' (sq_with ann_row)" by blast
  then show ?thesis
    by (simp add: scoped_get_work_item_def sq_get_work_item_def sq_with_def in_scope_def row_to_work_item_def stamp_def sq_rows)
qed

section \<open>Snapshots\<close>

definition acme :: tenant where
  "acme = \<lparr>tn_id = ''acme'', tn_name = ''Acme'', tn_status = TenantActive, tn_policy = None, tn_limits = None, tn_created_at = 0, tn_updated_at = 0\<rparr>"

text \<open>The run \<open>x\<close> of the default tenant, with a snapshot at its fifth event.\<close>

definition sq_two_tenants :: sql_store where
  "sq_two_tenants = fst (sq_write_snapshot (Some default_tenant) (snapshot_new ''n'' 0 ''x'' 5 JNull) (fst (sq_create_tenant acme sq_queued)))"

text \<open>the scoped backend is documented to isolate tenants completely, but its snapshots are not: a tenant that
  writes a snapshot for the id of another tenant's run removes the one its owner had written at that sequence, which is
  then left with none, since \<^verbatim>\<open>INSERT OR REPLACE\<close> resolves the key of run and sequence over all tenants.\<close>

theorem foreign_snapshot_is_replaced:
  "scoped_latest_snapshot default_tenant ''x'' sq_two_tenants = Some (snapshot_new ''n'' 0 ''x'' 5 JNull) \<and>
   scoped_get_execution ''acme'' ''x'' sq_two_tenants = None \<and>
   (case scoped_write_snapshot ''acme'' (snapshot_new ''m'' 0 ''x'' 5 JNull) sq_two_tenants of
      (s, r) \<Rightarrow> r = Inr () \<and> scoped_latest_snapshot default_tenant ''x'' s = None)"
proof -
  obtain x where x: "db_executions sq_queued ''x'' = Some x" "sx_tenant_id x = default_tenant"
    by (simp add: sq_queued_def sq_enqueue_work_item_def sq_create_execution_def insert_execution_def insert_item_def transaction_def
      sq_new_def stamp_def sample_item_def sample_execution_def workflow_execution.defs)
  have a: "default_tenant \<noteq> ''acme''" "db_tenants sq_queued ''acme'' = None" "db_snapshots sq_queued = []"
    by (simp_all add: default_tenant_def sq_queued_def sq_enqueue_work_item_def sq_create_execution_def insert_execution_def insert_item_def
      transaction_def sq_new_def stamp_def sample_item_def sample_execution_def workflow_execution.defs)
  obtain d where d: "db_tenants sq_queued default_tenant = Some d" using sq_queued_parts(4) by blast
  have two: "sq_two_tenants = sq_queued\<lparr>db_tenants := (db_tenants sq_queued)(''acme'' \<mapsto> acme),
      db_snapshots := [snapshot.extend (snapshot_new ''n'' 0 ''x'' 5 JNull) \<lparr>sp_tenant_id = default_tenant\<rparr>]\<rparr>"
    using a x d by (simp add: sq_two_tenants_def sq_write_snapshot_def insert_snapshot_def sq_create_tenant_def transaction_def acme_def stamp_def
        snapshot_new_def)
  show ?thesis
    unfolding two scoped_defs using a x d by (simp add: sq_latest_snapshot_def sq_get_execution_def execution_row_def sq_write_snapshot_def insert_snapshot_def transaction_def
        in_scope_def stamp_def max_by_at_sequence_def replaces_def snapshot_new_def snapshot.defs)
qed

section \<open>What the engine writes\<close>

text \<open>The event of a turn is stored under the tenant of the backend that commits it.\<close>

lemma committed_events:
  assumes "sq_commit_turn_inner sc fresh now i f ev snap refuse s = (s', Inr (Committed q))"
  shows "db_events s' = db_events s @ [event.extend (ev\<lparr>ev_sequence := q\<rparr>) \<lparr>sv_tenant_id = stamp sc\<rparr>]"
proof -
  have snap: "db_events b = db_events a" if "sq_snapshot_turn sc fresh now e a = Inr b" for a b e
    using that by (auto simp: sq_snapshot_turn_def insert_snapshot_def result_simps split: if_splits)
  have effect: "db_events (sq_record_effect sc kind a) = db_events a" for kind a
    by (simp add: sq_record_effect_def split: event_kind.split option.split)
  have item: "update_item sc i P g s = (t, b) \<Longrightarrow> db_events t = db_events s" for P g t b
    by (auto simp: update_item_def split: option.splits if_splits)
  have row: "append_row (stamp sc) ev t = Inr (u, q') \<Longrightarrow>
      db_events u = db_events t @ [event.extend (ev\<lparr>ev_sequence := q'\<rparr>) \<lparr>sv_tenant_id = stamp sc\<rparr>]" for t u q'
    by (auto simp: append_row_def insert_event_def Let_def split: if_splits)
  show ?thesis
    using assms
    by (auto simp: sq_commit_turn_inner_def transaction_def Let_def result_simps effect dest!: item row snap
        split: option.splits if_splits prod.splits bool.splits sum.splits)
qed

text \<open>C40: the engine commits the turns of all tenants through the unscoped backend, which stores the event of a turn under
  the default tenant: no other tenant, the owner of the run included, sees its turn in the log it reads, although the
  engine does.\<close>

theorem engine_commit_is_hidden:
  assumes "sq_commit_turn_inner None fresh now i f ev snap refuse s = (s', Inr (Committed q))" and "u \<noteq> default_tenant"
  shows "scoped_get_events u (ev_execution_id ev) s' = scoped_get_events u (ev_execution_id ev) s \<and>
    ev\<lparr>ev_sequence := q\<rparr> \<in> set (sq_get_events None (ev_execution_id ev) s')"
proof -
  have e: "db_events s' = db_events s @ [event.extend (ev\<lparr>ev_sequence := q\<rparr>) \<lparr>sv_tenant_id = default_tenant\<rparr>]"
    using committed_events [OF assms(1)] by (simp add: stamp_def)
  then have "filter (\<lambda>r. sv_tenant_id r = u) (db_events s') = filter (\<lambda>r. sv_tenant_id r = u) (db_events s)"
    using assms(2) by (simp add: event.defs)
  then have "scoped_get_events u (ev_execution_id ev) s' = scoped_get_events u (ev_execution_id ev) s"
    unfolding scoped_defs sq_get_events_def filter_run_rows by simp
  moreover have "ev\<lparr>ev_sequence := q\<rparr> \<in> set (sq_get_events None (ev_execution_id ev) s')"
    by (simp add: sq_get_events_def in_scope_def run_rows_def e event.defs)
  ultimately show ?thesis by simp
qed

definition sample_turn :: event where
  "sample_turn = sample_event 0 (sample_completed ''pay'' JNull)"

lemma ann_commits:
  "\<exists>s'. sq_commit_turn_inner None (\<lambda>_ _. ''e'') 0 ''w'' 1 sample_turn False False (sq_with ann_row) = (s', Inr (Committed 1))"
proof -
  have "db_events (sq_with r) = []" "db_executions (sq_with r) ''x'' \<noteq> None" "db_tenants (sq_with r) default_tenant \<noteq> None" for r
    using sq_queued_parts(3,4)
    by (simp_all add: sq_with_def sq_queued_def sq_enqueue_work_item_def sq_create_execution_def insert_execution_def insert_item_def transaction_def
      sq_new_def stamp_def sample_item_def sample_execution_def)
  then show ?thesis
    by (simp add: sq_commit_turn_inner_def is_turn_end_def sample_turn_def sample_event_def sample_completed_def event_new_def update_item_def
        claimed_under_def claimed_def in_scope_def transaction_def append_row_def insert_event_def next_sequence_def run_rows_def stamp_def
        sq_with_def Let_def sq_rows)
qed

theorem engine_commit_is_hidden_witness:
  "\<exists>s'. sq_commit_turn_inner None (\<lambda>_ _. ''e'') 0 ''w'' 1 sample_turn False False (sq_with ann_row) = (s', Inr (Committed 1)) \<and>
     scoped_get_events ''acme'' ''x'' s' = scoped_get_events ''acme'' ''x'' (sq_with ann_row)"
proof -
  obtain s' where c: "sq_commit_turn_inner None (\<lambda>_ _. ''e'') 0 ''w'' 1 sample_turn False False (sq_with ann_row) = (s', Inr (Committed 1))"
    using ann_commits by blast
  have "''acme'' \<noteq> default_tenant" "ev_execution_id sample_turn = ''x''"
    by (simp_all add: default_tenant_def sample_turn_def sample_event_def event_new_def)
  then show ?thesis using engine_commit_is_hidden [OF c, of "''acme''"] c by auto
qed

end
