(* ===== verification/Sql_Tokens.thy ===== *)
theory Sql_Tokens
  imports Sql_Leases
begin

text \<open>
  The tokens of the SQLite store: a token that was handed out stays valid, as what it was issued for, whatever happens to
  the store; nothing in it revokes a token.
\<close>

text \<open>A row of the table of tokens is kept, but for the time of its last use.\<close>

definition keeps_tokens :: "sql_store \<Rightarrow> sql_store \<Rightarrow> bool" where
  "keeps_tokens s s' = (\<forall>h r. db_tokens s h = Some r \<longrightarrow> (\<exists>t. db_tokens s' h = Some (r\<lparr>st_last_used_at := t\<rparr>)))"

lemma keeps_tokens_same: "db_tokens s' = db_tokens s \<Longrightarrow> keeps_tokens s s'"
  unfolding keeps_tokens_def by (metis sql_token.surjective sql_token.update_convs(1))

lemma keeps_tokens_trans: "keeps_tokens s t \<Longrightarrow> keeps_tokens t u \<Longrightarrow> keeps_tokens s u"
  unfolding keeps_tokens_def by (metis sql_token.fold_congs(1) sql_token.update_convs(1) sql_token.surjective)

lemma insert_keeps_tokens:
  "insert_event t ev s = Inr s' \<Longrightarrow> db_tokens s' = db_tokens s"
  "insert_execution sc ex s = Inr s' \<Longrightarrow> db_tokens s' = db_tokens s"
  "insert_snapshot sc snap s = Inr s' \<Longrightarrow> db_tokens s' = db_tokens s"
  "insert_item sc item s = Inr s' \<Longrightarrow> db_tokens s' = db_tokens s"
  "insert_dead_letter sc replace now err item s = Inr s' \<Longrightarrow> db_tokens s' = db_tokens s"
  by (auto simp: insert_event_def insert_execution_def insert_snapshot_def insert_item_def insert_dead_letter_def split: if_splits)

interpretation tokens: store_frame sc keeps_tokens for sc
proof (unfold_locales, goal_cases)
  case (2 s t u)
  then show ?case by (rule keeps_tokens_trans)
next
  case (6 ev cond s s' r)
  then show ?case using append_if_cases [OF 6] insert_keeps_tokens(1) keeps_tokens_same by (auto simp: Let_def)
next
  case (17 s hash tk)
  then show ?case using keeps_tokens_same [of s s] by (auto simp: keeps_tokens_def)
next
  case (18 s hash tk tm)
  then show ?case using keeps_tokens_same [of s s] by (auto simp: keeps_tokens_def)
qed (auto intro!: keeps_tokens_same dest: insert_keeps_tokens)

lemma op_keeps_tokens: "sql_op x fresh sc s l s' \<Longrightarrow> keeps_tokens s s'"
proof (drule tokens.op_cases, elim disjE exE conjE)
  fix now ids w qs ls claim
  assume "sq_claim_pending sc now ids w qs ls s = (s', claim)"
  then show ?thesis
    by (auto simp: sq_claim_pending_def sq_take_lease_def update_item_def Let_def intro!: keeps_tokens_same split: option.splits)
next
  fix now i w f r
  assume "sq_reattach_lease sc now i w f s = (s', r)"
  then show ?thesis
    by (auto simp: sq_reattach_lease_def update_item_def Let_def intro!: keeps_tokens_same split: option.splits if_splits prod.splits bool.splits)
qed

lemma trace_keeps_tokens: "sql_trace x fresh s ls s' \<Longrightarrow> keeps_tokens s s'"
proof (induction rule: sql_trace.induct)
  case (sql_snoc s ls s' l s'')
  then show ?case using op_keeps_tokens keeps_tokens_trans unfolding sql_step_def by blast
qed (simp add: keeps_tokens_same)

text \<open>C34: a token that was created, in whatever scope, is recognised in every later state of the store and at every
  time, under any interleaving, as exactly the id, name, role and tenant it was issued for, without an end.  The
  record handed back with the token and the one read later differ in the time of creation alone, by the time
  that passed between the two readings of the clock.\<close>

theorem sql_token_round_trip:
  assumes "sq_create_token sc x random i now after name role s = (s', Inr (token, info))" and "sql_trace x fresh s' ls u"
  shows "snd (sq_validate_token x later token u) = Some (info\<lparr>tk_created_at := now\<rparr>) \<and>
    info = \<lparr>tk_id = i, tk_name = name, tk_role = role, tk_created_at = after, tk_expires_at = None, tk_tenant_id = stamp sc\<rparr>"
proof -
  let ?h = "sha256_hex x (utf8 token)"
  let ?row = "api_token.extend (info\<lparr>tk_created_at := now\<rparr>) \<lparr>st_last_used_at = None, st_revoked_at = None\<rparr>"
  have c: "db_tokens s' ?h = Some ?row"
    and info: "info = \<lparr>tk_id = i, tk_name = name, tk_role = role, tk_created_at = after, tk_expires_at = None, tk_tenant_id = stamp sc\<rparr>"
    using assms(1) by (auto simp: sq_create_token_def Let_def split: if_splits)
  from c obtain t where "db_tokens u ?h = Some (?row\<lparr>st_last_used_at := t\<rparr>)"
    using trace_keeps_tokens [OF assms(2)] unfolding keeps_tokens_def by blast
  then show ?thesis using info by (simp add: sq_validate_token_def Let_def api_token.defs)
qed

theorem sql_token_round_trip_witness:
  "\<exists>s' token info. sq_create_token None sample_externals [1, 2] ''t'' 0 1 ''ci'' ''viewer'' (sq_new 0) = (s', Inr (token, info)) \<and>
     map_option tk_role (snd (sq_validate_token sample_externals 9 token s')) = Some ''viewer''"
proof -
  obtain s' token info where c: "sq_create_token None sample_externals [1, 2] ''t'' 0 1 ''ci'' ''viewer'' (sq_new 0) = (s', Inr (token, info))"
    by (auto simp: sq_create_token_def sq_new_def stamp_def Let_def)
  from sql_token_round_trip [OF c sql_nil, of 9] c show ?thesis by auto
qed

end
