(* ===== verification/Spec2Isabelle.thy ===== *)
theory Spec2Isabelle
  imports Backend_Fences Run_State Projector Approval_Api Audit_Log Rollover Condition_Node Cron Timers Agent_Registry Agent_Tool Sql_Log Sql_Tenants Sql_Tokens
begin

text \<open>
  A verification development of the jamjet runtime, a durable execution engine for agent workflows written in
  Rust (\<^verbatim>\<open>src/runtime\<close>).  A workflow is a graph of nodes; a run of it is an append-only event log, from which
  every component derives what it needs to know.  The scheduler reads the log and puts work items into a queue;
  workers, inside the engine or outside over HTTP, claim items under a lease, ask a guard whether the node may
  fire, call an executor and commit the result with the fence of their lease; people decide approval requests
  through an API; an audit log is chained by hashes.  The components share one store and run concurrently.

  \<^bold>\<open>The ground.\<close>  \<open>Prelude\<close>: fixed-width integers with their wrap-around, the operations of Rust's
  strings, results.  \<open>Ordered_Map\<close>: ordered maps, the locale \<open>ordered_map\<close>.  \<open>Float64\<close>, \<open>Json\<close>: doubles as
  rationals with their exceptional values, JSON values.  \<open>Core_Types\<close> (\<^verbatim>\<open>core/src\<close>): statuses, node kinds, queues,
  retry delays.  \<open>Condition\<close> (\<^verbatim>\<open>core/src/condition.rs\<close>): branch expressions.  \<open>Ir\<close> (\<^verbatim>\<open>ir/src\<close>): the workflow
  representation and its validation.  \<open>Hashing\<close>: canonical JSON and the hashes over it.

  \<^bold>\<open>The log and the store.\<close>  \<open>Events\<close>: the event kinds.  \<open>Materializer\<close>: the state of a run as a
  fold, and snapshots, the locale \<open>sequenced_fold\<close>.  \<open>Approvals\<close>: approval state as a fold, deadlines and the
  digests an approval is bound to.  \<open>Memory_Backend\<close> (\<^verbatim>\<open>state/src/memory.rs\<close>, \<^verbatim>\<open>backend.rs\<close>): the record
  \<open>in_memory_backend\<close> and one definition for each operation.  \<open>Backend_Steps\<close> makes a transition system of them,
  \<open>backend_step\<close> and \<open>backend_trace\<close>: any operation, by anyone, in any order, within \<open>in_range\<close> (fewer than
  2^62 events, 2^32 - 2 claims of one item, 2^31 - 1 terms of the store), so that no counter wraps.  \<open>Backend_Log\<close>
  (locale \<open>append_only_log\<close>): logs only grow, cursors read exactly what is new, and what is materialized from a
  snapshot is the replay of the whole log.  \<open>Backend_Fences\<close> (locales \<open>fenced_queue\<close> and \<open>lease_sweep\<close>): fences
  strictly increase and a superseded one is refused.  \<open>Backend_Runs\<close>: ended runs, effects and artifacts.
  \<open>Segment\<close>: continue-as-new; walking back along the segments stops at 10000 of them, as the code does.
  \<open>Artifact\<close>, \<open>Budget\<close>: large outputs and the counters of spending.

  \<^bold>\<open>The SQLite store.\<close>  \<open>Sql_Store\<close> (\<^verbatim>\<open>state/src/sqlite.rs\<close>): the tables as the record \<open>sql_store\<close> and one
  definition for each operation, with the scope of a tenant or none.  \<open>Sql_Steps\<close>: the transition system \<open>sql_step\<close>,
  one step a transaction, and the locale \<open>store_frame\<close>, by which a relation that allows every single statement allows every
  operation; it is interpreted for the rows of the queue, the log, the tokens and the tenants.  \<open>Sql_Fences\<close>: the store is a
  \<open>fenced_queue\<close> as the one in memory is.  \<open>Sql_Leases\<close>: a lease settles at most once, and nothing once it was lost; the sweep takes
  only expired leases when it is alone, and live ones when it is not.  \<open>Sql_Log\<close>: the events of a run count from one
  without a gap.  \<open>Sql_Tenants\<close> (\<^verbatim>\<open>tenant_scoped.rs\<close>): what one tenant does is not seen by another, snapshots apart, and what
  the engine commits is seen by the default tenant only.  \<open>Sql_Tokens\<close>: a token stays what it was issued for.

  \<^bold>\<open>The decisions.\<close>  \<open>Policy\<close>: glob patterns and layered policies.  \<open>Agent_Card\<close>, \<open>Agent_Limits\<close>:
  what the card of an agent allows and the ledger that enforces it over all
  segments of a run.  \<open>Agent_Registry\<close> (\<^verbatim>\<open>agents/src\<close>): the lifecycle of
  agents, the registry in memory and the one over SQLite, both interpretations of one locale, and the routes that change
  them; an agent acts under the card it registered.  \<open>Dispatch_Guard\<close>, \<open>Node_Guard\<close>
  (\<^verbatim>\<open>workers/src/dispatch_guard.rs\<close>, \<^verbatim>\<open>node_guard.rs\<close>): whether a node may fire, and whether its result may be
  recorded.  \<open>Guard_Writes\<close>: a call of the guard is at most 14 appends, so that it is a run of the backend.

  \<^bold>\<open>The scheduler.\<close>  \<open>Progress\<close>, \<open>Scheduler\<close> (\<^verbatim>\<open>scheduler/src/runner.rs\<close>): the progress fold and the tick;
  \<open>Scheduling\<close>: the skip cascade reaches its fixpoint within the code's own bound of passes, an idle run advances,
  a completed run left nothing, on acyclic graphs whose edges come from nodes, which validation does not ask for.
  \<open>Run_State\<close>: the state that is dispatched and the one that is persisted.  \<open>Projector\<close> (locale \<open>projection_fold\<close>):
  the read model of approvals refines the statuses of the log as a pass reads it, with the others acting between the
  calls of the pass; its page loop has one unit of fuel a page, and as many as the running executions fill pages are
  enough.

  \<^bold>\<open>The workers.\<close>  \<open>Worker\<close> (\<^verbatim>\<open>workers/src/worker.rs\<close>): one turn as phases between the calls of the backend.
  \<open>Worker_Runs\<close>: a turn with the history of its steps, each with its inputs and the state it was taken in;
  whatever the others do between two steps, an executor is called only for a node the guard let
  fire, within the ceilings, right after its key was granted; a worker that lost its lease settles nothing; a turn ends, every
  step going down from rank 59.  \<open>Rollover\<close>: a rollover survives a crash after any of its writes.
  \<open>Condition_Node\<close>: the executor of condition nodes from the payload of the scheduler to its fold.
  \<open>Agent_Tool\<close> (\<^verbatim>\<open>executors/agent_tool.rs\<close>): the calls of remote agents; how the network cuts a stream into pieces
  does not matter, and the reader of the stream agrees with the reader of a whole body.

  \<^bold>\<open>The API.\<close>  \<open>Approval_Api\<close>: deciding a request.  \<open>Claim_Api\<close>, \<open>Claim_Runs\<close> (\<^verbatim>\<open>api/src/routes.rs\<close>): the
  worker protocol for workers that are not trusted; a claim looks at 16 candidates at most, as the code does.
  \<open>Run_Api\<close>: registration, start, cancellation and events of runs.  \<open>Auth\<close> (\<^verbatim>\<open>auth.rs\<close>, \<^verbatim>\<open>mcp_bridge.rs\<close>): roles,
  tokens, layers and the router; the routes that turn a token into a principal.  \<open>Cron_Expr\<close>, \<open>Cron\<close>, \<open>Timers\<close>
  (\<^verbatim>\<open>timers/src/lib.rs\<close>, \<^verbatim>\<open>api/src/cron.rs\<close>): cron expressions, scheduled runs and timers, over the locale
  \<open>polled_table\<close> of \<open>Polling\<close>.  \<open>Audit_Signer\<close>, \<open>Audit_Log\<close> (\<^verbatim>\<open>audit/src\<close>): signatures, the chain and its store.

  This theory shows that a request gets one outcome, whichever component gives it, over either store.

  \<^bold>\<open>How the code is read.\<close>  An operation of the in-memory backend is one atomic step, also where
  the code takes more than one lock, and its reads do not fail.  A call of the guard and the start of a segment are
  one step each; the two reads behind an idempotency key are one.  A statement of SQL is read as its effect on the tables
  under their keys and references; a transaction is one step, and what comes between two transactions of an operation is
  an argument of it.  Between the steps of a worker, of a request
  or of a pass of the projector the others act: a trace of the backend, or the function \<open>rq_others\<close> at numbered points, with the clock there.
  Texts are lists of the code points 0 to 255; a long dash in a message is a hyphen.  Times are milliseconds.
  The order of a hash map is an argument where it matters.  Fresh ids, clocks, hashes, signatures, the readers and
  writers of serde, the parser of UUIDs, the calendar, the matching of paths to routes, the answers of executors
  and the sealing of audit entries are parameters; what a result needs of one is a hypothesis of it,
  such as the absence of a collision.

  \<^bold>\<open>Not modelled.\<close>  The text of the columns in SQLite; the strategy bridge, the protocol adapters, model clients and the other executors (network calls); redaction (regular expressions of
  a library); the scoring of the coordinator (arithmetic on doubles beyond sums and comparisons); the routes of
  tenants, artifacts and listings, which pass a call on to the store; the memory service (a library and a server of its own); worker pools, heartbeat tasks and telemetry
  (spawned tasks around the modelled calls: a heartbeat is a step of the others).
\<close>

section \<open>One outcome for a request\<close>

text \<open>The two appends that resolve a request, each with the condition its component makes it under: the
  decision of the API and the expiry of the scheduler's sweep.\<close>

inductive resolution ::
    "externals \<Rightarrow> execution_id \<Rightarrow> node_id \<Rightarrow> event_sequence \<Rightarrow> event \<Rightarrow> (event list \<Rightarrow> bool) \<Rightarrow> bool"
  for x e n r where
  by_decision:
    "pa_sequence request = r \<Longrightarrow>
     resolution x e n r (event_new i now e 0 (ApprovalReceived (decision_event sub n request))) (\<lambda>events. still_open x events n r now)"
| by_expiry:
    "resolution x e n r (event_new i clock e 0 (deadline_event (Expire n r t))) (deadline_condition x (Expire n r t))"

inductive_cases resolutionE: "resolution x e n r ev cond"

lemma resolution_pending:
  assumes "resolution x e n r ev cond"
  shows "cond events \<Longrightarrow> still_pending x events n r" and "decides n ev \<or> expires n r ev" and "ev_execution_id ev = e"
  using assms
  by (auto elim!: resolutionE simp: still_open_def still_pending_def deadline_condition_def deadline_event_def decides_def expires_def
      event_new_def decision_event_def split: node_approval_status.splits)

lemma append_if_appended:
  assumes "snd (append_event_if ev cond s) = Inr (Appended q)"
  shows "cond (log_of s (ev_execution_id ev))" and "fst (append_event_if ev cond s) = fst (push_event ev s)"
  using assms by (auto simp: append_event_if_def split_beta Let_def split: option.splits if_splits)

text \<open>Where one of them was appended, neither is appended to what the log has become.\<close>

lemma resolution_closes:
  assumes "resolution x e n r ev cond" and "cond events" and "resolution x e n r ev' cond'"
    and "sorted_wrt (\<lambda>a b. ev_sequence a < ev_sequence b) (events @ ev\<lparr>ev_sequence := q\<rparr> # post)"
  shows "\<not> cond' (events @ ev\<lparr>ev_sequence := q\<rparr> # post)"
proof
  assume "cond' (events @ ev\<lparr>ev_sequence := q\<rparr> # post)"
  then have "still_pending x (events @ ev\<lparr>ev_sequence := q\<rparr> # post) n r" by (rule resolution_pending(1) [OF assms(3)])
  moreover have "decides n (ev\<lparr>ev_sequence := q\<rparr>) \<or> expires n r (ev\<lparr>ev_sequence := q\<rparr>)"
    using resolution_pending(2) [OF assms(1)] by (simp add: decides_def expires_def)
  ultimately show False using resolved_stays_resolved resolution_pending(1) [OF assms(1,2)] assms(4) by blast
qed

text \<open>C2: a request gets one outcome.  Once a decision of the API or an expiry of the sweep has been appended
  for it, then whatever all components do next, no later decision and no later expiry of the same request
  is ever appended.\<close>

theorem one_outcome_per_request:
  assumes "log_ok s" and "mb_next_sequence s < 2 ^ 62"
    and "resolution x e n r ev cond" and "snd (append_event_if ev cond s) = Inr (Appended q)"
    and "backend_trace x fresh (fst (append_event_if ev cond s)) ls u" and "resolution x e n r ev' cond'"
  shows "snd (append_event_if ev' cond' u) \<noteq> Inr (Appended q')"
proof
  let ?t = "fst (append_event_if ev cond s)"
  assume later: "snd (append_event_if ev' cond' u) = Inr (Appended q')"
  note first = append_if_appended [OF assms(4)] and run = resolution_pending(3) [OF assms(3)] resolution_pending(3) [OF assms(6)]
  have pos: "0 < mb_next_sequence s" "mb_next_sequence s < 2 ^ 63 - 1" using assms(1,2) by (simp_all add: well_sequenced_def)
  have g: "grows s ?t" unfolding first(2) using push_grows [OF pos] by blast
  have u: "grows ?t u" "log_ok u" using mlog.runs_append [OF trace_steps [OF assms(5)] appends_sequenced [OF g assms(1)]] by blast+
  obtain post where "log_of u e = log_of ?t e @ post" by (rule appends_obtain [OF u(1)])
  then have "log_of u e = log_of s e @ ev\<lparr>ev_sequence := mb_next_sequence s\<rparr> # post" unfolding first(2) using run by (simp add: log_of_push)
  then show False
    using resolution_closes [OF assms(3) _ assms(6)] first(1) append_if_appended(1) [OF later] log_ok_sorted [OF u(2), of e] run by metis
qed

theorem one_outcome_per_request_witness:
  "snd (append_event_if (event_new ''z'' 0 ''x'' 0 (deadline_event (Expire ''pay'' 2 0))) (deadline_condition sample_externals (Expire ''pay'' 2 0))
     (fst (land_approval sample_externals ''e'' 0 ''x'' sample_submission ''pay'' the_request awaiting))) \<noteq> Inr (Appended 4)"
proof -
  have r: "resolution sample_externals ''x'' ''pay'' 2 (event_new ''e'' 0 ''x'' 0 (ApprovalReceived (decision_event sample_submission ''pay'' the_request)))
      (\<lambda>events. still_open sample_externals events ''pay'' 2 0)"
    by (rule by_decision) (simp add: the_request_def)
  have land: "land_approval sample_externals ''e'' 0 ''x'' sample_submission ''pay'' the_request s =
      append_event_if (event_new ''e'' 0 ''x'' 0 (ApprovalReceived (decision_event sample_submission ''pay'' the_request)))
        (\<lambda>events. still_open sample_externals events ''pay'' 2 0) s" for s
    by (simp add: land_approval_def the_request_def)
  show ?thesis
    using one_outcome_per_request [OF reachable_log_ok [OF awaiting_trace(1)] _ r awaiting_landed [unfolded land] trace_nil by_expiry]
    by (simp add: land awaiting_log)
qed

section \<open>The same over SQLite\<close>

lemma sq_append_if_appended:
  assumes "snd (sq_append_event_if sc ev cond s) = Inr (Appended q)"
  shows "cond (sq_get_events None (ev_execution_id ev) s)"
    and "\<exists>t. db_events (fst (sq_append_event_if sc ev cond s)) = db_events s @ [event.extend (ev\<lparr>ev_sequence := q\<rparr>) \<lparr>sv_tenant_id = t\<rparr>]"
  using assms
  by (auto simp: sq_append_event_if_def transaction_def insert_event_def Let_def split: option.splits if_splits sum.splits)

lemma gapless_strict: "gapless s \<Longrightarrow> sorted_wrt (\<lambda>a b. ev_sequence a < ev_sequence b) (sq_get_events None e s)"
proof -
  assume g: "gapless s"
  then have "sorted_wrt (<) (map ev_sequence (run_rows e s))" by (simp add: gapless_def sorted_wrt_map del: upt_Suc)
  then show ?thesis by (simp add: gapless_events [OF g] sorted_wrt_map event.defs)
qed

text \<open>C3: over the SQLite store too a request gets one outcome, across tenants: after a decision or an expiry was
  appended, no later decision and no later expiry of the request is, whatever happens to the store in between.\<close>

theorem sql_one_outcome_per_request:
  assumes "sql_trace y fresh (sq_new t0) ls s"
    and "resolution x e n r ev cond" and "snd (sq_append_event_if sc ev cond s) = Inr (Appended q)"
    and "sql_trace y fresh (fst (sq_append_event_if sc ev cond s)) ls' u" and "int (length (db_events u)) < 2 ^ 63"
    and "resolution x e n r ev' cond'"
  shows "snd (sq_append_event_if sc' ev' cond' u) \<noteq> Inr (Appended q')"
proof
  let ?t = "fst (sq_append_event_if sc ev cond s)" and ?ev = "ev\<lparr>ev_sequence := q\<rparr>"
  assume later: "snd (sq_append_event_if sc' ev' cond' u) = Inr (Appended q')"
  note first = sq_append_if_appended [OF assms(3)] and run = resolution_pending(3) [OF assms(2)] resolution_pending(3) [OF assms(6)]
  obtain t where t: "db_events ?t = db_events s @ [event.extend ?ev \<lparr>sv_tenant_id = t\<rparr>]" using first(2) by blast
  have g: "log_grows (sq_new t0) s" "log_grows s ?t" "log_grows ?t u"
    using trace_grows assms(1,4) sq_append_if_grows [of sc ev cond s ?t] by (auto simp: prod_eq_iff)
  then obtain new where u: "db_events u = db_events ?t @ new" by (auto simp: log_grows_def)
  then have ok: "gapless s" "gapless u" using g sq_new_gapless assms(5) t by (auto simp: log_grows_def)
  have "sq_get_events None e u = sq_get_events None e s @ ?ev # map event.truncate (filter (\<lambda>r. ev_execution_id r = e) new)"
    using run by (simp add: gapless_events ok run_rows_def u t event.defs)
  then show False
    using resolution_closes [OF assms(2) _ assms(6)] first(1) sq_append_if_appended(1) [OF later] gapless_strict [OF ok(2), of e] run by metis
qed

definition sq_awaiting :: sql_store where
  "sq_awaiting = fst (sq_append_event None (Approvals.sample_request 0) (sq_with ann_row))"

definition first_request :: pending_approval where
  "first_request = from_request sample_externals ''pay'' ''wire'' ''human'' (json_object []) 1"

definition landed :: event where
  "landed = event_new ''d'' 0 ''x'' 0 (ApprovalReceived (decision_event sample_submission ''pay'' first_request))"

lemma sq_awaiting_events: "db_events sq_awaiting = [event.extend (Approvals.sample_request 1) \<lparr>sv_tenant_id = default_tenant\<rparr>]"
  and sq_awaiting_run: "\<exists>r. db_executions sq_awaiting ''x'' = Some r \<and> \<not> is_terminal (we_status r)" "db_tenants sq_awaiting default_tenant \<noteq> None"
proof -
  obtain s' where a: "sq_append_event None (Approvals.sample_request 0) (sq_with ann_row) = (s', Inr 1)"
      "s' = (sq_with ann_row)\<lparr>db_events := [event.extend (Approvals.sample_request 1) \<lparr>sv_tenant_id = default_tenant\<rparr>]\<rparr>"
    using ann_events
    by (auto simp: sq_append_event_def append_row_def transaction_def insert_event_def next_sequence_def run_rows_def stamp_def Approvals.sample_request_def
      sample_event_def event_new_def Let_def)
  then show "db_events sq_awaiting = [event.extend (Approvals.sample_request 1) \<lparr>sv_tenant_id = default_tenant\<rparr>]" by (simp add: sq_awaiting_def)
  have "\<exists>r. db_executions (sq_with ann_row) ''x'' = Some r \<and> \<not> is_terminal (we_status r)"
    by (simp add: sq_with_def sq_queued_def sq_enqueue_work_item_def sq_create_execution_def insert_execution_def insert_item_def transaction_def
      sq_new_def stamp_def sample_item_def sample_execution_def workflow_execution.defs)
  then show "\<exists>r. db_executions sq_awaiting ''x'' = Some r \<and> \<not> is_terminal (we_status r)" "db_tenants sq_awaiting default_tenant \<noteq> None"
    using a ann_events(3) by (simp_all add: sq_awaiting_def)
qed

lemma sq_awaiting_trace: "sql_trace x fresh (sq_new 0) [None, None, Some (''w'', 1), None] sq_awaiting"
proof -
  have "sql_step x fresh (sq_with ann_row) None sq_awaiting" unfolding sq_awaiting_def by (rule sql_stepI [OF ann_in_range sop_append])
  from sql_snoc [OF ann_trace this] show ?thesis by simp
qed

lemma sq_awaiting_log: "sq_get_events None ''x'' sq_awaiting = [Approvals.sample_request 1]"
  unfolding sq_get_events_def run_rows_def sq_awaiting_events
  by (simp add: in_scope_def event.defs Approvals.sample_request_def sample_event_def event_new_def)

lemma sq_awaiting_open: "still_open sample_externals [Approvals.sample_request 1] ''pay'' 1 0"
  by (simp add: still_open_def sample_log_simps request_deadline_def deadline_of_def read_deadline_def expired_def json_object_def)

lemma sq_landed:
  "snd (sq_append_event_if None landed (\<lambda>events. still_open sample_externals events ''pay'' 1 0) sq_awaiting) = Inr (Appended 2)"
  "length (db_events (fst (sq_append_event_if None landed (\<lambda>events. still_open sample_externals events ''pay'' 1 0) sq_awaiting))) = 2"
  using sq_awaiting_run sq_awaiting_open [unfolded Approvals.sample_request_def sample_event_def event_new_def]
  by (auto simp: sq_append_event_if_def execution_row_def in_scope_def landed_def event_new_def sq_awaiting_log sq_awaiting_open transaction_def
      insert_event_def sq_awaiting_events stamp_def Approvals.sample_request_def sample_event_def wrap_i64_def event.defs Let_def)

theorem sql_one_outcome_per_request_witness:
  "snd (sq_append_event_if None (event_new ''z'' 0 ''x'' 0 (deadline_event (Expire ''pay'' 1 0))) (deadline_condition sample_externals (Expire ''pay'' 1 0))
     (fst (sq_append_event_if None landed (\<lambda>events. still_open sample_externals events ''pay'' 1 0) sq_awaiting))) \<noteq> Inr (Appended 3)"
proof -
  have r: "resolution sample_externals ''x'' ''pay'' 1 landed (\<lambda>events. still_open sample_externals events ''pay'' 1 0)"
    unfolding landed_def by (rule by_decision) (simp add: first_request_def)
  show ?thesis
    using sql_one_outcome_per_request [OF sq_awaiting_trace [of sample_externals "\<lambda>_ _. ''e''"] r sq_landed(1) sql_nil _ by_expiry]
    by (simp add: sq_landed(2))
qed

end
